(* ===== verification/Lumi_Prelude.thy ===== *)
theory Lumi_Prelude
  imports Main "HOL-Library.Word"
begin

text \<open>
  The vocabulary the component theories share: Rust's \<open>Result\<close> as a sum type with its
  combinators (\<open>?\<close>, \<open>ok_or\<close>, \<open>map_err\<close>, \<open>collect\<close> into a \<open>Result\<close>), checked and
  saturating integer arithmetic on words, blank strings (\<open>str::trim().is_empty()\<close>),
  bounded histories, contiguous beat ranges, and machines driven by a list of events.
  \<open>String\<close> values are modelled by their UTF-8 bytes.
\<close>

named_theorems result_simps \<open>equations and splitting facts for computations on sums\<close>
named_theorems word_num \<open>facts that move word arithmetic to the naturals\<close>

section \<open>Machine integers of the source\<close>

type_synonym u8 = "8 word"
type_synonym u16 = "16 word"
type_synonym u32 = "32 word"
type_synonym u64 = "64 word"

text \<open>An \<open>Instant\<close> and a \<open>Duration\<close> are nanoseconds.\<close>

type_synonym Instant = nat
type_synonym Duration = nat

definition checked_add :: "'a::len word \<Rightarrow> 'a word \<Rightarrow> 'a word option" where
  "checked_add a b = (if unat a + unat b < 2 ^ LENGTH('a) then Some (a + b) else None)"

definition checked_sub :: "'a::len word \<Rightarrow> 'a word \<Rightarrow> 'a word option" where
  "checked_sub a b = (if b \<le> a then Some (a - b) else None)"

definition saturating_add :: "'a::len word \<Rightarrow> 'a word \<Rightarrow> 'a word" where
  "saturating_add a b = (if unat a + unat b < 2 ^ LENGTH('a) then a + b else - 1)"

definition saturating_sub :: "'a::len word \<Rightarrow> 'a word \<Rightarrow> 'a word" where
  "saturating_sub a b = (if b \<le> a then a - b else 0)"

definition saturating_mul :: "'a::len word \<Rightarrow> 'a word \<Rightarrow> 'a word" where
  "saturating_mul a b = (if unat a * unat b < 2 ^ LENGTH('a) then a * b else - 1)"

lemma unat_add_exact:
  fixes a b :: "'a::len word"
  shows "unat a + unat b < 2 ^ LENGTH('a) \<Longrightarrow> unat (a + b) = unat a + unat b"
  by (simp add: unat_word_ariths)

lemma checked_add_SomeD [word_num]:
  "checked_add a b = Some c \<Longrightarrow> unat c = unat a + unat b"
  by (auto simp: checked_add_def unat_add_exact split: if_splits)

lemma checked_add_eq_None:
  fixes a b :: "'a::len word"
  shows "checked_add a b = None \<longleftrightarrow> 2 ^ LENGTH('a) \<le> unat a + unat b"
  by (simp add: checked_add_def not_less)

lemma checked_add_Some_ge: "checked_add a b = Some c \<Longrightarrow> a \<le> c"
  using checked_add_SomeD [of a b c] by (simp add: word_le_nat_alt)

lemma checked_add_Some_gt: "checked_add a b = Some c \<Longrightarrow> b \<noteq> 0 \<Longrightarrow> a < c"
  using checked_add_SomeD [of a b c] by (simp add: word_less_nat_alt unat_gt_0)

lemma unat_saturating_add [word_num]:
  fixes a b :: "'a::len word"
  shows "unat (saturating_add a b) = min (unat a + unat b) (2 ^ LENGTH('a) - 1)"
  by (auto simp: saturating_add_def unat_add_exact unsigned_minus_1_eq_mask mask_eq_exp_minus_1)

lemma unat_saturating_sub [word_num]: "unat (saturating_sub a b) = unat a - unat b"
  by (auto simp: saturating_sub_def unat_sub word_le_nat_alt)

lemma unat_saturating_mul [word_num]:
  fixes a b :: "'a::len word"
  shows "unat (saturating_mul a b) = min (unat a * unat b) (2 ^ LENGTH('a) - 1)"
  by (auto simp: saturating_mul_def unsigned_minus_1_eq_mask mask_eq_exp_minus_1 unat_word_ariths)

section \<open>Results\<close>

text \<open>A \<open>Result<A, E>\<close> is \<open>E + A\<close>; \<open>Inl\<close> carries the error.\<close>

definition and_then :: "'e + 'a \<Rightarrow> ('a \<Rightarrow> 'e + 'b) \<Rightarrow> 'e + 'b" where
  "and_then r f = (case r of Inl e \<Rightarrow> Inl e | Inr a \<Rightarrow> f a)"

definition map_err :: "('e \<Rightarrow> 'f) \<Rightarrow> 'e + 'a \<Rightarrow> 'f + 'a" where
  "map_err f r = (case r of Inl e \<Rightarrow> Inl (f e) | Inr a \<Rightarrow> Inr a)"

definition ok_or :: "'a option \<Rightarrow> 'e \<Rightarrow> 'e + 'a" where
  "ok_or x e = (case x of None \<Rightarrow> Inl e | Some a \<Rightarrow> Inr a)"

definition ok :: "'e + 'a \<Rightarrow> 'a option" where
  "ok r = (case r of Inl _ \<Rightarrow> None | Inr a \<Rightarrow> Some a)"

text \<open>\<open>iter().map(f).collect::<Result<Vec<_>, _>>()\<close>: the first error wins.\<close>

fun try_map :: "('a \<Rightarrow> 'e + 'b) \<Rightarrow> 'a list \<Rightarrow> 'e + 'b list" where
  "try_map f [] = Inr []"
| "try_map f (x # xs) =
     and_then (f x) (\<lambda>y. and_then (try_map f xs) (\<lambda>ys. Inr (y # ys)))"

text \<open>\<open>Iterator::find_map\<close>.\<close>

fun find_map :: "('a \<Rightarrow> 'b option) \<Rightarrow> 'a list \<Rightarrow> 'b option" where
  "find_map f [] = None"
| "find_map f (x # xs) = (case f x of None \<Rightarrow> find_map f xs | Some y \<Rightarrow> Some y)"

text \<open>\<open>slice::get\<close>.\<close>

definition get_nth :: "'a list \<Rightarrow> nat \<Rightarrow> 'a option" where
  "get_nth xs i = (if i < length xs then Some (xs ! i) else None)"

text \<open>\<open>Ord::clamp\<close>.\<close>

definition clamp :: "'a::linorder \<Rightarrow> 'a \<Rightarrow> 'a \<Rightarrow> 'a" where
  "clamp x lo hi = (if x < lo then lo else if hi < x then hi else x)"

text \<open>\<open>Vec::remove\<close> and \<open>Vec::insert\<close> at an index in range.\<close>

definition remove_at :: "nat \<Rightarrow> 'a list \<Rightarrow> 'a list" where
  "remove_at i xs = take i xs @ drop (Suc i) xs"

definition insert_at :: "nat \<Rightarrow> 'a \<Rightarrow> 'a list \<Rightarrow> 'a list" where
  "insert_at i x xs = take i xs @ x # drop i xs"

lemma get_nth_eq [result_simps]:
  "get_nth xs i = Some x \<longleftrightarrow> i < length xs \<and> xs ! i = x"
  "get_nth xs i = None \<longleftrightarrow> length xs \<le> i"
  by (auto simp: get_nth_def)

lemma find_map_Some: "find_map f xs = Some y \<Longrightarrow> \<exists>x \<in> set xs. f x = Some y"
  by (induction xs) (auto split: option.splits)

lemma and_then_simps [simp, result_simps]:
  "and_then (Inl e) f = Inl e"
  "and_then (Inr a) f = f a"
  by (simp_all add: and_then_def)

lemma and_then_eq_Inr [result_simps]:
  "and_then r f = Inr b \<longleftrightarrow> (\<exists>a. r = Inr a \<and> f a = Inr b)"
  by (cases r) auto

lemma and_then_eq_Inl [result_simps]:
  "and_then r f = Inl e \<longleftrightarrow> r = Inl e \<or> (\<exists>a. r = Inr a \<and> f a = Inl e)"
  by (cases r) auto

lemma map_err_simps [simp, result_simps]:
  "map_err g (Inl e) = Inl (g e)"
  "map_err g (Inr a) = Inr a"
  by (simp_all add: map_err_def)

lemma map_err_eq [result_simps]:
  "map_err g r = Inr b \<longleftrightarrow> r = Inr b"
  "map_err g r = Inl f \<longleftrightarrow> (\<exists>e. r = Inl e \<and> f = g e)"
  by (cases r; auto)+

lemma ok_or_simps [simp, result_simps]:
  "ok_or None e = Inl e"
  "ok_or (Some a) e = Inr a"
  by (simp_all add: ok_or_def)

lemma ok_or_eq [result_simps]:
  "ok_or x e = Inr a \<longleftrightarrow> x = Some a"
  "ok_or x e = Inl f \<longleftrightarrow> x = None \<and> f = e"
  by (cases x; auto)+

lemma ok_simps [simp, result_simps]:
  "ok (Inl e) = None"
  "ok (Inr a) = Some a"
  by (simp_all add: ok_def)

lemma try_map_eq_Inr [result_simps]:
  "try_map f xs = Inr ys \<longleftrightarrow> list_all2 (\<lambda>x y. f x = Inr y) xs ys"
  by (induction xs arbitrary: ys) (auto simp: result_simps list_all2_Cons1)

lemma try_map_eq_Inl:
  "try_map f xs = Inl e \<Longrightarrow> \<exists>x \<in> set xs. f x = Inl e"
  by (induction xs) (auto simp: result_simps)

lemma try_map_total: "(\<And>x. x \<in> set xs \<Longrightarrow> \<exists>y. f x = Inr y) \<Longrightarrow> \<exists>ys. try_map f xs = Inr ys"
  by (induction xs) (fastforce simp: result_simps)+

lemma clamp_bounds: "lo \<le> hi \<Longrightarrow> lo \<le> clamp x lo hi \<and> clamp x lo hi \<le> hi"
  by (auto simp: clamp_def)

lemma clamp_inside: "lo \<le> x \<Longrightarrow> x \<le> hi \<Longrightarrow> clamp x lo hi = x"
  by (auto simp: clamp_def)

lemma set_remove_at: "set (remove_at i xs) \<subseteq> set xs"
  by (auto simp: remove_at_def dest: in_set_takeD in_set_dropD)

lemma filter_remove_at:
  "i < length xs \<Longrightarrow> \<not> P (xs ! i) \<Longrightarrow> filter P (remove_at i xs) = filter P xs"
  unfolding remove_at_def
  by (subst (3) id_take_nth_drop [of i xs]) auto

lemma length_remove_at: "i < length xs \<Longrightarrow> length (remove_at i xs) = length xs - 1"
  by (simp add: remove_at_def)

lemma try_map_map_err: "try_map (\<lambda>x. map_err g (f x)) xs = map_err g (try_map f xs)"
  by (induction xs) (auto simp: and_then_def map_err_def split: sum.split)

lemma find_SomeD: "find P xs = Some x \<Longrightarrow> x \<in> set xs \<and> P x"
  by (auto simp: find_Some_iff)

lemma find_exists: "x \<in> set xs \<Longrightarrow> P x \<Longrightarrow> \<exists>y. find P xs = Some y"
  by (cases "find P xs") (auto simp: find_None_iff)

section \<open>Searching and choosing\<close>

text \<open>\<open>Iterator::position\<close>: the first index that satisfies the predicate.\<close>

fun position :: "('a \<Rightarrow> bool) \<Rightarrow> 'a list \<Rightarrow> nat option" where
  "position P [] = None"
| "position P (x # xs) = (if P x then Some 0 else map_option Suc (position P xs))"

lemma position_SomeD: "position P xs = Some i \<Longrightarrow> i < length xs \<and> P (xs ! i) \<and> (\<forall>j < i. \<not> P (xs ! j))"
proof (induction xs arbitrary: i)
  case (Cons x xs)
  then show ?case by (auto simp: less_Suc_eq_0_disj split: if_splits)
qed simp

lemma position_None: "position P xs = None \<longleftrightarrow> (\<forall>x \<in> set xs. \<not> P x)"
  by (induction xs) auto

lemma position_exists: "x \<in> set xs \<Longrightarrow> P x \<Longrightarrow> \<exists>i. position P xs = Some i"
  by (cases "position P xs") (auto simp: position_None)

definition abs_diff :: "'a::len word \<Rightarrow> 'a word \<Rightarrow> 'a word" where
  "abs_diff a b = (if a < b then b - a else a - b)"

text \<open>\<open>min_by_key\<close> on a non-empty list: the first of the elements with the least key.\<close>

fun min_by_key :: "('a \<Rightarrow> 'k::linorder) \<Rightarrow> 'a \<Rightarrow> 'a list \<Rightarrow> 'a" where
  "min_by_key f x [] = x"
| "min_by_key f x (y # ys) = min_by_key f (if f y < f x then y else x) ys"

section \<open>Results of methods that mutate\<close>

text \<open>The operator \<open>?\<close> in a method that mutates its receiver.\<close>

definition state_then :: "'s \<times> ('e + 'a) \<Rightarrow> ('s \<Rightarrow> 'a \<Rightarrow> 's \<times> ('e + 'b)) \<Rightarrow> 's \<times> ('e + 'b)" where
  "state_then x f = (case x of (s, Inl e) \<Rightarrow> (s, Inl e) | (s, Inr a) \<Rightarrow> f s a)"

fun is_ok :: "'e + 'a \<Rightarrow> bool" where
  "is_ok (Inl _) = False"
| "is_ok (Inr _) = True"

text \<open>The proof rule for \<open>?\<close>: what the first part keeps, the rest may use.\<close>

lemma state_then_keeps:
  "P (fst x) \<Longrightarrow> (\<And>s a. P s \<Longrightarrow> P (fst (f s a))) \<Longrightarrow> P (fst (state_then x f))"
  by (cases x) (auto simp: state_then_def split: sum.splits)

lemma state_then_Inr:
  "state_then x f = (t, Inr b) \<Longrightarrow> \<exists>s a. x = (s, Inr a) \<and> f s a = (t, Inr b)"
  by (auto simp: state_then_def split: prod.splits sum.splits)

section \<open>Blank strings\<close>

text \<open>
  \<open>s.trim().is_empty()\<close> holds when every scalar value of \<open>s\<close> has the Unicode property
  \<open>White_Space\<close>. On UTF-8 bytes these are the six ASCII ones, U+0085 and U+00A0 (two
  bytes), and U+1680, U+2000 to U+200A, U+2028, U+2029, U+202F, U+205F and U+3000
  (three bytes).
\<close>

definition ascii_white_space :: "nat \<Rightarrow> bool" where
  "ascii_white_space c \<longleftrightarrow> (9 \<le> c \<and> c \<le> 13) \<or> c = 32"

definition white_space2 :: "nat \<Rightarrow> nat \<Rightarrow> bool" where
  "white_space2 a b \<longleftrightarrow> a = 194 \<and> (b = 133 \<or> b = 160)"

definition white_space3 :: "nat \<Rightarrow> nat \<Rightarrow> nat \<Rightarrow> bool" where
  "white_space3 a b c \<longleftrightarrow>
     (a = 225 \<and> b = 154 \<and> c = 128)
   \<or> (a = 226 \<and> b = 128 \<and> ((128 \<le> c \<and> c \<le> 138) \<or> c = 168 \<or> c = 169 \<or> c = 175))
   \<or> (a = 226 \<and> b = 129 \<and> c = 159)
   \<or> (a = 227 \<and> b = 128 \<and> c = 128)"

fun blank_bytes :: "nat list \<Rightarrow> bool" where
  "blank_bytes [] = True"
| "blank_bytes [a] = ascii_white_space a"
| "blank_bytes [a, b] =
     (if ascii_white_space a then blank_bytes [b] else white_space2 a b)"
| "blank_bytes (a # b # c # rest) =
     (if ascii_white_space a then blank_bytes (b # c # rest)
      else if white_space2 a b then blank_bytes (c # rest)
      else white_space3 a b c \<and> blank_bytes rest)"

definition blank :: "string \<Rightarrow> bool" where
  "blank s = blank_bytes (map (of_char :: char \<Rightarrow> nat) s)"

lemma blank_Nil [simp]: "blank []"
  by (simp add: blank_def)

section \<open>Bounded histories\<close>

text \<open>
  A history of at most \<open>limit\<close> entries that drops its oldest entry when a new one
  arrives (\<open>pop_front\<close> and then \<open>push_back\<close> on a \<open>VecDeque\<close>).
\<close>

definition push_bounded :: "nat \<Rightarrow> 'a list \<Rightarrow> 'a \<Rightarrow> 'a list" where
  "push_bounded limit xs x = (if length xs = limit then tl xs else xs) @ [x]"

lemma tl_drop_snoc: "k < length zs \<Longrightarrow> tl (drop k zs) @ [x] = drop (Suc k) (zs @ [x])"
  by (simp add: drop_Suc drop_tl)

locale bounded_history =
  fixes get :: "'s \<Rightarrow> 'a list"
    and push :: "'s \<Rightarrow> 'a \<Rightarrow> 's"
    and limit :: nat
  assumes limit_pos: "0 < limit"
    and get_push: "get (push s x) = push_bounded limit (get s) x"
begin

lemma history_bounded: "length (get s) \<le> limit \<Longrightarrow> length (get (push s x)) \<le> limit"
  using limit_pos by (auto simp: get_push push_bounded_def)

lemma history_last: "get (push s x) \<noteq> [] \<and> last (get (push s x)) = x"
  by (simp add: get_push push_bounded_def)

lemma history_run:
  "length (get s) \<le> limit \<Longrightarrow>
   get (foldl push s xs) = drop (length (get s) + length xs - limit) (get s @ xs)"
proof (induction xs rule: rev_induct)
  case Nil
  then show ?case by simp
next
  case (snoc x xs)
  let ?n = "length (get s) + length xs"
  have IH: "get (foldl push s xs) = drop (?n - limit) (get s @ xs)"
    using snoc by simp
  then have len: "length (get (foldl push s xs)) = ?n - (?n - limit)"
    by simp
  have "get (foldl push s (xs @ [x]))
      = (if ?n - (?n - limit) = limit then tl (drop (?n - limit) (get s @ xs))
         else drop (?n - limit) (get s @ xs)) @ [x]"
    by (simp add: get_push push_bounded_def IH len)
  also have "\<dots> = drop (Suc ?n - limit) (get s @ xs @ [x])"
  proof (cases "limit \<le> ?n")
    case True
    then have "?n - (?n - limit) = limit" "Suc ?n - limit = Suc (?n - limit)"
      by simp_all
    then show ?thesis
      using tl_drop_snoc [of "?n - limit" "get s @ xs" x] limit_pos True by simp
  next
    case False
    then show ?thesis by simp
  qed
  finally show ?case by simp
qed

end

section \<open>Contiguous ranges\<close>

text \<open>
  A list of ranges \<open>[s x, e x)\<close> that starts at \<open>b\<close>, in which each range is non-empty and
  starts where the one before ends. \<open>tiles_end\<close> is where the last range ends.
\<close>

fun tiles :: "('a \<Rightarrow> 'n::linorder) \<Rightarrow> ('a \<Rightarrow> 'n) \<Rightarrow> 'n \<Rightarrow> 'a list \<Rightarrow> bool" where
  "tiles s e b [] = True"
| "tiles s e b (x # xs) = (s x = b \<and> s x < e x \<and> tiles s e (e x) xs)"

fun tiles_end :: "('a \<Rightarrow> 'n) \<Rightarrow> 'n \<Rightarrow> 'a list \<Rightarrow> 'n" where
  "tiles_end e b [] = b"
| "tiles_end e b (x # xs) = tiles_end e (e x) xs"

lemma tiles_append:
  "tiles s e b (xs @ ys) \<longleftrightarrow> tiles s e b xs \<and> tiles s e (tiles_end e b xs) ys"
  by (induction xs arbitrary: b) auto

lemma tiles_end_append: "tiles_end e b (xs @ ys) = tiles_end e (tiles_end e b xs) ys"
  by (induction xs arbitrary: b) auto

lemma tiles_end_last: "xs \<noteq> [] \<Longrightarrow> tiles_end e b xs = e (last xs)"
  by (induction xs arbitrary: b) auto

text \<open>The position of each element is its own index field.\<close>

definition indexed :: "('a \<Rightarrow> 'i::len word) \<Rightarrow> 'a list \<Rightarrow> bool" where
  "indexed idx xs \<longleftrightarrow> (\<forall>i < length xs. unat (idx (xs ! i)) = i)"

lemma tiles_le_end: "tiles s e b xs \<Longrightarrow> b \<le> tiles_end e b xs"
proof (induction xs arbitrary: b)
  case (Cons x xs)
  then have "e x \<le> tiles_end e (e x) xs" and "b < e x" by auto
  then show ?case by simp
qed simp

lemma tiles_less_end: "tiles s e b xs \<Longrightarrow> xs \<noteq> [] \<Longrightarrow> b < tiles_end e b xs"
  by (cases xs) (auto dest: tiles_le_end)

lemma tiles_member:
  "tiles s e b xs \<Longrightarrow> x \<in> set xs \<Longrightarrow> b \<le> s x \<and> s x < e x \<and> e x \<le> tiles_end e b xs"
proof (induction xs arbitrary: b)
  case (Cons y xs)
  then show ?case using tiles_le_end [of s e "e y" xs] by fastforce
qed simp

lemma tiles_cover:
  "tiles s e b xs \<Longrightarrow> b \<le> p \<Longrightarrow> p < tiles_end e b xs \<Longrightarrow>
   \<exists>i < length xs. s (xs ! i) \<le> p \<and> p < e (xs ! i)"
proof (induction xs arbitrary: b)
  case (Cons y xs)
  show ?case
  proof (cases "p < e y")
    case True
    with Cons.prems show ?thesis by (intro exI [of _ 0]) auto
  next
    case False
    with Cons obtain i where "i < length xs" "s (xs ! i) \<le> p" "p < e (xs ! i)" by force
    then show ?thesis by (intro exI [of _ "Suc i"]) auto
  qed
qed simp

lemma tiles_nth_mono:
  "tiles s e b xs \<Longrightarrow> i < j \<Longrightarrow> j < length xs \<Longrightarrow> e (xs ! i) \<le> s (xs ! j)"
proof (induction xs arbitrary: b i j)
  case (Cons y xs)
  then obtain j' where j: "j = Suc j'" by (cases j) auto
  show ?case
  proof (cases i)
    case 0
    with Cons.prems j have "xs ! j' \<in> set xs" and "tiles s e (e y) xs" by auto
    with 0 j show ?thesis using tiles_member by fastforce
  next
    case (Suc i')
    with Cons j show ?thesis by auto
  qed
qed simp

lemma tiles_unique:
  assumes t: "tiles s e b xs" and i: "i < length xs" and j: "j < length xs"
    and "s (xs ! i) \<le> p" "p < e (xs ! i)" "s (xs ! j) \<le> p" "p < e (xs ! j)"
  shows "i = j"
proof (rule linorder_cases [of i j])
  assume "i < j"
  then show ?thesis using tiles_nth_mono [OF t _ j] assms by fastforce
next
  assume "j < i"
  then show ?thesis using tiles_nth_mono [OF t _ i] assms by fastforce
qed

lemma tiles_cong:
  "map s xs = map s' ys \<Longrightarrow> map e xs = map e' ys \<Longrightarrow>
   tiles s e b xs = tiles s' e' b ys \<and> tiles_end e b xs = tiles_end e' b ys"
proof (induction xs arbitrary: ys b)
  case (Cons x xs)
  then obtain y ys' where "ys = y # ys'" by (cases ys) auto
  with Cons show ?case by simp
qed simp

lemma indexed_cong: "map idx xs = map idx' ys \<Longrightarrow> indexed idx xs = indexed idx' ys"
proof -
  assume m: "map idx xs = map idx' ys"
  then have l: "length xs = length ys" by (metis length_map)
  have "\<And>i. i < length xs \<Longrightarrow> idx (xs ! i) = idx' (ys ! i)"
    using m l by (metis nth_map)
  with l show ?thesis by (simp add: indexed_def)
qed

text \<open>
  The interface of everything that divides a track into phrases: a container whose
  items are numbered in order and tile the beats from zero to its duration.
\<close>

locale beat_partition =
  fixes wf :: "'c \<Rightarrow> bool"
    and items :: "'c \<Rightarrow> 'a list"
    and index :: "'a \<Rightarrow> u16"
    and start_of :: "'a \<Rightarrow> u32"
    and end_of :: "'a \<Rightarrow> u32"
    and duration :: "'c \<Rightarrow> u32"
  assumes part_nonempty: "wf c \<Longrightarrow> items c \<noteq> []"
    and part_indexed: "wf c \<Longrightarrow> indexed index (items c)"
    and part_tiles: "wf c \<Longrightarrow> tiles start_of end_of 0 (items c)"
    and part_end: "wf c \<Longrightarrow> tiles_end end_of 0 (items c) = duration c"
begin

lemma part_duration_pos: "wf c \<Longrightarrow> 0 < duration c"
  using tiles_less_end part_nonempty part_tiles part_end by metis

lemma part_item_bounds:
  "wf c \<Longrightarrow> x \<in> set (items c) \<Longrightarrow> start_of x < end_of x \<and> end_of x \<le> duration c"
  using tiles_member part_tiles part_end by metis

lemma part_covers:
  assumes "wf c"
  shows "(\<exists>!i. i < length (items c) \<and> start_of (items c ! i) \<le> p \<and> p < end_of (items c ! i))
     \<longleftrightarrow> p < duration c"
proof
  assume "\<exists>!i. i < length (items c) \<and> start_of (items c ! i) \<le> p \<and> p < end_of (items c ! i)"
  then obtain i where "i < length (items c)" "p < end_of (items c ! i)" by blast
  then show "p < duration c"
    using part_item_bounds [OF assms, of "items c ! i"] by fastforce
next
  assume "p < duration c"
  then obtain i where "i < length (items c)" "start_of (items c ! i) \<le> p" "p < end_of (items c ! i)"
    using tiles_cover [OF part_tiles [OF assms], of p] part_end [OF assms] by auto
  then show "\<exists>!i. i < length (items c) \<and> start_of (items c ! i) \<le> p \<and> p < end_of (items c ! i)"
    using tiles_unique [OF part_tiles [OF assms]] by blast
qed

lemma part_find:
  assumes "wf c"
  shows "map_option index (find (\<lambda>x. start_of x \<le> p \<and> p < end_of x) (items c)) = Some k
     \<longleftrightarrow> unat k < length (items c)
         \<and> start_of (items c ! unat k) \<le> p \<and> p < end_of (items c ! unat k)"
    (is "?l \<longleftrightarrow> ?r")
proof
  assume ?l
  then obtain x where f: "find (\<lambda>x. start_of x \<le> p \<and> p < end_of x) (items c) = Some x"
    and k: "index x = k" by auto
  from f obtain i where i: "i < length (items c)" "x = items c ! i" "start_of x \<le> p" "p < end_of x"
    by (auto simp: find_Some_iff)
  then have "unat k = i" using part_indexed [OF assms] k by (auto simp: indexed_def)
  with i show ?r by auto
next
  assume r: ?r
  have "\<exists>x. find (\<lambda>x. start_of x \<le> p \<and> p < end_of x) (items c) = Some x"
  proof (rule ccontr)
    assume "\<not> ?thesis"
    then have "find (\<lambda>x. start_of x \<le> p \<and> p < end_of x) (items c) = None" by auto
    then show False using r by (force simp: find_None_iff)
  qed
  then obtain x where f: "find (\<lambda>x. start_of x \<le> p \<and> p < end_of x) (items c) = Some x" ..
  then obtain i where i: "i < length (items c)" "x = items c ! i" "start_of x \<le> p" "p < end_of x"
    by (auto simp: find_Some_iff)
  then have "i = unat k" using r tiles_unique [OF part_tiles [OF assms]] by blast
  moreover have "unat (index x) = i" using i part_indexed [OF assms] by (simp add: indexed_def)
  ultimately show ?l using f by (simp add: unsigned_word_eqI)
qed

end

section \<open>Machines driven by events\<close>

text \<open>
  A machine consumes events one at a time. An event whose step fails leaves the state as
  it was, which is what a caller sees that keeps its state when \<open>Result\<close> is an error.
\<close>

fun run_machine :: "('s \<Rightarrow> 'e \<Rightarrow> 'err + ('s \<times> 'o)) \<Rightarrow> 's \<Rightarrow> 'e list \<Rightarrow> 's \<times> 'o list" where
  "run_machine step s [] = (s, [])"
| "run_machine step s (ev # evs) =
     (case step s ev of
        Inl _ \<Rightarrow> run_machine step s evs
      | Inr (s', out) \<Rightarrow> (let (t, outs) = run_machine step s' evs in (t, out # outs)))"

locale invariant_machine =
  fixes step :: "'s \<Rightarrow> 'e \<Rightarrow> 'err + ('s \<times> 'o)"
    and inv :: "'s \<Rightarrow> bool"
    and admissible :: "'e \<Rightarrow> bool"
  assumes inv_step: "inv s \<Longrightarrow> admissible ev \<Longrightarrow> step s ev = Inr (s', out) \<Longrightarrow> inv s'"
begin

lemma inv_run_from:
  "inv s \<Longrightarrow> list_all admissible evs \<Longrightarrow> inv (fst (run_machine step s evs))"
proof (induction evs arbitrary: s)
  case (Cons ev evs)
  then show ?case
    by (auto split: sum.split prod.split dest: inv_step)
       (metis Cons.IH fst_conv inv_step)
qed simp

end

locale event_machine = invariant_machine step inv admissible
  for step :: "'s \<Rightarrow> 'e \<Rightarrow> 'err + ('s \<times> 'o)"
    and inv :: "'s \<Rightarrow> bool"
    and admissible :: "'e \<Rightarrow> bool" +
  fixes init :: 's
  assumes inv_init: "inv init"
begin

lemma inv_run: "list_all admissible evs \<Longrightarrow> inv (fst (run_machine step init evs))"
  using inv_run_from inv_init by blast

end

end
