(* ===== verification/Track.thy ===== *)
theory Track
  imports Lumi_Prelude
begin

unbundle bit_operations_syntax

text \<open>
  Identifiers (\<open>identifiers.rs\<close>), monotonic time (\<open>time.rs\<close>) and track metadata
  (\<open>track.rs\<close>) of the domain crate. A numeric identifier is a newtype over an unsigned
  integer that is compared and copied only, so it is a synonym for the word itself;
  \<open>checked_next\<close> is the one arithmetic operation on the two revision types. The private
  fields of \<open>TrackMetadata\<close> are reachable through its smart constructors only;
  \<open>track_ok\<close> is what these establish.
\<close>

section \<open>Identifiers and time\<close>

type_synonym ClientId = u64
type_synonym CommandSequence = u64
type_synonym CueId = u64
type_synonym DeckId = u8
type_synonym EffectId = u64
type_synonym EffectSequence = u64
type_synonym OutputCommandId = u64
type_synonym PlanId = u64
type_synonym PlanConfigurationRevision = u64
type_synonym PlanRevision = u64
type_synonym SceneId = u64
type_synonym SourceId = u64
type_synonym SourceSequence = u64
type_synonym StateRevision = u64
type_synonym ThemeId = u64
type_synonym TrackId = u64
type_synonym TrackLoadId = u64
type_synonym WorkerId = u64
type_synonym MonotonicTime = u64

definition plan_revision_initial :: PlanRevision where
  "plan_revision_initial = 1"

definition plan_revision_checked_next :: "PlanRevision \<Rightarrow> PlanRevision option" where
  "plan_revision_checked_next r = checked_add r 1"

definition state_revision_initial :: StateRevision where
  "state_revision_initial = 0"

definition state_revision_checked_next :: "StateRevision \<Rightarrow> StateRevision option" where
  "state_revision_checked_next r = checked_add r 1"

lemma plan_revision_next_gt:
  "plan_revision_checked_next r = Some r' \<Longrightarrow> r < r' \<and> r' \<noteq> 0"
  unfolding plan_revision_checked_next_def
  by (metis checked_add_Some_gt not_less_zero word_neq_0_conv zero_neq_one word_not_simps(1))

section \<open>Track data\<close>

record TrackIdentityFacts =
  facts_provider_kind :: string
  facts_source_id :: string
  facts_source_track_id :: string
  facts_analysis_revision :: string
  facts_lumi_timeline_revision :: u64

record TrackColor =
  color_red :: u8
  color_green :: u8
  color_blue :: u8

definition new_color :: "u8 \<Rightarrow> u8 \<Rightarrow> u8 \<Rightarrow> TrackColor" where
  "new_color r g b = \<lparr>color_red = r, color_green = g, color_blue = b\<rparr>"

definition rgb_u32 :: "TrackColor \<Rightarrow> u32" where
  "rgb_u32 c = (push_bit 16 (ucast (color_red c)) OR push_bit 8 (ucast (color_green c)))
     OR ucast (color_blue c)"

definition from_rgb_u32 :: "u32 \<Rightarrow> TrackColor" where
  "from_rgb_u32 v =
     \<lparr>color_red = ucast (drop_bit 16 v AND 255),
      color_green = ucast (drop_bit 8 v AND 255),
      color_blue = ucast (v AND 255)\<rparr>"

datatype DeckSourceStatus = Starting | Ready | Degraded | Disconnected

text \<open>The constructors carry a prefix: single letters would capture variables.\<close>

datatype PitchClass =
    PitchC | PitchCSharp | PitchD | PitchDSharp | PitchE | PitchF
  | PitchFSharp | PitchG | PitchGSharp | PitchA | PitchASharp | PitchB

datatype KeyMode = Major | Minor

record MusicalKey =
  key_pitch_class :: PitchClass
  key_mode :: KeyMode

datatype PhraseKind = Intro | Verse | Build | Drop | Breakdown | Outro

record TrackPhrase =
  phrase_index :: u16
  phrase_start_beat :: u32
  phrase_end_beat :: u32
  phrase_kind :: PhraseKind

record TrackMetadata =
  track_id :: TrackId
  track_title :: string
  track_artist :: string
  track_bpm_milli :: u32
  track_musical_key :: MusicalKey
  track_color :: "TrackColor option"
  track_duration_beats :: u32
  track_phrases :: "TrackPhrase list"
  track_identity_facts :: "TrackIdentityFacts option"

datatype TrackValidationError =
    EmptyTitle
  | EmptyArtist
  | BpmOutOfRange u32
  | EmptyDuration
  | EmptyPhrases
  | UnorderedPhraseIndex
  | InvalidPhraseRange
  | IncompletePhraseCoverage
  | InvalidIdentityFacts

definition bpm_in_range :: "u32 \<Rightarrow> bool" where
  "bpm_in_range bpm \<longleftrightarrow> 20000 \<le> bpm \<and> bpm \<le> 300000"

definition try_new_identity_facts ::
  "string \<Rightarrow> string \<Rightarrow> string \<Rightarrow> string \<Rightarrow> u64 \<Rightarrow> TrackValidationError + TrackIdentityFacts" where
  "try_new_identity_facts provider_kind source_id source_track_id analysis_revision timeline_revision =
     (if blank provider_kind \<or> blank source_id \<or> blank source_track_id
         \<or> blank analysis_revision \<or> timeline_revision = 0
      then Inl InvalidIdentityFacts
      else Inr \<lparr>facts_provider_kind = provider_kind, facts_source_id = source_id,
                facts_source_track_id = source_track_id,
                facts_analysis_revision = analysis_revision,
                facts_lumi_timeline_revision = timeline_revision\<rparr>)"

definition validate_track_facts ::
  "string \<Rightarrow> string \<Rightarrow> u32 \<Rightarrow> u32 \<Rightarrow> TrackValidationError + unit" where
  "validate_track_facts title artist bpm duration =
     (if blank title then Inl EmptyTitle
      else if blank artist then Inl EmptyArtist
      else if \<not> bpm_in_range bpm then Inl (BpmOutOfRange bpm)
      else if duration = 0 then Inl EmptyDuration
      else Inr ())"

text \<open>The loop over \<open>phrases.iter().enumerate()\<close>; it returns the final \<open>previous_end\<close>.\<close>

fun check_phrases ::
  "u32 \<Rightarrow> nat \<Rightarrow> u32 \<Rightarrow> TrackPhrase list \<Rightarrow> TrackValidationError + u32" where
  "check_phrases duration expected previous_end [] = Inr previous_end"
| "check_phrases duration expected previous_end (p # ps) =
     (if unat (phrase_index p) \<noteq> expected then Inl UnorderedPhraseIndex
      else if phrase_start_beat p \<noteq> previous_end \<or> phrase_end_beat p \<le> phrase_start_beat p
              \<or> phrase_end_beat p > duration
      then Inl InvalidPhraseRange
      else check_phrases duration (Suc expected) (phrase_end_beat p) ps)"

definition try_new_unanalyzed ::
  "TrackId \<Rightarrow> string \<Rightarrow> string \<Rightarrow> u32 \<Rightarrow> MusicalKey \<Rightarrow> u32 \<Rightarrow> TrackValidationError + TrackMetadata" where
  "try_new_unanalyzed i title artist bpm key duration =
     and_then (validate_track_facts title artist bpm duration) (\<lambda>_.
       Inr \<lparr>track_id = i, track_title = title, track_artist = artist, track_bpm_milli = bpm,
            track_musical_key = key, track_color = None, track_duration_beats = duration,
            track_phrases = [], track_identity_facts = None\<rparr>)"

definition try_new_with_color ::
  "TrackId \<Rightarrow> string \<Rightarrow> string \<Rightarrow> u32 \<Rightarrow> MusicalKey \<Rightarrow> TrackColor option \<Rightarrow> u32 \<Rightarrow>
   TrackPhrase list \<Rightarrow> TrackValidationError + TrackMetadata" where
  "try_new_with_color i title artist bpm key color duration phrases =
     and_then (validate_track_facts title artist bpm duration) (\<lambda>_.
       if phrases = [] then Inl EmptyPhrases
       else and_then (check_phrases duration 0 0 phrases) (\<lambda>previous_end.
         if previous_end \<noteq> duration then Inl IncompletePhraseCoverage
         else Inr \<lparr>track_id = i, track_title = title, track_artist = artist, track_bpm_milli = bpm,
                   track_musical_key = key, track_color = color, track_duration_beats = duration,
                   track_phrases = phrases, track_identity_facts = None\<rparr>))"

definition try_new_track ::
  "TrackId \<Rightarrow> string \<Rightarrow> string \<Rightarrow> u32 \<Rightarrow> MusicalKey \<Rightarrow> u32 \<Rightarrow> TrackPhrase list \<Rightarrow>
   TrackValidationError + TrackMetadata" where
  "try_new_track i title artist bpm key duration phrases =
     try_new_with_color i title artist bpm key None duration phrases"

definition with_identity_facts :: "TrackMetadata \<Rightarrow> TrackIdentityFacts \<Rightarrow> TrackMetadata" where
  "with_identity_facts t f = t\<lparr>track_identity_facts := Some f\<rparr>"

definition track_phrase :: "TrackMetadata \<Rightarrow> u16 \<Rightarrow> TrackPhrase option" where
  "track_phrase t i = get_nth (track_phrases t) (unat i)"

section \<open>Well-formed tracks\<close>

text \<open>Analysed metadata: its phrases tile the whole track.\<close>

definition track_facts_ok :: "TrackMetadata \<Rightarrow> bool" where
  "track_facts_ok t \<longleftrightarrow> \<not> blank (track_title t) \<and> \<not> blank (track_artist t)
     \<and> bpm_in_range (track_bpm_milli t) \<and> track_duration_beats t \<noteq> 0"

definition track_analyzed :: "TrackMetadata \<Rightarrow> bool" where
  "track_analyzed t \<longleftrightarrow> track_phrases t \<noteq> [] \<and> indexed phrase_index (track_phrases t)
     \<and> tiles phrase_start_beat phrase_end_beat 0 (track_phrases t)
     \<and> tiles_end phrase_end_beat 0 (track_phrases t) = track_duration_beats t"

definition track_ok :: "TrackMetadata \<Rightarrow> bool" where
  "track_ok t \<longleftrightarrow> track_facts_ok t \<and> (track_phrases t = [] \<or> track_analyzed t)"

definition indexed_from :: "('a \<Rightarrow> 'i::len word) \<Rightarrow> nat \<Rightarrow> 'a list \<Rightarrow> bool" where
  "indexed_from idx n xs \<longleftrightarrow> (\<forall>i < length xs. unat (idx (xs ! i)) = n + i)"

lemma indexed_from_simps:
  "indexed_from idx n []"
  "indexed_from idx n (x # xs) \<longleftrightarrow> unat (idx x) = n \<and> indexed_from idx (Suc n) xs"
  by (auto simp: indexed_from_def All_less_Suc2)

lemma indexed_from_0: "indexed_from idx 0 xs = indexed idx xs"
  by (simp add: indexed_from_def indexed_def)

lemma check_phrases_ok:
  "check_phrases d n b ps = Inr e \<longleftrightarrow>
     indexed_from phrase_index n ps \<and> tiles phrase_start_beat phrase_end_beat b ps
   \<and> (\<forall>p \<in> set ps. phrase_end_beat p \<le> d) \<and> tiles_end phrase_end_beat b ps = e"
  by (induction ps arbitrary: n b) (auto simp: indexed_from_simps not_le)

lemma validate_track_facts_ok:
  "validate_track_facts title artist bpm duration = Inr u \<longleftrightarrow>
     \<not> blank title \<and> \<not> blank artist \<and> bpm_in_range bpm \<and> duration \<noteq> 0"
  by (auto simp: validate_track_facts_def)

interpretation track_parts: beat_partition
  track_analyzed track_phrases phrase_index phrase_start_beat phrase_end_beat track_duration_beats
  by unfold_locales (simp_all add: track_analyzed_def)

section \<open>Properties\<close>

lemma try_new_with_color_ok:
  "try_new_with_color i title artist bpm key color duration phrases = Inr t \<longleftrightarrow>
     t = \<lparr>track_id = i, track_title = title, track_artist = artist, track_bpm_milli = bpm,
          track_musical_key = key, track_color = color, track_duration_beats = duration,
          track_phrases = phrases, track_identity_facts = None\<rparr>
     \<and> track_facts_ok t \<and> track_analyzed t"
proof -
  have "\<forall>p \<in> set phrases. phrase_end_beat p \<le> duration"
    if "tiles phrase_start_beat phrase_end_beat 0 phrases" "tiles_end phrase_end_beat 0 phrases = duration"
    using that tiles_member by metis
  then show ?thesis
    by (auto simp: try_new_with_color_def result_simps check_phrases_ok validate_track_facts_ok
        indexed_from_0 track_facts_ok_def track_analyzed_def)
qed

lemma try_new_unanalyzed_ok: "try_new_unanalyzed i title artist bpm key duration = Inr t \<Longrightarrow> track_ok t"
  by (auto simp: try_new_unanalyzed_def result_simps validate_track_facts_ok track_ok_def track_facts_ok_def)

lemma with_identity_facts_ok: "track_ok (with_identity_facts t f) = track_ok t"
  by (simp add: with_identity_facts_def track_ok_def track_facts_ok_def track_analyzed_def)

lemma track_phrase_Some_iff: "track_phrase t i \<noteq> None \<longleftrightarrow> unat i < length (track_phrases t)"
  by (simp add: track_phrase_def get_nth_def)

lemma mask_8: "(255 :: u32) = mask 8" "(16777215 :: u32) = mask 24"
  by (simp_all add: mask_eq_exp_minus_1)

lemma rgb_u32_bit:
  "bit (rgb_u32 c) n \<longleftrightarrow>
     (if n < 8 then bit (color_blue c) n
      else if n < 16 then bit (color_green c) (n - 8)
      else n < 24 \<and> bit (color_red c) (n - 16))"
  by (auto simp: rgb_u32_def bit_simps dest: bit_imp_le_length)

text \<open>
  The packed colour keeps all three channels: decoding an encoded colour gives the colour
  back, and encoding a decoded word gives the word without its top byte.
\<close>

lemma rgb_roundtrip:
  "from_rgb_u32 (rgb_u32 c) = c \<and> rgb_u32 (from_rgb_u32 v) = v AND 0xFFFFFF"
proof
  show "from_rgb_u32 (rgb_u32 c) = c"
    by (cases c) (auto simp: from_rgb_u32_def mask_8 bit_simps rgb_u32_bit intro!: bit_word_eqI
        dest: bit_imp_le_length)
  show "rgb_u32 (from_rgb_u32 v) = v AND 0xFFFFFF"
    by (rule bit_word_eqI) (auto simp: mask_8 rgb_u32_bit from_rgb_u32_def bit_simps)
qed

end
