(* ===== verification/Plan.thy ===== *)
theory Plan
  imports Track
begin

text \<open>
  Lighting plans (\<open>lumi-domain/src/plan.rs\<close>): Theme decisions, looks, cues, the plan
  with its validating constructors and its revisions. \<open>plan_ok\<close> is the invariant the
  constructors establish; it makes a plan a \<open>beat_partition\<close> of its track.
\<close>

section \<open>Data\<close>

datatype PlanStatus = Ready | Fallback

datatype ThemeSelectionReason =
    GlobalLock
  | PlanInstanceUserChoice
  | ColorForce
  | ColorPrefer
  | Rotation
  | DefaultTheme

record ThemeDecision =
  decision_theme_id :: ThemeId
  decision_theme_name :: string
  decision_reason :: ThemeSelectionReason
  decision_matched_color :: "u32 option"

datatype SceneCategory = Ambient | Groove | Build | Impact | Break

record LoopSelection =
  loop_bank :: u8
  loop_slot :: u8

record LightingLook =
  look_theme_id :: ThemeId
  look_theme_name :: string
  look_scene_id :: SceneId
  look_scene_name :: string
  look_category :: SceneCategory
  look_loop_selection :: LoopSelection

datatype SemanticLightingAction = ApplyLook LightingLook | HoldCurrentLook

datatype CueOrigin = Automatic | Fallback | User

datatype CueReason =
    PhraseCategoryMatched PhraseKind SceneCategory
  | MissingPhraseAnalysis
  | MissingAutoloopMapping

record LightingCue =
  cue_id :: CueId
  cue_phrase_index :: u16
  cue_start_beat :: u32
  cue_end_beat :: u32
  cue_action :: SemanticLightingAction
  cue_origin :: CueOrigin
  cue_reason :: CueReason
  cue_locked :: bool

record LightingPlan =
  plan_id :: PlanId
  plan_deck_id :: DeckId
  plan_track_id :: TrackId
  plan_track_duration_beats :: u32
  plan_track_load_id :: TrackLoadId
  plan_revision :: PlanRevision
  plan_configuration_revision :: PlanConfigurationRevision
  plan_seed :: u64
  plan_status :: PlanStatus
  plan_theme_decision :: "ThemeDecision option"
  plan_cues :: "LightingCue list"

datatype PlanValidationError =
    ZeroRevision
  | ZeroConfigurationRevision
  | EmptyTrackDuration
  | EmptyCues
  | EmptyThemeName
  | EmptySceneName
  | DuplicateCueId CueId
  | UnorderedPhraseIndex
  | InvalidCueRange
  | IncompleteCueCoverage
  | FallbackCueInReadyPlan
  | FallbackPlanWithoutFallbackCue
  | MissingThemeDecision
  | ThemeDecisionInFallbackPlan
  | InconsistentThemeDecision
  | RevisionOverflow

section \<open>Operations\<close>

definition try_new_theme_decision ::
  "ThemeId \<Rightarrow> string \<Rightarrow> ThemeSelectionReason \<Rightarrow> u32 option \<Rightarrow> PlanValidationError + ThemeDecision" where
  "try_new_theme_decision i name reason matched =
     (if blank name then Inl EmptyThemeName
      else Inr \<lparr>decision_theme_id = i, decision_theme_name = name,
                decision_reason = reason, decision_matched_color = matched\<rparr>)"

definition new_loop_selection :: "u8 \<Rightarrow> u8 \<Rightarrow> LoopSelection" where
  "new_loop_selection bank slot = \<lparr>loop_bank = bank, loop_slot = slot\<rparr>"

definition try_new_look ::
  "ThemeId \<Rightarrow> string \<Rightarrow> SceneId \<Rightarrow> string \<Rightarrow> SceneCategory \<Rightarrow> LoopSelection \<Rightarrow>
   PlanValidationError + LightingLook" where
  "try_new_look theme theme_name scene scene_name category loop =
     (if blank theme_name then Inl EmptyThemeName
      else if blank scene_name then Inl EmptySceneName
      else Inr \<lparr>look_theme_id = theme, look_theme_name = theme_name, look_scene_id = scene,
                look_scene_name = scene_name, look_category = category,
                look_loop_selection = loop\<rparr>)"

definition new_cue ::
  "CueId \<Rightarrow> u16 \<Rightarrow> u32 \<Rightarrow> u32 \<Rightarrow> SemanticLightingAction \<Rightarrow> CueOrigin \<Rightarrow> CueReason \<Rightarrow> LightingCue" where
  "new_cue i idx start_beat end_beat action origin reason =
     \<lparr>cue_id = i, cue_phrase_index = idx, cue_start_beat = start_beat, cue_end_beat = end_beat,
      cue_action = action, cue_origin = origin, cue_reason = reason, cue_locked = False\<rparr>"

definition cue_revised ::
  "LightingCue \<Rightarrow> SemanticLightingAction \<Rightarrow> CueOrigin \<Rightarrow> bool \<Rightarrow> LightingCue" where
  "cue_revised c action origin locked =
     c\<lparr>cue_action := action, cue_origin := origin, cue_locked := locked\<rparr>"

definition hold_for_missing_autoloop_mapping :: "LightingCue \<Rightarrow> LightingCue" where
  "hold_for_missing_autoloop_mapping c =
     c\<lparr>cue_action := HoldCurrentLook, cue_origin := CueOrigin.Automatic,
       cue_reason := MissingAutoloopMapping, cue_locked := False\<rparr>"

text \<open>
  The loop of \<open>try_new_with_theme_decision\<close> over \<open>cues.iter().enumerate()\<close>: the set of
  identifiers seen, the end of the previous cue and whether a fallback cue was seen.
\<close>

fun check_cues ::
  "CueId set \<Rightarrow> u32 \<Rightarrow> bool \<Rightarrow> nat \<Rightarrow> LightingCue list \<Rightarrow> PlanValidationError + (u32 \<times> bool)" where
  "check_cues seen previous_end contains_fallback expected [] = Inr (previous_end, contains_fallback)"
| "check_cues seen previous_end contains_fallback expected (c # cs) =
     (if cue_id c \<in> seen then Inl (DuplicateCueId (cue_id c))
      else if unat (cue_phrase_index c) \<noteq> expected then Inl PlanValidationError.UnorderedPhraseIndex
      else if cue_start_beat c \<noteq> previous_end \<or> cue_end_beat c \<le> cue_start_beat c
      then Inl InvalidCueRange
      else check_cues (insert (cue_id c) seen) (cue_end_beat c)
             (contains_fallback \<or> cue_origin c = CueOrigin.Fallback) (Suc expected) cs)"

text \<open>Whether the starting cue disagrees with the Theme decision.\<close>

definition starting_cue_inconsistent :: "ThemeDecision \<Rightarrow> LightingCue list \<Rightarrow> bool" where
  "starting_cue_inconsistent decision cues =
     (case cues of
        [] \<Rightarrow> False
      | c # _ \<Rightarrow>
        (case cue_action c of
           ApplyLook look \<Rightarrow> look_theme_id look \<noteq> decision_theme_id decision
                             \<or> look_theme_name look \<noteq> decision_theme_name decision
         | HoldCurrentLook \<Rightarrow> True))"

definition try_new_with_theme_decision ::
  "PlanId \<Rightarrow> DeckId \<Rightarrow> TrackId \<Rightarrow> u32 \<Rightarrow> TrackLoadId \<Rightarrow> PlanRevision \<Rightarrow>
   PlanConfigurationRevision \<Rightarrow> u64 \<Rightarrow> PlanStatus \<Rightarrow> ThemeDecision option \<Rightarrow>
   LightingCue list \<Rightarrow> PlanValidationError + LightingPlan" where
  "try_new_with_theme_decision i deck track duration load revision configuration seed status
      decision cues =
     (if revision = 0 then Inl ZeroRevision
      else if configuration = 0 then Inl ZeroConfigurationRevision
      else if duration = 0 then Inl EmptyTrackDuration
      else if cues = [] then Inl EmptyCues
      else and_then (check_cues {} 0 False 0 cues) (\<lambda>(previous_end, contains_fallback).
        if status = PlanStatus.Ready \<and> contains_fallback then Inl FallbackCueInReadyPlan
        else if status = PlanStatus.Fallback \<and> \<not> contains_fallback
        then Inl FallbackPlanWithoutFallbackCue
        else if status = PlanStatus.Ready \<and> decision = None then Inl MissingThemeDecision
        else if status = PlanStatus.Fallback \<and> decision \<noteq> None then Inl ThemeDecisionInFallbackPlan
        else if (case decision of None \<Rightarrow> False | Some d \<Rightarrow> starting_cue_inconsistent d cues)
        then Inl InconsistentThemeDecision
        else if previous_end \<noteq> duration then Inl IncompleteCueCoverage
        else Inr \<lparr>plan_id = i, plan_deck_id = deck, plan_track_id = track,
                  plan_track_duration_beats = duration, plan_track_load_id = load,
                  plan_revision = revision, plan_configuration_revision = configuration,
                  plan_seed = seed, plan_status = status, plan_theme_decision = decision,
                  plan_cues = cues\<rparr>))"

definition default_theme_decision :: "LightingCue list \<Rightarrow> ThemeDecision option" where
  "default_theme_decision cues =
     find_map (\<lambda>c. case cue_action c of
         ApplyLook look \<Rightarrow>
           ok (try_new_theme_decision (look_theme_id look) (look_theme_name look) DefaultTheme None)
       | HoldCurrentLook \<Rightarrow> None) cues"

definition try_new_plan ::
  "PlanId \<Rightarrow> DeckId \<Rightarrow> TrackId \<Rightarrow> u32 \<Rightarrow> TrackLoadId \<Rightarrow> PlanRevision \<Rightarrow>
   PlanConfigurationRevision \<Rightarrow> u64 \<Rightarrow> PlanStatus \<Rightarrow> LightingCue list \<Rightarrow>
   PlanValidationError + LightingPlan" where
  "try_new_plan i deck track duration load revision configuration seed status cues =
     try_new_with_theme_decision i deck track duration load revision configuration seed status
       (default_theme_decision cues) cues"

definition with_materialized_cues ::
  "LightingPlan \<Rightarrow> LightingCue list \<Rightarrow> PlanValidationError + LightingPlan" where
  "with_materialized_cues p cues =
     try_new_with_theme_decision (plan_id p) (plan_deck_id p) (plan_track_id p)
       (plan_track_duration_beats p) (plan_track_load_id p) (plan_revision p)
       (plan_configuration_revision p) (plan_seed p) (plan_status p) (plan_theme_decision p) cues"

definition revised_with_theme_decision ::
  "LightingPlan \<Rightarrow> LightingCue list \<Rightarrow> ThemeDecision option \<Rightarrow> PlanValidationError + LightingPlan" where
  "revised_with_theme_decision p cues decision =
     and_then (ok_or (plan_revision_checked_next (plan_revision p)) RevisionOverflow) (\<lambda>revision.
       try_new_with_theme_decision (plan_id p) (plan_deck_id p) (plan_track_id p)
         (plan_track_duration_beats p) (plan_track_load_id p) revision
         (plan_configuration_revision p) (plan_seed p) (plan_status p) decision cues)"

definition plan_revised ::
  "LightingPlan \<Rightarrow> LightingCue list \<Rightarrow> PlanValidationError + LightingPlan" where
  "plan_revised p cues = revised_with_theme_decision p cues (plan_theme_decision p)"

section \<open>Well-formed plans\<close>

definition cues_ok :: "u32 \<Rightarrow> LightingCue list \<Rightarrow> bool" where
  "cues_ok duration cues \<longleftrightarrow> cues \<noteq> [] \<and> distinct (map cue_id cues)
     \<and> indexed cue_phrase_index cues
     \<and> tiles cue_start_beat cue_end_beat 0 cues
     \<and> tiles_end cue_end_beat 0 cues = duration"

definition has_fallback_cue :: "LightingCue list \<Rightarrow> bool" where
  "has_fallback_cue cues = (\<exists>c \<in> set cues. cue_origin c = CueOrigin.Fallback)"

definition plan_ok :: "LightingPlan \<Rightarrow> bool" where
  "plan_ok p \<longleftrightarrow> plan_revision p \<noteq> 0 \<and> plan_configuration_revision p \<noteq> 0
     \<and> cues_ok (plan_track_duration_beats p) (plan_cues p)
     \<and> (plan_status p = PlanStatus.Fallback) = has_fallback_cue (plan_cues p)
     \<and> (plan_theme_decision p = None) = (plan_status p = PlanStatus.Fallback)
     \<and> (case plan_theme_decision p of
          None \<Rightarrow> True
        | Some d \<Rightarrow> \<not> starting_cue_inconsistent d (plan_cues p))"

lemma check_cues_ok:
  "check_cues seen b fb n cs = Inr (e, fb') \<longleftrightarrow>
     distinct (map cue_id cs) \<and> cue_id ` set cs \<inter> seen = {}
   \<and> indexed_from cue_phrase_index n cs
   \<and> tiles cue_start_beat cue_end_beat b cs \<and> tiles_end cue_end_beat b cs = e
   \<and> fb' = (fb \<or> has_fallback_cue cs)"
  by (induction cs arbitrary: seen b fb n)
     (auto simp: indexed_from_simps has_fallback_cue_def not_le)

lemma PlanStatus_neq: "(s \<noteq> PlanStatus.Ready) = (s = PlanStatus.Fallback)"
  by (cases s) auto

lemma try_new_with_theme_decision_ok:
  "try_new_with_theme_decision i deck track duration load revision configuration seed status
      decision cues = Inr p \<longleftrightarrow>
     p = \<lparr>plan_id = i, plan_deck_id = deck, plan_track_id = track,
          plan_track_duration_beats = duration, plan_track_load_id = load,
          plan_revision = revision, plan_configuration_revision = configuration,
          plan_seed = seed, plan_status = status, plan_theme_decision = decision,
          plan_cues = cues\<rparr> \<and> plan_ok p"
  (is "?l = ?r")
proof -
  have d: "duration \<noteq> 0" if "cues \<noteq> []" "tiles cue_start_beat cue_end_beat 0 cues"
      "tiles_end cue_end_beat 0 cues = duration"
    using tiles_less_end [OF that(2,1)] that(3) by auto
  show ?thesis
    by (cases status; cases decision)
       (auto simp: try_new_with_theme_decision_def result_simps check_cues_ok plan_ok_def cues_ok_def
          indexed_from_0 dest: d split: if_splits)
qed

interpretation plan_parts: beat_partition
  plan_ok plan_cues cue_phrase_index cue_start_beat cue_end_beat plan_track_duration_beats
  by unfold_locales (simp_all add: plan_ok_def cues_ok_def)

section \<open>Revising cues in place\<close>

text \<open>The part of a cue no edit changes.\<close>

definition cue_shape :: "LightingCue \<Rightarrow> CueId \<times> u16 \<times> u32 \<times> u32" where
  "cue_shape c = (cue_id c, cue_phrase_index c, cue_start_beat c, cue_end_beat c)"

lemma cue_shape_revised [simp]: "cue_shape (cue_revised c action origin locked) = cue_shape c"
  by (simp add: cue_shape_def cue_revised_def)

lemma cue_shape_map:
  assumes "map cue_shape xs = map cue_shape ys"
  shows "map cue_id xs = map cue_id ys" "map cue_phrase_index xs = map cue_phrase_index ys"
    "map cue_start_beat xs = map cue_start_beat ys" "map cue_end_beat xs = map cue_end_beat ys"
proof -
  have "map f (map cue_shape xs) = map f (map cue_shape ys)" for f :: "_ \<Rightarrow> 'b" using assms by simp
  note this [of fst] this [of "fst \<circ> snd"] this [of "fst \<circ> snd \<circ> snd"] this [of "snd \<circ> snd \<circ> snd"]
  then show "map cue_id xs = map cue_id ys" "map cue_phrase_index xs = map cue_phrase_index ys"
    "map cue_start_beat xs = map cue_start_beat ys" "map cue_end_beat xs = map cue_end_beat ys"
    by (simp_all add: cue_shape_def comp_def)
qed

lemma cues_ok_shape:
  assumes "map cue_shape xs = map cue_shape ys"
  shows "cues_ok d xs = cues_ok d ys"
proof -
  note m = cue_shape_map [OF assms]
  have "(xs = []) = (ys = [])" using assms by auto
  then show ?thesis
    unfolding cues_ok_def m(1) using indexed_cong [OF m(2)] tiles_cong [OF m(3,4)] by simp
qed

lemma shape_update:
  "i < length cues \<Longrightarrow> cue_shape c = cue_shape (cues ! i) \<Longrightarrow>
   map cue_shape (cues[i := c]) = map cue_shape cues"
  by (metis list_update_id map_update)

lemma has_fallback_update:
  "\<not> has_fallback_cue cues \<Longrightarrow> cue_origin c \<noteq> CueOrigin.Fallback \<Longrightarrow> \<not> has_fallback_cue (cues[i := c])"
  by (auto simp: has_fallback_cue_def dest!: set_update_subset_insert [THEN subsetD])

lemma cue_shape_hold [simp]: "cue_shape (hold_for_missing_autoloop_mapping c) = cue_shape c"
  by (simp add: cue_shape_def hold_for_missing_autoloop_mapping_def)

section \<open>Properties\<close>

text \<open>
  C10. The constructor of plans accepts exactly the well-formed ones and returns its
  arguments unchanged: positive revisions, cues with distinct identifiers, numbered in
  order, that divide the beats of the track, a fallback status exactly with a fallback
  cue, and a Theme decision exactly on ready plans, which the starting cue shows. An
  accepted plan has exactly one cue at every beat of the track.
\<close>

theorem plan_constructor_exact:
  "(try_new_with_theme_decision i deck track duration load revision configuration seed status
      decision cues = Inr p \<longleftrightarrow>
     p = \<lparr>plan_id = i, plan_deck_id = deck, plan_track_id = track,
          plan_track_duration_beats = duration, plan_track_load_id = load,
          plan_revision = revision, plan_configuration_revision = configuration,
          plan_seed = seed, plan_status = status, plan_theme_decision = decision,
          plan_cues = cues\<rparr> \<and> plan_ok p)
   \<and> (plan_ok p \<longrightarrow>
       (\<forall>beat. (\<exists>!k. k < length (plan_cues p) \<and> cue_start_beat (plan_cues p ! k) \<le> beat
                    \<and> beat < cue_end_beat (plan_cues p ! k))
             \<longleftrightarrow> beat < plan_track_duration_beats p))"
  using plan_parts.part_covers try_new_with_theme_decision_ok by simp

text \<open>
  Holding a cue because no loop is mapped to it keeps a ready plan valid, without a new
  revision, at every phrase but the first: there the plan would start without the Theme
  it decided on, and the constructor refuses it for that reason.
\<close>

theorem hold_missing_mapping:
  assumes p: "plan_ok p" "plan_status p = PlanStatus.Ready" and k: "k < length (plan_cues p)"
  shows "with_materialized_cues p
      ((plan_cues p)[k := hold_for_missing_autoloop_mapping (plan_cues p ! k)]) =
    (if k = 0 then Inl InconsistentThemeDecision
     else Inr (p\<lparr>plan_cues := (plan_cues p)[k := hold_for_missing_autoloop_mapping (plan_cues p ! k)]\<rparr>))"
proof -
  let ?c = "hold_for_missing_autoloop_mapping (plan_cues p ! k)"
  let ?cues = "(plan_cues p)[k := ?c]"
  obtain d where d: "plan_theme_decision p = Some d" "\<not> starting_cue_inconsistent d (plan_cues p)"
    using p by (auto simp: plan_ok_def)
  have fb: "\<not> has_fallback_cue ?cues"
    using p by (intro has_fallback_update) (auto simp: plan_ok_def hold_for_missing_autoloop_mapping_def)
  have "cues_ok (plan_track_duration_beats p) ?cues"
    using cues_ok_shape [OF shape_update [OF k, of ?c]] p(1) by (simp add: plan_ok_def)
  then have checked: "check_cues {} 0 False 0 ?cues = Inr (plan_track_duration_beats p, False)"
    and ne: "?cues \<noteq> []"
    using fb by (auto simp: cues_ok_def check_cues_ok indexed_from_0)
  have dur: "plan_track_duration_beats p \<noteq> 0"
    using plan_parts.part_duration_pos [OF p(1)] by auto
  have start: "starting_cue_inconsistent d ?cues \<longleftrightarrow> k = 0"
    using d(2) k by (cases "plan_cues p"; cases k)
      (auto simp: starting_cue_inconsistent_def hold_for_missing_autoloop_mapping_def)
  have "p\<lparr>plan_cues := ?cues\<rparr> = \<lparr>plan_id = plan_id p, plan_deck_id = plan_deck_id p,
      plan_track_id = plan_track_id p, plan_track_duration_beats = plan_track_duration_beats p,
      plan_track_load_id = plan_track_load_id p, plan_revision = plan_revision p,
      plan_configuration_revision = plan_configuration_revision p, plan_seed = plan_seed p,
      plan_status = PlanStatus.Ready, plan_theme_decision = Some d, plan_cues = ?cues\<rparr>"
    using p(2) d(1) by (cases p) simp
  then show ?thesis
    using checked ne dur start p d(1)
    by (simp add: with_materialized_cues_def try_new_with_theme_decision_def plan_ok_def)
qed

end
