(* ===== verification/Events.thy ===== *)
theory Events
  imports Plan
begin

text \<open>
  What flows into and out of the reducer: output requests and their results
  (\<open>output.rs\<close>), domain events (\<open>event.rs\<close>), the reducer's vocabulary of decisions,
  diagnostics and effects (first part of \<open>reducer.rs\<close>) and the timeline entry derived
  from every processed event (\<open>timeline.rs\<close>).
\<close>

section \<open>Output requests (output.rs)\<close>

record OutputExecutionRequest =
  req_command_id :: OutputCommandId
  req_plan_id :: PlanId
  req_plan_revision :: PlanRevision
  req_deck_id :: DeckId
  req_track_load_id :: TrackLoadId
  req_phrase_index :: u16
  req_cue_id :: CueId
  req_action :: SemanticLightingAction
  req_cue_reason :: CueReason
  req_scheduled_at :: MonotonicTime

datatype OutputEffectStatus = Simulated | Rejected | Skipped

datatype OutputEffectReason =
    PhraseBoundary
  | ProviderRejected
  | StaleExecutionContext
  | InitialLaunchDeferred

record OutputEffectResult =
  oer_request :: OutputExecutionRequest
  oer_actual_at :: MonotonicTime
  oer_status :: OutputEffectStatus
  oer_reason :: OutputEffectReason

section \<open>Domain events (event.rs)\<close>

datatype DeckObservation =
    SourceStatusChanged DeckSourceStatus
  | TrackLoaded DeckId TrackMetadata TrackLoadId
  | TrackMetadataHydrated DeckId TrackMetadata TrackLoadId
  | PlaybackPosition DeckId TrackLoadId u32
  | PlaybackPositionSeeked DeckId TrackLoadId u32
  | PlaybackTempoChanged DeckId TrackLoadId u32
  | PlaybackStateChanged DeckId TrackLoadId bool
  | TrackUnloaded DeckId TrackLoadId
  | PhraseChanged DeckId TrackLoadId u16
  | LeaderChanged DeckId TrackLoadId

record ObservationEnvelope =
  obs_source_id :: SourceId
  obs_sequence :: SourceSequence
  obs_observed_at :: MonotonicTime
  obs_observation :: DeckObservation

datatype OperationCommand = Arm | Start | Pause | Off

record UserCommandEnvelope =
  cmd_client_id :: ClientId
  cmd_sequence :: CommandSequence
  cmd_expected_state_revision :: StateRevision
  cmd_issued_at :: MonotonicTime
  cmd_command :: OperationCommand

datatype EffectResult =
    PlanGenerated LightingPlan
  | OutputEffectRecorded OutputEffectResult
  | OutputGateClosed

record EffectResultEnvelope =
  eff_effect_id :: EffectId
  eff_worker_id :: WorkerId
  eff_sequence :: EffectSequence
  eff_completed_at :: MonotonicTime
  eff_result :: EffectResult

datatype DomainEventKind = RuntimeStarted | Observation | UserCommand | EffectResult | QueueOverloaded

record QueueOverloadEvent =
  ovl_occurred_at :: MonotonicTime
  ovl_rejected_kind :: DomainEventKind
  ovl_rejected_critical :: bool
  ovl_occurrences :: u64

datatype DomainEvent =
    RuntimeStarted MonotonicTime
  | Observation ObservationEnvelope
  | UserCommand UserCommandEnvelope
  | EffectResult EffectResultEnvelope
  | QueueOverloaded QueueOverloadEvent

fun event_kind :: "DomainEvent \<Rightarrow> DomainEventKind" where
  "event_kind (DomainEvent.RuntimeStarted _) = DomainEventKind.RuntimeStarted"
| "event_kind (DomainEvent.Observation _) = DomainEventKind.Observation"
| "event_kind (DomainEvent.UserCommand _) = DomainEventKind.UserCommand"
| "event_kind (DomainEvent.EffectResult _) = DomainEventKind.EffectResult"
| "event_kind (DomainEvent.QueueOverloaded _) = DomainEventKind.QueueOverloaded"

fun is_critical :: "DomainEvent \<Rightarrow> bool" where
  "is_critical (DomainEvent.Observation _) = False"
| "is_critical _ = True"

fun monotonic_time :: "DomainEvent \<Rightarrow> MonotonicTime" where
  "monotonic_time (DomainEvent.RuntimeStarted at) = at"
| "monotonic_time (DomainEvent.Observation e) = obs_observed_at e"
| "monotonic_time (DomainEvent.UserCommand e) = cmd_issued_at e"
| "monotonic_time (DomainEvent.EffectResult e) = eff_completed_at e"
| "monotonic_time (DomainEvent.QueueOverloaded e) = ovl_occurred_at e"

section \<open>Decisions, diagnostics and effects (reducer.rs)\<close>

datatype DecisionReason =
    RuntimeInitialized
  | SourceStatusAccepted
  | TrackLoadAccepted
  | TrackMetadataHydrated
  | PositionAdvanced
  | PositionSeeked
  | PlaybackTempoChanged
  | PlaybackStateChanged
  | PhraseChanged
  | LeaderChanged
  | PlanActivated
  | PlanActivationSkipped
  | PhraseExecutionScheduled
  | PhraseExecutionSkipped
  | TrackUnloaded
  | StaleObservationIgnored
  | ObservationTimeRegressed
  | TrackLoadMismatch
  | PositionRegressed
  | DuplicateCommandIgnored
  | OperationTransitionAccepted
  | DuplicateEffectIgnored
  | PlanAccepted
  | StalePlanIgnored
  | PlanTrackLoadMismatch
  | OutputGateConfirmedClosed
  | OutputEffectRecorded
  | QueueSaturated

datatype DiagnosticSeverity = Information | Warning | Error

record Diagnostic =
  diag_sequence :: u64
  diag_severity :: DiagnosticSeverity
  diag_reason :: DecisionReason
  diag_event_kind :: DomainEventKind
  diag_occurred_at :: MonotonicTime

datatype Effect =
    EnsureOutputClosed DecisionReason
  | ExecuteCue OutputExecutionRequest

section \<open>Timeline entries (timeline.rs)\<close>

datatype TimelineSource = Runtime | DeckSource | Operation | Planner | Output

datatype TimelineResult = Accepted | Ignored | Scheduled | Simulated | Rejected | Skipped | Completed

record TimelineEntry =
  entry_sequence :: u64
  entry_occurred_at :: MonotonicTime
  entry_source :: TimelineSource
  entry_event_type :: string
  entry_result :: TimelineResult
  entry_reason :: DecisionReason

fun observation_event_type :: "DeckObservation \<Rightarrow> string" where
  "observation_event_type (DeckObservation.SourceStatusChanged _) = ''sourceStatusChanged''"
| "observation_event_type (DeckObservation.TrackLoaded _ _ _) = ''trackLoaded''"
| "observation_event_type (DeckObservation.TrackMetadataHydrated _ _ _) = ''trackMetadataHydrated''"
| "observation_event_type (DeckObservation.PlaybackPosition _ _ _) = ''playbackPosition''"
| "observation_event_type (DeckObservation.PlaybackPositionSeeked _ _ _) = ''playbackPositionSeeked''"
| "observation_event_type (DeckObservation.PlaybackTempoChanged _ _ _) = ''playbackTempoChanged''"
| "observation_event_type (DeckObservation.PlaybackStateChanged _ _ _) = ''playbackStateChanged''"
| "observation_event_type (DeckObservation.TrackUnloaded _ _) = ''trackUnloaded''"
| "observation_event_type (DeckObservation.PhraseChanged _ _ _) = ''phraseChanged''"
| "observation_event_type (DeckObservation.LeaderChanged _ _) = ''leaderChanged''"

fun command_event_type :: "OperationCommand \<Rightarrow> string" where
  "command_event_type OperationCommand.Arm = ''arm''"
| "command_event_type OperationCommand.Start = ''start''"
| "command_event_type OperationCommand.Pause = ''pause''"
| "command_event_type OperationCommand.Off = ''off''"

fun effect_source_type :: "EffectResult \<Rightarrow> TimelineSource \<times> string" where
  "effect_source_type (EffectResult.PlanGenerated _) = (Planner, ''planGenerated'')"
| "effect_source_type (EffectResult.OutputEffectRecorded _) = (Output, ''outputEffectRecorded'')"
| "effect_source_type EffectResult.OutputGateClosed = (Output, ''outputGateClosed'')"

fun timeline_source_type :: "DomainEvent \<Rightarrow> TimelineSource \<times> string" where
  "timeline_source_type (DomainEvent.RuntimeStarted _) = (Runtime, ''runtimeStarted'')"
| "timeline_source_type (DomainEvent.Observation env) =
     (DeckSource, observation_event_type (obs_observation env))"
| "timeline_source_type (DomainEvent.UserCommand c) =
     (Operation, command_event_type (cmd_command c))"
| "timeline_source_type (DomainEvent.EffectResult r) = effect_source_type (eff_result r)"
| "timeline_source_type (DomainEvent.QueueOverloaded _) = (Runtime, ''queueOverloaded'')"

fun effect_timeline_result :: "EffectResult \<Rightarrow> TimelineResult" where
  "effect_timeline_result (EffectResult.OutputEffectRecorded out) =
     (case oer_status out of
        OutputEffectStatus.Simulated \<Rightarrow> TimelineResult.Simulated
      | OutputEffectStatus.Rejected \<Rightarrow> TimelineResult.Rejected
      | OutputEffectStatus.Skipped \<Rightarrow> TimelineResult.Skipped)"
| "effect_timeline_result EffectResult.OutputGateClosed = Completed"
| "effect_timeline_result (EffectResult.PlanGenerated _) = Accepted"

definition reason_timeline_result :: "DecisionReason \<Rightarrow> TimelineResult" where
  "reason_timeline_result reason =
     (if reason = DecisionReason.PhraseExecutionScheduled then Scheduled
      else if reason \<in> {StaleObservationIgnored, ObservationTimeRegressed, TrackLoadMismatch,
                        PositionRegressed, DuplicateCommandIgnored, DuplicateEffectIgnored,
                        StalePlanIgnored, PlanTrackLoadMismatch, PlanActivationSkipped,
                        PhraseExecutionSkipped}
      then Ignored
      else Accepted)"

fun timeline_result :: "DomainEvent \<Rightarrow> DecisionReason \<Rightarrow> TimelineResult" where
  "timeline_result (DomainEvent.EffectResult r) reason = effect_timeline_result (eff_result r)"
| "timeline_result _ reason = reason_timeline_result reason"

definition from_event :: "u64 \<Rightarrow> DomainEvent \<Rightarrow> DecisionReason \<Rightarrow> TimelineEntry" where
  "from_event sequence event reason =
     \<lparr>entry_sequence = sequence, entry_occurred_at = monotonic_time event,
      entry_source = fst (timeline_source_type event),
      entry_event_type = snd (timeline_source_type event),
      entry_result = timeline_result event reason, entry_reason = reason\<rparr>"

end
