(* ===== verification/Event_Queue.thy ===== *)
theory Event_Queue
  imports Events
begin

text \<open>
  The bounded ingress queue (\<open>lumi-domain/src/queue.rs\<close>): critical events evict the most
  recent observation when the queue is full, rejected events are counted in one pending
  overload report, and the report is delivered before anything else. The interface the
  runtime relies on is the locale \<open>ingress_queue\<close>.
\<close>

section \<open>Data and operations\<close>

record BoundedEventQueue =
  q_capacity :: nat
  q_events :: "DomainEvent list"
  q_pending_overload :: "QueueOverloadEvent option"

datatype IngressOutcome = Accepted | AcceptedAfterEvictingNonCritical DomainEventKind

datatype IngressError = Saturated DomainEventKind bool

datatype InvalidQueueCapacity = InvalidQueueCapacity

definition try_new_queue :: "nat \<Rightarrow> InvalidQueueCapacity + BoundedEventQueue" where
  "try_new_queue capacity =
     (if capacity = 0 then Inl InvalidQueueCapacity
      else Inr \<lparr>q_capacity = capacity, q_events = [], q_pending_overload = None\<rparr>)"

definition queue_len :: "BoundedEventQueue \<Rightarrow> nat" where
  "queue_len q = length (q_events q) + (if q_pending_overload q \<noteq> None then 1 else 0)"

definition queue_is_empty :: "BoundedEventQueue \<Rightarrow> bool" where
  "queue_is_empty q \<longleftrightarrow> q_events q = [] \<and> q_pending_overload q = None"

definition record_overload :: "BoundedEventQueue \<Rightarrow> DomainEvent \<Rightarrow> BoundedEventQueue" where
  "record_overload q event =
     q\<lparr>q_pending_overload := Some
        (case q_pending_overload q of
           Some overload \<Rightarrow>
             overload\<lparr>ovl_rejected_kind := event_kind event,
                      ovl_rejected_critical := (ovl_rejected_critical overload \<or> is_critical event),
                      ovl_occurrences := saturating_add (ovl_occurrences overload) 1\<rparr>
         | None \<Rightarrow>
             \<lparr>ovl_occurred_at = monotonic_time event, ovl_rejected_kind = event_kind event,
              ovl_rejected_critical = is_critical event, ovl_occurrences = 1\<rparr>)\<rparr>"

text \<open>\<open>Iterator::rposition\<close>: the last index that satisfies the predicate.\<close>

fun rposition :: "('a \<Rightarrow> bool) \<Rightarrow> 'a list \<Rightarrow> nat option" where
  "rposition P [] = None"
| "rposition P (x # xs) =
     (case rposition P xs of
        Some i \<Rightarrow> Some (Suc i)
      | None \<Rightarrow> if P x then Some 0 else None)"

definition queue_push ::
  "BoundedEventQueue \<Rightarrow> DomainEvent \<Rightarrow> BoundedEventQueue \<times> (IngressError + IngressOutcome)" where
  "queue_push q event =
     (if length (q_events q) < q_capacity q
      then (q\<lparr>q_events := q_events q @ [event]\<rparr>, Inr IngressOutcome.Accepted)
      else
        let q1 = record_overload q event;
            saturated = (q1, Inl (Saturated (event_kind event) (is_critical event)))
        in if \<not> is_critical event then saturated
           else (case rposition (\<lambda>queued. \<not> is_critical queued) (q_events q1) of
             None \<Rightarrow> saturated
           | Some i \<Rightarrow>
               (case get_nth (q_events q1) i of
                  None \<Rightarrow> (q1, Inl (Saturated (event_kind event) True))
                | Some evicted \<Rightarrow>
                    (q1\<lparr>q_events := remove_at i (q_events q1) @ [event]\<rparr>,
                     Inr (AcceptedAfterEvictingNonCritical (event_kind evicted))))))"

definition queue_pop :: "BoundedEventQueue \<Rightarrow> BoundedEventQueue \<times> DomainEvent option" where
  "queue_pop q =
     (case q_pending_overload q of
        Some overload \<Rightarrow>
          (q\<lparr>q_pending_overload := None\<rparr>, Some (DomainEvent.QueueOverloaded overload))
      | None \<Rightarrow>
          (case q_events q of
             [] \<Rightarrow> (q, None)
           | e # es \<Rightarrow> (q\<lparr>q_events := es\<rparr>, Some e)))"

section \<open>Lemmas\<close>

definition queue_ok :: "BoundedEventQueue \<Rightarrow> bool" where
  "queue_ok q \<longleftrightarrow> 0 < q_capacity q \<and> length (q_events q) \<le> q_capacity q"

definition queue_alarm :: "BoundedEventQueue \<Rightarrow> DomainEvent option" where
  "queue_alarm q = map_option DomainEvent.QueueOverloaded (q_pending_overload q)"

lemma rposition_None: "rposition P xs = None \<longleftrightarrow> (\<forall>x \<in> set xs. \<not> P x)"
  by (induction xs) (auto split: option.splits)

lemma rposition_Some:
  "rposition P xs = Some i \<longleftrightarrow>
     i < length xs \<and> P (xs ! i) \<and> (\<forall>j < length xs. i < j \<longrightarrow> \<not> P (xs ! j))"
proof (induction xs arbitrary: i)
  case (Cons x xs)
  show ?case
  proof (cases "rposition P xs")
    case None
    then have "\<And>j. j < length xs \<Longrightarrow> \<not> P (xs ! j)" by (auto simp: rposition_None)
    with None show ?thesis by (cases i) auto
  next
    case (Some k)
    with Cons.IH [of k] have k: "k < length xs" "P (xs ! k)"
        "\<forall>j < length xs. k < j \<longrightarrow> \<not> P (xs ! j)" by auto
    show ?thesis
    proof
      assume "rposition P (x # xs) = Some i"
      with Some k show "i < length (x # xs) \<and> P ((x # xs) ! i)
          \<and> (\<forall>j < length (x # xs). i < j \<longrightarrow> \<not> P ((x # xs) ! j))"
        by (auto simp: nth_Cons split: nat.splits)
    next
      assume a: "i < length (x # xs) \<and> P ((x # xs) ! i)
          \<and> (\<forall>j < length (x # xs). i < j \<longrightarrow> \<not> P ((x # xs) ! j))"
      then obtain i' where i': "i = Suc i'" using k by (cases i) (auto dest: spec [of _ "Suc k"])
      have "i' = k"
      proof (rule linorder_cases [of i' k])
        assume "i' < k"
        with a i' k(1,2) show ?thesis by (auto dest: spec [of _ "Suc k"])
      next
        assume "k < i'"
        with a i' k(3) show ?thesis by auto
      qed
      with Some i' show "rposition P (x # xs) = Some i" by simp
    qed
  qed
qed simp

lemma record_overload_simps [simp]:
  "q_capacity (record_overload q e) = q_capacity q"
  "q_events (record_overload q e) = q_events q"
  "q_pending_overload (record_overload q e) \<noteq> None"
  by (simp_all add: record_overload_def)

text \<open>The four outcomes of a push.\<close>

lemma queue_push_cases [consumes 1, case_names room refused evicted]:
  assumes "queue_push q e = (q', res)"
    and "length (q_events q) < q_capacity q \<Longrightarrow> q' = q\<lparr>q_events := q_events q @ [e]\<rparr> \<Longrightarrow>
      res = Inr IngressOutcome.Accepted \<Longrightarrow> thesis"
    and "q_capacity q \<le> length (q_events q) \<Longrightarrow> q' = record_overload q e \<Longrightarrow>
      res = Inl (Saturated (event_kind e) (is_critical e)) \<Longrightarrow>
      \<not> is_critical e \<or> list_all is_critical (q_events q) \<Longrightarrow> thesis"
    and "\<And>i. q_capacity q \<le> length (q_events q) \<Longrightarrow> is_critical e \<Longrightarrow> i < length (q_events q) \<Longrightarrow>
      \<not> is_critical (q_events q ! i) \<Longrightarrow>
      (\<forall>j < length (q_events q). i < j \<longrightarrow> is_critical (q_events q ! j)) \<Longrightarrow>
      q' = (record_overload q e)\<lparr>q_events := remove_at i (q_events q) @ [e]\<rparr> \<Longrightarrow>
      res = Inr (AcceptedAfterEvictingNonCritical (event_kind (q_events q ! i))) \<Longrightarrow> thesis"
  shows thesis
proof (cases "length (q_events q) < q_capacity q")
  case True
  with assms(1) show thesis by (intro assms(2)) (auto simp: queue_push_def)
next
  case full: False
  show thesis
  proof (cases "is_critical e \<and> \<not> list_all is_critical (q_events q)")
    case False
    then have "\<not> is_critical e \<or> rposition (\<lambda>x. \<not> is_critical x) (q_events q) = None"
      by (auto simp: rposition_None list_all_iff)
    with assms(1) full False show thesis
      by (intro assms(3)) (auto simp: queue_push_def Let_def split: if_splits)
  next
    case True
    then obtain i where i: "rposition (\<lambda>x. \<not> is_critical x) (q_events q) = Some i"
      by (cases "rposition (\<lambda>x. \<not> is_critical x) (q_events q)") (auto simp: rposition_None list_all_iff)
    with assms(1) full True show thesis
      by (intro assms(4) [of i]) (auto simp: queue_push_def Let_def rposition_Some get_nth_def)
  qed
qed

section \<open>The interface of an ingress queue\<close>

text \<open>
  A client interleaves pushes and pops in any order. The result lists the critical events
  that were accepted and those that were taken from the queue, each in order; reports of
  the alarm are not counted.
\<close>

datatype 'e queue_io = Push 'e | Pop

fun drive_queue ::
  "('e \<Rightarrow> bool) \<Rightarrow> ('q \<Rightarrow> 'e option) \<Rightarrow> ('q \<Rightarrow> 'e \<Rightarrow> 'q \<times> ('err + 'ok)) \<Rightarrow>
   ('q \<Rightarrow> 'q \<times> 'e option) \<Rightarrow> 'q \<Rightarrow> 'e queue_io list \<Rightarrow> 'q \<times> 'e list \<times> 'e list" where
  "drive_queue critical alarm push pop q [] = (q, [], [])"
| "drive_queue critical alarm push pop q (Push e # ios) =
     (let (q1, res) = push q e; (q2, ins, outs) = drive_queue critical alarm push pop q1 ios
      in (q2, (case res of Inl _ \<Rightarrow> ins | Inr _ \<Rightarrow> filter critical [e] @ ins), outs))"
| "drive_queue critical alarm push pop q (Pop # ios) =
     (let (q1, got) = pop q; (q2, ins, outs) = drive_queue critical alarm push pop q1 ios
      in (q2, ins,
          (case got of
             None \<Rightarrow> outs
           | Some e \<Rightarrow> (if alarm q = None then filter critical [e] else []) @ outs)))"

text \<open>
  \<open>waiting\<close> are the queued events in order and \<open>alarm\<close> is a pending report. The laws say
  what a client may rely on: accepted critical events are appended and never evicted, a
  refused event raises the alarm and leaves the queued events alone, and the alarm is
  delivered first.
\<close>

locale ingress_queue =
  fixes invar :: "'q \<Rightarrow> bool"
    and critical :: "'e \<Rightarrow> bool"
    and waiting :: "'q \<Rightarrow> 'e list"
    and alarm :: "'q \<Rightarrow> 'e option"
    and push :: "'q \<Rightarrow> 'e \<Rightarrow> 'q \<times> ('err + 'ok)"
    and pop :: "'q \<Rightarrow> 'q \<times> 'e option"
  assumes invar_push: "invar q \<Longrightarrow> invar (fst (push q e))"
    and invar_pop: "invar q \<Longrightarrow> invar (fst (pop q))"
    and push_accepted: "invar q \<Longrightarrow> push q e = (q', Inr okay) \<Longrightarrow>
          filter critical (waiting q') = filter critical (waiting q) @ filter critical [e]"
    and push_refused: "invar q \<Longrightarrow> push q e = (q', Inl err) \<Longrightarrow>
          waiting q' = waiting q \<and> alarm q' \<noteq> None"
    and push_members: "invar q \<Longrightarrow> set (waiting (fst (push q e))) \<subseteq> insert e (set (waiting q))"
    and pop_alarm: "invar q \<Longrightarrow> alarm q = Some a \<Longrightarrow>
          \<exists>q'. pop q = (q', Some a) \<and> alarm q' = None \<and> waiting q' = waiting q"
    and pop_empty: "invar q \<Longrightarrow> alarm q = None \<Longrightarrow> waiting q = [] \<Longrightarrow> pop q = (q, None)"
    and pop_front: "invar q \<Longrightarrow> alarm q = None \<Longrightarrow> waiting q = e # es \<Longrightarrow>
          \<exists>q'. pop q = (q', Some e) \<and> alarm q' = None \<and> waiting q' = es"
begin

lemma critical_fifo:
  "invar q \<Longrightarrow> drive_queue critical alarm push pop q ios = (q', ins, outs) \<Longrightarrow>
   filter critical (waiting q) @ ins = outs @ filter critical (waiting q')"
proof (induction ios arbitrary: q ins outs)
  case (Cons io ios)
  show ?case
  proof (cases io)
    case (Push e)
    obtain q1 res where p: "push q e = (q1, res)" by fastforce
    obtain ins1 outs1 where d: "drive_queue critical alarm push pop q1 ios = (q', ins1, outs1)"
      and io: "ins = (case res of Inl _ \<Rightarrow> ins1 | Inr _ \<Rightarrow> filter critical [e] @ ins1)" "outs = outs1"
      using Cons.prems(2) Push p by (auto simp: Let_def split: prod.splits)
    have "invar q1" using invar_push [OF Cons.prems(1), of e] p by simp
    from Cons.IH [OF this d] show ?thesis
    proof (cases res)
      case (Inl err)
      with push_refused [OF Cons.prems(1)] p have "waiting q1 = waiting q" by auto
      with Inl io Cons.IH [OF \<open>invar q1\<close> d] show ?thesis by simp
    next
      case (Inr okay)
      with push_accepted [OF Cons.prems(1)] p
      have "filter critical (waiting q1) = filter critical (waiting q) @ filter critical [e]" by auto
      with Inr io Cons.IH [OF \<open>invar q1\<close> d] show ?thesis by simp
    qed
  next
    case Pop
    obtain q1 got where p: "pop q = (q1, got)" by fastforce
    obtain ins1 outs1 where d: "drive_queue critical alarm push pop q1 ios = (q', ins1, outs1)" and i: "ins = ins1"
      and out: "outs = (case got of None \<Rightarrow> outs1
        | Some e \<Rightarrow> (if alarm q = None then filter critical [e] else []) @ outs1)"
      using Cons.prems(2) Pop p by (auto simp: Let_def split: prod.splits)
    have "invar q1" using invar_pop [OF Cons.prems(1)] p by simp
    note IH = Cons.IH [OF this d]
    show ?thesis
    proof (cases "alarm q")
      case (Some a)
      with pop_alarm [OF Cons.prems(1) Some] p IH i out show ?thesis by auto
    next
      case None
      show ?thesis
      proof (cases "waiting q")
        case Nil
        with pop_empty [OF Cons.prems(1) None] p IH i out show ?thesis by simp
      next
        case (Cons x xs)
        with pop_front [OF Cons.prems(1) None] p IH i out None show ?thesis by auto
      qed
    qed
  qed
qed simp

end

lemma queue_push_members:
  assumes "queue_push q e = (q', res)"
  shows "set (q_events q') \<subseteq> insert e (set (q_events q))"
  using assms
proof (cases rule: queue_push_cases)
  case (evicted i)
  then show ?thesis using set_remove_at [of i "q_events q"] by auto
qed auto

lemma queue_push_ok:
  assumes "queue_ok q" "queue_push q e = (q', res)"
  shows "queue_ok q' \<and> q_capacity q' = q_capacity q"
  using assms(2)
  by (cases rule: queue_push_cases) (use assms(1) in \<open>auto simp: queue_ok_def length_remove_at\<close>)

lemma queue_pop_ok: "queue_ok q \<Longrightarrow> queue_ok (fst (queue_pop q))"
  by (auto simp: queue_pop_def queue_ok_def split: option.splits list.splits)

lemma queue_push_accepted:
  assumes "queue_push q e = (q', Inr okay)"
  shows "filter is_critical (q_events q') = filter is_critical (q_events q) @ filter is_critical [e]"
  using assms by (cases rule: queue_push_cases) (auto simp: filter_remove_at)

lemma queue_push_refused:
  assumes "queue_push q e = (q', Inl err)"
  shows "q_events q' = q_events q \<and> queue_alarm q' \<noteq> None"
  using assms by (cases rule: queue_push_cases) (auto simp: queue_alarm_def)

lemma queue_pop_alarm:
  "queue_alarm q = Some a \<Longrightarrow>
   \<exists>q'. queue_pop q = (q', Some a) \<and> queue_alarm q' = None \<and> q_events q' = q_events q"
  by (auto simp: queue_alarm_def queue_pop_def)

lemma queue_pop_waiting:
  "queue_alarm q = None \<Longrightarrow> q_events q = [] \<Longrightarrow> queue_pop q = (q, None)"
  "queue_alarm q = None \<Longrightarrow> q_events q = e # es \<Longrightarrow>
   \<exists>q'. queue_pop q = (q', Some e) \<and> queue_alarm q' = None \<and> q_events q' = es"
  by (auto simp: queue_alarm_def queue_pop_def)

interpretation bounded_queue: ingress_queue
  queue_ok is_critical q_events queue_alarm queue_push queue_pop
proof unfold_locales
  fix q e
  assume q: "queue_ok q"
  then show "queue_ok (fst (queue_push q e))" using queue_push_ok by (metis prod.collapse)
  show "set (q_events (fst (queue_push q e))) \<subseteq> insert e (set (q_events q))"
    using queue_push_members by (metis prod.collapse)
  from q show "queue_ok (fst (queue_pop q))" by (rule queue_pop_ok)
qed (simp_all add: queue_pop_alarm queue_pop_waiting queue_push_accepted,
     blast dest: queue_push_refused)

section \<open>Properties\<close>

text \<open>
  C32. Critical events are never lost or reordered: in any interleaving of pushes and pops
  on a queue, the critical events that were waiting followed by those accepted are exactly
  the critical events taken out followed by those still waiting, in this order; evictions
  only ever remove observations.
\<close>

theorem queue_critical_fifo:
  assumes "queue_ok q" "drive_queue is_critical queue_alarm queue_push queue_pop q ios = (q', ins, outs)"
  shows "filter is_critical (q_events q) @ ins = outs @ filter is_critical (q_events q')"
  using assms by (rule bounded_queue.critical_fifo)

definition demo_io :: "DomainEvent queue_io list" where
  "demo_io = [Push (DomainEvent.RuntimeStarted 1), Push (DomainEvent.RuntimeStarted 2), Pop, Pop]"

theorem queue_critical_fifo_witness:
  "\<exists>q' ins outs. queue_ok \<lparr>q_capacity = 1, q_events = [], q_pending_overload = None\<rparr>
     \<and> drive_queue is_critical queue_alarm queue_push queue_pop
         \<lparr>q_capacity = 1, q_events = [], q_pending_overload = None\<rparr> demo_io = (q', ins, outs)
     \<and> ins = [DomainEvent.RuntimeStarted 1]
     \<and> [] @ ins = outs @ filter is_critical (q_events q')"
proof -
  let ?q = "\<lparr>q_capacity = 1, q_events = [], q_pending_overload = None\<rparr>"
  have ok: "queue_ok ?q" by (simp add: queue_ok_def)
  obtain q' outs where d: "drive_queue is_critical queue_alarm queue_push queue_pop ?q demo_io
      = (q', [DomainEvent.RuntimeStarted 1], outs)"
    by (simp add: demo_io_def queue_push_def queue_pop_def queue_alarm_def record_overload_def
        Let_def)
  from queue_critical_fifo [OF ok d] ok d show ?thesis by auto
qed

definition overload_count :: "BoundedEventQueue \<Rightarrow> nat" where
  "overload_count q = (case q_pending_overload q of None \<Rightarrow> 0 | Some x \<Rightarrow> unat (ovl_occurrences x))"

lemma overload_count_record:
  "overload_count (record_overload q e) = min (overload_count q + 1) (2 ^ 64 - 1)"
  by (auto simp: overload_count_def record_overload_def unat_saturating_add split: option.split)

text \<open>
  A push is exact: a queue below its capacity appends the event; a full queue refuses an
  observation, and refuses a critical event only when nothing but critical events is
  queued, otherwise it drops the youngest queued observation for it; whenever the queue
  is full the pending overload report is raised, and its count saturates at the largest
  64-bit value instead of wrapping around.
\<close>

theorem queue_push_exact:
  "case queue_push q e of (q', res) \<Rightarrow>
     if length (q_events q) < q_capacity q
     then res = Inr IngressOutcome.Accepted \<and> q' = q\<lparr>q_events := q_events q @ [e]\<rparr>
     else q_pending_overload q' \<noteq> None
        \<and> overload_count q' = min (overload_count q + 1) (2 ^ 64 - 1)
        \<and> (if is_critical e \<and> list_ex (Not \<circ> is_critical) (q_events q)
           then \<exists>xs x ys. q_events q = xs @ x # ys \<and> \<not> is_critical x \<and> list_all is_critical ys
                  \<and> q_events q' = xs @ ys @ [e]
                  \<and> res = Inr (AcceptedAfterEvictingNonCritical (event_kind x))
           else res = Inl (Saturated (event_kind e) (is_critical e)) \<and> q_events q' = q_events q)"
proof -
  obtain q' res where p: "queue_push q e = (q', res)" by fastforce
  from p show ?thesis
  proof (cases rule: queue_push_cases)
    case (evicted i)
    let ?xs = "take i (q_events q)" and ?x = "q_events q ! i" and ?ys = "drop (Suc i) (q_events q)"
    have "q_events q = ?xs @ ?x # ?ys" using evicted(3) by (rule id_take_nth_drop)
    moreover have "list_all is_critical ?ys" using evicted(5) by (auto simp: list_all_length)
    moreover have "list_ex (Not \<circ> is_critical) (q_events q)"
      using evicted(3,4) by (auto simp: list_ex_length)
    moreover have "overload_count q' = min (overload_count q + 1) (2 ^ 64 - 1)"
      using overload_count_record [of q e] by (simp add: evicted(6) overload_count_def)
    moreover have "q_pending_overload q' \<noteq> None" by (simp add: evicted(6))
    ultimately show ?thesis using p evicted by (auto simp: remove_at_def simp del: not_None_eq)
  qed (use p in \<open>auto simp: overload_count_record list_ex_iff list_all_iff simp del: not_None_eq\<close>)
qed

end
