(* ===== verification/Runtime_State.thy ===== *)
theory Runtime_State
  imports Events
begin

text \<open>
  The runtime state of the engine (\<open>lumi-domain/src/state.rs\<close>): operation and health,
  decks, plans, the leader and its active plan, sequence bookkeeping and the three
  bounded histories. A \<open>BTreeMap\<close> is a partial map, a \<open>VecDeque\<close> a list whose head is
  the front.
\<close>

section \<open>Data\<close>

datatype OperationState = Off | Armed | Live | Paused

definition allows_output :: "OperationState \<Rightarrow> bool" where
  "allows_output s \<longleftrightarrow> s = OperationState.Live"

datatype RuntimeHealth = Starting | Ready | Degraded

record DeckState =
  deck_metadata :: TrackMetadata
  deck_track_load_id :: TrackLoadId
  deck_beat :: u32
  deck_effective_bpm_milli :: u32
  deck_playing :: bool
  deck_phrase_index :: "u16 option"
  deck_last_observed_at :: MonotonicTime

definition deck_track_id :: "DeckState \<Rightarrow> TrackId" where
  "deck_track_id d = track_id (deck_metadata d)"

type_synonym ScheduledCue = "DeckId \<times> TrackLoadId \<times> u16 \<times> CueId \<times> PlanRevision"

record RuntimeState =
  st_revision :: StateRevision
  st_operation :: OperationState
  st_health :: RuntimeHealth
  st_decks :: "DeckId \<rightharpoonup> DeckState"
  st_plans :: "DeckId \<rightharpoonup> LightingPlan"
  st_source_statuses :: "SourceId \<rightharpoonup> DeckSourceStatus"
  st_leader_deck :: "DeckId option"
  st_active_plan :: "LightingPlan option"
  st_output_command_sequence :: u64
  st_last_scheduled_cue :: "ScheduledCue option"
  st_output_effects :: "OutputEffectResult list"
  st_source_sequences :: "SourceId \<rightharpoonup> SourceSequence"
  st_source_times :: "SourceId \<rightharpoonup> MonotonicTime"
  st_command_sequences :: "ClientId \<rightharpoonup> CommandSequence"
  st_effect_sequences :: "WorkerId \<rightharpoonup> EffectSequence"
  st_processed_events :: u64
  st_last_decision :: "DecisionReason option"
  st_diagnostics :: "Diagnostic list"
  st_timeline :: "TimelineEntry list"

definition MAXIMUM_DIAGNOSTICS :: nat where
  "MAXIMUM_DIAGNOSTICS = 64"

definition MAXIMUM_OUTPUT_EFFECTS :: nat where
  "MAXIMUM_OUTPUT_EFFECTS = 256"

definition MAXIMUM_TIMELINE_ENTRIES :: nat where
  "MAXIMUM_TIMELINE_ENTRIES = 256"

section \<open>Operations\<close>

definition default_state :: RuntimeState where
  "default_state =
     \<lparr>st_revision = state_revision_initial, st_operation = OperationState.Off,
      st_health = RuntimeHealth.Starting, st_decks = Map.empty, st_plans = Map.empty,
      st_source_statuses = Map.empty, st_leader_deck = None, st_active_plan = None,
      st_output_command_sequence = 0, st_last_scheduled_cue = None, st_output_effects = [],
      st_source_sequences = Map.empty, st_source_times = Map.empty,
      st_command_sequences = Map.empty, st_effect_sequences = Map.empty,
      st_processed_events = 0, st_last_decision = None, st_diagnostics = [], st_timeline = []\<rparr>"

text \<open>
  \<open>if last_scheduled_cue.is_some_and(|scheduled| scheduled.0 == deck_id) { None }\<close> and the
  same for the active plan of a deck.
\<close>

definition forget_scheduled :: "DeckId \<Rightarrow> RuntimeState \<Rightarrow> RuntimeState" where
  "forget_scheduled deck s =
     (if (case st_last_scheduled_cue s of None \<Rightarrow> False | Some sc \<Rightarrow> fst sc = deck)
      then s\<lparr>st_last_scheduled_cue := None\<rparr> else s)"

definition forget_active_plan :: "DeckId \<Rightarrow> RuntimeState \<Rightarrow> RuntimeState" where
  "forget_active_plan deck s =
     (if (case st_active_plan s of None \<Rightarrow> False | Some p \<Rightarrow> plan_deck_id p = deck)
      then s\<lparr>st_active_plan := None\<rparr> else s)"

definition load_track ::
  "DeckId \<Rightarrow> TrackMetadata \<Rightarrow> TrackLoadId \<Rightarrow> MonotonicTime \<Rightarrow> RuntimeState \<Rightarrow> RuntimeState" where
  "load_track deck metadata load at s =
     forget_active_plan deck (forget_scheduled deck
       (s\<lparr>st_decks := (st_decks s)(deck \<mapsto>
            \<lparr>deck_metadata = metadata, deck_track_load_id = load, deck_beat = 0,
             deck_effective_bpm_milli = track_bpm_milli metadata, deck_playing = False,
             deck_phrase_index = None, deck_last_observed_at = at\<rparr>),
          st_plans := (st_plans s)(deck := None)\<rparr>))"

definition push_diagnostic :: "RuntimeState \<Rightarrow> Diagnostic \<Rightarrow> RuntimeState" where
  "push_diagnostic s d =
     s\<lparr>st_diagnostics := push_bounded MAXIMUM_DIAGNOSTICS (st_diagnostics s) d\<rparr>"

definition push_output_effect :: "RuntimeState \<Rightarrow> OutputEffectResult \<Rightarrow> RuntimeState" where
  "push_output_effect s r =
     s\<lparr>st_output_effects := push_bounded MAXIMUM_OUTPUT_EFFECTS (st_output_effects s) r\<rparr>"

definition push_timeline :: "RuntimeState \<Rightarrow> TimelineEntry \<Rightarrow> RuntimeState" where
  "push_timeline s e =
     s\<lparr>st_timeline := push_bounded MAXIMUM_TIMELINE_ENTRIES (st_timeline s) e\<rparr>"

section \<open>The histories are bounded\<close>

interpretation diagnostics: bounded_history st_diagnostics push_diagnostic MAXIMUM_DIAGNOSTICS
  by unfold_locales (simp_all add: push_diagnostic_def MAXIMUM_DIAGNOSTICS_def)

interpretation output_effects: bounded_history st_output_effects push_output_effect MAXIMUM_OUTPUT_EFFECTS
  by unfold_locales (simp_all add: push_output_effect_def MAXIMUM_OUTPUT_EFFECTS_def)

interpretation timeline: bounded_history st_timeline push_timeline MAXIMUM_TIMELINE_ENTRIES
  by unfold_locales (simp_all add: push_timeline_def MAXIMUM_TIMELINE_ENTRIES_def)

lemma forget_scheduled_frame [simp]:
  "st_revision (forget_scheduled k s) = st_revision s"
  "st_operation (forget_scheduled k s) = st_operation s"
  "st_health (forget_scheduled k s) = st_health s"
  "st_decks (forget_scheduled k s) = st_decks s"
  "st_plans (forget_scheduled k s) = st_plans s"
  "st_source_statuses (forget_scheduled k s) = st_source_statuses s"
  "st_leader_deck (forget_scheduled k s) = st_leader_deck s"
  "st_active_plan (forget_scheduled k s) = st_active_plan s"
  "st_output_command_sequence (forget_scheduled k s) = st_output_command_sequence s"
  "st_output_effects (forget_scheduled k s) = st_output_effects s"
  "st_source_sequences (forget_scheduled k s) = st_source_sequences s"
  "st_source_times (forget_scheduled k s) = st_source_times s"
  "st_command_sequences (forget_scheduled k s) = st_command_sequences s"
  "st_effect_sequences (forget_scheduled k s) = st_effect_sequences s"
  "st_processed_events (forget_scheduled k s) = st_processed_events s"
  "st_last_decision (forget_scheduled k s) = st_last_decision s"
  "st_diagnostics (forget_scheduled k s) = st_diagnostics s"
  "st_timeline (forget_scheduled k s) = st_timeline s"
  by (simp_all add: forget_scheduled_def)

lemma forget_active_plan_frame [simp]:
  "st_revision (forget_active_plan k s) = st_revision s"
  "st_operation (forget_active_plan k s) = st_operation s"
  "st_health (forget_active_plan k s) = st_health s"
  "st_decks (forget_active_plan k s) = st_decks s"
  "st_plans (forget_active_plan k s) = st_plans s"
  "st_source_statuses (forget_active_plan k s) = st_source_statuses s"
  "st_leader_deck (forget_active_plan k s) = st_leader_deck s"
  "st_output_command_sequence (forget_active_plan k s) = st_output_command_sequence s"
  "st_last_scheduled_cue (forget_active_plan k s) = st_last_scheduled_cue s"
  "st_output_effects (forget_active_plan k s) = st_output_effects s"
  "st_source_sequences (forget_active_plan k s) = st_source_sequences s"
  "st_source_times (forget_active_plan k s) = st_source_times s"
  "st_command_sequences (forget_active_plan k s) = st_command_sequences s"
  "st_effect_sequences (forget_active_plan k s) = st_effect_sequences s"
  "st_processed_events (forget_active_plan k s) = st_processed_events s"
  "st_last_decision (forget_active_plan k s) = st_last_decision s"
  "st_diagnostics (forget_active_plan k s) = st_diagnostics s"
  "st_timeline (forget_active_plan k s) = st_timeline s"
  by (simp_all add: forget_active_plan_def)

lemma st_last_scheduled_cue_forget [simp]:
  "st_last_scheduled_cue (forget_scheduled k s) =
     (case st_last_scheduled_cue s of None \<Rightarrow> None | Some sc \<Rightarrow> if fst sc = k then None else Some sc)"
  by (simp add: forget_scheduled_def split: option.split)

lemma st_active_plan_forget [simp]:
  "st_active_plan (forget_active_plan k s) =
     (case st_active_plan s of None \<Rightarrow> None | Some p \<Rightarrow> if plan_deck_id p = k then None else Some p)"
  by (simp add: forget_active_plan_def split: option.split)

end
