(* ===== verification/Reducer.thy ===== *)
theory Reducer
  imports Runtime_State
begin

text \<open>
  The deterministic reducer (\<open>lumi-domain/src/reducer.rs\<close>). Each arm of the source's
  \<open>match\<close> over observations is one definition that returns the new state, the decision
  and the effects; an error discards the state, as the source reduces a clone.
\<close>

section \<open>Errors and results\<close>

datatype ReducerError =
    RuntimeAlreadyStarted
  | RevisionConflict StateRevision StateRevision
  | InvalidOperationTransition OperationState OperationCommand
  | PlanRevisionGap PlanRevision PlanRevision
  | StateRevisionOverflow
  | PlanRevisionOverflow
  | OutputCommandSequenceOverflow
  | ProcessedEventOverflow

record Reduction =
  red_state :: RuntimeState
  red_decision :: DecisionReason
  red_effects :: "Effect list"
  red_state_changed :: bool

type_synonym outcome = "ReducerError + (RuntimeState \<times> DecisionReason \<times> Effect list)"
type_synonym reduced = "ReducerError + (RuntimeState \<times> DecisionReason \<times> Effect list \<times> bool)"

section \<open>Scheduling a cue\<close>

definition phrase_index_at_beat :: "TrackMetadata \<Rightarrow> u32 \<Rightarrow> u16 option" where
  "phrase_index_at_beat metadata beat =
     map_option phrase_index
       (find (\<lambda>p. phrase_start_beat p \<le> beat \<and> beat < phrase_end_beat p) (track_phrases metadata))"

definition cue_for_phrase :: "LightingPlan \<Rightarrow> u16 \<Rightarrow> LightingCue option" where
  "cue_for_phrase plan idx =
     (case get_nth (plan_cues plan) (unat idx) of
        None \<Rightarrow> None
      | Some cue \<Rightarrow> if cue_phrase_index cue = idx then Some cue else None)"

definition execution_effect ::
  "RuntimeState \<Rightarrow> DeckId \<Rightarrow> TrackLoadId \<Rightarrow> u16 \<Rightarrow> MonotonicTime \<Rightarrow>
   ReducerError + (RuntimeState \<times> Effect option)" where
  "execution_effect s deck load idx at =
     (if st_leader_deck s \<noteq> Some deck then Inr (s, None)
      else case st_active_plan s of
        None \<Rightarrow> Inr (s, None)
      | Some plan \<Rightarrow>
          if plan_deck_id plan \<noteq> deck \<or> plan_track_load_id plan \<noteq> load then Inr (s, None)
          else case cue_for_phrase plan idx of
            None \<Rightarrow> Inr (s, None)
          | Some cue \<Rightarrow>
              let identity = (deck, load, idx, cue_id cue, plan_revision plan) in
              if st_last_scheduled_cue s = Some identity then Inr (s, None)
              else and_then
                (ok_or (checked_add (st_output_command_sequence s) 1) OutputCommandSequenceOverflow)
                (\<lambda>command_sequence.
                  Inr (s\<lparr>st_output_command_sequence := command_sequence,
                         st_last_scheduled_cue := Some identity\<rparr>,
                       Some (ExecuteCue
                         \<lparr>req_command_id = command_sequence, req_plan_id = plan_id plan,
                          req_plan_revision = plan_revision plan, req_deck_id = deck,
                          req_track_load_id = load, req_phrase_index = idx,
                          req_cue_id = cue_id cue, req_action = cue_action cue,
                          req_cue_reason = cue_reason cue, req_scheduled_at = at\<rparr>))))"

text \<open>
  \<open>if let Some(effect) = execution_effect(..)? { effects.push(effect); PhraseExecutionScheduled }
  else { otherwise }\<close>.
\<close>

definition schedule_or ::
  "DecisionReason \<Rightarrow> ReducerError + (RuntimeState \<times> Effect option) \<Rightarrow> outcome" where
  "schedule_or otherwise r =
     and_then r (\<lambda>(s, effect).
       case effect of
         Some e \<Rightarrow> Inr (s, PhraseExecutionScheduled, [e])
       | None \<Rightarrow> Inr (s, otherwise, []))"

section \<open>Observations\<close>

definition put_deck :: "DeckId \<Rightarrow> DeckState \<Rightarrow> RuntimeState \<Rightarrow> RuntimeState" where
  "put_deck deck d s = s\<lparr>st_decks := (st_decks s)(deck \<mapsto> d)\<rparr>"

definition observe_source_status :: "SourceId \<Rightarrow> DeckSourceStatus \<Rightarrow> RuntimeState \<Rightarrow> outcome" where
  "observe_source_status source status s =
     Inr (s\<lparr>st_source_statuses := (st_source_statuses s)(source \<mapsto> status)\<rparr>, SourceStatusAccepted, [])"

definition observe_track_loaded ::
  "DeckId \<Rightarrow> TrackMetadata \<Rightarrow> TrackLoadId \<Rightarrow> MonotonicTime \<Rightarrow> RuntimeState \<Rightarrow> outcome" where
  "observe_track_loaded deck metadata load at s =
     Inr (load_track deck metadata load at s, TrackLoadAccepted, [])"

definition observe_metadata_hydrated ::
  "DeckId \<Rightarrow> TrackMetadata \<Rightarrow> TrackLoadId \<Rightarrow> RuntimeState \<Rightarrow> outcome" where
  "observe_metadata_hydrated deck metadata load s =
     (case st_decks s deck of
        Some d \<Rightarrow>
          if deck_track_load_id d = load
          then Inr (put_deck deck
                 (d\<lparr>deck_metadata := metadata,
                    deck_phrase_index := phrase_index_at_beat metadata (deck_beat d)\<rparr>) s,
               DecisionReason.TrackMetadataHydrated, [])
          else Inr (s, TrackLoadMismatch, [])
      | None \<Rightarrow> Inr (s, TrackLoadMismatch, []))"

definition observe_position ::
  "DeckId \<Rightarrow> TrackLoadId \<Rightarrow> u32 \<Rightarrow> MonotonicTime \<Rightarrow> RuntimeState \<Rightarrow> outcome" where
  "observe_position deck load beat at s =
     (case st_decks s deck of
        Some d \<Rightarrow>
          if deck_track_load_id d \<noteq> load then Inr (s, TrackLoadMismatch, [])
          else if beat < deck_beat d then Inr (s, PositionRegressed, [])
          else Inr (put_deck deck (d\<lparr>deck_beat := beat, deck_last_observed_at := at\<rparr>) s,
                    PositionAdvanced, [])
      | None \<Rightarrow> Inr (s, TrackLoadMismatch, []))"

definition observe_seek ::
  "DeckId \<Rightarrow> TrackLoadId \<Rightarrow> u32 \<Rightarrow> MonotonicTime \<Rightarrow> RuntimeState \<Rightarrow> outcome" where
  "observe_seek deck load beat at s =
     (case st_decks s deck of
        None \<Rightarrow> Inr (s, TrackLoadMismatch, [])
      | Some d \<Rightarrow>
          if deck_track_load_id d \<noteq> load then Inr (s, TrackLoadMismatch, [])
          else
            let phrase = phrase_index_at_beat (deck_metadata d) beat;
                s1 = put_deck deck (d\<lparr>deck_beat := beat, deck_phrase_index := phrase,
                                     deck_last_observed_at := at\<rparr>) s;
                s2 = forget_scheduled deck s1
            in if st_operation s2 = OperationState.Live \<and> st_leader_deck s2 = Some deck \<and> deck_playing d
               then (case phrase of
                       Some idx \<Rightarrow> schedule_or PositionSeeked (execution_effect s2 deck load idx at)
                     | None \<Rightarrow> Inr (s2, PositionSeeked, []))
               else Inr (s2, PositionSeeked, []))"

definition observe_tempo ::
  "DeckId \<Rightarrow> TrackLoadId \<Rightarrow> u32 \<Rightarrow> MonotonicTime \<Rightarrow> RuntimeState \<Rightarrow> outcome" where
  "observe_tempo deck load bpm at s =
     (case st_decks s deck of
        Some d \<Rightarrow>
          if deck_track_load_id d = load \<and> bpm_in_range bpm
          then Inr (put_deck deck
                 (d\<lparr>deck_effective_bpm_milli := bpm, deck_last_observed_at := at\<rparr>) s,
               DecisionReason.PlaybackTempoChanged, [])
          else Inr (s, TrackLoadMismatch, [])
      | None \<Rightarrow> Inr (s, TrackLoadMismatch, []))"

definition observe_playback ::
  "DeckId \<Rightarrow> TrackLoadId \<Rightarrow> bool \<Rightarrow> MonotonicTime \<Rightarrow> RuntimeState \<Rightarrow> outcome" where
  "observe_playback deck load playing at s =
     (case st_decks s deck of
        None \<Rightarrow> Inr (s, TrackLoadMismatch, [])
      | Some d \<Rightarrow>
          if deck_track_load_id d \<noteq> load then Inr (s, TrackLoadMismatch, [])
          else
            let started = (\<not> deck_playing d \<and> playing);
                s1 = put_deck deck (d\<lparr>deck_playing := playing, deck_last_observed_at := at\<rparr>) s
            in if \<not> playing
               then Inr (forget_scheduled deck s1, DecisionReason.PlaybackStateChanged, [])
               else (case deck_phrase_index d of
                       Some idx \<Rightarrow>
                         if started \<and> st_operation s1 = OperationState.Live
                         then schedule_or DecisionReason.PlaybackStateChanged
                                (execution_effect s1 deck load idx at)
                         else Inr (s1, DecisionReason.PlaybackStateChanged, [])
                     | None \<Rightarrow> Inr (s1, DecisionReason.PlaybackStateChanged, [])))"

definition observe_unloaded :: "DeckId \<Rightarrow> TrackLoadId \<Rightarrow> RuntimeState \<Rightarrow> outcome" where
  "observe_unloaded deck load s =
     (case st_decks s deck of
        Some d \<Rightarrow>
          if deck_track_load_id d = load
          then Inr (forget_scheduled deck (forget_active_plan deck
                 (s\<lparr>st_decks := (st_decks s)(deck := None),
                    st_plans := (st_plans s)(deck := None),
                    st_leader_deck :=
                      (if st_leader_deck s = Some deck then None else st_leader_deck s)\<rparr>)),
               DecisionReason.TrackUnloaded, [])
          else Inr (s, TrackLoadMismatch, [])
      | None \<Rightarrow> Inr (s, TrackLoadMismatch, []))"

definition observe_phrase ::
  "DeckId \<Rightarrow> TrackLoadId \<Rightarrow> u16 \<Rightarrow> MonotonicTime \<Rightarrow> RuntimeState \<Rightarrow> outcome" where
  "observe_phrase deck load idx at s =
     (case st_decks s deck of
        Some d \<Rightarrow>
          if deck_track_load_id d = load \<and> track_phrase (deck_metadata d) idx \<noteq> None
          then
            let s1 = put_deck deck
                   (d\<lparr>deck_phrase_index := Some idx, deck_last_observed_at := at\<rparr>) s
            in if st_operation s1 \<noteq> OperationState.Live \<or> \<not> deck_playing d
               then Inr (s1, DecisionReason.PhraseChanged, [])
               else schedule_or PhraseExecutionSkipped (execution_effect s1 deck load idx at)
          else Inr (s, TrackLoadMismatch, [])
      | None \<Rightarrow> Inr (s, TrackLoadMismatch, []))"

definition activatable :: "LightingPlan \<Rightarrow> TrackLoadId \<Rightarrow> TrackId \<Rightarrow> bool" where
  "activatable plan load track \<longleftrightarrow> plan_status plan = PlanStatus.Ready
     \<and> plan_track_load_id plan = load \<and> plan_track_id plan = track"

definition observe_leader ::
  "DeckId \<Rightarrow> TrackLoadId \<Rightarrow> MonotonicTime \<Rightarrow> RuntimeState \<Rightarrow> outcome" where
  "observe_leader deck load at s =
     (case st_decks s deck of
        None \<Rightarrow> Inr (s\<lparr>st_active_plan := None\<rparr>, TrackLoadMismatch, [])
      | Some d \<Rightarrow>
          if deck_track_load_id d \<noteq> load then Inr (s\<lparr>st_active_plan := None\<rparr>, TrackLoadMismatch, [])
          else
            let active = (case st_plans s deck of
                  None \<Rightarrow> None
                | Some p \<Rightarrow> if activatable p load (deck_track_id d) then Some p else None);
                s1 = s\<lparr>st_leader_deck := Some deck, st_active_plan := active\<rparr>
            in if active \<noteq> None \<and> st_operation s1 = OperationState.Live \<and> deck_playing d
               then (case deck_phrase_index d of
                       Some idx \<Rightarrow> schedule_or PlanActivated (execution_effect s1 deck load idx at)
                     | None \<Rightarrow> Inr (s1, PlanActivated, []))
               else if active \<noteq> None then Inr (s1, PlanActivated, [])
               else Inr (s1, PlanActivationSkipped, []))"

fun observe ::
  "SourceId \<Rightarrow> MonotonicTime \<Rightarrow> DeckObservation \<Rightarrow> RuntimeState \<Rightarrow> outcome" where
  "observe source at (DeckObservation.SourceStatusChanged status) s =
     observe_source_status source status s"
| "observe source at (DeckObservation.TrackLoaded deck metadata load) s =
     observe_track_loaded deck metadata load at s"
| "observe source at (DeckObservation.TrackMetadataHydrated deck metadata load) s =
     observe_metadata_hydrated deck metadata load s"
| "observe source at (DeckObservation.PlaybackPosition deck load beat) s =
     observe_position deck load beat at s"
| "observe source at (DeckObservation.PlaybackPositionSeeked deck load beat) s =
     observe_seek deck load beat at s"
| "observe source at (DeckObservation.PlaybackTempoChanged deck load bpm) s =
     observe_tempo deck load bpm at s"
| "observe source at (DeckObservation.PlaybackStateChanged deck load playing) s =
     observe_playback deck load playing at s"
| "observe source at (DeckObservation.TrackUnloaded deck load) s =
     observe_unloaded deck load s"
| "observe source at (DeckObservation.PhraseChanged deck load idx) s =
     observe_phrase deck load idx at s"
| "observe source at (DeckObservation.LeaderChanged deck load) s =
     observe_leader deck load at s"

definition observation_changes_state :: "DecisionReason \<Rightarrow> bool" where
  "observation_changes_state r \<longleftrightarrow>
     r \<in> {SourceStatusAccepted, TrackLoadAccepted, PositionAdvanced, PositionSeeked,
          DecisionReason.PlaybackTempoChanged, DecisionReason.PlaybackStateChanged,
          DecisionReason.TrackUnloaded, DecisionReason.PhraseChanged, PlanActivated,
          PlanActivationSkipped, PhraseExecutionScheduled, PhraseExecutionSkipped}"

definition not_newer :: "('k \<rightharpoonup> u64) \<Rightarrow> 'k \<Rightarrow> u64 \<Rightarrow> bool" where
  "not_newer m k n = (case m k of None \<Rightarrow> False | Some prev \<Rightarrow> n \<le> prev)"

definition reduce_observation :: "RuntimeState \<Rightarrow> ObservationEnvelope \<Rightarrow> reduced" where
  "reduce_observation s e =
     (if not_newer (st_source_sequences s) (obs_source_id e) (obs_sequence e)
      then Inr (s, StaleObservationIgnored, [], False)
      else
        let s1 = s\<lparr>st_source_sequences :=
              (st_source_sequences s)(obs_source_id e \<mapsto> obs_sequence e)\<rparr>
        in if (case st_source_times s1 (obs_source_id e) of
                 None \<Rightarrow> False | Some prev \<Rightarrow> obs_observed_at e < prev)
           then Inr (s1, ObservationTimeRegressed, [], False)
           else
             let s2 = s1\<lparr>st_source_times :=
                   (st_source_times s1)(obs_source_id e \<mapsto> obs_observed_at e)\<rparr>
             in and_then (observe (obs_source_id e) (obs_observed_at e) (obs_observation e) s2)
                  (\<lambda>(s3, decision, effects).
                    Inr (s3, decision, effects, observation_changes_state decision)))"

section \<open>Commands, effect results and the reducer\<close>

definition reduce_runtime_started :: "RuntimeState \<Rightarrow> reduced" where
  "reduce_runtime_started s =
     (if st_health s \<noteq> RuntimeHealth.Starting then Inl RuntimeAlreadyStarted
      else Inr (s\<lparr>st_health := RuntimeHealth.Ready\<rparr>, RuntimeInitialized, [], True))"

fun command_target :: "OperationState \<Rightarrow> OperationCommand \<Rightarrow> ReducerError + OperationState" where
  "command_target st OperationCommand.Arm =
     (if st = OperationState.Off then Inr OperationState.Armed
      else Inl (InvalidOperationTransition st OperationCommand.Arm))"
| "command_target st OperationCommand.Start =
     (if st = OperationState.Armed \<or> st = OperationState.Paused then Inr OperationState.Live
      else Inl (InvalidOperationTransition st OperationCommand.Start))"
| "command_target st OperationCommand.Pause =
     (if st = OperationState.Live then Inr OperationState.Paused
      else Inl (InvalidOperationTransition st OperationCommand.Pause))"
| "command_target st OperationCommand.Off = Inr OperationState.Off"

definition current_execution :: "RuntimeState \<Rightarrow> (DeckId \<times> TrackLoadId \<times> u16) option" where
  "current_execution s =
     (case st_leader_deck s of
        None \<Rightarrow> None
      | Some deck \<Rightarrow>
          (case st_decks s deck of
             None \<Rightarrow> None
           | Some d \<Rightarrow>
               (case deck_phrase_index d of
                  None \<Rightarrow> None
                | Some idx \<Rightarrow>
                    if deck_playing d then Some (deck, deck_track_load_id d, idx) else None)))"

definition reduce_command :: "RuntimeState \<Rightarrow> UserCommandEnvelope \<Rightarrow> reduced" where
  "reduce_command s e =
     (if not_newer (st_command_sequences s) (cmd_client_id e) (cmd_sequence e)
      then Inr (s, DuplicateCommandIgnored, [], False)
      else if cmd_expected_state_revision e \<noteq> st_revision s
      then Inl (RevisionConflict (cmd_expected_state_revision e) (st_revision s))
      else and_then (command_target (st_operation s) (cmd_command e)) (\<lambda>target.
        let s1 = s\<lparr>st_command_sequences :=
                    (st_command_sequences s)(cmd_client_id e \<mapsto> cmd_sequence e),
                  st_operation := target\<rparr>
        in if target = OperationState.Paused \<or> target = OperationState.Off
           then Inr (s1\<lparr>st_last_scheduled_cue := None\<rparr>, OperationTransitionAccepted,
                     [EnsureOutputClosed OperationTransitionAccepted], True)
           else if target = OperationState.Live
           then (case current_execution s1 of
                   None \<Rightarrow> Inr (s1, OperationTransitionAccepted, [], True)
                 | Some (deck, load, idx) \<Rightarrow>
                     and_then (execution_effect s1 deck load idx (cmd_issued_at e))
                       (\<lambda>(s2, effect).
                         Inr (s2, OperationTransitionAccepted,
                              (case effect of None \<Rightarrow> [] | Some x \<Rightarrow> [x]), True)))
           else Inr (s1, OperationTransitionAccepted, [], True)))"

definition reduce_plan_generated :: "RuntimeState \<Rightarrow> LightingPlan \<Rightarrow> reduced" where
  "reduce_plan_generated s plan =
     (case st_decks s (plan_deck_id plan) of
        None \<Rightarrow> Inr (s, PlanTrackLoadMismatch, [], False)
      | Some d \<Rightarrow>
          if deck_track_load_id d \<noteq> plan_track_load_id plan \<or> deck_track_id d \<noteq> plan_track_id plan
          then Inr (s, PlanTrackLoadMismatch, [], False)
          else and_then
            (case st_plans s (plan_deck_id plan) of
               Some current \<Rightarrow>
                 ok_or (plan_revision_checked_next (plan_revision current)) PlanRevisionOverflow
             | None \<Rightarrow> Inr plan_revision_initial)
            (\<lambda>expected.
              if plan_revision plan < expected then Inr (s, StalePlanIgnored, [], False)
              else if plan_revision plan \<noteq> expected
              then Inl (PlanRevisionGap expected (plan_revision plan))
              else Inr (s\<lparr>st_plans := (st_plans s)(plan_deck_id plan \<mapsto> plan),
                          st_active_plan :=
                            (if st_leader_deck s = Some (plan_deck_id plan) then Some plan
                             else st_active_plan s)\<rparr>,
                        PlanAccepted, [], True)))"

definition reduce_effect_result :: "RuntimeState \<Rightarrow> EffectResultEnvelope \<Rightarrow> reduced" where
  "reduce_effect_result s e =
     (if not_newer (st_effect_sequences s) (eff_worker_id e) (eff_sequence e)
      then Inr (s, DuplicateEffectIgnored, [], False)
      else
        let s1 = s\<lparr>st_effect_sequences :=
              (st_effect_sequences s)(eff_worker_id e \<mapsto> eff_sequence e)\<rparr>
        in (case eff_result e of
              EffectResult.PlanGenerated plan \<Rightarrow> reduce_plan_generated s1 plan
            | EffectResult.OutputEffectRecorded r \<Rightarrow>
                Inr (push_output_effect s1 r, DecisionReason.OutputEffectRecorded, [], True)
            | EffectResult.OutputGateClosed \<Rightarrow> Inr (s1, OutputGateConfirmedClosed, [], False)))"

definition reduce_queue_overloaded :: "RuntimeState \<Rightarrow> QueueOverloadEvent \<Rightarrow> reduced" where
  "reduce_queue_overloaded s overload =
     Inr (push_diagnostic
            (s\<lparr>st_health := RuntimeHealth.Degraded,
               st_operation :=
                 (if st_operation s = OperationState.Live then OperationState.Paused
                  else st_operation s)\<rparr>)
            \<lparr>diag_sequence = saturating_add (st_processed_events s) 1,
             diag_severity = DiagnosticSeverity.Error, diag_reason = QueueSaturated,
             diag_event_kind = DomainEventKind.QueueOverloaded,
             diag_occurred_at = ovl_occurred_at overload\<rparr>,
          QueueSaturated, [EnsureOutputClosed QueueSaturated], True)"

fun reduce_event :: "RuntimeState \<Rightarrow> DomainEvent \<Rightarrow> reduced" where
  "reduce_event s (DomainEvent.RuntimeStarted _) = reduce_runtime_started s"
| "reduce_event s (DomainEvent.Observation e) = reduce_observation s e"
| "reduce_event s (DomainEvent.UserCommand e) = reduce_command s e"
| "reduce_event s (DomainEvent.EffectResult e) = reduce_effect_result s e"
| "reduce_event s (DomainEvent.QueueOverloaded e) = reduce_queue_overloaded s e"

definition finish_reduction ::
  "DomainEvent \<Rightarrow> RuntimeState \<times> DecisionReason \<times> Effect list \<times> bool \<Rightarrow> ReducerError + Reduction" where
  "finish_reduction event r =
     (case r of (next, decision, effects, changed) \<Rightarrow>
        and_then (ok_or (checked_add (st_processed_events next) 1) ProcessedEventOverflow)
          (\<lambda>processed.
            let s1 = push_timeline
                  (next\<lparr>st_processed_events := processed, st_last_decision := Some decision\<rparr>)
                  (from_event processed event decision)
            in if changed
               then and_then (ok_or (state_revision_checked_next (st_revision s1)) StateRevisionOverflow)
                 (\<lambda>revision.
                   Inr \<lparr>red_state = s1\<lparr>st_revision := revision\<rparr>, red_decision = decision,
                        red_effects = effects, red_state_changed = True\<rparr>)
               else Inr \<lparr>red_state = s1, red_decision = decision, red_effects = effects,
                         red_state_changed = False\<rparr>))"

definition reduce :: "RuntimeState \<Rightarrow> DomainEvent \<Rightarrow> ReducerError + Reduction" where
  "reduce s event = and_then (reduce_event s event) (finish_reduction event)"

end
