(* ===== verification/Reducer_Invariants.thy ===== *)
theory Reducer_Invariants
  imports Reducer
begin

text \<open>
  The invariant of the runtime state and its preservation by every arm of the reducer:
  decks hold valid tracks, every plan belongs to the track load on its deck, the active
  plan is the leader's current plan, the last scheduled cue refers to a loaded track and
  the histories are bounded.
\<close>

named_theorems reducer_defs \<open>the arms of the reducer\<close>

lemmas [reducer_defs] =
  observe_source_status_def observe_track_loaded_def observe_metadata_hydrated_def
  observe_position_def observe_seek_def observe_tempo_def observe_playback_def
  observe_unloaded_def observe_phrase_def observe_leader_def

section \<open>The invariant\<close>

definition deck_ok :: "DeckState \<Rightarrow> bool" where
  "deck_ok d \<longleftrightarrow> track_ok (deck_metadata d) \<and> bpm_in_range (deck_effective_bpm_milli d)
     \<and> (case deck_phrase_index d of
          None \<Rightarrow> True
        | Some i \<Rightarrow> unat i < length (track_phrases (deck_metadata d)))"

definition load_on :: "RuntimeState \<Rightarrow> DeckId \<Rightarrow> TrackLoadId option" where
  "load_on s k = map_option deck_track_load_id (st_decks s k)"

definition decks_ok :: "RuntimeState \<Rightarrow> bool" where
  "decks_ok s \<longleftrightarrow> (\<forall>k d. st_decks s k = Some d \<longrightarrow> deck_ok d)"

definition plans_ok :: "RuntimeState \<Rightarrow> bool" where
  "plans_ok s \<longleftrightarrow> (\<forall>k p. st_plans s k = Some p \<longrightarrow>
     plan_ok p \<and> plan_deck_id p = k \<and> load_on s k = Some (plan_track_load_id p))"

definition leader_ok :: "RuntimeState \<Rightarrow> bool" where
  "leader_ok s \<longleftrightarrow> (\<forall>k. st_leader_deck s = Some k \<longrightarrow> load_on s k \<noteq> None)
     \<and> (\<forall>p. st_active_plan s = Some p \<longrightarrow>
          st_leader_deck s = Some (plan_deck_id p) \<and> st_plans s (plan_deck_id p) = Some p)"

definition scheduled_ok :: "RuntimeState \<Rightarrow> bool" where
  "scheduled_ok s \<longleftrightarrow> (\<forall>k l rest. st_last_scheduled_cue s = Some (k, l, rest) \<longrightarrow> load_on s k = Some l)"

definition histories_ok :: "RuntimeState \<Rightarrow> bool" where
  "histories_ok s \<longleftrightarrow> length (st_diagnostics s) \<le> MAXIMUM_DIAGNOSTICS
     \<and> length (st_output_effects s) \<le> MAXIMUM_OUTPUT_EFFECTS
     \<and> length (st_timeline s) \<le> MAXIMUM_TIMELINE_ENTRIES"

definition runtime_ok :: "RuntimeState \<Rightarrow> bool" where
  "runtime_ok s \<longleftrightarrow> decks_ok s \<and> plans_ok s \<and> leader_ok s \<and> scheduled_ok s \<and> histories_ok s"

text \<open>
  Events carry metadata and plans that were built by the validating constructors.
\<close>

fun observation_ok :: "DeckObservation \<Rightarrow> bool" where
  "observation_ok (DeckObservation.TrackLoaded _ metadata _) = track_ok metadata"
| "observation_ok (DeckObservation.TrackMetadataHydrated _ metadata _) = track_ok metadata"
| "observation_ok _ = True"

fun event_ok :: "DomainEvent \<Rightarrow> bool" where
  "event_ok (DomainEvent.Observation e) = observation_ok (obs_observation e)"
| "event_ok (DomainEvent.EffectResult e) =
     (case eff_result e of EffectResult.PlanGenerated p \<Rightarrow> plan_ok p | _ \<Rightarrow> True)"
| "event_ok _ = True"

section \<open>Scheduling\<close>

definition cue_request ::
  "LightingPlan \<Rightarrow> LightingCue \<Rightarrow> DeckId \<Rightarrow> TrackLoadId \<Rightarrow> u16 \<Rightarrow> MonotonicTime \<Rightarrow> u64 \<Rightarrow>
   OutputExecutionRequest" where
  "cue_request plan cue deck load idx at n =
     \<lparr>req_command_id = n, req_plan_id = plan_id plan, req_plan_revision = plan_revision plan,
      req_deck_id = deck, req_track_load_id = load, req_phrase_index = idx,
      req_cue_id = cue_id cue, req_action = cue_action cue, req_cue_reason = cue_reason cue,
      req_scheduled_at = at\<rparr>"

text \<open>When \<open>execution_effect\<close> emits a cue, and what it then did.\<close>

definition fires ::
  "RuntimeState \<Rightarrow> DeckId \<Rightarrow> TrackLoadId \<Rightarrow> u16 \<Rightarrow> MonotonicTime \<Rightarrow> LightingPlan \<Rightarrow> LightingCue \<Rightarrow>
   u64 \<Rightarrow> RuntimeState \<Rightarrow> Effect \<Rightarrow> bool" where
  "fires s deck load idx at plan cue n s' eff \<longleftrightarrow>
     st_leader_deck s = Some deck \<and> st_active_plan s = Some plan
   \<and> plan_deck_id plan = deck \<and> plan_track_load_id plan = load
   \<and> cue_for_phrase plan idx = Some cue
   \<and> st_last_scheduled_cue s \<noteq> Some (deck, load, idx, cue_id cue, plan_revision plan)
   \<and> checked_add (st_output_command_sequence s) 1 = Some n
   \<and> s' = s\<lparr>st_output_command_sequence := n,
           st_last_scheduled_cue := Some (deck, load, idx, cue_id cue, plan_revision plan)\<rparr>
   \<and> eff = ExecuteCue (cue_request plan cue deck load idx at n)"

lemma execution_effect_Inr:
  "execution_effect s deck load idx at = Inr (s', eff) \<Longrightarrow>
     s' = s \<and> eff = None
   \<or> (\<exists>plan cue n e. eff = Some e \<and> fires s deck load idx at plan cue n s' e)"
  unfolding execution_effect_def fires_def cue_request_def Let_def
  by (auto simp: result_simps split: if_splits option.splits)

lemma execution_effect_cases [consumes 1, case_names skip fire]:
  assumes "execution_effect s deck load idx at = Inr (s', eff)"
    and "s' = s \<Longrightarrow> eff = None \<Longrightarrow> thesis"
    and "\<And>plan cue n e. eff = Some e \<Longrightarrow> fires s deck load idx at plan cue n s' e \<Longrightarrow> thesis"
  shows thesis
  using execution_effect_Inr [OF assms(1)] assms(2,3) by blast

lemma schedule_or_cases [consumes 1, case_names skip fire]:
  assumes "schedule_or alt (execution_effect s deck load idx at) = Inr (s', decision, effs)"
    and "s' = s \<Longrightarrow> decision = alt \<Longrightarrow> effs = [] \<Longrightarrow> thesis"
    and "\<And>plan cue n e. decision = PhraseExecutionScheduled \<Longrightarrow> effs = [e] \<Longrightarrow>
          fires s deck load idx at plan cue n s' e \<Longrightarrow> thesis"
  shows thesis
proof -
  from assms(1) obtain eff where e: "execution_effect s deck load idx at = Inr (s', eff)"
    and d: "decision = (if eff = None then alt else PhraseExecutionScheduled)"
    and l: "effs = (case eff of None \<Rightarrow> [] | Some x \<Rightarrow> [x])"
    by (auto simp: schedule_or_def result_simps split: option.splits)
  from e show thesis
  proof (cases rule: execution_effect_cases)
    case skip
    with d l show ?thesis by (intro assms(2)) simp_all
  next
    case (fire plan cue n e)
    with d l show ?thesis by (intro assms(3)) simp_all
  qed
qed

section \<open>Building blocks keep the invariant\<close>

lemma load_on_simps [simp]:
  "load_on (put_deck k d s) = (load_on s)(k := Some (deck_track_load_id d))"
  "load_on (forget_scheduled k s) = load_on s"
  "load_on (forget_active_plan k s) = load_on s"
  by (auto simp: load_on_def put_deck_def fun_eq_iff)

lemma put_deck_frame [simp]:
  "st_plans (put_deck k d s) = st_plans s"
  "st_leader_deck (put_deck k d s) = st_leader_deck s"
  "st_active_plan (put_deck k d s) = st_active_plan s"
  "st_last_scheduled_cue (put_deck k d s) = st_last_scheduled_cue s"
  "st_operation (put_deck k d s) = st_operation s"
  "st_output_command_sequence (put_deck k d s) = st_output_command_sequence s"
  "st_decks (put_deck k d s) = (st_decks s)(k \<mapsto> d)"
  "st_processed_events (put_deck k d s) = st_processed_events s"
  "st_revision (put_deck k d s) = st_revision s"
  "st_timeline (put_deck k d s) = st_timeline s"
  "st_diagnostics (put_deck k d s) = st_diagnostics s"
  "st_output_effects (put_deck k d s) = st_output_effects s"
  "st_health (put_deck k d s) = st_health s"
  by (simp_all add: put_deck_def)

lemma put_deck_ok:
  assumes "runtime_ok s" "st_decks s k = Some d" "deck_ok d'"
    and "deck_track_load_id d' = deck_track_load_id d"
  shows "runtime_ok (put_deck k d' s)"
proof -
  have "load_on (put_deck k d' s) = load_on s"
    using assms(2,4) by (auto simp: fun_eq_iff) (simp add: load_on_def)
  with assms(1,3) show ?thesis
    by (auto simp: runtime_ok_def decks_ok_def plans_ok_def leader_ok_def scheduled_ok_def histories_ok_def
        simp del: load_on_simps)
qed

lemma forget_scheduled_ok: "runtime_ok s \<Longrightarrow> runtime_ok (forget_scheduled k s)"
  by (auto simp: runtime_ok_def decks_ok_def plans_ok_def leader_ok_def scheduled_ok_def histories_ok_def
      split: option.splits if_splits)

lemma load_track_ok:
  assumes "runtime_ok s" "track_ok metadata"
  shows "runtime_ok (load_track k metadata load at s)"
proof -
  let ?t = "load_track k metadata load at s"
  have l: "load_on ?t = (load_on s)(k := Some load)"
    by (auto simp: load_track_def load_on_def fun_eq_iff)
  have "decks_ok ?t" using assms
    by (auto simp: decks_ok_def load_track_def deck_ok_def runtime_ok_def track_ok_def track_facts_ok_def)
  moreover have "plans_ok ?t" using assms
    by (auto simp: plans_ok_def l runtime_ok_def) (simp_all add: load_track_def split: if_splits)
  moreover have "leader_ok ?t" using assms
    by (auto simp: leader_ok_def l runtime_ok_def)
       (auto simp: load_track_def split: option.splits if_splits)
  moreover have "scheduled_ok ?t" using assms
    by (auto simp: scheduled_ok_def l runtime_ok_def)
       (auto simp: load_track_def split: option.splits if_splits)
  moreover have "histories_ok ?t" using assms
    by (simp add: runtime_ok_def histories_ok_def load_track_def)
  ultimately show ?thesis by (simp add: runtime_ok_def)
qed

lemma phrase_index_at_beat_bound:
  assumes "track_ok t" "phrase_index_at_beat t beat = Some i"
  shows "unat i < length (track_phrases t)"
proof -
  from assms(2) have "track_phrases t \<noteq> []" by (auto simp: phrase_index_at_beat_def)
  with assms(1) have "track_analyzed t" by (simp add: track_ok_def)
  from track_parts.part_find [OF this] assms(2) show ?thesis
    unfolding phrase_index_at_beat_def by blast
qed

lemma deck_ok_relocate:
  "deck_ok d \<Longrightarrow>
   deck_ok (d\<lparr>deck_beat := b, deck_phrase_index := phrase_index_at_beat (deck_metadata d) b',
              deck_last_observed_at := at\<rparr>)"
  by (auto simp: deck_ok_def split: option.splits dest: phrase_index_at_beat_bound)

lemma execution_effect_ok:
  assumes "runtime_ok s" "execution_effect s deck load idx at = Inr (s', eff)"
  shows "runtime_ok s'"
  using assms(2)
proof (cases rule: execution_effect_cases)
  case skip
  with assms(1) show ?thesis by simp
next
  case (fire plan cue n e)
  have "load_on s deck = Some load"
    using assms(1) fire(2) by (auto simp: fires_def runtime_ok_def leader_ok_def plans_ok_def)
  moreover have "load_on s' = load_on s"
    using fire(2) by (simp add: fires_def load_on_def fun_eq_iff)
  moreover have "s' = s\<lparr>st_output_command_sequence := n,
      st_last_scheduled_cue := Some (deck, load, idx, cue_id cue, plan_revision plan)\<rparr>"
    using fire(2) by (simp add: fires_def)
  ultimately show ?thesis using assms(1)
    by (auto simp: runtime_ok_def decks_ok_def plans_ok_def leader_ok_def scheduled_ok_def histories_ok_def)
qed

lemma schedule_or_ok:
  "runtime_ok s \<Longrightarrow> schedule_or alt (execution_effect s deck load idx at) = Inr (s', decision, effs) \<Longrightarrow>
   runtime_ok s'"
  by (auto simp: schedule_or_def result_simps split: option.splits dest: execution_effect_ok)

section \<open>Observations keep the invariant\<close>

lemma observe_metadata_hydrated_ok:
  assumes "runtime_ok s" "track_ok metadata"
    and "observe_metadata_hydrated deck metadata load s = Inr (s', decision, effs)"
  shows "runtime_ok s'"
proof -
  have "deck_ok (d\<lparr>deck_metadata := metadata,
      deck_phrase_index := phrase_index_at_beat metadata (deck_beat d)\<rparr>)" if "st_decks s deck = Some d" for d
    using assms(1,2) that
    by (auto simp: runtime_ok_def decks_ok_def deck_ok_def split: option.splits
        dest: phrase_index_at_beat_bound)
  then show ?thesis using assms(1,3)
    by (auto simp: observe_metadata_hydrated_def split: option.splits if_splits intro!: put_deck_ok)
qed

lemma deck_okD: "runtime_ok s \<Longrightarrow> st_decks s k = Some d \<Longrightarrow> deck_ok d"
  by (auto simp: runtime_ok_def decks_ok_def)

lemma deck_ok_update [simp]:
  "deck_ok (d\<lparr>deck_beat := b\<rparr>) = deck_ok d"
  "deck_ok (d\<lparr>deck_playing := p\<rparr>) = deck_ok d"
  "deck_ok (d\<lparr>deck_last_observed_at := at\<rparr>) = deck_ok d"
  by (simp_all add: deck_ok_def split: option.split)

lemma observe_position_ok:
  "runtime_ok s \<Longrightarrow> observe_position deck load beat at s = Inr (s', decision, effs) \<Longrightarrow> runtime_ok s'"
  by (auto simp: observe_position_def deck_okD split: option.splits if_splits intro!: put_deck_ok)

lemma observe_seek_ok:
  assumes "runtime_ok s" "observe_seek deck load beat at s = Inr (s', decision, effs)"
  shows "runtime_ok s'"
proof -
  have "runtime_ok (forget_scheduled deck (put_deck deck
      (d\<lparr>deck_beat := beat, deck_phrase_index := phrase_index_at_beat (deck_metadata d) beat,
         deck_last_observed_at := at\<rparr>) s))" if "st_decks s deck = Some d" for d
    using assms(1) that
    by (intro forget_scheduled_ok put_deck_ok [OF _ that] deck_ok_relocate) (auto dest: deck_okD)
  then show ?thesis using assms
    by (auto simp: observe_seek_def Let_def split: option.splits if_splits elim: schedule_or_ok [rotated])
qed

lemma observe_tempo_ok:
  assumes "runtime_ok s" "observe_tempo deck load bpm at s = Inr (s', decision, effs)"
  shows "runtime_ok s'"
proof -
  have "deck_ok (d\<lparr>deck_effective_bpm_milli := bpm, deck_last_observed_at := at\<rparr>)"
    if "st_decks s deck = Some d" "bpm_in_range bpm" for d
    using deck_okD [OF assms(1) that(1)] that(2) by (auto simp: deck_ok_def split: option.splits)
  then show ?thesis using assms
    by (auto simp: observe_tempo_def split: option.splits if_splits intro!: put_deck_ok)
qed

lemma observe_playback_ok:
  assumes "runtime_ok s" "observe_playback deck load playing at s = Inr (s', decision, effs)"
  shows "runtime_ok s'"
proof -
  have p: "runtime_ok (put_deck deck (d\<lparr>deck_playing := b, deck_last_observed_at := at\<rparr>) s)"
    if "st_decks s deck = Some d" for d b
    using assms(1) that by (intro put_deck_ok [OF _ that]) (auto dest: deck_okD)
  then show ?thesis using assms
    by (auto simp: observe_playback_def Let_def split: option.splits if_splits
        elim: schedule_or_ok [rotated] intro!: forget_scheduled_ok)
qed

lemma observe_unloaded_ok:
  assumes "runtime_ok s" "observe_unloaded deck load s = Inr (s', decision, effs)"
  shows "runtime_ok s'"
proof (cases "s' = s")
  case False
  let ?s1 = "s\<lparr>st_decks := (st_decks s)(deck := None), st_plans := (st_plans s)(deck := None),
    st_leader_deck := (if st_leader_deck s = Some deck then None else st_leader_deck s)\<rparr>"
  from False assms(2) have s': "s' = forget_scheduled deck (forget_active_plan deck ?s1)"
    by (auto simp: observe_unloaded_def split: option.splits if_splits)
  have l: "load_on s' = (load_on s)(deck := None)"
    by (auto simp: s' load_on_def fun_eq_iff)
  have "decks_ok s'" "plans_ok s'" "histories_ok s'"
    using assms(1) by (auto simp: runtime_ok_def decks_ok_def plans_ok_def histories_ok_def l)
      (auto simp: s' split: if_splits)
  moreover have "leader_ok s'"
    using assms(1) by (auto simp: runtime_ok_def leader_ok_def l)
      (auto simp: s' split: if_splits option.splits)
  moreover have "scheduled_ok s'"
    using assms(1) by (auto simp: runtime_ok_def scheduled_ok_def l)
      (auto simp: s' split: if_splits option.splits)
  ultimately show ?thesis by (simp add: runtime_ok_def)
qed (use assms in simp)

lemma observe_phrase_ok:
  assumes "runtime_ok s" "observe_phrase deck load idx at s = Inr (s', decision, effs)"
  shows "runtime_ok s'"
proof -
  have "runtime_ok (put_deck deck (d\<lparr>deck_phrase_index := Some idx, deck_last_observed_at := at\<rparr>) s)"
    if "st_decks s deck = Some d" "track_phrase (deck_metadata d) idx \<noteq> None" for d
    using assms(1) that
    by (intro put_deck_ok [OF _ that(1)])
       (auto dest!: deck_okD simp: deck_ok_def track_phrase_def get_nth_def split: if_splits)
  then show ?thesis using assms
    by (auto simp: observe_phrase_def Let_def split: option.splits if_splits
        elim: schedule_or_ok [rotated])
qed

lemma activate_ok:
  assumes "runtime_ok s" "st_decks s deck \<noteq> None"
    and "active = None \<or> active = st_plans s deck"
  shows "runtime_ok (s\<lparr>st_leader_deck := Some deck, st_active_plan := active\<rparr>)"
proof -
  let ?t = "s\<lparr>st_leader_deck := Some deck, st_active_plan := active\<rparr>"
  have l: "load_on ?t = load_on s" by (simp add: load_on_def fun_eq_iff)
  have "leader_ok ?t" using assms
    by (auto simp: leader_ok_def l runtime_ok_def plans_ok_def) (auto simp: load_on_def)
  then show ?thesis using assms(1)
    by (auto simp: runtime_ok_def decks_ok_def plans_ok_def scheduled_ok_def histories_ok_def l)
qed

lemma deactivate_ok: "runtime_ok s \<Longrightarrow> runtime_ok (s\<lparr>st_active_plan := None\<rparr>)"
  by (simp add: runtime_ok_def decks_ok_def plans_ok_def leader_ok_def scheduled_ok_def histories_ok_def
      load_on_def)

lemma observe_leader_ok:
  assumes "runtime_ok s" "observe_leader deck load at s = Inr (s', decision, effs)"
  shows "runtime_ok s'"
  using assms
  by (auto simp: observe_leader_def Let_def split: option.splits if_splits
      elim!: schedule_or_ok [rotated] intro!: activate_ok intro: deactivate_ok)

lemma observe_ok:
  assumes "runtime_ok s" "observation_ok ob" "observe source at ob s = Inr (s', decision, effs)"
  shows "runtime_ok s'"
proof (cases ob)
  case (SourceStatusChanged status)
  with assms show ?thesis
    by (auto simp: observe_source_status_def runtime_ok_def decks_ok_def plans_ok_def leader_ok_def
        scheduled_ok_def histories_ok_def load_on_def)
next
  case (TrackLoaded k m l)
  with assms show ?thesis by (auto simp: observe_track_loaded_def intro: load_track_ok)
qed (use assms in \<open>auto intro: observe_metadata_hydrated_ok observe_position_ok observe_seek_ok
       observe_tempo_ok observe_playback_ok observe_unloaded_ok observe_phrase_ok observe_leader_ok\<close>)

section \<open>The reducer keeps the invariant\<close>

lemma runtime_ok_sequences [simp]:
  "runtime_ok (s\<lparr>st_source_sequences := a\<rparr>) = runtime_ok s"
  "runtime_ok (s\<lparr>st_source_times := b\<rparr>) = runtime_ok s"
  "runtime_ok (s\<lparr>st_command_sequences := c\<rparr>) = runtime_ok s"
  "runtime_ok (s\<lparr>st_effect_sequences := d\<rparr>) = runtime_ok s"
  "runtime_ok (s\<lparr>st_operation := e\<rparr>) = runtime_ok s"
  "runtime_ok (s\<lparr>st_health := f\<rparr>) = runtime_ok s"
  "runtime_ok (s\<lparr>st_processed_events := g\<rparr>) = runtime_ok s"
  "runtime_ok (s\<lparr>st_last_decision := h\<rparr>) = runtime_ok s"
  "runtime_ok (s\<lparr>st_revision := i\<rparr>) = runtime_ok s"
  by (simp_all add: runtime_ok_def decks_ok_def plans_ok_def leader_ok_def scheduled_ok_def
      histories_ok_def load_on_def)

lemma runtime_ok_histories:
  "runtime_ok s \<Longrightarrow> runtime_ok (push_diagnostic s x)"
  "runtime_ok s \<Longrightarrow> runtime_ok (push_output_effect s y)"
  "runtime_ok s \<Longrightarrow> runtime_ok (push_timeline s z)"
  using diagnostics.history_bounded [of s x] output_effects.history_bounded [of s y]
    timeline.history_bounded [of s z]
  by (simp_all add: runtime_ok_def decks_ok_def plans_ok_def leader_ok_def scheduled_ok_def
      histories_ok_def load_on_def push_diagnostic_def push_output_effect_def push_timeline_def)

lemma runtime_ok_unschedule: "runtime_ok s \<Longrightarrow> runtime_ok (s\<lparr>st_last_scheduled_cue := None\<rparr>)"
  by (simp add: runtime_ok_def decks_ok_def plans_ok_def leader_ok_def scheduled_ok_def histories_ok_def
      load_on_def)

lemma reduce_observation_ok:
  "runtime_ok s \<Longrightarrow> observation_ok (obs_observation e) \<Longrightarrow>
   reduce_observation s e = Inr (s', decision, effs, changed) \<Longrightarrow> runtime_ok s'"
  by (auto simp: reduce_observation_def Let_def result_simps split: if_splits prod.splits
      dest!: observe_ok [rotated 2])

lemma reduce_command_ok:
  "runtime_ok s \<Longrightarrow> reduce_command s e = Inr (s', decision, effs, changed) \<Longrightarrow> runtime_ok s'"
  by (auto simp: reduce_command_def Let_def result_simps
      split: if_splits prod.splits option.splits
      intro!: runtime_ok_unschedule dest!: execution_effect_ok [rotated])

lemma reduce_plan_generated_ok:
  assumes "runtime_ok s" "plan_ok plan"
    and "reduce_plan_generated s plan = Inr (s', decision, effs, changed)"
  shows "runtime_ok s'"
proof (cases "s' = s")
  case False
  with assms(3) obtain d where d: "st_decks s (plan_deck_id plan) = Some d"
      "deck_track_load_id d = plan_track_load_id plan"
    and s': "s' = s\<lparr>st_plans := (st_plans s)(plan_deck_id plan \<mapsto> plan),
        st_active_plan := (if st_leader_deck s = Some (plan_deck_id plan) then Some plan
                           else st_active_plan s)\<rparr>"
    by (auto simp: reduce_plan_generated_def result_simps split: option.splits if_splits)
  have l: "load_on s' = load_on s" and k: "load_on s (plan_deck_id plan) = Some (plan_track_load_id plan)"
    using d by (simp_all add: s' load_on_def fun_eq_iff)
  have "plans_ok s'" using assms(1,2) k
    by (auto simp: runtime_ok_def plans_ok_def l) (auto simp: s' split: if_splits)
  moreover have "leader_ok s'" using assms(1)
    by (auto simp: runtime_ok_def leader_ok_def l) (auto simp: s' split: if_splits)
  moreover have "decks_ok s'" "scheduled_ok s'" "histories_ok s'" using assms(1)
    by (auto simp: runtime_ok_def decks_ok_def scheduled_ok_def histories_ok_def l) (auto simp: s')
  ultimately show ?thesis by (simp add: runtime_ok_def)
qed (use assms in simp)

lemma reduce_event_ok:
  assumes "runtime_ok s" "event_ok ev" "reduce_event s ev = Inr (s', decision, effs, changed)"
  shows "runtime_ok s'"
proof (cases ev)
  case (EffectResult e)
  with assms show ?thesis
    by (auto simp: reduce_effect_result_def Let_def split: if_splits EffectResult.splits
        intro: runtime_ok_histories dest!: reduce_plan_generated_ok [rotated 2])
next
  case (QueueOverloaded e)
  with assms show ?thesis
    by (auto simp: reduce_queue_overloaded_def intro!: runtime_ok_histories)
qed (use assms in \<open>auto simp: reduce_runtime_started_def split: if_splits
       dest: reduce_observation_ok reduce_command_ok\<close>)

lemma reduce_ok:
  assumes "runtime_ok s" "event_ok ev" "reduce s ev = Inr r"
  shows "runtime_ok (red_state r)"
  using assms reduce_event_ok [of s ev]
  by (auto simp: reduce_def finish_reduction_def result_simps Let_def split: if_splits prod.splits
      intro!: runtime_ok_histories)

lemma default_state_ok: "runtime_ok default_state"
  by (simp add: runtime_ok_def decks_ok_def plans_ok_def leader_ok_def scheduled_ok_def histories_ok_def
      default_state_def)

text \<open>The reducer as a machine: what \<open>SerializedRuntime\<close> does with each popped event.\<close>

definition reduce_step :: "RuntimeState \<Rightarrow> DomainEvent \<Rightarrow> ReducerError + (RuntimeState \<times> Effect list)" where
  "reduce_step s ev = and_then (reduce s ev) (\<lambda>r. Inr (red_state r, red_effects r))"

lemma reduce_step_Inr:
  "reduce_step s ev = Inr (s', effs) \<longleftrightarrow>
     (\<exists>r. reduce s ev = Inr r \<and> s' = red_state r \<and> effs = red_effects r)"
  by (auto simp: reduce_step_def result_simps)

interpretation reducer: event_machine reduce_step runtime_ok event_ok default_state
  by unfold_locales (auto simp: default_state_ok reduce_step_Inr intro: reduce_ok)

end
