(* ===== verification/Reducer_Safety.thy ===== *)
theory Reducer_Safety
  imports Reducer_Invariants
begin

text \<open>
  What the reducer guarantees about the lighting output and about its bookkeeping: cues
  are emitted only while the show is live, for the leader's playing track and from its
  active plan; every request has a fresh command number; pausing, switching off and an
  overloaded queue close the gate; duplicates and stale revisions change nothing.
\<close>

section \<open>Shape of a reduction\<close>

lemma reduce_Inr:
  assumes "reduce s ev = Inr r"
  obtains n p rev where
    "reduce_event s ev = Inr (n, red_decision r, red_effects r, red_state_changed r)"
    "checked_add (st_processed_events n) 1 = Some p"
    "if red_state_changed r then checked_add (st_revision n) 1 = Some rev else rev = st_revision n"
    "red_state r = push_timeline
       (n\<lparr>st_processed_events := p, st_last_decision := Some (red_decision r), st_revision := rev\<rparr>)
       (from_event p ev (red_decision r))"
  using assms
  by (auto simp: reduce_def finish_reduction_def result_simps Let_def push_timeline_def
      state_revision_checked_next_def split: if_splits)

lemma push_timeline_frame [simp]:
  "st_revision (push_timeline s x) = st_revision s"
  "st_operation (push_timeline s x) = st_operation s"
  "st_health (push_timeline s x) = st_health s"
  "st_decks (push_timeline s x) = st_decks s"
  "st_plans (push_timeline s x) = st_plans s"
  "st_source_statuses (push_timeline s x) = st_source_statuses s"
  "st_leader_deck (push_timeline s x) = st_leader_deck s"
  "st_active_plan (push_timeline s x) = st_active_plan s"
  "st_output_command_sequence (push_timeline s x) = st_output_command_sequence s"
  "st_last_scheduled_cue (push_timeline s x) = st_last_scheduled_cue s"
  "st_output_effects (push_timeline s x) = st_output_effects s"
  "st_source_sequences (push_timeline s x) = st_source_sequences s"
  "st_source_times (push_timeline s x) = st_source_times s"
  "st_command_sequences (push_timeline s x) = st_command_sequences s"
  "st_effect_sequences (push_timeline s x) = st_effect_sequences s"
  "st_processed_events (push_timeline s x) = st_processed_events s"
  "st_last_decision (push_timeline s x) = st_last_decision s"
  "st_diagnostics (push_timeline s x) = st_diagnostics s"
  by (simp_all add: push_timeline_def)

section \<open>Bookkeeping no observation touches\<close>

definition bookkeeping :: "RuntimeState \<Rightarrow> _" where
  "bookkeeping s = (st_revision s, st_operation s, st_health s, st_command_sequences s,
     st_effect_sequences s, st_processed_events s, st_last_decision s, st_diagnostics s,
     st_output_effects s, st_timeline s)"

lemma bookkeeping_simps [simp]:
  "bookkeeping (put_deck k d s) = bookkeeping s"
  "bookkeeping (forget_scheduled k s) = bookkeeping s"
  "bookkeeping (forget_active_plan k s) = bookkeeping s"
  "bookkeeping (load_track k m l at s) = bookkeeping s"
  "bookkeeping (s\<lparr>st_decks := a\<rparr>) = bookkeeping s"
  "bookkeeping (s\<lparr>st_plans := b\<rparr>) = bookkeeping s"
  "bookkeeping (s\<lparr>st_source_statuses := c\<rparr>) = bookkeeping s"
  "bookkeeping (s\<lparr>st_leader_deck := e\<rparr>) = bookkeeping s"
  "bookkeeping (s\<lparr>st_active_plan := f\<rparr>) = bookkeeping s"
  "bookkeeping (s\<lparr>st_output_command_sequence := g\<rparr>) = bookkeeping s"
  "bookkeeping (s\<lparr>st_last_scheduled_cue := h\<rparr>) = bookkeeping s"
  "bookkeeping (s\<lparr>st_source_sequences := i\<rparr>) = bookkeeping s"
  "bookkeeping (s\<lparr>st_source_times := j\<rparr>) = bookkeeping s"
  by (simp_all add: bookkeeping_def load_track_def put_deck_def)

lemma schedule_or_bookkeeping:
  assumes "schedule_or alt (execution_effect s deck load idx at) = Inr (s', decision, effs)"
  shows "bookkeeping s' = bookkeeping s"
  using assms by (cases rule: schedule_or_cases) (auto simp: fires_def)

lemma observe_bookkeeping:
  assumes "observe source at ob s = Inr (s', decision, effs)"
  shows "bookkeeping s' = bookkeeping s"
  using assms
  by (cases ob)
     (auto simp: reducer_defs Let_def split: option.splits if_splits dest!: schedule_or_bookkeeping)

section \<open>Authorised output\<close>

text \<open>
  A request is authorised in a state when the show is live, its deck leads and plays the
  requested load at the requested phrase, and it repeats the cue the active plan holds
  for that phrase; its number is the last one handed out.
\<close>

definition cue_of_plan :: "LightingPlan \<Rightarrow> OutputExecutionRequest \<Rightarrow> bool" where
  "cue_of_plan plan req \<longleftrightarrow>
     plan_id plan = req_plan_id req \<and> plan_revision plan = req_plan_revision req
   \<and> plan_deck_id plan = req_deck_id req \<and> plan_track_load_id plan = req_track_load_id req
   \<and> (\<exists>cue. cue_for_phrase plan (req_phrase_index req) = Some cue \<and> cue_id cue = req_cue_id req
        \<and> cue_action cue = req_action req \<and> cue_reason cue = req_cue_reason req)"

definition deck_at_request :: "DeckState \<Rightarrow> OutputExecutionRequest \<Rightarrow> bool" where
  "deck_at_request d req \<longleftrightarrow> deck_playing d \<and> deck_track_load_id d = req_track_load_id req
     \<and> deck_phrase_index d = Some (req_phrase_index req)"

definition authorised :: "RuntimeState \<Rightarrow> OutputExecutionRequest \<Rightarrow> bool" where
  "authorised s req \<longleftrightarrow> allows_output (st_operation s)
     \<and> st_leader_deck s = Some (req_deck_id req)
     \<and> (\<exists>d. st_decks s (req_deck_id req) = Some d \<and> deck_at_request d req)
     \<and> (\<exists>plan. st_active_plan s = Some plan \<and> cue_of_plan plan req)
     \<and> st_output_command_sequence s = req_command_id req"

lemma fires_authorised:
  assumes "fires s deck load idx at plan cue n s' e"
    and "st_operation s = OperationState.Live" "st_decks s deck = Some d"
    and "deck_playing d" "deck_track_load_id d = load" "deck_phrase_index d = Some idx"
  shows "\<exists>req. e = ExecuteCue req \<and> authorised s' req"
  using assms
  by (auto simp: fires_def authorised_def cue_of_plan_def deck_at_request_def cue_request_def
      allows_output_def)

definition silent_or_authorised :: "RuntimeState \<Rightarrow> Effect list \<Rightarrow> bool" where
  "silent_or_authorised s effs \<longleftrightarrow>
     effs = [] \<or> (\<exists>req. effs = [ExecuteCue req] \<and> authorised s req)"

lemma schedule_or_authorised:
  assumes "schedule_or alt (execution_effect s deck load idx at) = Inr (s', decision, effs)"
    and "st_operation s = OperationState.Live" "st_decks s deck = Some d"
    and "deck_playing d" "deck_track_load_id d = load" "deck_phrase_index d = Some idx"
  shows "silent_or_authorised s' effs"
  using assms(1)
proof (cases rule: schedule_or_cases)
  case (fire plan cue n e)
  with fires_authorised [OF fire(3) assms(2-6)] show ?thesis by (auto simp: silent_or_authorised_def)
qed (simp add: silent_or_authorised_def)

lemma observe_authorised:
  assumes "observe source at ob s = Inr (s', decision, effs)"
  shows "silent_or_authorised s' effs"
proof -
  have [simp]: "silent_or_authorised t []" for t by (simp add: silent_or_authorised_def)
  show ?thesis using assms
    by (cases ob)
       (auto simp: reducer_defs Let_def split: option.splits if_splits elim!: schedule_or_authorised)
qed

section \<open>Command numbers\<close>

definition numbered :: "RuntimeState \<Rightarrow> RuntimeState \<Rightarrow> Effect list \<Rightarrow> bool" where
  "numbered s s' effs \<longleftrightarrow>
     (effs = [] \<and> st_output_command_sequence s' = st_output_command_sequence s)
   \<or> (\<exists>req. effs = [ExecuteCue req] \<and> req_command_id req = st_output_command_sequence s'
        \<and> checked_add (st_output_command_sequence s) 1 = Some (st_output_command_sequence s'))"

lemma schedule_or_numbered:
  assumes "schedule_or alt (execution_effect s deck load idx at) = Inr (s', decision, effs)"
    and "st_output_command_sequence s = st_output_command_sequence s0"
  shows "numbered s0 s' effs"
  using assms(1)
  by (cases rule: schedule_or_cases) (use assms(2) in \<open>auto simp: numbered_def fires_def cue_request_def\<close>)

lemma load_track_sequence [simp]:
  "st_output_command_sequence (load_track k m l at s) = st_output_command_sequence s"
  by (simp add: load_track_def)

lemma numbered_silent:
  "st_output_command_sequence t = st_output_command_sequence s \<Longrightarrow> numbered s t []"
  by (simp add: numbered_def)

lemma observe_numbered:
  assumes "observe source at ob s = Inr (s', decision, effs)"
  shows "numbered s s' effs"
  using assms
  by (cases ob)
     (auto simp: reducer_defs Let_def split: option.splits if_splits
       elim!: schedule_or_numbered intro!: numbered_silent)

lemma reduce_observation_cases:
  assumes "reduce_observation s e = Inr (s', decision, effs, changed)"
  obtains (ignored) "effs = []" "\<not> changed" "bookkeeping s' = bookkeeping s"
      "st_output_command_sequence s' = st_output_command_sequence s"
      "st_last_scheduled_cue s' = st_last_scheduled_cue s"
      "st_active_plan s' = st_active_plan s" "st_leader_deck s' = st_leader_deck s"
      "st_decks s' = st_decks s" "st_plans s' = st_plans s"
  | (observed) s2 where
      "s2 = s\<lparr>st_source_sequences := (st_source_sequences s)(obs_source_id e \<mapsto> obs_sequence e),
              st_source_times := (st_source_times s)(obs_source_id e \<mapsto> obs_observed_at e)\<rparr>"
      "observe (obs_source_id e) (obs_observed_at e) (obs_observation e) s2 = Inr (s', decision, effs)"
      "changed = observation_changes_state decision"
  using assms
  by (auto simp: reduce_observation_def Let_def result_simps split: if_splits)

text \<open>What an accepted command does once its target operation state is entered.\<close>

definition command_outcome ::
  "RuntimeState \<Rightarrow> OperationState \<Rightarrow> MonotonicTime \<Rightarrow> RuntimeState \<Rightarrow> Effect list \<Rightarrow> bool" where
  "command_outcome s1 target at s' effs \<longleftrightarrow>
     (case target of
        OperationState.Armed \<Rightarrow> s' = s1 \<and> effs = []
      | OperationState.Live \<Rightarrow>
          s' = s1 \<and> effs = []
        \<or> (\<exists>deck d idx plan cue n x. st_decks s1 deck = Some d \<and> deck_playing d
             \<and> deck_phrase_index d = Some idx
             \<and> fires s1 deck (deck_track_load_id d) idx at plan cue n s' x \<and> effs = [x])
      | _ \<Rightarrow> s' = s1\<lparr>st_last_scheduled_cue := None\<rparr>
             \<and> effs = [EnsureOutputClosed OperationTransitionAccepted])"

lemma start_outcome:
  assumes "current_execution s1 = Some (deck, load, idx)"
    and "execution_effect s1 deck load idx at = Inr (s', eff)"
  shows "command_outcome s1 OperationState.Live at s' (case eff of None \<Rightarrow> [] | Some x \<Rightarrow> [x])"
proof -
  from assms(1) obtain d where d: "st_decks s1 deck = Some d" "deck_playing d"
      "load = deck_track_load_id d" "deck_phrase_index d = Some idx"
    by (auto simp: current_execution_def split: option.splits if_splits)
  from assms(2) show ?thesis
  proof (cases rule: execution_effect_cases)
    case skip
    then show ?thesis by (simp add: command_outcome_def)
  next
    case (fire plan cue n x)
    with d show ?thesis by (simp add: command_outcome_def) blast
  qed
qed

lemma reduce_command_accepted:
  assumes "reduce_command s e = Inr (s', decision, effs, changed)"
    and new: "\<not> not_newer (st_command_sequences s) (cmd_client_id e) (cmd_sequence e)"
  obtains target where
    "cmd_expected_state_revision e = st_revision s"
    "command_target (st_operation s) (cmd_command e) = Inr target"
    "decision = OperationTransitionAccepted" "changed"
    "command_outcome
       (s\<lparr>st_command_sequences := (st_command_sequences s)(cmd_client_id e \<mapsto> cmd_sequence e),
          st_operation := target\<rparr>) target (cmd_issued_at e) s' effs"
proof -
  from assms have rev: "cmd_expected_state_revision e = st_revision s"
    by (auto simp: reduce_command_def split: if_splits)
  from assms rev obtain target where t: "command_target (st_operation s) (cmd_command e) = Inr target"
    by (auto simp: reduce_command_def result_simps)
  let ?s1 = "s\<lparr>st_command_sequences := (st_command_sequences s)(cmd_client_id e \<mapsto> cmd_sequence e),
    st_operation := target\<rparr>"
  have "decision = OperationTransitionAccepted \<and> changed
      \<and> command_outcome ?s1 target (cmd_issued_at e) s' effs"
  proof (cases target)
    case Live
    show ?thesis
    proof (cases "current_execution ?s1")
      case None
      with Live assms rev t show ?thesis
        by (simp add: reduce_command_def Let_def command_outcome_def)
    next
      case (Some triple)
      then obtain deck load idx where c: "current_execution ?s1 = Some (deck, load, idx)"
        by (cases triple) auto
      with Live assms rev t obtain eff where
        "execution_effect ?s1 deck load idx (cmd_issued_at e) = Inr (s', eff)"
        "decision = OperationTransitionAccepted" "changed"
        "effs = (case eff of None \<Rightarrow> [] | Some x \<Rightarrow> [x])"
        by (auto simp: reduce_command_def result_simps Let_def)
      with start_outcome [OF c] Live show ?thesis by auto
    qed
  qed (use assms rev t in \<open>simp_all add: reduce_command_def Let_def command_outcome_def\<close>)
  with rev t that show thesis by blast
qed

lemma reduce_command_duplicate:
  "not_newer (st_command_sequences s) (cmd_client_id e) (cmd_sequence e) \<Longrightarrow>
   reduce_command s e = Inr (s, DuplicateCommandIgnored, [], False)"
  by (simp add: reduce_command_def)

lemma command_outcome_authorised:
  assumes "command_outcome s1 target at s' effs" "st_operation s1 = target"
    and "ExecuteCue req \<in> set effs"
  shows "effs = [ExecuteCue req] \<and> authorised s' req \<and> numbered s1 s' effs"
proof -
  from assms(1,3) have t: "target = OperationState.Live"
    by (auto simp: command_outcome_def split: OperationState.splits)
  with assms(1,3) obtain deck d idx plan cue n x where
    f: "st_decks s1 deck = Some d" "deck_playing d" "deck_phrase_index d = Some idx"
       "fires s1 deck (deck_track_load_id d) idx at plan cue n s' x" "effs = [x]"
    by (auto simp: command_outcome_def)
  from fires_authorised [OF f(4) _ f(1,2) refl f(3)] assms(2,3) t f(5)
  have "x = ExecuteCue req" "authorised s' req" by auto
  moreover have "numbered s1 s' effs"
    using f(4,5) by (auto simp: numbered_def fires_def cue_request_def)
  ultimately show ?thesis using f(5) by simp
qed

lemma numbered_update [simp]:
  "numbered (s\<lparr>st_command_sequences := a\<rparr>) s' effs = numbered s s' effs"
  "numbered (s\<lparr>st_operation := b\<rparr>) s' effs = numbered s s' effs"
  by (simp_all add: numbered_def)

lemma command_outcome_quiet:
  assumes "command_outcome s1 target at s' effs" "\<And>req. ExecuteCue req \<notin> set effs"
  shows "st_output_command_sequence s' = st_output_command_sequence s1
    \<and> (effs = [] \<or> (\<exists>x. effs = [EnsureOutputClosed x]))"
proof (cases "effs = []")
  case True
  with assms(1) show ?thesis by (auto simp: command_outcome_def split: OperationState.splits)
next
  case False
  then have "target \<noteq> OperationState.Live"
    using assms by (auto simp: command_outcome_def fires_def) blast
  then show ?thesis using assms(1) by (auto simp: command_outcome_def split: OperationState.splits)
qed

lemma reduce_event_execute:
  assumes "reduce_event s ev = Inr (s', decision, effs, changed)" "ExecuteCue req \<in> set effs"
  shows "effs = [ExecuteCue req] \<and> authorised s' req \<and> numbered s s' effs"
proof (cases ev)
  case (Observation e)
  with assms(1) have "reduce_observation s e = Inr (s', decision, effs, changed)" by simp
  then show ?thesis
  proof (cases rule: reduce_observation_cases)
    case (observed s2)
    have "numbered s s' effs"
      using observe_numbered [OF observed(2)] by (simp add: numbered_def observed(1))
    then show ?thesis
      using observe_authorised [OF observed(2)] assms(2) by (auto simp: silent_or_authorised_def)
  qed (use assms(2) in simp)
next
  case (UserCommand e)
  with assms(1) have r: "reduce_command s e = Inr (s', decision, effs, changed)" by simp
  show ?thesis
  proof (cases "not_newer (st_command_sequences s) (cmd_client_id e) (cmd_sequence e)")
    case True
    with r assms(2) show ?thesis by (simp add: reduce_command_duplicate)
  next
    case False
    from reduce_command_accepted [OF r this] obtain target where
      "command_outcome
         (s\<lparr>st_command_sequences := (st_command_sequences s)(cmd_client_id e \<mapsto> cmd_sequence e),
            st_operation := target\<rparr>) target (cmd_issued_at e) s' effs" by blast
    from command_outcome_authorised [OF this _ assms(2)] show ?thesis by auto
  qed
next
  case (EffectResult e)
  with assms show ?thesis
    by (auto simp: reduce_effect_result_def reduce_plan_generated_def Let_def result_simps
        split: if_splits option.splits EffectResult.splits)
qed (use assms in \<open>auto simp: reduce_runtime_started_def reduce_queue_overloaded_def split: if_splits\<close>)

lemma reduce_event_numbered:
  assumes "reduce_event s ev = Inr (s', decision, effs, changed)"
  shows "numbered s s' effs
    \<or> (\<exists>x. effs = [EnsureOutputClosed x]) \<and> st_output_command_sequence s' = st_output_command_sequence s"
proof (cases "\<exists>req. ExecuteCue req \<in> set effs")
  case True
  with reduce_event_execute [OF assms] show ?thesis by blast
next
  case False
  show ?thesis
  proof (cases ev)
    case (Observation e)
    with assms have "reduce_observation s e = Inr (s', decision, effs, changed)" by simp
    then show ?thesis
    proof (cases rule: reduce_observation_cases)
      case (observed s2)
      then show ?thesis using observe_numbered [OF observed(2)] by (simp add: numbered_def)
    qed (simp add: numbered_def)
  next
    case (UserCommand e)
    with assms have r: "reduce_command s e = Inr (s', decision, effs, changed)" by simp
    show ?thesis
    proof (cases "not_newer (st_command_sequences s) (cmd_client_id e) (cmd_sequence e)")
      case True
      with r show ?thesis by (simp add: reduce_command_duplicate numbered_def)
    next
      case new: False
      from reduce_command_accepted [OF r new] obtain target where
        "command_outcome
           (s\<lparr>st_command_sequences := (st_command_sequences s)(cmd_client_id e \<mapsto> cmd_sequence e),
              st_operation := target\<rparr>) target (cmd_issued_at e) s' effs" by blast
      from command_outcome_quiet [OF this] False show ?thesis by (auto simp: numbered_def)
    qed
  next
    case (EffectResult e)
    with assms show ?thesis
      by (auto simp: reduce_effect_result_def reduce_plan_generated_def Let_def result_simps
          numbered_def push_output_effect_def split: if_splits option.splits EffectResult.splits)
  qed (use assms in \<open>auto simp: reduce_runtime_started_def reduce_queue_overloaded_def numbered_def
         push_diagnostic_def split: if_splits\<close>)
qed

section \<open>Properties of the reducer\<close>

text \<open>
  C1. Fail silent: whenever the reducer emits a cue, it emits exactly that one effect, and
  in the resulting state the show is live, the request's deck leads, plays the requested
  track load and stands on the requested phrase, and the request repeats the cue that the
  leader's active plan holds for this phrase. Its command number is one above the last.
\<close>

theorem execute_cue_authorised:
  assumes "reduce s ev = Inr r" "ExecuteCue req \<in> set (red_effects r)"
  shows "red_effects r = [ExecuteCue req] \<and> authorised (red_state r) req
    \<and> unat (req_command_id req) = unat (st_output_command_sequence s) + 1"
  using assms(1)
proof (cases rule: reduce_Inr)
  case (1 n p rev)
  from reduce_event_execute [OF 1(1) assms(2)]
  have e: "red_effects r = [ExecuteCue req]" "authorised n req" "numbered s n [ExecuteCue req]" by auto
  have "authorised (red_state r) req" using e(2) by (simp add: 1(4) authorised_def)
  moreover have "unat (req_command_id req) = unat (st_output_command_sequence s) + 1"
    using e(3) checked_add_SomeD by (fastforce simp: numbered_def)
  ultimately show ?thesis using e(1) by simp
qed

fun cue_requests :: "Effect list \<Rightarrow> OutputExecutionRequest list" where
  "cue_requests [] = []"
| "cue_requests (ExecuteCue req # es) = req # cue_requests es"
| "cue_requests (EnsureOutputClosed _ # es) = cue_requests es"

lemma cue_requests_append [simp]: "cue_requests (xs @ ys) = cue_requests xs @ cue_requests ys"
  by (induction xs rule: cue_requests.induct) auto

lemma reduce_step_numbers:
  assumes "reduce_step s ev = Inr (s', effs)"
  shows "map (\<lambda>q. unat (req_command_id q)) (cue_requests effs)
      = [Suc (unat (st_output_command_sequence s)) ..< Suc (unat (st_output_command_sequence s'))]
    \<and> st_output_command_sequence s \<le> st_output_command_sequence s'"
proof -
  from assms obtain r where r: "reduce s ev = Inr r" "s' = red_state r" "effs = red_effects r"
    by (auto simp: reduce_step_Inr)
  from r(1) show ?thesis
  proof (cases rule: reduce_Inr)
    case (1 n p rev)
    have "st_output_command_sequence s' = st_output_command_sequence n" by (simp add: r(2) 1(4))
    with reduce_event_numbered [OF 1(1)] r(3) show ?thesis
      by (auto simp: numbered_def word_le_nat_alt dest!: checked_add_SomeD)
  qed
qed

text \<open>
  Every cue sent is numbered once: over any sequence of events, from any state, the
  command numbers of all emitted cues are consecutive, starting after the number the
  state held, and the state ends on the last of them.
\<close>

theorem run_command_numbers:
  "map (\<lambda>q. unat (req_command_id q)) (cue_requests (concat (snd (run_machine reduce_step s evs))))
     = [Suc (unat (st_output_command_sequence s)) ..<
        Suc (unat (st_output_command_sequence (fst (run_machine reduce_step s evs))))]
   \<and> st_output_command_sequence s \<le> st_output_command_sequence (fst (run_machine reduce_step s evs))"
proof (induction evs arbitrary: s)
  case (Cons ev evs)
  show ?case
  proof (cases "reduce_step s ev")
    case (Inl e)
    with Cons show ?thesis by simp
  next
    case (Inr so)
    then obtain s' effs where so: "reduce_step s ev = Inr (s', effs)" by (cases so) auto
    let ?a = "unat (st_output_command_sequence s)" and ?b = "unat (st_output_command_sequence s')"
      and ?c = "unat (st_output_command_sequence (fst (run_machine reduce_step s' evs)))"
    have ab: "?a \<le> ?b" and bc: "?b \<le> ?c"
      using reduce_step_numbers [OF so] Cons [of s'] by (simp_all add: word_le_nat_alt)
    have "[Suc ?a ..< Suc ?b] @ [Suc ?b ..< Suc ?c] = [Suc ?a ..< Suc ?c]"
      using upt_add_eq_append [of "Suc ?a" "Suc ?b" "?c - ?b"] ab bc by (simp del: upt_Suc)
    moreover have "st_output_command_sequence s \<le> st_output_command_sequence (fst (run_machine reduce_step s' evs))"
      using ab bc by (simp add: word_le_nat_alt)
    ultimately show ?thesis using so reduce_step_numbers [OF so] Cons [of s']
      by (simp add: split_beta Let_def del: upt_Suc)
  qed
qed simp

text \<open>
  C6. From the initial state, any sequence of events built from validated tracks and plans
  leaves the runtime in a state where every plan belongs to the load on its deck, the
  active plan is the leader's current plan, the phrase index of each deck exists, tempos
  are in range, the last scheduled cue refers to a loaded track, and the three histories
  respect their limits.
\<close>

theorem run_invariant:
  assumes "list_all event_ok evs"
  shows "runtime_ok (fst (run_machine reduce_step default_state evs))"
  using assms by (rule reducer.inv_run)

definition request_identity :: "OutputExecutionRequest \<Rightarrow> ScheduledCue" where
  "request_identity req =
     (req_deck_id req, req_track_load_id req, req_phrase_index req, req_cue_id req,
      req_plan_revision req)"

lemma schedule_or_fresh:
  assumes "schedule_or alt (execution_effect s deck load idx at) = Inr (s', decision, effs)"
    and "ExecuteCue req \<in> set effs"
  shows "st_last_scheduled_cue s \<noteq> Some (request_identity req)
    \<and> st_last_scheduled_cue s' = Some (request_identity req)"
  using assms(1)
  by (cases rule: schedule_or_cases)
     (use assms(2) in \<open>auto simp: fires_def request_identity_def cue_request_def\<close>)

lemma observe_fresh:
  assumes "observe source at ob s = Inr (s', decision, effs)" "ExecuteCue req \<in> set effs"
    and "\<And>k l b. ob \<noteq> DeckObservation.PlaybackPositionSeeked k l b"
  shows "st_last_scheduled_cue s \<noteq> Some (request_identity req)"
  using assms
  by (cases ob)
     (auto simp: reducer_defs Let_def split: option.splits if_splits dest!: schedule_or_fresh)

lemma command_outcome_fresh:
  assumes "command_outcome s1 target at s' effs" "ExecuteCue req \<in> set effs"
  shows "st_last_scheduled_cue s1 \<noteq> Some (request_identity req)"
proof -
  from assms have "target = OperationState.Live"
    by (auto simp: command_outcome_def split: OperationState.splits)
  with assms show ?thesis
    by (auto simp: command_outcome_def fires_def request_identity_def cue_request_def)
qed

lemma reduce_event_fresh:
  assumes "reduce_event s ev = Inr (s', decision, effs, changed)" "ExecuteCue req \<in> set effs"
    and "\<And>e k l b. ev = DomainEvent.Observation e \<Longrightarrow>
           obs_observation e \<noteq> DeckObservation.PlaybackPositionSeeked k l b"
  shows "st_last_scheduled_cue s \<noteq> Some (request_identity req)"
proof (cases ev)
  case (Observation e)
  with assms(1) have "reduce_observation s e = Inr (s', decision, effs, changed)" by simp
  then show ?thesis
  proof (cases rule: reduce_observation_cases)
    case (observed s2)
    from observe_fresh [OF observed(2) assms(2) assms(3) [OF Observation]] show ?thesis
      by (simp add: observed(1))
  qed (use assms(2) in simp)
next
  case (UserCommand e)
  with assms(1) have r: "reduce_command s e = Inr (s', decision, effs, changed)" by simp
  show ?thesis
  proof (cases "not_newer (st_command_sequences s) (cmd_client_id e) (cmd_sequence e)")
    case True
    with r assms(2) show ?thesis by (simp add: reduce_command_duplicate)
  next
    case False
    from reduce_command_accepted [OF r this] obtain target where
      "command_outcome
         (s\<lparr>st_command_sequences := (st_command_sequences s)(cmd_client_id e \<mapsto> cmd_sequence e),
            st_operation := target\<rparr>) target (cmd_issued_at e) s' effs" by blast
    from command_outcome_fresh [OF this assms(2)] show ?thesis by simp
  qed
next
  case (EffectResult e)
  with assms(1,2) show ?thesis
    by (auto simp: reduce_effect_result_def reduce_plan_generated_def Let_def result_simps
        split: if_splits option.splits EffectResult.splits)
qed (use assms(1,2) in \<open>auto simp: reduce_runtime_started_def reduce_queue_overloaded_def split: if_splits\<close>)


section \<open>Accounting, operation and duplicates\<close>

lemma command_outcome_bookkeeping:
  "command_outcome s1 target at s' effs \<Longrightarrow> bookkeeping s' = bookkeeping s1"
  by (auto simp: command_outcome_def fires_def split: OperationState.splits)

lemma reduce_event_accounting:
  assumes "reduce_event s ev = Inr (n, decision, effs, changed)"
  shows "st_revision n = st_revision s \<and> st_processed_events n = st_processed_events s
    \<and> st_timeline n = st_timeline s"
proof (cases ev)
  case (Observation e)
  with assms have "reduce_observation s e = Inr (n, decision, effs, changed)" by simp
  then show ?thesis
  proof (cases rule: reduce_observation_cases)
    case ignored
    then show ?thesis by (simp add: bookkeeping_def)
  next
    case (observed s2)
    from observe_bookkeeping [OF observed(2)] show ?thesis
      by (simp add: observed(1)) (simp add: bookkeeping_def)
  qed
next
  case (UserCommand e)
  with assms have r: "reduce_command s e = Inr (n, decision, effs, changed)" by simp
  show ?thesis
  proof (cases "not_newer (st_command_sequences s) (cmd_client_id e) (cmd_sequence e)")
    case False
    from reduce_command_accepted [OF r this] obtain target where
      "command_outcome
         (s\<lparr>st_command_sequences := (st_command_sequences s)(cmd_client_id e \<mapsto> cmd_sequence e),
            st_operation := target\<rparr>) target (cmd_issued_at e) n effs" by blast
    from command_outcome_bookkeeping [OF this] show ?thesis by (simp add: bookkeeping_def)
  qed (use r in \<open>simp add: reduce_command_duplicate\<close>)
next
  case (EffectResult e)
  with assms show ?thesis
    by (auto simp: reduce_effect_result_def reduce_plan_generated_def Let_def result_simps
        push_output_effect_def split: if_splits option.splits EffectResult.splits)
qed (use assms in \<open>auto simp: reduce_runtime_started_def reduce_queue_overloaded_def
       push_diagnostic_def split: if_splits\<close>)

text \<open>
  Every accepted event is counted once: the event counter grows by one, the state
  revision grows by one exactly when the reduction reports a change, the decision is
  recorded, and the timeline receives one entry that carries the new event count.
\<close>

theorem reduction_accounting:
  assumes "reduce s ev = Inr r"
  shows "unat (st_processed_events (red_state r)) = unat (st_processed_events s) + 1
    \<and> unat (st_revision (red_state r)) = unat (st_revision s) + (if red_state_changed r then 1 else 0)
    \<and> st_last_decision (red_state r) = Some (red_decision r)
    \<and> st_timeline (red_state r) =
        push_bounded MAXIMUM_TIMELINE_ENTRIES (st_timeline s)
          (from_event (st_processed_events (red_state r)) ev (red_decision r))"
  using assms
proof (cases rule: reduce_Inr)
  case (1 n p rev)
  note a = reduce_event_accounting [OF 1(1)]
  have "unat p = unat (st_processed_events s) + 1"
    using checked_add_SomeD [OF 1(2)] a by simp
  moreover have "unat rev = unat (st_revision s) + (if red_state_changed r then 1 else 0)"
    using 1(3) a by (auto dest: checked_add_SomeD split: if_splits)
  moreover have "st_timeline (red_state r) =
        push_bounded MAXIMUM_TIMELINE_ENTRIES (st_timeline s) (from_event p ev (red_decision r))"
    using a by (simp add: 1(4) push_timeline_def)
  ultimately show ?thesis by (simp add: 1(4))
qed

text \<open>The operation state machine of the source's command table and overload arm.\<close>

inductive operation_step :: "OperationState \<Rightarrow> DomainEvent \<Rightarrow> OperationState \<Rightarrow> bool" where
  arm: "cmd_command c = OperationCommand.Arm \<Longrightarrow>
     operation_step OperationState.Off (DomainEvent.UserCommand c) OperationState.Armed"
| start: "cmd_command c = OperationCommand.Start \<Longrightarrow>
     st = OperationState.Armed \<or> st = OperationState.Paused \<Longrightarrow>
     operation_step st (DomainEvent.UserCommand c) OperationState.Live"
| pause: "cmd_command c = OperationCommand.Pause \<Longrightarrow>
     operation_step OperationState.Live (DomainEvent.UserCommand c) OperationState.Paused"
| off: "cmd_command c = OperationCommand.Off \<Longrightarrow>
     operation_step st (DomainEvent.UserCommand c) OperationState.Off"
| overload: "operation_step OperationState.Live (DomainEvent.QueueOverloaded q) OperationState.Paused"
| stay: "operation_step st ev st"

inductive_simps operation_step_to_live: "operation_step st ev OperationState.Live"
inductive_cases operation_step_from_live: "operation_step OperationState.Live ev st"

lemma command_target_step:
  "command_target st (cmd_command c) = Inr target \<Longrightarrow>
   operation_step st (DomainEvent.UserCommand c) target"
  by (cases "cmd_command c") (auto split: if_splits intro: operation_step.intros)

lemma reduce_event_operation:
  assumes "reduce_event s ev = Inr (n, decision, effs, changed)"
  shows "operation_step (st_operation s) ev (st_operation n)
    \<and> (st_operation s = OperationState.Live \<and> st_operation n \<noteq> OperationState.Live \<longrightarrow>
         (\<exists>x. effs = [EnsureOutputClosed x]))
    \<and> (st_operation s \<noteq> OperationState.Live \<and> st_operation n = OperationState.Live \<longrightarrow>
         (\<exists>c. ev = DomainEvent.UserCommand c \<and> cmd_expected_state_revision c = st_revision s))"
proof (cases ev)
  case (Observation e)
  with assms have "reduce_observation s e = Inr (n, decision, effs, changed)" by simp
  then have "st_operation n = st_operation s"
  proof (cases rule: reduce_observation_cases)
    case ignored
    then show ?thesis by (simp add: bookkeeping_def)
  next
    case (observed s2)
    from observe_bookkeeping [OF observed(2)] show ?thesis
      by (simp add: observed(1)) (simp add: bookkeeping_def)
  qed
  then show ?thesis by (simp add: operation_step.stay)
next
  case (UserCommand e)
  with assms have r: "reduce_command s e = Inr (n, decision, effs, changed)" by simp
  show ?thesis
  proof (cases "not_newer (st_command_sequences s) (cmd_client_id e) (cmd_sequence e)")
    case False
    from reduce_command_accepted [OF r this] obtain target where
      t: "cmd_expected_state_revision e = st_revision s"
        "command_target (st_operation s) (cmd_command e) = Inr target"
      and o1: "command_outcome
         (s\<lparr>st_command_sequences := (st_command_sequences s)(cmd_client_id e \<mapsto> cmd_sequence e),
            st_operation := target\<rparr>) target (cmd_issued_at e) n effs" by blast
    from command_outcome_bookkeeping [OF o1] have n: "st_operation n = target" by (simp add: bookkeeping_def)
    have "\<exists>x. effs = [EnsureOutputClosed x]"
      if "st_operation s = OperationState.Live" "target \<noteq> OperationState.Live"
      using t(2) o1 that
      by (cases "cmd_command e") (auto simp: command_outcome_def split: if_splits)
    with t n UserCommand command_target_step [OF t(2)] show ?thesis by auto
  qed (use r in \<open>simp add: reduce_command_duplicate operation_step.stay\<close>)
next
  case (EffectResult e)
  with assms have "st_operation n = st_operation s"
    by (auto simp: reduce_effect_result_def reduce_plan_generated_def Let_def result_simps
        push_output_effect_def split: if_splits option.splits EffectResult.splits)
  then show ?thesis by (simp add: operation_step.stay)
next
  case (QueueOverloaded q)
  with assms show ?thesis
    by (auto simp: reduce_queue_overloaded_def push_diagnostic_def
        intro: operation_step.overload operation_step.stay)
qed (use assms in \<open>auto simp: reduce_runtime_started_def operation_step.stay split: if_splits\<close>)

text \<open>
  C5. The output gate: the operation state moves only along the command table (Arm from
  Off, Start from Armed or Paused, Pause from Live, Off from anywhere) or from Live to
  Paused on an overloaded queue. Leaving Live always emits exactly the effect that closes
  the physical output, and entering Live requires a Start command that names the current
  state revision.
\<close>

theorem output_gate:
  assumes "reduce s ev = Inr r"
  shows "operation_step (st_operation s) ev (st_operation (red_state r))
    \<and> (st_operation s = OperationState.Live \<and> st_operation (red_state r) \<noteq> OperationState.Live \<longrightarrow>
         (\<exists>x. red_effects r = [EnsureOutputClosed x]))
    \<and> (st_operation s \<noteq> OperationState.Live \<and> st_operation (red_state r) = OperationState.Live \<longrightarrow>
         (\<exists>c. ev = DomainEvent.UserCommand c \<and> cmd_command c = OperationCommand.Start
            \<and> cmd_expected_state_revision c = st_revision s))"
  using assms
proof (cases rule: reduce_Inr)
  case (1 n p rev)
  have n: "st_operation (red_state r) = st_operation n" by (simp add: 1(4))
  from reduce_event_operation [OF 1(1)] show ?thesis
    unfolding n by (auto simp: operation_step_to_live)
qed

definition is_duplicate :: "RuntimeState \<Rightarrow> DomainEvent \<Rightarrow> bool" where
  "is_duplicate s ev =
     (case ev of
        DomainEvent.Observation e \<Rightarrow> not_newer (st_source_sequences s) (obs_source_id e) (obs_sequence e)
      | DomainEvent.UserCommand e \<Rightarrow> not_newer (st_command_sequences s) (cmd_client_id e) (cmd_sequence e)
      | DomainEvent.EffectResult e \<Rightarrow> not_newer (st_effect_sequences s) (eff_worker_id e) (eff_sequence e)
      | _ \<Rightarrow> False)"

text \<open>
  Idempotence: an observation, command or effect result whose sequence number is not
  above the last one of its source, client or worker has no effects and changes nothing
  but the event counter, the last decision and the timeline; it fails only when the event
  counter is exhausted.
\<close>

theorem duplicate_is_ignored:
  assumes "is_duplicate s ev"
  shows "\<exists>decision \<in> {StaleObservationIgnored, DuplicateCommandIgnored, DuplicateEffectIgnored}.
    reduce s ev =
      (case checked_add (st_processed_events s) 1 of
         None \<Rightarrow> Inl ProcessedEventOverflow
       | Some p \<Rightarrow> Inr \<lparr>red_state = push_timeline
             (s\<lparr>st_processed_events := p, st_last_decision := Some decision\<rparr>) (from_event p ev decision),
           red_decision = decision, red_effects = [], red_state_changed = False\<rparr>)"
proof -
  from assms obtain decision where
    "decision \<in> {StaleObservationIgnored, DuplicateCommandIgnored, DuplicateEffectIgnored}"
    "reduce_event s ev = Inr (s, decision, [], False)"
    by (cases ev) (auto simp: is_duplicate_def reduce_observation_def reduce_command_def
        reduce_effect_result_def)
  then show ?thesis
    by (intro bexI [of _ decision])
       (simp_all add: reduce_def finish_reduction_def Let_def split: option.split)
qed

lemma execution_effect_Inl:
  "execution_effect s deck load idx at = Inl err \<Longrightarrow> err = OutputCommandSequenceOverflow"
  by (auto simp: execution_effect_def Let_def result_simps split: if_splits option.splits)

lemma finish_reduction_Inl:
  "finish_reduction ev x = Inl err \<Longrightarrow> err \<in> {ProcessedEventOverflow, StateRevisionOverflow}"
  by (cases x) (auto simp: finish_reduction_def Let_def result_simps split: if_splits)

lemma command_target_Inl:
  "command_target st c = Inl err \<longleftrightarrow> err = InvalidOperationTransition st c
     \<and> (c = OperationCommand.Arm \<and> st \<noteq> OperationState.Off
       \<or> c = OperationCommand.Start \<and> st \<notin> {OperationState.Armed, OperationState.Paused}
       \<or> c = OperationCommand.Pause \<and> st \<noteq> OperationState.Live)"
  by (cases c) auto

lemma reduce_command_Inl:
  assumes "err \<noteq> OutputCommandSequenceOverflow"
  shows "reduce_command s e = Inl err \<longleftrightarrow>
     \<not> not_newer (st_command_sequences s) (cmd_client_id e) (cmd_sequence e)
   \<and> (if cmd_expected_state_revision e \<noteq> st_revision s
      then err = RevisionConflict (cmd_expected_state_revision e) (st_revision s)
      else command_target (st_operation s) (cmd_command e) = Inl err)"
  using assms
  by (auto simp: reduce_command_def Let_def result_simps split: if_splits option.splits
      dest: execution_effect_Inl)

lemma reduce_Inl_command:
  assumes "err \<notin> {ProcessedEventOverflow, StateRevisionOverflow}"
  shows "reduce s (DomainEvent.UserCommand e) = Inl err \<longleftrightarrow> reduce_command s e = Inl err"
  using assms by (auto simp: reduce_def result_simps dest!: finish_reduction_Inl)

text \<open>
  Optimistic concurrency: a command is refused with a revision conflict exactly when
  it is not a duplicate and names another revision than the current one, and refused as
  an invalid transition exactly when its revision is current and the command table has no
  entry for it. A refused command changes nothing, as the reduction yields no state.
\<close>

theorem command_refused_iff:
  "(reduce s (DomainEvent.UserCommand e) = Inl (RevisionConflict a b) \<longleftrightarrow>
      \<not> is_duplicate s (DomainEvent.UserCommand e)
      \<and> a = cmd_expected_state_revision e \<and> b = st_revision s \<and> a \<noteq> b)
   \<and> (reduce s (DomainEvent.UserCommand e) = Inl (InvalidOperationTransition st c) \<longleftrightarrow>
      \<not> is_duplicate s (DomainEvent.UserCommand e)
      \<and> cmd_expected_state_revision e = st_revision s
      \<and> st = st_operation s \<and> c = cmd_command e
      \<and> (c = OperationCommand.Arm \<and> st \<noteq> OperationState.Off
        \<or> c = OperationCommand.Start \<and> st \<notin> {OperationState.Armed, OperationState.Paused}
        \<or> c = OperationCommand.Pause \<and> st \<noteq> OperationState.Live))"
  by (auto simp: reduce_Inl_command reduce_command_Inl command_target_Inl is_duplicate_def)

end
