(* ===== verification/Scenario.thy ===== *)
theory Scenario
  imports Reducer_Safety
begin

text \<open>
  A small live show, used to evaluate the model on concrete inputs: one track of two
  phrases, its plan, a runtime that plays it on the leading deck, and the events that
  start it. The theorems about the reducer are applied to it.
\<close>

section \<open>The show\<close>

definition demo_track :: TrackMetadata where
  "demo_track =
     \<lparr>track_id = 100, track_title = ''Nocturne'', track_artist = ''Lumi'', track_bpm_milli = 128000,
      track_musical_key = \<lparr>key_pitch_class = PitchA, key_mode = Minor\<rparr>, track_color = None,
      track_duration_beats = 64,
      track_phrases =
        [\<lparr>phrase_index = 0, phrase_start_beat = 0, phrase_end_beat = 32, phrase_kind = Intro\<rparr>,
         \<lparr>phrase_index = 1, phrase_start_beat = 32, phrase_end_beat = 64, phrase_kind = Drop\<rparr>],
      track_identity_facts = None\<rparr>"

definition demo_look :: LightingLook where
  "demo_look =
     \<lparr>look_theme_id = 1, look_theme_name = ''Electric Bloom'', look_scene_id = 1,
      look_scene_name = ''Soft Motion'', look_category = Ambient,
      look_loop_selection = \<lparr>loop_bank = 1, loop_slot = 1\<rparr>\<rparr>"

definition demo_cue :: "u64 \<Rightarrow> u16 \<Rightarrow> u32 \<Rightarrow> u32 \<Rightarrow> LightingCue" where
  "demo_cue i idx from until =
     new_cue i idx from until (ApplyLook demo_look) CueOrigin.Automatic
       (PhraseCategoryMatched Intro Ambient)"

definition demo_plan :: LightingPlan where
  "demo_plan =
     \<lparr>plan_id = 7, plan_deck_id = 1, plan_track_id = 100, plan_track_duration_beats = 64,
      plan_track_load_id = 10, plan_revision = 1, plan_configuration_revision = 1, plan_seed = 5,
      plan_status = PlanStatus.Ready,
      plan_theme_decision = Some \<lparr>decision_theme_id = 1, decision_theme_name = ''Electric Bloom'',
        decision_reason = DefaultTheme, decision_matched_color = None\<rparr>,
      plan_cues = [demo_cue 21 0 0 32, demo_cue 22 1 32 64]\<rparr>"

definition demo_deck :: DeckState where
  "demo_deck =
     \<lparr>deck_metadata = demo_track, deck_track_load_id = 10, deck_beat = 16,
      deck_effective_bpm_milli = 128000, deck_playing = True, deck_phrase_index = Some 0,
      deck_last_observed_at = 3\<rparr>"

definition live_state :: RuntimeState where
  "live_state = default_state\<lparr>st_revision := 6, st_operation := OperationState.Live,
     st_health := RuntimeHealth.Ready, st_decks := [1 \<mapsto> demo_deck], st_plans := [1 \<mapsto> demo_plan],
     st_leader_deck := Some 1, st_active_plan := Some demo_plan,
     st_output_command_sequence := 1, st_last_scheduled_cue := Some (1, 10, 0, 21, 1)\<rparr>"

definition observed :: "u64 \<Rightarrow> DeckObservation \<Rightarrow> DomainEvent" where
  "observed n ob = DomainEvent.Observation
     \<lparr>obs_source_id = 1, obs_sequence = n, obs_observed_at = n, obs_observation = ob\<rparr>"

definition commanded :: "u64 \<Rightarrow> u64 \<Rightarrow> OperationCommand \<Rightarrow> DomainEvent" where
  "commanded n revision c = DomainEvent.UserCommand
     \<lparr>cmd_client_id = 1, cmd_sequence = n, cmd_expected_state_revision = revision, cmd_issued_at = n,
      cmd_command = c\<rparr>"

definition planned :: DomainEvent where
  "planned = DomainEvent.EffectResult
     \<lparr>eff_effect_id = 1, eff_worker_id = 1, eff_sequence = 1, eff_completed_at = 2,
      eff_result = EffectResult.PlanGenerated demo_plan\<rparr>"

definition show_events :: "DomainEvent list" where
  "show_events =
     [DomainEvent.RuntimeStarted 0, observed 1 (DeckObservation.TrackLoaded 1 demo_track 10), planned,
      observed 2 (DeckObservation.LeaderChanged 1 10), observed 3 (DeckObservation.PhraseChanged 1 10 0),
      observed 4 (DeckObservation.PlaybackStateChanged 1 10 True),
      commanded 1 6 OperationCommand.Arm, commanded 2 7 OperationCommand.Start]"

definition drop_event :: DomainEvent where
  "drop_event = observed 9 (DeckObservation.PhraseChanged 1 10 1)"

definition seek_event :: DomainEvent where
  "seek_event = observed 9 (DeckObservation.PlaybackPositionSeeked 1 10 8)"

lemmas demo_defs =
  demo_track_def demo_look_def demo_cue_def demo_plan_def demo_deck_def live_state_def observed_def
  commanded_def planned_def default_state_def new_cue_def state_revision_initial_def

lemma not_blank_demo [simp]: "\<not> blank ''Nocturne''" "\<not> blank ''Lumi''"
  by (simp_all add: blank_def ascii_white_space_def white_space2_def white_space3_def)

lemma demo_track_ok: "track_ok demo_track"
  by (simp add: demo_track_def track_ok_def track_facts_ok_def track_analyzed_def bpm_in_range_def
      indexed_def less_Suc_eq)

lemma demo_plan_ok: "plan_ok demo_plan"
  by (simp add: demo_defs plan_ok_def cues_ok_def has_fallback_cue_def starting_cue_inconsistent_def
      indexed_def less_Suc_eq)

lemma drop_reduces:
  "\<exists>r req. reduce live_state drop_event = Inr r \<and> ExecuteCue req \<in> set (red_effects r)"
  by (simp add: demo_defs drop_event_def reduce_def reduce_observation_def not_newer_def Let_def
      observe_phrase_def track_phrase_def get_nth_def put_deck_def schedule_or_def
      execution_effect_def cue_for_phrase_def checked_add_def finish_reduction_def
      observation_changes_state_def state_revision_checked_next_def push_timeline_def)

lemma seek_reduces:
  "\<exists>r req. reduce live_state seek_event = Inr r \<and> ExecuteCue req \<in> set (red_effects r)
     \<and> st_last_scheduled_cue live_state = Some (request_identity req)"
  by (simp add: demo_defs seek_event_def reduce_def reduce_observation_def not_newer_def Let_def
      observe_seek_def phrase_index_at_beat_def get_nth_def put_deck_def schedule_or_def forget_scheduled_def
      execution_effect_def cue_for_phrase_def checked_add_def finish_reduction_def request_identity_def
      observation_changes_state_def state_revision_checked_next_def push_timeline_def)

section \<open>The theorems on this show\<close>

theorem execute_cue_authorised_witness:
  "\<exists>r req. reduce live_state drop_event = Inr r \<and> ExecuteCue req \<in> set (red_effects r)
     \<and> red_effects r = [ExecuteCue req] \<and> authorised (red_state r) req
     \<and> unat (req_command_id req) = unat (st_output_command_sequence live_state) + 1"
  using drop_reduces execute_cue_authorised by blast

lemma show_events_ok: "list_all event_ok show_events"
  by (simp add: show_events_def observed_def commanded_def planned_def demo_track_ok demo_plan_ok)

theorem run_invariant_witness:
  "list_all event_ok show_events
   \<and> runtime_ok (fst (run_machine reduce_step default_state show_events))"
  using show_events_ok run_invariant [OF show_events_ok] by simp


theorem reduction_accounting_witness:
  "\<exists>r. reduce live_state drop_event = Inr r
     \<and> unat (st_processed_events (red_state r)) = unat (st_processed_events live_state) + 1
     \<and> st_last_decision (red_state r) = Some (red_decision r)"
  using drop_reduces reduction_accounting by blast

lemma pause_reduces:
  "\<exists>r. reduce live_state (commanded 3 6 OperationCommand.Pause) = Inr r
     \<and> st_operation (red_state r) = OperationState.Paused"
  by (simp add: demo_defs reduce_def reduce_command_def not_newer_def Let_def checked_add_def
      finish_reduction_def state_revision_checked_next_def push_timeline_def)

theorem output_gate_witness:
  "\<exists>r x. reduce live_state (commanded 3 6 OperationCommand.Pause) = Inr r
     \<and> st_operation live_state = OperationState.Live
     \<and> st_operation (red_state r) = OperationState.Paused \<and> red_effects r = [EnsureOutputClosed x]"
proof -
  obtain r where r: "reduce live_state (commanded 3 6 OperationCommand.Pause) = Inr r"
      "st_operation (red_state r) = OperationState.Paused"
    using pause_reduces by blast
  moreover have "st_operation live_state = OperationState.Live" by (simp add: live_state_def)
  ultimately show ?thesis using output_gate [OF r(1)] by auto
qed

theorem duplicate_is_ignored_witness:
  "is_duplicate (live_state\<lparr>st_source_sequences := [1 \<mapsto> 12]\<rparr>) drop_event
   \<and> (\<exists>r. reduce (live_state\<lparr>st_source_sequences := [1 \<mapsto> 12]\<rparr>) drop_event = Inr r
        \<and> red_effects r = [] \<and> \<not> red_state_changed r)"
proof -
  let ?s = "live_state\<lparr>st_source_sequences := [1 \<mapsto> 12]\<rparr>"
  have d: "is_duplicate ?s drop_event"
    by (simp add: is_duplicate_def drop_event_def observed_def not_newer_def)
  have "checked_add (st_processed_events ?s) 1 = Some 1"
    by (simp add: live_state_def default_state_def checked_add_def)
  with d duplicate_is_ignored [OF d] show ?thesis by auto
qed

end
