(* ===== verification/Serialized_Runtime.thy ===== *)
theory Serialized_Runtime
  imports Event_Queue Scenario
begin

text \<open>
  The serialized runtime (\<open>lumi-domain/src/runtime.rs\<close>): the reducer behind its bounded
  queue. Submitting and processing interleave freely; \<open>runtime_step\<close> is the step
  relation of the two operations and \<open>reachable\<close> the states they lead to.
\<close>

section \<open>Operations\<close>

record SerializedRuntime =
  rt_state :: RuntimeState
  rt_ingress :: BoundedEventQueue

record ProcessResult =
  pr_event_kind :: DomainEventKind
  pr_state_revision :: StateRevision
  pr_decision :: DecisionReason
  pr_effects :: "Effect list"

definition try_new_runtime :: "nat \<Rightarrow> InvalidQueueCapacity + SerializedRuntime" where
  "try_new_runtime capacity =
     and_then (try_new_queue capacity) (\<lambda>q. Inr \<lparr>rt_state = default_state, rt_ingress = q\<rparr>)"

definition queue_depth :: "SerializedRuntime \<Rightarrow> nat" where
  "queue_depth rt = queue_len (rt_ingress rt)"

definition submit ::
  "SerializedRuntime \<Rightarrow> DomainEvent \<Rightarrow> SerializedRuntime \<times> (IngressError + IngressOutcome)" where
  "submit rt event =
     (case queue_push (rt_ingress rt) event of (q, res) \<Rightarrow> (rt\<lparr>rt_ingress := q\<rparr>, res))"

definition process_next ::
  "SerializedRuntime \<Rightarrow> SerializedRuntime \<times> (ReducerError + ProcessResult option)" where
  "process_next rt =
     (case queue_pop (rt_ingress rt) of
        (q, None) \<Rightarrow> (rt\<lparr>rt_ingress := q\<rparr>, Inr None)
      | (q, Some event) \<Rightarrow>
          (case reduce (rt_state rt) event of
             Inl err \<Rightarrow> (rt\<lparr>rt_ingress := q\<rparr>, Inl err)
           | Inr r \<Rightarrow>
               (rt\<lparr>rt_ingress := q, rt_state := red_state r\<rparr>,
                Inr (Some \<lparr>pr_event_kind = event_kind event,
                           pr_state_revision = st_revision (red_state r),
                           pr_decision = red_decision r, pr_effects = red_effects r\<rparr>))))"

section \<open>Reachable runtimes\<close>

inductive runtime_step :: "SerializedRuntime \<Rightarrow> SerializedRuntime \<Rightarrow> bool" where
  submits: "event_ok ev \<Longrightarrow> submit rt ev = (rt', res) \<Longrightarrow> runtime_step rt rt'"
| processes: "process_next rt = (rt', out) \<Longrightarrow> runtime_step rt rt'"

inductive reachable :: "nat \<Rightarrow> SerializedRuntime \<Rightarrow> bool" for capacity where
  start: "try_new_runtime capacity = Inr rt \<Longrightarrow> reachable capacity rt"
| step: "reachable capacity rt \<Longrightarrow> runtime_step rt rt' \<Longrightarrow> reachable capacity rt'"

definition serialized_ok :: "nat \<Rightarrow> SerializedRuntime \<Rightarrow> bool" where
  "serialized_ok capacity rt \<longleftrightarrow> runtime_ok (rt_state rt) \<and> queue_ok (rt_ingress rt)
     \<and> q_capacity (rt_ingress rt) = capacity \<and> list_all event_ok (q_events (rt_ingress rt))"

lemma submit_ok:
  assumes "serialized_ok c rt" "event_ok ev" "submit rt ev = (rt', res)"
  shows "serialized_ok c rt'"
proof -
  obtain q where q: "queue_push (rt_ingress rt) ev = (q, res)" "rt' = rt\<lparr>rt_ingress := q\<rparr>"
    using assms(3) by (auto simp: submit_def split: prod.splits)
  have "list_all event_ok (q_events q)"
    using queue_push_members [OF q(1)] assms(1,2) by (auto simp: serialized_ok_def list_all_iff)
  with queue_push_ok [OF _ q(1)] assms(1) q(2) show ?thesis by (simp add: serialized_ok_def)
qed

lemma queue_pop_frame:
  assumes "queue_pop q = (q', got)"
  shows "q_capacity q' = q_capacity q \<and> set (q_events q') \<subseteq> set (q_events q)"
  using assms by (auto simp: queue_pop_def split: option.splits list.splits)

lemma queue_pop_event_ok:
  assumes "queue_pop q = (q', Some ev)" "list_all event_ok (q_events q)"
  shows "event_ok ev"
  using assms by (auto simp: queue_pop_def split: option.splits list.splits)

lemma process_next_ok:
  assumes "serialized_ok c rt" "process_next rt = (rt', out)"
  shows "serialized_ok c rt'"
proof -
  obtain q got where q: "queue_pop (rt_ingress rt) = (q, got)" by fastforce
  have ok: "queue_ok q" "q_capacity q = c" "list_all event_ok (q_events q)"
    using queue_pop_ok [of "rt_ingress rt"] queue_pop_frame [OF q] assms(1) q
    by (auto simp: serialized_ok_def list_all_iff)
  show ?thesis
  proof (cases got)
    case None
    with q assms ok show ?thesis by (auto simp: process_next_def serialized_ok_def)
  next
    case (Some ev)
    with q assms(1) have "event_ok ev" by (auto simp: serialized_ok_def intro: queue_pop_event_ok)
    with q Some assms ok show ?thesis
      by (auto simp: process_next_def serialized_ok_def split: sum.splits intro: reduce_ok)
  qed
qed

lemma reachable_ok: "reachable c rt \<Longrightarrow> serialized_ok c rt"
proof (induction rule: reachable.induct)
  case (start rt)
  then show ?case
    by (auto simp: try_new_runtime_def try_new_queue_def serialized_ok_def queue_ok_def
        default_state_ok split: if_splits)
next
  case (step rt rt')
  from step(2,3) show ?case
    by (cases rule: runtime_step.cases) (auto intro: submit_ok process_next_ok)
qed

section \<open>Properties\<close>

text \<open>
  C31. Every runtime that submitting and processing can reach, in any interleaving, keeps the
  domain invariant of its state, never queues more events than its capacity (plus one
  pending overload report), and never changes its capacity.
\<close>

theorem reachable_runtime_ok:
  assumes "reachable capacity rt"
  shows "runtime_ok (rt_state rt) \<and> q_capacity (rt_ingress rt) = capacity
    \<and> queue_depth rt \<le> capacity + 1"
  using reachable_ok [OF assms] by (auto simp: serialized_ok_def queue_ok_def queue_depth_def queue_len_def)

text \<open>
  Overload fails safe: after a submission that finds the queue full, the very next
  processed event is the overload report. It leaves the runtime degraded and not live and
  asks for the output to be closed, or stops with an exhausted counter; nothing that
  waits in the queue is processed before it.
\<close>

theorem overload_closes_output_next:
  assumes "q_capacity (rt_ingress rt) \<le> length (q_events (rt_ingress rt))"
    and "submit rt ev = (rt1, res)" "process_next rt1 = (rt2, out)"
  shows "q_events (rt_ingress rt2) = q_events (rt_ingress rt1)
    \<and> (case out of
         Inr (Some pr) \<Rightarrow> pr_event_kind pr = DomainEventKind.QueueOverloaded
           \<and> pr_effects pr = [EnsureOutputClosed QueueSaturated]
           \<and> st_operation (rt_state rt2) \<noteq> OperationState.Live
           \<and> st_health (rt_state rt2) = RuntimeHealth.Degraded
       | Inr None \<Rightarrow> False
       | Inl err \<Rightarrow> err \<in> {ProcessedEventOverflow, StateRevisionOverflow})"
proof -
  obtain q where q: "queue_push (rt_ingress rt) ev = (q, res)" "rt1 = rt\<lparr>rt_ingress := q\<rparr>"
    using assms(2) by (auto simp: submit_def split: prod.splits)
  have "q_pending_overload q \<noteq> None"
    using q(1) by (cases rule: queue_push_cases) (use assms(1) in auto)
  then obtain o1 where o1: "q_pending_overload q = Some o1" by auto
  let ?ev = "DomainEvent.QueueOverloaded o1"
  have pop: "queue_pop q = (q\<lparr>q_pending_overload := None\<rparr>, Some ?ev)"
    by (simp add: queue_pop_def o1)
  show ?thesis
  proof (cases "reduce (rt_state rt) ?ev")
    case (Inl err)
    then have "err \<in> {ProcessedEventOverflow, StateRevisionOverflow}"
      by (auto simp: reduce_def reduce_queue_overloaded_def dest: finish_reduction_Inl)
    with Inl pop q(2) assms(3) show ?thesis by (auto simp: process_next_def)
  next
    case (Inr r)
    then have "red_effects r = [EnsureOutputClosed QueueSaturated]
        \<and> st_operation (red_state r) \<noteq> OperationState.Live
        \<and> st_health (red_state r) = RuntimeHealth.Degraded"
      by (cases rule: reduce_Inr) (auto simp: reduce_queue_overloaded_def push_diagnostic_def)
    with Inr pop q(2) assms(3) show ?thesis by (auto simp: process_next_def)
  qed
qed

fun process_times :: "nat \<Rightarrow> SerializedRuntime \<Rightarrow> SerializedRuntime" where
  "process_times 0 rt = rt"
| "process_times (Suc n) rt = process_times n (fst (process_next rt))"

lemma process_next_depth: "queue_depth (fst (process_next rt)) = queue_depth rt - 1"
  by (auto simp: process_next_def queue_depth_def queue_len_def queue_pop_def
      split: option.splits list.splits sum.splits)

text \<open>
  Progress: each processing step consumes one queued event even when the reducer
  rejects it, so as many steps as the queue is deep always drain it.
\<close>

theorem processing_drains_queue: "queue_depth (process_times (queue_depth rt) rt) = 0"
proof -
  have "queue_depth (process_times n rt) = queue_depth rt - n" for n
    by (induction n arbitrary: rt) (simp_all add: process_next_depth)
  then show ?thesis by simp
qed

theorem reachable_runtime_ok_witness:
  "\<exists>rt. reachable 4 rt \<and> queue_depth rt = 1 \<and> runtime_ok (rt_state rt)"
proof -
  obtain rt where rt: "try_new_runtime 4 = Inr rt" "queue_depth rt = 0" "q_capacity (rt_ingress rt) = 4"
      "q_events (rt_ingress rt) = []" "q_pending_overload (rt_ingress rt) = None"
    by (simp add: try_new_runtime_def try_new_queue_def queue_depth_def queue_len_def)
  obtain rt1 res where s: "submit rt (DomainEvent.RuntimeStarted 0) = (rt1, res)" by fastforce
  have "reachable 4 rt1"
    using reachable.start [OF rt(1)] runtime_step.submits [OF _ s] by (auto intro: reachable.step)
  moreover have "queue_depth rt1 = 1"
    using s rt by (auto simp: submit_def queue_push_def queue_depth_def queue_len_def)
  ultimately show ?thesis using reachable_runtime_ok by blast
qed

theorem overload_closes_output_next_witness:
  "\<exists>rt rt1 res rt2 out.
     q_capacity (rt_ingress rt) \<le> length (q_events (rt_ingress rt))
   \<and> submit rt drop_event = (rt1, res) \<and> process_next rt1 = (rt2, out)
   \<and> q_events (rt_ingress rt2) = q_events (rt_ingress rt1)"
proof -
  let ?rt = "\<lparr>rt_state = live_state, rt_ingress =
    \<lparr>q_capacity = 1, q_events = [drop_event], q_pending_overload = None\<rparr>\<rparr>"
  obtain rt1 res where s: "submit ?rt drop_event = (rt1, res)" by fastforce
  obtain rt2 out where p: "process_next rt1 = (rt2, out)" by fastforce
  have f: "q_capacity (rt_ingress ?rt) \<le> length (q_events (rt_ingress ?rt))" by simp
  from overload_closes_output_next [OF f s p] f s p show ?thesis by blast
qed

end
