(* ===== verification/Reducer_Recovery.thy ===== *)
theory Reducer_Recovery
  imports Scenario
begin

text \<open>
  What happens around a closed gate: restarting after an explicit pause restores the
  running cue at once, restarting after an overloaded queue does not; and the reduction
  of a late metadata hydration.
\<close>

section \<open>The cue a state stands on\<close>

text \<open>
  The leader plays load \<open>l\<close> at phrase \<open>idx\<close> and its active plan holds \<open>cue\<close> there.
\<close>

definition stands_on ::
  "RuntimeState \<Rightarrow> DeckId \<Rightarrow> TrackLoadId \<Rightarrow> u16 \<Rightarrow> LightingPlan \<Rightarrow> LightingCue \<Rightarrow> bool" where
  "stands_on s k l idx plan cue \<longleftrightarrow>
     st_leader_deck s = Some k \<and> st_active_plan s = Some plan
   \<and> plan_deck_id plan = k \<and> plan_track_load_id plan = l \<and> cue_for_phrase plan idx = Some cue
   \<and> (\<exists>d. st_decks s k = Some d \<and> deck_playing d \<and> deck_track_load_id d = l
        \<and> deck_phrase_index d = Some idx)"

definition started_by :: "RuntimeState \<Rightarrow> UserCommandEnvelope \<Rightarrow> bool" where
  "started_by s e \<longleftrightarrow> cmd_command e = OperationCommand.Start
     \<and> cmd_expected_state_revision e = st_revision s
     \<and> \<not> is_duplicate s (DomainEvent.UserCommand e)
     \<and> st_operation s \<in> {OperationState.Armed, OperationState.Paused}"

definition headroom :: "RuntimeState \<Rightarrow> bool" where
  "headroom s \<longleftrightarrow> st_output_command_sequence s \<noteq> - 1 \<and> st_processed_events s \<noteq> - 1 \<and> st_revision s \<noteq> - 1"

lemma checked_add_1: "checked_add a 1 = (if a = - 1 then None else Some (a + 1))"
  for a :: u64
proof (cases "a = - 1")
  case True
  then show ?thesis by (simp add: checked_add_def unsigned_minus_1_eq_mask mask_eq_exp_minus_1)
next
  case False
  then have "a < - 1" using word_n1_ge [of a] by (metis le_less)
  then have "unat a < unat (- 1 :: u64)" by (simp add: word_less_nat_alt)
  then have "unat a + 1 < 2 ^ 64" by (simp add: unsigned_minus_1_eq_mask mask_eq_exp_minus_1)
  then show ?thesis using False by (simp add: checked_add_def)
qed

lemma current_execution_stands:
  "stands_on s k l idx plan cue \<Longrightarrow>
   current_execution (s\<lparr>st_command_sequences := a, st_operation := b\<rparr>) = Some (k, l, idx)"
  by (auto simp: stands_on_def current_execution_def)

lemma reduce_start:
  assumes st: "stands_on s k l idx plan cue" and go: "started_by s e" and room: "headroom s"
  shows "\<exists>r. reduce s (DomainEvent.UserCommand e) = Inr r
    \<and> st_operation (red_state r) = OperationState.Live
    \<and> red_effects r =
        (if st_last_scheduled_cue s = Some (k, l, idx, cue_id cue, plan_revision plan) then []
         else [ExecuteCue (cue_request plan cue k l idx (cmd_issued_at e)
                 (st_output_command_sequence s + 1))])"
proof -
  let ?s1 = "s\<lparr>st_command_sequences := (st_command_sequences s)(cmd_client_id e \<mapsto> cmd_sequence e),
    st_operation := OperationState.Live\<rparr>"
  have x: "execution_effect ?s1 k l idx at =
      (if st_last_scheduled_cue s = Some (k, l, idx, cue_id cue, plan_revision plan) then Inr (?s1, None)
       else Inr (?s1\<lparr>st_output_command_sequence := st_output_command_sequence s + 1,
                   st_last_scheduled_cue := Some (k, l, idx, cue_id cue, plan_revision plan)\<rparr>,
                 Some (ExecuteCue (cue_request plan cue k l idx at (st_output_command_sequence s + 1)))))"
    for at
    using st room
    by (auto simp: stands_on_def execution_effect_def checked_add_1 headroom_def cue_request_def Let_def)
  have nd: "\<not> not_newer (st_command_sequences s) (cmd_client_id e) (cmd_sequence e)"
    and rev: "cmd_expected_state_revision e = st_revision s"
    and tgt: "command_target (st_operation s) (cmd_command e) = Inr OperationState.Live"
    using go by (auto simp: started_by_def is_duplicate_def)
  show ?thesis
    using room
    by (simp add: reduce_def reduce_command_def nd rev tgt current_execution_stands [OF st] x Let_def
        finish_reduction_def checked_add_1 headroom_def state_revision_checked_next_def)
qed

section \<open>Properties\<close>

text \<open>
  An explicit pause is undone at once: when the leader plays a phrase whose cue the
  active plan holds, pausing closes the output and forgets the running cue, and a Start
  that follows emits exactly this cue again, without waiting for the next phrase.
\<close>

theorem start_after_pause_restores:
  assumes "stands_on s k l idx plan cue"
    and "reduce s (DomainEvent.UserCommand p) = Inr r" "cmd_command p = OperationCommand.Pause"
    and "\<not> is_duplicate s (DomainEvent.UserCommand p)"
    and "started_by (red_state r) e" "headroom (red_state r)"
  shows "(\<exists>x. red_effects r = [EnsureOutputClosed x])
    \<and> (\<exists>r' n. reduce (red_state r) (DomainEvent.UserCommand e) = Inr r'
         \<and> red_effects r' = [ExecuteCue (cue_request plan cue k l idx (cmd_issued_at e) n)])"
  using assms(2)
proof (cases rule: reduce_Inr)
  case (1 n q rev)
  have nd: "\<not> not_newer (st_command_sequences s) (cmd_client_id p) (cmd_sequence p)"
    using assms(4) by (simp add: is_duplicate_def)
  have "reduce_command s p = Inr (n, red_decision r, red_effects r, red_state_changed r)"
    using 1(1) by simp
  from reduce_command_accepted [OF this nd] obtain target where
    t: "command_target (st_operation s) (cmd_command p) = Inr target"
    and out: "command_outcome
       (s\<lparr>st_command_sequences := (st_command_sequences s)(cmd_client_id p \<mapsto> cmd_sequence p),
          st_operation := target\<rparr>) target (cmd_issued_at p) n (red_effects r)" by blast
  from t assms(3) have "target = OperationState.Paused" by (auto split: if_splits)
  with out have n: "n = s\<lparr>st_command_sequences := (st_command_sequences s)(cmd_client_id p \<mapsto> cmd_sequence p),
          st_operation := OperationState.Paused, st_last_scheduled_cue := None\<rparr>"
    and effs: "red_effects r = [EnsureOutputClosed OperationTransitionAccepted]"
    by (simp_all add: command_outcome_def)
  have "stands_on (red_state r) k l idx plan cue" and "st_last_scheduled_cue (red_state r) = None"
    using assms(1) by (simp_all add: 1(4) n stands_on_def)
  with reduce_start [OF _ assms(5,6)] effs show ?thesis by (metis option.distinct(1))
qed

text \<open>
  C33. An overloaded queue is not undone the same way: the overload closes the output and
  pauses the show but keeps the running cue as the last scheduled one, so the Start that
  follows brings the show back to Live and emits nothing; the output stays closed until
  another cue becomes due.
\<close>

theorem start_after_overload_is_silent:
  assumes "stands_on s k l idx plan cue" "st_operation s = OperationState.Live"
    and "st_last_scheduled_cue s = Some (k, l, idx, cue_id cue, plan_revision plan)"
    and "reduce s (DomainEvent.QueueOverloaded q) = Inr r"
    and "started_by (red_state r) e" "headroom (red_state r)"
  shows "red_effects r = [EnsureOutputClosed QueueSaturated]
    \<and> (\<exists>r'. reduce (red_state r) (DomainEvent.UserCommand e) = Inr r'
         \<and> st_operation (red_state r') = OperationState.Live \<and> red_effects r' = [])"
  using assms(4)
proof (cases rule: reduce_Inr)
  case (1 n p rev)
  then have effs: "red_effects r = [EnsureOutputClosed QueueSaturated]"
    by (simp add: reduce_queue_overloaded_def)
  have "stands_on (red_state r) k l idx plan cue"
    "st_last_scheduled_cue (red_state r) = Some (k, l, idx, cue_id cue, plan_revision plan)"
    using assms(1,3) 1(1)
    by (auto simp: 1(4) stands_on_def reduce_queue_overloaded_def push_diagnostic_def)
  with reduce_start [OF _ assms(5,6)] effs show ?thesis by metis
qed

text \<open>
  A late hydration replaces the metadata of the loaded track without a new transport:
  beat, tempo, play state and load stay, the phrase index is recomputed from the new
  phrases at the current beat, plans and leader stay; although the deck changes, the
  state revision does not move.
\<close>

theorem hydration_keeps_transport:
  assumes "reduce s (DomainEvent.Observation e) = Inr r"
    and "red_decision r = DecisionReason.TrackMetadataHydrated"
  shows "\<exists>k m l d. obs_observation e = DeckObservation.TrackMetadataHydrated k m l
    \<and> st_decks s k = Some d \<and> deck_track_load_id d = l
    \<and> st_decks (red_state r) =
        (st_decks s)(k \<mapsto> d\<lparr>deck_metadata := m, deck_phrase_index := phrase_index_at_beat m (deck_beat d)\<rparr>)
    \<and> st_plans (red_state r) = st_plans s \<and> st_leader_deck (red_state r) = st_leader_deck s
    \<and> red_effects r = [] \<and> st_revision (red_state r) = st_revision s"
  using assms(1)
proof (cases rule: reduce_Inr)
  case (1 n p rev)
  note acc = reduce_event_accounting [OF 1(1)]
  have ro: "reduce_observation s e = Inr (n, red_decision r, red_effects r, red_state_changed r)"
    using 1(1) by simp
  let ?s2 = "s\<lparr>st_source_sequences := (st_source_sequences s)(obs_source_id e \<mapsto> obs_sequence e),
    st_source_times := (st_source_times s)(obs_source_id e \<mapsto> obs_observed_at e)\<rparr>"
  from ro assms(2) have ob: "observe (obs_source_id e) (obs_observed_at e) (obs_observation e) ?s2
        = Inr (n, DecisionReason.TrackMetadataHydrated, red_effects r)"
    and ch: "\<not> red_state_changed r"
    by (auto simp: reduce_observation_def Let_def result_simps observation_changes_state_def
        split: if_splits)
  from ob obtain k m l where h: "obs_observation e = DeckObservation.TrackMetadataHydrated k m l"
    by (cases "obs_observation e")
       (auto simp: reducer_defs Let_def schedule_or_def result_simps split: option.splits if_splits)
  with ob ch acc 1(3) show ?thesis
    by (auto simp: 1(4) observe_metadata_hydrated_def split: option.splits if_splits)
qed

section \<open>The properties on the demo show\<close>

definition pause_command :: UserCommandEnvelope where
  "pause_command = \<lparr>cmd_client_id = 1, cmd_sequence = 3, cmd_expected_state_revision = 6,
     cmd_issued_at = 20, cmd_command = OperationCommand.Pause\<rparr>"

definition start_command :: UserCommandEnvelope where
  "start_command = \<lparr>cmd_client_id = 1, cmd_sequence = 4, cmd_expected_state_revision = 7,
     cmd_issued_at = 21, cmd_command = OperationCommand.Start\<rparr>"

definition demo_overload :: QueueOverloadEvent where
  "demo_overload = \<lparr>ovl_occurred_at = 20, ovl_rejected_kind = DomainEventKind.Observation,
     ovl_rejected_critical = False, ovl_occurrences = 1\<rparr>"

definition hydration :: ObservationEnvelope where
  "hydration = \<lparr>obs_source_id = 1, obs_sequence = 9, obs_observed_at = 9,
     obs_observation = DeckObservation.TrackMetadataHydrated 1 demo_track 10\<rparr>"

lemmas recovery_defs = demo_defs pause_command_def start_command_def demo_overload_def hydration_def

lemma live_state_stands: "stands_on live_state 1 10 0 demo_plan (demo_cue 21 0 0 32)"
  by (simp add: demo_defs stands_on_def cue_for_phrase_def get_nth_def)

lemma live_state_pauses:
  "\<exists>r. reduce live_state (DomainEvent.UserCommand pause_command) = Inr r
     \<and> \<not> is_duplicate live_state (DomainEvent.UserCommand pause_command)
     \<and> started_by (red_state r) start_command \<and> headroom (red_state r)"
  by (simp add: recovery_defs reduce_def reduce_command_def not_newer_def Let_def checked_add_def
      finish_reduction_def state_revision_checked_next_def push_timeline_def started_by_def
      headroom_def is_duplicate_def)

lemma live_state_overloads:
  "\<exists>r. reduce live_state (DomainEvent.QueueOverloaded demo_overload) = Inr r
     \<and> started_by (red_state r) start_command \<and> headroom (red_state r)"
  by (simp add: recovery_defs reduce_def reduce_queue_overloaded_def not_newer_def Let_def checked_add_def
      finish_reduction_def state_revision_checked_next_def push_timeline_def push_diagnostic_def
      started_by_def headroom_def is_duplicate_def)

lemma live_state_hydrates:
  "\<exists>r. reduce live_state (DomainEvent.Observation hydration) = Inr r
     \<and> red_decision r = DecisionReason.TrackMetadataHydrated"
  by (simp add: recovery_defs reduce_def reduce_observation_def observe_metadata_hydrated_def
      not_newer_def Let_def checked_add_def finish_reduction_def observation_changes_state_def)

theorem start_after_pause_restores_witness:
  "\<exists>r r' n. reduce live_state (DomainEvent.UserCommand pause_command) = Inr r
     \<and> reduce (red_state r) (DomainEvent.UserCommand start_command) = Inr r'
     \<and> red_effects r' =
         [ExecuteCue (cue_request demo_plan (demo_cue 21 0 0 32) 1 10 0 (cmd_issued_at start_command) n)]"
proof -
  obtain r where r: "reduce live_state (DomainEvent.UserCommand pause_command) = Inr r"
      "\<not> is_duplicate live_state (DomainEvent.UserCommand pause_command)"
      "started_by (red_state r) start_command" "headroom (red_state r)"
    using live_state_pauses by blast
  have "cmd_command pause_command = OperationCommand.Pause" by (simp add: pause_command_def)
  from start_after_pause_restores [OF live_state_stands r(1) this r(2-4)] r(1) show ?thesis by blast
qed

theorem start_after_overload_is_silent_witness:
  "\<exists>r r'. reduce live_state (DomainEvent.QueueOverloaded demo_overload) = Inr r
     \<and> reduce (red_state r) (DomainEvent.UserCommand start_command) = Inr r'
     \<and> st_operation (red_state r') = OperationState.Live \<and> red_effects r' = []"
proof -
  obtain r where r: "reduce live_state (DomainEvent.QueueOverloaded demo_overload) = Inr r"
      "started_by (red_state r) start_command" "headroom (red_state r)"
    using live_state_overloads by blast
  have "st_operation live_state = OperationState.Live"
    and "st_last_scheduled_cue live_state =
      Some (1, 10, 0, cue_id (demo_cue 21 0 0 32), plan_revision demo_plan)"
    by (simp_all add: demo_defs)
  from start_after_overload_is_silent [OF live_state_stands this r] r(1) show ?thesis by blast
qed

theorem hydration_keeps_transport_witness:
  "\<exists>r. reduce live_state (DomainEvent.Observation hydration) = Inr r
     \<and> red_effects r = [] \<and> st_revision (red_state r) = st_revision live_state"
  using live_state_hydrates hydration_keeps_transport by blast

end
