(* ===== verification/Planner.thy ===== *)
theory Planner
  imports Plan
begin

unbundle bit_operations_syntax

text \<open>
  The deterministic planner (\<open>lumi-planner/src/planner.rs\<close>): the planning configuration,
  the stable choice source, plan generation with its Theme policy, and the edits of a
  plan. The choice source is a trait in the code and a function here; \<open>choice_source\<close> is
  its contract, and \<open>stable_choose\<close> the implementation the engine uses.

  A \<open>usize\<close> is a natural number, with its 64-bit bound written out where the code
  checks it. Indexing a slice out of range panics; it is the extra value
  \<open>IndexOutOfBounds\<close> of the error type, which no value of the enum in the code has.
\<close>

section \<open>Data\<close>

record PlannerTrack =
  ptrack_id :: TrackId
  ptrack_duration_beats :: u32
  ptrack_color :: "TrackColor option"
  ptrack_phrases :: "TrackPhrase list option"

record PlanningInput =
  input_deck_id :: DeckId
  input_track_load_id :: TrackLoadId
  input_track :: PlannerTrack

record ThemeDefinition =
  theme_def_id :: ThemeId
  theme_def_name :: string

datatype ThemeColorRuleMode = Force | Prefer

record WeightedThemeCandidate =
  candidate_theme_id :: ThemeId
  candidate_weight :: u16

record ThemeColorRule =
  rule_color :: TrackColor
  rule_mode :: ThemeColorRuleMode
  rule_candidates :: "WeightedThemeCandidate list"

datatype ThemeRuleColorBehavior = Neutral | Prefer | Only

record ThemeSelectionRule =
  selection_theme_id :: ThemeId
  selection_enabled :: bool
  selection_weight :: u16
  selection_color_behavior :: ThemeRuleColorBehavior
  selection_colors :: "TrackColor list"

record ThemeSelectionContext =
  recent_theme_ids :: "ThemeId list"

record SceneDefinition =
  scene_def_id :: SceneId
  scene_def_name :: string
  scene_def_category :: SceneCategory
  scene_def_loop_selection :: LoopSelection

record PlanningConfiguration =
  config_revision :: PlanConfigurationRevision
  config_themes :: "ThemeDefinition list"
  config_scenes :: "SceneDefinition list"
  config_global_theme_lock :: "ThemeId option"
  config_color_rules :: "ThemeColorRule list"
  config_theme_selection_rules :: "ThemeSelectionRule list"
  config_default_theme_id :: ThemeId

record ThemeOption =
  theme_option_id :: ThemeId
  theme_option_name :: string

record SceneOption =
  scene_option_id :: SceneId
  scene_option_name :: string
  scene_option_category :: SceneCategory
  scene_option_loop_selection :: LoopSelection

record PlanningOptions =
  options_themes :: "ThemeOption list"
  options_scenes :: "SceneOption list"

type_synonym ChoiceSource = "u64 \<Rightarrow> u64 \<Rightarrow> nat \<Rightarrow> nat option"

record DeterministicPlanner =
  planner_configuration :: PlanningConfiguration
  planner_choose :: ChoiceSource

datatype PlannerError =
    EmptyTrackDuration
  | EmptyThemeCatalog
  | InvalidThemeRule
  | NoEligibleTheme
  | UnknownConfiguredTheme ThemeId
  | MissingSceneCategory SceneCategory
  | InvalidPlan PlanValidationError
  | IndexOutOfBounds

datatype PlanMutationError =
    UnknownTheme ThemeId
  | UnknownScene SceneId
  | UnknownPhrase u16
  | SceneCategoryMismatch SceneCategory SceneCategory
  | FallbackPlanNotEditable
  | TrackLoadMismatch
  | NoChange
  | InvalidPlan PlanValidationError
  | Planner PlannerError

section \<open>Tracks, contexts and configurations\<close>

definition analyzed :: "TrackMetadata \<Rightarrow> PlannerTrack" where
  "analyzed t = \<lparr>ptrack_id = track_id t, ptrack_duration_beats = track_duration_beats t,
     ptrack_color = track_color t, ptrack_phrases = Some (track_phrases t)\<rparr>"

definition without_analysis :: "TrackId \<Rightarrow> u32 \<Rightarrow> PlannerTrack" where
  "without_analysis i duration = \<lparr>ptrack_id = i, ptrack_duration_beats = duration,
     ptrack_color = None, ptrack_phrases = None\<rparr>"

definition with_analysis :: "TrackId \<Rightarrow> u32 \<Rightarrow> TrackPhrase list \<Rightarrow> PlannerTrack" where
  "with_analysis i duration phrases = \<lparr>ptrack_id = i, ptrack_duration_beats = duration,
     ptrack_color = None, ptrack_phrases = Some phrases\<rparr>"

definition with_analysis_and_color ::
  "TrackId \<Rightarrow> u32 \<Rightarrow> TrackColor \<Rightarrow> TrackPhrase list \<Rightarrow> PlannerTrack" where
  "with_analysis_and_color i duration color phrases = \<lparr>ptrack_id = i,
     ptrack_duration_beats = duration, ptrack_color = Some color, ptrack_phrases = Some phrases\<rparr>"

text \<open>\<open>rev().take(8)\<close>, collected and reversed again.\<close>

definition new_selection_context :: "ThemeId list \<Rightarrow> ThemeSelectionContext" where
  "new_selection_context ids = \<lparr>recent_theme_ids = rev (take 8 (rev ids))\<rparr>"

definition default_selection_context :: ThemeSelectionContext where
  "default_selection_context = \<lparr>recent_theme_ids = []\<rparr>"

definition scene :: "u64 \<Rightarrow> string \<Rightarrow> SceneCategory \<Rightarrow> u8 \<Rightarrow> u8 \<Rightarrow> SceneDefinition" where
  "scene i name category bank slot = \<lparr>scene_def_id = i, scene_def_name = name,
     scene_def_category = category, scene_def_loop_selection = new_loop_selection bank slot\<rparr>"

definition epic_one_configuration :: PlanningConfiguration where
  "epic_one_configuration =
     \<lparr>config_revision = 1,
      config_themes =
        [\<lparr>theme_def_id = 1, theme_def_name = ''Electric Bloom''\<rparr>,
         \<lparr>theme_def_id = 2, theme_def_name = ''Deep Ocean''\<rparr>,
         \<lparr>theme_def_id = 3, theme_def_name = ''Solar Flare''\<rparr>,
         \<lparr>theme_def_id = 4, theme_def_name = ''Ultraviolet''\<rparr>],
      config_scenes =
        [scene 1 ''Soft Motion'' Ambient 1 1,
         scene 2 ''Star Wash'' Ambient 1 2,
         scene 3 ''Neon Motion'' Groove 2 1,
         scene 4 ''Prism Sweep'' Groove 2 2,
         scene 5 ''Rising Pulse'' SceneCategory.Build 3 1,
         scene 6 ''Velocity Build'' SceneCategory.Build 3 2,
         scene 7 ''Full Energy'' Impact 4 1,
         scene 8 ''Color Impact'' Impact 4 2,
         scene 9 ''Deep Space'' Break 5 1,
         scene 10 ''Slow Wave'' Break 5 2],
      config_global_theme_lock = None,
      config_color_rules =
        [\<lparr>rule_color = new_color 187 72 126, rule_mode = Force,
          rule_candidates = [\<lparr>candidate_theme_id = 4, candidate_weight = 1\<rparr>]\<rparr>,
         \<lparr>rule_color = new_color 72 112 205, rule_mode = ThemeColorRuleMode.Prefer,
          rule_candidates = [\<lparr>candidate_theme_id = 2, candidate_weight = 1\<rparr>]\<rparr>],
      config_theme_selection_rules = [],
      config_default_theme_id = 1\<rparr>"

definition with_global_theme_lock ::
  "PlanningConfiguration \<Rightarrow> ThemeId option \<Rightarrow> PlanningConfiguration" where
  "with_global_theme_lock c t = c\<lparr>config_global_theme_lock := t\<rparr>"

definition with_color_rules ::
  "PlanningConfiguration \<Rightarrow> ThemeColorRule list \<Rightarrow> PlanningConfiguration" where
  "with_color_rules c rules = c\<lparr>config_color_rules := rules\<rparr>"

definition with_theme_selection_rules ::
  "PlanningConfiguration \<Rightarrow> ThemeSelectionRule list \<Rightarrow> PlanningConfiguration" where
  "with_theme_selection_rules c rules = c\<lparr>config_theme_selection_rules := rules\<rparr>"

definition with_default_theme :: "PlanningConfiguration \<Rightarrow> ThemeId \<Rightarrow> PlanningConfiguration" where
  "with_default_theme c t = c\<lparr>config_default_theme_id := t\<rparr>"

definition with_themes ::
  "PlanningConfiguration \<Rightarrow> PlanConfigurationRevision \<Rightarrow> ThemeOption list \<Rightarrow> PlanningConfiguration" where
  "with_themes c revision themes =
     (let theme_ids = map theme_option_id themes;
          pruned = map (\<lambda>rule. rule\<lparr>rule_candidates :=
            filter (\<lambda>k. candidate_theme_id k \<in> set theme_ids) (rule_candidates rule)\<rparr>)
            (config_color_rules c)
      in c\<lparr>config_revision := revision,
           config_themes := map (\<lambda>t. \<lparr>theme_def_id = theme_option_id t,
             theme_def_name = theme_option_name t\<rparr>) themes,
           config_color_rules :=
             filter (\<lambda>rule. list_ex (\<lambda>k. candidate_weight k > 0) (rule_candidates rule)) pruned,
           config_theme_selection_rules :=
             filter (\<lambda>rule. selection_theme_id rule \<in> set theme_ids) (config_theme_selection_rules c),
           config_global_theme_lock :=
             (case config_global_theme_lock c of
                Some t \<Rightarrow> if t \<notin> set theme_ids then None else Some t
              | None \<Rightarrow> None),
           config_default_theme_id :=
             (if config_default_theme_id c \<notin> set theme_ids then
                (case theme_ids of first # _ \<Rightarrow> first | [] \<Rightarrow> config_default_theme_id c)
              else config_default_theme_id c)\<rparr>)"

section \<open>Hashing and choice\<close>

definition mix :: "u64 \<Rightarrow> u64" where
  "mix value =
     (let v = value XOR drop_bit 30 value;
          v = v * 0xbf58476d1ce4e5b9;
          v = v XOR drop_bit 27 v;
          v = v * 0x94d049bb133111eb
      in v XOR drop_bit 31 v)"

definition nonzero :: "u64 \<Rightarrow> u64" where
  "nonzero value = (if value = 0 then 1 else value)"

definition FNV_OFFSET_BASIS :: u64 where
  "FNV_OFFSET_BASIS = 0xcbf29ce484222325"

definition FNV_PRIME :: u64 where
  "FNV_PRIME = 0x00000100000001b3"

definition to_le_bytes :: "u64 \<Rightarrow> u8 list" where
  "to_le_bytes v = map (\<lambda>i. ucast (drop_bit (8 * i) v)) [0..<8]"

definition stable_seed :: "TrackId \<Rightarrow> PlanConfigurationRevision \<Rightarrow> u64" where
  "stable_seed track revision =
     foldl (\<lambda>hash byte. (hash XOR ucast byte) * FNV_PRIME) FNV_OFFSET_BASIS
       (to_le_bytes track @ to_le_bytes revision)"

definition stable_choose :: ChoiceSource where
  "stable_choose seed decision candidate_count =
     (if candidate_count = 0 then None
      else let mixed = mix (seed XOR decision * 0x9e3779b97f4a7c15)
           in Some (unat (mixed mod of_nat candidate_count)))"

definition epic_one :: DeterministicPlanner where
  "epic_one = \<lparr>planner_configuration = epic_one_configuration, planner_choose = stable_choose\<rparr>"

section \<open>Theme selection\<close>

definition planner_theme :: "DeterministicPlanner \<Rightarrow> ThemeId \<Rightarrow> ThemeDefinition option" where
  "planner_theme pl t = find (\<lambda>d. theme_def_id d = t) (config_themes (planner_configuration pl))"

definition planner_decision ::
  "DeterministicPlanner \<Rightarrow> ThemeId \<Rightarrow> ThemeSelectionReason \<Rightarrow> u32 option \<Rightarrow>
   PlannerError + ThemeDecision" where
  "planner_decision pl t reason matched_color =
     and_then (ok_or (planner_theme pl t) (UnknownConfiguredTheme t)) (\<lambda>d.
       map_err PlannerError.InvalidPlan
         (try_new_theme_decision (theme_def_id d) (theme_def_name d) reason matched_color))"

definition usize_checked_add :: "nat \<Rightarrow> nat \<Rightarrow> nat option" where
  "usize_checked_add a b = (if a + b < 2 ^ 64 then Some (a + b) else None)"

fun total_weight :: "nat \<Rightarrow> WeightedThemeCandidate list \<Rightarrow> nat option" where
  "total_weight acc [] = Some acc"
| "total_weight acc (c # cs) =
     Option.bind (usize_checked_add acc (unat (candidate_weight c))) (\<lambda>t. total_weight t cs)"

text \<open>The loop that walks the cursor over the candidates.\<close>

fun weighted_pick :: "nat \<Rightarrow> WeightedThemeCandidate list \<Rightarrow> ThemeId option" where
  "weighted_pick cursor [] = None"
| "weighted_pick cursor (c # cs) =
     (let weight = unat (candidate_weight c) in
      if weight = 0 then weighted_pick cursor cs
      else if cursor < weight then Some (candidate_theme_id c)
      else weighted_pick (cursor - weight) cs)"

definition weighted_choice ::
  "DeterministicPlanner \<Rightarrow> u64 \<Rightarrow> u64 \<Rightarrow> WeightedThemeCandidate list \<Rightarrow> PlannerError + ThemeId" where
  "weighted_choice pl seed dec candidates =
     and_then (ok_or (total_weight 0 candidates) InvalidThemeRule) (\<lambda>weight_sum.
     and_then (ok_or (planner_choose pl seed dec weight_sum) InvalidThemeRule) (\<lambda>selected.
       ok_or (weighted_pick selected candidates) InvalidThemeRule))"

definition without_recent ::
  "WeightedThemeCandidate list \<Rightarrow> ThemeId list \<Rightarrow> WeightedThemeCandidate list" where
  "without_recent candidates recent =
     filter (\<lambda>c. candidate_theme_id c \<notin> set recent) candidates"

definition THEME_KEY :: u64 where
  "THEME_KEY = 0x5448454d45"

definition matches_color :: "PlannerTrack \<Rightarrow> ThemeSelectionRule \<Rightarrow> bool" where
  "matches_color track rule =
     (case ptrack_color track of None \<Rightarrow> False | Some color \<Rightarrow> color \<in> set (selection_colors rule))"

definition only_matches :: "DeterministicPlanner \<Rightarrow> PlannerTrack \<Rightarrow> ThemeSelectionRule list" where
  "only_matches pl track =
     filter (\<lambda>rule. selection_enabled rule \<and> selection_color_behavior rule = Only
                     \<and> matches_color track rule)
       (config_theme_selection_rules (planner_configuration pl))"

definition eligible_rules :: "DeterministicPlanner \<Rightarrow> PlannerTrack \<Rightarrow> ThemeSelectionRule list" where
  "eligible_rules pl track =
     (if only_matches pl track \<noteq> [] then only_matches pl track
      else filter (\<lambda>rule. selection_enabled rule \<and> selection_color_behavior rule \<noteq> Only)
             (config_theme_selection_rules (planner_configuration pl)))"

definition rule_weight :: "PlannerTrack \<Rightarrow> ThemeSelectionRule \<Rightarrow> u16" where
  "rule_weight track rule =
     max (if selection_color_behavior rule = ThemeRuleColorBehavior.Prefer \<and> matches_color track rule
          then saturating_mul (selection_weight rule) 2
          else selection_weight rule) 1"

definition policy_candidates :: "DeterministicPlanner \<Rightarrow> PlannerTrack \<Rightarrow> WeightedThemeCandidate list" where
  "policy_candidates pl track =
     map (\<lambda>rule. \<lparr>candidate_theme_id = selection_theme_id rule,
                    candidate_weight = rule_weight track rule\<rparr>) (eligible_rules pl track)"

definition select_policy_theme ::
  "DeterministicPlanner \<Rightarrow> PlannerTrack \<Rightarrow> u64 \<Rightarrow> ThemeSelectionContext \<Rightarrow>
   PlannerError + ThemeDecision" where
  "select_policy_theme pl track seed context =
     (let conf = planner_configuration pl;
          uses_color_only = (only_matches pl track \<noteq> []);
          weighted = policy_candidates pl track
      in if weighted = [] then Inl NoEligibleTheme
         else let matching_prefer = list_ex (\<lambda>rule.
                selection_color_behavior rule = ThemeRuleColorBehavior.Prefer
                \<and> matches_color track rule) (eligible_rules pl track)
         in if \<not> uses_color_only \<and> \<not> matching_prefer \<and> recent_theme_ids context = []
               \<and> list_ex (\<lambda>c. candidate_theme_id c = config_default_theme_id conf) weighted
            then planner_decision pl (config_default_theme_id conf) DefaultTheme None
            else let fresh = without_recent weighted (recent_theme_ids context);
                     candidates = (if fresh = [] then weighted else fresh);
                     reason = (if uses_color_only then ColorForce
                               else if matching_prefer then ColorPrefer else Rotation);
                     dec = (case ptrack_color track of None \<Rightarrow> THEME_KEY
                            | Some color \<Rightarrow> ucast (rgb_u32 color) XOR THEME_KEY)
                 in and_then (weighted_choice pl seed dec candidates) (\<lambda>selected.
                      planner_decision pl selected reason
                        (if uses_color_only \<or> matching_prefer
                         then map_option rgb_u32 (ptrack_color track) else None)))"

text \<open>One pass of the loop over \<open>[Force, Prefer]\<close>; \<open>None\<close> goes on to the next mode.\<close>

definition color_rule_theme ::
  "DeterministicPlanner \<Rightarrow> u64 \<Rightarrow> ThemeSelectionContext \<Rightarrow> TrackColor \<Rightarrow> ThemeColorRuleMode \<Rightarrow>
   (PlannerError + ThemeDecision) option" where
  "color_rule_theme pl seed context color mode =
     map_option (\<lambda>rule.
       let fresh = (if mode = ThemeColorRuleMode.Prefer
                    then without_recent (rule_candidates rule) (recent_theme_ids context)
                    else rule_candidates rule);
           candidates = (if fresh = [] then rule_candidates rule else fresh)
       in and_then (weighted_choice pl seed (ucast (rgb_u32 color)) candidates) (\<lambda>t.
            planner_decision pl t (if mode = Force then ColorForce else ColorPrefer)
              (Some (rgb_u32 color))))
       (find (\<lambda>rule. rule_color rule = color \<and> rule_mode rule = mode)
          (config_color_rules (planner_configuration pl)))"

definition rotation_candidates ::
  "DeterministicPlanner \<Rightarrow> ThemeSelectionContext \<Rightarrow> ThemeDefinition list" where
  "rotation_candidates pl context =
     filter (\<lambda>d. theme_def_id d \<notin> set (recent_theme_ids context))
       (config_themes (planner_configuration pl))"

text \<open>The rest of \<open>select_initial_theme\<close> when no colour rule applies.\<close>

definition rotation_or_default ::
  "DeterministicPlanner \<Rightarrow> u64 \<Rightarrow> ThemeSelectionContext \<Rightarrow> PlannerError + ThemeDecision" where
  "rotation_or_default pl seed context =
     (let fallback = planner_decision pl (config_default_theme_id (planner_configuration pl))
                       DefaultTheme None;
          candidates = rotation_candidates pl context
      in if recent_theme_ids context \<noteq> [] then
           (case planner_choose pl seed THEME_KEY (length candidates) of
              Some index \<Rightarrow>
                and_then (ok_or (get_nth candidates index) IndexOutOfBounds) (\<lambda>d.
                  planner_decision pl (theme_def_id d) Rotation None)
            | None \<Rightarrow> fallback)
         else fallback)"

definition select_initial_theme ::
  "DeterministicPlanner \<Rightarrow> PlannerTrack \<Rightarrow> u64 \<Rightarrow> ThemeSelectionContext \<Rightarrow>
   PlannerError + ThemeDecision" where
  "select_initial_theme pl track seed context =
     (case config_global_theme_lock (planner_configuration pl) of
        Some t \<Rightarrow> planner_decision pl t GlobalLock None
      | None \<Rightarrow>
        if config_theme_selection_rules (planner_configuration pl) \<noteq> []
        then select_policy_theme pl track seed context
        else (case Option.bind (ptrack_color track) (\<lambda>color.
                find_map (color_rule_theme pl seed context color) [Force, ThemeColorRuleMode.Prefer]) of
                Some r \<Rightarrow> r
              | None \<Rightarrow> rotation_or_default pl seed context))"

section \<open>Plan generation\<close>

fun category_for :: "PhraseKind \<Rightarrow> SceneCategory" where
  "category_for Intro = Ambient"
| "category_for Outro = Ambient"
| "category_for Verse = Groove"
| "category_for PhraseKind.Build = SceneCategory.Build"
| "category_for PhraseKind.Drop = Impact"
| "category_for Breakdown = Break"

text \<open>The loop of \<open>analysis_is_complete\<close>; \<open>None\<close> is its early \<open>return false\<close>.\<close>

fun check_analysis :: "u32 \<Rightarrow> nat \<Rightarrow> u32 \<Rightarrow> TrackPhrase list \<Rightarrow> u32 option" where
  "check_analysis duration expected previous_end [] = Some previous_end"
| "check_analysis duration expected previous_end (p # ps) =
     (if unat (phrase_index p) \<noteq> expected \<or> phrase_start_beat p \<noteq> previous_end
         \<or> phrase_end_beat p \<le> phrase_start_beat p \<or> phrase_end_beat p > duration
      then None
      else check_analysis duration (Suc expected) (phrase_end_beat p) ps)"

definition analysis_is_complete :: "TrackPhrase list \<Rightarrow> u32 \<Rightarrow> bool" where
  "analysis_is_complete phrases duration =
     (phrases \<noteq> [] \<and> check_analysis duration 0 0 phrases = Some duration)"

definition phrase_decision :: "TrackPhrase \<Rightarrow> u64" where
  "phrase_decision phrase = ucast (phrase_index phrase) + 1"

definition plan_phrase ::
  "DeterministicPlanner \<Rightarrow> u64 \<Rightarrow> PlanId \<Rightarrow> ThemeDefinition \<Rightarrow> TrackPhrase \<Rightarrow>
   PlannerError + LightingCue" where
  "plan_phrase pl seed pid th phrase =
     (let category = category_for (phrase_kind phrase);
          candidates = filter (\<lambda>s. scene_def_category s = category)
                         (config_scenes (planner_configuration pl))
      in and_then (ok_or (planner_choose pl seed (phrase_decision phrase) (length candidates))
                     (MissingSceneCategory category)) (\<lambda>scene_index.
         and_then (ok_or (get_nth candidates scene_index) IndexOutOfBounds) (\<lambda>sc.
         and_then (map_err PlannerError.InvalidPlan
                    (try_new_look (theme_def_id th) (theme_def_name th) (scene_def_id sc)
                       (scene_def_name sc) (scene_def_category sc)
                       (scene_def_loop_selection sc))) (\<lambda>look.
           Inr (new_cue (nonzero (mix (pid XOR phrase_decision phrase))) (phrase_index phrase)
                  (phrase_start_beat phrase) (phrase_end_beat phrase) (ApplyLook look)
                  CueOrigin.Automatic
                  (PhraseCategoryMatched (phrase_kind phrase) category))))))"

definition plan_analyzed_phrases ::
  "DeterministicPlanner \<Rightarrow> u64 \<Rightarrow> PlanId \<Rightarrow> TrackPhrase list \<Rightarrow> ThemeDefinition \<Rightarrow>
   PlannerError + LightingCue list" where
  "plan_analyzed_phrases pl seed pid phrases th = try_map (plan_phrase pl seed pid th) phrases"

definition input_seed :: "DeterministicPlanner \<Rightarrow> PlanningInput \<Rightarrow> u64" where
  "input_seed pl input =
     stable_seed (ptrack_id (input_track input)) (config_revision (planner_configuration pl))"

definition input_plan_id :: "DeterministicPlanner \<Rightarrow> PlanningInput \<Rightarrow> PlanId" where
  "input_plan_id pl input = nonzero (mix (input_seed pl input XOR input_track_load_id input))"

definition fallback_cue :: "PlanId \<Rightarrow> u32 \<Rightarrow> LightingCue" where
  "fallback_cue pid duration =
     new_cue (nonzero (mix pid)) 0 0 duration HoldCurrentLook CueOrigin.Fallback MissingPhraseAnalysis"

text \<open>The match on \<open>input.track.phrases\<close> that gives the Theme decision and the cues.\<close>

definition generate_cues ::
  "DeterministicPlanner \<Rightarrow> PlanningInput \<Rightarrow> ThemeSelectionContext \<Rightarrow>
   PlannerError + (ThemeDecision option \<times> LightingCue list)" where
  "generate_cues pl input context =
     (let track = input_track input;
          seed = input_seed pl input;
          pid = input_plan_id pl input;
          fallback = Inr (None, [fallback_cue pid (ptrack_duration_beats track)])
      in case ptrack_phrases track of
           Some phrases \<Rightarrow>
             if analysis_is_complete phrases (ptrack_duration_beats track) then
               and_then (select_initial_theme pl track seed context) (\<lambda>d.
               and_then (ok_or (planner_theme pl (decision_theme_id d))
                           (UnknownConfiguredTheme (decision_theme_id d))) (\<lambda>th.
               and_then (plan_analyzed_phrases pl seed pid phrases th) (\<lambda>cues.
                 Inr (Some d, cues))))
             else fallback
         | None \<Rightarrow> fallback)"

definition generate_with_context ::
  "DeterministicPlanner \<Rightarrow> PlanningInput \<Rightarrow> ThemeSelectionContext \<Rightarrow> PlannerError + LightingPlan" where
  "generate_with_context pl input context =
     (if ptrack_duration_beats (input_track input) = 0 then Inl PlannerError.EmptyTrackDuration
      else and_then (generate_cues pl input context) (\<lambda>(theme_decision, cues).
        let status = (if list_ex (\<lambda>c. cue_origin c = CueOrigin.Fallback) cues
                      then PlanStatus.Fallback else PlanStatus.Ready)
        in map_err PlannerError.InvalidPlan
             (try_new_with_theme_decision (input_plan_id pl input) (input_deck_id input)
                (ptrack_id (input_track input)) (ptrack_duration_beats (input_track input))
                (input_track_load_id input) plan_revision_initial
                (config_revision (planner_configuration pl)) (input_seed pl input) status
                theme_decision cues)))"

definition generate :: "DeterministicPlanner \<Rightarrow> PlanningInput \<Rightarrow> PlannerError + LightingPlan" where
  "generate pl input = generate_with_context pl input default_selection_context"

definition planner_options :: "DeterministicPlanner \<Rightarrow> PlanningOptions" where
  "planner_options pl =
     \<lparr>options_themes = map (\<lambda>t. \<lparr>theme_option_id = theme_def_id t,
        theme_option_name = theme_def_name t\<rparr>) (config_themes (planner_configuration pl)),
      options_scenes = map (\<lambda>s. \<lparr>scene_option_id = scene_def_id s,
        scene_option_name = scene_def_name s, scene_option_category = scene_def_category s,
        scene_option_loop_selection = scene_def_loop_selection s\<rparr>)
        (config_scenes (planner_configuration pl))\<rparr>"

section \<open>Hashing facts\<close>

lemma drop_bit_fixed: "drop_bit k d = d \<Longrightarrow> 0 < k \<Longrightarrow> d = (0 :: 'a::len word)"
proof -
  assume fixed: "drop_bit k d = d" and k: "0 < k"
  have "unat d div 2 ^ k = unat (drop_bit k d)"
    by (simp only: unsigned_drop_bit_eq) (simp add: drop_bit_eq_div take_bit_nat_eq_self)
  then have "unat d div 2 ^ k = unat d" using fixed by simp
  moreover have "1 < (2 :: nat) ^ k" using k by (intro one_less_power) simp_all
  ultimately have "unat d = 0" using div_less_dividend [of "2 ^ k" "unat d"] by linarith
  then show ?thesis by (simp add: unat_eq_0)
qed

lemma xorshift_inj:
  assumes "0 < k" and eq: "a XOR drop_bit k a = b XOR drop_bit k (b :: 'a::len word)"
  shows "a = b"
proof -
  have "drop_bit k (a XOR b) = a XOR b"
  proof (rule bit_word_eqI)
    fix n
    assume "n < LENGTH('a)"
    have "bit (a XOR drop_bit k a) n = bit (b XOR drop_bit k b) n" using eq by simp
    then show "bit (drop_bit k (a XOR b)) n = bit (a XOR b) n"
      by (auto simp: bit_xor_iff bit_drop_bit_eq)
  qed
  then have "a XOR b = 0" using drop_bit_fixed assms by blast
  then show ?thesis by (metis xor.assoc xor.left_neutral xor.right_neutral xor_self_eq)
qed

lemma mult_unit_inj: "m * n = (1 :: 'a::len word) \<Longrightarrow> a * m = b * m \<Longrightarrow> a = b"
  by (metis mult.assoc mult.right_neutral)

lemma mix_multipliers:
  "(0xbf58476d1ce4e5b9 :: u64) * 0x96de1b173f119089 = 1"
  "(0x94d049bb133111eb :: u64) * 0x319642b2d24d8ec3 = 1"
  by simp_all

lemma mix_inj: "mix a = mix b \<longleftrightarrow> a = b"
proof
  assume eq: "mix a = mix b"
  define f where "f v = (v XOR drop_bit 30 v) * 0xbf58476d1ce4e5b9" for v :: u64
  define g where "g v = (v XOR drop_bit 27 v) * 0x94d049bb133111eb" for v :: u64
  have mix: "mix v = g (f v) XOR drop_bit 31 (g (f v))" for v
    by (simp only: mix_def Let_def f_def g_def)
  have "g (f a) = g (f b)" using xorshift_inj [of 31] eq unfolding mix by simp
  then have "f a = f b"
    unfolding g_def by (rule xorshift_inj [of 27, OF _ mult_unit_inj [OF mix_multipliers(2)], rotated]) simp
  then show "a = b"
    unfolding f_def by (rule xorshift_inj [of 30, OF _ mult_unit_inj [OF mix_multipliers(1)], rotated]) simp
qed simp

lemma mix_0: "mix v = 0 \<longleftrightarrow> v = 0"
  using mix_inj [of v 0] by (simp add: mix_def)

lemma nonzero_neq_0 [simp]: "nonzero v \<noteq> 0"
  by (simp add: nonzero_def)

text \<open>Two mixed and zero-corrected values collide only where the correction is applied.\<close>

lemma nonzero_mix_collision:
  assumes "nonzero (mix a) = nonzero (mix b)" "a \<noteq> b"
  shows "(a = 0 \<or> b = 0) \<and> nonzero (mix a) = 1"
  using assms mix_inj [of a b] mix_0 [of a] mix_0 [of b] by (auto simp: nonzero_def split: if_splits)

section \<open>The contract of a choice source\<close>

text \<open>
  A choice source picks one of the candidates whenever there is one. The bound is the
  range of \<open>usize\<close>.
\<close>

locale choice_source =
  fixes pick :: ChoiceSource
  assumes pick_none: "pick seed dec 0 = None"
    and pick_some: "0 < n \<Longrightarrow> n < 2 ^ 64 \<Longrightarrow> \<exists>i < n. pick seed dec n = Some i"
begin

lemma pick_nth:
  assumes "xs \<noteq> []" "length xs < 2 ^ 64"
  shows "\<exists>i x. pick seed dec (length xs) = Some i \<and> get_nth xs i = Some x \<and> x \<in> set xs"
  using pick_some [of "length xs" seed dec] assms by (auto simp: get_nth_def)

lemma pick_in_range: "pick seed dec n = Some i \<Longrightarrow> n < 2 ^ 64 \<Longrightarrow> i < n"
  using pick_none pick_some [of n seed dec] by (cases "n = 0") auto

end

interpretation stable: choice_source stable_choose
proof
  show "stable_choose seed dec 0 = None" for seed dec
    by (simp add: stable_choose_def)
  show "\<exists>i < n. stable_choose seed dec n = Some i" if "0 < n" "n < 2 ^ 64" for seed dec n
    using that by (simp add: stable_choose_def Let_def unat_mod_distrib unat_of_nat)
qed

end
