(* ===== verification/Planner_Themes.thy ===== *)
theory Planner_Themes
  imports Planner
begin

text \<open>
  Facts on the Theme policy of the planner: weighted choice gives every candidate its
  share of the cursor values, a sound configuration always yields a Theme it defines, and
  replacing the Theme catalogue keeps a configuration sound.
\<close>

section \<open>Weighted choice\<close>

definition weight_sum :: "WeightedThemeCandidate list \<Rightarrow> nat" where
  "weight_sum cs = sum_list (map (\<lambda>c. unat (candidate_weight c)) cs)"

lemma weight_sum_simps [simp]:
  "weight_sum [] = 0"
  "weight_sum (c # cs) = unat (candidate_weight c) + weight_sum cs"
  by (simp_all add: weight_sum_def)

lemma total_weight_eq:
  "a < 2 ^ 64 \<Longrightarrow>
   total_weight a cs = (if a + weight_sum cs < 2 ^ 64 then Some (a + weight_sum cs) else None)"
  by (induction cs arbitrary: a) (auto simp: usize_checked_add_def)

lemma weighted_pick_Some: "cursor < weight_sum cs \<Longrightarrow> \<exists>t. weighted_pick cursor cs = Some t"
  by (induction cs arbitrary: cursor) (auto simp: Let_def)

lemma weighted_pick_in:
  "weighted_pick cursor cs = Some t \<Longrightarrow>
   \<exists>c \<in> set cs. candidate_theme_id c = t \<and> candidate_weight c \<noteq> 0"
  by (induction cs arbitrary: cursor) (auto simp: Let_def unat_eq_0 split: if_splits)

lemma weighted_pick_Cons_set:
  "{k. k < weight_sum (c # cs) \<and> weighted_pick k (c # cs) = Some t}
     = (if candidate_theme_id c = t then {k. k < unat (candidate_weight c)} else {})
       \<union> (\<lambda>k. k + unat (candidate_weight c)) ` {k. k < weight_sum cs \<and> weighted_pick k cs = Some t}"
  (is "?l = ?a \<union> ?b")
proof (rule set_eqI)
  fix k
  show "k \<in> ?l \<longleftrightarrow> k \<in> ?a \<union> ?b"
  proof (cases "k < unat (candidate_weight c)")
    case True
    then show ?thesis by (auto simp: Let_def)
  next
    case False
    then have "k \<in> ?l \<longleftrightarrow> k - unat (candidate_weight c) < weight_sum cs
        \<and> weighted_pick (k - unat (candidate_weight c)) cs = Some t"
      by (auto simp: Let_def)
    moreover have "k \<in> ?b \<longleftrightarrow> k - unat (candidate_weight c) < weight_sum cs
        \<and> weighted_pick (k - unat (candidate_weight c)) cs = Some t"
      using False by (auto simp: image_iff intro: exI [of _ "k - unat (candidate_weight c)"])
    ultimately show ?thesis using False by auto
  qed
qed

lemma weighted_pick_share:
  "card {k. k < weight_sum cs \<and> weighted_pick k cs = Some t}
     = weight_sum (filter (\<lambda>c. candidate_theme_id c = t) cs)"
proof (induction cs)
  case (Cons c cs)
  let ?w = "unat (candidate_weight c)"
  let ?r = "{k. k < weight_sum cs \<and> weighted_pick k cs = Some t}"
  have "card ((\<lambda>k. k + ?w) ` ?r) = card ?r" by (simp add: card_image)
  moreover have "{k. k < ?w} \<inter> (\<lambda>k. k + ?w) ` ?r = {}" by auto
  ultimately show ?case
    using Cons unfolding weighted_pick_Cons_set by (simp add: card_Un_disjoint)
qed simp

lemma weighted_choice_in:
  "weighted_choice pl seed dec cs = Inr t \<Longrightarrow>
   \<exists>c \<in> set cs. candidate_theme_id c = t \<and> candidate_weight c \<noteq> 0"
  using weighted_pick_in by (auto simp: weighted_choice_def result_simps)

lemma weighted_choice_total:
  assumes "choice_source (planner_choose pl)" "0 < weight_sum cs" "weight_sum cs < 2 ^ 64"
  shows "\<exists>t. weighted_choice pl seed dec cs = Inr t"
proof -
  obtain i where i: "i < weight_sum cs" "planner_choose pl seed dec (weight_sum cs) = Some i"
    using choice_source.pick_some [OF assms] by blast
  then obtain t where "weighted_pick i cs = Some t" using weighted_pick_Some by blast
  with i assms(3) show ?thesis
    using total_weight_eq [of 0 cs] by (auto simp: weighted_choice_def result_simps)
qed

section \<open>Sound configurations\<close>

definition theme_ids :: "PlanningConfiguration \<Rightarrow> ThemeId set" where
  "theme_ids c = theme_def_id ` set (config_themes c)"

definition color_rule_ok :: "ThemeId set \<Rightarrow> ThemeColorRule \<Rightarrow> bool" where
  "color_rule_ok ids rule \<longleftrightarrow>
     candidate_theme_id ` set (rule_candidates rule) \<subseteq> ids
   \<and> (\<exists>k \<in> set (rule_candidates rule). candidate_weight k \<noteq> 0)
   \<and> (rule_mode rule = ThemeColorRuleMode.Prefer \<longrightarrow>
        (\<forall>k \<in> set (rule_candidates rule). candidate_weight k \<noteq> 0))
   \<and> weight_sum (rule_candidates rule) < 2 ^ 64"

definition themes_named :: "PlanningConfiguration \<Rightarrow> bool" where
  "themes_named c \<longleftrightarrow> (\<forall>t \<in> set (config_themes c). \<not> blank (theme_def_name t))"

definition theme_references_ok :: "PlanningConfiguration \<Rightarrow> bool" where
  "theme_references_ok c \<longleftrightarrow>
     config_default_theme_id c \<in> theme_ids c
   \<and> (\<forall>t. config_global_theme_lock c = Some t \<longrightarrow> t \<in> theme_ids c)
   \<and> (\<forall>rule \<in> set (config_color_rules c). color_rule_ok (theme_ids c) rule)
   \<and> selection_theme_id ` set (config_theme_selection_rules c) \<subseteq> theme_ids c"

text \<open>Lists that fit a \<open>Vec\<close>: a policy rule weighs at most \<open>u16::MAX\<close>.\<close>

definition catalog_bounded :: "PlanningConfiguration \<Rightarrow> bool" where
  "catalog_bounded c \<longleftrightarrow> length (config_themes c) < 2 ^ 64 \<and> length (config_scenes c) < 2 ^ 64
     \<and> length (config_theme_selection_rules c) < 2 ^ 48"

definition scenes_ok :: "PlanningConfiguration \<Rightarrow> bool" where
  "scenes_ok c \<longleftrightarrow> (\<forall>s \<in> set (config_scenes c). \<not> blank (scene_def_name s))
     \<and> {Ambient, Groove, SceneCategory.Build, Impact, Break} \<subseteq> scene_def_category ` set (config_scenes c)"

definition config_ok :: "PlanningConfiguration \<Rightarrow> bool" where
  "config_ok c \<longleftrightarrow> config_revision c \<noteq> 0 \<and> themes_named c \<and> theme_references_ok c
     \<and> catalog_bounded c \<and> scenes_ok c"

definition planner_ok :: "DeterministicPlanner \<Rightarrow> bool" where
  "planner_ok pl \<longleftrightarrow> config_ok (planner_configuration pl) \<and> choice_source (planner_choose pl)"

lemma epic_one_ok: "planner_ok epic_one"
proof -
  have "themes_named epic_one_configuration" "theme_references_ok epic_one_configuration"
    "catalog_bounded epic_one_configuration" "scenes_ok epic_one_configuration"
    by (simp_all add: themes_named_def theme_references_ok_def catalog_bounded_def scenes_ok_def
        epic_one_configuration_def theme_ids_def color_rule_ok_def scene_def blank_def
        ascii_white_space_def white_space2_def white_space3_def)
  moreover have "config_revision epic_one_configuration \<noteq> 0"
    by (simp add: epic_one_configuration_def)
  ultimately show ?thesis
    using stable.choice_source_axioms by (simp add: planner_ok_def config_ok_def epic_one_def)
qed

section \<open>Theme decisions\<close>

text \<open>A decision that names a Theme of the catalogue.\<close>

definition names_theme :: "DeterministicPlanner \<Rightarrow> ThemeDecision \<Rightarrow> bool" where
  "names_theme pl d \<longleftrightarrow>
     (\<exists>th. planner_theme pl (decision_theme_id d) = Some th
         \<and> theme_def_id th = decision_theme_id d \<and> theme_def_name th = decision_theme_name d
         \<and> \<not> blank (theme_def_name th))"

lemma planner_theme_SomeD:
  "planner_theme pl t = Some th \<Longrightarrow>
   theme_def_id th = t \<and> th \<in> set (config_themes (planner_configuration pl))"
  by (auto simp: planner_theme_def find_Some_iff)

lemma planner_theme_Some:
  assumes "t \<in> theme_ids (planner_configuration pl)"
  shows "\<exists>th. planner_theme pl t = Some th"
  using assms by (auto simp: planner_theme_def theme_ids_def find_None_iff simp del: not_None_eq
      simp add: not_None_eq [symmetric])

lemma planner_decision_Inr:
  "planner_decision pl t reason color = Inr d \<longleftrightarrow>
     names_theme pl d \<and> decision_theme_id d = t \<and> decision_reason d = reason
     \<and> decision_matched_color d = color"
  by (cases d)
     (auto simp: planner_decision_def result_simps try_new_theme_decision_def names_theme_def
        dest: planner_theme_SomeD split: if_splits)

lemma names_theme_in: "names_theme pl d \<Longrightarrow> decision_theme_id d \<in> theme_ids (planner_configuration pl)"
  by (metis imageI names_theme_def planner_theme_SomeD theme_ids_def)

lemma planner_decision_total:
  assumes "themes_named (planner_configuration pl)" "t \<in> theme_ids (planner_configuration pl)"
  shows "\<exists>d. planner_decision pl t reason color = Inr d"
proof -
  obtain th where th: "planner_theme pl t = Some th" using planner_theme_Some assms(2) by blast
  then have "\<not> blank (theme_def_name th)"
    using assms(1) planner_theme_SomeD by (auto simp: themes_named_def)
  with th show ?thesis
    by (simp add: planner_decision_def result_simps try_new_theme_decision_def)
qed

section \<open>Which Theme is selected\<close>

text \<open>Weights of the candidates that remain after the recent Themes are removed.\<close>

lemma weight_sum_pos: "k \<in> set cs \<Longrightarrow> candidate_weight k \<noteq> 0 \<Longrightarrow> 0 < weight_sum cs"
  by (induction cs) (auto simp: unat_gt_0)

lemma weight_sum_filter_le: "weight_sum (filter P cs) \<le> weight_sum cs"
  by (induction cs) auto

lemma without_recent_weights:
  assumes "without_recent cs recent \<noteq> []" "\<forall>k \<in> set cs. candidate_weight k \<noteq> 0"
    "weight_sum cs < 2 ^ 64"
  shows "0 < weight_sum (without_recent cs recent)" "weight_sum (without_recent cs recent) < 2 ^ 64"
proof -
  obtain k where "k \<in> set (without_recent cs recent)"
    using assms(1) by (meson list.set_sel(1))
  then show "0 < weight_sum (without_recent cs recent)"
    using assms(2) weight_sum_pos by (auto simp: without_recent_def)
  show "weight_sum (without_recent cs recent) < 2 ^ 64"
    using weight_sum_filter_le assms(3) le_less_trans unfolding without_recent_def by blast
qed

text \<open>A choice between candidates that are all in the catalogue gives a decision.\<close>

lemma choice_decision_total:
  assumes pl: "planner_ok pl" and "0 < weight_sum cs" "weight_sum cs < 2 ^ 64"
    and "candidate_theme_id ` set cs \<subseteq> theme_ids (planner_configuration pl)"
  shows "\<exists>d. and_then (weighted_choice pl seed dec cs)
                (\<lambda>t. planner_decision pl t reason color) = Inr d"
proof -
  obtain t where t: "weighted_choice pl seed dec cs = Inr t"
    using weighted_choice_total assms unfolding planner_ok_def by blast
  then have "t \<in> theme_ids (planner_configuration pl)"
    using weighted_choice_in assms(4) by blast
  then obtain d where "planner_decision pl t reason color = Inr d"
    using planner_decision_total pl unfolding planner_ok_def config_ok_def by blast
  with t show ?thesis by simp
qed

lemma color_rule_theme_total:
  assumes pl: "planner_ok pl" and r: "color_rule_theme pl seed context color mode = Some r"
  shows "\<exists>d. r = Inr d"
proof -
  let ?find = "find (\<lambda>rule. rule_color rule = color \<and> rule_mode rule = mode)
    (config_color_rules (planner_configuration pl))"
  obtain rule where find: "?find = Some rule"
    using r by (auto simp: color_rule_theme_def)
  then have rule: "rule \<in> set (config_color_rules (planner_configuration pl))" "rule_mode rule = mode"
    by (auto dest: find_SomeD)
  have ok: "color_rule_ok (theme_ids (planner_configuration pl)) rule"
    using pl rule by (simp add: planner_ok_def config_ok_def theme_references_ok_def)
  let ?fresh = "without_recent (rule_candidates rule) (recent_theme_ids context)"
  have all: "0 < weight_sum (rule_candidates rule)" "weight_sum (rule_candidates rule) < 2 ^ 64"
      "candidate_theme_id ` set (rule_candidates rule) \<subseteq> theme_ids (planner_configuration pl)"
    using ok weight_sum_pos by (auto simp: color_rule_ok_def)
  have some: "0 < weight_sum ?fresh" "weight_sum ?fresh < 2 ^ 64"
      "candidate_theme_id ` set ?fresh \<subseteq> theme_ids (planner_configuration pl)"
    if "mode = ThemeColorRuleMode.Prefer" "?fresh \<noteq> []"
    using ok without_recent_weights [of "rule_candidates rule" "recent_theme_ids context"] rule(2) that
    by (auto simp: color_rule_ok_def without_recent_def)
  show ?thesis
    using r [unfolded color_rule_theme_def find option.map option.inject, symmetric]
      choice_decision_total [OF pl all] choice_decision_total [OF pl some]
    by (cases "mode = ThemeColorRuleMode.Prefer"; cases "?fresh = []") (auto simp: Let_def)
qed

lemma rotation_or_default_total:
  assumes pl: "planner_ok pl"
  shows "\<exists>d. rotation_or_default pl seed context = Inr d"
proof -
  let ?c = "planner_configuration pl" and ?rc = "rotation_candidates pl context"
  have dec: "\<exists>d. planner_decision pl t reason color = Inr d" if "t \<in> theme_ids ?c" for t reason color
    using planner_decision_total that pl by (simp add: planner_ok_def config_ok_def)
  have default: "\<exists>d. planner_decision pl (config_default_theme_id ?c) DefaultTheme None = Inr d"
    using dec pl by (simp add: planner_ok_def config_ok_def theme_references_ok_def)
  show ?thesis
  proof (cases "recent_theme_ids context = [] \<or> ?rc = []")
    case True
    then show ?thesis
      using default pl by (auto simp: rotation_or_default_def Let_def planner_ok_def choice_source.pick_none)
  next
    case False
    have "length ?rc < 2 ^ 64"
      using pl length_filter_le le_less_trans
      unfolding rotation_candidates_def planner_ok_def config_ok_def catalog_bounded_def by blast
    then obtain i x where i: "planner_choose pl seed THEME_KEY (length ?rc) = Some i"
        "get_nth ?rc i = Some x" "x \<in> set ?rc"
      using choice_source.pick_nth [of "planner_choose pl" ?rc seed THEME_KEY] pl False
      unfolding planner_ok_def by blast
    then obtain d where "planner_decision pl (theme_def_id x) Rotation None = Inr d"
      using dec [of "theme_def_id x"] by (auto simp: rotation_candidates_def theme_ids_def)
    with i False show ?thesis by (simp add: rotation_or_default_def)
  qed
qed

lemma policy_candidates_ok:
  assumes pl: "planner_ok pl" and ne: "policy_candidates pl track \<noteq> []"
  shows "0 < weight_sum (policy_candidates pl track)"
    "weight_sum (policy_candidates pl track) < 2 ^ 64"
    "\<forall>k \<in> set (policy_candidates pl track). candidate_weight k \<noteq> 0"
    "candidate_theme_id ` set (policy_candidates pl track) \<subseteq> theme_ids (planner_configuration pl)"
proof -
  let ?cs = "policy_candidates pl track"
  show pos: "\<forall>k \<in> set ?cs. candidate_weight k \<noteq> 0"
    by (auto simp: policy_candidates_def rule_weight_def max_def split: if_splits)
  then show "0 < weight_sum ?cs" using weight_sum_pos ne by (meson list.set_sel(1))
  have bound: "weight_sum cs \<le> length cs * 65535" for cs
  proof (induction cs)
    case (Cons c cs)
    have "unat (candidate_weight c) < 2 ^ 16" using unsigned_less [of "candidate_weight c"] by simp
    with Cons show ?case by simp
  qed simp
  have "length ?cs \<le> length (config_theme_selection_rules (planner_configuration pl))"
    by (auto simp: policy_candidates_def eligible_rules_def only_matches_def)
  then have "length ?cs < 2 ^ 48"
    using pl by (auto simp: planner_ok_def config_ok_def catalog_bounded_def)
  with bound [of ?cs] show "weight_sum ?cs < 2 ^ 64" by simp
  show "candidate_theme_id ` set ?cs \<subseteq> theme_ids (planner_configuration pl)"
    using pl by (auto simp: planner_ok_def config_ok_def theme_references_ok_def policy_candidates_def
        eligible_rules_def only_matches_def split: if_splits)
qed

lemma select_policy_theme_total:
  assumes pl: "planner_ok pl" and ne: "policy_candidates pl track \<noteq> []"
  shows "\<exists>d. select_policy_theme pl track seed context = Inr d"
proof -
  let ?cs = "policy_candidates pl track" and ?c = "planner_configuration pl"
  let ?fresh = "without_recent ?cs (recent_theme_ids context)"
  note cs = policy_candidates_ok [OF pl ne]
  have fresh: "0 < weight_sum ?fresh" "weight_sum ?fresh < 2 ^ 64"
      "candidate_theme_id ` set ?fresh \<subseteq> theme_ids ?c" if "?fresh \<noteq> []"
    using without_recent_weights [OF that cs(3,2)] cs(4) by (auto simp: without_recent_def)
  have "\<exists>d. planner_decision pl (config_default_theme_id ?c) DefaultTheme None = Inr d"
    using planner_decision_total pl
    by (simp add: planner_ok_def config_ok_def theme_references_ok_def)
  then show ?thesis
    using ne choice_decision_total [OF pl cs(1,2,4)] choice_decision_total [OF pl fresh]
    by (cases "?fresh = []") (auto simp: select_policy_theme_def Let_def)
qed

lemma select_initial_theme_total:
  assumes pl: "planner_ok pl"
    and ne: "config_global_theme_lock (planner_configuration pl) = None \<Longrightarrow>
      config_theme_selection_rules (planner_configuration pl) \<noteq> [] \<Longrightarrow> eligible_rules pl track \<noteq> []"
  shows "\<exists>d. select_initial_theme pl track seed context = Inr d"
proof (cases "config_global_theme_lock (planner_configuration pl)")
  case (Some t)
  then have "t \<in> theme_ids (planner_configuration pl)"
    using pl by (simp add: planner_ok_def config_ok_def theme_references_ok_def)
  then show ?thesis
    using Some pl planner_decision_total by (auto simp: select_initial_theme_def planner_ok_def config_ok_def)
next
  case None
  show ?thesis
  proof (cases "config_theme_selection_rules (planner_configuration pl) = []")
    case True
    let ?r = "Option.bind (ptrack_color track) (\<lambda>color.
      find_map (color_rule_theme pl seed context color) [Force, ThemeColorRuleMode.Prefer])"
    have "\<exists>d. r = Inr d" if "?r = Some r" for r
      using that color_rule_theme_total [OF pl] by (auto simp: bind_eq_Some_conv split: option.splits)
    then show ?thesis
      using None True rotation_or_default_total [OF pl]
      by (cases ?r) (simp_all add: select_initial_theme_def)
  next
    case False
    then show ?thesis
      using None ne select_policy_theme_total [OF pl]
      by (simp add: select_initial_theme_def policy_candidates_def)
  qed
qed

lemma color_rule_theme_names:
  "color_rule_theme pl seed context color mode = Some (Inr d) \<Longrightarrow> names_theme pl d"
  by (auto simp: color_rule_theme_def Let_def result_simps planner_decision_Inr)

lemma rotation_or_default_names: "rotation_or_default pl seed context = Inr d \<Longrightarrow> names_theme pl d"
  by (auto simp: rotation_or_default_def Let_def result_simps planner_decision_Inr
      split: if_splits option.splits)

lemma select_policy_theme_names: "select_policy_theme pl track seed context = Inr d \<Longrightarrow> names_theme pl d"
  by (auto simp: select_policy_theme_def Let_def result_simps planner_decision_Inr split: if_splits)

lemma select_initial_theme_names:
  "select_initial_theme pl track seed context = Inr d \<Longrightarrow> names_theme pl d"
  by (auto simp: select_initial_theme_def planner_decision_Inr bind_eq_Some_conv
      split: option.splits if_splits dest!: find_map_Some
      dest: color_rule_theme_names rotation_or_default_names select_policy_theme_names)

section \<open>Properties\<close>

text \<open>
  Weighted choice is fair: the total the loop computes is the sum of the weights (or
  none where it leaves \<open>usize\<close>), and among the cursor values below it, exactly as many
  select a Theme as the weights of its candidates add up to.
\<close>

theorem weighted_choice_is_fair:
  "total_weight 0 cs = (if weight_sum cs < 2 ^ 64 then Some (weight_sum cs) else None)
   \<and> card {k. k < weight_sum cs \<and> weighted_pick k cs = Some t}
       = weight_sum (filter (\<lambda>c. candidate_theme_id c = t) cs)"
  using total_weight_eq [of 0 cs] weighted_pick_share [of cs t] by simp

text \<open>
  On a sound configuration Theme selection has one way to fail: the policy rules are
  in use (no global lock, at least one rule) and none is eligible for the track.
  Otherwise it decides on a Theme of the catalogue, under the catalogue's name.
\<close>

theorem theme_selection_fails_iff:
  assumes "planner_ok pl"
  shows "case select_initial_theme pl track seed context of
      Inl e \<Rightarrow> e = NoEligibleTheme \<and> config_global_theme_lock (planner_configuration pl) = None
        \<and> config_theme_selection_rules (planner_configuration pl) \<noteq> [] \<and> eligible_rules pl track = []
    | Inr d \<Rightarrow> names_theme pl d \<and> decision_theme_id d \<in> theme_ids (planner_configuration pl)"
proof (cases "select_initial_theme pl track seed context")
  case (Inl e)
  then have "config_global_theme_lock (planner_configuration pl) = None
      \<and> config_theme_selection_rules (planner_configuration pl) \<noteq> [] \<and> eligible_rules pl track = []"
    using select_initial_theme_total [OF assms, of track seed "context"] by auto
  with Inl show ?thesis
    by (auto simp: select_initial_theme_def select_policy_theme_def policy_candidates_def)
next
  case (Inr d)
  then have "names_theme pl d" by (rule select_initial_theme_names)
  then show ?thesis using Inr names_theme_in by simp
qed

lemma color_rule_not_rotation:
  "color_rule_theme pl seed context color mode = Some (Inr d) \<Longrightarrow> decision_reason d \<noteq> Rotation"
  by (auto simp: color_rule_theme_def Let_def result_simps planner_decision_Inr split: if_splits)

lemma rotation_not_recent:
  "rotation_or_default pl seed context = Inr d \<Longrightarrow> decision_reason d = Rotation \<longrightarrow>
   decision_theme_id d \<notin> set (recent_theme_ids context)"
  by (auto simp: rotation_or_default_def Let_def result_simps planner_decision_Inr
      rotation_candidates_def dest!: nth_mem split: if_splits option.splits)

lemma color_rule_force:
  assumes "color_rule_theme pl seed context color Force = Some (Inr d)"
    and "find (\<lambda>r. rule_color r = color \<and> rule_mode r = Force)
           (config_color_rules (planner_configuration pl)) = Some rule"
  shows "decision_reason d = ColorForce \<and> (\<exists>k \<in> set (rule_candidates rule).
    candidate_theme_id k = decision_theme_id d \<and> candidate_weight k \<noteq> 0)"
  using assms weighted_choice_in
  by (auto simp: color_rule_theme_def Let_def result_simps planner_decision_Inr)

lemma color_rule_None:
  "color_rule_theme pl seed context color Force = None \<longleftrightarrow>
     find (\<lambda>r. rule_color r = color \<and> rule_mode r = Force)
       (config_color_rules (planner_configuration pl)) = None"
  by (simp add: color_rule_theme_def)

lemma policy_theme_from_rule:
  assumes "select_policy_theme pl track seed context = Inr d"
  shows "\<exists>rule \<in> set (eligible_rules pl track). selection_theme_id rule = decision_theme_id d"
proof -
  let ?cs = "policy_candidates pl track"
  have "\<exists>c \<in> set ?cs. candidate_theme_id c = decision_theme_id d"
    using assms weighted_choice_in
    by (fastforce simp: select_policy_theme_def Let_def result_simps planner_decision_Inr list_ex_iff
        without_recent_def split: if_splits)
  then show ?thesis by (auto simp: policy_candidates_def)
qed

text \<open>
  The order in which the policy looks for a Theme. A global lock decides alone. With
  policy rules, the Theme is that of an enabled rule; when a colour-only rule matches the
  track's colour it is one that does, and otherwise no colour-only rule is used. Without
  rules, a forced colour rule decides before all others, with one of its weighted
  candidates; and a Theme chosen by rotation is not a recent one.
\<close>

theorem theme_priority:
  assumes sel: "select_initial_theme pl track seed context = Inr d"
  shows "case config_global_theme_lock (planner_configuration pl) of
      Some t \<Rightarrow> decision_theme_id d = t \<and> decision_reason d = GlobalLock
    | None \<Rightarrow>
        if config_theme_selection_rules (planner_configuration pl) \<noteq> [] then
          (\<exists>rule \<in> set (config_theme_selection_rules (planner_configuration pl)).
             selection_theme_id rule = decision_theme_id d \<and> selection_enabled rule
             \<and> (if only_matches pl track \<noteq> []
                 then selection_color_behavior rule = Only \<and> matches_color track rule
                 else selection_color_behavior rule \<noteq> Only))
        else
          (\<forall>color rule. ptrack_color track = Some color \<longrightarrow>
             find (\<lambda>r. rule_color r = color \<and> rule_mode r = Force)
               (config_color_rules (planner_configuration pl)) = Some rule \<longrightarrow>
             decision_reason d = ColorForce
             \<and> (\<exists>k \<in> set (rule_candidates rule).
                   candidate_theme_id k = decision_theme_id d \<and> candidate_weight k \<noteq> 0))
        \<and> (decision_reason d = Rotation \<longrightarrow> decision_theme_id d \<notin> set (recent_theme_ids context))"
proof (cases "config_global_theme_lock (planner_configuration pl)")
  case (Some t)
  then show ?thesis using sel by (simp add: select_initial_theme_def planner_decision_Inr)
next
  case None
  show ?thesis
  proof (cases "config_theme_selection_rules (planner_configuration pl) = []")
    case False
    then have "select_policy_theme pl track seed context = Inr d"
      using sel None by (simp add: select_initial_theme_def)
    from policy_theme_from_rule [OF this] show ?thesis
      using None False by (auto simp: eligible_rules_def only_matches_def split: if_splits)
  next
    case True
    have sel': "(case Option.bind (ptrack_color track) (\<lambda>color.
                find_map (color_rule_theme pl seed context color) [Force, ThemeColorRuleMode.Prefer]) of
                Some r \<Rightarrow> r | None \<Rightarrow> rotation_or_default pl seed context) = Inr d"
      using sel None True by (simp add: select_initial_theme_def)
    show ?thesis
    proof (cases "ptrack_color track")
      case (Some color)
      then show ?thesis
        using sel' True color_rule_force [of pl seed "context" color] color_rule_not_rotation [of pl seed "context" color]
          rotation_not_recent [of pl seed "context"] color_rule_None [of pl seed "context" color]
          \<open>config_global_theme_lock _ = None\<close>
        by (cases "color_rule_theme pl seed context color Force";
            cases "color_rule_theme pl seed context color ThemeColorRuleMode.Prefer") auto
    qed (use sel' True rotation_not_recent [of pl seed "context"] \<open>config_global_theme_lock _ = None\<close> in auto)
  qed
qed

lemma with_themes_color_rule_ok:
  assumes "color_rule_ok (theme_ids c) rule"
    and "\<exists>k \<in> set (rule_candidates rule). candidate_theme_id k \<in> ids \<and> candidate_weight k \<noteq> 0"
  shows "color_rule_ok ids (rule\<lparr>rule_candidates :=
    filter (\<lambda>k. candidate_theme_id k \<in> ids) (rule_candidates rule)\<rparr>)"
proof -
  have "weight_sum (filter (\<lambda>k. candidate_theme_id k \<in> ids) (rule_candidates rule)) < 2 ^ 64"
    using assms(1) weight_sum_filter_le le_less_trans unfolding color_rule_ok_def by blast
  then show ?thesis using assms by (auto simp: color_rule_ok_def)
qed

lemma with_themes_references:
  assumes "theme_references_ok c" "themes \<noteq> []"
  shows "theme_references_ok (with_themes c revision themes)"
proof -
  let ?c = "with_themes c revision themes" and ?ids = "theme_option_id ` set themes"
  have ids: "theme_ids ?c = ?ids"
    by (auto simp: theme_ids_def with_themes_def Let_def image_image)
  have default: "config_default_theme_id ?c \<in> ?ids"
    using assms(2) by (cases themes) (auto simp: with_themes_def Let_def)
  have lock: "config_global_theme_lock ?c = Some t \<longrightarrow> t \<in> ?ids" for t
    by (auto simp: with_themes_def Let_def split: option.splits if_splits)
  have colors: "color_rule_ok ?ids rule" if rule_in: "rule \<in> set (config_color_rules ?c)" for rule
  proof -
    obtain old where old: "old \<in> set (config_color_rules c)"
        "\<exists>k \<in> set (rule_candidates old). candidate_theme_id k \<in> ?ids \<and> candidate_weight k \<noteq> 0"
      and rule: "rule = old\<lparr>rule_candidates :=
        filter (\<lambda>k. candidate_theme_id k \<in> ?ids) (rule_candidates old)\<rparr>"
      using rule_in unfolding with_themes_def Let_def list_ex_iff word_neq_0_conv by fastforce
    from old(1) have "color_rule_ok (theme_ids c) old"
      using assms(1) by (simp add: theme_references_ok_def)
    then show ?thesis unfolding rule using old(2) by (rule with_themes_color_rule_ok)
  qed
  have policy: "selection_theme_id ` set (config_theme_selection_rules ?c) \<subseteq> ?ids"
    by (auto simp: with_themes_def Let_def)
  show ?thesis
    unfolding theme_references_ok_def ids using default lock colors policy by blast
qed

text \<open>
  Replacing the Theme catalogue keeps a configuration sound: every Theme the lock,
  the default and the rules still refer to is in the new catalogue. A lock and a default
  that the new catalogue has are kept.
\<close>

theorem with_themes_keeps_sound:
  assumes "config_ok c" "revision \<noteq> 0" "themes \<noteq> []" "length themes < 2 ^ 64"
    and "\<forall>t \<in> set themes. \<not> blank (theme_option_name t)"
  shows "config_ok (with_themes c revision themes)
    \<and> (\<forall>t. config_global_theme_lock c = Some t \<longrightarrow>
         config_global_theme_lock (with_themes c revision themes)
           = (if t \<in> theme_option_id ` set themes then Some t else None))
    \<and> (config_default_theme_id c \<in> theme_option_id ` set themes \<longrightarrow>
         config_default_theme_id (with_themes c revision themes) = config_default_theme_id c)"
proof -
  let ?c = "with_themes c revision themes"
  have "length (config_theme_selection_rules ?c) \<le> length (config_theme_selection_rules c)"
    by (simp add: with_themes_def Let_def)
  moreover have "config_scenes ?c = config_scenes c" "length (config_themes ?c) = length themes"
    by (simp_all add: with_themes_def Let_def)
  ultimately have "catalog_bounded ?c" using assms(1,4)
    by (simp add: config_ok_def catalog_bounded_def)
  moreover have "config_revision ?c \<noteq> 0" "themes_named ?c" "scenes_ok ?c"
    using assms by (simp_all add: config_ok_def themes_named_def scenes_ok_def with_themes_def Let_def)
  moreover have "theme_references_ok ?c"
    using with_themes_references assms by (simp add: config_ok_def)
  ultimately have "config_ok ?c" by (simp add: config_ok_def)
  then show ?thesis by (auto simp: with_themes_def Let_def)
qed

section \<open>Witnesses\<close>

definition demo_color_track :: PlannerTrack where
  "demo_color_track = with_analysis_and_color 7 64 (new_color 187 72 126) []"

theorem theme_selection_fails_iff_witness:
  "planner_ok epic_one
   \<and> (case select_initial_theme epic_one demo_color_track 5 default_selection_context of
       Inl e \<Rightarrow> False
     | Inr d \<Rightarrow> names_theme epic_one d \<and> decision_theme_id d \<in> {1, 2, 3, 4})"
  using theme_selection_fails_iff [OF epic_one_ok, of demo_color_track 5 default_selection_context]
    epic_one_ok
  by (auto simp: epic_one_def epic_one_configuration_def theme_ids_def split: sum.splits)

lemma demo_color_choice:
  "select_initial_theme epic_one demo_color_track 5 default_selection_context
     = Inr \<lparr>decision_theme_id = 4, decision_theme_name = ''Ultraviolet'',
            decision_reason = ColorForce, decision_matched_color = Some 0xbb487e\<rparr>"
  by (simp add: select_initial_theme_def epic_one_def epic_one_configuration_def demo_color_track_def
      with_analysis_and_color_def color_rule_theme_def weighted_choice_def usize_checked_add_def
      stable_choose_def Let_def planner_decision_def planner_theme_def try_new_theme_decision_def
      new_color_def rgb_u32_def blank_def ascii_white_space_def white_space2_def white_space3_def)

theorem theme_priority_witness:
  "decision_reason \<lparr>decision_theme_id = 4, decision_theme_name = ''Ultraviolet'',
            decision_reason = ColorForce, decision_matched_color = Some 0xbb487e\<rparr> = ColorForce
   \<and> (\<exists>k \<in> set (rule_candidates (hd (config_color_rules epic_one_configuration))).
        candidate_theme_id k = 4 \<and> candidate_weight k \<noteq> 0)"
  using theme_priority [OF demo_color_choice]
  by (simp add: epic_one_def epic_one_configuration_def demo_color_track_def with_analysis_and_color_def)

theorem with_themes_keeps_sound_witness:
  "config_ok epic_one_configuration
   \<and> config_ok (with_themes epic_one_configuration 2 [\<lparr>theme_option_id = 9, theme_option_name = ''Nine''\<rparr>])
   \<and> config_default_theme_id
       (with_themes epic_one_configuration 2 [\<lparr>theme_option_id = 9, theme_option_name = ''Nine''\<rparr>]) = 9"
proof -
  have ok: "config_ok epic_one_configuration"
    using epic_one_ok by (simp add: planner_ok_def epic_one_def)
  have "\<not> blank ''Nine''" by code_simp
  then have "config_ok (with_themes epic_one_configuration 2
      [\<lparr>theme_option_id = 9, theme_option_name = ''Nine''\<rparr>])"
    using with_themes_keeps_sound [OF ok, of 2 "[\<lparr>theme_option_id = 9, theme_option_name = ''Nine''\<rparr>]"]
    by simp
  moreover have "config_default_theme_id
       (with_themes epic_one_configuration 2 [\<lparr>theme_option_id = 9, theme_option_name = ''Nine''\<rparr>]) = 9"
    by code_simp
  ultimately show ?thesis using ok by simp
qed

end
