(* ===== verification/Planner_Generation.thy ===== *)
theory Planner_Generation
  imports Planner_Themes
begin

text \<open>
  Facts on plan generation: the analysis check accepts exactly the tilings of the track,
  a generated plan gives each phrase one cue of its category under the decided Theme, and
  on a sound configuration generation fails for two reasons only.
\<close>

section \<open>The analysis check\<close>

lemma check_analysis_eq:
  "check_analysis d n b ps = Some e \<longleftrightarrow>
     indexed_from phrase_index n ps \<and> tiles phrase_start_beat phrase_end_beat b ps
   \<and> (\<forall>p \<in> set ps. phrase_end_beat p \<le> d) \<and> tiles_end phrase_end_beat b ps = e"
  by (induction ps arbitrary: n b) (auto simp: indexed_from_simps not_le)

lemma analysis_is_complete_iff:
  "analysis_is_complete ps d \<longleftrightarrow> ps \<noteq> [] \<and> indexed phrase_index ps
     \<and> tiles phrase_start_beat phrase_end_beat 0 ps \<and> tiles_end phrase_end_beat 0 ps = d"
proof -
  have "\<forall>p \<in> set ps. phrase_end_beat p \<le> d"
    if "tiles phrase_start_beat phrase_end_beat 0 ps" "tiles_end phrase_end_beat 0 ps = d"
    using that tiles_member by metis
  then show ?thesis by (auto simp: analysis_is_complete_def check_analysis_eq indexed_from_0)
qed

section \<open>Cues of phrases\<close>

text \<open>The cue that generation makes for a phrase, under the Theme of a decision.\<close>

definition cue_of_phrase ::
  "DeterministicPlanner \<Rightarrow> PlanId \<Rightarrow> ThemeDecision \<Rightarrow> TrackPhrase \<Rightarrow> LightingCue \<Rightarrow> bool" where
  "cue_of_phrase pl pid d p c \<longleftrightarrow>
     cue_id c = nonzero (mix (pid XOR phrase_decision p))
   \<and> cue_phrase_index c = phrase_index p
   \<and> cue_start_beat c = phrase_start_beat p \<and> cue_end_beat c = phrase_end_beat p
   \<and> cue_origin c = CueOrigin.Automatic \<and> \<not> cue_locked c
   \<and> cue_reason c = PhraseCategoryMatched (phrase_kind p) (category_for (phrase_kind p))
   \<and> (\<exists>s \<in> set (config_scenes (planner_configuration pl)).
        scene_def_category s = category_for (phrase_kind p)
      \<and> cue_action c = ApplyLook \<lparr>look_theme_id = decision_theme_id d,
          look_theme_name = decision_theme_name d, look_scene_id = scene_def_id s,
          look_scene_name = scene_def_name s, look_category = scene_def_category s,
          look_loop_selection = scene_def_loop_selection s\<rparr>)"

lemma xor_zero: "a XOR b = 0 \<longleftrightarrow> a = (b :: 'a::len word)"
proof
  assume eq: "a XOR b = 0"
  show "a = b"
  proof (rule bit_word_eqI)
    fix n
    have "\<not> bit (a XOR b) n" using eq by simp
    then show "bit a n = bit b n" by (auto simp: bit_xor_iff)
  qed
qed simp

lemma xor_left_cancel: "a XOR b = a XOR c \<longleftrightarrow> b = (c :: 'a::len word)"
proof
  assume "a XOR b = a XOR c"
  then have "a XOR (a XOR b) = a XOR (a XOR c)" by simp
  then show "b = c" by (simp add: xor.assoc [symmetric])
qed simp

lemma get_nth_member: "get_nth xs i = Some x \<Longrightarrow> x \<in> set xs"
  by (auto simp: get_nth_def split: if_splits)

lemma plan_phrase_Inr:
  assumes "plan_phrase pl seed pid th p = Inr c"
    and "theme_def_id th = decision_theme_id d" "theme_def_name th = decision_theme_name d"
  shows "cue_of_phrase pl pid d p c"
proof -
  let ?cs = "filter (\<lambda>s. scene_def_category s = category_for (phrase_kind p))
    (config_scenes (planner_configuration pl))"
  obtain i s look where "get_nth ?cs i = Some s"
    and look: "try_new_look (theme_def_id th) (theme_def_name th) (scene_def_id s)
      (scene_def_name s) (scene_def_category s) (scene_def_loop_selection s) = Inr look"
    and c: "c = new_cue (nonzero (mix (pid XOR phrase_decision p))) (phrase_index p)
      (phrase_start_beat p) (phrase_end_beat p) (ApplyLook look) CueOrigin.Automatic
      (PhraseCategoryMatched (phrase_kind p) (category_for (phrase_kind p)))"
    using assms(1) by (auto simp: plan_phrase_def Let_def and_then_eq_Inr ok_or_eq map_err_eq)
  then have "s \<in> set ?cs" by (meson get_nth_member)
  with look c assms(2,3) show ?thesis
    by (auto simp: cue_of_phrase_def new_cue_def try_new_look_def split: if_splits)
qed

lemma plan_phrase_total:
  assumes pl: "planner_ok pl" and th: "\<not> blank (theme_def_name th)"
  shows "\<exists>c. plan_phrase pl seed pid th p = Inr c"
proof -
  let ?cs = "filter (\<lambda>s. scene_def_category s = category_for (phrase_kind p))
    (config_scenes (planner_configuration pl))"
  have sc: "scenes_ok (planner_configuration pl)" using pl by (simp add: planner_ok_def config_ok_def)
  have "category_for (phrase_kind p) \<in> {Ambient, Groove, SceneCategory.Build, Impact, Break}"
    by (cases "phrase_kind p") simp_all
  then have "category_for (phrase_kind p) \<in> scene_def_category ` set (config_scenes (planner_configuration pl))"
    using sc unfolding scenes_ok_def by blast
  then have "?cs \<noteq> []" by (auto simp: filter_empty_conv)
  moreover have "length ?cs < 2 ^ 64"
    using pl length_filter_le le_less_trans
    unfolding planner_ok_def config_ok_def catalog_bounded_def by blast
  ultimately obtain i s where
    "planner_choose pl seed (phrase_decision p) (length ?cs) = Some i" "get_nth ?cs i = Some s" "s \<in> set ?cs"
    using choice_source.pick_nth [of "planner_choose pl" ?cs seed "phrase_decision p"] pl
    unfolding planner_ok_def by blast
  with sc th show ?thesis by (auto simp: plan_phrase_def Let_def try_new_look_def scenes_ok_def)
qed

lemma cue_of_phrase_geometry:
  assumes "list_all2 (cue_of_phrase pl pid d) ps cs"
  shows "map cue_phrase_index cs = map phrase_index ps"
    "map cue_start_beat cs = map phrase_start_beat ps"
    "map cue_end_beat cs = map phrase_end_beat ps"
    "map cue_id cs = map (\<lambda>p. nonzero (mix (pid XOR phrase_decision p))) ps"
    "\<not> has_fallback_cue cs"
  using assms by (induction) (auto simp: cue_of_phrase_def has_fallback_cue_def)

lemma unat_ucast_u16: "unat (ucast (w :: u16) :: u64) = unat w"
  using unsigned_less [of w, where ?'a = nat] by (simp add: unsigned_ucast_eq take_bit_nat_eq_self)

lemma unat_phrase_decision: "unat (phrase_decision p) = Suc (unat (phrase_index p))"
  using unsigned_less [of "phrase_index p", where ?'a = nat]
  by (simp add: phrase_decision_def unat_word_ariths unat_ucast_u16)

lemma phrase_decision_inj: "phrase_decision p = phrase_decision q \<longleftrightarrow> phrase_index p = phrase_index q"
  using unat_phrase_decision [of p] unat_phrase_decision [of q]
  by (metis nat.inject phrase_decision_def unsigned_word_eqI)

section \<open>Duplicate identifiers\<close>

lemma check_cues_duplicate:
  assumes "indexed_from cue_phrase_index n cs" "tiles cue_start_beat cue_end_beat b cs"
    and "check_cues seen b fb n cs = Inl e"
  shows "\<exists>i < length cs. e = DuplicateCueId (cue_id (cs ! i))
    \<and> (cue_id (cs ! i) \<in> seen \<or> (\<exists>j < i. cue_id (cs ! j) = cue_id (cs ! i)))"
  using assms
proof (induction cs arbitrary: seen b fb n)
  case (Cons c cs)
  show ?case
  proof (cases "cue_id c \<in> seen")
    case True
    with Cons.prems show ?thesis by (intro exI [of _ 0]) auto
  next
    case False
    let ?fb = "fb \<or> cue_origin c = CueOrigin.Fallback"
    have "indexed_from cue_phrase_index (Suc n) cs" "tiles cue_start_beat cue_end_beat (cue_end_beat c) cs"
      "check_cues (insert (cue_id c) seen) (cue_end_beat c) ?fb (Suc n) cs = Inl e"
      using Cons.prems False by (auto simp: indexed_from_simps not_le split: if_splits)
    from Cons.IH [OF this] obtain i where i: "i < length cs" "e = DuplicateCueId (cue_id (cs ! i))"
        "cue_id (cs ! i) \<in> insert (cue_id c) seen \<or> (\<exists>j < i. cue_id (cs ! j) = cue_id (cs ! i))"
      by blast
    from i(3) have "cue_id ((c # cs) ! Suc i) \<in> seen
        \<or> (\<exists>j < Suc i. cue_id ((c # cs) ! j) = cue_id ((c # cs) ! Suc i))"
      by (auto simp: Ex_less_Suc2)
    with i(1,2) show ?thesis by (intro exI [of _ "Suc i"]) simp
  qed
qed simp

lemma generated_ids_collide:
  assumes idx: "indexed phrase_index ps" and i: "i < length ps" and j: "j < length ps" and "i \<noteq> j"
    and eq: "nonzero (mix (pid XOR phrase_decision (ps ! i))) = nonzero (mix (pid XOR phrase_decision (ps ! j)))"
  shows "nonzero (mix (pid XOR phrase_decision (ps ! i))) = 1 \<and> unat pid \<le> length ps"
proof -
  have ix: "unat (phrase_index (ps ! k)) = k" if "k < length ps" for k
    using idx that by (simp add: indexed_def)
  then have "phrase_index (ps ! i) \<noteq> phrase_index (ps ! j)" using i j \<open>i \<noteq> j\<close> by metis
  then have "pid XOR phrase_decision (ps ! i) \<noteq> pid XOR phrase_decision (ps ! j)"
    using xor_left_cancel phrase_decision_inj by blast
  from nonzero_mix_collision [OF eq this]
  have one: "nonzero (mix (pid XOR phrase_decision (ps ! i))) = 1"
    and "pid = phrase_decision (ps ! i) \<or> pid = phrase_decision (ps ! j)"
    by (auto simp: xor_zero)
  moreover have "unat (phrase_decision (ps ! k)) \<le> length ps" if "k < length ps" for k
    using ix [OF that] that by (simp add: unat_phrase_decision)
  ultimately show ?thesis using i j by blast
qed

section \<open>What generation promises\<close>

text \<open>The phrases generation plans with, if the track has a complete analysis.\<close>

definition complete_phrases :: "PlannerTrack \<Rightarrow> TrackPhrase list option" where
  "complete_phrases track =
     (case ptrack_phrases track of
        Some ps \<Rightarrow> if analysis_is_complete ps (ptrack_duration_beats track) then Some ps else None
      | None \<Rightarrow> None)"

definition plan_header :: "DeterministicPlanner \<Rightarrow> PlanningInput \<Rightarrow> LightingPlan \<Rightarrow> bool" where
  "plan_header pl input p \<longleftrightarrow>
     plan_id p = input_plan_id pl input \<and> plan_deck_id p = input_deck_id input
   \<and> plan_track_id p = ptrack_id (input_track input)
   \<and> plan_track_duration_beats p = ptrack_duration_beats (input_track input)
   \<and> plan_track_load_id p = input_track_load_id input
   \<and> plan_revision p = plan_revision_initial
   \<and> plan_configuration_revision p = config_revision (planner_configuration pl)
   \<and> plan_seed p = input_seed pl input"

definition plan_body ::
  "DeterministicPlanner \<Rightarrow> PlanningInput \<Rightarrow> ThemeSelectionContext \<Rightarrow> LightingPlan \<Rightarrow> bool" where
  "plan_body pl input context p \<longleftrightarrow>
     (case complete_phrases (input_track input) of
        Some ps \<Rightarrow>
          plan_status p = PlanStatus.Ready
        \<and> (\<exists>d. plan_theme_decision p = Some d
             \<and> select_initial_theme pl (input_track input) (input_seed pl input) context = Inr d
             \<and> list_all2 (cue_of_phrase pl (plan_id p) d) ps (plan_cues p))
      | None \<Rightarrow>
          plan_status p = PlanStatus.Fallback \<and> plan_theme_decision p = None
        \<and> plan_cues p = [fallback_cue (plan_id p) (plan_track_duration_beats p)])"

lemma generate_cues_Inr:
  assumes "generate_cues pl input context = Inr (dec, cues)"
  shows "case complete_phrases (input_track input) of
      Some ps \<Rightarrow> (\<exists>d. dec = Some d
        \<and> select_initial_theme pl (input_track input) (input_seed pl input) context = Inr d
        \<and> list_all2 (cue_of_phrase pl (input_plan_id pl input) d) ps cues)
    | None \<Rightarrow> dec = None
        \<and> cues = [fallback_cue (input_plan_id pl input) (ptrack_duration_beats (input_track input))]"
proof (cases "complete_phrases (input_track input)")
  case None
  then show ?thesis
    using assms by (auto simp: complete_phrases_def generate_cues_def Let_def split: option.splits if_splits)
next
  case (Some ps)
  let ?seed = "input_seed pl input" and ?pid = "input_plan_id pl input"
  from Some assms obtain d th where
      d: "select_initial_theme pl (input_track input) ?seed context = Inr d" "dec = Some d"
    and th: "planner_theme pl (decision_theme_id d) = Some th"
    and cues: "plan_analyzed_phrases pl ?seed ?pid ps th = Inr cues"
    by (auto simp: complete_phrases_def generate_cues_def Let_def and_then_eq_Inr ok_or_eq
        split: option.splits if_splits)
  have "theme_def_id th = decision_theme_id d" "theme_def_name th = decision_theme_name d"
    using select_initial_theme_names [OF d(1)] th by (auto simp: names_theme_def)
  then have "list_all2 (cue_of_phrase pl ?pid d) ps cues"
    using cues plan_phrase_Inr
    unfolding plan_analyzed_phrases_def try_map_eq_Inr by (blast intro: list_all2_mono)
  with Some d show ?thesis by simp
qed

lemma generate_cues_fallback_status:
  assumes "generate_cues pl input context = Inr (dec, cues)"
  shows "list_ex (\<lambda>c. cue_origin c = CueOrigin.Fallback) cues
     \<longleftrightarrow> complete_phrases (input_track input) = None"
proof (cases "complete_phrases (input_track input)")
  case None
  then show ?thesis using generate_cues_Inr [OF assms] by (simp add: fallback_cue_def new_cue_def)
next
  case (Some ps)
  then have "\<not> has_fallback_cue cues"
    using generate_cues_Inr [OF assms] cue_of_phrase_geometry(5) by auto
  then show ?thesis using Some by (auto simp: has_fallback_cue_def list_ex_iff)
qed

lemma generate_Inr:
  assumes "generate_with_context pl input context = Inr p"
  shows "plan_ok p \<and> plan_header pl input p \<and> plan_body pl input context p"
proof -
  from assms obtain dec cues where g: "generate_cues pl input context = Inr (dec, cues)"
    by (auto simp: generate_with_context_def and_then_eq_Inr split: if_splits)
  let ?st = "if complete_phrases (input_track input) = None then PlanStatus.Fallback else PlanStatus.Ready"
  have "p = \<lparr>plan_id = input_plan_id pl input, plan_deck_id = input_deck_id input,
      plan_track_id = ptrack_id (input_track input),
      plan_track_duration_beats = ptrack_duration_beats (input_track input),
      plan_track_load_id = input_track_load_id input, plan_revision = plan_revision_initial,
      plan_configuration_revision = config_revision (planner_configuration pl),
      plan_seed = input_seed pl input, plan_status = ?st, plan_theme_decision = dec,
      plan_cues = cues\<rparr> \<and> plan_ok p"
    using assms unfolding generate_with_context_def g
    by (cases "complete_phrases (input_track input) = None")
       (auto simp: Let_def map_err_eq try_new_with_theme_decision_ok
          generate_cues_fallback_status [OF g] split: if_splits)
  then show ?thesis
    using generate_cues_Inr [OF g]
    by (cases "complete_phrases (input_track input)") (auto simp: plan_header_def plan_body_def)
qed

section \<open>When generation succeeds\<close>

lemma generate_cues_total:
  assumes pl: "planner_ok pl"
    and ne: "complete_phrases (input_track input) \<noteq> None \<Longrightarrow>
      select_initial_theme pl (input_track input) (input_seed pl input) context \<noteq> Inl NoEligibleTheme"
  shows "\<exists>r. generate_cues pl input context = Inr r"
proof (cases "complete_phrases (input_track input)")
  case None
  then show ?thesis
    by (auto simp: complete_phrases_def generate_cues_def Let_def split: option.splits if_splits)
next
  case (Some ps)
  let ?seed = "input_seed pl input" and ?pid = "input_plan_id pl input"
  have "eligible_rules pl (input_track input) \<noteq> []"
    if "config_global_theme_lock (planner_configuration pl) = None"
      "config_theme_selection_rules (planner_configuration pl) \<noteq> []"
    using ne Some that
    by (auto simp: select_initial_theme_def select_policy_theme_def policy_candidates_def)
  then obtain d where d: "select_initial_theme pl (input_track input) ?seed context = Inr d"
    using select_initial_theme_total [OF pl, of "input_track input" ?seed "context"] by auto
  then obtain th where th: "planner_theme pl (decision_theme_id d) = Some th" "\<not> blank (theme_def_name th)"
    using select_initial_theme_names names_theme_def by blast
  then obtain cues where "plan_analyzed_phrases pl ?seed ?pid ps th = Inr cues"
    unfolding plan_analyzed_phrases_def using try_map_total plan_phrase_total [OF pl] by metis
  with Some d th show ?thesis
    by (auto simp: complete_phrases_def generate_cues_def Let_def split: option.splits if_splits)
qed

lemma fallback_cue_ok: "d \<noteq> 0 \<Longrightarrow> cues_ok d [fallback_cue pid d]"
  by (simp add: cues_ok_def fallback_cue_def new_cue_def indexed_def word_neq_0_conv)

lemma phrase_cues_ok:
  assumes ps: "analysis_is_complete ps dur" and cues: "list_all2 (cue_of_phrase pl pid d) ps cues"
  shows "indexed cue_phrase_index cues" "tiles cue_start_beat cue_end_beat 0 cues"
    "tiles_end cue_end_beat 0 cues = dur" "cues \<noteq> []"
proof -
  note geo = cue_of_phrase_geometry [OF cues]
  show "indexed cue_phrase_index cues"
    using ps indexed_cong [OF geo(1)] by (simp add: analysis_is_complete_iff)
  show "tiles cue_start_beat cue_end_beat 0 cues" "tiles_end cue_end_beat 0 cues = dur"
    using ps tiles_cong [OF geo(2,3)] by (simp_all add: analysis_is_complete_iff)
  show "cues \<noteq> []" using ps cues by (auto simp: analysis_is_complete_iff)
qed

lemma phrase_cues_duplicate:
  assumes ps: "analysis_is_complete ps dur" and cues: "list_all2 (cue_of_phrase pl pid d) ps cues"
    and e: "check_cues {} 0 False 0 cues = Inl e"
  shows "e = DuplicateCueId 1 \<and> unat pid \<le> length ps"
proof -
  note ok = phrase_cues_ok [OF ps cues]
  have len: "length cues = length ps" using cues by (simp add: list_all2_lengthD)
  have ids: "cue_id (cues ! k) = nonzero (mix (pid XOR phrase_decision (ps ! k)))" if "k < length ps" for k
    using list_all2_nthD [OF cues that] by (simp add: cue_of_phrase_def)
  obtain i j where i: "i < length cues" "e = DuplicateCueId (cue_id (cues ! i))"
    and j: "j < i" "cue_id (cues ! j) = cue_id (cues ! i)"
    using check_cues_duplicate [of 0 cues 0 "{}" False e] ok e by (auto simp: indexed_from_0)
  have "indexed phrase_index ps" using ps by (simp add: analysis_is_complete_iff)
  from generated_ids_collide [OF this, of i j pid]
  show ?thesis using i j ids [of i] ids [of j] len by auto
qed

text \<open>The starting cue of a generated plan carries the decided Theme.\<close>

lemma phrase_cues_consistent:
  "list_all2 (cue_of_phrase pl pid d) ps cues \<Longrightarrow> \<not> starting_cue_inconsistent d cues"
  by (cases ps; cases cues) (auto simp: starting_cue_inconsistent_def cue_of_phrase_def)

text \<open>Everything but the uniqueness of identifiers holds of the cues generation builds.\<close>

lemma generate_cases:
  assumes g: "generate_cues pl input context = Inr (dec, cues)"
    and dur: "ptrack_duration_beats (input_track input) \<noteq> 0"
    and rev0: "config_revision (planner_configuration pl) \<noteq> 0"
  shows "(\<exists>p. generate_with_context pl input context = Inr p)
    \<or> (\<exists>ps. complete_phrases (input_track input) = Some ps \<and> unat (input_plan_id pl input) \<le> length ps
         \<and> generate_with_context pl input context
             = Inl (PlannerError.InvalidPlan (DuplicateCueId 1)))"
proof (cases "complete_phrases (input_track input)")
  case None
  let ?dur = "ptrack_duration_beats (input_track input)"
  have "dec = None" "cues = [fallback_cue (input_plan_id pl input) ?dur]"
    using generate_cues_Inr [OF g] None by auto
  moreover have "check_cues {} 0 False 0 [fallback_cue (input_plan_id pl input) ?dur] = Inr (?dur, True)"
    using dur by (simp add: fallback_cue_def new_cue_def)
  ultimately show ?thesis
    using g dur rev0 generate_cues_fallback_status [OF g] None
    by (simp add: generate_with_context_def try_new_with_theme_decision_def plan_revision_initial_def)
next
  case (Some ps)
  let ?dur = "ptrack_duration_beats (input_track input)"
  obtain d where d: "dec = Some d"
    and cues: "list_all2 (cue_of_phrase pl (input_plan_id pl input) d) ps cues"
    using generate_cues_Inr [OF g] Some by auto
  have ps: "analysis_is_complete ps ?dur"
    using Some by (auto simp: complete_phrases_def split: option.splits if_splits)
  note ok = phrase_cues_ok [OF ps cues] phrase_cues_consistent [OF cues]
  note gen = generate_with_context_def try_new_with_theme_decision_def plan_revision_initial_def
  show ?thesis
  proof (cases "check_cues {} 0 False 0 cues")
    case (Inl e)
    then have "generate_with_context pl input context = Inl (PlannerError.InvalidPlan e)"
      using g dur rev0 generate_cues_fallback_status [OF g] ok by (simp add: gen)
    then show ?thesis using phrase_cues_duplicate [OF ps cues Inl] Some by simp
  next
    case (Inr r)
    then have "r = (?dur, False)"
      using cue_of_phrase_geometry(5) [OF cues] ok by (cases r) (simp add: check_cues_ok)
    then show ?thesis
      using Inr g dur rev0 generate_cues_fallback_status [OF g] ok Some d by (simp add: gen)
  qed
qed

section \<open>Properties\<close>

text \<open>
  C3. A generated plan is well formed and is the plan the input asks for: its identity
  and hashes come from the input and the configuration; with a complete analysis it is
  ready, carries the decided Theme, and has exactly one unlocked automatic cue per
  phrase, over the phrase's beats and with a configured scene of the phrase's category;
  without one it holds the current look over the whole track.
\<close>

theorem generated_plan_correct:
  "generate_with_context pl input context = Inr p \<Longrightarrow>
     plan_ok p \<and> plan_header pl input p \<and> plan_body pl input context p"
  by (rule generate_Inr)

text \<open>
  C8. On a sound configuration generation fails for three reasons only: the track is
  empty, no policy rule is eligible for its colour, or two phrases get the same cue
  identifier. The last needs a plan identifier no larger than the number of phrases, and
  the identifier that repeats is then 1, the stand-in for zero.
\<close>

theorem generation_fails_iff:
  assumes pl: "planner_ok pl"
  shows "case generate_with_context pl input context of
      Inr p \<Rightarrow> ptrack_duration_beats (input_track input) \<noteq> 0
    | Inl e \<Rightarrow>
        (e = PlannerError.EmptyTrackDuration \<and> ptrack_duration_beats (input_track input) = 0)
      \<or> (e = NoEligibleTheme
          \<and> select_initial_theme pl (input_track input) (input_seed pl input) context = Inl NoEligibleTheme)
      \<or> (e = PlannerError.InvalidPlan (DuplicateCueId 1)
          \<and> (\<exists>ps. complete_phrases (input_track input) = Some ps
                \<and> unat (input_plan_id pl input) \<le> length ps))"
proof (cases "ptrack_duration_beats (input_track input) = 0")
  case True
  then show ?thesis by (simp add: generate_with_context_def)
next
  case False
  show ?thesis
  proof (cases "generate_cues pl input context")
    case (Inl e)
    then have cp: "complete_phrases (input_track input) \<noteq> None"
      and sel: "select_initial_theme pl (input_track input) (input_seed pl input) context = Inl NoEligibleTheme"
      using generate_cues_total [OF pl, of input "context"] by auto
    then have "e = NoEligibleTheme"
      using Inl by (auto simp: complete_phrases_def generate_cues_def Let_def split: option.splits if_splits)
    with Inl False sel show ?thesis by (simp add: generate_with_context_def)
  next
    case (Inr r)
    obtain dec cues where "r = (dec, cues)" by (cases r)
    with Inr generate_cases [of pl input "context" dec cues] False pl show ?thesis
      by (auto simp: planner_ok_def config_ok_def)
  qed
qed

text \<open>
  The planner and the domain agree on what a complete analysis is: the planner's
  check accepts a non-empty list of phrases exactly when the constructor of track
  metadata does, and therefore plans every analysed track of the domain as ready.
\<close>

theorem planner_accepts_domain_analysis:
  "analysis_is_complete ps d = (ps \<noteq> [] \<and> check_phrases d 0 0 ps = Inr d)
   \<and> (track_analyzed t \<longleftrightarrow> complete_phrases (analyzed t) = Some (track_phrases t))"
proof -
  have "(check_analysis d 0 0 ps = Some d) = (check_phrases d 0 0 ps = Inr d)"
    by (simp add: check_analysis_eq check_phrases_ok)
  then show ?thesis
    by (auto simp: analysis_is_complete_def [of ps d] complete_phrases_def analyzed_def
        analysis_is_complete_iff [of "track_phrases t"] track_analyzed_def)
qed

text \<open>
  The mixer behind plan and cue identifiers and behind the choices is a bijection of
  the 64-bit words, so two identifiers coincide only for equal inputs or where the
  replacement of zero meets the one input that is mixed to 1.
\<close>

theorem mix_is_bijective:
  "bij mix
   \<and> (nonzero (mix a) = nonzero (mix b) \<longleftrightarrow> a = b \<or> (a = 0 \<and> mix b = 1) \<or> (b = 0 \<and> mix a = 1))"
proof -
  have "inj mix" by (simp add: inj_def mix_inj)
  then have "bij mix" by (simp add: bij_def finite_UNIV_inj_surj)
  then show ?thesis
    using mix_inj [of a b] mix_0 [of a] mix_0 [of b] by (auto simp: nonzero_def split: if_splits)
qed

section \<open>Witnesses\<close>

definition demo_phrases :: "TrackPhrase list" where
  "demo_phrases =
     [\<lparr>phrase_index = 0, phrase_start_beat = 0, phrase_end_beat = 32, phrase_kind = Intro\<rparr>,
      \<lparr>phrase_index = 1, phrase_start_beat = 32, phrase_end_beat = 64, phrase_kind = PhraseKind.Drop\<rparr>]"

definition demo_input :: PlanningInput where
  "demo_input = \<lparr>input_deck_id = 1, input_track_load_id = 11,
     input_track = with_analysis 7 64 demo_phrases\<rparr>"

definition demo_generated_cue :: "u64 \<Rightarrow> u16 \<Rightarrow> u32 \<Rightarrow> PhraseKind \<Rightarrow> SceneDefinition \<Rightarrow> LightingCue" where
  "demo_generated_cue i idx start_beat kind s =
     new_cue i idx start_beat (start_beat + 32)
       (ApplyLook \<lparr>look_theme_id = 1, look_theme_name = ''Electric Bloom'',
          look_scene_id = scene_def_id s, look_scene_name = scene_def_name s,
          look_category = scene_def_category s, look_loop_selection = scene_def_loop_selection s\<rparr>)
       CueOrigin.Automatic (PhraseCategoryMatched kind (category_for kind))"

definition demo_generated :: LightingPlan where
  "demo_generated =
     \<lparr>plan_id = 0x61946baa3b0dab0c, plan_deck_id = 1, plan_track_id = 7,
      plan_track_duration_beats = 64, plan_track_load_id = 11, plan_revision = 1,
      plan_configuration_revision = 1, plan_seed = 0xba20a56a32af65c3,
      plan_status = PlanStatus.Ready,
      plan_theme_decision = Some \<lparr>decision_theme_id = 1, decision_theme_name = ''Electric Bloom'',
        decision_reason = DefaultTheme, decision_matched_color = None\<rparr>,
      plan_cues =
        [demo_generated_cue 0x2282876ae11b974b 0 0 Intro (scene 1 ''Soft Motion'' Ambient 1 1),
         demo_generated_cue 0xf87f51129559a119 1 32 PhraseKind.Drop (scene 8 ''Color Impact'' Impact 4 2)]\<rparr>"

lemma demo_seed: "input_seed epic_one demo_input = 0xba20a56a32af65c3"
  by (simp add: input_seed_def demo_input_def with_analysis_def epic_one_def epic_one_configuration_def
      stable_seed_def to_le_bytes_def FNV_PRIME_def FNV_OFFSET_BASIS_def upt_conv_Cons)

lemma demo_plan_id: "input_plan_id epic_one demo_input = 0x61946baa3b0dab0c"
  unfolding input_plan_id_def demo_seed by (simp add: demo_input_def nonzero_def mix_def)

lemma demo_theme:
  "select_initial_theme epic_one (with_analysis 7 64 demo_phrases) seed default_selection_context
     = Inr \<lparr>decision_theme_id = 1, decision_theme_name = ''Electric Bloom'',
            decision_reason = DefaultTheme, decision_matched_color = None\<rparr>"
  by (simp add: select_initial_theme_def epic_one_def epic_one_configuration_def with_analysis_def
      rotation_or_default_def default_selection_context_def planner_decision_def planner_theme_def
      try_new_theme_decision_def blank_def ascii_white_space_def white_space2_def white_space3_def)

lemma demo_cues:
  "plan_analyzed_phrases epic_one 0xba20a56a32af65c3 0x61946baa3b0dab0c demo_phrases
     \<lparr>theme_def_id = 1, theme_def_name = ''Electric Bloom''\<rparr> = Inr (plan_cues demo_generated)"
  by (simp add: plan_analyzed_phrases_def demo_phrases_def demo_generated_def demo_generated_cue_def new_cue_def
      plan_phrase_def Let_def phrase_decision_def epic_one_def epic_one_configuration_def scene_def
      stable_choose_def mix_def nonzero_def get_nth_def try_new_look_def blank_def
      ascii_white_space_def white_space2_def white_space3_def)

lemma demo_generate: "generate_with_context epic_one demo_input default_selection_context = Inr demo_generated"
proof -
  have complete: "analysis_is_complete demo_phrases 64"
    by (simp add: demo_phrases_def analysis_is_complete_def)
  have theme: "planner_theme epic_one 1 = Some \<lparr>theme_def_id = 1, theme_def_name = ''Electric Bloom''\<rparr>"
    by (simp add: planner_theme_def epic_one_def epic_one_configuration_def)
  have "generate_cues epic_one demo_input default_selection_context
      = Inr (plan_theme_decision demo_generated, plan_cues demo_generated)"
    unfolding generate_cues_def demo_seed demo_plan_id
    using complete demo_theme theme demo_cues
    by (simp add: demo_input_def with_analysis_def demo_generated_def)
  then show ?thesis
    unfolding generate_with_context_def demo_seed demo_plan_id
    by (simp add: demo_input_def with_analysis_def demo_generated_def demo_generated_cue_def new_cue_def
        try_new_with_theme_decision_def plan_revision_initial_def epic_one_def
        epic_one_configuration_def starting_cue_inconsistent_def)
qed

theorem generated_plan_correct_witness:
  "generate_with_context epic_one demo_input default_selection_context = Inr demo_generated
   \<and> plan_ok demo_generated \<and> plan_header epic_one demo_input demo_generated
   \<and> plan_body epic_one demo_input default_selection_context demo_generated"
  using generated_plan_correct [OF demo_generate] demo_generate by simp

theorem generation_fails_iff_witness:
  "planner_ok epic_one
   \<and> generate_with_context epic_one (demo_input\<lparr>input_track := without_analysis 7 0\<rparr>)
       default_selection_context = Inl PlannerError.EmptyTrackDuration
   \<and> ptrack_duration_beats (input_track demo_input) \<noteq> 0"
  using generation_fails_iff [OF epic_one_ok, of demo_input default_selection_context]
    demo_generate epic_one_ok
  by (simp add: generate_with_context_def without_analysis_def)

end
