(* ===== verification/Planner_Edits.thy ===== *)
theory Planner_Edits
  imports Planner_Generation
begin

text \<open>
  The edits of a lighting plan (\<open>lumi-planner/src/planner.rs\<close>): choosing a Theme for
  the whole plan or from a phrase on, choosing a scene, locking a cue, and regenerating.
\<close>

section \<open>Operations\<close>

definition ensure_ready :: "LightingPlan \<Rightarrow> PlanMutationError + unit" where
  "ensure_ready p =
     (if plan_status p = PlanStatus.Ready then Inr () else Inl FallbackPlanNotEditable)"

definition cue_category :: "LightingCue \<Rightarrow> PlanMutationError + SceneCategory" where
  "cue_category c =
     (case cue_reason c of
        PhraseCategoryMatched _ category \<Rightarrow> Inr category
      | MissingPhraseAnalysis \<Rightarrow> Inl FallbackPlanNotEditable
      | MissingAutoloopMapping \<Rightarrow> Inl FallbackPlanNotEditable)"

text \<open>The body of the closures that put a Theme on a cue.\<close>

definition retheme_look :: "ThemeDefinition \<Rightarrow> LightingLook \<Rightarrow> PlanMutationError + LightingLook" where
  "retheme_look th look =
     map_err PlanMutationError.InvalidPlan
       (try_new_look (theme_def_id th) (theme_def_name th) (look_scene_id look)
          (look_scene_name look) (look_category look) (look_loop_selection look))"

definition retheme_cue ::
  "ThemeDefinition \<Rightarrow> (LightingCue \<Rightarrow> CueOrigin) \<Rightarrow> LightingCue \<Rightarrow> PlanMutationError + LightingCue" where
  "retheme_cue th origin c =
     (case cue_action c of
        ApplyLook look \<Rightarrow>
          and_then (retheme_look th look) (\<lambda>new_look.
            Inr (cue_revised c (ApplyLook new_look) (origin c) (cue_locked c)))
      | HoldCurrentLook \<Rightarrow> Inl FallbackPlanNotEditable)"

definition user_decision :: "ThemeDefinition \<Rightarrow> PlanMutationError + ThemeDecision" where
  "user_decision th =
     map_err PlanMutationError.InvalidPlan
       (try_new_theme_decision (theme_def_id th) (theme_def_name th) PlanInstanceUserChoice None)"

definition select_theme ::
  "DeterministicPlanner \<Rightarrow> LightingPlan \<Rightarrow> ThemeId \<Rightarrow> PlanMutationError + LightingPlan" where
  "select_theme pl current t =
     and_then (ensure_ready current) (\<lambda>_.
     and_then (ok_or (planner_theme pl t) (UnknownTheme t)) (\<lambda>th.
       let changed = (case plan_theme_decision current of
              None \<Rightarrow> True
            | Some d \<Rightarrow> decision_theme_id d \<noteq> theme_def_id th
                        \<or> decision_reason d \<noteq> PlanInstanceUserChoice)
       in and_then (try_map (retheme_cue th (\<lambda>_. CueOrigin.User)) (plan_cues current)) (\<lambda>cues.
            if \<not> changed then Inl NoChange
            else and_then (user_decision th) (\<lambda>d.
              map_err PlanMutationError.InvalidPlan
                (revised_with_theme_decision current cues (Some d))))))"

definition retheme_from ::
  "ThemeDefinition \<Rightarrow> u16 \<Rightarrow> LightingCue \<Rightarrow> PlanMutationError + LightingCue" where
  "retheme_from th idx c =
     (if cue_phrase_index c < idx then Inr c else retheme_cue th (\<lambda>_. CueOrigin.User) c)"

definition changes_theme_from :: "ThemeDefinition \<Rightarrow> u16 \<Rightarrow> LightingCue \<Rightarrow> bool" where
  "changes_theme_from th idx c =
     (\<not> cue_phrase_index c < idx
      \<and> (case cue_action c of
           ApplyLook look \<Rightarrow> look_theme_id look \<noteq> theme_def_id th
         | HoldCurrentLook \<Rightarrow> False))"

definition select_theme_from_phrase ::
  "DeterministicPlanner \<Rightarrow> LightingPlan \<Rightarrow> u16 \<Rightarrow> ThemeId \<Rightarrow> PlanMutationError + LightingPlan" where
  "select_theme_from_phrase pl current idx t =
     (if idx = 0 then select_theme pl current t
      else and_then (ensure_ready current) (\<lambda>_.
        and_then (ok_or (planner_theme pl t) (UnknownTheme t)) (\<lambda>th.
          if get_nth (plan_cues current) (unat idx) = None then Inl (UnknownPhrase idx)
          else and_then (try_map (retheme_from th idx) (plan_cues current)) (\<lambda>cues.
            if \<not> list_ex (changes_theme_from th idx) (plan_cues current) then Inl NoChange
            else map_err PlanMutationError.InvalidPlan (plan_revised current cues)))))"

definition select_scene ::
  "DeterministicPlanner \<Rightarrow> LightingPlan \<Rightarrow> u16 \<Rightarrow> SceneId \<Rightarrow> PlanMutationError + LightingPlan" where
  "select_scene pl current idx s =
     and_then (ensure_ready current) (\<lambda>_.
     and_then (ok_or (find (\<lambda>d. scene_def_id d = s) (config_scenes (planner_configuration pl)))
                 (UnknownScene s)) (\<lambda>sc.
     and_then (ok_or (get_nth (plan_cues current) (unat idx)) (UnknownPhrase idx)) (\<lambda>target.
     and_then (cue_category target) (\<lambda>expected.
       if scene_def_category sc \<noteq> expected
       then Inl (SceneCategoryMismatch expected (scene_def_category sc))
       else (case cue_action target of
           HoldCurrentLook \<Rightarrow> Inl FallbackPlanNotEditable
         | ApplyLook current_look \<Rightarrow>
             if look_scene_id current_look = scene_def_id sc then Inl NoChange
             else and_then (map_err PlanMutationError.InvalidPlan
                    (try_new_look (look_theme_id current_look) (look_theme_name current_look)
                       (scene_def_id sc) (scene_def_name sc) (scene_def_category sc)
                       (scene_def_loop_selection sc))) (\<lambda>look.
               map_err PlanMutationError.InvalidPlan (plan_revised current
                 ((plan_cues current)[unat idx :=
                    cue_revised target (ApplyLook look) CueOrigin.User (cue_locked target)]))))))))"

definition set_cue_lock ::
  "LightingPlan \<Rightarrow> u16 \<Rightarrow> bool \<Rightarrow> PlanMutationError + LightingPlan" where
  "set_cue_lock current idx locked =
     and_then (ensure_ready current) (\<lambda>_.
     and_then (ok_or (get_nth (plan_cues current) (unat idx)) (UnknownPhrase idx)) (\<lambda>target.
       if cue_locked target = locked then Inl NoChange
       else map_err PlanMutationError.InvalidPlan (plan_revised current
         ((plan_cues current)[unat idx :=
            cue_revised target (cue_action target) CueOrigin.User locked]))))"

definition retheme_generated ::
  "DeterministicPlanner \<Rightarrow> LightingPlan \<Rightarrow> ThemeId \<Rightarrow> PlanMutationError + LightingPlan" where
  "retheme_generated pl generated t =
     and_then (ok_or (planner_theme pl t) (UnknownTheme t)) (\<lambda>th.
     and_then (try_map (retheme_cue th cue_origin) (plan_cues generated)) (\<lambda>cues.
     and_then (user_decision th) (\<lambda>d.
       map_err PlanMutationError.InvalidPlan
         (try_new_with_theme_decision (plan_id generated) (plan_deck_id generated)
            (plan_track_id generated) (plan_track_duration_beats generated)
            (plan_track_load_id generated) (plan_revision generated)
            (plan_configuration_revision generated) (plan_seed generated) (plan_status generated)
            (Some d) cues))))"

text \<open>The closure of \<open>regenerate\<close> that keeps a locked cue where it still fits.\<close>

definition keep_locked :: "LightingPlan \<Rightarrow> LightingCue \<Rightarrow> LightingCue" where
  "keep_locked current generated_cue =
     (case get_nth (plan_cues current) (unat (cue_phrase_index generated_cue)) of
        None \<Rightarrow> generated_cue
      | Some locked \<Rightarrow>
        if \<not> cue_locked locked then generated_cue
        else if cue_start_beat locked = cue_start_beat generated_cue
             \<and> cue_end_beat locked = cue_end_beat generated_cue
             \<and> ok (cue_category locked) = ok (cue_category generated_cue)
        then locked else generated_cue)"

definition user_chose_theme :: "LightingPlan \<Rightarrow> bool" where
  "user_chose_theme p =
     (case plan_theme_decision p of
        None \<Rightarrow> False | Some d \<Rightarrow> decision_reason d = PlanInstanceUserChoice)"

text \<open>The plan regeneration starts from: rethemed if the user had chosen the Theme.\<close>

definition regeneration_base ::
  "DeterministicPlanner \<Rightarrow> LightingPlan \<Rightarrow> LightingPlan \<Rightarrow> PlanMutationError + LightingPlan" where
  "regeneration_base pl current fresh =
     (if user_chose_theme current
      then and_then (ok_or (plan_theme_decision current) FallbackPlanNotEditable)
             (\<lambda>d. retheme_generated pl fresh (decision_theme_id d))
      else Inr fresh)"

definition regenerate ::
  "DeterministicPlanner \<Rightarrow> LightingPlan \<Rightarrow> PlanningInput \<Rightarrow> PlanMutationError + LightingPlan" where
  "regenerate pl current input =
     and_then (ensure_ready current) (\<lambda>_.
       if plan_deck_id current \<noteq> input_deck_id input
          \<or> plan_track_load_id current \<noteq> input_track_load_id input
          \<or> plan_track_id current \<noteq> ptrack_id (input_track input)
       then Inl TrackLoadMismatch
       else and_then (map_err PlanMutationError.Planner (generate pl input)) (\<lambda>fresh.
            and_then (regeneration_base pl current fresh) (\<lambda>generated.
              map_err PlanMutationError.InvalidPlan
                (revised_with_theme_decision current
                   (map (keep_locked current) (plan_cues generated))
                   (plan_theme_decision generated)))))"

section \<open>The contract of an edit\<close>

definition same_header :: "LightingPlan \<Rightarrow> LightingPlan \<Rightarrow> bool" where
  "same_header p q \<longleftrightarrow>
     plan_id q = plan_id p \<and> plan_deck_id q = plan_deck_id p \<and> plan_track_id q = plan_track_id p
   \<and> plan_track_duration_beats q = plan_track_duration_beats p
   \<and> plan_track_load_id q = plan_track_load_id p
   \<and> plan_configuration_revision q = plan_configuration_revision p
   \<and> plan_seed q = plan_seed p \<and> plan_status q = plan_status p"

text \<open>
  An accepted edit turns a plan into the next revision of the same plan: well formed, for
  the same deck, load and track, with the revision one higher.
\<close>

definition next_revision :: "LightingPlan \<Rightarrow> LightingPlan \<Rightarrow> bool" where
  "next_revision p q \<longleftrightarrow> plan_ok q \<and> same_header p q
     \<and> plan_revision_checked_next (plan_revision p) = Some (plan_revision q)"

locale plan_edit =
  fixes edit :: "LightingPlan \<Rightarrow> 'e + LightingPlan"
  assumes edit_next: "edit p = Inr q \<Longrightarrow> next_revision p q"
    and edit_ready: "edit p = Inr q \<Longrightarrow> plan_status p = PlanStatus.Ready"
begin

lemma edit_result_ok: "edit p = Inr q \<Longrightarrow> plan_ok q"
  using edit_next by (simp add: next_revision_def)

lemma edit_revision_gt: "edit p = Inr q \<Longrightarrow> plan_revision p < plan_revision q"
  using edit_next plan_revision_next_gt by (auto simp: next_revision_def)

lemma edit_stays_ready: "edit p = Inr q \<Longrightarrow> plan_status q = PlanStatus.Ready"
  using edit_next edit_ready by (simp add: next_revision_def same_header_def)

lemma edit_keeps_partition:
  assumes "edit p = Inr q" "beat < plan_track_duration_beats p"
  shows "\<exists>!i. i < length (plan_cues q) \<and> cue_start_beat (plan_cues q ! i) \<le> beat
    \<and> beat < cue_end_beat (plan_cues q ! i)"
  using edit_next [OF assms(1)] assms(2) plan_parts.part_covers
  by (simp add: next_revision_def same_header_def)

end

lemma same_header_refl [simp]: "same_header p p"
  by (simp add: same_header_def)

lemma same_header_trans: "same_header p q \<Longrightarrow> same_header q r \<Longrightarrow> same_header p r"
  by (simp add: same_header_def)

lemma revised_Inr:
  "revised_with_theme_decision p cues dec = Inr q \<longleftrightarrow>
     (\<exists>r. plan_revision_checked_next (plan_revision p) = Some r
        \<and> q = p\<lparr>plan_revision := r, plan_theme_decision := dec, plan_cues := cues\<rparr> \<and> plan_ok q)"
  by (cases p) (auto simp: revised_with_theme_decision_def result_simps try_new_with_theme_decision_ok)

lemma revised_next_revision:
  "revised_with_theme_decision p cues dec = Inr q \<Longrightarrow> next_revision p q"
  by (auto simp: revised_Inr next_revision_def same_header_def)

lemma ensure_ready_Inr: "ensure_ready p = Inr u \<longleftrightarrow> plan_status p = PlanStatus.Ready"
  by (simp add: ensure_ready_def)

lemmas edit_simps = and_then_eq_Inr map_err_eq ok_or_eq ensure_ready_Inr plan_revised_def Let_def

interpretation select_theme_edit: plan_edit "\<lambda>p. select_theme pl p t" for pl t
  by unfold_locales
     (auto simp: select_theme_def edit_simps split: if_splits dest: revised_next_revision)

interpretation select_theme_from_edit: plan_edit "\<lambda>p. select_theme_from_phrase pl p idx t" for pl idx t
  by unfold_locales
     (auto simp: select_theme_from_phrase_def edit_simps split: if_splits dest: revised_next_revision
        select_theme_edit.edit_next select_theme_edit.edit_ready)

interpretation select_scene_edit: plan_edit "\<lambda>p. select_scene pl p idx s" for pl idx s
  by unfold_locales
     (auto simp: select_scene_def edit_simps split: if_splits SemanticLightingAction.splits
        dest: revised_next_revision)

interpretation set_cue_lock_edit: plan_edit "\<lambda>p. set_cue_lock p idx locked" for idx locked
  by unfold_locales
     (auto simp: set_cue_lock_def edit_simps split: if_splits dest: revised_next_revision)

interpretation regenerate_edit: plan_edit "\<lambda>p. regenerate pl p input" for pl input
  by unfold_locales
     (auto simp: regenerate_def edit_simps split: if_splits dest: revised_next_revision)

section \<open>Sequences of edits\<close>

datatype PlanEdit =
    SelectTheme ThemeId
  | SelectThemeFromPhrase u16 ThemeId
  | SelectScene u16 SceneId
  | SetCueLock u16 bool
  | RegeneratePlan PlanningInput

fun apply_edit :: "DeterministicPlanner \<Rightarrow> LightingPlan \<Rightarrow> PlanEdit \<Rightarrow> PlanMutationError + LightingPlan" where
  "apply_edit pl p (SelectTheme t) = select_theme pl p t"
| "apply_edit pl p (SelectThemeFromPhrase idx t) = select_theme_from_phrase pl p idx t"
| "apply_edit pl p (SelectScene idx s) = select_scene pl p idx s"
| "apply_edit pl p (SetCueLock idx locked) = set_cue_lock p idx locked"
| "apply_edit pl p (RegeneratePlan input) = regenerate pl p input"

definition edit_step ::
  "DeterministicPlanner \<Rightarrow> LightingPlan \<Rightarrow> PlanEdit \<Rightarrow> PlanMutationError + (LightingPlan \<times> PlanRevision)" where
  "edit_step pl p e = and_then (apply_edit pl p e) (\<lambda>q. Inr (q, plan_revision q))"

lemma apply_edit_next: "apply_edit pl p e = Inr q \<Longrightarrow> next_revision p q"
  by (cases e) (auto dest: select_theme_edit.edit_next select_theme_from_edit.edit_next
      select_scene_edit.edit_next set_cue_lock_edit.edit_next regenerate_edit.edit_next)

interpretation edits: invariant_machine "edit_step pl" plan_ok "\<lambda>_. True" for pl
  by unfold_locales (auto simp: edit_step_def result_simps next_revision_def dest: apply_edit_next)

lemma run_edits_history:
  "same_header p (fst (run_machine (edit_step pl) p es))
   \<and> map unat (snd (run_machine (edit_step pl) p es))
       = map (\<lambda>k. unat (plan_revision p) + Suc k) [0..<length (snd (run_machine (edit_step pl) p es))]
   \<and> unat (plan_revision (fst (run_machine (edit_step pl) p es)))
       = unat (plan_revision p) + length (snd (run_machine (edit_step pl) p es))"
proof (induction es arbitrary: p)
  case (Cons e es)
  show ?case
  proof (cases "apply_edit pl p e")
    case (Inl err)
    then show ?thesis using Cons by (simp add: edit_step_def)
  next
    case (Inr q)
    then have nx: "same_header p q" "unat (plan_revision q) = Suc (unat (plan_revision p))"
      using apply_edit_next [OF Inr] checked_add_SomeD [of "plan_revision p" 1 "plan_revision q"]
      by (simp_all add: next_revision_def plan_revision_checked_next_def)
    obtain t outs where run: "run_machine (edit_step pl) q es = (t, outs)"
      by (cases "run_machine (edit_step pl) q es")
    have "map unat outs = map (\<lambda>k. unat (plan_revision q) + Suc k) [0..<length outs]"
      "same_header q t" "unat (plan_revision t) = unat (plan_revision q) + length outs"
      using Cons.IH [of q] run by simp_all
    moreover have "[0..<length (plan_revision q # outs)] = 0 # map Suc [0..<length outs]"
      by (simp add: map_Suc_upt upt_conv_Cons del: upt_Suc)
    moreover have "edit_step pl p e = Inr (q, plan_revision q)" using Inr by (simp add: edit_step_def)
    then have "run_machine (edit_step pl) p (e # es) = (t, plan_revision q # outs)" using run by simp
    ultimately show ?thesis
      using nx by (auto simp: comp_def simp del: upt_Suc run_machine.simps intro: same_header_trans)
  qed
qed simp

section \<open>Edits that succeed\<close>

lemma recue_ok:
  assumes p: "plan_ok p" "plan_status p = PlanStatus.Ready"
    and shape: "map cue_shape cues = map cue_shape (plan_cues p)"
    and "\<not> has_fallback_cue cues" "\<not> starting_cue_inconsistent d cues" "r \<noteq> 0"
  shows "plan_ok (p\<lparr>plan_revision := r, plan_theme_decision := Some d, plan_cues := cues\<rparr>)"
  using assms cues_ok_shape [OF shape] by (simp add: plan_ok_def)

lemma revised_accepts:
  assumes p: "plan_ok p" "plan_status p = PlanStatus.Ready"
    and "map cue_shape cues = map cue_shape (plan_cues p)"
    and "\<not> has_fallback_cue cues" "\<not> starting_cue_inconsistent d cues"
  shows "revised_with_theme_decision p cues (Some d) =
    (case plan_revision_checked_next (plan_revision p) of
       None \<Rightarrow> Inl RevisionOverflow
     | Some r \<Rightarrow> Inr (p\<lparr>plan_revision := r, plan_theme_decision := Some d, plan_cues := cues\<rparr>))"
proof (cases "plan_revision_checked_next (plan_revision p)")
  case None
  then show ?thesis by (simp add: revised_with_theme_decision_def)
next
  case (Some r)
  then have "r \<noteq> 0" using plan_revision_next_gt by blast
  from recue_ok [OF assms this] Some show ?thesis by (auto simp: revised_Inr)
qed

lemma ready_decision:
  "plan_ok p \<Longrightarrow> plan_status p = PlanStatus.Ready \<Longrightarrow>
   \<exists>d. plan_theme_decision p = Some d \<and> \<not> starting_cue_inconsistent d (plan_cues p)
     \<and> \<not> has_fallback_cue (plan_cues p)"
  by (auto simp: plan_ok_def)

lemma starting_cue_update:
  assumes "\<not> starting_cue_inconsistent d cues" "i < length cues"
    and "\<And>look. cue_action (cues ! i) = ApplyLook look \<Longrightarrow>
      \<exists>new_look. cue_action c = ApplyLook new_look \<and> look_theme_id new_look = look_theme_id look
        \<and> look_theme_name new_look = look_theme_name look"
  shows "\<not> starting_cue_inconsistent d (cues[i := c])"
  using assms by (cases cues; cases i)
    (fastforce simp: starting_cue_inconsistent_def split: SemanticLightingAction.splits)+

lemma revised_one_cue:
  assumes p: "plan_ok p" "plan_status p = PlanStatus.Ready" and i: "i < length (plan_cues p)"
    and shape: "cue_shape c = cue_shape (plan_cues p ! i)" "cue_origin c \<noteq> CueOrigin.Fallback"
    and look: "\<And>look. cue_action (plan_cues p ! i) = ApplyLook look \<Longrightarrow>
      \<exists>new_look. cue_action c = ApplyLook new_look \<and> look_theme_id new_look = look_theme_id look
        \<and> look_theme_name new_look = look_theme_name look"
  shows "plan_revised p ((plan_cues p)[i := c]) =
    (case plan_revision_checked_next (plan_revision p) of
       None \<Rightarrow> Inl RevisionOverflow
     | Some r \<Rightarrow> Inr (p\<lparr>plan_revision := r, plan_cues := (plan_cues p)[i := c]\<rparr>))"
proof -
  obtain d where d: "plan_theme_decision p = Some d" "\<not> starting_cue_inconsistent d (plan_cues p)"
      "\<not> has_fallback_cue (plan_cues p)"
    using ready_decision [OF p] by blast
  have "revised_with_theme_decision p ((plan_cues p)[i := c]) (Some d) =
    (case plan_revision_checked_next (plan_revision p) of
       None \<Rightarrow> Inl RevisionOverflow
     | Some r \<Rightarrow> Inr (p\<lparr>plan_revision := r, plan_theme_decision := Some d,
                       plan_cues := (plan_cues p)[i := c]\<rparr>))"
    using revised_accepts [OF p shape_update [OF i shape(1)] has_fallback_update [OF d(3) shape(2)]
        starting_cue_update [OF d(2) i look]] .
  then show ?thesis
    using d(1) by (cases p) (simp add: plan_revised_def split: option.splits)
qed

section \<open>Themes of cues\<close>

text \<open>A cue that shows the same scene under another Theme.\<close>

definition rethemed :: "ThemeDefinition \<Rightarrow> CueOrigin \<Rightarrow> LightingCue \<Rightarrow> LightingCue \<Rightarrow> bool" where
  "rethemed th origin c c' \<longleftrightarrow>
     (\<exists>look. cue_action c = ApplyLook look
        \<and> c' = c\<lparr>cue_action := ApplyLook (look\<lparr>look_theme_id := theme_def_id th,
                    look_theme_name := theme_def_name th\<rparr>), cue_origin := origin\<rparr>)"

lemma retheme_cue_Inr:
  "retheme_cue th origin c = Inr c' \<Longrightarrow> rethemed th (origin c) c c'"
  by (cases c)
     (auto simp: retheme_cue_def retheme_look_def try_new_look_def result_simps rethemed_def cue_revised_def
        split: SemanticLightingAction.splits if_splits)

lemma retheme_cues_Inr:
  "try_map (retheme_cue th origin) cs = Inr cs' \<Longrightarrow>
   list_all2 (\<lambda>c c'. rethemed th (origin c) c c') cs cs'"
  unfolding try_map_eq_Inr by (erule list_all2_mono) (rule retheme_cue_Inr)

lemma retheme_from_Inr:
  "try_map (retheme_from th idx) cs = Inr cs' \<Longrightarrow>
   list_all2 (\<lambda>c c'. if cue_phrase_index c < idx then c' = c else rethemed th CueOrigin.User c c') cs cs'"
  unfolding try_map_eq_Inr
  by (erule list_all2_mono) (auto simp: retheme_from_def dest: retheme_cue_Inr split: if_splits)

lemma rethemed_shape: "list_all2 (\<lambda>c c'. rethemed th (f c) c c') cs cs' \<Longrightarrow> map cue_shape cs' = map cue_shape cs"
  by (induction rule: list_all2_induct) (auto simp: rethemed_def cue_shape_def)

lemma select_theme_Inr:
  assumes "select_theme pl p t = Inr q"
  shows "\<exists>th. planner_theme pl t = Some th
    \<and> list_all2 (rethemed th CueOrigin.User) (plan_cues p) (plan_cues q)
    \<and> plan_theme_decision q = Some \<lparr>decision_theme_id = t, decision_theme_name = theme_def_name th,
        decision_reason = PlanInstanceUserChoice, decision_matched_color = None\<rparr>"
proof -
  obtain th cues d where th: "planner_theme pl t = Some th"
    and cues: "try_map (retheme_cue th (\<lambda>_. CueOrigin.User)) (plan_cues p) = Inr cues"
    and d: "user_decision th = Inr d"
    and q: "revised_with_theme_decision p cues (Some d) = Inr q"
    using assms by (auto simp: select_theme_def edit_simps split: if_splits)
  have "d = \<lparr>decision_theme_id = t, decision_theme_name = theme_def_name th,
      decision_reason = PlanInstanceUserChoice, decision_matched_color = None\<rparr>"
    using d planner_theme_SomeD [OF th]
    by (auto simp: user_decision_def try_new_theme_decision_def map_err_eq split: if_splits)
  moreover have "plan_cues q = cues" "plan_theme_decision q = Some d"
    using q by (auto simp: revised_Inr)
  ultimately show ?thesis using th retheme_cues_Inr [OF cues] by auto
qed

section \<open>Scenes of cues\<close>

definition themes_of_looks_named :: "LightingPlan \<Rightarrow> bool" where
  "themes_of_looks_named p \<longleftrightarrow> (\<forall>c \<in> set (plan_cues p). \<forall>look.
     cue_action c = ApplyLook look \<longrightarrow> \<not> blank (look_theme_name look))"

definition scene_cue :: "SceneDefinition \<Rightarrow> LightingCue \<Rightarrow> LightingLook \<Rightarrow> LightingCue" where
  "scene_cue sc c look =
     cue_revised c (ApplyLook \<lparr>look_theme_id = look_theme_id look, look_theme_name = look_theme_name look,
       look_scene_id = scene_def_id sc, look_scene_name = scene_def_name sc,
       look_category = scene_def_category sc, look_loop_selection = scene_def_loop_selection sc\<rparr>)
       CueOrigin.User (cue_locked c)"

lemma scene_cue_eq:
  "scene_cue sc c look = c\<lparr>cue_action := ApplyLook (look\<lparr>look_scene_id := scene_def_id sc,
     look_scene_name := scene_def_name sc, look_category := scene_def_category sc,
     look_loop_selection := scene_def_loop_selection sc\<rparr>), cue_origin := CueOrigin.User\<rparr>"
  by (cases c; cases look) (simp add: scene_cue_def cue_revised_def)

lemma revised_scene_cue:
  assumes p: "plan_ok p" "plan_status p = PlanStatus.Ready"
    and c: "get_nth (plan_cues p) i = Some c" and look: "cue_action c = ApplyLook look"
  shows "plan_revised p ((plan_cues p)[i := scene_cue sc c look]) =
    (case plan_revision_checked_next (plan_revision p) of
       None \<Rightarrow> Inl RevisionOverflow
     | Some r \<Rightarrow> Inr (p\<lparr>plan_revision := r, plan_cues := (plan_cues p)[i := scene_cue sc c look]\<rparr>))"
proof -
  have i: "i < length (plan_cues p)" "plan_cues p ! i = c"
    using c by (auto simp: get_nth_def split: if_splits)
  show ?thesis
    using i(2) look
    by (intro revised_one_cue [OF p i(1)]) (simp_all add: scene_cue_def cue_revised_def cue_shape_def)
qed

section \<open>Properties of edits\<close>

text \<open>
  C4. Any sequence of edits keeps a well-formed plan well formed and about the same
  deck, load and track. Refused edits leave the plan as it is, and the accepted ones
  number its revisions consecutively.
\<close>

theorem edits_keep_plan:
  assumes "plan_ok p"
  shows "case run_machine (edit_step pl) p es of (q, revisions) \<Rightarrow>
      plan_ok q \<and> same_header p q
    \<and> map unat revisions = map (\<lambda>k. unat (plan_revision p) + Suc k) [0..<length revisions]
    \<and> unat (plan_revision q) = unat (plan_revision p) + length revisions"
  using run_edits_history [of p pl es] edits.inv_run_from [OF assms, of es pl]
  by (cases "run_machine (edit_step pl) p es") (simp add: list_all_iff)

text \<open>
  Locking and unlocking a cue is total on well-formed plans: it refuses exactly a
  fallback plan, a missing phrase, a lock that is already so and an exhausted revision
  counter, and otherwise changes that one cue and the revision.
\<close>

theorem set_cue_lock_exact:
  assumes p: "plan_ok p"
  shows "set_cue_lock p idx locked =
    (if plan_status p \<noteq> PlanStatus.Ready then Inl FallbackPlanNotEditable
     else if length (plan_cues p) \<le> unat idx then Inl (UnknownPhrase idx)
     else if cue_locked (plan_cues p ! unat idx) = locked then Inl NoChange
     else case plan_revision_checked_next (plan_revision p) of
         None \<Rightarrow> Inl (PlanMutationError.InvalidPlan RevisionOverflow)
       | Some r \<Rightarrow> Inr (p\<lparr>plan_revision := r, plan_cues := (plan_cues p)[unat idx :=
           (plan_cues p ! unat idx)\<lparr>cue_origin := CueOrigin.User, cue_locked := locked\<rparr>]\<rparr>))"
proof (cases "plan_status p = PlanStatus.Ready \<and> unat idx < length (plan_cues p)")
  case True
  let ?c = "plan_cues p ! unat idx"
  have c: "cue_revised ?c (cue_action ?c) CueOrigin.User locked
      = ?c\<lparr>cue_origin := CueOrigin.User, cue_locked := locked\<rparr>"
    by (simp add: cue_revised_def)
  have "plan_revised p ((plan_cues p)[unat idx := cue_revised ?c (cue_action ?c) CueOrigin.User locked]) =
    (case plan_revision_checked_next (plan_revision p) of
       None \<Rightarrow> Inl RevisionOverflow
     | Some r \<Rightarrow> Inr (p\<lparr>plan_revision := r, plan_cues := (plan_cues p)[unat idx :=
         cue_revised ?c (cue_action ?c) CueOrigin.User locked]\<rparr>))"
    using True by (intro revised_one_cue [OF p]) (simp_all add: cue_revised_def cue_shape_def)
  then show ?thesis
    using True c by (simp add: set_cue_lock_def ensure_ready_def get_nth_def split: option.splits)
next
  case False
  then show ?thesis by (auto simp: set_cue_lock_def ensure_ready_def get_nth_def)
qed

text \<open>
  Choosing a scene: on a well-formed ready plan the choice is accepted exactly when
  the scene is configured under a name, the phrase exists, its cue applies a look of the
  scene's category with another scene, and a revision is left. The one cue then shows
  the chosen scene under the Theme it had, and keeps its lock.
\<close>

theorem select_scene_accepted_iff:
  assumes p: "plan_ok p" and "themes_of_looks_named p"
  shows "select_scene pl p idx s = Inr q \<longleftrightarrow>
    (\<exists>sc c kind look r.
       plan_status p = PlanStatus.Ready
     \<and> find (\<lambda>d. scene_def_id d = s) (config_scenes (planner_configuration pl)) = Some sc
     \<and> \<not> blank (scene_def_name sc)
     \<and> get_nth (plan_cues p) (unat idx) = Some c
     \<and> cue_reason c = PhraseCategoryMatched kind (scene_def_category sc)
     \<and> cue_action c = ApplyLook look \<and> look_scene_id look \<noteq> s
     \<and> plan_revision_checked_next (plan_revision p) = Some r
     \<and> q = p\<lparr>plan_revision := r, plan_cues := (plan_cues p)[unat idx :=
         c\<lparr>cue_action := ApplyLook (look\<lparr>look_scene_id := s, look_scene_name := scene_def_name sc,
             look_category := scene_def_category sc,
             look_loop_selection := scene_def_loop_selection sc\<rparr>),
           cue_origin := CueOrigin.User\<rparr>]\<rparr>)"
  (is "_ = (\<exists>sc c kind look r. ?ok sc c kind look r)")
proof
  assume sel: "select_scene pl p idx s = Inr q"
  obtain sc c where sc: "find (\<lambda>d. scene_def_id d = s) (config_scenes (planner_configuration pl)) = Some sc"
    and c: "get_nth (plan_cues p) (unat idx) = Some c"
    and ready: "plan_status p = PlanStatus.Ready"
    using sel by (auto simp: select_scene_def edit_simps)
  have s: "scene_def_id sc = s" using find_SomeD [OF sc] by simp
  have cat: "cue_category c = Inr (scene_def_category sc)"
    using sel sc c ready by (auto simp: select_scene_def edit_simps split: if_splits)
  then obtain kind where kind: "cue_reason c = PhraseCategoryMatched kind (scene_def_category sc)"
    by (cases "cue_reason c") (simp_all add: cue_category_def)
  obtain look where look: "cue_action c = ApplyLook look"
    using sel sc c ready cat by (cases "cue_action c") (simp_all add: select_scene_def ensure_ready_def)
  have named: "look_scene_id look \<noteq> s" "\<not> blank (scene_def_name sc)" "\<not> blank (look_theme_name look)"
    using sel sc c ready cat look s
    by (simp_all add: select_scene_def ensure_ready_def try_new_look_def split: if_splits)
  have "select_scene pl p idx s = map_err PlanMutationError.InvalidPlan (plan_revised p
      ((plan_cues p)[unat idx := scene_cue sc c look]))"
    using sc c ready cat look s named
    by (simp add: select_scene_def scene_cue_def ensure_ready_def try_new_look_def)
  then have "map_err PlanMutationError.InvalidPlan (plan_revised p
      ((plan_cues p)[unat idx := scene_cue sc c look])) = Inr q" using sel by simp
  then obtain r where "plan_revision_checked_next (plan_revision p) = Some r"
      "q = p\<lparr>plan_revision := r, plan_cues := (plan_cues p)[unat idx := scene_cue sc c look]\<rparr>"
    using revised_scene_cue [OF p ready c look, of sc]
    by (auto simp: map_err_eq split: option.splits)
  then show "\<exists>sc c kind look r. ?ok sc c kind look r"
    using sc c ready s kind look named by (intro exI [of _ sc] exI [of _ c] exI) (simp add: scene_cue_eq)
next
  assume "\<exists>sc c kind look r. ?ok sc c kind look r"
  then obtain sc c kind look r where ok: "?ok sc c kind look r" by blast
  have s: "scene_def_id sc = s"
    using ok find_SomeD [of "\<lambda>d. scene_def_id d = s" _ sc] by auto
  have "\<not> blank (look_theme_name look)"
    using assms(2) ok get_nth_member [of "plan_cues p" "unat idx" c] by (simp add: themes_of_looks_named_def)
  then have "select_scene pl p idx s = map_err PlanMutationError.InvalidPlan (plan_revised p
      ((plan_cues p)[unat idx := scene_cue sc c look]))"
    using ok s by (simp add: select_scene_def scene_cue_def ensure_ready_def cue_category_def try_new_look_def)
  then show "select_scene pl p idx s = Inr q"
    using ok revised_scene_cue [OF p, of "unat idx" c look sc] s by (simp add: scene_cue_eq)
qed

text \<open>
  A Theme chosen from a phrase on applies to exactly the cues from that phrase: the
  cues before it stay as they are, and each later one shows the same scene under the new
  Theme, keeping its beats, its reason and its lock. Chosen from the first phrase it also
  becomes the decision of the plan; otherwise the decision stays.
\<close>

theorem theme_from_phrase_effect:
  assumes "select_theme_from_phrase pl p idx t = Inr q"
  shows "\<exists>th. planner_theme pl t = Some th
    \<and> list_all2 (\<lambda>c c'. if cue_phrase_index c < idx then c' = c else rethemed th CueOrigin.User c c')
        (plan_cues p) (plan_cues q)
    \<and> plan_theme_decision q =
        (if idx = 0 then Some \<lparr>decision_theme_id = t, decision_theme_name = theme_def_name th,
           decision_reason = PlanInstanceUserChoice, decision_matched_color = None\<rparr>
         else plan_theme_decision p)"
proof (cases "idx = 0")
  case True
  then show ?thesis
    using select_theme_Inr [of pl p t q] assms by (simp add: select_theme_from_phrase_def)
next
  case False
  obtain th cues where th: "planner_theme pl t = Some th"
    and cues: "try_map (retheme_from th idx) (plan_cues p) = Inr cues"
    and q: "plan_revised p cues = Inr q"
    using assms False by (auto simp: select_theme_from_phrase_def and_then_eq_Inr ok_or_eq map_err_eq split: if_splits)
  have "plan_cues q = cues" "plan_theme_decision q = plan_theme_decision p"
    using q by (auto simp: plan_revised_def revised_Inr)
  then show ?thesis using th retheme_from_Inr [OF cues] False by auto
qed

section \<open>Regeneration\<close>

text \<open>What regeneration gives a phrase before the locked cues are put back.\<close>

definition fresh_cue :: "TrackPhrase \<Rightarrow> LightingCue \<Rightarrow> bool" where
  "fresh_cue p c \<longleftrightarrow>
     cue_phrase_index c = phrase_index p \<and> cue_start_beat c = phrase_start_beat p
   \<and> cue_end_beat c = phrase_end_beat p \<and> cue_origin c = CueOrigin.Automatic \<and> \<not> cue_locked c
   \<and> cue_category c = Inr (category_for (phrase_kind p))"

text \<open>Whether the old cue of a phrase is locked and still fits it.\<close>

definition lock_fits :: "LightingPlan \<Rightarrow> TrackPhrase \<Rightarrow> nat \<Rightarrow> bool" where
  "lock_fits p ph i \<longleftrightarrow> i < length (plan_cues p)
     \<and> cue_locked (plan_cues p ! i)
     \<and> cue_start_beat (plan_cues p ! i) = phrase_start_beat ph
     \<and> cue_end_beat (plan_cues p ! i) = phrase_end_beat ph
     \<and> cue_category (plan_cues p ! i) = Inr (category_for (phrase_kind ph))"

lemma cue_of_phrase_fresh: "cue_of_phrase pl pid d p c \<Longrightarrow> fresh_cue p c"
  by (auto simp: cue_of_phrase_def fresh_cue_def cue_category_def)

lemma rethemed_fresh: "fresh_cue p c \<Longrightarrow> rethemed th (cue_origin c) c c' \<Longrightarrow> fresh_cue p c'"
  by (auto simp: fresh_cue_def rethemed_def cue_category_def)

lemma keep_locked_fresh:
  assumes "fresh_cue ph c" "unat (phrase_index ph) = i"
  shows "keep_locked p c = (if lock_fits p ph i then plan_cues p ! i else c)"
proof -
  have "ok (cue_category x) = Some k \<longleftrightarrow> cue_category x = Inr k" for x k
    by (cases "cue_category x") simp_all
  then show ?thesis
    using assms by (auto simp: keep_locked_def fresh_cue_def lock_fits_def get_nth_def)
qed

lemma retheme_generated_Inr:
  assumes "retheme_generated pl g t = Inr g'"
  shows "\<exists>th. list_all2 (\<lambda>c c'. rethemed th (cue_origin c) c c') (plan_cues g) (plan_cues g')"
proof -
  obtain th cues where "try_map (retheme_cue th cue_origin) (plan_cues g) = Inr cues" "plan_cues g' = cues"
    using assms by (auto simp: retheme_generated_def and_then_eq_Inr ok_or_eq map_err_eq
        try_new_with_theme_decision_ok)
  then show ?thesis using retheme_cues_Inr by blast
qed

lemma regenerate_Inr:
  assumes "regenerate pl p input = Inr q"
  obtains fresh g where "generate pl input = Inr fresh" "regeneration_base pl p fresh = Inr g"
    "plan_cues q = map (keep_locked p) (plan_cues g)" "plan_theme_decision q = plan_theme_decision g"
    "plan_status q = PlanStatus.Ready" "plan_ok q"
proof -
  from assms obtain fresh g where "generate pl input = Inr fresh" "regeneration_base pl p fresh = Inr g"
    and q: "revised_with_theme_decision p (map (keep_locked p) (plan_cues g)) (plan_theme_decision g) = Inr q"
    unfolding regenerate_def by (auto simp: and_then_eq_Inr map_err_eq split: if_splits)
  moreover have "plan_status q = PlanStatus.Ready"
    using regenerate_edit.edit_stays_ready [OF assms] .
  ultimately show ?thesis using that by (auto simp: revised_Inr)
qed

lemma regeneration_base_Inr:
  assumes "regeneration_base pl p fresh = Inr g"
  shows "g = fresh \<or> (\<exists>th. list_all2 (\<lambda>c c'. rethemed th (cue_origin c) c c') (plan_cues fresh) (plan_cues g))"
  using assms retheme_generated_Inr
  by (cases "user_chose_theme p"; cases "plan_theme_decision p") (auto simp: regeneration_base_def)

lemma regenerate_fresh:
  assumes "regenerate pl p input = Inr q"
  obtains ps cues where "complete_phrases (input_track input) = Some ps"
    "list_all2 fresh_cue ps cues" "plan_cues q = map (keep_locked p) cues"
proof -
  obtain fresh g where fresh: "generate pl input = Inr fresh" "regeneration_base pl p fresh = Inr g"
    and cues: "plan_cues q = map (keep_locked p) (plan_cues g)"
    and dec: "plan_theme_decision q = plan_theme_decision g"
    and ok: "plan_status q = PlanStatus.Ready" "plan_ok q"
    using regenerate_Inr [OF assms] .
  note g = regeneration_base_Inr [OF fresh(2)]
  have body: "plan_body pl input default_selection_context fresh"
    using generate_Inr fresh(1) by (simp add: generate_def)
  have "plan_theme_decision g \<noteq> None" using dec ok by (auto simp: plan_ok_def)
  then obtain ps where ps: "complete_phrases (input_track input) = Some ps"
    using body g
    by (cases "complete_phrases (input_track input)")
       (auto simp: plan_body_def fallback_cue_def new_cue_def rethemed_def list_all2_Cons1)
  then have fr: "list_all2 fresh_cue ps (plan_cues fresh)"
    using body cue_of_phrase_fresh by (auto simp: plan_body_def elim: list_all2_mono)
  have "list_all2 fresh_cue ps (plan_cues g)"
    using g
  proof
    assume "\<exists>th. list_all2 (\<lambda>c c'. rethemed th (cue_origin c) c c') (plan_cues fresh) (plan_cues g)"
    then obtain th where "list_all2 (\<lambda>c c'. rethemed th (cue_origin c) c c') (plan_cues fresh) (plan_cues g)" ..
    from list_all2_trans [OF rethemed_fresh fr this] show ?thesis by assumption
  qed (use fr in simp)
  with ps cues show ?thesis using that by blast
qed

text \<open>
  An accepted regeneration plans the complete analysis of the track again. A cue
  that is locked and still fits its phrase (same beats, same category) is carried over
  unchanged; every other phrase gets a fresh, unlocked, automatic cue of its category.
\<close>

theorem regenerate_keeps_locks:
  assumes "regenerate pl p input = Inr q"
  shows "\<exists>ps. complete_phrases (input_track input) = Some ps \<and> length (plan_cues q) = length ps
    \<and> (\<forall>i < length ps. if lock_fits p (ps ! i) i then plan_cues q ! i = plan_cues p ! i
                        else fresh_cue (ps ! i) (plan_cues q ! i))"
proof -
  obtain ps cues where ps: "complete_phrases (input_track input) = Some ps"
    and fresh: "list_all2 fresh_cue ps cues" and q: "plan_cues q = map (keep_locked p) cues"
    using regenerate_fresh [OF assms] .
  have len: "length cues = length ps" using list_all2_lengthD [OF fresh] by simp
  have "indexed phrase_index ps"
    using ps by (auto simp: complete_phrases_def analysis_is_complete_iff split: option.splits if_splits)
  then have "keep_locked p (cues ! i) = (if lock_fits p (ps ! i) i then plan_cues p ! i else cues ! i)"
    if "i < length ps" for i
    using keep_locked_fresh [OF list_all2_nthD [OF fresh that]] that by (simp add: indexed_def)
  then show ?thesis using ps q len list_all2_nthD [OF fresh] by auto
qed

text \<open>
  A lock on the first cue can make regeneration impossible. If the Theme was not
  chosen by the user, the fresh plan decides on another Theme than the one the locked and
  still fitting first cue shows, and that cue is carried over, then no plan results: the
  constructor rejects the mixture.
\<close>

theorem regenerate_locked_start_refused:
  assumes "generate pl input = Inr g" "plan_theme_decision g = Some d" "\<not> user_chose_theme p"
    and ps: "complete_phrases (input_track input) = Some (ph # phs)" "lock_fits p ph 0"
    and look: "cue_action (plan_cues p ! 0) = ApplyLook look" "look_theme_id look \<noteq> decision_theme_id d"
  shows "\<exists>e. regenerate pl p input = Inl e"
proof (rule ccontr)
  assume "\<not> ?thesis"
  then obtain q where q: "regenerate pl p input = Inr q"
    by (cases "regenerate pl p input") auto
  obtain fresh g' where fresh: "generate pl input = Inr fresh" "regeneration_base pl p fresh = Inr g'"
    and q': "plan_cues q = map (keep_locked p) (plan_cues g')" "plan_theme_decision q = plan_theme_decision g'"
      "plan_ok q"
    using regenerate_Inr [OF q] by blast
  have g: "g' = g" using fresh assms(1,3) by (simp add: regeneration_base_def)
  obtain c cs where c: "plan_cues g = c # cs" "fresh_cue ph c"
    using generate_Inr [of pl input default_selection_context g] assms(1) ps(1)
    by (auto simp: generate_def plan_body_def list_all2_Cons1 dest: cue_of_phrase_fresh)
  have "unat (phrase_index ph) = 0"
    using ps(1) by (auto simp: complete_phrases_def analysis_is_complete_def split: option.splits if_splits)
  then have "keep_locked p c = plan_cues p ! 0" using keep_locked_fresh [OF c(2)] ps(2) by simp
  then have "starting_cue_inconsistent d (plan_cues q)"
    using q'(1) g c(1) look by (simp add: starting_cue_inconsistent_def)
  then show False using q'(2,3) g assms(2) by (auto simp: plan_ok_def)
qed

section \<open>Witnesses\<close>

lemma demo_generated_ok: "plan_ok demo_generated"
  using generate_Inr [OF demo_generate] by simp

lemmas plan_demo_defs = demo_generated_def demo_generated_cue_def new_cue_def scene_def

theorem edits_keep_plan_witness:
  "plan_ok demo_generated
   \<and> (case run_machine (edit_step epic_one) demo_generated
          [SetCueLock 0 True, SelectScene 1 7, RegeneratePlan demo_input] of (q, revisions) \<Rightarrow>
      plan_ok q \<and> same_header demo_generated q
    \<and> map unat revisions = map (\<lambda>k. unat (plan_revision demo_generated) + Suc k) [0..<length revisions]
    \<and> unat (plan_revision q) = unat (plan_revision demo_generated) + length revisions)"
  by (intro conjI demo_generated_ok edits_keep_plan)

lemma demo_locked_revision: "plan_revision_checked_next (plan_revision demo_generated) = Some 2"
  by (simp add: demo_generated_def plan_revision_checked_next_def checked_add_def)

theorem set_cue_lock_exact_witness:
  "plan_ok demo_generated
   \<and> set_cue_lock demo_generated 0 True
       = Inr (demo_generated\<lparr>plan_revision := 2, plan_cues := (plan_cues demo_generated)[0 :=
           (plan_cues demo_generated ! 0)\<lparr>cue_origin := CueOrigin.User, cue_locked := True\<rparr>]\<rparr>)
   \<and> set_cue_lock demo_generated 2 True = Inl (UnknownPhrase 2)"
  using set_cue_lock_exact [OF demo_generated_ok, of 0 True]
    set_cue_lock_exact [OF demo_generated_ok, of 2 True] demo_generated_ok demo_locked_revision
  by (simp add: plan_demo_defs)

lemma demo_looks_named: "themes_of_looks_named demo_generated"
  by (simp add: themes_of_looks_named_def plan_demo_defs blank_def ascii_white_space_def white_space2_def
      white_space3_def)

theorem select_scene_accepted_iff_witness:
  "plan_ok demo_generated \<and> themes_of_looks_named demo_generated
   \<and> select_scene epic_one demo_generated 1 7
       = Inr (demo_generated\<lparr>plan_revision := 2, plan_cues := (plan_cues demo_generated)[1 :=
           (plan_cues demo_generated ! 1)
             \<lparr>cue_action := ApplyLook \<lparr>look_theme_id = 1, look_theme_name = ''Electric Bloom'',
                look_scene_id = 7, look_scene_name = ''Full Energy'', look_category = Impact,
                look_loop_selection = new_loop_selection 4 1\<rparr>,
              cue_origin := CueOrigin.User\<rparr>]\<rparr>)"
proof -
  have sc: "find (\<lambda>d. scene_def_id d = 7) (config_scenes (planner_configuration epic_one))
      = Some (scene 7 ''Full Energy'' Impact 4 1)"
    by (simp add: epic_one_def epic_one_configuration_def scene_def)
  have named: "\<not> blank (scene_def_name (scene 7 ''Full Energy'' Impact 4 1))"
    by (simp add: scene_def blank_def ascii_white_space_def white_space2_def white_space3_def)
  show ?thesis
    using select_scene_accepted_iff [OF demo_generated_ok demo_looks_named, of epic_one 1 7]
      demo_generated_ok demo_looks_named demo_locked_revision sc named
    by (simp add: plan_demo_defs get_nth_def)
qed

definition in_ultraviolet :: "LightingCue \<Rightarrow> LightingCue" where
  "in_ultraviolet c =
     (case cue_action c of
        ApplyLook look \<Rightarrow> c\<lparr>cue_action := ApplyLook
          (look\<lparr>look_theme_id := 4, look_theme_name := ''Ultraviolet''\<rparr>)\<rparr>
      | HoldCurrentLook \<Rightarrow> c)"

definition demo_rotated :: LightingPlan where
  "demo_rotated = demo_generated\<lparr>
     plan_theme_decision := Some \<lparr>decision_theme_id = 4, decision_theme_name = ''Ultraviolet'',
       decision_reason = Rotation, decision_matched_color = None\<rparr>,
     plan_cues := map in_ultraviolet (plan_cues demo_generated)\<rparr>"

definition demo_locked :: LightingPlan where
  "demo_locked = demo_rotated\<lparr>plan_revision := 2, plan_cues := (plan_cues demo_rotated)[0 :=
     (plan_cues demo_rotated ! 0)\<lparr>cue_origin := CueOrigin.User, cue_locked := True\<rparr>]\<rparr>"

lemma demo_rotation:
  "select_initial_theme epic_one (with_analysis 7 64 demo_phrases) 0xba20a56a32af65c3
     (new_selection_context [1]) = Inr \<lparr>decision_theme_id = 4, decision_theme_name = ''Ultraviolet'',
            decision_reason = Rotation, decision_matched_color = None\<rparr>"
  by (simp add: select_initial_theme_def epic_one_def epic_one_configuration_def with_analysis_def
      rotation_or_default_def new_selection_context_def rotation_candidates_def stable_choose_def
      THEME_KEY_def mix_def get_nth_def planner_decision_def planner_theme_def
      try_new_theme_decision_def blank_def ascii_white_space_def white_space2_def white_space3_def)

lemma demo_rotated_cues:
  "plan_analyzed_phrases epic_one 0xba20a56a32af65c3 0x61946baa3b0dab0c demo_phrases
     \<lparr>theme_def_id = 4, theme_def_name = ''Ultraviolet''\<rparr> = Inr (plan_cues demo_rotated)"
  by (simp add: plan_analyzed_phrases_def demo_phrases_def demo_rotated_def in_ultraviolet_def plan_demo_defs
      plan_phrase_def Let_def phrase_decision_def epic_one_def epic_one_configuration_def
      stable_choose_def mix_def nonzero_def get_nth_def try_new_look_def blank_def
      ascii_white_space_def white_space2_def white_space3_def)

lemma demo_generate_rotated:
  "generate_with_context epic_one demo_input (new_selection_context [1]) = Inr demo_rotated"
proof -
  have complete: "analysis_is_complete demo_phrases 64"
    by (simp add: demo_phrases_def analysis_is_complete_def)
  have theme: "planner_theme epic_one 4 = Some \<lparr>theme_def_id = 4, theme_def_name = ''Ultraviolet''\<rparr>"
    by (simp add: planner_theme_def epic_one_def epic_one_configuration_def)
  have "generate_cues epic_one demo_input (new_selection_context [1])
      = Inr (plan_theme_decision demo_rotated, plan_cues demo_rotated)"
    unfolding generate_cues_def demo_seed demo_plan_id
    using complete demo_rotation theme demo_rotated_cues
    by (simp add: demo_input_def with_analysis_def demo_rotated_def)
  then show ?thesis
    unfolding generate_with_context_def demo_seed demo_plan_id
    by (simp add: demo_input_def with_analysis_def demo_rotated_def in_ultraviolet_def plan_demo_defs
        try_new_with_theme_decision_def plan_revision_initial_def epic_one_def
        epic_one_configuration_def starting_cue_inconsistent_def)
qed

lemma demo_lock: "set_cue_lock demo_rotated 0 True = Inr demo_locked"
proof -
  have "plan_ok demo_rotated" using generate_Inr [OF demo_generate_rotated] by simp
  moreover have "plan_revision_checked_next (plan_revision demo_rotated) = Some 2"
    using demo_locked_revision by (simp add: demo_rotated_def)
  moreover have "plan_revised demo_rotated (plan_cues demo_locked) = Inr demo_locked"
    using revised_one_cue [OF \<open>plan_ok demo_rotated\<close>, of 0
        "(plan_cues demo_rotated ! 0)\<lparr>cue_origin := CueOrigin.User, cue_locked := True\<rparr>"] calculation(2)
    by (simp add: demo_locked_def demo_rotated_def in_ultraviolet_def plan_demo_defs cue_shape_def)
  ultimately show ?thesis
    by (simp add: set_cue_lock_def ensure_ready_def get_nth_def demo_locked_def demo_rotated_def
        in_ultraviolet_def plan_demo_defs cue_revised_def)
qed

lemma demo_fresh: "generate epic_one demo_input = Inr demo_generated"
  using demo_generate by (simp add: generate_def)

lemmas plan_demo_eval = plan_demo_defs keep_locked_def get_nth_def cue_category_def revised_with_theme_decision_def
  try_new_with_theme_decision_def starting_cue_inconsistent_def plan_revision_checked_next_def
  checked_add_def regeneration_base_def user_chose_theme_def ensure_ready_def demo_input_def with_analysis_def

definition demo_kept :: LightingPlan where
  "demo_kept = demo_generated\<lparr>plan_revision := 3, plan_cues := (plan_cues demo_generated)[1 :=
     (plan_cues demo_generated ! 1)\<lparr>cue_origin := CueOrigin.User, cue_locked := True\<rparr>]\<rparr>"

lemma demo_regenerate: "regenerate epic_one demo_kept demo_input = Inr (demo_kept\<lparr>plan_revision := 4\<rparr>)"
  unfolding regenerate_def demo_fresh by (simp add: demo_kept_def plan_demo_eval)

theorem regenerate_keeps_locks_witness:
  "regenerate epic_one demo_kept demo_input = Inr (demo_kept\<lparr>plan_revision := 4\<rparr>)
   \<and> (\<exists>ps. complete_phrases (input_track demo_input) = Some ps \<and> length ps = 2
        \<and> lock_fits demo_kept (ps ! 1) 1
        \<and> \<not> lock_fits demo_kept (ps ! 0) 0 \<and> fresh_cue (ps ! 0) (plan_cues demo_kept ! 0))"
proof -
  have ps: "complete_phrases (input_track demo_input) = Some demo_phrases"
    by (simp add: complete_phrases_def demo_input_def with_analysis_def demo_phrases_def analysis_is_complete_def)
  moreover have "lock_fits demo_kept (demo_phrases ! 1) 1" "\<not> lock_fits demo_kept (demo_phrases ! 0) 0"
    "length demo_phrases = 2"
    by (simp_all add: lock_fits_def demo_kept_def demo_phrases_def plan_demo_defs cue_category_def)
  moreover have "fresh_cue (demo_phrases ! 0) (plan_cues demo_kept ! 0)"
    using regenerate_keeps_locks [OF demo_regenerate] ps calculation(3,4) by (auto dest: spec [of _ 0])
  ultimately show ?thesis using demo_regenerate by simp
qed

theorem regenerate_locked_start_refused_witness:
  "generate_with_context epic_one demo_input (new_selection_context [1]) = Inr demo_rotated
   \<and> set_cue_lock demo_rotated 0 True = Inr demo_locked
   \<and> (\<exists>e. regenerate epic_one demo_locked demo_input = Inl e)"
proof -
  have ps: "complete_phrases (input_track demo_input) = Some demo_phrases"
    by (simp add: complete_phrases_def demo_input_def with_analysis_def demo_phrases_def analysis_is_complete_def)
  have "\<exists>e. regenerate epic_one demo_locked demo_input = Inl e"
  proof (rule regenerate_locked_start_refused [OF demo_fresh _ _ ps [unfolded demo_phrases_def]])
    show "plan_theme_decision demo_generated = Some \<lparr>decision_theme_id = 1,
        decision_theme_name = ''Electric Bloom'', decision_reason = DefaultTheme,
        decision_matched_color = None\<rparr>"
      by (simp add: demo_generated_def)
  qed ((simp_all add: user_chose_theme_def lock_fits_def demo_locked_def demo_rotated_def
      in_ultraviolet_def plan_demo_defs cue_category_def)+)
  then show ?thesis using demo_generate_rotated demo_lock by simp
qed

definition demo_rethemed :: LightingPlan where
  "demo_rethemed = demo_generated\<lparr>plan_revision := 2, plan_cues := (plan_cues demo_generated)[1 :=
     (in_ultraviolet (plan_cues demo_generated ! 1))\<lparr>cue_origin := CueOrigin.User\<rparr>]\<rparr>"

lemma demo_theme_from: "select_theme_from_phrase epic_one demo_generated 1 4 = Inr demo_rethemed"
proof -
  have theme: "planner_theme epic_one 4 = Some \<lparr>theme_def_id = 4, theme_def_name = ''Ultraviolet''\<rparr>"
    by (simp add: planner_theme_def epic_one_def epic_one_configuration_def)
  show ?thesis
    unfolding select_theme_from_phrase_def theme
    by (simp add: plan_demo_eval demo_rethemed_def in_ultraviolet_def retheme_from_def retheme_cue_def
        retheme_look_def try_new_look_def cue_revised_def changes_theme_from_def plan_revised_def
        blank_def ascii_white_space_def white_space2_def white_space3_def)
qed

theorem theme_from_phrase_effect_witness:
  "select_theme_from_phrase epic_one demo_generated 1 4 = Inr demo_rethemed
   \<and> plan_theme_decision demo_rethemed = plan_theme_decision demo_generated
   \<and> plan_cues demo_rethemed ! 0 = plan_cues demo_generated ! 0"
  using theme_from_phrase_effect [OF demo_theme_from] demo_theme_from
  by (auto simp: demo_rethemed_def plan_demo_defs)

theorem plan_constructor_exact_witness:
  "plan_ok demo_generated
   \<and> (\<exists>!k. k < length (plan_cues demo_generated) \<and> cue_start_beat (plan_cues demo_generated ! k) \<le> 40
        \<and> 40 < cue_end_beat (plan_cues demo_generated ! k))"
  using plan_constructor_exact [of _ _ _ _ _ _ _ _ _ _ _ demo_generated] demo_generated_ok
  by (simp add: plan_demo_defs)

theorem hold_missing_mapping_witness:
  "plan_ok demo_generated
   \<and> (\<exists>p. with_materialized_cues demo_generated ((plan_cues demo_generated)
        [1 := hold_for_missing_autoloop_mapping (plan_cues demo_generated ! 1)]) = Inr p)
   \<and> with_materialized_cues demo_generated ((plan_cues demo_generated)
        [0 := hold_for_missing_autoloop_mapping (plan_cues demo_generated ! 0)])
      = Inl InconsistentThemeDecision"
proof -
  have ready: "plan_status demo_generated = PlanStatus.Ready" "length (plan_cues demo_generated) = 2"
    by (simp_all add: demo_generated_def)
  then show ?thesis
    using hold_missing_mapping [OF demo_generated_ok ready(1), of 0]
      hold_missing_mapping [OF demo_generated_ok ready(1), of 1] demo_generated_ok by simp
qed

end
