(* ===== verification/Rust_Text.thy ===== *)
theory Rust_Text
  imports Lumi_Prelude "HOL-Library.Char_ord" "HOL-Library.List_Lexorder" "HOL-Library.Product_Lexorder"
    "HOL-Library.Option_ord"
begin

text \<open>
  What the sources use of \<open>str\<close> and \<open>char\<close>, on UTF-8 bytes: \<open>trim\<close>, \<open>split_whitespace\<close>, ASCII
  case, \<open>chars()\<close>, \<open>chars().count()\<close>, \<open>char::is_control\<close>, the decimal form of a number and \<open>parse::<u16>()\<close>. Strings are
  ordered by their bytes, tuples and options lexicographically, as the derived \<open>Ord\<close> of Rust
  does.
\<close>

section \<open>White space\<close>

definition code_of :: "char \<Rightarrow> nat" where
  "code_of c = of_char c"

definition ws1 :: "char \<Rightarrow> bool" where
  "ws1 a = ascii_white_space (code_of a)"

definition ws2 :: "char \<Rightarrow> char \<Rightarrow> bool" where
  "ws2 a b = white_space2 (code_of a) (code_of b)"

definition ws3 :: "char \<Rightarrow> char \<Rightarrow> char \<Rightarrow> bool" where
  "ws3 a b c = white_space3 (code_of a) (code_of b) (code_of c)"

text \<open>
  Dropping white space at one end. The byte patterns of one, two and three bytes are
  arguments, so that the same recursion serves both ends.
\<close>

fun strip_by ::
  "(char \<Rightarrow> bool) \<Rightarrow> (char \<Rightarrow> char \<Rightarrow> bool) \<Rightarrow> (char \<Rightarrow> char \<Rightarrow> char \<Rightarrow> bool) \<Rightarrow> string \<Rightarrow> string" where
  "strip_by p1 p2 p3 [] = []"
| "strip_by p1 p2 p3 [a] = (if p1 a then [] else [a])"
| "strip_by p1 p2 p3 [a, b] =
     (if p1 a then strip_by p1 p2 p3 [b] else if p2 a b then [] else [a, b])"
| "strip_by p1 p2 p3 (a # b # c # s) =
     (if p1 a then strip_by p1 p2 p3 (b # c # s)
      else if p2 a b then strip_by p1 p2 p3 (c # s)
      else if p3 a b c then strip_by p1 p2 p3 s
      else a # b # c # s)"

definition trim_start :: "string \<Rightarrow> string" where
  "trim_start = strip_by ws1 ws2 ws3"

definition trim_end :: "string \<Rightarrow> string" where
  "trim_end s = rev (strip_by ws1 (\<lambda>b a. ws2 a b) (\<lambda>c b a. ws3 a b c) (rev s))"

definition trim :: "string \<Rightarrow> string" where
  "trim s = trim_end (trim_start s)"

text \<open>Whether a string starts with a white-space character, and what follows it.\<close>

fun stripped :: "(char \<Rightarrow> bool) \<Rightarrow> (char \<Rightarrow> char \<Rightarrow> bool) \<Rightarrow> (char \<Rightarrow> char \<Rightarrow> char \<Rightarrow> bool) \<Rightarrow> string \<Rightarrow> bool" where
  "stripped p1 p2 p3 [] = True"
| "stripped p1 p2 p3 [a] = (\<not> p1 a)"
| "stripped p1 p2 p3 [a, b] = (\<not> p1 a \<and> \<not> p2 a b)"
| "stripped p1 p2 p3 (a # b # c # s) = (\<not> p1 a \<and> \<not> p2 a b \<and> \<not> p3 a b c)"

text \<open>
  \<open>split_whitespace\<close>: \<open>word\<close> is the part read so far. A white-space byte pattern never starts
  inside another character of a valid string, so scanning by bytes is scanning by characters.
\<close>

fun split_ws :: "string \<Rightarrow> string \<Rightarrow> string list" where
  "split_ws word [] = (if word = [] then [] else [word])"
| "split_ws word (a # s) =
     (if ws1 a then (if word = [] then [] else [word]) @ split_ws [] s
      else case s of
          b # s' \<Rightarrow>
            if ws2 a b then (if word = [] then [] else [word]) @ split_ws [] s'
            else (case s' of
                c # s'' \<Rightarrow>
                  if ws3 a b c then (if word = [] then [] else [word]) @ split_ws [] s''
                  else split_ws (word @ [a]) s
              | [] \<Rightarrow> split_ws (word @ [a]) s)
        | [] \<Rightarrow> split_ws (word @ [a]) s)"

definition split_whitespace :: "string \<Rightarrow> string list" where
  "split_whitespace s = split_ws [] s"

fun join :: "string \<Rightarrow> string list \<Rightarrow> string" where
  "join sep [] = []"
| "join sep [w] = w"
| "join sep (w # v # ws) = w @ sep @ join sep (v # ws)"

section \<open>Letters, characters and digits\<close>

definition ascii_lower :: "char \<Rightarrow> char" where
  "ascii_lower c = (if 65 \<le> code_of c \<and> code_of c \<le> 90 then char_of (code_of c + 32) else c)"

definition to_ascii_lowercase :: "string \<Rightarrow> string" where
  "to_ascii_lowercase s = map ascii_lower s"

definition eq_ignore_ascii_case :: "string \<Rightarrow> string \<Rightarrow> bool" where
  "eq_ignore_ascii_case s t = (to_ascii_lowercase s = to_ascii_lowercase t)"

text \<open>\<open>chars().count()\<close>: the bytes that are not continuation bytes.\<close>

definition chars_count :: "string \<Rightarrow> nat" where
  "chars_count s = length (filter (\<lambda>c. code_of c < 128 \<or> 192 \<le> code_of c) s)"

text \<open>
  \<open>chars()\<close>: a byte with the continuation bytes that follow it. A \<open>String\<close> is always valid
  UTF-8, where these groups are the characters.
\<close>

definition is_continuation :: "char \<Rightarrow> bool" where
  "is_continuation c \<longleftrightarrow> 128 \<le> code_of c \<and> code_of c < 192"

function chars :: "string \<Rightarrow> string list" where
  "chars [] = []"
| "chars (b # s) = (b # takeWhile is_continuation s) # chars (dropWhile is_continuation s)"
  by pat_completeness auto
termination by (relation "measure length") (auto simp: length_dropWhile_le less_Suc_eq_le)

text \<open>\<open>char::is_control\<close>: U+0000 to U+001F and U+007F to U+009F.\<close>

fun is_control :: "string \<Rightarrow> bool" where
  "is_control [a] = (code_of a < 32 \<or> code_of a = 127)"
| "is_control [a, b] = (code_of a = 194 \<and> 128 \<le> code_of b \<and> code_of b < 160)"
| "is_control _ = False"

definition has_control :: "string \<Rightarrow> bool" where
  "has_control s = list_ex is_control (chars s)"

definition digit_char :: "nat \<Rightarrow> char" where
  "digit_char d = char_of (48 + d)"

definition is_ascii_digit :: "char \<Rightarrow> bool" where
  "is_ascii_digit c \<longleftrightarrow> 48 \<le> code_of c \<and> code_of c \<le> 57"

definition is_ascii_lowercase :: "char \<Rightarrow> bool" where
  "is_ascii_lowercase c \<longleftrightarrow> 97 \<le> code_of c \<and> code_of c \<le> 122"

text \<open>The decimal form \<open>format!("{}", n)\<close> of a natural number.\<close>

fun show_nat :: "nat \<Rightarrow> string" where
  "show_nat n = (if n < 10 then [digit_char n] else show_nat (n div 10) @ [digit_char (n mod 10)])"

declare show_nat.simps [simp del]

text \<open>\<open>parse\<close> of an unsigned integer with the given bound: an optional plus sign and digits.\<close>

fun parse_digits :: "nat \<Rightarrow> nat \<Rightarrow> string \<Rightarrow> nat option" where
  "parse_digits bound acc [] = Some acc"
| "parse_digits bound acc (c # s) =
     (if is_ascii_digit c then
        let n = acc * 10 + (code_of c - 48) in
        if n < bound then parse_digits bound n s else None
      else None)"

definition parse_unsigned :: "nat \<Rightarrow> string \<Rightarrow> nat option" where
  "parse_unsigned bound s =
     (case s of
        [] \<Rightarrow> None
      | c # rest \<Rightarrow>
          if c = CHR ''+'' then (if rest = [] then None else parse_digits bound 0 rest)
          else parse_digits bound 0 s)"

fun strip_prefix :: "string \<Rightarrow> string \<Rightarrow> string option" where
  "strip_prefix [] s = Some s"
| "strip_prefix (p # ps) [] = None"
| "strip_prefix (p # ps) (c # s) = (if p = c then strip_prefix ps s else None)"

section \<open>Facts about trimming\<close>

lemma strip_by_suffix: "\<exists>pre. s = pre @ strip_by p1 p2 p3 s"
proof (induction p1 p2 p3 s rule: strip_by.induct)
  case (3 p1 p2 p3 a b)
  then show ?case by (metis append_Cons append_Nil strip_by.simps(3))
next
  case (4 p1 p2 p3 a b c s)
  then show ?case by (metis append_Cons append_Nil strip_by.simps(4))
qed auto

lemma strip_by_length: "length (strip_by p1 p2 p3 s) \<le> length s"
  using strip_by_suffix [of s p1 p2 p3] by (metis length_append le_add2)

lemma stripped_strip_by: "stripped p1 p2 p3 (strip_by p1 p2 p3 s)"
  by (induction p1 p2 p3 s rule: strip_by.induct) auto

lemma strip_by_stripped [simp]: "stripped p1 p2 p3 s \<Longrightarrow> strip_by p1 p2 p3 s = s"
  by (induction p1 p2 p3 s rule: stripped.induct) auto

lemma stripped_prefix: "stripped p1 p2 p3 (s @ t) \<Longrightarrow> stripped p1 p2 p3 s"
  by (induction p1 p2 p3 s rule: stripped.induct) (cases t; cases "tl t"; auto)+

lemma trim_start_trim_start [simp]: "trim_start (trim_start s) = trim_start s"
  by (simp add: trim_start_def stripped_strip_by)

lemma trim_end_trim_end [simp]: "trim_end (trim_end s) = trim_end s"
  by (simp add: trim_end_def stripped_strip_by)

lemma trim_end_prefix: "\<exists>suf. s = trim_end s @ suf"
  using strip_by_suffix [of "rev s" ws1 "\<lambda>b a. ws2 a b" "\<lambda>c b a. ws3 a b c"]
  by (metis rev_append rev_rev_ident trim_end_def)

lemma trim_start_trim_end [simp]: "trim_start (trim_end (trim_start s)) = trim_end (trim_start s)"
proof -
  obtain suf where "trim_start s = trim_end (trim_start s) @ suf" using trim_end_prefix by metis
  then have "stripped ws1 ws2 ws3 (trim_end (trim_start s))"
    using stripped_strip_by stripped_prefix by (metis trim_start_def)
  then show ?thesis by (simp add: trim_start_def)
qed

lemma trim_idem [simp]: "trim (trim s) = trim s"
  by (simp add: trim_def)

lemma trim_length: "length (trim s) \<le> length s"
  unfolding trim_def trim_end_def trim_start_def
  using strip_by_length [of ws1 ws2 ws3 s] strip_by_length order_trans by (metis length_rev)

lemma trim_start_eq_Nil: "trim_start s = [] \<longleftrightarrow> blank s"
proof -
  have "strip_by ws1 ws2 ws3 s = [] \<longleftrightarrow> blank_bytes (map code_of s)"
    by (induction ws1 ws2 ws3 s rule: strip_by.induct) (auto simp: ws1_def ws2_def ws3_def)
  moreover have "code_of = of_char" by (simp add: fun_eq_iff code_of_def)
  ultimately show ?thesis by (simp add: trim_start_def blank_def)
qed

lemma strip_by_rev_Nil:
  "strip_by p1 (\<lambda>b a. p2 a b) (\<lambda>c b a. p3 a b c) r = [] \<Longrightarrow> r = [] \<or> \<not> stripped p1 p2 p3 (rev r)"
proof (induction p1 "\<lambda>b a. p2 a b" "\<lambda>c b a. p3 a b c" r rule: strip_by.induct)
  case (4 p1 a b c s)
  have step: "\<not> stripped p1 p2 p3 (rev (a # b # c # s))"
    if "\<not> stripped p1 p2 p3 (rev u)" "a # b # c # s = pre @ u" for u pre
    using that stripped_prefix [of p1 p2 p3 "rev u" "rev pre"] by auto
  have three: "s = [] \<Longrightarrow> p3 c b a \<Longrightarrow> \<not> stripped p1 p2 p3 (rev (a # b # c # s))" by simp
  show ?case
  proof (cases "p1 a")
    case True
    with 4 step [of "b # c # s" "[a]"] show ?thesis by simp
  next
    case False
    show ?thesis
    proof (cases "p2 b a")
      case True
      with 4 False step [of "c # s" "[a, b]"] show ?thesis by simp
    next
      case not2: False
      with 4 False have p3: "p3 c b a" and Nil: "strip_by p1 (\<lambda>b a. p2 a b) (\<lambda>c b a. p3 a b c) s = []"
        by (auto split: if_splits)
      show ?thesis
      proof (cases "s = []")
        case True
        with three p3 show ?thesis by simp
      next
        case False
        with 4(3) \<open>\<not> p1 a\<close> not2 p3 Nil have "\<not> stripped p1 p2 p3 (rev s)" by simp
        with step [of s "[a, b, c]"] show ?thesis by simp
      qed
    qed
  qed
qed (auto split: if_splits)

lemma trim_eq_Nil [simp]: "trim s = [] \<longleftrightarrow> blank s"
proof
  assume "trim s = []"
  then have "strip_by ws1 (\<lambda>b a. ws2 a b) (\<lambda>c b a. ws3 a b c) (rev (trim_start s)) = []"
    by (simp add: trim_def trim_end_def)
  then have "trim_start s = [] \<or> \<not> stripped ws1 ws2 ws3 (trim_start s)"
    using strip_by_rev_Nil by fastforce
  then show "blank s" using trim_start_eq_Nil stripped_strip_by by (metis trim_start_def)
next
  assume "blank s"
  then show "trim s = []" by (simp add: trim_def trim_end_def trim_start_eq_Nil [THEN iffD2])
qed

lemma blank_trim [simp]: "blank (trim s) \<longleftrightarrow> blank s"
  by (metis trim_eq_Nil trim_idem)

lemma ascii_lower_idem [simp]: "ascii_lower (ascii_lower c) = ascii_lower c"
  by (auto simp: ascii_lower_def code_of_def)

lemma to_ascii_lowercase_idem [simp]: "to_ascii_lowercase (to_ascii_lowercase s) = to_ascii_lowercase s"
  by (simp add: to_ascii_lowercase_def)

lemma eq_ignore_ascii_case_simps [simp]:
  "eq_ignore_ascii_case s s"
  "eq_ignore_ascii_case s (to_ascii_lowercase t) = eq_ignore_ascii_case s t"
  "eq_ignore_ascii_case (to_ascii_lowercase s) t = eq_ignore_ascii_case s t"
  by (simp_all add: eq_ignore_ascii_case_def)

section \<open>Facts about decimal numbers\<close>

lemma code_of_digit [simp]: "d < 10 \<Longrightarrow> code_of (digit_char d) = 48 + d"
  by (simp add: code_of_def digit_char_def)

lemma parse_digits_append:
  "parse_digits bound acc (s @ t)
     = (case parse_digits bound acc s of None \<Rightarrow> None | Some n \<Rightarrow> parse_digits bound n t)"
  by (induction s arbitrary: acc) (auto simp: Let_def)

lemma parse_digits_show: "n < bound \<Longrightarrow> parse_digits bound 0 (show_nat n) = Some n"
proof (induction n rule: show_nat.induct)
  case (1 n)
  show ?case
  proof (cases "n < 10")
    case True
    with 1 show ?thesis by (subst show_nat.simps) (simp add: is_ascii_digit_def)
  next
    case False
    with 1 have "parse_digits bound 0 (show_nat (n div 10)) = Some (n div 10)" by simp
    moreover have "n div 10 * 10 + n mod 10 < bound" using 1 by simp
    ultimately show ?thesis using False
      by (subst show_nat.simps) (simp add: parse_digits_append is_ascii_digit_def)
  qed
qed

lemma show_nat_digits: "c \<in> set (show_nat n) \<Longrightarrow> is_ascii_digit c"
proof (induction n rule: show_nat.induct)
  case (1 n)
  then show ?case
    by (subst (asm) (2) show_nat.simps) (auto simp: is_ascii_digit_def split: if_splits)
qed

lemma show_nat_not_Nil [simp]: "show_nat n \<noteq> []"
  by (subst show_nat.simps) simp

lemma parse_unsigned_show: "n < bound \<Longrightarrow> parse_unsigned bound (show_nat n) = Some n"
proof -
  assume n: "n < bound"
  obtain c s where cs: "show_nat n = c # s" by (cases "show_nat n") auto
  then have "is_ascii_digit c" using show_nat_digits [of c n] by simp
  then have "c \<noteq> CHR ''+''" by (auto simp: is_ascii_digit_def code_of_def)
  then show ?thesis using parse_digits_show [OF n] by (simp add: parse_unsigned_def cs)
qed

lemma show_nat_inject [simp]: "show_nat m = show_nat n \<longleftrightarrow> m = n"
proof
  assume eq: "show_nat m = show_nat n"
  have "Some m = parse_digits (Suc (m + n)) 0 (show_nat m)" by (simp add: parse_digits_show)
  also have "\<dots> = Some n" by (simp add: eq parse_digits_show)
  finally show "m = n" by simp
qed simp

lemma show_nat_length: "n < 10 ^ k \<Longrightarrow> 0 < k \<Longrightarrow> length (show_nat n) \<le> k"
proof (induction k arbitrary: n)
  case (Suc k)
  show ?case
  proof (cases "n < 10")
    case True
    then show ?thesis by (subst show_nat.simps) simp
  next
    case False
    with Suc.prems have "n div 10 < 10 ^ k" "0 < k" by (auto simp: div_less_iff_less_mult intro: Suc_leI gr0I)
    with Suc.IH have "length (show_nat (n div 10)) \<le> k" by simp
    with False show ?thesis by (subst show_nat.simps) simp
  qed
qed simp

lemma show_u64_length: "length (show_nat (unat (w :: u64))) \<le> 20"
proof -
  have "unat w < 2 ^ 64" using unsigned_less [of w, where ?'a = nat] by simp
  then have "unat w < 10 ^ 20" by simp
  then show ?thesis by (rule show_nat_length) simp
qed

lemma blank_Cons_nonspace:
  assumes "\<not> ws1 a" "code_of a < 128"
  shows "\<not> blank (a # s)"
proof -
  have "strip_by ws1 ws2 ws3 (a # s) = a # s"
    using assms by (cases s; cases "tl s") (auto simp: ws2_def ws3_def white_space2_def white_space3_def)
  then show ?thesis using trim_start_eq_Nil [of "a # s"] by (simp add: trim_start_def)
qed

section \<open>Characters\<close>

lemma concat_chars [simp]: "concat (chars s) = s"
  by (induction s rule: chars.induct) simp_all

text \<open>What \<open>chars\<close> yields: groups of a byte and continuations, all but the first led by another byte.\<close>

definition char_groups :: "string list \<Rightarrow> bool" where
  "char_groups cs \<longleftrightarrow> list_all (\<lambda>c. c \<noteq> [] \<and> list_all is_continuation (tl c)) cs
     \<and> list_all (\<lambda>c. \<not> is_continuation (hd c)) (tl cs)"

lemma chars_hd: "s \<noteq> [] \<Longrightarrow> \<not> is_continuation (hd s) \<Longrightarrow> list_all (\<lambda>c. \<not> is_continuation (hd c)) (chars s)"
proof (induction s rule: chars.induct)
  case (2 b s)
  let ?r = "dropWhile is_continuation s"
  show ?case
  proof (cases "?r = []")
    case True
    with 2 show ?thesis by (simp only: chars.simps) simp
  next
    case False
    with 2 hd_dropWhile [OF False] show ?thesis by simp
  qed
qed simp

lemma char_groups_chars: "char_groups (chars s)"
proof (induction s rule: chars.induct)
  case (2 b s)
  let ?r = "dropWhile is_continuation s"
  have "list_all (\<lambda>c. \<not> is_continuation (hd c)) (chars ?r)"
  proof (cases "?r = []")
    case True
    then show ?thesis by (simp only: chars.simps) simp
  next
    case False
    then show ?thesis using hd_dropWhile [OF False] by (intro chars_hd)
  qed
  with 2 show ?case by (auto simp: char_groups_def list_all_iff dest: set_takeWhileD)
qed (simp add: char_groups_def)

lemma chars_concat: "char_groups cs \<Longrightarrow> chars (concat cs) = cs"
proof (induction cs)
  case (Cons c cs)
  from Cons.prems obtain b t where c: "c = b # t" and t: "list_all is_continuation t"
    by (cases c) (auto simp: char_groups_def)
  have cs: "char_groups cs" using Cons.prems by (cases cs) (auto simp: char_groups_def)
  have "takeWhile is_continuation (t @ concat cs) = t \<and> dropWhile is_continuation (t @ concat cs) = concat cs"
  proof (cases cs)
    case Nil
    with t show ?thesis by (simp add: list_all_iff)
  next
    case (Cons d ds)
    then obtain e u where "d = e # u" "\<not> is_continuation e"
      using Cons.prems by (cases d) (auto simp: char_groups_def)
    with Cons t show ?thesis by (simp add: list_all_iff)
  qed
  with Cons.IH [OF cs] c show ?case by simp
qed simp

lemma char_groups_filter: "char_groups cs \<Longrightarrow> char_groups (filter P cs)"
proof (cases cs)
  case (Cons c ds)
  have "set (tl (filter P ds)) \<subseteq> set ds" by (cases "filter P ds") (auto dest: filter_eq_ConsD)
  with Cons show "char_groups cs \<Longrightarrow> char_groups (filter P cs)" by (auto simp: char_groups_def list_all_iff)
qed simp

lemma char_groups_take: "char_groups cs \<Longrightarrow> char_groups (take n cs)"
  by (cases cs; cases n) (auto simp: char_groups_def list_all_iff dest: in_set_takeD)

end
