(* ===== verification/Phrase_Timeline.thy ===== *)
theory Phrase_Timeline
  imports Track
begin

text \<open>
  Phrase timelines of the track library (\<open>lumi-library/src/timeline.rs\<close>, with the
  identifiers of \<open>lumi-library/src/identifiers.rs\<close>): the validating constructor, the
  editing commands and the restoring of an earlier revision. A text identifier is its
  string; \<open>try_new_text_identifier\<close> is the check its constructor makes.
\<close>

section \<open>Identifiers\<close>

type_synonym SourceRevision = string
type_synonym PhraseRoleId = string
type_synonym VariantId = string
type_synonym TimelineRevision = u64

datatype TextIdentifierError = Empty string | TooLong string

definition try_new_text_identifier :: "string \<Rightarrow> string \<Rightarrow> TextIdentifierError + string" where
  "try_new_text_identifier label v =
     (if blank v then Inl (Empty label)
      else if length v > 255 then Inl (TooLong label)
      else Inr v)"

definition try_new_timeline_revision :: "u64 \<Rightarrow> TextIdentifierError + TimelineRevision" where
  "try_new_timeline_revision v = (if v = 0 then Inl (Empty ''timeline revision'') else Inr v)"

definition timeline_revision_initial :: TimelineRevision where
  "timeline_revision_initial = 1"

definition timeline_revision_checked_next :: "TimelineRevision \<Rightarrow> TimelineRevision option" where
  "timeline_revision_checked_next r = checked_add r 1"

section \<open>Data\<close>

datatype TimelineRevisionOrigin = SourceImport | UserEdit | SourceReconcile | RevisionRestore

datatype TimelineRevisionReason =
    InitialSourceMapping
  | CreatePhrase
  | SplitPhrase
  | MergePrevious
  | MergeNext
  | MoveBoundary
  | AbsorbPrevious
  | AbsorbNext
  | ChangeRole
  | ChangeLoopStrategy
  | Undo
  | Redo
  | RestoreRevision
  | SourceReconcile

record ThemeSpecificVariant =
  variant_theme_id :: ThemeId
  variant_variant_id :: VariantId

datatype PhraseLoopStrategy =
    Auto
  | FixedVariant VariantId
  | ThemeSpecificExact "ThemeSpecificVariant list"

record PhraseInstance =
  ph_index :: u16
  ph_start_beat :: u32
  ph_end_beat :: u32
  ph_role_id :: PhraseRoleId
  ph_loop_strategy :: PhraseLoopStrategy

record LumiPhraseTimeline =
  tl_track_id :: TrackId
  tl_revision :: TimelineRevision
  tl_baseline_revision :: SourceRevision
  tl_total_beats :: u32
  tl_origin :: TimelineRevisionOrigin
  tl_reason :: TimelineRevisionReason
  tl_parent_revision :: "TimelineRevision option"
  tl_restored_from :: "TimelineRevision option"
  tl_phrases :: "PhraseInstance list"

datatype PhraseAbsorption = Previous | Next

datatype TimelineEditCommand =
    Create u32 u32 PhraseRoleId
  | Split u16 u32
  | MergePrevious u16
  | MergeNext u16
  | MoveBoundary u16 u32
  | Delete u16 PhraseAbsorption
  | ChangeRole u16 PhraseRoleId
  | SetLoopStrategy u16 PhraseLoopStrategy

datatype TimelineValidationError =
    InvalidTrackId
  | EmptyDuration
  | EmptyPhrases
  | UnorderedPhraseIndex
  | InvalidPhraseCoverage
  | InvalidRevisionHistory
  | InvalidLoopStrategy

datatype TimelineEditError =
    UnknownPhrase
  | InvalidBeatSelection
  | InvalidSplitBoundary
  | InvalidBoundaryMove
  | MissingPreviousPhrase
  | MissingNextPhrase
  | CannotDeleteOnlyPhrase
  | NoChange
  | TooManyPhrases
  | RevisionOverflow
  | IncompatibleRevision
  | InvalidRestoreReason
  | InvalidResult TimelineValidationError

section \<open>Construction\<close>

definition new_phrase :: "u16 \<Rightarrow> u32 \<Rightarrow> u32 \<Rightarrow> PhraseRoleId \<Rightarrow> PhraseInstance" where
  "new_phrase idx start_beat end_beat role =
     \<lparr>ph_index = idx, ph_start_beat = start_beat, ph_end_beat = end_beat, ph_role_id = role,
      ph_loop_strategy = Auto\<rparr>"

definition with_loop_strategy :: "PhraseInstance \<Rightarrow> PhraseLoopStrategy \<Rightarrow> PhraseInstance" where
  "with_loop_strategy p strategy = p\<lparr>ph_loop_strategy := strategy\<rparr>"

text \<open>\<open>windows(2).any(|pair| pair[0].theme_id() >= pair[1].theme_id())\<close>, negated.\<close>

fun themes_ascending :: "ThemeSpecificVariant list \<Rightarrow> bool" where
  "themes_ascending (a # b # rest) = (variant_theme_id a < variant_theme_id b \<and> themes_ascending (b # rest))"
| "themes_ascending [a] = True"
| "themes_ascending [] = True"

fun strategy_ok :: "PhraseLoopStrategy \<Rightarrow> bool" where
  "strategy_ok (ThemeSpecificExact overrides) = (overrides \<noteq> [] \<and> themes_ascending overrides)"
| "strategy_ok _ = True"

text \<open>The loop over \<open>phrases.iter().enumerate()\<close>; it returns the final \<open>previous_end\<close>.\<close>

fun check_timeline_phrases ::
  "u32 \<Rightarrow> nat \<Rightarrow> u32 \<Rightarrow> PhraseInstance list \<Rightarrow> TimelineValidationError + u32" where
  "check_timeline_phrases total_beats expected previous_end [] = Inr previous_end"
| "check_timeline_phrases total_beats expected previous_end (p # ps) =
     (if unat (ph_index p) \<noteq> expected then Inl UnorderedPhraseIndex
      else if ph_start_beat p \<noteq> previous_end \<or> ph_end_beat p \<le> ph_start_beat p
              \<or> ph_end_beat p > total_beats
      then Inl InvalidPhraseCoverage
      else if \<not> strategy_ok (ph_loop_strategy p) then Inl InvalidLoopStrategy
      else check_timeline_phrases total_beats (Suc expected) (ph_end_beat p) ps)"

definition try_new_with_history ::
  "TrackId \<Rightarrow> TimelineRevision \<Rightarrow> SourceRevision \<Rightarrow> u32 \<Rightarrow> TimelineRevisionOrigin \<Rightarrow>
   TimelineRevisionReason \<Rightarrow> TimelineRevision option \<Rightarrow> TimelineRevision option \<Rightarrow>
   PhraseInstance list \<Rightarrow> TimelineValidationError + LumiPhraseTimeline" where
  "try_new_with_history track revision baseline total_beats origin reason parent restored phrases =
     (if track = 0 then Inl InvalidTrackId
      else if total_beats = 0 then Inl EmptyDuration
      else if phrases = [] then Inl EmptyPhrases
      else if (case parent of None \<Rightarrow> False | Some r \<Rightarrow> r \<ge> revision)
              \<or> (case restored of None \<Rightarrow> False | Some r \<Rightarrow> r \<ge> revision)
      then Inl InvalidRevisionHistory
      else and_then (check_timeline_phrases total_beats 0 0 phrases) (\<lambda>previous_end.
        if previous_end \<noteq> total_beats then Inl InvalidPhraseCoverage
        else Inr \<lparr>tl_track_id = track, tl_revision = revision, tl_baseline_revision = baseline,
                  tl_total_beats = total_beats, tl_origin = origin, tl_reason = reason,
                  tl_parent_revision = parent, tl_restored_from = restored, tl_phrases = phrases\<rparr>))"

fun origin_reason :: "TimelineRevisionOrigin \<Rightarrow> TimelineRevisionReason" where
  "origin_reason SourceImport = InitialSourceMapping"
| "origin_reason UserEdit = TimelineRevisionReason.ChangeRole"
| "origin_reason TimelineRevisionOrigin.SourceReconcile = TimelineRevisionReason.SourceReconcile"
| "origin_reason RevisionRestore = RestoreRevision"

definition try_new_timeline ::
  "TrackId \<Rightarrow> TimelineRevision \<Rightarrow> SourceRevision \<Rightarrow> u32 \<Rightarrow> TimelineRevisionOrigin \<Rightarrow>
   PhraseInstance list \<Rightarrow> TimelineValidationError + LumiPhraseTimeline" where
  "try_new_timeline track revision baseline total_beats origin phrases =
     try_new_with_history track revision baseline total_beats origin (origin_reason origin)
       (if revision = timeline_revision_initial then None
        else ok (try_new_timeline_revision (revision - 1))) None phrases"

section \<open>Editing\<close>

definition phrase_index_index :: "u16 \<Rightarrow> nat \<Rightarrow> TimelineEditError + nat" where
  "phrase_index_index idx len = (if unat idx \<ge> len then Inl UnknownPhrase else Inr (unat idx))"

fun assigned_role_id :: "TimelineEditCommand \<Rightarrow> PhraseRoleId option" where
  "assigned_role_id (Create _ _ role) = Some role"
| "assigned_role_id (TimelineEditCommand.ChangeRole _ role) = Some role"
| "assigned_role_id _ = None"

fun command_reason :: "TimelineEditCommand \<Rightarrow> TimelineRevisionReason" where
  "command_reason (Create _ _ _) = CreatePhrase"
| "command_reason (Split _ _) = SplitPhrase"
| "command_reason (TimelineEditCommand.MergePrevious _) = TimelineRevisionReason.MergePrevious"
| "command_reason (TimelineEditCommand.MergeNext _) = TimelineRevisionReason.MergeNext"
| "command_reason (TimelineEditCommand.MoveBoundary _ _) = TimelineRevisionReason.MoveBoundary"
| "command_reason (Delete _ Previous) = AbsorbPrevious"
| "command_reason (Delete _ Next) = AbsorbNext"
| "command_reason (TimelineEditCommand.ChangeRole _ _) = TimelineRevisionReason.ChangeRole"
| "command_reason (SetLoopStrategy _ _) = ChangeLoopStrategy"

text \<open>A phrase over other beats, with the role and strategy of \<open>p\<close> and index 0.\<close>

definition respan :: "u32 \<Rightarrow> u32 \<Rightarrow> PhraseInstance \<Rightarrow> PhraseInstance" where
  "respan start_beat end_beat p =
     with_loop_strategy (new_phrase 0 start_beat end_beat (ph_role_id p)) (ph_loop_strategy p)"

text \<open>The loop of \<open>Create\<close>, with the list \<open>replacement\<close> built so far.\<close>

fun create_loop ::
  "u32 \<Rightarrow> u32 \<Rightarrow> PhraseRoleId \<Rightarrow> PhraseInstance list \<Rightarrow> PhraseInstance list \<Rightarrow> PhraseInstance list" where
  "create_loop start_beat end_beat role replacement [] = replacement"
| "create_loop start_beat end_beat role replacement (p # ps) =
     (if ph_end_beat p \<le> start_beat \<or> ph_start_beat p \<ge> end_beat
      then create_loop start_beat end_beat role (replacement @ [p]) ps
      else
        let r1 = (if ph_start_beat p < start_beat
                  then replacement @ [respan (ph_start_beat p) start_beat p] else replacement);
            r2 = (if r1 = [] \<or> ph_end_beat (last r1) \<le> start_beat
                  then r1 @ [new_phrase 0 start_beat end_beat role] else r1);
            r3 = (if ph_end_beat p > end_beat
                  then r2 @ [respan end_beat (ph_end_beat p) p] else r2)
        in create_loop start_beat end_beat role r3 ps)"

definition edit_create ::
  "PhraseInstance list \<Rightarrow> u32 \<Rightarrow> u32 \<Rightarrow> u32 \<Rightarrow> PhraseRoleId \<Rightarrow> TimelineEditError + PhraseInstance list" where
  "edit_create phrases total_beats start_beat end_beat role =
     (if start_beat \<ge> end_beat \<or> end_beat > total_beats then Inl InvalidBeatSelection
      else Inr (create_loop start_beat end_beat role [] phrases))"

definition edit_split ::
  "PhraseInstance list \<Rightarrow> u16 \<Rightarrow> u32 \<Rightarrow> TimelineEditError + PhraseInstance list" where
  "edit_split phrases idx at_beat =
     and_then (phrase_index_index idx (length phrases)) (\<lambda>i.
       let p = phrases ! i in
       if at_beat \<le> ph_start_beat p \<or> at_beat \<ge> ph_end_beat p then Inl InvalidSplitBoundary
       else Inr (insert_at (i + 1) (new_phrase 0 at_beat (ph_end_beat p) (ph_role_id p))
                   (phrases[i := respan (ph_start_beat p) at_beat p])))"

definition edit_merge_previous ::
  "PhraseInstance list \<Rightarrow> u16 \<Rightarrow> TimelineEditError + PhraseInstance list" where
  "edit_merge_previous phrases idx =
     and_then (phrase_index_index idx (length phrases)) (\<lambda>i.
       if i = 0 then Inl MissingPreviousPhrase
       else let selected = phrases ! i in
         Inr (remove_at (i - 1)
               (phrases[i := respan (ph_start_beat (phrases ! (i - 1))) (ph_end_beat selected) selected])))"

definition edit_merge_next ::
  "PhraseInstance list \<Rightarrow> u16 \<Rightarrow> TimelineEditError + PhraseInstance list" where
  "edit_merge_next phrases idx =
     and_then (phrase_index_index idx (length phrases)) (\<lambda>i.
       if i + 1 \<ge> length phrases then Inl MissingNextPhrase
       else let selected = phrases ! i in
         Inr (remove_at (i + 1)
               (phrases[i := respan (ph_start_beat selected) (ph_end_beat (phrases ! (i + 1))) selected])))"

definition edit_move_boundary ::
  "PhraseInstance list \<Rightarrow> u16 \<Rightarrow> u32 \<Rightarrow> TimelineEditError + PhraseInstance list" where
  "edit_move_boundary phrases idx to_beat =
     and_then (phrase_index_index idx (length phrases)) (\<lambda>left.
       if left + 1 \<ge> length phrases then Inl MissingNextPhrase
       else if to_beat \<le> ph_start_beat (phrases ! left) \<or> to_beat \<ge> ph_end_beat (phrases ! (left + 1))
       then Inl InvalidBoundaryMove
       else let left_phrase = phrases ! left; right_phrase = phrases ! (left + 1) in
         Inr (phrases[left := respan (ph_start_beat left_phrase) to_beat left_phrase,
                      left + 1 := respan to_beat (ph_end_beat right_phrase) right_phrase]))"

definition edit_delete ::
  "PhraseInstance list \<Rightarrow> u16 \<Rightarrow> PhraseAbsorption \<Rightarrow> TimelineEditError + PhraseInstance list" where
  "edit_delete phrases idx absorb_into =
     and_then (phrase_index_index idx (length phrases)) (\<lambda>i.
       if length phrases = 1 then Inl CannotDeleteOnlyPhrase
       else let removed = phrases ! i in
         (case absorb_into of
            Previous \<Rightarrow>
              if i > 0 then
                let previous = phrases ! (i - 1) in
                Inr (remove_at i
                  (phrases[i - 1 := respan (ph_start_beat previous) (ph_end_beat removed) previous]))
              else Inl MissingPreviousPhrase
          | Next \<Rightarrow>
              if i + 1 < length phrases then
                let following = phrases ! (i + 1) in
                Inr (remove_at i
                  (phrases[i + 1 := respan (ph_start_beat removed) (ph_end_beat following) following]))
              else Inl MissingNextPhrase))"

definition edit_change_role ::
  "PhraseInstance list \<Rightarrow> u16 \<Rightarrow> PhraseRoleId \<Rightarrow> TimelineEditError + PhraseInstance list" where
  "edit_change_role phrases idx role =
     and_then (phrase_index_index idx (length phrases)) (\<lambda>i.
       let p = phrases ! i in
       if ph_role_id p = role then Inl NoChange
       else Inr (phrases[i := new_phrase 0 (ph_start_beat p) (ph_end_beat p) role]))"

definition edit_set_loop_strategy ::
  "PhraseInstance list \<Rightarrow> u16 \<Rightarrow> PhraseLoopStrategy \<Rightarrow> TimelineEditError + PhraseInstance list" where
  "edit_set_loop_strategy phrases idx strategy =
     and_then (phrase_index_index idx (length phrases)) (\<lambda>i.
       let p = phrases ! i in
       if ph_loop_strategy p = strategy then Inl NoChange
       else Inr (phrases[i := with_loop_strategy
              (new_phrase 0 (ph_start_beat p) (ph_end_beat p) (ph_role_id p)) strategy]))"

text \<open>\<open>reindex\<close> over \<open>enumerate()\<close>; an index above \<open>u16::MAX\<close> is an error.\<close>

definition reindex :: "PhraseInstance list \<Rightarrow> TimelineEditError + PhraseInstance list" where
  "reindex phrases =
     try_map (\<lambda>(i, p). if i > 65535 then Inl TooManyPhrases
                         else Inr ((respan (ph_start_beat p) (ph_end_beat p) p)\<lparr>ph_index := of_nat i\<rparr>))
       (enumerate 0 phrases)"

fun apply_command ::
  "PhraseInstance list \<Rightarrow> u32 \<Rightarrow> TimelineEditCommand \<Rightarrow> TimelineEditError + PhraseInstance list" where
  "apply_command phrases total_beats (Create start_beat end_beat role) =
     edit_create phrases total_beats start_beat end_beat role"
| "apply_command phrases total_beats (Split idx at_beat) = edit_split phrases idx at_beat"
| "apply_command phrases total_beats (TimelineEditCommand.MergePrevious idx) = edit_merge_previous phrases idx"
| "apply_command phrases total_beats (TimelineEditCommand.MergeNext idx) = edit_merge_next phrases idx"
| "apply_command phrases total_beats (TimelineEditCommand.MoveBoundary idx to_beat) =
     edit_move_boundary phrases idx to_beat"
| "apply_command phrases total_beats (Delete idx absorb_into) = edit_delete phrases idx absorb_into"
| "apply_command phrases total_beats (TimelineEditCommand.ChangeRole idx role) = edit_change_role phrases idx role"
| "apply_command phrases total_beats (SetLoopStrategy idx strategy) = edit_set_loop_strategy phrases idx strategy"

definition apply_timeline_edit ::
  "PhraseInstance list \<Rightarrow> u32 \<Rightarrow> TimelineEditCommand \<Rightarrow> TimelineEditError + PhraseInstance list" where
  "apply_timeline_edit current total_beats command =
     and_then (apply_command current total_beats command) reindex"

definition edit_timeline ::
  "LumiPhraseTimeline \<Rightarrow> TimelineEditCommand \<Rightarrow> TimelineEditError + LumiPhraseTimeline" where
  "edit_timeline t command =
     and_then (ok_or (timeline_revision_checked_next (tl_revision t)) RevisionOverflow) (\<lambda>next_revision.
     and_then (apply_timeline_edit (tl_phrases t) (tl_total_beats t) command) (\<lambda>phrases.
       if phrases = tl_phrases t then Inl NoChange
       else map_err InvalidResult
         (try_new_with_history (tl_track_id t) next_revision (tl_baseline_revision t) (tl_total_beats t)
            UserEdit (command_reason command) (Some (tl_revision t)) None phrases)))"

definition restore_timeline ::
  "LumiPhraseTimeline \<Rightarrow> LumiPhraseTimeline \<Rightarrow> TimelineRevisionReason \<Rightarrow>
   TimelineEditError + LumiPhraseTimeline" where
  "restore_timeline head target reason =
     (if tl_track_id head \<noteq> tl_track_id target \<or> tl_total_beats head \<noteq> tl_total_beats target
      then Inl IncompatibleRevision
      else if reason \<notin> {Undo, Redo, RestoreRevision} then Inl InvalidRestoreReason
      else and_then (ok_or (timeline_revision_checked_next (tl_revision head)) RevisionOverflow)
        (\<lambda>next_revision.
          let phrases = map (\<lambda>(i, p). (respan (ph_start_beat p) (ph_end_beat p) p)
                \<lparr>ph_index := (if i > 65535 then - 1 else of_nat i)\<rparr>) (enumerate 0 (tl_phrases target))
          in map_err InvalidResult
            (try_new_with_history (tl_track_id head) next_revision (tl_baseline_revision head)
               (tl_total_beats head) RevisionRestore reason (Some (tl_revision head))
               (Some (tl_revision target)) phrases)))"

end
