(* ===== verification/Catalogue_Base.thy ===== *)
theory Catalogue_Base
  imports Rust_Text Phrase_Timeline
begin

text \<open>
  What the catalogues of the library share: searching a vector, generating an unused identifier,
  and the interface of a value that is only changed by revisions.
\<close>

section \<open>Searching\<close>

lemma position_unique:
  "distinct (map f xs) \<Longrightarrow> i < length xs \<Longrightarrow> position (\<lambda>x. f x = f (xs ! i)) xs = Some i"
proof -
  assume d: "distinct (map f xs)" and i: "i < length xs"
  then obtain k where k: "position (\<lambda>x. f x = f (xs ! i)) xs = Some k"
    using position_exists [of "xs ! i" xs "\<lambda>x. f x = f (xs ! i)"] by auto
  then have "k < length xs" "f (xs ! k) = f (xs ! i)" by (auto dest: position_SomeD)
  then have "k = i" using d i by (metis length_map nth_eq_iff_index_eq nth_map)
  with k show ?thesis by simp
qed

section \<open>Unused identifiers\<close>

text \<open>
  The loop that tries \<open>prefix-1\<close>, \<open>prefix-2\<close> and so on until an identifier is unused. Creating an
  identifier and adding to the suffix are both checked.
\<close>

datatype FreshIdError = IdentifierRefused | SuffixOverflow

function fresh_id :: "string \<Rightarrow> string \<Rightarrow> (string \<Rightarrow> bool) \<Rightarrow> u64 \<Rightarrow> FreshIdError + string" where
  "fresh_id label pre used suffix =
     (case try_new_text_identifier label (pre @ show_nat (unat suffix)) of
        Inl _ \<Rightarrow> Inl IdentifierRefused
      | Inr candidate \<Rightarrow>
          if \<not> used candidate then Inr candidate
          else (case checked_add suffix 1 of
                  None \<Rightarrow> Inl SuffixOverflow
                | Some following \<Rightarrow> fresh_id label pre used following))"
  by pat_completeness auto
termination
proof (relation "measure (\<lambda>(label, pre, used, suffix). 2 ^ 64 - unat suffix)", simp, goal_cases)
  case (1 label pre used suffix candidate following)
  then have "unat following = unat suffix + 1" using checked_add_SomeD by fastforce
  moreover have "unat following < 2 ^ 64" using unsigned_less [of following, where ?'a = nat] by simp
  ultimately show ?case by simp
qed

declare fresh_id.simps [simp del]

lemma numbered_identifier:
  assumes "length pre \<le> 200" "pre = c # rest" "\<not> ws1 c" "code_of c < 128"
  shows "try_new_text_identifier label (pre @ show_nat (unat (n :: u64))) = Inr (pre @ show_nat (unat n))"
proof -
  have "\<not> blank (pre @ show_nat (unat n))" using blank_Cons_nonspace assms by simp
  moreover have "length (pre @ show_nat (unat n)) \<le> 255" using assms(1) show_u64_length [of n] by simp
  ultimately show ?thesis by (simp add: try_new_text_identifier_def)
qed

lemma fresh_id_result:
  assumes "length pre \<le> 200" "pre = c # rest" "\<not> ws1 c" "code_of c < 128"
    and "fresh_id label pre used n = Inr i"
  shows "\<not> used i \<and> (\<exists>k. i = pre @ show_nat k)"
  using assms(5)
proof (induction label pre used n rule: fresh_id.induct)
  case (1 label pre' used n)
  show ?case using 1 by (subst (asm) (2) fresh_id.simps)
      (auto simp: try_new_text_identifier_def split: sum.splits if_splits option.splits)
qed

text \<open>The loop finds an identifier unless all from the suffix on are taken.\<close>

lemma fresh_id_found:
  assumes pre: "length pre \<le> 200" "pre = c # rest" "\<not> ws1 c" "code_of c < 128"
    and free: "unat n \<le> k" "k < 2 ^ 64" "\<not> used (pre @ show_nat k)"
  shows "\<exists>i. fresh_id label pre used n = Inr i"
  using free
proof (induction "k - unat n" arbitrary: n)
  case 0
  then have "k = unat n" by simp
  with 0 show ?case by (subst fresh_id.simps) (simp add: numbered_identifier [OF pre])
next
  case (Suc d)
  then have lt: "unat n < k" by simp
  then have next_n: "checked_add n 1 = Some (n + 1)" "unat (n + 1) = unat n + 1"
    using Suc.prems by (simp_all add: checked_add_def unat_add_exact)
  have "\<exists>i. fresh_id label pre used (n + 1) = Inr i" using Suc lt next_n by simp
  then show ?case by (subst fresh_id.simps) (simp add: numbered_identifier [OF pre] next_n(1))
qed

lemma fresh_id_exists:
  assumes pre: "length pre \<le> 200" "pre = c # rest" "\<not> ws1 c" "code_of c < 128"
    and few: "length ids < 2 ^ 64 - 1"
  shows "\<exists>i. fresh_id label pre (\<lambda>x. x \<in> set ids) 1 = Inr i"
proof -
  let ?names = "(\<lambda>k. pre @ show_nat k) ` {1..<2 ^ 64}"
  have "card ?names = 2 ^ 64 - 1" by (subst card_image) (auto simp: inj_on_def)
  moreover have "card (set ids) < 2 ^ 64 - 1" using card_length [of ids] few by linarith
  ultimately have "\<not> ?names \<subseteq> set ids" using card_mono [of "set ids" ?names] by (metis List.finite_set not_less)
  then obtain x where "x \<in> ?names" "x \<notin> set ids" by blast
  then obtain k where "1 \<le> k" "k < 2 ^ 64" "pre @ show_nat k \<notin> set ids" by auto
  then show ?thesis using fresh_id_found [OF pre, of 1 k "\<lambda>x. x \<in> set ids"] by simp
qed

section \<open>Revisioned values\<close>

text \<open>
  A value that edits replace by its next revision: an accepted edit keeps the value well formed
  and adds one to its revision. The phrase timeline, the phrase roles and the loop catalogue are
  of this kind.
\<close>

definition revision_step :: "('c \<Rightarrow> u64) \<Rightarrow> ('c \<Rightarrow> 'e \<Rightarrow> 'err + 'c) \<Rightarrow> 'c \<Rightarrow> 'e \<Rightarrow> 'err + ('c \<times> u64)" where
  "revision_step revision edit c e = and_then (edit c e) (\<lambda>d. Inr (d, revision d))"

lemma revision_step_Inr: "revision_step revision edit c e = Inr (d, r) \<longleftrightarrow> edit c e = Inr d \<and> r = revision d"
  by (auto simp: revision_step_def result_simps)

locale revisioned =
  fixes wf :: "'c \<Rightarrow> bool"
    and revision :: "'c \<Rightarrow> u64"
    and edit :: "'c \<Rightarrow> 'e \<Rightarrow> 'err + 'c"
  assumes edit_wf: "wf c \<Longrightarrow> edit c e = Inr d \<Longrightarrow> wf d"
    and edit_revision: "wf c \<Longrightarrow> edit c e = Inr d \<Longrightarrow> unat (revision d) = unat (revision c) + 1"
begin

lemma edits_keep_wf: "wf c \<Longrightarrow> wf (fst (run_machine (revision_step revision edit) c es))"
proof (induction es arbitrary: c)
  case (Cons e es)
  then show ?case
    by (cases "revision_step revision edit c e") (auto simp: revision_step_Inr split: prod.split dest: edit_wf,
        metis Cons.IH edit_wf fst_conv)
qed simp

lemma edits_number_revisions:
  "wf c \<Longrightarrow> map unat (snd (run_machine (revision_step revision edit) c es))
     = [unat (revision c) + 1 ..< unat (revision c) + 1 + length (snd (run_machine (revision_step revision edit) c es))]"
proof (induction es arbitrary: c)
  case (Cons e es)
  show ?case
  proof (cases "revision_step revision edit c e")
    case (Inl err)
    then show ?thesis using Cons by simp
  next
    case (Inr a)
    then obtain d where a: "a = (d, revision d)" and d: "edit c e = Inr d"
      by (cases a) (auto simp: revision_step_Inr)
    obtain t outs where run: "run_machine (revision_step revision edit) d es = (t, outs)" by fastforce
    have "map unat outs = [unat (revision d) + 1 ..< unat (revision d) + 1 + length outs]"
      using Cons.IH [of d] edit_wf [OF Cons.prems d] run by simp
    then show ?thesis using Inr a run edit_revision [OF Cons.prems d] by (simp add: upt_rec)
  qed
qed simp

lemma edits_keep_rel:
  assumes "reflp R" "transp R" "\<And>c e d. wf c \<Longrightarrow> edit c e = Inr d \<Longrightarrow> R c d"
  shows "wf c \<Longrightarrow> R c (fst (run_machine (revision_step revision edit) c es))"
proof (induction es arbitrary: c)
  case Nil
  then show ?case using assms(1) by (simp add: reflp_def)
next
  case (Cons e es)
  show ?case
  proof (cases "revision_step revision edit c e")
    case (Inl err)
    then show ?thesis using Cons by simp
  next
    case (Inr a)
    then obtain d where a: "a = (d, revision d)" and d: "edit c e = Inr d"
      by (cases a) (auto simp: revision_step_Inr)
    have "R c d" "R d (fst (run_machine (revision_step revision edit) d es))"
      using assms(3) Cons d edit_wf by blast+
    then have "R c (fst (run_machine (revision_step revision edit) d es))" using assms(2) by (rule transpD [rotated])
    then show ?thesis using Inr a by (auto split: prod.split)
  qed
qed

end

end
