(* ===== verification/Timeline_Edits.thy ===== *)
theory Timeline_Edits
  imports Catalogue_Base
begin

text \<open>
  Facts on phrase timelines. A timeline is seen as a painting: every beat has the role
  and the loop strategy of the phrase that covers it. Each editing command paints one
  range of beats with one value, and this is all it does; the phrases it leaves divide
  the track again.
\<close>

section \<open>The painting of a timeline\<close>

type_synonym phrase_value = "PhraseRoleId \<times> PhraseLoopStrategy"

definition phrase_value :: "PhraseInstance \<Rightarrow> phrase_value" where
  "phrase_value p = (ph_role_id p, ph_loop_strategy p)"

definition value_at :: "PhraseInstance list \<Rightarrow> u32 \<Rightarrow> phrase_value option" where
  "value_at ps b = map_option phrase_value (find (\<lambda>p. ph_start_beat p \<le> b \<and> b < ph_end_beat p) ps)"

definition paint :: "u32 \<Rightarrow> u32 \<Rightarrow> phrase_value \<Rightarrow> (u32 \<Rightarrow> phrase_value option) \<Rightarrow> u32 \<Rightarrow> phrase_value option" where
  "paint lo hi v f b = (if lo \<le> b \<and> b < hi then Some v else f b)"

abbreviation divides :: "u32 \<Rightarrow> PhraseInstance list \<Rightarrow> bool" where
  "divides b ps \<equiv> tiles ph_start_beat ph_end_beat b ps"

abbreviation ends_at :: "u32 \<Rightarrow> PhraseInstance list \<Rightarrow> u32" where
  "ends_at b ps \<equiv> tiles_end ph_end_beat b ps"

lemma value_at_simps [simp]:
  "value_at [] b = None"
  "value_at (p # ps) b =
     (if ph_start_beat p \<le> b \<and> b < ph_end_beat p then Some (phrase_value p) else value_at ps b)"
  by (simp_all add: value_at_def)

lemma value_at_append:
  "value_at (xs @ ys) b = (case value_at xs b of None \<Rightarrow> value_at ys b | Some v \<Rightarrow> Some v)"
  by (induction xs) auto

lemma value_at_before: "divides lo xs \<Longrightarrow> b < lo \<Longrightarrow> value_at xs b = None"
  by (induction xs arbitrary: lo) auto

lemma value_at_after: "divides lo xs \<Longrightarrow> ends_at lo xs \<le> b \<Longrightarrow> value_at xs b = None"
proof (induction xs arbitrary: lo)
  case (Cons x xs)
  then show ?case using tiles_le_end [of ph_start_beat ph_end_beat "ph_end_beat x" xs] by force
qed simp

lemma value_at_inside: "divides lo xs \<Longrightarrow> lo \<le> b \<Longrightarrow> b < ends_at lo xs \<Longrightarrow> value_at xs b \<noteq> None"
  by (induction xs arbitrary: lo) (auto simp: not_less)

lemma value_at_append_tiles:
  assumes "divides lo (xs @ ys)" "lo \<le> b"
  shows "value_at (xs @ ys) b = (if b < ends_at lo xs then value_at xs b else value_at ys b)"
  using assms value_at_inside [of lo xs b] value_at_after [of lo xs b]
  by (auto simp: value_at_append tiles_append not_less split: option.splits)

text \<open>The values of a division are the values of its phrases.\<close>

lemma division_values:
  "divides lo ps \<Longrightarrow> (\<forall>p \<in> set ps. Q (phrase_value p)) \<longleftrightarrow> (\<forall>b v. value_at ps b = Some v \<longrightarrow> Q v)"
proof (induction ps arbitrary: lo)
  case (Cons p ps)
  let ?e = "ph_end_beat p"
  have tail: "divides ?e ps" and p: "ph_start_beat p = lo" "lo < ?e" using Cons.prems by auto
  have none: "value_at ps b = None" if "b < ?e" for b using value_at_before [OF tail that] .
  have "(\<forall>b v. value_at (p # ps) b = Some v \<longrightarrow> Q v) \<longleftrightarrow>
      Q (phrase_value p) \<and> (\<forall>b v. value_at ps b = Some v \<longrightarrow> Q v)" (is "?l = ?r")
  proof
    assume l: ?l
    have "Q (phrase_value p)" using l [rule_format, of lo "phrase_value p"] p by simp
    moreover have "Q v" if "value_at ps b = Some v" for b v
    proof -
      have "?e \<le> b" using none [of b] that by (cases "b < ?e") auto
      then show ?thesis using l [rule_format, of b v] that by (simp add: leD)
    qed
    ultimately show ?r by blast
  qed (auto split: if_splits)
  then show ?case using Cons.IH [OF tail] by simp
qed simp

section \<open>Replacing a part\<close>

definition repainted :: "PhraseInstance list \<Rightarrow> PhraseInstance list \<Rightarrow> u32 \<Rightarrow> u32 \<Rightarrow> phrase_value \<Rightarrow> bool" where
  "repainted ps out lo hi v \<longleftrightarrow>
     divides 0 out \<and> ends_at 0 out = ends_at 0 ps \<and> out \<noteq> []
   \<and> lo < hi \<and> hi \<le> ends_at 0 ps
   \<and> (\<forall>b. value_at out b = paint lo hi v (value_at ps) b)"

lemma splice:
  assumes ps: "divides 0 (xs @ ms @ ys)"
    and ms': "divides (ends_at 0 xs) ms'" "ends_at (ends_at 0 xs) ms' = ends_at (ends_at 0 xs) ms"
  shows "divides 0 (xs @ ms' @ ys) \<and> ends_at 0 (xs @ ms' @ ys) = ends_at 0 (xs @ ms @ ys)
    \<and> (\<forall>b. value_at (xs @ ms' @ ys) b
          = (if ends_at 0 xs \<le> b \<and> b < ends_at (ends_at 0 xs) ms then value_at ms' b
             else value_at (xs @ ms @ ys) b))"
proof -
  let ?m = "ends_at 0 xs"
  have new: "divides 0 (xs @ ms' @ ys)" "ends_at 0 (xs @ ms' @ ys) = ends_at 0 (xs @ ms @ ys)"
    using ps ms' by (simp_all add: tiles_append tiles_end_append)
  have rest: "divides ?m (ms @ ys)" "divides ?m (ms' @ ys)"
    using ps new by (simp_all add: tiles_append)
  have "value_at (xs @ zs @ ys) b = (if b < ?m then value_at xs b
      else if b < ends_at ?m zs then value_at zs b else value_at ys b)"
    if "divides 0 (xs @ zs @ ys)" "divides ?m (zs @ ys)" for zs b
    using value_at_append_tiles [OF that(1), of b] value_at_append_tiles [OF that(2), of b]
    by (cases "b < ?m") (simp_all add: not_less leD)
  from this [OF ps rest(1)] this [OF new(1) rest(2)] show ?thesis
    using new ms'(2) by (auto simp: not_less)
qed

lemma split_at:
  assumes "divides 0 ps" "i < length ps"
  obtains xs ys where "ps = xs @ ps ! i # ys" "length xs = i"
    "ends_at 0 xs = ph_start_beat (ps ! i)" "ph_start_beat (ps ! i) < ph_end_beat (ps ! i)"
proof
  show d: "ps = take i ps @ ps ! i # drop (Suc i) ps" using assms(2) by (rule id_take_nth_drop)
  show "length (take i ps) = i" using assms(2) by simp
  have "divides 0 (take i ps @ ps ! i # drop (Suc i) ps)" using assms(1) d by simp
  then show "ends_at 0 (take i ps) = ph_start_beat (ps ! i)" "ph_start_beat (ps ! i) < ph_end_beat (ps ! i)"
    unfolding tiles_append tiles.simps by metis+
qed

lemma split_at2:
  assumes "divides 0 ps" "Suc i < length ps"
  obtains xs ys where "ps = xs @ ps ! i # ps ! Suc i # ys" "length xs = i"
    "ends_at 0 xs = ph_start_beat (ps ! i)" "ph_start_beat (ps ! i) < ph_end_beat (ps ! i)"
    "ph_start_beat (ps ! Suc i) = ph_end_beat (ps ! i)" "ph_start_beat (ps ! Suc i) < ph_end_beat (ps ! Suc i)"
proof -
  obtain xs ys where d: "ps = xs @ ps ! i # ys" "length xs = i" "ends_at 0 xs = ph_start_beat (ps ! i)"
      "ph_start_beat (ps ! i) < ph_end_beat (ps ! i)"
    using split_at [OF assms(1), of i] assms(2) by auto
  have "length ps = Suc (i + length ys)" using arg_cong [OF d(1), of length] d(2) by simp
  with assms(2) obtain y zs where ys: "ys = y # zs" by (cases ys) auto
  have "ps ! Suc i = (xs @ ps ! i # ys) ! Suc (length xs)" using d(1,2) by metis
  then have "ps ! Suc i = y" using ys by (simp add: nth_append)
  moreover have "divides 0 (xs @ ps ! i # y # zs)" using assms(1) d(1) ys by simp
  ultimately show ?thesis
    using that [of xs zs] d ys unfolding tiles_append tiles.simps by metis
qed

lemma repaint_splice:
  assumes ps: "divides 0 (xs @ ms @ ys)" and m: "ends_at 0 xs = m"
    and ms': "divides m ms'" "ends_at m ms' = ends_at m ms" "ms' \<noteq> []"
    and range: "m \<le> lo" "lo < hi" "hi \<le> ends_at m ms"
    and v: "\<And>b. m \<le> b \<Longrightarrow> b < ends_at m ms \<Longrightarrow> value_at ms' b = paint lo hi v (value_at ms) b"
  shows "repainted (xs @ ms @ ys) (xs @ ms' @ ys) lo hi v"
proof -
  note sp = splice [OF ps, of ms'] ms'(1,2)
  have tail: "divides m (ms @ ys)" using ps m by (simp add: tiles_append)
  have "hi \<le> ends_at 0 (xs @ ms @ ys)"
    using range(3) tiles_le_end [of ph_start_beat ph_end_beat "ends_at m ms" ys] tail m
    by (simp add: tiles_append tiles_end_append)
  moreover have "value_at (xs @ ms' @ ys) b = paint lo hi v (value_at (xs @ ms @ ys)) b" for b
  proof (cases "m \<le> b \<and> b < ends_at m ms")
    case True
    then have "value_at (xs @ ms @ ys) b = value_at ms b"
      using value_at_append_tiles [OF ps, of b] value_at_append_tiles [OF tail, of b] m by (simp add: leD)
    with True v show ?thesis using sp m by (simp add: paint_def)
  next
    case False
    then have "\<not> (lo \<le> b \<and> b < hi)" using range by auto
    with False show ?thesis using sp m by (auto simp: paint_def)
  qed
  ultimately show ?thesis using sp m range(2) ms'(3) by (simp add: repainted_def)
qed

text \<open>Vectors around a known prefix.\<close>

lemma vec_at:
  assumes "length xs = i"
  shows "(xs @ p # ys)[i := r] = xs @ r # ys"
    "insert_at (Suc i) z (xs @ p # ys) = xs @ p # z # ys"
    "remove_at i (xs @ p # ys) = xs @ ys"
    "remove_at (Suc i) (xs @ p # q # ys) = xs @ p # ys"
    "(xs @ p # q # ys)[Suc i := r] = xs @ p # r # ys"
  using assms by (simp_all add: list_update_append insert_at_def remove_at_def)

lemma respan_fields [simp]:
  "ph_start_beat (respan a b p) = a" "ph_end_beat (respan a b p) = b"
  "phrase_value (respan a b p) = phrase_value p"
  by (simp_all add: respan_def with_loop_strategy_def new_phrase_def phrase_value_def)

lemma new_phrase_fields [simp]:
  "ph_start_beat (new_phrase i a b r) = a" "ph_end_beat (new_phrase i a b r) = b"
  "phrase_value (new_phrase i a b r) = (r, Auto)"
  by (simp_all add: new_phrase_def phrase_value_def)

lemma phrase_index_Inr [simp]: "phrase_index_index idx n = Inr i \<longleftrightarrow> i = unat idx \<and> unat idx < n"
  by (auto simp: phrase_index_index_def)

section \<open>Each command paints one range\<close>

text \<open>The range a command paints, and with what.\<close>

fun painted :: "PhraseInstance list \<Rightarrow> TimelineEditCommand \<Rightarrow> u32 \<times> u32 \<times> phrase_value" where
  "painted ps (Create a b role) = (a, b, (role, Auto))"
| "painted ps (Split idx at_beat) =
     (at_beat, ph_end_beat (ps ! unat idx), (ph_role_id (ps ! unat idx), Auto))"
| "painted ps (TimelineEditCommand.MergePrevious idx) =
     (let p = ps ! (unat idx - 1) in (ph_start_beat p, ph_end_beat p, phrase_value (ps ! unat idx)))"
| "painted ps (TimelineEditCommand.MergeNext idx) =
     (let p = ps ! (unat idx + 1) in (ph_start_beat p, ph_end_beat p, phrase_value (ps ! unat idx)))"
| "painted ps (TimelineEditCommand.MoveBoundary idx to_beat) =
     (let boundary = ph_end_beat (ps ! unat idx) in
      if to_beat < boundary then (to_beat, boundary, phrase_value (ps ! (unat idx + 1)))
      else (boundary, to_beat, phrase_value (ps ! unat idx)))"
| "painted ps (Delete idx absorb_into) =
     (let p = ps ! unat idx in
      (ph_start_beat p, ph_end_beat p,
       phrase_value (ps ! (case absorb_into of Previous \<Rightarrow> unat idx - 1 | Next \<Rightarrow> unat idx + 1))))"
| "painted ps (TimelineEditCommand.ChangeRole idx role) =
     (let p = ps ! unat idx in (ph_start_beat p, ph_end_beat p, (role, Auto)))"
| "painted ps (SetLoopStrategy idx strategy) =
     (let p = ps ! unat idx in (ph_start_beat p, ph_end_beat p, (ph_role_id p, strategy)))"

lemma replace_one:
  assumes ps: "divides 0 ps" "i < length ps"
    and r: "ph_start_beat r = ph_start_beat (ps ! i)" "ph_end_beat r = ph_end_beat (ps ! i)"
  shows "repainted ps (ps[i := r]) (ph_start_beat (ps ! i)) (ph_end_beat (ps ! i)) (phrase_value r)"
proof -
  obtain xs ys where d: "ps = xs @ ps ! i # ys" "length xs = i" "ends_at 0 xs = ph_start_beat (ps ! i)"
      "ph_start_beat (ps ! i) < ph_end_beat (ps ! i)"
    using split_at [OF ps] .
  have "divides 0 (xs @ [ps ! i] @ ys)" using ps(1) d(1) by simp
  then have "repainted (xs @ [ps ! i] @ ys) (xs @ [r] @ ys)
      (ph_start_beat (ps ! i)) (ph_end_beat (ps ! i)) (phrase_value r)"
    using d(3,4) r by (intro repaint_splice) (auto simp: paint_def)
  moreover have "ps[i := r] = xs @ [r] @ ys" by (subst d(1)) (simp add: d(2) list_update_append)
  ultimately show ?thesis using d(1) by simp
qed

lemma edit_split_paints:
  assumes ps: "divides 0 ps" and e: "edit_split ps idx at_beat = Inr out"
  shows "repainted ps out at_beat (ph_end_beat (ps ! unat idx)) (ph_role_id (ps ! unat idx), Auto)"
proof -
  let ?i = "unat idx" and ?p = "ps ! unat idx"
  have i: "?i < length ps" and at: "ph_start_beat ?p < at_beat" "at_beat < ph_end_beat ?p"
    and out: "out = insert_at (Suc ?i) (new_phrase 0 at_beat (ph_end_beat ?p) (ph_role_id ?p))
      (ps[?i := respan (ph_start_beat ?p) at_beat ?p])"
    using e by (auto simp: edit_split_def and_then_eq_Inr Let_def split: if_splits)
  obtain xs ys where d: "ps = xs @ ?p # ys" "length xs = ?i" "ends_at 0 xs = ph_start_beat ?p"
    using split_at [OF ps i] by metis
  let ?ms = "[respan (ph_start_beat ?p) at_beat ?p, new_phrase 0 at_beat (ph_end_beat ?p) (ph_role_id ?p)]"
  have "repainted (xs @ [?p] @ ys) (xs @ ?ms @ ys) at_beat (ph_end_beat ?p) (ph_role_id ?p, Auto)"
    using ps d at by (intro repaint_splice) (auto simp: paint_def not_less)
  moreover have "out = xs @ ?ms @ ys"
    unfolding out by (subst d(1)) (simp add: vec_at [OF d(2)])
  ultimately show ?thesis using d(1) by simp
qed

text \<open>Two neighbouring phrases become one phrase with the value of one of them.\<close>

lemma join_two:
  assumes ps: "divides 0 ps" "Suc i < length ps" and k: "k = i \<or> k = Suc i"
    and out: "out = take i ps @ respan (ph_start_beat (ps ! i)) (ph_end_beat (ps ! Suc i)) (ps ! k)
                # drop (Suc (Suc i)) ps"
  defines "j \<equiv> (if k = i then Suc i else i)"
  shows "repainted ps out (ph_start_beat (ps ! j)) (ph_end_beat (ps ! j)) (phrase_value (ps ! k))"
proof -
  obtain xs ys where d: "ps = xs @ ps ! i # ps ! Suc i # ys" "length xs = i"
      "ends_at 0 xs = ph_start_beat (ps ! i)" "ph_start_beat (ps ! i) < ph_end_beat (ps ! i)"
      "ph_start_beat (ps ! Suc i) = ph_end_beat (ps ! i)" "ph_start_beat (ps ! Suc i) < ph_end_beat (ps ! Suc i)"
    using split_at2 [OF ps] .
  let ?m = "respan (ph_start_beat (ps ! i)) (ph_end_beat (ps ! Suc i)) (ps ! k)"
  have "repainted (xs @ [ps ! i, ps ! Suc i] @ ys) (xs @ [?m] @ ys)
      (ph_start_beat (ps ! j)) (ph_end_beat (ps ! j)) (phrase_value (ps ! k))"
    using ps d k by (intro repaint_splice) (auto simp: paint_def j_def not_less)
  moreover have "take i ps = xs" "drop (Suc (Suc i)) ps = ys"
    using arg_cong [OF d(1), of "take i"] arg_cong [OF d(1), of "drop (Suc (Suc i))"] d(2) by simp_all
  ultimately show ?thesis using d(1) out by simp
qed

lemma remove_updated:
  assumes "Suc i < length ps"
  shows "remove_at i (ps[Suc i := r]) = take i ps @ r # drop (Suc (Suc i)) ps"
    "remove_at (Suc i) (ps[i := r]) = take i ps @ r # drop (Suc (Suc i)) ps"
proof -
  have "drop (Suc i) (ps[Suc i := r]) = r # drop (Suc (Suc i)) ps"
    using assms by (simp add: drop_update_swap Cons_nth_drop_Suc [symmetric])
  then show "remove_at i (ps[Suc i := r]) = take i ps @ r # drop (Suc (Suc i)) ps"
    by (simp add: remove_at_def)
  have "take (Suc i) (ps[i := r]) = take i ps @ [r]"
    using assms by (simp add: take_Suc_conv_app_nth)
  then show "remove_at (Suc i) (ps[i := r]) = take i ps @ r # drop (Suc (Suc i)) ps"
    by (simp add: remove_at_def)
qed

lemma edit_merge_previous_paints:
  assumes ps: "divides 0 ps" and e: "edit_merge_previous ps idx = Inr out"
  shows "repainted ps out (ph_start_beat (ps ! (unat idx - 1))) (ph_end_beat (ps ! (unat idx - 1)))
    (phrase_value (ps ! unat idx))"
proof -
  obtain i where i: "unat idx = Suc i" "Suc i < length ps"
    and out: "out = remove_at i (ps[Suc i := respan (ph_start_beat (ps ! i)) (ph_end_beat (ps ! Suc i)) (ps ! Suc i)])"
    using e by (cases "unat idx") (auto simp: edit_merge_previous_def and_then_eq_Inr Let_def split: if_splits)
  then show ?thesis using join_two [OF ps i(2), of "Suc i" out] by (simp add: remove_updated)
qed

lemma edit_merge_next_paints:
  assumes ps: "divides 0 ps" and e: "edit_merge_next ps idx = Inr out"
  shows "repainted ps out (ph_start_beat (ps ! (unat idx + 1))) (ph_end_beat (ps ! (unat idx + 1)))
    (phrase_value (ps ! unat idx))"
proof -
  let ?i = "unat idx"
  have i: "Suc ?i < length ps"
    and out: "out = remove_at (Suc ?i) (ps[?i := respan (ph_start_beat (ps ! ?i)) (ph_end_beat (ps ! Suc ?i)) (ps ! ?i)])"
    using e by (auto simp: edit_merge_next_def and_then_eq_Inr Let_def split: if_splits)
  then show ?thesis using join_two [OF ps i, of ?i out] by (simp add: remove_updated)
qed

lemma edit_delete_paints:
  assumes ps: "divides 0 ps" and e: "edit_delete ps idx absorb_into = Inr out"
  shows "repainted ps out (ph_start_beat (ps ! unat idx)) (ph_end_beat (ps ! unat idx))
    (phrase_value (ps ! (case absorb_into of Previous \<Rightarrow> unat idx - 1 | Next \<Rightarrow> unat idx + 1)))"
proof (cases absorb_into)
  case Previous
  then obtain i where i: "unat idx = Suc i" "Suc i < length ps"
    and out: "out = remove_at (Suc i) (ps[i := respan (ph_start_beat (ps ! i)) (ph_end_beat (ps ! Suc i)) (ps ! i)])"
    using e by (cases "unat idx") (auto simp: edit_delete_def and_then_eq_Inr Let_def split: if_splits)
  then show ?thesis using join_two [OF ps i(2), of i out] Previous by (simp add: remove_updated)
next
  case Next
  let ?i = "unat idx"
  have i: "Suc ?i < length ps"
    and out: "out = remove_at ?i (ps[Suc ?i := respan (ph_start_beat (ps ! ?i)) (ph_end_beat (ps ! Suc ?i)) (ps ! Suc ?i)])"
    using e Next by (auto simp: edit_delete_def and_then_eq_Inr Let_def split: if_splits)
  then show ?thesis using join_two [OF ps i, of "Suc ?i" out] Next by (simp add: remove_updated)
qed

lemma edit_move_boundary_paints:
  assumes ps: "divides 0 ps" and e: "edit_move_boundary ps idx to_beat = Inr out"
    and changed: "to_beat \<noteq> ph_end_beat (ps ! unat idx)"
  shows "case painted ps (TimelineEditCommand.MoveBoundary idx to_beat) of (lo, hi, v) \<Rightarrow> repainted ps out lo hi v"
proof -
  let ?i = "unat idx"
  let ?p = "ps ! unat idx" and ?q = "ps ! Suc (unat idx)"
  let ?ms = "[respan (ph_start_beat ?p) to_beat ?p, respan to_beat (ph_end_beat ?q) ?q]"
  have i: "Suc ?i < length ps" and to: "ph_start_beat ?p < to_beat" "to_beat < ph_end_beat ?q"
    and out: "out = ps[?i := ?ms ! 0, Suc ?i := ?ms ! 1]"
    using e by (auto simp: edit_move_boundary_def and_then_eq_Inr Let_def split: if_splits)
  obtain xs ys where d: "ps = xs @ ?p # ?q # ys" "length xs = ?i"
      "ends_at 0 xs = ph_start_beat ?p" "ph_start_beat ?p < ph_end_beat ?p"
      "ph_start_beat ?q = ph_end_beat ?p" "ph_start_beat ?q < ph_end_beat ?q"
    using split_at2 [OF ps i] .
  have tiled: "divides 0 (xs @ [?p, ?q] @ ys)" using ps d(1) by simp
  have "repainted (xs @ [?p, ?q] @ ys) (xs @ ?ms @ ys) to_beat (ph_end_beat ?p) (phrase_value ?q)"
    if "to_beat < ph_end_beat ?p"
    using tiled d to that by (intro repaint_splice) (auto simp: paint_def not_less)
  moreover have "repainted (xs @ [?p, ?q] @ ys) (xs @ ?ms @ ys) (ph_end_beat ?p) to_beat (phrase_value ?p)"
    if "ph_end_beat ?p < to_beat"
    using tiled d to that by (intro repaint_splice) (auto simp: paint_def not_less)
  moreover have "out = xs @ ?ms @ ys"
    unfolding out by (subst d(1)) (simp add: vec_at [OF d(2)])
  ultimately show ?thesis using d(1) changed by (auto simp: Let_def not_less order.order_iff_strict)
qed

section \<open>Creating a phrase\<close>

text \<open>
  The loop invariant of \<open>Create\<close>, after the phrases that end at \<open>b\<close>: the replacement
  divides the beats up to \<open>b\<close>, or up to the end of the new phrase once that is placed, and
  shows the new phrase in its range and the old ones elsewhere.
\<close>

definition create_inv ::
  "u32 \<Rightarrow> u32 \<Rightarrow> PhraseRoleId \<Rightarrow> (u32 \<Rightarrow> phrase_value option) \<Rightarrow> u32 \<Rightarrow> PhraseInstance list \<Rightarrow> bool" where
  "create_inv s e role old b acc \<longleftrightarrow>
     divides 0 acc \<and> ends_at 0 acc = (if b \<le> s then b else max b e)
   \<and> (\<forall>x < ends_at 0 acc. value_at acc x = paint s e (role, Auto) old x)"

lemma value_at_snoc:
  assumes "divides 0 (acc @ [p])"
  shows "value_at (acc @ [p]) x =
    (if x < ends_at 0 acc then value_at acc x else if x < ph_end_beat p then Some (phrase_value p) else None)"
  using value_at_append_tiles [OF assms, of x] assms by (auto simp: tiles_append not_less)

lemma push_keeps:
  assumes acc: "divides 0 acc" "\<forall>x < ends_at 0 acc. value_at acc x = f x"
    and p: "ph_start_beat p = ends_at 0 acc" "ph_start_beat p < ph_end_beat p"
    and f: "\<And>x. ph_start_beat p \<le> x \<Longrightarrow> x < ph_end_beat p \<Longrightarrow> f x = Some (phrase_value p)"
  shows "divides 0 (acc @ [p]) \<and> ends_at 0 (acc @ [p]) = ph_end_beat p
    \<and> (\<forall>x < ends_at 0 (acc @ [p]). value_at (acc @ [p]) x = f x)"
proof -
  have d: "divides 0 (acc @ [p])" using acc p by (simp add: tiles_append)
  then show ?thesis using acc(2) p f value_at_snoc [OF d] by (auto simp: tiles_end_append not_less)
qed

lemma create_step:
  assumes inv: "create_inv s e role old b acc" and se: "s < e"
    and p: "ph_start_beat p = b" "b < ph_end_beat p"
    and old: "\<And>x. b \<le> x \<Longrightarrow> x < ph_end_beat p \<Longrightarrow> old x = Some (phrase_value p)"
    and overlap: "\<not> (ph_end_beat p \<le> s \<or> ph_start_beat p \<ge> e)"
  defines "r1 \<equiv> (if ph_start_beat p < s then acc @ [respan (ph_start_beat p) s p] else acc)"
  defines "r2 \<equiv> (if r1 = [] \<or> ph_end_beat (last r1) \<le> s then r1 @ [new_phrase 0 s e role] else r1)"
  defines "r3 \<equiv> (if ph_end_beat p > e then r2 @ [respan e (ph_end_beat p) p] else r2)"
  shows "create_inv s e role old (ph_end_beat p) r3"
proof -
  let ?f = "paint s e (role, Auto) old"
  have acc: "divides 0 acc" "\<forall>x < ends_at 0 acc. value_at acc x = ?f x"
    and end_acc: "ends_at 0 acc = (if b \<le> s then b else e)"
    using inv overlap p by (auto simp: create_inv_def max_def)
  have r1: "divides 0 r1 \<and> ends_at 0 r1 = (if b \<le> s then s else e) \<and> (\<forall>x < ends_at 0 r1. value_at r1 x = ?f x)"
  proof (cases "b < s")
    case True
    have "s < ph_end_beat p" using overlap by auto
    then have "?f x = Some (phrase_value p)" if "b \<le> x" "x < s" for x
      using old [of x] that by (auto simp: paint_def)
    then have "divides 0 (acc @ [respan b s p]) \<and> ends_at 0 (acc @ [respan b s p]) = s
        \<and> (\<forall>x < ends_at 0 (acc @ [respan b s p]). value_at (acc @ [respan b s p]) x = ?f x)"
      using push_keeps [OF acc, of "respan b s p"] end_acc True by (simp add: less_imp_le)
    then show ?thesis using True p by (simp add: r1_def less_imp_le)
  next
    case False
    then show ?thesis using acc end_acc p by (auto simp: r1_def not_less)
  qed
  have last_r1: "r1 = [] \<or> ph_end_beat (last r1) = ends_at 0 r1"
    using tiles_end_last [of r1 ph_end_beat 0] by (cases "r1 = []") simp_all
  have r2: "divides 0 r2 \<and> ends_at 0 r2 = e \<and> (\<forall>x < ends_at 0 r2. value_at r2 x = ?f x)"
  proof (cases "b \<le> s")
    case True
    then have "r2 = r1 @ [new_phrase 0 s e role]" using last_r1 r1 by (auto simp: r2_def)
    then show ?thesis using push_keeps [of r1 ?f "new_phrase 0 s e role"] r1 True se by (simp add: paint_def)
  next
    case False
    then have "ends_at 0 r1 = e" using r1 by simp
    then have "r1 \<noteq> []" "ph_end_beat (last r1) = e" using last_r1 se by auto
    then have "r2 = r1" using se by (simp add: r2_def leD)
    then show ?thesis using r1 False by simp
  qed
  have r3: "divides 0 r3 \<and> ends_at 0 r3 = max (ph_end_beat p) e \<and> (\<forall>x < ends_at 0 r3. value_at r3 x = ?f x)"
  proof (cases "e < ph_end_beat p")
    case True
    have "old x = Some (phrase_value p)" if "e \<le> x" "x < ph_end_beat p" for x
      using old that overlap p by (metis leD le_less_linear order.trans order.strict_implies_order)
    then show ?thesis
      using push_keeps [of r2 ?f "respan e (ph_end_beat p) p"] r2 True
      by (simp add: r3_def paint_def leD max_def) auto
  next
    case False
    then show ?thesis using r2 by (auto simp: r3_def max_def not_less)
  qed
  then show ?thesis using overlap by (auto simp: create_inv_def not_le)
qed

lemma create_skip:
  assumes inv: "create_inv s e role old b acc" and se: "s < e"
    and p: "ph_start_beat p = b" "b < ph_end_beat p"
    and old: "\<And>x. b \<le> x \<Longrightarrow> x < ph_end_beat p \<Longrightarrow> old x = Some (phrase_value p)"
    and apart: "ph_end_beat p \<le> s \<or> ph_start_beat p \<ge> e"
  shows "create_inv s e role old (ph_end_beat p) (acc @ [p])"
proof -
  let ?f = "paint s e (role, Auto) old"
  have acc: "divides 0 acc" "\<forall>x < ends_at 0 acc. value_at acc x = ?f x" "ends_at 0 acc = b"
    using inv apart p se by (auto simp: create_inv_def max_def)
  have "?f x = Some (phrase_value p)" if "b \<le> x" "x < ph_end_beat p" for x
    using old [OF that] apart that p by (auto simp: paint_def)
  then show ?thesis
    using push_keeps [OF acc(1,2), of p] acc(3) p apart se
    by (auto simp: create_inv_def max_def)
qed

lemma create_loop_inv:
  assumes "s < e"
  shows "create_inv s e role old b acc \<Longrightarrow> divides b ps \<Longrightarrow>
    (\<And>x. b \<le> x \<Longrightarrow> x < ends_at b ps \<Longrightarrow> old x = value_at ps x) \<Longrightarrow>
    create_inv s e role old (ends_at b ps) (create_loop s e role acc ps)"
proof (induction ps arbitrary: b acc)
  case (Cons p ps)
  have p: "ph_start_beat p = b" "b < ph_end_beat p" "divides (ph_end_beat p) ps" using Cons.prems by auto
  have le: "ph_end_beat p \<le> ends_at b (p # ps)" using tiles_le_end [OF p(3)] by simp
  have old: "old x = Some (phrase_value p)" if "b \<le> x" "x < ph_end_beat p" for x
    using Cons.prems(3) [of x] that le p(1) by simp
  have rest: "old x = value_at ps x" if "ph_end_beat p \<le> x" "x < ends_at (ph_end_beat p) ps" for x
    using Cons.prems(3) [of x] that p by (simp add: leD)
  show ?case
  proof (cases "ph_end_beat p \<le> s \<or> ph_start_beat p \<ge> e")
    case True
    from create_skip [OF Cons.prems(1) assms p(1,2) old True]
    show ?thesis using Cons.IH [OF _ p(3) rest] True by simp
  next
    case False
    from create_step [OF Cons.prems(1) assms p(1,2) old False]
    show ?thesis using Cons.IH [OF _ p(3) rest] False by (simp add: Let_def)
  qed
qed simp

lemma edit_create_paints:
  assumes ps: "divides 0 ps" and e: "edit_create ps (ends_at 0 ps) a b role = Inr out"
  shows "repainted ps out a b (role, Auto)"
proof -
  have ab: "a < b" "b \<le> ends_at 0 ps" and out: "out = create_loop a b role [] ps"
    using e by (auto simp: edit_create_def not_le split: if_splits)
  have "create_inv a b role (value_at ps) 0 []" by (simp add: create_inv_def)
  from create_loop_inv [OF ab(1) this ps]
  have inv: "create_inv a b role (value_at ps) (ends_at 0 ps) out" using out by simp
  then have d: "divides 0 out" "ends_at 0 out = ends_at 0 ps"
    using ab by (auto simp: create_inv_def max_def)
  have "value_at out x = paint a b (role, Auto) (value_at ps) x" for x
  proof (cases "x < ends_at 0 ps")
    case True
    then show ?thesis using inv d(2) by (simp add: create_inv_def)
  next
    case False
    then show ?thesis
      using value_at_after [OF d(1), of x] value_at_after [OF ps, of x] d(2) ab(2)
      by (auto simp: paint_def not_less)
  qed
  moreover have "out \<noteq> []" using d(2) ab by auto
  ultimately show ?thesis using d ab by (simp add: repainted_def)
qed

section \<open>Numbering\<close>

definition renumber :: "PhraseInstance list \<Rightarrow> PhraseInstance list" where
  "renumber ps = map (\<lambda>(i, p). (respan (ph_start_beat p) (ph_end_beat p) p)\<lparr>ph_index := of_nat i\<rparr>)
     (enumerate 0 ps)"

lemma index_update_fields [simp]:
  "ph_start_beat (p\<lparr>ph_index := i\<rparr>) = ph_start_beat p" "ph_end_beat (p\<lparr>ph_index := i\<rparr>) = ph_end_beat p"
  "phrase_value (p\<lparr>ph_index := i\<rparr>) = phrase_value p"
  by (simp_all add: phrase_value_def)

lemma renumber_nth:
  "i < length ps \<Longrightarrow>
   renumber ps ! i = (respan (ph_start_beat (ps ! i)) (ph_end_beat (ps ! i)) (ps ! i))\<lparr>ph_index := of_nat i\<rparr>"
  by (simp add: renumber_def nth_enumerate_eq)

lemma length_renumber [simp]: "length (renumber ps) = length ps"
  by (simp add: renumber_def)

lemma renumber_eq_Nil [simp]: "renumber ps = [] \<longleftrightarrow> ps = []"
  by (metis length_0_conv length_renumber)

lemma renumber_map:
  "map ph_start_beat (renumber ps) = map ph_start_beat ps"
  "map ph_end_beat (renumber ps) = map ph_end_beat ps"
  "map phrase_value (renumber ps) = map phrase_value ps"
  by (auto simp: list_eq_iff_nth_eq renumber_nth)

lemma value_at_cong:
  "map ph_start_beat ps = map ph_start_beat qs \<Longrightarrow> map ph_end_beat ps = map ph_end_beat qs \<Longrightarrow>
   map phrase_value ps = map phrase_value qs \<Longrightarrow> value_at ps b = value_at qs b"
proof (induction ps arbitrary: qs)
  case (Cons p ps)
  then show ?case by (cases qs) auto
qed simp

lemma renumber_painting:
  "value_at (renumber ps) b = value_at ps b" "divides 0 (renumber ps) = divides 0 ps"
  "ends_at 0 (renumber ps) = ends_at 0 ps"
  using value_at_cong [OF renumber_map] tiles_cong [OF renumber_map(1,2)] by auto

lemma unat_of_nat_u16: "i < 65536 \<Longrightarrow> unat (of_nat i :: u16) = i"
  by (simp add: unat_of_nat)

lemma renumber_indexed: "length ps \<le> 65536 \<Longrightarrow> indexed ph_index (renumber ps)"
  by (simp add: indexed_def renumber_nth unat_of_nat_u16)

lemma renumber_id: "indexed ph_index ps \<Longrightarrow> renumber ps = ps"
proof (rule nth_equalityI)
  fix i
  assume idx: "indexed ph_index ps" and i: "i < length (renumber ps)"
  then have "unat (ph_index (ps ! i)) = i" by (simp add: indexed_def)
  then have "of_nat i = ph_index (ps ! i)" by (metis of_nat_unat ucast_id)
  then show "renumber ps ! i = ps ! i"
    using i by (cases "ps ! i") (simp add: renumber_nth respan_def with_loop_strategy_def new_phrase_def)
qed simp

lemma reindex_eq: "reindex ps = (if length ps \<le> 65536 then Inr (renumber ps) else Inl TooManyPhrases)"
proof (cases "length ps \<le> 65536")
  case True
  have "reindex ps = Inr (renumber ps)"
    unfolding reindex_def try_map_eq_Inr renumber_def
    using True by (auto simp: list_all2_conv_all_nth nth_enumerate_eq)
  then show ?thesis using True by simp
next
  case False
  let ?f = "\<lambda>(i, p). if i > 65535 then Inl TooManyPhrases
    else Inr ((respan (ph_start_beat p) (ph_end_beat p) p)\<lparr>ph_index := of_nat i\<rparr>)"
  have "reindex ps \<noteq> Inr qs" for qs
  proof
    assume "reindex ps = Inr qs"
    then have "list_all2 (\<lambda>x y. ?f x = Inr y) (enumerate 0 ps) qs"
      unfolding reindex_def try_map_eq_Inr .
    from list_all2_nthD [OF this, of 65536] have "?f (enumerate 0 ps ! 65536) = Inr (qs ! 65536)"
      using False by simp
    then show False using False by (simp add: nth_enumerate_eq)
  qed
  then obtain e where e: "reindex ps = Inl e" by (cases "reindex ps") auto
  then have "e = TooManyPhrases"
    unfolding reindex_def using try_map_eq_Inl by (fastforce split: if_splits)
  with e False show ?thesis by simp
qed

section \<open>Well-formed timelines\<close>

definition timeline_ok :: "LumiPhraseTimeline \<Rightarrow> bool" where
  "timeline_ok t \<longleftrightarrow> tl_track_id t \<noteq> 0
     \<and> tl_phrases t \<noteq> [] \<and> indexed ph_index (tl_phrases t)
     \<and> divides 0 (tl_phrases t) \<and> ends_at 0 (tl_phrases t) = tl_total_beats t
     \<and> (\<forall>p \<in> set (tl_phrases t). strategy_ok (ph_loop_strategy p))
     \<and> (\<forall>r. tl_parent_revision t = Some r \<longrightarrow> r < tl_revision t)
     \<and> (\<forall>r. tl_restored_from t = Some r \<longrightarrow> r < tl_revision t)"

interpretation timeline_parts: beat_partition
  timeline_ok tl_phrases ph_index ph_start_beat ph_end_beat tl_total_beats
  by unfold_locales (simp_all add: timeline_ok_def)

lemma check_timeline_phrases_ok:
  "check_timeline_phrases d n b ps = Inr e \<longleftrightarrow>
     indexed_from ph_index n ps \<and> divides b ps
   \<and> (\<forall>p \<in> set ps. ph_end_beat p \<le> d \<and> strategy_ok (ph_loop_strategy p)) \<and> ends_at b ps = e"
  by (induction ps arbitrary: n b) (auto simp: indexed_from_simps not_le)

lemma try_new_with_history_ok:
  "try_new_with_history track revision baseline total_beats origin reason parent restored phrases = Inr t \<longleftrightarrow>
     t = \<lparr>tl_track_id = track, tl_revision = revision, tl_baseline_revision = baseline,
          tl_total_beats = total_beats, tl_origin = origin, tl_reason = reason,
          tl_parent_revision = parent, tl_restored_from = restored, tl_phrases = phrases\<rparr> \<and> timeline_ok t"
proof -
  have bound: "\<forall>p \<in> set phrases. ph_end_beat p \<le> total_beats"
    if "divides 0 phrases" "ends_at 0 phrases = total_beats"
    using that tiles_member by metis
  have pos: "total_beats \<noteq> 0" if "phrases \<noteq> []" "divides 0 phrases" "ends_at 0 phrases = total_beats"
    using tiles_less_end [OF that(2,1)] that(3) by auto
  show ?thesis
    using bound pos
    by (cases parent; cases restored)
       (auto simp: try_new_with_history_def result_simps check_timeline_phrases_ok indexed_from_0
          timeline_ok_def not_le)
qed

lemma timeline_next_revision:
  "timeline_revision_checked_next r = Some n \<Longrightarrow> r < n \<and> unat n = unat r + 1"
  using checked_add_SomeD [of r 1 n] checked_add_Some_gt [of r 1 n]
  by (simp add: timeline_revision_checked_next_def)

section \<open>Edits of a timeline\<close>

lemma apply_command_paints:
  assumes ps: "divides 0 ps" and out: "apply_command ps (ends_at 0 ps) c = Inr out"
    and changed: "\<And>idx to. c = TimelineEditCommand.MoveBoundary idx to \<Longrightarrow> to \<noteq> ph_end_beat (ps ! unat idx)"
  shows "case painted ps c of (lo, hi, v) \<Rightarrow> repainted ps out lo hi v"
proof (cases c)
  case (ChangeRole idx role)
  then have i: "unat idx < length ps"
    and o: "out = ps[unat idx := new_phrase 0 (ph_start_beat (ps ! unat idx)) (ph_end_beat (ps ! unat idx)) role]"
    using out by (auto simp: edit_change_role_def and_then_eq_Inr Let_def split: if_splits)
  show ?thesis
    using replace_one [OF ps i, of "new_phrase 0 (ph_start_beat (ps ! unat idx)) (ph_end_beat (ps ! unat idx)) role"]
      o ChangeRole
    by (simp add: Let_def)
next
  case (SetLoopStrategy idx strategy)
  then have i: "unat idx < length ps"
    and o: "out = ps[unat idx := with_loop_strategy (new_phrase 0 (ph_start_beat (ps ! unat idx))
      (ph_end_beat (ps ! unat idx)) (ph_role_id (ps ! unat idx))) strategy]"
    using out by (auto simp: edit_set_loop_strategy_def and_then_eq_Inr Let_def split: if_splits)
  show ?thesis
    using replace_one [OF ps i, of "with_loop_strategy (new_phrase 0 (ph_start_beat (ps ! unat idx))
      (ph_end_beat (ps ! unat idx)) (ph_role_id (ps ! unat idx))) strategy"] o SetLoopStrategy
    by (simp add: Let_def with_loop_strategy_def phrase_value_def new_phrase_def)
next
  case (MoveBoundary idx to)
  then show ?thesis using edit_move_boundary_paints [OF ps, of idx to out] out changed [OF MoveBoundary] by simp
qed (use out edit_create_paints [OF ps] edit_split_paints [OF ps] edit_merge_previous_paints [OF ps]
    edit_merge_next_paints [OF ps] edit_delete_paints [OF ps] in \<open>auto simp: Let_def\<close>)

text \<open>Moving a boundary to where it is changes nothing but the indices.\<close>

lemma move_to_same_place:
  assumes ps: "divides 0 ps" and idx: "indexed ph_index ps"
    and e: "edit_move_boundary ps i (ph_end_beat (ps ! unat i)) = Inr out"
  shows "renumber out = ps"
proof -
  let ?i = "unat i"
  have i: "Suc ?i < length ps"
    and out: "out = ps[?i := respan (ph_start_beat (ps ! ?i)) (ph_end_beat (ps ! ?i)) (ps ! ?i),
      Suc ?i := respan (ph_end_beat (ps ! ?i)) (ph_end_beat (ps ! Suc ?i)) (ps ! Suc ?i)]"
    using e by (auto simp: edit_move_boundary_def and_then_eq_Inr Let_def split: if_splits)
  have "ph_start_beat (ps ! Suc ?i) = ph_end_beat (ps ! ?i)"
    using split_at2 [OF ps i] by metis
  then have "renumber out = renumber ps"
    using out i by (intro nth_equalityI)
      (auto simp: renumber_nth nth_list_update respan_def with_loop_strategy_def new_phrase_def)
  then show ?thesis using renumber_id [OF idx] by simp
qed

lemma edit_timeline_cases:
  assumes t: "timeline_ok t" and n: "timeline_revision_checked_next (tl_revision t) = Some n"
    and out: "apply_timeline_edit (tl_phrases t) (tl_total_beats t) c = Inr phrases" "phrases \<noteq> tl_phrases t"
  obtains raw lo hi v where "painted (tl_phrases t) c = (lo, hi, v)" "phrases = renumber raw"
    "repainted (tl_phrases t) raw lo hi v" "length raw \<le> 65536"
    "apply_command (tl_phrases t) (tl_total_beats t) c = Inr raw"
proof -
  let ?ps = "tl_phrases t"
  have ps: "divides 0 ?ps" "indexed ph_index ?ps" "ends_at 0 ?ps = tl_total_beats t"
    using t by (simp_all add: timeline_ok_def)
  obtain raw where raw: "apply_command ?ps (tl_total_beats t) c = Inr raw" "length raw \<le> 65536"
      "phrases = renumber raw"
    using out(1) by (auto simp: apply_timeline_edit_def and_then_eq_Inr reindex_eq split: if_splits)
  have "to \<noteq> ph_end_beat (?ps ! unat idx)" if "c = TimelineEditCommand.MoveBoundary idx to" for idx to
    using move_to_same_place [OF ps(1,2), of idx raw] raw out(2) that by auto
  then have "case painted ?ps c of (lo, hi, v) \<Rightarrow> repainted ?ps raw lo hi v"
    using apply_command_paints [OF ps(1), of c raw] raw(1) ps(3) by auto
  then show ?thesis using that raw by (cases "painted ?ps c") auto
qed

text \<open>The value a command paints is a legal one, except that a strategy is taken as given.\<close>

lemma painted_strategy_ok:
  assumes "\<forall>p \<in> set ps. strategy_ok (ph_loop_strategy p)" "painted ps c = (lo, hi, v)"
    "apply_command ps d c = Inr raw"
  shows "strategy_ok (snd v) \<or> (\<exists>idx s. c = SetLoopStrategy idx s \<and> snd v = s)"
  using assms
  by (cases c)
     (auto simp: phrase_value_def Let_def edit_merge_previous_def edit_merge_next_def edit_delete_def
        edit_move_boundary_def and_then_eq_Inr
        split: if_splits PhraseAbsorption.splits)

lemma timeline_result_ok:
  assumes t: "timeline_ok t" and n: "timeline_revision_checked_next (tl_revision t) = Some n"
    and raw: "repainted (tl_phrases t) raw lo hi v" "length raw \<le> 65536" "strategy_ok (snd v)"
  shows "timeline_ok (t\<lparr>tl_revision := n, tl_origin := UserEdit, tl_reason := reason,
    tl_parent_revision := Some (tl_revision t), tl_restored_from := None, tl_phrases := renumber raw\<rparr>)"
proof -
  have "\<forall>b w. value_at (tl_phrases t) b = Some w \<longrightarrow> strategy_ok (snd w)"
    using t division_values [of 0 "tl_phrases t" "\<lambda>w. strategy_ok (snd w)"]
    by (simp add: timeline_ok_def phrase_value_def)
  then have "\<forall>b w. value_at (renumber raw) b = Some w \<longrightarrow> strategy_ok (snd w)"
    using raw by (auto simp: repainted_def renumber_painting paint_def)
  then have "\<forall>p \<in> set (renumber raw). strategy_ok (ph_loop_strategy p)"
    using raw(1) division_values [of 0 "renumber raw" "\<lambda>w. strategy_ok (snd w)"]
    by (simp add: repainted_def renumber_painting phrase_value_def)
  moreover have "renumber raw \<noteq> []" using raw(1) by (auto simp: repainted_def)
  ultimately show ?thesis
    using t raw timeline_next_revision [OF n] renumber_indexed [OF raw(2)]
    by (simp add: timeline_ok_def repainted_def renumber_painting)
qed

lemma apply_timeline_edit_errors: "apply_timeline_edit ps d c \<noteq> Inl (InvalidResult err)"
  by (cases c)
     (auto simp: apply_timeline_edit_def and_then_eq_Inl reindex_eq edit_create_def edit_split_def
        edit_merge_previous_def edit_merge_next_def edit_move_boundary_def edit_delete_def
        edit_change_role_def edit_set_loop_strategy_def phrase_index_index_def Let_def
        split: if_splits PhraseAbsorption.splits)

text \<open>When indices, coverage and history are right, only a strategy can be rejected.\<close>

lemma check_timeline_error:
  assumes "indexed_from ph_index n ps" "divides b ps" "\<forall>p \<in> set ps. ph_end_beat p \<le> d"
    "check_timeline_phrases d n b ps = Inl err"
  shows "err = InvalidLoopStrategy"
  using assms
proof (induction ps arbitrary: n b)
  case (Cons p ps)
  show ?case
  proof (cases "strategy_ok (ph_loop_strategy p)")
    case True
    then have "check_timeline_phrases d (Suc n) (ph_end_beat p) ps = Inl err"
      using Cons.prems by (auto simp: indexed_from_simps not_le split: if_splits)
    then show ?thesis using Cons.IH [of "Suc n" "ph_end_beat p"] Cons.prems by (simp add: indexed_from_simps)
  next
    case False
    then show ?thesis using Cons.prems by (auto simp: indexed_from_simps split: if_splits)
  qed
qed simp

lemma history_error:
  assumes e: "try_new_with_history track revision baseline d origin reason parent restored ps = Inl err"
    and "track \<noteq> 0" "ps \<noteq> []" "indexed ph_index ps" "divides 0 ps" "ends_at 0 ps = d"
    and "\<forall>r. parent = Some r \<longrightarrow> r < revision" "\<forall>r. restored = Some r \<longrightarrow> r < revision"
  shows "err = InvalidLoopStrategy"
proof -
  have "d \<noteq> 0" using tiles_less_end [of ph_start_beat ph_end_beat 0 ps] assms by auto
  moreover have "\<forall>p \<in> set ps. ph_end_beat p \<le> d" using tiles_member assms(5,6) by metis
  moreover have "check_timeline_phrases d 0 0 ps = Inr x \<Longrightarrow> x = d" for x
    using assms(6) by (simp add: check_timeline_phrases_ok)
  ultimately show ?thesis
    using assms check_timeline_error [of 0 ps 0 d err]
    by (auto simp: try_new_with_history_def and_then_eq_Inl indexed_from_0 not_le leD
        split: if_splits option.splits)
qed

lemma restore_phrases:
  assumes "timeline_ok t"
  shows "map (\<lambda>(i, p). (respan (ph_start_beat p) (ph_end_beat p) p)
      \<lparr>ph_index := (if i > 65535 then - 1 else of_nat i)\<rparr>) (enumerate 0 (tl_phrases t)) = tl_phrases t"
proof -
  let ?ps = "tl_phrases t"
  have idx: "indexed ph_index ?ps" using assms by (simp add: timeline_ok_def)
  have small: "\<not> 65535 < i" if "i < length ?ps" for i
    using idx that unsigned_less [of "ph_index (?ps ! i)", where ?'a = nat] by (simp add: indexed_def)
  have "map (\<lambda>(i, p). (respan (ph_start_beat p) (ph_end_beat p) p)
      \<lparr>ph_index := (if i > 65535 then - 1 else of_nat i)\<rparr>) (enumerate 0 ?ps) = renumber ?ps"
    by (simp add: list_eq_iff_nth_eq renumber_nth nth_enumerate_eq small)
  then show ?thesis using renumber_id [OF idx] by simp
qed

lemma restore_ok:
  assumes "timeline_ok head" "timeline_ok target" "tl_revision target \<le> tl_revision head"
    and same: "tl_track_id head = tl_track_id target" "tl_total_beats head = tl_total_beats target"
    and "reason \<in> {Undo, Redo, RestoreRevision}"
    and n: "timeline_revision_checked_next (tl_revision head) = Some n"
  shows "restore_timeline head target reason = Inr (head\<lparr>tl_revision := n, tl_origin := RevisionRestore,
    tl_reason := reason, tl_parent_revision := Some (tl_revision head),
    tl_restored_from := Some (tl_revision target), tl_phrases := tl_phrases target\<rparr>)"
proof -
  let ?u = "head\<lparr>tl_revision := n, tl_origin := RevisionRestore, tl_reason := reason,
    tl_parent_revision := Some (tl_revision head), tl_restored_from := Some (tl_revision target),
    tl_phrases := tl_phrases target\<rparr>"
  have "timeline_ok ?u" using assms timeline_next_revision [OF n] by (auto simp: timeline_ok_def)
  then have "try_new_with_history (tl_track_id head) n (tl_baseline_revision head) (tl_total_beats head)
      RevisionRestore reason (Some (tl_revision head)) (Some (tl_revision target)) (tl_phrases target) = Inr ?u"
    unfolding try_new_with_history_ok by (cases head) simp
  then show ?thesis using assms restore_phrases [OF assms(2)] by (simp add: restore_timeline_def)
qed

lemma edit_timeline_result:
  assumes t: "timeline_ok t" and e: "edit_timeline t c = Inr u"
  shows "timeline_ok u" "tl_track_id u = tl_track_id t" "tl_total_beats u = tl_total_beats t"
    "tl_revision t < tl_revision u" "unat (tl_revision u) = unat (tl_revision t) + 1"
proof -
  obtain n phrases where n: "timeline_revision_checked_next (tl_revision t) = Some n"
    and u: "try_new_with_history (tl_track_id t) n (tl_baseline_revision t) (tl_total_beats t)
      UserEdit (command_reason c) (Some (tl_revision t)) None phrases = Inr u"
    using e by (auto simp: edit_timeline_def and_then_eq_Inr ok_or_eq map_err_eq split: if_splits)
  then show "timeline_ok u" "tl_track_id u = tl_track_id t" "tl_total_beats u = tl_total_beats t"
    "tl_revision t < tl_revision u" "unat (tl_revision u) = unat (tl_revision t) + 1"
    using timeline_next_revision [OF n] by (auto simp: try_new_with_history_ok)
qed

interpretation timeline_editor: invariant_machine
  "\<lambda>t c. and_then (edit_timeline t c) (\<lambda>u. Inr (u, tl_revision u))" timeline_ok "\<lambda>_. True"
  by unfold_locales (auto simp: and_then_eq_Inr intro: edit_timeline_result)

interpretation timeline_revisions: revisioned timeline_ok tl_revision edit_timeline
  by unfold_locales (rule edit_timeline_result; assumption)+

section \<open>Properties\<close>

text \<open>
  C30. An accepted edit of a well-formed timeline paints one range of beats and does nothing
  else: the role and loop strategy at every beat of the range become the painted ones and
  stay as they were everywhere else. The result is well formed, about the same track, and
  the next revision of the timeline it was made from.
\<close>

theorem timeline_edit_paints:
  assumes t: "timeline_ok t" and e: "edit_timeline t c = Inr u"
  shows "timeline_ok u
    \<and> tl_track_id u = tl_track_id t \<and> tl_total_beats u = tl_total_beats t
    \<and> tl_baseline_revision u = tl_baseline_revision t
    \<and> unat (tl_revision u) = unat (tl_revision t) + 1 \<and> tl_parent_revision u = Some (tl_revision t)
    \<and> (case painted (tl_phrases t) c of (lo, hi, v) \<Rightarrow>
         lo < hi \<and> hi \<le> tl_total_beats t
       \<and> (\<forall>b. value_at (tl_phrases u) b = (if lo \<le> b \<and> b < hi then Some v else value_at (tl_phrases t) b)))"
proof -
  obtain n phrases where n: "timeline_revision_checked_next (tl_revision t) = Some n"
    and out: "apply_timeline_edit (tl_phrases t) (tl_total_beats t) c = Inr phrases" "phrases \<noteq> tl_phrases t"
    and u: "try_new_with_history (tl_track_id t) n (tl_baseline_revision t) (tl_total_beats t)
      UserEdit (command_reason c) (Some (tl_revision t)) None phrases = Inr u"
    using e by (auto simp: edit_timeline_def and_then_eq_Inr ok_or_eq map_err_eq split: if_splits)
  obtain raw lo hi v where raw: "painted (tl_phrases t) c = (lo, hi, v)" "phrases = renumber raw"
      "repainted (tl_phrases t) raw lo hi v"
    using edit_timeline_cases [OF t n out] by metis
  have "ends_at 0 (tl_phrases t) = tl_total_beats t" using t by (simp add: timeline_ok_def)
  with raw u timeline_next_revision [OF n] show ?thesis
    by (auto simp: try_new_with_history_ok repainted_def renumber_painting paint_def)
qed

text \<open>
  No edit breaks a timeline: on a well-formed timeline the final validation can only
  reject a loop strategy the command itself brought in. Gaps, overlaps, wrong indices and
  wrong histories never arise.
\<close>

theorem timeline_edit_never_invalid:
  assumes t: "timeline_ok t" and e: "edit_timeline t c = Inl (InvalidResult err)"
  shows "err = InvalidLoopStrategy \<and> (\<exists>idx s. c = SetLoopStrategy idx s \<and> \<not> strategy_ok s)"
proof -
  obtain n phrases where n: "timeline_revision_checked_next (tl_revision t) = Some n"
    and out: "apply_timeline_edit (tl_phrases t) (tl_total_beats t) c = Inr phrases" "phrases \<noteq> tl_phrases t"
    and u: "try_new_with_history (tl_track_id t) n (tl_baseline_revision t) (tl_total_beats t)
      UserEdit (command_reason c) (Some (tl_revision t)) None phrases = Inl err"
    using e apply_timeline_edit_errors [of "tl_phrases t" "tl_total_beats t" c]
    by (auto simp: edit_timeline_def and_then_eq_Inl ok_or_eq map_err_eq split: if_splits)
  obtain raw lo hi v where raw: "painted (tl_phrases t) c = (lo, hi, v)" "phrases = renumber raw"
      "repainted (tl_phrases t) raw lo hi v" "length raw \<le> 65536"
      "apply_command (tl_phrases t) (tl_total_beats t) c = Inr raw"
    using edit_timeline_cases [OF t n out] by metis
  let ?u = "t\<lparr>tl_revision := n, tl_origin := UserEdit, tl_reason := command_reason c,
    tl_parent_revision := Some (tl_revision t), tl_restored_from := None, tl_phrases := renumber raw\<rparr>"
  have bad: "\<not> strategy_ok (snd v)"
  proof
    assume "strategy_ok (snd v)"
    from timeline_result_ok [OF t n raw(3,4) this, of "command_reason c"]
    have "try_new_with_history (tl_track_id t) n (tl_baseline_revision t) (tl_total_beats t)
      UserEdit (command_reason c) (Some (tl_revision t)) None phrases = Inr ?u"
      unfolding try_new_with_history_ok raw(2) by (cases t) simp
    then show False using u by simp
  qed
  then have "\<exists>idx s. c = SetLoopStrategy idx s \<and> \<not> strategy_ok s"
    using painted_strategy_ok [OF _ raw(1,5)] t by (auto simp: timeline_ok_def)
  moreover have "err = InvalidLoopStrategy"
    using history_error [OF u] t raw timeline_next_revision [OF n] renumber_indexed [OF raw(4)]
    by (auto simp: timeline_ok_def repainted_def renumber_painting)
  ultimately show ?thesis by blast
qed

text \<open>
  Undo gives the phrases back: after an accepted edit, restoring the timeline it was
  made from yields exactly the old phrases, as a further revision that names its origin;
  only an exhausted revision counter prevents it.
\<close>

theorem timeline_undo:
  assumes t: "timeline_ok t" and e: "edit_timeline t c = Inr u"
  shows "case restore_timeline u t Undo of
      Inr w \<Rightarrow> tl_phrases w = tl_phrases t \<and> timeline_ok w
        \<and> unat (tl_revision w) = unat (tl_revision t) + 2 \<and> tl_restored_from w = Some (tl_revision t)
    | Inl err \<Rightarrow> err = RevisionOverflow \<and> tl_revision u = - 1"
proof (cases "timeline_revision_checked_next (tl_revision u)")
  case None
  note u = edit_timeline_result [OF t e]
  have "tl_revision u = - 1"
  proof -
    have "2 ^ 64 \<le> unat (tl_revision u) + 1"
      using None by (simp add: timeline_revision_checked_next_def checked_add_eq_None)
    moreover have "unat (tl_revision u) < 2 ^ 64"
      using unsigned_less [of "tl_revision u", where ?'a = nat] by simp
    ultimately have "unat (tl_revision u) = 2 ^ 64 - 1" by linarith
    then have "unat (tl_revision u) = unat (- 1 :: u64)"
      by (simp add: unsigned_minus_1_eq_mask mask_eq_exp_minus_1)
    then show ?thesis by (rule unsigned_word_eqI)
  qed
  with None u show ?thesis by (simp add: restore_timeline_def)
next
  case (Some n)
  note u = edit_timeline_result [OF t e]
  have rev: "unat (tl_revision u) = unat (tl_revision t) + 1"
    using e timeline_next_revision
    by (auto simp: edit_timeline_def and_then_eq_Inr ok_or_eq map_err_eq try_new_with_history_ok
        split: if_splits)
  let ?w = "u\<lparr>tl_revision := n, tl_origin := RevisionRestore, tl_reason := Undo,
    tl_parent_revision := Some (tl_revision u), tl_restored_from := Some (tl_revision t),
    tl_phrases := tl_phrases t\<rparr>"
  have "restore_timeline u t Undo = Inr ?w"
    using restore_ok [OF u(1) t _ u(2,3) _ Some, of Undo] u(4) by simp
  moreover have "timeline_ok ?w"
    using t u timeline_next_revision [OF Some] by (auto simp: timeline_ok_def)
  ultimately show ?thesis using rev timeline_next_revision [OF Some] by simp
qed

section \<open>Witnesses\<close>

lemma two_not_le_one: "\<not> (2 :: u64) \<le> 1"
  by (simp add: word_le_nat_alt)

definition demo_timeline :: LumiPhraseTimeline where
  "demo_timeline =
     \<lparr>tl_track_id = 7, tl_revision = 1, tl_baseline_revision = ''source-1'', tl_total_beats = 64,
      tl_origin = SourceImport, tl_reason = InitialSourceMapping, tl_parent_revision = None,
      tl_restored_from = None, tl_phrases = [new_phrase 0 0 32 ''intro'', new_phrase 1 32 64 ''drop'']\<rparr>"

definition demo_create :: TimelineEditCommand where
  "demo_create = Create 16 48 ''build''"

lemma demo_timeline_ok: "timeline_ok demo_timeline"
  by (simp add: timeline_ok_def demo_timeline_def new_phrase_def indexed_def less_Suc_eq)

lemma demo_create_phrases:
  "apply_timeline_edit (tl_phrases demo_timeline) 64 demo_create
     = Inr [new_phrase 0 0 16 ''intro'', new_phrase 1 16 48 ''build'', new_phrase 2 48 64 ''drop'']"
  by (simp add: apply_timeline_edit_def demo_timeline_def demo_create_def edit_create_def respan_def
      with_loop_strategy_def new_phrase_def reindex_def)

lemma demo_create_accepted: "\<exists>u. edit_timeline demo_timeline demo_create = Inr u"
  using demo_create_phrases
  by (simp add: edit_timeline_def demo_timeline_def timeline_revision_checked_next_def checked_add_def
      try_new_with_history_def new_phrase_def two_not_le_one)

theorem timeline_edit_paints_witness:
  "\<exists>u. edit_timeline demo_timeline demo_create = Inr u \<and> timeline_ok u
     \<and> value_at (tl_phrases u) 20 = Some (''build'', Auto)
     \<and> value_at (tl_phrases u) 60 = value_at (tl_phrases demo_timeline) 60"
proof -
  obtain u where u: "edit_timeline demo_timeline demo_create = Inr u" using demo_create_accepted by blast
  from timeline_edit_paints [OF demo_timeline_ok u] u show ?thesis
    by (auto simp: demo_create_def)
qed

theorem timeline_edit_never_invalid_witness:
  "edit_timeline demo_timeline (SetLoopStrategy 0 (ThemeSpecificExact []))
     = Inl (InvalidResult InvalidLoopStrategy)
   \<and> \<not> strategy_ok (ThemeSpecificExact [])"
proof -
  have e: "edit_timeline demo_timeline (SetLoopStrategy 0 (ThemeSpecificExact []))
      = Inl (InvalidResult InvalidLoopStrategy)"
    by (simp add: edit_timeline_def demo_timeline_def timeline_revision_checked_next_def checked_add_def
        apply_timeline_edit_def edit_set_loop_strategy_def phrase_index_index_def new_phrase_def
        with_loop_strategy_def reindex_def respan_def try_new_with_history_def two_not_le_one)
  from timeline_edit_never_invalid [OF demo_timeline_ok e] e show ?thesis by auto
qed

theorem timeline_undo_witness:
  "\<exists>u w. edit_timeline demo_timeline demo_create = Inr u \<and> restore_timeline u demo_timeline Undo = Inr w
     \<and> tl_phrases w = tl_phrases demo_timeline"
proof -
  obtain u where u: "edit_timeline demo_timeline demo_create = Inr u" using demo_create_accepted by blast
  have "tl_revision u = 2"
    using u demo_create_phrases
    by (auto simp: edit_timeline_def demo_timeline_def timeline_revision_checked_next_def checked_add_def
        try_new_with_history_def new_phrase_def split: if_splits)
  with timeline_undo [OF demo_timeline_ok u] u show ?thesis
    by (cases "restore_timeline u demo_timeline Undo") auto
qed

end
