(* ===== verification/Launch_Gate.thy ===== *)
theory Launch_Gate
  imports Track
begin

text \<open>
  The gate of the initial launch (\<open>lumi-engine/src/launch_policy.rs\<close>): with the policy
  \<open>OnPhraseStart\<close> an armed show waits for the start of a phrase, and the gate remembers
  which one. Facts: what an observation makes of the gate, and that a launched show stays
  launched until it is armed again.
\<close>

section \<open>Data\<close>

datatype LaunchPolicy = Immediate | OnPhraseStart

record LaunchContext =
  launch_deck :: DeckId
  launch_load :: TrackLoadId
  launch_revision :: PlanRevision
  launch_epoch :: u64

record LaunchBoundary =
  boundary_phrase :: u16
  boundary_beat :: u32

datatype LaunchState =
    WaitingForPlayback
  | Waiting LaunchContext LaunchBoundary
  | NoUpcomingBoundary LaunchContext
  | Launched

record LaunchGate =
  gate_state :: LaunchState

section \<open>Operations\<close>

definition default_gate :: LaunchGate where
  "default_gate = \<lparr>gate_state = WaitingForPlayback\<rparr>"

definition gate_arm :: "LaunchGate \<Rightarrow> LaunchGate" where
  "gate_arm g = g\<lparr>gate_state := WaitingForPlayback\<rparr>"

definition cancel_pending :: "LaunchGate \<Rightarrow> LaunchGate" where
  "cancel_pending g = (if gate_state g \<noteq> Launched then gate_arm g else g)"

text \<open>The loop over the boundaries; \<open>None\<close> is its early return.\<close>

fun next_boundary ::
  "LaunchState \<Rightarrow> LaunchContext \<Rightarrow> u32 \<Rightarrow> LaunchBoundary option \<Rightarrow> LaunchBoundary list \<Rightarrow>
   LaunchBoundary option option" where
  "next_boundary s ctx beat upcoming [] = Some upcoming"
| "next_boundary s ctx beat upcoming (b # bs) =
     (if s = Waiting ctx b then None
      else next_boundary s ctx beat
        (if boundary_beat b \<ge> beat
            \<and> (case upcoming of None \<Rightarrow> True | Some x \<Rightarrow> boundary_beat b < boundary_beat x)
         then Some b else upcoming) bs)"

definition gate_observe ::
  "LaunchGate \<Rightarrow> LaunchPolicy \<Rightarrow> LaunchContext \<Rightarrow> bool \<Rightarrow> u32 \<Rightarrow> LaunchBoundary list \<Rightarrow> LaunchGate" where
  "gate_observe g policy ctx playing beat boundaries =
     (if gate_state g = Launched then g
      else if \<not> playing then cancel_pending g
      else if policy = Immediate then g
      else case next_boundary (gate_state g) ctx beat None boundaries of
          None \<Rightarrow> g
        | Some upcoming \<Rightarrow>
            g\<lparr>gate_state := (case upcoming of
                Some target \<Rightarrow> Waiting ctx target
              | None \<Rightarrow> NoUpcomingBoundary ctx)\<rparr>)"

definition gate_allows :: "LaunchGate \<Rightarrow> LaunchPolicy \<Rightarrow> LaunchContext \<Rightarrow> u16 \<Rightarrow> bool" where
  "gate_allows g policy ctx phrase =
     (policy = Immediate \<or> gate_state g = Launched
      \<or> (case gate_state g of
           Waiting selected target \<Rightarrow> selected = ctx \<and> boundary_phrase target = phrase
         | _ \<Rightarrow> False))"

definition did_launch ::
  "LaunchGate \<Rightarrow> LaunchPolicy \<Rightarrow> LaunchContext \<Rightarrow> u16 \<Rightarrow> LaunchGate \<times> bool" where
  "did_launch g policy ctx phrase =
     (if \<not> gate_allows g policy ctx phrase then (g, False)
      else (g\<lparr>gate_state := Launched\<rparr>, True))"

section \<open>The next boundary\<close>

text \<open>The first of the earliest boundaries at or after a beat.\<close>

definition earliest :: "u32 \<Rightarrow> LaunchBoundary list \<Rightarrow> LaunchBoundary \<Rightarrow> bool" where
  "earliest beat bs b \<longleftrightarrow> b \<in> set bs \<and> beat \<le> boundary_beat b
     \<and> (\<forall>c \<in> set bs. beat \<le> boundary_beat c \<longrightarrow> boundary_beat b \<le> boundary_beat c)"

lemma next_boundary_None: "next_boundary s ctx beat u bs = None \<longleftrightarrow> (\<exists>b \<in> set bs. s = Waiting ctx b)"
  by (induction bs arbitrary: u) auto

lemma next_boundary_Some:
  assumes "next_boundary s ctx beat u bs = Some r"
    and "case u of None \<Rightarrow> \<forall>c \<in> set seen. \<not> beat \<le> boundary_beat c | Some x \<Rightarrow> earliest beat seen x"
  shows "case r of None \<Rightarrow> \<forall>c \<in> set (seen @ bs). \<not> beat \<le> boundary_beat c
    | Some x \<Rightarrow> earliest beat (seen @ bs) x"
  using assms
proof (induction bs arbitrary: u seen)
  case (Cons b bs)
  let ?u = "if boundary_beat b \<ge> beat \<and> (case u of None \<Rightarrow> True | Some x \<Rightarrow> boundary_beat b < boundary_beat x)
    then Some b else u"
  have "case ?u of None \<Rightarrow> \<forall>c \<in> set (seen @ [b]). \<not> beat \<le> boundary_beat c
      | Some x \<Rightarrow> earliest beat (seen @ [b]) x"
    using Cons.prems(2) by (cases u) (auto simp: earliest_def not_less intro: order.trans less_imp_le)
  moreover have "next_boundary s ctx beat ?u bs = Some r"
    using Cons.prems(1) by (auto split: if_splits)
  ultimately have "case r of None \<Rightarrow> \<forall>c \<in> set ((seen @ [b]) @ bs). \<not> beat \<le> boundary_beat c
    | Some x \<Rightarrow> earliest beat ((seen @ [b]) @ bs) x"
    by (rule Cons.IH [rotated])
  then show ?case by (cases r) simp_all
qed (cases r; simp)

section \<open>Properties\<close>

text \<open>
  While a show that launches on phrase starts has not launched, a playing observation
  leaves the gate waiting for one phrase of the observed plan: the one it already waited
  for in the same context, however late, or else the earliest boundary at or after the
  observed beat; without such a boundary it waits for none. A dispatch then launches the
  show exactly for that phrase in that context.
\<close>

theorem launch_target:
  assumes "gate_state g \<noteq> Launched"
    and g': "g' = gate_observe g OnPhraseStart ctx True beat boundaries"
  shows "(case gate_state g' of
      Waiting ctx' target \<Rightarrow> ctx' = ctx
        \<and> (if \<exists>b \<in> set boundaries. gate_state g = Waiting ctx b then gate_state g = Waiting ctx target
           else earliest beat boundaries target)
        \<and> (\<forall>other phrase. snd (did_launch g' OnPhraseStart other phrase)
              \<longleftrightarrow> other = ctx \<and> phrase = boundary_phrase target)
    | NoUpcomingBoundary ctx' \<Rightarrow> ctx' = ctx \<and> (\<forall>b \<in> set boundaries. boundary_beat b < beat)
        \<and> (\<forall>other phrase. \<not> snd (did_launch g' OnPhraseStart other phrase))
    | _ \<Rightarrow> False)"
proof (cases "\<exists>b \<in> set boundaries. gate_state g = Waiting ctx b")
  case True
  then have "g' = g"
    using assms next_boundary_None [of "gate_state g" ctx beat None boundaries]
    by (auto simp: gate_observe_def)
  then show ?thesis using True by (auto simp: did_launch_def gate_allows_def)
next
  case False
  then obtain r where r: "next_boundary (gate_state g) ctx beat None boundaries = Some r"
    using next_boundary_None [of "gate_state g" ctx beat None boundaries]
    by (cases "next_boundary (gate_state g) ctx beat None boundaries") auto
  have "case r of None \<Rightarrow> \<forall>c \<in> set boundaries. \<not> beat \<le> boundary_beat c
      | Some x \<Rightarrow> earliest beat boundaries x"
    using next_boundary_Some [OF r, of "[]"] by (cases r) simp_all
  then show ?thesis
    using False r assms
    by (cases r) (auto simp: gate_observe_def did_launch_def gate_allows_def not_le)
qed

section \<open>Runs of the gate\<close>

inductive gate_step :: "LaunchGate \<Rightarrow> LaunchGate \<Rightarrow> bool" where
  step_cancel: "gate_step g (cancel_pending g)"
| step_observe: "gate_step g (gate_observe g policy ctx playing beat boundaries)"
| step_launch: "gate_step g (fst (did_launch g policy ctx phrase))"

lemma gate_step_launched: "gate_step g h \<Longrightarrow> gate_state g = Launched \<Longrightarrow> gate_state h = Launched"
  by (induction rule: gate_step.induct)
     (simp_all add: cancel_pending_def gate_observe_def did_launch_def)

lemma gate_run_launched: "gate_step\<^sup>*\<^sup>* g h \<Longrightarrow> gate_state g = Launched \<Longrightarrow> gate_state h = Launched"
  by (induction rule: rtranclp_induct) (auto dest: gate_step_launched)

section \<open>Witness\<close>

definition demo_boundaries :: "LaunchBoundary list" where
  "demo_boundaries = [\<lparr>boundary_phrase = 0, boundary_beat = 0\<rparr>, \<lparr>boundary_phrase = 1, boundary_beat = 32\<rparr>]"

definition demo_launch :: LaunchContext where
  "demo_launch = \<lparr>launch_deck = 1, launch_load = 10, launch_revision = 1, launch_epoch = 1\<rparr>"

lemma demo_observe:
  "gate_observe default_gate OnPhraseStart demo_launch True 20 demo_boundaries
     = \<lparr>gate_state = Waiting demo_launch \<lparr>boundary_phrase = 1, boundary_beat = 32\<rparr>\<rparr>"
  by (simp add: gate_observe_def default_gate_def demo_boundaries_def)

theorem launch_target_witness:
  "gate_state default_gate \<noteq> Launched
   \<and> snd (did_launch \<lparr>gate_state = Waiting demo_launch \<lparr>boundary_phrase = 1, boundary_beat = 32\<rparr>\<rparr>
        OnPhraseStart demo_launch 1)
   \<and> \<not> snd (did_launch \<lparr>gate_state = Waiting demo_launch \<lparr>boundary_phrase = 1, boundary_beat = 32\<rparr>\<rparr>
        OnPhraseStart demo_launch 0)"
proof -
  have g: "gate_state default_gate \<noteq> Launched" by (simp add: default_gate_def)
  from launch_target [OF g demo_observe [symmetric]] g show ?thesis by simp
qed

end
