(* ===== verification/Command_Cache.thy ===== *)
theory Command_Cache
  imports Lumi_Prelude
begin

text \<open>
  The bounded cache of command identifiers (\<open>lumi-protocol/src/idempotency.rs\<close>) that
  makes mutating commands idempotent. The \<open>HashSet\<close> is a set and the \<open>VecDeque\<close> a list.
\<close>

section \<open>Data and operations\<close>

datatype CommandDisposition = FirstSeen | Duplicate

record CommandIdCache =
  cache_capacity :: nat
  cache_insertion_order :: "string list"
  cache_identifiers :: "string set"

datatype InvalidCacheCapacity = InvalidCacheCapacity

definition new_cache :: "nat \<Rightarrow> InvalidCacheCapacity + CommandIdCache" where
  "new_cache capacity =
     (if capacity = 0 then Inl InvalidCacheCapacity
      else Inr \<lparr>cache_capacity = capacity, cache_insertion_order = [], cache_identifiers = {}\<rparr>)"

definition cache_expire :: "CommandIdCache \<Rightarrow> CommandIdCache" where
  "cache_expire c =
     (if card (cache_identifiers c) = cache_capacity c
      then (case cache_insertion_order c of
              expired # rest \<Rightarrow>
                c\<lparr>cache_insertion_order := rest, cache_identifiers := cache_identifiers c - {expired}\<rparr>
            | [] \<Rightarrow> c)
      else c)"

definition cache_observe :: "CommandIdCache \<Rightarrow> string \<Rightarrow> CommandIdCache \<times> CommandDisposition" where
  "cache_observe c message_id =
     (if message_id \<in> cache_identifiers c then (c, Duplicate)
      else let c1 = cache_expire c in
        (c1\<lparr>cache_insertion_order := cache_insertion_order c1 @ [message_id],
            cache_identifiers := insert message_id (cache_identifiers c1)\<rparr>, FirstSeen))"

definition cache_contains :: "CommandIdCache \<Rightarrow> string \<Rightarrow> bool" where
  "cache_contains c message_id = (message_id \<in> cache_identifiers c)"

section \<open>The cache is a bounded history\<close>

definition cache_ok :: "CommandIdCache \<Rightarrow> bool" where
  "cache_ok c \<longleftrightarrow> 0 < cache_capacity c \<and> distinct (cache_insertion_order c)
     \<and> cache_identifiers c = set (cache_insertion_order c)
     \<and> length (cache_insertion_order c) \<le> cache_capacity c"

lemma new_cache_ok: "new_cache n = Inr c \<Longrightarrow> cache_ok c"
  by (auto simp: new_cache_def cache_ok_def split: if_splits)

lemma cache_observe_fresh:
  assumes "cache_ok c" "\<not> cache_contains c m"
  shows "cache_observe c m =
    (c\<lparr>cache_insertion_order := push_bounded (cache_capacity c) (cache_insertion_order c) m,
       cache_identifiers := set (push_bounded (cache_capacity c) (cache_insertion_order c) m)\<rparr>, FirstSeen)"
  using assms
  by (cases "cache_insertion_order c")
     (auto simp: cache_observe_def cache_contains_def cache_expire_def cache_ok_def push_bounded_def
        Let_def distinct_card)

lemma cache_observe_ok: "cache_ok c \<Longrightarrow> cache_ok (fst (cache_observe c m))"
proof (cases "cache_contains c m")
  case True
  then show "cache_ok c \<Longrightarrow> cache_ok (fst (cache_observe c m))"
    by (simp add: cache_observe_def cache_contains_def)
next
  case False
  show "cache_ok c \<Longrightarrow> cache_ok (fst (cache_observe c m))"
    using False
    by (cases "cache_insertion_order c")
       (auto simp: cache_observe_fresh cache_ok_def push_bounded_def cache_contains_def)
qed

fun observe_all :: "CommandIdCache \<Rightarrow> string list \<Rightarrow> CommandIdCache \<times> string list" where
  "observe_all c [] = (c, [])"
| "observe_all c (m # ms) =
     (case cache_observe c m of (c1, disposition) \<Rightarrow>
      case observe_all c1 ms of (c2, applied) \<Rightarrow>
        (c2, if disposition = FirstSeen then m # applied else applied))"

lemma push_bounded_window:
  "xs = drop (length ys - n) ys \<Longrightarrow> 0 < n \<Longrightarrow> push_bounded n xs m = drop (Suc (length ys) - n) (ys @ [m])"
proof -
  assume xs: "xs = drop (length ys - n) ys" and n: "0 < n"
  show ?thesis
  proof (cases "n \<le> length ys")
    case True
    then show ?thesis
      using xs n by (simp add: push_bounded_def Suc_diff_le tl_drop drop_Suc [symmetric])
  next
    case False
    then show ?thesis using xs by (auto simp: push_bounded_def)
  qed
qed

lemma observe_all_window:
  assumes "cache_ok c" "cache_insertion_order c = drop (length ys - cache_capacity c) ys"
    and "observe_all c ms = (d, applied)"
  shows "cache_ok d \<and> cache_capacity d = cache_capacity c
    \<and> cache_insertion_order d = drop (length (ys @ applied) - cache_capacity c) (ys @ applied)"
  using assms
proof (induction ms arbitrary: c ys applied)
  case (Cons m ms)
  obtain c1 disposition where c1: "cache_observe c m = (c1, disposition)" by fastforce
  obtain applied1 where rest: "observe_all c1 ms = (d, applied1)"
    using Cons.prems(3) c1 by (auto split: prod.splits)
  have ok: "cache_ok c1" using cache_observe_ok [OF Cons.prems(1), of m] c1 by simp
  show ?case
  proof (cases "cache_contains c m")
    case True
    then have "c1 = c" "disposition = Duplicate"
      using c1 by (simp_all add: cache_observe_def cache_contains_def)
    then show ?thesis using Cons.IH [OF Cons.prems(1,2), of applied1] Cons.prems(3) c1 rest by simp
  next
    case False
    then have d: "disposition = FirstSeen" and cap: "cache_capacity c1 = cache_capacity c"
      and order: "cache_insertion_order c1 = push_bounded (cache_capacity c) (cache_insertion_order c) m"
      using cache_observe_fresh [OF Cons.prems(1) False] c1 by auto
    have "0 < cache_capacity c" using Cons.prems(1) by (simp add: cache_ok_def)
    then have "cache_insertion_order c1 = drop (length (ys @ [m]) - cache_capacity c1) (ys @ [m])"
      using push_bounded_window [OF Cons.prems(2)] order cap by simp
    note IH = Cons.IH [OF ok this rest]
    have "applied = m # applied1" using Cons.prems(3) c1 rest d by simp
    with IH cap show ?thesis by simp
  qed
qed simp

section \<open>Properties\<close>

text \<open>
  Idempotence within a window: over any sequence of commands, the cache of capacity
  \<open>n\<close> holds exactly the last \<open>n\<close> commands that were applied. A command is refused as a
  duplicate exactly when it is one of these, so it is applied at most once in every
  window of \<open>n\<close> applied commands, and the memory stays bounded.
\<close>

theorem command_cache_window:
  assumes new: "new_cache n = Inr c" and run: "observe_all c ms = (d, applied)"
  shows "cache_insertion_order d = drop (length applied - n) applied
    \<and> length (cache_insertion_order d) \<le> n
    \<and> (snd (cache_observe d m) = Duplicate \<longleftrightarrow> m \<in> set (drop (length applied - n) applied))"
proof -
  have c: "cache_capacity c = n" "cache_insertion_order c = []"
    using new by (auto simp: new_cache_def split: if_splits)
  then have d: "cache_ok d" "cache_capacity d = n"
      "cache_insertion_order d = drop (length applied - n) applied"
    using observe_all_window [OF new_cache_ok [OF new], of "[]" ms d applied] run by auto
  have "snd (cache_observe d m) = Duplicate \<longleftrightarrow> m \<in> cache_identifiers d"
    by (simp add: cache_observe_def Let_def)
  then show ?thesis using d by (simp add: cache_ok_def)
qed

section \<open>Witness\<close>

theorem command_cache_window_witness:
  "\<exists>c d. new_cache 2 = Inr c
     \<and> observe_all c [''one'', ''two'', ''one'', ''three''] = (d, [''one'', ''two'', ''three''])
     \<and> snd (cache_observe d ''two'') = Duplicate \<and> snd (cache_observe d ''one'') = FirstSeen"
proof -
  let ?c = "\<lparr>cache_capacity = 2, cache_insertion_order = [], cache_identifiers = {}\<rparr>"
  let ?d = "\<lparr>cache_capacity = 2, cache_insertion_order = [''two'', ''three''],
    cache_identifiers = {''two'', ''three''}\<rparr>"
  have new: "new_cache 2 = Inr ?c" by (simp add: new_cache_def)
  have run: "observe_all ?c [''one'', ''two'', ''one'', ''three''] = (?d, [''one'', ''two'', ''three''])"
    by (auto simp: cache_observe_def cache_expire_def)
  have "snd (cache_observe ?d ''two'') = Duplicate" "snd (cache_observe ?d ''one'') \<noteq> Duplicate"
    using command_cache_window [OF new run, of "''two''"] command_cache_window [OF new run, of "''one''"]
    by simp_all
  moreover have "x = FirstSeen" if "x \<noteq> Duplicate" for x using that by (cases x) simp_all
  ultimately show ?thesis using new run by blast
qed

end
