(* ===== verification/Cue_Executor.thy ===== *)
theory Cue_Executor
  imports Events
begin

text \<open>
  The executor of loop cues (\<open>lumi-engine/src/autoloop_executor.rs\<close>): a cue has an identity,
  is scheduled on the MIDI lane once, and leaves a completion watermark that keeps delayed
  observations of an earlier phrase from sending it again. The way the output worker of
  \<open>session.rs\<close> drives it (\<open>execute_autoloop\<close>) is \<open>drive_cue\<close>, with the answers of the MIDI
  lane as arguments. Facts: which requests are refused, that the completed phrases of a deck, load and plan
  move forward until another one comes between, and that unsent cues and new epochs can be scheduled again.
\<close>

section \<open>Data\<close>

record AutoloopTarget =
  target_bank_number :: u8
  target_autoloop_number :: u8

record AutoloopExecutionIdentity =
  id_execution_epoch :: u64
  id_deck_id :: DeckId
  id_track_load_id :: TrackLoadId
  id_plan_revision :: PlanRevision
  id_phrase_index :: u16

record AutoloopSchedule =
  sched_identity :: AutoloopExecutionIdentity
  sched_target :: AutoloopTarget
  sched_select_bank :: bool

datatype AutoloopExecutorState =
    Idle
  | Scheduled AutoloopExecutionIdentity AutoloopTarget
  | BankPrepared AutoloopExecutionIdentity AutoloopTarget
  | Triggered AutoloopExecutionIdentity AutoloopTarget u64
  | Completed AutoloopExecutionIdentity AutoloopTarget

record AutoloopCueExecutor =
  ex_state :: AutoloopExecutorState
  ex_completed_through :: "AutoloopExecutionIdentity option"
  ex_execution_epoch :: u64
  ex_requested_count :: u64
  ex_bank_prepared_count :: u64
  ex_triggered_count :: u64
  ex_completed_count :: u64
  ex_duplicate_count :: u64
  ex_cancelled_count :: u64
  ex_rescheduled_count :: u64
  ex_failed_count :: u64

section \<open>Operations\<close>

definition from_request :: "OutputExecutionRequest \<Rightarrow> u64 \<Rightarrow> AutoloopExecutionIdentity" where
  "from_request request epoch =
     \<lparr>id_execution_epoch = epoch, id_deck_id = req_deck_id request,
      id_track_load_id = req_track_load_id request, id_plan_revision = req_plan_revision request,
      id_phrase_index = req_phrase_index request\<rparr>"

fun state_identity :: "AutoloopExecutorState \<Rightarrow> AutoloopExecutionIdentity option" where
  "state_identity Idle = None"
| "state_identity (Scheduled i _) = Some i"
| "state_identity (BankPrepared i _) = Some i"
| "state_identity (Triggered i _ _) = Some i"
| "state_identity (Completed i _) = Some i"

fun state_name :: "AutoloopExecutorState \<Rightarrow> string" where
  "state_name Idle = ''idle''"
| "state_name (Scheduled _ _) = ''scheduled''"
| "state_name (BankPrepared _ _) = ''bankPrepared''"
| "state_name (Triggered _ _ _) = ''triggered''"
| "state_name (Completed _ _) = ''completed''"

definition default_executor :: AutoloopCueExecutor where
  "default_executor =
     \<lparr>ex_state = Idle, ex_completed_through = None, ex_execution_epoch = 0, ex_requested_count = 0,
      ex_bank_prepared_count = 0, ex_triggered_count = 0, ex_completed_count = 0,
      ex_duplicate_count = 0, ex_cancelled_count = 0, ex_rescheduled_count = 0, ex_failed_count = 0\<rparr>"

fun is_pending :: "AutoloopExecutorState \<Rightarrow> bool" where
  "is_pending Idle = False"
| "is_pending (Completed _ _) = False"
| "is_pending _ = True"

definition executor_cancel_pending :: "AutoloopCueExecutor \<Rightarrow> AutoloopCueExecutor" where
  "executor_cancel_pending e =
     (if is_pending (ex_state e)
      then e\<lparr>ex_cancelled_count := saturating_add (ex_cancelled_count e) 1, ex_state := Idle\<rparr>
      else e\<lparr>ex_state := Idle\<rparr>)"

definition begin_execution_epoch :: "AutoloopCueExecutor \<Rightarrow> AutoloopCueExecutor \<times> u64 option" where
  "begin_execution_epoch e =
     (case checked_add (ex_execution_epoch e) 1 of
        None \<Rightarrow> (e, None)
      | Some epoch \<Rightarrow>
          (executor_cancel_pending (e\<lparr>ex_execution_epoch := epoch, ex_completed_through := None\<rparr>), Some epoch))"

text \<open>The closure of \<open>completed_through.is_some_and\<close>.\<close>

definition covers :: "AutoloopExecutionIdentity \<Rightarrow> AutoloopExecutionIdentity \<Rightarrow> bool" where
  "covers completed i \<longleftrightarrow>
     id_execution_epoch completed = id_execution_epoch i
   \<and> id_deck_id completed = id_deck_id i
   \<and> id_track_load_id completed = id_track_load_id i
   \<and> id_plan_revision completed = id_plan_revision i
   \<and> id_phrase_index completed \<ge> id_phrase_index i"

definition schedule_identity ::
  "AutoloopCueExecutor \<Rightarrow> AutoloopExecutionIdentity \<Rightarrow> AutoloopTarget \<Rightarrow> u8 option \<Rightarrow>
   AutoloopCueExecutor \<times> AutoloopSchedule option" where
  "schedule_identity e i target active_bank =
     (let e1 = e\<lparr>ex_requested_count := saturating_add (ex_requested_count e) 1\<rparr> in
      if state_identity (ex_state e1) = Some i
         \<or> (case ex_completed_through e1 of None \<Rightarrow> False | Some completed \<Rightarrow> covers completed i)
      then (e1\<lparr>ex_duplicate_count := saturating_add (ex_duplicate_count e1) 1\<rparr>, None)
      else (e1\<lparr>ex_state := Scheduled i target\<rparr>,
            Some \<lparr>sched_identity = i, sched_target = target,
                  sched_select_bank = (active_bank \<noteq> Some (target_bank_number target))\<rparr>))"

definition schedule ::
  "AutoloopCueExecutor \<Rightarrow> OutputExecutionRequest \<Rightarrow> AutoloopTarget \<Rightarrow> u8 option \<Rightarrow>
   AutoloopCueExecutor \<times> AutoloopSchedule option" where
  "schedule e request target active_bank =
     schedule_identity e (from_request request (ex_execution_epoch e)) target active_bank"

fun is_completed :: "AutoloopExecutorState \<Rightarrow> bool" where
  "is_completed (Completed _ _) = True"
| "is_completed _ = False"

definition record_pending_retime ::
  "AutoloopCueExecutor \<Rightarrow> AutoloopExecutionIdentity \<Rightarrow> AutoloopCueExecutor \<times> bool" where
  "record_pending_retime e i =
     (if state_identity (ex_state e) \<noteq> Some i \<or> is_completed (ex_state e) then (e, False)
      else (e\<lparr>ex_rescheduled_count := saturating_add (ex_rescheduled_count e) 1\<rparr>, True))"

definition mark_bank_prepared :: "AutoloopCueExecutor \<Rightarrow> AutoloopSchedule \<Rightarrow> AutoloopCueExecutor" where
  "mark_bank_prepared e s =
     (if ex_state e = Scheduled (sched_identity s) (sched_target s)
      then e\<lparr>ex_state := BankPrepared (sched_identity s) (sched_target s),
             ex_bank_prepared_count := saturating_add (ex_bank_prepared_count e) 1\<rparr>
      else e)"

definition mark_triggered :: "AutoloopCueExecutor \<Rightarrow> AutoloopSchedule \<Rightarrow> u64 \<Rightarrow> AutoloopCueExecutor" where
  "mark_triggered e s expected =
     (if state_identity (ex_state e) = Some (sched_identity s)
      then e\<lparr>ex_state := Triggered (sched_identity s) (sched_target s) expected,
             ex_triggered_count := saturating_add (ex_triggered_count e) 1\<rparr>
      else e)"

definition complete_if_emitted :: "AutoloopCueExecutor \<Rightarrow> u64 \<Rightarrow> AutoloopCueExecutor" where
  "complete_if_emitted e lane_emitted =
     (case ex_state e of
        Triggered i target expected \<Rightarrow>
          if lane_emitted \<ge> expected
          then e\<lparr>ex_completed_through := Some i, ex_state := Completed i target,
                 ex_completed_count := saturating_add (ex_completed_count e) 1\<rparr>
          else e
      | _ \<Rightarrow> e)"

definition executor_fail :: "AutoloopCueExecutor \<Rightarrow> AutoloopExecutionIdentity \<Rightarrow> AutoloopCueExecutor" where
  "executor_fail e i =
     (if state_identity (ex_state e) = Some i
      then e\<lparr>ex_state := Idle, ex_failed_count := saturating_add (ex_failed_count e) 1\<rparr>
      else e)"

section \<open>How the output worker drives the executor\<close>

text \<open>
  The executor calls of \<open>OutputWorker::execute_autoloop\<close>, in order. The lane answers with its
  emitted count and active bank, and accepts or refuses the generation, the bank and the loop.
\<close>

record LaneAnswers =
  lane_emitted_before :: u64
  lane_emitted :: u64
  lane_active_bank :: "u8 option"
  lane_generation_ok :: bool
  lane_bank_ok :: bool
  lane_autoloop_ok :: bool

definition drive_cue ::
  "AutoloopCueExecutor \<Rightarrow> OutputExecutionRequest \<Rightarrow> AutoloopTarget \<Rightarrow> LaneAnswers \<Rightarrow> AutoloopCueExecutor" where
  "drive_cue e request target lane =
     (let e1 = complete_if_emitted e (lane_emitted_before lane) in
      case schedule e1 request target (lane_active_bank lane) of
        (e2, None) \<Rightarrow> e2
      | (e2, Some s) \<Rightarrow>
          if \<not> lane_generation_ok lane then executor_fail e2 (sched_identity s)
          else if sched_select_bank s \<and> \<not> lane_bank_ok lane then executor_fail e2 (sched_identity s)
          else let e3 = mark_bank_prepared e2 s;
                   actions = saturating_add (if sched_select_bank s then 1 else 0) 1 in
            if \<not> lane_autoloop_ok lane then executor_fail e3 (sched_identity s)
            else mark_triggered e3 s (saturating_add (lane_emitted lane) actions))"

datatype CueEvent =
    NewEpoch
  | Drive OutputExecutionRequest AutoloopTarget LaneAnswers
  | Emitted u64
  | Retime AutoloopExecutionIdentity
  | FailCue AutoloopExecutionIdentity
  | CancelCues

fun cue_step :: "AutoloopCueExecutor \<Rightarrow> CueEvent \<Rightarrow> AutoloopCueExecutor" where
  "cue_step e NewEpoch = fst (begin_execution_epoch e)"
| "cue_step e (Drive request target lane) = drive_cue e request target lane"
| "cue_step e (Emitted n) = complete_if_emitted e n"
| "cue_step e (Retime i) = fst (record_pending_retime e i)"
| "cue_step e (FailCue i) = executor_fail e i"
| "cue_step e CancelCues = executor_cancel_pending e"

section \<open>The invariant of the executor\<close>

text \<open>
  Pending work belongs to the current epoch and is not covered by the watermark; a completed
  cue is the watermark.
\<close>

definition watermarked :: "AutoloopCueExecutor \<Rightarrow> AutoloopExecutionIdentity \<Rightarrow> bool" where
  "watermarked e i \<longleftrightarrow> (case ex_completed_through e of None \<Rightarrow> False | Some w \<Rightarrow> covers w i)"

definition pending_ok :: "AutoloopCueExecutor \<Rightarrow> AutoloopExecutionIdentity \<Rightarrow> bool" where
  "pending_ok e i \<longleftrightarrow> id_execution_epoch i = ex_execution_epoch e \<and> \<not> watermarked e i"

definition watermark_ok :: "AutoloopCueExecutor \<Rightarrow> bool" where
  "watermark_ok e \<longleftrightarrow>
     (case ex_completed_through e of None \<Rightarrow> True | Some w \<Rightarrow> id_execution_epoch w = ex_execution_epoch e)"

definition cue_inv :: "AutoloopCueExecutor \<Rightarrow> bool" where
  "cue_inv e \<longleftrightarrow> watermark_ok e
   \<and> (case ex_state e of
        Idle \<Rightarrow> True
      | Scheduled i _ \<Rightarrow> pending_ok e i
      | BankPrepared i _ \<Rightarrow> pending_ok e i
      | Triggered i _ _ \<Rightarrow> pending_ok e i
      | Completed i _ \<Rightarrow> ex_completed_through e = Some i)"

lemmas cue_inv_defs = cue_inv_def watermark_ok_def pending_ok_def watermarked_def

lemma from_request_epoch [simp]: "id_execution_epoch (from_request r n) = n"
  by (simp add: from_request_def)

lemma schedule_identity_cases:
  obtains (refused) "schedule_identity e i target bank =
      (e\<lparr>ex_requested_count := saturating_add (ex_requested_count e) 1,
         ex_duplicate_count := saturating_add (ex_duplicate_count e) 1\<rparr>, None)"
    "state_identity (ex_state e) = Some i \<or> watermarked e i"
  | (accepted) "schedule_identity e i target bank =
      (e\<lparr>ex_requested_count := saturating_add (ex_requested_count e) 1, ex_state := Scheduled i target\<rparr>,
       Some \<lparr>sched_identity = i, sched_target = target,
             sched_select_bank = (bank \<noteq> Some (target_bank_number target))\<rparr>)"
    "state_identity (ex_state e) \<noteq> Some i" "\<not> watermarked e i"
  by (cases "state_identity (ex_state e) = Some i \<or> watermarked e i")
     (auto simp: schedule_identity_def Let_def watermarked_def that)

lemma cue_inv_cancel: "cue_inv e \<Longrightarrow> cue_inv (executor_cancel_pending e)"
  by (cases "is_pending (ex_state e)") (auto simp: cue_inv_defs executor_cancel_pending_def split: option.splits)

lemma cue_inv_epoch: "cue_inv e \<Longrightarrow> cue_inv (fst (begin_execution_epoch e))"
  by (cases "checked_add (ex_execution_epoch e) 1"; cases "is_pending (ex_state e)")
     (auto simp: cue_inv_defs begin_execution_epoch_def executor_cancel_pending_def split: option.splits)

lemma cue_inv_complete: "cue_inv e \<Longrightarrow> cue_inv (complete_if_emitted e n)"
  by (cases "ex_state e") (auto simp: cue_inv_defs complete_if_emitted_def split: option.splits)

lemma cue_inv_fail: "cue_inv e \<Longrightarrow> cue_inv (executor_fail e i)"
  by (cases "state_identity (ex_state e) = Some i") (auto simp: cue_inv_defs executor_fail_def split: option.splits)

lemma cue_inv_retime: "cue_inv e \<Longrightarrow> cue_inv (fst (record_pending_retime e i))"
  by (cases "ex_state e") (auto simp: cue_inv_defs record_pending_retime_def split: option.splits)

lemma cue_inv_schedule: "cue_inv e \<Longrightarrow> cue_inv (fst (schedule e r target bank))"
  unfolding schedule_def
  by (rule schedule_identity_cases [of e "from_request r (ex_execution_epoch e)" target bank];
      cases "ex_state e") (auto simp: cue_inv_defs split: option.splits)

lemma cue_inv_bank_prepared: "cue_inv e \<Longrightarrow> cue_inv (mark_bank_prepared e s)"
  by (cases "ex_state e") (auto simp: cue_inv_defs mark_bank_prepared_def split: option.splits)

lemma cue_inv_triggered:
  "cue_inv e \<Longrightarrow> \<not> is_completed (ex_state e) \<Longrightarrow> cue_inv (mark_triggered e s n)"
  by (cases "ex_state e") (auto simp: cue_inv_defs mark_triggered_def split: option.splits)

lemma schedule_Some_state:
  "schedule e r target bank = (e', Some s) \<Longrightarrow>
   ex_state e' = Scheduled (sched_identity s) (sched_target s) \<and> sched_target s = target
   \<and> sched_identity s = from_request r (ex_execution_epoch e)"
  unfolding schedule_def
  by (rule schedule_identity_cases [of e "from_request r (ex_execution_epoch e)" target bank]) auto

lemma cue_inv_drive: "cue_inv e \<Longrightarrow> cue_inv (drive_cue e r target lane)"
proof -
  assume inv: "cue_inv e"
  let ?e1 = "complete_if_emitted e (lane_emitted_before lane)"
  obtain e2 s where sch: "schedule ?e1 r target (lane_active_bank lane) = (e2, s)" by fastforce
  have inv2: "cue_inv e2"
    using cue_inv_schedule [OF cue_inv_complete [OF inv]] sch by (metis fst_conv)
  show ?thesis
  proof (cases s)
    case (Some s')
    have st: "ex_state e2 = Scheduled (sched_identity s') (sched_target s')"
      using sch Some schedule_Some_state by blast
    then have "\<not> is_completed (ex_state (mark_bank_prepared e2 s'))"
      by (simp add: mark_bank_prepared_def)
    with inv2 show ?thesis
      by (auto simp: drive_cue_def sch Some Let_def
          intro: cue_inv_fail cue_inv_bank_prepared cue_inv_triggered)
  qed (simp add: drive_cue_def sch inv2)
qed

lemma cue_inv_step: "cue_inv e \<Longrightarrow> cue_inv (cue_step e ev)"
  by (cases ev)
     (simp_all add: cue_inv_epoch cue_inv_drive cue_inv_complete cue_inv_retime cue_inv_fail cue_inv_cancel)

section \<open>The log of completed cues\<close>

text \<open>The cue an event completes: the one triggered, once the lane has emitted enough.\<close>

fun emitted_seen :: "CueEvent \<Rightarrow> u64 option" where
  "emitted_seen (Emitted n) = Some n"
| "emitted_seen (Drive _ _ lane) = Some (lane_emitted_before lane)"
| "emitted_seen _ = None"

definition completes :: "AutoloopCueExecutor \<Rightarrow> CueEvent \<Rightarrow> AutoloopExecutionIdentity option" where
  "completes e ev =
     (case (ex_state e, emitted_seen ev) of
        (Triggered i _ expected, Some n) \<Rightarrow> if n \<ge> expected then Some i else None
      | _ \<Rightarrow> None)"

definition cue_machine ::
  "AutoloopCueExecutor \<Rightarrow> CueEvent \<Rightarrow> unit + (AutoloopCueExecutor \<times> AutoloopExecutionIdentity option)" where
  "cue_machine e ev = Inr (cue_step e ev, completes e ev)"

definition cue_log :: "AutoloopCueExecutor \<Rightarrow> CueEvent list \<Rightarrow> AutoloopExecutionIdentity list" where
  "cue_log e evs = List.map_filter id (snd (run_machine cue_machine e evs))"

interpretation cues: event_machine cue_machine cue_inv "\<lambda>_. True" default_executor
  by unfold_locales
     (auto simp: cue_machine_def cue_inv_step, simp add: cue_inv_defs default_executor_def)

lemma cue_log_Nil [simp]: "cue_log e [] = []"
  by (simp add: cue_log_def map_filter_simps)

lemma cue_log_Cons [simp]:
  "cue_log e (ev # evs) = (case completes e ev of None \<Rightarrow> [] | Some i \<Rightarrow> [i]) @ cue_log (cue_step e ev) evs"
  by (auto simp: cue_log_def cue_machine_def map_filter_simps split: prod.split option.split)

text \<open>Only a completion and a new epoch move the watermark.\<close>

lemma schedule_watermark [simp]:
  "ex_completed_through (fst (schedule e r t b)) = ex_completed_through e"
  "ex_execution_epoch (fst (schedule e r t b)) = ex_execution_epoch e"
  by (simp_all add: schedule_def schedule_identity_def Let_def)

lemma drive_watermark:
  "ex_completed_through (drive_cue e r t lane)
     = ex_completed_through (complete_if_emitted e (lane_emitted_before lane))"
  "ex_execution_epoch (drive_cue e r t lane) = ex_execution_epoch e"
proof -
  let ?e1 = "complete_if_emitted e (lane_emitted_before lane)"
  obtain e2 s where sch: "schedule ?e1 r t (lane_active_bank lane) = (e2, s)" by fastforce
  have "ex_execution_epoch ?e1 = ex_execution_epoch e"
    by (simp add: complete_if_emitted_def split: AutoloopExecutorState.split)
  then show "ex_completed_through (drive_cue e r t lane) = ex_completed_through ?e1"
    "ex_execution_epoch (drive_cue e r t lane) = ex_execution_epoch e"
    using schedule_watermark [of ?e1 r t "lane_active_bank lane"]
    by (auto simp: drive_cue_def sch Let_def executor_fail_def mark_bank_prepared_def mark_triggered_def
        split: option.split)
qed

lemma step_watermark:
  assumes "ev \<noteq> NewEpoch"
  shows "ex_completed_through (cue_step e ev)
      = (case completes e ev of None \<Rightarrow> ex_completed_through e | Some i \<Rightarrow> Some i)
    \<and> ex_execution_epoch (cue_step e ev) = ex_execution_epoch e"
  using assms
  by (cases ev)
     (auto simp: drive_watermark complete_if_emitted_def completes_def record_pending_retime_def
        executor_fail_def executor_cancel_pending_def split: AutoloopExecutorState.split)

lemma completes_NewEpoch [simp]: "completes e NewEpoch = None"
  by (simp add: completes_def split: AutoloopExecutorState.split)

lemma completes_uncovered:
  "cue_inv e \<Longrightarrow> completes e ev = Some i \<Longrightarrow>
   id_execution_epoch i = ex_execution_epoch e \<and> \<not> watermarked e i"
  by (auto simp: completes_def cue_inv_def pending_ok_def
      split: AutoloopExecutorState.splits option.splits if_splits)

text \<open>The cue logged last: it is the watermark, or it belongs to an earlier epoch.\<close>

definition logged_last :: "AutoloopCueExecutor \<Rightarrow> AutoloopExecutionIdentity \<Rightarrow> bool" where
  "logged_last e l \<longleftrightarrow>
     ex_completed_through e = Some l \<or> id_execution_epoch l < ex_execution_epoch e"

lemma logged_last_epoch:
  assumes "logged_last e l" "cue_inv e"
  shows "logged_last (cue_step e NewEpoch) l"
proof (cases "checked_add (ex_execution_epoch e) 1")
  case None
  then show ?thesis using assms by (simp add: logged_last_def begin_execution_epoch_def)
next
  case (Some n)
  then have "ex_execution_epoch e < n" by (rule checked_add_Some_gt) simp
  with assms Some show ?thesis
    by (auto simp: logged_last_def begin_execution_epoch_def executor_cancel_pending_def cue_inv_def
        watermark_ok_def)
qed

lemma logged_last_uncovered:
  "logged_last e l \<Longrightarrow> cue_inv e \<Longrightarrow> completes e ev = Some i \<Longrightarrow> \<not> covers l i"
  by (drule (1) completes_uncovered) (auto simp: logged_last_def watermarked_def covers_def)

lemma cue_log_chain:
  "cue_inv e \<Longrightarrow> logged_last e l \<Longrightarrow> successively (\<lambda>a b. \<not> covers a b) (l # cue_log e evs)"
proof (induction evs arbitrary: e l)
  case (Cons ev evs)
  have inv: "cue_inv (cue_step e ev)" using Cons.prems by (simp add: cue_inv_step)
  show ?case
  proof (cases "completes e ev")
    case None
    have "logged_last (cue_step e ev) l"
    proof (cases "ev = NewEpoch")
      case True
      then show ?thesis using logged_last_epoch Cons.prems by blast
    next
      case False
      then show ?thesis using step_watermark [OF False, of e] None Cons.prems by (simp add: logged_last_def)
    qed
    with Cons.IH inv None show ?thesis by simp
  next
    case (Some i)
    then have "ev \<noteq> NewEpoch" by auto
    with Some have "logged_last (cue_step e ev) i" using step_watermark by (simp add: logged_last_def)
    then have "successively (\<lambda>a b. \<not> covers a b) (i # cue_log (cue_step e ev) evs)"
      using Cons.IH inv by blast
    with Some show ?thesis using logged_last_uncovered Cons.prems by simp
  qed
qed simp

lemma cue_log_successively: "successively (\<lambda>a b. \<not> covers a b) (cue_log default_executor evs)"
proof -
  have gen: "cue_inv e \<Longrightarrow> ex_completed_through e = None \<Longrightarrow>
    successively (\<lambda>a b. \<not> covers a b) (cue_log e evs)" for e
  proof (induction evs arbitrary: e)
    case (Cons ev evs)
    have inv: "cue_inv (cue_step e ev)" using Cons.prems by (simp add: cue_inv_step)
    show ?case
    proof (cases "completes e ev")
      case None
      have "ex_completed_through (cue_step e ev) = None"
      proof (cases "ev = NewEpoch")
        case True
        then show ?thesis using Cons.prems
          by (simp add: begin_execution_epoch_def executor_cancel_pending_def split: option.split)
      next
        case False
        then show ?thesis using step_watermark None Cons.prems by simp
      qed
      with Cons.IH inv None show ?thesis by simp
    next
      case (Some i)
      then have "ev \<noteq> NewEpoch" by auto
      with Some have "logged_last (cue_step e ev) i" using step_watermark by (simp add: logged_last_def)
      with Some show ?thesis using cue_log_chain [OF inv] by simp
    qed
  qed simp
  show ?thesis by (rule gen) (simp_all add: cues.inv_init, simp add: default_executor_def)
qed

section \<open>Properties\<close>

text \<open>The place of a cue in the show: its epoch, deck, load and plan revision.\<close>

definition cue_place :: "AutoloopExecutionIdentity \<Rightarrow> u64 \<times> DeckId \<times> TrackLoadId \<times> PlanRevision" where
  "cue_place i = (id_execution_epoch i, id_deck_id i, id_track_load_id i, id_plan_revision i)"

lemma not_covers_same_place:
  "cue_place a = cue_place b \<Longrightarrow> \<not> covers a b \<Longrightarrow> id_phrase_index a < id_phrase_index b"
  by (auto simp: cue_place_def covers_def not_le)

lemma successively_same_place:
  "successively (\<lambda>a b. \<not> covers a b) xs \<Longrightarrow> (\<forall>a \<in> set xs. cue_place a = p) \<Longrightarrow>
   sorted_wrt (<) (map id_phrase_index xs)"
proof (induction xs)
  case (Cons a xs)
  then have IH: "sorted_wrt (<) (map id_phrase_index xs)" by (auto simp: successively_Cons)
  show ?case
  proof (cases xs)
    case (Cons b ys)
    with Cons.prems have "id_phrase_index a < id_phrase_index b"
      by (intro not_covers_same_place) auto
    with IH Cons show ?thesis by auto
  qed simp
qed simp

text \<open>Epochs only go forward, in the state and in the log.\<close>

lemma step_epoch: "ex_execution_epoch e \<le> ex_execution_epoch (cue_step e ev)"
proof (cases "ev = NewEpoch")
  case True
  then show ?thesis
    by (auto simp: begin_execution_epoch_def executor_cancel_pending_def less_imp_le dest: checked_add_Some_gt split: option.split)
next
  case False
  then show ?thesis using step_watermark [OF False, of e] by simp
qed

lemma cue_log_epochs:
  "cue_inv e \<Longrightarrow> sorted (map id_execution_epoch (cue_log e evs))
     \<and> (\<forall>a \<in> set (cue_log e evs). ex_execution_epoch e \<le> id_execution_epoch a)"
proof (induction evs arbitrary: e)
  case (Cons ev evs)
  then have IH: "sorted (map id_execution_epoch (cue_log (cue_step e ev) evs))"
    "\<forall>a \<in> set (cue_log (cue_step e ev) evs). ex_execution_epoch (cue_step e ev) \<le> id_execution_epoch a"
    using cue_inv_step by blast+
  have later: "\<forall>a \<in> set (cue_log (cue_step e ev) evs). ex_execution_epoch e \<le> id_execution_epoch a"
    using IH(2) step_epoch [of e ev] by (auto intro: order_trans)
  show ?case
  proof (cases "completes e ev")
    case (Some i)
    then have "id_execution_epoch i = ex_execution_epoch e" using completes_uncovered Cons.prems by blast
    with Some IH later show ?thesis by auto
  qed (use IH later in simp)
qed simp

lemma log_stretch_advances:
  assumes "cue_log default_executor evs = before @ stretch @ rest" "\<forall>a \<in> set stretch. cue_place a = place"
  shows "sorted_wrt (<) (map id_phrase_index stretch)"
proof -
  have "successively (\<lambda>a b. \<not> covers a b) stretch"
    using cue_log_successively [of evs] assms(1) by (simp add: successively_append_iff)
  then show ?thesis using assms(2) by (rule successively_same_place)
qed

lemma log_advances_between:
  assumes "log = cue_log default_executor evs" "i < j" "j < length log"
    and "\<And>m. i \<le> m \<Longrightarrow> m \<le> j \<Longrightarrow> cue_place (log ! m) = place"
  shows "id_phrase_index (log ! i) < id_phrase_index (log ! j)"
proof -
  define stretch where "stretch = take (Suc j - i) (drop i log)"
  have "log = take i log @ stretch @ drop (Suc j) log"
    unfolding stretch_def using assms(2)
    by (metis append_take_drop_id drop_drop less_imp_le_nat less_SucI le_add_diff_inverse2)
  then have cut: "cue_log default_executor evs = take i log @ stretch @ drop (Suc j) log" using assms(1) by simp
  have nth: "n < Suc j - i \<Longrightarrow> stretch ! n = log ! (i + n)" and len: "length stretch = Suc j - i" for n
    using assms(2,3) by (simp_all add: stretch_def)
  have "\<forall>a \<in> set stretch. cue_place a = place"
    using assms(4) nth len by (auto simp: in_set_conv_nth)
  then have "sorted_wrt (<) (map id_phrase_index stretch)" by (rule log_stretch_advances [OF cut])
  then have "id_phrase_index (stretch ! 0) < id_phrase_index (stretch ! (j - i))"
    using assms(2) len by (auto simp: sorted_wrt_iff_nth_less)
  then show ?thesis using nth [of 0] nth [of "j - i"] assms(2) by simp
qed

text \<open>
  C34. However the output worker drives the executor from its initial state, the log of the cues
  it completes only moves forward. The epochs never go back. And of two cues of one epoch, deck,
  load and plan revision the later one has the greater phrase number, unless a cue of another deck,
  load or plan revision was completed between them in the same epoch. So within an epoch that keeps
  to one deck, load and plan revision no phrase is completed twice. The exception is real, since
  the executor keeps one watermark: a cue of another deck replaces it.
\<close>

theorem completed_phrases_advance:
  assumes "log = cue_log default_executor evs" "i < j" "j < length log"
  shows "id_execution_epoch (log ! i) \<le> id_execution_epoch (log ! j)
     \<and> (cue_place (log ! i) = cue_place (log ! j) \<longrightarrow>
          id_phrase_index (log ! i) < id_phrase_index (log ! j)
        \<or> (\<exists>m. i < m \<and> m < j \<and> id_execution_epoch (log ! m) = id_execution_epoch (log ! i)
             \<and> cue_place (log ! m) \<noteq> cue_place (log ! i)))"
proof -
  have epochs: "id_execution_epoch (log ! m) \<le> id_execution_epoch (log ! n)" if "m \<le> n" "n < length log" for m n
    using cue_log_epochs [OF cues.inv_init, of evs] that unfolding assms(1) by (auto dest: sorted_nth_mono)
  have "id_phrase_index (log ! i) < id_phrase_index (log ! j)"
    if same: "cue_place (log ! i) = cue_place (log ! j)"
      and only: "\<not> (\<exists>m. i < m \<and> m < j \<and> id_execution_epoch (log ! m) = id_execution_epoch (log ! i)
             \<and> cue_place (log ! m) \<noteq> cue_place (log ! i))"
  proof (rule log_advances_between [OF assms])
    fix m
    assume m: "i \<le> m" "m \<le> j"
    then have "id_execution_epoch (log ! i) \<le> id_execution_epoch (log ! m)"
      "id_execution_epoch (log ! m) \<le> id_execution_epoch (log ! j)"
      using epochs assms(3) by auto
    moreover have "id_execution_epoch (log ! j) = id_execution_epoch (log ! i)" using same by (simp add: cue_place_def)
    ultimately have "id_execution_epoch (log ! m) = id_execution_epoch (log ! i)" by simp
    then have "i < m \<Longrightarrow> m < j \<Longrightarrow> cue_place (log ! m) = cue_place (log ! i)" using only by blast
    moreover have "m = i \<or> m = j \<or> i < m \<and> m < j" using m by linarith
    ultimately show "cue_place (log ! m) = cue_place (log ! i)" using same by (elim disjE) simp_all
  qed
  then show ?thesis using epochs [of i j] assms(2,3) by (intro conjI impI) (simp, blast)
qed

text \<open>
  On every branch of a request: it is refused exactly when its cue is already the one
  at work or is covered by the watermark, and then nothing but two counters changes; when it
  is accepted the cue is scheduled with its target, selecting the bank exactly when another
  one is active, and the watermark stays.
\<close>

theorem cue_request_exact:
  "schedule e request target active_bank =
     (let i = from_request request (ex_execution_epoch e);
          counted = e\<lparr>ex_requested_count := saturating_add (ex_requested_count e) 1\<rparr> in
      if state_identity (ex_state e) = Some i \<or> watermarked e i
      then (counted\<lparr>ex_duplicate_count := saturating_add (ex_duplicate_count e) 1\<rparr>, None)
      else (counted\<lparr>ex_state := Scheduled i target\<rparr>,
            Some \<lparr>sched_identity = i, sched_target = target,
                  sched_select_bank = (active_bank \<noteq> Some (target_bank_number target))\<rparr>))"
  by (simp add: schedule_def schedule_identity_def Let_def watermarked_def)

text \<open>
  A cue that was not sent can be sent again: after a failure or a cancellation of pending
  work the same request is accepted, and after a new epoch every request is, also one that
  was completed before. The epoch counter refuses to wrap and then changes nothing.
\<close>

theorem unsent_cue_is_retryable:
  assumes inv: "cue_inv e"
    and pending: "is_pending (ex_state e)" "state_identity (ex_state e) = Some (from_request request (ex_execution_epoch e))"
  shows "snd (schedule (executor_fail e (from_request request (ex_execution_epoch e))) request target bank) \<noteq> None
    \<and> snd (schedule (executor_cancel_pending e) request target bank) \<noteq> None
    \<and> (case begin_execution_epoch e of
         (e', None) \<Rightarrow> e' = e \<and> ex_execution_epoch e = - 1
       | (e', Some epoch) \<Rightarrow> snd (schedule e' any target bank) \<noteq> None)"
proof -
  let ?i = "from_request request (ex_execution_epoch e)"
  have unmarked: "\<not> watermarked e ?i"
    using inv pending by (cases "ex_state e") (simp_all add: cue_inv_def pending_ok_def)
  have a: "snd (schedule (executor_fail e ?i) request target bank) \<noteq> None"
    using unmarked pending(2) by (simp add: schedule_def schedule_identity_def executor_fail_def Let_def watermarked_def)
  have b: "snd (schedule (executor_cancel_pending e) request target bank) \<noteq> None"
    using unmarked pending(1)
    by (simp add: schedule_def schedule_identity_def executor_cancel_pending_def Let_def watermarked_def)
  have c: "ex_execution_epoch e = - 1" if "checked_add (ex_execution_epoch e) 1 = None"
  proof -
    have "2 ^ 64 - 1 \<le> unat (ex_execution_epoch e)" using that by (simp add: checked_add_eq_None)
    moreover have "unat (ex_execution_epoch e) < 2 ^ 64"
      using unsigned_less [of "ex_execution_epoch e", where ?'a = nat] by simp
    ultimately have "unat (ex_execution_epoch e) = unat (- 1 :: u64)"
      by (simp add: unsigned_minus_1_eq_mask mask_eq_exp_minus_1)
    then show ?thesis by (rule unsigned_word_eqI)
  qed
  show ?thesis
    using a b c by (auto simp: begin_execution_epoch_def schedule_def schedule_identity_def
        executor_cancel_pending_def Let_def split: option.split)
qed

section \<open>A concrete run\<close>

definition sample_request :: "u16 \<Rightarrow> OutputExecutionRequest" where
  "sample_request phrase =
     \<lparr>req_command_id = 1, req_plan_id = 1, req_plan_revision = 2, req_deck_id = 1, req_track_load_id = 7,
      req_phrase_index = phrase, req_cue_id = 3, req_action = HoldCurrentLook,
      req_cue_reason = MissingAutoloopMapping, req_scheduled_at = 0\<rparr>"

definition sample_target :: AutoloopTarget where
  "sample_target = \<lparr>target_bank_number = 2, target_autoloop_number = 20\<rparr>"

definition sample_lane :: "u64 \<Rightarrow> LaneAnswers" where
  "sample_lane n = \<lparr>lane_emitted_before = n, lane_emitted = n, lane_active_bank = Some 2,
     lane_generation_ok = True, lane_bank_ok = True, lane_autoloop_ok = True\<rparr>"

text \<open>The delayed observation of phrase 12 after phrase 13 was forecast is not sent again.\<close>

definition delayed_events :: "CueEvent list" where
  "delayed_events =
     [NewEpoch, Drive (sample_request 12) sample_target (sample_lane 0), Emitted 1,
      Drive (sample_request 13) sample_target (sample_lane 1),
      Drive (sample_request 12) sample_target (sample_lane 1), Emitted 2]"

lemmas executor_eval =
  delayed_events_def sample_request_def sample_target_def sample_lane_def default_executor_def
  begin_execution_epoch_def executor_cancel_pending_def drive_cue_def schedule_def schedule_identity_def
  from_request_def complete_if_emitted_def mark_bank_prepared_def mark_triggered_def completes_def
  covers_def saturating_add_def checked_add_def cue_place_def

lemma delayed_log:
  "cue_log default_executor delayed_events =
     [from_request (sample_request 12) 1, from_request (sample_request 13) 1]"
  by (simp add: executor_eval)

theorem completed_phrases_advance_witness:
  "cue_place (cue_log default_executor delayed_events ! 0) = (1, 1, 7, 2)
   \<and> cue_place (cue_log default_executor delayed_events ! 1) = (1, 1, 7, 2)
   \<and> id_phrase_index (cue_log default_executor delayed_events ! 0)
       < id_phrase_index (cue_log default_executor delayed_events ! 1)"
proof -
  have place: "cue_place (cue_log default_executor delayed_events ! 0) = (1, 1, 7, 2)"
    "cue_place (cue_log default_executor delayed_events ! 1) = (1, 1, 7, 2)" "length (cue_log default_executor delayed_events) = 2"
    unfolding delayed_log by (simp_all add: from_request_def sample_request_def cue_place_def)
  with completed_phrases_advance [OF refl, of 0 1 delayed_events] show ?thesis by auto
qed

text \<open>The exception: after a cue of deck 2, phrase 12 of deck 1 is completed again in the same epoch.\<close>

definition other_deck_request :: OutputExecutionRequest where
  "other_deck_request = (sample_request 5)\<lparr>req_deck_id := 2\<rparr>"

definition interleaved_events :: "CueEvent list" where
  "interleaved_events =
     [NewEpoch, Drive (sample_request 12) sample_target (sample_lane 0), Emitted 1,
      Drive other_deck_request sample_target (sample_lane 1), Emitted 2,
      Drive (sample_request 12) sample_target (sample_lane 2), Emitted 3]"

theorem interleaved_cue_repeats:
  "cue_log default_executor interleaved_events =
     [from_request (sample_request 12) 1, from_request other_deck_request 1, from_request (sample_request 12) 1]"
  by (simp add: interleaved_events_def other_deck_request_def executor_eval)

theorem unsent_cue_is_retryable_witness:
  "cue_inv (fst (schedule default_executor (sample_request 12) sample_target None))
   \<and> snd (schedule (executor_cancel_pending (fst (schedule default_executor (sample_request 12) sample_target None)))
        (sample_request 12) sample_target None) \<noteq> None"
proof -
  let ?e = "fst (schedule default_executor (sample_request 12) sample_target None)"
  have inv: "cue_inv ?e" by (rule cue_inv_schedule) (rule cues.inv_init)
  have pend: "is_pending (ex_state ?e)"
    and same: "state_identity (ex_state ?e) = Some (from_request (sample_request 12) (ex_execution_epoch ?e))"
    by (simp_all add: executor_eval)
  show ?thesis using unsent_cue_is_retryable [OF inv pend same] inv by blast
qed

end
