(* ===== verification/Track_Workflow.thy ===== *)
theory Track_Workflow
  imports Rust_Text Track
begin

text \<open>
  The preparation workflow of library tracks (\<open>lumi-library/src/workflow.rs\<close>): the textual forms
  of its enumerations, rules, steps and catalogues with their validating constructors, and the
  state of a track. Facts: the textual forms are read back, and a step is accepted exactly when
  its rules agree field by field.
\<close>

section \<open>Enumerations and their texts\<close>

datatype TrackPreparationStatus = NotStarted | InProgress | ReadyForShow

datatype TrackAttentionReason =
    MetadataChanged | WaveformChanged | BeatGridChanged | HotCuesChanged | SourcePhrasesChanged

datatype TrackWorkflowFilter =
    ChangedAfterUsbSync | VersionCandidates | NotStartedTracks | InProgressTracks | ReadyForShowTracks

datatype WorkflowRuleField =
    PreparationStatus | TechnicalReady | UnresolvedUsbChange | AuthoredTimeline | AudioAvailable
  | VersionCandidate

datatype WorkflowRuleOperator = Is | IsNot

datatype TrackWorkflowValueError =
    InvalidPreparationStatus | InvalidWorkflowFilter | InvalidWorkflowRule | InvalidWorkflowStep
  | InvalidWorkflowCatalog | UnreachableWorkflowStep

fun status_as_str :: "TrackPreparationStatus \<Rightarrow> string" where
  "status_as_str NotStarted = ''not-started''"
| "status_as_str InProgress = ''in-progress''"
| "status_as_str ReadyForShow = ''ready-for-show''"

definition status_try_from_str :: "string \<Rightarrow> TrackWorkflowValueError + TrackPreparationStatus" where
  "status_try_from_str v =
     (if v = ''not-started'' then Inr NotStarted
      else if v = ''in-progress'' then Inr InProgress
      else if v = ''ready-for-show'' then Inr ReadyForShow
      else Inl InvalidPreparationStatus)"

fun attention_as_str :: "TrackAttentionReason \<Rightarrow> string" where
  "attention_as_str MetadataChanged = ''metadataChanged''"
| "attention_as_str WaveformChanged = ''waveformChanged''"
| "attention_as_str BeatGridChanged = ''beatGridChanged''"
| "attention_as_str HotCuesChanged = ''hotCuesChanged''"
| "attention_as_str SourcePhrasesChanged = ''sourcePhrasesChanged''"

fun filter_as_str :: "TrackWorkflowFilter \<Rightarrow> string" where
  "filter_as_str ChangedAfterUsbSync = ''changedAfterUsbSync''"
| "filter_as_str VersionCandidates = ''versionCandidates''"
| "filter_as_str NotStartedTracks = ''notStarted''"
| "filter_as_str InProgressTracks = ''inProgress''"
| "filter_as_str ReadyForShowTracks = ''readyForShow''"

definition filter_try_from_str :: "string \<Rightarrow> TrackWorkflowValueError + TrackWorkflowFilter" where
  "filter_try_from_str v =
     (if v = ''changedAfterUsbSync'' then Inr ChangedAfterUsbSync
      else if v = ''versionCandidates'' then Inr VersionCandidates
      else if v = ''notStarted'' then Inr NotStartedTracks
      else if v = ''inProgress'' then Inr InProgressTracks
      else if v = ''readyForShow'' then Inr ReadyForShowTracks
      else Inl InvalidWorkflowFilter)"

fun field_as_str :: "WorkflowRuleField \<Rightarrow> string" where
  "field_as_str PreparationStatus = ''preparationStatus''"
| "field_as_str TechnicalReady = ''technicalReady''"
| "field_as_str UnresolvedUsbChange = ''unresolvedUsbChange''"
| "field_as_str AuthoredTimeline = ''authoredTimeline''"
| "field_as_str AudioAvailable = ''audioAvailable''"
| "field_as_str VersionCandidate = ''versionCandidate''"

definition field_try_from_str :: "string \<Rightarrow> TrackWorkflowValueError + WorkflowRuleField" where
  "field_try_from_str v =
     (if v = ''preparationStatus'' then Inr PreparationStatus
      else if v = ''technicalReady'' then Inr TechnicalReady
      else if v = ''unresolvedUsbChange'' then Inr UnresolvedUsbChange
      else if v = ''authoredTimeline'' then Inr AuthoredTimeline
      else if v = ''audioAvailable'' then Inr AudioAvailable
      else if v = ''versionCandidate'' then Inr VersionCandidate
      else Inl InvalidWorkflowRule)"

fun operator_as_str :: "WorkflowRuleOperator \<Rightarrow> string" where
  "operator_as_str Is = ''is''"
| "operator_as_str IsNot = ''isNot''"

definition operator_try_from_str :: "string \<Rightarrow> TrackWorkflowValueError + WorkflowRuleOperator" where
  "operator_try_from_str v =
     (if v = ''is'' then Inr Is else if v = ''isNot'' then Inr IsNot else Inl InvalidWorkflowRule)"

section \<open>Rules, steps and catalogues\<close>

record WorkflowRule =
  rule_field :: WorkflowRuleField
  rule_operator :: WorkflowRuleOperator
  rule_value :: string

definition valid_step_id :: "string \<Rightarrow> bool" where
  "valid_step_id v \<longleftrightarrow> 1 \<le> length v \<and> length v \<le> 48
     \<and> list_all (\<lambda>c. is_ascii_lowercase c \<or> is_ascii_digit c \<or> c = CHR ''-'') v"

definition try_new_rule ::
  "WorkflowRuleField \<Rightarrow> WorkflowRuleOperator \<Rightarrow> string \<Rightarrow> TrackWorkflowValueError + WorkflowRule" where
  "try_new_rule field operator v =
     (let valid = (if field = PreparationStatus then valid_step_id v else v = ''true'' \<or> v = ''false'') in
      if \<not> valid then Inl InvalidWorkflowRule
      else Inr \<lparr>rule_field = field, rule_operator = operator, rule_value = v\<rparr>)"

record WorkflowStepDefinition =
  step_id :: string
  step_display_name :: string
  step_icon :: string
  step_color_rgb :: u32
  step_sort_order :: u16
  step_archived :: bool
  step_rules :: "WorkflowRule list"

text \<open>The loop over the rules; \<open>seen\<close> maps the text of a field to its last operator and value.\<close>

fun check_rules ::
  "(string \<Rightarrow> (WorkflowRuleOperator \<times> string) option) \<Rightarrow> WorkflowRule list \<Rightarrow> TrackWorkflowValueError + unit" where
  "check_rules seen [] = Inr ()"
| "check_rules seen (r # rs) =
     (let key = field_as_str (rule_field r) in
      case seen key of
        Some (operator, v) \<Rightarrow>
          if operator \<noteq> rule_operator r \<or> v \<noteq> rule_value r then Inl UnreachableWorkflowStep
          else check_rules (seen(key \<mapsto> (rule_operator r, rule_value r))) rs
      | None \<Rightarrow> check_rules (seen(key \<mapsto> (rule_operator r, rule_value r))) rs)"

definition try_new_step ::
  "string \<Rightarrow> string \<Rightarrow> string \<Rightarrow> u32 \<Rightarrow> u16 \<Rightarrow> bool \<Rightarrow> WorkflowRule list \<Rightarrow>
   TrackWorkflowValueError + WorkflowStepDefinition" where
  "try_new_step sid display_name icon color_rgb sort_order archived rules =
     (let name = trim display_name; ic = trim icon in
      if \<not> valid_step_id sid \<or> name = [] \<or> chars_count name > 48 \<or> ic = [] \<or> chars_count ic > 64
         \<or> color_rgb > 0xFFFFFF \<or> sort_order = 0 \<or> rules = [] \<or> length rules > 8
      then Inl InvalidWorkflowStep
      else and_then (check_rules Map.empty rules) (\<lambda>_.
        Inr \<lparr>step_id = sid, step_display_name = name, step_icon = ic, step_color_rgb = color_rgb,
             step_sort_order = sort_order, step_archived = archived, step_rules = rules\<rparr>))"

record TrackWorkflowCatalog =
  wc_revision :: u64
  wc_steps :: "WorkflowStepDefinition list"

definition try_new_workflow_catalog ::
  "u64 \<Rightarrow> WorkflowStepDefinition list \<Rightarrow> TrackWorkflowValueError + TrackWorkflowCatalog" where
  "try_new_workflow_catalog revision steps =
     (if length steps < 3 \<or> length steps > 12 then Inl InvalidWorkflowCatalog
      else let sorted_steps = sort_key step_sort_order steps;
               ids = set (map step_id sorted_steps) in
        if card ids \<noteq> length sorted_steps
           \<or> \<not> list_all (\<lambda>i. i \<in> ids) [''not-started'', ''in-progress'', ''ready-for-show'']
        then Inl InvalidWorkflowCatalog
        else Inr \<lparr>wc_revision = revision, wc_steps = sorted_steps\<rparr>)"

text \<open>
  What a rule asks of a track (\<open>workflow_rule_predicate_sql\<close> of \<open>lumi-library-sqlite\<close>): \<open>current\<close> is
  the step the track is assigned to, \<open>truth\<close> the truth of the other fields, which the database
  computes. The rules of a step are joined by \<open>AND\<close>.
\<close>

definition rule_holds :: "string \<Rightarrow> (WorkflowRuleField \<Rightarrow> bool) \<Rightarrow> WorkflowRule \<Rightarrow> bool" where
  "rule_holds current truth r =
     (let base = (if rule_field r = PreparationStatus then current = rule_value r
                  else truth (rule_field r) = (rule_value r = ''true'')) in
      case rule_operator r of Is \<Rightarrow> base | IsNot \<Rightarrow> \<not> base)"

section \<open>The state of a track\<close>

record TrackWorkflowAttention =
  att_revision :: u64
  att_source_id :: string
  att_source_revision :: string
  att_detected_at :: string
  att_reasons :: "TrackAttentionReason set"

record TrackWorkflowState =
  ws_track_id :: TrackId
  ws_preparation_status :: TrackPreparationStatus
  ws_step_id :: string
  ws_status_revision :: u64
  ws_attention :: "TrackWorkflowAttention option"

definition default_workflow_state :: "TrackId \<Rightarrow> TrackWorkflowState" where
  "default_workflow_state track =
     \<lparr>ws_track_id = track, ws_preparation_status = NotStarted, ws_step_id = ''not-started'',
      ws_status_revision = 0, ws_attention = None\<rparr>"

definition is_effectively_ready :: "TrackWorkflowState \<Rightarrow> bool" where
  "is_effectively_ready s \<longleftrightarrow> ws_preparation_status s = ReadyForShow \<and> ws_attention s = None"

section \<open>Facts\<close>

lemma status_text_roundtrip: "status_try_from_str (status_as_str v) = Inr v"
  by (cases v) (simp_all add: status_try_from_str_def)

lemma filter_text_roundtrip: "filter_try_from_str (filter_as_str v) = Inr v"
  by (cases v) (simp_all add: filter_try_from_str_def)

lemma field_text_roundtrip: "field_try_from_str (field_as_str v) = Inr v"
  by (cases v) (simp_all add: field_try_from_str_def)

lemma operator_text_roundtrip: "operator_try_from_str (operator_as_str v) = Inr v"
  by (cases v) (simp_all add: operator_try_from_str_def)

lemma field_as_str_inject [simp]: "field_as_str a = field_as_str b \<longleftrightarrow> a = b"
  by (metis field_text_roundtrip sum.inject(2))

definition rules_agree :: "WorkflowRule list \<Rightarrow> bool" where
  "rules_agree rules \<longleftrightarrow>
     (\<forall>r \<in> set rules. \<forall>q \<in> set rules. rule_field r = rule_field q \<longrightarrow> r = q)"

lemma check_rules_Inr:
  assumes "\<And>f. seen (field_as_str f) = map_option (\<lambda>r. (rule_operator r, rule_value r)) (owner f)"
    and "\<And>f r. owner f = Some r \<Longrightarrow> rule_field r = f"
  shows "check_rules seen rs = Inr () \<longleftrightarrow>
    rules_agree rs \<and> (\<forall>r \<in> set rs. \<forall>q. owner (rule_field r) = Some q \<longrightarrow> r = q)"
  using assms
proof (induction rs arbitrary: seen owner)
  case (Cons r rs)
  let ?seen = "seen(field_as_str (rule_field r) \<mapsto> (rule_operator r, rule_value r))"
  let ?owner = "owner(rule_field r \<mapsto> r)"
  have IH: "check_rules ?seen rs = Inr () \<longleftrightarrow>
      rules_agree rs \<and> (\<forall>p \<in> set rs. \<forall>q. ?owner (rule_field p) = Some q \<longrightarrow> p = q)"
    by (rule Cons.IH) (auto simp: Cons.prems split: if_splits)
  show ?case
  proof (cases "owner (rule_field r)")
    case None
    have step: "check_rules seen (r # rs) = check_rules ?seen rs"
      using None by (simp add: Cons.prems(1) Let_def)
    show ?thesis unfolding step IH using None
      by (auto simp: rules_agree_def split: if_splits)
  next
    case (Some q)
    then have f: "rule_field q = rule_field r" using Cons.prems(2) by blast
    have eq: "r = q \<longleftrightarrow> rule_operator q = rule_operator r \<and> rule_value q = rule_value r"
      using f by auto
    have step: "check_rules seen (r # rs) = (if r = q then check_rules ?seen rs else Inl UnreachableWorkflowStep)"
      unfolding eq using Some by (auto simp: Cons.prems(1) Let_def)
    show ?thesis
    proof (cases "r = q")
      case True
      show ?thesis unfolding step if_P [OF True] IH using Some True
        by (auto simp: rules_agree_def split: if_splits)
    next
      case False
      then show ?thesis unfolding step using Some by auto
    qed
  qed
qed (simp add: rules_agree_def)

lemma check_rules_result: "check_rules seen rs = Inr () \<or> check_rules seen rs = Inl UnreachableWorkflowStep"
  by (induction rs arbitrary: seen) (auto simp: Let_def split: option.split)

text \<open>A workflow step is accepted exactly when it is in range and its rules agree.\<close>

lemma try_new_step_eq:
  "try_new_step sid name icon color order archived rules =
     (if valid_step_id sid \<and> \<not> blank name \<and> chars_count (trim name) \<le> 48 \<and> \<not> blank icon
         \<and> chars_count (trim icon) \<le> 64 \<and> color \<le> 0xFFFFFF \<and> order \<noteq> 0 \<and> rules \<noteq> [] \<and> length rules \<le> 8
      then if rules_agree rules
           then Inr \<lparr>step_id = sid, step_display_name = trim name, step_icon = trim icon, step_color_rgb = color,
                     step_sort_order = order, step_archived = archived, step_rules = rules\<rparr>
           else Inl UnreachableWorkflowStep
      else Inl InvalidWorkflowStep)"
proof -
  have "check_rules Map.empty rules = (if rules_agree rules then Inr () else Inl UnreachableWorkflowStep)"
    using check_rules_Inr [of Map.empty "\<lambda>_. None" rules] check_rules_result [of Map.empty rules] by auto
  then show ?thesis by (auto simp: try_new_step_def Let_def not_le not_less)
qed

text \<open>A field has one rule at most, so the rules can be met one field at a time.\<close>

lemma rules_agree_satisfiable:
  assumes "rules_agree rules"
  shows "\<exists>current truth. \<forall>r \<in> set rules. rule_holds current truth r"
proof -
  define rule_of where "rule_of f = find (\<lambda>r. rule_field r = f) rules" for f
  have own: "rule_of (rule_field r) = Some r" if r: "r \<in> set rules" for r
  proof -
    obtain q where "rule_of (rule_field r) = Some q" "q \<in> set rules" "rule_field q = rule_field r"
      using find_exists [OF r, of "\<lambda>q. rule_field q = rule_field r"]
      by (auto simp: rule_of_def dest: find_SomeD)
    then show ?thesis using assms r by (auto simp: rules_agree_def)
  qed
  define current where "current = (case rule_of PreparationStatus of
      None \<Rightarrow> [] | Some r \<Rightarrow> if rule_operator r = Is then rule_value r else CHR ''x'' # rule_value r)"
  define truth where "truth f = (case rule_of f of
      None \<Rightarrow> True | Some r \<Rightarrow> (rule_value r = ''true'') = (rule_operator r = Is))" for f
  have "rule_holds current truth r" if "r \<in> set rules" for r
    using own [OF that] by (cases "rule_operator r"; cases "rule_field r = PreparationStatus")
      (auto simp: rule_holds_def current_def truth_def)
  then show ?thesis by blast
qed

text \<open>
  Every accepted workflow step can be reached: some track meets all its rules together. The
  check is stricter than that: two different \<open>IsNot\<close> rules on the preparation status are refused
  as unreachable, although a track in a third step meets both.
\<close>

theorem accepted_step_is_reachable:
  "(try_new_step sid name icon color order archived rules = Inr step \<longrightarrow>
      (\<exists>current truth. \<forall>r \<in> set (step_rules step). rule_holds current truth r))
   \<and> (try_new_rule PreparationStatus IsNot a = Inr r \<and> try_new_rule PreparationStatus IsNot b = Inr q
        \<and> a \<noteq> b \<and> try_new_step sid name icon color order archived [r] = Inr step \<longrightarrow>
      try_new_step sid name icon color order archived [r, q] = Inl UnreachableWorkflowStep
      \<and> (\<exists>current truth. rule_holds current truth r \<and> rule_holds current truth q))"
proof (intro conjI impI)
  assume "try_new_step sid name icon color order archived rules = Inr step"
  then have "rules_agree (step_rules step)" by (auto simp: try_new_step_eq split: if_splits)
  then show "\<exists>current truth. \<forall>r \<in> set (step_rules step). rule_holds current truth r"
    by (rule rules_agree_satisfiable)
next
  assume asm: "try_new_rule PreparationStatus IsNot a = Inr r \<and> try_new_rule PreparationStatus IsNot b = Inr q
    \<and> a \<noteq> b \<and> try_new_step sid name icon color order archived [r] = Inr step"
  then have r: "r = \<lparr>rule_field = PreparationStatus, rule_operator = IsNot, rule_value = a\<rparr>"
    and q: "q = \<lparr>rule_field = PreparationStatus, rule_operator = IsNot, rule_value = b\<rparr>"
    by (auto simp: try_new_rule_def split: if_splits)
  then show "try_new_step sid name icon color order archived [r, q] = Inl UnreachableWorkflowStep"
    using asm by (auto simp: try_new_step_eq rules_agree_def split: if_splits)
  have "length a < length (CHR ''x'' # a @ b)" "length b < length (CHR ''x'' # a @ b)" by simp_all
  then have "rule_holds (CHR ''x'' # a @ b) (\<lambda>_. True) r \<and> rule_holds (CHR ''x'' # a @ b) (\<lambda>_. True) q"
    unfolding r q rule_holds_def by (auto simp: Let_def)
  then show "\<exists>current truth. rule_holds current truth r \<and> rule_holds current truth q" by blast
qed

definition sample_rule :: "string \<Rightarrow> WorkflowRule" where
  "sample_rule v = \<lparr>rule_field = PreparationStatus, rule_operator = IsNot, rule_value = v\<rparr>"

lemma sample_names: "trim ''a'' = ''a''" "trim ''b'' = ''b''" "chars_count ''a'' = 1" "chars_count ''b'' = 1"
    "\<not> blank ''a''" "\<not> blank ''b''"
  by code_simp+

theorem accepted_step_is_reachable_witness:
  "try_new_step ''a'' ''a'' ''b'' 7 1 False [sample_rule ''a'', sample_rule ''b''] = Inl UnreachableWorkflowStep
   \<and> (\<exists>current truth. rule_holds current truth (sample_rule ''a'') \<and> rule_holds current truth (sample_rule ''b''))
   \<and> (\<exists>current truth. rule_holds current truth (sample_rule ''a''))"
proof -
  have v: "valid_step_id ''a''" "valid_step_id ''b''" by code_simp+
  have r: "try_new_rule PreparationStatus IsNot ''a'' = Inr (sample_rule ''a'')"
    "try_new_rule PreparationStatus IsNot ''b'' = Inr (sample_rule ''b'')"
    using v by (simp_all add: try_new_rule_def sample_rule_def)
  obtain step where s: "try_new_step ''a'' ''a'' ''b'' 7 1 False [sample_rule ''a''] = Inr step"
      "step_rules step = [sample_rule ''a'']"
    using v by (simp add: try_new_step_eq sample_names rules_agree_def)
  show ?thesis
    using accepted_step_is_reachable [of "''a''" "''a''" "''b''" 7 1 False "[sample_rule ''a'']" step
        "''a''" "sample_rule ''a''" "''b''" "sample_rule ''b''"] r s by simp
qed

end
