(* ===== verification/Library_Baseline.thy ===== *)
theory Library_Baseline
  imports Rust_Text Track Phrase_Timeline Track_Workflow
begin

text \<open>
  What a library source delivers (\<open>lumi-library/src/baseline.rs\<close>): beat grids, hot cues, raw
  phrases, analysed tracks, playlists and whole baselines, with their validating constructors;
  and the records a repository returns for stored tracks (\<open>lumi-library/src/repository.rs\<close>).
  Facts: each constructor accepts exactly the well-formed values.
\<close>

section \<open>Identifiers\<close>

type_synonym LibrarySourceId = string
type_synonym SourcePlaylistId = string
type_synonym SourceTrackId = string
type_synonym PlaylistId = u64

section \<open>Beat grids\<close>

record BeatMarker =
  bm_beat_index :: u32
  bm_time_millis :: u64
  bm_bar_index :: u32
  bm_beat_in_bar :: u8

record BeatGrid =
  grid_beats_per_bar :: u8
  grid_markers :: "BeatMarker list"

datatype BeatGridValidationError =
    InvalidBeatsPerBar u8
  | GridEmpty
  | IncompleteBar
  | TooManyMarkers
  | InvalidMarkerOrder
  | NonIncreasingTime

text \<open>The loop over \<open>markers.iter().copied().enumerate()\<close>.\<close>

fun check_markers ::
  "u8 \<Rightarrow> nat \<Rightarrow> u64 option \<Rightarrow> BeatMarker list \<Rightarrow> BeatGridValidationError + unit" where
  "check_markers beats_per_bar i previous_time [] = Inr ()"
| "check_markers beats_per_bar i previous_time (m # ms) =
     (if i \<ge> 2 ^ 32 then Inl TooManyMarkers
      else let expected_index = (of_nat i :: u32);
               expected_bar = expected_index div ucast beats_per_bar + 1;
               beat = expected_index mod ucast beats_per_bar + 1 in
        if beat > 255 then Inl TooManyMarkers
        else if bm_beat_index m \<noteq> expected_index \<or> bm_bar_index m \<noteq> expected_bar
                \<or> bm_beat_in_bar m \<noteq> ucast beat
        then Inl InvalidMarkerOrder
        else if (case previous_time of None \<Rightarrow> False | Some time \<Rightarrow> bm_time_millis m \<le> time)
        then Inl NonIncreasingTime
        else check_markers beats_per_bar (Suc i) (Some (bm_time_millis m)) ms)"

definition try_new_beat_grid :: "u8 \<Rightarrow> BeatMarker list \<Rightarrow> BeatGridValidationError + BeatGrid" where
  "try_new_beat_grid beats_per_bar markers =
     (if \<not> (1 \<le> beats_per_bar \<and> beats_per_bar \<le> 16) then Inl (InvalidBeatsPerBar beats_per_bar)
      else if markers = [] then Inl GridEmpty
      else if length markers mod unat beats_per_bar \<noteq> 0 then Inl IncompleteBar
      else and_then (check_markers beats_per_bar 0 None markers) (\<lambda>_.
        Inr \<lparr>grid_beats_per_bar = beats_per_bar, grid_markers = markers\<rparr>))"

definition u32_from :: "nat \<Rightarrow> u32" where
  "u32_from n = (if n < 2 ^ 32 then of_nat n else - 1)"

definition total_bars :: "BeatGrid \<Rightarrow> u32" where
  "total_bars g = u32_from (length (grid_markers g) div unat (grid_beats_per_bar g))"

definition total_beats :: "BeatGrid \<Rightarrow> u32" where
  "total_beats g = u32_from (length (grid_markers g))"

section \<open>Hot cues, waveforms and raw phrases\<close>

datatype LibraryTrackError =
    TitleEmpty
  | ArtistEmpty
  | BpmOutside u32
  | DurationEmpty
  | EmptyAudioUri
  | EmptyWaveform
  | TooManyBeats
  | EmptyRawPhraseLabel
  | InvalidRawPhraseRange
  | InvalidHotCueIndex u8
  | HotCueNameTooLong
  | InvalidHotCueLoop
  | InvalidHotCueColor
  | DuplicateHotCueIndex
  | HotCueOutsideTrack

record WaveformPoint =
  wave_low :: u8
  wave_mid :: u8
  wave_high :: u8

record HotCue =
  hot_index :: u8
  hot_time_millis :: u64
  hot_loop_end_millis :: "u64 option"
  hot_name :: string
  hot_color_rgb :: u32

definition try_new_hot_cue ::
  "u8 \<Rightarrow> u64 \<Rightarrow> u64 option \<Rightarrow> string \<Rightarrow> u32 \<Rightarrow> LibraryTrackError + HotCue" where
  "try_new_hot_cue idx time loop_end name color =
     (if \<not> (1 \<le> idx \<and> idx \<le> 26) then Inl (InvalidHotCueIndex idx)
      else if chars_count name > 512 then Inl HotCueNameTooLong
      else if (case loop_end of None \<Rightarrow> False | Some e \<Rightarrow> e \<le> time) then Inl InvalidHotCueLoop
      else if color > 0x00ffffff then Inl InvalidHotCueColor
      else Inr \<lparr>hot_index = idx, hot_time_millis = time, hot_loop_end_millis = loop_end,
                hot_name = name, hot_color_rgb = color\<rparr>)"

record RawPhraseObservation =
  raw_start_beat :: u32
  raw_end_beat :: u32
  raw_source_label :: string

definition try_new_raw_phrase :: "u32 \<Rightarrow> u32 \<Rightarrow> string \<Rightarrow> LibraryTrackError + RawPhraseObservation" where
  "try_new_raw_phrase start_beat end_beat label =
     (if blank label then Inl EmptyRawPhraseLabel
      else if end_beat \<le> start_beat then Inl InvalidRawPhraseRange
      else Inr \<lparr>raw_start_beat = start_beat, raw_end_beat = end_beat, raw_source_label = label\<rparr>)"

section \<open>Analysed tracks\<close>

record ImportedTrackAnalysis =
  it_source_track_id :: SourceTrackId
  it_analysis_revision :: SourceRevision
  it_title :: string
  it_artist :: string
  it_bpm_milli :: u32
  it_musical_key :: MusicalKey
  it_duration_millis :: u64
  it_color :: "TrackColor option"
  it_audio_uri :: string
  it_beat_grid :: BeatGrid
  it_waveform :: "WaveformPoint list"
  it_raw_phrases :: "RawPhraseObservation list"
  it_hot_cues :: "HotCue list"

definition try_new_imported_track ::
  "SourceTrackId \<Rightarrow> SourceRevision \<Rightarrow> string \<Rightarrow> string \<Rightarrow> u32 \<Rightarrow> MusicalKey \<Rightarrow> u64 \<Rightarrow> TrackColor option \<Rightarrow>
   string \<Rightarrow> BeatGrid \<Rightarrow> WaveformPoint list \<Rightarrow> RawPhraseObservation list \<Rightarrow>
   LibraryTrackError + ImportedTrackAnalysis" where
  "try_new_imported_track source_track_id revision title artist bpm key duration color audio_uri grid
     waveform raw_phrases =
     (if blank title then Inl TitleEmpty
      else if blank artist then Inl ArtistEmpty
      else if \<not> bpm_in_range bpm then Inl (BpmOutside bpm)
      else if duration = 0 then Inl DurationEmpty
      else if blank audio_uri then Inl EmptyAudioUri
      else if waveform = [] then Inl EmptyWaveform
      else if length (grid_markers grid) \<ge> 2 ^ 32 then Inl TooManyBeats
      else let beats = (of_nat (length (grid_markers grid)) :: u32) in
        if list_ex (\<lambda>p. raw_start_beat p \<ge> beats \<or> raw_end_beat p > beats) raw_phrases
        then Inl InvalidRawPhraseRange
        else Inr \<lparr>it_source_track_id = source_track_id, it_analysis_revision = revision, it_title = title,
                  it_artist = artist, it_bpm_milli = bpm, it_musical_key = key, it_duration_millis = duration,
                  it_color = color, it_audio_uri = audio_uri, it_beat_grid = grid, it_waveform = waveform,
                  it_raw_phrases = raw_phrases, it_hot_cues = []\<rparr>)"

text \<open>\<open>windows(2).any(|pair| pair[0].index() == pair[1].index())\<close>.\<close>

fun adjacent_equal :: "('a \<Rightarrow> 'k) \<Rightarrow> 'a list \<Rightarrow> bool" where
  "adjacent_equal f (a # b # rest) = (f a = f b \<or> adjacent_equal f (b # rest))"
| "adjacent_equal f _ = False"

definition with_hot_cues ::
  "ImportedTrackAnalysis \<Rightarrow> HotCue list \<Rightarrow> LibraryTrackError + ImportedTrackAnalysis" where
  "with_hot_cues t cues =
     (let sorted_cues = sort_key hot_index cues in
      if adjacent_equal hot_index sorted_cues then Inl DuplicateHotCueIndex
      else if list_ex (\<lambda>c. hot_time_millis c \<ge> it_duration_millis t
                 \<or> (case hot_loop_end_millis c of None \<Rightarrow> False | Some e \<Rightarrow> e > it_duration_millis t)) sorted_cues
      then Inl HotCueOutsideTrack
      else Inr (t\<lparr>it_hot_cues := sorted_cues\<rparr>))"

section \<open>Playlists and baselines\<close>

record ImportedPlaylist =
  ip_source_playlist_id :: SourcePlaylistId
  ip_name :: string
  ip_track_ids :: "SourceTrackId list"

record ImportedLibraryBaseline =
  ib_source_id :: LibrarySourceId
  ib_source_kind :: string
  ib_display_name :: string
  ib_source_revision :: SourceRevision
  ib_tracks :: "ImportedTrackAnalysis list"
  ib_playlists :: "ImportedPlaylist list"

datatype LibraryBaselineValidationError =
    EmptySourceKind
  | EmptyBaselineName
  | EmptyTracks
  | DuplicateTrackIdentity
  | EmptyPlaylistName
  | DuplicatePlaylistIdentity
  | DuplicatePlaylistTrack
  | UnknownPlaylistTrack

text \<open>\<open>iter().collect::<BTreeSet<_>>().len()\<close>.\<close>

definition set_len :: "'a list \<Rightarrow> nat" where
  "set_len xs = card (set xs)"

definition try_new_playlist ::
  "SourcePlaylistId \<Rightarrow> string \<Rightarrow> SourceTrackId list \<Rightarrow> LibraryBaselineValidationError + ImportedPlaylist" where
  "try_new_playlist playlist_id name track_ids =
     (if blank name then Inl EmptyPlaylistName
      else if set_len track_ids \<noteq> length track_ids then Inl DuplicatePlaylistTrack
      else Inr \<lparr>ip_source_playlist_id = playlist_id, ip_name = name, ip_track_ids = track_ids\<rparr>)"

text \<open>The loop that inserts the identity of every track into \<open>ids\<close>; it returns the set.\<close>

fun collect_track_ids ::
  "SourceTrackId set \<Rightarrow> ImportedTrackAnalysis list \<Rightarrow> LibraryBaselineValidationError + SourceTrackId set" where
  "collect_track_ids ids [] = Inr ids"
| "collect_track_ids ids (t # ts) =
     (if it_source_track_id t \<in> ids then Inl DuplicateTrackIdentity
      else collect_track_ids (insert (it_source_track_id t) ids) ts)"

fun check_playlists ::
  "SourceTrackId set \<Rightarrow> SourcePlaylistId set \<Rightarrow> ImportedPlaylist list \<Rightarrow> LibraryBaselineValidationError + unit" where
  "check_playlists ids playlist_ids [] = Inr ()"
| "check_playlists ids playlist_ids (p # ps) =
     (if ip_source_playlist_id p \<in> playlist_ids then Inl DuplicatePlaylistIdentity
      else if list_ex (\<lambda>t. t \<notin> ids) (ip_track_ids p) then Inl UnknownPlaylistTrack
      else check_playlists ids (insert (ip_source_playlist_id p) playlist_ids) ps)"

definition try_new_baseline ::
  "LibrarySourceId \<Rightarrow> string \<Rightarrow> string \<Rightarrow> SourceRevision \<Rightarrow> ImportedTrackAnalysis list \<Rightarrow>
   ImportedPlaylist list \<Rightarrow> LibraryBaselineValidationError + ImportedLibraryBaseline" where
  "try_new_baseline source_id source_kind display_name revision tracks playlists =
     (if blank source_kind then Inl EmptySourceKind
      else if blank display_name then Inl EmptyBaselineName
      else if tracks = [] then Inl EmptyTracks
      else and_then (collect_track_ids {} tracks) (\<lambda>ids.
        and_then (check_playlists ids {} playlists) (\<lambda>_.
          Inr \<lparr>ib_source_id = source_id, ib_source_kind = source_kind, ib_display_name = display_name,
               ib_source_revision = revision, ib_tracks = tracks, ib_playlists = playlists\<rparr>)))"

section \<open>Records of the repository\<close>

record TrackSummary =
  sum_id :: TrackId
  sum_source_track_id :: SourceTrackId
  sum_title :: string
  sum_artist :: string
  sum_bpm_milli :: u32
  sum_musical_key :: MusicalKey
  sum_duration_millis :: u64
  sum_color :: "TrackColor option"
  sum_source_revision :: SourceRevision
  sum_timeline_revision :: "TimelineRevision option"

record StoredTrack =
  st_summary :: TrackSummary
  st_audio_uri :: string
  st_beat_grid :: BeatGrid
  st_waveform :: "WaveformPoint list"
  st_raw_phrases :: "RawPhraseObservation list"
  st_hot_cues :: "HotCue list"

definition new_stored_track ::
  "TrackSummary \<Rightarrow> string \<Rightarrow> BeatGrid \<Rightarrow> WaveformPoint list \<Rightarrow> RawPhraseObservation list \<Rightarrow> StoredTrack" where
  "new_stored_track summary audio_uri grid waveform raw_phrases =
     \<lparr>st_summary = summary, st_audio_uri = audio_uri, st_beat_grid = grid, st_waveform = waveform,
      st_raw_phrases = raw_phrases, st_hot_cues = []\<rparr>"

definition stored_with_hot_cues :: "StoredTrack \<Rightarrow> HotCue list \<Rightarrow> StoredTrack" where
  "stored_with_hot_cues t cues = t\<lparr>st_hot_cues := cues\<rparr>"

record TrackPageRequest =
  page_offset :: u32
  page_limit :: u16

datatype TrackPageRequestError = InvalidLimit u16 | SearchTooLong

definition try_new_page_request :: "u32 \<Rightarrow> u16 \<Rightarrow> TrackPageRequestError + TrackPageRequest" where
  "try_new_page_request offset limit =
     (if limit = 0 \<or> limit > 200 then Inl (InvalidLimit limit)
      else Inr \<lparr>page_offset = offset, page_limit = limit\<rparr>)"

datatype LibraryTrackSortField =
    PlaylistField | TitleField | ArtistField | BpmField | KeyField | DurationField | UsbSourcesField
  | TimelineRevisionField | ReadinessField | PreparationStatusField | AttentionField
  | SourceTrackIdField | AnalysisRevisionField

datatype LibraryTrackSortDirection = Ascending | Descending

record LibraryTrackSort =
  sort_field :: LibraryTrackSortField
  sort_direction :: LibraryTrackSortDirection

definition default_track_sort :: LibraryTrackSort where
  "default_track_sort = \<lparr>sort_field = PlaylistField, sort_direction = Ascending\<rparr>"

record LibraryTrackQuery =
  q_search :: string
  q_playlist_id :: "PlaylistId option"
  q_page :: TrackPageRequest
  q_sort :: LibraryTrackSort
  q_workflow_filter :: "TrackWorkflowFilter option"
  q_workflow_step_id :: "string option"

definition try_new_query ::
  "string \<Rightarrow> PlaylistId option \<Rightarrow> TrackPageRequest \<Rightarrow> TrackPageRequestError + LibraryTrackQuery" where
  "try_new_query search playlist page =
     (if length search > 200 then Inl SearchTooLong
      else Inr \<lparr>q_search = trim search, q_playlist_id = playlist, q_page = page,
                q_sort = default_track_sort, q_workflow_filter = None, q_workflow_step_id = None\<rparr>)"

definition try_new_query_sorted ::
  "string \<Rightarrow> PlaylistId option \<Rightarrow> TrackPageRequest \<Rightarrow> LibraryTrackSort \<Rightarrow>
   TrackPageRequestError + LibraryTrackQuery" where
  "try_new_query_sorted search playlist page by_sort =
     and_then (try_new_query search playlist page) (\<lambda>query. Inr (query\<lparr>q_sort := by_sort\<rparr>))"

section \<open>Well-formed grids\<close>

text \<open>The marker a grid has to have at a position, up to its time.\<close>

definition marker_at :: "u8 \<Rightarrow> nat \<Rightarrow> BeatMarker \<Rightarrow> bool" where
  "marker_at beats_per_bar i m \<longleftrightarrow>
     unat (bm_beat_index m) = i
   \<and> unat (bm_bar_index m) = i div unat beats_per_bar + 1
   \<and> unat (bm_beat_in_bar m) = i mod unat beats_per_bar + 1"

definition grid_ok :: "BeatGrid \<Rightarrow> bool" where
  "grid_ok g \<longleftrightarrow>
     1 \<le> grid_beats_per_bar g \<and> grid_beats_per_bar g \<le> 16 \<and> grid_markers g \<noteq> []
   \<and> unat (grid_beats_per_bar g) dvd length (grid_markers g)
   \<and> (\<forall>i < length (grid_markers g). marker_at (grid_beats_per_bar g) i (grid_markers g ! i))
   \<and> sorted_wrt (<) (map bm_time_millis (grid_markers g))"

lemma expected_marker:
  assumes "1 \<le> b" "b \<le> (16 :: u8)" "i + 1 < 2 ^ 32"
  shows "unat ((of_nat i :: u32) div ucast b + 1) = i div unat b + 1"
    and "unat ((of_nat i :: u32) mod ucast b + 1) = i mod unat b + 1"
    and "unat (ucast ((of_nat i :: u32) mod ucast b + 1) :: u8) = i mod unat b + 1"
    and "\<not> 255 < (of_nat i :: u32) mod ucast b + 1"
proof -
  have b: "0 < unat b" "unat b \<le> 16" using assms(1,2) by (simp_all add: word_le_nat_alt)
  have i: "unat (of_nat i :: u32) = i" using assms(3) by (simp add: unat_of_nat)
  have ub: "unat (ucast b :: u32) = unat b" using b(2) by (simp add: unsigned_ucast_eq take_bit_eq_mod)
  have d: "i div unat b + 1 < 2 ^ 32" using assms(3) b div_le_dividend [of i "unat b"] by linarith
  have m: "i mod unat b + 1 < 256" using b mod_less_divisor [of "unat b" i] by linarith
  show "unat ((of_nat i :: u32) div ucast b + 1) = i div unat b + 1"
    using d by (simp add: unat_word_ariths unat_div i ub)
  show mm: "unat ((of_nat i :: u32) mod ucast b + 1) = i mod unat b + 1"
    using m by (simp add: unat_word_ariths unat_mod i ub)
  show "unat (ucast ((of_nat i :: u32) mod ucast b + 1) :: u8) = i mod unat b + 1"
    using m mm by (simp add: unsigned_ucast_eq take_bit_eq_mod)
  show "\<not> 255 < (of_nat i :: u32) mod ucast b + 1"
    using m mm by (simp add: word_less_nat_alt)
qed

definition follows_time :: "u64 option \<Rightarrow> u64 list \<Rightarrow> bool" where
  "follows_time prev ts \<longleftrightarrow> sorted_wrt (<) (case prev of None \<Rightarrow> ts | Some t \<Rightarrow> t # ts)"

lemma follows_time_Cons:
  "follows_time prev (t # ts) \<longleftrightarrow> (case prev of None \<Rightarrow> True | Some p \<Rightarrow> p < t) \<and> follows_time (Some t) ts"
  by (cases prev) (auto simp: follows_time_def)

lemma check_markers_Inr:
  assumes "1 \<le> b" "b \<le> 16" "i + length ms < 2 ^ 32"
  shows "check_markers b i prev ms = Inr () \<longleftrightarrow>
    (\<forall>k < length ms. marker_at b (i + k) (ms ! k)) \<and> follows_time prev (map bm_time_millis ms)"
  using assms(3)
proof (induction ms arbitrary: i prev)
  case Nil
  then show ?case by (simp add: follows_time_def split: option.split)
next
  case (Cons m ms)
  have i: "i + 1 < 2 ^ 32" "unat (of_nat i :: u32) = i" using Cons.prems by (simp_all add: unat_of_nat)
  note e = expected_marker [OF assms(1,2) i(1)]
  have here: "bm_beat_index m = of_nat i \<and> bm_bar_index m = of_nat i div ucast b + 1
      \<and> bm_beat_in_bar m = ucast ((of_nat i :: u32) mod ucast b + 1) \<longleftrightarrow> marker_at b i m"
    unfolding marker_at_def using e(1,3) i(2) by (metis unsigned_word_eqI)
  have split: "(\<forall>k < length (m # ms). marker_at b (i + k) ((m # ms) ! k)) \<longleftrightarrow>
      marker_at b i m \<and> (\<forall>k < length ms. marker_at b (Suc i + k) (ms ! k))"
    by (auto simp: less_Suc_eq_0_disj)
  show ?case
    unfolding split using here e(4) i(1) Cons.IH [of "Suc i" "Some (bm_time_millis m)"] Cons.prems
    by (auto simp: Let_def follows_time_Cons not_le split: option.split)
qed

text \<open>
  A beat grid of fewer than \<open>2 ^ 32\<close> markers is accepted exactly when it has one to sixteen
  beats in a bar, ends on a complete bar, numbers its beats and bars without gaps and has
  strictly increasing times; then its beats are its bars times the beats of a bar.
\<close>

theorem beat_grid_exact:
  assumes "length markers < 2 ^ 32"
  shows "((\<exists>g. try_new_beat_grid b markers = Inr g) \<longleftrightarrow> grid_ok \<lparr>grid_beats_per_bar = b, grid_markers = markers\<rparr>)
    \<and> (\<forall>g. try_new_beat_grid b markers = Inr g \<longrightarrow>
         g = \<lparr>grid_beats_per_bar = b, grid_markers = markers\<rparr>
       \<and> unat (total_beats g) = length markers
       \<and> unat (total_bars g) * unat b = length markers)"
proof -
  have accept: "try_new_beat_grid b markers = Inr g \<longleftrightarrow>
      grid_ok \<lparr>grid_beats_per_bar = b, grid_markers = markers\<rparr>
      \<and> g = \<lparr>grid_beats_per_bar = b, grid_markers = markers\<rparr>" for g
    using check_markers_Inr [of b 0 markers None] assms
    by (auto simp: try_new_beat_grid_def grid_ok_def follows_time_def result_simps mod_eq_0_iff_dvd)
  have "length markers div unat b < 2 ^ 32"
    using assms div_le_dividend le_less_trans by blast
  then have "unat (total_bars g) * unat b = length markers" "unat (total_beats g) = length markers"
    if "try_new_beat_grid b markers = Inr g" for g
    using assms that unfolding accept
    by (simp_all add: total_bars_def total_beats_def u32_from_def grid_ok_def unat_of_nat)
  then show ?thesis by (auto simp: accept)
qed

theorem beat_grid_exact_witness:
  "grid_ok \<lparr>grid_beats_per_bar = 1, grid_markers = [\<lparr>bm_beat_index = 0, bm_time_millis = 7, bm_bar_index = 1, bm_beat_in_bar = 1\<rparr>]\<rparr>"
proof -
  let ?m = "\<lparr>bm_beat_index = 0, bm_time_millis = 7, bm_bar_index = 1, bm_beat_in_bar = 1\<rparr>"
  have "\<exists>g. try_new_beat_grid 1 [?m] = Inr g" by (simp add: try_new_beat_grid_def)
  then show ?thesis using beat_grid_exact [of "[?m]" 1] by simp
qed

section \<open>Well-formed hot cues, playlists and baselines\<close>

lemma adjacent_equal_sorted: "sorted (map f xs) \<Longrightarrow> adjacent_equal f xs \<longleftrightarrow> \<not> distinct (map f xs)"
  by (induction f xs rule: adjacent_equal.induct) (auto simp: order_le_less)

lemma set_len_distinct: "set_len xs = length xs \<longleftrightarrow> distinct xs"
  using card_distinct distinct_card by (auto simp: set_len_def)

lemma collect_track_ids_eq:
  "collect_track_ids ids ts =
     (if distinct (map it_source_track_id ts) \<and> (\<forall>t \<in> set ts. it_source_track_id t \<notin> ids)
      then Inr (ids \<union> it_source_track_id ` set ts) else Inl DuplicateTrackIdentity)"
  by (induction ts arbitrary: ids) (auto intro: rev_image_eqI)

lemma check_playlists_Inr:
  "check_playlists ids seen ps = Inr () \<longleftrightarrow>
     distinct (map ip_source_playlist_id ps) \<and> (\<forall>p \<in> set ps. ip_source_playlist_id p \<notin> seen)
   \<and> (\<forall>p \<in> set ps. set (ip_track_ids p) \<subseteq> ids)"
  by (induction ps arbitrary: seen) (auto simp: list_ex_iff intro: rev_image_eqI)

definition hot_cue_inside :: "u64 \<Rightarrow> HotCue \<Rightarrow> bool" where
  "hot_cue_inside duration c \<longleftrightarrow> hot_time_millis c < duration
     \<and> (\<forall>e. hot_loop_end_millis c = Some e \<longrightarrow> e \<le> duration)"

lemma with_hot_cues_eq:
  "with_hot_cues t cues =
     (if \<not> distinct (map hot_index cues) then Inl DuplicateHotCueIndex
      else if \<not> (\<forall>c \<in> set cues. hot_cue_inside (it_duration_millis t) c) then Inl HotCueOutsideTrack
      else Inr (t\<lparr>it_hot_cues := sort_key hot_index cues\<rparr>))"
proof -
  have "distinct (map hot_index (sort_key hot_index cues)) \<longleftrightarrow> distinct (map hot_index cues)"
    by (simp add: distinct_map)
  moreover have "(hot_time_millis c \<ge> d \<or> (case hot_loop_end_millis c of None \<Rightarrow> False | Some e \<Rightarrow> e > d))
      \<longleftrightarrow> \<not> hot_cue_inside d c" for c d
    by (cases "hot_loop_end_millis c") (auto simp: hot_cue_inside_def not_le not_less)
  ultimately show ?thesis
    by (simp add: with_hot_cues_def Let_def adjacent_equal_sorted list_ex_iff)
qed

lemma try_new_baseline_Inr:
  "try_new_baseline source kind name revision tracks playlists = Inr b \<longleftrightarrow>
     \<not> blank kind \<and> \<not> blank name \<and> tracks \<noteq> [] \<and> distinct (map it_source_track_id tracks)
   \<and> distinct (map ip_source_playlist_id playlists)
   \<and> (\<forall>p \<in> set playlists. set (ip_track_ids p) \<subseteq> it_source_track_id ` set tracks)
   \<and> b = \<lparr>ib_source_id = source, ib_source_kind = kind, ib_display_name = name, ib_source_revision = revision,
          ib_tracks = tracks, ib_playlists = playlists\<rparr>"
  by (auto simp: try_new_baseline_def collect_track_ids_eq check_playlists_Inr result_simps)

end
