(* ===== verification/Reconciliation.thy ===== *)
theory Reconciliation
  imports Timeline_Edits Library_Baseline
begin

text \<open>
  Reconciling a timeline with a changed source (\<open>lumi-library/src/reconciliation.rs\<close>): what
  changed between a stored and an incoming analysis, the preview of conflicts, and the four
  strategies. Facts: rebasing never fails on a well-formed timeline with room for its phrases
  and is exact when the preview shows no ambiguity; merging takes each phrase from the chosen
  side; every result is the next revision of a well-formed timeline.
\<close>

section \<open>Differences\<close>

datatype SourceChangeClass = MetadataClass | WaveformClass | BeatGridClass | RawPhrasesClass

record SourceTrackDiff =
  diff_from_revision :: SourceRevision
  diff_to_revision :: SourceRevision
  diff_changes :: "SourceChangeClass set"

definition diff_between :: "StoredTrack \<Rightarrow> ImportedTrackAnalysis \<Rightarrow> SourceTrackDiff" where
  "diff_between current incoming =
     (let summary = st_summary current;
          metadata = (if sum_title summary \<noteq> it_title incoming
              \<or> sum_artist summary \<noteq> it_artist incoming
              \<or> sum_bpm_milli summary \<noteq> it_bpm_milli incoming
              \<or> sum_musical_key summary \<noteq> it_musical_key incoming
              \<or> sum_duration_millis summary \<noteq> it_duration_millis incoming
              \<or> sum_color summary \<noteq> it_color incoming
              \<or> st_audio_uri current \<noteq> it_audio_uri incoming
            then {MetadataClass} else {});
          waveform = (if st_waveform current \<noteq> it_waveform incoming then {WaveformClass} else {});
          grid = (if st_beat_grid current \<noteq> it_beat_grid incoming then {BeatGridClass} else {});
          raw = (if st_raw_phrases current \<noteq> it_raw_phrases incoming then {RawPhrasesClass} else {}) in
      \<lparr>diff_from_revision = sum_source_revision summary, diff_to_revision = it_analysis_revision incoming,
       diff_changes = metadata \<union> waveform \<union> grid \<union> raw\<rparr>)"

definition is_metadata_only :: "SourceTrackDiff \<Rightarrow> bool" where
  "is_metadata_only d \<longleftrightarrow> diff_changes d = {MetadataClass}"

definition requires_timeline_decision :: "SourceTrackDiff \<Rightarrow> bool" where
  "requires_timeline_decision d \<longleftrightarrow> BeatGridClass \<in> diff_changes d \<or> RawPhrasesClass \<in> diff_changes d"

section \<open>Preview\<close>

datatype ReconcileSide = LumiSide | SourceSide

record PhraseConflictChoice =
  choice_phrase_index :: u16
  choice_side :: ReconcileSide

datatype ReconcileStrategy =
    KeepLumi
  | Rebase
  | Merge "PhraseConflictChoice list"
  | ReplaceWithSource

record PhraseConflict =
  conflict_phrase_index :: u16
  conflict_lumi :: "PhraseInstance option"
  conflict_source :: "PhraseInstance option"

record ReconcilePreview =
  preview_conflicts :: "PhraseConflict list"
  preview_rebase_ambiguities :: "u16 list"

definition phrase_conflicts :: "PhraseInstance list \<Rightarrow> PhraseInstance list \<Rightarrow> PhraseConflict list" where
  "phrase_conflicts lumi source =
     List.map_filter (\<lambda>i.
         if get_nth lumi i \<noteq> get_nth source i
         then Some \<lparr>conflict_phrase_index = (if i < 65536 then of_nat i else - 1),
                    conflict_lumi = get_nth lumi i, conflict_source = get_nth source i\<rparr>
         else None)
       [0..<max (length lumi) (length source)]"

text \<open>\<open>u64::from(phrase.end_beat()) * u64::from(source_total_beats)\<close>; the product fits 64 bits.\<close>

definition scaled :: "u32 \<Rightarrow> u32 \<Rightarrow> u64" where
  "scaled end_beat beats = ucast end_beat * ucast beats"

definition preview_between :: "LumiPhraseTimeline \<Rightarrow> PhraseInstance list \<Rightarrow> u32 \<Rightarrow> ReconcilePreview" where
  "preview_between current source_phrases source_total =
     \<lparr>preview_conflicts = phrase_conflicts (tl_phrases current) source_phrases,
      preview_rebase_ambiguities =
        map ph_index
          (filter (\<lambda>p. scaled (ph_end_beat p) source_total mod ucast (tl_total_beats current) \<noteq> 0)
            (take (length (tl_phrases current) - 1) (tl_phrases current)))\<rparr>"

section \<open>Strategies\<close>

text \<open>
  \<open>RebasePanic\<close> stands for the ways in which the arithmetic of the loop would panic: a division
  by zero, an overflowing sum or difference, a \<open>clamp\<close> whose bounds cross.
\<close>

datatype ReconcileError =
    ReconcileRevisionOverflow
  | KeepLumiDurationChanged
  | InsufficientBeats
  | ReconcileArithmeticOverflow
  | ReconcileTooManyPhrases
  | IncompleteConflictChoices
  | MissingMergePhrase
  | NonContiguousMerge
  | InvalidTimeline TimelineValidationError
  | RebasePanic

definition rebase_end :: "u32 \<Rightarrow> u32 \<Rightarrow> u32 \<Rightarrow> u32 \<Rightarrow> u32 \<Rightarrow> ReconcileError + u32" where
  "rebase_end source_total current_total remaining previous end_beat =
     (if current_total = 0 then Inl RebasePanic
      else let denominator = (ucast current_total :: u64);
               rounded = (scaled end_beat source_total + denominator div 2) div denominator in
        if unat rounded \<ge> 2 ^ 32 then Inl ReconcileArithmeticOverflow
        else if previous = - 1 \<or> source_total < remaining \<or> source_total - remaining < previous + 1
        then Inl RebasePanic
        else Inr (clamp (ucast rounded) (previous + 1) (source_total - remaining)))"

fun rebase_loop ::
  "u32 \<Rightarrow> u32 \<Rightarrow> nat \<Rightarrow> nat \<Rightarrow> u32 \<Rightarrow> PhraseInstance list \<Rightarrow> ReconcileError + PhraseInstance list" where
  "rebase_loop source_total current_total count i previous [] = Inr []"
| "rebase_loop source_total current_total count i previous (p # ps) =
     (if count - i - 1 \<ge> 2 ^ 32 then Inl ReconcileTooManyPhrases
      else and_then
        (if i + 1 = count then Inr source_total
         else rebase_end source_total current_total (of_nat (count - i - 1)) previous (ph_end_beat p))
        (\<lambda>end_beat. and_then (rebase_loop source_total current_total count (i + 1) end_beat ps) (\<lambda>rest.
          Inr (with_loop_strategy (new_phrase (ph_index p) previous end_beat (ph_role_id p))
                 (ph_loop_strategy p) # rest))))"

definition rebase_phrases :: "LumiPhraseTimeline \<Rightarrow> u32 \<Rightarrow> ReconcileError + PhraseInstance list" where
  "rebase_phrases current source_total =
     (if source_total = 0 \<or> source_total < of_nat (length (tl_phrases current)) then Inl InsufficientBeats
      else rebase_loop source_total (tl_total_beats current) (length (tl_phrases current)) 0 0 (tl_phrases current))"

fun coverage_loop :: "u32 \<Rightarrow> PhraseInstance list \<Rightarrow> ReconcileError + u32" where
  "coverage_loop previous [] = Inr previous"
| "coverage_loop previous (p # ps) =
     (if ph_start_beat p \<noteq> previous \<or> ph_end_beat p \<le> ph_start_beat p then Inl NonContiguousMerge
      else coverage_loop (ph_end_beat p) ps)"

definition validate_coverage :: "PhraseInstance list \<Rightarrow> u32 \<Rightarrow> ReconcileError + unit" where
  "validate_coverage phrases beats =
     and_then (coverage_loop 0 phrases) (\<lambda>previous.
       if previous \<noteq> beats then Inl NonContiguousMerge else Inr ())"

definition chosen_side :: "PhraseConflictChoice list \<Rightarrow> u16 \<Rightarrow> ReconcileSide" where
  "chosen_side choices idx =
     (case find (\<lambda>c. choice_phrase_index c = idx) choices of None \<Rightarrow> LumiSide | Some c \<Rightarrow> choice_side c)"

definition merge_one ::
  "PhraseInstance list \<Rightarrow> PhraseInstance list \<Rightarrow> PhraseConflictChoice list \<Rightarrow> nat \<Rightarrow>
   ReconcileError + PhraseInstance" where
  "merge_one lumi source choices i =
     (if i \<ge> 65536 then Inl ReconcileTooManyPhrases
      else ok_or (case chosen_side choices (of_nat i) of
                    LumiSide \<Rightarrow> get_nth lumi i | SourceSide \<Rightarrow> get_nth source i) MissingMergePhrase)"

definition merge_phrases ::
  "LumiPhraseTimeline \<Rightarrow> PhraseInstance list \<Rightarrow> PhraseConflictChoice list \<Rightarrow> u32 \<Rightarrow>
   ReconcileError + PhraseInstance list" where
  "merge_phrases current source choices source_total =
     (let expected = set (map conflict_phrase_index
              (preview_conflicts (preview_between current source source_total)));
          selected = set (map choice_phrase_index choices) in
      if card selected \<noteq> length choices \<or> selected \<noteq> expected then Inl IncompleteConflictChoices
      else and_then (try_map (merge_one (tl_phrases current) source choices)
             [0..<max (length (tl_phrases current)) (length source)]) (\<lambda>merged.
        and_then (validate_coverage merged source_total) (\<lambda>_. Inr merged)))"

definition reconcile_reindex :: "PhraseInstance list \<Rightarrow> ReconcileError + PhraseInstance list" where
  "reconcile_reindex phrases =
     try_map (\<lambda>(i, p). if i > 65535 then Inl ReconcileTooManyPhrases
                       else Inr (with_loop_strategy
                              (new_phrase (of_nat i) (ph_start_beat p) (ph_end_beat p) (ph_role_id p))
                              (ph_loop_strategy p)))
       (enumerate 0 phrases)"

definition strategy_phrases ::
  "LumiPhraseTimeline \<Rightarrow> u32 \<Rightarrow> PhraseInstance list \<Rightarrow> ReconcileStrategy \<Rightarrow> ReconcileError + PhraseInstance list" where
  "strategy_phrases current source_total source_phrases strategy =
     (case strategy of
        KeepLumi \<Rightarrow> if tl_total_beats current \<noteq> source_total then Inl KeepLumiDurationChanged
                    else Inr (tl_phrases current)
      | Rebase \<Rightarrow> rebase_phrases current source_total
      | Merge choices \<Rightarrow> merge_phrases current source_phrases choices source_total
      | ReplaceWithSource \<Rightarrow> Inr source_phrases)"

definition reconcile_timeline ::
  "LumiPhraseTimeline \<Rightarrow> SourceRevision \<Rightarrow> u32 \<Rightarrow> PhraseInstance list \<Rightarrow> ReconcileStrategy \<Rightarrow>
   ReconcileError + LumiPhraseTimeline" where
  "reconcile_timeline current baseline source_total source_phrases strategy =
     and_then (ok_or (timeline_revision_checked_next (tl_revision current)) ReconcileRevisionOverflow) (\<lambda>next_revision.
       and_then (strategy_phrases current source_total source_phrases strategy) (\<lambda>phrases.
         and_then (reconcile_reindex phrases) (\<lambda>reindexed.
           map_err InvalidTimeline
             (try_new_with_history (tl_track_id current) next_revision baseline source_total
                TimelineRevisionOrigin.SourceReconcile TimelineRevisionReason.SourceReconcile
                (Some (tl_revision current)) None reindexed))))"

section \<open>The arithmetic of rebasing\<close>

lemma unat_ucast_u32 [simp]: "unat (ucast (w :: u32) :: u64) = unat w"
  using unsigned_less [of w, where ?'a = nat] by (simp add: unsigned_ucast_eq take_bit_eq_mod)

lemma u32_bound: "unat (w :: u32) < 2 ^ 32"
  using unsigned_less [of w, where ?'a = nat] by simp

lemma unat_scaled: "unat (scaled e s) = unat e * unat s"
proof -
  have "unat e * unat s \<le> (2 ^ 32 - 1) * (2 ^ 32 - 1)"
    using u32_bound [of e] u32_bound [of s] by (intro mult_le_mono) linarith+
  then have "unat e * unat s < 2 ^ 64" by simp
  then show ?thesis by (simp add: scaled_def unat_word_ariths)
qed

text \<open>The nearest beat to a scaled boundary, on the naturals.\<close>

definition nearest :: "nat \<Rightarrow> nat \<Rightarrow> nat \<Rightarrow> nat" where
  "nearest e s t = (e * s + t div 2) div t"

lemma nearest_le:
  assumes "e \<le> t" "0 < t"
  shows "nearest e s t \<le> s"
proof -
  have "e * s \<le> t * s" "t div 2 < t" using assms by simp_all
  then have "e * s + t div 2 < t * s + t" by linarith
  then have "e * s + t div 2 < (s + 1) * t" by (simp add: algebra_simps)
  then have "nearest e s t < s + 1" unfolding nearest_def by (rule less_mult_imp_div_less)
  then show ?thesis by simp
qed

lemma nearest_exact: "0 < t \<Longrightarrow> e * s mod t = 0 \<Longrightarrow> nearest e s t = e * s div t"
  by (auto simp: nearest_def mod_eq_0_iff_dvd div_add)

lemma rebase_end_eq:
  assumes "0 < unat t" "e \<le> t"
    and room: "unat previous + unat remaining + 1 \<le> unat s"
  shows "\<exists>b. rebase_end s t remaining previous e = Inr b
    \<and> unat b = clamp (nearest (unat e) (unat s) (unat t)) (unat previous + 1) (unat s - unat remaining)"
proof -
  have t: "t \<noteq> 0" using assms(1) by auto
  let ?num = "scaled e s + ucast t div 2"
  have "unat e * unat s + unat t div 2 < 2 ^ 64"
  proof -
    have "unat e * unat s \<le> (2 ^ 32 - 1) * (2 ^ 32 - 1)"
      using u32_bound [of e] u32_bound [of s] by (intro mult_le_mono) linarith+
    then show ?thesis using u32_bound [of t] by simp
  qed
  then have num: "unat (scaled e s + (ucast t :: u64) div 2) = unat e * unat s + unat t div 2"
    by (simp add: unat_word_ariths unat_scaled unat_div)
  then have rounded: "unat ((scaled e s + (ucast t :: u64) div 2) div ucast t)
      = nearest (unat e) (unat s) (unat t)"
    by (simp add: unat_div nearest_def)
  have small: "nearest (unat e) (unat s) (unat t) < 2 ^ 32"
    using nearest_le [of "unat e" "unat t" "unat s"] assms(1,2) u32_bound [of s]
    by (simp add: word_le_nat_alt)
  have p1: "unat (previous + 1) = unat previous + 1"
    using room u32_bound [of s] by (simp add: unat_word_ariths)
  have sr: "unat (s - remaining) = unat s - unat remaining" "\<not> s < remaining"
    using room by (simp_all add: unat_sub word_le_nat_alt word_less_nat_alt)
  have "previous \<noteq> - 1"
  proof
    assume "previous = - 1"
    then have "unat previous = 2 ^ 32 - 1" by (simp add: unsigned_minus_1_eq_mask mask_eq_exp_minus_1)
    then show False using room u32_bound [of s] by simp
  qed
  moreover have "\<not> s - remaining < previous + 1"
    using room by (simp add: word_less_nat_alt p1 sr)
  moreover have "unat (ucast ((scaled e s + (ucast t :: u64) div 2) div ucast t) :: u32)
      = nearest (unat e) (unat s) (unat t)"
    using small rounded by (simp add: unsigned_ucast_eq take_bit_eq_mod)
  ultimately show ?thesis
    using t small rounded sr(2)
    by (auto simp: rebase_end_def Let_def clamp_def word_less_nat_alt p1 sr(1))
qed

section \<open>Rebasing\<close>

text \<open>
  The boundary a phrase gets: the nearest beat to its scaled end, moved as little as needed to
  leave every phrase at least one beat. \<open>k\<close> phrases follow.
\<close>

definition rebased_boundary :: "u32 \<Rightarrow> u32 \<Rightarrow> nat \<Rightarrow> PhraseInstance \<Rightarrow> PhraseInstance \<Rightarrow> bool" where
  "rebased_boundary s t k p q \<longleftrightarrow>
     unat (ph_end_beat q)
       = clamp (nearest (unat (ph_end_beat p)) (unat s) (unat t)) (unat (ph_start_beat q) + 1) (unat s - k)"

fun rebased_chain :: "u32 \<Rightarrow> u32 \<Rightarrow> PhraseInstance list \<Rightarrow> PhraseInstance list \<Rightarrow> bool" where
  "rebased_chain s t [] out \<longleftrightarrow> out = []"
| "rebased_chain s t (p # ps) out \<longleftrightarrow>
     (\<exists>q qs. out = q # qs \<and> phrase_value q = phrase_value p
        \<and> (ps = [] \<or> rebased_boundary s t (length ps) p q) \<and> rebased_chain s t ps qs)"

lemma rebase_loop_ok:
  assumes "i + length ps = count" "count \<le> 65536" "0 < unat t"
    and "\<forall>p \<in> set ps. ph_end_beat p \<le> t" "unat previous + length ps \<le> unat s"
  shows "\<exists>out. rebase_loop s t count i previous ps = Inr out \<and> divides previous out
    \<and> (ps \<noteq> [] \<longrightarrow> ends_at previous out = s) \<and> rebased_chain s t ps out"
  using assms
proof (induction ps arbitrary: i previous)
  case (Cons p ps)
  have rem: "count - i - 1 = length ps" "\<not> count - i - 1 \<ge> 2 ^ 32" using Cons.prems by auto
  have rem_unat: "unat (of_nat (length ps) :: u32) = length ps"
    using Cons.prems(1,2) by (simp add: unat_of_nat)
  let ?q = "\<lambda>e. with_loop_strategy (new_phrase (ph_index p) previous e (ph_role_id p)) (ph_loop_strategy p)"
  have fields [simp]: "ph_start_beat (?q e) = previous" "ph_end_beat (?q e) = e"
      "phrase_value (?q e) = phrase_value p" for e
    by (simp_all add: with_loop_strategy_def new_phrase_def phrase_value_def)
  show ?case
  proof (cases "ps = []")
    case True
    have "previous < s" using Cons.prems(5) True by (simp add: word_less_nat_alt)
    then show ?thesis using Cons.prems(1) True rem by simp
  next
    case False
    obtain b where b: "rebase_end s t (of_nat (length ps)) previous (ph_end_beat p) = Inr b"
      and ub: "unat b = clamp (nearest (unat (ph_end_beat p)) (unat s) (unat t)) (unat previous + 1)
        (unat s - length ps)"
      using rebase_end_eq [of t "ph_end_beat p" previous "of_nat (length ps)" s] Cons.prems rem_unat by auto
    have range: "unat previous + 1 \<le> unat b" "unat b \<le> unat s - length ps"
      using clamp_bounds [of "unat previous + 1" "unat s - length ps"
          "nearest (unat (ph_end_beat p)) (unat s) (unat t)"]
        ub Cons.prems(5) by auto
    have "\<exists>out. rebase_loop s t count (i + 1) b ps = Inr out \<and> divides b out
        \<and> (ps \<noteq> [] \<longrightarrow> ends_at b out = s) \<and> rebased_chain s t ps out"
      using Cons.prems range by (intro Cons.IH) auto
    then obtain out where out: "rebase_loop s t count (i + 1) b ps = Inr out" "divides b out"
        "ends_at b out = s" "rebased_chain s t ps out"
      using False by blast
    have "previous < b" using range by (simp add: word_less_nat_alt)
    moreover have "i + 1 \<noteq> count" using Cons.prems(1) False by (cases ps) auto
    ultimately show ?thesis
      using out b rem ub by (auto simp: rebased_boundary_def)
  qed
qed simp

text \<open>Without ambiguity every boundary scales to a whole beat, and the phrases have room.\<close>

definition exact_at :: "nat \<Rightarrow> nat \<Rightarrow> nat \<Rightarrow> bool" where
  "exact_at s t e \<longleftrightarrow> e * s mod t = 0"

lemma exact_less:
  assumes "0 < t" "0 < s" "exact_at s t a" "exact_at s t b" "a < b"
  shows "a * s div t < b * s div t"
proof -
  have "a * s div t * t = a * s" "b * s div t * t = b * s"
    using assms(3,4) by (auto simp: exact_at_def mod_eq_0_iff_dvd)
  then have "a * s div t * t < b * s div t * t" using assms(2,5) by simp
  then show ?thesis by simp
qed

lemma exact_room:
  assumes "0 < unat t" "0 < unat s" "divides b ps" "ends_at b ps = t"
    and "exact_at (unat s) (unat t) (unat b)"
    and "\<forall>p \<in> set (butlast ps). exact_at (unat s) (unat t) (unat (ph_end_beat p))"
  shows "unat b * unat s div unat t + length ps \<le> unat s"
  using assms(3-)
proof (induction ps arbitrary: b)
  case Nil
  then show ?case using assms(1) by simp
next
  case (Cons p ps)
  have e: "exact_at (unat s) (unat t) (unat (ph_end_beat p))"
    using Cons.prems by (cases "ps = []") (auto simp: exact_at_def)
  have "unat (ph_end_beat p) * unat s div unat t + length ps \<le> unat s"
    using Cons.prems e by (intro Cons.IH) (auto split: if_splits)
  moreover have "unat b * unat s div unat t < unat (ph_end_beat p) * unat s div unat t"
    using Cons.prems e assms(1,2) by (intro exact_less) (auto simp: word_less_nat_alt)
  ultimately show ?case by simp
qed

lemma rebased_chain_exact:
  assumes "0 < unat t" "0 < unat s" "divides b ps" "ends_at b ps = t"
    and "exact_at (unat s) (unat t) (unat b)"
    and "\<forall>p \<in> set (butlast ps). exact_at (unat s) (unat t) (unat (ph_end_beat p))"
    and "rebased_chain s t ps out" "divides c out" "ends_at c out = s"
    and "unat c = unat b * unat s div unat t"
  shows "map (\<lambda>q. unat (ph_end_beat q)) out = map (\<lambda>p. unat (ph_end_beat p) * unat s div unat t) ps"
  using assms(3-)
proof (induction ps arbitrary: b c out)
  case (Cons p ps)
  then obtain q qs where out: "out = q # qs" and chain: "rebased_chain s t ps qs"
    and bd: "ps = [] \<or> rebased_boundary s t (length ps) p q" by auto
  let ?e = "unat (ph_end_beat p)" and ?s = "unat s" and ?t = "unat t"
  have e: "exact_at ?s ?t ?e"
    using Cons.prems by (cases "ps = []") (auto simp: exact_at_def)
  have q: "unat (ph_end_beat q) = ?e * ?s div ?t"
  proof (cases "ps = []")
    case True
    then have "qs = []" using chain by simp
    then show ?thesis using Cons.prems True out assms(1) by simp
  next
    case False
    have start: "unat (ph_start_beat q) = unat b * ?s div ?t" using Cons.prems out by simp
    have "unat b * ?s div ?t < ?e * ?s div ?t"
      using Cons.prems e assms(1,2) by (intro exact_less) (auto simp: word_less_nat_alt)
    moreover have "?e * ?s div ?t + length ps \<le> ?s"
      using Cons.prems e assms(1,2) by (intro exact_room) (auto split: if_splits)
    ultimately show ?thesis
      using bd False e assms(1) start
      by (simp add: rebased_boundary_def nearest_exact exact_at_def clamp_inside)
  qed
  have "map (\<lambda>q. unat (ph_end_beat q)) qs = map (\<lambda>p. unat (ph_end_beat p) * ?s div ?t) ps"
  proof (cases "ps = []")
    case True
    then show ?thesis using chain by simp
  next
    case False
    show ?thesis
      using Cons.prems False e chain out q by (intro Cons.IH [of "ph_end_beat p" qs "ph_end_beat q"]) auto
  qed
  then show ?case using out q by simp
qed simp

section \<open>Results of reconciliation\<close>

lemma reconcile_reindex_eq:
  "reconcile_reindex ps = (if length ps \<le> 65536 then Inr (renumber ps) else Inl ReconcileTooManyPhrases)"
proof -
  have "reconcile_reindex ps = map_err (\<lambda>_. ReconcileTooManyPhrases) (reindex ps)"
    unfolding reconcile_reindex_def reindex_def try_map_map_err [symmetric]
    by (intro arg_cong2 [of _ _ _ _ try_map] ext)
       (auto simp: respan_def new_phrase_def with_loop_strategy_def)
  then show ?thesis by (simp add: reindex_eq)
qed

lemma rebased_chain_cong:
  "map ph_start_beat qs = map ph_start_beat rs \<Longrightarrow> map ph_end_beat qs = map ph_end_beat rs \<Longrightarrow>
   map phrase_value qs = map phrase_value rs \<Longrightarrow> rebased_chain s t ps qs = rebased_chain s t ps rs"
proof (induction ps arbitrary: qs rs)
  case (Cons p ps)
  show ?case
  proof (cases qs)
    case Nil
    then show ?thesis using Cons.prems by simp
  next
    case (Cons q qs')
    then obtain r rs' where rs: "rs = r # rs'" using Cons.prems by (cases rs) auto
    have "rebased_chain s t ps qs' = rebased_chain s t ps rs'"
      using Cons.prems unfolding Cons rs by (intro Cons.IH) simp_all
    then show ?thesis using Cons.prems unfolding Cons rs by (simp add: rebased_boundary_def)
  qed
qed (auto dest: map_eq_imp_length_eq)

lemma rebased_chain_values: "rebased_chain s t ps qs \<Longrightarrow> map phrase_value qs = map phrase_value ps"
  by (induction ps arbitrary: qs) auto

lemma coverage_loop_Inr: "coverage_loop b ps = Inr e \<longleftrightarrow> divides b ps \<and> ends_at b ps = e"
  by (induction ps arbitrary: b) (auto simp: not_le)

lemma validate_coverage_Inr: "validate_coverage ps d = Inr () \<longleftrightarrow> divides 0 ps \<and> ends_at 0 ps = d"
  by (auto simp: validate_coverage_def result_simps coverage_loop_Inr)

lemma reconcile_Inr:
  "reconcile_timeline current baseline s source strategy = Inr u \<longleftrightarrow>
     (\<exists>n phrases. timeline_revision_checked_next (tl_revision current) = Some n
        \<and> strategy_phrases current s source strategy = Inr phrases \<and> length phrases \<le> 65536
        \<and> u = \<lparr>tl_track_id = tl_track_id current, tl_revision = n, tl_baseline_revision = baseline,
               tl_total_beats = s, tl_origin = TimelineRevisionOrigin.SourceReconcile,
               tl_reason = TimelineRevisionReason.SourceReconcile,
               tl_parent_revision = Some (tl_revision current), tl_restored_from = None,
               tl_phrases = renumber phrases\<rparr>
        \<and> timeline_ok u)"
  by (auto simp: reconcile_timeline_def result_simps reconcile_reindex_eq try_new_with_history_ok
      split: if_splits)

lemma timeline_length: "timeline_ok t \<Longrightarrow> length (tl_phrases t) \<le> 65536"
proof (rule ccontr)
  assume "timeline_ok t" "\<not> length (tl_phrases t) \<le> 65536"
  then have "unat (ph_index (tl_phrases t ! 65536)) = 65536" by (simp add: timeline_ok_def indexed_def)
  then show False using unsigned_less [of "ph_index (tl_phrases t ! 65536)", where ?'a = nat] by simp
qed

lemma strategies_ok_values:
  "map phrase_value qs = map phrase_value ps \<Longrightarrow> \<forall>p \<in> set ps. strategy_ok (ph_loop_strategy p) \<Longrightarrow>
   \<forall>q \<in> set qs. strategy_ok (ph_loop_strategy q)"
proof
  fix q
  assume m: "map phrase_value qs = map phrase_value ps" and ok: "\<forall>p \<in> set ps. strategy_ok (ph_loop_strategy p)"
    and "q \<in> set qs"
  then have "phrase_value q \<in> phrase_value ` set ps" by (metis imageI list.set_map)
  with ok show "strategy_ok (ph_loop_strategy q)" by (auto simp: phrase_value_def)
qed

text \<open>Rebasing a well-formed timeline that fits the new duration.\<close>

lemma rebase_phrases_ok:
  assumes t: "timeline_ok current" and fits: "length (tl_phrases current) \<le> unat s"
  shows "\<exists>raw. rebase_phrases current s = Inr raw \<and> divides 0 raw \<and> ends_at 0 raw = s
    \<and> rebased_chain s (tl_total_beats current) (tl_phrases current) raw"
proof -
  let ?ps = "tl_phrases current"
  have ne: "?ps \<noteq> []" and len: "length ?ps \<le> 65536" using t timeline_length by (auto simp: timeline_ok_def)
  have "unat (of_nat (length ?ps) :: u32) = length ?ps" using len by (simp add: unat_of_nat)
  then have enough: "s \<noteq> 0" "\<not> s < of_nat (length ?ps)"
    using fits ne by (auto simp: word_less_nat_alt)
  have pos: "0 < unat (tl_total_beats current)"
    using timeline_parts.part_duration_pos [OF t] by (simp add: word_less_nat_alt)
  have "\<forall>p \<in> set ?ps. ph_end_beat p \<le> tl_total_beats current"
    using timeline_parts.part_item_bounds [OF t] by blast
  then obtain raw where "rebase_loop s (tl_total_beats current) (length ?ps) 0 0 ?ps = Inr raw"
      "divides 0 raw" "ends_at 0 raw = s" "rebased_chain s (tl_total_beats current) ?ps raw"
    using rebase_loop_ok [of 0 ?ps "length ?ps" "tl_total_beats current" 0 s] len pos fits ne by auto
  with enough show ?thesis by (auto simp: rebase_phrases_def)
qed

lemma no_ambiguity_exact:
  assumes "preview_rebase_ambiguities (preview_between current source s) = []"
  shows "\<forall>p \<in> set (butlast (tl_phrases current)).
    exact_at (unat s) (unat (tl_total_beats current)) (unat (ph_end_beat p))"
proof -
  have "\<forall>p \<in> set (butlast (tl_phrases current)).
      scaled (ph_end_beat p) s mod ucast (tl_total_beats current) = 0"
    using assms by (simp add: preview_between_def butlast_conv_take filter_empty_conv)
  then show ?thesis
    by (auto simp: exact_at_def unat_scaled unat_mod dest!: arg_cong [of _ 0 unat])
qed

lemma timeline_exact_ends:
  assumes t: "timeline_ok current"
    and ex: "\<forall>p \<in> set (butlast (tl_phrases current)).
      exact_at s (unat (tl_total_beats current)) (unat (ph_end_beat p))"
    and p: "p \<in> set (tl_phrases current)"
  shows "exact_at s (unat (tl_total_beats current)) (unat (ph_end_beat p))"
proof -
  let ?ps = "tl_phrases current"
  have ps: "?ps = butlast ?ps @ [last ?ps]" using p by (cases ?ps rule: rev_cases) auto
  show ?thesis
  proof (cases "p \<in> set (butlast ?ps)")
    case False
    then have "p = last ?ps" using p ps by (metis Un_iff empty_iff insert_iff list.set set_append)
    moreover have "ends_at 0 ?ps = ph_end_beat (last ?ps)" using p by (auto intro: tiles_end_last)
    ultimately have "ph_end_beat p = tl_total_beats current" using t by (simp add: timeline_ok_def)
    then show ?thesis by (simp add: exact_at_def)
  qed (use ex in blast)
qed

lemma rebase_exact_ends:
  assumes t: "timeline_ok current" and fits: "length (tl_phrases current) \<le> unat s"
    and none: "preview_rebase_ambiguities (preview_between current source s) = []"
    and raw: "rebased_chain s (tl_total_beats current) (tl_phrases current) raw" "divides 0 raw" "ends_at 0 raw = s"
  shows "map (\<lambda>q. unat (ph_end_beat q) * unat (tl_total_beats current)) raw
    = map (\<lambda>p. unat (ph_end_beat p) * unat s) (tl_phrases current)"
proof -
  let ?ps = "tl_phrases current" and ?t = "tl_total_beats current"
  have ex: "\<forall>p \<in> set (butlast ?ps). exact_at (unat s) (unat ?t) (unat (ph_end_beat p))"
    using none by (rule no_ambiguity_exact)
  have ps: "0 < length ?ps" "divides 0 ?ps" "ends_at 0 ?ps = ?t" using t by (auto simp: timeline_ok_def)
  have pos: "0 < unat ?t" "0 < unat s"
    using timeline_parts.part_duration_pos [OF t] less_le_trans [OF ps(1) fits] by (simp_all add: word_less_nat_alt)
  have ends: "map (\<lambda>q. unat (ph_end_beat q)) raw = map (\<lambda>p. unat (ph_end_beat p) * unat s div unat ?t) ?ps"
    using rebased_chain_exact [OF pos ps(2,3) _ ex raw] by (simp add: exact_at_def)
  have "map (\<lambda>q. unat (ph_end_beat q) * unat ?t) raw
      = map (\<lambda>x. x * unat ?t) (map (\<lambda>q. unat (ph_end_beat q)) raw)" by simp
  also have "\<dots> = map (\<lambda>p. unat (ph_end_beat p) * unat s) ?ps"
    unfolding ends using timeline_exact_ends [OF t ex] by (auto simp: exact_at_def mod_eq_0_iff_dvd)
  finally show ?thesis .
qed

lemma map_ends_renumber: "map (\<lambda>q. f (ph_end_beat q)) (renumber raw) = map (\<lambda>q. f (ph_end_beat q)) raw"
proof -
  have "map f (map ph_end_beat (renumber raw)) = map f (map ph_end_beat raw)" unfolding renumber_map ..
  then show ?thesis by (simp add: comp_def)
qed

section \<open>Properties\<close>

text \<open>
  C38. Rebasing a well-formed timeline whose revision can still grow succeeds exactly when the
  source has a beat for every phrase, and is refused as too short otherwise; no panic and no
  overflow of its arithmetic can occur. The result is a well-formed next revision over the beats
  of the source with the same roles and loop strategies in order; each boundary is the beat
  nearest to its scaled place, moved only to leave every phrase a beat; and when the preview
  shows no ambiguity every boundary is scaled exactly.
\<close>

theorem rebase_correct:
  assumes t: "timeline_ok current" and n: "timeline_revision_checked_next (tl_revision current) = Some n"
  shows "if length (tl_phrases current) \<le> unat s
    then \<exists>u. reconcile_timeline current baseline s source Rebase = Inr u \<and> timeline_ok u
      \<and> tl_revision u = n \<and> tl_parent_revision u = Some (tl_revision current) \<and> tl_total_beats u = s
      \<and> tl_track_id u = tl_track_id current \<and> tl_baseline_revision u = baseline
      \<and> map phrase_value (tl_phrases u) = map phrase_value (tl_phrases current)
      \<and> rebased_chain s (tl_total_beats current) (tl_phrases current) (tl_phrases u)
      \<and> (preview_rebase_ambiguities (preview_between current source s) = [] \<longrightarrow>
           map (\<lambda>q. unat (ph_end_beat q) * unat (tl_total_beats current)) (tl_phrases u)
             = map (\<lambda>p. unat (ph_end_beat p) * unat s) (tl_phrases current))
    else reconcile_timeline current baseline s source Rebase = Inl InsufficientBeats"
proof (cases "length (tl_phrases current) \<le> unat s")
  case True
  let ?ps = "tl_phrases current" and ?t = "tl_total_beats current"
  obtain raw where raw: "rebase_phrases current s = Inr raw" "divides 0 raw" "ends_at 0 raw = s"
      "rebased_chain s ?t ?ps raw"
    using rebase_phrases_ok [OF t True] by blast
  have vals: "map phrase_value raw = map phrase_value ?ps" using raw(4) by (rule rebased_chain_values)
  then have lens: "length raw = length ?ps" by (rule map_eq_imp_length_eq)
  let ?u = "\<lparr>tl_track_id = tl_track_id current, tl_revision = n, tl_baseline_revision = baseline,
      tl_total_beats = s, tl_origin = TimelineRevisionOrigin.SourceReconcile,
      tl_reason = TimelineRevisionReason.SourceReconcile,
      tl_parent_revision = Some (tl_revision current), tl_restored_from = None, tl_phrases = renumber raw\<rparr>"
  have new_vals: "map phrase_value (renumber raw) = map phrase_value ?ps" unfolding renumber_map by (rule vals)
  have "\<forall>p \<in> set ?ps. strategy_ok (ph_loop_strategy p)" using t by (simp add: timeline_ok_def)
  with new_vals have "\<forall>q \<in> set (renumber raw). strategy_ok (ph_loop_strategy q)"
    by (rule strategies_ok_values)
  then have ok: "timeline_ok ?u"
    using t raw lens timeline_length [OF t] timeline_next_revision [OF n] renumber_indexed [of raw]
    by (auto simp: timeline_ok_def renumber_painting)
  have u: "reconcile_timeline current baseline s source Rebase = Inr ?u"
    unfolding reconcile_Inr using n raw lens timeline_length [OF t] ok by (simp add: strategy_phrases_def)
  have exact: "map (\<lambda>q. unat (ph_end_beat q) * unat ?t) (renumber raw) = map (\<lambda>p. unat (ph_end_beat p) * unat s) ?ps"
    if "preview_rebase_ambiguities (preview_between current source s) = []"
    using rebase_exact_ends [OF t True that raw(4,2,3)] map_ends_renumber [where raw = raw and f = "\<lambda>e. unat e * unat ?t"] by simp
  show ?thesis
    using True u ok new_vals exact raw(4) rebased_chain_cong [of "renumber raw" raw s ?t ?ps, OF renumber_map]
    by simp
next
  case False
  have len: "length (tl_phrases current) \<le> 65536" using t by (rule timeline_length)
  then have "s < of_nat (length (tl_phrases current))"
    using False by (simp add: word_less_nat_alt unat_of_nat)
  then show ?thesis using False n
    by (simp add: reconcile_timeline_def strategy_phrases_def rebase_phrases_def)
qed

section \<open>Merging\<close>

lemma conflict_indices:
  assumes "max (length lumi) (length source) \<le> 65536" "i < 65536"
  shows "(of_nat i :: u16) \<in> conflict_phrase_index ` set (phrase_conflicts lumi source) \<longleftrightarrow>
    get_nth lumi i \<noteq> get_nth source i"
proof -
  have set: "conflict_phrase_index ` set (phrase_conflicts lumi source)
      = of_nat ` {j. j < max (length lumi) (length source) \<and> get_nth lumi j \<noteq> get_nth source j}"
    using assms(1) by (force simp: phrase_conflicts_def map_filter_def image_iff)
  have inj: "(of_nat i :: u16) = of_nat j \<longleftrightarrow> i = j" if "j < 65536" for j
    using unat_of_nat_u16 [OF assms(2)] unat_of_nat_u16 [OF that] by metis
  have "i < max (length lumi) (length source)" if "get_nth lumi i \<noteq> get_nth source i"
    using that by (auto simp: get_nth_def split: if_splits)
  then have "(\<exists>j. j < max (length lumi) (length source) \<and> get_nth lumi j \<noteq> get_nth source j
      \<and> (of_nat i :: u16) = of_nat j) \<longleftrightarrow> get_nth lumi i \<noteq> get_nth source i"
  proof (intro iffI)
    assume "\<exists>j. j < max (length lumi) (length source) \<and> get_nth lumi j \<noteq> get_nth source j
      \<and> (of_nat i :: u16) = of_nat j"
    then obtain j where "j < max (length lumi) (length source)" "get_nth lumi j \<noteq> get_nth source j"
        "(of_nat i :: u16) = of_nat j" by blast
    then show "get_nth lumi i \<noteq> get_nth source i" using inj [of j] assms(1) by simp
  qed blast
  then show ?thesis unfolding set by (auto simp: image_iff)
qed

lemma merge_phrases_Inr:
  "merge_phrases current source choices s = Inr merged \<longleftrightarrow>
     distinct (map choice_phrase_index choices)
   \<and> choice_phrase_index ` set choices = conflict_phrase_index ` set (phrase_conflicts (tl_phrases current) source)
   \<and> list_all2 (\<lambda>i p. merge_one (tl_phrases current) source choices i = Inr p)
       [0..<max (length (tl_phrases current)) (length source)] merged
   \<and> divides 0 merged \<and> ends_at 0 merged = s"
proof -
  have "card (choice_phrase_index ` set choices) = length choices \<longleftrightarrow> distinct (map choice_phrase_index choices)"
    using set_len_distinct [of "map choice_phrase_index choices"] by (simp add: set_len_def)
  then show ?thesis
    by (auto simp: merge_phrases_def Let_def preview_between_def result_simps validate_coverage_Inr
        split: if_splits)
qed

lemma merge_one_Inr:
  "merge_one lumi source choices i = Inr p \<longleftrightarrow> i < 65536
     \<and> get_nth (case chosen_side choices (of_nat i) of LumiSide \<Rightarrow> lumi | SourceSide \<Rightarrow> source) i = Some p"
  by (auto simp: merge_one_def ok_or_eq split: ReconcileSide.split)

lemma renumber_nth_index: "i < length ps \<Longrightarrow> renumber ps ! i = (ps ! i)\<lparr>ph_index := of_nat i\<rparr>"
  by (cases "ps ! i") (simp add: renumber_nth respan_def with_loop_strategy_def new_phrase_def)

text \<open>
  An accepted merge gives a well-formed timeline over the beats of the source in which the
  phrase at each place is the one of the chosen side, and a place has a choice exactly when the
  two sides differ there; places without a choice keep the phrase both sides share.
\<close>

theorem merge_takes_choices:
  assumes "reconcile_timeline current baseline s source (Merge choices) = Inr u"
  shows "timeline_ok u \<and> tl_total_beats u = s
    \<and> length (tl_phrases u) = max (length (tl_phrases current)) (length source)
    \<and> (\<forall>i < length (tl_phrases u).
         ((\<exists>!c. c \<in> set choices \<and> choice_phrase_index c = of_nat i)
            \<longleftrightarrow> get_nth (tl_phrases current) i \<noteq> get_nth source i)
       \<and> (\<exists>p. get_nth (case chosen_side choices (of_nat i) of
                          LumiSide \<Rightarrow> tl_phrases current | SourceSide \<Rightarrow> source) i = Some p
            \<and> tl_phrases u ! i = p\<lparr>ph_index := of_nat i\<rparr>))"
proof -
  let ?n = "max (length (tl_phrases current)) (length source)"
  obtain merged where m: "merge_phrases current source choices s = Inr merged"
    and u: "timeline_ok u" "tl_total_beats u = s" "tl_phrases u = renumber merged"
    and len: "length merged \<le> 65536"
    using assms unfolding reconcile_Inr by (auto simp: strategy_phrases_def)
  note m' = m [unfolded merge_phrases_Inr]
  have n: "length merged = ?n" using m' by (auto dest: list_all2_lengthD)
  have pick: "merge_one (tl_phrases current) source choices i = Inr (merged ! i)" if "i < ?n" for i
    using m' that by (auto simp: list_all2_conv_all_nth)
  have one: "(\<exists>!c. c \<in> set choices \<and> choice_phrase_index c = of_nat i)
      \<longleftrightarrow> get_nth (tl_phrases current) i \<noteq> get_nth source i" if "i < ?n" for i
  proof -
    have "of_nat i \<in> choice_phrase_index ` set choices \<longleftrightarrow> get_nth (tl_phrases current) i \<noteq> get_nth source i"
      using m' conflict_indices [of "tl_phrases current" source i] n len that by auto
    moreover have "inj_on choice_phrase_index (set choices)" using m' by (simp add: distinct_map)
    ultimately show ?thesis unfolding inj_on_def image_iff by metis
  qed
  have "\<exists>p. get_nth (case chosen_side choices (of_nat i) of LumiSide \<Rightarrow> tl_phrases current | SourceSide \<Rightarrow> source) i
      = Some p \<and> renumber merged ! i = p\<lparr>ph_index := of_nat i\<rparr>" if "i < ?n" for i
    using pick [OF that] that n by (auto simp: merge_one_Inr renumber_nth_index)
  with u n one show ?thesis by simp
qed

section \<open>A concrete reconciliation\<close>

definition demo_source :: "PhraseInstance list" where
  "demo_source = [new_phrase 0 0 40 ''intro'', new_phrase 1 40 64 ''drop'']"

definition demo_choices :: "PhraseConflictChoice list" where
  "demo_choices = [\<lparr>choice_phrase_index = 0, choice_side = SourceSide\<rparr>,
     \<lparr>choice_phrase_index = 1, choice_side = SourceSide\<rparr>]"

lemma demo_next_revision: "timeline_revision_checked_next (tl_revision demo_timeline) = Some 2"
  by (simp add: demo_timeline_def timeline_revision_checked_next_def checked_add_def)

theorem rebase_correct_witness:
  "timeline_ok demo_timeline
   \<and> (\<exists>u. reconcile_timeline demo_timeline ''source-2'' 100 [] Rebase = Inr u \<and> tl_revision u = 2
        \<and> map (\<lambda>q. unat (ph_end_beat q) * 64) (tl_phrases u) = [32 * 100, 64 * 100])
   \<and> reconcile_timeline demo_timeline ''source-2'' 1 [] Rebase = Inl InsufficientBeats"
proof -
  have none: "preview_rebase_ambiguities (preview_between demo_timeline [] 100) = []"
    by (simp add: preview_between_def demo_timeline_def new_phrase_def scaled_def)
  have ps: "length (tl_phrases demo_timeline) = 2"
      "map (\<lambda>p. unat (ph_end_beat p) * unat (100 :: u32)) (tl_phrases demo_timeline) = [32 * 100, 64 * 100]"
      "unat (tl_total_beats demo_timeline) = 64"
    by (simp_all add: demo_timeline_def new_phrase_def)
  show ?thesis
    using rebase_correct [OF demo_timeline_ok demo_next_revision, of 100 "''source-2''" "[]"]
      rebase_correct [OF demo_timeline_ok demo_next_revision, of 1 "''source-2''" "[]"]
      demo_timeline_ok none ps by auto
qed

lemma demo_merge_accepted:
  "\<exists>u. reconcile_timeline demo_timeline ''source-2'' 64 demo_source (Merge demo_choices) = Inr u"
  by (simp add: reconcile_timeline_def timeline_revision_checked_next_def checked_add_def strategy_phrases_def merge_phrases_def
      preview_between_def phrase_conflicts_def map_filter_def merge_one_def chosen_side_def get_nth_def
      validate_coverage_def reconcile_reindex_def try_new_with_history_def demo_source_def demo_choices_def
      demo_timeline_def new_phrase_def with_loop_strategy_def two_not_le_one upt_rec Let_def)

theorem merge_takes_choices_witness:
  "\<exists>u. reconcile_timeline demo_timeline ''source-2'' 64 demo_source (Merge demo_choices) = Inr u
     \<and> timeline_ok u \<and> length (tl_phrases u) = 2"
proof -
  obtain u where u: "reconcile_timeline demo_timeline ''source-2'' 64 demo_source (Merge demo_choices) = Inr u"
    using demo_merge_accepted by blast
  from merge_takes_choices [OF u] u show ?thesis
    by (auto simp: demo_timeline_def demo_source_def)
qed

end
