(* ===== verification/Phrase_Roles.thy ===== *)
theory Phrase_Roles
  imports Catalogue_Base "HOL-Library.Multiset"
begin

text \<open>
  The catalogue of phrase roles (\<open>lumi-library/src/phrase_roles.rs\<close>): roles in an order without
  gaps, and the mapping of the labels of a source to roles. The parameter \<open>lower\<close> of the
  definitions is \<open>str::to_lowercase\<close>, whose Unicode tables are not part of the sources. Facts: every edit
  keeps the catalogue well formed and never removes a role; the mappings are a finite map and
  \<open>upsert_mapping\<close> updates it; moving a role and moving it back changes nothing.
\<close>

section \<open>Data\<close>

record PhraseRole =
  role_id :: PhraseRoleId
  role_display_name :: string
  role_sort_order :: u16
  role_archived :: bool
  role_color_rgb :: u32

record SourcePhraseMapping =
  map_provider_kind :: string
  map_raw_label :: string
  map_role_id :: PhraseRoleId

record PhraseRoleCatalog =
  rc_revision :: u64
  rc_defaults_version :: u16
  rc_roles :: "PhraseRole list"
  rc_mappings :: "SourcePhraseMapping list"

datatype PhraseRoleMove = Earlier | Later

datatype PhraseRoleCatalogError =
    InvalidRevision
  | EmptyCatalog
  | EmptyDisplayName
  | DisplayNameTooLong
  | DuplicateDisplayName
  | DuplicateRoleId
  | InvalidSortOrder
  | InvalidColor
  | NoActiveRoles
  | UnknownRole
  | EmptyProviderKind
  | ProviderKindTooLong
  | EmptyRawLabel
  | RawLabelTooLong
  | DuplicateMapping
  | RoleNoChange
  | TooManyRoles
  | IdentifierOverflow
  | RoleArithmeticOverflow

section \<open>Roles and mappings\<close>

definition validated_display_name :: "string \<Rightarrow> PhraseRoleCatalogError + string" where
  "validated_display_name v =
     (let trimmed = trim v in
      if trimmed = [] then Inl EmptyDisplayName
      else if length trimmed > 80 then Inl DisplayNameTooLong
      else Inr trimmed)"

definition default_phrase_role_color_rgb :: "string \<Rightarrow> u32" where
  "default_phrase_role_color_rgb rid =
     (if rid \<in> {''intro-outro'', ''intro'', ''outro''} then 0x408CF2
      else if rid = ''bridge'' then 0x5E6BC7
      else if rid \<in> {''breakdown-1'', ''breakdown-2'', ''breakdown-3'', ''breakdown''} then 0x7A47D4
      else if rid = ''synth'' then 0xD13DB8
      else if rid = ''pre-drop'' then 0xF27433
      else if rid \<in> {''buildup-1'', ''buildup-2'', ''buildup-3'', ''build''} then 0xF5A81F
      else if rid = ''drop'' then 0xEB3342
      else 0x33AD99)"

definition try_new_role_with_color ::
  "PhraseRoleId \<Rightarrow> string \<Rightarrow> u16 \<Rightarrow> bool \<Rightarrow> u32 \<Rightarrow> PhraseRoleCatalogError + PhraseRole" where
  "try_new_role_with_color rid name sort_order archived color =
     and_then (validated_display_name name) (\<lambda>display_name.
       if sort_order = 0 then Inl InvalidSortOrder
       else if color > 0xFFFFFF then Inl InvalidColor
       else Inr \<lparr>role_id = rid, role_display_name = display_name, role_sort_order = sort_order,
                 role_archived = archived, role_color_rgb = color\<rparr>)"

definition try_new_role ::
  "PhraseRoleId \<Rightarrow> string \<Rightarrow> u16 \<Rightarrow> bool \<Rightarrow> PhraseRoleCatalogError + PhraseRole" where
  "try_new_role rid name sort_order archived =
     try_new_role_with_color rid name sort_order archived (default_phrase_role_color_rgb rid)"

definition with_display_name :: "PhraseRole \<Rightarrow> string \<Rightarrow> PhraseRoleCatalogError + PhraseRole" where
  "with_display_name r name =
     try_new_role_with_color (role_id r) name (role_sort_order r) (role_archived r) (role_color_rgb r)"

definition with_sort_order :: "PhraseRole \<Rightarrow> u16 \<Rightarrow> PhraseRoleCatalogError + PhraseRole" where
  "with_sort_order r order =
     try_new_role_with_color (role_id r) (role_display_name r) order (role_archived r) (role_color_rgb r)"

definition with_archived :: "PhraseRole \<Rightarrow> bool \<Rightarrow> PhraseRoleCatalogError + PhraseRole" where
  "with_archived r archived =
     try_new_role_with_color (role_id r) (role_display_name r) (role_sort_order r) archived (role_color_rgb r)"

definition with_color_rgb :: "PhraseRole \<Rightarrow> u32 \<Rightarrow> PhraseRoleCatalogError + PhraseRole" where
  "with_color_rgb r color =
     try_new_role_with_color (role_id r) (role_display_name r) (role_sort_order r) (role_archived r) color"

definition normalize_source_label :: "string \<Rightarrow> string" where
  "normalize_source_label v = to_ascii_lowercase (join '' '' (split_whitespace v))"

definition try_new_mapping ::
  "string \<Rightarrow> string \<Rightarrow> PhraseRoleId \<Rightarrow> PhraseRoleCatalogError + SourcePhraseMapping" where
  "try_new_mapping provider_kind raw_label rid =
     (let provider = trim provider_kind; label = trim raw_label in
      if provider = [] then Inl EmptyProviderKind
      else if length provider > 64 then Inl ProviderKindTooLong
      else if label = [] then Inl EmptyRawLabel
      else if length label > 100 then Inl RawLabelTooLong
      else Inr \<lparr>map_provider_kind = provider, map_raw_label = label, map_role_id = rid\<rparr>)"

definition normalized_label :: "SourcePhraseMapping \<Rightarrow> string" where
  "normalized_label m = normalize_source_label (map_raw_label m)"

section \<open>The catalogue\<close>

text \<open>The loop over \<open>roles.iter().enumerate()\<close>; it returns the set \<open>role_ids\<close>.\<close>

fun check_roles ::
  "(string \<Rightarrow> string) \<Rightarrow> string set \<Rightarrow> string set \<Rightarrow> nat \<Rightarrow> PhraseRole list \<Rightarrow>
   PhraseRoleCatalogError + string set" where
  "check_roles lower ids names i [] = Inr ids"
| "check_roles lower ids names i (r # rs) =
     (if role_id r \<in> ids then Inl DuplicateRoleId
      else if lower (role_display_name r) \<in> names then Inl DuplicateDisplayName
      else if unat (role_sort_order r) \<noteq> i + 1 then Inl InvalidSortOrder
      else check_roles lower (insert (role_id r) ids) (insert (lower (role_display_name r)) names) (i + 1) rs)"

definition mapping_key :: "SourcePhraseMapping \<Rightarrow> string \<times> string" where
  "mapping_key m = (to_ascii_lowercase (map_provider_kind m), normalized_label m)"

fun check_mappings ::
  "string set \<Rightarrow> (string \<times> string) set \<Rightarrow> SourcePhraseMapping list \<Rightarrow> PhraseRoleCatalogError + unit" where
  "check_mappings ids keys [] = Inr ()"
| "check_mappings ids keys (m # ms) =
     (if map_role_id m \<notin> ids then Inl UnknownRole
      else if mapping_key m \<in> keys then Inl DuplicateMapping
      else check_mappings ids (insert (mapping_key m) keys) ms)"

definition try_new_role_catalog ::
  "(string \<Rightarrow> string) \<Rightarrow> u64 \<Rightarrow> u16 \<Rightarrow> PhraseRole list \<Rightarrow> SourcePhraseMapping list \<Rightarrow>
   PhraseRoleCatalogError + PhraseRoleCatalog" where
  "try_new_role_catalog lower revision defaults_version roles mappings =
     (if revision = 0 \<and> (defaults_version \<noteq> 0 \<or> mappings \<noteq> []) then Inl InvalidRevision
      else if revision > 0 \<and> roles = [] then Inl EmptyCatalog
      else and_then (check_roles lower {} {} 0 roles) (\<lambda>ids.
        if roles \<noteq> [] \<and> list_all role_archived roles then Inl NoActiveRoles
        else and_then (check_mappings ids {} mappings) (\<lambda>_.
          Inr \<lparr>rc_revision = revision, rc_defaults_version = defaults_version, rc_roles = roles,
               rc_mappings = mappings\<rparr>)))"

definition roles_revised ::
  "(string \<Rightarrow> string) \<Rightarrow> PhraseRoleCatalog \<Rightarrow> PhraseRole list \<Rightarrow> SourcePhraseMapping list \<Rightarrow>
   PhraseRoleCatalogError + PhraseRoleCatalog" where
  "roles_revised lower c roles mappings =
     and_then (ok_or (checked_add (rc_revision c) 1) RoleArithmeticOverflow) (\<lambda>revision.
       try_new_role_catalog lower revision (rc_defaults_version c) roles mappings)"

definition role_index :: "PhraseRoleCatalog \<Rightarrow> PhraseRoleId \<Rightarrow> PhraseRoleCatalogError + nat" where
  "role_index c rid = ok_or (position (\<lambda>r. role_id r = rid) (rc_roles c)) UnknownRole"

definition ensure_unique_name ::
  "PhraseRoleCatalog \<Rightarrow> string \<Rightarrow> PhraseRoleId option \<Rightarrow> PhraseRoleCatalogError + unit" where
  "ensure_unique_name c name except =
     (if list_ex (\<lambda>r. Some (role_id r) \<noteq> except \<and> eq_ignore_ascii_case (role_display_name r) name) (rc_roles c)
      then Inl DuplicateDisplayName else Inr ())"

section \<open>Edits\<close>

fun fresh_role_error :: "FreshIdError \<Rightarrow> PhraseRoleCatalogError" where
  "fresh_role_error IdentifierRefused = IdentifierOverflow"
| "fresh_role_error SuffixOverflow = RoleArithmeticOverflow"

definition add_role ::
  "(string \<Rightarrow> string) \<Rightarrow> PhraseRoleCatalog \<Rightarrow> string \<Rightarrow> PhraseRoleCatalogError + PhraseRoleCatalog" where
  "add_role lower c name =
     and_then (validated_display_name name) (\<lambda>display_name.
     and_then (ensure_unique_name c display_name None) (\<lambda>_.
     and_then (map_err fresh_role_error (fresh_id ''phrase role id'' ''custom-''
                 (\<lambda>candidate. list_ex (\<lambda>r. role_id r = candidate) (rc_roles c)) 1)) (\<lambda>rid.
       if length (rc_roles c) + 1 \<ge> 2 ^ 16 then Inl TooManyRoles
       else and_then (try_new_role rid display_name (of_nat (length (rc_roles c) + 1)) False) (\<lambda>r.
         roles_revised lower c (rc_roles c @ [r]) (rc_mappings c)))))"

definition rename_role ::
  "(string \<Rightarrow> string) \<Rightarrow> PhraseRoleCatalog \<Rightarrow> PhraseRoleId \<Rightarrow> string \<Rightarrow> PhraseRoleCatalogError + PhraseRoleCatalog" where
  "rename_role lower c rid name =
     and_then (validated_display_name name) (\<lambda>display_name.
     and_then (ensure_unique_name c display_name (Some rid)) (\<lambda>_.
     and_then (role_index c rid) (\<lambda>i.
       if role_display_name (rc_roles c ! i) = display_name then Inl RoleNoChange
       else and_then (with_display_name (rc_roles c ! i) display_name) (\<lambda>r.
         roles_revised lower c ((rc_roles c)[i := r]) (rc_mappings c)))))"

definition swap :: "nat \<Rightarrow> nat \<Rightarrow> 'a list \<Rightarrow> 'a list" where
  "swap i j xs = xs[i := xs ! j, j := xs ! i]"

definition reorder_roles :: "PhraseRole list \<Rightarrow> PhraseRoleCatalogError + PhraseRole list" where
  "reorder_roles roles =
     try_map (\<lambda>(i, r). if i + 1 \<ge> 2 ^ 16 then Inl TooManyRoles else with_sort_order r (of_nat (i + 1)))
       (enumerate 0 roles)"

fun move_target :: "PhraseRoleMove \<Rightarrow> nat \<Rightarrow> nat \<Rightarrow> nat option" where
  "move_target Earlier i n = (if i = 0 then None else Some (i - 1))"
| "move_target Later i n = (if i + 1 < n then Some (i + 1) else None)"

definition move_role ::
  "(string \<Rightarrow> string) \<Rightarrow> PhraseRoleCatalog \<Rightarrow> PhraseRoleId \<Rightarrow> PhraseRoleMove \<Rightarrow>
   PhraseRoleCatalogError + PhraseRoleCatalog" where
  "move_role lower c rid direction =
     and_then (role_index c rid) (\<lambda>i.
     and_then (ok_or (move_target direction i (length (rc_roles c))) RoleNoChange) (\<lambda>other.
     and_then (reorder_roles (swap i other (rc_roles c))) (\<lambda>roles.
       roles_revised lower c roles (rc_mappings c))))"

definition set_archived ::
  "(string \<Rightarrow> string) \<Rightarrow> PhraseRoleCatalog \<Rightarrow> PhraseRoleId \<Rightarrow> bool \<Rightarrow> PhraseRoleCatalogError + PhraseRoleCatalog" where
  "set_archived lower c rid archived =
     and_then (role_index c rid) (\<lambda>i.
       if role_archived (rc_roles c ! i) = archived then Inl RoleNoChange
       else and_then (with_archived (rc_roles c ! i) archived) (\<lambda>r.
         roles_revised lower c ((rc_roles c)[i := r]) (rc_mappings c)))"

definition set_color_rgb ::
  "(string \<Rightarrow> string) \<Rightarrow> PhraseRoleCatalog \<Rightarrow> PhraseRoleId \<Rightarrow> u32 \<Rightarrow> PhraseRoleCatalogError + PhraseRoleCatalog" where
  "set_color_rgb lower c rid color =
     and_then (role_index c rid) (\<lambda>i.
       if role_color_rgb (rc_roles c ! i) = color then Inl RoleNoChange
       else and_then (with_color_rgb (rc_roles c ! i) color) (\<lambda>r.
         roles_revised lower c ((rc_roles c)[i := r]) (rc_mappings c)))"

definition upserted :: "SourcePhraseMapping list \<Rightarrow> SourcePhraseMapping \<Rightarrow> PhraseRoleCatalogError + SourcePhraseMapping list" where
  "upserted mappings m =
     (let provider = to_ascii_lowercase (map_provider_kind m); label = normalized_label m in
      case position (\<lambda>x. eq_ignore_ascii_case (map_provider_kind x) provider \<and> normalized_label x = label) mappings of
        Some i \<Rightarrow> if mappings ! i = m then Inl RoleNoChange else Inr (mappings[i := m])
      | None \<Rightarrow> Inr (sort_key (\<lambda>x. (map_provider_kind x, normalized_label x)) (mappings @ [m])))"

definition upsert_mapping ::
  "(string \<Rightarrow> string) \<Rightarrow> PhraseRoleCatalog \<Rightarrow> SourcePhraseMapping \<Rightarrow> PhraseRoleCatalogError + PhraseRoleCatalog" where
  "upsert_mapping lower c m =
     (if \<not> list_ex (\<lambda>r. role_id r = map_role_id m) (rc_roles c) then Inl UnknownRole
      else and_then (upserted (rc_mappings c) m) (\<lambda>mappings.
        roles_revised lower c (rc_roles c) mappings))"

definition resolve_label :: "PhraseRoleCatalog \<Rightarrow> string \<Rightarrow> string \<Rightarrow> PhraseRoleId option" where
  "resolve_label c provider_kind raw_label =
     (let normalized = normalize_source_label raw_label in
      map_option map_role_id
        (case find (\<lambda>m. eq_ignore_ascii_case (map_provider_kind m) provider_kind \<and> normalized_label m = normalized)
                (rc_mappings c) of
           Some m \<Rightarrow> Some m
         | None \<Rightarrow> find (\<lambda>m. eq_ignore_ascii_case (map_provider_kind m) provider_kind \<and> normalized_label m = ''*'')
                     (rc_mappings c)))"

section \<open>Usage reports\<close>

record PhraseRoleTrackUsage =
  usage_track_id :: TrackId
  usage_title :: string
  usage_track_phrase_count :: u64

record PhraseRoleUsage =
  usage_role_id :: PhraseRoleId
  usage_phrase_count :: u64
  usage_tracks :: "PhraseRoleTrackUsage list"
  usage_catalog_row_count :: u64

section \<open>Well-formed catalogues\<close>

definition name_ok :: "nat \<Rightarrow> string \<Rightarrow> bool" where
  "name_ok limit s \<longleftrightarrow> trim s = s \<and> s \<noteq> [] \<and> length s \<le> limit"

definition role_ok :: "PhraseRole \<Rightarrow> bool" where
  "role_ok r \<longleftrightarrow> name_ok 80 (role_display_name r) \<and> role_sort_order r \<noteq> 0 \<and> role_color_rgb r \<le> 0xFFFFFF"

definition mapping_ok :: "SourcePhraseMapping \<Rightarrow> bool" where
  "mapping_ok m \<longleftrightarrow> name_ok 64 (map_provider_kind m) \<and> name_ok 100 (map_raw_label m)"

definition roles_ok :: "(string \<Rightarrow> string) \<Rightarrow> PhraseRole list \<Rightarrow> bool" where
  "roles_ok lower rs \<longleftrightarrow> distinct (map role_id rs) \<and> distinct (map (\<lambda>r. lower (role_display_name r)) rs)
     \<and> (\<forall>i < length rs. unat (role_sort_order (rs ! i)) = i + 1)
     \<and> (rs \<noteq> [] \<longrightarrow> (\<exists>r \<in> set rs. \<not> role_archived r))"

definition mappings_ok :: "string set \<Rightarrow> SourcePhraseMapping list \<Rightarrow> bool" where
  "mappings_ok ids ms \<longleftrightarrow> distinct (map mapping_key ms) \<and> (\<forall>m \<in> set ms. map_role_id m \<in> ids)"

definition role_catalog_ok :: "(string \<Rightarrow> string) \<Rightarrow> PhraseRoleCatalog \<Rightarrow> bool" where
  "role_catalog_ok lower c \<longleftrightarrow>
     (rc_revision c = 0 \<longrightarrow> rc_defaults_version c = 0 \<and> rc_mappings c = [])
   \<and> (rc_revision c > 0 \<longrightarrow> rc_roles c \<noteq> [])
   \<and> roles_ok lower (rc_roles c) \<and> (\<forall>r \<in> set (rc_roles c). role_ok r)
   \<and> mappings_ok (role_id ` set (rc_roles c)) (rc_mappings c) \<and> (\<forall>m \<in> set (rc_mappings c). mapping_ok m)"

lemma check_roles_Inr:
  "check_roles lower ids names n rs = Inr out \<longleftrightarrow>
     distinct (map role_id rs) \<and> (\<forall>r \<in> set rs. role_id r \<notin> ids)
   \<and> distinct (map (\<lambda>r. lower (role_display_name r)) rs) \<and> (\<forall>r \<in> set rs. lower (role_display_name r) \<notin> names)
   \<and> (\<forall>i < length rs. unat (role_sort_order (rs ! i)) = n + i + 1)
   \<and> out = ids \<union> role_id ` set rs"
proof (induction rs arbitrary: ids names n)
  case (Cons r rs)
  have "(\<forall>i < length (r # rs). unat (role_sort_order ((r # rs) ! i)) = n + i + 1)
      \<longleftrightarrow> unat (role_sort_order r) = n + 1 \<and> (\<forall>i < length rs. unat (role_sort_order (rs ! i)) = (n + 1) + i + 1)"
    by (auto simp: less_Suc_eq_0_disj)
  then show ?case unfolding check_roles.simps using Cons.IH by (auto intro: rev_image_eqI)
qed auto

lemma check_mappings_Inr:
  "check_mappings ids keys ms = Inr () \<longleftrightarrow> mappings_ok ids ms \<and> (\<forall>m \<in> set ms. mapping_key m \<notin> keys)"
  by (induction ms arbitrary: keys) (auto simp: mappings_ok_def intro: rev_image_eqI)

lemma try_new_role_catalog_Inr:
  "try_new_role_catalog lower revision defaults roles mappings = Inr c \<longleftrightarrow>
     c = \<lparr>rc_revision = revision, rc_defaults_version = defaults, rc_roles = roles, rc_mappings = mappings\<rparr>
   \<and> (revision = 0 \<longrightarrow> defaults = 0 \<and> mappings = []) \<and> (revision > 0 \<longrightarrow> roles \<noteq> [])
   \<and> roles_ok lower roles \<and> mappings_ok (role_id ` set roles) mappings"
  by (auto simp: try_new_role_catalog_def result_simps check_roles_Inr check_mappings_Inr roles_ok_def list_all_iff
      mappings_ok_def word_gt_0)

lemma roles_revised_Inr:
  "roles_revised lower c roles mappings = Inr d \<longleftrightarrow>
     (\<exists>n. checked_add (rc_revision c) 1 = Some n
        \<and> d = \<lparr>rc_revision = n, rc_defaults_version = rc_defaults_version c, rc_roles = roles,
               rc_mappings = mappings\<rparr>
        \<and> roles \<noteq> [] \<and> roles_ok lower roles \<and> mappings_ok (role_id ` set roles) mappings)"
proof -
  have "n > 0" if "checked_add (rc_revision c) 1 = Some n" for n
    using checked_add_SomeD [OF that] by (simp add: word_less_nat_alt)
  then show ?thesis by (auto simp: roles_revised_def result_simps try_new_role_catalog_Inr)
qed

lemma validated_display_name_Inr:
  "validated_display_name v = Inr s \<longleftrightarrow> s = trim v \<and> name_ok 80 s"
  by (auto simp: validated_display_name_def name_ok_def Let_def)

lemma name_ok_validated [simp]: "name_ok 80 s \<Longrightarrow> validated_display_name s = Inr s"
  by (simp add: validated_display_name_Inr name_ok_def)

lemma try_new_role_with_color_Inr:
  "try_new_role_with_color rid name order archived color = Inr r \<longleftrightarrow>
     r = \<lparr>role_id = rid, role_display_name = trim name, role_sort_order = order, role_archived = archived,
          role_color_rgb = color\<rparr> \<and> role_ok r"
  by (auto simp: try_new_role_with_color_def result_simps validated_display_name_Inr role_ok_def not_less)

lemmas role_update_defs =
  with_display_name_def with_sort_order_def with_archived_def with_color_rgb_def try_new_role_def

lemma role_updates:
  "with_display_name r name = Inr q \<Longrightarrow> role_ok q \<and> q = r\<lparr>role_display_name := trim name\<rparr>"
  "role_ok r \<Longrightarrow> with_archived r a = Inr (r\<lparr>role_archived := a\<rparr>)"
  "role_ok r \<Longrightarrow> with_color_rgb r k = Inr q \<Longrightarrow> role_ok q \<and> q = r\<lparr>role_color_rgb := k\<rparr>"
  "role_ok r \<Longrightarrow> n \<noteq> 0 \<Longrightarrow> with_sort_order r n = Inr (r\<lparr>role_sort_order := n\<rparr>)"
  by (cases r, auto simp: role_update_defs try_new_role_with_color_Inr role_ok_def name_ok_def)+

section \<open>Every edit keeps the catalogue well formed\<close>

datatype RoleEdit =
    AddRole string
  | RenameRole PhraseRoleId string
  | MoveRole PhraseRoleId PhraseRoleMove
  | SetArchived PhraseRoleId bool
  | SetColor PhraseRoleId u32
  | UpsertMapping string string PhraseRoleId

fun apply_role_edit ::
  "(string \<Rightarrow> string) \<Rightarrow> PhraseRoleCatalog \<Rightarrow> RoleEdit \<Rightarrow> PhraseRoleCatalogError + PhraseRoleCatalog" where
  "apply_role_edit lower c (AddRole name) = add_role lower c name"
| "apply_role_edit lower c (RenameRole rid name) = rename_role lower c rid name"
| "apply_role_edit lower c (MoveRole rid direction) = move_role lower c rid direction"
| "apply_role_edit lower c (SetArchived rid archived) = set_archived lower c rid archived"
| "apply_role_edit lower c (SetColor rid color) = set_color_rgb lower c rid color"
| "apply_role_edit lower c (UpsertMapping provider label rid) =
     and_then (try_new_mapping provider label rid) (upsert_mapping lower c)"

text \<open>A revision of a well-formed catalogue whose roles and mappings are valid one by one.\<close>

definition role_revision :: "(string \<Rightarrow> string) \<Rightarrow> PhraseRoleCatalog \<Rightarrow> PhraseRoleCatalog \<Rightarrow> bool" where
  "role_revision lower c d \<longleftrightarrow> role_catalog_ok lower d \<and> unat (rc_revision d) = unat (rc_revision c) + 1
     \<and> rc_defaults_version d = rc_defaults_version c
     \<and> role_id ` set (rc_roles c) \<subseteq> role_id ` set (rc_roles d)"

lemma role_revisionI:
  assumes "roles_revised lower c roles mappings = Inr d"
    and "\<forall>r \<in> set roles. role_ok r" "\<forall>m \<in> set mappings. mapping_ok m"
    and "role_id ` set (rc_roles c) \<subseteq> role_id ` set roles"
  shows "role_revision lower c d"
proof -
  obtain n where n: "checked_add (rc_revision c) 1 = Some n"
    and d: "d = \<lparr>rc_revision = n, rc_defaults_version = rc_defaults_version c, rc_roles = roles, rc_mappings = mappings\<rparr>"
      "roles \<noteq> []" "roles_ok lower roles" "mappings_ok (role_id ` set roles) mappings"
    using assms(1) unfolding roles_revised_Inr by blast
  have "unat n = unat (rc_revision c) + 1" using checked_add_SomeD [OF n] by simp
  with d assms show ?thesis by (auto simp: role_revision_def role_catalog_ok_def)
qed

lemma role_index_Inr:
  "role_index c rid = Inr i \<Longrightarrow> i < length (rc_roles c) \<and> role_id (rc_roles c ! i) = rid"
  by (auto simp: role_index_def ok_or_eq dest: position_SomeD)

lemma update_role_ids:
  "i < length rs \<Longrightarrow> role_id r = role_id (rs ! i) \<Longrightarrow> map role_id (rs[i := r]) = map role_id rs"
  by (simp add: map_update list_update_same_conv)

lemma replace_role_revision:
  assumes ok: "role_catalog_ok lower c" and i: "i < length (rc_roles c)"
    and r: "role_ok r" "role_id r = role_id (rc_roles c ! i)"
    and d: "roles_revised lower c ((rc_roles c)[i := r]) (rc_mappings c) = Inr d"
  shows "role_revision lower c d"
proof (rule role_revisionI [OF d])
  show "\<forall>x \<in> set ((rc_roles c)[i := r]). role_ok x"
    using ok r set_update_subset_insert [of "rc_roles c" i r] by (auto simp: role_catalog_ok_def)
  show "\<forall>m \<in> set (rc_mappings c). mapping_ok m" using ok by (simp add: role_catalog_ok_def)
  show "role_id ` set (rc_roles c) \<subseteq> role_id ` set ((rc_roles c)[i := r])"
    using update_role_ids [OF i r(2)] by (metis list.set_map order_refl)
qed

text \<open>Reordering, on the lists.\<close>

definition renumber_roles :: "PhraseRole list \<Rightarrow> PhraseRole list" where
  "renumber_roles rs = map (\<lambda>(i, r). r\<lparr>role_sort_order := of_nat (i + 1)\<rparr>) (enumerate 0 rs)"

lemma length_renumber_roles [simp]: "length (renumber_roles rs) = length rs"
  by (simp add: renumber_roles_def)

lemma renumber_roles_nth:
  "i < length rs \<Longrightarrow> renumber_roles rs ! i = (rs ! i)\<lparr>role_sort_order := of_nat (i + 1)\<rparr>"
  by (simp add: renumber_roles_def nth_enumerate_eq)

lemma renumber_roles_map:
  "map role_id (renumber_roles rs) = map role_id rs"
  "map role_display_name (renumber_roles rs) = map role_display_name rs"
  "map role_archived (renumber_roles rs) = map role_archived rs"
  by (auto simp: list_eq_iff_nth_eq renumber_roles_nth)

lemma unat_u16: "n < 65536 \<Longrightarrow> unat (of_nat n :: u16) = n"
  by (simp add: unat_of_nat)

lemma role_order_fits: "roles_ok lower rs \<Longrightarrow> length rs < 65536"
proof (rule ccontr)
  assume ok: "roles_ok lower rs" and "\<not> length rs < 65536"
  then have "unat (role_sort_order (rs ! 65535)) = 65536" by (simp add: roles_ok_def)
  then show False using unsigned_less [of "role_sort_order (rs ! 65535)", where ?'a = nat] by simp
qed

lemma reorder_roles_ok:
  assumes "\<forall>r \<in> set rs. role_ok r" "length rs < 65536"
  shows "reorder_roles rs = Inr (renumber_roles rs)"
proof -
  have "(of_nat (i + 1) :: u16) \<noteq> 0" if "i < length rs" for i
    using that assms(2) unat_u16 [of "i + 1"] by auto
  then show ?thesis
    unfolding reorder_roles_def try_map_eq_Inr renumber_roles_def
    using assms by (auto simp: list_all2_conv_all_nth nth_enumerate_eq role_updates(4))
qed

lemma renumber_roles_ok:
  assumes "\<forall>r \<in> set rs. role_ok r" "length rs < 65536"
  shows "\<forall>r \<in> set (renumber_roles rs). role_ok r"
proof
  fix r
  assume "r \<in> set (renumber_roles rs)"
  then obtain i where i: "i < length rs" and r: "r = (rs ! i)\<lparr>role_sort_order := of_nat (i + 1)\<rparr>"
    by (auto simp: in_set_conv_nth renumber_roles_nth)
  have "(of_nat (i + 1) :: u16) \<noteq> 0" using i assms(2) unat_u16 [of "i + 1"] by auto
  then show "role_ok r" using assms(1) i r by (auto simp: role_ok_def)
qed

lemma renumber_roles_id:
  "roles_ok lower rs \<Longrightarrow> renumber_roles rs = rs"
proof (rule nth_equalityI)
  fix i
  assume "roles_ok lower rs" and i: "i < length (renumber_roles rs)"
  then have "unat (role_sort_order (rs ! i)) = i + 1" by (simp add: roles_ok_def)
  then have "of_nat (i + 1) = role_sort_order (rs ! i)" by (metis of_nat_unat ucast_id)
  then show "renumber_roles rs ! i = rs ! i" using i by (simp add: renumber_roles_nth)
qed simp

lemma swap_perm: "i < length xs \<Longrightarrow> j < length xs \<Longrightarrow> set (swap i j xs) = set xs"
  by (simp add: swap_def set_swap)

lemma swap_map: "i < length xs \<Longrightarrow> j < length xs \<Longrightarrow> map f (swap i j xs) = swap i j (map f xs)"
  by (simp add: swap_def map_update)

lemma swap_distinct: "i < length xs \<Longrightarrow> j < length xs \<Longrightarrow> distinct (swap i j xs) = distinct xs"
  by (simp add: swap_def distinct_swap)

lemma length_swap [simp]: "length (swap i j xs) = length xs"
  by (simp add: swap_def)

lemma renumbered_swap_ok:
  assumes ok: "roles_ok lower rs" and i: "i < length rs" "j < length rs"
  shows "roles_ok lower (renumber_roles (swap i j rs))"
proof -
  let ?q = "renumber_roles (swap i j rs)"
  have names: "map (\<lambda>r. lower (role_display_name r)) ?q = map lower (map role_display_name ?q)" by simp
  have "distinct (map (\<lambda>r. lower (role_display_name r)) ?q)"
    unfolding names renumber_roles_map using ok i
    by (simp add: swap_map swap_distinct roles_ok_def comp_def)
  moreover have "distinct (map role_id ?q)"
    unfolding renumber_roles_map using ok i by (simp add: swap_map swap_distinct roles_ok_def comp_def)
  moreover have "\<forall>k < length ?q. unat (role_sort_order (?q ! k)) = k + 1"
    using role_order_fits [OF ok] by (simp add: renumber_roles_nth unat_u16 del: of_nat_Suc of_nat_add)
  moreover have "\<exists>r \<in> set ?q. \<not> role_archived r"
  proof -
    have "role_archived ` set ?q = role_archived ` set rs"
      by (metis i list.set_map renumber_roles_map(3) swap_perm)
    then show ?thesis using ok i by (auto simp: roles_ok_def image_iff)
  qed
  ultimately show ?thesis by (simp add: roles_ok_def)
qed

lemma move_role_Inr:
  assumes ok: "role_catalog_ok lower c"
  shows "move_role lower c rid direction = Inr d \<longleftrightarrow>
    (\<exists>i j n. role_index c rid = Inr i \<and> move_target direction i (length (rc_roles c)) = Some j
       \<and> checked_add (rc_revision c) 1 = Some n
       \<and> d = c\<lparr>rc_revision := n, rc_roles := renumber_roles (swap i j (rc_roles c))\<rparr>)"
proof -
  let ?rs = "rc_roles c"
  have rs: "roles_ok lower ?rs" "\<forall>r \<in> set ?rs. role_ok r"
    using ok by (simp_all add: role_catalog_ok_def)
  have "reorder_roles (swap i j ?rs) = Inr (renumber_roles (swap i j ?rs))
      \<and> roles_ok lower (renumber_roles (swap i j ?rs))
      \<and> mappings_ok (role_id ` set (renumber_roles (swap i j ?rs))) (rc_mappings c)
      \<and> renumber_roles (swap i j ?rs) \<noteq> []"
    if "role_index c rid = Inr i" "move_target direction i (length ?rs) = Some j" for i j
  proof -
    have ij: "i < length ?rs" "j < length ?rs"
      using role_index_Inr [OF that(1)] that(2) by (cases direction; auto split: if_splits)+
    have "role_id ` set (renumber_roles (swap i j ?rs)) = role_id ` set ?rs"
      by (metis ij list.set_map renumber_roles_map(1) swap_perm)
    moreover have "\<forall>r \<in> set (swap i j ?rs). role_ok r" using rs(2) ij by (simp add: swap_perm)
    moreover have "renumber_roles (swap i j ?rs) \<noteq> []" using ij by (metis length_renumber_roles length_swap less_nat_zero_code list.size(3))
    ultimately show ?thesis
      using reorder_roles_ok role_order_fits [OF rs(1)] renumbered_swap_ok [OF rs(1) ij] ok
      by (simp add: role_catalog_ok_def)
  qed
  then show ?thesis
    by (cases c) (auto simp: move_role_def result_simps roles_revised_Inr)
qed

lemma move_role_revision:
  assumes ok: "role_catalog_ok lower c" and d: "move_role lower c rid direction = Inr d"
  shows "role_revision lower c d"
proof -
  obtain i j n where i: "role_index c rid = Inr i" and j: "move_target direction i (length (rc_roles c)) = Some j"
    and n: "checked_add (rc_revision c) 1 = Some n"
    and d': "d = c\<lparr>rc_revision := n, rc_roles := renumber_roles (swap i j (rc_roles c))\<rparr>"
    using d unfolding move_role_Inr [OF ok] by blast
  have ij: "i < length (rc_roles c)" "j < length (rc_roles c)"
    using role_index_Inr [OF i] j by (cases direction; auto split: if_splits)+
  have rs: "roles_ok lower (rc_roles c)" "\<forall>r \<in> set (rc_roles c). role_ok r"
    using ok by (simp_all add: role_catalog_ok_def)
  have ids: "role_id ` set (renumber_roles (swap i j (rc_roles c))) = role_id ` set (rc_roles c)"
    by (metis ij list.set_map renumber_roles_map(1) swap_perm)
  have good: "\<forall>r \<in> set (renumber_roles (swap i j (rc_roles c))). role_ok r"
    using renumber_roles_ok [of "swap i j (rc_roles c)"] rs(2) role_order_fits [OF rs(1)] ij
    by (simp add: swap_perm)
  have "unat n = unat (rc_revision c) + 1" using checked_add_SomeD [OF n] by simp
  moreover have "renumber_roles (swap i j (rc_roles c)) \<noteq> []"
    using ij by (metis length_renumber_roles length_swap less_nat_zero_code list.size(3))
  ultimately show ?thesis
    using ok ids good renumbered_swap_ok [OF rs(1) ij] unfolding d'
    by (auto simp: role_revision_def role_catalog_ok_def)
qed

lemma add_role_revision:
  assumes ok: "role_catalog_ok lower c" and d: "add_role lower c name = Inr d"
  shows "role_revision lower c d"
proof -
  obtain rid r where r: "try_new_role rid (trim name) (of_nat (length (rc_roles c) + 1)) False = Inr r"
    and d': "roles_revised lower c (rc_roles c @ [r]) (rc_mappings c) = Inr d"
    using d by (auto simp: add_role_def result_simps validated_display_name_Inr split: if_splits)
  have "role_ok r" using r unfolding try_new_role_def try_new_role_with_color_Inr by blast
  then show ?thesis using ok by (intro role_revisionI [OF d']) (auto simp: role_catalog_ok_def)
qed

lemma rename_role_revision:
  assumes ok: "role_catalog_ok lower c" and d: "rename_role lower c rid name = Inr d"
  shows "role_revision lower c d"
proof -
  obtain i r where i: "role_index c rid = Inr i" and r: "with_display_name (rc_roles c ! i) (trim name) = Inr r"
    and d': "roles_revised lower c ((rc_roles c)[i := r]) (rc_mappings c) = Inr d"
    using d by (auto simp: rename_role_def result_simps validated_display_name_Inr split: if_splits)
  have "role_ok r" "role_id r = role_id (rc_roles c ! i)" using role_updates(1) [OF r] by auto
  then show ?thesis using replace_role_revision [OF ok _ _ _ d'] role_index_Inr [OF i] by simp
qed

lemma set_archived_revision:
  assumes ok: "role_catalog_ok lower c" and d: "set_archived lower c rid a = Inr d"
  shows "role_revision lower c d"
proof -
  obtain i r where i: "role_index c rid = Inr i" and r: "with_archived (rc_roles c ! i) a = Inr r"
    and d': "roles_revised lower c ((rc_roles c)[i := r]) (rc_mappings c) = Inr d"
    using d by (auto simp: set_archived_def result_simps split: if_splits)
  have "role_ok (rc_roles c ! i)" using ok role_index_Inr [OF i] by (simp add: role_catalog_ok_def)
  then have "r = (rc_roles c ! i)\<lparr>role_archived := a\<rparr>" "role_ok r"
    using r role_updates(2) [of "rc_roles c ! i" a] by (auto simp: role_ok_def)
  then show ?thesis using replace_role_revision [OF ok _ _ _ d'] role_index_Inr [OF i] by simp
qed

lemma set_color_revision:
  assumes ok: "role_catalog_ok lower c" and d: "set_color_rgb lower c rid k = Inr d"
  shows "role_revision lower c d"
proof -
  obtain i r where i: "role_index c rid = Inr i" and r: "with_color_rgb (rc_roles c ! i) k = Inr r"
    and d': "roles_revised lower c ((rc_roles c)[i := r]) (rc_mappings c) = Inr d"
    using d by (auto simp: set_color_rgb_def result_simps split: if_splits)
  have "role_ok (rc_roles c ! i)" using ok role_index_Inr [OF i] by (simp add: role_catalog_ok_def)
  then have "role_ok r" "role_id r = role_id (rc_roles c ! i)" using role_updates(3) [OF _ r] by auto
  then show ?thesis using replace_role_revision [OF ok _ _ _ d'] role_index_Inr [OF i] by simp
qed

section \<open>The mappings as a finite map\<close>

definition mapping_entry :: "SourcePhraseMapping \<Rightarrow> (string \<times> string) \<times> SourcePhraseMapping" where
  "mapping_entry m = (mapping_key m, m)"

definition mapping_table :: "SourcePhraseMapping list \<Rightarrow> string \<times> string \<Rightarrow> SourcePhraseMapping option" where
  "mapping_table ms = map_of (map mapping_entry ms)"

lemma mapping_keys: "map fst (map mapping_entry ms) = map mapping_key ms"
  by (simp add: mapping_entry_def)

lemma mapping_table_find: "mapping_table ms k = find (\<lambda>m. mapping_key m = k) ms"
  by (induction ms) (simp_all add: mapping_table_def mapping_entry_def)

lemma provider_and_label:
  "eq_ignore_ascii_case (map_provider_kind m) p \<and> normalized_label m = l \<longleftrightarrow> mapping_key m = (to_ascii_lowercase p, l)"
  by (auto simp: mapping_key_def eq_ignore_ascii_case_def)

lemma resolve_label_table:
  "resolve_label c p l = map_option map_role_id
     (case mapping_table (rc_mappings c) (to_ascii_lowercase p, normalize_source_label l) of
        Some m \<Rightarrow> Some m
      | None \<Rightarrow> mapping_table (rc_mappings c) (to_ascii_lowercase p, ''*''))"
  by (simp add: resolve_label_def provider_and_label mapping_table_find Let_def cong: option.case_cong)

lemma mapping_table_update:
  assumes "distinct (map mapping_key ms)" "i < length ms" "mapping_key (ms ! i) = mapping_key m"
  shows "distinct (map mapping_key (ms[i := m]))"
    and "mapping_table (ms[i := m]) = (mapping_table ms)(mapping_key m \<mapsto> m)"
proof -
  have keys: "map mapping_key (ms[i := m]) = map mapping_key ms"
    using assms(2,3) by (simp add: map_update list_update_same_conv)
  then show d: "distinct (map mapping_key (ms[i := m]))" using assms(1) by simp
  show "mapping_table (ms[i := m]) = (mapping_table ms)(mapping_key m \<mapsto> m)"
  proof
    fix k
    show "mapping_table (ms[i := m]) k = ((mapping_table ms)(mapping_key m \<mapsto> m)) k"
      using assms by (induction ms arbitrary: i)
        (auto simp: mapping_table_def mapping_entry_def image_iff split: nat.split, metis nth_mem)
  qed
qed

lemma mapping_table_sorted:
  assumes "distinct (map mapping_key ms)" "mapping_key m \<notin> set (map mapping_key ms)"
  shows "distinct (map mapping_key (sort_key f (ms @ [m])))"
    and "mapping_table (sort_key f (ms @ [m])) = (mapping_table ms)(mapping_key m \<mapsto> m)"
proof -
  let ?s = "sort_key f (ms @ [m])"
  have perm: "mset ?s = mset (m # ms)" by simp
  then have "mset (map mapping_key ?s) = mset (map mapping_key (m # ms))" by (simp only: mset_map)
  then show d: "distinct (map mapping_key ?s)" using assms by (metis distinct.simps(2) list.simps(9) mset_eq_imp_distinct_iff)
  have "map_of (map mapping_entry ?s) = map_of (map mapping_entry (m # ms))"
    by (rule map_of_inject_set [THEN iffD2]) (use d assms in \<open>auto simp: mapping_keys comp_def mapping_entry_def\<close>)
  then show "mapping_table ?s = (mapping_table ms)(mapping_key m \<mapsto> m)"
    by (simp add: mapping_table_def mapping_entry_def)
qed

lemma upserted_Inr:
  assumes "distinct (map mapping_key ms)"
  shows "(\<exists>new. upserted ms m = Inr new) \<longleftrightarrow> mapping_table ms (mapping_key m) \<noteq> Some m"
    and "upserted ms m = Inr new \<Longrightarrow> mapping_table new = (mapping_table ms)(mapping_key m \<mapsto> m)
      \<and> distinct (map mapping_key new) \<and> set new \<subseteq> insert m (set ms)"
proof -
  let ?p = "position (\<lambda>x. mapping_key x = mapping_key m) ms"
  have key: "(to_ascii_lowercase (map_provider_kind m), normalized_label m) = mapping_key m"
    by (simp add: mapping_key_def)
  have eq: "upserted ms m = (case ?p of
        Some i \<Rightarrow> if ms ! i = m then Inl RoleNoChange else Inr (ms[i := m])
      | None \<Rightarrow> Inr (sort_key (\<lambda>x. (map_provider_kind x, normalized_label x)) (ms @ [m])))"
    unfolding upserted_def Let_def provider_and_label to_ascii_lowercase_idem key ..
  have found: "mapping_table ms (mapping_key m) = map_option (\<lambda>i. ms ! i) ?p"
    unfolding mapping_table_find by (induction ms) (auto simp: option.map_comp comp_def)
  show "(\<exists>new. upserted ms m = Inr new) \<longleftrightarrow> mapping_table ms (mapping_key m) \<noteq> Some m"
    by (auto simp: eq found split: option.splits)
  assume new: "upserted ms m = Inr new"
  show "mapping_table new = (mapping_table ms)(mapping_key m \<mapsto> m)
      \<and> distinct (map mapping_key new) \<and> set new \<subseteq> insert m (set ms)"
  proof (cases ?p)
    case None
    then have "mapping_key m \<notin> set (map mapping_key ms)" by (force simp: position_None)
    then show ?thesis using new None mapping_table_sorted [OF assms] by (auto simp: eq)
  next
    case (Some i)
    then have i: "i < length ms" "mapping_key (ms ! i) = mapping_key m" by (auto dest: position_SomeD)
    then show ?thesis using new Some mapping_table_update [OF assms i] set_update_subset_insert [of ms i m]
      by (auto simp: eq split: if_splits)
  qed
qed

lemma try_new_mapping_Inr:
  "try_new_mapping p l rid = Inr m \<longleftrightarrow>
     m = \<lparr>map_provider_kind = trim p, map_raw_label = trim l, map_role_id = rid\<rparr> \<and> mapping_ok m"
  by (auto simp: try_new_mapping_def mapping_ok_def name_ok_def Let_def)

lemma upsert_mapping_Inr:
  assumes ok: "role_catalog_ok lower c"
  shows "upsert_mapping lower c m = Inr d \<longleftrightarrow>
    (\<exists>n new. (\<exists>r \<in> set (rc_roles c). role_id r = map_role_id m) \<and> upserted (rc_mappings c) m = Inr new
      \<and> checked_add (rc_revision c) 1 = Some n \<and> d = c\<lparr>rc_revision := n, rc_mappings := new\<rparr>)"
proof -
  have ms: "mappings_ok (role_id ` set (rc_roles c)) (rc_mappings c)" "roles_ok lower (rc_roles c)"
    using ok by (simp_all add: role_catalog_ok_def)
  then have keys: "distinct (map mapping_key (rc_mappings c))" by (simp add: mappings_ok_def)
  have "mappings_ok (role_id ` set (rc_roles c)) new"
    if "upserted (rc_mappings c) m = Inr new" "r \<in> set (rc_roles c)" "role_id r = map_role_id m" for new r
  proof -
    have "map_role_id m \<in> role_id ` set (rc_roles c)" using that(2,3) by (auto intro: rev_image_eqI)
    then show ?thesis using upserted_Inr(2) [OF keys that(1)] ms(1) by (auto simp: mappings_ok_def)
  qed
  then show ?thesis
    using ms(2) by (cases c) (auto simp: upsert_mapping_def result_simps roles_revised_Inr list_ex_iff)
qed

lemma upsert_revision:
  assumes ok: "role_catalog_ok lower c" and m: "mapping_ok m" and d: "upsert_mapping lower c m = Inr d"
  shows "role_revision lower c d"
proof -
  obtain new where new: "upserted (rc_mappings c) m = Inr new"
    and d': "roles_revised lower c (rc_roles c) new = Inr d"
    using d by (auto simp: upsert_mapping_def result_simps split: if_splits)
  have "distinct (map mapping_key (rc_mappings c))" using ok by (simp add: role_catalog_ok_def mappings_ok_def)
  then have "set new \<subseteq> insert m (set (rc_mappings c))" using upserted_Inr(2) new by blast
  then show ?thesis using ok m by (intro role_revisionI [OF d']) (auto simp: role_catalog_ok_def)
qed

lemma role_edit_revision:
  assumes "role_catalog_ok lower c" "apply_role_edit lower c e = Inr d"
  shows "role_revision lower c d"
proof (cases e)
  case (UpsertMapping p l rid)
  then obtain m where "try_new_mapping p l rid = Inr m" "upsert_mapping lower c m = Inr d"
    using assms(2) by (auto simp: result_simps)
  then show ?thesis using upsert_revision [OF assms(1)] unfolding try_new_mapping_Inr by blast
qed (use assms in \<open>auto intro: add_role_revision rename_role_revision move_role_revision
       set_archived_revision set_color_revision\<close>)

interpretation role_catalogue: revisioned "role_catalog_ok lower" rc_revision "apply_role_edit lower" for lower
  by unfold_locales (auto dest: role_edit_revision simp: role_revision_def)

definition edit_roles :: "(string \<Rightarrow> string) \<Rightarrow> PhraseRoleCatalog \<Rightarrow> RoleEdit list \<Rightarrow> PhraseRoleCatalog \<times> u64 list" where
  "edit_roles lower = run_machine (revision_step rc_revision (apply_role_edit lower))"

lemma edit_roles_keeps_ids:
  assumes "role_catalog_ok lower c"
  shows "role_id ` set (rc_roles c) \<subseteq> role_id ` set (rc_roles (fst (edit_roles lower c es)))"
  unfolding edit_roles_def
proof (rule role_catalogue.edits_keep_rel [where R = "\<lambda>c d. role_id ` set (rc_roles c) \<subseteq> role_id ` set (rc_roles d)",
      OF _ _ _ assms])
  show "reflp (\<lambda>c d. role_id ` set (rc_roles c) \<subseteq> role_id ` set (rc_roles d))" by (simp add: reflp_def)
  show "transp (\<lambda>c d. role_id ` set (rc_roles c) \<subseteq> role_id ` set (rc_roles d))"
    by (rule transpI) (rule order_trans)
qed (use role_edit_revision in \<open>unfold role_revision_def, blast\<close>)

section \<open>Moving back\<close>

fun opposite :: "PhraseRoleMove \<Rightarrow> PhraseRoleMove" where
  "opposite Earlier = Later"
| "opposite Later = Earlier"

lemma move_target_opposite:
  "move_target m i n = Some j \<Longrightarrow> i < n \<Longrightarrow> move_target (opposite m) j n = Some i \<and> j < n"
  by (cases m) (auto split: if_splits)

lemma renumber_update: "renumber_roles (swap i j (renumber_roles rs)) = renumber_roles (swap i j rs)"
  if "i < length rs" "j < length rs"
  using that by (auto simp: list_eq_iff_nth_eq renumber_roles_nth swap_def nth_list_update)

lemma swap_back: "i < length xs \<Longrightarrow> j < length xs \<Longrightarrow> swap j i (swap i j xs) = xs"
  by (auto simp: list_eq_iff_nth_eq swap_def nth_list_update)

lemma index_after_swap:
  assumes d: "distinct (map role_id rs)" and i: "i < length rs" "j < length rs"
  shows "position (\<lambda>r. role_id r = role_id (rs ! i)) (renumber_roles (swap i j rs)) = Some j"
proof -
  let ?q = "renumber_roles (swap i j rs)"
  have "role_id (?q ! j) = role_id (rs ! i)" using i by (simp add: renumber_roles_nth swap_def nth_list_update)
  moreover have "distinct (map role_id ?q)" using d i by (simp add: renumber_roles_map swap_map swap_distinct)
  ultimately show ?thesis using position_unique [of role_id ?q j] i by simp
qed

section \<open>Properties\<close>

text \<open>
  Whatever edits are asked for, accepted or refused, the catalogue of phrase roles stays well
  formed: identifiers and names (without regard to case) are unique, the order has no gaps, some role
  is active, and every mapping refers to a role. No role is ever removed, and the accepted edits carry consecutive
  revision numbers.
\<close>

theorem role_edits_keep_catalog:
  assumes "role_catalog_ok lower c"
  shows "case edit_roles lower c es of (d, revisions) \<Rightarrow>
     role_catalog_ok lower d \<and> role_id ` set (rc_roles c) \<subseteq> role_id ` set (rc_roles d)
   \<and> map unat revisions = [unat (rc_revision c) + 1 ..< unat (rc_revision c) + 1 + length revisions]"
proof -
  obtain d revisions where run: "edit_roles lower c es = (d, revisions)" by fastforce
  then show ?thesis
    using role_catalogue.edits_keep_wf [OF assms, of es] edit_roles_keeps_ids [OF assms, of es]
      role_catalogue.edits_number_revisions [OF assms, of es]
    by (simp add: edit_roles_def)
qed

theorem role_edits_keep_catalog_witness:
  "role_catalog_ok to_ascii_lowercase (fst (edit_roles to_ascii_lowercase
     \<lparr>rc_revision = 0, rc_defaults_version = 0, rc_roles = [], rc_mappings = []\<rparr> [AddRole ''Drop'']))"
proof -
  have "role_catalog_ok to_ascii_lowercase \<lparr>rc_revision = 0, rc_defaults_version = 0, rc_roles = [], rc_mappings = []\<rparr>"
    by code_simp
  from role_edits_keep_catalog [OF this, of "[AddRole ''Drop'']"] show ?thesis by (auto split: prod.splits)
qed

text \<open>
  The mappings refine a finite map from the provider and the normalised label to a mapping. An upsert
  is accepted exactly when its role exists, it changes the map and a revision is left; it then updates the map at its
  key, keeps the roles and resolves its own label to its role.
\<close>

theorem upsert_updates_table:
  assumes ok: "role_catalog_ok lower c"
  shows "((\<exists>d. upsert_mapping lower c m = Inr d) \<longleftrightarrow>
        (\<exists>r \<in> set (rc_roles c). role_id r = map_role_id m)
      \<and> mapping_table (rc_mappings c) (mapping_key m) \<noteq> Some m
      \<and> unat (rc_revision c) + 1 < 2 ^ 64)
   \<and> (\<forall>d. upsert_mapping lower c m = Inr d \<longrightarrow>
        mapping_table (rc_mappings d) = (mapping_table (rc_mappings c))(mapping_key m \<mapsto> m)
      \<and> rc_roles d = rc_roles c
      \<and> resolve_label d (map_provider_kind m) (map_raw_label m) = Some (map_role_id m))"
proof (intro conjI allI impI)
  have keys: "distinct (map mapping_key (rc_mappings c))"
    using ok by (simp add: role_catalog_ok_def mappings_ok_def)
  have "(\<exists>n. checked_add (rc_revision c) 1 = Some n) \<longleftrightarrow> unat (rc_revision c) + 1 < 2 ^ 64"
    by (simp add: checked_add_def)
  then show "(\<exists>d. upsert_mapping lower c m = Inr d) \<longleftrightarrow>
        (\<exists>r \<in> set (rc_roles c). role_id r = map_role_id m)
      \<and> mapping_table (rc_mappings c) (mapping_key m) \<noteq> Some m \<and> unat (rc_revision c) + 1 < 2 ^ 64"
    unfolding upsert_mapping_Inr [OF ok] upserted_Inr(1) [OF keys, symmetric] by blast
  fix d
  assume "upsert_mapping lower c m = Inr d"
  then have d: "rc_roles d = rc_roles c" "upserted (rc_mappings c) m = Inr (rc_mappings d)"
    unfolding upsert_mapping_Inr [OF ok] by auto
  show table: "mapping_table (rc_mappings d) = (mapping_table (rc_mappings c))(mapping_key m \<mapsto> m)"
    using upserted_Inr(2) [OF keys d(2)] by blast
  show "rc_roles d = rc_roles c" by (rule d(1))
  show "resolve_label d (map_provider_kind m) (map_raw_label m) = Some (map_role_id m)"
    using table by (simp add: resolve_label_table mapping_key_def normalized_label_def)
qed

theorem upsert_updates_table_witness:
  "resolve_label
     \<lparr>rc_revision = 2, rc_defaults_version = 1,
      rc_roles = [\<lparr>role_id = ''drop'', role_display_name = ''Drop'', role_sort_order = 1, role_archived = False,
                   role_color_rgb = 0\<rparr>],
      rc_mappings = [\<lparr>map_provider_kind = ''rekordbox'', map_raw_label = ''Chorus'', map_role_id = ''drop''\<rparr>]\<rparr>
     ''rekordbox'' ''Chorus'' = Some ''drop''"
proof -
  let ?c = "\<lparr>rc_revision = 1, rc_defaults_version = 1,
      rc_roles = [\<lparr>role_id = ''drop'', role_display_name = ''Drop'', role_sort_order = 1, role_archived = False,
                   role_color_rgb = 0\<rparr>], rc_mappings = []\<rparr>"
  let ?m = "\<lparr>map_provider_kind = ''rekordbox'', map_raw_label = ''Chorus'', map_role_id = ''drop''\<rparr>"
  let ?d = "\<lparr>rc_revision = 2, rc_defaults_version = 1, rc_roles = rc_roles ?c, rc_mappings = [?m]\<rparr>"
  have ok: "role_catalog_ok to_ascii_lowercase ?c" by code_simp
  moreover have "upsert_mapping to_ascii_lowercase ?c ?m = Inr ?d"
    unfolding upsert_mapping_Inr [OF ok] by (simp add: upserted_def checked_add_def)
  ultimately show ?thesis using upsert_updates_table [of to_ascii_lowercase ?c ?m] by auto
qed

text \<open>
  Moving a role and moving it back in the other direction is accepted while revisions are left, and leaves the
  roles, their order and the mappings exactly as they were.
\<close>

theorem move_back_restores:
  assumes ok: "role_catalog_ok lower c" and d: "move_role lower c rid direction = Inr d"
    and left: "unat (rc_revision d) + 1 < 2 ^ 64"
  shows "\<exists>e. move_role lower d rid (opposite direction) = Inr e
     \<and> rc_roles e = rc_roles c \<and> rc_mappings e = rc_mappings c"
proof -
  let ?rs = "rc_roles c"
  obtain i j n where i: "role_index c rid = Inr i" and j: "move_target direction i (length ?rs) = Some j"
    and d': "d = c\<lparr>rc_revision := n, rc_roles := renumber_roles (swap i j ?rs)\<rparr>"
    using d unfolding move_role_Inr [OF ok] by blast
  have rs: "roles_ok lower ?rs" "distinct (map role_id ?rs)"
    using ok by (simp_all add: role_catalog_ok_def roles_ok_def)
  have ij: "i < length ?rs" "j < length ?rs" "role_id (?rs ! i) = rid"
    "move_target (opposite direction) j (length ?rs) = Some i"
    using role_index_Inr [OF i] move_target_opposite [OF j] by auto
  have "role_index d rid = Inr j"
    using index_after_swap [OF rs(2) ij(1,2)] ij(3) by (simp add: role_index_def d' ok_or_eq)
  moreover have "checked_add (rc_revision d) 1 = Some (rc_revision d + 1)" using left by (simp add: checked_add_def)
  moreover have "renumber_roles (swap j i (renumber_roles (swap i j ?rs))) = ?rs"
    using renumber_update [of j "swap i j ?rs" i] swap_back [of i ?rs j] renumber_roles_id [OF rs(1)] ij by simp
  ultimately show ?thesis
    using ij(4) role_revision_def move_role_revision [OF ok d] move_role_Inr [of lower d rid "opposite direction"]
    unfolding d' by simp
qed

theorem move_back_restores_witness:
  "\<exists>e. move_role to_ascii_lowercase
     \<lparr>rc_revision = 2, rc_defaults_version = 1,
      rc_roles = [\<lparr>role_id = ''b'', role_display_name = ''B'', role_sort_order = 1, role_archived = True, role_color_rgb = 1\<rparr>,
                  \<lparr>role_id = ''a'', role_display_name = ''A'', role_sort_order = 2, role_archived = False, role_color_rgb = 0\<rparr>],
      rc_mappings = []\<rparr> ''a'' Earlier = Inr e
   \<and> rc_roles e = [\<lparr>role_id = ''a'', role_display_name = ''A'', role_sort_order = 1, role_archived = False, role_color_rgb = 0\<rparr>,
                   \<lparr>role_id = ''b'', role_display_name = ''B'', role_sort_order = 2, role_archived = True, role_color_rgb = 1\<rparr>]"
proof -
  let ?a = "\<lambda>n. \<lparr>role_id = ''a'', role_display_name = ''A'', role_sort_order = n, role_archived = False, role_color_rgb = 0\<rparr>"
  let ?b = "\<lambda>n. \<lparr>role_id = ''b'', role_display_name = ''B'', role_sort_order = n, role_archived = True, role_color_rgb = 1\<rparr>"
  let ?c = "\<lparr>rc_revision = 1, rc_defaults_version = 1, rc_roles = [?a 1, ?b 2], rc_mappings = []\<rparr>"
  let ?d = "\<lparr>rc_revision = 2, rc_defaults_version = 1, rc_roles = [?b 1, ?a 2], rc_mappings = []\<rparr>"
  have ok: "role_catalog_ok to_ascii_lowercase ?c" by code_simp
  moreover have "move_role to_ascii_lowercase ?c ''a'' Later = Inr ?d"
    unfolding move_role_Inr [OF ok]
    by (simp add: role_index_def ok_or_eq checked_add_def renumber_roles_def swap_def numeral_2_eq_2 [symmetric])
  moreover have "unat (rc_revision ?d) + 1 < 2 ^ 64" by simp
  ultimately show ?thesis using move_back_restores [of to_ascii_lowercase ?c "''a''" Later ?d] by auto
qed

end
