(* ===== verification/Autoloop_Catalog.thy ===== *)
theory Autoloop_Catalog
  imports Phrase_Roles
begin

text \<open>
  The catalogue of loops (\<open>lumi-library/src/autoloop_catalog.rs\<close>): four themes, the variants of every
  phrase role in an order without gaps, and the cells that give a loop to a theme and a variant.
  Facts: every edit keeps the catalogue well formed and its themes; which cell a request resolves to; a
  validated strategy resolves; a catalogue without missing cells covers every role; clearing a
  mapping never fails validation.
\<close>

section \<open>Data\<close>

record AutoloopTheme =
  at_id :: ThemeId
  at_display_name :: string
  at_sort_order :: u16

record AutoloopVariant =
  av_role_id :: PhraseRoleId
  av_id :: VariantId
  av_display_name :: string
  av_sort_order :: u16
  av_archived :: bool

type_synonym AutoloopEntryId = string

record AutoloopMatrixCell =
  cell_theme_id :: ThemeId
  cell_role_id :: PhraseRoleId
  cell_variant_id :: VariantId
  cell_entry_id :: AutoloopEntryId
  cell_display_name :: string

datatype AutoloopVariantMove = MoveEarlier | MoveLater

record MissingAutoloopCell =
  missing_theme_id :: ThemeId
  missing_role_id :: PhraseRoleId
  missing_variant_id :: VariantId

datatype AutoloopResolutionReason =
    Automatic
  | ExactVariant
  | ThemeSpecific
  | SameRoleFallback VariantId

record AutoloopResolution =
  res_theme_id :: ThemeId
  res_role_id :: PhraseRoleId
  res_variant_id :: VariantId
  res_entry_id :: AutoloopEntryId
  res_display_name :: string
  res_catalog_revision :: u64
  res_reason :: AutoloopResolutionReason

record AutoloopCatalog =
  ac_revision :: u64
  ac_defaults_version :: u16
  ac_themes :: "AutoloopTheme list"
  ac_variants :: "AutoloopVariant list"
  ac_cells :: "AutoloopMatrixCell list"

datatype AutoloopCatalogError =
    LoopInvalidRevision
  | LoopRevisionConflict u64 u64
  | InvalidThemeId
  | InvalidThemeCount
  | LoopEmptyDisplayName
  | LoopDisplayNameTooLong
  | LoopInvalidSortOrder
  | LoopDuplicateThemeId
  | DuplicateVariantId
  | LoopDuplicateDisplayName
  | DuplicateCell
  | DuplicateEntryId
  | LoopUnknownTheme
  | UnknownVariant
  | IncompatibleVariant
  | UnknownPhraseRole
  | MissingRoleCoverage
  | MissingExactCell
  | NoActiveVariantsForRole
  | LoopNoChange
  | LoopIdentifierOverflow
  | TooManyVariants
  | LoopArithmeticOverflow
  | DuplicateMappingIdentity

section \<open>Constructors\<close>

definition validated_name :: "string \<Rightarrow> AutoloopCatalogError + string" where
  "validated_name v =
     (let trimmed = trim v in
      if trimmed = [] then Inl LoopEmptyDisplayName
      else if length trimmed > 100 then Inl LoopDisplayNameTooLong
      else Inr trimmed)"

definition try_new_theme :: "ThemeId \<Rightarrow> string \<Rightarrow> u16 \<Rightarrow> AutoloopCatalogError + AutoloopTheme" where
  "try_new_theme tid name order =
     (if tid = 0 then Inl InvalidThemeId
      else if order = 0 then Inl LoopInvalidSortOrder
      else and_then (validated_name name) (\<lambda>display_name.
        Inr \<lparr>at_id = tid, at_display_name = display_name, at_sort_order = order\<rparr>))"

definition renamed :: "AutoloopTheme \<Rightarrow> string \<Rightarrow> AutoloopCatalogError + AutoloopTheme" where
  "renamed t name = try_new_theme (at_id t) name (at_sort_order t)"

definition try_new_variant ::
  "PhraseRoleId \<Rightarrow> VariantId \<Rightarrow> string \<Rightarrow> u16 \<Rightarrow> bool \<Rightarrow> AutoloopCatalogError + AutoloopVariant" where
  "try_new_variant role vid name order archived =
     (if order = 0 then Inl LoopInvalidSortOrder
      else and_then (validated_name name) (\<lambda>display_name.
        Inr \<lparr>av_role_id = role, av_id = vid, av_display_name = display_name, av_sort_order = order,
             av_archived = archived\<rparr>))"

definition rebuilt :: "AutoloopVariant \<Rightarrow> string \<Rightarrow> u16 \<Rightarrow> bool \<Rightarrow> AutoloopCatalogError + AutoloopVariant" where
  "rebuilt v name order archived = try_new_variant (av_role_id v) (av_id v) name order archived"

definition try_new_cell ::
  "ThemeId \<Rightarrow> PhraseRoleId \<Rightarrow> VariantId \<Rightarrow> AutoloopEntryId \<Rightarrow> string \<Rightarrow> AutoloopCatalogError + AutoloopMatrixCell" where
  "try_new_cell tid role vid entry name =
     (if tid = 0 then Inl InvalidThemeId
      else and_then (validated_name name) (\<lambda>display_name.
        Inr \<lparr>cell_theme_id = tid, cell_role_id = role, cell_variant_id = vid, cell_entry_id = entry,
             cell_display_name = display_name\<rparr>))"

text \<open>The loop over \<open>themes.iter().enumerate()\<close> with the sets of identifiers and names.\<close>

fun validate_themes_from ::
  "ThemeId set \<Rightarrow> string set \<Rightarrow> nat \<Rightarrow> AutoloopTheme list \<Rightarrow> AutoloopCatalogError + unit" where
  "validate_themes_from ids names i [] = Inr ()"
| "validate_themes_from ids names i (t # ts) =
     (if at_id t \<in> ids then Inl LoopDuplicateThemeId
      else if to_ascii_lowercase (at_display_name t) \<in> names then Inl LoopDuplicateDisplayName
      else if unat (at_sort_order t) \<noteq> i + 1 then Inl LoopInvalidSortOrder
      else validate_themes_from (insert (at_id t) ids) (insert (to_ascii_lowercase (at_display_name t)) names) (i + 1) ts)"

definition validate_themes :: "AutoloopTheme list \<Rightarrow> AutoloopCatalogError + unit" where
  "validate_themes = validate_themes_from {} {} 0"

definition variant_key :: "AutoloopVariant \<Rightarrow> PhraseRoleId \<times> VariantId" where
  "variant_key v = (av_role_id v, av_id v)"

definition variant_name :: "AutoloopVariant \<Rightarrow> PhraseRoleId \<times> string" where
  "variant_name v = (av_role_id v, to_ascii_lowercase (av_display_name v))"

text \<open>\<open>entry(key).and_modify(|value| *value += 1).or_insert(1)\<close>; the counter has 16 bits.\<close>

definition next_order :: "(string \<rightharpoonup> u16) \<Rightarrow> string \<Rightarrow> u16" where
  "next_order orders key = (case orders key of Some n \<Rightarrow> n + 1 | None \<Rightarrow> 1)"

fun validate_variants_from ::
  "(PhraseRoleId \<times> VariantId) set \<Rightarrow> (PhraseRoleId \<times> string) set \<Rightarrow> (string \<rightharpoonup> u16) \<Rightarrow> AutoloopVariant list \<Rightarrow>
   AutoloopCatalogError + unit" where
  "validate_variants_from keys names orders [] = Inr ()"
| "validate_variants_from keys names orders (v # vs) =
     (if variant_key v \<in> keys then Inl DuplicateVariantId
      else if variant_name v \<in> names then Inl LoopDuplicateDisplayName
      else if av_sort_order v \<noteq> next_order orders (av_role_id v) then Inl LoopInvalidSortOrder
      else validate_variants_from (insert (variant_key v) keys) (insert (variant_name v) names)
             (orders(av_role_id v \<mapsto> next_order orders (av_role_id v))) vs)"

definition validate_variants :: "AutoloopVariant list \<Rightarrow> AutoloopCatalogError + unit" where
  "validate_variants = validate_variants_from {} {} Map.empty"

definition catalog_mapping_number :: "VariantId \<Rightarrow> nat option" where
  "catalog_mapping_number vid =
     (case strip_prefix ''mapping-'' vid of None \<Rightarrow> None | Some digits \<Rightarrow> parse_unsigned (2 ^ 16) digits)"

definition cell_row :: "AutoloopMatrixCell \<Rightarrow> PhraseRoleId \<times> VariantId" where
  "cell_row c = (cell_role_id c, cell_variant_id c)"

definition cell_key :: "AutoloopMatrixCell \<Rightarrow> ThemeId \<times> PhraseRoleId \<times> VariantId" where
  "cell_key c = (cell_theme_id c, cell_row c)"

definition cell_mapping_key :: "AutoloopMatrixCell \<Rightarrow> ThemeId \<times> VariantId" where
  "cell_mapping_key c = (cell_theme_id c, cell_variant_id c)"

fun check_cells ::
  "ThemeId set \<Rightarrow> (PhraseRoleId \<times> VariantId) set \<Rightarrow> (ThemeId \<times> PhraseRoleId \<times> VariantId) set \<Rightarrow>
   AutoloopEntryId set \<Rightarrow> AutoloopMatrixCell list \<Rightarrow> AutoloopCatalogError + unit" where
  "check_cells themes rows keys entries [] = Inr ()"
| "check_cells themes rows keys entries (c # cs) =
     (if cell_theme_id c \<notin> themes then Inl LoopUnknownTheme
      else if cell_row c \<notin> rows then Inl UnknownVariant
      else if cell_key c \<in> keys then Inl DuplicateCell
      else if cell_entry_id c \<in> entries then Inl DuplicateEntryId
      else check_cells themes rows (insert (cell_key c) keys) (insert (cell_entry_id c) entries) cs)"

fun check_mapping_cells :: "(ThemeId \<times> VariantId) set \<Rightarrow> AutoloopMatrixCell list \<Rightarrow> AutoloopCatalogError + unit" where
  "check_mapping_cells keys [] = Inr ()"
| "check_mapping_cells keys (c # cs) =
     (if catalog_mapping_number (cell_variant_id c) \<noteq> None then
        if cell_mapping_key c \<in> keys then Inl DuplicateMappingIdentity
        else check_mapping_cells (insert (cell_mapping_key c) keys) cs
      else check_mapping_cells keys cs)"

definition try_new_catalog ::
  "u64 \<Rightarrow> u16 \<Rightarrow> AutoloopTheme list \<Rightarrow> AutoloopVariant list \<Rightarrow> AutoloopMatrixCell list \<Rightarrow>
   AutoloopCatalogError + AutoloopCatalog" where
  "try_new_catalog revision defaults_version themes variants cells =
     (if revision = 0 \<and> (defaults_version \<noteq> 0 \<or> themes \<noteq> [] \<or> variants \<noteq> []) then Inl LoopInvalidRevision
      else if revision > 0 \<and> length themes \<noteq> 4 then Inl InvalidThemeCount
      else and_then (validate_themes themes) (\<lambda>_.
      and_then (validate_variants variants) (\<lambda>_.
      and_then (check_cells (at_id ` set themes) (variant_key ` set variants) {} {} cells) (\<lambda>_.
      and_then (check_mapping_cells {} cells) (\<lambda>_.
        Inr \<lparr>ac_revision = revision, ac_defaults_version = defaults_version, ac_themes = themes,
             ac_variants = variants, ac_cells = cells\<rparr>)))))"

definition validate_roles :: "AutoloopCatalog \<Rightarrow> PhraseRoleCatalog \<Rightarrow> AutoloopCatalogError + unit" where
  "validate_roles c roles =
     (let known = role_id ` set (rc_roles roles) in
      if list_ex (\<lambda>v. av_role_id v \<notin> known) (ac_variants c) then Inl UnknownPhraseRole else Inr ())"

section \<open>Questions\<close>

definition missing_cells :: "AutoloopCatalog \<Rightarrow> MissingAutoloopCell list" where
  "missing_cells c =
     (let populated = cell_key ` set (ac_cells c) in
      concat (map (\<lambda>t.
        concat (map (\<lambda>v.
            if (at_id t, variant_key v) \<notin> populated
            then [\<lparr>missing_theme_id = at_id t, missing_role_id = av_role_id v, missing_variant_id = av_id v\<rparr>]
            else [])
          (filter (\<lambda>v. \<not> av_archived v \<and> catalog_mapping_number (av_id v) = None) (ac_variants c))))
        (ac_themes c)))"

definition cell_at :: "AutoloopCatalog \<Rightarrow> ThemeId \<Rightarrow> PhraseRoleId \<Rightarrow> VariantId \<Rightarrow> AutoloopMatrixCell option" where
  "cell_at c tid role vid =
     find (\<lambda>x. cell_theme_id x = tid \<and> cell_role_id x = role \<and> cell_variant_id x = vid) (ac_cells c)"

definition resolution :: "AutoloopCatalog \<Rightarrow> AutoloopMatrixCell \<Rightarrow> AutoloopResolutionReason \<Rightarrow> AutoloopResolution" where
  "resolution c x reason =
     \<lparr>res_theme_id = cell_theme_id x, res_role_id = cell_role_id x, res_variant_id = cell_variant_id x,
      res_entry_id = cell_entry_id x, res_display_name = cell_display_name x,
      res_catalog_revision = ac_revision c, res_reason = reason\<rparr>"

definition has_theme :: "AutoloopCatalog \<Rightarrow> ThemeId \<Rightarrow> bool" where
  "has_theme c tid = list_ex (\<lambda>t. at_id t = tid) (ac_themes c)"

definition active_variants :: "AutoloopCatalog \<Rightarrow> PhraseRoleId \<Rightarrow> AutoloopVariant list" where
  "active_variants c role = filter (\<lambda>v. av_role_id v = role \<and> \<not> av_archived v) (ac_variants c)"

definition preferred_cell ::
  "AutoloopCatalog \<Rightarrow> ThemeId \<Rightarrow> PhraseRoleId \<Rightarrow> VariantId option \<Rightarrow> AutoloopMatrixCell option" where
  "preferred_cell c tid role preferred =
     (case preferred of
        None \<Rightarrow> None
      | Some vid \<Rightarrow>
          (case find (\<lambda>v. av_id v = vid) (active_variants c role) of
             None \<Rightarrow> None
           | Some v \<Rightarrow> cell_at c tid role (av_id v)))"

definition resolve ::
  "AutoloopCatalog \<Rightarrow> ThemeId \<Rightarrow> PhraseRoleId \<Rightarrow> VariantId option \<Rightarrow> u64 \<Rightarrow> AutoloopCatalogError + AutoloopResolution" where
  "resolve c tid role preferred expected =
     (if expected \<noteq> ac_revision c then Inl (LoopRevisionConflict expected (ac_revision c))
      else if \<not> has_theme c tid then Inl LoopUnknownTheme
      else if active_variants c role = [] then Inl MissingRoleCoverage
      else (case preferred_cell c tid role preferred of
              Some x \<Rightarrow> Inr (resolution c x ExactVariant)
            | None \<Rightarrow>
                and_then (ok_or (find_map (\<lambda>v. cell_at c tid role (av_id v)) (active_variants c role)) MissingRoleCoverage) (\<lambda>x.
                  Inr (resolution c x (case preferred of None \<Rightarrow> Automatic | Some vid \<Rightarrow> SameRoleFallback vid)))))"

definition require_active_role_variant ::
  "AutoloopCatalog \<Rightarrow> PhraseRoleId \<Rightarrow> VariantId \<Rightarrow> AutoloopCatalogError + AutoloopVariant" where
  "require_active_role_variant c role vid =
     ok_or (find (\<lambda>v. av_role_id v = role \<and> av_id v = vid \<and> \<not> av_archived v) (ac_variants c)) IncompatibleVariant"

fun check_overrides ::
  "AutoloopCatalog \<Rightarrow> PhraseRoleId \<Rightarrow> ThemeSpecificVariant list \<Rightarrow> AutoloopCatalogError + unit" where
  "check_overrides c role [] = Inr ()"
| "check_overrides c role (x # xs) =
     (if \<not> has_theme c (variant_theme_id x) then Inl LoopUnknownTheme
      else and_then (require_active_role_variant c role (variant_variant_id x)) (\<lambda>_.
        if cell_at c (variant_theme_id x) role (variant_variant_id x) = None then Inl MissingExactCell
        else check_overrides c role xs))"

fun validate_loop_strategy :: "AutoloopCatalog \<Rightarrow> PhraseRoleId \<Rightarrow> PhraseLoopStrategy \<Rightarrow> AutoloopCatalogError + unit" where
  "validate_loop_strategy c role Auto = Inr ()"
| "validate_loop_strategy c role (FixedVariant vid) =
     and_then (require_active_role_variant c role vid) (\<lambda>_. Inr ())"
| "validate_loop_strategy c role (ThemeSpecificExact overrides) = check_overrides c role overrides"

definition resolve_exact_strategy ::
  "AutoloopCatalog \<Rightarrow> ThemeId \<Rightarrow> PhraseRoleId \<Rightarrow> VariantId \<Rightarrow> AutoloopResolutionReason \<Rightarrow>
   AutoloopCatalogError + AutoloopResolution" where
  "resolve_exact_strategy c tid role vid reason =
     and_then (require_active_role_variant c role vid) (\<lambda>_.
     and_then (ok_or (cell_at c tid role vid) MissingExactCell) (\<lambda>x. Inr (resolution c x reason)))"

fun resolve_strategy ::
  "AutoloopCatalog \<Rightarrow> ThemeId \<Rightarrow> PhraseRoleId \<Rightarrow> PhraseLoopStrategy \<Rightarrow> u64 \<Rightarrow> AutoloopCatalogError + AutoloopResolution" where
  "resolve_strategy c tid role Auto expected = resolve c tid role None expected"
| "resolve_strategy c tid role (FixedVariant vid) expected = resolve_exact_strategy c tid role vid ExactVariant"
| "resolve_strategy c tid role (ThemeSpecificExact overrides) expected =
     (case find (\<lambda>x. variant_theme_id x = tid) overrides of
        None \<Rightarrow> resolve c tid role None expected
      | Some x \<Rightarrow> resolve_exact_strategy c tid role (variant_variant_id x) ThemeSpecific)"

definition resolve_loop_strategy ::
  "AutoloopCatalog \<Rightarrow> ThemeId \<Rightarrow> PhraseRoleId \<Rightarrow> PhraseLoopStrategy \<Rightarrow> u64 \<Rightarrow> AutoloopCatalogError + AutoloopResolution" where
  "resolve_loop_strategy c tid role strategy expected =
     (if expected \<noteq> ac_revision c then Inl (LoopRevisionConflict expected (ac_revision c))
      else if \<not> has_theme c tid then Inl LoopUnknownTheme
      else resolve_strategy c tid role strategy expected)"

section \<open>Edits\<close>

definition revised ::
  "AutoloopCatalog \<Rightarrow> AutoloopTheme list \<Rightarrow> AutoloopVariant list \<Rightarrow> AutoloopMatrixCell list \<Rightarrow>
   AutoloopCatalogError + AutoloopCatalog" where
  "revised c themes variants cells =
     and_then (ok_or (checked_add (ac_revision c) 1) LoopArithmeticOverflow) (\<lambda>revision.
       try_new_catalog revision (ac_defaults_version c) themes variants cells)"

definition variant_index :: "AutoloopCatalog \<Rightarrow> PhraseRoleId \<Rightarrow> VariantId \<Rightarrow> AutoloopCatalogError + nat" where
  "variant_index c role vid =
     ok_or (position (\<lambda>v. av_role_id v = role \<and> av_id v = vid) (ac_variants c)) UnknownVariant"

definition ensure_unique_variant_name ::
  "AutoloopCatalog \<Rightarrow> PhraseRoleId \<Rightarrow> string \<Rightarrow> VariantId option \<Rightarrow> AutoloopCatalogError + unit" where
  "ensure_unique_variant_name c role name except =
     (if list_ex (\<lambda>v. av_role_id v = role \<and> Some (av_id v) \<noteq> except \<and> eq_ignore_ascii_case (av_display_name v) name)
           (ac_variants c)
      then Inl LoopDuplicateDisplayName else Inr ())"

definition sort_variants :: "AutoloopVariant list \<Rightarrow> AutoloopVariant list" where
  "sort_variants = sort_key (\<lambda>v. (av_role_id v, av_sort_order v, av_id v))"

text \<open>A vector collected into a \<open>HashMap\<close>: of two entries with one key the later one stays.\<close>

definition collect_map :: "('k \<times> 'v) list \<Rightarrow> 'k \<rightharpoonup> 'v" where
  "collect_map kvs = map_of (rev kvs)"

definition sort_cells ::
  "AutoloopMatrixCell list \<Rightarrow> AutoloopTheme list \<Rightarrow> AutoloopVariant list \<Rightarrow> AutoloopMatrixCell list" where
  "sort_cells cells themes variants =
     (let theme_orders = collect_map (map (\<lambda>t. (at_id t, at_sort_order t)) themes);
          variant_orders = collect_map (map (\<lambda>v. (variant_key v, av_sort_order v)) variants) in
      sort_key (\<lambda>c. (theme_orders (cell_theme_id c), cell_role_id c, variant_orders (cell_row c))) cells)"

definition generated_entry_id :: "ThemeId \<Rightarrow> PhraseRoleId \<Rightarrow> VariantId \<Rightarrow> AutoloopCatalogError + AutoloopEntryId" where
  "generated_entry_id tid role vid =
     map_err (\<lambda>_. LoopIdentifierOverflow)
       (try_new_text_identifier ''Autoloop entry id''
          (''theme-'' @ show_nat (unat tid) @ ''--'' @ role @ ''--'' @ vid))"

text \<open>The renumbering loop of \<open>prune_unused_variants\<close>.\<close>

fun renumber_variants :: "(string \<rightharpoonup> u16) \<Rightarrow> AutoloopVariant list \<Rightarrow> AutoloopCatalogError + AutoloopVariant list" where
  "renumber_variants orders [] = Inr []"
| "renumber_variants orders (v # vs) =
     and_then (rebuilt v (av_display_name v) (next_order orders (av_role_id v)) (av_archived v)) (\<lambda>w.
     and_then (renumber_variants (orders(av_role_id v \<mapsto> next_order orders (av_role_id v))) vs) (\<lambda>ws. Inr (w # ws)))"

definition prune_unused_variants ::
  "AutoloopVariant list \<Rightarrow> AutoloopMatrixCell list \<Rightarrow> AutoloopCatalogError + AutoloopVariant list" where
  "prune_unused_variants variants cells =
     renumber_variants Map.empty
       (sort_variants (filter (\<lambda>v. list_ex (\<lambda>x. cell_role_id x = av_role_id v \<and> cell_variant_id x = av_id v) cells) variants))"

definition rename_theme :: "AutoloopCatalog \<Rightarrow> ThemeId \<Rightarrow> string \<Rightarrow> AutoloopCatalogError + AutoloopCatalog" where
  "rename_theme c tid name =
     and_then (validated_name name) (\<lambda>display_name.
       if list_ex (\<lambda>t. at_id t \<noteq> tid \<and> eq_ignore_ascii_case (at_display_name t) display_name) (ac_themes c)
       then Inl LoopDuplicateDisplayName
       else and_then (ok_or (position (\<lambda>t. at_id t = tid) (ac_themes c)) LoopUnknownTheme) (\<lambda>i.
         if at_display_name (ac_themes c ! i) = display_name then Inl LoopNoChange
         else and_then (renamed (ac_themes c ! i) display_name) (\<lambda>t.
           revised c ((ac_themes c)[i := t]) (ac_variants c) (ac_cells c))))"

fun fresh_variant_error :: "FreshIdError \<Rightarrow> AutoloopCatalogError" where
  "fresh_variant_error IdentifierRefused = LoopIdentifierOverflow"
| "fresh_variant_error SuffixOverflow = LoopArithmeticOverflow"

definition add_variant :: "AutoloopCatalog \<Rightarrow> PhraseRoleId \<Rightarrow> string \<Rightarrow> AutoloopCatalogError + AutoloopCatalog" where
  "add_variant c role name =
     and_then (validated_name name) (\<lambda>display_name.
     and_then (ensure_unique_variant_name c role display_name None) (\<lambda>_.
       let role_variants = filter (\<lambda>v. av_role_id v = role) (ac_variants c) in
       and_then (map_err fresh_variant_error (fresh_id ''variant id'' ''variant-''
                   (\<lambda>candidate. list_ex (\<lambda>v. av_id v = candidate) role_variants) 1)) (\<lambda>vid.
         if length role_variants + 1 \<ge> 2 ^ 16 then Inl TooManyVariants
         else and_then (try_new_variant role vid display_name (of_nat (length role_variants + 1)) False) (\<lambda>v.
           revised c (ac_themes c) (sort_variants (ac_variants c @ [v])) (ac_cells c)))))"

definition rename_variant ::
  "AutoloopCatalog \<Rightarrow> PhraseRoleId \<Rightarrow> VariantId \<Rightarrow> string \<Rightarrow> AutoloopCatalogError + AutoloopCatalog" where
  "rename_variant c role vid name =
     and_then (validated_name name) (\<lambda>display_name.
     and_then (ensure_unique_variant_name c role display_name (Some vid)) (\<lambda>_.
     and_then (variant_index c role vid) (\<lambda>i.
       let v = ac_variants c ! i in
       if av_display_name v = display_name then Inl LoopNoChange
       else and_then (rebuilt v display_name (av_sort_order v) (av_archived v)) (\<lambda>w.
         revised c (ac_themes c) ((ac_variants c)[i := w]) (ac_cells c)))))"

fun target_order :: "AutoloopVariantMove \<Rightarrow> u16 \<Rightarrow> u16 option" where
  "target_order MoveEarlier order = checked_sub order 1"
| "target_order MoveLater order = checked_add order 1"

definition move_variant ::
  "AutoloopCatalog \<Rightarrow> PhraseRoleId \<Rightarrow> VariantId \<Rightarrow> AutoloopVariantMove \<Rightarrow> AutoloopCatalogError + AutoloopCatalog" where
  "move_variant c role vid direction =
     and_then (variant_index c role vid) (\<lambda>i.
       let current = ac_variants c ! i in
       and_then (ok_or (target_order direction (av_sort_order current)) LoopNoChange) (\<lambda>order.
       and_then (ok_or (position (\<lambda>v. av_role_id v = role \<and> av_sort_order v = order) (ac_variants c)) LoopNoChange) (\<lambda>j.
         let target = ac_variants c ! j in
         and_then (rebuilt current (av_display_name current) order (av_archived current)) (\<lambda>current'.
         and_then (rebuilt target (av_display_name target) (av_sort_order current) (av_archived target)) (\<lambda>target'.
           revised c (ac_themes c) (sort_variants ((ac_variants c)[i := current', j := target'])) (ac_cells c))))))"

definition set_variant_archived ::
  "AutoloopCatalog \<Rightarrow> PhraseRoleId \<Rightarrow> VariantId \<Rightarrow> bool \<Rightarrow> AutoloopCatalogError + AutoloopCatalog" where
  "set_variant_archived c role vid archived =
     and_then (variant_index c role vid) (\<lambda>i.
       let v = ac_variants c ! i in
       if av_archived v = archived then Inl LoopNoChange
       else if archived \<and> length (filter (\<lambda>v. av_role_id v = role \<and> \<not> av_archived v) (ac_variants c)) = 1
       then Inl NoActiveVariantsForRole
       else and_then (rebuilt v (av_display_name v) (av_sort_order v) archived) (\<lambda>w.
         revised c (ac_themes c) ((ac_variants c)[i := w]) (ac_cells c)))"

definition edited_cells ::
  "AutoloopCatalog \<Rightarrow> ThemeId \<Rightarrow> PhraseRoleId \<Rightarrow> VariantId \<Rightarrow> string option \<Rightarrow>
   AutoloopCatalogError + AutoloopMatrixCell list" where
  "edited_cells c tid role vid name =
     (let cells = ac_cells c;
          existing = position (\<lambda>x. cell_theme_id x = tid \<and> cell_role_id x = role \<and> cell_variant_id x = vid) cells in
      case (existing, name) of
        (Some i, Some name) \<Rightarrow>
          and_then (validated_name name) (\<lambda>display_name.
            if cell_display_name (cells ! i) = display_name then Inl LoopNoChange
            else and_then (try_new_cell tid role vid (cell_entry_id (cells ! i)) display_name) (\<lambda>x.
              Inr (cells[i := x])))
      | (None, Some name) \<Rightarrow>
          and_then (generated_entry_id tid role vid) (\<lambda>entry.
          and_then (try_new_cell tid role vid entry name) (\<lambda>x. Inr (cells @ [x])))
      | (Some i, None) \<Rightarrow> Inr (remove_at i cells)
      | (None, None) \<Rightarrow> Inl LoopNoChange)"

definition set_cell ::
  "AutoloopCatalog \<Rightarrow> ThemeId \<Rightarrow> PhraseRoleId \<Rightarrow> VariantId \<Rightarrow> string option \<Rightarrow> AutoloopCatalogError + AutoloopCatalog" where
  "set_cell c tid role vid name =
     (if \<not> has_theme c tid then Inl LoopUnknownTheme
      else and_then (variant_index c role vid) (\<lambda>_.
      and_then (edited_cells c tid role vid name) (\<lambda>cells.
        revised c (ac_themes c) (ac_variants c) (sort_cells cells (ac_themes c) (ac_variants c)))))"

definition mapping_position :: "AutoloopCatalog \<Rightarrow> ThemeId \<Rightarrow> VariantId \<Rightarrow> nat option" where
  "mapping_position c tid mapping =
     position (\<lambda>x. cell_theme_id x = tid \<and> cell_variant_id x = mapping) (ac_cells c)"

text \<open>The last three statements of \<open>set_mapping\<close> and \<open>clear_mapping\<close>.\<close>

definition pruned_revision ::
  "AutoloopCatalog \<Rightarrow> AutoloopVariant list \<Rightarrow> AutoloopMatrixCell list \<Rightarrow> AutoloopCatalogError + AutoloopCatalog" where
  "pruned_revision c variants cells =
     and_then (prune_unused_variants variants cells) (\<lambda>pruned.
       revised c (ac_themes c) pruned (sort_cells cells (ac_themes c) pruned))"

definition with_mapping_variant ::
  "AutoloopVariant list \<Rightarrow> PhraseRoleId \<Rightarrow> VariantId \<Rightarrow> AutoloopCatalogError + AutoloopVariant list" where
  "with_mapping_variant variants role mapping =
     (if list_ex (\<lambda>v. av_role_id v = role \<and> av_id v = mapping) variants then Inr variants
      else let n = length (filter (\<lambda>v. av_role_id v = role) variants) + 1 in
        if n \<ge> 2 ^ 16 then Inl TooManyVariants
        else and_then (try_new_variant role mapping (''Output '' @ mapping) (of_nat n) False) (\<lambda>v.
          Inr (variants @ [v])))"

definition set_mapping ::
  "AutoloopCatalog \<Rightarrow> ThemeId \<Rightarrow> VariantId \<Rightarrow> PhraseRoleId \<Rightarrow> string option \<Rightarrow>
   AutoloopCatalogError + AutoloopCatalog" where
  "set_mapping c tid mapping role name =
     (if \<not> has_theme c tid then Inl LoopUnknownTheme
      else
        let existing = mapping_position c tid mapping;
            existing_cell = map_option (\<lambda>i. ac_cells c ! i) existing;
            cells = (case existing of Some i \<Rightarrow> remove_at i (ac_cells c) | None \<Rightarrow> ac_cells c) in
        case name of
          None \<Rightarrow> if existing_cell = None then Inl LoopNoChange else pruned_revision c (ac_variants c) cells
        | Some name \<Rightarrow>
            and_then (validated_name name) (\<lambda>display_name.
              if (case existing_cell of
                    Some x \<Rightarrow> cell_role_id x = role \<and> cell_display_name x = display_name
                  | None \<Rightarrow> False)
              then Inl LoopNoChange
              else and_then (with_mapping_variant (ac_variants c) role mapping) (\<lambda>variants.
                and_then (map_err (\<lambda>_. LoopIdentifierOverflow) (try_new_text_identifier ''Autoloop entry id''
                            (''theme-'' @ show_nat (unat tid) @ ''--'' @ mapping))) (\<lambda>entry.
                and_then (try_new_cell tid role mapping entry display_name) (\<lambda>x.
                  pruned_revision c variants (cells @ [x]))))))"

definition clear_mapping :: "AutoloopCatalog \<Rightarrow> ThemeId \<Rightarrow> VariantId \<Rightarrow> AutoloopCatalogError + AutoloopCatalog" where
  "clear_mapping c tid mapping =
     (if \<not> has_theme c tid then Inl LoopUnknownTheme
      else (case mapping_position c tid mapping of
              None \<Rightarrow> Inl LoopNoChange
            | Some i \<Rightarrow> pruned_revision c (ac_variants c) (remove_at i (ac_cells c))))"

section \<open>Well-formed catalogues\<close>

definition theme_ok :: "AutoloopTheme \<Rightarrow> bool" where
  "theme_ok t \<longleftrightarrow> at_id t \<noteq> 0 \<and> at_sort_order t \<noteq> 0 \<and> name_ok 100 (at_display_name t)"

definition variant_ok :: "AutoloopVariant \<Rightarrow> bool" where
  "variant_ok v \<longleftrightarrow> av_sort_order v \<noteq> 0 \<and> name_ok 100 (av_display_name v)"

definition cell_ok :: "AutoloopMatrixCell \<Rightarrow> bool" where
  "cell_ok x \<longleftrightarrow> cell_theme_id x \<noteq> 0 \<and> name_ok 100 (cell_display_name x)"

definition themes_ok :: "AutoloopTheme list \<Rightarrow> bool" where
  "themes_ok ts \<longleftrightarrow> distinct (map at_id ts) \<and> distinct (map (\<lambda>t. to_ascii_lowercase (at_display_name t)) ts)
     \<and> (\<forall>i < length ts. unat (at_sort_order (ts ! i)) = i + 1)"

text \<open>The numbers \<open>b + 1\<close>, \<open>b + 2\<close> and so on; the variants of each role carry them in order.\<close>

fun counted :: "u16 \<Rightarrow> nat \<Rightarrow> u16 list" where
  "counted b 0 = []"
| "counted b (Suc n) = (b + 1) # counted (b + 1) n"

definition of_role :: "PhraseRoleId \<Rightarrow> AutoloopVariant list \<Rightarrow> AutoloopVariant list" where
  "of_role role vs = filter (\<lambda>v. av_role_id v = role) vs"

definition numbered_from :: "(string \<rightharpoonup> u16) \<Rightarrow> AutoloopVariant list \<Rightarrow> bool" where
  "numbered_from orders vs \<longleftrightarrow> (\<forall>role. map av_sort_order (of_role role vs)
      = counted (case orders role of None \<Rightarrow> 0 | Some n \<Rightarrow> n) (length (of_role role vs)))"

definition variants_ok :: "AutoloopVariant list \<Rightarrow> bool" where
  "variants_ok vs \<longleftrightarrow> distinct (map variant_key vs) \<and> distinct (map variant_name vs) \<and> numbered_from Map.empty vs"

definition cells_ok :: "ThemeId set \<Rightarrow> (PhraseRoleId \<times> VariantId) set \<Rightarrow> AutoloopMatrixCell list \<Rightarrow> bool" where
  "cells_ok themes rows cs \<longleftrightarrow> (\<forall>x \<in> set cs. cell_theme_id x \<in> themes \<and> cell_row x \<in> rows)
     \<and> distinct (map cell_key cs) \<and> distinct (map cell_entry_id cs)
     \<and> distinct (map cell_mapping_key (filter (\<lambda>x. catalog_mapping_number (cell_variant_id x) \<noteq> None) cs))"

definition catalog_ok :: "AutoloopCatalog \<Rightarrow> bool" where
  "catalog_ok c \<longleftrightarrow>
     (ac_revision c = 0 \<longrightarrow> ac_defaults_version c = 0 \<and> ac_themes c = [] \<and> ac_variants c = [])
   \<and> (ac_revision c > 0 \<longrightarrow> length (ac_themes c) = 4)
   \<and> themes_ok (ac_themes c) \<and> variants_ok (ac_variants c)
   \<and> cells_ok (at_id ` set (ac_themes c)) (variant_key ` set (ac_variants c)) (ac_cells c)
   \<and> (\<forall>t \<in> set (ac_themes c). theme_ok t) \<and> (\<forall>v \<in> set (ac_variants c). variant_ok v)
   \<and> (\<forall>x \<in> set (ac_cells c). cell_ok x)"

lemma of_role_simps [simp]:
  "of_role role [] = []"
  "of_role role (v # vs) = (if av_role_id v = role then v # of_role role vs else of_role role vs)"
  "of_role role (vs @ ws) = of_role role vs @ of_role role ws"
  by (simp_all add: of_role_def)

lemma numbered_from_simps [simp]:
  "numbered_from orders []"
  "numbered_from orders (v # vs) \<longleftrightarrow> av_sort_order v = next_order orders (av_role_id v)
     \<and> numbered_from (orders(av_role_id v \<mapsto> next_order orders (av_role_id v))) vs"
proof -
  show "numbered_from orders []" by (simp add: numbered_from_def)
  have next_eq: "next_order orders (av_role_id v) = (case orders (av_role_id v) of None \<Rightarrow> 0 | Some n \<Rightarrow> n) + 1"
    by (simp add: next_order_def split: option.split)
  show "numbered_from orders (v # vs) \<longleftrightarrow> av_sort_order v = next_order orders (av_role_id v)
     \<and> numbered_from (orders(av_role_id v \<mapsto> next_order orders (av_role_id v))) vs"
    unfolding numbered_from_def next_eq by (auto split: if_splits)
qed

lemma validate_themes_from_Inr:
  "validate_themes_from ids names n ts = Inr () \<longleftrightarrow>
     distinct (map at_id ts) \<and> (\<forall>t \<in> set ts. at_id t \<notin> ids)
   \<and> distinct (map (\<lambda>t. to_ascii_lowercase (at_display_name t)) ts)
   \<and> (\<forall>t \<in> set ts. to_ascii_lowercase (at_display_name t) \<notin> names)
   \<and> (\<forall>i < length ts. unat (at_sort_order (ts ! i)) = n + i + 1)"
proof (induction ts arbitrary: ids names n)
  case (Cons t ts)
  have "(\<forall>i < length (t # ts). unat (at_sort_order ((t # ts) ! i)) = n + i + 1)
      \<longleftrightarrow> unat (at_sort_order t) = n + 1 \<and> (\<forall>i < length ts. unat (at_sort_order (ts ! i)) = (n + 1) + i + 1)"
    by (auto simp: less_Suc_eq_0_disj)
  then show ?case unfolding validate_themes_from.simps using Cons.IH by (auto intro: rev_image_eqI)
qed simp

lemma validate_variants_from_Inr:
  "validate_variants_from keys names orders vs = Inr () \<longleftrightarrow>
     distinct (map variant_key vs) \<and> (\<forall>v \<in> set vs. variant_key v \<notin> keys)
   \<and> distinct (map variant_name vs) \<and> (\<forall>v \<in> set vs. variant_name v \<notin> names) \<and> numbered_from orders vs"
  by (induction vs arbitrary: keys names orders) (auto intro: rev_image_eqI)

lemma check_cells_Inr:
  "check_cells themes rows keys entries cs = Inr () \<longleftrightarrow>
     (\<forall>x \<in> set cs. cell_theme_id x \<in> themes \<and> cell_row x \<in> rows \<and> cell_key x \<notin> keys \<and> cell_entry_id x \<notin> entries)
   \<and> distinct (map cell_key cs) \<and> distinct (map cell_entry_id cs)"
  by (induction cs arbitrary: keys entries) (auto intro: rev_image_eqI)

lemma check_mapping_cells_Inr:
  "check_mapping_cells keys cs = Inr () \<longleftrightarrow>
     (let ms = filter (\<lambda>x. catalog_mapping_number (cell_variant_id x) \<noteq> None) cs in
      distinct (map cell_mapping_key ms) \<and> (\<forall>x \<in> set ms. cell_mapping_key x \<notin> keys))"
  by (induction cs arbitrary: keys) (auto simp: Let_def intro: rev_image_eqI)

lemma try_new_catalog_Inr:
  "try_new_catalog revision defaults themes variants cells = Inr c \<longleftrightarrow>
     c = \<lparr>ac_revision = revision, ac_defaults_version = defaults, ac_themes = themes, ac_variants = variants,
          ac_cells = cells\<rparr>
   \<and> (revision = 0 \<longrightarrow> defaults = 0 \<and> themes = [] \<and> variants = []) \<and> (revision > 0 \<longrightarrow> length themes = 4)
   \<and> themes_ok themes \<and> variants_ok variants \<and> cells_ok (at_id ` set themes) (variant_key ` set variants) cells"
  by (auto simp: try_new_catalog_def result_simps validate_themes_def validate_themes_from_Inr validate_variants_def
      validate_variants_from_Inr check_cells_Inr check_mapping_cells_Inr themes_ok_def variants_ok_def cells_ok_def
      Let_def word_gt_0)

lemma loops_revised_Inr:
  "revised c themes variants cells = Inr d \<longleftrightarrow>
     (\<exists>n. checked_add (ac_revision c) 1 = Some n
        \<and> d = \<lparr>ac_revision = n, ac_defaults_version = ac_defaults_version c, ac_themes = themes,
               ac_variants = variants, ac_cells = cells\<rparr>
        \<and> length themes = 4 \<and> themes_ok themes \<and> variants_ok variants
        \<and> cells_ok (at_id ` set themes) (variant_key ` set variants) cells)"
proof -
  have "n > 0" if "checked_add (ac_revision c) 1 = Some n" for n
    using checked_add_SomeD [OF that] by (simp add: word_less_nat_alt)
  then show ?thesis by (auto simp: revised_def result_simps try_new_catalog_Inr)
qed

lemma validated_name_Inr: "validated_name v = Inr s \<longleftrightarrow> s = trim v \<and> name_ok 100 s"
  by (auto simp: validated_name_def name_ok_def Let_def)

lemma try_new_Inr:
  "try_new_theme tid name order = Inr t \<longleftrightarrow>
     t = \<lparr>at_id = tid, at_display_name = trim name, at_sort_order = order\<rparr> \<and> theme_ok t"
  "try_new_variant role vid name order archived = Inr v \<longleftrightarrow>
     v = \<lparr>av_role_id = role, av_id = vid, av_display_name = trim name, av_sort_order = order, av_archived = archived\<rparr>
   \<and> variant_ok v"
  "try_new_cell tid role vid entry name = Inr x \<longleftrightarrow>
     x = \<lparr>cell_theme_id = tid, cell_role_id = role, cell_variant_id = vid, cell_entry_id = entry,
          cell_display_name = trim name\<rparr> \<and> cell_ok x"
  by (auto simp: try_new_theme_def try_new_variant_def try_new_cell_def result_simps validated_name_Inr
      theme_ok_def variant_ok_def cell_ok_def)

lemma rebuilt_Inr:
  "rebuilt v name order archived = Inr w \<longleftrightarrow>
     w = v\<lparr>av_display_name := trim name, av_sort_order := order, av_archived := archived\<rparr> \<and> variant_ok w"
  by (cases v) (auto simp: rebuilt_def try_new_Inr)

lemma renamed_Inr: "renamed t name = Inr u \<longleftrightarrow> u = t\<lparr>at_display_name := trim name\<rparr> \<and> theme_ok u"
  by (cases t) (auto simp: renamed_def try_new_Inr)

section \<open>Every edit keeps the catalogue well formed\<close>

datatype LoopEdit =
    RenameTheme ThemeId string
  | AddVariant PhraseRoleId string
  | RenameVariant PhraseRoleId VariantId string
  | MoveVariant PhraseRoleId VariantId AutoloopVariantMove
  | SetVariantArchived PhraseRoleId VariantId bool
  | SetCell ThemeId PhraseRoleId VariantId "string option"
  | SetMapping ThemeId VariantId PhraseRoleId "string option"
  | ClearMapping ThemeId VariantId

fun apply_loop_edit :: "AutoloopCatalog \<Rightarrow> LoopEdit \<Rightarrow> AutoloopCatalogError + AutoloopCatalog" where
  "apply_loop_edit c (RenameTheme tid name) = rename_theme c tid name"
| "apply_loop_edit c (AddVariant role name) = add_variant c role name"
| "apply_loop_edit c (RenameVariant role vid name) = rename_variant c role vid name"
| "apply_loop_edit c (MoveVariant role vid direction) = move_variant c role vid direction"
| "apply_loop_edit c (SetVariantArchived role vid archived) = set_variant_archived c role vid archived"
| "apply_loop_edit c (SetCell tid role vid name) = set_cell c tid role vid name"
| "apply_loop_edit c (SetMapping tid mapping role name) = set_mapping c tid mapping role name"
| "apply_loop_edit c (ClearMapping tid mapping) = clear_mapping c tid mapping"

definition loop_revision :: "AutoloopCatalog \<Rightarrow> AutoloopCatalog \<Rightarrow> bool" where
  "loop_revision c d \<longleftrightarrow> catalog_ok d \<and> unat (ac_revision d) = unat (ac_revision c) + 1
     \<and> map at_id (ac_themes d) = map at_id (ac_themes c)"

lemma loop_revisionI:
  assumes "revised c themes variants cells = Inr d"
    and "\<forall>t \<in> set themes. theme_ok t" "\<forall>v \<in> set variants. variant_ok v" "\<forall>x \<in> set cells. cell_ok x"
    and "map at_id themes = map at_id (ac_themes c)"
  shows "loop_revision c d"
proof -
  obtain n where n: "checked_add (ac_revision c) 1 = Some n"
    and d: "d = \<lparr>ac_revision = n, ac_defaults_version = ac_defaults_version c, ac_themes = themes,
               ac_variants = variants, ac_cells = cells\<rparr>"
      "length themes = 4" "themes_ok themes" "variants_ok variants"
      "cells_ok (at_id ` set themes) (variant_key ` set variants) cells"
    using assms(1) unfolding loops_revised_Inr by blast
  have "unat n = unat (ac_revision c) + 1" using checked_add_SomeD [OF n] by simp
  with d assms show ?thesis by (auto simp: loop_revision_def catalog_ok_def)
qed

lemma catalog_parts:
  assumes "catalog_ok c"
  shows "\<forall>t \<in> set (ac_themes c). theme_ok t" "\<forall>v \<in> set (ac_variants c). variant_ok v"
    "\<forall>x \<in> set (ac_cells c). cell_ok x"
  using assms by (simp_all add: catalog_ok_def)

lemma update_all: "\<forall>x \<in> set xs. P x \<Longrightarrow> P y \<Longrightarrow> \<forall>x \<in> set (xs[i := y]). P x"
  using set_update_subset_insert [of xs i y] by auto

lemma remove_at_all: "\<forall>x \<in> set xs. P x \<Longrightarrow> \<forall>x \<in> set (remove_at i xs). P x"
  using set_remove_at [of i xs] by auto

lemma set_sort_variants [simp]: "set (sort_variants vs) = set vs"
  by (simp add: sort_variants_def)

lemma set_sort_cells [simp]: "set (sort_cells cs ts vs) = set cs"
  by (simp add: sort_cells_def Let_def)

lemma renumber_variants_ok: "renumber_variants orders vs = Inr ws \<Longrightarrow> \<forall>w \<in> set ws. variant_ok w"
  by (induction vs arbitrary: orders ws) (auto simp: result_simps rebuilt_Inr)

lemma pruned_revision_step:
  assumes ok: "catalog_ok c" and d: "pruned_revision c vs cs = Inr d" and cs: "\<forall>x \<in> set cs. cell_ok x"
  shows "loop_revision c d"
proof -
  obtain ws where ws: "prune_unused_variants vs cs = Inr ws"
    and d': "revised c (ac_themes c) ws (sort_cells cs (ac_themes c) ws) = Inr d"
    using d by (auto simp: pruned_revision_def result_simps)
  have "\<forall>w \<in> set ws. variant_ok w" using ws renumber_variants_ok unfolding prune_unused_variants_def by blast
  then show ?thesis using catalog_parts [OF ok] cs by (intro loop_revisionI [OF d']) auto
qed

lemma rename_theme_revision:
  assumes ok: "catalog_ok c" and d: "rename_theme c tid name = Inr d"
  shows "loop_revision c d"
proof -
  obtain i t where i: "position (\<lambda>t. at_id t = tid) (ac_themes c) = Some i"
    and t: "renamed (ac_themes c ! i) (trim name) = Inr t"
    and d': "revised c ((ac_themes c)[i := t]) (ac_variants c) (ac_cells c) = Inr d"
    using d by (auto simp: rename_theme_def result_simps validated_name_Inr split: if_splits)
  have "i < length (ac_themes c)" using position_SomeD [OF i] by simp
  moreover have "theme_ok t" "at_id t = at_id (ac_themes c ! i)" using t by (auto simp: renamed_Inr)
  ultimately show ?thesis
    using catalog_parts [OF ok]
    by (intro loop_revisionI [OF d'] update_all) (auto simp: map_update list_update_same_conv)
qed

lemma variant_edit_revision:
  assumes ok: "catalog_ok c" and d: "revised c (ac_themes c) vs (ac_cells c) = Inr d" and vs: "\<forall>v \<in> set vs. variant_ok v"
  shows "loop_revision c d"
  using loop_revisionI [OF d] catalog_parts [OF ok] vs by simp

lemma add_variant_revision:
  assumes ok: "catalog_ok c" and d: "add_variant c role name = Inr d"
  shows "loop_revision c d"
proof -
  obtain v order vid where v: "try_new_variant role vid (trim name) order False = Inr v"
    and d': "revised c (ac_themes c) (sort_variants (ac_variants c @ [v])) (ac_cells c) = Inr d"
    using d by (auto simp: add_variant_def Let_def result_simps validated_name_Inr split: if_splits)
  have "variant_ok v" using v unfolding try_new_Inr by blast
  then show ?thesis using variant_edit_revision [OF ok d'] catalog_parts [OF ok] by auto
qed

lemma rename_variant_revision:
  assumes ok: "catalog_ok c" and d: "rename_variant c role vid name = Inr d"
  shows "loop_revision c d"
proof -
  obtain i w where w: "variant_ok w"
    and d': "revised c (ac_themes c) ((ac_variants c)[i := w]) (ac_cells c) = Inr d"
    using d by (auto simp: rename_variant_def Let_def result_simps rebuilt_Inr split: if_splits)
  show ?thesis using variant_edit_revision [OF ok d' update_all] catalog_parts [OF ok] w by simp
qed

lemma set_variant_archived_revision:
  assumes ok: "catalog_ok c" and d: "set_variant_archived c role vid a = Inr d"
  shows "loop_revision c d"
proof -
  obtain i w where w: "variant_ok w"
    and d': "revised c (ac_themes c) ((ac_variants c)[i := w]) (ac_cells c) = Inr d"
    using d by (auto simp: set_variant_archived_def Let_def result_simps rebuilt_Inr split: if_splits)
  show ?thesis using variant_edit_revision [OF ok d' update_all] catalog_parts [OF ok] w by simp
qed

lemma move_variant_revision:
  assumes ok: "catalog_ok c" and d: "move_variant c role vid direction = Inr d"
  shows "loop_revision c d"
proof -
  obtain i j v w where vw: "variant_ok v" "variant_ok w"
    and d': "revised c (ac_themes c) (sort_variants ((ac_variants c)[i := v, j := w])) (ac_cells c) = Inr d"
    using d by (auto simp: move_variant_def Let_def result_simps rebuilt_Inr)
  have "\<forall>x \<in> set ((ac_variants c)[i := v, j := w]). variant_ok x"
    by (intro update_all catalog_parts(2) [OF ok] vw)
  then show ?thesis using variant_edit_revision [OF ok d'] by simp
qed

lemma set_cell_revision:
  assumes ok: "catalog_ok c" and d: "set_cell c tid role vid name = Inr d"
  shows "loop_revision c d"
proof -
  obtain cs where cs: "edited_cells c tid role vid name = Inr cs"
    and d': "revised c (ac_themes c) (ac_variants c) (sort_cells cs (ac_themes c) (ac_variants c)) = Inr d"
    using d by (auto simp: set_cell_def result_simps split: if_splits)
  have "\<forall>x \<in> set cs. cell_ok x"
    using cs update_all [OF catalog_parts(3) [OF ok]] remove_at_all [OF catalog_parts(3) [OF ok]] catalog_parts(3) [OF ok]
    by (fastforce simp: edited_cells_def Let_def result_simps try_new_Inr split: option.splits if_splits)
  then show ?thesis using catalog_parts [OF ok] by (intro loop_revisionI [OF d']) auto
qed

lemma set_mapping_revision:
  assumes ok: "catalog_ok c" and d: "set_mapping c tid mapping role name = Inr d"
  shows "loop_revision c d"
proof -
  let ?cs = "case mapping_position c tid mapping of Some i \<Rightarrow> remove_at i (ac_cells c) | None \<Rightarrow> ac_cells c"
  have cs: "\<forall>x \<in> set ?cs. cell_ok x"
    using catalog_parts(3) [OF ok] remove_at_all [OF catalog_parts(3) [OF ok]] by (simp split: option.split)
  show ?thesis
  proof (cases name)
    case None
    then have "pruned_revision c (ac_variants c) ?cs = Inr d"
      using d by (auto simp: set_mapping_def Let_def split: if_splits)
    then show ?thesis using pruned_revision_step [OF ok _ cs] by simp
  next
    case (Some a)
    then obtain vs x where "cell_ok x" "pruned_revision c vs (?cs @ [x]) = Inr d"
      using d by (auto simp: set_mapping_def Let_def result_simps try_new_Inr split: if_splits)
    then show ?thesis using pruned_revision_step [OF ok, of vs "?cs @ [x]"] cs by auto
  qed
qed

lemma clear_mapping_revision:
  assumes ok: "catalog_ok c" and d: "clear_mapping c tid mapping = Inr d"
  shows "loop_revision c d"
proof -
  obtain i where "pruned_revision c (ac_variants c) (remove_at i (ac_cells c)) = Inr d"
    using d by (auto simp: clear_mapping_def split: if_splits option.splits)
  then show ?thesis using pruned_revision_step [OF ok _ remove_at_all] catalog_parts(3) [OF ok] by blast
qed

lemma loop_edit_revision: "catalog_ok c \<Longrightarrow> apply_loop_edit c e = Inr d \<Longrightarrow> loop_revision c d"
  by (cases e) (auto intro: rename_theme_revision add_variant_revision rename_variant_revision move_variant_revision
      set_variant_archived_revision set_cell_revision set_mapping_revision clear_mapping_revision)

interpretation loop_catalogue: revisioned catalog_ok ac_revision apply_loop_edit
  by unfold_locales (auto dest: loop_edit_revision simp: loop_revision_def)

section \<open>Lists up to order\<close>

lemma mset_distinct_map: "mset xs = mset ys \<Longrightarrow> distinct (map f xs) = distinct (map f ys)"
  by (metis mset_map mset_eq_imp_distinct_iff)

lemma mset_distinct_map_filter:
  "mset xs = mset ys \<Longrightarrow> distinct (map f (filter P xs)) = distinct (map f (filter P ys))"
  by (rule mset_distinct_map) simp

lemma mset_length_filter: "mset xs = mset ys \<Longrightarrow> length (filter P xs) = length (filter P ys)"
  by (metis mset_filter size_mset)

lemma mset_remove_at: "i < length xs \<Longrightarrow> mset xs = mset (xs ! i # remove_at i xs)"
  by (metis append_Cons id_take_nth_drop mset.simps(2) mset_append remove_at_def union_mset_add_mset_right)

lemma cells_ok_mset: "cells_ok ts rows xs \<Longrightarrow> mset xs = mset ys \<Longrightarrow> cells_ok ts rows ys"
  unfolding cells_ok_def using mset_eq_setD [of xs ys]
  by (simp add: mset_distinct_map [of xs ys] mset_distinct_map_filter [of xs ys])

lemma length_filter_filter: "length (filter P (filter Q xs)) \<le> length (filter P xs)"
  by (induction xs) auto

lemma cells_ok_tail: "cells_ok ts rows (x # xs) \<Longrightarrow> cells_ok ts rows xs"
  by (auto simp: cells_ok_def split: if_splits)

lemma cells_ok_rows: "cells_ok ts rows xs \<Longrightarrow> cell_row ` set xs \<subseteq> rows' \<Longrightarrow> cells_ok ts rows' xs"
  by (auto simp: cells_ok_def)

lemma cells_ok_remove_at: "cells_ok ts rows xs \<Longrightarrow> i < length xs \<Longrightarrow> cells_ok ts rows (remove_at i xs)"
  using cells_ok_mset [OF _ mset_remove_at] cells_ok_tail by blast

section \<open>Pruning\<close>

lemma counted_nth: "i < n \<Longrightarrow> counted b n ! i = b + of_nat (i + 1)"
  by (induction n arbitrary: b i) (auto simp: nth_Cons algebra_simps split: nat.split)

lemma length_counted [simp]: "length (counted b n) = n"
  by (induction n arbitrary: b) auto

lemma role_count_fits:
  assumes "variants_ok vs" "\<forall>v \<in> set vs. variant_ok v"
  shows "length (of_role role vs) < 65536"
proof (rule ccontr)
  assume long: "\<not> length (of_role role vs) < 65536"
  let ?rs = "of_role role vs"
  let ?v = "?rs ! 65535"
  have at: "65535 < length ?rs" using long by simp
  have "map av_sort_order ?rs = counted 0 (length ?rs)"
    using assms(1) by (simp add: variants_ok_def numbered_from_def)
  then have "av_sort_order ?v = counted 0 (length ?rs) ! 65535" using at by (metis nth_map)
  also have "\<dots> = of_nat (65535 + 1)" using counted_nth [OF at, of 0] by simp
  finally have "av_sort_order ?v = 0" by simp
  moreover have "?v \<in> set vs" using long nth_mem [of 65535 "of_role role vs"] by (auto simp: of_role_def)
  ultimately show False using assms(2) by (simp add: variant_ok_def)
qed

definition base_order :: "(string \<rightharpoonup> u16) \<Rightarrow> string \<Rightarrow> u16" where
  "base_order orders role = (case orders role of None \<Rightarrow> 0 | Some n \<Rightarrow> n)"

lemma next_order_base: "next_order orders role = base_order orders role + 1"
  by (simp add: next_order_def base_order_def split: option.split)

lemma renumber_total:
  assumes "\<forall>v \<in> set vs. variant_ok v"
    and "\<And>role. unat (base_order orders role) + length (of_role role vs) < 65536"
  shows "\<exists>ws. renumber_variants orders vs = Inr ws"
  using assms
proof (induction vs arbitrary: orders)
  case (Cons v vs)
  let ?r = "av_role_id v"
  let ?n = "next_order orders ?r"
  have fits: "unat (base_order orders ?r) + 1 < 65536" using Cons.prems(2) [of ?r] by simp
  then have n: "unat ?n = unat (base_order orders ?r) + 1"
    unfolding next_order_base by (simp add: unat_add_exact)
  have "rebuilt v (av_display_name v) ?n (av_archived v) = Inr (v\<lparr>av_sort_order := ?n\<rparr>)"
    using Cons.prems(1) n by (cases v) (auto simp: rebuilt_Inr variant_ok_def name_ok_def)
  moreover have "\<exists>ws. renumber_variants (orders(?r \<mapsto> ?n)) vs = Inr ws"
  proof (rule Cons.IH)
    fix role
    show "unat (base_order (orders(?r \<mapsto> ?n)) role) + length (of_role role vs) < 65536"
      using Cons.prems(2) [of role] n by (auto simp: base_order_def split: if_splits)
  qed (use Cons.prems(1) in simp)
  ultimately show ?case by auto
qed simp

lemma renumber_result:
  "renumber_variants orders vs = Inr ws \<Longrightarrow> \<forall>v \<in> set vs. variant_ok v \<Longrightarrow>
     numbered_from orders ws \<and> map variant_key ws = map variant_key vs \<and> map variant_name ws = map variant_name vs"
proof (induction vs arbitrary: orders ws)
  case (Cons v vs)
  then obtain w us where w: "w = v\<lparr>av_display_name := trim (av_display_name v), av_sort_order := next_order orders (av_role_id v),
        av_archived := av_archived v\<rparr>"
    and us: "renumber_variants (orders(av_role_id v \<mapsto> next_order orders (av_role_id v))) vs = Inr us" "ws = w # us"
    by (auto simp: result_simps rebuilt_Inr)
  have "trim (av_display_name v) = av_display_name v" using Cons.prems(2) by (simp add: variant_ok_def name_ok_def)
  moreover have "numbered_from (orders(av_role_id v \<mapsto> next_order orders (av_role_id v))) us
      \<and> map variant_key us = map variant_key vs \<and> map variant_name us = map variant_name vs"
    by (rule Cons.IH [OF us(1)]) (use Cons.prems(2) in simp)
  moreover have "variant_key w = variant_key v" "variant_name w = variant_name v"
    using \<open>trim (av_display_name v) = av_display_name v\<close> w by (simp_all add: variant_key_def variant_name_def)
  ultimately show ?case using w us(2) by simp
qed simp

lemma prune_exact:
  assumes keys: "distinct (map variant_key vs)" "distinct (map variant_name vs)"
    and ok: "\<forall>v \<in> set vs. variant_ok v" and few: "\<And>role. length (of_role role vs) < 65536"
    and rows: "cell_row ` set cs \<subseteq> variant_key ` set vs"
  shows "\<exists>ws. prune_unused_variants vs cs = Inr ws \<and> variants_ok ws \<and> (\<forall>w \<in> set ws. variant_ok w)
     \<and> variant_key ` set ws = cell_row ` set cs"
proof -
  let ?kept = "filter (\<lambda>v. list_ex (\<lambda>x. cell_role_id x = av_role_id v \<and> cell_variant_id x = av_id v) cs) vs"
  let ?s = "sort_variants ?kept"
  have perm: "mset ?s = mset ?kept" by (simp add: sort_variants_def)
  have kept: "\<forall>v \<in> set ?s. variant_ok v" using ok by simp
  have "length (of_role role ?s) < 65536" for role
  proof -
    have "length (of_role role ?s) = length (of_role role ?kept)"
      unfolding of_role_def by (rule mset_length_filter [OF perm])
    also have "\<dots> \<le> length (of_role role vs)" unfolding of_role_def by (rule length_filter_filter)
    finally show ?thesis using few [of role] by simp
  qed
  then obtain ws where ws: "renumber_variants Map.empty ?s = Inr ws"
    using renumber_total [OF kept, of Map.empty] by (auto simp: base_order_def)
  have same: "numbered_from Map.empty ws" "map variant_key ws = map variant_key ?s"
    "map variant_name ws = map variant_name ?s"
    using renumber_result [OF ws kept] by auto
  have "distinct (map variant_key ?s)" "distinct (map variant_name ?s)"
    unfolding mset_distinct_map [OF perm] using keys by (simp_all add: distinct_map_filter)
  then have "variants_ok ws" using same by (simp add: variants_ok_def)
  moreover have "variant_key ` set ws = variant_key ` set ?kept"
  proof -
    have "set (map variant_key ws) = set (map variant_key ?s)" using same(2) by (rule arg_cong)
    then show ?thesis by simp
  qed
  moreover have "variant_key ` set ?kept = cell_row ` set cs"
  proof
    show "variant_key ` set ?kept \<subseteq> cell_row ` set cs"
      by (auto simp: list_ex_iff variant_key_def cell_row_def intro!: image_eqI)
    show "cell_row ` set cs \<subseteq> variant_key ` set ?kept"
    proof
      fix k
      assume k: "k \<in> cell_row ` set cs"
      then obtain x where x: "x \<in> set cs" "k = cell_row x" by blast
      obtain v where v: "v \<in> set vs" "k = variant_key v" using k rows by blast
      have "v \<in> set ?kept" using v x by (auto simp: list_ex_iff variant_key_def cell_row_def)
      then show "k \<in> variant_key ` set ?kept" using v(2) by blast
    qed
  qed
  ultimately show ?thesis using ws renumber_variants_ok [OF ws] by (auto simp: prune_unused_variants_def)
qed

lemma pruned_revision_exact:
  assumes c: "catalog_ok c" "length (ac_themes c) = 4"
    and vs: "distinct (map variant_key vs)" "distinct (map variant_name vs)" "\<forall>v \<in> set vs. variant_ok v"
      "\<And>role. length (of_role role vs) < 65536"
    and cs: "cells_ok (at_id ` set (ac_themes c)) (variant_key ` set vs) cs"
  shows "pruned_revision c vs cs = Inl LoopArithmeticOverflow \<and> unat (ac_revision c) + 1 \<ge> 2 ^ 64
   \<or> (\<exists>d. pruned_revision c vs cs = Inr d \<and> unat (ac_revision c) + 1 < 2 ^ 64 \<and> mset (ac_cells d) = mset cs
        \<and> ac_themes d = ac_themes c \<and> variant_key ` set (ac_variants d) = cell_row ` set (ac_cells d))"
proof -
  have "cell_row ` set cs \<subseteq> variant_key ` set vs" using cs by (auto simp: cells_ok_def)
  from prune_exact [OF vs this] obtain ws where ws: "prune_unused_variants vs cs = Inr ws" "variants_ok ws"
    "variant_key ` set ws = cell_row ` set cs"
    by blast
  let ?cs = "sort_cells cs (ac_themes c) ws"
  have perm: "mset cs = mset ?cs" by (simp add: sort_cells_def Let_def)
  have "cells_ok (at_id ` set (ac_themes c)) (variant_key ` set ws) ?cs"
    using cells_ok_mset [OF cells_ok_rows [OF cs] perm] ws(3) by simp
  moreover have "themes_ok (ac_themes c)" using c(1) by (simp add: catalog_ok_def)
  ultimately have eq: "pruned_revision c vs cs =
      (case checked_add (ac_revision c) 1 of
         None \<Rightarrow> Inl LoopArithmeticOverflow
       | Some n \<Rightarrow> Inr \<lparr>ac_revision = n, ac_defaults_version = ac_defaults_version c, ac_themes = ac_themes c,
                       ac_variants = ws, ac_cells = ?cs\<rparr>)"
    using ws c(2) loops_revised_Inr [of c "ac_themes c" ws ?cs]
    by (cases "checked_add (ac_revision c) 1") (simp_all add: pruned_revision_def revised_def)
  show ?thesis
  proof (cases "checked_add (ac_revision c) 1")
    case None
    then show ?thesis using eq by (auto simp: checked_add_def split: if_splits)
  next
    case (Some n)
    then have "unat (ac_revision c) + 1 < 2 ^ 64" by (auto simp: checked_add_def split: if_splits)
    then show ?thesis using eq Some perm ws(3) by simp
  qed
qed

section \<open>Resolution\<close>

text \<open>The specification: the active variants of a role that have a cell for the theme, in catalogue order.\<close>

definition covered :: "AutoloopCatalog \<Rightarrow> ThemeId \<Rightarrow> PhraseRoleId \<Rightarrow> AutoloopVariant list" where
  "covered c tid role = filter (\<lambda>v. cell_at c tid role (av_id v) \<noteq> None) (active_variants c role)"

definition chosen_variant :: "AutoloopVariant list \<Rightarrow> VariantId option \<Rightarrow> VariantId \<times> AutoloopResolutionReason" where
  "chosen_variant vs preferred =
     (case preferred of
        None \<Rightarrow> (av_id (hd vs), Automatic)
      | Some vid \<Rightarrow> if vid \<in> av_id ` set vs then (vid, ExactVariant) else (av_id (hd vs), SameRoleFallback vid))"

definition resolve_spec ::
  "AutoloopCatalog \<Rightarrow> ThemeId \<Rightarrow> PhraseRoleId \<Rightarrow> VariantId option \<Rightarrow> u64 \<Rightarrow> AutoloopCatalogError + AutoloopResolution" where
  "resolve_spec c tid role preferred expected =
     (if expected \<noteq> ac_revision c then Inl (LoopRevisionConflict expected (ac_revision c))
      else if \<not> has_theme c tid then Inl LoopUnknownTheme
      else if covered c tid role = [] then Inl MissingRoleCoverage
      else (case chosen_variant (covered c tid role) preferred of
              (vid, reason) \<Rightarrow> Inr (resolution c (the (cell_at c tid role vid)) reason)))"

lemma find_map_covered:
  "find_map f xs = (case filter (\<lambda>x. f x \<noteq> None) xs of [] \<Rightarrow> None | x # _ \<Rightarrow> f x)"
  by (induction xs) (auto split: option.split list.split)

lemma preferred_cell_covered:
  "preferred_cell c tid role preferred =
     (case preferred of
        None \<Rightarrow> None
      | Some vid \<Rightarrow> if vid \<in> av_id ` set (covered c tid role) then cell_at c tid role vid else None)"
proof (cases preferred)
  case (Some vid)
  show ?thesis
  proof (cases "find (\<lambda>v. av_id v = vid) (active_variants c role)")
    case None
    then have "vid \<notin> av_id ` set (covered c tid role)" by (auto simp: covered_def find_None_iff)
    then show ?thesis using Some None by (simp add: preferred_cell_def)
  next
    case (Some v)
    then have "v \<in> set (active_variants c role)" "av_id v = vid" by (auto dest: find_SomeD)
    then show ?thesis using Some \<open>preferred = Some vid\<close>
      by (cases "cell_at c tid role vid") (auto simp: preferred_cell_def covered_def intro: rev_image_eqI)
  qed
qed (simp add: preferred_cell_def)

lemma cell_at_SomeD:
  "cell_at c tid role vid = Some x \<Longrightarrow> x \<in> set (ac_cells c) \<and> cell_key x = (tid, role, vid)"
  by (auto simp: cell_at_def cell_key_def cell_row_def dest: find_SomeD)

lemma cell_at_None: "cell_at c tid role vid = None \<longleftrightarrow> (tid, role, vid) \<notin> cell_key ` set (ac_cells c)"
  by (auto simp: cell_at_def cell_key_def cell_row_def find_None_iff)

lemma covered_cell: "v \<in> set (covered c tid role) \<Longrightarrow> \<exists>x. cell_at c tid role (av_id v) = Some x"
  by (simp add: covered_def)

lemma resolve_eq_spec: "resolve c tid role preferred expected = resolve_spec c tid role preferred expected"
proof (cases "covered c tid role")
  case Nil
  then have "preferred_cell c tid role preferred = None" "find_map (\<lambda>v. cell_at c tid role (av_id v)) (active_variants c role) = None"
    unfolding preferred_cell_covered find_map_covered covered_def [symmetric] by (simp_all split: option.split)
  then show ?thesis using Nil by (simp add: resolve_def resolve_spec_def)
next
  case (Cons v vs)
  then obtain x where x: "cell_at c tid role (av_id v) = Some x" using covered_cell [of v c tid role] by auto
  have "active_variants c role \<noteq> []" using Cons by (auto simp: covered_def)
  moreover have "find_map (\<lambda>v. cell_at c tid role (av_id v)) (active_variants c role) = Some x"
    unfolding find_map_covered covered_def [symmetric] using Cons x by simp
  moreover have "preferred_cell c tid role preferred =
      (case preferred of None \<Rightarrow> None
       | Some vid \<Rightarrow> if vid \<in> av_id ` set (covered c tid role) then Some (the (cell_at c tid role vid)) else None)"
    unfolding preferred_cell_covered using covered_cell by (fastforce split: option.split)
  ultimately show ?thesis using Cons x
    by (simp add: resolve_def resolve_spec_def chosen_variant_def split: option.split)
qed

lemma require_active_Inr:
  "require_active_role_variant c role vid = Inr v \<Longrightarrow>
     v \<in> set (ac_variants c) \<and> variant_key v = (role, vid) \<and> \<not> av_archived v"
  by (auto simp: require_active_role_variant_def result_simps variant_key_def dest: find_SomeD)

lemma check_overrides_Inr:
  "check_overrides c role xs = Inr () \<Longrightarrow> x \<in> set xs \<Longrightarrow>
     has_theme c (variant_theme_id x) \<and> (\<exists>v. require_active_role_variant c role (variant_variant_id x) = Inr v)
   \<and> (\<exists>y. cell_at c (variant_theme_id x) role (variant_variant_id x) = Some y)"
  by (induction xs) (auto simp: result_simps split: if_splits)

lemma missing_cells_empty:
  "missing_cells c = [] \<longleftrightarrow> (\<forall>t \<in> set (ac_themes c). \<forall>v \<in> set (ac_variants c).
     \<not> av_archived v \<longrightarrow> catalog_mapping_number (av_id v) = None \<longrightarrow>
     cell_at c (at_id t) (av_role_id v) (av_id v) \<noteq> None)"
  unfolding cell_at_None by (auto simp: missing_cells_def Let_def variant_key_def split: if_splits)

lemma themes_ascending_sorted: "themes_ascending xs = sorted_wrt (<) (map variant_theme_id xs)"
  by (induction xs rule: themes_ascending.induct) (auto intro: less_trans)

lemma find_unique: "distinct (map f xs) \<Longrightarrow> x \<in> set xs \<Longrightarrow> find (\<lambda>y. f y = f x) xs = Some x"
  by (induction xs) (auto intro: rev_image_eqI)

lemma themes_ascending_unique:
  "themes_ascending xs \<Longrightarrow> x \<in> set xs \<Longrightarrow> find (\<lambda>y. variant_theme_id y = variant_theme_id x) xs = Some x"
  by (rule find_unique) (simp_all add: themes_ascending_sorted strict_sorted_iff)

section \<open>A small catalogue\<close>

text \<open>Four themes, one role with a plain variant and a numbered mapping; the witnesses use it.\<close>

definition demo_themes :: "AutoloopTheme list" where
  "demo_themes = [\<lparr>at_id = 1, at_display_name = ''A'', at_sort_order = 1\<rparr>, \<lparr>at_id = 2, at_display_name = ''B'', at_sort_order = 2\<rparr>,
     \<lparr>at_id = 3, at_display_name = ''C'', at_sort_order = 3\<rparr>, \<lparr>at_id = 4, at_display_name = ''D'', at_sort_order = 4\<rparr>]"

definition demo_variants :: "AutoloopVariant list" where
  "demo_variants = [\<lparr>av_role_id = ''drop'', av_id = ''v'', av_display_name = ''V'', av_sort_order = 1, av_archived = False\<rparr>,
     \<lparr>av_role_id = ''drop'', av_id = ''mapping-7'', av_display_name = ''M'', av_sort_order = 2, av_archived = False\<rparr>]"

definition demo_cell :: "ThemeId \<Rightarrow> VariantId \<Rightarrow> AutoloopEntryId \<Rightarrow> AutoloopMatrixCell" where
  "demo_cell tid vid entry = \<lparr>cell_theme_id = tid, cell_role_id = ''drop'', cell_variant_id = vid, cell_entry_id = entry,
     cell_display_name = ''L''\<rparr>"

definition demo_catalog :: AutoloopCatalog where
  "demo_catalog = \<lparr>ac_revision = 1, ac_defaults_version = 4, ac_themes = demo_themes, ac_variants = demo_variants,
     ac_cells = [demo_cell 1 ''v'' ''a'', demo_cell 1 ''mapping-7'' ''b'', demo_cell 2 ''v'' ''c'', demo_cell 3 ''v'' ''d'',
       demo_cell 4 ''v'' ''e'']\<rparr>"

lemmas loop_demo_defs = demo_themes_def demo_variants_def demo_cell_def demo_catalog_def

lemma catalog_okI:
  "try_new_catalog (ac_revision c) (ac_defaults_version c) (ac_themes c) (ac_variants c) (ac_cells c) = Inr c \<Longrightarrow>
   list_all theme_ok (ac_themes c) \<Longrightarrow> list_all variant_ok (ac_variants c) \<Longrightarrow> list_all cell_ok (ac_cells c) \<Longrightarrow> catalog_ok c"
  unfolding try_new_catalog_Inr by (simp add: catalog_ok_def list_all_iff)

lemma demo_numbers: "catalog_mapping_number ''v'' = None" "catalog_mapping_number ''mapping-7'' = Some 7"
  by (simp_all add: catalog_mapping_number_def parse_unsigned_def is_ascii_digit_def code_of_def)

lemma demo_catalog_ok: "catalog_ok demo_catalog"
proof (rule catalog_okI)
  show "list_all theme_ok (ac_themes demo_catalog)" by code_simp
  show "list_all variant_ok (ac_variants demo_catalog)" by code_simp
  show "list_all cell_ok (ac_cells demo_catalog)" by code_simp
  show "try_new_catalog (ac_revision demo_catalog) (ac_defaults_version demo_catalog) (ac_themes demo_catalog)
      (ac_variants demo_catalog) (ac_cells demo_catalog) = Inr demo_catalog"
    by (simp add: loop_demo_defs try_new_catalog_def validate_themes_def validate_variants_def variant_key_def variant_name_def
        next_order_def cell_row_def cell_key_def cell_mapping_key_def demo_numbers to_ascii_lowercase_def ascii_lower_def
        code_of_def)
qed

section \<open>Properties\<close>

definition edit_loops :: "AutoloopCatalog \<Rightarrow> LoopEdit list \<Rightarrow> AutoloopCatalog \<times> u64 list" where
  "edit_loops = run_machine (revision_step ac_revision apply_loop_edit)"

text \<open>
  C36. Whatever edits are asked for, the loop catalogue stays well formed: its four themes, their identifiers
  and their order stay; the variants of each role are numbered without gaps and have unique identifiers and
  names; every cell belongs to a theme and a variant of the catalogue, no two cells share a place, an entry identifier or
  a numbered mapping of one theme. The accepted edits carry consecutive revision numbers.
\<close>

theorem loop_edits_keep_catalog:
  assumes "catalog_ok c"
  shows "case edit_loops c es of (d, revisions) \<Rightarrow>
     catalog_ok d \<and> map at_id (ac_themes d) = map at_id (ac_themes c)
   \<and> map unat revisions = [unat (ac_revision c) + 1 ..< unat (ac_revision c) + 1 + length revisions]"
proof -
  obtain d revisions where run: "edit_loops c es = (d, revisions)" by fastforce
  have "map at_id (ac_themes (fst (edit_loops c es))) = map at_id (ac_themes c)"
    unfolding edit_loops_def
    by (rule loop_catalogue.edits_keep_rel [where R = "\<lambda>c d. map at_id (ac_themes d) = map at_id (ac_themes c)",
          OF _ _ _ assms])
      (auto simp: reflp_def transp_def loop_revision_def dest: loop_edit_revision)
  then show ?thesis
    using run loop_catalogue.edits_keep_wf [OF assms, of es] loop_catalogue.edits_number_revisions [OF assms, of es]
    by (simp add: edit_loops_def)
qed

theorem loop_edits_keep_catalog_witness:
  "catalog_ok (fst (edit_loops demo_catalog [RenameTheme 1 ''Z'', ClearMapping 1 ''mapping-7'']))"
  using loop_edits_keep_catalog [OF demo_catalog_ok, of "[RenameTheme 1 ''Z'', ClearMapping 1 ''mapping-7'']"]
  by (auto split: prod.splits)

text \<open>
  Resolving a loop is its specification: the request needs the current revision and a known theme; the
  preferred variant is taken when it is active and has a cell for the theme, otherwise the first active
  variant of the same role that has one; the request fails exactly when no active variant of the role has a cell.
\<close>

theorem resolve_refines_spec:
  "resolve c tid role preferred expected = resolve_spec c tid role preferred expected"
  by (rule resolve_eq_spec)

text \<open>
  When no cell is missing, every role with an active variant that is not a numbered mapping resolves in every
  theme, to a cell of that theme and that role.
\<close>

theorem complete_catalog_resolves:
  assumes "missing_cells c = []" "has_theme c tid"
    and "v \<in> set (ac_variants c)" "av_role_id v = role" "\<not> av_archived v" "catalog_mapping_number (av_id v) = None"
  shows "\<exists>r. resolve c tid role preferred (ac_revision c) = Inr r \<and> res_theme_id r = tid \<and> res_role_id r = role
     \<and> res_catalog_revision r = ac_revision c"
proof -
  obtain t where t: "t \<in> set (ac_themes c)" "at_id t = tid" using assms(2) by (auto simp: has_theme_def list_ex_iff)
  then have "cell_at c tid role (av_id v) \<noteq> None" using assms missing_cells_empty by blast
  then have v: "v \<in> set (covered c tid role)" using assms by (auto simp: covered_def active_variants_def)
  obtain vid reason where ch: "chosen_variant (covered c tid role) preferred = (vid, reason)" by fastforce
  then have "vid \<in> av_id ` set (covered c tid role)"
    using v by (cases "covered c tid role") (auto simp: chosen_variant_def split: option.splits if_splits)
  then obtain x where x: "cell_at c tid role vid = Some x" using covered_cell by blast
  then have "cell_key x = (tid, role, vid)" by (auto dest: cell_at_SomeD)
  then show ?thesis using assms(2) v ch x
    by (auto simp: resolve_eq_spec resolve_spec_def resolution_def cell_key_def cell_row_def)
qed

theorem complete_catalog_resolves_witness:
  "\<exists>r. resolve demo_catalog 2 ''drop'' (Some ''mapping-7'') 1 = Inr r \<and> res_theme_id r = 2 \<and> res_role_id r = ''drop''"
proof -
  have "missing_cells demo_catalog = []"
    by (simp add: missing_cells_def loop_demo_defs cell_key_def cell_row_def variant_key_def demo_numbers)
  moreover have "catalog_mapping_number (av_id (hd demo_variants)) = None"
    by (simp add: demo_variants_def demo_numbers)
  moreover have "has_theme demo_catalog 2" "hd demo_variants \<in> set (ac_variants demo_catalog)"
    "av_role_id (hd demo_variants) = ''drop''" "\<not> av_archived (hd demo_variants)"
    by (simp_all add: loop_demo_defs has_theme_def)
  ultimately show ?thesis
    using complete_catalog_resolves [of demo_catalog 2 "hd demo_variants" "''drop''" "Some ''mapping-7''"]
    by (auto simp: demo_catalog_def)
qed

text \<open>
  A validated strategy of exact variants per theme is honoured: for every theme it names, the strategy resolves
  to the cell of exactly the named variant.
\<close>

theorem validated_strategy_resolves:
  assumes "validate_loop_strategy c role (ThemeSpecificExact xs) = Inr ()" "strategy_ok (ThemeSpecificExact xs)"
    and "x \<in> set xs"
  shows "\<exists>r. resolve_loop_strategy c (variant_theme_id x) role (ThemeSpecificExact xs) (ac_revision c) = Inr r
     \<and> res_theme_id r = variant_theme_id x \<and> res_role_id r = role \<and> res_variant_id r = variant_variant_id x
     \<and> res_reason r = ThemeSpecific"
proof -
  obtain v y where x: "has_theme c (variant_theme_id x)" "require_active_role_variant c role (variant_variant_id x) = Inr v"
    and y: "cell_at c (variant_theme_id x) role (variant_variant_id x) = Some y"
    using check_overrides_Inr [of c role xs x] assms by auto
  have "find (\<lambda>y. variant_theme_id y = variant_theme_id x) xs = Some x"
    using themes_ascending_unique assms by simp
  then show ?thesis using x y cell_at_SomeD [OF y]
    by (simp add: resolve_loop_strategy_def resolve_exact_strategy_def resolution_def cell_key_def cell_row_def)
qed

theorem validated_strategy_resolves_witness:
  "\<exists>r. resolve_loop_strategy demo_catalog 1 ''drop''
       (ThemeSpecificExact [\<lparr>variant_theme_id = 1, variant_variant_id = ''mapping-7''\<rparr>]) 1 = Inr r
     \<and> res_variant_id r = ''mapping-7''"
proof -
  let ?x = "\<lparr>variant_theme_id = 1, variant_variant_id = ''mapping-7''\<rparr>"
  have "validate_loop_strategy demo_catalog ''drop'' (ThemeSpecificExact [?x]) = Inr ()"
    "strategy_ok (ThemeSpecificExact [?x])" "?x \<in> set [?x]" by code_simp+
  from validated_strategy_resolves [OF this] show ?thesis by (auto simp: demo_catalog_def)
qed

text \<open>
  On a well-formed catalogue, clearing a mapping is refused only for an unknown theme, a mapping that
  is not there, or when no revision is left: the pruned and renumbered rows always pass validation. It removes
  the one cell, keeps all others and the themes, and leaves exactly the rows that a cell still uses.
\<close>

theorem clear_mapping_exact:
  assumes ok: "catalog_ok c"
  shows "case clear_mapping c tid mapping of
     Inl e \<Rightarrow> e = LoopUnknownTheme \<and> \<not> has_theme c tid
       \<or> e = LoopNoChange \<and> has_theme c tid \<and> mapping_position c tid mapping = None
       \<or> e = LoopArithmeticOverflow \<and> unat (ac_revision c) + 1 \<ge> 2 ^ 64
   | Inr d \<Rightarrow> \<exists>i. mapping_position c tid mapping = Some i
       \<and> mset (ac_cells c) = add_mset (ac_cells c ! i) (mset (ac_cells d))
       \<and> ac_themes d = ac_themes c \<and> variant_key ` set (ac_variants d) = cell_row ` set (ac_cells d)"
proof (cases "has_theme c tid")
  case theme: True
  show ?thesis
  proof (cases "mapping_position c tid mapping")
    case (Some i)
    then have i: "i < length (ac_cells c)" by (auto simp: mapping_position_def dest: position_SomeD)
    have "ac_themes c \<noteq> []" using theme by (auto simp: has_theme_def)
    then have four: "length (ac_themes c) = 4" using ok by (auto simp: catalog_ok_def word_gt_0)
    have vs: "distinct (map variant_key (ac_variants c))" "distinct (map variant_name (ac_variants c))"
      using ok by (simp_all add: catalog_ok_def variants_ok_def)
    have few: "length (of_role role (ac_variants c)) < 65536" for role
      using role_count_fits ok by (simp add: catalog_ok_def)
    have "cells_ok (at_id ` set (ac_themes c)) (variant_key ` set (ac_variants c)) (remove_at i (ac_cells c))"
      using cells_ok_remove_at i ok by (simp add: catalog_ok_def)
    from pruned_revision_exact [OF ok four vs catalog_parts(2) [OF ok] few this]
    show ?thesis using Some theme mset_remove_at [OF i]
      by (auto simp: clear_mapping_def)
  qed (use theme in \<open>simp add: clear_mapping_def\<close>)
qed (simp add: clear_mapping_def)

theorem clear_mapping_exact_witness:
  "\<exists>d. clear_mapping demo_catalog 1 ''mapping-7'' = Inr d
     \<and> add_mset (demo_cell 1 ''mapping-7'' ''b'') (mset (ac_cells d)) = mset (ac_cells demo_catalog)"
proof -
  have "has_theme demo_catalog 1" "mapping_position demo_catalog 1 ''mapping-7'' = Some 1" by code_simp+
  moreover have "unat (ac_revision demo_catalog) + 1 < 2 ^ 64" "ac_cells demo_catalog ! 1 = demo_cell 1 ''mapping-7'' ''b''"
    by (simp_all add: demo_catalog_def)
  ultimately show ?thesis
    using clear_mapping_exact [OF demo_catalog_ok, of 1 "''mapping-7''"]
    by (cases "clear_mapping demo_catalog 1 ''mapping-7''") auto
qed

text \<open>Clearing a mapping is setting it to no name, whatever role is passed.\<close>

lemma clear_mapping_is_set_mapping: "clear_mapping c tid mapping = set_mapping c tid mapping role None"
  by (simp add: clear_mapping_def set_mapping_def Let_def split: option.split)

end
