(* ===== verification/Ordered_Map.thy ===== *)
theory Ordered_Map
  imports Lumi_Prelude
begin

text \<open>
  \<open>BTreeMap\<close> of the standard library where the code iterates over it or asks for its length: an
  association list in strictly ascending order of its keys. Facts: lookup after insertion and
  removal, and that the order is kept.
\<close>

fun btree_insert :: "'k::linorder \<Rightarrow> 'v \<Rightarrow> ('k \<times> 'v) list \<Rightarrow> ('k \<times> 'v) list" where
  "btree_insert k v [] = [(k, v)]"
| "btree_insert k v ((l, w) # rest) =
     (if k < l then (k, v) # (l, w) # rest
      else if k = l then (k, v) # rest
      else (l, w) # btree_insert k v rest)"

definition btree_remove :: "'k \<Rightarrow> ('k \<times> 'v) list \<Rightarrow> ('k \<times> 'v) list" where
  "btree_remove k kvs = filter (\<lambda>(l, w). l \<noteq> k) kvs"

text \<open>\<open>get_mut\<close> and \<open>values_mut\<close>: an update in place.\<close>

definition btree_adjust :: "'k \<Rightarrow> ('v \<Rightarrow> 'v) \<Rightarrow> ('k \<times> 'v) list \<Rightarrow> ('k \<times> 'v) list" where
  "btree_adjust k f kvs = map (\<lambda>(l, w). (l, if l = k then f w else w)) kvs"

definition btree_values :: "('v \<Rightarrow> 'w) \<Rightarrow> ('k \<times> 'v) list \<Rightarrow> ('k \<times> 'w) list" where
  "btree_values f kvs = map (\<lambda>(l, w). (l, f w)) kvs"

definition ordered :: "('k::linorder \<times> 'v) list \<Rightarrow> bool" where
  "ordered kvs \<longleftrightarrow> sorted_wrt (<) (map fst kvs)"

section \<open>Keys\<close>

lemma btree_insert_keys: "fst ` set (btree_insert k v m) = insert k (fst ` set m)"
  by (induction k v m rule: btree_insert.induct) auto

lemma btree_insert_sorted: "sorted_wrt (<) (map fst m) \<Longrightarrow> sorted_wrt (<) (map fst (btree_insert k v m))"
proof (induction k v m rule: btree_insert.induct)
  case (2 k v l w rest)
  have "fst ` set (btree_insert k v rest) = insert k (fst ` set rest)" by (rule btree_insert_keys)
  then show ?case using 2 by auto
qed simp

lemma btree_remove_sorted: "sorted_wrt (<) (map fst m) \<Longrightarrow> sorted_wrt (<) (map fst (btree_remove k m))"
  by (induction m) (auto simp: btree_remove_def)

lemma ordered_empty [simp]: "ordered []"
  by (simp add: ordered_def)

lemma ordered_insert [simp, intro]: "ordered m \<Longrightarrow> ordered (btree_insert k v m)"
  by (simp add: ordered_def btree_insert_sorted)

lemma ordered_remove [simp, intro]: "ordered m \<Longrightarrow> ordered (btree_remove k m)"
  by (simp add: ordered_def btree_remove_sorted)

lemma ordered_filter [simp, intro]: "ordered m \<Longrightarrow> ordered (filter P m)"
  by (induction m) (auto simp: ordered_def)

lemma map_fst_adjust [simp]: "map fst (btree_adjust k f m) = map fst m"
  by (induction m) (auto simp: btree_adjust_def)

lemma map_fst_values [simp]: "map fst (btree_values f m) = map fst m"
  by (induction m) (auto simp: btree_values_def)

lemma ordered_adjust [simp]: "ordered (btree_adjust k f m) = ordered m"
  by (simp add: ordered_def)

lemma ordered_values [simp]: "ordered (btree_values f m) = ordered m"
  by (simp add: ordered_def)

lemma ordered_distinct: "ordered m \<Longrightarrow> distinct (map fst m)"
  by (simp add: ordered_def strict_sorted_iff)

lemma length_adjust [simp]: "length (btree_adjust k f m) = length m"
  by (simp add: btree_adjust_def)

lemma length_values [simp]: "length (btree_values f m) = length m"
  by (simp add: btree_values_def)

section \<open>Lookup\<close>

lemma btree_insert_lookup: "map_of (btree_insert k v m) = (map_of m)(k \<mapsto> v)"
  by (induction k v m rule: btree_insert.induct) (auto simp: fun_eq_iff)

lemma btree_remove_lookup: "map_of (btree_remove k m) = (map_of m)(k := None)"
  by (induction m) (auto simp: btree_remove_def fun_eq_iff)

lemma btree_adjust_lookup: "map_of (btree_adjust k f m) = (map_of m)(k := map_option f (map_of m k))"
  by (induction m) (auto simp: btree_adjust_def fun_eq_iff)

lemma btree_values_lookup: "map_of (btree_values f m) k = map_option f (map_of m k)"
  by (induction m) (auto simp: btree_values_def)

lemmas btree_lookup = btree_insert_lookup btree_remove_lookup btree_adjust_lookup btree_values_lookup

lemma btree_filter_lookup:
  "distinct (map fst m) \<Longrightarrow>
   map_of (filter P m) k = (case map_of m k of None \<Rightarrow> None | Some v \<Rightarrow> if P (k, v) then Some v else None)"
  by (induction m) (auto split: option.split simp: map_of_eq_None_iff rev_image_eqI)

section \<open>Values and length\<close>

lemma btree_insert_set: "ordered m \<Longrightarrow> set (btree_insert k v m) = insert (k, v) {e \<in> set m. fst e \<noteq> k}"
proof (induction k v m rule: btree_insert.induct)
  case (2 k v l w rest)
  then show ?case by (auto simp: ordered_def)
qed simp

lemma btree_remove_Nil [simp]: "btree_remove k [] = []"
  by (simp add: btree_remove_def)

lemma btree_remove_set: "set (btree_remove k m) = {e \<in> set m. fst e \<noteq> k}"
  by (auto simp: btree_remove_def)

lemma btree_insert_length:
  "ordered m \<Longrightarrow> length (btree_insert k v m) = (if k \<in> fst ` set m then length m else Suc (length m))"
proof (induction k v m rule: btree_insert.induct)
  case (2 k v l w rest)
  then show ?case by (auto simp: ordered_def)
qed simp

lemma btree_remove_length: "length (btree_remove k m) \<le> length m"
  by (simp add: btree_remove_def)

lemma map_of_in_set: "ordered m \<Longrightarrow> map_of m k = Some v \<longleftrightarrow> (k, v) \<in> set m"
  by (simp add: map_of_eq_Some_iff ordered_distinct)

text \<open>A greater key is appended.\<close>

lemma btree_insert_greatest: "ordered (m @ [(k, v)]) \<Longrightarrow> btree_insert k v m = m @ [(k, v)]"
proof (induction k v m rule: btree_insert.induct)
  case (2 k v l w rest)
  then have "l < k" "ordered (rest @ [(k, v)])" by (auto simp: ordered_def)
  with 2 show ?case by auto
qed simp

text \<open>Properties of all entries.\<close>

lemma all_insert: "list_all (\<lambda>(k, v). P k v) m \<Longrightarrow> P k v \<Longrightarrow> list_all (\<lambda>(k, v). P k v) (btree_insert k v m)"
  by (induction k v m rule: btree_insert.induct) auto

lemma all_remove: "list_all (\<lambda>(k, v). P k v) m \<Longrightarrow> list_all (\<lambda>(k, v). P k v) (btree_remove k m)"
  by (auto simp: list_all_iff btree_remove_def)

lemma all_adjust:
  "list_all (\<lambda>(k, v). P k v) m \<Longrightarrow> (\<And>v. P k v \<Longrightarrow> P k (f v)) \<Longrightarrow> list_all (\<lambda>(k, v). P k v) (btree_adjust k f m)"
  by (induction m) (auto simp: btree_adjust_def)

lemma all_adjust_at:
  assumes "ordered m" "list_all (\<lambda>(k, v). P k v) m" "\<And>v. map_of m k = Some v \<Longrightarrow> P k v \<Longrightarrow> P k (f v)"
  shows "list_all (\<lambda>(k, v). P k v) (btree_adjust k f m)"
proof -
  have "P k (f v)" if "(k, v) \<in> set m" for v
    using that assms by (auto simp: map_of_in_set list_all_iff)
  then show ?thesis using assms(2) by (auto simp: list_all_iff btree_adjust_def)
qed

lemma all_values:
  "list_all (\<lambda>(k, v). P k v) m \<Longrightarrow> (\<And>k v. P k v \<Longrightarrow> P k (f v)) \<Longrightarrow> list_all (\<lambda>(k, v). P k v) (btree_values f m)"
  by (induction m) (auto simp: btree_values_def)

lemma all_lookup: "list_all (\<lambda>(k, v). P k v) m \<Longrightarrow> map_of m k = Some v \<Longrightarrow> P k v"
  by (auto simp: list_all_iff dest: map_of_SomeD)

end
