(* ===== verification/Light_Plans.thy ===== *)
theory Light_Plans
  imports Planner Rust_Text Ordered_Map "HOL-Library.Sublist"
begin

text \<open>
  Compilation of light plans (\<open>lumi-light-plans/src/lib.rs\<close>): the planning policy and its validation,
  the choice of a loop and of modifiers for every phrase, the retries against repeated plans, and
  the history of recent plans. The compiler calls itself while it looks for a plan that is not
  recent, so it is a partial function whose value \<open>None\<close> means that it does not return. Facts: what a compiled
  plan may contain, when compilation returns, which errors it gives, and that repeats are avoided
  while an alternative exists.
\<close>

unbundle bit_operations_syntax

section \<open>Policy\<close>

definition DEFAULT_SELECTION_WEIGHT :: u8 where
  "DEFAULT_SELECTION_WEIGHT = 2"

definition HISTORY_LIMIT :: nat where
  "HISTORY_LIMIT = 32"

datatype ColorBehavior = Neutral | Prefer | Only

datatype BankOrganization = Themes

record ThemeRule =
  tr_theme_id :: u64
  tr_enabled :: bool
  tr_selection_weight :: u8
  tr_color_behavior :: ColorBehavior
  tr_color_rgb :: "u32 list"

datatype ModifierKind = Atmosphere | Color

datatype ModifierScope = PhraseScope | TrackScope

record AutoloopRule =
  ar_theme_id :: u64
  ar_role_id :: string
  ar_variant_id :: string
  ar_enabled :: bool
  ar_selection_weight :: u8
  ar_color_behavior :: ColorBehavior
  ar_color_rgb :: "u32 list"

definition effective_weight :: "u8 \<Rightarrow> u8" where
  "effective_weight weight = clamp weight 1 4"

record OutputModifier =
  om_id :: string
  om_provider_kind :: string
  om_kind :: ModifierKind
  om_display_name :: string
  om_enabled :: bool
  om_midi_channel :: u8
  om_midi_note :: u8
  om_activation_verified :: bool
  om_release_verified :: bool

definition automatic_execution_ready :: "OutputModifier \<Rightarrow> bool" where
  "automatic_execution_ready m \<longleftrightarrow> om_enabled m \<and> om_activation_verified m \<and> om_release_verified m"

record ModifierRule =
  mr_modifier_id :: string
  mr_role_id :: string
  mr_application_rate :: u8
  mr_selection_weight :: u8
  mr_cooldown_uses :: u8
  mr_scope :: ModifierScope
  mr_color_behavior :: ColorBehavior
  mr_color_rgb :: "u32 list"

record LightPlanningPolicy =
  lp_revision :: u64
  lp_bank_organization :: BankOrganization
  lp_default_theme_id :: "u64 option"
  lp_automatic_mid_track_theme_changes :: bool
  lp_theme_rules :: "ThemeRule list"
  lp_theme_cooldown_tracks :: u8
  lp_autoloop_cooldown_uses :: u8
  lp_duplicate_plan_window :: u8
  lp_rules :: "AutoloopRule list"
  lp_modifiers :: "OutputModifier list"
  lp_modifier_rules :: "ModifierRule list"

definition default_policy :: LightPlanningPolicy where
  "default_policy =
     \<lparr>lp_revision = 1, lp_bank_organization = Themes, lp_default_theme_id = None,
      lp_automatic_mid_track_theme_changes = False, lp_theme_rules = [], lp_theme_cooldown_tracks = 1,
      lp_autoloop_cooldown_uses = 2, lp_duplicate_plan_window = 4, lp_rules = [], lp_modifiers = [],
      lp_modifier_rules = []\<rparr>"

datatype LightPlanError =
    InvalidPolicyRevision
  | InvalidThemeRule
  | DuplicateThemeRule
  | InvalidDefaultTheme
  | NoEnabledTheme
  | AutomaticMidTrackThemeChangesUnsupported
  | InvalidRule
  | InvalidWeight
  | DuplicateRule
  | InvalidModifier
  | DuplicateModifier
  | InvalidModifierRule
  | MissingCandidate string
  | MissingColorCandidate string
  | MissingVariant string string

definition weight_valid :: "u8 \<Rightarrow> bool" where
  "weight_valid w \<longleftrightarrow> 1 \<le> w \<and> w \<le> 4"

fun check_theme_rules :: "u64 set \<Rightarrow> ThemeRule list \<Rightarrow> LightPlanError + u64 set" where
  "check_theme_rules ids [] = Inr ids"
| "check_theme_rules ids (r # rs) =
     (if tr_theme_id r = 0 \<or> \<not> weight_valid (tr_selection_weight r) then Inl InvalidThemeRule
      else if tr_theme_id r \<in> ids then Inl DuplicateThemeRule
      else check_theme_rules (insert (tr_theme_id r) ids) rs)"

definition rule_key :: "AutoloopRule \<Rightarrow> u64 \<times> string \<times> string" where
  "rule_key r = (ar_theme_id r, ar_role_id r, ar_variant_id r)"

fun check_autoloop_rules :: "(u64 \<times> string \<times> string) set \<Rightarrow> AutoloopRule list \<Rightarrow> LightPlanError + unit" where
  "check_autoloop_rules keys [] = Inr ()"
| "check_autoloop_rules keys (r # rs) =
     (if ar_theme_id r = 0 \<or> trim (ar_role_id r) = [] \<or> trim (ar_variant_id r) = [] then Inl InvalidRule
      else if \<not> weight_valid (ar_selection_weight r) then Inl InvalidWeight
      else if rule_key r \<in> keys then Inl DuplicateRule
      else check_autoloop_rules (insert (rule_key r) keys) rs)"

fun check_modifiers :: "string set \<Rightarrow> OutputModifier list \<Rightarrow> LightPlanError + string set" where
  "check_modifiers ids [] = Inr ids"
| "check_modifiers ids (m # ms) =
     (if trim (om_id m) = [] \<or> trim (om_display_name m) = [] \<or> \<not> (1 \<le> om_midi_channel m \<and> om_midi_channel m \<le> 16)
      then Inl InvalidModifier
      else if om_id m \<in> ids then Inl DuplicateModifier
      else check_modifiers (insert (om_id m) ids) ms)"

fun check_modifier_rules :: "string set \<Rightarrow> ModifierRule list \<Rightarrow> LightPlanError + unit" where
  "check_modifier_rules ids [] = Inr ()"
| "check_modifier_rules ids (r # rs) =
     (if mr_modifier_id r \<notin> ids \<or> trim (mr_role_id r) = [] \<or> mr_application_rate r > 100
         \<or> \<not> weight_valid (mr_selection_weight r)
      then Inl InvalidModifierRule else check_modifier_rules ids rs)"

definition validate_policy :: "LightPlanningPolicy \<Rightarrow> LightPlanError + unit" where
  "validate_policy p =
     (if lp_revision p = 0 then Inl InvalidPolicyRevision
      else if lp_automatic_mid_track_theme_changes p then Inl AutomaticMidTrackThemeChangesUnsupported
      else and_then (check_theme_rules {} (lp_theme_rules p)) (\<lambda>theme_ids.
        if (case lp_default_theme_id p of
              None \<Rightarrow> False
            | Some tid \<Rightarrow> tid = 0 \<or> (theme_ids \<noteq> {} \<and> tid \<notin> theme_ids))
        then Inl InvalidDefaultTheme
        else if lp_theme_rules p \<noteq> [] \<and> \<not> list_ex tr_enabled (lp_theme_rules p) then Inl NoEnabledTheme
        else and_then (check_autoloop_rules {} (lp_rules p)) (\<lambda>_.
        and_then (check_modifiers {} (lp_modifiers p)) (\<lambda>modifier_ids.
          check_modifier_rules modifier_ids (lp_modifier_rules p)))))"

definition rule_for :: "LightPlanningPolicy \<Rightarrow> u64 \<Rightarrow> string \<Rightarrow> string \<Rightarrow> AutoloopRule option" where
  "rule_for p tid role vid =
     find (\<lambda>r. ar_theme_id r = tid \<and> ar_role_id r = role \<and> ar_variant_id r = vid) (lp_rules p)"

section \<open>Requests and plans\<close>

record LoopCandidate =
  cand_theme_id :: u64
  cand_role_id :: string
  cand_variant_id :: string
  cand_entry_id :: string
  cand_display_name :: string
  cand_autoloop_number :: u16

datatype PhraseSelection =
    AutomaticSelection
  | FixedSelection string
  | PlanOverride string

record PhraseRequest =
  pr_phrase_index :: u16
  pr_role_id :: string
  pr_selection :: PhraseSelection

record SelectionEvidence =
  ev_reason :: string
  ev_effective_weight :: u8
  ev_color_influence :: string
  ev_repeat_protection :: string

record CompiledAutoloopChoice =
  cc_phrase_index :: u16
  cc_role_id :: string
  cc_variant_id :: string
  cc_entry_id :: string
  cc_display_name :: string
  cc_autoloop_number :: u16
  cc_evidence :: SelectionEvidence

record CompiledModifierChoice =
  mc_phrase_index :: u16
  mc_role_id :: string
  mc_modifier_id :: string
  mc_kind :: ModifierKind
  mc_scope :: ModifierScope
  mc_display_name :: string
  mc_provider_kind :: string
  mc_midi_channel :: u8
  mc_midi_note :: u8
  mc_evidence :: SelectionEvidence

record CompiledLightPlan =
  clp_policy_revision :: u64
  clp_variation_seed :: u64
  clp_theme_id :: u64
  clp_choices :: "CompiledAutoloopChoice list"
  clp_modifier_choices :: "CompiledModifierChoice list"
  clp_signature :: u64

record PlanHistoryEntry =
  he_theme_id :: u64
  he_signature :: u64
  he_by_role :: "string \<rightharpoonup> string list"
  he_modifiers :: "string list"

text \<open>The reservations are a \<open>BTreeMap\<close>: an association list in ascending order of its keys.\<close>

record VariationHistory =
  vh_committed :: "PlanHistoryEntry list"
  vh_reserved :: "(string \<times> PlanHistoryEntry) list"

definition empty_history :: VariationHistory where
  "empty_history = \<lparr>vh_committed = [], vh_reserved = []\<rparr>"

section \<open>History\<close>

text \<open>\<open>entry(key).or_default().push(value)\<close>.\<close>

definition push_entry :: "('k \<rightharpoonup> 'v list) \<Rightarrow> 'k \<Rightarrow> 'v \<Rightarrow> ('k \<rightharpoonup> 'v list)" where
  "push_entry m k v = m(k \<mapsto> (case m k of None \<Rightarrow> [v] | Some vs \<Rightarrow> vs @ [v]))"

text \<open>The filter closure of \<open>history_entry\<close>, which remembers the track modifiers it has let through.\<close>

fun used_modifiers :: "string set \<Rightarrow> CompiledModifierChoice list \<Rightarrow> string list" where
  "used_modifiers seen [] = []"
| "used_modifiers seen (c # cs) =
     (if mc_scope c = PhraseScope then mc_modifier_id c # used_modifiers seen cs
      else if mc_modifier_id c \<notin> seen then mc_modifier_id c # used_modifiers (insert (mc_modifier_id c) seen) cs
      else used_modifiers seen cs)"

definition history_entry :: "CompiledLightPlan \<Rightarrow> PlanHistoryEntry" where
  "history_entry plan =
     \<lparr>he_theme_id = clp_theme_id plan, he_signature = clp_signature plan,
      he_by_role = foldl (\<lambda>m c. push_entry m (cc_role_id c) (cc_variant_id c)) Map.empty (clp_choices plan),
      he_modifiers = used_modifiers {} (clp_modifier_choices plan)\<rparr>"

definition reserve :: "VariationHistory \<Rightarrow> string \<Rightarrow> CompiledLightPlan \<Rightarrow> VariationHistory" where
  "reserve h rid plan = h\<lparr>vh_reserved := btree_insert rid (history_entry plan) (vh_reserved h)\<rparr>"

definition release :: "VariationHistory \<Rightarrow> string \<Rightarrow> VariationHistory" where
  "release h rid = h\<lparr>vh_reserved := btree_remove rid (vh_reserved h)\<rparr>"

text \<open>The loop \<open>while committed.len() > HISTORY_LIMIT { pop_front }\<close>.\<close>

fun trim_front :: "nat \<Rightarrow> 'a list \<Rightarrow> 'a list" where
  "trim_front limit [] = []"
| "trim_front limit (x # xs) = (if length (x # xs) > limit then trim_front limit xs else x # xs)"

definition commit :: "VariationHistory \<Rightarrow> string \<Rightarrow> VariationHistory" where
  "commit h rid =
     (case map_of (vh_reserved h) rid of
        None \<Rightarrow> h
      | Some entry \<Rightarrow>
          \<lparr>vh_committed = trim_front HISTORY_LIMIT (vh_committed h @ [entry]),
           vh_reserved = btree_remove rid (vh_reserved h)\<rparr>)"

definition clear_history :: "VariationHistory \<Rightarrow> VariationHistory" where
  "clear_history h = h\<lparr>vh_committed := [], vh_reserved := []\<rparr>"

definition recent_entries :: "VariationHistory \<Rightarrow> PlanHistoryEntry list" where
  "recent_entries h = rev (vh_committed h) @ rev (map snd (vh_reserved h))"

definition recent_variants :: "VariationHistory \<Rightarrow> string \<Rightarrow> nat \<Rightarrow> string set" where
  "recent_variants h role limit =
     set (take limit (concat (map rev (List.map_filter (\<lambda>e. he_by_role e role) (recent_entries h)))))"

definition recent_signatures :: "VariationHistory \<Rightarrow> nat \<Rightarrow> u64 set" where
  "recent_signatures h limit = he_signature ` set (take limit (recent_entries h))"

definition recent_modifiers :: "VariationHistory \<Rightarrow> nat \<Rightarrow> string set" where
  "recent_modifiers h limit = set (take limit (concat (map (\<lambda>e. rev (he_modifiers e)) (recent_entries h))))"

definition theme_is_recent :: "VariationHistory \<Rightarrow> u64 \<Rightarrow> nat \<Rightarrow> bool" where
  "theme_is_recent h tid limit = list_ex (\<lambda>e. he_theme_id e = tid) (take limit (recent_entries h))"

definition without_signatures :: "VariationHistory \<Rightarrow> VariationHistory" where
  "without_signatures h =
     h\<lparr>vh_committed := map (\<lambda>e. e\<lparr>he_signature := 0\<rparr>) (vh_committed h),
       vh_reserved := map (\<lambda>(k, e). (k, e\<lparr>he_signature := 0\<rparr>)) (vh_reserved h)\<rparr>"

section \<open>Choosing loops\<close>

definition stable_text_hash :: "string \<Rightarrow> u64" where
  "stable_text_hash s =
     foldl (\<lambda>hash c. (hash XOR of_nat (code_of c)) * 0x00000100000001b3) 0xcbf29ce484222325 s"

definition stable_mix :: "u64 \<Rightarrow> u64" where
  "stable_mix value =
     (let v = value XOR drop_bit 30 value;
          v = v * 0xbf58476d1ce4e5b9;
          v = v XOR drop_bit 27 v;
          v = v * 0x94d049bb133111eb
      in v XOR drop_bit 31 v)"

definition color_match :: "u32 option \<Rightarrow> u32 list \<Rightarrow> bool" where
  "color_match color rgb = (case color of None \<Rightarrow> False | Some c \<Rightarrow> c \<in> set rgb)"

definition matching_color_only :: "LightPlanningPolicy \<Rightarrow> u64 \<Rightarrow> string \<Rightarrow> string \<Rightarrow> u32 option \<Rightarrow> bool" where
  "matching_color_only p tid role vid color =
     (case rule_for p tid role vid of
        None \<Rightarrow> False
      | Some r \<Rightarrow> ar_color_behavior r = Only \<and> color_match color (ar_color_rgb r))"

definition doubled :: "u8 \<Rightarrow> u8" where
  "doubled w = (if unat w * 2 < 2 ^ 8 then w * 2 else - 1)"

text \<open>The walk with \<open>cursor\<close> over the weights; the first element is the choice when no cursor passes the roll.\<close>

fun cursor_pick :: "('a \<Rightarrow> u64) \<Rightarrow> u64 \<Rightarrow> u64 \<Rightarrow> 'a \<Rightarrow> 'a list \<Rightarrow> 'a" where
  "cursor_pick w roll cursor fallback [] = fallback"
| "cursor_pick w roll cursor fallback (x # xs) =
     (let cursor = saturating_add cursor (w x) in
      if roll < cursor then x else cursor_pick w roll cursor fallback xs)"

record WeightedCandidate =
  wc_candidate :: LoopCandidate
  wc_weight :: u64
  wc_preferred :: bool

definition weigh :: "LightPlanningPolicy \<Rightarrow> u64 \<Rightarrow> u32 option \<Rightarrow> string \<Rightarrow> LoopCandidate \<Rightarrow> WeightedCandidate" where
  "weigh p tid color role cand =
     (let rule = rule_for p tid role (cand_variant_id cand);
          base = (case rule of None \<Rightarrow> DEFAULT_SELECTION_WEIGHT | Some r \<Rightarrow> effective_weight (ar_selection_weight r));
          preferred = (case rule of
              None \<Rightarrow> False
            | Some r \<Rightarrow> ar_color_behavior r = Prefer \<and> color_match color (ar_color_rgb r)) in
      \<lparr>wc_candidate = cand, wc_weight = ucast (if preferred then doubled base else base), wc_preferred = preferred\<rparr>)"

fun requested :: "PhraseSelection \<Rightarrow> string option" where
  "requested AutomaticSelection = None"
| "requested (FixedSelection vid) = Some vid"
| "requested (PlanOverride vid) = Some vid"

definition explicit_evidence :: "PhraseSelection \<Rightarrow> SelectionEvidence" where
  "explicit_evidence selection =
     \<lparr>ev_reason = (case selection of PlanOverride _ \<Rightarrow> ''plan override'' | _ \<Rightarrow> ''track fixed variant''),
      ev_effective_weight = 4, ev_color_influence = ''not evaluated for explicit choice'',
      ev_repeat_protection = ''explicit choice takes precedence''\<rparr>"

definition rule_enabled :: "LightPlanningPolicy \<Rightarrow> u64 \<Rightarrow> string \<Rightarrow> LoopCandidate \<Rightarrow> bool" where
  "rule_enabled p tid role cand =
     (case rule_for p tid role (cand_variant_id cand) of None \<Rightarrow> True | Some r \<Rightarrow> ar_enabled r)"

definition not_color_only :: "LightPlanningPolicy \<Rightarrow> u64 \<Rightarrow> string \<Rightarrow> LoopCandidate \<Rightarrow> bool" where
  "not_color_only p tid role cand =
     (case rule_for p tid role (cand_variant_id cand) of None \<Rightarrow> True | Some r \<Rightarrow> ar_color_behavior r \<noteq> Only)"

text \<open>The eligible candidates of an automatic phrase before repeat protection.\<close>

definition color_eligible ::
  "LightPlanningPolicy \<Rightarrow> u64 \<Rightarrow> u32 option \<Rightarrow> string \<Rightarrow> LoopCandidate list \<Rightarrow> LoopCandidate list" where
  "color_eligible p tid color role eligible =
     (let matching_only = filter (\<lambda>cand. matching_color_only p tid role (cand_variant_id cand) color) eligible in
      if matching_only \<noteq> [] then matching_only else filter (not_color_only p tid role) eligible)"

definition automatic_evidence ::
  "LightPlanningPolicy \<Rightarrow> u64 \<Rightarrow> u32 option \<Rightarrow> string \<Rightarrow> bool \<Rightarrow> WeightedCandidate \<Rightarrow> SelectionEvidence" where
  "automatic_evidence p tid color role relaxed x =
     (let only = matching_color_only p tid role (cand_variant_id (wc_candidate x)) color in
      \<lparr>ev_reason = (if only then ''track color only''
                    else if wc_preferred x then ''track color preferred weighted variation''
                    else ''weighted variation''),
       ev_effective_weight = (if unat (wc_weight x) < 2 ^ 8 then ucast (wc_weight x) else - 1),
       ev_color_influence = (if wc_preferred x then ''prefer match'' else if only then ''only match'' else ''neutral''),
       ev_repeat_protection =
         (if relaxed then ''oldest constraint relaxed; Phrase Role preserved'' else ''recent variants excluded'')\<rparr>)"

definition phrase_roll :: "LightPlanningPolicy \<Rightarrow> u64 \<Rightarrow> PhraseRequest \<Rightarrow> u64" where
  "phrase_roll p seed phrase =
     stable_mix (seed XOR ucast (pr_phrase_index phrase) XOR stable_text_hash (pr_role_id phrase) XOR lp_revision p)"

definition choose_automatic ::
  "LightPlanningPolicy \<Rightarrow> u64 \<Rightarrow> u32 option \<Rightarrow> u64 \<Rightarrow> VariationHistory \<Rightarrow> (string \<rightharpoonup> string list) \<Rightarrow> PhraseRequest \<Rightarrow>
   LoopCandidate list \<Rightarrow> (LoopCandidate \<times> SelectionEvidence) option" where
  "choose_automatic p tid color seed h local_choices phrase candidates =
     (let role = pr_role_id phrase;
          enabled = filter (rule_enabled p tid role) candidates in
      if enabled = [] then None
      else
        let eligible = color_eligible p tid color role enabled in
        if eligible = [] then None
        else
          let limit = unat (lp_autoloop_cooldown_uses p);
              history_recent = recent_variants h role limit;
              local_recent = set (take limit (case local_choices role of None \<Rightarrow> [] | Some vs \<Rightarrow> rev vs));
              unrepeated = filter (\<lambda>cand. cand_variant_id cand \<notin> history_recent \<and> cand_variant_id cand \<notin> local_recent) eligible;
              relaxed = (unrepeated = []);
              weighted = map (weigh p tid color role) (if relaxed then eligible else unrepeated);
              total_weight = sum_list (map wc_weight weighted);
              roll = phrase_roll p seed phrase mod max total_weight 1;
              selected = cursor_pick wc_weight roll 0 (hd weighted) weighted in
          Some (wc_candidate selected, automatic_evidence p tid color role relaxed selected))"

text \<open>What one phrase gets: nothing (\<open>continue\<close>), a candidate, or an error.\<close>

definition choose_phrase ::
  "LightPlanningPolicy \<Rightarrow> u64 \<Rightarrow> u32 option \<Rightarrow> u64 \<Rightarrow> LoopCandidate list \<Rightarrow> VariationHistory \<Rightarrow>
   (string \<rightharpoonup> string list) \<Rightarrow> PhraseRequest \<Rightarrow> LightPlanError + (LoopCandidate \<times> SelectionEvidence) option" where
  "choose_phrase p tid color seed candidates h local_choices phrase =
     (let eligible = filter (\<lambda>cand. cand_theme_id cand = tid \<and> cand_role_id cand = pr_role_id phrase) candidates in
      if eligible = [] then Inr None
      else (case requested (pr_selection phrase) of
              Some vid \<Rightarrow>
                and_then (ok_or (find (\<lambda>cand. cand_variant_id cand = vid) eligible) (MissingVariant (pr_role_id phrase) vid)) (\<lambda>cand.
                  Inr (Some (cand, explicit_evidence (pr_selection phrase))))
            | None \<Rightarrow> Inr (choose_automatic p tid color seed h local_choices phrase eligible)))"

definition compiled_choice :: "PhraseRequest \<Rightarrow> LoopCandidate \<Rightarrow> SelectionEvidence \<Rightarrow> CompiledAutoloopChoice" where
  "compiled_choice phrase cand evidence =
     \<lparr>cc_phrase_index = pr_phrase_index phrase, cc_role_id = pr_role_id phrase, cc_variant_id = cand_variant_id cand,
      cc_entry_id = cand_entry_id cand, cc_display_name = cand_display_name cand,
      cc_autoloop_number = cand_autoloop_number cand, cc_evidence = evidence\<rparr>"

fun compile_choices ::
  "LightPlanningPolicy \<Rightarrow> u64 \<Rightarrow> u32 option \<Rightarrow> u64 \<Rightarrow> LoopCandidate list \<Rightarrow> VariationHistory \<Rightarrow>
   (string \<rightharpoonup> string list) \<Rightarrow> PhraseRequest list \<Rightarrow> LightPlanError + CompiledAutoloopChoice list" where
  "compile_choices p tid color seed candidates h local_choices [] = Inr []"
| "compile_choices p tid color seed candidates h local_choices (phrase # phrases) =
     and_then (choose_phrase p tid color seed candidates h local_choices phrase) (\<lambda>selected.
       case selected of
         None \<Rightarrow> compile_choices p tid color seed candidates h local_choices phrases
       | Some (cand, evidence) \<Rightarrow>
           and_then (compile_choices p tid color seed candidates h
                       (push_entry local_choices (pr_role_id phrase) (cand_variant_id cand)) phrases) (\<lambda>choices.
             Inr (compiled_choice phrase cand evidence # choices)))"

section \<open>Choosing modifiers\<close>

instantiation ModifierKind :: linorder
begin

definition less_eq_ModifierKind :: "ModifierKind \<Rightarrow> ModifierKind \<Rightarrow> bool" where
  "less_eq_ModifierKind a b \<longleftrightarrow> a = Atmosphere \<or> b = Color"

definition less_ModifierKind :: "ModifierKind \<Rightarrow> ModifierKind \<Rightarrow> bool" where
  "less_ModifierKind a b \<longleftrightarrow> a = Atmosphere \<and> b = Color"

instance
proof
  fix a b c :: ModifierKind
  show "(a < b) = (a \<le> b \<and> \<not> b \<le> a)"
    by (cases a; cases b) (simp_all add: less_eq_ModifierKind_def less_ModifierKind_def)
  show "a \<le> a" by (cases a) (simp_all add: less_eq_ModifierKind_def)
  show "a \<le> b \<or> b \<le> a" by (cases a; cases b) (simp_all add: less_eq_ModifierKind_def)
  show "a \<le> b \<Longrightarrow> b \<le> c \<Longrightarrow> a \<le> c"
    by (cases a; cases b; cases c) (simp_all add: less_eq_ModifierKind_def)
  show "a \<le> b \<Longrightarrow> b \<le> a \<Longrightarrow> a = b" by (cases a; cases b) (simp_all add: less_eq_ModifierKind_def)
qed

end

fun kind_salt :: "ModifierKind \<Rightarrow> u64" where
  "kind_salt Atmosphere = 0xa7105001"
| "kind_salt Color = 0xc0107002"

text \<open>The modifier and the rule of every rule of the phrase's role whose modifier is ready and not recent.\<close>

definition eligible_modifiers ::
  "LightPlanningPolicy \<Rightarrow> VariationHistory \<Rightarrow> ModifierKind \<Rightarrow> string list \<Rightarrow> string \<Rightarrow> (OutputModifier \<times> ModifierRule) list" where
  "eligible_modifiers p h kind local_uses role =
     filter (\<lambda>(m, r).
         om_id m \<notin> recent_modifiers h (unat (mr_cooldown_uses r))
       \<and> om_id m \<notin> set (take (unat (mr_cooldown_uses r)) (rev local_uses)))
       (List.map_filter (\<lambda>r.
          case find (\<lambda>m. om_id m = mr_modifier_id r \<and> om_kind m = kind \<and> automatic_execution_ready m) (lp_modifiers p) of
            None \<Rightarrow> None
          | Some m \<Rightarrow> if mr_role_id r = role then Some (m, r) else None)
        (lp_modifier_rules p))"

definition color_eligible_modifiers ::
  "u32 option \<Rightarrow> (OutputModifier \<times> ModifierRule) list \<Rightarrow> (OutputModifier \<times> ModifierRule) list" where
  "color_eligible_modifiers color eligible =
     (let matching_only = filter (\<lambda>(m, r). mr_color_behavior r = Only \<and> color_match color (mr_color_rgb r)) eligible in
      if matching_only = [] then filter (\<lambda>(m, r). mr_color_behavior r \<noteq> Only) eligible else matching_only)"

definition rate_selects :: "LightPlanningPolicy \<Rightarrow> u64 \<Rightarrow> u16 \<Rightarrow> OutputModifier \<times> ModifierRule \<Rightarrow> bool" where
  "rate_selects p seed index = (\<lambda>(m, r).
     mr_application_rate r \<noteq> 0
   \<and> stable_mix (seed XOR ucast index XOR stable_text_hash (om_id m) XOR lp_revision p XOR 0x4d4f444946494552) mod 100
       < ucast (mr_application_rate r))"

record WeightedModifier =
  wm_modifier :: OutputModifier
  wm_rule :: ModifierRule
  wm_weight :: u8
  wm_preferred :: bool

definition weigh_modifier :: "u32 option \<Rightarrow> OutputModifier \<times> ModifierRule \<Rightarrow> WeightedModifier" where
  "weigh_modifier color = (\<lambda>(m, r).
     let preferred = (mr_color_behavior r = Prefer \<and> color_match color (mr_color_rgb r));
         weight = clamp (mr_selection_weight r) 1 4 in
     \<lparr>wm_modifier = m, wm_rule = r, wm_weight = (if preferred then doubled weight else weight), wm_preferred = preferred\<rparr>)"

definition modifier_choice :: "PhraseRequest \<Rightarrow> ModifierKind \<Rightarrow> WeightedModifier \<Rightarrow> CompiledModifierChoice" where
  "modifier_choice phrase kind x =
     (let m = wm_modifier x; r = wm_rule x in
      \<lparr>mc_phrase_index = pr_phrase_index phrase, mc_role_id = pr_role_id phrase, mc_modifier_id = om_id m, mc_kind = kind,
       mc_scope = mr_scope r, mc_display_name = om_display_name m, mc_provider_kind = om_provider_kind m,
       mc_midi_channel = om_midi_channel m, mc_midi_note = om_midi_note m,
       mc_evidence =
         \<lparr>ev_reason = (case mr_scope r of
             PhraseScope \<Rightarrow> ''application rate selected phrase modifier''
           | TrackScope \<Rightarrow> ''application rate selected whole-track modifier''),
          ev_effective_weight = wm_weight x,
          ev_color_influence = (if wm_preferred x then ''prefer match''
            else if mr_color_behavior r = Only then ''only match'' else ''neutral''),
          ev_repeat_protection = ''modifier cooldown satisfied''\<rparr>\<rparr>)"

definition continued :: "PhraseRequest \<Rightarrow> CompiledModifierChoice \<Rightarrow> CompiledModifierChoice" where
  "continued phrase active =
     active\<lparr>mc_phrase_index := pr_phrase_index phrase, mc_role_id := pr_role_id phrase,
            mc_evidence := (mc_evidence active)\<lparr>ev_reason := ''whole-track modifier continued''\<rparr>\<rparr>"

definition choose_modifier ::
  "LightPlanningPolicy \<Rightarrow> u32 option \<Rightarrow> u64 \<Rightarrow> VariationHistory \<Rightarrow> ModifierKind \<Rightarrow> string list \<Rightarrow> PhraseRequest \<Rightarrow>
   CompiledModifierChoice option" where
  "choose_modifier p color seed h kind local_uses phrase =
     (let eligible = filter (rate_selects p seed (pr_phrase_index phrase))
            (color_eligible_modifiers color (eligible_modifiers p h kind local_uses (pr_role_id phrase))) in
      if eligible = [] then None
      else
        let weighted = map (weigh_modifier color) eligible;
            total_weight = sum_list (map (\<lambda>x. ucast (wm_weight x) :: u64) weighted);
            roll = stable_mix (seed XOR ucast (pr_phrase_index phrase) XOR lp_revision p XOR kind_salt kind) mod max total_weight 1 in
        Some (modifier_choice phrase kind
          (cursor_pick (\<lambda>x. ucast (wm_weight x)) roll 0 (hd weighted) weighted)))"

text \<open>The loop over the phrases for one kind, with \<open>carried\<close> and \<open>local_uses\<close>.\<close>

fun modifier_loop ::
  "LightPlanningPolicy \<Rightarrow> u32 option \<Rightarrow> u64 \<Rightarrow> VariationHistory \<Rightarrow> ModifierKind \<Rightarrow> CompiledModifierChoice option \<Rightarrow>
   string list \<Rightarrow> PhraseRequest list \<Rightarrow> CompiledModifierChoice list" where
  "modifier_loop p color seed h kind carried local_uses [] = []"
| "modifier_loop p color seed h kind carried local_uses (phrase # phrases) =
     (case carried of
        Some active \<Rightarrow>
          continued phrase active # modifier_loop p color seed h kind carried local_uses phrases
      | None \<Rightarrow>
          (case choose_modifier p color seed h kind local_uses phrase of
             None \<Rightarrow> modifier_loop p color seed h kind None local_uses phrases
           | Some choice \<Rightarrow>
               choice # modifier_loop p color seed h kind
                          (if mc_scope choice = TrackScope then Some choice else None)
                          (local_uses @ [mc_modifier_id choice]) phrases))"

definition compile_modifiers ::
  "LightPlanningPolicy \<Rightarrow> u32 option \<Rightarrow> u64 \<Rightarrow> PhraseRequest list \<Rightarrow> VariationHistory \<Rightarrow> CompiledModifierChoice list" where
  "compile_modifiers p color seed phrases h =
     sort_key (\<lambda>c. (mc_phrase_index c, mc_kind c))
       (concat (map (\<lambda>kind. modifier_loop p color seed h kind None [] phrases) [Atmosphere, Color]))"

section \<open>Compilation\<close>

definition signature_step :: "CompiledModifierChoice list \<Rightarrow> u16 \<Rightarrow> u64 \<Rightarrow> ModifierKind \<Rightarrow> u64" where
  "signature_step modifiers index signature kind =
     stable_mix (signature
       XOR (case find (\<lambda>c. mc_phrase_index c = index \<and> mc_kind c = kind) modifiers of
              None \<Rightarrow> 0
            | Some c \<Rightarrow> stable_text_hash (mc_modifier_id c))
       XOR kind_salt kind)"

definition plan_signature ::
  "u64 \<Rightarrow> CompiledAutoloopChoice list \<Rightarrow> PhraseRequest list \<Rightarrow> CompiledModifierChoice list \<Rightarrow> u64" where
  "plan_signature tid choices phrases modifiers =
     foldl (\<lambda>signature phrase.
         foldl (signature_step modifiers (pr_phrase_index phrase)) signature [Atmosphere, Color])
       (foldl (\<lambda>signature c. stable_mix (signature XOR stable_text_hash (cc_variant_id c))) (stable_mix tid) choices)
       phrases"

text \<open>The plan of one seed, before it is compared with the recent plans.\<close>

definition compile_once ::
  "LightPlanningPolicy \<Rightarrow> u64 \<Rightarrow> u32 option \<Rightarrow> PhraseRequest list \<Rightarrow> LoopCandidate list \<Rightarrow> u64 \<Rightarrow> VariationHistory \<Rightarrow>
   LightPlanError + CompiledLightPlan" where
  "compile_once p tid color phrases candidates seed h =
     and_then (validate_policy p) (\<lambda>_.
     and_then (compile_choices p tid color seed candidates h Map.empty phrases) (\<lambda>choices.
       let modifiers = compile_modifiers p color seed phrases h in
       Inr \<lparr>clp_policy_revision = lp_revision p, clp_variation_seed = seed, clp_theme_id = tid,
            clp_choices = choices, clp_modifier_choices = modifiers,
            clp_signature = plan_signature tid choices phrases modifiers\<rparr>))"

text \<open>
  The loop over the retries: the first alternative whose signature is not recent; \<open>Inr None\<close> when
  there is none, and \<open>None\<close> when one of the calls does not return.
\<close>

fun first_alternative ::
  "(u64 \<Rightarrow> (LightPlanError + CompiledLightPlan) option) \<Rightarrow> u64 set \<Rightarrow> u64 list \<Rightarrow>
   (LightPlanError + CompiledLightPlan option) option" where
  "first_alternative compile recent [] = Some (Inr None)"
| "first_alternative compile recent (retry # retries) =
     Option.bind (compile retry) (\<lambda>r.
       case r of
         Inl e \<Rightarrow> Some (Inl e)
       | Inr alternative \<Rightarrow>
           if clp_signature alternative \<notin> recent then Some (Inr (Some alternative))
           else first_alternative compile recent retries)"

lemma first_alternative_mono [partial_function_mono]:
  assumes "\<And>retry. mono_option (\<lambda>f. F f retry)"
  shows "mono_option (\<lambda>f. first_alternative (F f) recent retries)"
proof (induction retries)
  case (Cons retry retries)
  have "mono_option (\<lambda>f. case r of Inl e \<Rightarrow> Some (Inl e)
      | Inr alternative \<Rightarrow> if clp_signature alternative \<notin> recent then Some (Inr (Some alternative))
                          else first_alternative (F f) recent retries)" for r
    by (cases r) (auto intro: Cons.IH option.const_mono if_mono)
  then show ?case unfolding first_alternative.simps by (intro bind_mono assms) simp
qed (simp add: option.const_mono)

definition retry_offsets :: "u64 list" where
  "retry_offsets = map of_nat [1..<33]"

partial_function (option) compile_light_plan ::
  "LightPlanningPolicy \<Rightarrow> u64 \<Rightarrow> u32 option \<Rightarrow> PhraseRequest list \<Rightarrow> LoopCandidate list \<Rightarrow> u64 \<Rightarrow> VariationHistory \<Rightarrow>
   (LightPlanError + CompiledLightPlan) option" where
  "compile_light_plan p tid color phrases candidates seed h =
     (case compile_once p tid color phrases candidates seed h of
        Inl e \<Rightarrow> Some (Inl e)
      | Inr plan \<Rightarrow>
          let recent = recent_signatures h (unat (lp_duplicate_plan_window p)) in
          if clp_signature plan \<in> recent then
            Option.bind (first_alternative
                (\<lambda>retry. compile_light_plan p tid color phrases candidates (seed + retry) (without_signatures h))
                recent retry_offsets) (\<lambda>r.
              case r of
                Inl e \<Rightarrow> Some (Inl e)
              | Inr None \<Rightarrow> Some (Inr plan)
              | Inr (Some alternative) \<Rightarrow> Some (Inr alternative))
          else Some (Inr plan))"

section \<open>Mixing and picking\<close>

lemma stable_mix_eq: "stable_mix v = mix v"
  by (simp add: stable_mix_def mix_def)

lemma stable_mix_0: "stable_mix v = 0 \<longleftrightarrow> v = 0"
  by (simp add: stable_mix_eq mix_0)

lemma cursor_pick_cases: "cursor_pick w roll cursor fallback xs \<in> insert fallback (set xs)"
  by (induction xs arbitrary: cursor) (auto simp: Let_def)

lemma cursor_pick_member: "xs \<noteq> [] \<Longrightarrow> cursor_pick w roll cursor (hd xs) xs \<in> set xs"
  using cursor_pick_cases [of w roll cursor "hd xs" xs] by (metis insert_absorb list.set_sel(1))

section \<open>What a phrase may get\<close>

definition theme_candidates :: "LoopCandidate list \<Rightarrow> u64 \<Rightarrow> string \<Rightarrow> LoopCandidate list" where
  "theme_candidates candidates tid role =
     filter (\<lambda>cand. cand_theme_id cand = tid \<and> cand_role_id cand = role) candidates"

text \<open>The candidates an automatic phrase may get: enabled, and of the right colour.\<close>

definition allowed ::
  "LightPlanningPolicy \<Rightarrow> u64 \<Rightarrow> u32 option \<Rightarrow> LoopCandidate list \<Rightarrow> string \<Rightarrow> LoopCandidate list" where
  "allowed p tid color candidates role =
     color_eligible p tid color role (filter (rule_enabled p tid role) (theme_candidates candidates tid role))"

lemma color_eligible_subset: "set (color_eligible p tid color role xs) \<subseteq> set xs"
  by (auto simp: color_eligible_def Let_def)

lemma allowed_member:
  "cand \<in> set (allowed p tid color candidates role) \<Longrightarrow>
     cand \<in> set candidates \<and> cand_theme_id cand = tid \<and> cand_role_id cand = role \<and> rule_enabled p tid role cand
   \<and> (matching_color_only p tid role (cand_variant_id cand) color \<or> not_color_only p tid role cand)"
  by (auto simp: allowed_def color_eligible_def theme_candidates_def Let_def split: if_splits)

lemma allowed_Nil:
  "allowed p tid color candidates role = [] \<longleftrightarrow>
     (let enabled = filter (rule_enabled p tid role) (theme_candidates candidates tid role) in
      enabled = [] \<or> color_eligible p tid color role enabled = [])"
  by (auto simp: allowed_def color_eligible_def Let_def filter_empty_conv)

definition recently_used ::
  "LightPlanningPolicy \<Rightarrow> VariationHistory \<Rightarrow> (string \<rightharpoonup> string list) \<Rightarrow> string \<Rightarrow> string set" where
  "recently_used p h local_choices role =
     (let limit = unat (lp_autoloop_cooldown_uses p) in
      recent_variants h role limit \<union> set (take limit (case local_choices role of None \<Rightarrow> [] | Some vs \<Rightarrow> rev vs)))"

lemma choose_automatic_None:
  "choose_automatic p tid color seed h l phrase (theme_candidates candidates tid (pr_role_id phrase)) = None \<longleftrightarrow>
     allowed p tid color candidates (pr_role_id phrase) = []"
  unfolding allowed_Nil by (simp add: choose_automatic_def Let_def)

lemma weigh_candidate [simp]: "wc_candidate (weigh p tid color role cand) = cand"
  by (simp add: weigh_def Let_def)

lemma automatic_reason:
  "ev_reason (automatic_evidence p tid color role relaxed x) = ''track color only''
     \<longleftrightarrow> matching_color_only p tid role (cand_variant_id (wc_candidate x)) color"
  by (simp add: automatic_evidence_def Let_def)

lemma choose_automatic_Some:
  assumes "choose_automatic p tid color seed h l phrase (theme_candidates candidates tid (pr_role_id phrase))
             = Some (cand, evidence)"
  shows "cand \<in> set (allowed p tid color candidates (pr_role_id phrase))"
    and "cand_variant_id cand \<notin> recently_used p h l (pr_role_id phrase)
       \<or> (\<forall>x \<in> set (allowed p tid color candidates (pr_role_id phrase)).
            cand_variant_id x \<in> recently_used p h l (pr_role_id phrase))"
    and "ev_reason evidence = ''track color only'' \<longleftrightarrow> matching_color_only p tid (pr_role_id phrase) (cand_variant_id cand) color"
proof -
  let ?used = "recently_used p h l (pr_role_id phrase)"
  let ?allowed = "allowed p tid color candidates (pr_role_id phrase)"
  let ?fresh = "filter (\<lambda>cand. cand_variant_id cand \<notin> ?used) ?allowed"
  let ?w = "map (weigh p tid color (pr_role_id phrase)) (if ?fresh = [] then ?allowed else ?fresh)"
  have ne: "?allowed \<noteq> []" using assms choose_automatic_None [of p tid color seed h l phrase candidates] by auto
  then have w: "?w \<noteq> []" by simp
  obtain roll where pick: "cand = wc_candidate (cursor_pick wc_weight roll 0 (hd ?w) ?w)"
    and evidence: "evidence = automatic_evidence p tid color (pr_role_id phrase) (?fresh = []) (cursor_pick wc_weight roll 0 (hd ?w) ?w)"
    using assms by (auto simp: choose_automatic_def recently_used_def allowed_def Let_def split: if_splits)
  have "cand \<in> set (if ?fresh = [] then ?allowed else ?fresh)"
    using cursor_pick_member [OF w, of wc_weight roll 0] unfolding pick by auto
  then show "cand \<in> set ?allowed"
    and "cand_variant_id cand \<notin> ?used \<or> (\<forall>x \<in> set ?allowed. cand_variant_id x \<in> ?used)"
    by (auto split: if_splits simp: filter_empty_conv)
  show "ev_reason evidence = ''track color only'' \<longleftrightarrow> matching_color_only p tid (pr_role_id phrase) (cand_variant_id cand) color"
    using automatic_reason [of p tid color "pr_role_id phrase" "?fresh = []" "cursor_pick wc_weight roll 0 (hd ?w) ?w"]
    by (simp only: evidence pick)
qed

text \<open>What the phrases are given: \<open>None\<close> for a phrase that keeps the running loop.\<close>

definition playable :: "LightPlanningPolicy \<Rightarrow> u64 \<Rightarrow> u32 option \<Rightarrow> LoopCandidate list \<Rightarrow> PhraseRequest \<Rightarrow> bool" where
  "playable p tid color candidates phrase =
     (case requested (pr_selection phrase) of
        Some vid \<Rightarrow> theme_candidates candidates tid (pr_role_id phrase) \<noteq> []
      | None \<Rightarrow> allowed p tid color candidates (pr_role_id phrase) \<noteq> [])"

definition fulfils ::
  "LightPlanningPolicy \<Rightarrow> u64 \<Rightarrow> u32 option \<Rightarrow> LoopCandidate list \<Rightarrow> PhraseRequest \<Rightarrow> CompiledAutoloopChoice \<Rightarrow> bool" where
  "fulfils p tid color candidates phrase c \<longleftrightarrow>
     (\<exists>cand evidence. c = compiled_choice phrase cand evidence \<and> cand \<in> set candidates
       \<and> cand_theme_id cand = tid \<and> cand_role_id cand = pr_role_id phrase
       \<and> (case requested (pr_selection phrase) of
            Some vid \<Rightarrow> cand_variant_id cand = vid
          | None \<Rightarrow> cand \<in> set (allowed p tid color candidates (pr_role_id phrase))
              \<and> (ev_reason evidence = ''track color only'' \<longleftrightarrow> matching_color_only p tid (pr_role_id phrase) (cand_variant_id cand) color)))"

lemma choose_phrase_None:
  "choose_phrase p tid color seed candidates h l phrase = Inr None \<Longrightarrow> \<not> playable p tid color candidates phrase"
  by (auto simp: choose_phrase_def playable_def theme_candidates_def [symmetric] Let_def result_simps
      choose_automatic_None allowed_Nil split: if_splits option.splits)

lemma choose_phrase_Some:
  assumes "choose_phrase p tid color seed candidates h l phrase = Inr (Some (cand, evidence))"
  shows "playable p tid color candidates phrase \<and> fulfils p tid color candidates phrase (compiled_choice phrase cand evidence)"
proof (cases "requested (pr_selection phrase)")
  case None
  then have "choose_automatic p tid color seed h l phrase (theme_candidates candidates tid (pr_role_id phrase)) = Some (cand, evidence)"
    using assms by (auto simp: choose_phrase_def theme_candidates_def [symmetric] Let_def split: if_splits)
  from choose_automatic_Some(1,3) [OF this] show ?thesis
    using None by (auto simp: playable_def fulfils_def dest: allowed_member)
next
  case (Some vid)
  then have "find (\<lambda>cand. cand_variant_id cand = vid) (theme_candidates candidates tid (pr_role_id phrase)) = Some cand"
    using assms by (auto simp: choose_phrase_def theme_candidates_def [symmetric] Let_def result_simps split: if_splits)
  from find_SomeD [OF this] show ?thesis using Some
    by (auto simp: playable_def fulfils_def theme_candidates_def filter_empty_conv)
qed

lemma compile_choices_fulfil:
  "compile_choices p tid color seed candidates h l phrases = Inr choices \<Longrightarrow>
     list_all2 (fulfils p tid color candidates) (filter (playable p tid color candidates) phrases) choices"
proof (induction phrases arbitrary: l choices)
  case (Cons phrase phrases)
  then obtain selected where sel: "choose_phrase p tid color seed candidates h l phrase = Inr selected"
    by (auto simp: result_simps)
  show ?case
  proof (cases selected)
    case None
    then show ?thesis using Cons sel choose_phrase_None [of p tid color seed candidates h l phrase] by simp
  next
    case (Some a)
    obtain cand evidence where a: "a = (cand, evidence)" by fastforce
    then show ?thesis using Cons sel Some choose_phrase_Some [of p tid color seed candidates h l phrase cand evidence]
      by (auto simp: result_simps)
  qed
qed simp

section \<open>The rules of a policy\<close>

text \<open>
  What a policy says of a variant, from its list of rules: the first rule for the theme, the role and
  the variant holds. A variant that it switches off is not offered. A variant bound to colours is admitted only
  for a track of one of them, and when one is, only such variants are; other variants need no colour.
\<close>

definition holds_rule :: "LightPlanningPolicy \<Rightarrow> u64 \<Rightarrow> string \<Rightarrow> LoopCandidate \<Rightarrow> (AutoloopRule \<Rightarrow> bool) \<Rightarrow> bool" where
  "holds_rule p tid role cand P \<longleftrightarrow>
     (let about = (\<lambda>r. ar_theme_id r = tid \<and> ar_role_id r = role \<and> ar_variant_id r = cand_variant_id cand) in
      \<exists>before r after. lp_rules p = before @ r # after \<and> about r \<and> (\<forall>q \<in> set before. \<not> about q) \<and> P r)"

definition offered_loops :: "LightPlanningPolicy \<Rightarrow> u64 \<Rightarrow> LoopCandidate list \<Rightarrow> string \<Rightarrow> LoopCandidate set" where
  "offered_loops p tid candidates role =
     {cand \<in> set candidates. cand_theme_id cand = tid \<and> cand_role_id cand = role
        \<and> \<not> holds_rule p tid role cand (\<lambda>r. \<not> ar_enabled r)}"

definition color_bound :: "LightPlanningPolicy \<Rightarrow> u64 \<Rightarrow> string \<Rightarrow> LoopCandidate \<Rightarrow> bool" where
  "color_bound p tid role cand \<longleftrightarrow> holds_rule p tid role cand (\<lambda>r. ar_color_behavior r = Only)"

definition color_fits :: "LightPlanningPolicy \<Rightarrow> u64 \<Rightarrow> u32 option \<Rightarrow> string \<Rightarrow> LoopCandidate \<Rightarrow> bool" where
  "color_fits p tid color role cand \<longleftrightarrow>
     holds_rule p tid role cand (\<lambda>r. ar_color_behavior r = Only \<and> (\<exists>rgb. color = Some rgb \<and> rgb \<in> set (ar_color_rgb r)))"

definition admitted :: "LightPlanningPolicy \<Rightarrow> u64 \<Rightarrow> u32 option \<Rightarrow> LoopCandidate list \<Rightarrow> string \<Rightarrow> LoopCandidate set" where
  "admitted p tid color candidates role =
     {cand \<in> offered_loops p tid candidates role. color_fits p tid color role cand
        \<or> \<not> color_bound p tid role cand \<and> (\<forall>other \<in> offered_loops p tid candidates role. \<not> color_fits p tid color role other)}"

text \<open>The phrases that get a choice, and what a choice is.\<close>

definition choice_due :: "LightPlanningPolicy \<Rightarrow> u64 \<Rightarrow> u32 option \<Rightarrow> LoopCandidate list \<Rightarrow> PhraseRequest \<Rightarrow> bool" where
  "choice_due p tid color candidates phrase \<longleftrightarrow>
     (if pr_selection phrase = AutomaticSelection then admitted p tid color candidates (pr_role_id phrase) \<noteq> {}
      else \<exists>cand \<in> set candidates. cand_theme_id cand = tid \<and> cand_role_id cand = pr_role_id phrase)"

definition choice_right ::
  "LightPlanningPolicy \<Rightarrow> u64 \<Rightarrow> u32 option \<Rightarrow> LoopCandidate list \<Rightarrow> PhraseRequest \<Rightarrow> CompiledAutoloopChoice \<Rightarrow> bool" where
  "choice_right p tid color candidates phrase c \<longleftrightarrow>
     cc_phrase_index c = pr_phrase_index phrase \<and> cc_role_id c = pr_role_id phrase
     \<and> (\<exists>cand \<in> set candidates. cand_theme_id cand = tid \<and> cand_role_id cand = pr_role_id phrase
        \<and> cc_variant_id c = cand_variant_id cand \<and> cc_entry_id c = cand_entry_id cand
        \<and> cc_display_name c = cand_display_name cand \<and> cc_autoloop_number c = cand_autoloop_number cand
        \<and> (case pr_selection phrase of
             AutomaticSelection \<Rightarrow> cand \<in> admitted p tid color candidates (pr_role_id phrase)
               \<and> (ev_reason (cc_evidence c) = ''track color only'' \<longleftrightarrow> color_bound p tid (pr_role_id phrase) cand)
           | FixedSelection vid \<Rightarrow> cand_variant_id cand = vid
           | PlanOverride vid \<Rightarrow> cand_variant_id cand = vid))"

lemma find_eq_Some_split:
  "find P xs = Some r \<longleftrightarrow> (\<exists>ys zs. xs = ys @ r # zs \<and> P r \<and> (\<forall>y \<in> set ys. \<not> P y))"
proof (induction xs)
  case (Cons x xs)
  show ?case
  proof (cases "P x")
    case True
    then show ?thesis by (auto simp: Cons_eq_append_conv)
  next
    case False
    then have "(\<exists>ys zs. x # xs = ys @ r # zs \<and> P r \<and> (\<forall>y \<in> set ys. \<not> P y))
        \<longleftrightarrow> (\<exists>ys zs. xs = ys @ r # zs \<and> P r \<and> (\<forall>y \<in> set ys. \<not> P y))"
      by (auto simp: Cons_eq_append_conv) (metis append_Cons set_ConsD)
    with False Cons show ?thesis by simp
  qed
qed simp

lemma holds_rule_iff: "holds_rule p tid role cand P \<longleftrightarrow> (\<exists>r. rule_for p tid role (cand_variant_id cand) = Some r \<and> P r)"
  unfolding holds_rule_def rule_for_def find_eq_Some_split Let_def by blast

lemma offered_loops_enabled:
  "offered_loops p tid candidates role = set (filter (rule_enabled p tid role) (theme_candidates candidates tid role))"
  by (auto simp: offered_loops_def holds_rule_iff rule_enabled_def theme_candidates_def split: option.splits)

lemma color_fits_matching: "color_fits p tid color role cand \<longleftrightarrow> matching_color_only p tid role (cand_variant_id cand) color"
  by (auto simp: color_fits_def holds_rule_iff matching_color_only_def color_match_def split: option.splits)

lemma color_bound_only: "color_bound p tid role cand \<longleftrightarrow> \<not> not_color_only p tid role cand"
  by (auto simp: color_bound_def holds_rule_iff not_color_only_def split: option.splits)

lemma fitting_is_bound: "color_fits p tid color role cand \<Longrightarrow> color_bound p tid role cand"
  by (auto simp: color_fits_def color_bound_def holds_rule_iff)

lemma set_allowed: "set (allowed p tid color candidates role) = admitted p tid color candidates role"
  unfolding admitted_def offered_loops_enabled color_fits_matching color_bound_only allowed_def color_eligible_def Let_def
  by (auto simp: filter_empty_conv)

lemma playable_choice_due: "playable p tid color candidates phrase \<longleftrightarrow> choice_due p tid color candidates phrase"
  by (cases "pr_selection phrase")
    (auto simp: playable_def choice_due_def set_allowed [symmetric] theme_candidates_def filter_empty_conv)

lemma admitted_reason:
  "cand \<in> admitted p tid color candidates role \<Longrightarrow>
     color_bound p tid role cand \<longleftrightarrow> matching_color_only p tid role (cand_variant_id cand) color"
  unfolding color_fits_matching [symmetric] by (auto simp: admitted_def intro: fitting_is_bound)

lemma fulfils_choice_right: "fulfils p tid color candidates phrase c \<Longrightarrow> choice_right p tid color candidates phrase c"
  by (cases "pr_selection phrase")
    (auto simp: fulfils_def choice_right_def compiled_choice_def set_allowed admitted_reason)

section \<open>Errors\<close>

text \<open>An explicit variant that no candidate of the theme and the role has, although there are candidates.\<close>

definition missing_variant :: "LoopCandidate list \<Rightarrow> u64 \<Rightarrow> PhraseRequest \<Rightarrow> LightPlanError option" where
  "missing_variant candidates tid phrase =
     (let cands = theme_candidates candidates tid (pr_role_id phrase) in
      case requested (pr_selection phrase) of
        None \<Rightarrow> None
      | Some vid \<Rightarrow>
          if cands \<noteq> [] \<and> vid \<notin> cand_variant_id ` set cands then Some (MissingVariant (pr_role_id phrase) vid) else None)"

lemma choose_phrase_Inl:
  "choose_phrase p tid color seed candidates h l phrase = Inl e \<longleftrightarrow> missing_variant candidates tid phrase = Some e"
  by (auto simp: choose_phrase_def missing_variant_def theme_candidates_def [symmetric] Let_def result_simps
      find_None_iff split: option.splits)

lemma compile_choices_Inl:
  "compile_choices p tid color seed candidates h l phrases = Inl e \<Longrightarrow>
     \<exists>phrase \<in> set phrases. missing_variant candidates tid phrase = Some e"
  by (induction phrases arbitrary: l) (auto simp: result_simps choose_phrase_Inl split: option.splits)

lemma compile_choices_Inr:
  "compile_choices p tid color seed candidates h l phrases = Inr choices \<Longrightarrow>
     \<forall>phrase \<in> set phrases. missing_variant candidates tid phrase = None"
proof (induction phrases arbitrary: l choices)
  case (Cons phrase phrases)
  then obtain selected where sel: "choose_phrase p tid color seed candidates h l phrase = Inr selected"
    by (auto simp: result_simps)
  then have "missing_variant candidates tid phrase = None"
    using choose_phrase_Inl [of p tid color seed candidates h l phrase] by (cases "missing_variant candidates tid phrase") auto
  moreover have "\<exists>l' choices'. compile_choices p tid color seed candidates h l' phrases = Inr choices'"
    using Cons.prems sel by (auto simp: result_simps split: option.splits) blast
  ultimately show ?case using Cons.IH by auto
qed simp

lemma compile_once_Inl:
  "compile_once p tid color phrases candidates seed h = Inl e \<Longrightarrow>
     validate_policy p = Inl e \<or> validate_policy p = Inr () \<and> (\<exists>phrase \<in> set phrases. missing_variant candidates tid phrase = Some e)"
  by (auto simp: compile_once_def result_simps Let_def dest: compile_choices_Inl)

lemma compile_once_Inr:
  "compile_once p tid color phrases candidates seed h = Inr plan \<Longrightarrow>
     validate_policy p = Inr () \<and> (\<forall>phrase \<in> set phrases. missing_variant candidates tid phrase = None)"
  by (auto simp: compile_once_def result_simps Let_def dest: compile_choices_Inr)

text \<open>Whether one compilation succeeds depends on neither the seed nor the history.\<close>

lemma compile_once_other:
  assumes "compile_once p tid color phrases candidates seed h = Inr plan"
  shows "\<exists>other. compile_once p tid color phrases candidates seed' h' = Inr other"
proof (cases "compile_once p tid color phrases candidates seed' h'")
  case (Inl e)
  then show ?thesis using compile_once_Inl [OF Inl] compile_once_Inr [OF assms] by auto
qed simp

section \<open>Retries\<close>

lemma recent_entries_without:
  "recent_entries (without_signatures h) = map (\<lambda>e. e\<lparr>he_signature := 0\<rparr>) (recent_entries h)"
  by (simp add: recent_entries_def without_signatures_def rev_map comp_def case_prod_unfold)

lemma recent_signatures_without: "recent_signatures (without_signatures h) n \<subseteq> {0}"
  by (auto simp: recent_signatures_def recent_entries_without take_map)

lemma first_alternative_total:
  assumes "\<And>r. r \<in> set rs \<Longrightarrow> f r = Some (Inr (g r))"
  shows "first_alternative f recent rs = Some (Inr (find (\<lambda>a. clp_signature a \<notin> recent) (map g rs)))"
  using assms by (induction rs) auto

definition alternatives ::
  "LightPlanningPolicy \<Rightarrow> u64 \<Rightarrow> u32 option \<Rightarrow> PhraseRequest list \<Rightarrow> LoopCandidate list \<Rightarrow> u64 \<Rightarrow> VariationHistory \<Rightarrow>
   CompiledLightPlan list" where
  "alternatives p tid color phrases candidates seed h =
     map (\<lambda>r. projr (compile_once p tid color phrases candidates (seed + r) (without_signatures h))) retry_offsets"

text \<open>What compilation should give: the plan of the seed, or the first plan of the next 32 seeds that is not recent.\<close>

definition compile_spec ::
  "LightPlanningPolicy \<Rightarrow> u64 \<Rightarrow> u32 option \<Rightarrow> PhraseRequest list \<Rightarrow> LoopCandidate list \<Rightarrow> u64 \<Rightarrow> VariationHistory \<Rightarrow>
   LightPlanError + CompiledLightPlan" where
  "compile_spec p tid color phrases candidates seed h =
     and_then (compile_once p tid color phrases candidates seed h) (\<lambda>plan.
       let recent = recent_signatures h (unat (lp_duplicate_plan_window p)) in
       if clp_signature plan \<notin> recent then Inr plan
       else (case find (\<lambda>a. clp_signature a \<notin> recent) (alternatives p tid color phrases candidates seed h) of
               Some a \<Rightarrow> Inr a
             | None \<Rightarrow> Inr plan))"

lemma compile_not_recent:
  assumes "compile_once p tid color phrases candidates seed h = Inr plan"
    and "clp_signature plan \<notin> recent_signatures h (unat (lp_duplicate_plan_window p))"
  shows "compile_light_plan p tid color phrases candidates seed h = Some (Inr plan)"
  by (subst compile_light_plan.simps) (simp add: assms Let_def)

lemma compile_eq_spec:
  assumes "\<And>r plan. r \<in> set retry_offsets \<Longrightarrow>
      compile_once p tid color phrases candidates (seed + r) (without_signatures h) = Inr plan \<Longrightarrow> clp_signature plan \<noteq> 0"
  shows "compile_light_plan p tid color phrases candidates seed h = Some (compile_spec p tid color phrases candidates seed h)"
proof (cases "compile_once p tid color phrases candidates seed h")
  case (Inl e)
  then show ?thesis by (subst compile_light_plan.simps) (simp add: compile_spec_def)
next
  case (Inr plan)
  let ?alt = "\<lambda>r. projr (compile_once p tid color phrases candidates (seed + r) (without_signatures h))"
  let ?recent = "recent_signatures h (unat (lp_duplicate_plan_window p))"
  have "compile_light_plan p tid color phrases candidates (seed + r) (without_signatures h) = Some (Inr (?alt r))"
    if r: "r \<in> set retry_offsets" for r
  proof -
    obtain a where a: "compile_once p tid color phrases candidates (seed + r) (without_signatures h) = Inr a"
      using compile_once_other [OF Inr] by blast
    then have "clp_signature a \<noteq> 0" using assms [OF r] by blast
    then show ?thesis using compile_not_recent [OF a] recent_signatures_without a by fastforce
  qed
  then have "first_alternative (\<lambda>r. compile_light_plan p tid color phrases candidates (seed + r) (without_signatures h))
      ?recent retry_offsets = Some (Inr (find (\<lambda>a. clp_signature a \<notin> ?recent) (alternatives p tid color phrases candidates seed h)))"
    unfolding alternatives_def by (rule first_alternative_total)
  then show ?thesis
    by (subst compile_light_plan.simps) (auto simp: Inr compile_spec_def Let_def split: option.split)
qed

text \<open>Every returned plan is the plan of one seed and one history.\<close>

lemma first_alternative_Some:
  "first_alternative f recent rs = Some (Inr (Some a)) \<Longrightarrow> (\<exists>r \<in> set rs. f r = Some (Inr a)) \<and> clp_signature a \<notin> recent"
proof (induction rs)
  case (Cons r rs)
  then obtain b where "f r = Some b" by (auto simp: bind_eq_Some_conv)
  then show ?case using Cons by (cases b) (auto split: if_splits)
qed simp

lemma first_alternative_None:
  "first_alternative f recent rs = Some (Inr None) \<Longrightarrow> r \<in> set rs \<Longrightarrow> \<exists>a. f r = Some (Inr a) \<and> clp_signature a \<in> recent"
proof (induction rs)
  case (Cons r' rs)
  then obtain b where "f r' = Some b" by (auto simp: bind_eq_Some_conv)
  then show ?case using Cons by (cases b) (auto split: if_splits)
qed simp

lemma first_alternative_Inl:
  "first_alternative f recent rs = Some (Inl e) \<Longrightarrow> \<exists>r \<in> set rs. f r = Some (Inl e)"
proof (induction rs)
  case (Cons r rs)
  then obtain b where b: "f r = Some b" by (auto simp: bind_eq_Some_conv)
  then show ?case using Cons by (cases b) (auto split: if_splits)
qed simp

text \<open>What a call that meets a recent plan returns, given what its retries return.\<close>

fun after_retries ::
  "CompiledLightPlan \<Rightarrow> LightPlanError + CompiledLightPlan option \<Rightarrow> LightPlanError + CompiledLightPlan" where
  "after_retries plan (Inl e) = Inl e"
| "after_retries plan (Inr None) = Inr plan"
| "after_retries plan (Inr (Some a)) = Inr a"

lemma retry_result:
  "Option.bind x (\<lambda>r. case r of Inl e \<Rightarrow> Some (Inl e) | Inr None \<Rightarrow> Some (Inr plan) | Inr (Some a) \<Rightarrow> Some (Inr a))
     = map_option (after_retries plan) x"
proof (cases x)
  case (Some r)
  then show ?thesis by (cases "(plan, r)" rule: after_retries.cases) auto
qed simp

lemma after_retries_from_call:
  assumes "map_option (after_retries plan) (first_alternative f recent rs) = Some result"
  shows "result = Inr plan \<or> (\<exists>r \<in> set rs. f r = Some result)"
proof -
  obtain x where x: "first_alternative f recent rs = Some x" "result = after_retries plan x" using assms by auto
  then show ?thesis
    by (cases "(plan, x)" rule: after_retries.cases) (auto dest: first_alternative_Some first_alternative_Inl)
qed

lemma compile_induct:
  assumes step: "\<And>compile p tid color phrases candidates seed h result.
      (\<And>p tid color phrases candidates seed h result. compile p tid color phrases candidates seed h = Some result \<Longrightarrow>
         P p tid color phrases candidates seed h result) \<Longrightarrow>
      (case compile_once p tid color phrases candidates seed h of
         Inl e \<Rightarrow> Some (Inl e)
       | Inr plan \<Rightarrow>
           if clp_signature plan \<in> recent_signatures h (unat (lp_duplicate_plan_window p)) then
             map_option (after_retries plan) (first_alternative
               (\<lambda>r. compile p tid color phrases candidates (seed + r) (without_signatures h))
               (recent_signatures h (unat (lp_duplicate_plan_window p))) retry_offsets)
           else Some (Inr plan)) = Some result \<Longrightarrow>
      P p tid color phrases candidates seed h result"
    and "compile_light_plan p tid color phrases candidates seed h = Some result"
  shows "P p tid color phrases candidates seed h result"
  by (rule compile_light_plan.raw_induct [OF _ assms(2)], rule step)
    (assumption, unfold retry_result Let_def, assumption)

definition same_uses :: "VariationHistory \<Rightarrow> VariationHistory \<Rightarrow> bool" where
  "same_uses h h' \<longleftrightarrow> recent_variants h' = recent_variants h \<and> recent_modifiers h' = recent_modifiers h"

lemma map_filter_map: "List.map_filter f (map g xs) = List.map_filter (f \<circ> g) xs"
  by (simp add: map_filter_def filter_map comp_def)

lemma same_uses_without: "same_uses h (without_signatures h)"
  by (simp add: same_uses_def recent_variants_def recent_modifiers_def recent_entries_without map_filter_map comp_def
      fun_eq_iff)

lemma compile_origin:
  assumes "compile_light_plan p tid color phrases candidates seed h = Some result"
  shows "\<exists>seed' h'. compile_once p tid color phrases candidates seed' h' = result \<and> same_uses h h'"
  using _ assms
proof (rule compile_induct)
  fix compile :: "LightPlanningPolicy \<Rightarrow> u64 \<Rightarrow> u32 option \<Rightarrow> PhraseRequest list \<Rightarrow> LoopCandidate list \<Rightarrow> u64 \<Rightarrow>
      VariationHistory \<Rightarrow> (LightPlanError + CompiledLightPlan) option"
    and p tid color phrases candidates seed h result
  let ?f = "\<lambda>r. compile p tid color phrases candidates (seed + r) (without_signatures h)"
  let ?recent = "recent_signatures h (unat (lp_duplicate_plan_window p))"
  assume IH: "\<And>p tid color phrases candidates seed h result. compile p tid color phrases candidates seed h = Some result \<Longrightarrow>
      \<exists>seed' h'. compile_once p tid color phrases candidates seed' h' = result \<and> same_uses h h'"
    and body: "(case compile_once p tid color phrases candidates seed h of
         Inl e \<Rightarrow> Some (Inl e)
       | Inr plan \<Rightarrow> if clp_signature plan \<in> ?recent then map_option (after_retries plan) (first_alternative ?f ?recent retry_offsets)
                     else Some (Inr plan)) = Some result"
  show "\<exists>seed' h'. compile_once p tid color phrases candidates seed' h' = result \<and> same_uses h h'"
  proof (cases "compile_once p tid color phrases candidates seed h")
    case (Inl e)
    then have "result = Inl e" using body by simp
    then show ?thesis using Inl by (auto simp: same_uses_def)
  next
    case (Inr plan)
    have "result = Inr plan \<or> map_option (after_retries plan) (first_alternative ?f ?recent retry_offsets) = Some result"
      using body unfolding Inr by (auto split: if_splits)
    then have "result = Inr plan \<or> (\<exists>r \<in> set retry_offsets. ?f r = Some result)"
      using after_retries_from_call [of plan ?f ?recent retry_offsets result] by blast
    then show ?thesis
    proof
      assume "\<exists>r \<in> set retry_offsets. ?f r = Some result"
      then obtain seed' h' where "compile_once p tid color phrases candidates seed' h' = result" "same_uses (without_signatures h) h'"
        using IH by blast
      then show ?thesis using same_uses_without [of h] by (auto simp: same_uses_def)
    qed (use Inr in \<open>auto simp: same_uses_def\<close>)
  qed
qed

text \<open>
  When the plan of every seed has signature zero and a recent plan has it too, every retry meets the
  same situation: the signatures of its history are replaced by zero.
\<close>

definition stuck :: "LightPlanningPolicy \<Rightarrow> u64 \<Rightarrow> PhraseRequest list \<Rightarrow> VariationHistory \<Rightarrow> bool" where
  "stuck p tid phrases h \<longleftrightarrow> validate_policy p = Inr () \<and> tid = 0 \<and> phrases = []
     \<and> 0 \<in> recent_signatures h (unat (lp_duplicate_plan_window p))"

lemma stuck_plan:
  "stuck p tid phrases h \<Longrightarrow> \<exists>plan. compile_once p tid color phrases candidates seed h' = Inr plan \<and> clp_signature plan = 0"
  by (simp add: stuck_def compile_once_def plan_signature_def stable_mix_0 Let_def)

lemma stuck_retry: "stuck p tid phrases h \<Longrightarrow> stuck p tid phrases (without_signatures h)"
  by (auto simp: stuck_def recent_signatures_def recent_entries_without take_map image_iff)

lemma stuck_no_result:
  assumes "compile_light_plan p tid color phrases candidates seed h = Some result"
  shows "\<not> stuck p tid phrases h"
  using _ assms
proof (rule compile_induct)
  fix compile :: "LightPlanningPolicy \<Rightarrow> u64 \<Rightarrow> u32 option \<Rightarrow> PhraseRequest list \<Rightarrow> LoopCandidate list \<Rightarrow> u64 \<Rightarrow>
      VariationHistory \<Rightarrow> (LightPlanError + CompiledLightPlan) option"
    and p tid color phrases candidates seed h result
  let ?f = "\<lambda>r. compile p tid color phrases candidates (seed + r) (without_signatures h)"
  let ?recent = "recent_signatures h (unat (lp_duplicate_plan_window p))"
  assume IH: "\<And>p tid color phrases candidates seed h result. compile p tid color phrases candidates seed h = Some result \<Longrightarrow>
      \<not> stuck p tid phrases h"
    and body: "(case compile_once p tid color phrases candidates seed h of
         Inl e \<Rightarrow> Some (Inl e)
       | Inr plan \<Rightarrow> if clp_signature plan \<in> ?recent then map_option (after_retries plan) (first_alternative ?f ?recent retry_offsets)
                     else Some (Inr plan)) = Some result"
  show "\<not> stuck p tid phrases h"
  proof
    assume st: "stuck p tid phrases h"
    then obtain plan where plan: "compile_once p tid color phrases candidates seed h = Inr plan" "clp_signature plan \<in> ?recent"
      using stuck_plan [OF st] by (metis stuck_def)
    obtain rest where rest: "retry_offsets = 1 # rest" by (simp add: retry_offsets_def upt_rec)
    obtain y where "?f 1 = Some y"
      using body unfolding plan(1) rest by (cases "?f 1") (simp_all add: plan(2))
    then show False using IH stuck_retry [OF st] by blast
  qed
qed

section \<open>Modifiers\<close>

text \<open>A modifier choice is backed by a ready modifier of its kind that a rule of the policy names.\<close>

definition backed :: "LightPlanningPolicy \<Rightarrow> ModifierKind \<Rightarrow> CompiledModifierChoice \<Rightarrow> bool" where
  "backed p kind c \<longleftrightarrow> mc_kind c = kind \<and>
     (\<exists>m \<in> set (lp_modifiers p). automatic_execution_ready m \<and> om_kind m = kind \<and> om_id m = mc_modifier_id c
        \<and> om_midi_channel m = mc_midi_channel c \<and> om_midi_note m = mc_midi_note c
        \<and> (\<exists>r \<in> set (lp_modifier_rules p). mr_modifier_id r = om_id m \<and> mr_scope r = mc_scope c))"

lemma map_filter_member: "y \<in> set (List.map_filter f xs) \<longleftrightarrow> (\<exists>x \<in> set xs. f x = Some y)"
  by (induction xs) (auto simp: map_filter_simps split: option.split)

lemma eligible_modifiers_member:
  assumes "(m, r) \<in> set (eligible_modifiers p h kind uses role)"
  shows "m \<in> set (lp_modifiers p) \<and> om_kind m = kind \<and> automatic_execution_ready m \<and> r \<in> set (lp_modifier_rules p)
   \<and> mr_modifier_id r = om_id m \<and> mr_role_id r = role"
proof -
  let ?find = "\<lambda>r. find (\<lambda>m. om_id m = mr_modifier_id r \<and> om_kind m = kind \<and> automatic_execution_ready m) (lp_modifiers p)"
  obtain x where x: "x \<in> set (lp_modifier_rules p)"
    "(case ?find x of None \<Rightarrow> None | Some m \<Rightarrow> if mr_role_id x = role then Some (m, x) else None) = Some (m, r)"
    using assms by (auto simp: eligible_modifiers_def map_filter_member)
  then have "?find x = Some m" "mr_role_id x = role" "x = r" by (cases "?find x"; auto split: if_splits)+
  then show ?thesis using x(1) find_SomeD [of _ "lp_modifiers p" m] by fastforce
qed

lemma color_eligible_modifiers_subset: "set (color_eligible_modifiers color xs) \<subseteq> set xs"
  by (auto simp: color_eligible_modifiers_def Let_def)

lemma choose_modifier_backed:
  assumes "choose_modifier p color seed h kind uses phrase = Some c"
  shows "backed p kind c \<and> mc_phrase_index c = pr_phrase_index phrase"
proof -
  let ?e = "filter (rate_selects p seed (pr_phrase_index phrase))
    (color_eligible_modifiers color (eligible_modifiers p h kind uses (pr_role_id phrase)))"
  let ?w = "map (weigh_modifier color) ?e"
  have "?w \<noteq> []" using assms by (auto simp: choose_modifier_def Let_def split: if_splits)
  moreover obtain roll where c: "c = modifier_choice phrase kind (cursor_pick (\<lambda>x. ucast (wm_weight x)) roll 0 (hd ?w) ?w)"
    using assms by (auto simp: choose_modifier_def Let_def split: if_splits)
  ultimately obtain x where x: "x \<in> set ?w" "c = modifier_choice phrase kind x" using cursor_pick_member by blast
  then obtain m r where mr: "(m, r) \<in> set ?e" "x = weigh_modifier color (m, r)" by auto
  then have "(m, r) \<in> set (eligible_modifiers p h kind uses (pr_role_id phrase))"
    using color_eligible_modifiers_subset by fastforce
  from eligible_modifiers_member [OF this] show ?thesis
    using x(2) mr(2) by (auto simp: backed_def modifier_choice_def weigh_modifier_def Let_def)
qed

lemma continued_backed: "backed p kind c \<Longrightarrow> backed p kind (continued phrase c)"
  by (simp add: backed_def continued_def)

lemma modifier_loop_backed:
  "(\<And>c. carried = Some c \<Longrightarrow> backed p kind c) \<Longrightarrow>
   \<forall>c \<in> set (modifier_loop p color seed h kind carried uses phrases). backed p kind c"
proof (induction phrases arbitrary: carried uses)
  case (Cons phrase phrases)
  show ?case
  proof (cases carried)
    case None
    show ?thesis
    proof (cases "choose_modifier p color seed h kind uses phrase")
      case None
      then show ?thesis using \<open>carried = None\<close> Cons.IH [of None] by simp
    next
      case (Some c)
      then have "backed p kind c" using choose_modifier_backed by blast
      then have "\<forall>x \<in> set (modifier_loop p color seed h kind (if mc_scope c = TrackScope then Some c else None)
          (uses @ [mc_modifier_id c]) phrases). backed p kind x"
        by (intro Cons.IH) (auto split: if_splits)
      then show ?thesis using Some \<open>carried = None\<close> \<open>backed p kind c\<close> by simp
    qed
  next
    case (Some c)
    then have "backed p kind c" using Cons.prems by simp
    then show ?thesis using Some Cons.IH [of carried] Cons.prems continued_backed by simp
  qed
qed simp

text \<open>The loop of one kind gives at most one choice to a phrase, in the order of the phrases.\<close>

lemma modifier_loop_subseq:
  "subseq (map mc_phrase_index (modifier_loop p color seed h kind carried uses phrases)) (map pr_phrase_index phrases)"
proof (induction phrases arbitrary: carried uses)
  case (Cons phrase phrases)
  then show ?case
    by (auto simp: continued_def split: option.split dest: choose_modifier_backed)
qed simp

lemma compile_modifiers_backed:
  "c \<in> set (compile_modifiers p color seed phrases h) \<Longrightarrow> backed p (mc_kind c) c"
  using modifier_loop_backed [of None p _ color seed h "[]" phrases]
  by (auto simp: compile_modifiers_def) (auto simp: backed_def)

lemma check_modifiers_channels:
  "check_modifiers ids ms = Inr out \<Longrightarrow> m \<in> set ms \<Longrightarrow> 1 \<le> om_midi_channel m \<and> om_midi_channel m \<le> 16"
  by (induction ms arbitrary: ids) (auto split: if_splits)

lemma validated_channels:
  "validate_policy p = Inr () \<Longrightarrow> m \<in> set (lp_modifiers p) \<Longrightarrow> 1 \<le> om_midi_channel m \<and> om_midi_channel m \<le> 16"
  by (auto simp: validate_policy_def result_simps split: if_splits dest: check_modifiers_channels)

section \<open>Repeats inside a plan\<close>

definition listed :: "('k \<rightharpoonup> 'v list) \<Rightarrow> 'k \<Rightarrow> 'v list" where
  "listed m k = (case m k of None \<Rightarrow> [] | Some vs \<Rightarrow> vs)"

lemma listed_push [simp]: "listed (push_entry m k v) q = (if q = k then listed m q @ [v] else listed m q)"
  by (simp add: listed_def push_entry_def split: option.split)

text \<open>The variants a role must avoid: the recent ones and the last ones of the plan so far.\<close>

definition used_before :: "LightPlanningPolicy \<Rightarrow> VariationHistory \<Rightarrow> string \<Rightarrow> string list \<Rightarrow> string set" where
  "used_before p h role vs =
     (let limit = unat (lp_autoloop_cooldown_uses p) in recent_variants h role limit \<union> set (take limit (rev vs)))"

lemma recently_used_listed: "recently_used p h l role = used_before p h role (listed l role)"
  by (simp add: recently_used_def used_before_def listed_def Let_def split: option.split)

definition variants_of :: "string \<Rightarrow> CompiledAutoloopChoice list \<Rightarrow> string list" where
  "variants_of role cs = map cc_variant_id (filter (\<lambda>c. cc_role_id c = role) cs)"

lemma variants_of_Cons [simp]:
  "variants_of role (c # cs) = (if cc_role_id c = role then [cc_variant_id c] else []) @ variants_of role cs"
  by (simp add: variants_of_def)

lemma compile_choices_no_repeat:
  assumes "compile_choices p tid color seed candidates h l phrases = Inr choices"
    and "k < length choices" "phrase = filter (playable p tid color candidates) phrases ! k"
    and "requested (pr_selection phrase) = None" "role = pr_role_id phrase"
  shows "cc_variant_id (choices ! k) \<notin> used_before p h role (listed l role @ variants_of role (take k choices))
     \<or> (\<forall>x \<in> set (allowed p tid color candidates role).
          cand_variant_id x \<in> used_before p h role (listed l role @ variants_of role (take k choices)))"
  using assms
proof (induction phrases arbitrary: l choices k)
  case (Cons q phrases)
  obtain selected where sel: "choose_phrase p tid color seed candidates h l q = Inr selected"
    using Cons.prems(1) by (auto simp: result_simps)
  show ?case
  proof (cases selected)
    case None
    then show ?thesis using Cons sel choose_phrase_None [of p tid color seed candidates h l q] by simp
  next
    case (Some a)
    obtain cand evidence where a: "a = (cand, evidence)" by fastforce
    let ?l = "push_entry l (pr_role_id q) (cand_variant_id cand)"
    obtain rest where rest: "compile_choices p tid color seed candidates h ?l phrases = Inr rest"
      and choices: "choices = compiled_choice q cand evidence # rest"
      using Cons.prems(1) sel Some a by (auto simp: result_simps)
    have play: "playable p tid color candidates q" using choose_phrase_Some sel Some a by blast
    show ?thesis
    proof (cases k)
      case 0
      then have "phrase = q" using Cons.prems(3) play by simp
      then have "choose_automatic p tid color seed h l q (theme_candidates candidates tid (pr_role_id q)) = Some (cand, evidence)"
        using sel Some a Cons.prems(4)
        by (auto simp: choose_phrase_def theme_candidates_def [symmetric] Let_def split: if_splits)
      from choose_automatic_Some(2) [OF this] show ?thesis
        using 0 choices \<open>phrase = q\<close> Cons.prems(5)
        by (simp add: recently_used_listed compiled_choice_def variants_of_def)
    next
      case (Suc j)
      then have "j < length rest" "phrase = filter (playable p tid color candidates) phrases ! j"
        using Cons.prems(2,3) choices play by simp_all
      from Cons.IH [OF rest this Cons.prems(4,5)] show ?thesis
        using Suc choices by (simp add: compiled_choice_def split: if_splits)
    qed
  qed
qed simp

section \<open>History\<close>

datatype HistoryOp =
    ReservePlan string CompiledLightPlan
  | ReleasePlan string
  | CommitPlan string
  | ClearHistory

fun apply_history_op :: "VariationHistory \<Rightarrow> HistoryOp \<Rightarrow> VariationHistory" where
  "apply_history_op h (ReservePlan rid plan) = reserve h rid plan"
| "apply_history_op h (ReleasePlan rid) = release h rid"
| "apply_history_op h (CommitPlan rid) = commit h rid"
| "apply_history_op h ClearHistory = clear_history h"

definition history_ok :: "VariationHistory \<Rightarrow> bool" where
  "history_ok h \<longleftrightarrow> length (vh_committed h) \<le> HISTORY_LIMIT \<and> sorted_wrt (<) (map fst (vh_reserved h))"

lemma trim_front_drop: "trim_front limit xs = drop (length xs - limit) xs"
  by (induction xs) (auto simp: Suc_diff_le)

lemma history_step: "history_ok h \<Longrightarrow> history_ok (apply_history_op h op)"
  by (cases op) (auto simp: history_ok_def reserve_def release_def commit_def clear_history_def trim_front_drop
      btree_insert_sorted btree_remove_sorted HISTORY_LIMIT_def split: option.split)

lemma commit_recent:
  "map_of (vh_reserved h) rid = Some e \<Longrightarrow>
     recent_entries (commit h rid) = rev (trim_front HISTORY_LIMIT (vh_committed h @ [e])) @ rev (map snd (btree_remove rid (vh_reserved h)))"
  by (simp add: recent_entries_def commit_def)

section \<open>A small request\<close>

text \<open>One automatic phrase with one candidate, and a policy with one verified modifier; the witnesses use them.\<close>

definition demo_phrase :: "string \<Rightarrow> PhraseRequest" where
  "demo_phrase role = \<lparr>pr_phrase_index = 0, pr_role_id = role, pr_selection = AutomaticSelection\<rparr>"

definition demo_candidate :: LoopCandidate where
  "demo_candidate = \<lparr>cand_theme_id = 1, cand_role_id = ''a'', cand_variant_id = ''v'', cand_entry_id = ''e'',
     cand_display_name = ''V'', cand_autoloop_number = 3\<rparr>"

definition demo_policy :: LightPlanningPolicy where
  "demo_policy = default_policy\<lparr>
     lp_modifiers := [\<lparr>om_id = ''m'', om_provider_kind = ''p'', om_kind = Color, om_display_name = ''M'', om_enabled = True,
       om_midi_channel = 16, om_midi_note = 60, om_activation_verified = True, om_release_verified = True\<rparr>],
     lp_modifier_rules := [\<lparr>mr_modifier_id = ''m'', mr_role_id = ''a'', mr_application_rate = 100, mr_selection_weight = 2,
       mr_cooldown_uses = 1, mr_scope = TrackScope, mr_color_behavior = Neutral, mr_color_rgb = []\<rparr>]\<rparr>"

definition sample_plan :: "u64 \<Rightarrow> CompiledLightPlan" where
  "sample_plan signature = \<lparr>clp_policy_revision = 1, clp_variation_seed = 0, clp_theme_id = 1, clp_choices = [],
     clp_modifier_choices = [], clp_signature = signature\<rparr>"

lemma demo_policy_valid: "validate_policy default_policy = Inr ()" "validate_policy demo_policy = Inr ()"
  by code_simp+

lemma demo_not_missing: "missing_variant [demo_candidate] 1 (demo_phrase role) = None"
  by (simp add: missing_variant_def demo_phrase_def Let_def)

lemma valid_request_compiles:
  assumes "validate_policy p = Inr ()" "\<And>phrase. phrase \<in> set phrases \<Longrightarrow> missing_variant candidates tid phrase = None"
  shows "\<exists>plan. compile_light_plan p tid color phrases candidates seed empty_history = Some (Inr plan)"
proof (cases "compile_once p tid color phrases candidates seed empty_history")
  case (Inl e)
  then show ?thesis using compile_once_Inl [OF Inl] assms by auto
next
  case (Inr plan)
  moreover have "recent_signatures empty_history n = {}" for n
    by (simp add: recent_signatures_def recent_entries_def empty_history_def)
  ultimately show ?thesis using compile_not_recent [OF Inr] by simp
qed

lemma demo_compiles:
  "\<exists>plan. compile_light_plan default_policy 1 None [demo_phrase ''a''] [demo_candidate] 7 empty_history = Some (Inr plan)"
  "\<exists>plan. compile_light_plan demo_policy 1 None [demo_phrase ''a''] [demo_candidate] 7 empty_history = Some (Inr plan)"
  by (rule valid_request_compiles; simp add: demo_policy_valid demo_not_missing)+

lemma demo_allowed: "allowed default_policy 1 None [demo_candidate] ''a'' = [demo_candidate]" by code_simp

lemma demo_playable: "playable default_policy 1 None [demo_candidate] (demo_phrase ''a'')" by code_simp

section \<open>Properties\<close>

text \<open>
  C35. Every plan the compiler returns has one choice, in order, for exactly the phrases that can be played:
  an explicit request whose theme and role have a candidate, and an automatic one for which the policy admits a
  candidate. A choice is a candidate of the theme and the phrase's role. An explicit request gets the variant it
  asks for. An automatic one gets a candidate that the first rule on its variant does not switch off and whose
  colours admit it: a variant bound to colours only for a track of one of them, and as soon as there is such a
  variant no other one; the evidence of the choice says so exactly in this case.
\<close>

theorem compiled_plan_follows_policy:
  assumes "compile_light_plan p tid color phrases candidates seed h = Some (Inr plan)"
  shows "list_all2 (choice_right p tid color candidates) (filter (choice_due p tid color candidates) phrases) (clp_choices plan)"
proof -
  obtain seed' h' where "compile_once p tid color phrases candidates seed' h' = Inr plan"
    using compile_origin [OF assms] by blast
  then have "compile_choices p tid color seed' candidates h' Map.empty phrases = Inr (clp_choices plan)"
    by (auto simp: compile_once_def result_simps Let_def)
  then have "list_all2 (fulfils p tid color candidates) (filter (playable p tid color candidates) phrases) (clp_choices plan)"
    by (rule compile_choices_fulfil)
  then show ?thesis unfolding playable_choice_due by (rule list_all2_mono) (rule fulfils_choice_right)
qed

text \<open>A pink track and a variant for pink tracks only, next to one without a rule.\<close>

definition pink_policy :: LightPlanningPolicy where
  "pink_policy = default_policy\<lparr>lp_rules := [\<lparr>ar_theme_id = 1, ar_role_id = ''a'', ar_variant_id = ''pink'', ar_enabled = True,
     ar_selection_weight = 2, ar_color_behavior = Only, ar_color_rgb = [0xff00ff]\<rparr>]\<rparr>"

definition pink_candidate :: LoopCandidate where
  "pink_candidate = demo_candidate\<lparr>cand_variant_id := ''pink'', cand_entry_id := ''f'', cand_autoloop_number := 4\<rparr>"

lemma pink_policy_valid: "validate_policy pink_policy = Inr ()"
  by code_simp

lemma pink_admitted: "admitted pink_policy 1 (Some 0xff00ff) [demo_candidate, pink_candidate] ''a'' = {pink_candidate}"
proof -
  have "allowed pink_policy 1 (Some 0xff00ff) [demo_candidate, pink_candidate] ''a'' = [pink_candidate]" by code_simp
  then show ?thesis by (simp add: set_allowed [symmetric])
qed

theorem compiled_plan_follows_policy_witness:
  "\<exists>plan. compile_light_plan pink_policy 1 (Some 0xff00ff) [demo_phrase ''a''] [demo_candidate, pink_candidate] 7 empty_history
       = Some (Inr plan)
     \<and> map cc_variant_id (clp_choices plan) = [''pink'']
     \<and> map (ev_reason \<circ> cc_evidence) (clp_choices plan) = [''track color only'']"
proof -
  let ?cands = "[demo_candidate, pink_candidate]"
  have "missing_variant ?cands 1 (demo_phrase ''a'') = None" by (simp add: missing_variant_def demo_phrase_def Let_def)
  then obtain plan where
    plan: "compile_light_plan pink_policy 1 (Some 0xff00ff) [demo_phrase ''a''] ?cands 7 empty_history = Some (Inr plan)"
    using valid_request_compiles [OF pink_policy_valid, of "[demo_phrase ''a'']" ?cands 1] by auto
  have role: "pr_role_id (demo_phrase ''a'') = ''a''" "pr_selection (demo_phrase ''a'') = AutomaticSelection"
    by (simp_all add: demo_phrase_def)
  then have "choice_due pink_policy 1 (Some 0xff00ff) ?cands (demo_phrase ''a'')" by (simp add: choice_due_def pink_admitted)
  with compiled_plan_follows_policy [OF plan] obtain c where c: "clp_choices plan = [c]"
    "choice_right pink_policy 1 (Some 0xff00ff) ?cands (demo_phrase ''a'') c"
    by (auto simp: list_all2_Cons1)
  have "matching_color_only pink_policy 1 ''a'' (cand_variant_id pink_candidate) (Some 0xff00ff)" by code_simp
  then have "color_bound pink_policy 1 ''a'' pink_candidate"
    using admitted_reason [of pink_candidate pink_policy 1 "Some 0xff00ff" ?cands "''a''"] pink_admitted by simp
  moreover have pink_variant: "cand_variant_id pink_candidate = ''pink''" by (simp add: pink_candidate_def)
  ultimately show ?thesis
    using c plan pink_variant by (auto simp: choice_right_def role pink_admitted)
qed

text \<open>
  Repeat protection: an automatic choice avoids the recent variants of its role, those of the history and
  the last ones of the same plan, unless every candidate it may take is recent.
\<close>

theorem automatic_choice_avoids_repeats:
  assumes "compile_light_plan p tid color phrases candidates seed h = Some (Inr plan)"
    and "k < length (clp_choices plan)" "phrase = filter (playable p tid color candidates) phrases ! k"
    and "requested (pr_selection phrase) = None"
    and used: "used = used_before p h (pr_role_id phrase) (variants_of (pr_role_id phrase) (take k (clp_choices plan)))"
  shows "cc_variant_id (clp_choices plan ! k) \<notin> used
     \<or> cand_variant_id ` set (allowed p tid color candidates (pr_role_id phrase)) \<subseteq> used"
proof -
  obtain seed' h' where "compile_once p tid color phrases candidates seed' h' = Inr plan" and same: "same_uses h h'"
    using compile_origin [OF assms(1)] by blast
  then have "compile_choices p tid color seed' candidates h' Map.empty phrases = Inr (clp_choices plan)"
    by (auto simp: compile_once_def result_simps Let_def)
  from compile_choices_no_repeat [OF this assms(2-4) refl]
  show ?thesis using same unfolding used by (auto simp: same_uses_def used_before_def listed_def)
qed

theorem automatic_choice_avoids_repeats_witness:
  "\<exists>plan. compile_light_plan default_policy 1 None [demo_phrase ''a''] [demo_candidate] 7 empty_history = Some (Inr plan)
     \<and> cc_variant_id (clp_choices plan ! 0) \<notin> used_before default_policy empty_history ''a'' []"
proof -
  obtain plan where plan: "compile_light_plan default_policy 1 None [demo_phrase ''a''] [demo_candidate] 7 empty_history = Some (Inr plan)"
    using demo_compiles by blast
  obtain seed' h' where "compile_once default_policy 1 None [demo_phrase ''a''] [demo_candidate] seed' h' = Inr plan"
    using compile_origin [OF plan] by blast
  then have "compile_choices default_policy 1 None seed' [demo_candidate] h' Map.empty [demo_phrase ''a''] = Inr (clp_choices plan)"
    by (auto simp: compile_once_def result_simps Let_def)
  from compile_choices_fulfil [OF this] have "0 < length (clp_choices plan)"
    by (auto simp: demo_playable list_all2_Cons1)
  moreover have "demo_phrase ''a'' = filter (playable default_policy 1 None [demo_candidate]) [demo_phrase ''a''] ! 0"
    by (simp add: demo_playable)
  moreover have "requested (pr_selection (demo_phrase ''a'')) = None" "pr_role_id (demo_phrase ''a'') = ''a''"
    "cand_variant_id demo_candidate = ''v''"
    by (simp_all add: demo_phrase_def demo_candidate_def)
  moreover have "used_before default_policy empty_history ''a'' [] = {}"
    by (simp add: used_before_def recent_variants_def recent_entries_def empty_history_def map_filter_simps Let_def)
  ultimately show ?thesis
    using automatic_choice_avoids_repeats [OF plan, of 0 "demo_phrase ''a''"] plan
    by (auto simp: demo_allowed variants_of_def)
qed

text \<open>
  C39. Compilation returns, and returns its specification, when none of the 32 alternative plans has the signature
  zero: the plan of the seed when its signature is not recent, otherwise the first of the plans of the next 32 seeds
  whose signature is not recent, and the first plan when there is none.
\<close>

theorem compile_returns_spec:
  assumes "\<And>r plan. r \<in> set retry_offsets \<Longrightarrow>
      compile_once p tid color phrases candidates (seed + r) (without_signatures h) = Inr plan \<Longrightarrow> clp_signature plan \<noteq> 0"
  shows "compile_light_plan p tid color phrases candidates seed h = Some (compile_spec p tid color phrases candidates seed h)"
  using assms by (rule compile_eq_spec)

theorem compile_returns_spec_witness:
  "compile_light_plan default_policy 1 None [] [] 7 (reserve empty_history ''x'' (sample_plan (stable_mix 1)))
     = Some (compile_spec default_policy 1 None [] [] 7 (reserve empty_history ''x'' (sample_plan (stable_mix 1))))"
proof (rule compile_returns_spec)
  fix r plan
  assume "compile_once default_policy 1 None [] [] (7 + r)
      (without_signatures (reserve empty_history ''x'' (sample_plan (stable_mix 1)))) = Inr plan"
  then have "clp_signature plan = stable_mix 1" by (auto simp: compile_once_def result_simps plan_signature_def Let_def)
  then show "clp_signature plan \<noteq> 0" by (simp add: stable_mix_0)
qed

text \<open>
  Compilation fails exactly for an invalid policy or for an explicit variant that the theme does not map for
  the phrase's role, and reports one of these; the seed and the history never decide it.
\<close>

theorem compile_fails_iff:
  assumes "compile_light_plan p tid color phrases candidates seed h = Some result"
  shows "case result of
     Inr plan \<Rightarrow> validate_policy p = Inr () \<and> (\<forall>phrase \<in> set phrases. missing_variant candidates tid phrase = None)
   | Inl e \<Rightarrow> validate_policy p = Inl e \<or> (\<exists>phrase \<in> set phrases. missing_variant candidates tid phrase = Some e)"
proof -
  obtain seed' h' where "compile_once p tid color phrases candidates seed' h' = result"
    using compile_origin [OF assms] by blast
  then show ?thesis
    by (cases result) (auto dest: compile_once_Inl [of p tid color phrases candidates seed' h']
        compile_once_Inr [of p tid color phrases candidates seed' h'])
qed

theorem compile_fails_iff_witness:
  "\<exists>plan. compile_light_plan default_policy 1 None [demo_phrase ''a''] [demo_candidate] 7 empty_history = Some (Inr plan)"
proof -
  obtain result where r: "compile_light_plan default_policy 1 None [demo_phrase ''a''] [demo_candidate] 7 empty_history = Some result"
    using demo_compiles by blast
  from compile_fails_iff [OF r] show ?thesis
    using r demo_policy_valid(1) demo_not_missing by (cases result) simp_all
qed

text \<open>
  Modifiers fail closed: a compiled modifier belongs to a modifier of the policy that is enabled and whose
  activation and release are both verified, with its channel between 1 and 16; the choices are sorted by phrase and kind.
\<close>

theorem modifiers_fail_closed:
  assumes "compile_light_plan p tid color phrases candidates seed h = Some (Inr plan)"
  shows "(\<forall>c \<in> set (clp_modifier_choices plan). \<exists>m \<in> set (lp_modifiers p).
       om_id m = mc_modifier_id c \<and> om_kind m = mc_kind c \<and> om_enabled m \<and> om_activation_verified m \<and> om_release_verified m
     \<and> mc_midi_channel c = om_midi_channel m \<and> 1 \<le> mc_midi_channel c \<and> mc_midi_channel c \<le> 16)
   \<and> sorted (map (\<lambda>c. (mc_phrase_index c, mc_kind c)) (clp_modifier_choices plan))"
proof -
  obtain seed' h' where once: "compile_once p tid color phrases candidates seed' h' = Inr plan"
    using compile_origin [OF assms] by blast
  then have mods: "clp_modifier_choices plan = compile_modifiers p color seed' phrases h'" and ok: "validate_policy p = Inr ()"
    by (auto simp: compile_once_def result_simps Let_def)
  have "\<exists>m \<in> set (lp_modifiers p).
       om_id m = mc_modifier_id c \<and> om_kind m = mc_kind c \<and> om_enabled m \<and> om_activation_verified m \<and> om_release_verified m
     \<and> mc_midi_channel c = om_midi_channel m \<and> 1 \<le> mc_midi_channel c \<and> mc_midi_channel c \<le> 16"
    if c: "c \<in> set (clp_modifier_choices plan)" for c
  proof -
    obtain m where m: "m \<in> set (lp_modifiers p)" "automatic_execution_ready m" "om_kind m = mc_kind c" "om_id m = mc_modifier_id c"
      "om_midi_channel m = mc_midi_channel c"
      using compile_modifiers_backed [of c p color seed' phrases h'] c unfolding mods backed_def by blast
    then show ?thesis using validated_channels [OF ok m(1)] by (auto simp: automatic_execution_ready_def)
  qed
  then show ?thesis unfolding mods by (auto simp: compile_modifiers_def)
qed

theorem modifiers_fail_closed_witness:
  "\<exists>plan. compile_light_plan demo_policy 1 None [demo_phrase ''a''] [demo_candidate] 7 empty_history = Some (Inr plan)
     \<and> mc_modifier_id ` set (clp_modifier_choices plan) \<subseteq> {''m''} \<and> mc_midi_channel ` set (clp_modifier_choices plan) \<subseteq> {16}"
proof -
  obtain plan where plan: "compile_light_plan demo_policy 1 None [demo_phrase ''a''] [demo_candidate] 7 empty_history = Some (Inr plan)"
    using demo_compiles by blast
  then show ?thesis using modifiers_fail_closed [OF plan] by (auto simp: demo_policy_def)
qed

text \<open>
  Whatever is reserved, released, committed or cleared, the history keeps at most 32 committed plans and its
  reservations sorted by key; a reserved plan that is committed becomes the most recent one.
\<close>

theorem history_is_bounded:
  assumes "history_ok h"
  shows "history_ok (foldl apply_history_op h ops)
     \<and> (\<forall>rid e. map_of (vh_reserved h) rid = Some e \<longrightarrow> hd (recent_entries (commit h rid)) = e)"
proof
  show "history_ok (foldl apply_history_op h ops)"
    using assms by (induction ops arbitrary: h) (auto dest: history_step)
  show "\<forall>rid e. map_of (vh_reserved h) rid = Some e \<longrightarrow> hd (recent_entries (commit h rid)) = e"
    using assms by (simp add: commit_recent history_ok_def trim_front_drop HISTORY_LIMIT_def rev_drop hd_append)
qed

theorem history_is_bounded_witness:
  "hd (recent_entries (commit (reserve empty_history ''x'' (sample_plan 5)) ''x'')) = history_entry (sample_plan 5)"
proof -
  have "history_ok (reserve empty_history ''x'' (sample_plan 5))"
    by (simp add: history_ok_def reserve_def empty_history_def)
  from history_is_bounded [OF this] show ?thesis by (simp add: reserve_def empty_history_def)
qed

text \<open>
  C40. The retries do not end when every plan has the signature zero and a recent plan has it: for the theme
  identifier 0 and no phrases, a valid policy and a history with such a plan, compilation never returns.
\<close>

theorem empty_plan_never_returns:
  assumes "validate_policy p = Inr ()" "0 \<in> recent_signatures h (unat (lp_duplicate_plan_window p))"
  shows "compile_light_plan p 0 color [] candidates seed h = None"
  using assms stuck_no_result [of p 0 color "[]" candidates seed h]
  by (cases "compile_light_plan p 0 color [] candidates seed h") (auto simp: stuck_def)

theorem empty_plan_never_returns_witness:
  "compile_light_plan default_policy 0 None [] [] 7 (commit (reserve empty_history ''x'' (sample_plan 0)) ''x'') = None"
proof (rule empty_plan_never_returns)
  show "0 \<in> recent_signatures (commit (reserve empty_history ''x'' (sample_plan 0)) ''x'') (unat (lp_duplicate_plan_window default_policy))"
    by (simp add: recent_signatures_def recent_entries_def commit_def reserve_def empty_history_def btree_remove_def
        HISTORY_LIMIT_def default_policy_def history_entry_def sample_plan_def)
qed (rule demo_policy_valid)

end
