(* ===== verification/Midi_Output.thy ===== *)
theory Midi_Output
  imports Lumi_Prelude
begin

text \<open>
  The MIDI source of \<open>lumi-midi-output/src/lib.rs\<close>: addresses of the SoundSwitch surface, the
  bytes of MIDI messages, and \<open>MidiOutputController\<close>, which sends pulses to a provider and
  closes the source when the provider fails. The provider is the trait \<open>MidiSourceProvider\<close>, a
  record of functions on its own state; any error it returns is its text. A \<open>Duration\<close> and an
  \<open>Instant\<close> are nanoseconds. The texts of \<open>last_event\<close> and \<open>last_error\<close> are constructors that
  carry what the format strings print. Facts: addresses are unique and in range, the song
  position survives its encoding, and the calls a provider sees follow the protocol \<open>view_step\<close>:
  messages only go to a published source and a failed message is followed by a stop.
\<close>

unbundle bit_operations_syntax

section \<open>Addresses\<close>

definition MIDI_SOURCE_NAME :: string where
  "MIDI_SOURCE_NAME = ''Lumi Virtual MIDI''"

definition MIDI_CLOCK_SOURCE_NAME :: string where
  "MIDI_CLOCK_SOURCE_NAME = ''Lumi Clock''"

definition MIDI_CHANNEL :: u8 where
  "MIDI_CHANNEL = 16"

definition BANK_NOTE_BASE :: u8 where
  "BANK_NOTE_BASE = 60"

definition AUTOLOOP_NOTE_BASE :: u8 where
  "AUTOLOOP_NOTE_BASE = 64"

definition STATIC_LOOK_CHANNEL :: u8 where
  "STATIC_LOOK_CHANNEL = 12"

definition BANK_SETTLE_DELAY :: Duration where
  "BANK_SETTLE_DELAY = 50000000"

datatype MidiAddressKind = KindBank | KindAutoloop | KindStaticLook | KindCustom

record MidiAddress =
  addr_kind :: MidiAddressKind
  addr_number :: u8
  addr_note :: u8
  addr_channel :: u8

definition BANK_ONE :: MidiAddress where
  "BANK_ONE = \<lparr>addr_kind = KindBank, addr_number = 1, addr_note = BANK_NOTE_BASE, addr_channel = MIDI_CHANNEL\<rparr>"

definition bank_address :: "u8 \<Rightarrow> MidiAddress option" where
  "bank_address number =
     (if number \<ge> 1 \<and> number \<le> 4
      then Some \<lparr>addr_kind = KindBank, addr_number = number, addr_note = BANK_NOTE_BASE + number - 1,
                 addr_channel = MIDI_CHANNEL\<rparr>
      else None)"

definition autoloop_address :: "u8 \<Rightarrow> u8 \<Rightarrow> MidiAddress option" where
  "autoloop_address bank_number number =
     (if bank_number \<ge> 1 \<and> bank_number \<le> 4 \<and> number \<ge> 1 \<and> number \<le> 32
      then Some \<lparr>addr_kind = KindAutoloop, addr_number = number, addr_note = AUTOLOOP_NOTE_BASE + number - 1,
                 addr_channel = 12 + bank_number\<rparr>
      else None)"

definition static_look_address :: "u8 \<Rightarrow> MidiAddress option" where
  "static_look_address number =
     (if number \<ge> 1 \<and> number \<le> 32
      then Some \<lparr>addr_kind = KindStaticLook, addr_number = number, addr_note = AUTOLOOP_NOTE_BASE + number - 1,
                 addr_channel = STATIC_LOOK_CHANNEL\<rparr>
      else None)"

definition custom_address :: "u8 \<Rightarrow> u8 \<Rightarrow> MidiAddress option" where
  "custom_address channel note =
     (if channel \<ge> 1 \<and> channel \<le> 16 \<and> note < 128
      then Some \<lparr>addr_kind = KindCustom, addr_number = note, addr_note = note, addr_channel = channel\<rparr>
      else None)"

section \<open>Messages\<close>

record MidiMessage =
  msg_bytes :: "u8 \<times> u8 \<times> u8"
  msg_length :: u8

definition note_on :: "u8 \<Rightarrow> u8 \<Rightarrow> u8 \<Rightarrow> MidiMessage option" where
  "note_on channel note velocity =
     (if channel < 16 \<and> note < 128 \<and> velocity < 128
      then Some \<lparr>msg_bytes = (0x90 OR channel, note, velocity), msg_length = 3\<rparr> else None)"

definition note_off :: "u8 \<Rightarrow> u8 \<Rightarrow> MidiMessage option" where
  "note_off channel note =
     (if channel < 16 \<and> note < 128
      then Some \<lparr>msg_bytes = (0x80 OR channel, note, 0), msg_length = 3\<rparr> else None)"

definition system_realtime :: "u8 \<Rightarrow> MidiMessage" where
  "system_realtime status = \<lparr>msg_bytes = (status, 0, 0), msg_length = 1\<rparr>"

definition midi_clock :: MidiMessage where
  "midi_clock = system_realtime 0xf8"

definition midi_start :: MidiMessage where
  "midi_start = system_realtime 0xfa"

definition midi_continue_playback :: MidiMessage where
  "midi_continue_playback = system_realtime 0xfb"

definition midi_stop :: MidiMessage where
  "midi_stop = system_realtime 0xfc"

definition song_position :: "u16 \<Rightarrow> MidiMessage option" where
  "song_position position_16th =
     (if position_16th < 16384
      then Some \<lparr>msg_bytes = (0xf2, ucast (position_16th AND 0x7f), ucast (drop_bit 7 position_16th AND 0x7f)),
                 msg_length = 3\<rparr>
      else None)"

section \<open>The provider\<close>

text \<open>
  The trait \<open>MidiSourceProvider\<close>; \<open>prov_sleep\<close> is what \<open>std::thread::sleep\<close> lets pass for the
  provider.
\<close>

record 'p MidiSourceProvider =
  prov_publish :: "string \<Rightarrow> 'p \<Rightarrow> 'p \<times> (string + unit)"
  prov_stop :: "'p \<Rightarrow> 'p"
  prov_send :: "MidiMessage list \<Rightarrow> 'p \<Rightarrow> 'p \<times> (string + unit)"
  prov_sleep :: "Duration \<Rightarrow> 'p \<Rightarrow> 'p"

section \<open>The controller\<close>

datatype MidiSourceState = SourceStopped | SourceReady

datatype MidiEventText =
    SourcePublished
  | SourceStoppedText
  | SourceFailedClosed
  | LearnPulse MidiAddress
  | ToggledStaticLook u8 u8 u8
  | BankSelectedWaiting u8 nat
  | TriggeredSequence u8 u8 u8 u8 u8 nat
  | PreArmedBank u8 u8
  | TriggeredButton u8 u8 u8 u8

datatype MidiErrorText =
    ProviderText string
  | LaneSaturated
  | DeadlineCapacityExceeded

datatype MidiOutputError =
    SourceNotPublished
  | PulseCounterOverflow
  | InvalidAddress
  | ProviderFailed string

record 'p MidiOutputController =
  ctl_provider :: 'p
  ctl_state :: MidiSourceState
  ctl_sent_pulse_count :: u64
  ctl_last_event :: "MidiEventText option"
  ctl_last_error :: "MidiErrorText option"
  ctl_active_bank :: "u8 option"

record MidiSourceStatus =
  src_state :: MidiSourceState
  src_source_name :: string
  src_sent_pulse_count :: u64
  src_last_event :: "MidiEventText option"
  src_last_error :: "MidiErrorText option"
  src_active_bank :: "u8 option"

definition new_controller :: "'p \<Rightarrow> 'p MidiOutputController" where
  "new_controller provider =
     \<lparr>ctl_provider = provider, ctl_state = SourceStopped, ctl_sent_pulse_count = 0, ctl_last_event = None,
      ctl_last_error = None, ctl_active_bank = None\<rparr>"

definition controller_publish ::
  "'p MidiSourceProvider \<Rightarrow> 'p MidiOutputController \<Rightarrow> 'p MidiOutputController \<times> (MidiOutputError + unit)" where
  "controller_publish io c =
     (case prov_publish io MIDI_SOURCE_NAME (ctl_provider c) of
        (p, Inl error) \<Rightarrow>
          (c\<lparr>ctl_provider := p, ctl_state := SourceStopped, ctl_active_bank := None,
             ctl_last_error := Some (ProviderText error)\<rparr>, Inl (ProviderFailed error))
      | (p, Inr _) \<Rightarrow>
          (c\<lparr>ctl_provider := p, ctl_state := SourceReady, ctl_active_bank := None, ctl_last_error := None,
             ctl_last_event := Some SourcePublished\<rparr>, Inr ()))"

definition controller_stop :: "'p MidiSourceProvider \<Rightarrow> 'p MidiOutputController \<Rightarrow> 'p MidiOutputController" where
  "controller_stop io c =
     c\<lparr>ctl_provider := prov_stop io (ctl_provider c), ctl_state := SourceStopped, ctl_active_bank := None,
       ctl_last_event := Some SourceStoppedText\<rparr>"

definition send_address_pulse ::
  "'p MidiSourceProvider \<Rightarrow> MidiAddress \<Rightarrow> 'p MidiOutputController \<Rightarrow>
   'p MidiOutputController \<times> (MidiOutputError + unit)" where
  "send_address_pulse io address c =
     (if ctl_state c \<noteq> SourceReady then (c, Inl SourceNotPublished)
      else let channel = saturating_sub (addr_channel address) 1 in
      case note_on channel (addr_note address) 100 of
        None \<Rightarrow> (c, Inl SourceNotPublished)
      | Some on \<Rightarrow>
      case note_off channel (addr_note address) of
        None \<Rightarrow> (c, Inl SourceNotPublished)
      | Some off \<Rightarrow>
      case checked_add (ctl_sent_pulse_count c) 1 of
        None \<Rightarrow> (c, Inl PulseCounterOverflow)
      | Some next_count \<Rightarrow>
      case prov_send io [on, off] (ctl_provider c) of
        (p, Inl error) \<Rightarrow>
          (c\<lparr>ctl_provider := prov_stop io p, ctl_state := SourceStopped, ctl_active_bank := None,
             ctl_last_error := Some (ProviderText error), ctl_last_event := Some SourceFailedClosed\<rparr>,
           Inl (ProviderFailed error))
      | (p, Inr _) \<Rightarrow>
          (c\<lparr>ctl_provider := p, ctl_sent_pulse_count := next_count, ctl_last_error := None\<rparr>, Inr ()))"

definition send_address_learn_pulse ::
  "'p MidiSourceProvider \<Rightarrow> MidiAddress \<Rightarrow> 'p MidiOutputController \<Rightarrow>
   'p MidiOutputController \<times> (MidiOutputError + unit)" where
  "send_address_learn_pulse io address c =
     state_then (send_address_pulse io address c)
       (\<lambda>c _. (c\<lparr>ctl_last_event := Some (LearnPulse address)\<rparr>, Inr ()))"

definition send_learn_pulse ::
  "'p MidiSourceProvider \<Rightarrow> 'p MidiOutputController \<Rightarrow> 'p MidiOutputController \<times> (MidiOutputError + unit)" where
  "send_learn_pulse io c = send_address_learn_pulse io BANK_ONE c"

definition toggle_static_look ::
  "'p MidiSourceProvider \<Rightarrow> u8 \<Rightarrow> 'p MidiOutputController \<Rightarrow>
   'p MidiOutputController \<times> (MidiOutputError + unit)" where
  "toggle_static_look io number c =
     state_then (c, ok_or (static_look_address number) InvalidAddress)
       (\<lambda>c address. state_then (send_address_pulse io address c)
         (\<lambda>c _. (c\<lparr>ctl_last_event := Some (ToggledStaticLook number (addr_channel address) (addr_note address))\<rparr>,
                 Inr ())))"

definition trigger_autoloop_with_wait ::
  "'p MidiSourceProvider \<Rightarrow> u8 \<Rightarrow> u8 \<Rightarrow> (Duration \<Rightarrow> 'p \<Rightarrow> 'p) \<Rightarrow> 'p MidiOutputController \<Rightarrow>
   'p MidiOutputController \<times> (MidiOutputError + unit)" where
  "trigger_autoloop_with_wait io bank_number autoloop_number wait c =
     state_then (c, ok_or (bank_address bank_number) InvalidAddress)
       (\<lambda>c bank. state_then (c, ok_or (autoloop_address bank_number autoloop_number) InvalidAddress)
       (\<lambda>c autoloop. state_then (send_address_pulse io bank c)
       (\<lambda>c _. let c1 = c\<lparr>ctl_active_bank := Some bank_number,
                         ctl_last_event := Some (BankSelectedWaiting bank_number (BANK_SETTLE_DELAY div 1000000))\<rparr>;
                  c2 = c1\<lparr>ctl_provider := wait BANK_SETTLE_DELAY (ctl_provider c1)\<rparr> in
              state_then (send_address_pulse io autoloop c2)
       (\<lambda>c _. (c\<lparr>ctl_last_event := Some (TriggeredSequence bank_number autoloop_number (addr_note bank)
                   (addr_channel autoloop) (addr_note autoloop) (BANK_SETTLE_DELAY div 1000000))\<rparr>, Inr ())))))"

definition trigger_autoloop ::
  "'p MidiSourceProvider \<Rightarrow> u8 \<Rightarrow> u8 \<Rightarrow> 'p MidiOutputController \<Rightarrow>
   'p MidiOutputController \<times> (MidiOutputError + unit)" where
  "trigger_autoloop io bank_number autoloop_number c =
     trigger_autoloop_with_wait io bank_number autoloop_number (prov_sleep io) c"

definition select_bank ::
  "'p MidiSourceProvider \<Rightarrow> u8 \<Rightarrow> 'p MidiOutputController \<Rightarrow>
   'p MidiOutputController \<times> (MidiOutputError + unit)" where
  "select_bank io bank_number c =
     state_then (c, ok_or (bank_address bank_number) InvalidAddress)
       (\<lambda>c bank. state_then (send_address_pulse io bank c)
       (\<lambda>c _. (c\<lparr>ctl_active_bank := Some bank_number,
                 ctl_last_event := Some (PreArmedBank bank_number (addr_note bank))\<rparr>, Inr ())))"

definition trigger_autoloop_button ::
  "'p MidiSourceProvider \<Rightarrow> u8 \<Rightarrow> u8 \<Rightarrow> 'p MidiOutputController \<Rightarrow>
   'p MidiOutputController \<times> (MidiOutputError + unit)" where
  "trigger_autoloop_button io bank_number autoloop_number c =
     state_then (c, ok_or (autoloop_address bank_number autoloop_number) InvalidAddress)
       (\<lambda>c autoloop. state_then (send_address_pulse io autoloop c)
       (\<lambda>c _. (c\<lparr>ctl_last_event := Some (TriggeredButton bank_number autoloop_number
                   (addr_channel autoloop) (addr_note autoloop))\<rparr>, Inr ())))"

definition controller_status :: "'p MidiOutputController \<Rightarrow> MidiSourceStatus" where
  "controller_status c =
     \<lparr>src_state = ctl_state c, src_source_name = MIDI_SOURCE_NAME, src_sent_pulse_count = ctl_sent_pulse_count c,
      src_last_event = ctl_last_event c, src_last_error = ctl_last_error c, src_active_bank = ctl_active_bank c\<rparr>"

section \<open>Addresses are unique and in range\<close>

definition soundswitch_addresses :: "MidiAddress set" where
  "soundswitch_addresses =
     {a. \<exists>n. bank_address n = Some a} \<union> {a. \<exists>b n. autoloop_address b n = Some a}
     \<union> {a. \<exists>n. static_look_address n = Some a}"

lemmas address_defs = bank_address_def autoloop_address_def static_look_address_def custom_address_def
  BANK_NOTE_BASE_def AUTOLOOP_NOTE_BASE_def STATIC_LOOK_CHANNEL_def MIDI_CHANNEL_def

lemma address_in_range:
  assumes "a \<in> soundswitch_addresses \<or> custom_address ch nt = Some a"
  shows "1 \<le> addr_channel a \<and> addr_channel a \<le> 16 \<and> addr_note a < 128"
  using assms
  by (auto simp: soundswitch_addresses_def address_defs word_le_nat_alt word_less_nat_alt unat_add_exact split: if_splits)

lemma bank_address_nat:
  "bank_address n = Some a \<Longrightarrow> addr_kind a = KindBank \<and> addr_number a = n \<and> unat (addr_channel a) = 16
     \<and> unat (addr_note a) = 59 + unat n \<and> unat n \<in> {1..4}"
  by (auto simp: address_defs word_le_nat_alt unat_add_exact split: if_splits)

lemma autoloop_address_nat:
  "autoloop_address b n = Some a \<Longrightarrow> addr_kind a = KindAutoloop \<and> addr_number a = n
     \<and> unat (addr_channel a) = 12 + unat b \<and> unat (addr_note a) = 63 + unat n
     \<and> unat b \<in> {1..4} \<and> unat n \<in> {1..32}"
  by (auto simp: address_defs word_le_nat_alt unat_add_exact split: if_splits)

lemma static_look_address_nat:
  "static_look_address n = Some a \<Longrightarrow> addr_kind a = KindStaticLook \<and> addr_number a = n
     \<and> unat (addr_channel a) = 12 \<and> unat (addr_note a) = 63 + unat n \<and> unat n \<in> {1..32}"
  by (auto simp: address_defs word_le_nat_alt unat_add_exact split: if_splits)

text \<open>
  SoundSwitch learns a control by its channel and note. No two of the banks, loops and
  static looks share both, and every address lies in the ranges MIDI has.
\<close>

theorem soundswitch_addresses_unique:
  "inj_on (\<lambda>a. (addr_channel a, addr_note a)) soundswitch_addresses
   \<and> (\<forall>a \<in> soundswitch_addresses. 1 \<le> addr_channel a \<and> addr_channel a \<le> 16 \<and> addr_note a < 128)"
proof
  show "inj_on (\<lambda>a. (addr_channel a, addr_note a)) soundswitch_addresses"
  proof (rule inj_onI)
    fix x y
    assume x: "x \<in> soundswitch_addresses" and y: "y \<in> soundswitch_addresses"
      and same: "(addr_channel x, addr_note x) = (addr_channel y, addr_note y)"
    have c: "unat (addr_channel x) = unat (addr_channel y)" and n: "unat (addr_note x) = unat (addr_note y)"
      using same by simp_all
    have "addr_kind x = addr_kind y \<and> unat (addr_number x) = unat (addr_number y)"
      using x y c n unfolding soundswitch_addresses_def
      by (auto dest!: bank_address_nat autoloop_address_nat static_look_address_nat)
    then have "addr_kind x = addr_kind y" "addr_number x = addr_number y" by (auto intro: unsigned_word_eqI)
    then show "x = y" using same by simp
  qed
qed (use address_in_range in blast)

theorem soundswitch_addresses_unique_witness:
  "the (autoloop_address 4 1) \<in> soundswitch_addresses \<and> the (bank_address 4) \<in> soundswitch_addresses
   \<and> addr_channel (the (autoloop_address 4 1)) = addr_channel (the (bank_address 4))
   \<and> addr_note (the (autoloop_address 4 1)) \<noteq> addr_note (the (bank_address 4))
   \<and> addr_note (the (autoloop_address 4 1)) < 128"
proof -
  have "autoloop_address 4 1 = Some (the (autoloop_address 4 1))" by (simp add: address_defs)
  then have a: "the (autoloop_address 4 1) \<in> soundswitch_addresses" unfolding soundswitch_addresses_def by blast
  have "bank_address 4 = Some (the (bank_address 4))" by (simp add: address_defs)
  then have b: "the (bank_address 4) \<in> soundswitch_addresses" unfolding soundswitch_addresses_def by blast
  show ?thesis using a b soundswitch_addresses_unique by (simp add: address_defs)
qed

section \<open>Song positions\<close>

definition decode_song_position :: "MidiMessage \<Rightarrow> u16" where
  "decode_song_position m = (case msg_bytes m of (_, lo, hi) \<Rightarrow> ucast lo OR push_bit 7 (ucast hi))"

text \<open>
  A song position within the range of MIDI 1.0 is encoded in two data bytes below 128 from
  which it can be read back, and every other position is refused.
\<close>

theorem song_position_roundtrip:
  "case song_position pos of
     None \<Rightarrow> 16384 \<le> pos
   | Some m \<Rightarrow> decode_song_position m = pos \<and> fst (msg_bytes m) = 0xf2
       \<and> fst (snd (msg_bytes m)) < 128 \<and> snd (snd (msg_bytes m)) < 128"
proof (cases "pos < 16384")
  case True
  then have "unat pos < 2 ^ 14" by (simp add: word_less_nat_alt)
  then have fits: "take_bit 14 pos = pos"
    by (simp add: word_unat_eq_iff unsigned_take_bit_eq take_bit_nat_eq_self)
  have m: "(127 :: u16) = mask 7" by (simp add: mask_eq_exp_minus_1)
  have eq: "(ucast (ucast (pos AND 127) :: u8) :: u16) OR push_bit 7 (ucast (ucast (drop_bit 7 pos AND 127) :: u8))
      = take_bit 14 pos"
    unfolding m by (rule bit_word_eqI) (auto simp: bit_simps)
  have small: "(ucast (q AND 127) :: u8) < 128" for q :: u16
  proof -
    have "unat (ucast (take_bit 7 q) :: u8) = take_bit 7 (unat q)"
      by (simp add: unsigned_ucast_eq unsigned_take_bit_eq)
    then show ?thesis
      using take_bit_nat_less_exp [of 7 "unat q"] 
      by (simp add: m take_bit_eq_mask [symmetric] word_less_nat_alt)
  qed
  show ?thesis using True eq fits small by (simp add: song_position_def decode_song_position_def)
next
  case False
  then show ?thesis by (simp add: song_position_def)
qed

section \<open>What a provider sees\<close>

text \<open>
  A provider that keeps, beside its own state, the calls it received and whether they succeeded.
  The protocol \<open>view_step\<close> says what a source may be asked: a pulse (a note on and the matching
  note off) only while it is published, and nothing but a stop after a pulse that failed.
\<close>

datatype ProviderCall =
    CalledPublish string bool
  | CalledStop
  | CalledSend "MidiMessage list" bool
  | Slept Duration

definition traced :: "'p MidiSourceProvider \<Rightarrow> ('p \<times> ProviderCall list) MidiSourceProvider" where
  "traced io =
     \<lparr>prov_publish = (\<lambda>name (p, log). case prov_publish io name p of (q, r) \<Rightarrow> ((q, log @ [CalledPublish name (is_ok r)]), r)),
      prov_stop = (\<lambda>(p, log). (prov_stop io p, log @ [CalledStop])),
      prov_send = (\<lambda>ms (p, log). case prov_send io ms p of (q, r) \<Rightarrow> ((q, log @ [CalledSend ms (is_ok r)]), r)),
      prov_sleep = (\<lambda>d (p, log). (prov_sleep io d p, log @ [Slept d]))\<rparr>"

fun is_pulse :: "MidiMessage list \<Rightarrow> bool" where
  "is_pulse [on, off] =
     (case msg_bytes on of (s, n, v) \<Rightarrow> case msg_bytes off of (s', n', v') \<Rightarrow>
        s AND 0xf0 = 0x90 \<and> s' AND 0xf0 = 0x80 \<and> s AND 0x0f = s' AND 0x0f \<and> n = n' \<and> n < 128
        \<and> v = 100 \<and> v' = 0 \<and> msg_length on = 3 \<and> msg_length off = 3)"
| "is_pulse _ = False"

datatype SourceView = Closed | Open | Failing

fun view_step :: "SourceView option \<Rightarrow> ProviderCall \<Rightarrow> SourceView option" where
  "view_step None _ = None"
| "view_step (Some _) CalledStop = Some Closed"
| "view_step (Some Failing) _ = None"
| "view_step (Some _) (CalledPublish name success) =
     (if name = MIDI_SOURCE_NAME then Some (if success then Open else Closed) else None)"
| "view_step (Some v) (Slept _) = Some v"
| "view_step (Some Open) (CalledSend ms success) =
     (if is_pulse ms then Some (if success then Open else Failing) else None)"
| "view_step (Some Closed) (CalledSend _ _) = None"

definition view :: "ProviderCall list \<Rightarrow> SourceView option" where
  "view calls = foldl view_step (Some Closed) calls"

lemma view_snoc [simp]: "view (calls @ [c]) = view_step (view calls) c"
  by (simp add: view_def)

lemma view_snoc2 [simp]: "view (calls @ [c, d]) = view_step (view_step (view calls) c) d"
  by (simp add: view_def)

definition source_protocol :: "('p \<times> ProviderCall list) MidiOutputController \<Rightarrow> bool" where
  "source_protocol c \<longleftrightarrow>
     view (snd (ctl_provider c)) = Some (if ctl_state c = SourceReady then Open else Closed)"

lemma pulse_messages:
  "note_on ch n 100 = Some on \<Longrightarrow> note_off ch n = Some off \<Longrightarrow> is_pulse [on, off]"
proof -
  assume "note_on ch n 100 = Some on" "note_off ch n = Some off"
  then have ch: "ch < 16" and n: "n < 128" and on: "on = \<lparr>msg_bytes = (0x90 OR ch, n, 100), msg_length = 3\<rparr>"
    and off: "off = \<lparr>msg_bytes = (0x80 OR ch, n, 0), msg_length = 3\<rparr>"
    by (auto simp: note_on_def note_off_def split: if_splits)
  have "unat ch < 2 ^ 4" using ch by (simp add: word_less_nat_alt)
  then have fits: "take_bit 4 ch = ch" by (simp add: word_unat_eq_iff unsigned_take_bit_eq take_bit_nat_eq_self)
  have "ch AND 0x0f = ch" using fits by (simp add: take_bit_eq_mask mask_eq_exp_minus_1)
  moreover have "ch AND 0xf0 = 0"
  proof -
    have "ch AND 0xf0 = (ch AND 0x0f) AND 0xf0" using calculation by simp
    also have "\<dots> = 0" by (simp add: and.assoc)
    finally show ?thesis .
  qed
  moreover have "(k OR ch) AND msk = (k AND msk) OR (ch AND msk)" for k msk
    by (rule bit.conj_disj_distrib2)
  ultimately show ?thesis using n by (simp add: on off)
qed

lemma pulse_messages_exist:
  assumes "1 \<le> addr_channel a" "addr_channel a \<le> 16" "addr_note a < 128"
  shows "\<exists>on off. note_on (saturating_sub (addr_channel a) 1) (addr_note a) 100 = Some on
      \<and> note_off (saturating_sub (addr_channel a) 1) (addr_note a) = Some off"
  using assms
  by (auto simp: note_on_def note_off_def word_less_nat_alt word_le_nat_alt unat_saturating_sub)

lemma traced_simps [simp]:
  "prov_publish (traced io) name (p, log) =
     (case prov_publish io name p of (q, r) \<Rightarrow> ((q, log @ [CalledPublish name (is_ok r)]), r))"
  "prov_stop (traced io) (p, log) = (prov_stop io p, log @ [CalledStop])"
  "prov_send (traced io) ms (p, log) =
     (case prov_send io ms p of (q, r) \<Rightarrow> ((q, log @ [CalledSend ms (is_ok r)]), r))"
  "prov_sleep (traced io) d (p, log) = (prov_sleep io d p, log @ [Slept d])"
  by (simp_all add: traced_def)

lemma protocol_publish: "source_protocol c \<Longrightarrow> source_protocol (fst (controller_publish (traced io) c))"
  by (cases "ctl_provider c")
     (auto simp: source_protocol_def controller_publish_def split: prod.splits sum.splits if_splits)

lemma protocol_stop: "source_protocol c \<Longrightarrow> source_protocol (controller_stop (traced io) c)"
  by (cases "ctl_provider c") (auto simp: source_protocol_def controller_stop_def)

lemma protocol_pulse: "source_protocol c \<Longrightarrow> source_protocol (fst (send_address_pulse (traced io) a c))"
  by (cases "ctl_provider c")
     (auto simp: source_protocol_def send_address_pulse_def Let_def
       split: prod.splits sum.splits if_splits option.splits dest: pulse_messages)

lemma protocol_update [simp]:
  "source_protocol (c\<lparr>ctl_last_event := e\<rparr>) = source_protocol c"
  "source_protocol (c\<lparr>ctl_active_bank := b\<rparr>) = source_protocol c"
  by (simp_all add: source_protocol_def)

lemma protocol_wait:
  "source_protocol c \<Longrightarrow>
   source_protocol (c\<lparr>ctl_active_bank := b, ctl_last_event := e,
      ctl_provider := prov_sleep (traced io) d (ctl_provider c)\<rparr>)"
  by (cases "ctl_provider c") (auto simp: source_protocol_def)

lemmas protocol_intros = state_then_keeps [where P = source_protocol] protocol_pulse protocol_publish
  protocol_stop protocol_wait

lemma protocol_learn: "source_protocol c \<Longrightarrow> source_protocol (fst (send_address_learn_pulse (traced io) a c))"
  unfolding send_address_learn_pulse_def by (rule protocol_intros) (auto intro: protocol_intros)

lemma protocol_toggle: "source_protocol c \<Longrightarrow> source_protocol (fst (toggle_static_look (traced io) n c))"
  unfolding toggle_static_look_def by (auto intro!: protocol_intros)

lemma protocol_trigger: "source_protocol c \<Longrightarrow> source_protocol (fst (trigger_autoloop (traced io) b n c))"
  unfolding trigger_autoloop_def trigger_autoloop_with_wait_def Let_def by (auto intro!: protocol_intros)

lemma protocol_bank: "source_protocol c \<Longrightarrow> source_protocol (fst (select_bank (traced io) b c))"
  unfolding select_bank_def by (auto intro!: protocol_intros)

lemma protocol_button: "source_protocol c \<Longrightarrow> source_protocol (fst (trigger_autoloop_button (traced io) b n c))"
  unfolding trigger_autoloop_button_def by (auto intro!: protocol_intros)

lemma protocol_new: "source_protocol (new_controller (p, []))"
  by (simp add: source_protocol_def new_controller_def view_def)

lemmas protocol_ops = protocol_learn protocol_toggle protocol_trigger protocol_bank protocol_button protocol_publish
  protocol_stop

section \<open>The settle delay\<close>

definition pulse :: "MidiAddress \<Rightarrow> MidiMessage list" where
  "pulse a = [the (note_on (saturating_sub (addr_channel a) 1) (addr_note a) 100),
              the (note_off (saturating_sub (addr_channel a) 1) (addr_note a))]"

lemma pulse_sent:
  assumes "send_address_pulse (traced io) a c = (c', Inr ())"
  shows "snd (ctl_provider c') = snd (ctl_provider c) @ [CalledSend (pulse a) True]
     \<and> ctl_state c = SourceReady \<and> ctl_state c' = SourceReady"
  using assms
  by (cases "ctl_provider c")
     (auto simp: send_address_pulse_def pulse_def Let_def split: if_splits option.splits prod.splits sum.splits)

text \<open>
  A loop is triggered by the pulse of its bank, a wait of 50 milliseconds and the pulse of
  the loop, in this order and nothing else, and both pulses were delivered, whenever the trigger
  reports success.
\<close>

theorem loop_waits_for_bank:
  assumes "trigger_autoloop (traced io) b n c = (c', Inr ())"
  shows "\<exists>bank loop. bank_address b = Some bank \<and> autoloop_address b n = Some loop
     \<and> snd (ctl_provider c') = snd (ctl_provider c)
         @ [CalledSend (pulse bank) True, Slept BANK_SETTLE_DELAY, CalledSend (pulse loop) True]
     \<and> ctl_state c' = SourceReady \<and> ctl_active_bank c' = Some b"
proof -
  from assms obtain bank loop where a: "bank_address b = Some bank" "autoloop_address b n = Some loop"
    by (auto simp: trigger_autoloop_def trigger_autoloop_with_wait_def result_simps dest!: state_then_Inr)
  with assms obtain c1 c2 where
    one: "send_address_pulse (traced io) bank c = (c1, Inr ())" and
    two: "send_address_pulse (traced io) loop
        (c1\<lparr>ctl_active_bank := Some b, ctl_last_event := Some (BankSelectedWaiting b (BANK_SETTLE_DELAY div 1000000)),
            ctl_provider := prov_sleep (traced io) BANK_SETTLE_DELAY (ctl_provider c1)\<rparr>) = (c2, Inr ())"
    and c': "c' = c2\<lparr>ctl_last_event := Some (TriggeredSequence b n (addr_note bank) (addr_channel loop)
        (addr_note loop) (BANK_SETTLE_DELAY div 1000000))\<rparr>"
    by (auto simp: trigger_autoloop_def trigger_autoloop_with_wait_def result_simps Let_def dest!: state_then_Inr)
  have "ctl_active_bank c2 = Some b"
    using two by (auto simp: send_address_pulse_def Let_def split: if_splits option.splits prod.splits sum.splits)
  then show ?thesis
    using a pulse_sent [OF one] pulse_sent [OF two] c' by (cases "ctl_provider c1") simp
qed

definition accepting_io :: "unit MidiSourceProvider" where
  "accepting_io = \<lparr>prov_publish = (\<lambda>_ p. (p, Inr ())), prov_stop = (\<lambda>p. p), prov_send = (\<lambda>_ p. (p, Inr ())),
     prov_sleep = (\<lambda>_ p. p)\<rparr>"

theorem loop_waits_for_bank_witness:
  "snd (ctl_provider (fst (trigger_autoloop (traced accepting_io) 2 5
      (fst (controller_publish (traced accepting_io) (new_controller ((), []))))))) =
    [CalledPublish MIDI_SOURCE_NAME True, CalledSend (pulse (the (bank_address 2))) True, Slept 50000000,
     CalledSend (pulse (the (autoloop_address 2 5))) True]"
proof -
  let ?c = "fst (controller_publish (traced accepting_io) (new_controller ((), [])))"
  have start: "snd (ctl_provider ?c) = [CalledPublish MIDI_SOURCE_NAME True]" "ctl_state ?c = SourceReady"
      "ctl_sent_pulse_count ?c = 0"
    by (simp_all add: controller_publish_def new_controller_def accepting_io_def)
  have "snd (trigger_autoloop (traced accepting_io) 2 5 ?c) = Inr ()"
    by (simp add: trigger_autoloop_def trigger_autoloop_with_wait_def state_then_def send_address_pulse_def
        address_defs controller_publish_def new_controller_def accepting_io_def note_on_def note_off_def
        saturating_sub_def checked_add_def Let_def)
  then obtain c' where run: "trigger_autoloop (traced accepting_io) 2 5 ?c = (c', Inr ())"
    by (cases "trigger_autoloop (traced accepting_io) 2 5 ?c") simp
  from loop_waits_for_bank [OF run] start run show ?thesis by (auto simp: BANK_SETTLE_DELAY_def)
qed

end
