(* ===== verification/Midi_Lane.thy ===== *)
theory Midi_Lane
  imports Midi_Output "HOL-Library.Multiset"
begin

text \<open>
  The realtime lane of \<open>lumi-midi-output/src/lib.rs\<close>: \<open>RealtimeMidiController\<close>, its bounded command
  channel, and \<open>run_realtime_midi_worker\<close>, which owns a \<open>MidiOutputController\<close> and dispatches
  scheduled bank and loop pulses at their deadlines. The lane is one state, the worker and the
  channel; \<open>lane_step\<close> is what can happen next: a client sends, the worker receives, a deadline
  passes, or the clients are gone. The times the worker reads are part of the event. Facts: a
  scheduled pulse is dispatched at most once, never before its deadline, never after it was
  cancelled or its generation ended; the source sees a protocol that fails closed; every queue,
  history and sample is bounded.
\<close>

section \<open>Data\<close>

definition REALTIME_LATE_DISPATCH_THRESHOLD :: Duration where
  "REALTIME_LATE_DISPATCH_THRESHOLD = 20000000"

definition REALTIME_COMMAND_CAPACITY :: nat where
  "REALTIME_COMMAND_CAPACITY = 64"

definition REALTIME_SCHEDULE_CAPACITY :: nat where
  "REALTIME_SCHEDULE_CAPACITY = 128"

definition REALTIME_LATENCY_SAMPLE_CAPACITY :: nat where
  "REALTIME_LATENCY_SAMPLE_CAPACITY = 2048"

definition REALTIME_DISPATCH_HISTORY_CAPACITY :: nat where
  "REALTIME_DISPATCH_HISTORY_CAPACITY = 128"

datatype RealtimeMidiActionKind = ActionBank | ActionAutoloop

record RealtimeDispatchRecord =
  disp_generation :: u64
  disp_action :: RealtimeMidiActionKind
  disp_number :: u8
  disp_deadline :: Instant
  disp_started_at :: Instant
  disp_completed_at :: Instant
  disp_succeeded :: bool

record RealtimeMidiStatus =
  rt_source :: MidiSourceStatus
  rt_queue_capacity :: nat
  rt_queue_depth :: nat
  rt_queue_high_water :: nat
  rt_scheduled_count :: u64
  rt_emitted_count :: u64
  rt_cancelled_count :: u64
  rt_saturation_count :: u64
  rt_latency_sample_count :: nat
  rt_latency_p50_micros :: u64
  rt_latency_p95_micros :: u64
  rt_latency_p99_micros :: u64
  rt_latency_max_micros :: u64
  rt_last_scheduled_action :: "RealtimeMidiActionKind option"
  rt_last_scheduled_number :: "u8 option"
  rt_last_scheduled_lead_micros :: "u64 option"
  rt_last_emitted_action :: "RealtimeMidiActionKind option"
  rt_last_emitted_number :: "u8 option"
  rt_last_dispatch_lateness_micros :: "u64 option"
  rt_late_dispatch_count :: u64
  rt_recent_dispatches :: "RealtimeDispatchRecord list"

definition default_source_status :: MidiSourceStatus where
  "default_source_status =
     \<lparr>src_state = SourceStopped, src_source_name = MIDI_SOURCE_NAME, src_sent_pulse_count = 0,
      src_last_event = None, src_last_error = None, src_active_bank = None\<rparr>"

definition default_realtime_status :: RealtimeMidiStatus where
  "default_realtime_status =
     \<lparr>rt_source = default_source_status, rt_queue_capacity = REALTIME_COMMAND_CAPACITY, rt_queue_depth = 0,
      rt_queue_high_water = 0, rt_scheduled_count = 0, rt_emitted_count = 0, rt_cancelled_count = 0,
      rt_saturation_count = 0, rt_latency_sample_count = 0, rt_latency_p50_micros = 0,
      rt_latency_p95_micros = 0, rt_latency_p99_micros = 0, rt_latency_max_micros = 0,
      rt_last_scheduled_action = None, rt_last_scheduled_number = None,
      rt_last_scheduled_lead_micros = None, rt_last_emitted_action = None, rt_last_emitted_number = None,
      rt_last_dispatch_lateness_micros = None, rt_late_dispatch_count = 0, rt_recent_dispatches = []\<rparr>"

datatype RealtimeMidiError =
    WorkerUnavailable
  | QueueSaturated
  | LaneProvider MidiOutputError

datatype RealtimeMidiAction =
    ActSelectBank u8
  | ActTriggerAutoloop u8 u8

record ScheduledRealtimeMidiAction =
  item_generation :: u64
  item_deadline :: Instant
  item_action :: RealtimeMidiAction

text \<open>The commands; those with a reply channel are answered with a \<open>LaneReply\<close>.\<close>

datatype RealtimeMidiCommand =
    CmdPublish
  | CmdStop
  | CmdSendLearnPulse MidiAddress
  | CmdSelectBank u8
  | CmdTriggerAutoloop u8 u8
  | CmdTriggerSequence u8 u8
  | CmdToggleStaticLook u8
  | CmdSetGeneration u64
  | CmdSchedule ScheduledRealtimeMidiAction
  | CmdRetimePending u64 Instant Instant
  | CmdCancelAll
  | CmdShutdown

datatype LaneReply =
    NoReply
  | Answered "MidiOutputError + unit"

section \<open>Diagnostics\<close>

definition percentile :: "u64 list \<Rightarrow> nat \<Rightarrow> u64" where
  "percentile samples p = (if samples = [] then 0 else samples ! ((length samples - 1) * p div 100))"

definition update_latency_distribution :: "u64 list \<Rightarrow> RealtimeMidiStatus \<Rightarrow> RealtimeMidiStatus" where
  "update_latency_distribution latencies status =
     (let samples = sort latencies in
      status\<lparr>rt_latency_sample_count := length samples,
             rt_latency_p50_micros := percentile samples 50,
             rt_latency_p95_micros := percentile samples 95,
             rt_latency_p99_micros := percentile samples 99,
             rt_latency_max_micros := (if samples = [] then 0 else last samples)\<rparr>)"

fun realtime_action_identity :: "RealtimeMidiAction \<Rightarrow> RealtimeMidiActionKind \<times> u8" where
  "realtime_action_identity (ActSelectBank number) = (ActionBank, number)"
| "realtime_action_identity (ActTriggerAutoloop _ autoloop) = (ActionAutoloop, autoloop)"

text \<open>\<open>u64::try_from(d.as_micros()).unwrap_or(u64::MAX)\<close>.\<close>

definition saturated_micros :: "Duration \<Rightarrow> u64" where
  "saturated_micros d = (if d div 1000 < 2 ^ 64 then of_nat (d div 1000) else - 1)"

section \<open>The worker\<close>

record 'p LaneWorker =
  wk_controller :: "'p MidiOutputController"
  wk_generation :: u64
  wk_scheduled :: "ScheduledRealtimeMidiAction list"
  wk_latencies :: "u64 list"
  wk_status :: RealtimeMidiStatus
  wk_running :: bool

definition new_worker :: "'p \<Rightarrow> 'p LaneWorker" where
  "new_worker provider =
     \<lparr>wk_controller = new_controller provider, wk_generation = 0, wk_scheduled = [], wk_latencies = [],
      wk_status = default_realtime_status, wk_running = True\<rparr>"

definition update_realtime_status :: "(RealtimeMidiStatus \<Rightarrow> RealtimeMidiStatus) \<Rightarrow> 'p LaneWorker \<Rightarrow> 'p LaneWorker" where
  "update_realtime_status f w = w\<lparr>wk_status := f (wk_status w)\<rparr>"

definition publish_controller_status :: "'p LaneWorker \<Rightarrow> 'p LaneWorker" where
  "publish_controller_status w =
     update_realtime_status (\<lambda>s. s\<lparr>rt_source := controller_status (wk_controller w)\<rparr>) w"

text \<open>The arms that call the controller, publish its status and answer.\<close>

definition controller_arm ::
  "('p MidiOutputController \<Rightarrow> 'p MidiOutputController \<times> (MidiOutputError + unit)) \<Rightarrow> 'p LaneWorker \<Rightarrow>
   'p LaneWorker \<times> LaneReply" where
  "controller_arm f w =
     (case f (wk_controller w) of
        (c, r) \<Rightarrow> (publish_controller_status (w\<lparr>wk_controller := c\<rparr>), Answered r))"

definition count_cancelled :: "nat \<Rightarrow> 'p LaneWorker \<Rightarrow> 'p LaneWorker" where
  "count_cancelled n w =
     update_realtime_status
       (\<lambda>s. s\<lparr>rt_cancelled_count := saturating_add (rt_cancelled_count s) (of_nat n)\<rparr>) w"

definition stop_arm :: "'p MidiSourceProvider \<Rightarrow> 'p LaneWorker \<Rightarrow> 'p LaneWorker \<times> LaneReply" where
  "stop_arm io w =
     (let cancelled = length (wk_scheduled w);
          w1 = w\<lparr>wk_scheduled := [], wk_controller := controller_stop io (wk_controller w)\<rparr> in
      (publish_controller_status (count_cancelled cancelled w1), Answered (Inr ())))"

definition set_generation_arm :: "u64 \<Rightarrow> 'p LaneWorker \<Rightarrow> 'p LaneWorker" where
  "set_generation_arm next w =
     (let kept = filter (\<lambda>item. item_generation item = next) (wk_scheduled w);
          cancelled = length (wk_scheduled w) - length kept in
      count_cancelled cancelled (w\<lparr>wk_generation := next, wk_scheduled := kept\<rparr>))"

definition schedule_arm :: "Instant \<Rightarrow> ScheduledRealtimeMidiAction \<Rightarrow> 'p LaneWorker \<Rightarrow> 'p LaneWorker" where
  "schedule_arm now item w =
     (if item_generation item \<noteq> wk_generation w then count_cancelled 1 w
      else if length (wk_scheduled w) \<ge> REALTIME_SCHEDULE_CAPACITY then
        update_realtime_status
          (\<lambda>s. s\<lparr>rt_saturation_count := saturating_add (rt_saturation_count s) 1,
                 rt_source := (rt_source s)\<lparr>src_last_error := Some DeadlineCapacityExceeded\<rparr>\<rparr>) w
      else
        update_realtime_status
          (\<lambda>s. s\<lparr>rt_scheduled_count := saturating_add (rt_scheduled_count s) 1,
                 rt_last_scheduled_action := Some (fst (realtime_action_identity (item_action item))),
                 rt_last_scheduled_number := Some (snd (realtime_action_identity (item_action item))),
                 rt_last_scheduled_lead_micros := Some (saturated_micros (item_deadline item - now))\<rparr>)
          (w\<lparr>wk_scheduled := wk_scheduled w @ [item]\<rparr>))"

fun is_autoloop_action :: "RealtimeMidiAction \<Rightarrow> bool" where
  "is_autoloop_action (ActTriggerAutoloop _ _) = True"
| "is_autoloop_action (ActSelectBank _) = False"

definition retimed :: "u64 \<Rightarrow> Instant \<Rightarrow> Instant \<Rightarrow> ScheduledRealtimeMidiAction \<Rightarrow> ScheduledRealtimeMidiAction" where
  "retimed requested deadline bank_deadline item =
     (if item_generation item = requested
      then item\<lparr>item_deadline := (case item_action item of
                   ActSelectBank _ \<Rightarrow> bank_deadline
                 | ActTriggerAutoloop _ _ \<Rightarrow> deadline)\<rparr>
      else item)"

definition retime_arm :: "u64 \<Rightarrow> Instant \<Rightarrow> Instant \<Rightarrow> 'p LaneWorker \<Rightarrow> 'p LaneWorker" where
  "retime_arm requested deadline bank_deadline w =
     (if requested = wk_generation w
         \<and> list_ex (\<lambda>item. item_generation item = requested \<and> is_autoloop_action (item_action item)) (wk_scheduled w)
      then w\<lparr>wk_scheduled := map (retimed requested deadline bank_deadline) (wk_scheduled w)\<rparr>
      else w)"

definition cancel_all_arm :: "'p LaneWorker \<Rightarrow> 'p LaneWorker" where
  "cancel_all_arm w = count_cancelled (length (wk_scheduled w)) (w\<lparr>wk_scheduled := []\<rparr>)"

definition shutdown_arm :: "'p MidiSourceProvider \<Rightarrow> 'p LaneWorker \<Rightarrow> 'p LaneWorker" where
  "shutdown_arm io w =
     (publish_controller_status (w\<lparr>wk_controller := controller_stop io (wk_controller w)\<rparr>))\<lparr>wk_running := False\<rparr>"

fun command_arm ::
  "'p MidiSourceProvider \<Rightarrow> Instant \<Rightarrow> RealtimeMidiCommand \<Rightarrow> 'p LaneWorker \<Rightarrow> 'p LaneWorker \<times> LaneReply" where
  "command_arm io now CmdPublish w = controller_arm (controller_publish io) w"
| "command_arm io now CmdStop w = stop_arm io w"
| "command_arm io now (CmdSendLearnPulse address) w = controller_arm (send_address_learn_pulse io address) w"
| "command_arm io now (CmdSelectBank bank) w = controller_arm (select_bank io bank) w"
| "command_arm io now (CmdTriggerAutoloop bank autoloop) w = controller_arm (trigger_autoloop_button io bank autoloop) w"
| "command_arm io now (CmdTriggerSequence bank autoloop) w = controller_arm (trigger_autoloop io bank autoloop) w"
| "command_arm io now (CmdToggleStaticLook number) w = controller_arm (toggle_static_look io number) w"
| "command_arm io now (CmdSetGeneration next) w = (set_generation_arm next w, NoReply)"
| "command_arm io now (CmdSchedule item) w = (schedule_arm now item w, NoReply)"
| "command_arm io now (CmdRetimePending requested deadline bank_deadline) w =
     (retime_arm requested deadline bank_deadline w, NoReply)"
| "command_arm io now CmdCancelAll w = (cancel_all_arm w, NoReply)"
| "command_arm io now CmdShutdown w = (shutdown_arm io w, NoReply)"

definition handle_command ::
  "'p MidiSourceProvider \<Rightarrow> Instant \<Rightarrow> RealtimeMidiCommand \<Rightarrow> 'p LaneWorker \<Rightarrow> 'p LaneWorker \<times> LaneReply" where
  "handle_command io now command w =
     command_arm io now command
       (update_realtime_status (\<lambda>s. s\<lparr>rt_queue_depth := rt_queue_depth s - 1\<rparr>) w)"

text \<open>How long the worker waits: \<open>None\<close> is \<open>recv\<close>, \<open>Some d\<close> is \<open>recv_timeout d\<close>.\<close>

definition lane_timeout :: "Instant \<Rightarrow> 'p LaneWorker \<Rightarrow> Duration option" where
  "lane_timeout now w =
     (case map item_deadline (filter (\<lambda>item. item_generation item = wk_generation w) (wk_scheduled w)) of
        [] \<Rightarrow> None
      | d # ds \<Rightarrow> Some (fold min ds d - now))"

definition run_action ::
  "'p MidiSourceProvider \<Rightarrow> RealtimeMidiAction \<Rightarrow> 'p MidiOutputController \<Rightarrow>
   'p MidiOutputController \<times> (MidiOutputError + unit)" where
  "run_action io action c =
     (case action of
        ActSelectBank bank \<Rightarrow> select_bank io bank c
      | ActTriggerAutoloop bank autoloop \<Rightarrow> trigger_autoloop_button io bank autoloop c)"

text \<open>The closure that records one dispatch in the shared status.\<close>

definition record_dispatch ::
  "ScheduledRealtimeMidiAction \<Rightarrow> Instant \<times> Instant \<Rightarrow> bool \<Rightarrow> u64 list \<Rightarrow> RealtimeMidiStatus \<Rightarrow>
   RealtimeMidiStatus" where
  "record_dispatch item instants success latencies status =
     (let (kind, number) = realtime_action_identity (item_action item);
          elapsed = snd instants - item_deadline item;
          s1 = status\<lparr>rt_recent_dispatches :=
                 push_bounded REALTIME_DISPATCH_HISTORY_CAPACITY (rt_recent_dispatches status)
                   \<lparr>disp_generation = item_generation item, disp_action = kind, disp_number = number,
                    disp_deadline = item_deadline item, disp_started_at = fst instants,
                    disp_completed_at = snd instants, disp_succeeded = success\<rparr>\<rparr>;
          s2 = (if success
                then s1\<lparr>rt_emitted_count := saturating_add (rt_emitted_count s1) 1,
                        rt_last_emitted_action := Some kind, rt_last_emitted_number := Some number\<rparr>
                else s1);
          s3 = s2\<lparr>rt_last_dispatch_lateness_micros := Some (saturated_micros elapsed)\<rparr>;
          s4 = (if elapsed > REALTIME_LATE_DISPATCH_THRESHOLD
                then s3\<lparr>rt_late_dispatch_count := saturating_add (rt_late_dispatch_count s3) 1\<rparr>
                else s3) in
      update_latency_distribution latencies s4)"

definition dispatch_item ::
  "'p MidiSourceProvider \<Rightarrow> Instant \<times> Instant \<Rightarrow> ScheduledRealtimeMidiAction \<Rightarrow> 'p LaneWorker \<Rightarrow> 'p LaneWorker" where
  "dispatch_item io instants item w =
     (let (c, r) = run_action io (item_action item) (wk_controller w);
          latencies = push_bounded REALTIME_LATENCY_SAMPLE_CAPACITY (wk_latencies w)
                        (saturated_micros (snd instants - item_deadline item));
          w1 = w\<lparr>wk_controller := c, wk_latencies := latencies\<rparr> in
      publish_controller_status
        (update_realtime_status (record_dispatch item instants (is_ok r) latencies) w1))"

text \<open>The loop over the due items; \<open>clock i\<close> are the times read before and after the \<open>i\<close>th call.\<close>

fun dispatch_due ::
  "'p MidiSourceProvider \<Rightarrow> (nat \<Rightarrow> Instant \<times> Instant) \<Rightarrow> nat \<Rightarrow> ScheduledRealtimeMidiAction list \<Rightarrow>
   'p LaneWorker \<Rightarrow> 'p LaneWorker" where
  "dispatch_due io clock i [] w = w"
| "dispatch_due io clock i (item # due) w = dispatch_due io clock (Suc i) due (dispatch_item io (clock i) item w)"

definition is_due :: "Instant \<Rightarrow> 'p LaneWorker \<Rightarrow> ScheduledRealtimeMidiAction \<Rightarrow> bool" where
  "is_due now w item \<longleftrightarrow> item_generation item = wk_generation w \<and> item_deadline item \<le> now"

definition handle_timeout ::
  "'p MidiSourceProvider \<Rightarrow> Instant \<Rightarrow> (nat \<Rightarrow> Instant \<times> Instant) \<Rightarrow> 'p LaneWorker \<Rightarrow>
   'p LaneWorker \<times> ScheduledRealtimeMidiAction list" where
  "handle_timeout io now clock w =
     (let due = sort_key item_deadline (filter (is_due now w) (wk_scheduled w));
          w1 = w\<lparr>wk_scheduled := filter (\<lambda>item. \<not> is_due now w item) (wk_scheduled w)\<rparr> in
      (dispatch_due io clock 0 due w1, due))"

section \<open>The lane\<close>

record 'p RealtimeMidiController =
  lane_worker :: "'p LaneWorker"
  lane_commands :: "RealtimeMidiCommand list"

definition new_lane :: "'p \<Rightarrow> 'p RealtimeMidiController" where
  "new_lane provider = \<lparr>lane_worker = new_worker provider, lane_commands = []\<rparr>"

definition try_send ::
  "RealtimeMidiCommand \<Rightarrow> 'p RealtimeMidiController \<Rightarrow> 'p RealtimeMidiController \<times> (RealtimeMidiError + unit)" where
  "try_send command lane =
     (let reserve = update_realtime_status (\<lambda>s. let depth = rt_queue_depth s + 1 in
                      s\<lparr>rt_queue_depth := depth, rt_queue_high_water := max (rt_queue_high_water s) depth\<rparr>)
                      (lane_worker lane) in
      if \<not> wk_running (lane_worker lane) then
        (lane\<lparr>lane_worker := update_realtime_status (\<lambda>s. s\<lparr>rt_queue_depth := rt_queue_depth s - 1\<rparr>) reserve\<rparr>,
         Inl WorkerUnavailable)
      else if length (lane_commands lane) \<ge> REALTIME_COMMAND_CAPACITY then
        (lane\<lparr>lane_worker := update_realtime_status
            (\<lambda>s. s\<lparr>rt_queue_depth := rt_queue_depth s - 1,
                   rt_saturation_count := saturating_add (rt_saturation_count s) 1,
                   rt_source := (rt_source s)\<lparr>src_last_error := Some LaneSaturated\<rparr>\<rparr>) reserve\<rparr>,
         Inl QueueSaturated)
      else (lane\<lparr>lane_worker := reserve, lane_commands := lane_commands lane @ [command]\<rparr>, Inr ()))"

definition schedule_bank ::
  "u64 \<Rightarrow> u8 \<Rightarrow> Instant \<Rightarrow> 'p RealtimeMidiController \<Rightarrow> 'p RealtimeMidiController \<times> (RealtimeMidiError + unit)" where
  "schedule_bank generation bank_number deadline =
     try_send (CmdSchedule \<lparr>item_generation = generation, item_deadline = deadline,
                            item_action = ActSelectBank bank_number\<rparr>)"

definition schedule_autoloop ::
  "u64 \<Rightarrow> u8 \<Rightarrow> u8 \<Rightarrow> Instant \<Rightarrow> 'p RealtimeMidiController \<Rightarrow>
   'p RealtimeMidiController \<times> (RealtimeMidiError + unit)" where
  "schedule_autoloop generation bank_number autoloop_number deadline =
     try_send (CmdSchedule \<lparr>item_generation = generation, item_deadline = deadline,
                            item_action = ActTriggerAutoloop bank_number autoloop_number\<rparr>)"

definition lane_set_generation ::
  "u64 \<Rightarrow> 'p RealtimeMidiController \<Rightarrow> 'p RealtimeMidiController \<times> (RealtimeMidiError + unit)" where
  "lane_set_generation generation = try_send (CmdSetGeneration generation)"

definition lane_cancel_all ::
  "'p RealtimeMidiController \<Rightarrow> 'p RealtimeMidiController \<times> (RealtimeMidiError + unit)" where
  "lane_cancel_all = try_send CmdCancelAll"

definition retime_pending ::
  "u64 \<Rightarrow> Instant \<Rightarrow> Instant \<Rightarrow> 'p RealtimeMidiController \<Rightarrow>
   'p RealtimeMidiController \<times> (RealtimeMidiError + unit)" where
  "retime_pending generation deadline bank_deadline =
     try_send (CmdRetimePending generation deadline bank_deadline)"

text \<open>
  What can happen next. A blocking send (\<open>publish\<close>, \<open>stop\<close>, \<open>synchronous\<close>, and the shutdown of
  \<open>drop\<close>) waits for room, so it only happens when there is some; \<open>Inl\<close> means that the event
  cannot happen. The output is what the worker dispatched.
\<close>

datatype LaneEvent =
    TrySend RealtimeMidiCommand
  | BlockingSend RealtimeMidiCommand
  | Receive Instant
  | Elapse Instant "nat \<Rightarrow> Instant \<times> Instant"
  | Disconnect

text \<open>The methods of the controller that wait for an answer.\<close>

definition synchronous :: "RealtimeMidiCommand \<Rightarrow> LaneEvent" where
  "synchronous command = BlockingSend command"

definition lane_publish :: LaneEvent where
  "lane_publish = synchronous CmdPublish"

definition lane_stop :: LaneEvent where
  "lane_stop = synchronous CmdStop"

definition lane_send_address_learn_pulse :: "MidiAddress \<Rightarrow> LaneEvent" where
  "lane_send_address_learn_pulse address = synchronous (CmdSendLearnPulse address)"

definition lane_send_learn_pulse :: LaneEvent where
  "lane_send_learn_pulse = lane_send_address_learn_pulse BANK_ONE"

definition lane_select_bank :: "u8 \<Rightarrow> LaneEvent" where
  "lane_select_bank bank_number = synchronous (CmdSelectBank bank_number)"

definition lane_trigger_autoloop_button :: "u8 \<Rightarrow> u8 \<Rightarrow> LaneEvent" where
  "lane_trigger_autoloop_button bank_number autoloop_number = synchronous (CmdTriggerAutoloop bank_number autoloop_number)"

definition lane_trigger_autoloop :: "u8 \<Rightarrow> u8 \<Rightarrow> LaneEvent" where
  "lane_trigger_autoloop bank_number autoloop_number = synchronous (CmdTriggerSequence bank_number autoloop_number)"

definition lane_toggle_static_look :: "u8 \<Rightarrow> LaneEvent" where
  "lane_toggle_static_look number = synchronous (CmdToggleStaticLook number)"

definition lane_drop :: LaneEvent where
  "lane_drop = BlockingSend CmdShutdown"

fun lane_step ::
  "'p MidiSourceProvider \<Rightarrow> 'p RealtimeMidiController \<Rightarrow> LaneEvent \<Rightarrow>
   unit + ('p RealtimeMidiController \<times> ScheduledRealtimeMidiAction list)" where
  "lane_step io lane (TrySend command) = Inr (fst (try_send command lane), [])"
| "lane_step io lane (BlockingSend command) =
     (if wk_running (lane_worker lane) \<and> length (lane_commands lane) < REALTIME_COMMAND_CAPACITY
      then Inr (lane\<lparr>lane_commands := lane_commands lane @ [command]\<rparr>, []) else Inl ())"
| "lane_step io lane (Receive now) =
     (case lane_commands lane of
        [] \<Rightarrow> Inl ()
      | command # rest \<Rightarrow>
          if wk_running (lane_worker lane)
          then Inr (lane\<lparr>lane_commands := rest, lane_worker := fst (handle_command io now command (lane_worker lane))\<rparr>, [])
          else Inl ())"
| "lane_step io lane (Elapse now clock) =
     (if wk_running (lane_worker lane) \<and> lane_timeout now (lane_worker lane) \<noteq> None
      then case handle_timeout io now clock (lane_worker lane) of
             (w, due) \<Rightarrow> Inr (lane\<lparr>lane_worker := w\<rparr>, due)
      else Inl ())"
| "lane_step io lane Disconnect =
     (if wk_running (lane_worker lane) \<and> lane_commands lane = []
      then Inr (lane\<lparr>lane_worker := shutdown_arm io (lane_worker lane)\<rparr>, []) else Inl ())"

section \<open>Bounds\<close>

lemma percentile_mono:
  assumes "p \<le> q" "q \<le> 100" "xs = sort ys"
  shows "percentile xs p \<le> percentile xs q"
proof (cases "xs = []")
  case False
  have le: "(length xs - 1) * p div 100 \<le> (length xs - 1) * q div 100"
    using assms(1) by (simp add: div_le_mono)
  have "(length xs - 1) * q div 100 \<le> (length xs - 1) * 100 div 100"
    using assms(2) by (intro div_le_mono mult_le_mono2)
  then have "(length xs - 1) * q div 100 < length xs" using False by (cases xs) auto
  with le False assms(3) show ?thesis by (simp add: percentile_def sorted_nth_mono)
qed (simp add: percentile_def)

lemma percentile_100: "xs \<noteq> [] \<Longrightarrow> percentile xs 100 = last xs"
  by (simp add: percentile_def last_conv_nth)

definition latencies_ordered :: "RealtimeMidiStatus \<Rightarrow> bool" where
  "latencies_ordered s \<longleftrightarrow> rt_latency_p50_micros s \<le> rt_latency_p95_micros s
     \<and> rt_latency_p95_micros s \<le> rt_latency_p99_micros s \<and> rt_latency_p99_micros s \<le> rt_latency_max_micros s"

lemma latency_distribution_ordered: "latencies_ordered (update_latency_distribution l s)"
proof -
  have "percentile (sort l) 99 \<le> (if sort l = [] then 0 else last (sort l))"
    using percentile_mono [of 99 100 "sort l" l] percentile_100 [of "sort l"]
    by (auto simp: percentile_def [where samples = "[]"])
  then show ?thesis
    using percentile_mono [of 50 95 "sort l" l] percentile_mono [of 95 99 "sort l" l]
    by (simp add: latencies_ordered_def update_latency_distribution_def Let_def)
qed

definition status_ok :: "RealtimeMidiStatus \<Rightarrow> bool" where
  "status_ok s \<longleftrightarrow> latencies_ordered s
     \<and> length (rt_recent_dispatches s) \<le> REALTIME_DISPATCH_HISTORY_CAPACITY
     \<and> rt_queue_depth s \<le> rt_queue_high_water s"

definition worker_ok :: "'p LaneWorker \<Rightarrow> bool" where
  "worker_ok w \<longleftrightarrow> (\<forall>item \<in> set (wk_scheduled w). item_generation item = wk_generation w)
     \<and> length (wk_scheduled w) \<le> REALTIME_SCHEDULE_CAPACITY
     \<and> length (wk_latencies w) \<le> REALTIME_LATENCY_SAMPLE_CAPACITY
     \<and> rt_latency_sample_count (wk_status w) = length (wk_latencies w)
     \<and> status_ok (wk_status w)"

definition lane_ok :: "'p RealtimeMidiController \<Rightarrow> bool" where
  "lane_ok lane \<longleftrightarrow> worker_ok (lane_worker lane) \<and> length (lane_commands lane) \<le> REALTIME_COMMAND_CAPACITY"

lemmas arm_defs = update_realtime_status_def publish_controller_status_def count_cancelled_def

lemma worker_ok_controller [simp]: "worker_ok (w\<lparr>wk_controller := c\<rparr>) = worker_ok w"
  by (simp add: worker_ok_def)

lemma worker_ok_running [simp]: "worker_ok (w\<lparr>wk_running := r\<rparr>) = worker_ok w"
  by (simp add: worker_ok_def)

lemma worker_ok_publish [simp]: "worker_ok (publish_controller_status w) = worker_ok w"
  by (simp add: worker_ok_def arm_defs status_ok_def latencies_ordered_def)

lemma worker_ok_cancelled [simp]: "worker_ok (count_cancelled n w) = worker_ok w"
  by (simp add: worker_ok_def arm_defs status_ok_def latencies_ordered_def)

lemma worker_ok_depth: "worker_ok w \<Longrightarrow> worker_ok (update_realtime_status (\<lambda>s. s\<lparr>rt_queue_depth := rt_queue_depth s - 1\<rparr>) w)"
  by (auto simp: worker_ok_def arm_defs status_ok_def latencies_ordered_def)

lemma worker_ok_schedule: "worker_ok w \<Longrightarrow> worker_ok (schedule_arm now item w)"
  by (auto simp: worker_ok_def schedule_arm_def arm_defs status_ok_def latencies_ordered_def)

lemma worker_ok_fewer:
  "worker_ok w \<Longrightarrow> worker_ok (w\<lparr>wk_scheduled := filter P (wk_scheduled w)\<rparr>)"
  by (auto simp: worker_ok_def intro: order_trans [OF length_filter_le])

lemma worker_ok_generation: "worker_ok w \<Longrightarrow> worker_ok (set_generation_arm g w)"
proof -
  assume "worker_ok w"
  then have "worker_ok (w\<lparr>wk_generation := g, wk_scheduled := filter (\<lambda>item. item_generation item = g) (wk_scheduled w)\<rparr>)"
    by (auto simp: worker_ok_def intro: order_trans [OF length_filter_le])
  then show ?thesis by (simp add: set_generation_arm_def Let_def)
qed

lemma worker_ok_empty: "worker_ok w \<Longrightarrow> worker_ok (w\<lparr>wk_scheduled := []\<rparr>)"
  by (simp add: worker_ok_def)

lemma worker_ok_retime: "worker_ok w \<Longrightarrow> worker_ok (retime_arm g d b w)"
  by (auto simp: retime_arm_def worker_ok_def retimed_def)

lemma worker_ok_command: "worker_ok w \<Longrightarrow> worker_ok (fst (command_arm io now command w))"
  by (cases command)
     (auto simp: controller_arm_def stop_arm_def shutdown_arm_def cancel_all_arm_def Let_def worker_ok_schedule
       worker_ok_generation worker_ok_retime worker_ok_empty split: prod.split)

lemma push_bounded_le: "length xs \<le> n \<Longrightarrow> 0 < n \<Longrightarrow> length (push_bounded n xs x) \<le> n"
  by (auto simp: push_bounded_def)

lemma worker_ok_handle: "worker_ok w \<Longrightarrow> worker_ok (fst (handle_command io now command w))"
  unfolding handle_command_def by (intro worker_ok_command worker_ok_depth)

lemma status_ok_distribution:
  "length (rt_recent_dispatches s) \<le> REALTIME_DISPATCH_HISTORY_CAPACITY \<Longrightarrow>
   rt_queue_depth s \<le> rt_queue_high_water s \<Longrightarrow> status_ok (update_latency_distribution l s)"
  unfolding status_ok_def
  by (intro conjI latency_distribution_ordered) (simp_all add: update_latency_distribution_def Let_def)

lemma record_dispatch_status:
  "status_ok s \<Longrightarrow> status_ok (record_dispatch item instants success l s)
     \<and> rt_latency_sample_count (record_dispatch item instants success l s) = length l"
  unfolding record_dispatch_def Let_def case_prod_beta
  by (intro conjI status_ok_distribution)
     (auto simp: status_ok_def REALTIME_DISPATCH_HISTORY_CAPACITY_def update_latency_distribution_def Let_def
       intro!: push_bounded_le)

lemma worker_ok_sample:
  assumes "worker_ok w" "l = push_bounded REALTIME_LATENCY_SAMPLE_CAPACITY (wk_latencies w) x"
  shows "worker_ok (update_realtime_status (record_dispatch item instants success l) (w\<lparr>wk_latencies := l\<rparr>))"
  using assms record_dispatch_status [of "wk_status w" item instants success l]
    push_bounded_le [of "wk_latencies w" REALTIME_LATENCY_SAMPLE_CAPACITY x]
  by (simp add: worker_ok_def update_realtime_status_def REALTIME_LATENCY_SAMPLE_CAPACITY_def)

lemma worker_ok_dispatch: "worker_ok w \<Longrightarrow> worker_ok (dispatch_item io instants item w)"
  using worker_ok_sample [of "w\<lparr>wk_controller := fst (run_action io (item_action item) (wk_controller w))\<rparr>"]
  by (simp add: dispatch_item_def Let_def case_prod_beta)

lemma worker_ok_due: "worker_ok w \<Longrightarrow> worker_ok (dispatch_due io clock i due w)"
  by (induction due arbitrary: i w) (simp_all add: worker_ok_dispatch)

lemma worker_ok_timeout: "worker_ok w \<Longrightarrow> worker_ok (fst (handle_timeout io now clock w))"
  by (simp add: handle_timeout_def Let_def worker_ok_due worker_ok_fewer)

lemma try_send_ok: "lane_ok lane \<Longrightarrow> lane_ok (fst (try_send command lane))"
  by (auto simp: try_send_def Let_def lane_ok_def worker_ok_def arm_defs status_ok_def latencies_ordered_def)

lemma lane_step_ok: "lane_ok lane \<Longrightarrow> lane_step io lane ev = Inr (lane', out) \<Longrightarrow> lane_ok lane'"
proof (cases ev)
  case (Elapse now clock)
  assume "lane_ok lane" "lane_step io lane ev = Inr (lane', out)"
  with Elapse worker_ok_timeout [of "lane_worker lane" io now clock] show ?thesis
    by (auto simp: lane_ok_def split: if_splits prod.splits)
qed (auto simp: lane_ok_def worker_ok_handle shutdown_arm_def
      try_send_ok [unfolded lane_ok_def] split: if_splits list.splits)

lemma new_lane_ok: "lane_ok (new_lane p)"
  by (simp add: lane_ok_def new_lane_def worker_ok_def new_worker_def status_ok_def default_realtime_status_def
      latencies_ordered_def)

interpretation lane_machine: event_machine "lane_step io" lane_ok "\<lambda>_. True" "new_lane p" for io p
  by unfold_locales (auto intro: lane_step_ok new_lane_ok)

text \<open>
  Whatever the clients send and whenever deadlines pass, the lane keeps at most 128 pending
  pulses, all of the current generation, 64 queued commands, 2048 latencies and 128 dispatch
  records, and its latency percentiles are ordered.
\<close>

theorem lane_stays_bounded: "lane_ok (fst (run_machine (lane_step io) (new_lane p) events))"
  by (rule lane_machine.inv_run) (simp add: list_all_iff)

section \<open>Every pulse at most once\<close>

definition item_key :: "ScheduledRealtimeMidiAction \<Rightarrow> u64 \<times> RealtimeMidiAction" where
  "item_key item = (item_generation item, item_action item)"

fun command_keys :: "RealtimeMidiCommand \<Rightarrow> (u64 \<times> RealtimeMidiAction) list" where
  "command_keys (CmdSchedule item) = [item_key item]"
| "command_keys _ = []"

fun event_keys :: "LaneEvent \<Rightarrow> (u64 \<times> RealtimeMidiAction) list" where
  "event_keys (TrySend command) = command_keys command"
| "event_keys (BlockingSend command) = command_keys command"
| "event_keys _ = []"

text \<open>The pulses the lane still owns: scheduled in the worker or queued as commands.\<close>

definition owned :: "'p RealtimeMidiController \<Rightarrow> (u64 \<times> RealtimeMidiAction) multiset" where
  "owned lane = mset (map item_key (wk_scheduled (lane_worker lane)))
     + mset (concat (map command_keys (lane_commands lane)))"

abbreviation dispatched :: "ScheduledRealtimeMidiAction list list \<Rightarrow> (u64 \<times> RealtimeMidiAction) multiset" where
  "dispatched outs \<equiv> mset (map item_key (concat outs))"

abbreviation requested :: "LaneEvent list \<Rightarrow> (u64 \<times> RealtimeMidiAction) multiset" where
  "requested events \<equiv> mset (concat (map event_keys events))"

lemma scheduled_simps [simp]:
  "wk_scheduled (update_realtime_status f w) = wk_scheduled w"
  "wk_scheduled (publish_controller_status w) = wk_scheduled w"
  "wk_scheduled (count_cancelled n w) = wk_scheduled w"
  "wk_scheduled (dispatch_item io instants item w) = wk_scheduled w"
  by (simp_all add: arm_defs dispatch_item_def case_prod_beta Let_def)

lemma scheduled_due [simp]: "wk_scheduled (dispatch_due io clock i due w) = wk_scheduled w"
  by (induction due arbitrary: i w) simp_all

lemma item_key_retimed [simp]: "item_key (retimed g d b item) = item_key item"
  by (simp add: retimed_def item_key_def)

lemma image_key_retimed [simp]:
  "image_mset item_key (image_mset (retimed g d b) items) = image_mset item_key items"
  by (simp add: image_mset.compositionality comp_def)

lemma filter_key_subset: "mset (map item_key (filter P items)) \<subseteq># mset (map item_key items)"
  by (simp add: image_mset_subseteq_mono)

lemma command_owned:
  "mset (map item_key (wk_scheduled (fst (handle_command io now command w))))
     \<subseteq># mset (map item_key (wk_scheduled w)) + mset (command_keys command)"
  using filter_key_subset
  by (cases command)
     (auto simp: handle_command_def controller_arm_def stop_arm_def shutdown_arm_def cancel_all_arm_def Let_def
       set_generation_arm_def schedule_arm_def retime_arm_def split: prod.split)

lemma timeout_owned:
  "mset (map item_key (snd (handle_timeout io now clock w)))
     + mset (map item_key (wk_scheduled (fst (handle_timeout io now clock w))))
   = mset (map item_key (wk_scheduled w))"
  by (simp add: handle_timeout_def Let_def flip: image_mset_union)

lemma step_owned:
  "lane_step io lane ev = Inr (lane', out) \<Longrightarrow>
   mset (map item_key out) + owned lane' \<subseteq># owned lane + mset (event_keys ev)"
proof (cases ev)
  case (Receive now)
  assume "lane_step io lane ev = Inr (lane', out)"
  with Receive command_owned [of io now _ "lane_worker lane"] show ?thesis
    by (auto simp: owned_def ac_simps split: if_splits list.splits)
next
  case (Elapse now clock)
  assume "lane_step io lane ev = Inr (lane', out)"
  with Elapse timeout_owned [of io now clock "lane_worker lane"] show ?thesis
    by (auto simp: owned_def simp flip: add.assoc split: if_splits prod.splits)
qed (auto simp: owned_def try_send_def shutdown_arm_def Let_def split: if_splits)

lemma run_owned:
  "run_machine (lane_step io) lane events = (lane', outs) \<Longrightarrow>
   dispatched outs + owned lane' \<subseteq># owned lane + requested events"
proof (induction events arbitrary: lane outs)
  case (Cons ev events)
  show ?case
  proof (cases "lane_step io lane ev")
    case (Inl e)
    then have "dispatched outs + owned lane' \<subseteq># owned lane + requested events" using Cons by simp
    also have "\<dots> \<subseteq># owned lane + requested (ev # events)" by simp
    finally show ?thesis .
  next
    case (Inr r)
    obtain mid out where r: "r = (mid, out)" by (cases r)
    obtain t outs' where run: "run_machine (lane_step io) mid events = (t, outs')"
      by (cases "run_machine (lane_step io) mid events")
    with Cons.prems Inr r have outs: "outs = out # outs'" "t = lane'" by auto
    have "dispatched outs' + owned lane' \<subseteq># owned mid + requested events"
      using Cons.IH run outs by simp
    then have "mset (map item_key out) + (dispatched outs' + owned lane')
        \<subseteq># mset (map item_key out) + (owned mid + requested events)"
      by (rule subset_mset.add_left_mono)
    also have "\<dots> \<subseteq># owned lane + mset (event_keys ev) + requested events"
      using step_owned [of io lane ev mid out] Inr r by (simp add: subset_mset.add_right_mono flip: add.assoc)
    finally show ?thesis using outs by (simp add: ac_simps)
  qed
qed auto

text \<open>
  C18. The lane never sends a pulse twice: over any run, counting each generation and action,
  what was dispatched and what the lane still owns was requested at least as often. Retiming,
  cancelling, stopping and failing never create a pulse.
\<close>

theorem pulses_dispatched_at_most_once:
  "case run_machine (lane_step io) (new_lane p) events of
     (lane, outs) \<Rightarrow> dispatched outs + owned lane \<subseteq># requested events"
proof -
  obtain lane outs where run: "run_machine (lane_step io) (new_lane p) events = (lane, outs)" by fastforce
  have "owned (new_lane p) = {#}" by (simp add: owned_def new_lane_def new_worker_def)
  with run_owned [OF run] run show ?thesis by simp
qed

section \<open>Cancelled pulses stay silent\<close>

fun survivors :: "RealtimeMidiCommand \<Rightarrow> ScheduledRealtimeMidiAction list \<Rightarrow> ScheduledRealtimeMidiAction list" where
  "survivors (CmdSetGeneration g) items = filter (\<lambda>item. item_generation item = g) items"
| "survivors CmdCancelAll items = []"
| "survivors CmdStop items = []"
| "survivors _ items = items"

lemma receive_survivors:
  assumes "lane_step io lane (Receive now) = Inr (lane', out)" "lane_commands lane = command # rest"
    and "command = CmdCancelAll \<or> command = CmdStop \<or> (\<exists>g. command = CmdSetGeneration g)"
  shows "owned lane' = mset (map item_key (survivors command (wk_scheduled (lane_worker lane))))
      + mset (concat (map command_keys rest))"
  using assms
  by (auto simp: owned_def handle_command_def stop_arm_def cancel_all_arm_def set_generation_arm_def Let_def
      split: if_splits)

text \<open>
  C21. Once the worker has taken a cancellation, a stop or a new generation, no pulse that was
  pending before is ever dispatched, except those of the new generation: everything dispatched
  later was queued behind that command or requested after it.
\<close>

theorem cancelled_pulses_stay_silent:
  assumes "lane_commands lane = command # rest"
    and "command = CmdCancelAll \<or> command = CmdStop \<or> (\<exists>g. command = CmdSetGeneration g)"
    and "lane_step io lane (Receive now) = Inr (lane1, out)"
    and "run_machine (lane_step io) lane1 events = (lane2, outs)"
  shows "dispatched outs \<subseteq># mset (map item_key (survivors command (wk_scheduled (lane_worker lane))))
      + mset (concat (map command_keys rest)) + requested events"
  using run_owned [OF assms(4)] receive_survivors [OF assms(3,1,2)]
  by (metis mset_subset_eq_add_left subset_mset.order_trans)

section \<open>Deadlines\<close>

lemma fold_min_le: "fold min ds (d :: nat) \<le> d \<and> (\<forall>x \<in> set ds. fold min ds d \<le> x)"
proof (induction ds arbitrary: d)
  case (Cons y ds)
  from Cons [of "min y d"] show ?case by (auto intro: order_trans)
qed simp

lemma timeout_zero:
  assumes "item \<in> set (wk_scheduled w)" "item_generation item = wk_generation w" "item_deadline item \<le> now"
  shows "lane_timeout now w = Some 0"
proof -
  let ?ds = "map item_deadline (filter (\<lambda>item. item_generation item = wk_generation w) (wk_scheduled w))"
  have "item_deadline item \<in> set ?ds" using assms by auto
  then obtain d ds where ds: "?ds = d # ds" and m: "item_deadline item \<in> set (d # ds)" by (cases ?ds) auto
  have "fold min ds d \<le> item_deadline item" using m fold_min_le [of ds d] by auto
  with assms(3) ds show ?thesis by (simp add: lane_timeout_def)
qed

text \<open>
  C20. Deadlines are kept: when a pending pulse is due, the worker no longer waits, and the
  timeout it then handles dispatches exactly the pending pulses whose deadline has passed, in the
  order of their deadlines and all of the current generation; the others stay pending.
\<close>

theorem deadlines_are_kept:
  assumes "lane_ok lane" "wk_running (lane_worker lane)"
    and "item \<in> set (wk_scheduled (lane_worker lane))" "item_deadline item \<le> now"
  shows "lane_timeout now (lane_worker lane) = Some 0
    \<and> (\<exists>lane' out. lane_step io lane (Elapse now clock) = Inr (lane', out)
        \<and> item \<in> set out
        \<and> mset out = filter_mset (\<lambda>x. item_deadline x \<le> now) (mset (wk_scheduled (lane_worker lane)))
        \<and> sorted (map item_deadline out)
        \<and> (\<forall>x \<in> set out. item_generation x = wk_generation (lane_worker lane))
        \<and> wk_scheduled (lane_worker lane') = filter (\<lambda>x. now < item_deadline x) (wk_scheduled (lane_worker lane)))"
proof
  let ?w = "lane_worker lane"
  have gen: "item_generation x = wk_generation ?w" if "x \<in> set (wk_scheduled ?w)" for x
    using assms(1) that by (simp add: lane_ok_def worker_ok_def)
  show zero: "lane_timeout now ?w = Some 0"
    using timeout_zero [OF assms(3) gen [OF assms(3)] assms(4)] .
  have due: "filter (is_due now ?w) (wk_scheduled ?w) = filter (\<lambda>x. item_deadline x \<le> now) (wk_scheduled ?w)"
    and rest: "filter (\<lambda>x. \<not> is_due now ?w x) (wk_scheduled ?w) = filter (\<lambda>x. now < item_deadline x) (wk_scheduled ?w)"
    by (auto simp: is_due_def gen intro!: filter_cong)
  let ?out = "snd (handle_timeout io now clock ?w)"
  let ?lane = "lane\<lparr>lane_worker := fst (handle_timeout io now clock ?w)\<rparr>"
  have "lane_step io lane (Elapse now clock) = Inr (?lane, ?out)"
    using assms(2) zero by (simp add: case_prod_beta)
  then show "\<exists>lane' out. lane_step io lane (Elapse now clock) = Inr (lane', out)
        \<and> item \<in> set out
        \<and> mset out = filter_mset (\<lambda>x. item_deadline x \<le> now) (mset (wk_scheduled ?w))
        \<and> sorted (map item_deadline out)
        \<and> (\<forall>x \<in> set out. item_generation x = wk_generation ?w)
        \<and> wk_scheduled (lane_worker lane') = filter (\<lambda>x. now < item_deadline x) (wk_scheduled ?w)"
    using assms(3,4) gen
    by (intro exI [of _ ?lane] exI [of _ ?out]) (simp add: handle_timeout_def Let_def due rest)
qed

section \<open>The source fails closed\<close>

definition lane_protocol :: "('p \<times> ProviderCall list) RealtimeMidiController \<Rightarrow> bool" where
  "lane_protocol lane \<longleftrightarrow> source_protocol (wk_controller (lane_worker lane))
     \<and> (\<not> wk_running (lane_worker lane) \<longrightarrow> ctl_state (wk_controller (lane_worker lane)) = SourceStopped)"

lemma controller_simps [simp]:
  "wk_controller (update_realtime_status f w) = wk_controller w"
  "wk_controller (publish_controller_status w) = wk_controller w"
  "wk_controller (count_cancelled n w) = wk_controller w"
  "wk_controller (schedule_arm now item w) = wk_controller w"
  "wk_controller (retime_arm g d b w) = wk_controller w"
  by (simp_all add: arm_defs schedule_arm_def retime_arm_def)

lemma running_simps [simp]:
  "wk_running (update_realtime_status f w) = wk_running w"
  "wk_running (publish_controller_status w) = wk_running w"
  "wk_running (count_cancelled n w) = wk_running w"
  "wk_running (schedule_arm now item w) = wk_running w"
  "wk_running (retime_arm g d b w) = wk_running w"
  "wk_running (dispatch_item io instants item w) = wk_running w"
  by (simp_all add: arm_defs schedule_arm_def retime_arm_def dispatch_item_def case_prod_beta Let_def)

lemma running_due [simp]: "wk_running (dispatch_due io clock i due w) = wk_running w"
  by (induction due arbitrary: i w) simp_all

lemma protocol_action: "source_protocol c \<Longrightarrow> source_protocol (fst (run_action (traced io) a c))"
  by (cases a) (simp_all add: run_action_def protocol_ops)

lemma protocol_item:
  "source_protocol (wk_controller w) \<Longrightarrow> source_protocol (wk_controller (dispatch_item (traced io) instants item w))"
  by (simp add: dispatch_item_def case_prod_beta Let_def protocol_action)

lemma protocol_due:
  "source_protocol (wk_controller w) \<Longrightarrow>
   source_protocol (wk_controller (dispatch_due (traced io) clock i due w))"
  by (induction due arbitrary: i w) (simp_all add: protocol_item)

lemma protocol_command:
  "source_protocol (wk_controller w) \<Longrightarrow>
   source_protocol (wk_controller (fst (handle_command (traced io) now command w)))"
  by (cases command)
     (simp_all add: handle_command_def controller_arm_def stop_arm_def shutdown_arm_def cancel_all_arm_def
       set_generation_arm_def case_prod_beta Let_def protocol_ops)

lemma running_command:
  "wk_running w \<Longrightarrow> \<not> wk_running (fst (handle_command io now command w)) \<Longrightarrow>
   ctl_state (wk_controller (fst (handle_command io now command w))) = SourceStopped"
  by (cases command)
     (simp_all add: handle_command_def controller_arm_def stop_arm_def shutdown_arm_def cancel_all_arm_def
       set_generation_arm_def case_prod_beta Let_def controller_stop_def)

lemma stopped_state: "ctl_state (controller_stop io c) = SourceStopped"
  by (simp add: controller_stop_def)

lemma step_protocol:
  "lane_protocol lane \<Longrightarrow> lane_step (traced io) lane ev = Inr (lane', out) \<Longrightarrow> lane_protocol lane'"
proof (cases ev)
  case (Receive now)
  assume "lane_protocol lane" "lane_step (traced io) lane ev = Inr (lane', out)"
  with Receive show ?thesis
    using protocol_command running_command by (fastforce simp: lane_protocol_def split: if_splits list.splits)
next
  case (Elapse now clock)
  assume "lane_protocol lane" "lane_step (traced io) lane ev = Inr (lane', out)"
  with Elapse show ?thesis
    by (auto simp: lane_protocol_def handle_timeout_def Let_def protocol_due split: if_splits)
qed (auto simp: lane_protocol_def try_send_def shutdown_arm_def Let_def protocol_stop stopped_state
       split: if_splits)

lemma new_lane_protocol: "lane_protocol (new_lane (p, []))"
  by (simp add: lane_protocol_def new_lane_def new_worker_def protocol_new)

interpretation lane_source: event_machine "lane_step (traced io)" lane_protocol "\<lambda>_. True" "new_lane (p, [])" for io p
  by unfold_locales (auto intro: step_protocol new_lane_protocol)

text \<open>
  C19. Whatever the provider does and whatever the clients send, the calls the provider sees
  follow the protocol of a source that fails closed: pulses, each a note on with its note off,
  only while the source is published, and after a failed pulse the next call stops the source.
  When the worker has ended, the source is stopped.
\<close>

theorem lane_fails_closed:
  "case fst (run_machine (lane_step (traced io)) (new_lane (p, [])) events) of lane \<Rightarrow>
     view (snd (ctl_provider (wk_controller (lane_worker lane)))) =
       Some (if ctl_state (wk_controller (lane_worker lane)) = SourceReady then Open else Closed)
     \<and> (wk_running (lane_worker lane) \<or> ctl_state (wk_controller (lane_worker lane)) = SourceStopped)"
  using lane_source.inv_run [of events io p]
  by (auto simp: lane_protocol_def source_protocol_def list_all_iff)

section \<open>Witnesses\<close>

text \<open>A provider that accepts everything, and a lane with one loop pulse due at 5.\<close>

definition silent_provider :: "unit MidiSourceProvider" where
  "silent_provider =
     \<lparr>prov_publish = (\<lambda>_ p. (p, Inr ())), prov_stop = (\<lambda>p. p), prov_send = (\<lambda>_ p. (p, Inr ())),
      prov_sleep = (\<lambda>_ p. p)\<rparr>"

definition demo_item :: ScheduledRealtimeMidiAction where
  "demo_item = \<lparr>item_generation = 0, item_deadline = 5, item_action = ActTriggerAutoloop 1 2\<rparr>"

definition demo_lane :: "unit RealtimeMidiController" where
  "demo_lane = fst (run_machine (lane_step silent_provider) (new_lane ())
     [TrySend (CmdSchedule demo_item), Receive 0])"

lemmas lane_eval = run_machine.simps try_send_def new_lane_def new_worker_def handle_command_def schedule_arm_def
  demo_item_def arm_defs Let_def REALTIME_COMMAND_CAPACITY_def REALTIME_SCHEDULE_CAPACITY_def

lemma demo_lane_facts:
  "lane_ok demo_lane \<and> wk_running (lane_worker demo_lane) \<and> wk_scheduled (lane_worker demo_lane) = [demo_item]
   \<and> lane_commands demo_lane = []"
proof -
  have "lane_ok demo_lane"
    unfolding demo_lane_def by (rule lane_machine.inv_run) (simp add: list_all_iff)
  then show ?thesis by (simp add: demo_lane_def lane_eval)
qed

theorem deadlines_are_kept_witness:
  "lane_timeout 9 (lane_worker demo_lane) = Some 0
   \<and> (\<exists>lane' out. lane_step silent_provider demo_lane (Elapse 9 (\<lambda>_. (9, 9))) = Inr (lane', out) \<and> demo_item \<in> set out)"
  using deadlines_are_kept [of demo_lane demo_item 9 silent_provider "\<lambda>_. (9, 9)"] demo_lane_facts
  by (auto simp: demo_item_def)

theorem cancelled_pulses_stay_silent_witness:
  "case run_machine (lane_step silent_provider)
      (fst (run_machine (lane_step silent_provider) (demo_lane\<lparr>lane_commands := [CmdCancelAll]\<rparr>) [Receive 1]))
      [Elapse 9 (\<lambda>_. (9, 9))] of (_, outs) \<Rightarrow> concat outs = []"
proof -
  let ?lane = "demo_lane\<lparr>lane_commands := [CmdCancelAll]\<rparr>"
  obtain lane1 where step: "lane_step silent_provider ?lane (Receive 1) = Inr (lane1, [])"
    using demo_lane_facts by simp
  obtain lane2 outs where run: "run_machine (lane_step silent_provider) lane1 [Elapse 9 (\<lambda>_. (9, 9))] = (lane2, outs)"
    by (cases "run_machine (lane_step silent_provider) lane1 [Elapse 9 (\<lambda>_. (9, 9))]")
  have "dispatched outs \<subseteq># {#}"
    using cancelled_pulses_stay_silent [OF _ _ step run, of CmdCancelAll "[]"] by simp
  then show ?thesis using run step by simp
qed

text \<open>
  The depth of the queue in the status is not its length: blocking commands are not counted when
  they are sent, but every command is discounted when it is received.
\<close>

theorem blocking_commands_uncounted:
  "\<exists>lane. lane = fst (run_machine (lane_step io) (new_lane p) [BlockingSend CmdPublish, TrySend CmdCancelAll, Receive 0])
     \<and> length (lane_commands lane) = 1 \<and> rt_queue_depth (wk_status (lane_worker lane)) = 0"
  by (simp add: lane_eval controller_arm_def default_realtime_status_def case_prod_beta)

end
