(* ===== verification/Midi_Clock.thy ===== *)
theory Midi_Clock
  imports Midi_Output
begin

text \<open>
  The MIDI clock of \<open>lumi-midi-output/src/lib.rs\<close>: \<open>MidiClockController\<close> filters the transport
  anchors of the engine and sends them over a bounded channel to \<open>run_clock_worker\<close>, which sends
  24 ticks per beat. Controller, channel and worker are one state; \<open>clock_step\<close> is what can happen
  next. The loop that skips missed ticks is a partial function whose value \<open>None\<close> means that it
  does not end, and a division by zero is the error \<open>ClockPanics\<close>. Facts: neither happens, ticks
  stay on the grid of the tempo, and the provider sees ticks only between a start and a stop.
\<close>

section \<open>Data\<close>

datatype MidiClockState = ClockStopped | ClockReady | ClockRunning

datatype ClockEventText =
    ClockPublished
  | ClockStoppedText
  | ClockPaused
  | ClockRunningAt u32 u16
  | ClockFailedClosed

datatype ClockErrorText =
    ClockProviderText string
  | TickNotSent string

record MidiClockStatus =
  cs_state :: MidiClockState
  cs_source_name :: string
  cs_bpm_milli :: "u32 option"
  cs_sent_tick_count :: u64
  cs_sent_transport_count :: u64
  cs_last_event :: "ClockEventText option"
  cs_last_error :: "ClockErrorText option"

definition default_clock_status :: MidiClockStatus where
  "default_clock_status =
     \<lparr>cs_state = ClockStopped, cs_source_name = MIDI_CLOCK_SOURCE_NAME, cs_bpm_milli = None,
      cs_sent_tick_count = 0, cs_sent_transport_count = 0, cs_last_event = None, cs_last_error = None\<rparr>"

record MidiClockSync =
  sync_bpm_milli :: u32
  sync_playing :: bool
  sync_song_position_16th :: u16
  sync_delay_to_next_tick :: Duration
  sync_rephase :: bool

datatype MidiClockError =
    ClockWorkerUnavailable
  | ClockProvider string
  | InvalidTempo
  | InvalidSongPosition

datatype ClockWorkerCommand =
    ClkPublish
  | ClkStop
  | ClkSynchronize MidiClockSync
  | ClkShutdown

section \<open>The worker\<close>

record 'p ClockWorker =
  ck_provider :: 'p
  ck_published :: bool
  ck_playing :: bool
  ck_tick_interval :: Duration
  ck_next_tick :: "Instant option"
  ck_status :: MidiClockStatus
  ck_running :: bool

definition new_clock_worker :: "'p \<Rightarrow> 'p ClockWorker" where
  "new_clock_worker provider =
     \<lparr>ck_provider = provider, ck_published = False, ck_playing = False, ck_tick_interval = 20000000,
      ck_next_tick = None, ck_status = default_clock_status, ck_running = True\<rparr>"

text \<open>\<open>None\<close> is the panic of a division by zero.\<close>

definition midi_clock_tick_interval :: "u32 \<Rightarrow> Duration option" where
  "midi_clock_tick_interval bpm_milli =
     (if bpm_milli = 0 then None else Some (max (60000000000000 div (unat bpm_milli * 24)) 1))"

definition update_clock_status :: "(MidiClockStatus \<Rightarrow> MidiClockStatus) \<Rightarrow> 'p ClockWorker \<Rightarrow> 'p ClockWorker" where
  "update_clock_status f w = w\<lparr>ck_status := f (ck_status w)\<rparr>"

definition increment_transport_count :: "'p ClockWorker \<Rightarrow> 'p ClockWorker" where
  "increment_transport_count w =
     update_clock_status (\<lambda>s. s\<lparr>cs_sent_transport_count := saturating_add (cs_sent_transport_count s) 1\<rparr>) w"

definition clock_publish_arm :: "'p MidiSourceProvider \<Rightarrow> 'p ClockWorker \<Rightarrow> 'p ClockWorker \<times> (string + unit)" where
  "clock_publish_arm io w =
     (let (p, result) = (if ck_published w then (ck_provider w, Inr ())
                         else prov_publish io MIDI_CLOCK_SOURCE_NAME (ck_provider w));
          w1 = w\<lparr>ck_provider := p\<rparr> in
      case result of
        Inr _ \<Rightarrow> (update_clock_status
             (\<lambda>s. s\<lparr>cs_state := ClockReady, cs_last_event := Some ClockPublished, cs_last_error := None\<rparr>)
             (w1\<lparr>ck_published := True\<rparr>), result)
      | Inl error \<Rightarrow> (update_clock_status
             (\<lambda>s. s\<lparr>cs_last_error := Some (ClockProviderText error)\<rparr>) w1, result))"

text \<open>Sending \<open>stop\<close> when the clock runs, its result ignored.\<close>

definition quiet_stop :: "'p MidiSourceProvider \<Rightarrow> 'p ClockWorker \<Rightarrow> 'p ClockWorker" where
  "quiet_stop io w =
     (if ck_published w \<and> ck_playing w then w\<lparr>ck_provider := fst (prov_send io [midi_stop] (ck_provider w))\<rparr> else w)"

definition clock_stop_arm :: "'p MidiSourceProvider \<Rightarrow> 'p ClockWorker \<Rightarrow> 'p ClockWorker" where
  "clock_stop_arm io w =
     (let w1 = quiet_stop io w in
      update_clock_status
        (\<lambda>s. s\<lparr>cs_state := ClockStopped, cs_bpm_milli := None, cs_last_event := Some ClockStoppedText\<rparr>)
        (w1\<lparr>ck_provider := prov_stop io (ck_provider w1), ck_published := False, ck_playing := False,
            ck_next_tick := None\<rparr>))"

definition pause_clock :: "'p MidiSourceProvider \<Rightarrow> MidiClockSync \<Rightarrow> 'p ClockWorker \<Rightarrow> 'p ClockWorker" where
  "pause_clock io sync w =
     (let w1 = (if ck_playing w
                then case prov_send io [midi_stop] (ck_provider w) of
                       (p, Inr _) \<Rightarrow> increment_transport_count (w\<lparr>ck_provider := p\<rparr>)
                     | (p, Inl _) \<Rightarrow> w\<lparr>ck_provider := p\<rparr>
                else w) in
      update_clock_status
        (\<lambda>s. s\<lparr>cs_state := ClockReady, cs_bpm_milli := Some (sync_bpm_milli sync), cs_last_event := Some ClockPaused\<rparr>)
        (w1\<lparr>ck_playing := False, ck_next_tick := None\<rparr>))"

definition report_running :: "MidiClockSync \<Rightarrow> 'p ClockWorker \<Rightarrow> 'p ClockWorker" where
  "report_running sync w =
     update_clock_status
       (\<lambda>s. s\<lparr>cs_state := ClockRunning, cs_bpm_milli := Some (sync_bpm_milli sync),
              cs_last_event := Some (ClockRunningAt (sync_bpm_milli sync) (sync_song_position_16th sync)),
              cs_last_error := None\<rparr>) w"

text \<open>The messages of a start or a jump; \<open>None\<close> is the \<open>continue\<close> for a position out of range.\<close>

definition transport_messages :: "MidiClockSync \<Rightarrow> MidiMessage list option" where
  "transport_messages sync =
     (if sync_song_position_16th sync = 0 then Some [midi_start]
      else map_option (\<lambda>position. [position, midi_continue_playback]) (song_position (sync_song_position_16th sync)))"

definition clock_sync_arm ::
  "'p MidiSourceProvider \<Rightarrow> Instant \<Rightarrow> MidiClockSync \<Rightarrow> 'p ClockWorker \<Rightarrow> 'p ClockWorker option" where
  "clock_sync_arm io now sync w =
     (if \<not> ck_published w then Some w
      else case midi_clock_tick_interval (sync_bpm_milli sync) of
        None \<Rightarrow> None
      | Some interval \<Rightarrow>
          let w1 = w\<lparr>ck_tick_interval := interval\<rparr> in
          Some (if \<not> sync_playing sync then pause_clock io sync w1
           else if \<not> ck_playing w1 \<or> sync_rephase sync then
             (case transport_messages sync of
                None \<Rightarrow> w1
              | Some messages \<Rightarrow>
                 (case prov_send io messages (ck_provider w1) of
                    (p, Inl error) \<Rightarrow>
                      (update_clock_status (\<lambda>s. s\<lparr>cs_last_error := Some (ClockProviderText error)\<rparr>)
                         (w1\<lparr>ck_provider := p, ck_playing := False, ck_next_tick := None\<rparr>))
                  | (p, Inr _) \<Rightarrow>
                      report_running sync (increment_transport_count
                        (w1\<lparr>ck_provider := p, ck_playing := True,
                            ck_next_tick := Some (now + sync_delay_to_next_tick sync)\<rparr>))))
           else report_running sync w1))"

definition clock_shutdown :: "'p MidiSourceProvider \<Rightarrow> 'p ClockWorker \<Rightarrow> 'p ClockWorker" where
  "clock_shutdown io w =
     (let w1 = quiet_stop io w in w1\<lparr>ck_provider := prov_stop io (ck_provider w1), ck_running := False\<rparr>)"

text \<open>\<open>while following <= now { following += tick_interval; }\<close>\<close>

partial_function (option) skip_missed :: "Duration \<Rightarrow> Instant \<Rightarrow> Instant \<Rightarrow> Instant option" where
  "skip_missed interval now following =
     (if following \<le> now then skip_missed interval now (following + interval) else Some following)"

definition clock_timeout_arm :: "'p MidiSourceProvider \<Rightarrow> Instant \<Rightarrow> 'p ClockWorker \<Rightarrow> 'p ClockWorker option" where
  "clock_timeout_arm io now w =
     (case prov_send io [midi_clock] (ck_provider w) of
        (p, Inl error) \<Rightarrow>
          Some ((update_clock_status
             (\<lambda>s. s\<lparr>cs_state := ClockStopped, cs_last_event := Some ClockFailedClosed,
                    cs_last_error := Some (TickNotSent error)\<rparr>)
             (w\<lparr>ck_provider := prov_stop io p, ck_published := False\<rparr>))\<lparr>ck_playing := False, ck_next_tick := None\<rparr>)
      | (p, Inr _) \<Rightarrow>
          let w1 = update_clock_status (\<lambda>s. s\<lparr>cs_sent_tick_count := saturating_add (cs_sent_tick_count s) 1\<rparr>)
                     (w\<lparr>ck_provider := p\<rparr>);
              start = (case ck_next_tick w1 of None \<Rightarrow> now | Some t \<Rightarrow> t) + ck_tick_interval w1 in
          map_option (\<lambda>following. w1\<lparr>ck_next_tick := Some following\<rparr>) (skip_missed (ck_tick_interval w1) now start))"

text \<open>The deadline the worker waits for, if any.\<close>

definition clock_deadline :: "'p ClockWorker \<Rightarrow> Instant option" where
  "clock_deadline w = (if ck_published w \<and> ck_playing w then ck_next_tick w else None)"

section \<open>The controller\<close>

record 'p MidiClockController =
  cc_worker :: "'p ClockWorker"
  cc_commands :: "ClockWorkerCommand list"
  cc_last_sync :: "MidiClockSync option"

definition CLOCK_CHANNEL_CAPACITY :: nat where
  "CLOCK_CHANNEL_CAPACITY = 16"

definition new_clock :: "'p \<Rightarrow> 'p MidiClockController" where
  "new_clock provider = \<lparr>cc_worker = new_clock_worker provider, cc_commands = [], cc_last_sync = None\<rparr>"

text \<open>
  The decision of \<open>synchronize\<close>: an error, or the anchor with its \<open>rephase\<close> flag settled and
  whether it is sent.
\<close>

definition sync_decision ::
  "MidiClockSync option \<Rightarrow> MidiClockSync \<Rightarrow> MidiClockError + (MidiClockSync \<times> bool)" where
  "sync_decision previous_sync sync =
     (if \<not> (20000 \<le> sync_bpm_milli sync \<and> sync_bpm_milli sync \<le> 300000) then Inl InvalidTempo
      else if sync_song_position_16th sync \<ge> 16384 then Inl InvalidSongPosition
      else let transport_changed = (case previous_sync of None \<Rightarrow> True | Some previous \<Rightarrow> sync_playing previous \<noteq> sync_playing sync);
               tempo_changed = (case previous_sync of None \<Rightarrow> True | Some previous \<Rightarrow> sync_bpm_milli previous \<noteq> sync_bpm_milli sync);
               sync1 = (if sync_playing sync \<and> transport_changed then sync\<lparr>sync_rephase := True\<rparr> else sync) in
           Inr (sync1, transport_changed \<or> tempo_changed \<or> sync_rephase sync1))"

text \<open>\<open>synchronize\<close>; its send waits for room, so it takes place when there is some.\<close>

definition synchronize ::
  "MidiClockSync \<Rightarrow> 'p MidiClockController \<Rightarrow> 'p MidiClockController \<times> (MidiClockError + unit)" where
  "synchronize sync c =
     (case sync_decision (cc_last_sync c) sync of
        Inl e \<Rightarrow> (c, Inl e)
      | Inr (sync1, send) \<Rightarrow>
          if \<not> send then (c\<lparr>cc_last_sync := Some sync1\<rparr>, Inr ())
          else if \<not> ck_running (cc_worker c) then (c, Inl ClockWorkerUnavailable)
          else (c\<lparr>cc_commands := cc_commands c @ [ClkSynchronize sync1], cc_last_sync := Some sync1\<rparr>, Inr ()))"

text \<open>
  The worker takes a command. \<open>publish\<close> and \<open>stop\<close> hold the controller until the reply is there,
  which then forgets the last anchor (\<open>publish\<close> only when it succeeded).
\<close>

datatype ClockProblem = NotPossible | ClockPanics | ClockHangs

fun clock_receive ::
  "'p MidiSourceProvider \<Rightarrow> Instant \<Rightarrow> ClockWorkerCommand \<Rightarrow> 'p MidiClockController \<Rightarrow>
   ClockProblem + 'p MidiClockController" where
  "clock_receive io now ClkPublish c =
     (case clock_publish_arm io (cc_worker c) of
        (w, result) \<Rightarrow> Inr (c\<lparr>cc_worker := w, cc_last_sync := (if is_ok result then None else cc_last_sync c)\<rparr>))"
| "clock_receive io now ClkStop c = Inr (c\<lparr>cc_worker := clock_stop_arm io (cc_worker c), cc_last_sync := None\<rparr>)"
| "clock_receive io now (ClkSynchronize sync) c =
     (case clock_sync_arm io now sync (cc_worker c) of
        None \<Rightarrow> Inl ClockPanics
      | Some w \<Rightarrow> Inr (c\<lparr>cc_worker := w\<rparr>))"
| "clock_receive io now ClkShutdown c = Inr (c\<lparr>cc_worker := clock_shutdown io (cc_worker c)\<rparr>)"

fun is_sync_command :: "ClockWorkerCommand \<Rightarrow> bool" where
  "is_sync_command (ClkSynchronize _) = True"
| "is_sync_command _ = False"

datatype ClockEvent =
    ClockClient ClockWorkerCommand
  | ClockSynchronize MidiClockSync
  | ClockReceive Instant
  | ClockElapse Instant
  | ClockDisconnect

fun clock_step ::
  "'p MidiSourceProvider \<Rightarrow> 'p MidiClockController \<Rightarrow> ClockEvent \<Rightarrow>
   ClockProblem + ('p MidiClockController \<times> (MidiClockError + unit) option)" where
  "clock_step io c (ClockClient command) =
     (if ck_running (cc_worker c) \<and> length (cc_commands c) < CLOCK_CHANNEL_CAPACITY \<and> \<not> is_sync_command command
      then Inr (c\<lparr>cc_commands := cc_commands c @ [command]\<rparr>, None) else Inl NotPossible)"
| "clock_step io c (ClockSynchronize sync) =
     (if length (cc_commands c) < CLOCK_CHANNEL_CAPACITY
      then case synchronize sync c of (c1, r) \<Rightarrow> Inr (c1, Some r) else Inl NotPossible)"
| "clock_step io c (ClockReceive now) =
     (case cc_commands c of
        [] \<Rightarrow> Inl NotPossible
      | command # rest \<Rightarrow>
          if ck_running (cc_worker c)
          then and_then (clock_receive io now command (c\<lparr>cc_commands := rest\<rparr>)) (\<lambda>c1. Inr (c1, None))
          else Inl NotPossible)"
| "clock_step io c (ClockElapse now) =
     (case clock_deadline (cc_worker c) of
        None \<Rightarrow> Inl NotPossible
      | Some deadline \<Rightarrow>
          if ck_running (cc_worker c) \<and> deadline \<le> now
          then case clock_timeout_arm io now (cc_worker c) of
                 None \<Rightarrow> Inl ClockHangs
               | Some w \<Rightarrow> Inr (c\<lparr>cc_worker := w\<rparr>, None)
          else Inl NotPossible)"
| "clock_step io c ClockDisconnect =
     (if ck_running (cc_worker c) \<and> cc_commands c = []
      then Inr (c\<lparr>cc_worker := clock_shutdown io (cc_worker c)\<rparr>, None) else Inl NotPossible)"

section \<open>The grid of ticks\<close>

lemma skip_missed_returns:
  assumes "0 < interval"
  shows "\<exists>k. skip_missed interval now following = Some (following + k * interval)
     \<and> now < following + k * interval \<and> (k = 0 \<or> following + (k - 1) * interval \<le> now)"
proof (induction "now + 1 - following" arbitrary: following rule: less_induct)
  case less
  show ?case
  proof (cases "following \<le> now")
    case True
    then have "now + 1 - (following + interval) < now + 1 - following" using assms by linarith
    from less [OF this] obtain k where k:
      "skip_missed interval now (following + interval) = Some (following + interval + k * interval)"
      "now < following + interval + k * interval" "k = 0 \<or> following + interval + (k - 1) * interval \<le> now"
      by blast
    have "skip_missed interval now following = Some (following + Suc k * interval)"
      using True k(1) by (subst skip_missed.simps) (simp add: ac_simps)
    moreover have "now < following + Suc k * interval" using k(2) by (simp add: ac_simps)
    moreover have "following + (Suc k - 1) * interval \<le> now"
      using k(3) True by (cases k) (simp_all add: ac_simps)
    ultimately show ?thesis by blast
  next
    case False
    then show ?thesis by (intro exI [of _ 0]) (subst skip_missed.simps, simp)
  qed
qed

text \<open>The tick interval: 24 ticks per beat, exact up to the nanosecond it is rounded down to.\<close>

lemma tick_interval_exact:
  assumes "20000 \<le> bpm" "bpm \<le> 300000"
  shows "\<exists>i. midi_clock_tick_interval bpm = Some i \<and> 0 < i
     \<and> i * (24 * unat bpm) \<le> 60000000000000 \<and> 60000000000000 < (i + 1) * (24 * unat bpm)"
proof -
  let ?d = "unat bpm * 24"
  have lo: "20000 \<le> unat bpm" and hi: "unat bpm \<le> 300000" using assms by (simp_all add: word_le_nat_alt)
  then have "bpm \<noteq> 0" by auto
  let ?q = "60000000000000 div ?d"
  have one: "1 \<le> ?q" using hi lo by (simp add: div_greater_zero_iff Suc_le_eq)
  have below: "?q * ?d \<le> 60000000000000" by (rule div_times_less_eq_dividend)
  have less: "n < (n div d + 1) * d" if "0 < d" for n d :: nat
    using dividend_less_div_times [OF that, of n] by simp
  have "0 < ?d" using lo by simp
  then have above: "60000000000000 < (?q + 1) * ?d" by (rule less)
  have "midi_clock_tick_interval bpm = Some ?q"
    unfolding midi_clock_tick_interval_def using one \<open>bpm \<noteq> 0\<close> by (simp only: max_absorb1 if_False)
  then show ?thesis
    using one below above by (intro exI [of _ ?q]) (simp only: mult.commute [of 24] less_eq_Suc_le One_nat_def simp_thms)
qed

section \<open>The invariant\<close>

definition sync_ok :: "MidiClockSync \<Rightarrow> bool" where
  "sync_ok sync \<longleftrightarrow> 20000 \<le> sync_bpm_milli sync \<and> sync_bpm_milli sync \<le> 300000 \<and> sync_song_position_16th sync < 16384"

definition clock_worker_ok :: "'p ClockWorker \<Rightarrow> bool" where
  "clock_worker_ok w \<longleftrightarrow> 0 < ck_tick_interval w \<and> (ck_playing w \<longrightarrow> ck_published w)
     \<and> (ck_playing w \<longleftrightarrow> ck_next_tick w \<noteq> None)"

definition clock_ok :: "'p MidiClockController \<Rightarrow> bool" where
  "clock_ok c \<longleftrightarrow> clock_worker_ok (cc_worker c) \<and> length (cc_commands c) \<le> CLOCK_CHANNEL_CAPACITY
     \<and> (\<forall>sync. ClkSynchronize sync \<in> set (cc_commands c) \<longrightarrow> sync_ok sync)"

lemma sync_decision_ok: "sync_decision l sync = Inr (sync1, send) \<Longrightarrow> sync_ok sync1"
  by (auto simp: sync_decision_def sync_ok_def Let_def split: if_splits)

lemmas clock_arm_defs = clock_publish_arm_def clock_stop_arm_def pause_clock_def report_running_def
  clock_shutdown_def quiet_stop_def update_clock_status_def increment_transport_count_def

lemma sync_arm_returns: "sync_ok sync \<Longrightarrow> \<exists>w'. clock_sync_arm io now sync w = Some w'"
  using tick_interval_exact [of "sync_bpm_milli sync"]
  by (auto simp: clock_sync_arm_def Let_def sync_ok_def split: option.splits)

lemma interval_pos: "midi_clock_tick_interval bpm = Some i \<Longrightarrow> 0 < i"
  by (auto simp: midi_clock_tick_interval_def split: if_splits)

lemma sync_arm_ok: "clock_worker_ok w \<Longrightarrow> clock_sync_arm io now sync w = Some w' \<Longrightarrow> clock_worker_ok w'"
  by (auto simp: clock_sync_arm_def clock_worker_ok_def Let_def clock_arm_defs interval_pos
      split: if_splits option.splits prod.splits sum.splits)

lemma timeout_arm_ok:
  "clock_worker_ok w \<Longrightarrow> ck_playing w \<Longrightarrow>
   \<exists>w'. clock_timeout_arm io now w = Some w' \<and> clock_worker_ok w'"
  using skip_missed_returns [of "ck_tick_interval w" now]
  by (fastforce simp: clock_timeout_arm_def clock_worker_ok_def Let_def clock_arm_defs split: prod.split sum.split)

lemma receive_returns:
  assumes "clock_worker_ok (cc_worker c)" "\<And>sync. command = ClkSynchronize sync \<Longrightarrow> sync_ok sync"
  shows "\<exists>c'. clock_receive io now command c = Inr c' \<and> clock_worker_ok (cc_worker c') \<and> cc_commands c' = cc_commands c"
proof (cases command)
  case (ClkSynchronize sync)
  then obtain w where "clock_sync_arm io now sync (cc_worker c) = Some w"
    using sync_arm_returns assms(2) by blast
  with ClkSynchronize sync_arm_ok assms(1) show ?thesis by fastforce
qed (use assms(1) in \<open>auto simp: clock_worker_ok_def clock_arm_defs Let_def split: prod.split sum.split\<close>)

lemma clock_step_ok: "clock_ok c \<Longrightarrow> clock_step io c ev = Inr (c', out) \<Longrightarrow> clock_ok c'"
proof (cases ev)
  case (ClockReceive now)
  assume ok: "clock_ok c" and step: "clock_step io c ev = Inr (c', out)"
  from step ClockReceive obtain command rest where q: "cc_commands c = command # rest"
    and r: "clock_receive io now command (c\<lparr>cc_commands := rest\<rparr>) = Inr c'"
    by (auto simp: result_simps split: list.splits if_splits)
  then show ?thesis
    using ok receive_returns [of "c\<lparr>cc_commands := rest\<rparr>" command io now] by (auto simp: clock_ok_def)
next
  case (ClockElapse now)
  assume ok: "clock_ok c" and step: "clock_step io c ev = Inr (c', out)"
  with ClockElapse timeout_arm_ok [of "cc_worker c" io now] show ?thesis
    by (auto simp: clock_ok_def clock_deadline_def split: option.splits if_splits)
qed (auto simp: clock_ok_def synchronize_def clock_worker_ok_def clock_shutdown_def quiet_stop_def Let_def
      split: if_splits sum.splits prod.splits dest: sync_decision_ok)

lemma new_clock_ok: "clock_ok (new_clock p)"
  by (simp add: clock_ok_def new_clock_def clock_worker_ok_def new_clock_worker_def)

interpretation clock_machine: event_machine "clock_step io" clock_ok "\<lambda>_. True" "new_clock p" for io p
  by unfold_locales (auto intro: clock_step_ok new_clock_ok)

text \<open>
  The clock worker neither panics nor hangs: from a new controller, over any sequence of
  client calls, receptions and timeouts, a queued command is always handled, and a tick that is
  due is always sent and followed by the choice of the next.
\<close>

theorem clock_never_stuck:
  "case fst (run_machine (clock_step io) (new_clock p) events) of c \<Rightarrow>
     (\<forall>ev. clock_step io c ev \<noteq> Inl ClockPanics \<and> clock_step io c ev \<noteq> Inl ClockHangs)"
proof -
  let ?c = "fst (run_machine (clock_step io) (new_clock p) events)"
  have ok: "clock_ok ?c" by (rule clock_machine.inv_run) (simp add: list_all_iff)
  have "clock_step io ?c ev \<noteq> Inl ClockPanics \<and> clock_step io ?c ev \<noteq> Inl ClockHangs" for ev
  proof (cases ev)
    case (ClockReceive now)
    show ?thesis
    proof (cases "cc_commands ?c")
      case (Cons command rest)
      with ok ClockReceive receive_returns [of "?c\<lparr>cc_commands := rest\<rparr>" command io now] show ?thesis
        by (auto simp: clock_ok_def)
    qed (simp add: ClockReceive)
  next
    case (ClockElapse now)
    with ok timeout_arm_ok [of "cc_worker ?c" io now] show ?thesis
      by (auto simp: clock_ok_def clock_deadline_def split: option.splits if_splits)
  qed (simp_all add: case_prod_beta)
  then show ?thesis by simp
qed

section \<open>The grid of a running clock\<close>

text \<open>
  The specification of a running clock. A tick lasts one 24th of a beat, in whole nanoseconds. A
  start or a jump that the source accepted anchors the grid; from then on the deadlines go forward
  by whole ticks of the tempo that is in force, which the anchors the worker takes change in turn.
\<close>

definition tick_nanos :: "u32 \<Rightarrow> nat" where
  "tick_nanos bpm_milli = 60000000000000 div (24 * unat bpm_milli)"

definition starts_clock :: "'p MidiSourceProvider \<Rightarrow> MidiClockSync \<Rightarrow> 'p MidiClockController \<Rightarrow> bool" where
  "starts_clock io sync c \<longleftrightarrow> (\<exists>rest messages p. cc_commands c = ClkSynchronize sync # rest
     \<and> ck_running (cc_worker c) \<and> ck_published (cc_worker c) \<and> sync_playing sync \<and> (\<not> ck_playing (cc_worker c) \<or> sync_rephase sync)
     \<and> transport_messages sync = Some messages \<and> prov_send io messages (ck_provider (cc_worker c)) = (p, Inr ()))"

definition tempo_taken :: "'p MidiClockController \<Rightarrow> ClockEvent \<Rightarrow> u32 list" where
  "tempo_taken c ev =
     (case ev of
        ClockReceive _ \<Rightarrow>
          (case cc_commands c of
             ClkSynchronize sync # _ \<Rightarrow> if ck_running (cc_worker c) then [sync_bpm_milli sync] else []
           | _ \<Rightarrow> [])
      | _ \<Rightarrow> [])"

text \<open>The tempos that the worker takes during a run.\<close>

fun tempos_taken :: "'p MidiSourceProvider \<Rightarrow> 'p MidiClockController \<Rightarrow> ClockEvent list \<Rightarrow> u32 list" where
  "tempos_taken io c [] = []"
| "tempos_taken io c (ev # evs) = tempo_taken c ev @ tempos_taken io (fst (run_machine (clock_step io) c [ev])) evs"

text \<open>No start or jump is accepted during a run.\<close>

definition is_start :: "'p MidiSourceProvider \<Rightarrow> 'p MidiClockController \<Rightarrow> ClockEvent \<Rightarrow> bool" where
  "is_start io c ev \<longleftrightarrow> (\<exists>now sync. ev = ClockReceive now \<and> starts_clock io sync c)"

fun no_start :: "'p MidiSourceProvider \<Rightarrow> 'p MidiClockController \<Rightarrow> ClockEvent list \<Rightarrow> bool" where
  "no_start io c [] \<longleftrightarrow> True"
| "no_start io c (ev # evs) \<longleftrightarrow> \<not> is_start io c ev \<and> no_start io (fst (run_machine (clock_step io) c [ev])) evs"

text \<open>The instants that are reached from an anchor by whole ticks of these lengths, in this order.\<close>

fun grid_point :: "Instant \<Rightarrow> nat list \<Rightarrow> Instant \<Rightarrow> bool" where
  "grid_point t [] d \<longleftrightarrow> d = t"
| "grid_point t (tick # ticks) d \<longleftrightarrow> (\<exists>k. grid_point (t + k * tick) ticks d)"

lemma grid_point_start: "grid_point t [tick] t"
  by (auto intro: exI [of _ 0])

lemma grid_point_snoc: "grid_point t (ticks @ [tick]) d \<longleftrightarrow> (\<exists>e k. grid_point t ticks e \<and> d = e + k * tick)"
  by (induction ticks arbitrary: t) auto

lemma grid_point_same: "grid_point t ticks d \<Longrightarrow> grid_point t (ticks @ [tick]) d"
  unfolding grid_point_snoc by (intro exI [of _ d] exI [of _ 0]) simp

lemma grid_point_forward:
  assumes "grid_point t ticks d" "ticks \<noteq> []"
  shows "grid_point t ticks (d + k * last ticks)"
proof -
  obtain front where ticks: "ticks = front @ [last ticks]" using assms(2) append_butlast_last_id by metis
  with assms(1) obtain e j where "grid_point t front e" "d = e + j * last ticks"
    by (metis grid_point_snoc)
  then have "grid_point t (front @ [last ticks]) (d + k * last ticks)"
    unfolding grid_point_snoc by (intro exI [of _ e] exI [of _ "j + k"]) (simp add: algebra_simps)
  with ticks show ?thesis by simp
qed

lemma run_machine_Cons:
  "fst (run_machine step s (ev # evs)) = fst (run_machine step (fst (run_machine step s [ev])) evs)"
  by (auto split: sum.split prod.split)

lemma run_machine_append:
  "fst (run_machine step s (xs @ ys)) = fst (run_machine step (fst (run_machine step s xs)) ys)"
proof (induction xs arbitrary: s)
  case (Cons x xs)
  show ?case by (simp only: append_Cons run_machine_Cons [of step s x "xs @ ys"] run_machine_Cons [of step s x xs] Cons.IH)
qed simp

lemma tempos_taken_snoc:
  "tempos_taken io c (evs @ [ev]) = tempos_taken io c evs @ tempo_taken (fst (run_machine (clock_step io) c evs)) ev"
proof (induction evs arbitrary: c)
  case (Cons e evs)
  show ?case by (simp only: append_Cons tempos_taken.simps Cons.IH run_machine_Cons [of "clock_step io" c e evs] append_assoc)
qed simp

lemma no_start_snoc:
  "no_start io c (evs @ [ev]) \<longleftrightarrow> no_start io c evs \<and> \<not> is_start io (fst (run_machine (clock_step io) c evs)) ev"
proof (induction evs arbitrary: c)
  case (Cons e evs)
  show ?case by (simp only: append_Cons no_start.simps Cons.IH run_machine_Cons [of "clock_step io" c e evs] conj_assoc)
qed simp

lemma tick_interval_nanos:
  assumes "20000 \<le> bpm" "bpm \<le> 300000"
  shows "midi_clock_tick_interval bpm = Some (tick_nanos bpm)"
proof -
  have bounds: "20000 \<le> unat bpm" "unat bpm \<le> 300000" using assms by (simp_all add: word_le_nat_alt)
  then have "0 < 2500000000000 div unat bpm" "bpm \<noteq> 0" by (auto simp: div_greater_zero_iff)
  then show ?thesis by (simp add: midi_clock_tick_interval_def tick_nanos_def)
qed

text \<open>What a step does to the deadline of a clock that ticks after it.\<close>

lemma starts_clock_step:
  assumes "clock_ok c" "starts_clock io sync c"
  shows "\<exists>c' out. clock_step io c (ClockReceive now) = Inr (c', out)
     \<and> clock_deadline (cc_worker c') = Some (now + sync_delay_to_next_tick sync)
     \<and> ck_tick_interval (cc_worker c') = tick_nanos (sync_bpm_milli sync)"
proof -
  from assms have "sync_ok sync" by (auto simp: starts_clock_def clock_ok_def)
  then have "midi_clock_tick_interval (sync_bpm_milli sync) = Some (tick_nanos (sync_bpm_milli sync))"
    by (auto simp: sync_ok_def intro: tick_interval_nanos)
  with assms show ?thesis
    by (auto simp: starts_clock_def clock_sync_arm_def Let_def clock_arm_defs clock_deadline_def)
qed

lemma timeout_next:
  assumes "clock_worker_ok w" "clock_deadline w = Some deadline" "deadline \<le> now"
    and "clock_timeout_arm io now w = Some w'" "ck_playing w'"
  shows "\<exists>k. clock_deadline w' = Some (deadline + k * ck_tick_interval w) \<and> 1 \<le> k
     \<and> now < deadline + k * ck_tick_interval w \<and> (k = 1 \<or> deadline + (k - 1) * ck_tick_interval w \<le> now)
     \<and> ck_tick_interval w' = ck_tick_interval w"
proof -
  let ?i = "ck_tick_interval w"
  from assms(2) have next_tick: "ck_next_tick w = Some deadline" and on: "ck_published w" "ck_playing w"
    by (auto simp: clock_deadline_def split: if_splits)
  have "0 < ?i" using assms(1) by (simp add: clock_worker_ok_def)
  from skip_missed_returns [OF this, of now "deadline + ?i"] obtain j where j:
    "skip_missed ?i now (deadline + ?i) = Some (deadline + ?i + j * ?i)"
    "now < deadline + ?i + j * ?i" "j = 0 \<or> deadline + ?i + (j - 1) * ?i \<le> now"
    by blast
  have "Suc j = 1 \<or> deadline + (Suc j - 1) * ?i \<le> now" using j(3) by (cases j) (simp_all add: ac_simps)
  moreover have "clock_deadline w' = Some (deadline + Suc j * ?i) \<and> ck_tick_interval w' = ?i"
    using assms(4,5) next_tick on j(1)
    by (auto simp: clock_timeout_arm_def Let_def update_clock_status_def clock_deadline_def ac_simps
        split: prod.splits sum.splits)
  ultimately show ?thesis using j(2) by (intro exI [of _ "Suc j"]) (simp add: ac_simps)
qed

lemma sync_arm_ticking:
  assumes "clock_worker_ok w" "sync_ok sync" "clock_sync_arm io now sync w = Some w'" "clock_deadline w' = Some d'"
    and "\<not> (ck_published w \<and> sync_playing sync \<and> (\<not> ck_playing w \<or> sync_rephase sync)
      \<and> (\<exists>messages p. transport_messages sync = Some messages \<and> prov_send io messages (ck_provider w) = (p, Inr ())))"
  shows "clock_deadline w = Some d' \<and> ck_tick_interval w' = tick_nanos (sync_bpm_milli sync)"
proof -
  have i: "midi_clock_tick_interval (sync_bpm_milli sync) = Some (tick_nanos (sync_bpm_milli sync))"
    using assms(2) by (auto simp: sync_ok_def intro: tick_interval_nanos)
  have "transport_messages sync \<noteq> None"
    using assms(2) by (auto simp: transport_messages_def song_position_def sync_ok_def not_le)
  with assms i show ?thesis
    by (auto simp: clock_sync_arm_def Let_def clock_arm_defs clock_deadline_def clock_worker_ok_def
        split: if_splits option.splits prod.splits sum.splits)
qed

lemma step_ticking:
  assumes "clock_ok c" "clock_step io c ev = Inr (c', out)" "clock_deadline (cc_worker c') = Some d'"
    and "\<not> is_start io c ev"
  shows "\<exists>d. clock_deadline (cc_worker c) = Some d
     \<and> (tempo_taken c ev = [] \<and> (\<exists>k. d' = d + k * ck_tick_interval (cc_worker c))
          \<and> ck_tick_interval (cc_worker c') = ck_tick_interval (cc_worker c)
        \<or> (\<exists>bpm. tempo_taken c ev = [bpm] \<and> d' = d \<and> ck_tick_interval (cc_worker c') = tick_nanos bpm))"
proof (cases ev)
  case (ClockReceive now)
  with assms(2) obtain command rest where q: "cc_commands c = command # rest" "ck_running (cc_worker c)"
    and r: "clock_receive io now command (c\<lparr>cc_commands := rest\<rparr>) = Inr c'"
    by (auto simp: result_simps split: list.splits if_splits)
  show ?thesis
  proof (cases command)
    case (ClkSynchronize sync)
    with r obtain w' where w': "clock_sync_arm io now sync (cc_worker c) = Some w'" "cc_worker c' = w'"
      by (auto split: option.splits)
    have "sync_ok sync" "clock_worker_ok (cc_worker c)" using assms(1) q ClkSynchronize by (auto simp: clock_ok_def)
    with sync_arm_ticking [of "cc_worker c" sync io now w' d'] w' assms(3,4) q ClkSynchronize ClockReceive show ?thesis
      by (fastforce simp: is_start_def starts_clock_def tempo_taken_def)
  qed (use r q ClockReceive assms(1,3) in \<open>auto simp: tempo_taken_def clock_deadline_def clock_ok_def clock_worker_ok_def clock_arm_defs Let_def
        intro: exI [of _ 0] split: prod.splits sum.splits if_splits\<close>)
next
  case (ClockElapse now)
  with assms(2) obtain d where d: "clock_deadline (cc_worker c) = Some d" "d \<le> now"
    "clock_timeout_arm io now (cc_worker c) = Some (cc_worker c')"
    by (auto split: option.splits if_splits)
  moreover have "ck_playing (cc_worker c')" using assms(3) by (auto simp: clock_deadline_def split: if_splits)
  moreover have "clock_worker_ok (cc_worker c)" using assms(1) by (simp add: clock_ok_def)
  ultimately show ?thesis
    using timeout_next [of "cc_worker c" d now io "cc_worker c'"] assms(3) ClockElapse by (auto simp: tempo_taken_def)
qed (use assms(2,3) in \<open>auto simp: tempo_taken_def synchronize_def clock_deadline_def clock_shutdown_def quiet_stop_def Let_def
      intro: exI [of _ 0] split: prod.splits sum.splits if_splits\<close>)

lemma failed_receive_takes_nothing:
  assumes "clock_ok c" "clock_step io c ev = Inl e"
  shows "tempo_taken c ev = []"
proof (cases ev)
  case (ClockReceive now)
  show ?thesis
  proof (cases "cc_commands c")
    case (Cons command rest)
    with assms(1) receive_returns [of "c\<lparr>cc_commands := rest\<rparr>" command io now] assms(2) ClockReceive show ?thesis
      by (auto simp: clock_ok_def tempo_taken_def split: if_splits ClockWorkerCommand.splits)
  qed (simp add: tempo_taken_def ClockReceive)
qed (simp_all add: tempo_taken_def)

text \<open>Where the deadline of a clock that ticks comes from.\<close>

definition anchored :: "'p MidiSourceProvider \<Rightarrow> 'p \<Rightarrow> ClockEvent list \<Rightarrow> Instant \<Rightarrow> Duration \<Rightarrow> bool" where
  "anchored io p events deadline interval \<longleftrightarrow>
     (\<exists>before now sync since.
        events = before @ ClockReceive now # since
      \<and> starts_clock io sync (fst (run_machine (clock_step io) (new_clock p) before))
      \<and> no_start io (fst (run_machine (clock_step io) (new_clock p) (before @ [ClockReceive now]))) since
      \<and> (let tempos = sync_bpm_milli sync
                 # tempos_taken io (fst (run_machine (clock_step io) (new_clock p) (before @ [ClockReceive now]))) since in
         grid_point (now + sync_delay_to_next_tick sync) (map tick_nanos tempos) deadline
         \<and> interval = tick_nanos (last tempos)))"

lemma anchored_snoc:
  assumes "anchored io p events d i"
    and "\<And>t ticks. grid_point t ticks d \<Longrightarrow> ticks \<noteq> [] \<Longrightarrow> last ticks = i \<Longrightarrow>
      grid_point t (ticks @ map tick_nanos (tempo_taken (fst (run_machine (clock_step io) (new_clock p) events)) ev)) d'"
    and "i' = (case tempo_taken (fst (run_machine (clock_step io) (new_clock p) events)) ev of [] \<Rightarrow> i | bpm # _ \<Rightarrow> tick_nanos bpm)"
    and "length (tempo_taken (fst (run_machine (clock_step io) (new_clock p) events)) ev) \<le> 1"
    and "\<not> is_start io (fst (run_machine (clock_step io) (new_clock p) events)) ev"
  shows "anchored io p (events @ [ev]) d' i'"
proof -
  let ?run = "\<lambda>evs. fst (run_machine (clock_step io) (new_clock p) evs)"
  from assms(1) obtain before now sync since where
    ev: "events = before @ ClockReceive now # since" and start: "starts_clock io sync (?run before)"
    and quiet: "no_start io (?run (before @ [ClockReceive now])) since"
    and grid: "grid_point (now + sync_delay_to_next_tick sync)
        (map tick_nanos (sync_bpm_milli sync # tempos_taken io (?run (before @ [ClockReceive now])) since)) d"
    and i: "i = tick_nanos (last (sync_bpm_milli sync # tempos_taken io (?run (before @ [ClockReceive now])) since))"
    unfolding anchored_def Let_def by blast
  have later: "fst (run_machine (clock_step io) (?run (before @ [ClockReceive now])) since) = ?run events"
    by (simp only: ev run_machine_append [symmetric] append_assoc append_Cons append_Nil)
  then have taken: "tempos_taken io (?run (before @ [ClockReceive now])) (since @ [ev])
      = tempos_taken io (?run (before @ [ClockReceive now])) since @ tempo_taken (?run events) ev"
    by (simp only: tempos_taken_snoc)
  show ?thesis unfolding anchored_def Let_def
  proof (intro exI conjI)
    show "events @ [ev] = before @ ClockReceive now # (since @ [ev])" by (simp add: ev)
    show "starts_clock io sync (?run before)" by (rule start)
    show "no_start io (?run (before @ [ClockReceive now])) (since @ [ev])"
      unfolding no_start_snoc later using quiet assms(5) by blast
    show "grid_point (now + sync_delay_to_next_tick sync)
        (map tick_nanos (sync_bpm_milli sync # tempos_taken io (?run (before @ [ClockReceive now])) (since @ [ev]))) d'"
      unfolding taken using assms(2) [OF grid] i by (simp add: last_map)
    show "i' = tick_nanos (last (sync_bpm_milli sync # tempos_taken io (?run (before @ [ClockReceive now])) (since @ [ev])))"
      unfolding taken using assms(3,4) i by (cases "tempo_taken (?run events) ev") auto
  qed
qed

lemma ticking_anchored:
  "clock_deadline (cc_worker (fst (run_machine (clock_step io) (new_clock p) events))) = Some d \<Longrightarrow>
   anchored io p events d (ck_tick_interval (cc_worker (fst (run_machine (clock_step io) (new_clock p) events))))"
proof (induction events arbitrary: d rule: rev_induct)
  case Nil
  then show ?case by (simp add: new_clock_def new_clock_worker_def clock_deadline_def)
next
  case (snoc ev events)
  define c where "c = fst (run_machine (clock_step io) (new_clock p) events)"
  define c' where "c' = fst (run_machine (clock_step io) (new_clock p) (events @ [ev]))"
  have ok: "clock_ok c" unfolding c_def by (rule clock_machine.inv_run) (simp add: list_all_iff)
  have run: "c' = (case clock_step io c ev of Inl _ \<Rightarrow> c | Inr (s, _) \<Rightarrow> s)"
    by (simp add: c'_def c_def run_machine_append split: sum.split prod.split)
  have IH: "clock_deadline (cc_worker c) = Some e \<Longrightarrow> anchored io p events e (ck_tick_interval (cc_worker c))" for e
    using snoc.IH by (simp add: c_def)
  have on: "clock_deadline (cc_worker c') = Some d" using snoc.prems by (simp add: c'_def)
  note extend = anchored_snoc [of io p events _ _ ev, folded c_def]
  have "anchored io p (events @ [ev]) d (ck_tick_interval (cc_worker c'))"
  proof (cases "clock_step io c ev")
    case (Inl e)
    have "\<not> is_start io c ev"
    proof
      assume "is_start io c ev"
      then obtain now sync where "ev = ClockReceive now" "starts_clock io sync c" by (auto simp: is_start_def)
      with Inl starts_clock_step [OF ok, of io sync now] show False by (simp add: is_start_def)
    qed
    with Inl on run failed_receive_takes_nothing [OF ok Inl] show ?thesis by (intro extend [OF IH]) auto
  next
    case (Inr r)
    then obtain out where step: "clock_step io c ev = Inr (c', out)" using run by (cases r) simp
    show ?thesis
    proof (cases "is_start io c ev")
      case True
      then obtain now sync where ev: "ev = ClockReceive now" and start: "starts_clock io sync c" by (auto simp: is_start_def)
      with starts_clock_step [OF ok start, of now] step on
      have "d = now + sync_delay_to_next_tick sync" "ck_tick_interval (cc_worker c') = tick_nanos (sync_bpm_milli sync)"
        by auto
      with start ev show ?thesis unfolding anchored_def Let_def c_def
        by (intro exI [of _ events] exI [of _ now] exI [of _ sync] exI [of _ "[]"]) (auto intro: exI [of _ 0])
    next
      case False
      from step_ticking [OF ok step on False] obtain e where e: "clock_deadline (cc_worker c) = Some e"
        and next_tick: "tempo_taken c ev = [] \<and> (\<exists>k. d = e + k * ck_tick_interval (cc_worker c))
            \<and> ck_tick_interval (cc_worker c') = ck_tick_interval (cc_worker c)
          \<or> (\<exists>bpm. tempo_taken c ev = [bpm] \<and> d = e \<and> ck_tick_interval (cc_worker c') = tick_nanos bpm)" by blast
      from next_tick False show ?thesis
        by (intro extend [OF IH [OF e]]) (auto intro: grid_point_same dest: grid_point_forward)
    qed
  qed
  then show ?case by (simp add: c'_def)
qed

lemma timeout_sends:
  assumes "clock_worker_ok w" "ck_playing w" "prov_send io [midi_clock] (ck_provider w) = (p, Inr ())"
  shows "\<exists>w'. clock_timeout_arm io now w = Some w' \<and> ck_playing w' \<and> ck_provider w' = p"
  using timeout_arm_ok [OF assms(1,2), of io now] assms(2,3)
  by (auto simp: clock_timeout_arm_def Let_def update_clock_status_def)

text \<open>
  C29. Ticks stay on the grid of their tempo. In any run from a new controller, the deadline of a
  clock that ticks is reached from an anchor, the moment the last accepted start or jump of the run
  was taken plus its delay, by whole ticks: of the tempo of that start, then of each tempo that the
  worker took since, in this order; a tick lasts a 24th of a beat in whole nanoseconds. With no
  change of tempo it is a whole number of ticks after the anchor, so lateness never accumulates. And
  a tick that is sent at or after its deadline is followed by the first instant of the grid of the
  current tempo through that deadline which is still to come: missed ticks are skipped, never sent in a burst.
\<close>

theorem ticks_stay_on_grid:
  assumes "c = fst (run_machine (clock_step io) (new_clock p) events)"
    and "clock_deadline (cc_worker c) = Some deadline" and "tick = ck_tick_interval (cc_worker c)"
  shows "anchored io p events deadline tick
     \<and> (\<forall>now q. deadline \<le> now \<and> ck_running (cc_worker c)
            \<and> prov_send io [midi_clock] (ck_provider (cc_worker c)) = (q, Inr ()) \<longrightarrow>
          (\<exists>c' k. clock_step io c (ClockElapse now) = Inr (c', None) \<and> ck_provider (cc_worker c') = q
             \<and> clock_deadline (cc_worker c') = Some (deadline + k * tick) \<and> 1 \<le> k
             \<and> now < deadline + k * tick \<and> (k = 1 \<or> deadline + (k - 1) * tick \<le> now)))"
proof (intro conjI allI impI)
  show "anchored io p events deadline tick"
    unfolding assms(1,3) by (rule ticking_anchored) (use assms(1,2) in simp)
next
  fix now q
  assume here: "deadline \<le> now \<and> ck_running (cc_worker c) \<and> prov_send io [midi_clock] (ck_provider (cc_worker c)) = (q, Inr ())"
  have "clock_ok c" unfolding assms(1) by (rule clock_machine.inv_run) (simp add: list_all_iff)
  then have ok: "clock_worker_ok (cc_worker c)" by (simp add: clock_ok_def)
  have "ck_playing (cc_worker c)" using assms(2) by (auto simp: clock_deadline_def split: if_splits)
  with ok here obtain w' where w': "clock_timeout_arm io now (cc_worker c) = Some w'" "ck_playing w'" "ck_provider w' = q"
    using timeout_sends [of "cc_worker c" io q now] by blast
  then show "\<exists>c' k. clock_step io c (ClockElapse now) = Inr (c', None) \<and> ck_provider (cc_worker c') = q
     \<and> clock_deadline (cc_worker c') = Some (deadline + k * tick) \<and> 1 \<le> k
     \<and> now < deadline + k * tick \<and> (k = 1 \<or> deadline + (k - 1) * tick \<le> now)"
    using timeout_next [OF ok assms(2) _ w'(1,2)] here assms(2,3)
    by (intro exI [of _ "c\<lparr>cc_worker := w'\<rparr>"]) auto
qed

section \<open>What the provider of the clock sees\<close>

datatype ClockView = Unpublished | Silent | Ticking | TickFailed

fun is_transport :: "MidiMessage list \<Rightarrow> bool" where
  "is_transport [m] = (m = midi_start)"
| "is_transport [m, c] = (fst (msg_bytes m) = 0xf2 \<and> c = midi_continue_playback)"
| "is_transport _ = False"

fun clock_view_step :: "ClockView option \<Rightarrow> ProviderCall \<Rightarrow> ClockView option" where
  "clock_view_step None _ = None"
| "clock_view_step (Some _) CalledStop = Some Unpublished"
| "clock_view_step (Some TickFailed) _ = None"
| "clock_view_step (Some v) (CalledPublish name success) =
     (if v = Unpublished \<and> name = MIDI_CLOCK_SOURCE_NAME then Some (if success then Silent else Unpublished) else None)"
| "clock_view_step (Some v) (Slept _) = Some v"
| "clock_view_step (Some v) (CalledSend ms success) =
     (if v = Unpublished then None
      else if is_transport ms then Some (if success then Ticking else Silent)
      else if v \<noteq> Ticking then None
      else if ms = [midi_stop] then Some Silent
      else if ms = [midi_clock] then Some (if success then Ticking else TickFailed)
      else None)"

definition clock_view :: "ProviderCall list \<Rightarrow> ClockView option" where
  "clock_view calls = foldl clock_view_step (Some Unpublished) calls"

lemma clock_view_snoc [simp]:
  "clock_view (calls @ [c]) = clock_view_step (clock_view calls) c"
  "clock_view (calls @ [c, d]) = clock_view_step (clock_view_step (clock_view calls) c) d"
  by (simp_all add: clock_view_def)

definition clock_protocol :: "('p \<times> ProviderCall list) ClockWorker \<Rightarrow> bool" where
  "clock_protocol w \<longleftrightarrow> clock_view (snd (ck_provider w)) =
     Some (if \<not> ck_running w \<or> \<not> ck_published w then Unpublished else if ck_playing w then Ticking else Silent)"

lemma realtime_distinct:
  "midi_stop \<noteq> midi_start" "midi_clock \<noteq> midi_start" "midi_clock \<noteq> midi_stop"
  by (simp_all add: midi_stop_def midi_start_def midi_clock_def system_realtime_def)

lemma transport_is_transport: "transport_messages sync = Some ms \<Longrightarrow> is_transport ms"
  by (auto simp: transport_messages_def song_position_def split: if_splits)

lemmas protocol_simps = clock_protocol_def clock_worker_ok_def clock_arm_defs Let_def realtime_distinct

lemma clock_protocol_publish:
  "clock_protocol w \<Longrightarrow> ck_running w \<Longrightarrow> clock_worker_ok w \<Longrightarrow> clock_protocol (fst (clock_publish_arm (traced io) w))"
  by (cases "ck_provider w") (auto simp: protocol_simps split: prod.split sum.split if_splits)

lemma clock_protocol_stop:
  "clock_protocol w \<Longrightarrow> ck_running w \<Longrightarrow> clock_worker_ok w \<Longrightarrow> clock_protocol (clock_stop_arm (traced io) w)"
  by (cases "ck_provider w") (auto simp: protocol_simps split: prod.split if_splits)

lemma clock_protocol_shutdown:
  "clock_protocol w \<Longrightarrow> ck_running w \<Longrightarrow> clock_worker_ok w \<Longrightarrow> clock_protocol (clock_shutdown (traced io) w)"
  by (cases "ck_provider w") (auto simp: protocol_simps split: prod.split if_splits)

lemma clock_protocol_pause:
  "clock_protocol w \<Longrightarrow> ck_running w \<Longrightarrow> clock_worker_ok w \<Longrightarrow> ck_published w \<Longrightarrow>
   clock_protocol (pause_clock (traced io) sync w)"
  by (cases "ck_provider w") (auto simp: protocol_simps split: prod.split sum.split if_splits)

lemma clock_protocol_sync:
  assumes "clock_protocol w" "ck_running w" "clock_worker_ok w" "clock_sync_arm (traced io) now sync w = Some w'"
  shows "clock_protocol w'"
proof (cases "ck_published w \<and> sync_playing sync")
  case True
  with assms show ?thesis
    by (cases "ck_provider w")
       (auto simp: clock_sync_arm_def protocol_simps dest: transport_is_transport
         split: option.splits prod.splits sum.splits if_splits)
next
  case False
  have upd: "clock_protocol (w\<lparr>ck_tick_interval := i\<rparr>)" for i using assms(1) by (simp add: clock_protocol_def)
  have wok: "0 < i \<Longrightarrow> clock_worker_ok (w\<lparr>ck_tick_interval := i\<rparr>)" for i
    using assms(3) by (simp add: clock_worker_ok_def)
  from False assms show ?thesis
    by (auto simp: clock_sync_arm_def Let_def split: option.splits if_splits
        intro!: clock_protocol_pause upd wok interval_pos)
qed

lemma clock_protocol_timeout:
  assumes "clock_protocol w" "ck_running w" "clock_worker_ok w" "ck_playing w"
    and "clock_timeout_arm (traced io) now w = Some w'"
  shows "clock_protocol w'"
  using assms
  by (cases "ck_provider w")
     (auto simp: clock_timeout_arm_def protocol_simps split: prod.splits sum.splits if_splits)

lemma clock_step_protocol:
  assumes "clock_ok c \<and> clock_protocol (cc_worker c)" "clock_step (traced io) c ev = Inr (c', out)"
  shows "clock_ok c' \<and> clock_protocol (cc_worker c')"
proof
  show "clock_ok c'" using assms clock_step_ok by blast
  have ok: "clock_worker_ok (cc_worker c)" using assms(1) by (simp add: clock_ok_def)
  show "clock_protocol (cc_worker c')"
  proof (cases ev)
    case (ClockReceive now)
    with assms(2) obtain command rest where q: "cc_commands c = command # rest" "ck_running (cc_worker c)"
      and r: "clock_receive (traced io) now command (c\<lparr>cc_commands := rest\<rparr>) = Inr c'"
      by (auto simp: result_simps split: list.splits if_splits)
    then show ?thesis
      using assms(1) ok clock_protocol_publish [of "cc_worker c" io] clock_protocol_stop [of "cc_worker c" io]
        clock_protocol_shutdown [of "cc_worker c" io]
      by (cases command) (auto split: option.splits prod.splits intro: clock_protocol_sync)
  next
    case (ClockElapse now)
    with assms ok show ?thesis
      by (auto simp: clock_deadline_def split: option.splits if_splits intro: clock_protocol_timeout)
  qed (use assms ok in \<open>auto simp: synchronize_def clock_protocol_shutdown split: if_splits sum.splits prod.splits\<close>)
qed

lemma new_clock_protocol: "clock_ok (new_clock (p, [])) \<and> clock_protocol (cc_worker (new_clock (p, [])))"
  using new_clock_ok by (simp add: clock_protocol_def new_clock_def new_clock_worker_def clock_view_def)

interpretation clock_source: event_machine "clock_step (traced io)" "\<lambda>c. clock_ok c \<and> clock_protocol (cc_worker c)"
  "\<lambda>_. True" "new_clock (p, [])" for io p
proof unfold_locales
  fix c ev c' out
  assume "clock_ok c \<and> clock_protocol (cc_worker c)" "clock_step (traced io) c ev = Inr (c', out)"
  then show "clock_ok c' \<and> clock_protocol (cc_worker c')" by (rule clock_step_protocol)
qed (rule new_clock_protocol)

text \<open>
  Whatever the provider does, the calls it sees follow the protocol of a MIDI clock: the
  source is published once before anything is sent, ticks come only after a start or a
  continue and before the stop, and after a tick that failed the next call stops the source.
\<close>

theorem clock_protocol_holds:
  "case cc_worker (fst (run_machine (clock_step (traced io)) (new_clock (p, [])) events)) of w \<Rightarrow>
     clock_view (snd (ck_provider w)) =
       Some (if ck_running w \<and> ck_published w then if ck_playing w then Ticking else Silent else Unpublished)"
  using clock_source.inv_run [of events io p] by (auto simp: clock_protocol_def list_all_iff)

section \<open>What the status says\<close>

text \<open>
  The status is not always the state of the worker: when a jump cannot be sent, the worker stops
  ticking, but the status keeps saying that the clock runs; and publishing a running clock again
  says that it is only ready.
\<close>

theorem failed_jump_reports_running:
  assumes "ck_published w" "sync_ok sync" "sync_playing sync" "sync_rephase sync"
    and "cs_state (ck_status w) = ClockRunning" "transport_messages sync = Some messages"
    and "prov_send io messages (ck_provider w) = (p, Inl error)"
  shows "\<exists>w'. clock_sync_arm io now sync w = Some w' \<and> \<not> ck_playing w' \<and> clock_deadline w' = None
     \<and> cs_state (ck_status w') = ClockRunning"
proof -
  obtain w' where w: "clock_sync_arm io now sync w = Some w'" using sync_arm_returns [OF assms(2)] by blast
  with assms show ?thesis
    by (auto simp: clock_sync_arm_def Let_def update_clock_status_def clock_deadline_def split: option.splits)
qed

theorem published_again_reports_ready:
  "ck_published w \<Longrightarrow> clock_publish_arm io w = (w', r) \<Longrightarrow>
   clock_deadline w' = clock_deadline w \<and> cs_state (ck_status w') = ClockReady"
  by (auto simp: clock_publish_arm_def update_clock_status_def clock_deadline_def Let_def)

section \<open>Witnesses\<close>

definition quiet_io :: "unit MidiSourceProvider" where
  "quiet_io = \<lparr>prov_publish = (\<lambda>_ p. (p, Inr ())), prov_stop = (\<lambda>p. p), prov_send = (\<lambda>_ p. (p, Inr ())),
     prov_sleep = (\<lambda>_ p. p)\<rparr>"

text \<open>A clock that was published, started at 120 beats per minute and late by more than two ticks.\<close>

definition demo_sync :: MidiClockSync where
  "demo_sync = \<lparr>sync_bpm_milli = 120000, sync_playing = True, sync_song_position_16th = 0,
     sync_delay_to_next_tick = 100, sync_rephase = False\<rparr>"

definition demo_clock_events :: "ClockEvent list" where
  "demo_clock_events = [ClockClient ClkPublish, ClockReceive 0, ClockSynchronize demo_sync, ClockReceive 5]"

lemma demo_clock_run:
  "fst (run_machine (clock_step quiet_io) (new_clock ()) demo_clock_events) =
     \<lparr>cc_worker = \<lparr>ck_provider = (), ck_published = True, ck_playing = True, ck_tick_interval = 20833333,
        ck_next_tick = Some 105,
        ck_status = \<lparr>cs_state = ClockRunning, cs_source_name = MIDI_CLOCK_SOURCE_NAME, cs_bpm_milli = Some 120000,
          cs_sent_tick_count = 0, cs_sent_transport_count = 1, cs_last_event = Some (ClockRunningAt 120000 0),
          cs_last_error = None\<rparr>, ck_running = True\<rparr>,
      cc_commands = [], cc_last_sync = Some (demo_sync\<lparr>sync_rephase := True\<rparr>)\<rparr>"
  by (simp add: demo_clock_events_def demo_sync_def quiet_io_def new_clock_def new_clock_worker_def default_clock_status_def
      CLOCK_CHANNEL_CAPACITY_def clock_arm_defs synchronize_def sync_decision_def clock_sync_arm_def transport_messages_def
      midi_clock_tick_interval_def saturating_add_def result_simps Let_def)

theorem ticks_stay_on_grid_witness:
  "\<exists>c'. clock_step quiet_io (fst (run_machine (clock_step quiet_io) (new_clock ()) demo_clock_events))
       (ClockElapse 50000000) = Inr (c', None)
     \<and> clock_deadline (cc_worker c') = Some (105 + 3 * 20833333)"
proof -
  define c where "c = fst (run_machine (clock_step quiet_io) (new_clock ()) demo_clock_events)"
  note run = demo_clock_run [folded c_def]
  have at: "clock_deadline (cc_worker c) = Some 105" "20833333 = ck_tick_interval (cc_worker c)" "ck_running (cc_worker c)"
      "prov_send quiet_io [midi_clock] (ck_provider (cc_worker c)) = ((), Inr ())"
    by (simp_all add: run clock_deadline_def) (simp add: quiet_io_def)
  have "\<exists>c' k. clock_step quiet_io c (ClockElapse 50000000) = Inr (c', None) \<and> ck_provider (cc_worker c') = ()
      \<and> clock_deadline (cc_worker c') = Some (105 + k * 20833333) \<and> 1 \<le> k
      \<and> 50000000 < 105 + k * 20833333 \<and> (k = 1 \<or> 105 + (k - 1) * 20833333 \<le> (50000000 :: nat))"
    using ticks_stay_on_grid [OF c_def at(1,2), THEN conjunct2, rule_format, of 50000000 "()"] at(3,4) by simp
  then obtain c' k where c': "clock_step quiet_io c (ClockElapse 50000000) = Inr (c', None)"
      "clock_deadline (cc_worker c') = Some (105 + k * 20833333)"
    and k: "50000000 < 105 + k * 20833333" "k = 1 \<or> 105 + (k - 1) * 20833333 \<le> (50000000 :: nat)" by blast
  from k have "k = 3" by auto
  with c' show ?thesis by (auto simp: c_def)
qed

end
