(* ===== verification/Rust_Float.thy ===== *)
theory Rust_Float
  imports Complex_Main "HOL-Library.Log_Nat" Lumi_Prelude
begin

text \<open>
  The \<open>f64\<close> arithmetic that the deck source uses. A finite \<open>f64\<close> is the rational it stands for;
  each operation is the exact rational operation followed by \<open>fl\<close>, the rounding of IEEE 754 to a
  significand of 53 bits with ties to even. The numbers of the source (tempi, beats, nanoseconds)
  stay far from the limits of the exponent, so subnormal numbers and overflow are left out.
  Facts: rounding is monotone, and exact on dyadic numbers of at most 53 bits.
\<close>

section \<open>Rounding\<close>

text \<open>The nearest integer, ties to even, and \<open>f64::round\<close>, ties away from zero.\<close>

definition round_even :: "rat \<Rightarrow> int" where
  "round_even q =
     (let n = floor q; d = q - of_int n in
      if d < 1 / 2 then n else if 1 / 2 < d then n + 1 else if even n then n else n + 1)"

definition round_away :: "rat \<Rightarrow> rat" where
  "round_away q = (if q < 0 then - of_int (floor (- q + 1 / 2)) else of_int (floor (q + 1 / 2)))"

text \<open>The exponent of the binade of a positive number: the \<open>e\<close> with \<open>2\<^sup>e \<le> q < 2\<^sup>e\<^sup>+\<^sup>1\<close>.\<close>

definition binade :: "rat \<Rightarrow> int" where
  "binade q =
     (case quotient_of q of
        (a, b) \<Rightarrow> let e = int (floorlog 2 (nat a)) - int (floorlog 2 (nat b)) in
                   if 2 powi e \<le> q then e else e - 1)"

definition fl_pos :: "rat \<Rightarrow> rat" where
  "fl_pos q = (let ulp = 2 powi (binade q - 52) in of_int (round_even (q / ulp)) * ulp)"

definition fl :: "rat \<Rightarrow> rat" where
  "fl q = (if q = 0 then 0 else if q < 0 then - fl_pos (- q) else fl_pos q)"

section \<open>Operations\<close>

type_synonym f64 = rat

definition f64_add :: "f64 \<Rightarrow> f64 \<Rightarrow> f64" where
  "f64_add a b = fl (a + b)"

definition f64_mul :: "f64 \<Rightarrow> f64 \<Rightarrow> f64" where
  "f64_mul a b = fl (a * b)"

definition f64_div :: "f64 \<Rightarrow> f64 \<Rightarrow> f64" where
  "f64_div a b = fl (a / b)"

text \<open>\<open>f64::from\<close> and \<open>as f64\<close> on unsigned integers.\<close>

definition f64_of_word :: "'a::len word \<Rightarrow> f64" where
  "f64_of_word w = fl (of_nat (unat w))"

section \<open>Laws\<close>

lemma round_even_bounds: "q - 1 / 2 \<le> of_int (round_even q) \<and> of_int (round_even q) \<le> q + 1 / 2"
proof -
  have n: "of_int \<lfloor>q\<rfloor> \<le> q" "q < of_int \<lfloor>q\<rfloor> + 1" by linarith+
  have "round_even q = \<lfloor>q\<rfloor> \<and> q - of_int \<lfloor>q\<rfloor> \<le> 1 / 2 \<or> round_even q = \<lfloor>q\<rfloor> + 1 \<and> 1 / 2 \<le> q - of_int \<lfloor>q\<rfloor>"
    by (auto simp: round_even_def Let_def)
  then show ?thesis
  proof
    assume "round_even q = \<lfloor>q\<rfloor> \<and> q - of_int \<lfloor>q\<rfloor> \<le> 1 / 2"
    then have "of_int (round_even q) = (of_int \<lfloor>q\<rfloor> :: rat)" "q - of_int \<lfloor>q\<rfloor> \<le> 1 / 2" by simp_all
    with n show ?thesis by linarith
  next
    assume "round_even q = \<lfloor>q\<rfloor> + 1 \<and> 1 / 2 \<le> q - of_int \<lfloor>q\<rfloor>"
    then have "of_int (round_even q) = (of_int \<lfloor>q\<rfloor> + 1 :: rat)" "1 / 2 \<le> q - of_int \<lfloor>q\<rfloor>" by simp_all
    with n show ?thesis by linarith
  qed
qed

lemma round_even_of_int [simp]: "round_even (of_int n) = n"
  by (simp add: round_even_def)

lemma round_even_mono:
  assumes "p \<le> q"
  shows "round_even p \<le> round_even q"
proof (cases "\<lfloor>p\<rfloor> = \<lfloor>q\<rfloor>")
  case True
  with assms show ?thesis unfolding round_even_def Let_def by auto
next
  case False
  then have less: "\<lfloor>p\<rfloor> + 1 \<le> \<lfloor>q\<rfloor>" using floor_mono [OF assms] by linarith
  have "round_even p \<le> \<lfloor>p\<rfloor> + 1" "\<lfloor>q\<rfloor> \<le> round_even q"
    unfolding round_even_def Let_def by auto
  with less show ?thesis by linarith
qed

lemma binade_bounds:
  assumes "0 < q"
  shows "2 powi (binade q) \<le> q \<and> q < 2 powi (binade q + 1)"
proof -
  obtain a b where ab: "quotient_of q = (a, b)" by (cases "quotient_of q")
  then have b: "0 < b" and q: "q = of_int a / of_int b"
    using quotient_of_denom_pos quotient_of_div by auto
  with assms have a: "0 < a" by (simp add: zero_less_divide_iff)
  let ?fa = "floorlog 2 (nat a)" and ?fb = "floorlog 2 (nat b)"
  have na: "2 ^ (?fa - 1) \<le> nat a" "nat a < 2 ^ ?fa" and nb: "2 ^ (?fb - 1) \<le> nat b" "nat b < 2 ^ ?fb"
    using floorlog_bounds [of "nat a" 2] floorlog_bounds [of "nat b" 2] a b by simp_all
  have "?fa \<noteq> 0" "?fb \<noteq> 0" using a b by (simp_all add: floorlog_eq_zero_iff)
  then have fa: "int (?fa - 1) = int ?fa - 1" and fb: "int (?fb - 1) = int ?fb - 1" by simp_all
  have "(of_nat (2 ^ (?fa - 1)) :: rat) \<le> of_nat (nat a)" "(of_nat (nat a) :: rat) < of_nat (2 ^ ?fa)"
    and "(of_nat (2 ^ (?fb - 1)) :: rat) \<le> of_nat (nat b)" "(of_nat (nat b) :: rat) < of_nat (2 ^ ?fb)"
    using na nb by (simp_all only: of_nat_le_iff of_nat_less_iff)
  then have ra: "2 ^ (?fa - 1) \<le> (of_int a :: rat)" "(of_int a :: rat) < 2 ^ ?fa"
    and rb: "2 ^ (?fb - 1) \<le> (of_int b :: rat)" "(of_int b :: rat) < 2 ^ ?fb"
    using a b by simp_all
  have lower: "2 powi (int ?fa - int ?fb - 1) \<le> q"
  proof -
    have "(2 :: rat) powi (int ?fa - int ?fb - 1) = 2 ^ (?fa - 1) / 2 ^ ?fb"
      using fa by (simp add: power_int_diff power_int_add flip: power_int_of_nat) 
    also have "\<dots> \<le> of_int a / of_int b"
      using ra rb a b by (intro frac_le) auto
    finally show ?thesis using q by simp
  qed
  have upper: "q < 2 powi (int ?fa - int ?fb + 1)"
  proof -
    have "of_int a / of_int b < 2 ^ ?fa / (2 ^ (?fb - 1) :: rat)"
      using ra rb a b by (intro frac_less) auto
    also have "\<dots> = (2 :: rat) powi (int ?fa - int ?fb + 1)"
      using fb by (simp add: power_int_diff power_int_add flip: power_int_of_nat)
    finally show ?thesis using q by simp
  qed
  show ?thesis using lower upper ab by (auto simp: binade_def Let_def)
qed

text \<open>A number of at most 53 bits is not rounded.\<close>

lemma powi_mono: "m \<le> n \<Longrightarrow> (2 :: rat) powi m \<le> 2 powi n"
  by (rule power_int_increasing) auto

lemma powi_less_iff: "(2 :: rat) powi m < 2 powi n \<longleftrightarrow> m < n"
  by (metis linorder_not_le powi_mono power_int_strict_increasing numeral_One one_less_numeral_iff semiring_norm(76))

lemma fl_pos_exact:
  assumes "0 < k" "k < 2 ^ 53" "q = of_nat k / 2 ^ j"
  shows "fl_pos q = q"
proof -
  have q: "0 < q" using assms(1,3) by simp
  let ?e = "binade q"
  have "(2 :: rat) powi ?e \<le> of_nat k / 2 ^ j" using binade_bounds [OF q] assms(3) by simp
  then have "(2 :: rat) powi ?e * 2 powi (int j) \<le> of_nat k" by (simp add: field_simps)
  then have "(2 :: rat) powi (?e + int j) \<le> of_nat k" by (simp add: power_int_add)
  also have "(of_nat k :: rat) < 2 ^ 53" using assms(2) by (metis of_nat_less_iff of_nat_numeral of_nat_power)
  finally have "(2 :: rat) powi (?e + int j) < 2 powi 53" by simp
  then have "?e + int j < 53" by (simp only: powi_less_iff)
  then have le: "?e + int j \<le> 52" by simp
  define s where "s = nat (52 - ?e - int j)"
  have s: "int s = 52 - ?e - int j" using le by (simp add: s_def)
  have "q / 2 powi (?e - 52) = of_nat k * 2 powi (- int j) * 2 powi (52 - ?e)"
    using assms(3) by (simp add: power_int_minus field_simps flip: power_int_add)
  also have "\<dots> = of_nat k * 2 powi (int s)" by (simp add: s flip: power_int_add)
  also have "\<dots> = of_int (int (k * 2 ^ s))" by simp
  finally have "round_even (q / 2 powi (?e - 52)) = int (k * 2 ^ s)"
    and eq: "q / 2 powi (?e - 52) = of_int (int (k * 2 ^ s))"
    by (simp_all only: round_even_of_int)
  then have "fl_pos q = q / 2 powi (?e - 52) * 2 powi (?e - 52)" by (simp add: fl_pos_def Let_def)
  then show ?thesis by simp
qed

lemma fl_exact: "k < 2 ^ 53 \<Longrightarrow> fl (of_nat k / 2 ^ j) = of_nat k / 2 ^ j"
proof (cases "k = 0")
  case False
  assume k: "k < 2 ^ 53"
  let ?q = "of_nat k / 2 ^ j :: rat"
  have "0 < ?q" using False by simp
  then have "?q \<noteq> 0" "\<not> ?q < 0" by linarith+
  then show ?thesis using fl_pos_exact [OF _ k refl, of j] False by (simp only: fl_def if_False neq0_conv)
qed (simp add: fl_def)

text \<open>Rounding is monotone.\<close>

lemma fl_pos_range:
  assumes "0 < q"
  shows "2 powi binade q \<le> fl_pos q \<and> fl_pos q \<le> 2 powi (binade q + 1)"
proof -
  let ?u = "(2 :: rat) powi (binade q - 52)"
  have u: "0 < ?u" by simp
  have scale: "(2 :: rat) powi (binade q + i) = of_int (2 ^ nat (52 + i)) * ?u" if "0 \<le> i" for i
  proof -
    have "of_int (2 ^ nat (52 + i)) = (2 :: rat) powi (52 + i)"
      using that power_int_of_nat [of "2 :: rat" "nat (52 + i)"] by simp
    then show ?thesis by (simp add: add.commute flip: power_int_add)
  qed
  have b: "2 powi binade q \<le> q" "q < 2 powi (binade q + 1)" using binade_bounds [OF assms] by simp_all
  have "of_int (2 ^ 52) \<le> q / ?u" "q / ?u \<le> of_int (2 ^ 53)"
    using b scale [of 0] scale [of 1] u by (simp_all add: field_simps)
  then have "(2 :: int) ^ 52 \<le> round_even (q / ?u)" "round_even (q / ?u) \<le> 2 ^ 53"
    using round_even_mono [of "of_int (2 ^ 52)" "q / ?u"] round_even_mono [of "q / ?u" "of_int (2 ^ 53)"]
    by (simp_all only: round_even_of_int)
  then have "of_int (2 ^ 52) \<le> (of_int (round_even (q / ?u)) :: rat)" "(of_int (round_even (q / ?u)) :: rat) \<le> of_int (2 ^ 53)"
    by (simp_all only: of_int_le_iff)
  then show ?thesis
    using scale [of 0] scale [of 1] u by (simp add: fl_pos_def Let_def mult_right_mono)
qed

lemma fl_pos_mono:
  assumes "0 < p" "p \<le> q"
  shows "fl_pos p \<le> fl_pos q"
proof (cases "binade p = binade q")
  case True
  have "round_even (p / 2 powi (binade q - 52)) \<le> round_even (q / 2 powi (binade q - 52))"
    using assms(2) by (intro round_even_mono divide_right_mono) auto
  then show ?thesis by (simp add: fl_pos_def Let_def True mult_right_mono)
next
  case False
  have q: "0 < q" using assms by simp
  have "(2 :: rat) powi binade p < 2 powi (binade q + 1)"
    using binade_bounds [OF assms(1)] binade_bounds [OF q] assms(2) by linarith
  then have "binade p < binade q + 1" by (simp only: powi_less_iff)
  then have "binade p + 1 \<le> binade q" using False by simp
  then have "(2 :: rat) powi (binade p + 1) \<le> 2 powi binade q" by (rule powi_mono)
  then show ?thesis using fl_pos_range [OF assms(1)] fl_pos_range [OF q] by linarith
qed

lemma fl_pos_positive: "0 < q \<Longrightarrow> 0 < fl_pos q"
  using fl_pos_range [of q] by (metis less_le_trans zero_less_power_int zero_less_numeral)

theorem fl_mono: "p \<le> q \<Longrightarrow> fl p \<le> fl q"
  using fl_pos_mono [of p q] fl_pos_mono [of "- q" "- p"] fl_pos_positive [of q] fl_pos_positive [of "- p"]
  by (auto simp: fl_def)

lemma fl_nonneg: "0 \<le> q \<Longrightarrow> 0 \<le> fl q"
  using fl_mono [of 0 q] by (simp add: fl_def)

lemma fl_dyadic: "q = of_nat k / 2 ^ j \<Longrightarrow> k < 2 ^ 53 \<Longrightarrow> fl q = q"
  using fl_exact by simp

lemma f64_of_u32 [simp]: "f64_of_word (w :: u32) = of_nat (unat w)"
proof -
  have "unat w < 2 ^ 32" using unsigned_less [of w, where ?'a = nat] by simp
  then have "unat w < 2 ^ 53" by simp
  then show ?thesis using fl_exact [of "unat w" 0] by (simp add: f64_of_word_def)
qed

lemma f64_of_word_nonneg: "0 \<le> f64_of_word w"
  unfolding f64_of_word_def by (rule fl_nonneg) (rule of_nat_0_le_iff)

end
