(* ===== verification/Prolink_Bridge.thy ===== *)
theory Prolink_Bridge
  imports Rust_Float
begin

text \<open>
  The process boundary of the link to the players (\<open>lumi-prolink-input/src/lib.rs\<close>): the messages
  of the bridge, their validation and the decoder that accepts only a gapless sequence of
  envelopes that starts with a greeting. The JSON library is a parameter, the record \<open>Serde\<close> of
  its functions on lines and payloads; no law of it is used. An \<open>f64\<close> is a rational number
  (\<open>Rust_Float\<close>). Facts: the accepted messages are numbered from one without gaps, exactly the
  first is the greeting, every one is valid, and a refused line changes nothing.
\<close>

section \<open>Messages\<close>

definition PROTOCOL_NAME :: string where
  "PROTOCOL_NAME = ''lumi-prolink-bridge''"

definition PROTOCOL_VERSION :: u16 where
  "PROTOCOL_VERSION = 1"

datatype IpAddr = V4 "u8 list" | V6 "u16 list"

record PacketOrigin =
  origin_address :: IpAddr
  origin_received_at_nanos :: u64

datatype BridgeTrafficClass = ClassCritical | ClassTempo | ClassTransport | ClassDisplay

record Hello =
  hello_bridge_version :: string
  hello_beat_link_version :: string
  hello_read_only :: bool

datatype SourceCondition = CondStarting | CondDiscovering | CondReady | CondDegraded | CondStopped

record SourceStatus =
  ss_status :: SourceCondition
  ss_detail :: string

record Device =
  dev_number :: u8
  dev_name :: string
  dev_address :: string

record USBMedia =
  media_device_number :: u8
  media_color_id :: "u8 option"

datatype USBMountState = MountLoaded | MountUnloading | MountEmpty | MountUnknown

record USBMount =
  mount_device_number :: u8
  mount_state :: USBMountState

record DeckStatus =
  ds_device_number :: u8
  ds_device_name :: string
  ds_playing :: bool
  ds_paused :: bool
  ds_cued :: bool
  ds_tempo_master :: bool
  ds_on_air :: bool
  ds_source_player :: u8
  ds_source_slot :: string
  ds_track_type :: string
  ds_rekordbox_id :: u32
  ds_track_bpm :: f64
  ds_effective_bpm :: f64
  ds_beat_number :: int
  ds_beat_within_bar :: u8
  ds_raw_pitch :: int

record Beat =
  bt_device_number :: u8
  bt_device_name :: string
  bt_effective_bpm :: f64
  bt_beat_within_bar :: u8
  bt_tempo_master :: bool

record TempoStatus =
  ts_device_number :: u8
  ts_device_name :: string
  ts_effective_bpm :: f64
  ts_beat_within_bar :: u8
  ts_tempo_master :: bool
  ts_playing :: bool

record PrecisePosition =
  pp_device_number :: u8
  pp_device_name :: string
  pp_playback_position_millis :: u64
  pp_effective_bpm :: f64
  pp_beat_within_bar :: u8
  pp_tempo_master :: bool

record BridgeTrackMetadata =
  tm_deck_number :: u8
  tm_available :: bool
  tm_source_player :: "u8 option"
  tm_source_slot :: "string option"
  tm_track_type :: "string option"
  tm_rekordbox_id :: "u32 option"
  tm_title :: "string option"
  tm_artist :: "string option"
  tm_duration_seconds :: "u32 option"
  tm_track_bpm :: "f64 option"
  tm_musical_key :: "string option"
  tm_color :: "string option"

record TrackSignature =
  sig_deck_number :: u8
  sig_signature :: "string option"

record BridgeFailure =
  fail_operation :: string
  fail_message :: string

datatype BridgeEvent =
    BrHello Hello
  | BrSourceStatus SourceStatus
  | BrDeviceFound Device
  | BrDeviceLost Device
  | BrUSBMedia USBMedia
  | BrUSBMount USBMount
  | BrDeckStatus DeckStatus
  | BrBeat Beat
  | BrTempoStatus TempoStatus
  | BrPrecisePosition PrecisePosition
  | BrTrackMetadata BridgeTrackMetadata
  | BrTrackSignature TrackSignature
  | BrError BridgeFailure

record BridgeMessage =
  msg_packet_origin :: "PacketOrigin option"
  msg_sequence :: u64
  msg_observed_at_nanos :: u64
  msg_traffic_class :: BridgeTrafficClass
  msg_bridge_queue_age_micros :: u64
  msg_ingress_queue_age_micros :: u64
  msg_event :: BridgeEvent

datatype BridgeDecodeError =
    InvalidJson string
  | UnexpectedProtocol string
  | UnsupportedVersion u16
  | NonMonotoneSequence u64 u64
  | HelloRequired
  | DuplicateHello
  | UnknownEventType string
  | InvalidPayload string

section \<open>Validation\<close>

definition valid_bpm :: "f64 \<Rightarrow> bool" where
  "valid_bpm value \<longleftrightarrow> 20 \<le> value \<and> value \<le> 300"

definition validate_device :: "Device \<Rightarrow> BridgeDecodeError + unit" where
  "validate_device device =
     (if dev_number device = 0 \<or> blank (dev_name device) \<or> blank (dev_address device)
      then Inl (InvalidPayload ''device'') else Inr ())"

definition is_ascii_hexdigit :: "char \<Rightarrow> bool" where
  "is_ascii_hexdigit c =
     (let n = (of_char c :: nat) in (48 \<le> n \<and> n \<le> 57) \<or> (65 \<le> n \<and> n \<le> 70) \<or> (97 \<le> n \<and> n \<le> 102))"

text \<open>The branch of \<open>validate_event\<close> that an invalid payload takes.\<close>

definition payload_check :: "bool \<Rightarrow> string \<Rightarrow> BridgeDecodeError + unit" where
  "payload_check bad name = (if bad then Inl (InvalidPayload name) else Inr ())"

definition deck_status_invalid :: "DeckStatus \<Rightarrow> bool" where
  "deck_status_invalid status =
     (let has_track_id = (ds_rekordbox_id status \<noteq> 0);
          has_source_player = (ds_source_player status \<noteq> 0);
          loaded_track_is_invalid = (has_track_id
            \<and> (\<not> valid_bpm (ds_track_bpm status) \<or> \<not> valid_bpm (ds_effective_bpm status)
               \<or> ds_beat_number status < 0 \<or> blank (ds_source_slot status) \<or> blank (ds_track_type status))) in
      ds_device_number status = 0 \<or> (has_track_id \<and> \<not> has_source_player) \<or> loaded_track_is_invalid
      \<or> ds_beat_within_bar status > 4)"

fun validate_event :: "BridgeEvent \<Rightarrow> BridgeDecodeError + unit" where
  "validate_event (BrHello hello) =
     payload_check (blank (hello_bridge_version hello) \<or> blank (hello_beat_link_version hello)
       \<or> \<not> hello_read_only hello) ''hello''"
| "validate_event (BrDeviceFound device) = validate_device device"
| "validate_event (BrDeviceLost device) = validate_device device"
| "validate_event (BrUSBMedia media) =
     payload_check (\<not> (1 \<le> media_device_number media \<and> media_device_number media \<le> 6)
       \<or> (case media_color_id media of None \<Rightarrow> False | Some i \<Rightarrow> i > 8)) ''usbMedia''"
| "validate_event (BrUSBMount mount) =
     payload_check (\<not> (1 \<le> mount_device_number mount \<and> mount_device_number mount \<le> 6)) ''usbMount''"
| "validate_event (BrDeckStatus status) = payload_check (deck_status_invalid status) ''deckStatus''"
| "validate_event (BrBeat beat) =
     payload_check (bt_device_number beat = 0 \<or> \<not> valid_bpm (bt_effective_bpm beat)
       \<or> \<not> (1 \<le> bt_beat_within_bar beat \<and> bt_beat_within_bar beat \<le> 4)) ''beat''"
| "validate_event (BrTempoStatus tempo) =
     payload_check (ts_device_number tempo = 0 \<or> blank (ts_device_name tempo)
       \<or> \<not> valid_bpm (ts_effective_bpm tempo) \<or> ts_beat_within_bar tempo > 4) ''tempoStatus''"
| "validate_event (BrPrecisePosition pos) =
     payload_check (pp_device_number pos = 0 \<or> blank (pp_device_name pos)
       \<or> \<not> valid_bpm (pp_effective_bpm pos) \<or> pp_beat_within_bar pos > 4
       \<or> pp_playback_position_millis pos > 24 * 60 * 60 * 1000) ''precisePosition''"
| "validate_event (BrTrackMetadata metadata) =
     payload_check (tm_deck_number metadata = 0
       \<or> (tm_available metadata
          \<and> (tm_rekordbox_id metadata = None \<or> tm_duration_seconds metadata = None
             \<or> tm_track_bpm metadata = None))) ''trackMetadata''"
| "validate_event (BrTrackSignature signature) =
     payload_check (sig_deck_number signature = 0
       \<or> (case sig_signature signature of
            None \<Rightarrow> False
          | Some value \<Rightarrow> length value \<noteq> 40 \<or> \<not> list_all is_ascii_hexdigit value)) ''trackSignature''"
| "validate_event (BrSourceStatus status) = payload_check (blank (ss_detail status)) ''sourceStatus''"
| "validate_event (BrError failure) =
     payload_check (blank (fail_operation failure) \<or> blank (fail_message failure)) ''error''"

section \<open>Decoding\<close>

record 'v WireEnvelope =
  wire_packet_origin :: "PacketOrigin option"
  wire_protocol :: string
  wire_protocol_version :: u16
  wire_sequence :: u64
  wire_observed_at_nanos :: u64
  wire_traffic_class :: BridgeTrafficClass
  wire_bridge_queue_age_micros :: u64
  wire_message_type :: string
  wire_payload :: 'v

text \<open>\<open>serde_json::from_str\<close> on a line and \<open>serde_json::from_value\<close> on a payload of each type.\<close>

record 'v Serde =
  serde_envelope :: "string \<Rightarrow> string + 'v WireEnvelope"
  serde_hello :: "'v \<Rightarrow> string + Hello"
  serde_source_status :: "'v \<Rightarrow> string + SourceStatus"
  serde_device :: "'v \<Rightarrow> string + Device"
  serde_usb_media :: "'v \<Rightarrow> string + USBMedia"
  serde_usb_mount :: "'v \<Rightarrow> string + USBMount"
  serde_deck_status :: "'v \<Rightarrow> string + DeckStatus"
  serde_beat :: "'v \<Rightarrow> string + Beat"
  serde_tempo_status :: "'v \<Rightarrow> string + TempoStatus"
  serde_precise_position :: "'v \<Rightarrow> string + PrecisePosition"
  serde_track_metadata :: "'v \<Rightarrow> string + BridgeTrackMetadata"
  serde_track_signature :: "'v \<Rightarrow> string + TrackSignature"
  serde_failure :: "'v \<Rightarrow> string + BridgeFailure"

definition decode_payload :: "('v \<Rightarrow> string + 'a) \<Rightarrow> 'v \<Rightarrow> ('a \<Rightarrow> BridgeEvent) \<Rightarrow> BridgeDecodeError + BridgeEvent" where
  "decode_payload parse payload wrap = map_err InvalidJson (and_then (parse payload) (\<lambda>a. Inr (wrap a)))"

definition decode_event :: "'v Serde \<Rightarrow> string \<Rightarrow> 'v \<Rightarrow> BridgeDecodeError + BridgeEvent" where
  "decode_event sd message_type payload =
     (if message_type = ''hello'' then decode_payload (serde_hello sd) payload BrHello
      else if message_type = ''sourceStatus'' then decode_payload (serde_source_status sd) payload BrSourceStatus
      else if message_type = ''deviceFound'' then decode_payload (serde_device sd) payload BrDeviceFound
      else if message_type = ''deviceLost'' then decode_payload (serde_device sd) payload BrDeviceLost
      else if message_type = ''usbMedia'' then decode_payload (serde_usb_media sd) payload BrUSBMedia
      else if message_type = ''usbMount'' then decode_payload (serde_usb_mount sd) payload BrUSBMount
      else if message_type = ''deckStatus'' then decode_payload (serde_deck_status sd) payload BrDeckStatus
      else if message_type = ''transportStatus'' then decode_payload (serde_deck_status sd) payload BrDeckStatus
      else if message_type = ''beat'' then decode_payload (serde_beat sd) payload BrBeat
      else if message_type = ''tempoStatus'' then decode_payload (serde_tempo_status sd) payload BrTempoStatus
      else if message_type = ''precisePosition'' then decode_payload (serde_precise_position sd) payload BrPrecisePosition
      else if message_type = ''trackMetadata'' then decode_payload (serde_track_metadata sd) payload BrTrackMetadata
      else if message_type = ''trackSignature'' then decode_payload (serde_track_signature sd) payload BrTrackSignature
      else if message_type = ''error'' then decode_payload (serde_failure sd) payload BrError
      else Inl (UnknownEventType message_type))"

record BridgeDecoder =
  dec_last_sequence :: "u64 option"
  dec_hello_received :: bool

definition new_decoder :: BridgeDecoder where
  "new_decoder = \<lparr>dec_last_sequence = None, dec_hello_received = False\<rparr>"

fun is_hello :: "BridgeEvent \<Rightarrow> bool" where
  "is_hello (BrHello _) = True"
| "is_hello _ = False"

definition decode_line :: "'v Serde \<Rightarrow> BridgeDecoder \<Rightarrow> string \<Rightarrow> BridgeDecodeError + (BridgeDecoder \<times> BridgeMessage)" where
  "decode_line sd d line =
     and_then (map_err InvalidJson (serde_envelope sd line)) (\<lambda>envelope.
     if wire_protocol envelope \<noteq> PROTOCOL_NAME then Inl (UnexpectedProtocol (wire_protocol envelope))
     else if wire_protocol_version envelope \<noteq> PROTOCOL_VERSION
       then Inl (UnsupportedVersion (wire_protocol_version envelope))
     else let expected = (case dec_last_sequence d of None \<Rightarrow> 1 | Some s \<Rightarrow> saturating_add s 1) in
     if wire_sequence envelope \<noteq> expected then Inl (NonMonotoneSequence expected (wire_sequence envelope))
     else if \<not> dec_hello_received d \<and> wire_message_type envelope \<noteq> ''hello'' then Inl HelloRequired
     else and_then (decode_event sd (wire_message_type envelope) (wire_payload envelope)) (\<lambda>event.
     and_then (validate_event event) (\<lambda>_.
     if is_hello event \<and> dec_hello_received d then Inl DuplicateHello
     else Inr (d\<lparr>dec_hello_received := dec_hello_received d \<or> is_hello event,
                 dec_last_sequence := Some (wire_sequence envelope)\<rparr>,
               \<lparr>msg_packet_origin = wire_packet_origin envelope, msg_sequence = wire_sequence envelope,
                msg_observed_at_nanos = wire_observed_at_nanos envelope,
                msg_traffic_class = wire_traffic_class envelope,
                msg_bridge_queue_age_micros = wire_bridge_queue_age_micros envelope,
                msg_ingress_queue_age_micros = 0, msg_event = event\<rparr>))))"

section \<open>The accepted stream\<close>

lemma decode_hello: "decode_event sd ''hello'' payload = Inr event \<Longrightarrow> is_hello event"
  by (auto simp: decode_event_def decode_payload_def result_simps)

lemma decode_line_Inr:
  assumes "decode_line sd d line = Inr (d', m)"
  shows "msg_sequence m = (case dec_last_sequence d of None \<Rightarrow> 1 | Some s \<Rightarrow> saturating_add s 1)
     \<and> dec_last_sequence d' = Some (msg_sequence m) \<and> dec_hello_received d'
     \<and> is_hello (msg_event m) = (\<not> dec_hello_received d) \<and> validate_event (msg_event m) = Inr ()"
  using assms
  by (auto simp: decode_line_def and_then_eq_Inr map_err_eq Let_def dest: decode_hello split: if_splits)

definition decoder_at :: "nat \<Rightarrow> BridgeDecoder \<Rightarrow> bool" where
  "decoder_at n d \<longleftrightarrow> dec_last_sequence d = (if n = 0 then None else Some (of_nat n)) \<and> (dec_hello_received d \<longleftrightarrow> 0 < n)"

lemma decode_line_at:
  assumes "decoder_at n d" "n + 1 < 2 ^ 64" "decode_line sd d line = Inr (d', m)"
  shows "decoder_at (Suc n) d' \<and> unat (msg_sequence m) = Suc n \<and> (is_hello (msg_event m) \<longleftrightarrow> n = 0)
     \<and> validate_event (msg_event m) = Inr ()"
proof -
  have u: "unat (of_nat n :: u64) = n" "unat (of_nat (Suc n) :: u64) = Suc n"
    using assms(2) by (simp_all only: unat_of_nat take_bit_nat_eq_self_iff) (simp_all add: take_bit_nat_eq_self)
  have "msg_sequence m = of_nat (Suc n)"
  proof (cases "n = 0")
    case False
    then have "msg_sequence m = saturating_add (of_nat n) 1"
      using decode_line_Inr [OF assms(3)] assms(1) by (simp add: decoder_at_def)
    then show ?thesis using u(1) assms(2) by (simp add: saturating_add_def)
  qed (use decode_line_Inr [OF assms(3)] assms(1) in \<open>simp add: decoder_at_def\<close>)
  then show ?thesis
    using decode_line_Inr [OF assms(3)] assms(1) u by (auto simp: decoder_at_def simp del: of_nat_Suc)
qed

lemma decode_lines_at:
  assumes "decoder_at n d" "n + length lines < 2 ^ 64" "run_machine (decode_line sd) d lines = (d', ms)"
  shows "map (\<lambda>m. unat (msg_sequence m)) ms = [Suc n..<Suc n + length ms]
     \<and> (\<forall>i < length ms. is_hello (msg_event (ms ! i)) \<longleftrightarrow> n + i = 0)
     \<and> (\<forall>m \<in> set ms. validate_event (msg_event m) = Inr ())"
  using assms
proof (induction lines arbitrary: n d ms)
  case (Cons line lines)
  show ?case
  proof (cases "decode_line sd d line")
    case (Inl e)
    with Cons.prems Cons.IH [of n d ms] show ?thesis by simp
  next
    case (Inr r)
    obtain d1 m where r: "r = (d1, m)" by (cases r)
    obtain t ms' where run: "run_machine (decode_line sd) d1 lines = (t, ms')"
      by (cases "run_machine (decode_line sd) d1 lines")
    have ms: "ms = m # ms'" "t = d'" using Cons.prems(3) Inr r run by auto
    have at: "decoder_at (Suc n) d1 \<and> unat (msg_sequence m) = Suc n \<and> (is_hello (msg_event m) \<longleftrightarrow> n = 0)
        \<and> validate_event (msg_event m) = Inr ()"
      using decode_line_at [OF Cons.prems(1), of sd line d1 m] Cons.prems(2) Inr r by simp
    have tail: "map (\<lambda>m. unat (msg_sequence m)) ms' = [Suc (Suc n)..<Suc (Suc n) + length ms']
        \<and> (\<forall>i < length ms'. is_hello (msg_event (ms' ! i)) \<longleftrightarrow> Suc n + i = 0)
        \<and> (\<forall>m \<in> set ms'. validate_event (msg_event m) = Inr ())"
      using Cons.IH [of "Suc n" d1 ms'] at Cons.prems(2) run ms by (simp del: upt_Suc)
    have "[Suc n..<Suc n + length ms] = Suc n # [Suc (Suc n)..<Suc (Suc n) + length ms']"
      by (simp add: ms upt_conv_Cons del: upt_Suc)
    then show ?thesis using at tail ms by (auto simp: nth_Cons simp del: upt_Suc split: nat.split)
  qed
qed simp

text \<open>
  What the engine accepts from the bridge is a gapless stream: over any lines, valid or
  not, the accepted messages are numbered from one without gaps, exactly the first is the
  greeting, and every one passed the validation of its payload.
\<close>

theorem bridge_stream_gapless:
  assumes "length lines < 2 ^ 64"
  shows "case run_machine (decode_line sd) new_decoder lines of (d, ms) \<Rightarrow>
      map (\<lambda>m. unat (msg_sequence m)) ms = [1..<1 + length ms]
      \<and> (\<forall>i < length ms. is_hello (msg_event (ms ! i)) \<longleftrightarrow> i = 0)
      \<and> (\<forall>m \<in> set ms. validate_event (msg_event m) = Inr ())"
proof -
  obtain d ms where run: "run_machine (decode_line sd) new_decoder lines = (d, ms)"
    by (cases "run_machine (decode_line sd) new_decoder lines")
  have "decoder_at 0 new_decoder" by (simp add: decoder_at_def new_decoder_def)
  from decode_lines_at [OF this, of lines sd d ms] assms run show ?thesis by simp
qed

text \<open>A toy JSON library: the line \<open>''H''\<close> is a greeting with number 1, everything else is no JSON.\<close>

definition demo_hello :: Hello where
  "demo_hello = \<lparr>hello_bridge_version = ''1'', hello_beat_link_version = ''2'', hello_read_only = True\<rparr>"

definition demo_serde :: "unit Serde" where
  "demo_serde =
     \<lparr>serde_envelope = (\<lambda>line. if line = ''H''
        then Inr \<lparr>wire_packet_origin = None, wire_protocol = PROTOCOL_NAME, wire_protocol_version = 1,
          wire_sequence = 1, wire_observed_at_nanos = 0, wire_traffic_class = ClassCritical,
          wire_bridge_queue_age_micros = 0, wire_message_type = ''hello'', wire_payload = ()\<rparr>
        else Inl ''no JSON''),
      serde_hello = (\<lambda>_. Inr demo_hello), serde_source_status = (\<lambda>_. Inl []), serde_device = (\<lambda>_. Inl []),
      serde_usb_media = (\<lambda>_. Inl []), serde_usb_mount = (\<lambda>_. Inl []), serde_deck_status = (\<lambda>_. Inl []),
      serde_beat = (\<lambda>_. Inl []), serde_tempo_status = (\<lambda>_. Inl []), serde_precise_position = (\<lambda>_. Inl []),
      serde_track_metadata = (\<lambda>_. Inl []), serde_track_signature = (\<lambda>_. Inl []), serde_failure = (\<lambda>_. Inl [])\<rparr>"

theorem bridge_stream_gapless_witness:
  "map msg_event (snd (run_machine (decode_line demo_serde) new_decoder [''x'', ''H'', ''H''])) = [BrHello demo_hello]
   \<and> map (\<lambda>m. unat (msg_sequence m)) (snd (run_machine (decode_line demo_serde) new_decoder [''x'', ''H'', ''H''])) = [1]"
proof -
  let ?run = "run_machine (decode_line demo_serde) new_decoder [''x'', ''H'', ''H'']"
  have e: "map msg_event (snd ?run) = [BrHello demo_hello]"
    by (simp add: decode_line_def demo_serde_def new_decoder_def PROTOCOL_VERSION_def Let_def decode_event_def
        decode_payload_def payload_check_def demo_hello_def blank_def saturating_add_def ascii_white_space_def)
  then have "length (snd ?run) = 1" by (metis length_map list.size(3,4) One_nat_def Suc_eq_plus1 add_0)
  with e bridge_stream_gapless [of "[''x'', ''H'', ''H'']" demo_serde] show ?thesis
    by (simp add: case_prod_beta)
qed

end
