(* ===== verification/Prolink_Ingress.thy ===== *)
theory Prolink_Ingress
  imports Prolink_Bridge "HOL-Library.Multiset"
begin

text \<open>
  The queue between the bridge process and the engine (\<open>lumi-prolink-input/src/supervisor.rs\<close>):
  \<open>ProcessOutputQueue\<close> keeps at most one message per player and kind of coalescable traffic, never
  drops a critical message, and closes with an error when only critical messages would fill it;
  the reader of the process output feeds it, and \<open>drain_messages\<close> empties it in the order of
  traffic classes. Starting, watching and stopping the process are input and output and are left
  out; what they contribute (lines, and whether the process runs) are arguments.
\<close>

section \<open>Latencies\<close>

definition STDERR_TAIL_CAPACITY :: nat where
  "STDERR_TAIL_CAPACITY = 40"

definition PROCESS_OUTPUT_CAPACITY :: nat where
  "PROCESS_OUTPUT_CAPACITY = 512"

definition INGRESS_LATENCY_BOUNDS_MICROS :: "u64 list" where
  "INGRESS_LATENCY_BOUNDS_MICROS =
     [100, 250, 500, 1000, 2000, 5000, 10000, 20000, 40000, 100000, 250000, 500000, 1000000]"

record IngressLatencyHistogram =
  hist_buckets :: "u64 list"
  hist_sample_count :: u64
  hist_maximum_micros :: u64

definition default_histogram :: IngressLatencyHistogram where
  "default_histogram = \<lparr>hist_buckets = replicate 14 0, hist_sample_count = 0, hist_maximum_micros = 0\<rparr>"

definition histogram_record :: "u64 \<Rightarrow> IngressLatencyHistogram \<Rightarrow> IngressLatencyHistogram" where
  "histogram_record micros h =
     (let bucket = (case position (\<lambda>bound. micros \<le> bound) INGRESS_LATENCY_BOUNDS_MICROS of
                      None \<Rightarrow> length INGRESS_LATENCY_BOUNDS_MICROS
                    | Some i \<Rightarrow> i) in
      h\<lparr>hist_buckets := (hist_buckets h)[bucket := saturating_add (hist_buckets h ! bucket) 1],
        hist_sample_count := saturating_add (hist_sample_count h) 1,
        hist_maximum_micros := max (hist_maximum_micros h) micros\<rparr>)"

text \<open>The loop of \<open>percentile\<close> from the bucket \<open>index\<close>, with the counts so far.\<close>

fun percentile_from :: "u64 \<Rightarrow> u64 \<Rightarrow> nat \<Rightarrow> u64 \<Rightarrow> u64 list \<Rightarrow> u64" where
  "percentile_from target maximum index cumulative [] = maximum"
| "percentile_from target maximum index cumulative (bucket # buckets) =
     (let cumulative = saturating_add cumulative bucket in
      if cumulative \<ge> target
      then (case get_nth INGRESS_LATENCY_BOUNDS_MICROS index of None \<Rightarrow> maximum | Some bound \<Rightarrow> bound)
      else percentile_from target maximum (Suc index) cumulative buckets)"

definition histogram_percentile :: "IngressLatencyHistogram \<Rightarrow> u64 \<Rightarrow> u64" where
  "histogram_percentile h p =
     (if hist_sample_count h = 0 then 0
      else percentile_from (saturating_add (saturating_mul (hist_sample_count h) p) 99 div 100)
             (hist_maximum_micros h) 0 0 (hist_buckets h))"

section \<open>The queue\<close>

datatype CoalescingKey =
    KeyUSBMedia u8
  | KeyDeckStatus u8
  | KeyTempoStatus u8
  | KeyPrecisePosition u8
  | KeyTrackMetadata u8
  | KeyTrackSignature u8

definition coalescing_key :: "BridgeMessage \<Rightarrow> CoalescingKey option" where
  "coalescing_key message =
     (if msg_traffic_class message = ClassCritical then None
      else case msg_event message of
        BrUSBMedia media \<Rightarrow> Some (KeyUSBMedia (media_device_number media))
      | BrDeckStatus status \<Rightarrow> Some (KeyDeckStatus (ds_device_number status))
      | BrTempoStatus status \<Rightarrow> Some (KeyTempoStatus (ts_device_number status))
      | BrPrecisePosition pos \<Rightarrow> Some (KeyPrecisePosition (pp_device_number pos))
      | BrTrackMetadata metadata \<Rightarrow> Some (KeyTrackMetadata (tm_deck_number metadata))
      | BrTrackSignature signature \<Rightarrow> Some (KeyTrackSignature (sig_deck_number signature))
      | _ \<Rightarrow> None)"

datatype IngressErrorText =
    IngressSaturated nat
  | InvalidBridgeMessage BridgeDecodeError
  | ReadFailed string

record ProcessOutputQueue =
  poq_messages :: "BridgeMessage list"
  poq_received_at :: "u64 \<Rightarrow> Instant option"
  poq_capacity :: nat
  poq_high_water :: nat
  poq_coalesced_message_count :: u64
  poq_critical_saturation_count :: u64
  poq_last_sequence :: "u64 option"
  poq_source_age :: IngressLatencyHistogram
  poq_terminal_error :: "IngressErrorText option"
  poq_stdout_closed :: bool

definition new_output_queue :: "nat \<Rightarrow> ProcessOutputQueue" where
  "new_output_queue capacity =
     \<lparr>poq_messages = [], poq_received_at = Map.empty, poq_capacity = capacity, poq_high_water = 0,
      poq_coalesced_message_count = 0, poq_critical_saturation_count = 0, poq_last_sequence = None,
      poq_source_age = default_histogram, poq_terminal_error = None, poq_stdout_closed = False\<rparr>"

text \<open>A queued message is replaced: it is removed with its time of arrival, and counted.\<close>

definition coalesce_at :: "nat \<Rightarrow> ProcessOutputQueue \<Rightarrow> ProcessOutputQueue" where
  "coalesce_at index q =
     (if index < length (poq_messages q)
      then q\<lparr>poq_messages := remove_at index (poq_messages q),
             poq_received_at := (poq_received_at q)(msg_sequence (poq_messages q ! index) := None),
             poq_coalesced_message_count := saturating_add (poq_coalesced_message_count q) 1\<rparr>
      else q\<lparr>poq_coalesced_message_count := saturating_add (poq_coalesced_message_count q) 1\<rparr>)"

definition drop_same_key :: "BridgeMessage \<Rightarrow> ProcessOutputQueue \<Rightarrow> ProcessOutputQueue" where
  "drop_same_key message q =
     (case coalescing_key message of
        None \<Rightarrow> q
      | Some key \<Rightarrow>
          (case position (\<lambda>queued. coalescing_key queued = Some key) (poq_messages q) of
             None \<Rightarrow> q
           | Some index \<Rightarrow> coalesce_at index q))"

definition store_message :: "Instant \<Rightarrow> BridgeMessage \<Rightarrow> ProcessOutputQueue \<Rightarrow> ProcessOutputQueue" where
  "store_message now message q =
     q\<lparr>poq_received_at := (poq_received_at q)(msg_sequence message \<mapsto> now),
       poq_messages := poq_messages q @ [message],
       poq_high_water := max (poq_high_water q) (length (poq_messages q) + 1)\<rparr>"

definition push_message :: "Instant \<Rightarrow> BridgeMessage \<Rightarrow> ProcessOutputQueue \<Rightarrow> ProcessOutputQueue \<times> bool" where
  "push_message now message q0 =
     (let q = drop_same_key message (q0\<lparr>poq_last_sequence := Some (msg_sequence message)\<rparr>) in
      if length (poq_messages q) = poq_capacity q
      then case position (\<lambda>queued. coalescing_key queued \<noteq> None) (poq_messages q) of
             Some index \<Rightarrow> (store_message now message (coalesce_at index q), True)
           | None \<Rightarrow>
               (q\<lparr>poq_critical_saturation_count := saturating_add (poq_critical_saturation_count q) 1,
                  poq_terminal_error := Some (IngressSaturated (poq_capacity q))\<rparr>, False)
      else (store_message now message q, True))"

definition fail_queue :: "IngressErrorText \<Rightarrow> ProcessOutputQueue \<Rightarrow> ProcessOutputQueue" where
  "fail_queue text q = q\<lparr>poq_terminal_error := Some text\<rparr>"

section \<open>The reader\<close>

text \<open>The thread that reads lines, until one of them fails; \<open>None\<close> is the end of the output.\<close>

record BridgeReader =
  rd_decoder :: BridgeDecoder
  rd_queue :: ProcessOutputQueue
  rd_reading :: bool

definition new_reader :: BridgeReader where
  "new_reader = \<lparr>rd_decoder = new_decoder, rd_queue = new_output_queue PROCESS_OUTPUT_CAPACITY, rd_reading = True\<rparr>"

definition read_line :: "'v Serde \<Rightarrow> Instant \<Rightarrow> (string + string) option \<Rightarrow> BridgeReader \<Rightarrow> BridgeReader" where
  "read_line sd now line r =
     (if \<not> rd_reading r then r
      else case line of
        None \<Rightarrow> r\<lparr>rd_queue := (rd_queue r)\<lparr>poq_stdout_closed := True\<rparr>, rd_reading := False\<rparr>
      | Some (Inl failure) \<Rightarrow> r\<lparr>rd_queue := fail_queue (ReadFailed failure) (rd_queue r), rd_reading := False\<rparr>
      | Some (Inr text) \<Rightarrow>
          (case decode_line sd (rd_decoder r) text of
             Inl decode_error \<Rightarrow>
               r\<lparr>rd_queue := fail_queue (InvalidBridgeMessage decode_error) (rd_queue r), rd_reading := False\<rparr>
           | Inr (decoder, message) \<Rightarrow>
               (case push_message now message (rd_queue r) of
                  (q, accepted) \<Rightarrow> r\<lparr>rd_decoder := decoder, rd_queue := q, rd_reading := accepted\<rparr>)))"

definition push_stderr :: "string list \<Rightarrow> string \<Rightarrow> string list" where
  "push_stderr lines line = push_bounded STDERR_TAIL_CAPACITY lines line"

section \<open>Draining\<close>

fun traffic_priority :: "BridgeTrafficClass \<Rightarrow> nat" where
  "traffic_priority ClassCritical = 0"
| "traffic_priority ClassTempo = 1"
| "traffic_priority ClassTransport = 2"
| "traffic_priority ClassDisplay = 3"

definition micros_since :: "Instant \<Rightarrow> Instant \<Rightarrow> u64" where
  "micros_since received now = (if (now - received) div 1000 < 2 ^ 64 then of_nat ((now - received) div 1000) else - 1)"

definition supervisor_age :: "Instant \<Rightarrow> ProcessOutputQueue \<Rightarrow> BridgeMessage \<Rightarrow> u64" where
  "supervisor_age now q message =
     (case poq_received_at q (msg_sequence message) of None \<Rightarrow> 0 | Some received \<Rightarrow> micros_since received now)"

text \<open>One turn of the loop over the drained messages.\<close>

definition age_message :: "Instant \<Rightarrow> ProcessOutputQueue \<Rightarrow> BridgeMessage \<Rightarrow> ProcessOutputQueue \<times> BridgeMessage" where
  "age_message now q message =
     (let age = supervisor_age now q message in
      (q\<lparr>poq_received_at := (poq_received_at q)(msg_sequence message := None),
         poq_source_age := histogram_record (saturating_add (msg_bridge_queue_age_micros message) age) (poq_source_age q)\<rparr>,
       message\<lparr>msg_ingress_queue_age_micros := age\<rparr>))"

fun age_messages :: "Instant \<Rightarrow> ProcessOutputQueue \<Rightarrow> BridgeMessage list \<Rightarrow> ProcessOutputQueue \<times> BridgeMessage list" where
  "age_messages now q [] = (q, [])"
| "age_messages now q (m # ms) =
     (case age_message now q m of
        (q1, m1) \<Rightarrow> case age_messages now q1 ms of (q2, ms1) \<Rightarrow> (q2, m1 # ms1))"

text \<open>The key \<open>(priority, sequence)\<close> of the sort, as one number.\<close>

definition drain_key :: "BridgeMessage \<Rightarrow> nat" where
  "drain_key message = traffic_priority (msg_traffic_class message) * 2 ^ 64 + unat (msg_sequence message)"

definition drain_messages :: "Instant \<Rightarrow> ProcessOutputQueue \<Rightarrow> ProcessOutputQueue \<times> (IngressErrorText + BridgeMessage list)" where
  "drain_messages now q =
     (case poq_terminal_error q of
        Some message \<Rightarrow> (q\<lparr>poq_terminal_error := None\<rparr>, Inl message)
      | None \<Rightarrow>
          (case age_messages now (q\<lparr>poq_messages := []\<rparr>) (poq_messages q) of
             (q1, ms) \<Rightarrow> (q1, Inr (sort_key drain_key ms))))"

record BridgeProcessDiagnostics =
  bpd_running :: bool
  bpd_last_sequence :: "u64 option"
  bpd_queue_capacity :: nat
  bpd_queue_depth :: nat
  bpd_queue_high_water :: nat
  bpd_coalesced_message_count :: u64
  bpd_critical_saturation_count :: u64
  bpd_source_age_sample_count :: u64
  bpd_source_age_p50_micros :: u64
  bpd_source_age_p95_micros :: u64
  bpd_source_age_p99_micros :: u64
  bpd_source_age_max_micros :: u64
  bpd_stderr_tail :: "string list"

definition process_diagnostics :: "bool \<Rightarrow> string list \<Rightarrow> ProcessOutputQueue \<Rightarrow> BridgeProcessDiagnostics" where
  "process_diagnostics process_running stderr_tail q =
     \<lparr>bpd_running = (process_running \<and> \<not> poq_stdout_closed q \<and> poq_terminal_error q = None),
      bpd_last_sequence = poq_last_sequence q, bpd_queue_capacity = poq_capacity q,
      bpd_queue_depth = length (poq_messages q), bpd_queue_high_water = poq_high_water q,
      bpd_coalesced_message_count = poq_coalesced_message_count q,
      bpd_critical_saturation_count = poq_critical_saturation_count q,
      bpd_source_age_sample_count = hist_sample_count (poq_source_age q),
      bpd_source_age_p50_micros = histogram_percentile (poq_source_age q) 50,
      bpd_source_age_p95_micros = histogram_percentile (poq_source_age q) 95,
      bpd_source_age_p99_micros = histogram_percentile (poq_source_age q) 99,
      bpd_source_age_max_micros = hist_maximum_micros (poq_source_age q), bpd_stderr_tail = stderr_tail\<rparr>"

section \<open>What is kept and what is replaced\<close>

definition kept :: "BridgeMessage list \<Rightarrow> BridgeMessage list" where
  "kept ms = filter (\<lambda>m. coalescing_key m = None) ms"

definition queued_keys :: "BridgeMessage list \<Rightarrow> CoalescingKey option list" where
  "queued_keys ms = filter (\<lambda>k. k \<noteq> None) (map coalescing_key ms)"

definition output_queue_ok :: "ProcessOutputQueue \<Rightarrow> bool" where
  "output_queue_ok q \<longleftrightarrow> length (poq_messages q) \<le> poq_capacity q \<and> distinct (queued_keys (poq_messages q))
     \<and> poq_high_water q \<le> poq_capacity q"

lemma filter_split_at:
  "i < length xs \<Longrightarrow> filter P xs = filter P (take i xs) @ filter P [xs ! i] @ filter P (drop (Suc i) xs)"
  using arg_cong [OF id_take_nth_drop [of i xs], of "filter P"] by simp

lemma coalesce_kept:
  "i < length (poq_messages q) \<Longrightarrow> coalescing_key (poq_messages q ! i) \<noteq> None \<Longrightarrow>
   kept (poq_messages (coalesce_at i q)) = kept (poq_messages q)"
  by (simp add: coalesce_at_def kept_def filter_remove_at)

lemma queued_keys_split:
  "i < length ms \<Longrightarrow> queued_keys ms =
     queued_keys (take i ms) @ queued_keys [ms ! i] @ queued_keys (drop (Suc i) ms)"
  unfolding queued_keys_def using filter_split_at [of i "map coalescing_key ms" "\<lambda>k. k \<noteq> None"]
  by (simp add: take_map drop_map)

lemma queued_keys_remove_at: "queued_keys (remove_at i ms) = queued_keys (take i ms) @ queued_keys (drop (Suc i) ms)"
  by (simp add: queued_keys_def remove_at_def)

lemma queued_keys_remove: "distinct (queued_keys ms) \<Longrightarrow> distinct (queued_keys (remove_at i ms))"
proof (cases "i < length ms")
  case True
  assume "distinct (queued_keys ms)"
  then show ?thesis unfolding queued_keys_split [OF True] by (auto simp: queued_keys_remove_at)
qed (simp add: remove_at_def)

lemma filter_key_count:
  assumes "distinct (queued_keys ms)" "i < length ms" "coalescing_key (ms ! i) = Some k"
  shows "Some k \<notin> set (queued_keys (remove_at i ms))"
  using assms(1,3) unfolding queued_keys_split [OF assms(2)]
  by (auto simp: queued_keys_remove_at queued_keys_def [of "[ms ! i]"])

lemma drop_same_key_kept: "kept (poq_messages (drop_same_key m q)) = kept (poq_messages q)"
proof (cases "coalescing_key m")
  case (Some key)
  show ?thesis
  proof (cases "position (\<lambda>queued. coalescing_key queued = Some key) (poq_messages q)")
    case (Some i)
    then have "i < length (poq_messages q)" "coalescing_key (poq_messages q ! i) \<noteq> None"
      by (auto dest: position_SomeD)
    with Some \<open>coalescing_key m = Some key\<close> show ?thesis by (simp add: drop_same_key_def coalesce_kept)
  qed (simp add: drop_same_key_def Some)
qed (simp add: drop_same_key_def)

lemma drop_same_key_spec:
  assumes "distinct (queued_keys (poq_messages q))"
  shows "distinct (queued_keys (poq_messages (drop_same_key m q)))
    \<and> (coalescing_key m \<noteq> None \<longrightarrow> coalescing_key m \<notin> set (queued_keys (poq_messages (drop_same_key m q))))
    \<and> length (poq_messages (drop_same_key m q)) \<le> length (poq_messages q)
    \<and> poq_capacity (drop_same_key m q) = poq_capacity q \<and> poq_high_water (drop_same_key m q) = poq_high_water q
    \<and> set (poq_messages (drop_same_key m q)) \<subseteq> set (poq_messages q)"
proof (cases "coalescing_key m")
  case (Some key)
  show ?thesis
  proof (cases "position (\<lambda>queued. coalescing_key queued = Some key) (poq_messages q)")
    case None
    then have "\<forall>x \<in> set (poq_messages q). coalescing_key x \<noteq> Some key" by (simp add: position_None)
    then show ?thesis using assms Some None by (auto simp: drop_same_key_def queued_keys_def)
  next
    case (Some i)
    then have i: "i < length (poq_messages q)" "coalescing_key (poq_messages q ! i) = Some key"
      by (auto dest: position_SomeD)
    have "drop_same_key m q = coalesce_at i q"
      using Some \<open>coalescing_key m = Some key\<close> by (simp add: drop_same_key_def)
    then show ?thesis
      using i queued_keys_remove [OF assms] filter_key_count [OF assms i]
        \<open>coalescing_key m = Some key\<close> set_remove_at [of i "poq_messages q"]
      by (simp add: coalesce_at_def length_remove_at)
  qed
qed (use assms in \<open>simp add: drop_same_key_def\<close>)

lemma store_ok:
  assumes "distinct (queued_keys (poq_messages q))" "length (poq_messages q) < poq_capacity q"
    "poq_high_water q \<le> poq_capacity q"
    "coalescing_key m \<noteq> None \<longrightarrow> coalescing_key m \<notin> set (queued_keys (poq_messages q))"
  shows "output_queue_ok (store_message now m q)"
  using assms by (auto simp: output_queue_ok_def store_message_def queued_keys_def)

lemma push_message_ok:
  assumes ok: "output_queue_ok q" and cap: "0 < poq_capacity q"
  shows "output_queue_ok (fst (push_message now m q)) \<and> poq_capacity (fst (push_message now m q)) = poq_capacity q"
proof -
  let ?q = "drop_same_key m (q\<lparr>poq_last_sequence := Some (msg_sequence m)\<rparr>)"
  have d: "distinct (queued_keys (poq_messages (q\<lparr>poq_last_sequence := Some (msg_sequence m)\<rparr>)))"
    using ok by (simp add: output_queue_ok_def)
  note spec = drop_same_key_spec [OF d, of m]
  have len: "length (poq_messages ?q) \<le> poq_capacity ?q" and hw: "poq_high_water ?q \<le> poq_capacity ?q"
    and cap': "poq_capacity ?q = poq_capacity q" using spec ok by (auto simp: output_queue_ok_def)
  show ?thesis
  proof (cases "length (poq_messages ?q) = poq_capacity ?q")
    case full: True
    show ?thesis
    proof (cases "position (\<lambda>queued. coalescing_key queued \<noteq> None) (poq_messages ?q)")
      case None
      then show ?thesis using full spec len hw cap' by (simp add: push_message_def Let_def output_queue_ok_def)
    next
      case (Some i)
      then have i: "i < length (poq_messages ?q)" by (auto dest: position_SomeD)
      have keys: "distinct (queued_keys (remove_at i (poq_messages ?q)))"
        using queued_keys_remove spec by blast
      have sub: "set (queued_keys (remove_at i (poq_messages ?q))) \<subseteq> set (queued_keys (poq_messages ?q))"
        using set_remove_at [of i "poq_messages ?q"] by (auto simp: queued_keys_def)
      have "output_queue_ok (store_message now m (coalesce_at i ?q))"
        using i keys sub spec hw full cap by (intro store_ok) (auto simp: coalesce_at_def length_remove_at)
      then show ?thesis using Some full cap' i
        by (simp add: push_message_def Let_def store_message_def coalesce_at_def)
    qed
  next
    case False
    then have "output_queue_ok (store_message now m ?q)"
      using spec len hw by (intro store_ok) auto
    then show ?thesis using False cap' by (simp add: push_message_def Let_def store_message_def)
  qed
qed

lemma push_message_kept:
  "kept (poq_messages (fst (push_message now m q))) =
      kept (poq_messages q) @ (if snd (push_message now m q) then kept [m] else [])"
proof -
  let ?q = "drop_same_key m (q\<lparr>poq_last_sequence := Some (msg_sequence m)\<rparr>)"
  have same: "kept (poq_messages ?q) = kept (poq_messages q)" by (simp add: drop_same_key_kept)
  have store: "kept (poq_messages (store_message now m r)) = kept (poq_messages r) @ kept [m]" for r
    by (simp add: store_message_def kept_def)
  show ?thesis
  proof (cases "position (\<lambda>queued. coalescing_key queued \<noteq> None) (poq_messages ?q)")
    case None
    then show ?thesis by (simp add: push_message_def Let_def same store)
  next
    case (Some i)
    then have "kept (poq_messages (coalesce_at i ?q)) = kept (poq_messages ?q)"
      by (intro coalesce_kept) (auto dest: position_SomeD)
    then show ?thesis using Some by (simp add: push_message_def Let_def same store)
  qed
qed

lemma push_refused:
  assumes "\<not> snd (push_message now m q)"
  shows "poq_terminal_error (fst (push_message now m q)) = Some (IngressSaturated (poq_capacity q))
    \<and> length (kept (poq_messages q)) = poq_capacity q"
proof -
  let ?q = "drop_same_key m (q\<lparr>poq_last_sequence := Some (msg_sequence m)\<rparr>)"
  have cap: "poq_capacity ?q = poq_capacity q"
    by (simp add: drop_same_key_def coalesce_at_def split: option.split)
  from assms have full: "length (poq_messages ?q) = poq_capacity ?q"
    and none: "position (\<lambda>queued. coalescing_key queued \<noteq> None) (poq_messages ?q) = None"
    by (auto simp: push_message_def Let_def split: if_splits option.splits)
  have "kept (poq_messages ?q) = poq_messages ?q"
    using none by (simp add: position_None kept_def filter_id_conv)
  moreover have "kept (poq_messages ?q) = kept (poq_messages q)" by (simp add: drop_same_key_kept)
  ultimately show ?thesis using full none cap by (simp add: push_message_def Let_def)
qed

section \<open>Runs of the queue\<close>

text \<open>
  Messages arrive and the engine drains; the output are the messages drained and the messages
  refused. Draining after an error hands out the error and keeps the messages.
\<close>

datatype IngressEvent = Arrive Instant BridgeMessage | DrainAt Instant

fun ingress_step ::
  "ProcessOutputQueue \<Rightarrow> IngressEvent \<Rightarrow> unit + (ProcessOutputQueue \<times> (BridgeMessage list \<times> BridgeMessage list))" where
  "ingress_step q (Arrive now m) =
     (case push_message now m q of (q1, accepted) \<Rightarrow> Inr (q1, ([], if accepted then [] else [m])))"
| "ingress_step q (DrainAt now) =
     (case drain_messages now q of
        (q1, Inl _) \<Rightarrow> Inr (q1, ([], []))
      | (q1, Inr ms) \<Rightarrow> Inr (q1, (ms, [])))"

definition message_id :: "BridgeMessage \<Rightarrow> u64 \<times> BridgeTrafficClass \<times> BridgeEvent" where
  "message_id m = (msg_sequence m, msg_traffic_class m, msg_event m)"

abbreviation ids :: "BridgeMessage list \<Rightarrow> (u64 \<times> BridgeTrafficClass \<times> BridgeEvent) multiset" where
  "ids ms \<equiv> mset (map message_id (kept ms))"

fun arrived :: "IngressEvent list \<Rightarrow> BridgeMessage list" where
  "arrived [] = []"
| "arrived (Arrive now m # evs) = m # arrived evs"
| "arrived (DrainAt now # evs) = arrived evs"

lemma age_messages_fields:
  "poq_messages (fst (age_messages now q ms)) = poq_messages q
   \<and> poq_capacity (fst (age_messages now q ms)) = poq_capacity q
   \<and> poq_high_water (fst (age_messages now q ms)) = poq_high_water q
   \<and> map message_id (snd (age_messages now q ms)) = map message_id ms
   \<and> map coalescing_key (snd (age_messages now q ms)) = map coalescing_key ms"
proof (induction ms arbitrary: q)
  case (Cons m ms)
  obtain q1 m1 where a: "age_message now q m = (q1, m1)" by (cases "age_message now q m")
  then have "poq_messages q1 = poq_messages q" "poq_capacity q1 = poq_capacity q" "poq_high_water q1 = poq_high_water q"
    "message_id m1 = message_id m" "coalescing_key m1 = coalescing_key m"
    by (auto simp: age_message_def Let_def message_id_def coalescing_key_def)
  with Cons [of q1] a show ?case by (simp add: case_prod_beta)
qed simp

lemma kept_map: "map coalescing_key xs = map coalescing_key ys \<Longrightarrow> map message_id xs = map message_id ys \<Longrightarrow>
  map message_id (kept xs) = map message_id (kept ys)"
proof (induction xs arbitrary: ys)
  case (Cons x xs)
  then obtain y ys' where "ys = y # ys'" by (cases ys) auto
  with Cons show ?case by (auto simp: kept_def)
qed (simp add: kept_def)

lemma kept_append [simp]: "kept (xs @ ys) = kept xs @ kept ys" "kept [] = []"
  by (simp_all add: kept_def)

lemma ids_perm: "mset xs = mset ys \<Longrightarrow> ids xs = ids ys"
  unfolding kept_def mset_map mset_filter by simp

lemma drain_ids:
  "drain_messages now q = (q1, Inr ms) \<Longrightarrow>
   ids ms = ids (poq_messages q) \<and> poq_messages q1 = [] \<and> sorted (map drain_key ms)"
proof -
  assume d: "drain_messages now q = (q1, Inr ms)"
  let ?a = "age_messages now (q\<lparr>poq_messages := []\<rparr>) (poq_messages q)"
  from d have ms: "ms = sort_key drain_key (snd ?a)" and q1: "q1 = fst ?a"
    by (auto simp: drain_messages_def case_prod_beta split: option.splits)
  have "ids ms = ids (snd ?a)" by (rule ids_perm) (simp add: ms)
  also have "\<dots> = ids (poq_messages q)"
    using kept_map age_messages_fields [of now "q\<lparr>poq_messages := []\<rparr>" "poq_messages q"] by metis
  finally show ?thesis
    using age_messages_fields [of now "q\<lparr>poq_messages := []\<rparr>" "poq_messages q"] ms q1 by simp
qed

lemma ingress_step_ids:
  "ingress_step q ev = Inr (q1, (drained, refused)) \<Longrightarrow>
   ids drained + ids refused + ids (poq_messages q1) = ids (poq_messages q) + ids (arrived [ev])"
proof (cases ev)
  case (Arrive now m)
  assume "ingress_step q ev = Inr (q1, (drained, refused))"
  with Arrive push_message_kept [of now m q] show ?thesis
    by (auto split: prod.splits if_splits)
next
  case (DrainAt now)
  assume step: "ingress_step q ev = Inr (q1, (drained, refused))"
  show ?thesis
  proof (cases "poq_terminal_error q")
    case None
    then obtain q' ms where d: "drain_messages now q = (q', Inr ms)"
      by (auto simp: drain_messages_def case_prod_beta)
    with step DrainAt drain_ids [OF d] show ?thesis by auto
  next
    case (Some e)
    with step DrainAt show ?thesis by (auto simp: drain_messages_def)
  qed
qed

lemma ingress_step_total: "\<exists>q1 drained refused. ingress_step q ev = Inr (q1, (drained, refused))"
proof (cases ev)
  case (DrainAt now)
  then show ?thesis by (cases "drain_messages now q"; cases "snd (drain_messages now q)") auto
qed (auto simp: case_prod_beta)

lemma arrived_Cons: "ids (arrived (ev # evs)) = ids (arrived [ev]) + ids (arrived evs)"
  using kept_append(1) [of "arrived [ev]" "arrived evs"] by (cases ev) simp_all

lemma ingress_run_ids:
  "run_machine ingress_step q evs = (q1, outs) \<Longrightarrow>
   ids (concat (map fst outs)) + ids (concat (map snd outs)) + ids (poq_messages q1)
     = ids (poq_messages q) + ids (arrived evs)"
proof (induction evs arbitrary: q outs)
  case (Cons ev evs)
  obtain q' drained refused where step: "ingress_step q ev = Inr (q', (drained, refused))"
    using ingress_step_total by blast
  obtain t outs' where run: "run_machine ingress_step q' evs = (t, outs')"
    by (cases "run_machine ingress_step q' evs")
  from Cons.prems step run have outs: "outs = (drained, refused) # outs'" "t = q1" by auto
  have "ids (concat (map fst outs')) + ids (concat (map snd outs')) + ids (poq_messages q1)
      = ids (poq_messages q') + ids (arrived evs)"
    using Cons.IH run outs by simp
  then have "ids drained + ids refused + (ids (concat (map fst outs')) + ids (concat (map snd outs')) + ids (poq_messages q1))
      = ids drained + ids refused + ids (poq_messages q') + ids (arrived evs)"
    by (simp only: add.assoc)
  also have "\<dots> = ids (poq_messages q) + ids (arrived [ev]) + ids (arrived evs)"
    using ingress_step_ids [OF step] by (simp only:)
  finally have "ids drained + ids refused + (ids (concat (map fst outs')) + ids (concat (map snd outs')) + ids (poq_messages q1))
      = ids (poq_messages q) + ids (arrived (ev # evs))"
    by (simp only: arrived_Cons [of ev evs] add.assoc)
  then show ?case by (simp only: outs list.map concat.simps kept_append map_append mset_append fst_conv snd_conv ac_simps)
qed simp

text \<open>
  C28. No critical message is lost or doubled between the bridge and the engine: over any
  sequence of arrivals and drains, the messages that may not be replaced were each drained,
  refused or are still queued exactly as often as they arrived, and a message is only refused,
  with an error, when the queue is full of such messages.
\<close>

theorem ingress_keeps_critical:
  "(case run_machine ingress_step (new_output_queue capacity) evs of (q, outs) \<Rightarrow>
      ids (concat (map fst outs)) + ids (concat (map snd outs)) + ids (poq_messages q) = ids (arrived evs))
   \<and> (\<forall>q now m. snd (push_message now m q) \<or>
        (poq_terminal_error (fst (push_message now m q)) = Some (IngressSaturated (poq_capacity q))
         \<and> length (kept (poq_messages q)) = poq_capacity q))"
proof
  obtain q outs where run: "run_machine ingress_step (new_output_queue capacity) evs = (q, outs)"
    by (cases "run_machine ingress_step (new_output_queue capacity) evs")
  from ingress_run_ids [OF run] run
  show "case run_machine ingress_step (new_output_queue capacity) evs of (q, outs) \<Rightarrow>
      ids (concat (map fst outs)) + ids (concat (map snd outs)) + ids (poq_messages q) = ids (arrived evs)"
    by (simp add: new_output_queue_def)
qed (use push_refused in blast)

section \<open>Bounds\<close>

lemma ingress_step_ok:
  assumes "output_queue_ok q \<and> 0 < poq_capacity q" "ingress_step q ev = Inr (q1, out)"
  shows "output_queue_ok q1 \<and> poq_capacity q1 = poq_capacity q"
proof (cases ev)
  case (Arrive now m)
  with assms push_message_ok [of q now m] show ?thesis by (auto split: prod.splits)
next
  case (DrainAt now)
  show ?thesis
  proof (cases "poq_terminal_error q")
    case None
    with assms DrainAt age_messages_fields [of now "q\<lparr>poq_messages := []\<rparr>" "poq_messages q"] show ?thesis
      by (auto simp: drain_messages_def case_prod_beta output_queue_ok_def queued_keys_def)
  next
    case (Some e)
    with assms DrainAt show ?thesis by (auto simp: drain_messages_def output_queue_ok_def)
  qed
qed

interpretation ingress_machine: invariant_machine ingress_step
  "\<lambda>q. output_queue_ok q \<and> 0 < poq_capacity q \<and> poq_capacity q = capacity" "\<lambda>_. True" for capacity
proof unfold_locales
  fix q ev q1 out
  assume "output_queue_ok q \<and> 0 < poq_capacity q \<and> poq_capacity q = capacity" "ingress_step q ev = Inr (q1, out)"
  then show "output_queue_ok q1 \<and> 0 < poq_capacity q1 \<and> poq_capacity q1 = capacity"
    using ingress_step_ok [of q ev q1 out] by simp
qed

text \<open>
  The queue stays within its capacity and holds at most one message per player and kind of
  replaceable traffic, however messages arrive and whenever they are drained.
\<close>

theorem ingress_stays_bounded:
  assumes "0 < capacity"
  shows "case fst (run_machine ingress_step (new_output_queue capacity) evs) of q \<Rightarrow>
      length (poq_messages q) \<le> capacity \<and> poq_high_water q \<le> capacity \<and> distinct (queued_keys (poq_messages q))"
proof -
  have "output_queue_ok (new_output_queue capacity) \<and> 0 < poq_capacity (new_output_queue capacity)
      \<and> poq_capacity (new_output_queue capacity) = capacity"
    using assms by (simp add: output_queue_ok_def new_output_queue_def queued_keys_def)
  from ingress_machine.inv_run_from [OF this, of evs] show ?thesis
    by (auto simp: output_queue_ok_def list_all_iff)
qed

definition demo_message :: "u64 \<Rightarrow> BridgeMessage" where
  "demo_message n = \<lparr>msg_packet_origin = None, msg_sequence = n, msg_observed_at_nanos = 0, msg_traffic_class = ClassDisplay,
     msg_bridge_queue_age_micros = 0, msg_ingress_queue_age_micros = 0,
     msg_event = BrTrackSignature \<lparr>sig_deck_number = 1, sig_signature = None\<rparr>\<rparr>"

theorem ingress_stays_bounded_witness:
  "length (poq_messages (fst (run_machine ingress_step (new_output_queue 1)
      [Arrive 0 (demo_message 1), Arrive 0 (demo_message 2)]))) \<le> 1"
  using ingress_stays_bounded [of 1 "[Arrive 0 (demo_message 1), Arrive 0 (demo_message 2)]"] by simp

end
