(* ===== verification/Prolink_Provider.thy ===== *)
theory Prolink_Provider
  imports Prolink_Ingress Events Rust_Text
begin

text \<open>
  The deck source of the players on the network (\<open>lumi-prolink-input/src/provider.rs\<close>): it turns
  the messages of the bridge into observations for the reducer and into timing observations. A
  \<open>BTreeMap\<close> over decks is a partial function on the 256 deck numbers. A method that fails keeps
  what it changed before the failure, so it returns the provider and a result. \<open>now\<close> is what
  \<open>Instant::now\<close> reads; a method that reads it more than once reads one value here.
\<close>

section \<open>Data\<close>

definition SOURCE_ID :: u64 where
  "SOURCE_ID = 31"

definition DEFAULT_TRACK_MINUTES :: u32 where
  "DEFAULT_TRACK_MINUTES = 10"

definition POSITION_CONTINUITY_TOLERANCE_BEATS :: f64 where
  "POSITION_CONTINUITY_TOLERANCE_BEATS = 9 / 4"

definition POSITION_AUTHORITY_DIAGNOSTIC_MAX_AGE :: Duration where
  "POSITION_AUTHORITY_DIAGNOSTIC_MAX_AGE = 500000000"

definition PRECISE_POSITION_FORWARD_SEEK_TOLERANCE_MILLIS :: u64 where
  "PRECISE_POSITION_FORWARD_SEEK_TOLERANCE_MILLIS = 750"

definition PRECISE_POSITION_HOT_CUE_CONFIRMATIONS :: u8 where
  "PRECISE_POSITION_HOT_CUE_CONFIRMATIONS = 2"

definition PRECISE_POSITION_STATUS_TOLERANCE_BEATS :: u32 where
  "PRECISE_POSITION_STATUS_TOLERANCE_BEATS = 1"

definition STATUS_DISCONTINUITY_CONFIRMATIONS :: u8 where
  "STATUS_DISCONTINUITY_CONFIRMATIONS = 3"

definition STATUS_DISCONTINUITY_MAX_AGE_NANOS :: u64 where
  "STATUS_DISCONTINUITY_MAX_AGE_NANOS = 1000000000"

definition STATUS_BACKWARD_JITTER_MAX_BEATS :: u32 where
  "STATUS_BACKWARD_JITTER_MAX_BEATS = 8"

record ProLinkTrackIdentity =
  idn_rekordbox_id :: u32
  idn_source_player :: u8
  idn_source_slot :: string
  idn_signature :: "string option"

record ProLinkTransportSnapshot =
  tsn_beat :: u32
  tsn_effective_bpm_milli :: u32
  tsn_playing :: bool
  tsn_discontinuity_revision :: u64
  tsn_anchor_observed_at :: Instant

record ProLinkTimingObservation =
  tob_deck_id :: DeckId
  tob_observed_at_nanos :: u64
  tob_absolute_beat :: u32
  tob_effective_bpm_milli :: u32
  tob_beat_within_bar :: u8
  tob_playing :: bool
  tob_generation :: u64
  tob_discontinuity :: bool

record ProLinkPrecisePositionObservation =
  ppo_deck_id :: DeckId
  ppo_track_load_id :: TrackLoadId
  ppo_observed_at_nanos :: u64
  ppo_playback_position_millis :: u64
  ppo_effective_bpm_milli :: u32
  ppo_beat_within_bar :: u8

record ProLinkAuthoritativePosition =
  aup_deck_id :: DeckId
  aup_track_load_id :: TrackLoadId
  aup_absolute_beat :: u32
  aup_effective_bpm_milli :: u32
  aup_playing :: bool
  aup_generation :: u64
  aup_discontinuity :: bool

record PendingPreciseDiscontinuity =
  ppd_playback_position_millis :: u64
  ppd_absolute_beat :: u32
  ppd_observed_at_nanos :: u64
  ppd_confirmation_count :: u8

record StatusDiscontinuity =
  sd_absolute_beat :: u32
  sd_observed_at_nanos :: u64

record PendingStatusDiscontinuity =
  psd_absolute_beat :: u32
  psd_observed_at_nanos :: u64
  psd_confirmation_count :: u8

record PrecisePositionCandidate =
  ppc_playback_position_millis :: u64
  ppc_absolute_beat :: u32
  ppc_observed_at_nanos :: u64
  ppc_track_bpm_milli :: u32
  ppc_effective_bpm_milli :: u32
  ppc_playing :: bool

record LoadedDeck =
  ld_identity :: ProLinkTrackIdentity
  ld_track_load_id :: TrackLoadId
  ld_metadata :: TrackMetadata
  ld_beat :: u32
  ld_last_status_beat :: u32
  ld_last_status_observed_at_nanos :: u64
  ld_pending_status_discontinuity :: "PendingStatusDiscontinuity option"
  ld_last_status_discontinuity :: "StatusDiscontinuity option"
  ld_phrase_index :: "u16 option"
  ld_precise_position_seen :: bool
  ld_last_precise_position_received_at :: "Instant option"
  ld_last_exact_beat_received_at :: "Instant option"
  ld_last_precise_position_millis :: "u64 option"
  ld_last_precise_position_observed_at_nanos :: "u64 option"
  ld_pending_precise_discontinuity :: "PendingPreciseDiscontinuity option"
  ld_last_position_observed_at_nanos :: u64
  ld_effective_bpm_milli :: u32
  ld_playing :: bool
  ld_discontinuity_revision :: u64
  ld_transport_anchor_observed_at :: Instant

record ProLinkDiscoveredDevice =
  disc_name :: string
  disc_address :: string

text \<open>The texts of \<open>last_error\<close>: a failure of the bridge, or the message of \<open>mark_degraded\<close>.\<close>

datatype ProviderErrorText =
    BridgeFailed string string
  | DegradedText string

text \<open>The fields \<open>ingress_*\<close> of the provider, copies of what the queue of the bridge reports.\<close>

record IngressMetrics =
  ing_queue_capacity :: nat
  ing_queue_depth :: nat
  ing_queue_high_water :: nat
  ing_coalesced_message_count :: u64
  ing_critical_saturation_count :: u64
  ing_source_age_sample_count :: u64
  ing_source_age_p50_micros :: u64
  ing_source_age_p95_micros :: u64
  ing_source_age_p99_micros :: u64
  ing_source_age_max_micros :: u64

record ProLinkDeckSourceProvider =
  pl_source_id :: SourceId
  pl_sequence :: u64
  pl_next_track_load_id :: u64
  pl_decks :: "DeckId \<Rightarrow> LoadedDeck option"
  pl_devices :: "u8 \<Rightarrow> ProLinkDiscoveredDevice option"
  pl_signatures :: "u8 \<Rightarrow> string option option"
  pl_leader_deck_id :: "DeckId option"
  pl_pending_events :: "DomainEvent list"
  pl_source_status :: DeckSourceStatus
  pl_received_message_count :: u64
  pl_ignored_message_count :: u64
  pl_last_bridge_sequence :: "u64 option"
  pl_bridge_version :: "string option"
  pl_beat_link_version :: "string option"
  pl_last_error :: "ProviderErrorText option"
  pl_ingress :: IngressMetrics
  pl_precise_position_message_count :: u64
  pl_authoritative_position_count :: u64
  pl_position_discontinuity_count :: u64
  pl_timing_generation :: u64
  pl_timing_observations :: "ProLinkTimingObservation list"
  pl_precise_position_observations :: "ProLinkPrecisePositionObservation list"

datatype ProLinkProviderError =
    PlSequenceOverflow
  | PlTrackLoadIdOverflow
  | PlTimingGenerationOverflow
  | PlLoadedDeckMissing
  | PlInvalidBpm f64
  | PlInvalidBeatNumber int
  | PlInvalidTrack TrackValidationError

section \<open>Helpers\<close>

fun source_status :: "SourceCondition \<Rightarrow> DeckSourceStatus" where
  "source_status CondStarting = Starting"
| "source_status CondDiscovering = Starting"
| "source_status CondReady = DeckSourceStatus.Ready"
| "source_status CondDegraded = Degraded"
| "source_status CondStopped = Disconnected"

definition bpm_milli :: "f64 \<Rightarrow> ProLinkProviderError + u32" where
  "bpm_milli bpm =
     (let milli = round_away (f64_mul bpm 1000) in
      if \<not> (20000 \<le> milli \<and> milli \<le> 300000) then Inl (PlInvalidBpm bpm)
      else Inr (of_int (floor milli)))"

definition placeholder_duration_beats :: "u32 \<Rightarrow> u32 \<Rightarrow> u32" where
  "placeholder_duration_beats bpm current_beat =
     max (saturating_mul bpm DEFAULT_TRACK_MINUTES div 1000) (saturating_add current_beat 1)"

definition track_identity_key :: "ProLinkTrackIdentity \<Rightarrow> u64" where
  "track_identity_key i = or (push_bit 56 (ucast (idn_source_player i))) (ucast (idn_rekordbox_id i))"

definition phrase_index_at :: "TrackMetadata \<Rightarrow> u32 \<Rightarrow> u16 option" where
  "phrase_index_at metadata beat =
     map_option phrase_index
       (case find (\<lambda>p. beat \<ge> phrase_start_beat p \<and> beat < phrase_end_beat p) (track_phrases metadata) of
          Some p \<Rightarrow> Some p
        | None \<Rightarrow>
            if track_phrases metadata \<noteq> [] \<and> beat \<ge> phrase_start_beat (last (track_phrases metadata))
            then Some (last (track_phrases metadata)) else None)"

definition align_beat_within_bar :: "u32 \<Rightarrow> u8 \<Rightarrow> u32" where
  "align_beat_within_bar reference beat_within_bar =
     (let remainder = ucast (min (saturating_sub beat_within_bar 1) 3);
          base = saturating_add (saturating_sub reference (reference mod 4)) remainder in
      min_by_key (\<lambda>candidate. abs_diff candidate reference) (saturating_sub base 4) [base, saturating_add base 4])"

definition precise_absolute_beat :: "u32 \<Rightarrow> u32 option \<Rightarrow> u8 \<Rightarrow> u32" where
  "precise_absolute_beat status_beat previous_precise_beat beat_within_bar =
     (let remainder = ucast (min (saturating_sub beat_within_bar 1) 3);
          reference = (case previous_precise_beat of
                         None \<Rightarrow> status_beat
                       | Some beat \<Rightarrow> max status_beat (saturating_add beat 1));
          base = saturating_add (saturating_sub reference (reference mod 4)) remainder in
      min_by_key (\<lambda>candidate. abs_diff candidate reference) (saturating_sub base 4) [base, saturating_add base 4])"

definition position_is_discontinuous :: "u32 \<Rightarrow> u32 \<Rightarrow> u64 \<Rightarrow> u64 \<Rightarrow> u32 \<Rightarrow> bool \<Rightarrow> bool" where
  "position_is_discontinuous previous_beat candidate_beat previous_observed observed bpm playing =
     (if \<not> playing then previous_beat \<noteq> candidate_beat
      else let elapsed = saturating_sub observed previous_observed;
               progress = f64_div (f64_div (f64_mul (f64_of_word elapsed) (f64_of_word bpm)) 1000) 60000000000;
               expected = f64_add (f64_of_word previous_beat) progress in
           f64_add (f64_of_word candidate_beat) POSITION_CONTINUITY_TOLERANCE_BEATS < f64_of_word previous_beat
           \<or> f64_of_word candidate_beat > f64_add expected POSITION_CONTINUITY_TOLERANCE_BEATS)"

definition position_millis_is_discontinuous ::
  "u64 option \<Rightarrow> u64 \<Rightarrow> u64 option \<Rightarrow> u64 \<Rightarrow> u32 \<Rightarrow> u32 \<Rightarrow> bool \<Rightarrow> bool" where
  "position_millis_is_discontinuous previous_position candidate previous_observed observed track_bpm effective_bpm playing =
     (case (previous_position, previous_observed) of
        (Some pos, Some previous) \<Rightarrow>
          if \<not> playing then pos \<noteq> candidate
          else if candidate < pos then True
          else let elapsed_millis = saturating_sub observed previous div 1000000;
                   progress_nat = unat elapsed_millis * unat effective_bpm div max (unat track_bpm) 1;
                   progress = (if progress_nat < 2 ^ 64 then of_nat progress_nat else - 1);
                   expected = saturating_add pos progress in
               candidate > saturating_add expected PRECISE_POSITION_FORWARD_SEEK_TOLERANCE_MILLIS
      | _ \<Rightarrow> False)"

definition confirmed_precise_discontinuity ::
  "PendingPreciseDiscontinuity option \<Rightarrow> PrecisePositionCandidate \<Rightarrow> PendingPreciseDiscontinuity" where
  "confirmed_precise_discontinuity pending candidate =
     (let count = (case pending of
                     None \<Rightarrow> 1
                   | Some p \<Rightarrow>
                       if abs_diff (ppd_absolute_beat p) (ppc_absolute_beat candidate) \<le> 1
                          \<and> \<not> position_millis_is_discontinuous (Some (ppd_playback_position_millis p))
                                (ppc_playback_position_millis candidate) (Some (ppd_observed_at_nanos p))
                                (ppc_observed_at_nanos candidate) (ppc_track_bpm_milli candidate)
                                (ppc_effective_bpm_milli candidate) (ppc_playing candidate)
                       then saturating_add (ppd_confirmation_count p) 1 else 1) in
      \<lparr>ppd_playback_position_millis = ppc_playback_position_millis candidate,
       ppd_absolute_beat = ppc_absolute_beat candidate,
       ppd_observed_at_nanos = ppc_observed_at_nanos candidate, ppd_confirmation_count = count\<rparr>)"

definition status_corroborates_discontinuity :: "StatusDiscontinuity option \<Rightarrow> u32 \<Rightarrow> u64 \<Rightarrow> bool" where
  "status_corroborates_discontinuity status absolute_beat observed =
     (case status of
        None \<Rightarrow> False
      | Some s \<Rightarrow> abs_diff (sd_absolute_beat s) absolute_beat \<le> PRECISE_POSITION_STATUS_TOLERANCE_BEATS
          \<and> abs_diff observed (sd_observed_at_nanos s) \<le> STATUS_DISCONTINUITY_MAX_AGE_NANOS)"

definition status_timeline_matches :: "u32 \<Rightarrow> u64 \<Rightarrow> u32 \<Rightarrow> u64 \<Rightarrow> bool" where
  "status_timeline_matches status_beat status_observed absolute_beat observed \<longleftrightarrow>
     abs_diff status_beat absolute_beat \<le> PRECISE_POSITION_STATUS_TOLERANCE_BEATS
   \<and> abs_diff observed status_observed \<le> STATUS_DISCONTINUITY_MAX_AGE_NANOS"

definition status_jump_can_be_discontinuity :: "u32 \<Rightarrow> u32 \<Rightarrow> bool" where
  "status_jump_can_be_discontinuity previous_beat candidate_beat \<longleftrightarrow>
     candidate_beat \<ge> previous_beat \<or> abs_diff previous_beat candidate_beat > STATUS_BACKWARD_JITTER_MAX_BEATS"

definition status_discontinuity_is_still_supported :: "StatusDiscontinuity \<Rightarrow> u32 \<Rightarrow> u64 \<Rightarrow> bool" where
  "status_discontinuity_is_still_supported candidate current_beat observed \<longleftrightarrow>
     abs_diff (sd_absolute_beat candidate) current_beat \<le> PRECISE_POSITION_STATUS_TOLERANCE_BEATS
   \<and> abs_diff observed (sd_observed_at_nanos candidate) \<le> STATUS_DISCONTINUITY_MAX_AGE_NANOS"

definition advance_confirmed_status_landing ::
  "StatusDiscontinuity \<Rightarrow> u32 \<Rightarrow> u64 \<Rightarrow> u32 \<Rightarrow> u64 \<Rightarrow> u32 \<Rightarrow> StatusDiscontinuity option" where
  "advance_confirmed_status_landing candidate previous_beat previous_observed beat observed bpm =
     (if observed < previous_observed
         \<or> \<not> status_discontinuity_is_still_supported candidate previous_beat previous_observed
         \<or> abs_diff observed (sd_observed_at_nanos candidate) > STATUS_DISCONTINUITY_MAX_AGE_NANOS
         \<or> beat < previous_beat
         \<or> position_is_discontinuous previous_beat beat previous_observed observed bpm True
      then None
      else Some (candidate\<lparr>sd_absolute_beat := beat\<rparr>))"

definition confirmed_status_discontinuity ::
  "PendingStatusDiscontinuity option \<Rightarrow> u32 \<Rightarrow> u64 \<Rightarrow> u32 \<Rightarrow> PendingStatusDiscontinuity" where
  "confirmed_status_discontinuity pending absolute_beat observed bpm =
     (let count = (case pending of
                     None \<Rightarrow> 1
                   | Some p \<Rightarrow>
                       if \<not> position_is_discontinuous (psd_absolute_beat p) absolute_beat (psd_observed_at_nanos p)
                              observed bpm True
                       then saturating_add (psd_confirmation_count p) 1 else 1) in
      \<lparr>psd_absolute_beat = absolute_beat, psd_observed_at_nanos = observed, psd_confirmation_count = count\<rparr>)"

section \<open>Private operations\<close>

type_synonym 'a provider_result = "ProLinkDeckSourceProvider \<times> (ProLinkProviderError + 'a)"

definition advance_timing_generation :: "ProLinkDeckSourceProvider \<Rightarrow> unit provider_result" where
  "advance_timing_generation p =
     (case checked_add (pl_timing_generation p) 1 of
        None \<Rightarrow> (p, Inl PlTimingGenerationOverflow)
      | Some g \<Rightarrow> (p\<lparr>pl_timing_generation := g\<rparr>, Inr ()))"

definition emit :: "MonotonicTime \<Rightarrow> DeckObservation \<Rightarrow> ProLinkDeckSourceProvider \<Rightarrow> unit provider_result" where
  "emit stamp observation p =
     (case checked_add (pl_sequence p) 1 of
        None \<Rightarrow> (p, Inl PlSequenceOverflow)
      | Some s \<Rightarrow>
          (p\<lparr>pl_sequence := s,
             pl_pending_events := pl_pending_events p @
               [DomainEvent.Observation \<lparr>obs_source_id = pl_source_id p, obs_sequence = s, obs_observed_at = stamp,
                  obs_observation = observation\<rparr>]\<rparr>, Inr ()))"

definition unload_deck :: "DeckId \<Rightarrow> MonotonicTime \<Rightarrow> ProLinkDeckSourceProvider \<Rightarrow> unit provider_result" where
  "unload_deck deck stamp p =
     state_then
       (case pl_decks p deck of
          None \<Rightarrow> (p, Inr ())
        | Some previous \<Rightarrow>
            emit stamp (DeckObservation.TrackUnloaded deck (ld_track_load_id previous))
              (p\<lparr>pl_decks := (pl_decks p)(deck := None)\<rparr>))
       (\<lambda>p _. (if pl_leader_deck_id p = Some deck then p\<lparr>pl_leader_deck_id := None\<rparr> else p, Inr ()))"

definition update_source_status :: "DeckSourceStatus \<Rightarrow> MonotonicTime \<Rightarrow> ProLinkDeckSourceProvider \<Rightarrow> unit provider_result" where
  "update_source_status status stamp p =
     (if pl_source_status p \<noteq> status
      then emit stamp (DeckObservation.SourceStatusChanged status)
             (p\<lparr>pl_source_status := status,
                pl_last_error := (if status = DeckSourceStatus.Ready then None else pl_last_error p)\<rparr>)
      else (p, Inr ()))"

definition update_deck :: "DeckId \<Rightarrow> (LoadedDeck \<Rightarrow> LoadedDeck) \<Rightarrow> ProLinkDeckSourceProvider \<Rightarrow> ProLinkDeckSourceProvider" where
  "update_deck deck f p =
     (case pl_decks p deck of
        None \<Rightarrow> p
      | Some d \<Rightarrow> p\<lparr>pl_decks := (pl_decks p)(deck \<mapsto> f d)\<rparr>)"

definition push_timing :: "ProLinkTimingObservation \<Rightarrow> ProLinkDeckSourceProvider \<Rightarrow> ProLinkDeckSourceProvider" where
  "push_timing obs p = p\<lparr>pl_timing_observations := pl_timing_observations p @ [obs]\<rparr>"

text \<open>\<open>self.emit(..)?\<close> under a condition.\<close>

definition emit_if :: "bool \<Rightarrow> MonotonicTime \<Rightarrow> DeckObservation \<Rightarrow> ProLinkDeckSourceProvider \<Rightarrow> unit provider_result" where
  "emit_if condition stamp observation p = (if condition then emit stamp observation p else (p, Inr ()))"

definition advance_if :: "bool \<Rightarrow> ProLinkDeckSourceProvider \<Rightarrow> unit provider_result" where
  "advance_if condition p = (if condition then advance_timing_generation p else (p, Inr ()))"

section \<open>Deck status\<close>

definition placeholder_title :: "ProLinkTrackIdentity \<Rightarrow> string" where
  "placeholder_title i = ''External track '' @ show_nat (unat (idn_rekordbox_id i))"

text \<open>The deck that a status message of a new track puts in place.\<close>

definition fresh_deck ::
  "ProLinkTrackIdentity \<Rightarrow> TrackLoadId \<Rightarrow> TrackMetadata \<Rightarrow> u32 \<Rightarrow> u64 \<Rightarrow> u32 \<Rightarrow> bool \<Rightarrow> u64 \<Rightarrow> Instant \<Rightarrow> LoadedDeck" where
  "fresh_deck i load metadata beat observed effective playing generation now =
     \<lparr>ld_identity = i, ld_track_load_id = load, ld_metadata = metadata, ld_beat = beat, ld_last_status_beat = beat,
      ld_last_status_observed_at_nanos = observed, ld_pending_status_discontinuity = None,
      ld_last_status_discontinuity = None, ld_phrase_index = None, ld_precise_position_seen = False,
      ld_last_precise_position_received_at = None, ld_last_exact_beat_received_at = None,
      ld_last_precise_position_millis = None, ld_last_precise_position_observed_at_nanos = None,
      ld_pending_precise_discontinuity = None, ld_last_position_observed_at_nanos = observed,
      ld_effective_bpm_milli = effective, ld_playing = playing, ld_discontinuity_revision = generation,
      ld_transport_anchor_observed_at = now\<rparr>"

text \<open>The branch \<open>needs_load\<close> of \<open>apply_status\<close>: the next load number, the placeholder of the track,
  the deck and its announcement.\<close>

definition allocate_load :: "ProLinkDeckSourceProvider \<Rightarrow> TrackLoadId provider_result" where
  "allocate_load p =
     (case checked_add (pl_next_track_load_id p) 1 of
        None \<Rightarrow> (p, Inl PlTrackLoadIdOverflow)
      | Some n \<Rightarrow> (p\<lparr>pl_next_track_load_id := n\<rparr>, Inr (pl_next_track_load_id p)))"

definition placeholder_track :: "DeckStatus \<Rightarrow> ProLinkTrackIdentity \<Rightarrow> u32 \<Rightarrow> u32 \<Rightarrow> ProLinkProviderError + TrackMetadata" where
  "placeholder_track status i track_bpm beat =
     map_err PlInvalidTrack
       (try_new_unanalyzed (track_identity_key i) (placeholder_title i) (ds_device_name status) track_bpm
          \<lparr>key_pitch_class = PitchC, key_mode = Minor\<rparr> (placeholder_duration_beats track_bpm beat))"

definition announce_load ::
  "DeckId \<Rightarrow> TrackLoadId \<Rightarrow> TrackMetadata \<Rightarrow> u32 \<Rightarrow> u32 \<Rightarrow> u32 \<Rightarrow> bool \<Rightarrow> MonotonicTime \<Rightarrow> ProLinkDeckSourceProvider \<Rightarrow>
   unit provider_result" where
  "announce_load deck load metadata track_bpm effective beat playing stamp p =
     state_then (emit stamp (DeckObservation.TrackLoaded deck metadata load) p) (\<lambda>p _.
     state_then (emit stamp (DeckObservation.PlaybackPosition deck load beat) p) (\<lambda>p _.
     state_then (emit_if (effective \<noteq> track_bpm) stamp (DeckObservation.PlaybackTempoChanged deck load effective) p) (\<lambda>p _.
     emit stamp (DeckObservation.PlaybackStateChanged deck load playing) p)))"

definition load_from_status ::
  "DeckStatus \<Rightarrow> ProLinkTrackIdentity \<Rightarrow> u32 \<Rightarrow> u32 \<Rightarrow> u32 \<Rightarrow> u64 \<Rightarrow> MonotonicTime \<Rightarrow> Instant \<Rightarrow>
   ProLinkDeckSourceProvider \<Rightarrow> unit provider_result" where
  "load_from_status status i track_bpm effective beat observed stamp now p =
     (let deck = ds_device_number status in
      state_then (advance_timing_generation p) (\<lambda>p _.
      state_then (unload_deck deck stamp p) (\<lambda>p _.
      state_then (allocate_load p) (\<lambda>p load.
      state_then (p, placeholder_track status i track_bpm beat) (\<lambda>p metadata.
      announce_load deck load metadata track_bpm effective beat (ds_playing status) stamp
        (p\<lparr>pl_decks := (pl_decks p)(deck \<mapsto> fresh_deck i load metadata beat observed effective
                 (ds_playing status) (pl_timing_generation p) now)\<rparr>))))))"

text \<open>What a status message changes in a deck whose track stays (the \<open>get_mut\<close> block).\<close>

definition follow_deck ::
  "LoadedDeck \<Rightarrow> DeckStatus \<Rightarrow> u32 \<Rightarrow> u32 \<Rightarrow> u64 \<Rightarrow> bool \<Rightarrow> bool \<Rightarrow> bool \<Rightarrow> u64 \<Rightarrow> Instant \<Rightarrow> LoadedDeck \<Rightarrow> LoadedDeck" where
  "follow_deck previous status effective beat observed seeked candidate discontinuity generation now deck =
     (let d1 = (if seeked \<or> \<not> ld_playing previous then deck\<lparr>ld_beat := beat\<rparr> else deck);
          d2 = (if seeked \<or> (\<not> ld_playing previous \<and> ld_beat previous \<noteq> beat) \<or> ld_playing previous \<noteq> ds_playing status
                then d1\<lparr>ld_transport_anchor_observed_at := now\<rparr> else d1);
          d3 = d2\<lparr>ld_last_position_observed_at_nanos := observed\<rparr>;
          d4 = (if candidate
                then let pending = confirmed_status_discontinuity (ld_pending_status_discontinuity previous) beat
                                     observed effective in
                     if psd_confirmation_count pending \<ge> STATUS_DISCONTINUITY_CONFIRMATIONS
                     then d3\<lparr>ld_last_status_beat := beat, ld_last_status_observed_at_nanos := observed,
                             ld_pending_status_discontinuity := None,
                             ld_last_status_discontinuity := Some \<lparr>sd_absolute_beat = beat, sd_observed_at_nanos = observed\<rparr>\<rparr>
                     else d3\<lparr>ld_pending_status_discontinuity := Some pending\<rparr>
                else d3\<lparr>ld_last_status_beat := beat, ld_last_status_observed_at_nanos := observed,
                        ld_pending_status_discontinuity := None,
                        ld_last_status_discontinuity :=
                          Option.bind (ld_last_status_discontinuity previous) (\<lambda>c.
                            advance_confirmed_status_landing c (ld_last_status_beat previous)
                              (ld_last_status_observed_at_nanos previous) beat observed effective)\<rparr>);
          d5 = d4\<lparr>ld_effective_bpm_milli := effective, ld_playing := ds_playing status\<rparr> in
      if discontinuity then d5\<lparr>ld_discontinuity_revision := generation\<rparr> else d5)"

text \<open>
  The other branch of \<open>apply_status\<close>; its result are the flags \<open>discontinuity\<close>,
  \<open>stopped_timing_changed\<close> and \<open>playing_tempo_changed\<close>.
\<close>

definition follow_status ::
  "LoadedDeck \<Rightarrow> DeckStatus \<Rightarrow> u32 \<Rightarrow> u32 \<Rightarrow> u64 \<Rightarrow> MonotonicTime \<Rightarrow> Instant \<Rightarrow> ProLinkDeckSourceProvider \<Rightarrow>
   (bool \<times> bool \<times> bool) provider_result" where
  "follow_status previous status effective beat observed stamp now p =
     (let deck = ds_device_number status;
          load = ld_track_load_id previous;
          tempo_changed = (ld_effective_bpm_milli previous \<noteq> effective);
          playing_tempo_changed = (tempo_changed \<and> ld_playing previous \<and> ds_playing status);
          seeked = (\<not> ld_playing previous \<and> ld_beat previous \<noteq> beat
            \<and> position_is_discontinuous (ld_beat previous) beat (ld_last_position_observed_at_nanos previous) observed
                (ld_effective_bpm_milli previous) (ld_playing previous));
          candidate = (ld_playing previous \<and> ds_playing status
            \<and> status_jump_can_be_discontinuity (ld_last_status_beat previous) beat
            \<and> position_is_discontinuous (ld_last_status_beat previous) beat
                (ld_last_status_observed_at_nanos previous) observed (ld_effective_bpm_milli previous) True);
          started = (\<not> ld_playing previous \<and> ds_playing status);
          changed = (ld_playing previous \<noteq> ds_playing status);
          moved_seek = (ld_beat previous \<noteq> beat \<and> seeked);
          discontinuity = (moved_seek \<or> started) in
      state_then (emit_if tempo_changed stamp (DeckObservation.PlaybackTempoChanged deck load effective) p) (\<lambda>p _.
      state_then (advance_if moved_seek p) (\<lambda>p _.
      state_then (emit_if moved_seek stamp (DeckObservation.PlaybackPositionSeeked deck load beat) p) (\<lambda>p _.
      state_then (emit_if (ld_beat previous \<noteq> beat \<and> \<not> seeked \<and> \<not> ld_playing previous) stamp
                    (DeckObservation.PlaybackPosition deck load beat) p) (\<lambda>p _.
      state_then (advance_if started p) (\<lambda>p _.
      state_then (emit_if changed stamp (DeckObservation.PlaybackStateChanged deck load (ds_playing status)) p) (\<lambda>p _.
        (update_deck deck (follow_deck previous status effective beat observed seeked candidate discontinuity
                             (pl_timing_generation p) now) p,
         Inr (discontinuity, tempo_changed \<or> moved_seek \<or> changed, playing_tempo_changed)))))))))"

text \<open>The change of the leader at the end of \<open>apply_status\<close>.\<close>

definition lead_from_status ::
  "DeckId \<Rightarrow> MonotonicTime \<Rightarrow> ProLinkDeckSourceProvider \<Rightarrow> unit provider_result" where
  "lead_from_status deck stamp p =
     state_then (advance_timing_generation p) (\<lambda>p _.
     case pl_decks p deck of
       None \<Rightarrow> (p, Inl PlLoadedDeckMissing)
     | Some d \<Rightarrow> emit stamp (DeckObservation.LeaderChanged deck (ld_track_load_id d)) (p\<lparr>pl_leader_deck_id := Some deck\<rparr>))"

definition status_timing ::
  "DeckStatus \<Rightarrow> u32 \<Rightarrow> u32 \<Rightarrow> u64 \<Rightarrow> bool \<Rightarrow> bool \<Rightarrow> bool \<Rightarrow> ProLinkDeckSourceProvider \<Rightarrow> ProLinkDeckSourceProvider" where
  "status_timing status effective beat observed discontinuity stopped_timing_changed playing_tempo_changed p =
     (let deck = ds_device_number status;
          timing = (\<lambda>b playing disc. \<lparr>tob_deck_id = deck, tob_observed_at_nanos = observed, tob_absolute_beat = b,
                      tob_effective_bpm_milli = effective, tob_beat_within_bar = max (ds_beat_within_bar status) 1,
                      tob_playing = playing, tob_generation = pl_timing_generation p, tob_discontinuity = disc\<rparr>) in
      if ds_tempo_master status \<and> \<not> ds_playing status \<and> stopped_timing_changed
      then push_timing (timing beat (ds_playing status) discontinuity) p
      else if ds_tempo_master status \<and> ds_playing status \<and> playing_tempo_changed \<and> \<not> discontinuity
      then push_timing (timing (case pl_decks p deck of None \<Rightarrow> beat | Some d \<Rightarrow> ld_beat d) True False) p
      else p)"

definition status_identity :: "DeckStatus \<Rightarrow> ProLinkDeckSourceProvider \<Rightarrow> ProLinkTrackIdentity" where
  "status_identity status p =
     \<lparr>idn_rekordbox_id = ds_rekordbox_id status, idn_source_player = ds_source_player status,
      idn_source_slot = ds_source_slot status,
      idn_signature = Option.bind (pl_signatures p (ds_device_number status)) id\<rparr>"

text \<open>\<open>u32::try_from(beat_number)?.saturating_sub(1)\<close>.\<close>

definition status_beat :: "DeckStatus \<Rightarrow> ProLinkProviderError + u32" where
  "status_beat status =
     (if 0 \<le> ds_beat_number status \<and> ds_beat_number status < 2 ^ 32
      then Inr (saturating_sub (of_int (ds_beat_number status)) 1)
      else Inl (PlInvalidBeatNumber (ds_beat_number status)))"

definition apply_status ::
  "DeckStatus \<Rightarrow> u64 \<Rightarrow> MonotonicTime \<Rightarrow> Instant \<Rightarrow> ProLinkDeckSourceProvider \<Rightarrow> unit provider_result" where
  "apply_status status observed stamp now p =
     (let deck = ds_device_number status in
      if ds_rekordbox_id status = 0 \<or> ds_source_player status = 0 then unload_deck deck stamp p
      else state_then (p, bpm_milli (ds_track_bpm status)) (\<lambda>p track_bpm.
      state_then (p, bpm_milli (ds_effective_bpm status)) (\<lambda>p effective.
      state_then (p, status_beat status) (\<lambda>p beat.
      let i = status_identity status p in
      state_then
        (case pl_decks p deck of
           None \<Rightarrow>
             state_then (load_from_status status i track_bpm effective beat observed stamp now p)
               (\<lambda>p _. (p, Inr (True, True, False)))
         | Some previous \<Rightarrow>
             if ld_identity previous \<noteq> i
             then state_then (load_from_status status i track_bpm effective beat observed stamp now p)
                    (\<lambda>p _. (p, Inr (True, True, False)))
             else follow_status previous status effective beat observed stamp now p)
        (\<lambda>p (discontinuity, stopped_timing_changed, playing_tempo_changed).
      let leads = (ds_tempo_master status \<and> pl_leader_deck_id p \<noteq> Some deck) in
      state_then (if leads then lead_from_status deck stamp p else (p, Inr ())) (\<lambda>p _.
        (status_timing status effective beat observed (discontinuity \<or> leads) (stopped_timing_changed \<or> leads)
           playing_tempo_changed p, Inr ())))))))"

section \<open>Positions and beats\<close>

definition queue_precise_position ::
  "PrecisePosition \<Rightarrow> u64 \<Rightarrow> Instant \<Rightarrow> ProLinkDeckSourceProvider \<Rightarrow> unit provider_result" where
  "queue_precise_position pos observed now p =
     (let deck = pp_device_number pos in
      if \<not> pp_tempo_master pos then (p, Inr ())
      else case pl_decks p deck of
        None \<Rightarrow> (p, Inr ())
      | Some d \<Rightarrow>
          let p1 = update_deck deck (\<lambda>d. d\<lparr>ld_last_precise_position_received_at := Some now\<rparr>)
                     (p\<lparr>pl_precise_position_message_count := saturating_add (pl_precise_position_message_count p) 1\<rparr>) in
          (p1\<lparr>pl_precise_position_observations := pl_precise_position_observations p1 @
                [\<lparr>ppo_deck_id = deck, ppo_track_load_id = ld_track_load_id d, ppo_observed_at_nanos = observed,
                  ppo_playback_position_millis = pp_playback_position_millis pos,
                  ppo_effective_bpm_milli = ld_effective_bpm_milli d,
                  ppo_beat_within_bar = pp_beat_within_bar pos\<rparr>]\<rparr>, Inr ()))"

text \<open>The beat that a beat message stands for, and whether a confirmed jump of the status explains it.\<close>

definition beat_status_seek :: "LoadedDeck \<Rightarrow> u64 \<Rightarrow> StatusDiscontinuity option" where
  "beat_status_seek previous observed =
     (case ld_last_status_discontinuity previous of
        None \<Rightarrow> None
      | Some c \<Rightarrow> if status_discontinuity_is_still_supported c (ld_last_status_beat previous) observed then Some c else None)"

definition exact_beat :: "LoadedDeck \<Rightarrow> u8 \<Rightarrow> u64 \<Rightarrow> u32" where
  "exact_beat previous beat_within_bar observed =
     (case beat_status_seek previous observed of
        Some c \<Rightarrow> align_beat_within_bar (sd_absolute_beat c) beat_within_bar
      | None \<Rightarrow>
          if unat (saturating_sub observed (ld_last_status_observed_at_nanos previous))
             < 60000000000000 div max (unat (ld_effective_bpm_milli previous)) 1
          then align_beat_within_bar (ld_last_status_beat previous) beat_within_bar
          else precise_absolute_beat (ld_last_status_beat previous) (Some (ld_beat previous)) beat_within_bar)"

text \<open>The phrase a beat enters, when it is another than before.\<close>

definition phrase_entered :: "LoadedDeck \<Rightarrow> u32 \<Rightarrow> u16 option" where
  "phrase_entered previous beat =
     (case phrase_index_at (ld_metadata previous) beat of
        None \<Rightarrow> None
      | Some i \<Rightarrow> if Some i \<noteq> ld_phrase_index previous then Some i else None)"

definition announce_phrase ::
  "DeckId \<Rightarrow> TrackLoadId \<Rightarrow> u16 option \<Rightarrow> MonotonicTime \<Rightarrow> ProLinkDeckSourceProvider \<Rightarrow> unit provider_result" where
  "announce_phrase deck load phrase stamp p =
     (case phrase of
        None \<Rightarrow> (p, Inr ())
      | Some i \<Rightarrow> emit stamp (DeckObservation.PhraseChanged deck load i) p)"

definition position_observation :: "bool \<Rightarrow> DeckId \<Rightarrow> TrackLoadId \<Rightarrow> u32 \<Rightarrow> DeckObservation" where
  "position_observation seeked deck load beat =
     (if seeked then DeckObservation.PlaybackPositionSeeked deck load beat
      else DeckObservation.PlaybackPosition deck load beat)"

definition count_discontinuity :: "bool \<Rightarrow> ProLinkDeckSourceProvider \<Rightarrow> ProLinkDeckSourceProvider" where
  "count_discontinuity seeked p =
     (if seeked then p\<lparr>pl_position_discontinuity_count := saturating_add (pl_position_discontinuity_count p) 1\<rparr> else p)"

definition beat_deck :: "LoadedDeck \<Rightarrow> u32 \<Rightarrow> bool \<Rightarrow> bool \<Rightarrow> u64 \<Rightarrow> u64 \<Rightarrow> Instant \<Rightarrow> LoadedDeck \<Rightarrow> LoadedDeck" where
  "beat_deck previous absolute seeked matches generation observed now d =
     (let d1 = d\<lparr>ld_beat := absolute,
                 ld_phrase_index := (case phrase_entered previous absolute of
                    None \<Rightarrow> ld_phrase_index previous | Some i \<Rightarrow> Some i),
                 ld_transport_anchor_observed_at := now, ld_last_exact_beat_received_at := Some now,
                 ld_last_position_observed_at_nanos := observed\<rparr>;
          d2 = (if seeked then d1\<lparr>ld_pending_precise_discontinuity := None\<rparr> else d1);
          d3 = (if seeked \<or> matches
                then d2\<lparr>ld_pending_status_discontinuity := None, ld_last_status_discontinuity := None\<rparr> else d2) in
      if seeked then d3\<lparr>ld_discontinuity_revision := generation\<rparr> else d3)"

text \<open>The part of \<open>apply_beat\<close> after the checks.\<close>

definition commit_beat ::
  "Beat \<Rightarrow> LoadedDeck \<Rightarrow> u32 \<Rightarrow> bool \<Rightarrow> bool \<Rightarrow> u64 \<Rightarrow> MonotonicTime \<Rightarrow> Instant \<Rightarrow> ProLinkDeckSourceProvider \<Rightarrow>
   unit provider_result" where
  "commit_beat beat previous absolute seeked matches observed stamp now p =
     (let deck = bt_device_number beat;
          load = ld_track_load_id previous in
      state_then (advance_if seeked p) (\<lambda>p _.
      state_then (emit_if (absolute \<noteq> ld_beat previous) stamp (position_observation seeked deck load absolute)
                    (count_discontinuity seeked p)) (\<lambda>p _.
      state_then (announce_phrase deck load (phrase_entered previous absolute) stamp
                    (update_deck deck (beat_deck previous absolute seeked matches (pl_timing_generation p) observed now) p)) (\<lambda>p _.
        (push_timing \<lparr>tob_deck_id = deck, tob_observed_at_nanos = observed, tob_absolute_beat = absolute,
           tob_effective_bpm_milli = ld_effective_bpm_milli previous,
           tob_beat_within_bar = bt_beat_within_bar beat, tob_playing = ld_playing previous,
           tob_generation = pl_timing_generation p, tob_discontinuity = seeked\<rparr> p, Inr ())))))"

definition apply_beat ::
  "Beat \<Rightarrow> u64 \<Rightarrow> MonotonicTime \<Rightarrow> Instant \<Rightarrow> ProLinkDeckSourceProvider \<Rightarrow> unit provider_result" where
  "apply_beat beat observed stamp now p =
     (if \<not> bt_tempo_master beat then (p, Inr ())
      else case pl_decks p (bt_device_number beat) of
        None \<Rightarrow> (p, Inr ())
      | Some previous \<Rightarrow>
          let status_seek = beat_status_seek previous observed;
              absolute = exact_beat previous (bt_beat_within_bar beat) observed;
              matches = (status_seek \<noteq> None \<and> abs_diff absolute (ld_beat previous) \<le> 1);
              seeked = (status_seek \<noteq> None \<and> abs_diff absolute (ld_beat previous) > 1) in
          if \<not> seeked \<and> (absolute < ld_beat previous
               \<or> (absolute = ld_beat previous \<and> ld_last_exact_beat_received_at previous \<noteq> None))
          then (p, Inr ())
          else commit_beat beat previous absolute seeked matches observed stamp now p)"

definition apply_tempo_status :: "TempoStatus \<Rightarrow> u64 \<Rightarrow> ProLinkDeckSourceProvider \<Rightarrow> unit provider_result" where
  "apply_tempo_status tempo observed p =
     (let deck = ts_device_number tempo in
      if \<not> ts_tempo_master tempo then (p, Inr ())
      else case pl_decks p deck of
        None \<Rightarrow> (p, Inr ())
      | Some d \<Rightarrow>
          state_then (p, bpm_milli (ts_effective_bpm tempo)) (\<lambda>p effective.
            (push_timing \<lparr>tob_deck_id = deck, tob_observed_at_nanos = observed, tob_absolute_beat = ld_beat d,
               tob_effective_bpm_milli = effective, tob_beat_within_bar = max (ts_beat_within_bar tempo) 1,
               tob_playing = ts_playing tempo, tob_generation = pl_timing_generation p, tob_discontinuity = False\<rparr> p,
             Inr ())))"

definition record_precise :: "ProLinkPrecisePositionObservation \<Rightarrow> LoadedDeck \<Rightarrow> LoadedDeck" where
  "record_precise observation d =
     d\<lparr>ld_precise_position_seen := True,
       ld_last_precise_position_millis := Some (ppo_playback_position_millis observation),
       ld_last_precise_position_observed_at_nanos := Some (ppo_observed_at_nanos observation),
       ld_last_position_observed_at_nanos := ppo_observed_at_nanos observation,
       ld_effective_bpm_milli := ppo_effective_bpm_milli observation\<rparr>"

definition count_authoritative :: "ProLinkDeckSourceProvider \<Rightarrow> ProLinkDeckSourceProvider" where
  "count_authoritative p = p\<lparr>pl_authoritative_position_count := saturating_add (pl_authoritative_position_count p) 1\<rparr>"

text \<open>Whether a precise position looks like a jump.\<close>

definition precise_jump :: "LoadedDeck \<Rightarrow> ProLinkPrecisePositionObservation \<Rightarrow> u32 \<Rightarrow> bool" where
  "precise_jump previous observation absolute_beat =
     (if \<not> ld_precise_position_seen previous then abs_diff (ld_beat previous) absolute_beat > 2
      else position_millis_is_discontinuous (ld_last_precise_position_millis previous)
             (ppo_playback_position_millis observation) (ld_last_precise_position_observed_at_nanos previous)
             (ppo_observed_at_nanos observation) (track_bpm_milli (ld_metadata previous))
             (ppo_effective_bpm_milli observation) (ld_playing previous))"

definition precise_pending ::
  "LoadedDeck \<Rightarrow> ProLinkPrecisePositionObservation \<Rightarrow> u32 \<Rightarrow> PendingPreciseDiscontinuity" where
  "precise_pending previous observation absolute_beat =
     confirmed_precise_discontinuity (ld_pending_precise_discontinuity previous)
       \<lparr>ppc_playback_position_millis = ppo_playback_position_millis observation, ppc_absolute_beat = absolute_beat,
        ppc_observed_at_nanos = ppo_observed_at_nanos observation,
        ppc_track_bpm_milli = track_bpm_milli (ld_metadata previous),
        ppc_effective_bpm_milli = ppo_effective_bpm_milli observation, ppc_playing = ld_playing previous\<rparr>"

text \<open>When a jump of the precise position is believed: at a hot cue, twice, and the status agrees.\<close>

definition precise_confirmed :: "LoadedDeck \<Rightarrow> ProLinkPrecisePositionObservation \<Rightarrow> u32 \<Rightarrow> bool \<Rightarrow> bool" where
  "precise_confirmed previous observation absolute_beat known_hot_cue_target =
     (let pending = precise_pending previous observation absolute_beat;
          corroborated = (status_corroborates_discontinuity (ld_last_status_discontinuity previous)
                            (ppd_absolute_beat pending) (ppo_observed_at_nanos observation)
            \<or> (known_hot_cue_target
               \<and> status_timeline_matches (ld_last_status_beat previous) (ld_last_status_observed_at_nanos previous)
                   (ppd_absolute_beat pending) (ppo_observed_at_nanos observation))) in
      known_hot_cue_target \<and> ppd_confirmation_count pending \<ge> PRECISE_POSITION_HOT_CUE_CONFIRMATIONS \<and> corroborated)"

text \<open>The last part of \<open>apply_authoritative_position\<close>: the position is taken over.\<close>

definition position_deck ::
  "LoadedDeck \<Rightarrow> ProLinkPrecisePositionObservation \<Rightarrow> u32 \<Rightarrow> bool \<Rightarrow> u64 \<Rightarrow> Instant \<Rightarrow> LoadedDeck \<Rightarrow> LoadedDeck" where
  "position_deck previous observation absolute_beat seeked generation now d =
     (let d1 = (record_precise observation d)
            \<lparr>ld_beat := absolute_beat,
             ld_phrase_index := (case phrase_entered previous absolute_beat of
                None \<Rightarrow> ld_phrase_index previous | Some i \<Rightarrow> Some i),
             ld_transport_anchor_observed_at := now, ld_pending_precise_discontinuity := None\<rparr> in
      if seeked
      then d1\<lparr>ld_pending_status_discontinuity := None, ld_last_status_discontinuity := None,
              ld_discontinuity_revision := generation\<rparr>
      else d1)"

definition take_position ::
  "LoadedDeck \<Rightarrow> ProLinkPrecisePositionObservation \<Rightarrow> u32 \<Rightarrow> bool \<Rightarrow> MonotonicTime \<Rightarrow> Instant \<Rightarrow>
   ProLinkDeckSourceProvider \<Rightarrow> ProLinkAuthoritativePosition option provider_result" where
  "take_position previous observation absolute_beat seeked stamp now p =
     (let deck = ppo_deck_id observation;
          load = ppo_track_load_id observation in
      state_then (emit_if (ld_beat previous \<noteq> absolute_beat) stamp (position_observation seeked deck load absolute_beat) p) (\<lambda>p _.
      state_then (announce_phrase deck load (phrase_entered previous absolute_beat) stamp
                    (update_deck deck (position_deck previous observation absolute_beat seeked (pl_timing_generation p) now) p)) (\<lambda>p _.
        (if \<not> ld_precise_position_seen previous \<or> seeked
            \<or> ld_effective_bpm_milli previous \<noteq> ppo_effective_bpm_milli observation
         then push_timing \<lparr>tob_deck_id = deck, tob_observed_at_nanos = ppo_observed_at_nanos observation,
                tob_absolute_beat = absolute_beat, tob_effective_bpm_milli = ppo_effective_bpm_milli observation,
                tob_beat_within_bar = max (ppo_beat_within_bar observation) 1, tob_playing = ld_playing previous,
                tob_generation = pl_timing_generation p, tob_discontinuity = seeked\<rparr> p
         else p,
         Inr (Some \<lparr>aup_deck_id = deck, aup_track_load_id = load, aup_absolute_beat = absolute_beat,
                    aup_effective_bpm_milli = ppo_effective_bpm_milli observation,
                    aup_playing = ld_playing previous, aup_generation = pl_timing_generation p,
                    aup_discontinuity = seeked\<rparr>)))))"

definition apply_authoritative_position ::
  "ProLinkPrecisePositionObservation \<Rightarrow> u32 \<Rightarrow> bool \<Rightarrow> MonotonicTime \<Rightarrow> Instant \<Rightarrow>
   ProLinkDeckSourceProvider \<Rightarrow> ProLinkAuthoritativePosition option provider_result" where
  "apply_authoritative_position observation absolute_beat known_hot_cue_target stamp now p =
     (let deck = ppo_deck_id observation in
      case pl_decks p deck of
        None \<Rightarrow> (p, Inr None)
      | Some previous \<Rightarrow>
          let first = (\<not> ld_precise_position_seen previous);
              candidate = precise_jump previous observation absolute_beat;
              seeked = (candidate \<and> \<not> first) in
          if ld_track_load_id previous \<noteq> ppo_track_load_id observation then (p, Inr None)
          else if ld_playing previous \<and> first
          then (update_deck deck (record_precise observation) (count_authoritative p), Inr None)
          else if ld_playing previous \<and> candidate \<and> abs_diff (ld_beat previous) absolute_beat \<le> 1
          then (update_deck deck (\<lambda>d. (record_precise observation d)\<lparr>ld_pending_precise_discontinuity := None\<rparr>)
                  (count_authoritative p), Inr None)
          else if seeked \<and> \<not> precise_confirmed previous observation absolute_beat known_hot_cue_target
          then (update_deck deck (\<lambda>d. d\<lparr>ld_pending_precise_discontinuity :=
                    Some (precise_pending previous observation absolute_beat)\<rparr>) p, Inr None)
          else
          state_then (advance_if seeked p) (\<lambda>p _.
          if ld_playing previous \<and> \<not> first \<and> \<not> seeked
          then (update_deck deck (\<lambda>d. let d1 = record_precise observation d in
                   if \<not> candidate then d1\<lparr>ld_pending_precise_discontinuity := None\<rparr> else d1)
                  (count_authoritative (count_discontinuity seeked p)), Inr None)
          else take_position previous observation absolute_beat seeked stamp now
                 (count_authoritative (count_discontinuity seeked p))))"

section \<open>Public operations\<close>

definition empty_provider :: ProLinkDeckSourceProvider where
  "empty_provider =
     \<lparr>pl_source_id = SOURCE_ID, pl_sequence = 0, pl_next_track_load_id = 1, pl_decks = Map.empty, pl_devices = Map.empty,
      pl_signatures = Map.empty, pl_leader_deck_id = None, pl_pending_events = [], pl_source_status = Starting,
      pl_received_message_count = 0, pl_ignored_message_count = 0, pl_last_bridge_sequence = None,
      pl_bridge_version = None, pl_beat_link_version = None, pl_last_error = None,
      pl_ingress = \<lparr>ing_queue_capacity = 0, ing_queue_depth = 0, ing_queue_high_water = 0,
        ing_coalesced_message_count = 0, ing_critical_saturation_count = 0, ing_source_age_sample_count = 0,
        ing_source_age_p50_micros = 0, ing_source_age_p95_micros = 0, ing_source_age_p99_micros = 0,
        ing_source_age_max_micros = 0\<rparr>,
      pl_precise_position_message_count = 0, pl_authoritative_position_count = 0,
      pl_position_discontinuity_count = 0, pl_timing_generation = 0, pl_timing_observations = [],
      pl_precise_position_observations = []\<rparr>"

definition new_provider :: "MonotonicTime \<Rightarrow> unit provider_result" where
  "new_provider stamp = emit stamp (DeckObservation.SourceStatusChanged Starting) empty_provider"

definition ingest ::
  "BridgeMessage \<Rightarrow> MonotonicTime \<Rightarrow> Instant \<Rightarrow> ProLinkDeckSourceProvider \<Rightarrow> unit provider_result" where
  "ingest message stamp now p0 =
     (let p = p0\<lparr>pl_received_message_count := saturating_add (pl_received_message_count p0) 1,
                 pl_last_bridge_sequence := Some (case pl_last_bridge_sequence p0 of
                    None \<Rightarrow> msg_sequence message
                  | Some previous \<Rightarrow> max previous (msg_sequence message))\<rparr>;
          observed = msg_observed_at_nanos message in
      case msg_event message of
        BrHello hello \<Rightarrow>
          (p\<lparr>pl_bridge_version := Some (hello_bridge_version hello),
             pl_beat_link_version := Some (hello_beat_link_version hello)\<rparr>, Inr ())
      | BrSourceStatus status \<Rightarrow> update_source_status (source_status (ss_status status)) stamp p
      | BrDeviceFound device \<Rightarrow>
          (p\<lparr>pl_devices := (pl_devices p)(dev_number device \<mapsto>
               \<lparr>disc_name = dev_name device, disc_address = dev_address device\<rparr>)\<rparr>, Inr ())
      | BrDeviceLost device \<Rightarrow>
          unload_deck (dev_number device) stamp (p\<lparr>pl_devices := (pl_devices p)(dev_number device := None)\<rparr>)
      | BrDeckStatus status \<Rightarrow> apply_status status observed stamp now p
      | BrTrackSignature signature \<Rightarrow>
          (update_deck (sig_deck_number signature)
             (\<lambda>d. d\<lparr>ld_identity := (ld_identity d)\<lparr>idn_signature := sig_signature signature\<rparr>\<rparr>)
             (p\<lparr>pl_signatures := (pl_signatures p)(sig_deck_number signature \<mapsto> sig_signature signature)\<rparr>), Inr ())
      | BrError failure \<Rightarrow>
          update_source_status Degraded stamp
            (p\<lparr>pl_last_error := Some (BridgeFailed (fail_operation failure) (fail_message failure))\<rparr>)
      | BrBeat beat \<Rightarrow> apply_beat beat observed stamp now p
      | BrTempoStatus tempo \<Rightarrow> apply_tempo_status tempo observed p
      | BrPrecisePosition pos \<Rightarrow> queue_precise_position pos observed now p
      | BrTrackMetadata _ \<Rightarrow> (p, Inr ())
      | BrUSBMedia _ \<Rightarrow> (p, Inr ())
      | BrUSBMount _ \<Rightarrow> (p, Inr ()))"

text \<open>The keys of a \<open>BTreeMap\<close> over decks, in order, and the loops over them.\<close>

definition all_decks :: "DeckId list" where
  "all_decks = map of_nat [0..<256]"

definition deck_ids :: "ProLinkDeckSourceProvider \<Rightarrow> DeckId list" where
  "deck_ids p = filter (\<lambda>d. pl_decks p d \<noteq> None) all_decks"

fun unload_all :: "DeckId list \<Rightarrow> MonotonicTime \<Rightarrow> ProLinkDeckSourceProvider \<Rightarrow> unit provider_result" where
  "unload_all [] stamp p = (p, Inr ())"
| "unload_all (d # ds) stamp p = state_then (unload_deck d stamp p) (\<lambda>p _. unload_all ds stamp p)"

definition clear_provider :: "MonotonicTime \<Rightarrow> ProLinkDeckSourceProvider \<Rightarrow> unit provider_result" where
  "clear_provider stamp p =
     state_then (unload_all (deck_ids p) stamp p) (\<lambda>p _. (p\<lparr>pl_leader_deck_id := None\<rparr>, Inr ()))"

definition begin_bridge_recovery :: "MonotonicTime \<Rightarrow> ProLinkDeckSourceProvider \<Rightarrow> unit provider_result" where
  "begin_bridge_recovery stamp p =
     state_then (clear_provider stamp p) (\<lambda>p _.
     update_source_status Starting stamp
       (p\<lparr>pl_devices := Map.empty, pl_signatures := Map.empty, pl_leader_deck_id := None,
          pl_last_bridge_sequence := None, pl_bridge_version := None, pl_beat_link_version := None,
          pl_last_error := None, pl_timing_observations := [], pl_precise_position_observations := []\<rparr>))"

definition invalidate_source_media :: "u8 \<Rightarrow> MonotonicTime \<Rightarrow> ProLinkDeckSourceProvider \<Rightarrow> unit provider_result" where
  "invalidate_source_media source_player stamp p =
     unload_all (filter (\<lambda>d. case pl_decks p d of
         None \<Rightarrow> False
       | Some loaded \<Rightarrow> idn_source_player (ld_identity loaded) = source_player
           \<and> idn_source_slot (ld_identity loaded) = ''USB_SLOT'') all_decks) stamp p"

definition deck_with_load :: "TrackLoadId \<Rightarrow> ProLinkDeckSourceProvider \<Rightarrow> DeckId option" where
  "deck_with_load load p =
     find (\<lambda>d. case pl_decks p d of None \<Rightarrow> False | Some loaded \<Rightarrow> ld_track_load_id loaded = load) all_decks"

definition hydrate_track_metadata ::
  "TrackLoadId \<Rightarrow> TrackMetadata \<Rightarrow> ProLinkDeckSourceProvider \<Rightarrow> ProLinkDeckSourceProvider \<times> bool" where
  "hydrate_track_metadata load metadata p =
     (case deck_with_load load p of
        None \<Rightarrow> (p, False)
      | Some d \<Rightarrow> (update_deck d (\<lambda>d. d\<lparr>ld_metadata := metadata, ld_phrase_index := None\<rparr>) p, True))"

definition publish_hydrated_track ::
  "TrackLoadId \<Rightarrow> TrackMetadata \<Rightarrow> MonotonicTime \<Rightarrow> ProLinkDeckSourceProvider \<Rightarrow> bool provider_result" where
  "publish_hydrated_track load metadata stamp p =
     (case deck_with_load load p of
        None \<Rightarrow> (p, Inr False)
      | Some d \<Rightarrow>
          state_then (emit stamp (DeckObservation.TrackMetadataHydrated d metadata load)
                        (fst (hydrate_track_metadata load metadata p))) (\<lambda>p _. (p, Inr True)))"

definition mark_degraded :: "string \<Rightarrow> MonotonicTime \<Rightarrow> ProLinkDeckSourceProvider \<Rightarrow> unit provider_result" where
  "mark_degraded message stamp p = update_source_status Degraded stamp (p\<lparr>pl_last_error := Some (DegradedText message)\<rparr>)"

definition track_identity :: "TrackLoadId \<Rightarrow> ProLinkDeckSourceProvider \<Rightarrow> ProLinkTrackIdentity option" where
  "track_identity load p =
     map_option ld_identity (Option.bind (deck_with_load load p) (pl_decks p))"

definition device_name :: "DeckId \<Rightarrow> ProLinkDeckSourceProvider \<Rightarrow> string option" where
  "device_name deck p = map_option disc_name (pl_devices p deck)"

definition transport :: "TrackLoadId \<Rightarrow> ProLinkDeckSourceProvider \<Rightarrow> ProLinkTransportSnapshot option" where
  "transport load p =
     map_option (\<lambda>d. \<lparr>tsn_beat = ld_beat d, tsn_effective_bpm_milli = ld_effective_bpm_milli d, tsn_playing = ld_playing d,
                     tsn_discontinuity_revision = ld_discontinuity_revision d,
                     tsn_anchor_observed_at = ld_transport_anchor_observed_at d\<rparr>)
       (Option.bind (deck_with_load load p) (pl_decks p))"

definition drain_timing_observations ::
  "ProLinkDeckSourceProvider \<Rightarrow> ProLinkDeckSourceProvider \<times> ProLinkTimingObservation list" where
  "drain_timing_observations p =
     (p\<lparr>pl_timing_observations := []\<rparr>,
      filter (\<lambda>obs. tob_generation obs = pl_timing_generation p) (pl_timing_observations p))"

definition drain_precise_position_observations ::
  "ProLinkDeckSourceProvider \<Rightarrow> ProLinkDeckSourceProvider \<times> ProLinkPrecisePositionObservation list" where
  "drain_precise_position_observations p =
     (p\<lparr>pl_precise_position_observations := []\<rparr>, pl_precise_position_observations p)"

definition drain_events :: "ProLinkDeckSourceProvider \<Rightarrow> ProLinkDeckSourceProvider \<times> DomainEvent list" where
  "drain_events p = (p\<lparr>pl_pending_events := []\<rparr>, pl_pending_events p)"

text \<open>The part of \<open>diagnostics\<close> that is not a copy of a field.\<close>

definition position_authority_ready :: "Instant \<Rightarrow> ProLinkDeckSourceProvider \<Rightarrow> bool" where
  "position_authority_ready now p =
     (case Option.bind (pl_leader_deck_id p) (pl_decks p) of
        None \<Rightarrow> False
      | Some d \<Rightarrow>
          let beat_max_age = 1000000 * clamp (120000000 div max (unat (ld_effective_bpm_milli d)) 1) 500 3000 in
          (ld_playing d \<and> (case ld_last_exact_beat_received_at d of
              None \<Rightarrow> False | Some received \<Rightarrow> now - received \<le> beat_max_age))
          \<or> (ld_precise_position_seen d \<and> (case ld_last_precise_position_received_at d of
              None \<Rightarrow> False | Some received \<Rightarrow> now - received \<le> POSITION_AUTHORITY_DIAGNOSTIC_MAX_AGE)))"

definition record_ingress_metrics :: "BridgeProcessDiagnostics \<Rightarrow> ProLinkDeckSourceProvider \<Rightarrow> ProLinkDeckSourceProvider" where
  "record_ingress_metrics d p =
     p\<lparr>pl_ingress := \<lparr>ing_queue_capacity = bpd_queue_capacity d, ing_queue_depth = bpd_queue_depth d,
         ing_queue_high_water = bpd_queue_high_water d,
         ing_coalesced_message_count = bpd_coalesced_message_count d,
         ing_critical_saturation_count = bpd_critical_saturation_count d,
         ing_source_age_sample_count = bpd_source_age_sample_count d,
         ing_source_age_p50_micros = bpd_source_age_p50_micros d,
         ing_source_age_p95_micros = bpd_source_age_p95_micros d,
         ing_source_age_p99_micros = bpd_source_age_p99_micros d,
         ing_source_age_max_micros = bpd_source_age_max_micros d\<rparr>\<rparr>"

text \<open>The calls the engine makes, as events; the output are the domain events it drained.\<close>

datatype ProviderInput =
    Ingest BridgeMessage MonotonicTime Instant
  | ApplyPosition ProLinkPrecisePositionObservation u32 bool MonotonicTime Instant
  | HydrateTrack TrackLoadId TrackMetadata
  | PublishHydrated TrackLoadId TrackMetadata MonotonicTime
  | InvalidateMedia u8 MonotonicTime
  | ClearProvider MonotonicTime
  | RecoverBridge MonotonicTime
  | MarkDegraded string MonotonicTime
  | RecordIngress BridgeProcessDiagnostics
  | DrainTiming
  | DrainPositions
  | DrainEvents

fun provider_step :: "ProLinkDeckSourceProvider \<Rightarrow> ProviderInput \<Rightarrow> unit + (ProLinkDeckSourceProvider \<times> DomainEvent list)" where
  "provider_step p (Ingest m stamp now) = Inr (fst (ingest m stamp now p), [])"
| "provider_step p (ApplyPosition obs beat hot stamp now) = Inr (fst (apply_authoritative_position obs beat hot stamp now p), [])"
| "provider_step p (HydrateTrack load metadata) = Inr (fst (hydrate_track_metadata load metadata p), [])"
| "provider_step p (PublishHydrated load metadata stamp) = Inr (fst (publish_hydrated_track load metadata stamp p), [])"
| "provider_step p (InvalidateMedia player stamp) = Inr (fst (invalidate_source_media player stamp p), [])"
| "provider_step p (ClearProvider stamp) = Inr (fst (clear_provider stamp p), [])"
| "provider_step p (RecoverBridge stamp) = Inr (fst (begin_bridge_recovery stamp p), [])"
| "provider_step p (MarkDegraded text stamp) = Inr (fst (mark_degraded text stamp p), [])"
| "provider_step p (RecordIngress d) = Inr (record_ingress_metrics d p, [])"
| "provider_step p DrainTiming = Inr (fst (drain_timing_observations p), [])"
| "provider_step p DrainPositions = Inr (fst (drain_precise_position_observations p), [])"
| "provider_step p DrainEvents = Inr (drain_events p)"

end
