(* ===== verification/Observation_Log.thy ===== *)
theory Observation_Log
  imports Events
begin

text \<open>
  What the consumers of a deck source see of it: the observations it has queued, by their numbers and by the
  loads they announce. The locale states the contract of the method \<open>emit\<close> that every source has: it takes the
  next number and appends one observation, or it changes nothing when no number is left. Facts: whatever a source
  does through \<open>emit\<close>, the observations it hands out and those that wait are numbered from one without a gap.
\<close>

section \<open>Numbers and loads of a log\<close>

fun event_sequence :: "DomainEvent \<Rightarrow> nat list" where
  "event_sequence (DomainEvent.Observation e) = [unat (obs_sequence e)]"
| "event_sequence _ = []"

fun event_loads :: "DomainEvent \<Rightarrow> nat list" where
  "event_loads (DomainEvent.Observation e) =
     (case obs_observation e of DeckObservation.TrackLoaded _ _ load \<Rightarrow> [unat load] | _ \<Rightarrow> [])"
| "event_loads _ = []"

fun from_source :: "SourceId \<Rightarrow> DomainEvent \<Rightarrow> bool" where
  "from_source i (DomainEvent.Observation e) = (obs_source_id e = i)"
| "from_source i _ = False"

definition sequences :: "DomainEvent list \<Rightarrow> nat list" where
  "sequences events = concat (map event_sequence events)"

definition loads :: "DomainEvent list \<Rightarrow> nat list" where
  "loads events = concat (map event_loads events)"

lemma sequences_append [simp]: "sequences (xs @ ys) = sequences xs @ sequences ys"
  by (simp add: sequences_def)

lemma loads_append [simp]: "loads (xs @ ys) = loads xs @ loads ys"
  by (simp add: loads_def)

lemma no_events [simp]: "sequences [] = []" "loads [] = []"
  by (simp_all add: sequences_def loads_def)

lemma upt_split: "i \<le> j \<Longrightarrow> j \<le> k \<Longrightarrow> [i..<k] = [i..<j] @ [j..<k]"
  using upt_add_eq_append [of i j "k - j"] by simp

section \<open>Sources that number their observations\<close>

locale numbered_source =
  fixes seqno :: "'s \<Rightarrow> u64" and waiting :: "'s \<Rightarrow> DomainEvent list" and origin :: "'s \<Rightarrow> SourceId"
    and emission :: "MonotonicTime \<Rightarrow> DeckObservation \<Rightarrow> 's \<Rightarrow> 's \<times> ('e + unit)"
  assumes emission_full: "checked_add (seqno s) 1 = None \<Longrightarrow> fst (emission t obs s) = s"
    and emission_ok: "checked_add (seqno s) 1 = Some n \<Longrightarrow>
      seqno (fst (emission t obs s)) = n \<and> origin (fst (emission t obs s)) = origin s
      \<and> waiting (fst (emission t obs s)) = waiting s @ [DomainEvent.Observation
           \<lparr>obs_source_id = origin s, obs_sequence = n, obs_observed_at = t, obs_observation = obs\<rparr>]"
begin

text \<open>The log grows by observations that carry the numbers after the last one.\<close>

definition grows :: "'s \<Rightarrow> 's \<Rightarrow> bool" where
  "grows p q \<longleftrightarrow> (\<exists>new. waiting q = waiting p @ new
     \<and> sequences new = [Suc (unat (seqno p))..<Suc (unat (seqno q))] \<and> unat (seqno p) \<le> unat (seqno q)
     \<and> origin q = origin p \<and> list_all (from_source (origin p)) new)"

lemma grows_refl: "grows p p"
  by (simp add: grows_def)

lemma grows_same:
  "grows p s \<Longrightarrow> seqno t = seqno s \<Longrightarrow> waiting t = waiting s \<Longrightarrow> origin t = origin s \<Longrightarrow> grows p t"
  by (simp add: grows_def)

lemma grows_origin: "grows p q \<Longrightarrow> origin q = origin p"
  by (auto simp: grows_def)

lemma grows_emission:
  assumes "grows p s"
  shows "grows p (fst (emission t obs s))"
proof (cases "checked_add (seqno s) 1")
  case None
  with assms show ?thesis by (simp add: emission_full)
next
  case (Some n)
  let ?e = "DomainEvent.Observation \<lparr>obs_source_id = origin s, obs_sequence = n, obs_observed_at = t, obs_observation = obs\<rparr>"
  obtain new where new: "waiting s = waiting p @ new" "sequences new = [Suc (unat (seqno p))..<Suc (unat (seqno s))]"
    "unat (seqno p) \<le> unat (seqno s)" "origin s = origin p" "list_all (from_source (origin p)) new"
    using assms by (auto simp: grows_def)
  have n: "unat n = Suc (unat (seqno s))" using checked_add_SomeD [OF Some] by simp
  show ?thesis
    unfolding grows_def using emission_ok [OF Some, of t obs] new n
    by (intro exI [of _ "new @ [?e]"]) (simp add: sequences_def [of "[_]"])
qed

text \<open>What has been handed out and what waits.\<close>

definition log_ok :: "DomainEvent list \<Rightarrow> 's \<Rightarrow> bool" where
  "log_ok handed q \<longleftrightarrow> sequences (handed @ waiting q) = [1..<Suc (unat (seqno q))]
     \<and> list_all (from_source (origin q)) (handed @ waiting q)"

lemma log_ok_grows:
  assumes "log_ok handed p" "grows p q"
  shows "log_ok handed q"
proof -
  obtain new where new: "waiting q = waiting p @ new" "sequences new = [Suc (unat (seqno p))..<Suc (unat (seqno q))]"
    "unat (seqno p) \<le> unat (seqno q)" "origin q = origin p" "list_all (from_source (origin p)) new"
    using assms(2) by (auto simp: grows_def)
  have "[1..<Suc (unat (seqno q))] = [1..<Suc (unat (seqno p))] @ [Suc (unat (seqno p))..<Suc (unat (seqno q))]"
    using new(3) by (intro upt_split) auto
  then show ?thesis using assms(1) new by (simp add: log_ok_def del: upt_Suc)
qed

lemma log_ok_drained:
  "log_ok handed p \<Longrightarrow> seqno q = seqno p \<Longrightarrow> origin q = origin p \<Longrightarrow> waiting q = [] \<Longrightarrow> log_ok (handed @ waiting p) q"
  by (simp add: log_ok_def)

end

end
