(* ===== verification/Prolink_Safety.thy ===== *)
theory Prolink_Safety
  imports Prolink_Provider Observation_Log
begin

text \<open>
  Facts about the deck source of the players: its observations are numbered without gaps and its
  loads are fresh, whatever the bridge sends and whatever fails; a playing deck is never moved
  backwards without a seek; precise positions move a playing deck only when they are confirmed;
  beats are aligned within the bar; small jitter is never a jump.
\<close>

section \<open>Observations are numbered without gaps\<close>

definition new_events :: "ProLinkDeckSourceProvider \<Rightarrow> ProLinkDeckSourceProvider \<Rightarrow> DomainEvent list \<Rightarrow> bool" where
  "new_events p q new \<longleftrightarrow> pl_pending_events q = pl_pending_events p @ new
     \<and> sequences new = [Suc (unat (pl_sequence p))..<Suc (unat (pl_sequence q))]
     \<and> unat (pl_sequence p) \<le> unat (pl_sequence q)
     \<and> pl_source_id q = pl_source_id p \<and> list_all (from_source (pl_source_id p)) new
     \<and> sorted_wrt (<) (loads new)
     \<and> (\<forall>l \<in> set (loads new). unat (pl_next_track_load_id p) \<le> l \<and> l < unat (pl_next_track_load_id q))"

definition evolves :: "ProLinkDeckSourceProvider \<Rightarrow> ProLinkDeckSourceProvider \<Rightarrow> bool" where
  "evolves p q \<longleftrightarrow> unat (pl_next_track_load_id p) \<le> unat (pl_next_track_load_id q) \<and> (\<exists>new. new_events p q new)"

lemma evolves_refl: "evolves p p"
  by (simp add: evolves_def new_events_def sequences_def loads_def)

text \<open>What a change of other fields keeps.\<close>

lemma evolves_same:
  "evolves p s \<Longrightarrow> pl_sequence t = pl_sequence s \<Longrightarrow> pl_pending_events t = pl_pending_events s \<Longrightarrow>
   pl_next_track_load_id t = pl_next_track_load_id s \<Longrightarrow> pl_source_id t = pl_source_id s \<Longrightarrow> evolves p t"
  by (simp add: evolves_def new_events_def)

lemma evolves_fields [simp]:
  "evolves p (s\<lparr>pl_decks := x0\<rparr>) = evolves p s"
  "evolves p (s\<lparr>pl_devices := x1\<rparr>) = evolves p s"
  "evolves p (s\<lparr>pl_signatures := x2\<rparr>) = evolves p s"
  "evolves p (s\<lparr>pl_leader_deck_id := x3\<rparr>) = evolves p s"
  "evolves p (s\<lparr>pl_source_status := x4\<rparr>) = evolves p s"
  "evolves p (s\<lparr>pl_received_message_count := x5\<rparr>) = evolves p s"
  "evolves p (s\<lparr>pl_last_bridge_sequence := x6\<rparr>) = evolves p s"
  "evolves p (s\<lparr>pl_bridge_version := x7\<rparr>) = evolves p s"
  "evolves p (s\<lparr>pl_beat_link_version := x8\<rparr>) = evolves p s"
  "evolves p (s\<lparr>pl_last_error := x9\<rparr>) = evolves p s"
  "evolves p (s\<lparr>pl_ingress := x10\<rparr>) = evolves p s"
  "evolves p (s\<lparr>pl_precise_position_message_count := x11\<rparr>) = evolves p s"
  "evolves p (s\<lparr>pl_authoritative_position_count := x12\<rparr>) = evolves p s"
  "evolves p (s\<lparr>pl_position_discontinuity_count := x13\<rparr>) = evolves p s"
  "evolves p (s\<lparr>pl_timing_generation := x14\<rparr>) = evolves p s"
  "evolves p (s\<lparr>pl_timing_observations := x15\<rparr>) = evolves p s"
  "evolves p (s\<lparr>pl_precise_position_observations := x16\<rparr>) = evolves p s"
  by (simp_all add: evolves_def new_events_def)

lemma emit_new:
  assumes "new_events p s new" "checked_add (pl_sequence s) 1 = Some n"
    and "sorted_wrt (<) (loads new @ event_loads (DomainEvent.Observation e))" "obs_sequence e = n"
    and "\<forall>l \<in> set (event_loads (DomainEvent.Observation e)). unat (pl_next_track_load_id p) \<le> l \<and> l < unat (pl_next_track_load_id s)"
    and "obs_source_id e = pl_source_id s" "pl_source_id t = pl_source_id s"
    and "pl_sequence t = n" "pl_pending_events t = pl_pending_events s @ [DomainEvent.Observation e]"
    "pl_next_track_load_id t = pl_next_track_load_id s"
  shows "new_events p t (new @ [DomainEvent.Observation e])"
proof -
  have n: "unat n = Suc (unat (pl_sequence s))" using checked_add_SomeD [OF assms(2)] by simp
  have "[Suc (unat (pl_sequence p))..<Suc (unat n)] = [Suc (unat (pl_sequence p))..<Suc (unat (pl_sequence s))] @ [unat n]"
    using assms(1) n by (simp add: new_events_def)
  then show ?thesis
    using assms n unfolding new_events_def
    by (auto simp: sequences_def [of "[_]"] loads_def [of "[_]"] simp del: upt_Suc event_loads.simps)
qed

lemma evolves_emit:
  assumes "evolves p s" "event_loads (DomainEvent.Observation \<lparr>obs_source_id = 0, obs_sequence = 0, obs_observed_at = 0, obs_observation = obs\<rparr>) = []"
  shows "evolves p (fst (emit stamp obs s))"
proof (cases "checked_add (pl_sequence s) 1")
  case None
  with assms(1) show ?thesis by (simp add: emit_def)
next
  case (Some n)
  let ?e = "\<lparr>obs_source_id = pl_source_id s, obs_sequence = n, obs_observed_at = stamp, obs_observation = obs\<rparr>"
  from assms(1) obtain new where new: "new_events p s new" by (auto simp: evolves_def)
  have none: "event_loads (DomainEvent.Observation ?e) = []" using assms(2) by (auto split: DeckObservation.splits)
  have "new_events p (fst (emit stamp obs s)) (new @ [DomainEvent.Observation ?e])"
    using none new by (intro emit_new [OF new Some]) (simp_all add: emit_def Some new_events_def del: event_loads.simps)
  then show ?thesis using assms(1) by (auto simp: evolves_def emit_def Some)
qed

lemma evolves_emit_load:
  assumes "evolves p s" "checked_add (pl_next_track_load_id s) 1 = Some n"
    and t: "pl_sequence t = pl_sequence s" "pl_pending_events t = pl_pending_events s" "pl_next_track_load_id t = n"
      "pl_source_id t = pl_source_id s"
  shows "evolves p t \<and> evolves p (fst (emit stamp (DeckObservation.TrackLoaded deck metadata (pl_next_track_load_id s)) t))"
proof -
  from assms(1) obtain new where new: "new_events p s new" and le: "unat (pl_next_track_load_id p) \<le> unat (pl_next_track_load_id s)"
    by (auto simp: evolves_def)
  have n: "unat n = Suc (unat (pl_next_track_load_id s))" using checked_add_SomeD [OF assms(2)] by simp
  have new_t: "new_events p t new" using new t n by (auto simp: new_events_def)
  then have ev: "evolves p t" using le n t(3) by (auto simp: evolves_def)
  let ?obs = "DeckObservation.TrackLoaded deck metadata (pl_next_track_load_id s)"
  have "evolves p (fst (emit stamp ?obs t))"
  proof (cases "checked_add (pl_sequence t) 1")
    case None
    with ev show ?thesis by (simp add: emit_def)
  next
    case (Some k)
    let ?e = "\<lparr>obs_source_id = pl_source_id t, obs_sequence = k, obs_observed_at = stamp, obs_observation = ?obs\<rparr>"
    have "sorted_wrt (<) (loads new @ event_loads (DomainEvent.Observation ?e))"
      using new by (auto simp: new_events_def sorted_wrt_append)
    then have "new_events p (fst (emit stamp ?obs t)) (new @ [DomainEvent.Observation ?e])"
      using le n t(3) by (intro emit_new [OF new_t Some]) (simp_all add: emit_def Some)
    then show ?thesis using le n t(3) by (auto simp: evolves_def emit_def Some)
  qed
  with ev show ?thesis ..
qed

lemmas evolves_then = state_then_keeps [where P = "evolves p" for p]

lemma evolves_emit_other [intro]:
  "evolves p s \<Longrightarrow> evolves p (fst (emit stamp (DeckObservation.SourceStatusChanged x) s))"
  "evolves p s \<Longrightarrow> evolves p (fst (emit stamp (DeckObservation.TrackMetadataHydrated d m l) s))"
  "evolves p s \<Longrightarrow> evolves p (fst (emit stamp (DeckObservation.PlaybackPosition d l b) s))"
  "evolves p s \<Longrightarrow> evolves p (fst (emit stamp (DeckObservation.PlaybackPositionSeeked d l b) s))"
  "evolves p s \<Longrightarrow> evolves p (fst (emit stamp (DeckObservation.PlaybackTempoChanged d l b) s))"
  "evolves p s \<Longrightarrow> evolves p (fst (emit stamp (DeckObservation.PlaybackStateChanged d l x') s))"
  "evolves p s \<Longrightarrow> evolves p (fst (emit stamp (DeckObservation.TrackUnloaded d l) s))"
  "evolves p s \<Longrightarrow> evolves p (fst (emit stamp (DeckObservation.PhraseChanged d l i) s))"
  "evolves p s \<Longrightarrow> evolves p (fst (emit stamp (DeckObservation.LeaderChanged d l) s))"
  by (rule evolves_emit; simp)+

lemma evolves_emit_position [intro]:
  "evolves p s \<Longrightarrow> evolves p (fst (emit stamp (if c then DeckObservation.PlaybackPositionSeeked d l b
     else DeckObservation.PlaybackPosition d l b) s))"
  by (cases c) auto

lemma evolves_emit_if [intro]:
  "(c \<Longrightarrow> evolves p (fst (emit stamp obs s))) \<Longrightarrow> evolves p s \<Longrightarrow> evolves p (fst (emit_if c stamp obs s))"
  by (simp add: emit_if_def)

lemma evolves_advance [intro]:
  "evolves p s \<Longrightarrow> evolves p (fst (advance_timing_generation s))"
  "evolves p s \<Longrightarrow> evolves p (fst (advance_if c s))"
  by (auto simp: advance_timing_generation_def advance_if_def split: option.split)

lemma evolves_update [intro]:
  "evolves p s \<Longrightarrow> evolves p (update_deck d f s)"
  "evolves p s \<Longrightarrow> evolves p (push_timing obs s)"
  "evolves p s \<Longrightarrow> evolves p (count_authoritative s)"
  by (auto simp: update_deck_def push_timing_def count_authoritative_def split: option.split)

lemma evolves_unload [intro]: "evolves p s \<Longrightarrow> evolves p (fst (unload_deck d stamp s))"
  unfolding unload_deck_def
  by (rule evolves_then) (auto split: option.split intro!: evolves_emit_other)

lemma evolves_status [intro]: "evolves p s \<Longrightarrow> evolves p (fst (update_source_status x stamp s))"
  unfolding update_source_status_def by (auto intro!: evolves_emit_other)

lemma evolves_announce:
  assumes "evolves p s" "checked_add (pl_next_track_load_id s) 1 = Some n"
    and "pl_sequence t = pl_sequence s" "pl_pending_events t = pl_pending_events s" "pl_next_track_load_id t = n"
      "pl_source_id t = pl_source_id s"
  shows "evolves p (fst (announce_load deck (pl_next_track_load_id s) metadata track_bpm effective beat playing stamp t))"
  using evolves_emit_load [OF assms(1,2), of t] assms(3-6)
  unfolding announce_load_def by (auto intro!: evolves_then)

lemma evolves_load [intro]:
  assumes "evolves p s"
  shows "evolves p (fst (load_from_status status i track_bpm effective beat observed stamp now s))"
  unfolding load_from_status_def Let_def
proof (rule evolves_then [OF evolves_advance(1) [OF assms]], erule evolves_then [OF evolves_unload])
  fix s2 :: ProLinkDeckSourceProvider
  assume s2: "evolves p s2"
  show "evolves p (fst (state_then (allocate_load s2) (\<lambda>p load.
      state_then (p, placeholder_track status i track_bpm beat) (\<lambda>p metadata.
      announce_load (ds_device_number status) load metadata track_bpm effective beat (ds_playing status) stamp
        (p\<lparr>pl_decks := (pl_decks p)(ds_device_number status \<mapsto> fresh_deck i load metadata beat observed effective
                 (ds_playing status) (pl_timing_generation p) now)\<rparr>)))))"
  proof (cases "checked_add (pl_next_track_load_id s2) 1")
    case None
    with s2 show ?thesis by (simp add: state_then_def allocate_load_def)
  next
    case (Some n)
    have "evolves p (s2\<lparr>pl_next_track_load_id := n\<rparr>)"
      using evolves_emit_load [OF s2 Some, of "s2\<lparr>pl_next_track_load_id := n\<rparr>"] by simp
    then show ?thesis
      using evolves_announce [OF s2 Some]
      by (cases "placeholder_track status i track_bpm beat") (simp_all add: state_then_def allocate_load_def Some)
  qed
qed

lemma evolves_follow [intro]:
  "evolves p s \<Longrightarrow> evolves p (fst (follow_status previous status effective beat observed stamp now s))"
  unfolding follow_status_def Let_def
  by (intro evolves_then) (auto simp: fst_conv)

lemma evolves_lead [intro]: "evolves p s \<Longrightarrow> evolves p (fst (lead_from_status deck stamp s))"
  unfolding lead_from_status_def
  by (rule evolves_then) (auto split: option.split intro!: evolves_emit_other)

lemma evolves_timing [intro]: "evolves p s \<Longrightarrow> evolves p (status_timing status effective beat observed a b c s)"
  by (auto simp: status_timing_def Let_def)

lemma evolves_apply_status [intro]:
  assumes "evolves p s"
  shows "evolves p (fst (apply_status status observed stamp now s))"
  using assms unfolding apply_status_def Let_def
  by (auto intro!: evolves_then split: option.splits prod.splits)

lemma evolves_phrase [intro]: "evolves p s \<Longrightarrow> evolves p (fst (announce_phrase deck load x stamp s))"
  unfolding announce_phrase_def by (auto split: option.split)

lemma evolves_count [intro]: "evolves p s \<Longrightarrow> evolves p (count_discontinuity c s)"
  by (simp add: count_discontinuity_def)

lemma evolves_observation [intro]:
  "evolves p s \<Longrightarrow> evolves p (fst (emit stamp (position_observation c d l b) s))"
  unfolding position_observation_def by (rule evolves_emit_position)

lemma evolves_commit [intro]:
  "evolves p s \<Longrightarrow> evolves p (fst (commit_beat beat previous absolute seeked matches observed stamp now s))"
  unfolding commit_beat_def Let_def
  by (intro evolves_then evolves_advance evolves_emit_if evolves_observation evolves_count evolves_phrase evolves_update)
     (auto intro!: evolves_update)

lemma evolves_apply_beat [intro]: "evolves p s \<Longrightarrow> evolves p (fst (apply_beat beat observed stamp now s))"
  unfolding apply_beat_def Let_def by (auto split: option.splits)

lemma evolves_apply_tempo [intro]: "evolves p s \<Longrightarrow> evolves p (fst (apply_tempo_status tempo observed s))"
  unfolding apply_tempo_status_def Let_def by (auto intro!: evolves_then split: option.splits)

lemma evolves_queue_position [intro]: "evolves p s \<Longrightarrow> evolves p (fst (queue_precise_position pos observed now s))"
  unfolding queue_precise_position_def Let_def by (auto split: option.splits)

lemma evolves_take [intro]:
  "evolves p s \<Longrightarrow> evolves p (fst (take_position previous observation beat seeked stamp now s))"
  unfolding take_position_def Let_def
  by (intro evolves_then evolves_emit_if evolves_observation evolves_phrase evolves_update) auto

lemma evolves_authoritative [intro]:
  "evolves p s \<Longrightarrow> evolves p (fst (apply_authoritative_position observation beat hot stamp now s))"
  unfolding apply_authoritative_position_def Let_def
  by (cases "pl_decks s (ppo_deck_id observation)")
     (auto intro!: evolves_then evolves_take evolves_update evolves_count evolves_advance)

lemma evolves_ingest [intro]: "evolves p s \<Longrightarrow> evolves p (fst (ingest m stamp now s))"
  unfolding ingest_def Let_def
  by (cases "msg_event m") (auto intro!: evolves_status evolves_unload evolves_apply_status evolves_apply_beat
      evolves_apply_tempo evolves_queue_position evolves_update)

lemma evolves_unload_all [intro]: "evolves p s \<Longrightarrow> evolves p (fst (unload_all ds stamp s))"
  by (induction ds arbitrary: s) (auto intro!: evolves_then)

lemma evolves_clear [intro]: "evolves p s \<Longrightarrow> evolves p (fst (clear_provider stamp s))"
  unfolding clear_provider_def by (auto intro!: evolves_then)

lemma evolves_others [intro]:
  "evolves p s \<Longrightarrow> evolves p (fst (begin_bridge_recovery stamp s))"
  "evolves p s \<Longrightarrow> evolves p (fst (hydrate_track_metadata load metadata s))"
  "evolves p s \<Longrightarrow> evolves p (fst (publish_hydrated_track load metadata stamp s))"
  "evolves p s \<Longrightarrow> evolves p (fst (mark_degraded text stamp s))"
  "evolves p s \<Longrightarrow> evolves p (fst (invalidate_source_media player stamp s))"
  "evolves p s \<Longrightarrow> evolves p (record_ingress_metrics d s)"
  "evolves p s \<Longrightarrow> evolves p (fst (drain_timing_observations s))"
  "evolves p s \<Longrightarrow> evolves p (fst (drain_precise_position_observations s))"
  unfolding begin_bridge_recovery_def hydrate_track_metadata_def publish_hydrated_track_def mark_degraded_def
    invalidate_source_media_def record_ingress_metrics_def drain_timing_observations_def
    drain_precise_position_observations_def
  by (auto intro!: evolves_then split: option.split)

lemma step_evolves:
  "provider_step p ev = Inr (q, out) \<Longrightarrow> ev \<noteq> DrainEvents \<Longrightarrow> evolves p q \<and> out = []"
  using evolves_refl [of p] by (cases ev) auto

text \<open>Over a run, the observations handed out so far and those that wait are numbered from one.\<close>

definition in_order :: "DomainEvent list \<Rightarrow> ProLinkDeckSourceProvider \<Rightarrow> bool" where
  "in_order handed q \<longleftrightarrow> sequences (handed @ pl_pending_events q) = [1..<Suc (unat (pl_sequence q))]
     \<and> list_all (from_source (pl_source_id q)) (handed @ pl_pending_events q)
     \<and> sorted_wrt (<) (loads (handed @ pl_pending_events q))
     \<and> (\<forall>l \<in> set (loads (handed @ pl_pending_events q)). l < unat (pl_next_track_load_id q))"

lemma in_order_evolves:
  assumes "in_order handed p" "evolves p q"
  shows "in_order handed q"
proof -
  from assms(2) obtain new where new: "new_events p q new"
    and le: "unat (pl_next_track_load_id p) \<le> unat (pl_next_track_load_id q)" by (auto simp: evolves_def)
  have "[1..<Suc (unat (pl_sequence q))] = [1..<Suc (unat (pl_sequence p))] @ [Suc (unat (pl_sequence p))..<Suc (unat (pl_sequence q))]"
    using new by (intro upt_split) (auto simp: new_events_def)
  moreover have "loads (handed @ pl_pending_events q) = loads (handed @ pl_pending_events p) @ loads new"
    and "sequences (handed @ pl_pending_events q) = sequences (handed @ pl_pending_events p) @ sequences new"
    using new by (simp_all add: new_events_def)
  moreover have "l < m" if "l \<in> set (loads (handed @ pl_pending_events p))" "m \<in> set (loads new)" for l m
    using that assms(1) new unfolding in_order_def new_events_def by (meson less_le_trans)
  moreover have "l < unat (pl_next_track_load_id q)" if "l \<in> set (loads (handed @ pl_pending_events p))" for l
    using that assms(1) le unfolding in_order_def by (meson less_le_trans)
  moreover have "list_all (from_source (pl_source_id q)) (handed @ pl_pending_events q)"
    using assms(1) new by (simp add: in_order_def new_events_def)
  ultimately show ?thesis
    using assms(1) new unfolding in_order_def new_events_def by (simp only: sorted_wrt_append set_append) blast
qed

lemma in_order_step:
  assumes "in_order handed p" "provider_step p ev = Inr (q, out)"
  shows "in_order (handed @ out) q"
proof (cases "ev = DrainEvents")
  case True
  with assms show ?thesis by (auto simp: in_order_def drain_events_def)
next
  case False
  with step_evolves [OF assms(2)] in_order_evolves [OF assms(1)] show ?thesis by simp
qed

lemma in_order_run:
  "in_order handed p \<Longrightarrow> in_order (handed @ concat (snd (run_machine provider_step p evs))) (fst (run_machine provider_step p evs))"
proof (induction evs arbitrary: handed p)
  case (Cons ev evs)
  show ?case
  proof (cases "provider_step p ev")
    case (Inl e)
    with Cons show ?thesis by simp
  next
    case (Inr x)
    obtain q out where x: "x = (q, out)" by fastforce
    have "in_order (handed @ out) q" using in_order_step Cons.prems Inr x by blast
    from Cons.IH [OF this] show ?thesis
      by (simp add: Inr x case_prod_beta Let_def)
  qed
qed simp

lemma in_order_new: "in_order [] (fst (new_provider stamp))"
  by (simp add: in_order_def new_provider_def emit_def empty_provider_def checked_add_def sequences_def loads_def)

text \<open>
  C22. Whatever the bridge sends, whatever the engine asks and wherever a call fails: the
  observations the source has handed out, followed by those that still wait, are numbered
  from 1 without a gap or a repetition, and the loads they announce have strictly increasing
  numbers below the next free one.
\<close>

theorem observations_numbered:
  "let (q, outs) = run_machine provider_step (fst (new_provider stamp)) evs;
       events = concat outs @ pl_pending_events q in
   sequences events = [1..<Suc (unat (pl_sequence q))] \<and> sorted_wrt (<) (loads events)
   \<and> list_all (\<lambda>l. l < unat (pl_next_track_load_id q)) (loads events)"
  using in_order_run [OF in_order_new, of stamp evs]
  by (simp add: in_order_def case_prod_beta Let_def list_all_iff)

section \<open>Predicates on the decks\<close>

text \<open>
  A predicate that looks only at the decks and the next load number, and that survives the
  removal of a deck, a fresh load and a change of a deck that leaves its load and its beat.
\<close>

locale decks_predicate =
  fixes P :: "ProLinkDeckSourceProvider \<Rightarrow> bool"
  assumes same: "P s \<Longrightarrow> pl_decks t = pl_decks s \<Longrightarrow> pl_next_track_load_id t = pl_next_track_load_id s \<Longrightarrow> P t"
    and upd: "P s \<Longrightarrow> (\<And>x. ld_track_load_id (f x) = ld_track_load_id x \<and> ld_beat (f x) = ld_beat x) \<Longrightarrow> P (update_deck d f s)"
    and gone: "P s \<Longrightarrow> P (s\<lparr>pl_decks := (pl_decks s)(d := None)\<rparr>)"
    and taken: "P s \<Longrightarrow> checked_add (pl_next_track_load_id s) 1 = Some n \<Longrightarrow> P (s\<lparr>pl_next_track_load_id := n\<rparr>)"
    and fresh: "P s \<Longrightarrow> checked_add (pl_next_track_load_id s) 1 = Some n \<Longrightarrow> ld_track_load_id x = pl_next_track_load_id s \<Longrightarrow>
      P (s\<lparr>pl_next_track_load_id := n, pl_decks := (pl_decks s)(d \<mapsto> x)\<rparr>)"
begin

lemmas thens = state_then_keeps [where P = P]

lemma p_fields [simp]:
  "P (s\<lparr>pl_devices := x1\<rparr>) = P s"
  "P (s\<lparr>pl_signatures := x2\<rparr>) = P s"
  "P (s\<lparr>pl_leader_deck_id := x3\<rparr>) = P s"
  "P (s\<lparr>pl_source_status := x4\<rparr>) = P s"
  "P (s\<lparr>pl_received_message_count := x5\<rparr>) = P s"
  "P (s\<lparr>pl_last_bridge_sequence := x6\<rparr>) = P s"
  "P (s\<lparr>pl_bridge_version := x7\<rparr>) = P s"
  "P (s\<lparr>pl_beat_link_version := x8\<rparr>) = P s"
  "P (s\<lparr>pl_last_error := x9\<rparr>) = P s"
  "P (s\<lparr>pl_ingress := x10\<rparr>) = P s"
  "P (s\<lparr>pl_precise_position_message_count := x11\<rparr>) = P s"
  "P (s\<lparr>pl_authoritative_position_count := x12\<rparr>) = P s"
  "P (s\<lparr>pl_position_discontinuity_count := x13\<rparr>) = P s"
  "P (s\<lparr>pl_timing_generation := x14\<rparr>) = P s"
  "P (s\<lparr>pl_timing_observations := x15\<rparr>) = P s"
  "P (s\<lparr>pl_precise_position_observations := x16\<rparr>) = P s"
  "P (s\<lparr>pl_sequence := x17\<rparr>) = P s"
  "P (s\<lparr>pl_pending_events := x18\<rparr>) = P s"
  by (rule iffI; erule same; simp)+

lemma p_emit [simp]:
  "P (fst (emit stamp obs s)) = P s"
  "P (fst (emit_if c stamp obs s)) = P s"
  "P (fst (advance_timing_generation s)) = P s"
  "P (fst (advance_if c s)) = P s"
  "P (push_timing t s) = P s"
  "P (count_authoritative s) = P s"
  "P (count_discontinuity c s) = P s"
  "P (fst (announce_phrase d l x stamp s)) = P s"
  by (simp_all add: emit_def emit_if_def advance_timing_generation_def advance_if_def push_timing_def
      count_authoritative_def count_discontinuity_def announce_phrase_def split: option.split)

lemma p_status: "P s \<Longrightarrow> P (fst (update_source_status x stamp s))"
  by (simp add: update_source_status_def)

lemma p_unload: "P s \<Longrightarrow> P (fst (unload_deck d stamp s))"
  unfolding unload_deck_def by (rule thens) (auto split: option.split intro: gone)

lemma p_announce: "P s \<Longrightarrow> P (fst (announce_load deck load metadata track_bpm effective beat playing stamp s))"
  unfolding announce_load_def by (auto intro!: thens)

lemma p_load: "P s \<Longrightarrow> P (fst (load_from_status status i track_bpm effective beat observed stamp now s))"
  unfolding load_from_status_def Let_def
  by (rule thens, simp, rule thens, erule p_unload)
     (auto simp: state_then_def allocate_load_def fresh_deck_def split: option.split sum.split intro!: taken p_announce fresh)

lemma p_lead: "P s \<Longrightarrow> P (fst (lead_from_status deck stamp s))"
  unfolding lead_from_status_def by (rule thens) (auto split: option.split)

lemma p_timing: "P (status_timing status effective beat observed a b c s) = P s"
  by (simp add: status_timing_def Let_def)

lemma p_pure: "P s \<Longrightarrow> (\<And>a. P (fst (f s a))) \<Longrightarrow> P (fst (state_then (s, r) f))"
  by (cases r) (simp_all add: state_then_def)

lemma p_apply_status:
  assumes "P s"
    and "\<And>previous effective beat. pl_decks s (ds_device_number status) = Some previous \<Longrightarrow>
       P (fst (follow_status previous status effective beat observed stamp now s))"
  shows "P (fst (apply_status status observed stamp now s))"
proof (cases "ds_rekordbox_id status = 0 \<or> ds_source_player status = 0")
  case True
  with assms(1) show ?thesis by (auto simp: apply_status_def intro: p_unload)
next
  case False
  let ?i = "status_identity status s"
  let ?loaded = "\<lambda>track_bpm effective beat. state_then (load_from_status status ?i track_bpm effective beat observed stamp now s)
    (\<lambda>p _. (p, Inr (True, True, False)))"
  have loaded: "P (fst (?loaded track_bpm effective beat))" for track_bpm effective beat
    by (rule thens) (simp_all add: p_load assms(1))
  show ?thesis
    unfolding apply_status_def Let_def if_not_P [OF False]
    by (intro p_pure [OF assms(1)], rule thens)
       (auto simp: p_timing loaded assms(2) intro!: thens p_lead split: option.split prod.split)
qed

lemma p_queue: "P s \<Longrightarrow> P (fst (queue_precise_position pos observed now s))"
  unfolding queue_precise_position_def Let_def by (auto split: option.split intro!: upd)

lemma p_tempo: "P s \<Longrightarrow> P (fst (apply_tempo_status tempo observed s))"
  unfolding apply_tempo_status_def Let_def by (auto split: option.split intro!: p_pure)

lemma p_ingest:
  assumes "P s"
    and status: "\<And>status t. msg_event m = BrDeckStatus status \<Longrightarrow> P t \<Longrightarrow> pl_decks t = pl_decks s \<Longrightarrow>
      P (fst (apply_status status (msg_observed_at_nanos m) stamp now t))"
    and beat: "\<And>beat t. msg_event m = BrBeat beat \<Longrightarrow> P t \<Longrightarrow> pl_decks t = pl_decks s \<Longrightarrow>
      P (fst (apply_beat beat (msg_observed_at_nanos m) stamp now t))"
  shows "P (fst (ingest m stamp now s))"
  using assms unfolding ingest_def Let_def
  by (cases "msg_event m") (auto intro!: p_status p_unload status beat p_tempo p_queue upd)

lemma p_unload_all: "P s \<Longrightarrow> P (fst (unload_all ds stamp s))"
  by (induction ds arbitrary: s) (auto intro!: thens p_unload)

lemma p_clear: "P s \<Longrightarrow> P (fst (clear_provider stamp s))"
  unfolding clear_provider_def by (auto intro!: thens p_unload_all)

lemma p_hydrate: "P s \<Longrightarrow> P (fst (hydrate_track_metadata load metadata s))"
  unfolding hydrate_track_metadata_def by (auto split: option.split intro!: upd)

lemma p_others:
  "P s \<Longrightarrow> P (fst (begin_bridge_recovery stamp s))"
  "P s \<Longrightarrow> P (fst (publish_hydrated_track load metadata stamp s))"
  "P s \<Longrightarrow> P (fst (mark_degraded text stamp s))"
  "P s \<Longrightarrow> P (fst (invalidate_source_media player stamp s))"
  "P s \<Longrightarrow> P (record_ingress_metrics d s)"
  "P s \<Longrightarrow> P (fst (drain_timing_observations s))"
  "P s \<Longrightarrow> P (fst (drain_precise_position_observations s))"
  "P s \<Longrightarrow> P (fst (drain_events s))"
  unfolding begin_bridge_recovery_def publish_hydrated_track_def mark_degraded_def
    invalidate_source_media_def record_ingress_metrics_def drain_timing_observations_def
    drain_precise_position_observations_def drain_events_def
  by (auto intro!: thens p_clear p_hydrate p_unload_all p_status split: option.split)

text \<open>A step keeps the predicate when the three operations that move a deck keep it.\<close>

lemma p_step:
  assumes "P p" "provider_step p ev = Inr (q, out)"
    and "\<And>m stamp now. ev = Ingest m stamp now \<Longrightarrow> P (fst (ingest m stamp now p))"
    and "\<And>obs beat hot stamp now. ev = ApplyPosition obs beat hot stamp now \<Longrightarrow>
      P (fst (apply_authoritative_position obs beat hot stamp now p))"
  shows "P q"
  using assms p_others p_clear p_hydrate by (cases ev) (auto simp: drain_events_def)

end

text \<open>A predicate that does not look at the beats survives these operations too.\<close>

locale loads_predicate = decks_predicate P for P :: "ProLinkDeckSourceProvider \<Rightarrow> bool" +
  assumes change: "P s \<Longrightarrow> (\<And>x. ld_track_load_id (f x) = ld_track_load_id x) \<Longrightarrow> P (update_deck d f s)"
begin

lemma p_follow: "P s \<Longrightarrow> P (fst (follow_status previous status effective beat observed stamp now s))"
  unfolding follow_status_def Let_def
  by (intro thens) (auto simp: follow_deck_def Let_def intro!: change)

lemma p_commit: "P s \<Longrightarrow> P (fst (commit_beat beat previous absolute seeked matches observed stamp now s))"
  unfolding commit_beat_def Let_def
  by (intro thens) (auto simp: beat_deck_def Let_def intro!: change)

lemma p_beat: "P s \<Longrightarrow> P (fst (apply_beat beat observed stamp now s))"
  unfolding apply_beat_def Let_def by (auto intro!: p_commit split: option.split)

lemma p_take: "P s \<Longrightarrow> P (fst (take_position previous observation beat seeked stamp now s))"
  unfolding take_position_def Let_def
  by (intro thens) (auto simp: position_deck_def record_precise_def Let_def intro!: change)

lemma p_authoritative: "P s \<Longrightarrow> P (fst (apply_authoritative_position observation beat hot stamp now s))"
  unfolding apply_authoritative_position_def Let_def
  by (cases "pl_decks s (ppo_deck_id observation)")
     (auto simp: record_precise_def intro!: thens p_take change)

lemma p_run_step: "P p \<Longrightarrow> provider_step p ev = Inr (q, out) \<Longrightarrow> P q"
  by (rule p_step) (auto intro!: p_ingest p_apply_status p_follow p_beat p_authoritative)

end

text \<open>The loads of the decks are numbered below the next one and are distinct.\<close>

definition loads_fresh :: "ProLinkDeckSourceProvider \<Rightarrow> bool" where
  "loads_fresh s \<longleftrightarrow>
     (\<forall>d x. pl_decks s d = Some x \<longrightarrow> ld_track_load_id x < pl_next_track_load_id s)
   \<and> (\<forall>d e x y. pl_decks s d = Some x \<longrightarrow> pl_decks s e = Some y \<longrightarrow> ld_track_load_id x = ld_track_load_id y \<longrightarrow> d = e)"

interpretation fresh_loads: loads_predicate loads_fresh
proof
  show "loads_fresh t" if "loads_fresh s" "pl_decks t = pl_decks s" "pl_next_track_load_id t = pl_next_track_load_id s" for s t
    using that by (simp add: loads_fresh_def)
  show change: "loads_fresh (update_deck d f s)" if "loads_fresh s" "\<And>x. ld_track_load_id (f x) = ld_track_load_id x" for s d f
    using that by (fastforce simp: loads_fresh_def update_deck_def split: option.split if_splits)
  show "loads_fresh (update_deck d f s)"
    if "loads_fresh s" "\<And>x. ld_track_load_id (f x) = ld_track_load_id x \<and> ld_beat (f x) = ld_beat x" for s d f
    using that by (intro change) auto
  show "loads_fresh (s\<lparr>pl_decks := (pl_decks s)(d := None)\<rparr>)" if "loads_fresh s" for s d
    using that by (simp add: loads_fresh_def)
  show "loads_fresh (s\<lparr>pl_next_track_load_id := n\<rparr>)"
    if "loads_fresh s" "checked_add (pl_next_track_load_id s) 1 = Some n" for s n
    using that checked_add_Some_gt [OF that(2)] by (auto simp: loads_fresh_def intro: less_trans)
  show "loads_fresh (s\<lparr>pl_next_track_load_id := n, pl_decks := (pl_decks s)(d \<mapsto> x)\<rparr>)"
    if "loads_fresh s" "checked_add (pl_next_track_load_id s) 1 = Some n" "ld_track_load_id x = pl_next_track_load_id s" for s n d x
    using that checked_add_Some_gt [OF that(2)] by (fastforce simp: loads_fresh_def intro: less_trans)
qed

lemma fresh_new: "loads_fresh (fst (new_provider stamp))"
  by (simp add: loads_fresh_def new_provider_def emit_def empty_provider_def split: option.split)

interpretation prolink: event_machine provider_step loads_fresh "\<lambda>_. True" "fst (new_provider stamp)" for stamp
  by unfold_locales (auto intro: fresh_loads.p_run_step fresh_new)

section \<open>A playing deck is not moved back\<close>

text \<open>What the other operations keep of a deck that plays in \<open>p\<close>.\<close>

definition unmoved :: "ProLinkDeckSourceProvider \<Rightarrow> ProLinkDeckSourceProvider \<Rightarrow> bool" where
  "unmoved p s \<longleftrightarrow> loads_fresh p \<and> pl_next_track_load_id p \<le> pl_next_track_load_id s
     \<and> (\<forall>d x y. pl_decks p d = Some x \<longrightarrow> ld_playing x \<longrightarrow> pl_decks s d = Some y \<longrightarrow>
           ld_track_load_id y = ld_track_load_id x \<longrightarrow> ld_beat y = ld_beat x)"

interpretation still: decks_predicate "unmoved p" for p
proof
  show "unmoved p t" if "unmoved p s" "pl_decks t = pl_decks s" "pl_next_track_load_id t = pl_next_track_load_id s" for s t
    using that by (simp add: unmoved_def)
  show "unmoved p (update_deck d f s)"
    if "unmoved p s" "\<And>x. ld_track_load_id (f x) = ld_track_load_id x \<and> ld_beat (f x) = ld_beat x" for s d f
    using that by (auto simp: unmoved_def update_deck_def split: option.split if_splits)
  show "unmoved p (s\<lparr>pl_decks := (pl_decks s)(d := None)\<rparr>)" if "unmoved p s" for s d
    using that by (auto simp: unmoved_def)
  show "unmoved p (s\<lparr>pl_next_track_load_id := n\<rparr>)"
    if "unmoved p s" "checked_add (pl_next_track_load_id s) 1 = Some n" for s n
    using that checked_add_Some_ge [OF that(2)] by (auto simp: unmoved_def)
  show "unmoved p (s\<lparr>pl_next_track_load_id := n, pl_decks := (pl_decks s)(d \<mapsto> x)\<rparr>)"
    if "unmoved p s" "checked_add (pl_next_track_load_id s) 1 = Some n" "ld_track_load_id x = pl_next_track_load_id s" for s n d x
    using that checked_add_Some_ge [OF that(2)] by (fastforce simp: unmoved_def loads_fresh_def)
qed

lemma unmoved_refl: "loads_fresh p \<Longrightarrow> unmoved p p"
  by (simp add: unmoved_def)

lemma unmoved_follow:
  assumes "unmoved p s" "pl_decks s (ds_device_number status) = Some previous" "pl_decks s = pl_decks p"
  shows "unmoved p (fst (follow_status previous status effective beat observed stamp now s))"
proof (cases "ld_playing previous")
  case True
  then show ?thesis
    unfolding follow_status_def Let_def
    by (intro still.thens) (auto simp: assms(1) follow_deck_def Let_def intro!: still.upd)
next
  case False
  have "unmoved p (update_deck (ds_device_number status) f t)" if "unmoved p t" for f t
    using that False assms(2,3) by (auto simp: unmoved_def update_deck_def split: option.split if_splits)
  then show ?thesis
    unfolding follow_status_def Let_def
    by (intro still.thens) (auto simp: assms(1))
qed

lemma unmoved_status:
  assumes "unmoved p s" "pl_decks s = pl_decks p"
  shows "unmoved p (fst (apply_status status observed stamp now s))"
  using assms by (intro still.p_apply_status unmoved_follow) auto

text \<open>A seek is announced with the generation that follows.\<close>

definition announced_seek :: "DeckId \<Rightarrow> LoadedDeck \<Rightarrow> ProLinkDeckSourceProvider \<Rightarrow> ProLinkDeckSourceProvider \<Rightarrow> bool" where
  "announced_seek d y p q \<longleftrightarrow> unat (pl_timing_generation q) = Suc (unat (pl_timing_generation p))
     \<and> ld_discontinuity_revision y = pl_timing_generation q
     \<and> (\<exists>e. DomainEvent.Observation e \<in> set (drop (length (pl_pending_events p)) (pl_pending_events q))
          \<and> obs_observation e = DeckObservation.PlaybackPositionSeeked d (ld_track_load_id y) (ld_beat y))"

lemma decks_simps [simp]:
  "pl_decks (fst (emit stamp obs s)) = pl_decks s"
  "pl_decks (fst (emit_if c stamp obs s)) = pl_decks s"
  "pl_decks (fst (announce_phrase d l x stamp s)) = pl_decks s"
  "pl_decks (fst (advance_if c s)) = pl_decks s"
  "pl_decks (push_timing t s) = pl_decks s"
  "pl_decks (count_discontinuity c s) = pl_decks s"
  "pl_decks (count_authoritative s) = pl_decks s"
  by (simp_all add: emit_def emit_if_def announce_phrase_def advance_if_def advance_timing_generation_def push_timing_def
      count_discontinuity_def count_authoritative_def split: option.split)

lemma emit_cases:
  "emit stamp obs p = (p, Inl PlSequenceOverflow)
   \<or> (\<exists>e. obs_observation e = obs \<and> emit stamp obs p = (p\<lparr>pl_sequence := obs_sequence e,
        pl_pending_events := pl_pending_events p @ [DomainEvent.Observation e]\<rparr>, Inr ()))"
  by (auto simp: emit_def split: option.split intro: exI [of _ "\<lparr>obs_source_id = _, obs_sequence = _, obs_observed_at = _, obs_observation = _\<rparr>"])

text \<open>The common shape of the two operations that move a playing deck: the generation, the
  announcement and then the deck.\<close>

lemma move_outcome:
  assumes deck: "pl_decks p d = Some previous" "ld_track_load_id previous = load"
    and p0: "advance_if seeked p = (p0, Inr ())"
    and s: "pl_decks s = pl_decks p0" "pl_timing_generation s = pl_timing_generation p0" "pl_pending_events s = pl_pending_events p0"
    and emitted: "emit_if (beat \<noteq> ld_beat previous) stamp (position_observation seeked d load beat) s = (t, Inr ())"
    and q: "q = fst (announce_phrase d load x stamp' (update_deck d (f (pl_timing_generation t)) t))"
    and f: "\<And>g y. ld_beat (f g y) = beat \<and> ld_track_load_id (f g y) = ld_track_load_id y"
      "\<And>g y. seeked \<Longrightarrow> ld_discontinuity_revision (f g y) = g"
    and y: "pl_decks q d = Some y"
  shows "ld_beat y = beat \<and> (seeked \<longrightarrow> beat \<noteq> ld_beat previous \<longrightarrow> announced_seek d y p q)"
proof -
  have decks: "pl_decks t = pl_decks p"
    using arg_cong [OF emitted, of "pl_decks \<circ> fst"] arg_cong [OF p0, of "pl_decks \<circ> fst"] s(1) by simp
  then have y_eq: "y = f (pl_timing_generation t) previous"
    using y deck by (simp add: q update_deck_def)
  have "announced_seek d y p q" if seek: seeked "beat \<noteq> ld_beat previous"
  proof -
    have g: "unat (pl_timing_generation p0) = Suc (unat (pl_timing_generation p))" "pl_pending_events p0 = pl_pending_events p"
      using p0 seek by (auto simp: advance_if_def advance_timing_generation_def split: option.splits dest!: checked_add_SomeD)
    obtain e where e: "obs_observation e = DeckObservation.PlaybackPositionSeeked d load beat"
      "t = s\<lparr>pl_sequence := obs_sequence e, pl_pending_events := pl_pending_events s @ [DomainEvent.Observation e]\<rparr>"
      using emitted seek emit_cases [of stamp "position_observation seeked d load beat" s]
      by (auto simp: emit_if_def position_observation_def)
    have "DomainEvent.Observation e \<in> set (drop (length (pl_pending_events p)) (pl_pending_events q))"
      using e g s by (auto simp: q announce_phrase_def emit_def update_deck_def split: option.split)
    moreover have "pl_timing_generation q = pl_timing_generation p0"
      using e s by (simp add: q announce_phrase_def emit_def update_deck_def split: option.split)
    moreover have "ld_discontinuity_revision y = pl_timing_generation p0" "ld_track_load_id y = load" "ld_beat y = beat"
      using f seek e s deck by (simp_all add: y_eq)
    ultimately show ?thesis using e g unfolding announced_seek_def by auto
  qed
  then show ?thesis using f by (simp add: y_eq)
qed

lemma announced_push [simp]:
  "announced_seek d y p (push_timing obs q) = announced_seek d y p q"
  "announced_seek d y (count_authoritative (count_discontinuity c p)) q = announced_seek d y p q"
  by (simp_all add: announced_seek_def push_timing_def count_authoritative_def count_discontinuity_def)

text \<open>How an operation that moves deck \<open>d\<close> to \<open>beat\<close> can leave the decks.\<close>

definition moved :: "DeckId \<Rightarrow> LoadedDeck \<Rightarrow> u32 \<Rightarrow> bool \<Rightarrow> ProLinkDeckSourceProvider \<Rightarrow> ProLinkDeckSourceProvider \<Rightarrow> bool" where
  "moved d previous beat seeked p q \<longleftrightarrow> (\<forall>e. e \<noteq> d \<longrightarrow> pl_decks q e = pl_decks p e)
     \<and> (\<forall>y. pl_decks q d = Some y \<longrightarrow> ld_beat y = ld_beat previous
          \<or> ld_beat y = beat \<and> (seeked \<longrightarrow> beat \<noteq> ld_beat previous \<longrightarrow> announced_seek d y p q))"

lemma moved_same: "pl_decks q = pl_decks p \<Longrightarrow> pl_decks p d = Some previous \<Longrightarrow> moved d previous beat seeked p q"
  by (simp add: moved_def)

lemma moved_update:
  assumes "pl_decks p d = Some previous" "ld_track_load_id previous = load"
    and after: "advance_if seeked p = (after, Inr ())"
    and s: "pl_decks s = pl_decks after" "pl_timing_generation s = pl_timing_generation after" "pl_pending_events s = pl_pending_events after"
    and t: "emit_if (beat \<noteq> ld_beat previous) stamp (position_observation seeked d load beat) s = (t, Inr ())"
    and f: "\<And>g y. ld_beat (f g y) = beat \<and> ld_track_load_id (f g y) = ld_track_load_id y"
      "\<And>g y. seeked \<Longrightarrow> ld_discontinuity_revision (f g y) = g"
  shows "moved d previous beat seeked p (fst (announce_phrase d load x stamp' (update_deck d (f (pl_timing_generation t)) t)))"
proof -
  have "pl_decks t = pl_decks p"
    using arg_cong [OF t, of "pl_decks \<circ> fst"] arg_cong [OF after, of "pl_decks \<circ> fst"] s(1) by simp
  then show ?thesis
    using move_outcome [OF assms(1-7) refl f] by (auto simp: moved_def update_deck_def assms(1))
qed

lemma commit_moved:
  assumes "pl_decks p (bt_device_number beat) = Some previous"
  shows "moved (bt_device_number beat) previous absolute seeked p
    (fst (commit_beat beat previous absolute seeked matches observed stamp now p))"
proof -
  obtain p0 r where p0: "advance_if seeked p = (p0, r)" by fastforce
  have d0: "pl_decks p0 = pl_decks p" using arg_cong [OF p0, of "pl_decks \<circ> fst"] by simp
  let ?d = "bt_device_number beat" and ?load = "ld_track_load_id previous"
  let ?emit = "emit_if (absolute \<noteq> ld_beat previous) stamp (position_observation seeked ?d ?load absolute) (count_discontinuity seeked p0)"
  obtain t r' where t: "?emit = (t, r')" by fastforce
  have dt: "pl_decks t = pl_decks p" using arg_cong [OF t, of "pl_decks \<circ> fst"] d0 by simp
  let ?q = "fst (announce_phrase ?d ?load (phrase_entered previous absolute) stamp
     (update_deck ?d (beat_deck previous absolute seeked matches (pl_timing_generation t) observed now) t))"
  have "moved ?d previous absolute seeked p ?q" if "r = Inr ()" "r' = Inr ()"
    using p0 t that
    by (intro moved_update [where f = "\<lambda>g. beat_deck previous absolute seeked matches g observed now" and
          s = "count_discontinuity seeked p0" and after = p0, OF assms refl])
       (auto simp: count_discontinuity_def beat_deck_def Let_def)
  moreover have "moved d previous b c p (push_timing obs q) = moved d previous b c p q" for d b c obs q
    by (simp add: moved_def)
  ultimately show ?thesis
    using p0 t d0 dt assms unfolding commit_beat_def Let_def
    by (cases r; cases r'; cases "announce_phrase ?d ?load (phrase_entered previous absolute) stamp
     (update_deck ?d (beat_deck previous absolute seeked matches (pl_timing_generation t) observed now) t)")
       (auto simp: state_then_def moved_same split: sum.split)
qed

lemma take_moved:
  assumes "pl_decks p d = Some previous" "d = ppo_deck_id observation" "ld_track_load_id previous = ppo_track_load_id observation"
    and p0: "advance_if seeked p = (p0, Inr ())"
    and s: "s = count_authoritative (count_discontinuity seeked p0)"
  shows "moved d previous beat seeked p (fst (take_position previous observation beat seeked stamp now s))"
proof -
  have d0: "pl_decks s = pl_decks p" using arg_cong [OF p0, of "pl_decks \<circ> fst"] s by simp
  let ?load = "ppo_track_load_id observation"
  let ?emit = "emit_if (ld_beat previous \<noteq> beat) stamp (position_observation seeked d ?load beat) s"
  obtain t r where t: "?emit = (t, r)" by fastforce
  have dt: "pl_decks t = pl_decks p" using arg_cong [OF t, of "pl_decks \<circ> fst"] d0 by simp
  let ?q = "announce_phrase d ?load (phrase_entered previous beat) stamp
     (update_deck d (position_deck previous observation beat seeked (pl_timing_generation t) now) t)"
  have "moved d previous beat seeked p (fst ?q)" if "r = Inr ()"
    using p0 t that
    by (intro moved_update [where f = "\<lambda>g. position_deck previous observation beat seeked g now" and s = s and after = p0, OF assms(1,3)])
       (auto simp: s count_authoritative_def count_discontinuity_def position_deck_def record_precise_def Let_def eq_commute)
  moreover have "moved d previous b c p (push_timing obs q) = moved d previous b c p q" for b c obs q
    by (simp add: moved_def)
  ultimately show ?thesis
    using t d0 dt assms(1) unfolding take_position_def Let_def assms(2) [symmetric]
    by (cases r; cases ?q) (auto simp: state_then_def moved_same split: sum.split)
qed

definition not_rewound :: "DeckId \<Rightarrow> ProLinkDeckSourceProvider \<Rightarrow> ProLinkDeckSourceProvider \<Rightarrow> bool" where
  "not_rewound d p q \<longleftrightarrow> (case (pl_decks p d, pl_decks q d) of
       (Some x, Some y) \<Rightarrow> \<not> (ld_playing x \<and> ld_track_load_id y = ld_track_load_id x) \<or> ld_beat x \<le> ld_beat y
          \<or> announced_seek d y p q
     | _ \<Rightarrow> True)"

lemma not_rewound_unmoved: "unmoved p q \<Longrightarrow> not_rewound d p q"
  by (auto simp: not_rewound_def unmoved_def split: option.split)

lemma not_rewound_update:
  "unmoved p s \<Longrightarrow> (\<And>x. ld_track_load_id (f x) = ld_track_load_id x \<and> ld_beat (f x) = ld_beat x) \<Longrightarrow>
   not_rewound d p (update_deck e f s)"
  by (intro not_rewound_unmoved still.upd)

lemma not_rewound_moved:
  "moved d previous beat seeked p q \<Longrightarrow> pl_decks p d = Some previous \<Longrightarrow>
   seeked \<or> \<not> ld_playing previous \<or> ld_beat previous \<le> beat \<Longrightarrow> not_rewound e p q"
  by (cases "e = d") (auto simp: not_rewound_def moved_def split: option.split)

lemma beat_not_rewound:
  assumes "loads_fresh p"
  shows "not_rewound d p (fst (apply_beat beat observed stamp now p))"
proof (cases "pl_decks p (bt_device_number beat)")
  case None
  then show ?thesis by (simp add: apply_beat_def not_rewound_unmoved unmoved_refl assms)
next
  case (Some previous)
  show ?thesis
    using unmoved_refl [OF assms, THEN not_rewound_unmoved] Some
    by (auto simp: apply_beat_def Let_def intro!: not_rewound_moved [OF commit_moved])
qed

lemma position_not_rewound:
  assumes "loads_fresh p"
  shows "not_rewound d p (fst (apply_authoritative_position observation beat hot stamp now p))"
proof (cases "pl_decks p (ppo_deck_id observation)")
  case None
  then show ?thesis by (simp add: apply_authoritative_position_def not_rewound_unmoved unmoved_refl assms)
next
  case (Some previous)
  let ?seeked = "precise_jump previous observation beat \<and> ld_precise_position_seen previous"
  obtain p0 r where p0: "advance_if ?seeked p = (p0, r)" by fastforce
  have u: "unmoved p p0" using still.p_emit(4) [of p ?seeked p] unmoved_refl [OF assms] p0 by simp
  have taken: "not_rewound d p (fst (take_position previous observation beat ?seeked stamp now
      (count_authoritative (count_discontinuity ?seeked p0))))"
    if "r = Inr ()" "ld_track_load_id previous = ppo_track_load_id observation" "?seeked \<or> \<not> ld_playing previous"
    using that p0 Some by (intro not_rewound_moved [OF take_moved]) auto
  show ?thesis
    using u unmoved_refl [OF assms] not_rewound_unmoved [OF u] not_rewound_unmoved [OF unmoved_refl [OF assms]] p0 Some taken
    unfolding apply_authoritative_position_def Let_def
    by (cases r) (auto simp: state_then_def record_precise_def intro!: not_rewound_update)
qed

lemma not_rewound_cong:
  "pl_decks t = pl_decks p \<Longrightarrow> pl_timing_generation t = pl_timing_generation p \<Longrightarrow> pl_pending_events t = pl_pending_events p \<Longrightarrow>
   not_rewound d t q = not_rewound d p q"
  by (simp add: not_rewound_def announced_seek_def split: option.split)

lemma step_not_rewound:
  assumes "loads_fresh p" "provider_step p ev = Inr (q, out)"
  shows "not_rewound d p q"
proof (cases "unmoved p q")
  case True
  then show ?thesis by (rule not_rewound_unmoved)
next
  case False
  note p = unmoved_refl [OF assms(1)]
  show ?thesis
  proof (cases ev)
    case (Ingest m stamp now)
    obtain beat where beat: "msg_event m = BrBeat beat"
      using False still.p_ingest [OF p, of m stamp now] unmoved_status [of p] assms(2) Ingest by (cases "msg_event m") auto
    let ?t = "p\<lparr>pl_received_message_count := saturating_add (pl_received_message_count p) 1,
                 pl_last_bridge_sequence := Some (case pl_last_bridge_sequence p of
                    None \<Rightarrow> msg_sequence m
                  | Some previous \<Rightarrow> max previous (msg_sequence m))\<rparr>"
    have "loads_fresh ?t" using assms(1) by simp
    from beat_not_rewound [OF this, of d beat "msg_observed_at_nanos m" stamp now] show ?thesis
      using assms(2) Ingest beat by (simp add: ingest_def Let_def not_rewound_cong [of ?t p])
  next
    case (ApplyPosition obs beat hot stamp now)
    with assms position_not_rewound show ?thesis by auto
  qed (use False p assms(2) still.p_step [OF p assms(2)] in auto)
qed

text \<open>
  C14. On whatever run of the source: no step moves a deck that plays backwards within its load,
  unless it is a seek, which it announces to the runtime with the new position and marks with
  a new timing generation, so that the timing observations of before are dropped. Jitter of
  the status messages, late beats and precise positions that lag never do.
\<close>

theorem playing_deck_never_rewinds:
  assumes "p = fst (run_machine provider_step (fst (new_provider stamp)) evs)"
    and "provider_step p ev = Inr (q, out)"
    and "pl_decks p d = Some x" "ld_playing x"
    and "pl_decks q d = Some y" "ld_track_load_id y = ld_track_load_id x"
  shows "ld_beat x \<le> ld_beat y \<or> announced_seek d y p q"
proof -
  have "loads_fresh p" using prolink.inv_run [of evs stamp] assms(1) by (simp add: list_all_iff)
  from step_not_rewound [OF this assms(2), of d] show ?thesis
    using assms(3-6) by (simp add: not_rewound_def)
qed

section \<open>Precise positions and beats\<close>

lemma unat_abs_diff: "unat (abs_diff a b) = (if unat a < unat b then unat b - unat a else unat a - unat b)"
  by (simp add: abs_diff_def word_less_nat_alt unat_sub word_le_nat_alt)

lemma confirmed_twice:
  assumes "ppd_confirmation_count (confirmed_precise_discontinuity pending candidate) \<ge> PRECISE_POSITION_HOT_CUE_CONFIRMATIONS"
  shows "\<exists>before. pending = Some before \<and> abs_diff (ppd_absolute_beat before) (ppc_absolute_beat candidate) \<le> 1"
  using assms by (auto simp: word_le_nat_alt confirmed_precise_discontinuity_def PRECISE_POSITION_HOT_CUE_CONFIRMATIONS_def Let_def
      split: option.splits if_splits)

lemma ppd_beat [simp]: "ppd_absolute_beat (precise_pending previous observation beat) = beat"
  by (simp add: precise_pending_def confirmed_precise_discontinuity_def Let_def)

text \<open>
  A precise position moves a deck that plays only when the engine knows a hot cue there, when
  an earlier position asked for the same jump (within a beat), and when the status messages
  put the deck within a beat of it no more than a second away: a jump they reported, or their
  last position. One stray position never moves the deck.
\<close>

theorem precise_needs_confirmation:
  assumes "pl_decks p (ppo_deck_id observation) = Some x" "ld_playing x"
    and "fst (apply_authoritative_position observation beat hot stamp now p) = q"
    and "pl_decks q (ppo_deck_id observation) = Some y" "ld_beat y \<noteq> ld_beat x"
  shows "hot \<and> (\<exists>before. ld_pending_precise_discontinuity x = Some before \<and> abs_diff (ppd_absolute_beat before) beat \<le> 1)
    \<and> (status_corroborates_discontinuity (ld_last_status_discontinuity x) beat (ppo_observed_at_nanos observation)
       \<or> status_timeline_matches (ld_last_status_beat x) (ld_last_status_observed_at_nanos x) beat
           (ppo_observed_at_nanos observation))"
proof -
  let ?seeked = "precise_jump x observation beat \<and> ld_precise_position_seen x"
  obtain p0 r where p0: "advance_if ?seeked p = (p0, r)" by fastforce
  have d0: "pl_decks p0 = pl_decks p" using arg_cong [OF p0, of "pl_decks \<circ> fst"] by simp
  have "precise_confirmed x observation beat hot"
  proof (rule ccontr)
    assume unconfirmed: "\<not> precise_confirmed x observation beat hot"
    have "ld_beat y = ld_beat x"
      using assms(3,4) unconfirmed assms(1,2) p0 d0 unfolding apply_authoritative_position_def Let_def
      by (cases r) (auto simp: state_then_def update_deck_def record_precise_def split: if_splits)
    with assms(5) show False by simp
  qed
  then have "hot" "ppd_confirmation_count (precise_pending x observation beat) \<ge> PRECISE_POSITION_HOT_CUE_CONFIRMATIONS"
    "status_corroborates_discontinuity (ld_last_status_discontinuity x) beat (ppo_observed_at_nanos observation)
       \<or> status_timeline_matches (ld_last_status_beat x) (ld_last_status_observed_at_nanos x) beat
           (ppo_observed_at_nanos observation)"
    by (auto simp: precise_confirmed_def Let_def)
  then show ?thesis
    using confirmed_twice [of "ld_pending_precise_discontinuity x"] unfolding precise_pending_def by fastforce
qed

text \<open>
  A beat message that says its place in the bar is put on the beat of the track that has
  this place in the bar and lies within two beats of the reference, for every reference from
  the third beat on.
\<close>

theorem beats_align_within_bar:
  assumes "2 \<le> unat r" "unat r < 2 ^ 32 - 8" "1 \<le> unat (b :: u8)" "unat b \<le> 4"
  shows "unat (align_beat_within_bar r b) mod 4 = unat b - 1 \<and> unat r \<le> unat (align_beat_within_bar r b) + 2
    \<and> unat (align_beat_within_bar r b) \<le> unat r + 2"
proof -
  define m :: u32 where "m = ucast (min (saturating_sub b 1) 3)"
  have "unat (saturating_sub b 1) = unat b - 1" by (simp add: word_num)
  then have sub: "min (saturating_sub b 1) 3 = saturating_sub b 1"
    using assms(4) by (simp add: min_def word_le_nat_alt) linarith
  have m: "unat m = unat b - 1"
    using assms(4) by (simp add: m_def sub unsigned_ucast_eq take_bit_nat_eq_self word_num)
  define base where "base = saturating_add (saturating_sub r (r mod 4)) m"
  have rm: "unat (saturating_sub r (r mod 4)) = 4 * (unat r div 4)"
    by (simp add: word_num unat_mod minus_mod_eq_mult_div)
  have base: "unat base = 4 * (unat r div 4) + (unat b - 1)"
    using assms unfolding base_def unat_saturating_add rm m by simp
  have lo: "unat (saturating_sub base 4) = unat base - 4" by (simp add: word_num)
  have hi: "unat (saturating_add base 4) = unat base + 4"
    using assms base by (simp add: word_num)
  have align: "align_beat_within_bar r b = min_by_key (\<lambda>c. abs_diff c r) (saturating_sub base 4) [base, saturating_add base 4]"
    by (simp add: align_beat_within_bar_def Let_def base_def m_def)
  define k where "k = unat r div 4"
  define j where "j = unat r mod 4"
  define w where "w = unat b - 1"
  have facts: "unat r = 4 * k + j" "j < 4" "w < 4" "unat base = 4 * k + w" "2 \<le> 4 * k + j"
    using assms base by (simp_all add: k_def j_def w_def)
  have cases: "j = 0 \<or> j = 1 \<or> j = 2 \<or> j = 3" "w = 0 \<or> w = 1 \<or> w = 2 \<or> w = 3" using facts by linarith+
  have sum_mod: "Suc (4 * n) mod 4 = 1" "Suc (Suc (4 * n)) mod 4 = 2" "Suc (Suc (Suc (4 * n))) mod 4 = 3" for n :: nat
    by presburger+
  show ?thesis
  proof (cases k)
    case 0
    then show ?thesis
      using facts cases lo hi unfolding align w_def [symmetric]
      by (elim disjE; simp add: word_less_nat_alt unat_abs_diff)
  next
    case (Suc k')
    then have *: "unat r = 4 * k' + j + 4" "unat base = 4 * k' + w + 4" using facts by simp_all
    then show ?thesis
      using cases lo hi unfolding align w_def [symmetric]
      by (elim disjE; simp add: word_less_nat_alt unat_abs_diff sum_mod)
  qed
qed

section \<open>Witnesses\<close>

text \<open>A player that has loaded a track and plays at beat 100.\<close>

definition player_status :: "bool \<Rightarrow> int \<Rightarrow> DeckStatus" where
  "player_status playing beat = \<lparr>ds_device_number = 2, ds_device_name = ''CDJ'', ds_playing = playing, ds_paused = False, ds_cued = False,
     ds_tempo_master = True, ds_on_air = True, ds_source_player = 2, ds_source_slot = ''USB_SLOT'', ds_track_type = ''REKORDBOX'',
     ds_rekordbox_id = 7, ds_track_bpm = 120, ds_effective_bpm = 120, ds_beat_number = beat, ds_beat_within_bar = 1,
     ds_raw_pitch = 0\<rparr>"

definition player_beat :: "u8 \<Rightarrow> Beat" where
  "player_beat bar = \<lparr>bt_device_number = 2, bt_device_name = ''CDJ'', bt_effective_bpm = 120, bt_beat_within_bar = bar, bt_tempo_master = True\<rparr>"

definition player_message :: "u64 \<Rightarrow> u64 \<Rightarrow> BridgeEvent \<Rightarrow> BridgeMessage" where
  "player_message sequence observed event = \<lparr>msg_packet_origin = None, msg_sequence = sequence, msg_observed_at_nanos = observed,
     msg_traffic_class = ClassTransport, msg_bridge_queue_age_micros = 0, msg_ingress_queue_age_micros = 0, msg_event = event\<rparr>"

definition player_loaded :: ProLinkDeckSourceProvider where
  "player_loaded = fst (run_machine provider_step (fst (new_provider 0)) [Ingest (player_message 1 0 (BrDeckStatus (player_status True 101))) 1 0])"

lemma player_bpm: "bpm_milli 120 = Inr 120000"
proof -
  have "fl (120 * 1000) = 120000" using fl_dyadic [of 120000 120000 0] by simp
  moreover have "\<lfloor>240001 / 2 :: rat\<rfloor> = 120000" by (simp add: floor_eq_iff)
  ultimately show ?thesis by (simp add: bpm_milli_def f64_mul_def round_away_def)
qed

definition player_identity :: ProLinkTrackIdentity where
  "player_identity = \<lparr>idn_rekordbox_id = 7, idn_source_player = 2, idn_source_slot = ''USB_SLOT'', idn_signature = None\<rparr>"

definition player_metadata :: TrackMetadata where
  "player_metadata = \<lparr>track_id = track_identity_key player_identity, track_title = ''External track 7'', track_artist = ''CDJ'', track_bpm_milli = 120000,
            track_musical_key = \<lparr>key_pitch_class = PitchC, key_mode = Minor\<rparr>, track_color = None, track_duration_beats = 1200,
            track_phrases = [], track_identity_facts = None\<rparr>"

lemma player_track: "placeholder_track (player_status playing n) player_identity 120000 100 = Inr player_metadata"
proof -
  have "show_nat 7 = ''7''" by code_simp
  moreover have "\<not> blank ''External track 7''" "\<not> blank ''CDJ''" by code_simp+
  ultimately show ?thesis
    by (simp add: placeholder_track_def try_new_unanalyzed_def validate_track_facts_def placeholder_title_def player_identity_def player_status_def
      placeholder_duration_beats_def saturating_mul_def saturating_add_def DEFAULT_TRACK_MINUTES_def bpm_in_range_def player_metadata_def)
qed

lemma player_who: "pl_signatures p 2 = None \<Longrightarrow> status_identity (player_status playing n) p = player_identity"
  by (simp add: status_identity_def player_status_def player_identity_def)

lemma player_fields:
  "ds_device_number (player_status playing n) = 2" "ds_rekordbox_id (player_status playing n) = 7" "ds_source_player (player_status playing n) = 2"
  "ds_track_bpm (player_status playing n) = 120" "ds_effective_bpm (player_status playing n) = 120" "ds_beat_number (player_status playing n) = n"
  "ds_playing (player_status playing n) = playing" "ds_tempo_master (player_status playing n) = True"
  "msg_event (player_message sequence observed event) = event" "msg_sequence (player_message sequence observed event) = sequence"
  "msg_observed_at_nanos (player_message sequence observed event) = observed"
  by (simp_all add: player_status_def player_message_def)

lemma player_loaded_deck:
  "pl_decks player_loaded 2 = Some (fresh_deck player_identity 1 player_metadata 100 0 120000 True 1 0)"
  and player_loaded_sequence: "pl_sequence player_loaded = 5"
  by (simp_all add: player_loaded_def new_provider_def emit_def emit_if_def empty_provider_def checked_add_def ingest_def
    apply_status_def Let_def player_bpm state_then_def status_beat_def load_from_status_def advance_timing_generation_def unload_deck_def
    allocate_load_def player_track player_who announce_load_def lead_from_status_def player_fields
    status_timing_def saturating_sub_def)

lemmas align_evaluation = align_beat_within_bar_def Let_def saturating_sub_def saturating_add_def abs_diff_def min_def
  word_le_nat_alt word_less_nat_alt

definition player_next :: ProviderInput where
  "player_next = Ingest (player_message 2 1000000 (BrBeat (player_beat 2))) 2 1000000"

lemma player_beat_deck:
  "\<exists>y. pl_decks (fst (ingest (player_message 2 1000000 (BrBeat (player_beat 2))) 2 1000000 player_loaded)) 2 = Some y
     \<and> ld_track_load_id y = 1 \<and> ld_beat y = 101"
proof -
  have align: "align_beat_within_bar 100 2 = 101" by (simp add: align_evaluation)
  have "phrase_entered (fresh_deck player_identity 1 player_metadata 100 0 120000 True 1 0) 101 = None"
    by (simp add: phrase_entered_def phrase_index_at_def fresh_deck_def player_metadata_def)
  then show ?thesis
    using align unfolding fresh_deck_def
    by (simp add: ingest_def player_fields player_beat_def Let_def apply_beat_def player_loaded_deck player_loaded_sequence checked_add_def fresh_deck_def beat_status_seek_def
        exact_beat_def saturating_sub_def commit_beat_def advance_if_def state_then_def emit_if_def emit_def
        position_observation_def count_discontinuity_def announce_phrase_def update_deck_def beat_deck_def push_timing_def
        split: option.split)
qed

theorem playing_deck_never_rewinds_witness:
  "\<exists>y. pl_decks (fst (ingest (player_message 2 1000000 (BrBeat (player_beat 2))) 2 1000000 player_loaded)) 2 = Some y
     \<and> (100 \<le> ld_beat y \<or> announced_seek 2 y player_loaded
          (fst (ingest (player_message 2 1000000 (BrBeat (player_beat 2))) 2 1000000 player_loaded)))"
proof -
  obtain y where y: "pl_decks (fst (ingest (player_message 2 1000000 (BrBeat (player_beat 2))) 2 1000000 player_loaded)) 2 = Some y"
    "ld_track_load_id y = 1" using player_beat_deck by blast
  show ?thesis
    using playing_deck_never_rewinds [OF player_loaded_def, of player_next
        "fst (ingest (player_message 2 1000000 (BrBeat (player_beat 2))) 2 1000000 player_loaded)" "[]" 2, OF _ player_loaded_deck _ y(1)] y
    by (simp add: player_next_def fresh_deck_def)
qed

text \<open>A deck that plays at beat 100, and a jump to the hot cue at beat 40 that was seen once.\<close>

definition player_cued :: LoadedDeck where
  "player_cued = (fresh_deck player_identity 1 player_metadata 100 0 120000 True 1 0)
     \<lparr>ld_last_status_beat := 40, ld_precise_position_seen := True, ld_last_precise_position_millis := Some 50000,
      ld_last_precise_position_observed_at_nanos := Some 0,
      ld_pending_precise_discontinuity := Some \<lparr>ppd_playback_position_millis = 20000, ppd_absolute_beat = 40,
        ppd_observed_at_nanos = 0, ppd_confirmation_count = 1\<rparr>\<rparr>"

definition player_observation :: ProLinkPrecisePositionObservation where
  "player_observation = \<lparr>ppo_deck_id = 2, ppo_track_load_id = 1, ppo_observed_at_nanos = 1000000, ppo_playback_position_millis = 20001,
     ppo_effective_bpm_milli = 120000, ppo_beat_within_bar = 1\<rparr>"

definition player_cued_provider :: ProLinkDeckSourceProvider where
  "player_cued_provider = empty_provider\<lparr>pl_decks := [2 \<mapsto> player_cued]\<rparr>"

lemma player_cue_taken:
  "\<exists>y. pl_decks (fst (apply_authoritative_position player_observation 40 True 0 0 player_cued_provider)) 2 = Some y \<and> ld_beat y = 40"
  by (simp add: player_cued_provider_def empty_provider_def player_cued_def player_observation_def fresh_deck_def player_metadata_def
      apply_authoritative_position_def Let_def precise_jump_def position_millis_is_discontinuous_def precise_confirmed_def
      precise_pending_def confirmed_precise_discontinuity_def abs_diff_def saturating_sub_def saturating_add_def
      PRECISE_POSITION_HOT_CUE_CONFIRMATIONS_def PRECISE_POSITION_FORWARD_SEEK_TOLERANCE_MILLIS_def
      status_corroborates_discontinuity_def status_timeline_matches_def PRECISE_POSITION_STATUS_TOLERANCE_BEATS_def
      STATUS_DISCONTINUITY_MAX_AGE_NANOS_def advance_if_def advance_timing_generation_def checked_add_def state_then_def
      take_position_def emit_if_def emit_def position_observation_def announce_phrase_def phrase_entered_def phrase_index_at_def
      update_deck_def position_deck_def record_precise_def count_authoritative_def count_discontinuity_def push_timing_def
      word_le_nat_alt)

theorem precise_needs_confirmation_witness:
  "ld_playing player_cued \<and> ld_pending_precise_discontinuity player_cued \<noteq> None
   \<and> (status_corroborates_discontinuity (ld_last_status_discontinuity player_cued) 40 1000000
      \<or> status_timeline_matches (ld_last_status_beat player_cued) (ld_last_status_observed_at_nanos player_cued) 40 1000000)"
proof -
  obtain y where y: "pl_decks (fst (apply_authoritative_position player_observation 40 True 0 0 player_cued_provider)) 2 = Some y" "ld_beat y = 40"
    using player_cue_taken by blast
  have "pl_decks player_cued_provider (ppo_deck_id player_observation) = Some player_cued" "ld_playing player_cued" "ld_beat player_cued = 100"
    by (simp_all add: player_cued_provider_def player_observation_def player_cued_def fresh_deck_def)
  then show ?thesis
    using precise_needs_confirmation [of player_cued_provider player_observation player_cued 40 True 0 0, OF _ _ refl, of y] y
    by (auto simp: player_observation_def)
qed

theorem beats_align_within_bar_witness:
  "unat (align_beat_within_bar 101 4) mod 4 = 3 \<and> 101 \<le> unat (align_beat_within_bar 101 4) + 2
   \<and> unat (align_beat_within_bar 101 4) \<le> 103"
  using beats_align_within_bar [of 101 4] by simp

text \<open>
  Near the start of a track the candidate one bar earlier saturates to beat 0 and wins although
  it has another place in the bar.
\<close>

theorem first_bar_misaligned: "align_beat_within_bar 1 3 = 0 \<and> align_beat_within_bar 0 4 = 0"
  by (simp add: align_evaluation)

section \<open>The order of a batch\<close>

text \<open>
  A batch is handled critical messages first. A status message of a player and the later message
  that the player is lost, drained together, are handled in the wrong order: the lost player
  comes back as a loaded, leading deck. The bridge sent them the other way round.
\<close>

definition lost_message :: BridgeMessage where
  "lost_message = (player_message 2 1000 (BrDeviceLost \<lparr>dev_number = 2, dev_name = ''CDJ'', dev_address = ''10.0.0.2''\<rparr>))
     \<lparr>msg_traffic_class := ClassCritical\<rparr>"

definition playing_message :: BridgeMessage where
  "playing_message = player_message 1 0 (BrDeckStatus (player_status True 101))"

definition ingest_all :: "BridgeMessage list \<Rightarrow> ProLinkDeckSourceProvider" where
  "ingest_all ms = fst (run_machine provider_step (fst (new_provider 0)) (map (\<lambda>m. Ingest m 1 0) ms))"

lemma lost_last: "pl_decks (ingest_all [playing_message, lost_message]) 2 = None"
proof -
  have "ingest_all [playing_message, lost_message] = fst (ingest lost_message 1 0 player_loaded)"
    by (simp add: ingest_all_def player_loaded_def playing_message_def)
  then show ?thesis
    by (simp add: lost_message_def ingest_def player_message_def Let_def unload_deck_def state_then_def emit_def
        player_loaded_deck split: option.split)
qed

lemma lost_first: "pl_decks (ingest_all [lost_message, playing_message]) 2 \<noteq> None"
  by (simp add: ingest_all_def lost_message_def playing_message_def new_provider_def emit_def emit_if_def empty_provider_def
    checked_add_def ingest_def apply_status_def Let_def player_bpm state_then_def status_beat_def load_from_status_def
    advance_timing_generation_def unload_deck_def allocate_load_def player_track player_who announce_load_def
    lead_from_status_def player_fields player_message_def [of 2] status_timing_def saturating_sub_def)

theorem lost_player_returns:
  "\<exists>q ms. drain_messages 0 (fst (push_message 0 lost_message (fst (push_message 0 playing_message (new_output_queue 8))))) = (q, Inr ms)
     \<and> map msg_sequence ms = [2, 1]
     \<and> pl_decks (ingest_all [playing_message, lost_message]) 2 = None
     \<and> pl_decks (ingest_all [lost_message, playing_message]) 2 \<noteq> None"
  using lost_last lost_first
  by (simp add: drain_messages_def push_message_def store_message_def drop_same_key_def new_output_queue_def coalescing_key_def
      lost_message_def playing_message_def player_message_def age_message_def supervisor_age_def drain_key_def Let_def
      split: option.split)

end
