(* ===== verification/Live_Observations.thy ===== *)
theory Live_Observations
  imports Prolink_Safety Reducer_Safety
begin

text \<open>
  The deck source of the players meets the reducer: what the source numbers, the reducer takes
  as new, however its observations are mixed with commands, results and other sources.
\<close>

section \<open>Decisions of the reducer\<close>

text \<open>The decisions on a sequence of events; an event that fails is dropped, the state stays.\<close>

fun source_decisions :: "SourceId \<Rightarrow> RuntimeState \<Rightarrow> DomainEvent list \<Rightarrow> DecisionReason list" where
  "source_decisions i s [] = []"
| "source_decisions i s (ev # evs) =
     (case reduce s ev of
        Inl _ \<Rightarrow> source_decisions i s evs
      | Inr r \<Rightarrow> (if from_source i ev then [red_decision r] else []) @ source_decisions i (red_state r) evs)"

lemma schedule_or_sequences:
  assumes "schedule_or alt (execution_effect s deck load idx stamp) = Inr (s', decision, effs)" "alt \<noteq> StaleObservationIgnored"
  shows "st_source_sequences s' = st_source_sequences s \<and> decision \<noteq> StaleObservationIgnored"
  using assms(1) by (cases rule: schedule_or_cases) (auto simp: fires_def assms(2))

lemma observe_sequences:
  "observe source stamp ob s = Inr (s', decision, effs) \<Longrightarrow>
   st_source_sequences s' = st_source_sequences s \<and> decision \<noteq> StaleObservationIgnored"
  by (cases ob)
     (auto simp: reducer_defs Let_def put_deck_def load_track_def split: option.splits if_splits dest!: schedule_or_sequences)

lemma reduce_observation_sequences:
  "reduce_observation s e = Inr (s', decision, effs, changed) \<Longrightarrow>
   (st_source_sequences s' = st_source_sequences s
    \<or> st_source_sequences s' = (st_source_sequences s)(obs_source_id e \<mapsto> obs_sequence e))
   \<and> (decision = StaleObservationIgnored \<longrightarrow> not_newer (st_source_sequences s) (obs_source_id e) (obs_sequence e))"
  by (auto simp: reduce_observation_def Let_def result_simps split: if_splits dest!: observe_sequences)

lemma execution_sequences:
  "execution_effect s deck load idx stamp = Inr (s', effect) \<Longrightarrow> st_source_sequences s' = st_source_sequences s"
  by (auto simp: execution_effect_def Let_def result_simps split: option.splits if_splits)

lemma other_sequences:
  assumes "reduce_event s ev = Inr (s', decision, effs, changed)" "\<And>e. ev \<noteq> DomainEvent.Observation e"
  shows "st_source_sequences s' = st_source_sequences s"
proof (cases ev)
  case (UserCommand e)
  with assms(1) show ?thesis
    by (auto simp: reduce_command_def Let_def result_simps split: if_splits option.splits dest!: execution_sequences)
next
  case (EffectResult e)
  with assms(1) show ?thesis
    by (auto simp: reduce_effect_result_def reduce_plan_generated_def push_output_effect_def Let_def result_simps
        split: if_splits option.splits EffectResult.splits)
qed (use assms in \<open>auto simp: reduce_runtime_started_def reduce_queue_overloaded_def push_diagnostic_def Let_def result_simps split: if_splits\<close>)

lemma finish_sequences:
  "finish_reduction ev (s', decision, effs, changed) = Inr r \<Longrightarrow>
   st_source_sequences (red_state r) = st_source_sequences s' \<and> red_decision r = decision"
  by (auto simp: finish_reduction_def Let_def result_simps split: if_splits)

lemma reduce_sequences:
  assumes "reduce s ev = Inr r"
  shows "st_source_sequences (red_state r) i = st_source_sequences s i
    \<or> (\<exists>e. ev = DomainEvent.Observation e \<and> obs_source_id e = i \<and> st_source_sequences (red_state r) i = Some (obs_sequence e))"
    and "ev = DomainEvent.Observation e \<Longrightarrow> red_decision r = StaleObservationIgnored \<Longrightarrow>
      not_newer (st_source_sequences s) (obs_source_id e) (obs_sequence e)"
proof -
  from assms obtain s' decision effs changed where step: "reduce_event s ev = Inr (s', decision, effs, changed)"
    and fin: "finish_reduction ev (s', decision, effs, changed) = Inr r"
    by (auto simp: reduce_def result_simps)
  note last = finish_sequences [OF fin]
  show "st_source_sequences (red_state r) i = st_source_sequences s i
    \<or> (\<exists>e. ev = DomainEvent.Observation e \<and> obs_source_id e = i \<and> st_source_sequences (red_state r) i = Some (obs_sequence e))"
  proof (cases "\<exists>e. ev = DomainEvent.Observation e")
    case True
    with step last show ?thesis by (auto dest!: reduce_observation_sequences split: if_splits)
  next
    case False
    with other_sequences [OF step] last show ?thesis by auto
  qed
  show "not_newer (st_source_sequences s) (obs_source_id e) (obs_sequence e)"
    if "ev = DomainEvent.Observation e" "red_decision r = StaleObservationIgnored"
    using step last that by (auto dest!: reduce_observation_sequences)
qed

section \<open>No observation is taken for old\<close>

definition heard_below :: "SourceId \<Rightarrow> nat \<Rightarrow> RuntimeState \<Rightarrow> bool" where
  "heard_below i n s \<longleftrightarrow> (case st_source_sequences s i of None \<Rightarrow> True | Some k \<Rightarrow> unat k < n)"

lemma source_decisions_fresh:
  "heard_below i n s \<Longrightarrow> sequences (filter (from_source i) evs) = [n..<m] \<Longrightarrow>
   StaleObservationIgnored \<notin> set (source_decisions i s evs)"
proof (induction evs arbitrary: s n)
  case (Cons ev evs)
  show ?case
  proof (cases "from_source i ev")
    case True
    then obtain e where e: "ev = DomainEvent.Observation e" "obs_source_id e = i" by (cases ev) auto
    have seq: "unat (obs_sequence e) = n" "sequences (filter (from_source i) evs) = [Suc n..<m]"
      using Cons.prems(2) [symmetric] e by (auto simp: sequences_def upt_eq_Cons_conv)
    show ?thesis
    proof (cases "reduce s ev")
      case (Inl err)
      have "heard_below i (Suc n) s" using Cons.prems(1) by (auto simp: heard_below_def split: option.splits)
      from Cons.IH [OF this seq(2)] Inl show ?thesis by simp
    next
      case (Inr r)
      have "heard_below i (Suc n) (red_state r)"
        using reduce_sequences(1) [OF Inr, of i] e seq(1) Cons.prems(1) by (auto simp: heard_below_def split: option.splits)
      from Cons.IH [OF this seq(2)] have "StaleObservationIgnored \<notin> set (source_decisions i (red_state r) evs)" .
      moreover have "red_decision r \<noteq> StaleObservationIgnored"
        using reduce_sequences(2) [OF Inr e(1)] e seq(1) Cons.prems(1)
        by (auto simp: not_newer_def heard_below_def word_le_nat_alt split: option.splits)
      ultimately show ?thesis using True Inr by simp
    qed
  next
    case False
    then have seq: "sequences (filter (from_source i) evs) = [n..<m]" using Cons.prems(2) by simp
    show ?thesis
    proof (cases "reduce s ev")
      case (Inl err)
      with Cons.IH [OF Cons.prems(1) seq] show ?thesis by simp
    next
      case (Inr r)
      have "heard_below i n (red_state r)"
        using reduce_sequences(1) [OF Inr, of i] False Cons.prems(1) by (auto simp: heard_below_def)
      from Cons.IH [OF this seq] show ?thesis using False Inr by simp
    qed
  qed
qed simp

lemma handed_sequences:
  assumes "run_machine provider_step (fst (new_provider stamp)) evs = (q, outs)"
  shows "\<exists>m. sequences (concat outs) = [1..<m]" and "list_all (from_source (pl_source_id q)) (concat outs)"
proof -
  have order: "in_order (concat outs) q" using in_order_run [OF in_order_new, of stamp evs] assms by simp
  then have eq: "sequences (concat outs) @ sequences (pl_pending_events q) = [1..<Suc (unat (pl_sequence q))]"
    by (simp add: in_order_def)
  let ?k = "length (sequences (concat outs))"
  have "1 + ?k \<le> Suc (unat (pl_sequence q))" using arg_cong [OF eq, of length] by (simp del: upt_Suc)
  then have "take ?k [1..<Suc (unat (pl_sequence q))] = [1..<1 + ?k]" by (rule take_upt)
  then have "sequences (concat outs) = [1..<1 + ?k]" unfolding eq [symmetric] by simp
  then show "\<exists>m. sequences (concat outs) = [1..<m]" by blast
  show "list_all (from_source (pl_source_id q)) (concat outs)" using order by (simp add: in_order_def)
qed

lemma provider_source:
  "run_machine provider_step (fst (new_provider stamp)) evs = (q, outs) \<Longrightarrow> pl_source_id q = SOURCE_ID"
proof -
  have "pl_source_id (fst (run_machine provider_step p evs)) = pl_source_id p" for p
  proof (induction evs arbitrary: p)
    case (Cons ev evs)
    have kept: "pl_source_id q = pl_source_id p" if "provider_step p ev = Inr (q, out)" for q out
    proof (cases "ev = DrainEvents")
      case True
      with that show ?thesis by (auto simp: drain_events_def)
    next
      case False
      with step_evolves [OF that] show ?thesis by (auto simp: evolves_def new_events_def)
    qed
    show ?case
    proof (cases "provider_step p ev")
      case (Inr x)
      then show ?thesis using Cons kept [of "fst x" "snd x"] by (simp add: case_prod_beta Let_def)
    qed (use Cons in simp)
  qed simp
  moreover have "pl_source_id (fst (new_provider stamp)) = SOURCE_ID"
    by (simp add: new_provider_def emit_def empty_provider_def split: option.split)
  ultimately show "run_machine provider_step (fst (new_provider stamp)) evs = (q, outs) \<Longrightarrow> pl_source_id q = SOURCE_ID"
    by (metis fst_conv)
qed

text \<open>
  C15. Whatever the players do, the reducer never takes an observation of their source for an old
  one: on every run of the source, and however the observations it hands out are mixed with
  commands, results of effects, overloads and the observations of other sources, none of them
  is ignored as stale, even when the reduction of earlier events failed.
\<close>

theorem live_observations_are_never_stale:
  assumes "run_machine provider_step (fst (new_provider stamp)) evs = (q, outs)"
    and "filter (from_source SOURCE_ID) mixed = concat outs"
  shows "StaleObservationIgnored \<notin> set (source_decisions SOURCE_ID default_state mixed)"
proof -
  obtain m where "sequences (filter (from_source SOURCE_ID) mixed) = [1..<m]"
    using handed_sequences(1) [OF assms(1)] assms(2) by auto
  moreover have "heard_below SOURCE_ID 1 default_state"
    by (simp add: heard_below_def default_state_def)
  ultimately show ?thesis using source_decisions_fresh by blast
qed

theorem live_observations_are_never_stale_witness:
  "StaleObservationIgnored \<notin> set (source_decisions SOURCE_ID default_state
     (DomainEvent.RuntimeStarted 0 # snd (drain_events (fst (new_provider 0)))))"
proof (rule live_observations_are_never_stale)
  show "run_machine provider_step (fst (new_provider 0)) [DrainEvents] =
      (fst (drain_events (fst (new_provider 0))), [snd (drain_events (fst (new_provider 0)))])"
    by (simp add: drain_events_def)
  show "filter (from_source SOURCE_ID) (DomainEvent.RuntimeStarted 0 # snd (drain_events (fst (new_provider 0))))
      = concat [snd (drain_events (fst (new_provider 0)))]"
    by (simp add: drain_events_def new_provider_def emit_def empty_provider_def checked_add_def)
qed

end
