(* ===== verification/Deck_View.thy ===== *)
theory Deck_View
  imports Observation_Log Reducer_Safety
begin

text \<open>
  The decks as the observations of one source describe them. Replaying the observations is an abstract
  specification of the reducer's part that follows the decks: whatever else the runtime does (commands, plans,
  results, scheduled cues), its decks and its leader are the replay of what the source told.
\<close>

section \<open>The view and its replay\<close>

record deck_view =
  vw_metadata :: TrackMetadata
  vw_load :: TrackLoadId
  vw_beat :: u32
  vw_playing :: bool
  vw_phrase :: "u16 option"

type_synonym decks_view = "(DeckId \<Rightarrow> deck_view option) \<times> DeckId option"

definition with_load :: "DeckId \<Rightarrow> TrackLoadId \<Rightarrow> (deck_view \<Rightarrow> deck_view) \<Rightarrow> decks_view \<Rightarrow> decks_view" where
  "with_load deck load f v =
     (case fst v deck of
        None \<Rightarrow> v
      | Some d \<Rightarrow> if vw_load d = load then ((fst v)(deck \<mapsto> f d), snd v) else v)"

fun replay :: "decks_view \<Rightarrow> DeckObservation \<Rightarrow> decks_view" where
  "replay v (DeckObservation.SourceStatusChanged status) = v"
| "replay v (DeckObservation.TrackLoaded deck metadata load) =
     ((fst v)(deck \<mapsto> \<lparr>vw_metadata = metadata, vw_load = load, vw_beat = 0, vw_playing = False, vw_phrase = None\<rparr>), snd v)"
| "replay v (DeckObservation.TrackMetadataHydrated deck metadata load) =
     with_load deck load (\<lambda>d. d\<lparr>vw_metadata := metadata, vw_phrase := phrase_index_at_beat metadata (vw_beat d)\<rparr>) v"
| "replay v (DeckObservation.PlaybackPosition deck load beat) =
     with_load deck load (\<lambda>d. if beat < vw_beat d then d else d\<lparr>vw_beat := beat\<rparr>) v"
| "replay v (DeckObservation.PlaybackPositionSeeked deck load beat) =
     with_load deck load (\<lambda>d. d\<lparr>vw_beat := beat, vw_phrase := phrase_index_at_beat (vw_metadata d) beat\<rparr>) v"
| "replay v (DeckObservation.PlaybackTempoChanged deck load bpm) = v"
| "replay v (DeckObservation.PlaybackStateChanged deck load playing) = with_load deck load (\<lambda>d. d\<lparr>vw_playing := playing\<rparr>) v"
| "replay v (DeckObservation.TrackUnloaded deck load) =
     (case fst v deck of
        None \<Rightarrow> v
      | Some d \<Rightarrow> if vw_load d = load then ((fst v)(deck := None), if snd v = Some deck then None else snd v) else v)"
| "replay v (DeckObservation.PhraseChanged deck load idx) =
     with_load deck load (\<lambda>d. if track_phrase (vw_metadata d) idx \<noteq> None then d\<lparr>vw_phrase := Some idx\<rparr> else d) v"
| "replay v (DeckObservation.LeaderChanged deck load) =
     (case fst v deck of
        None \<Rightarrow> v
      | Some d \<Rightarrow> if vw_load d = load then (fst v, Some deck) else v)"

fun event_observation :: "DomainEvent \<Rightarrow> DeckObservation list" where
  "event_observation (DomainEvent.Observation e) = [obs_observation e]"
| "event_observation _ = []"

definition replay_all :: "decks_view \<Rightarrow> DomainEvent list \<Rightarrow> decks_view" where
  "replay_all v events = foldl replay v (concat (map event_observation events))"

lemma replay_all_simps [simp]:
  "replay_all v [] = v"
  "replay_all v (xs @ ys) = replay_all (replay_all v xs) ys"
  "replay_all v (DomainEvent.Observation e # xs) = replay_all (replay v (obs_observation e)) xs"
  by (simp_all add: replay_all_def)

section \<open>The runtime follows the replay\<close>

definition deck_view_of :: "DeckState \<Rightarrow> deck_view" where
  "deck_view_of d = \<lparr>vw_metadata = deck_metadata d, vw_load = deck_track_load_id d, vw_beat = deck_beat d,
     vw_playing = deck_playing d, vw_phrase = deck_phrase_index d\<rparr>"

definition runtime_view :: "RuntimeState \<Rightarrow> decks_view" where
  "runtime_view s = (\<lambda>k. map_option deck_view_of (st_decks s k), st_leader_deck s)"

lemma runtime_view_same:
  "st_decks t = st_decks s \<Longrightarrow> st_leader_deck t = st_leader_deck s \<Longrightarrow> runtime_view t = runtime_view s"
  by (simp add: runtime_view_def)

lemma view_put:
  "runtime_view (put_deck deck d s) = ((fst (runtime_view s))(deck \<mapsto> deck_view_of d), snd (runtime_view s))"
  by (simp add: runtime_view_def put_deck_def fun_eq_iff)

lemma view_forget [simp]: "runtime_view (forget_scheduled deck s) = runtime_view s"
  by (rule runtime_view_same) simp_all

lemma view_decks [simp]: "fst (runtime_view s) deck = map_option deck_view_of (st_decks s deck)"
  by (simp add: runtime_view_def)

lemma view_leader [simp]: "snd (runtime_view s) = st_leader_deck s"
  by (simp add: runtime_view_def)

lemma deck_view_fields [simp]:
  "vw_metadata (deck_view_of d) = deck_metadata d" "vw_load (deck_view_of d) = deck_track_load_id d"
  "vw_beat (deck_view_of d) = deck_beat d" "vw_playing (deck_view_of d) = deck_playing d"
  "vw_phrase (deck_view_of d) = deck_phrase_index d"
  by (simp_all add: deck_view_of_def)

lemma execution_view:
  "execution_effect s deck load idx stamp = Inr (s', effect) \<Longrightarrow> st_decks s' = st_decks s \<and> st_leader_deck s' = st_leader_deck s
   \<and> st_source_sequences s' = st_source_sequences s \<and> st_source_times s' = st_source_times s"
  by (auto simp: execution_effect_def Let_def result_simps split: option.splits if_splits)

lemma schedule_view:
  assumes "schedule_or alt (execution_effect s deck load idx stamp) = Inr (s', decision, effs)"
  shows "runtime_view s' = runtime_view s"
  using assms by (auto simp: schedule_or_def result_simps split: option.splits intro!: runtime_view_same dest!: execution_view)

lemma view_change:
  "st_decks s deck = Some d \<Longrightarrow> deck_track_load_id d = load \<Longrightarrow> deck_view_of e = f (deck_view_of d) \<Longrightarrow>
   runtime_view (put_deck deck e s) = with_load deck load f (runtime_view s)"
  by (simp add: view_put with_load_def)

lemma view_unchanged:
  "st_decks s deck = None \<Longrightarrow> with_load deck load f (runtime_view s) = runtime_view s"
  "st_decks s deck = Some d \<Longrightarrow> deck_track_load_id d \<noteq> load \<Longrightarrow> with_load deck load f (runtime_view s) = runtime_view s"
  by (simp_all add: with_load_def)

lemma view_kept:
  "st_decks s deck = Some d \<Longrightarrow> f (deck_view_of d) = deck_view_of d \<Longrightarrow> with_load deck load f (runtime_view s) = runtime_view s"
  by (auto simp: with_load_def runtime_view_def fun_eq_iff)

lemma observe_replays:
  assumes "observe source stamp obs s = Inr (s', decision, effs)"
  shows "runtime_view s' = replay (runtime_view s) obs"
proof (cases obs)
  case (TrackLoaded deck metadata load)
  with assms show ?thesis
    by (auto simp: observe_track_loaded_def load_track_def runtime_view_def deck_view_of_def fun_eq_iff)
next
  case (PlaybackPosition deck load beat)
  with assms show ?thesis
    by (auto simp: observe_position_def view_unchanged deck_view_of_def with_load_def runtime_view_def put_deck_def fun_eq_iff
        split: option.splits if_splits)
next
  case (PlaybackPositionSeeked deck load beat)
  with assms show ?thesis
    by (auto simp: observe_seek_def Let_def view_unchanged deck_view_of_def split: option.splits if_splits
        dest!: schedule_view intro!: view_change)
next
  case (PlaybackStateChanged deck load playing)
  with assms show ?thesis
    by (auto simp: observe_playback_def Let_def view_unchanged deck_view_of_def split: option.splits if_splits
        dest!: schedule_view intro!: view_change)
next
  case (PhraseChanged deck load idx)
  with assms show ?thesis
    by (auto simp: observe_phrase_def Let_def view_unchanged view_kept deck_view_of_def split: option.splits if_splits
        dest!: schedule_view intro!: view_change)
next
  case (LeaderChanged deck load)
  with assms show ?thesis
    by (auto simp: observe_leader_def Let_def runtime_view_def split: option.splits if_splits dest!: schedule_view)
qed (use assms in \<open>auto simp: observe_source_status_def observe_metadata_hydrated_def observe_tempo_def observe_unloaded_def
    view_unchanged deck_view_of_def with_load_def runtime_view_def put_deck_def fun_eq_iff split: option.splits if_splits\<close>)


section \<open>Runs of the runtime\<close>

text \<open>The runtime works off a sequence of events; a failed reduction ends it.\<close>

fun reduce_all :: "RuntimeState \<Rightarrow> DomainEvent list \<Rightarrow> ReducerError + RuntimeState" where
  "reduce_all s [] = Inr s"
| "reduce_all s (ev # evs) = and_then (reduce s ev) (\<lambda>r. reduce_all (red_state r) evs)"

text \<open>
  The observations of the source come in order: their numbers ascend and their times do not go back. Other events
  than observations may stand between them.
\<close>

fun in_sequence :: "SourceId \<Rightarrow> nat \<Rightarrow> MonotonicTime \<Rightarrow> DomainEvent list \<Rightarrow> bool" where
  "in_sequence i n t [] = True"
| "in_sequence i n t (DomainEvent.Observation e # evs) =
     (obs_source_id e = i \<and> n < unat (obs_sequence e) \<and> t \<le> obs_observed_at e
      \<and> in_sequence i (unat (obs_sequence e)) (obs_observed_at e) evs)"
| "in_sequence i n t (_ # evs) = in_sequence i n t evs"

definition heard :: "SourceId \<Rightarrow> nat \<Rightarrow> MonotonicTime \<Rightarrow> RuntimeState \<Rightarrow> bool" where
  "heard i n t s \<longleftrightarrow> (case st_source_sequences s i of None \<Rightarrow> True | Some k \<Rightarrow> unat k \<le> n)
     \<and> (case st_source_times s i of None \<Rightarrow> True | Some u \<Rightarrow> u \<le> t)"

definition listening :: "RuntimeState \<Rightarrow> (SourceId \<rightharpoonup> SourceSequence) \<times> (SourceId \<rightharpoonup> MonotonicTime)" where
  "listening s = (st_source_sequences s, st_source_times s)"

lemma heard_listening: "listening t = listening s \<Longrightarrow> heard i n k t = heard i n k s"
  by (simp add: heard_def listening_def)

lemma schedule_listening:
  "schedule_or alt (execution_effect s deck load idx stamp) = Inr (s', decision, effs) \<Longrightarrow> listening s' = listening s"
  by (auto simp: schedule_or_def listening_def result_simps split: option.splits dest!: execution_view)

lemma observe_listening:
  "observe source stamp obs s = Inr (s', decision, effs) \<Longrightarrow> listening s' = listening s"
  by (cases obs)
     (auto simp: reducer_defs Let_def put_deck_def load_track_def listening_def
       split: option.splits if_splits dest!: schedule_listening [unfolded listening_def])

lemma finish_view:
  "finish_reduction ev (s', decision, effs, changed) = Inr r \<Longrightarrow>
   runtime_view (red_state r) = runtime_view s' \<and> listening (red_state r) = listening s'"
  by (auto simp: finish_reduction_def Let_def result_simps runtime_view_def listening_def push_timeline_def split: if_splits)

lemma other_view:
  assumes "reduce_event s ev = Inr (s', decision, effs, changed)" "\<And>e. ev \<noteq> DomainEvent.Observation e"
  shows "runtime_view s' = runtime_view s \<and> listening s' = listening s"
proof (cases ev)
  case (UserCommand e)
  with assms(1) show ?thesis
    by (auto simp: reduce_command_def Let_def result_simps runtime_view_def listening_def split: if_splits option.splits
        dest!: execution_view)
next
  case (EffectResult e)
  with assms(1) show ?thesis
    by (auto simp: reduce_effect_result_def reduce_plan_generated_def push_output_effect_def Let_def result_simps
        runtime_view_def listening_def split: if_splits option.splits EffectResult.splits)
qed (use assms in \<open>auto simp: reduce_runtime_started_def reduce_queue_overloaded_def push_diagnostic_def Let_def result_simps
    runtime_view_def listening_def split: if_splits\<close>)

lemma reduce_observation_replays:
  assumes "reduce_observation s e = Inr (s', decision, effs, changed)"
    and "heard (obs_source_id e) n t s" "n < unat (obs_sequence e)" "t \<le> obs_observed_at e"
  shows "runtime_view s' = replay (runtime_view s) (obs_observation e)
    \<and> heard (obs_source_id e) (unat (obs_sequence e)) (obs_observed_at e) s'"
proof -
  let ?s = "s\<lparr>st_source_sequences := (st_source_sequences s)(obs_source_id e \<mapsto> obs_sequence e),
              st_source_times := (st_source_times s)(obs_source_id e \<mapsto> obs_observed_at e)\<rparr>"
  have "observe (obs_source_id e) (obs_observed_at e) (obs_observation e) ?s = Inr (s', decision, effs)"
    using assms by (auto simp: reduce_observation_def Let_def result_simps heard_def not_newer_def word_le_nat_alt
        word_less_nat_alt split: if_splits option.splits)
  from observe_replays [OF this] observe_listening [OF this] show ?thesis
    by (simp add: runtime_view_def listening_def heard_def)
qed

lemma reduce_all_replays:
  "reduce_all s evs = Inr s' \<Longrightarrow> heard i n t s \<Longrightarrow> in_sequence i n t evs \<Longrightarrow> runtime_view s' = replay_all (runtime_view s) evs"
proof (induction evs arbitrary: s n t)
  case (Cons ev evs)
  from Cons.prems(1) obtain r where r: "reduce s ev = Inr r" "reduce_all (red_state r) evs = Inr s'"
    by (auto simp: result_simps)
  then obtain u decision effs changed where step: "reduce_event s ev = Inr (u, decision, effs, changed)"
    and fin: "finish_reduction ev (u, decision, effs, changed) = Inr r"
    by (auto simp: reduce_def result_simps)
  note last = finish_view [OF fin]
  show ?case
  proof (cases "\<exists>e. ev = DomainEvent.Observation e")
    case True
    then obtain e where e: "ev = DomainEvent.Observation e" by blast
    have "runtime_view u = replay (runtime_view s) (obs_observation e)" "heard i (unat (obs_sequence e)) (obs_observed_at e) u"
      using reduce_observation_replays [of s e u decision effs changed n t] step Cons.prems(2,3) e by auto
    with last have "runtime_view (red_state r) = replay (runtime_view s) (obs_observation e)"
      "heard i (unat (obs_sequence e)) (obs_observed_at e) (red_state r)"
      by (auto simp: heard_listening [of "red_state r" u])
    with Cons.IH [OF r(2)] Cons.prems(3) e show ?thesis by simp
  next
    case False
    then have "event_observation ev = []" "in_sequence i n t evs" using Cons.prems(3) by (cases ev; simp)+
    moreover have "runtime_view (red_state r) = runtime_view s" "heard i n t (red_state r)"
      using other_view [OF step] last False Cons.prems(2) by (auto simp: heard_listening [of "red_state r" s])
    ultimately show ?thesis using Cons.IH [OF r(2)] by (simp add: replay_all_def)
  qed
qed simp


text \<open>Consecutive numbers and times that do not go back are in sequence.\<close>

fun event_time :: "DomainEvent \<Rightarrow> MonotonicTime list" where
  "event_time (DomainEvent.Observation e) = [obs_observed_at e]"
| "event_time _ = []"

definition observation_times :: "DomainEvent list \<Rightarrow> MonotonicTime list" where
  "observation_times events = concat (map event_time events)"

fun observation_of :: "DomainEvent \<Rightarrow> bool" where
  "observation_of (DomainEvent.Observation e) = True"
| "observation_of _ = False"

lemma observation_times_append [simp]: "observation_times (xs @ ys) = observation_times xs @ observation_times ys"
  by (simp add: observation_times_def)

lemma in_sequence_numbered:
  "sequences evs = [Suc n..<m] \<Longrightarrow> list_all (from_source i) (filter observation_of evs) \<Longrightarrow>
   sorted (t # observation_times evs) \<Longrightarrow> in_sequence i n t evs"
proof (induction i n t evs rule: in_sequence.induct)
  case (2 i n t e evs)
  from 2(2) have num: "unat (obs_sequence e) = Suc n" and rest: "sequences evs = [Suc (Suc n)..<m]"
    by (auto simp: sequences_def dest!: sym [of _ "[Suc n..<m]"] simp: upt_eq_Cons_conv)
  have "sorted (obs_observed_at e # observation_times evs)" "t \<le> obs_observed_at e"
    using 2(4) by (auto simp: observation_times_def)
  with 2(1) 2(3) num rest show ?case by simp
qed (auto simp: sequences_def observation_times_def)

lemma observations_only:
  "sequences (filter observation_of evs) = sequences evs"
  "observation_times (filter observation_of evs) = observation_times evs"
  "replay_all v (filter observation_of evs) = replay_all v evs"
proof -
  have "concat (map event_observation (filter observation_of evs)) = concat (map event_observation evs)"
  proof (induction evs)
    case (Cons ev evs)
    then show ?case by (cases ev) auto
  qed simp
  then show "replay_all v (filter observation_of evs) = replay_all v evs" by (simp add: replay_all_def)
  show "sequences (filter observation_of evs) = sequences evs"
    "observation_times (filter observation_of evs) = observation_times evs"
  proof (induction evs)
    case (Cons ev evs)
    case 1 then show ?case using Cons by (cases ev) (auto simp: sequences_def)
    case 2 then show ?case using Cons by (cases ev) (auto simp: observation_times_def)
  qed (simp_all add: sequences_def observation_times_def)
qed


text \<open>A runtime without plans takes every observation while it has numbers for its own counters.\<close>

definition idle :: "RuntimeState \<Rightarrow> bool" where
  "idle s \<longleftrightarrow> st_active_plan s = None \<and> st_plans s = Map.empty"

definition counters :: "RuntimeState \<Rightarrow> u64 \<times> u64" where
  "counters s = (st_processed_events s, st_revision s)"

lemma schedule_idle: "idle s \<Longrightarrow> schedule_or alt (execution_effect s deck load idx stamp) = Inr (s, alt, [])"
  by (simp add: idle_def execution_effect_def schedule_or_def)

lemma observe_idle:
  assumes "idle s"
  shows "\<exists>s' decision. observe source stamp obs s = Inr (s', decision, []) \<and> idle s' \<and> counters s' = counters s"
proof (cases obs)
  case (PlaybackPositionSeeked deck load beat)
  have "idle (forget_scheduled deck (put_deck deck d s))" for d using assms by (simp add: idle_def put_deck_def)
  with PlaybackPositionSeeked assms show ?thesis
    by (auto simp: observe_seek_def schedule_idle counters_def put_deck_def Let_def split: option.splits)
next
  case (PlaybackStateChanged deck load playing)
  have "idle (put_deck deck d s)" for d using assms by (simp add: idle_def put_deck_def)
  with PlaybackStateChanged assms show ?thesis
    by (auto simp: observe_playback_def schedule_idle counters_def Let_def idle_def put_deck_def split: option.splits)
next
  case (PhraseChanged deck load idx)
  have "idle (put_deck deck d s)" for d using assms by (simp add: idle_def put_deck_def)
  with PhraseChanged assms show ?thesis
    by (auto simp: observe_phrase_def schedule_idle counters_def Let_def put_deck_def split: option.splits)
qed (use assms in \<open>auto simp: reducer_defs Let_def put_deck_def load_track_def forget_active_plan_def idle_def counters_def
    split: option.splits\<close>)

lemma reduce_idle:
  assumes "idle s" "unat (st_processed_events s) + 1 < 2 ^ 64" "unat (st_revision s) + 1 < 2 ^ 64"
  shows "\<exists>r. reduce s (DomainEvent.Observation e) = Inr r \<and> idle (red_state r)
    \<and> unat (st_processed_events (red_state r)) = unat (st_processed_events s) + 1
    \<and> unat (st_revision (red_state r)) \<le> unat (st_revision s) + 1"
proof -
  have "\<exists>s' decision changed. reduce_observation s e = Inr (s', decision, [], changed) \<and> idle s' \<and> counters s' = counters s"
  proof -
    have "idle (s\<lparr>st_source_sequences := x, st_source_times := y\<rparr>)" for x y using assms(1) by (simp add: idle_def)
    from observe_idle [OF this]
    obtain s' decision where "observe (obs_source_id e) (obs_observed_at e) (obs_observation e)
        (s\<lparr>st_source_sequences := (st_source_sequences s)(obs_source_id e \<mapsto> obs_sequence e),
           st_source_times := (st_source_times s)(obs_source_id e \<mapsto> obs_observed_at e)\<rparr>) = Inr (s', decision, [])"
      "idle s'" "counters s' = counters s" by (fastforce simp: counters_def)
    then show ?thesis using assms(1)
      by (auto simp: reduce_observation_def Let_def result_simps idle_def counters_def split: option.split)
  qed
  then obtain s' decision changed where step: "reduce_observation s e = Inr (s', decision, [], changed)" "idle s'"
    "st_processed_events s' = st_processed_events s" "st_revision s' = st_revision s" by (auto simp: counters_def)
  have room: "unat (st_processed_events s + 1) = unat (st_processed_events s) + 1" "unat (st_revision s + 1) = unat (st_revision s) + 1"
    using assms(2,3) by (simp_all add: unat_add_exact)
  show ?thesis
    using step assms(2,3) room
    by (auto simp: reduce_def finish_reduction_def checked_add_def ok_or_def state_revision_checked_next_def idle_def
        push_timeline_def Let_def)
qed

lemma reduce_all_idle:
  "list_all observation_of evs \<Longrightarrow> idle s \<Longrightarrow> unat (st_processed_events s) + length evs < 2 ^ 64 \<Longrightarrow>
   unat (st_revision s) + length evs < 2 ^ 64 \<Longrightarrow> \<exists>s'. reduce_all s evs = Inr s'"
proof (induction evs arbitrary: s)
  case (Cons ev evs)
  then obtain e where e: "ev = DomainEvent.Observation e" by (cases ev) auto
  from Cons.prems obtain r where r: "reduce s ev = Inr r" "idle (red_state r)"
    "unat (st_processed_events (red_state r)) = unat (st_processed_events s) + 1"
    "unat (st_revision (red_state r)) \<le> unat (st_revision s) + 1"
    using reduce_idle [of s e] e by auto
  with Cons.IH [of "red_state r"] Cons.prems show ?case by simp
qed simp

end
