(* ===== verification/Local_Playback.thy ===== *)
theory Local_Playback
  imports Deck_View Ordered_Map Scenario
begin

text \<open>
  The deck source of the tracks that the application plays itself (\<open>lumi-local-playback\<close>): two decks, the
  transport that the player reports, and the observations made of it. Facts: the observations are numbered from one
  and the loads are fresh; the decks stay within their tracks; the decks of the runtime that works off these
  observations are the decks of the source, and its leader is too unless the leading deck is loaded again.
\<close>

section \<open>State\<close>

definition LOCAL_SOURCE_ID :: u64 where
  "LOCAL_SOURCE_ID = 20"

record LocalDeck =
  lo_track_load_id :: TrackLoadId
  lo_metadata :: TrackMetadata
  lo_beat :: u32
  lo_phrase_index :: u16
  lo_playing :: bool
  lo_pending_phrase_activation :: bool

record LocalPlaybackDeckSourceProvider =
  lp_source_id :: SourceId
  lp_decks :: "(DeckId \<times> LocalDeck) list"
  lp_leader_deck_id :: "DeckId option"
  lp_next_track_load_id :: u64
  lp_sequence :: u64
  lp_pending_events :: "DomainEvent list"

datatype LocalPlaybackError =
    LpUnknownDeck DeckId
  | LpDeckNotLoaded DeckId
  | LpStaleTrackLoad TrackLoadId TrackLoadId
  | LpTrackLoadIdOverflow
  | LpSequenceOverflow

type_synonym 'a local_result = "LocalPlaybackDeckSourceProvider \<times> (LocalPlaybackError + 'a)"

section \<open>Operations\<close>

definition local_emit :: "MonotonicTime \<Rightarrow> DeckObservation \<Rightarrow> LocalPlaybackDeckSourceProvider \<Rightarrow> unit local_result" where
  "local_emit stamp observation p =
     (case checked_add (lp_sequence p) 1 of
        None \<Rightarrow> (p, Inl LpSequenceOverflow)
      | Some s \<Rightarrow>
          (p\<lparr>lp_sequence := s,
             lp_pending_events := lp_pending_events p @
               [DomainEvent.Observation \<lparr>obs_source_id = lp_source_id p, obs_sequence = s, obs_observed_at = stamp,
                  obs_observation = observation\<rparr>]\<rparr>, Inr ()))"

definition empty_local :: LocalPlaybackDeckSourceProvider where
  "empty_local = \<lparr>lp_source_id = LOCAL_SOURCE_ID, lp_decks = [], lp_leader_deck_id = None, lp_next_track_load_id = 1,
     lp_sequence = 0, lp_pending_events = []\<rparr>"

definition new_local :: "MonotonicTime \<Rightarrow> unit local_result" where
  "new_local stamp = local_emit stamp (DeckObservation.SourceStatusChanged DeckSourceStatus.Ready) empty_local"

definition validate_deck :: "DeckId \<Rightarrow> LocalPlaybackError + unit" where
  "validate_deck deck = (if deck = 1 \<or> deck = 2 then Inr () else Inl (LpUnknownDeck deck))"

definition emit_position_state :: "DeckId \<Rightarrow> MonotonicTime \<Rightarrow> LocalPlaybackDeckSourceProvider \<Rightarrow> unit local_result" where
  "emit_position_state deck stamp p =
     (case map_of (lp_decks p) deck of
        None \<Rightarrow> (p, Inl (LpDeckNotLoaded deck))
      | Some d \<Rightarrow>
          state_then (local_emit stamp (DeckObservation.PlaybackPosition deck (lo_track_load_id d) 0) p)
            (\<lambda>p _. state_then (local_emit stamp (DeckObservation.PhraseChanged deck (lo_track_load_id d) 0) p)
            (\<lambda>p _. local_emit stamp (DeckObservation.PlaybackStateChanged deck (lo_track_load_id d) False) p)))"

definition local_set_leader :: "DeckId \<Rightarrow> MonotonicTime \<Rightarrow> LocalPlaybackDeckSourceProvider \<Rightarrow> unit local_result" where
  "local_set_leader deck stamp p =
     (case map_of (lp_decks p) deck of
        None \<Rightarrow> (p, Inl (LpDeckNotLoaded deck))
      | Some d \<Rightarrow>
          local_emit stamp (DeckObservation.LeaderChanged deck (lo_track_load_id d)) (p\<lparr>lp_leader_deck_id := Some deck\<rparr>))"

definition fresh_local :: "TrackMetadata \<Rightarrow> TrackLoadId \<Rightarrow> LocalDeck" where
  "fresh_local metadata load = \<lparr>lo_track_load_id = load, lo_metadata = metadata, lo_beat = 0, lo_phrase_index = 0,
     lo_playing = False, lo_pending_phrase_activation = True\<rparr>"

definition local_load_track ::
  "DeckId \<Rightarrow> TrackMetadata \<Rightarrow> MonotonicTime \<Rightarrow> LocalPlaybackDeckSourceProvider \<Rightarrow> TrackLoadId local_result" where
  "local_load_track deck metadata stamp p =
     state_then (p, validate_deck deck) (\<lambda>p _.
     state_then
       (case map_of (lp_decks p) deck of
          None \<Rightarrow> (p, Inr ())
        | Some previous \<Rightarrow> local_emit stamp (DeckObservation.TrackUnloaded deck (lo_track_load_id previous)) p) (\<lambda>p _.
     let load = lp_next_track_load_id p in
     state_then (p, ok_or (checked_add (lp_next_track_load_id p) 1) LpTrackLoadIdOverflow) (\<lambda>p following.
     let p = p\<lparr>lp_next_track_load_id := following,
               lp_decks := btree_insert deck (fresh_local metadata load) (lp_decks p)\<rparr> in
     state_then (local_emit stamp (DeckObservation.TrackLoaded deck metadata load) p) (\<lambda>p _.
     state_then (emit_position_state deck stamp p) (\<lambda>p _.
     state_then (if lp_leader_deck_id p = None then local_set_leader deck stamp p else (p, Inr ())) (\<lambda>p _.
     (p, Inr load)))))))"

text \<open>The phrase of a beat; at the end of the track, and where no phrase holds the beat, the last one.\<close>

definition phrase_of_beat :: "TrackMetadata \<Rightarrow> u32 \<Rightarrow> u16" where
  "phrase_of_beat metadata beat =
     (case find (\<lambda>p. phrase_start_beat p \<le> beat \<and> beat < phrase_end_beat p) (track_phrases metadata) of
        Some p \<Rightarrow> phrase_index p
      | None \<Rightarrow> if track_phrases metadata = [] then 0 else phrase_index (last (track_phrases metadata)))"

definition emit_when ::
  "bool \<Rightarrow> MonotonicTime \<Rightarrow> DeckObservation \<Rightarrow> LocalPlaybackDeckSourceProvider \<Rightarrow> unit local_result" where
  "emit_when condition stamp observation p = (if condition then local_emit stamp observation p else (p, Inr ()))"

definition update_transport ::
  "DeckId \<Rightarrow> TrackLoadId \<Rightarrow> u32 \<Rightarrow> bool \<Rightarrow> MonotonicTime \<Rightarrow> LocalPlaybackDeckSourceProvider \<Rightarrow> unit local_result" where
  "update_transport deck load beat playing stamp p =
     (case map_of (lp_decks p) deck of
        None \<Rightarrow> (p, Inl (LpDeckNotLoaded deck))
      | Some d \<Rightarrow>
          if lo_track_load_id d \<noteq> load then (p, Inl (LpStaleTrackLoad (lo_track_load_id d) load))
          else
            let duration = track_duration_beats (lo_metadata d);
                normalized_beat = min beat duration;
                idx = phrase_of_beat (lo_metadata d) normalized_beat;
                normalized_playing = (playing \<and> normalized_beat < duration);
                phrase_changed = (lo_phrase_index d \<noteq> idx);
                started_playing = (\<not> lo_playing d \<and> normalized_playing);
                should_activate_phrase =
                  (normalized_playing \<and> (phrase_changed \<or> (started_playing \<and> lo_pending_phrase_activation d)));
                p = p\<lparr>lp_decks := btree_adjust deck (\<lambda>d. d\<lparr>lo_beat := normalized_beat, lo_phrase_index := idx,
                        lo_playing := normalized_playing,
                        lo_pending_phrase_activation :=
                          (if phrase_changed \<and> \<not> normalized_playing then True
                           else if should_activate_phrase then False
                           else lo_pending_phrase_activation d)\<rparr>) (lp_decks p)\<rparr>
            in state_then
                 (emit_when (lo_beat d \<noteq> normalized_beat) stamp
                    (if normalized_beat < lo_beat d then DeckObservation.PlaybackPositionSeeked deck load normalized_beat
                     else DeckObservation.PlaybackPosition deck load normalized_beat) p) (\<lambda>p _.
               state_then
                 (emit_when (lo_playing d \<noteq> normalized_playing) stamp
                    (DeckObservation.PlaybackStateChanged deck load normalized_playing) p) (\<lambda>p _.
               emit_when (phrase_changed \<or> should_activate_phrase) stamp
                 (DeckObservation.PhraseChanged deck load idx) p)))"

fun emit_unloads :: "MonotonicTime \<Rightarrow> (DeckId \<times> LocalDeck) list \<Rightarrow> LocalPlaybackDeckSourceProvider \<Rightarrow> unit local_result" where
  "emit_unloads stamp [] p = (p, Inr ())"
| "emit_unloads stamp ((deck, d) # rest) p =
     state_then (local_emit stamp (DeckObservation.TrackUnloaded deck (lo_track_load_id d)) p)
       (\<lambda>p _. emit_unloads stamp rest p)"

definition local_clear :: "MonotonicTime \<Rightarrow> LocalPlaybackDeckSourceProvider \<Rightarrow> unit local_result" where
  "local_clear stamp p =
     state_then (emit_unloads stamp (lp_decks p) p) (\<lambda>p _. (p\<lparr>lp_decks := [], lp_leader_deck_id := None\<rparr>, Inr ()))"

definition local_drain_events :: "LocalPlaybackDeckSourceProvider \<Rightarrow> LocalPlaybackDeckSourceProvider \<times> DomainEvent list" where
  "local_drain_events p = (p\<lparr>lp_pending_events := []\<rparr>, lp_pending_events p)"

section \<open>Calls\<close>

datatype local_call =
    LocalLoad DeckId TrackMetadata MonotonicTime
  | LocalLeader DeckId MonotonicTime
  | LocalTransport DeckId TrackLoadId u32 bool MonotonicTime
  | LocalClear MonotonicTime
  | LocalDrain

fun local_step :: "local_call \<Rightarrow> LocalPlaybackDeckSourceProvider \<Rightarrow> LocalPlaybackDeckSourceProvider \<times> DomainEvent list" where
  "local_step (LocalLoad deck metadata stamp) p = (fst (local_load_track deck metadata stamp p), [])"
| "local_step (LocalLeader deck stamp) p = (fst (local_set_leader deck stamp p), [])"
| "local_step (LocalTransport deck load beat playing stamp) p = (fst (update_transport deck load beat playing stamp p), [])"
| "local_step (LocalClear stamp) p = (fst (local_clear stamp p), [])"
| "local_step LocalDrain p = local_drain_events p"

text \<open>The source after a run of calls, with the observations it has handed out.\<close>

fun local_run :: "DomainEvent list \<Rightarrow> LocalPlaybackDeckSourceProvider \<Rightarrow> local_call list \<Rightarrow> DomainEvent list \<times> LocalPlaybackDeckSourceProvider" where
  "local_run handed p [] = (handed, p)"
| "local_run handed p (c # cs) = (case local_step c p of (q, out) \<Rightarrow> local_run (handed @ out) q cs)"

section \<open>The log\<close>

interpretation local_log: numbered_source lp_sequence lp_pending_events lp_source_id local_emit
  by unfold_locales (simp_all add: local_emit_def)

lemma local_grows_fields [simp]:
  "local_log.grows p (s\<lparr>lp_decks := x\<rparr>) = local_log.grows p s"
  "local_log.grows p (s\<lparr>lp_leader_deck_id := y\<rparr>) = local_log.grows p s"
  "local_log.grows p (s\<lparr>lp_next_track_load_id := z\<rparr>) = local_log.grows p s"
  by (simp_all add: local_log.grows_def)

lemmas local_grows = state_then_keeps [where P = "local_log.grows _"] local_log.grows_emission local_log.grows_refl

lemma unloads_grow: "local_log.grows p s \<Longrightarrow> local_log.grows p (fst (emit_unloads stamp ds s))"
  by (induction stamp ds s rule: emit_unloads.induct) (auto intro!: local_grows)

lemma position_state_grows: "local_log.grows p s \<Longrightarrow> local_log.grows p (fst (emit_position_state deck stamp s))"
  by (auto simp: emit_position_state_def intro!: local_grows split: option.split)

lemma leader_grows: "local_log.grows p s \<Longrightarrow> local_log.grows p (fst (local_set_leader deck stamp s))"
  by (auto simp: local_set_leader_def intro!: local_grows split: option.split)

lemma load_grows: "local_log.grows p (fst (local_load_track deck metadata stamp p))"
  by (auto simp: local_load_track_def Let_def intro!: local_grows position_state_grows leader_grows split: option.split)

lemma transport_grows: "local_log.grows p (fst (update_transport deck load beat playing stamp p))"
  by (auto simp: update_transport_def emit_when_def Let_def intro!: local_grows split: option.split)

lemma clear_grows: "local_log.grows p (fst (local_clear stamp p))"
  by (auto simp: local_clear_def intro!: local_grows unloads_grow)

lemmas calls_grow = load_grows leader_grows [OF local_log.grows_refl] transport_grows clear_grows

lemma local_step_log:
  "local_log.log_ok handed p \<Longrightarrow> local_step c p = (q, out) \<Longrightarrow> local_log.log_ok (handed @ out) q"
  by (cases c) (auto simp: local_drain_events_def local_log.log_ok_drained intro: local_log.log_ok_grows calls_grow)

lemma local_run_log:
  "local_log.log_ok handed p \<Longrightarrow> local_run handed p cs = (handed', q) \<Longrightarrow> local_log.log_ok handed' q"
  by (induction handed p cs rule: local_run.induct) (auto split: prod.splits intro: local_step_log)


section \<open>The decks\<close>

definition local_deck_ok :: "u64 \<Rightarrow> DeckId \<Rightarrow> LocalDeck \<Rightarrow> bool" where
  "local_deck_ok following deck d \<longleftrightarrow> (deck = 1 \<or> deck = 2) \<and> track_ok (lo_metadata d)
     \<and> lo_beat d \<le> track_duration_beats (lo_metadata d)
     \<and> (lo_playing d \<longrightarrow> lo_beat d < track_duration_beats (lo_metadata d))
     \<and> lo_phrase_index d = phrase_of_beat (lo_metadata d) (lo_beat d)
     \<and> lo_track_load_id d < following"

definition local_ok :: "LocalPlaybackDeckSourceProvider \<Rightarrow> bool" where
  "local_ok p \<longleftrightarrow> ordered (lp_decks p)
     \<and> list_all (\<lambda>(deck, d). local_deck_ok (lp_next_track_load_id p) deck d) (lp_decks p)
     \<and> (case lp_leader_deck_id p of None \<Rightarrow> True | Some deck \<Rightarrow> map_of (lp_decks p) deck \<noteq> None)"

fun call_ok :: "local_call \<Rightarrow> bool" where
  "call_ok (LocalLoad deck metadata stamp) = track_ok metadata"
| "call_ok _ = True"

lemma phrase_of_start: "track_ok metadata \<Longrightarrow> phrase_of_beat metadata 0 = 0"
proof -
  assume ok: "track_ok metadata"
  show ?thesis
  proof (cases "track_phrases metadata")
    case (Cons x rest)
    with ok have t: "track_analyzed metadata" by (auto simp: track_ok_def)
    have "phrase_start_beat x = 0" "phrase_start_beat x < phrase_end_beat x" "unat (phrase_index x) = 0"
      using t Cons by (auto simp: track_analyzed_def indexed_def)
    then show ?thesis by (simp add: phrase_of_beat_def Cons unsigned_eq_0_iff)
  qed (simp add: phrase_of_beat_def)
qed

lemma local_ok_fields [simp]:
  "local_ok (p\<lparr>lp_sequence := x\<rparr>) = local_ok p"
  "local_ok (p\<lparr>lp_pending_events := y\<rparr>) = local_ok p"
  by (simp_all add: local_ok_def split: option.split)

lemma emit_ok [simp]: "local_ok (fst (local_emit stamp observation p)) = local_ok p"
  by (simp add: local_emit_def split: option.split)

lemma emit_decks [simp]:
  "lp_decks (fst (local_emit stamp observation p)) = lp_decks p"
  "lp_leader_deck_id (fst (local_emit stamp observation p)) = lp_leader_deck_id p"
  "lp_next_track_load_id (fst (local_emit stamp observation p)) = lp_next_track_load_id p"
  by (simp_all add: local_emit_def split: option.split)

lemmas local_ok_thens = state_then_keeps [where P = local_ok]

lemma position_state_ok: "local_ok p \<Longrightarrow> local_ok (fst (emit_position_state deck stamp p))"
  by (auto simp: emit_position_state_def intro!: local_ok_thens split: option.split)

lemma leader_ok: "local_ok p \<Longrightarrow> local_ok (fst (local_set_leader deck stamp p))"
  by (auto simp: local_set_leader_def local_ok_def split: option.split)

lemma fresh_local_ok:
  assumes "local_ok p" "deck = 1 \<or> deck = 2" "track_ok metadata" "checked_add (lp_next_track_load_id p) 1 = Some n"
  shows "local_ok (p\<lparr>lp_next_track_load_id := n,
    lp_decks := btree_insert deck (fresh_local metadata (lp_next_track_load_id p)) (lp_decks p)\<rparr>)"
proof -
  have lt: "lp_next_track_load_id p < n" using checked_add_Some_gt [OF assms(4)] by simp
  have later: "local_deck_ok n k d" if "local_deck_ok (lp_next_track_load_id p) k d" for k d
    using that lt by (auto simp: local_deck_ok_def)
  have "list_all (\<lambda>(k, d). local_deck_ok n k d) (lp_decks p)"
    using assms(1) later by (auto simp: local_ok_def list_all_iff)
  moreover have "local_deck_ok n deck (fresh_local metadata (lp_next_track_load_id p))"
    using assms(2,3) lt by (simp add: local_deck_ok_def fresh_local_def phrase_of_start)
  ultimately show ?thesis
    using assms(1) by (auto simp: local_ok_def all_insert btree_lookup split: option.splits)
qed

lemma load_ok:
  assumes "local_ok p" "track_ok metadata"
  shows "local_ok (fst (local_load_track deck metadata stamp p))"
  using assms unfolding local_load_track_def Let_def
  by (cases "validate_deck deck")
     (auto simp: state_then_def [of "(_, _)"] validate_deck_def ok_or_def fresh_local_ok
       intro!: local_ok_thens position_state_ok leader_ok split: option.split if_splits)

lemma transport_ok:
  assumes "local_ok p"
  shows "local_ok (fst (update_transport deck load beat playing stamp p))"
proof (cases "map_of (lp_decks p) deck")
  case (Some d)
  have adj: "local_ok (p\<lparr>lp_decks := btree_adjust deck f (lp_decks p)\<rparr>)"
    if "\<And>d. local_deck_ok (lp_next_track_load_id p) deck d \<Longrightarrow> map_of (lp_decks p) deck = Some d \<Longrightarrow>
      local_deck_ok (lp_next_track_load_id p) deck (f d)" for f
    using assms that unfolding local_ok_def by (auto simp: btree_lookup intro!: all_adjust_at split: option.splits)
  show ?thesis
    using Some assms unfolding update_transport_def Let_def emit_when_def
    by (auto intro!: local_ok_thens adj simp: local_deck_ok_def)
qed (simp add: update_transport_def assms)

definition same_decks :: "LocalPlaybackDeckSourceProvider \<Rightarrow> LocalPlaybackDeckSourceProvider \<Rightarrow> bool" where
  "same_decks p s \<longleftrightarrow> lp_decks s = lp_decks p \<and> lp_leader_deck_id s = lp_leader_deck_id p
     \<and> lp_next_track_load_id s = lp_next_track_load_id p"

lemma unloads_same: "same_decks p s \<Longrightarrow> same_decks p (fst (emit_unloads stamp ds s))"
proof (induction stamp ds s rule: emit_unloads.induct)
  case (2 stamp deck d rest s)
  have "same_decks p (fst (local_emit stamp (DeckObservation.TrackUnloaded deck (lo_track_load_id d)) s))"
    using 2(2) by (simp add: same_decks_def)
  with 2(1) show ?case by (simp add: state_then_keeps [where P = "same_decks p"])
qed simp

lemma unloads_ok: "local_ok p \<Longrightarrow> local_ok (fst (emit_unloads stamp ds p))"
  by (induction stamp ds p rule: emit_unloads.induct) (auto intro!: local_ok_thens)

lemma clear_ok: "local_ok p \<Longrightarrow> local_ok (fst (local_clear stamp p))"
  unfolding local_clear_def
  by (rule local_ok_thens [OF unloads_ok]) (auto simp: local_ok_def)

lemma local_step_ok: "local_ok p \<Longrightarrow> call_ok c \<Longrightarrow> local_step c p = (q, out) \<Longrightarrow> local_ok q"
  by (cases c) (auto simp: local_drain_events_def load_ok leader_ok transport_ok clear_ok)


section \<open>The decks are told by the observations\<close>

definition local_deck_view :: "LocalDeck \<Rightarrow> deck_view" where
  "local_deck_view d = \<lparr>vw_metadata = lo_metadata d, vw_load = lo_track_load_id d, vw_beat = lo_beat d, vw_playing = lo_playing d,
     vw_phrase = (if track_phrases (lo_metadata d) = [] then None else Some (lo_phrase_index d))\<rparr>"

definition local_decks :: "LocalPlaybackDeckSourceProvider \<Rightarrow> DeckId \<Rightarrow> deck_view option" where
  "local_decks p = (\<lambda>k. map_option local_deck_view (map_of (lp_decks p) k))"

definition logged :: "MonotonicTime \<Rightarrow> DeckObservation \<Rightarrow> LocalPlaybackDeckSourceProvider \<Rightarrow> LocalPlaybackDeckSourceProvider" where
  "logged stamp observation p =
     p\<lparr>lp_sequence := lp_sequence p + 1,
       lp_pending_events := lp_pending_events p @
         [DomainEvent.Observation \<lparr>obs_source_id = lp_source_id p, obs_sequence = lp_sequence p + 1, obs_observed_at = stamp,
            obs_observation = observation\<rparr>]\<rparr>"

text \<open>A condition that is asked only of sources that have numbers left.\<close>

definition settled :: "(LocalPlaybackDeckSourceProvider \<Rightarrow> bool) \<Rightarrow> LocalPlaybackDeckSourceProvider \<Rightarrow> bool" where
  "settled P s \<longleftrightarrow> lp_sequence s = -1 \<or> lp_next_track_load_id s = -1 \<or> P s"

lemma checked_add_one: "checked_add (a :: u64) 1 = (if a = -1 then None else Some (a + 1))"
proof -
  have "unat a < 2 ^ 64" using unsigned_less [of a, where ?'a = nat] by simp
  moreover have "a = -1 \<longleftrightarrow> unat a = 2 ^ 64 - 1"
    by (simp add: word_eq_iff_unsigned [where ?'a = nat] unsigned_minus_1_eq_mask mask_eq_exp_minus_1)
  ultimately show ?thesis by (auto simp: checked_add_def)
qed

lemma emit_eq:
  "local_emit stamp observation p = (if lp_sequence p = -1 then (p, Inl LpSequenceOverflow) else (logged stamp observation p, Inr ()))"
  by (simp add: local_emit_def checked_add_one logged_def)

text \<open>Several observations at one time.\<close>

fun log_all :: "MonotonicTime \<Rightarrow> DeckObservation list \<Rightarrow> LocalPlaybackDeckSourceProvider \<Rightarrow> LocalPlaybackDeckSourceProvider" where
  "log_all stamp [] p = p"
| "log_all stamp (observation # rest) p = log_all stamp rest (logged stamp observation p)"

lemma log_all_append [simp]: "log_all stamp (xs @ ys) p = log_all stamp ys (log_all stamp xs p)"
  by (induction stamp xs p rule: log_all.induct) simp_all

lemma settledI: "P s \<Longrightarrow> settled P s"
  by (simp add: settled_def)

lemma settled_emit: "settled P (log_all stamp [observation] s) \<Longrightarrow> settled P (fst (local_emit stamp observation s))"
  by (auto simp: emit_eq settled_def)

lemma settled_then:
  "settled P (fst (f (log_all stamp [observation] s) ())) \<Longrightarrow> settled P (fst (state_then (local_emit stamp observation s) f))"
  by (auto simp: emit_eq settled_def state_then_def)

lemma settled_when:
  "settled P (fst (f (log_all stamp (if c then [observation] else []) s) ())) \<Longrightarrow>
   settled P (fst (state_then (emit_when c stamp observation s) f))"
  using settled_then [of P f stamp observation s] by (cases c) (auto simp: emit_when_def state_then_def)

lemma settled_when_last:
  "settled P (log_all stamp (if c then [observation] else []) s) \<Longrightarrow> settled P (fst (emit_when c stamp observation s))"
  using settled_emit [of P stamp observation s] by (cases c) (auto simp: emit_when_def)

lemmas settles = settled_emit settled_then settled_when settled_when_last

text \<open>
  What a call adds to the log, at its time, replays to the decks of the source; where the flag is set, to its leader
  as well.
\<close>

definition tells :: "bool \<Rightarrow> MonotonicTime \<Rightarrow> decks_view \<Rightarrow> LocalPlaybackDeckSourceProvider \<Rightarrow> LocalPlaybackDeckSourceProvider \<Rightarrow> bool" where
  "tells leading stamp v p q \<longleftrightarrow> (\<exists>new. lp_pending_events q = lp_pending_events p @ new
     \<and> set (observation_times new) \<subseteq> {stamp} \<and> fst (replay_all v new) = local_decks q
     \<and> (leading \<longrightarrow> snd (replay_all v new) = lp_leader_deck_id q))"

lemma logged_fields [simp]:
  "lp_decks (logged stamp observation s) = lp_decks s"
  "lp_leader_deck_id (logged stamp observation s) = lp_leader_deck_id s"
  "lp_next_track_load_id (logged stamp observation s) = lp_next_track_load_id s"
  by (simp_all add: logged_def)

lemma tells_refl: "fst v = local_decks p \<Longrightarrow> (leading \<Longrightarrow> snd v = lp_leader_deck_id p) \<Longrightarrow> tells leading stamp v p p"
  by (auto simp: tells_def observation_times_def)

lemma log_all_fields [simp]:
  "lp_decks (log_all stamp os s) = lp_decks s"
  "lp_leader_deck_id (log_all stamp os s) = lp_leader_deck_id s"
  "lp_next_track_load_id (log_all stamp os s) = lp_next_track_load_id s"
  by (induction stamp os s rule: log_all.induct) simp_all

lemma log_all_events:
  "\<exists>new. lp_pending_events (log_all stamp os s) = lp_pending_events s @ new
     \<and> set (observation_times new) \<subseteq> {stamp} \<and> (\<forall>v. replay_all v new = foldl replay v os)"
proof (induction stamp os s rule: log_all.induct)
  case (1 stamp s)
  then show ?case by (auto simp: observation_times_def intro!: exI [of _ "[]"])
next
  case (2 stamp observation rest s)
  let ?e = "DomainEvent.Observation \<lparr>obs_source_id = lp_source_id s, obs_sequence = lp_sequence s + 1,
    obs_observed_at = stamp, obs_observation = observation\<rparr>"
  from 2 obtain new where "lp_pending_events (log_all stamp rest (logged stamp observation s)) =
      lp_pending_events (logged stamp observation s) @ new"
    "set (observation_times new) \<subseteq> {stamp}" "\<forall>v. replay_all v new = foldl replay v rest" by blast
  then show ?case by (intro exI [of _ "?e # new"]) (simp add: logged_def observation_times_def del: split_paired_All)
qed

lemma tells_log_all:
  assumes "foldl replay v os = (local_decks s, w)" "leading \<Longrightarrow> w = lp_leader_deck_id s" "lp_pending_events s = lp_pending_events p"
  shows "tells leading stamp v p (log_all stamp os s)"
proof -
  obtain new where "lp_pending_events (log_all stamp os s) = lp_pending_events s @ new"
    "set (observation_times new) \<subseteq> {stamp}" "replay_all v new = foldl replay v os"
    using log_all_events by blast
  then show ?thesis using assms unfolding tells_def by (intro exI [of _ new]) (simp add: local_decks_def)
qed

lemma leader_tells:
  assumes "fst v = local_decks p" "leading \<Longrightarrow> snd v = lp_leader_deck_id p"
  shows "settled (tells leading stamp v p) (fst (local_set_leader deck stamp p))"
proof (cases "map_of (lp_decks p) deck")
  case None
  then show ?thesis using assms by (auto simp: local_set_leader_def intro!: settledI tells_refl)
next
  case (Some d)
  let ?p = "p\<lparr>lp_leader_deck_id := Some deck\<rparr>"
  have "foldl replay v [DeckObservation.LeaderChanged deck (lo_track_load_id d)] = (local_decks ?p, Some deck)"
    using assms(1) Some by (simp add: local_decks_def local_deck_view_def)
  then have "tells leading stamp v p (log_all stamp [DeckObservation.LeaderChanged deck (lo_track_load_id d)] ?p)"
    by (rule tells_log_all) simp_all
  then show ?thesis using Some by (simp add: local_set_leader_def settled_emit settledI del: log_all.simps)
qed

text \<open>A change of one deck in the map and in the view.\<close>

lemma local_decks_adjust:
  "map_of (lp_decks p) deck = Some d \<Longrightarrow>
   local_decks (p\<lparr>lp_decks := btree_adjust deck f (lp_decks p)\<rparr>) = (local_decks p)(deck \<mapsto> local_deck_view (f d))"
  by (auto simp: local_decks_def btree_lookup fun_eq_iff)

lemma phrase_valid: "track_ok m \<Longrightarrow> track_phrases m \<noteq> [] \<Longrightarrow> track_phrase m (phrase_of_beat m beat) \<noteq> None"
proof -
  assume m: "track_ok m" "track_phrases m \<noteq> []"
  then have "indexed phrase_index (track_phrases m)" by (auto simp: track_ok_def track_analyzed_def)
  then have valid: "unat (phrase_index x) < length (track_phrases m)" if "x \<in> set (track_phrases m)" for x
    using that by (auto simp: indexed_def in_set_conv_nth)
  show ?thesis
    using m(2) valid unfolding track_phrase_Some_iff phrase_of_beat_def
    by (auto split: option.split simp: find_Some_iff)
qed

lemma phrase_seek:
  assumes "track_ok m" "beat < track_duration_beats m"
  shows "phrase_index_at_beat m beat = (if track_phrases m = [] then None else Some (phrase_of_beat m beat))"
proof (cases "track_phrases m = []")
  case False
  with assms(1) have "track_analyzed m" by (auto simp: track_ok_def)
  with track_parts.part_covers [OF this, of beat] assms(2)
  have "find (\<lambda>p. phrase_start_beat p \<le> beat \<and> beat < phrase_end_beat p) (track_phrases m) \<noteq> None"
    by (auto simp: find_None_iff)
  then show ?thesis by (auto simp: phrase_index_at_beat_def phrase_of_beat_def False)
qed (simp add: phrase_index_at_beat_def)

text \<open>The three observations of a transport report, one after the other, on the view of its deck.\<close>

lemma replay_at:
  assumes "vw_load x = load"
  shows "replay (w(deck \<mapsto> x), l) (DeckObservation.PlaybackPosition deck load b) =
      (w(deck \<mapsto> if b < vw_beat x then x else x\<lparr>vw_beat := b\<rparr>), l)"
    and "replay (w(deck \<mapsto> x), l) (DeckObservation.PlaybackPositionSeeked deck load b) =
      (w(deck \<mapsto> x\<lparr>vw_beat := b, vw_phrase := phrase_index_at_beat (vw_metadata x) b\<rparr>), l)"
    and "replay (w(deck \<mapsto> x), l) (DeckObservation.PlaybackStateChanged deck load on) = (w(deck \<mapsto> x\<lparr>vw_playing := on\<rparr>), l)"
    and "replay (w(deck \<mapsto> x), l) (DeckObservation.PhraseChanged deck load i) =
      (w(deck \<mapsto> if track_phrase (vw_metadata x) i \<noteq> None then x\<lparr>vw_phrase := Some i\<rparr> else x), l)"
  using assms by (simp_all add: with_load_def)

lemma transport_replays:
  assumes d: "local_deck_ok n deck d" "lo_track_load_id d = load"
    and b: "b \<le> track_duration_beats (lo_metadata d)" "i = phrase_of_beat (lo_metadata d) b"
  shows "foldl replay (w(deck \<mapsto> local_deck_view d), l)
     ((if lo_beat d \<noteq> b then [if b < lo_beat d then DeckObservation.PlaybackPositionSeeked deck load b
         else DeckObservation.PlaybackPosition deck load b] else []) @
      (if lo_playing d \<noteq> on then [DeckObservation.PlaybackStateChanged deck load on] else []) @
      (if lo_phrase_index d \<noteq> i \<or> activate then [DeckObservation.PhraseChanged deck load i] else []))
   = (w(deck \<mapsto> local_deck_view (d\<lparr>lo_beat := b, lo_phrase_index := i, lo_playing := on,
        lo_pending_phrase_activation := pending\<rparr>)), l)"
proof -
  let ?m = "lo_metadata d" let ?v = "local_deck_view d" let ?ph = "if track_phrases ?m = [] then None else Some i"
  note m = d(1) [unfolded local_deck_ok_def]
  let ?v1 = "?v\<lparr>vw_beat := b, vw_phrase := if b < lo_beat d then ?ph else vw_phrase ?v\<rparr>"
  let ?v2 = "?v1\<lparr>vw_playing := on\<rparr>"
  have fields: "vw_load ?v = load" "vw_metadata ?v = ?m" "vw_beat ?v = lo_beat d" "vw_playing ?v = lo_playing d"
    using d(2) by (simp_all add: local_deck_view_def)
  have seek: "phrase_index_at_beat ?m b = ?ph" if "b < lo_beat d"
    using phrase_seek [of ?m b] order.strict_trans2 [OF that] m b(2) by simp
  have "foldl replay (w(deck \<mapsto> ?v), l) (if lo_beat d \<noteq> b then [if b < lo_beat d then DeckObservation.PlaybackPositionSeeked deck load b
      else DeckObservation.PlaybackPosition deck load b] else []) = (w(deck \<mapsto> ?v1), l)"
    using seek fields by (auto simp: replay_at simp del: replay.simps)
  moreover have "foldl replay (w(deck \<mapsto> ?v1), l) (if lo_playing d \<noteq> on then [DeckObservation.PlaybackStateChanged deck load on] else [])
    = (w(deck \<mapsto> ?v2), l)"
    using fields by (auto simp: replay_at simp del: replay.simps)
  moreover have "foldl replay (w(deck \<mapsto> ?v2), l) (if lo_phrase_index d \<noteq> i \<or> activate then [DeckObservation.PhraseChanged deck load i] else [])
    = (w(deck \<mapsto> ?v2\<lparr>vw_phrase := ?ph\<rparr>), l)"
  proof (cases "track_phrases ?m = []")
    case True
    then have "track_phrase ?m i = None" by (simp add: track_phrase_def get_nth_def)
    with True fields show ?thesis by (auto simp: replay_at local_deck_view_def simp del: replay.simps)
  next
    case False
    then have "track_phrase ?m i \<noteq> None" using m b(2) phrase_valid by simp
    with False fields show ?thesis by (auto simp: replay_at local_deck_view_def simp del: replay.simps)
  qed
  ultimately show ?thesis by (simp add: local_deck_view_def)
qed

lemma transport_tells:
  assumes ok: "local_ok p" and v: "fst v = local_decks p" "leading \<Longrightarrow> snd v = lp_leader_deck_id p"
  shows "settled (tells leading stamp v p) (fst (update_transport deck load beat playing stamp p))"
proof (cases "\<exists>d. map_of (lp_decks p) deck = Some d \<and> lo_track_load_id d = load")
  case False
  then show ?thesis using v
    by (auto simp: update_transport_def intro!: settledI tells_refl split: option.split)
next
  case True
  then obtain d where d: "map_of (lp_decks p) deck = Some d" "lo_track_load_id d = load" by blast
  have dok: "local_deck_ok (lp_next_track_load_id p) deck d"
    using ok d(1) by (auto simp: local_ok_def dest: all_lookup)
  have "v = ((local_decks p)(deck \<mapsto> local_deck_view d), snd v)"
    using v(1) d(1) by (cases v) (auto simp: local_decks_def fun_eq_iff)
  note told = transport_replays [OF dok d(2), where w = "local_decks p" and l = "snd v", folded this]
  show ?thesis
    unfolding update_transport_def Let_def
    apply (simp only: d option.case refl not_True_eq_False if_False)
    apply (intro settles settledI)
    apply (simp only: log_all_append [symmetric] append_assoc)
    apply (rule tells_log_all [where w = "snd v"])
    subgoal by (subst told) (simp_all add: local_decks_adjust [OF d(1)] local_deck_view_def)
    subgoal using v(2) by simp
    subgoal by simp
    done
qed


lemma state_then_assoc: "state_then (state_then x f) g = state_then x (\<lambda>s a. state_then (f s a) g)"
  by (cases x) (auto simp: state_then_def split: sum.split)

lemma settled_unload:
  "settled P (fst (f (log_all stamp (case x of None \<Rightarrow> [] | Some a \<Rightarrow> [g a]) s) ())) \<Longrightarrow>
   settled P (fst (state_then (case x of None \<Rightarrow> (s, Inr ()) | Some a \<Rightarrow> local_emit stamp (g a) s) f))"
  using settled_then [of P f stamp _ s] by (cases x) (auto simp: state_then_def)

lemma settled_leader:
  assumes "map_of (lp_decks s) deck = Some d"
    and "settled P (log_all stamp [DeckObservation.LeaderChanged deck (lo_track_load_id d)] (s\<lparr>lp_leader_deck_id := Some deck\<rparr>))"
  shows "settled P (fst (state_then (local_set_leader deck stamp s) (\<lambda>p _. (p, Inr x))))"
  unfolding local_set_leader_def assms(1) option.case
  by (rule settled_then) (use assms(2) in simp)

lemma settled_position:
  assumes "map_of (lp_decks s) deck = Some d"
    and "settled P (fst (f (log_all stamp [DeckObservation.PlaybackPosition deck (lo_track_load_id d) 0,
       DeckObservation.PhraseChanged deck (lo_track_load_id d) 0,
       DeckObservation.PlaybackStateChanged deck (lo_track_load_id d) False] s) ()))"
  shows "settled P (fst (state_then (emit_position_state deck stamp s) f))"
  unfolding emit_position_state_def assms(1) option.case state_then_assoc
  by (intro settled_then) (use assms(2) in simp)

lemma logged_updates:
  "(logged stamp observation s)\<lparr>lp_next_track_load_id := n, lp_decks := x\<rparr> =
     logged stamp observation (s\<lparr>lp_next_track_load_id := n, lp_decks := x\<rparr>)"
  "(logged stamp observation s)\<lparr>lp_leader_deck_id := y\<rparr> = logged stamp observation (s\<lparr>lp_leader_deck_id := y\<rparr>)"
  by (cases s, simp add: logged_def)+

lemma same_leader:
  "lp_leader_deck_id p = y \<Longrightarrow> p\<lparr>lp_next_track_load_id := n, lp_decks := x, lp_leader_deck_id := y\<rparr> =
     p\<lparr>lp_next_track_load_id := n, lp_decks := x\<rparr>"
  by (cases p) simp

lemma log_all_decks:
  "(log_all stamp os s)\<lparr>lp_next_track_load_id := n, lp_decks := x\<rparr> = log_all stamp os (s\<lparr>lp_next_track_load_id := n, lp_decks := x\<rparr>)"
  by (induction stamp os s rule: log_all.induct) (simp_all add: logged_updates)

lemma log_all_leader:
  "(log_all stamp os s)\<lparr>lp_leader_deck_id := x\<rparr> = log_all stamp os (s\<lparr>lp_leader_deck_id := x\<rparr>)"
  by (induction stamp os s rule: log_all.induct) (simp_all add: logged_updates)

definition load_observations :: "DeckId \<Rightarrow> TrackMetadata \<Rightarrow> TrackLoadId \<Rightarrow> DeckObservation list" where
  "load_observations deck metadata load = [DeckObservation.TrackLoaded deck metadata load, DeckObservation.PlaybackPosition deck load 0,
     DeckObservation.PhraseChanged deck load 0, DeckObservation.PlaybackStateChanged deck load False]"

definition unload_observation :: "DeckId \<Rightarrow> LocalPlaybackDeckSourceProvider \<Rightarrow> DeckObservation list" where
  "unload_observation deck p =
     (case map_of (lp_decks p) deck of None \<Rightarrow> [] | Some d \<Rightarrow> [DeckObservation.TrackUnloaded deck (lo_track_load_id d)])"

lemma load_replays:
  "track_ok metadata \<Longrightarrow> foldl replay (w, l) (load_observations deck metadata load) = (w(deck \<mapsto> local_deck_view (fresh_local metadata load)), l)"
  by (auto simp: load_observations_def with_load_def local_deck_view_def fresh_local_def track_phrase_def get_nth_def)

lemma unload_replays:
  "foldl replay (local_decks p, l) (unload_observation deck p) =
     ((local_decks p)(deck := None), if l = Some deck \<and> map_of (lp_decks p) deck \<noteq> None then None else l)"
  by (auto simp: unload_observation_def local_decks_def local_deck_view_def fun_eq_iff split: option.split)

lemma local_decks_insert:
  "local_decks (p\<lparr>lp_next_track_load_id := n, lp_decks := btree_insert deck d (lp_decks p)\<rparr>) = (local_decks p)(deck \<mapsto> local_deck_view d)"
  by (simp add: local_decks_def btree_lookup fun_eq_iff)

lemma load_settles:
  assumes "deck = 1 \<or> deck = 2"
    and "\<And>n. n \<noteq> 0 \<Longrightarrow> checked_add (lp_next_track_load_id p) 1 = Some n \<Longrightarrow>
      P (log_all stamp (unload_observation deck p @ load_observations deck metadata (lp_next_track_load_id p) @
           (if lp_leader_deck_id p = None then [DeckObservation.LeaderChanged deck (lp_next_track_load_id p)] else []))
         (p\<lparr>lp_next_track_load_id := n, lp_decks := btree_insert deck (fresh_local metadata (lp_next_track_load_id p)) (lp_decks p),
            lp_leader_deck_id := if lp_leader_deck_id p = None then Some deck else lp_leader_deck_id p\<rparr>))"
  shows "settled P (fst (local_load_track deck metadata stamp p))"
proof (cases "checked_add (lp_next_track_load_id p) 1")
  case None
  then have "lp_next_track_load_id p = -1" by (simp add: checked_add_one split: if_splits)
  then show ?thesis
    using assms(1) unfolding local_load_track_def Let_def
    by (auto simp: validate_deck_def state_then_def [of "(_, _)"] ok_or_def checked_add_one settled_def
        intro!: settled_unload [where P = P, unfolded settled_def])
next
  case (Some n)
  then have n: "n \<noteq> 0" using checked_add_Some_gt by fastforce
  let ?load = "lp_next_track_load_id p"
  let ?fresh = "fresh_local metadata ?load"
  let ?q = "p\<lparr>lp_next_track_load_id := n, lp_decks := btree_insert deck ?fresh (lp_decks p)\<rparr>"
  note goal = assms(2) [OF n Some]
  have v: "validate_deck deck = Inr ()" using assms(1) by (auto simp: validate_deck_def)
  have found: "map_of (btree_insert deck ?fresh (lp_decks p)) deck = Some ?fresh" by (simp add: btree_lookup)
  show ?thesis
    unfolding local_load_track_def Let_def v
    apply (simp only: state_then_def [of "(_, Inr _)"] prod.case sum.case)
    apply (rule settled_unload)
    apply (simp only: log_all_fields Some ok_or_def option.case state_then_def [of "(_, Inr _)"] prod.case sum.case log_all_decks)
    apply (rule settled_then)
    apply (rule settled_position [where d = ?fresh])
     apply (simp add: found)
    apply (cases "lp_leader_deck_id p")
    subgoal
      by (simp only: log_all_fields, simp, rule settled_leader [where d = ?fresh])
         (use goal in \<open>simp_all add: btree_lookup log_all_leader log_all_append load_observations_def unload_observation_def
            fresh_local_def settledI logged_updates\<close>)
    subgoal
      using goal by (simp add: state_then_def log_all_append load_observations_def unload_observation_def fresh_local_def settledI same_leader)
    done
qed


lemma load_tells:
  assumes "track_ok metadata" "fst v = local_decks p" "leading \<Longrightarrow> snd v = lp_leader_deck_id p \<and> lp_leader_deck_id p \<noteq> Some deck"
  shows "settled (tells leading stamp v p) (fst (local_load_track deck metadata stamp p))"
proof (cases "deck = 1 \<or> deck = 2")
  case False
  then show ?thesis using assms
    by (auto simp: local_load_track_def validate_deck_def state_then_def [of "(_, _)"] intro!: settledI tells_refl)
next
  case True
  show ?thesis
  proof (rule load_settles [OF True])
    fix n
    let ?load = "lp_next_track_load_id p"
    let ?q = "p\<lparr>lp_next_track_load_id := n, lp_decks := btree_insert deck (fresh_local metadata ?load) (lp_decks p),
            lp_leader_deck_id := if lp_leader_deck_id p = None then Some deck else lp_leader_deck_id p\<rparr>"
    let ?w = "if lp_leader_deck_id p = None then Some deck
      else if snd v = Some deck \<and> map_of (lp_decks p) deck \<noteq> None then None else snd v"
    have decks: "local_decks ?q = (local_decks p)(deck \<mapsto> local_deck_view (fresh_local metadata ?load))"
      by (simp add: local_decks_def btree_lookup fun_eq_iff)
    have v: "v = (local_decks p, snd v)" using assms(2) by (cases v) simp
    have "foldl replay v (unload_observation deck p @ load_observations deck metadata ?load @
        (if lp_leader_deck_id p = None then [DeckObservation.LeaderChanged deck ?load] else [])) = (local_decks ?q, ?w)"
      unfolding foldl_append decks
      by (subst v, subst unload_replays, subst load_replays [OF assms(1)]) (simp add: local_deck_view_def fresh_local_def)
    then show "tells leading stamp v p (log_all stamp (unload_observation deck p @ load_observations deck metadata ?load @
        (if lp_leader_deck_id p = None then [DeckObservation.LeaderChanged deck ?load] else [])) ?q)"
      by (rule tells_log_all) (use assms(3) in auto)
  qed
qed

text \<open>Clearing unloads every deck.\<close>

lemma unloads_settle:
  "settled P (fst (f (log_all stamp (map (\<lambda>(deck, d). DeckObservation.TrackUnloaded deck (lo_track_load_id d)) ds) s) ())) \<Longrightarrow>
   settled P (fst (state_then (emit_unloads stamp ds s) f))"
proof (induction stamp ds s rule: emit_unloads.induct)
  case (1 stamp s)
  then show ?case by (simp add: state_then_def)
next
  case (2 stamp deck d rest s)
  then show ?case unfolding emit_unloads.simps state_then_assoc by (intro settled_then) simp
qed

lemma unloads_replay:
  "distinct (map fst ds) \<Longrightarrow> (\<And>k d. (k, d) \<in> set ds \<Longrightarrow> map_option vw_load (w k) = Some (lo_track_load_id d)) \<Longrightarrow>
   foldl replay (w, l) (map (\<lambda>(deck, d). DeckObservation.TrackUnloaded deck (lo_track_load_id d)) ds) =
     (\<lambda>k. if k \<in> fst ` set ds then None else w k, case l of Some k \<Rightarrow> if k \<in> fst ` set ds then None else l | None \<Rightarrow> l)"
proof (induction ds arbitrary: w l)
  case (Cons x ds)
  obtain k d where x: "x = (k, d)" by fastforce
  from Cons.prems(2) [of k d] x obtain y where y: "w k = Some y" "vw_load y = lo_track_load_id d" by auto
  define u m where "u = w(k := None)" and "m = (if l = Some k then None else l)"
  have step: "replay (w, l) (DeckObservation.TrackUnloaded k (lo_track_load_id d)) = (u, m)"
    using y by (simp add: u_def m_def)
  have "map_option vw_load (u j) = Some (lo_track_load_id e)" if "(j, e) \<in> set ds" for j e
    using Cons.prems(1) Cons.prems(2) [of j e] that x by (auto simp: rev_image_eqI u_def)
  note rest = Cons.IH [of u m, OF _ this]
  have decks: "(\<lambda>j. if j \<in> fst ` set ds then None else u j) = (\<lambda>j. if j \<in> fst ` set (x # ds) then None else w j)"
    using x by (auto simp: fun_eq_iff u_def)
  have lead: "(case m of Some k \<Rightarrow> if k \<in> fst ` set ds then None else m | None \<Rightarrow> m) =
    (case l of Some k \<Rightarrow> if k \<in> fst ` set (x # ds) then None else l | None \<Rightarrow> l)"
    using x by (auto simp: m_def split: option.split)
  show ?case using rest Cons.prems(1) unfolding decks lead by (simp add: x step del: replay.simps)
qed (simp split: option.split)

lemma clear_tells:
  assumes ok: "local_ok p" and v: "fst v = local_decks p" "leading \<Longrightarrow> snd v = lp_leader_deck_id p"
  shows "settled (tells leading stamp v p) (fst (local_clear stamp p))"
proof -
  let ?os = "map (\<lambda>(deck, d). DeckObservation.TrackUnloaded deck (lo_track_load_id d)) (lp_decks p)"
  let ?w = "case snd v of Some k \<Rightarrow> if k \<in> fst ` set (lp_decks p) then None else snd v | None \<Rightarrow> snd v"
  let ?q = "(log_all stamp ?os p)\<lparr>lp_decks := [], lp_leader_deck_id := None\<rparr>"
  have ord: "ordered (lp_decks p)" using ok by (simp add: local_ok_def)
  have pair: "v = (local_decks p, snd v)" using v(1) by (cases v) simp
  have "map_option vw_load (local_decks p k) = Some (lo_track_load_id d)" if "(k, d) \<in> set (lp_decks p)" for k d
    using map_of_in_set [OF ord, of k d] that by (simp add: local_decks_def local_deck_view_def)
  from unloads_replay [OF ordered_distinct [OF ord], of "local_decks p" "snd v", OF this] pair
  have replayed: "foldl replay v ?os = (\<lambda>k. if k \<in> fst ` set (lp_decks p) then None else local_decks p k, ?w)" by simp
  have gone: "(\<lambda>k. if k \<in> fst ` set (lp_decks p) then None else local_decks p k) = Map.empty"
    by (auto simp: local_decks_def fun_eq_iff map_of_eq_None_iff)
  have led: "?w = None" if leading
    using ok v(2) that by (auto simp: local_ok_def map_of_eq_None_iff split: option.splits)
  obtain new where "lp_pending_events (log_all stamp ?os p) = lp_pending_events p @ new"
    "set (observation_times new) \<subseteq> {stamp}" "replay_all v new = foldl replay v ?os"
    using log_all_events by blast
  then have "tells leading stamp v p ?q"
    unfolding tells_def using replayed led gone by (intro exI [of _ new]) (auto simp: local_decks_def)
  then show ?thesis unfolding local_clear_def by (intro unloads_settle) (simp add: settledI)
qed


section \<open>Runs\<close>

fun call_time :: "local_call \<Rightarrow> MonotonicTime list" where
  "call_time (LocalLoad deck metadata stamp) = [stamp]"
| "call_time (LocalLeader deck stamp) = [stamp]"
| "call_time (LocalTransport deck load beat playing stamp) = [stamp]"
| "call_time (LocalClear stamp) = [stamp]"
| "call_time LocalDrain = []"

definition call_times :: "local_call list \<Rightarrow> MonotonicTime list" where
  "call_times cs = concat (map call_time cs)"

text \<open>No call loads a track on the deck that leads.\<close>

fun keeps_leader :: "LocalPlaybackDeckSourceProvider \<Rightarrow> local_call \<Rightarrow> bool" where
  "keeps_leader p (LocalLoad deck metadata stamp) = (lp_leader_deck_id p \<noteq> Some deck)"
| "keeps_leader p _ = True"

fun leader_kept :: "LocalPlaybackDeckSourceProvider \<Rightarrow> local_call list \<Rightarrow> bool" where
  "leader_kept p [] = True"
| "leader_kept p (c # cs) = (keeps_leader p c \<and> leader_kept (fst (local_step c p)) cs)"

text \<open>Numbers are left at the end only when they were left before.\<close>

definition numbers_left :: "LocalPlaybackDeckSourceProvider \<Rightarrow> bool" where
  "numbers_left p \<longleftrightarrow> lp_sequence p \<noteq> -1 \<and> lp_next_track_load_id p \<noteq> -1"

lemma settledD: "settled P s \<Longrightarrow> numbers_left s \<Longrightarrow> P s"
  by (auto simp: settled_def numbers_left_def)

definition loads_from :: "LocalPlaybackDeckSourceProvider \<Rightarrow> LocalPlaybackDeckSourceProvider \<Rightarrow> bool" where
  "loads_from p s \<longleftrightarrow> lp_next_track_load_id p \<le> lp_next_track_load_id s"

lemma loads_emit [simp]: "loads_from p (fst (local_emit stamp observation s)) = loads_from p s"
  by (simp add: loads_from_def)

lemma loads_refl [simp]: "loads_from p p"
  by (simp add: loads_from_def)

lemma loads_fields [simp]:
  "loads_from p (s\<lparr>lp_decks := x\<rparr>) = loads_from p s"
  "loads_from p (s\<lparr>lp_leader_deck_id := y\<rparr>) = loads_from p s"
  "loads_from p (s\<lparr>lp_pending_events := z\<rparr>) = loads_from p s"
  by (simp_all add: loads_from_def)

lemmas loads_thens = state_then_keeps [where P = "loads_from _"]

lemma loads_next:
  "loads_from p s \<Longrightarrow> checked_add (lp_next_track_load_id s) 1 = Some n \<Longrightarrow> loads_from p (s\<lparr>lp_next_track_load_id := n\<rparr>)"
  using checked_add_Some_gt [of "lp_next_track_load_id s" 1 n] by (auto simp: loads_from_def)

lemma position_loads: "loads_from p s \<Longrightarrow> loads_from p (fst (emit_position_state deck stamp s))"
  by (auto simp: emit_position_state_def intro!: loads_thens split: option.split)

lemma leader_loads: "loads_from p s \<Longrightarrow> loads_from p (fst (local_set_leader deck stamp s))"
  by (auto simp: local_set_leader_def split: option.split)

lemma load_loads: "loads_from p (fst (local_load_track deck metadata stamp p))"
  unfolding local_load_track_def Let_def
  by (cases "validate_deck deck")
     (auto simp: state_then_def [of "(_, _)"] ok_or_def loads_next intro!: loads_thens position_loads leader_loads split: option.split)

lemma transport_loads: "loads_from p (fst (update_transport deck load beat playing stamp p))"
  by (auto simp: update_transport_def emit_when_def Let_def intro!: loads_thens split: option.split)

lemma clear_loads: "loads_from p (fst (local_clear stamp p))"
  using unloads_same [of p p stamp "lp_decks p"] unfolding local_clear_def
  by (intro loads_thens) (auto simp: same_decks_def loads_from_def)

lemma step_left:
  assumes "local_step c p = (q, out)" "numbers_left q"
  shows "numbers_left p"
proof -
  have seq: "lp_sequence p \<le> lp_sequence r" if "local_log.grows p r" for r
    using that by (auto simp: local_log.grows_def word_le_nat_alt)
  have "lp_sequence p \<le> lp_sequence q \<and> loads_from p q"
    using assms(1)
    by (cases c) (auto simp: local_drain_events_def intro: seq calls_grow load_loads transport_loads clear_loads leader_loads)
  then show ?thesis
    using assms(2) by (auto simp: numbers_left_def loads_from_def dest: word_order.extremum_uniqueI)
qed

text \<open>Everything handed out and waiting, replayed, gives the decks.\<close>

definition told :: "bool \<Rightarrow> DomainEvent list \<Rightarrow> LocalPlaybackDeckSourceProvider \<Rightarrow> bool" where
  "told leading handed p \<longleftrightarrow> (let v = replay_all (Map.empty, None) (handed @ lp_pending_events p)
     in fst v = local_decks p \<and> (leading \<longrightarrow> snd v = lp_leader_deck_id p))"

lemma step_told:
  assumes "local_ok p" "call_ok c" "told leading handed p" "leading \<Longrightarrow> keeps_leader p c"
    and step: "local_step c p = (q, out)" and left: "numbers_left q"
  shows "told leading (handed @ out) q"
    and "\<exists>new. observation_times (handed @ out @ lp_pending_events q) = observation_times (handed @ lp_pending_events p) @ new
       \<and> set new \<subseteq> set (call_time c)"
proof -
  let ?v = "replay_all (Map.empty, None) (handed @ lp_pending_events p)"
  have v: "fst ?v = local_decks p" "leading \<Longrightarrow> snd ?v = lp_leader_deck_id p" using assms(3) by (auto simp: told_def Let_def)
  have "told leading (handed @ out) q \<and> (\<exists>new. observation_times (handed @ out @ lp_pending_events q) =
      observation_times (handed @ lp_pending_events p) @ new \<and> set new \<subseteq> set (call_time c))"
  proof (cases "c = LocalDrain")
    case True
    with step v show ?thesis by (auto simp: told_def local_drain_events_def local_decks_def observation_times_def Let_def)
  next
    case False
    then obtain stamp where stamp: "call_time c = [stamp]" by (cases c) auto
    have "settled (tells leading stamp ?v p) q \<and> out = []"
      using step stamp assms(1,2,4) v
      by (cases c) (auto intro!: load_tells leader_tells transport_tells clear_tells)
    with left have "tells leading stamp ?v p q" "out = []" by (auto dest: settledD)
    then show ?thesis by (auto simp: tells_def told_def Let_def stamp)
  qed
  then show "told leading (handed @ out) q"
    and "\<exists>new. observation_times (handed @ out @ lp_pending_events q) = observation_times (handed @ lp_pending_events p) @ new
       \<and> set new \<subseteq> set (call_time c)" by blast+
qed

definition run_ok :: "bool \<Rightarrow> DomainEvent list \<Rightarrow> LocalPlaybackDeckSourceProvider \<Rightarrow> MonotonicTime \<Rightarrow> bool" where
  "run_ok leading handed p t \<longleftrightarrow> local_ok p \<and> local_log.log_ok handed p \<and> told leading handed p
     \<and> sorted (observation_times (handed @ lp_pending_events p) @ [t])"

lemma sorted_then:
  assumes "sorted (xs @ [t])" "(t :: MonotonicTime) \<le> u" "set new \<subseteq> {u}"
  shows "sorted ((xs @ new) @ [u])"
proof -
  have "sorted new" using assms(3) by (induction new) auto
  moreover have "x \<le> u" if "x \<in> set xs" for x using that assms(1,2) by (force simp: sorted_append)
  ultimately show ?thesis using assms(1,3) by (auto simp: sorted_append)
qed

lemma run_left: "local_run handed p cs = (handed', q) \<Longrightarrow> numbers_left q \<Longrightarrow> numbers_left p"
  by (induction handed p cs rule: local_run.induct) (auto split: prod.splits intro: step_left)

lemma run_all:
  "run_ok leading handed p t \<Longrightarrow> list_all call_ok cs \<Longrightarrow> sorted (t # call_times cs) \<Longrightarrow> (leading \<Longrightarrow> leader_kept p cs) \<Longrightarrow>
   local_run handed p cs = (handed', q) \<Longrightarrow> numbers_left q \<Longrightarrow> \<exists>t'. run_ok leading handed' q t'"
proof (induction handed p cs arbitrary: t rule: local_run.induct)
  case (2 handed p c cs)
  obtain r out where step: "local_step c p = (r, out)" by fastforce
  have run: "local_run (handed @ out) r cs = (handed', q)" using 2(6) step by simp
  note left = run_left [OF run 2(7)]
  have ok: "local_ok p" "call_ok c" "told leading handed p" "leading \<Longrightarrow> keeps_leader p c"
    using 2(2,3,5) by (auto simp: run_ok_def)
  obtain new where new: "observation_times (handed @ out @ lp_pending_events r) = observation_times (handed @ lp_pending_events p) @ new"
    "set new \<subseteq> set (call_time c)" using step_told(2) [OF ok step left] by blast
  let ?t = "case call_time c of [] \<Rightarrow> t | s # _ \<Rightarrow> s"
  have "sorted (?t # call_times cs)" "t \<le> ?t" "set new \<subseteq> {?t}"
    using 2(4) new(2) by (cases c; auto simp: call_times_def)+
  then have "run_ok leading (handed @ out) r ?t"
    using 2(2) step_told(1) [OF ok step left] local_step_ok [OF ok(1,2) step] local_step_log [OF _ step, of handed] new(1)
      sorted_then [of "observation_times (handed @ lp_pending_events p)" t ?t new]
    unfolding run_ok_def by simp
  from 2(1) [OF step [symmetric] this] show ?case
    using 2(3,5,7) run step \<open>sorted (?t # call_times cs)\<close> by auto
qed auto


lemma run_start: "run_ok leading [] (fst (new_local stamp)) stamp"
  by (simp add: run_ok_def new_local_def emit_eq empty_local_def logged_def local_ok_def local_log.log_ok_def told_def
      local_decks_def sequences_def observation_times_def)

text \<open>What a runtime makes of the observations of a run.\<close>

lemma run_reduced:
  assumes "run_ok leading handed q t" "filter observation_of evs = handed @ lp_pending_events q" "reduce_all default_state evs = Inr s"
    and "lp_source_id q = LOCAL_SOURCE_ID"
  shows "runtime_view s = replay_all (Map.empty, None) (handed @ lp_pending_events q)"
proof -
  have seq: "sequences evs = [Suc 0..<Suc (unat (lp_sequence q))]"
    using assms(1,2) observations_only(1) [of evs] by (simp add: run_ok_def local_log.log_ok_def)
  have src: "list_all (from_source LOCAL_SOURCE_ID) (filter observation_of evs)"
    using assms(1,2,4) by (simp add: run_ok_def local_log.log_ok_def)
  have "sorted (observation_times (handed @ lp_pending_events q))"
    using assms(1) unfolding run_ok_def sorted_append [of _ "[t]"] by blast
  then have "sorted (observation_times evs)" using observations_only(2) [of evs] assms(2) by simp
  then have "sorted (0 # observation_times evs)" by simp
  from in_sequence_numbered [OF seq src this] have "in_sequence LOCAL_SOURCE_ID 0 0 evs" .
  from reduce_all_replays [OF assms(3) _ this]
  have "runtime_view s = replay_all (runtime_view default_state) evs" by (simp add: heard_def default_state_def)
  moreover have "runtime_view default_state = (Map.empty, None)" by (simp add: runtime_view_def default_state_def)
  ultimately show ?thesis using observations_only(3) [of "(Map.empty, None)" evs] assms(2) by simp
qed

lemma run_source:
  "local_run handed p cs = (handed', q) \<Longrightarrow> lp_source_id q = lp_source_id p"
proof (induction handed p cs rule: local_run.induct)
  case (2 handed p c cs)
  obtain r out where step: "local_step c p = (r, out)" by fastforce
  have "lp_source_id r = lp_source_id p"
    using step by (cases c) (auto simp: local_drain_events_def calls_grow [THEN local_log.grows_origin])
  with 2 step show ?case by simp
qed simp

lemma start_source: "lp_source_id (fst (new_local stamp)) = LOCAL_SOURCE_ID"
  by (simp add: new_local_def emit_eq empty_local_def logged_def)

lemma local_run_append:
  "local_run handed p (cs @ ds) = (case local_run handed p cs of (handed', q) \<Rightarrow> local_run handed' q ds)"
  by (induction handed p cs rule: local_run.induct) (auto split: prod.split)

section \<open>Properties\<close>

text \<open>
  C16. Whatever is loaded, played, sought, cleared and made leader on the local decks, and whatever commands, plans and
  results reach the runtime in between: once the runtime has worked off the observations of the local source, it
  shows the decks of the source, with their tracks, loads, beats, phrases and playback. It also follows the same
  leader, provided that no track was loaded on the deck that led at that moment.
\<close>

theorem runtime_follows_local_decks:
  assumes run: "local_run [] (fst (new_local stamp)) cs = (handed, q)"
    and calls: "list_all call_ok cs" "sorted (stamp # call_times cs)"
    and left: "lp_sequence q \<noteq> -1" "lp_next_track_load_id q \<noteq> -1"
    and events: "filter observation_of evs = handed @ lp_pending_events q"
    and reduced: "reduce_all default_state evs = Inr s"
  shows "fst (runtime_view s) = local_decks q
    \<and> (leader_kept (fst (new_local stamp)) cs \<longrightarrow> st_leader_deck s = lp_leader_deck_id q)"
proof -
  let ?leading = "leader_kept (fst (new_local stamp)) cs"
  obtain t where ok: "run_ok ?leading handed q t"
    using run_all [OF run_start calls _ run] left by (auto simp: numbers_left_def)
  have "runtime_view s = replay_all (Map.empty, None) (handed @ lp_pending_events q)"
    using run_reduced [OF ok events reduced] run_source [OF run] start_source by simp
  with ok show ?thesis by (simp add: run_ok_def told_def Let_def) (metis view_leader)
qed

lemma load_on_leader:
  assumes "track_ok metadata" "local_ok p" "fst v = local_decks p" "snd v = Some deck" "lp_leader_deck_id p = Some deck"
  shows "settled (\<lambda>q. \<exists>new. lp_pending_events q = lp_pending_events p @ new \<and> set (observation_times new) \<subseteq> {stamp}
      \<and> snd (replay_all v new) = None \<and> lp_leader_deck_id q = Some deck)
    (fst (local_load_track deck metadata stamp p))"
proof -
  obtain d where d: "map_of (lp_decks p) deck = Some d" using assms(2,5) by (auto simp: local_ok_def)
  then have deck: "deck = 1 \<or> deck = 2"
    using assms(2) by (auto simp: local_ok_def local_deck_ok_def dest!: all_lookup)
  have v: "v = (local_decks p, Some deck)" using assms(3,4) by (cases v) simp
  show ?thesis
  proof (rule load_settles [OF deck])
    fix n
    let ?load = "lp_next_track_load_id p"
    let ?q = "p\<lparr>lp_next_track_load_id := n, lp_decks := btree_insert deck (fresh_local metadata ?load) (lp_decks p),
            lp_leader_deck_id := if lp_leader_deck_id p = None then Some deck else lp_leader_deck_id p\<rparr>"
    let ?os = "unload_observation deck p @ load_observations deck metadata ?load @
        (if lp_leader_deck_id p = None then [DeckObservation.LeaderChanged deck ?load] else [])"
    have "snd (foldl replay v ?os) = None"
      by (simp add: v assms(5) unload_replays load_replays [OF assms(1)] d)
    moreover obtain new where "lp_pending_events (log_all stamp ?os ?q) = lp_pending_events ?q @ new"
      "set (observation_times new) \<subseteq> {stamp}" "replay_all v new = foldl replay v ?os"
      using log_all_events by blast
    ultimately show "\<exists>new. lp_pending_events (log_all stamp ?os ?q) = lp_pending_events p @ new
      \<and> set (observation_times new) \<subseteq> {stamp} \<and> snd (replay_all v new) = None
      \<and> lp_leader_deck_id (log_all stamp ?os ?q) = Some deck"
      by (intro exI [of _ new]) (simp add: assms(5))
  qed
qed


text \<open>
  C17. A track loaded on the deck that leads costs the runtime its leader: the source first unloads the old track, which
  makes the runtime drop its leader, and then announces no leader, because it still holds the deck for the leader
  itself. The runtime has no leader until one is set again.
\<close>

theorem reload_loses_leader:
  assumes run: "local_run [] (fst (new_local stamp)) cs = (handed, p)"
    and calls: "list_all call_ok cs" "sorted (stamp # call_times cs @ [now])" "leader_kept (fst (new_local stamp)) cs"
    and leader: "lp_leader_deck_id p = Some deck"
    and load: "local_load_track deck metadata now p = (q, Inr load)" "track_ok metadata"
    and left: "lp_sequence q \<noteq> -1" "lp_next_track_load_id q \<noteq> -1"
    and events: "filter observation_of evs = handed @ lp_pending_events q"
    and reduced: "reduce_all default_state evs = Inr s"
  shows "st_leader_deck s = None \<and> lp_leader_deck_id q = Some deck \<and> st_decks s deck \<noteq> None"
proof -
  let ?c = "LocalLoad deck metadata now"
  have step: "local_step ?c p = (q, [])" using load(1) by simp
  have q: "numbers_left q" using left by (simp add: numbers_left_def)
  note before = step_left [OF step q]
  have sorted: "sorted (stamp # call_times cs)" using calls(2) by (simp add: sorted_append)
  obtain t where ok: "run_ok True handed p t"
    using run_all [OF run_start calls(1) sorted _ run before] calls(3) by blast
  let ?v = "replay_all (Map.empty, None) (handed @ lp_pending_events p)"
  have v: "fst ?v = local_decks p" "snd ?v = Some deck" "local_ok p"
    using ok leader by (auto simp: run_ok_def told_def Let_def)
  obtain new where new: "lp_pending_events q = lp_pending_events p @ new" "snd (replay_all ?v new) = None" "lp_leader_deck_id q = Some deck"
    using settledD [OF load_on_leader [OF load(2) v(3,1,2) leader, of now]] q load(1) by auto
  have "list_all call_ok (cs @ [?c])" "sorted (stamp # call_times (cs @ [?c]))"
    using calls load(2) by (simp_all add: call_times_def)
  moreover have full: "local_run [] (fst (new_local stamp)) (cs @ [?c]) = (handed, q)"
    using run step local_run_append by simp
  ultimately obtain t' where last: "run_ok False handed q t'"
    using run_all [OF run_start [where leading = False] _ _ _ full q] by blast
  have "runtime_view s = replay_all (Map.empty, None) (handed @ lp_pending_events q)"
    using run_reduced [OF last events reduced] run_source [OF full] start_source by simp
  then have leads: "st_leader_deck s = None" using new(1,2) view_leader [of s] by simp
  have "fst (runtime_view s) deck = local_decks q deck"
    using last run_reduced [OF last events reduced] run_source [OF full] start_source by (simp add: run_ok_def told_def Let_def)
  moreover have "map_of (lp_decks q) deck \<noteq> None"
    using last new(3) by (auto simp: run_ok_def local_ok_def)
  ultimately have "st_decks s deck \<noteq> None" by (auto simp: local_decks_def)
  with leads new(3) show ?thesis by simp
qed

section \<open>Witnesses\<close>

text \<open>One deck, loaded and played; then a second track on the same deck.\<close>

definition demo_calls :: "local_call list" where
  "demo_calls = [LocalLoad 1 demo_track 1, LocalTransport 1 1 3 True 2]"

definition demo_event :: "u64 \<Rightarrow> MonotonicTime \<Rightarrow> DeckObservation \<Rightarrow> DomainEvent" where
  "demo_event n stamp obs = DomainEvent.Observation
     \<lparr>obs_source_id = LOCAL_SOURCE_ID, obs_sequence = n, obs_observed_at = stamp, obs_observation = obs\<rparr>"

definition demo_log :: "DomainEvent list" where
  "demo_log =
     [demo_event 1 0 (DeckObservation.SourceStatusChanged DeckSourceStatus.Ready),
      demo_event 2 1 (DeckObservation.TrackLoaded 1 demo_track 1), demo_event 3 1 (DeckObservation.PlaybackPosition 1 1 0),
      demo_event 4 1 (DeckObservation.PhraseChanged 1 1 0), demo_event 5 1 (DeckObservation.PlaybackStateChanged 1 1 False),
      demo_event 6 1 (DeckObservation.LeaderChanged 1 1), demo_event 7 2 (DeckObservation.PlaybackPosition 1 1 3),
      demo_event 8 2 (DeckObservation.PlaybackStateChanged 1 1 True), demo_event 9 2 (DeckObservation.PhraseChanged 1 1 0)]"

definition demo_local :: LocalPlaybackDeckSourceProvider where
  "demo_local = \<lparr>lp_source_id = LOCAL_SOURCE_ID,
     lp_decks = [(1, \<lparr>lo_track_load_id = 1, lo_metadata = demo_track, lo_beat = 3, lo_phrase_index = 0, lo_playing = True,
       lo_pending_phrase_activation = False\<rparr>)],
     lp_leader_deck_id = Some 1, lp_next_track_load_id = 2, lp_sequence = 9, lp_pending_events = demo_log\<rparr>"

definition demo_relog :: "DomainEvent list" where
  "demo_relog = demo_log @
     [demo_event 10 3 (DeckObservation.TrackUnloaded 1 1),
      demo_event 11 3 (DeckObservation.TrackLoaded 1 demo_track 2), demo_event 12 3 (DeckObservation.PlaybackPosition 1 2 0),
      demo_event 13 3 (DeckObservation.PhraseChanged 1 2 0), demo_event 14 3 (DeckObservation.PlaybackStateChanged 1 2 False)]"

definition demo_reload :: LocalPlaybackDeckSourceProvider where
  "demo_reload = \<lparr>lp_source_id = LOCAL_SOURCE_ID, lp_decks = [(1, fresh_local demo_track 2)],
     lp_leader_deck_id = Some 1, lp_next_track_load_id = 3, lp_sequence = 14, lp_pending_events = demo_relog\<rparr>"

lemmas demo_simps = demo_local_def demo_log_def demo_event_def demo_reload_def demo_relog_def demo_calls_def
  new_local_def emit_eq empty_local_def logged_def local_load_track_def validate_deck_def state_then_def ok_or_def
  checked_add_one emit_position_state_def local_set_leader_def update_transport_def emit_when_def btree_adjust_def Let_def
  phrase_of_beat_def fresh_local_def

lemma demo_beat: "min (3 :: u32) 64 = 3" "phrase_of_beat demo_track 3 = 0" "track_duration_beats demo_track = 64"
  by (simp_all add: phrase_of_beat_def demo_track_def min_def)

lemma demo_calls_ok: "list_all call_ok demo_calls" "sorted (0 # call_times demo_calls)" "sorted (0 # call_times demo_calls @ [3])"
  by (simp_all add: demo_calls_def demo_track_ok call_times_def)

lemma demo_run: "local_run [] (fst (new_local 0)) demo_calls = ([], demo_local)"
  by (simp add: demo_simps demo_beat [unfolded phrase_of_beat_def])

lemma demo_kept: "leader_kept (fst (new_local 0)) demo_calls"
  by (simp add: demo_simps)

lemma demo_load: "local_load_track 1 demo_track 3 demo_local = (demo_reload, Inr 2)"
  by (simp add: demo_simps)

lemma demo_observations: "list_all observation_of demo_log" "list_all observation_of demo_relog"
  by (simp_all add: demo_simps)

lemma filter_all: "list_all P xs \<Longrightarrow> filter P xs = xs"
  by (simp add: list_all_iff)

lemma demo_reduces: "\<exists>s. reduce_all default_state demo_log = Inr s" "\<exists>s. reduce_all default_state demo_relog = Inr s"
  by (rule reduce_all_idle; simp add: demo_observations idle_def default_state_def state_revision_initial_def
      demo_log_def demo_relog_def demo_event_def)+

theorem runtime_follows_local_decks_witness:
  "\<exists>s. reduce_all default_state demo_log = Inr s
     \<and> fst (runtime_view s) = local_decks demo_local \<and> st_leader_deck s = Some 1"
proof -
  obtain s where s: "reduce_all default_state demo_log = Inr s" using demo_reduces(1) by blast
  have "fst (runtime_view s) = local_decks demo_local
    \<and> (leader_kept (fst (new_local 0)) demo_calls \<longrightarrow> st_leader_deck s = lp_leader_deck_id demo_local)"
    by (rule runtime_follows_local_decks [OF demo_run demo_calls_ok(1,2) _ _ _ s])
       (simp_all add: demo_local_def filter_all demo_observations)
  then show ?thesis using s demo_kept by (auto simp: demo_local_def)
qed

theorem reload_loses_leader_witness:
  "\<exists>s. reduce_all default_state demo_relog = Inr s
     \<and> st_leader_deck s = None \<and> lp_leader_deck_id demo_reload = Some 1 \<and> st_decks s 1 \<noteq> None"
proof -
  obtain s where s: "reduce_all default_state demo_relog = Inr s" using demo_reduces(2) by blast
  have "st_leader_deck s = None \<and> lp_leader_deck_id demo_reload = Some 1 \<and> st_decks s 1 \<noteq> None"
    by (rule reload_loses_leader [OF demo_run demo_calls_ok(1,3) demo_kept _ demo_load demo_track_ok _ _ _ s])
       (simp_all add: demo_local_def demo_reload_def filter_all demo_observations)
  with s show ?thesis by blast
qed

end
