(* ===== verification/Simulator.thy ===== *)
theory Simulator
  imports Local_Playback
begin

text \<open>
  The deck source that simulates two players (\<open>lumi-simulator\<close>): the manual clock, the fixture it starts from,
  the decks with the leader that moves, and the transcript of its observations. Facts: the beats follow the clock
  without drift however the time is cut into updates, the decks stay within their tracks, the leader is always a
  deck, and the numbers of the observations ascend.
\<close>

section \<open>The clock (clock.rs)\<close>

text \<open>A manual clock is the number of its ticks, which its clones share.\<close>

definition clock_set :: "u64 \<Rightarrow> u64 \<Rightarrow> u64" where
  "clock_set ticks current = ticks"

definition clock_advance :: "u64 \<Rightarrow> u64 \<Rightarrow> u64 \<times> MonotonicTime option" where
  "clock_advance ticks current =
     (case checked_add current ticks of None \<Rightarrow> (current, None) | Some after \<Rightarrow> (after, checked_add current ticks))"

section \<open>State (provider.rs)\<close>

type_synonym u128 = "128 word"

definition BEAT_DENOMINATOR :: u128 where
  "BEAT_DENOMINATOR = 60000000"

datatype SimulationSpeed = SpeedOne | SpeedFour | SpeedSixteen | SpeedSixtyFour

fun multiplier :: "SimulationSpeed \<Rightarrow> u32" where
  "multiplier SpeedOne = 1"
| "multiplier SpeedFour = 4"
| "multiplier SpeedSixteen = 16"
| "multiplier SpeedSixtyFour = 64"

datatype SimulationControl = SimSetSpeed SimulationSpeed | SimPause | SimResume | SimReset | SimAdvanceLeader

record SimulatedDeck =
  sd_track_load_id :: TrackLoadId
  sd_metadata :: TrackMetadata
  sd_beat :: u32
  sd_phrase_index :: u16
  sd_playing :: bool

record SimulatorDeckSourceProvider =
  sm_clock :: u64
  sm_source_id :: SourceId
  sm_initial_leader_deck_id :: DeckId
  sm_leader_deck_id :: DeckId
  sm_decks :: "(DeckId \<times> SimulatedDeck) list"
  sm_sequence :: u64
  sm_last_clock :: MonotonicTime
  sm_beat_remainder :: u128
  sm_speed :: SimulationSpeed
  sm_paused :: bool
  sm_pending_events :: "DomainEvent list"

datatype SimulatorError =
    SmInvalidFixture
  | SmUnsupportedFixtureVersion u16
  | SmClockRegressed MonotonicTime MonotonicTime
  | SmBeatAccumulatorOverflow
  | SmSequenceOverflow
  | SmLeaderDeckMissing
  | SmNextDeckMissing
  | SmUnknownDeck DeckId
  | SmTrackLoadIdOverflow
  | SmTranscriptEncoding

type_synonym 'a sim_result = "SimulatorDeckSourceProvider \<times> (SimulatorError + 'a)"

record LeaderSnapshot =
  ls_track_load_id :: TrackLoadId
  ls_beat :: u32
  ls_phrase_index :: u16

section \<open>Observations\<close>

definition sim_emit :: "MonotonicTime \<Rightarrow> DeckObservation \<Rightarrow> SimulatorDeckSourceProvider \<Rightarrow> unit sim_result" where
  "sim_emit observed_at observation p =
     (case checked_add (sm_sequence p) 1 of
        None \<Rightarrow> (p, Inl SmSequenceOverflow)
      | Some s \<Rightarrow>
          (p\<lparr>sm_sequence := s,
             sm_pending_events := sm_pending_events p @
               [DomainEvent.Observation \<lparr>obs_source_id = sm_source_id p, obs_sequence = s, obs_observed_at = observed_at,
                  obs_observation = observation\<rparr>]\<rparr>, Inr ()))"

definition leader_snapshot :: "SimulatorDeckSourceProvider \<Rightarrow> SimulatorError + LeaderSnapshot" where
  "leader_snapshot p =
     ok_or (map_option (\<lambda>d. \<lparr>ls_track_load_id = sd_track_load_id d, ls_beat = sd_beat d, ls_phrase_index = sd_phrase_index d\<rparr>)
       (map_of (sm_decks p) (sm_leader_deck_id p))) SmLeaderDeckMissing"

definition set_leader_playing :: "bool \<Rightarrow> SimulatorDeckSourceProvider \<Rightarrow> unit sim_result" where
  "set_leader_playing playing p =
     (case map_of (sm_decks p) (sm_leader_deck_id p) of
        None \<Rightarrow> (p, Inl SmLeaderDeckMissing)
      | Some d \<Rightarrow>
          if sd_playing d = playing then (p, Inr ())
          else sim_emit (sm_clock p) (DeckObservation.PlaybackStateChanged (sm_leader_deck_id p) (sd_track_load_id d) playing)
                 (p\<lparr>sm_decks := btree_adjust (sm_leader_deck_id p) (\<lambda>d. d\<lparr>sd_playing := playing\<rparr>) (sm_decks p)\<rparr>))"

definition advance_one_beat :: "MonotonicTime \<Rightarrow> SimulatorDeckSourceProvider \<Rightarrow> bool sim_result" where
  "advance_one_beat now p =
     (case map_of (sm_decks p) (sm_leader_deck_id p) of
        None \<Rightarrow> (p, Inl SmLeaderDeckMissing)
      | Some d \<Rightarrow>
          if track_duration_beats (sd_metadata d) \<le> sd_beat d then (p, Inr False)
          else
            let beat = sd_beat d + 1;
                phrase_change = map_option phrase_index (find (\<lambda>x. phrase_start_beat x = beat) (track_phrases (sd_metadata d)));
                p = p\<lparr>sm_decks := btree_adjust (sm_leader_deck_id p) (\<lambda>d. d\<lparr>sd_beat := beat,
                        sd_phrase_index := (case phrase_change of None \<Rightarrow> sd_phrase_index d | Some i \<Rightarrow> i)\<rparr>) (sm_decks p)\<rparr>
            in state_then (sim_emit now (DeckObservation.PlaybackPosition (sm_leader_deck_id p) (sd_track_load_id d) beat) p) (\<lambda>p _.
               state_then
                 (case phrase_change of
                    None \<Rightarrow> (p, Inr ())
                  | Some i \<Rightarrow> sim_emit now (DeckObservation.PhraseChanged (sm_leader_deck_id p) (sd_track_load_id d) i) p) (\<lambda>p _.
               (p, Inr True))))"

text \<open>The loop over the whole beats; at the end of the track the source pauses.\<close>

fun advance_beats :: "MonotonicTime \<Rightarrow> nat \<Rightarrow> SimulatorDeckSourceProvider \<Rightarrow> unit sim_result" where
  "advance_beats now 0 p = (p, Inr ())"
| "advance_beats now (Suc n) p =
     state_then (advance_one_beat now p) (\<lambda>p going.
       if going then advance_beats now n p else set_leader_playing False (p\<lparr>sm_paused := True\<rparr>))"

definition checked_mul :: "'a::len word \<Rightarrow> 'a word \<Rightarrow> 'a word option" where
  "checked_mul a b = (if unat a * unat b < 2 ^ LENGTH('a) then Some (a * b) else None)"

definition beat_increment :: "u64 \<Rightarrow> u32 \<Rightarrow> SimulationSpeed \<Rightarrow> u128 option" where
  "beat_increment elapsed bpm speed =
     Option.bind (checked_mul (ucast elapsed) (ucast bpm)) (\<lambda>value. checked_mul value (ucast (multiplier speed)))"

definition update_to_clock :: "SimulatorDeckSourceProvider \<Rightarrow> unit sim_result" where
  "update_to_clock p =
     (let now = sm_clock p in
      if now < sm_last_clock p then (p, Inl (SmClockRegressed (sm_last_clock p) now))
      else
        let elapsed = now - sm_last_clock p; p = p\<lparr>sm_last_clock := now\<rparr> in
        if sm_paused p \<or> elapsed = 0 then (p, Inr ())
        else
          (case map_of (sm_decks p) (sm_leader_deck_id p) of
             None \<Rightarrow> (p, Inl SmLeaderDeckMissing)
           | Some leader \<Rightarrow>
               state_then (p, ok_or (beat_increment elapsed (track_bpm_milli (sd_metadata leader)) (sm_speed p))
                 SmBeatAccumulatorOverflow) (\<lambda>p increment.
               state_then (p, ok_or (checked_add (sm_beat_remainder p) increment) SmBeatAccumulatorOverflow) (\<lambda>p accumulator.
               let whole_beats = accumulator div BEAT_DENOMINATOR;
                   p = p\<lparr>sm_beat_remainder := accumulator mod BEAT_DENOMINATOR\<rparr>
               in if 2 ^ 32 \<le> unat whole_beats then (p, Inl SmBeatAccumulatorOverflow)
                  else advance_beats now (unat whole_beats) p))))"

section \<open>Initial events, reset and leader\<close>

fun emit_loads :: "MonotonicTime \<Rightarrow> (DeckId \<times> SimulatedDeck) list \<Rightarrow> SimulatorDeckSourceProvider \<Rightarrow> unit sim_result" where
  "emit_loads now [] p = (p, Inr ())"
| "emit_loads now ((deck, d) # rest) p =
     state_then (sim_emit now (DeckObservation.TrackLoaded deck (sd_metadata d) (sd_track_load_id d)) p)
       (\<lambda>p _. emit_loads now rest p)"

definition queue_initial_events :: "SimulatorDeckSourceProvider \<Rightarrow> unit sim_result" where
  "queue_initial_events p =
     (let now = sm_clock p in
      state_then (sim_emit now (DeckObservation.SourceStatusChanged DeckSourceStatus.Ready) p) (\<lambda>p _.
      state_then (emit_loads now (sm_decks p) p) (\<lambda>p _.
      state_then (p, leader_snapshot p) (\<lambda>p leader.
      state_then (sim_emit now (DeckObservation.LeaderChanged (sm_leader_deck_id p) (ls_track_load_id leader)) p) (\<lambda>p _.
      state_then (sim_emit now (DeckObservation.PlaybackPosition (sm_leader_deck_id p) (ls_track_load_id leader) (ls_beat leader)) p) (\<lambda>p _.
      state_then (sim_emit now (DeckObservation.PhraseChanged (sm_leader_deck_id p) (ls_track_load_id leader) (ls_phrase_index leader)) p) (\<lambda>p _.
      sim_emit now (DeckObservation.PlaybackStateChanged (sm_leader_deck_id p) (ls_track_load_id leader) True) p)))))))"

definition sim_reset :: "SimulatorDeckSourceProvider \<Rightarrow> unit sim_result" where
  "sim_reset p = queue_initial_events
     (p\<lparr>sm_pending_events := [], sm_leader_deck_id := sm_initial_leader_deck_id p, sm_speed := SpeedOne, sm_beat_remainder := 0,
        sm_last_clock := sm_clock p,
        sm_decks := btree_adjust (sm_initial_leader_deck_id p) (\<lambda>d. d\<lparr>sd_playing := True\<rparr>)
          (btree_values (\<lambda>d. d\<lparr>sd_beat := 0, sd_phrase_index := 0, sd_playing := False\<rparr>) (sm_decks p)),
        sm_paused := False\<rparr>)"

definition sim_advance_leader :: "SimulatorDeckSourceProvider \<Rightarrow> unit sim_result" where
  "sim_advance_leader p =
     state_then (set_leader_playing False p) (\<lambda>p _.
       case find (\<lambda>deck. deck \<noteq> sm_leader_deck_id p) (map fst (sm_decks p)) of
         None \<Rightarrow> (p, Inl SmNextDeckMissing)
       | Some following \<Rightarrow>
           let p = p\<lparr>sm_leader_deck_id := following, sm_beat_remainder := 0\<rparr>; now = sm_clock p in
           state_then (p, leader_snapshot p) (\<lambda>p leader.
           state_then (if sm_paused p then (p, Inr ()) else set_leader_playing True p) (\<lambda>p _.
           state_then (sim_emit now (DeckObservation.LeaderChanged following (ls_track_load_id leader)) p) (\<lambda>p _.
           state_then (sim_emit now (DeckObservation.PlaybackPosition following (ls_track_load_id leader) (ls_beat leader)) p) (\<lambda>p _.
           sim_emit now (DeckObservation.PhraseChanged following (ls_track_load_id leader) (ls_phrase_index leader)) p)))))"

fun apply_control :: "SimulationControl \<Rightarrow> SimulatorDeckSourceProvider \<Rightarrow> unit sim_result" where
  "apply_control (SimSetSpeed speed) p = state_then (update_to_clock p) (\<lambda>p _. (p\<lparr>sm_speed := speed\<rparr>, Inr ()))"
| "apply_control SimPause p = state_then (update_to_clock p) (\<lambda>p _. set_leader_playing False (p\<lparr>sm_paused := True\<rparr>))"
| "apply_control SimResume p = set_leader_playing True (p\<lparr>sm_last_clock := sm_clock p, sm_paused := False\<rparr>)"
| "apply_control SimReset p = sim_reset p"
| "apply_control SimAdvanceLeader p = state_then (update_to_clock p) (\<lambda>p _. sim_advance_leader p)"

definition fresh_simulated :: "TrackMetadata \<Rightarrow> TrackLoadId \<Rightarrow> SimulatedDeck" where
  "fresh_simulated metadata load = \<lparr>sd_track_load_id = load, sd_metadata = metadata, sd_beat = 0, sd_phrase_index = 0, sd_playing = False\<rparr>"

definition greatest_load :: "(DeckId \<times> SimulatedDeck) list \<Rightarrow> u64" where
  "greatest_load decks = fold max (map (\<lambda>(deck, d). sd_track_load_id d) decks) 0"

definition sim_load_track :: "DeckId \<Rightarrow> TrackMetadata \<Rightarrow> SimulatorDeckSourceProvider \<Rightarrow> TrackLoadId sim_result" where
  "sim_load_track deck metadata p =
     state_then (update_to_clock p) (\<lambda>p _.
       if map_of (sm_decks p) deck = None then (p, Inl (SmUnknownDeck deck))
       else
         state_then (p, ok_or (checked_add (greatest_load (sm_decks p)) 1) SmTrackLoadIdOverflow) (\<lambda>p load.
         let p = p\<lparr>sm_decks := btree_insert deck (fresh_simulated metadata load) (sm_decks p)\<rparr>;
             p = (if deck = sm_leader_deck_id p then p\<lparr>sm_beat_remainder := 0\<rparr> else p);
             now = sm_clock p in
         state_then (sim_emit now (DeckObservation.TrackLoaded deck metadata load) p) (\<lambda>p _.
         if deck = sm_leader_deck_id p
         then state_then (sim_emit now (DeckObservation.PlaybackPosition deck load 0) p) (\<lambda>p _.
              state_then (sim_emit now (DeckObservation.PhraseChanged deck load 0) p) (\<lambda>p _. (p, Inr load)))
         else (p, Inr load))))"

definition sim_drain_events :: "SimulatorDeckSourceProvider \<Rightarrow> SimulatorDeckSourceProvider \<times> DomainEvent list" where
  "sim_drain_events p = (p\<lparr>sm_pending_events := []\<rparr>, sm_pending_events p)"

record SimulatorDeckSnapshot =
  sn_deck_id :: u8
  sn_track_load_id :: u64
  sn_track_id :: u64
  sn_beat :: u32
  sn_phrase_index :: u16

record SimulatorCanonicalSnapshot =
  sc_provider_kind :: string
  sc_speed :: u32
  sc_paused :: bool
  sc_leader_deck_id :: u8
  sc_decks :: "SimulatorDeckSnapshot list"

definition canonical_snapshot :: "SimulatorDeckSourceProvider \<Rightarrow> SimulatorCanonicalSnapshot" where
  "canonical_snapshot p = \<lparr>sc_provider_kind = ''simulator'', sc_speed = multiplier (sm_speed p), sc_paused = sm_paused p, sc_leader_deck_id = sm_leader_deck_id p,
     sc_decks = map (\<lambda>(deck, d). \<lparr>sn_deck_id = deck, sn_track_load_id = sd_track_load_id d, sn_track_id = track_id (sd_metadata d),
       sn_beat = sd_beat d, sn_phrase_index = sd_phrase_index d\<rparr>) (sm_decks p)\<rparr>"


section \<open>The fixture (fixture.rs)\<close>

record KeyFixture =
  kf_pitch_class :: string
  kf_mode :: string

record PhraseFixture =
  pf_index :: u16
  pf_start_beat :: u32
  pf_end_beat :: u32
  pf_kind :: string

record TrackFixture =
  tf_id :: u64
  tf_title :: string
  tf_artist :: string
  tf_bpm_milli :: u32
  tf_key :: KeyFixture
  tf_color_rgb :: u32
  tf_duration_beats :: u32
  tf_phrases :: "PhraseFixture list"

record DeckFixture =
  df_deck_id :: u8
  df_track_load_id :: u64
  df_track :: TrackFixture

record DemoFixture =
  fx_schema_version :: u16
  fx_source_id :: u64
  fx_initial_leader_deck_id :: u8
  fx_decks :: "DeckFixture list"

record ParsedDeck =
  pd_deck_id :: DeckId
  pd_track_load_id :: TrackLoadId
  pd_metadata :: TrackMetadata

record ParsedFixture =
  px_source_id :: SourceId
  px_initial_leader_deck_id :: DeckId
  px_decks :: "ParsedDeck list"

definition fixture_pitch_class :: "string \<Rightarrow> SimulatorError + PitchClass" where
  "fixture_pitch_class v =
     (if v = ''c'' then Inr PitchC else if v = ''cSharp'' then Inr PitchCSharp
      else if v = ''d'' then Inr PitchD else if v = ''dSharp'' then Inr PitchDSharp
      else if v = ''e'' then Inr PitchE else if v = ''f'' then Inr PitchF
      else if v = ''fSharp'' then Inr PitchFSharp else if v = ''g'' then Inr PitchG
      else if v = ''gSharp'' then Inr PitchGSharp else if v = ''a'' then Inr PitchA
      else if v = ''aSharp'' then Inr PitchASharp else if v = ''b'' then Inr PitchB
      else Inl SmInvalidFixture)"

definition fixture_key_mode :: "string \<Rightarrow> SimulatorError + KeyMode" where
  "fixture_key_mode v =
     (if v = ''major'' then Inr Major else if v = ''minor'' then Inr Minor else Inl SmInvalidFixture)"

definition fixture_phrase_kind :: "string \<Rightarrow> SimulatorError + PhraseKind" where
  "fixture_phrase_kind v =
     (if v = ''intro'' then Inr PhraseKind.Intro else if v = ''verse'' then Inr PhraseKind.Verse else if v = ''build'' then Inr PhraseKind.Build
      else if v = ''drop'' then Inr PhraseKind.Drop else if v = ''breakdown'' then Inr Breakdown
      else if v = ''outro'' then Inr PhraseKind.Outro else Inl SmInvalidFixture)"

fun parse_phrases :: "PhraseFixture list \<Rightarrow> SimulatorError + TrackPhrase list" where
  "parse_phrases [] = Inr []"
| "parse_phrases (x # xs) =
     and_then (fixture_phrase_kind (pf_kind x)) (\<lambda>kind. and_then (parse_phrases xs) (\<lambda>rest.
       Inr (\<lparr>phrase_index = pf_index x, phrase_start_beat = pf_start_beat x, phrase_end_beat = pf_end_beat x, phrase_kind = kind\<rparr> # rest)))"

definition parse_track :: "TrackFixture \<Rightarrow> SimulatorError + TrackMetadata" where
  "parse_track t =
     and_then (parse_phrases (tf_phrases t)) (\<lambda>phrases.
       if tf_color_rgb t > 0xFFFFFF then Inl SmInvalidFixture
       else
         and_then (fixture_pitch_class (kf_pitch_class (tf_key t))) (\<lambda>pitch.
         and_then (fixture_key_mode (kf_mode (tf_key t))) (\<lambda>mode.
         map_err (\<lambda>_. SmInvalidFixture)
           (try_new_with_color (tf_id t) (tf_title t) (tf_artist t) (tf_bpm_milli t) \<lparr>key_pitch_class = pitch, key_mode = mode\<rparr>
              (Some (from_rgb_u32 (tf_color_rgb t))) (tf_duration_beats t) phrases))))"

fun parse_decks :: "DeckFixture list \<Rightarrow> SimulatorError + ParsedDeck list" where
  "parse_decks [] = Inr []"
| "parse_decks (x # xs) =
     and_then (parse_track (df_track x)) (\<lambda>metadata. and_then (parse_decks xs) (\<lambda>rest.
       Inr (\<lparr>pd_deck_id = df_deck_id x, pd_track_load_id = df_track_load_id x, pd_metadata = metadata\<rparr> # rest)))"

text \<open>\<open>json\<close> is the fixture that \<open>serde_json\<close> reads from the text, if it reads one.\<close>

definition parse_fixture :: "DemoFixture option \<Rightarrow> SimulatorError + ParsedFixture" where
  "parse_fixture json =
     (case json of
        None \<Rightarrow> Inl SmInvalidFixture
      | Some fixture \<Rightarrow>
          if fx_schema_version fixture \<noteq> 1 then Inl (SmUnsupportedFixtureVersion (fx_schema_version fixture))
          else if length (fx_decks fixture) \<noteq> 2 then Inl SmInvalidFixture
          else and_then (parse_decks (fx_decks fixture)) (\<lambda>decks.
            if \<not> list_ex (\<lambda>d. pd_deck_id d = fx_initial_leader_deck_id fixture) decks then Inl SmInvalidFixture
            else Inr \<lparr>px_source_id = fx_source_id fixture, px_initial_leader_deck_id = fx_initial_leader_deck_id fixture,
                      px_decks = decks\<rparr>))"

text \<open>\<open>collect\<close> into the map of the decks, then the leader plays.\<close>

definition fixture_decks :: "ParsedFixture \<Rightarrow> (DeckId \<times> SimulatedDeck) list" where
  "fixture_decks x = btree_adjust (px_initial_leader_deck_id x) (\<lambda>d. d\<lparr>sd_playing := True\<rparr>)
     (fold (\<lambda>d. btree_insert (pd_deck_id d) (fresh_simulated (pd_metadata d) (pd_track_load_id d))) (px_decks x) [])"

definition from_fixture_json :: "DemoFixture option \<Rightarrow> u64 \<Rightarrow> SimulatorError + SimulatorDeckSourceProvider" where
  "from_fixture_json json clock =
     and_then (parse_fixture json) (\<lambda>fixture.
       let r = queue_initial_events
         \<lparr>sm_clock = clock, sm_source_id = px_source_id fixture, sm_initial_leader_deck_id = px_initial_leader_deck_id fixture,
          sm_leader_deck_id = px_initial_leader_deck_id fixture, sm_decks = fixture_decks fixture, sm_sequence = 0,
          sm_last_clock = clock, sm_beat_remainder = 0, sm_speed = SpeedOne, sm_paused = False, sm_pending_events = []\<rparr>
       in and_then (snd r) (\<lambda>_. Inr (fst r)))"

section \<open>The transcript (transcript.rs)\<close>

record RecordedPhrase =
  rp_index :: u16
  rp_start_beat :: u32
  rp_end_beat :: u32
  rp_kind :: string

record RecordedTrack =
  rt_id :: u64
  rt_title :: string
  rt_artist :: string
  rt_bpm_milli :: u32
  rt_pitch_class :: string
  rt_key_mode :: string
  rt_color_rgb :: "u32 option"
  rt_duration_beats :: u32
  rt_phrases :: "RecordedPhrase list"

record RecordedEvent =
  re_sequence :: u64
  re_monotonic_ticks :: u64
  re_source_id :: u64
  re_kind :: string
  re_status :: "string option"
  re_deck_id :: "u8 option"
  re_track_load_id :: "u64 option"
  re_track :: "RecordedTrack option"
  re_beat :: "u32 option"
  re_bpm_milli :: "u32 option"
  re_playing :: "bool option"
  re_phrase_index :: "u16 option"

fun pitch_class_name :: "PitchClass \<Rightarrow> string" where
  "pitch_class_name PitchC = ''c''"
| "pitch_class_name PitchCSharp = ''cSharp''"
| "pitch_class_name PitchD = ''d''"
| "pitch_class_name PitchDSharp = ''dSharp''"
| "pitch_class_name PitchE = ''e''"
| "pitch_class_name PitchF = ''f''"
| "pitch_class_name PitchFSharp = ''fSharp''"
| "pitch_class_name PitchG = ''g''"
| "pitch_class_name PitchGSharp = ''gSharp''"
| "pitch_class_name PitchA = ''a''"
| "pitch_class_name PitchASharp = ''aSharp''"
| "pitch_class_name PitchB = ''b''"

fun key_mode_name :: "KeyMode \<Rightarrow> string" where
  "key_mode_name Major = ''major''"
| "key_mode_name Minor = ''minor''"

fun phrase_kind_name :: "PhraseKind \<Rightarrow> string" where
  "phrase_kind_name PhraseKind.Intro = ''intro''"
| "phrase_kind_name PhraseKind.Verse = ''verse''"
| "phrase_kind_name PhraseKind.Build = ''build''"
| "phrase_kind_name PhraseKind.Drop = ''drop''"
| "phrase_kind_name PhraseKind.Breakdown = ''breakdown''"
| "phrase_kind_name PhraseKind.Outro = ''outro''"

fun source_status_name :: "DeckSourceStatus \<Rightarrow> string" where
  "source_status_name DeckSourceStatus.Starting = ''starting''"
| "source_status_name DeckSourceStatus.Ready = ''ready''"
| "source_status_name DeckSourceStatus.Degraded = ''degraded''"
| "source_status_name DeckSourceStatus.Disconnected = ''disconnected''"

fun observation_kind :: "DeckObservation \<Rightarrow> string" where
  "observation_kind (DeckObservation.SourceStatusChanged _) = ''sourceStatusChanged''"
| "observation_kind (DeckObservation.TrackLoaded _ _ _) = ''trackLoaded''"
| "observation_kind (DeckObservation.TrackMetadataHydrated _ _ _) = ''trackMetadataHydrated''"
| "observation_kind (DeckObservation.PlaybackPosition _ _ _) = ''playbackPosition''"
| "observation_kind (DeckObservation.PlaybackPositionSeeked _ _ _) = ''playbackPositionSeeked''"
| "observation_kind (DeckObservation.PlaybackTempoChanged _ _ _) = ''playbackTempoChanged''"
| "observation_kind (DeckObservation.PlaybackStateChanged _ _ _) = ''playbackStateChanged''"
| "observation_kind (DeckObservation.TrackUnloaded _ _) = ''trackUnloaded''"
| "observation_kind (DeckObservation.PhraseChanged _ _ _) = ''phraseChanged''"
| "observation_kind (DeckObservation.LeaderChanged _ _) = ''leaderChanged''"

definition record_track :: "TrackMetadata \<Rightarrow> RecordedTrack" where
  "record_track m = \<lparr>rt_id = track_id m, rt_title = track_title m, rt_artist = track_artist m, rt_bpm_milli = track_bpm_milli m,
     rt_pitch_class = pitch_class_name (key_pitch_class (track_musical_key m)),
     rt_key_mode = key_mode_name (key_mode (track_musical_key m)), rt_color_rgb = map_option rgb_u32 (track_color m),
     rt_duration_beats = track_duration_beats m,
     rt_phrases = map (\<lambda>x. \<lparr>rp_index = phrase_index x, rp_start_beat = phrase_start_beat x, rp_end_beat = phrase_end_beat x,
       rp_kind = phrase_kind_name (phrase_kind x)\<rparr>) (track_phrases m)\<rparr>"

definition blank_record :: "ObservationEnvelope \<Rightarrow> RecordedEvent" where
  "blank_record e = \<lparr>re_sequence = obs_sequence e, re_monotonic_ticks = obs_observed_at e, re_source_id = obs_source_id e,
     re_kind = observation_kind (obs_observation e), re_status = None, re_deck_id = None, re_track_load_id = None, re_track = None,
     re_beat = None, re_bpm_milli = None, re_playing = None, re_phrase_index = None\<rparr>"

definition record_event :: "ObservationEnvelope \<Rightarrow> RecordedEvent" where
  "record_event e =
     (let r = blank_record e; on = (\<lambda>deck load. r\<lparr>re_deck_id := Some deck, re_track_load_id := Some load\<rparr>) in
      case obs_observation e of
        DeckObservation.SourceStatusChanged status \<Rightarrow> r\<lparr>re_status := Some (source_status_name status)\<rparr>
      | DeckObservation.TrackLoaded deck metadata load \<Rightarrow> (on deck load)\<lparr>re_track := Some (record_track metadata)\<rparr>
      | DeckObservation.TrackMetadataHydrated deck metadata load \<Rightarrow> (on deck load)\<lparr>re_track := Some (record_track metadata)\<rparr>
      | DeckObservation.PlaybackPosition deck load beat \<Rightarrow> (on deck load)\<lparr>re_beat := Some beat\<rparr>
      | DeckObservation.PlaybackPositionSeeked deck load beat \<Rightarrow> (on deck load)\<lparr>re_beat := Some beat\<rparr>
      | DeckObservation.PlaybackTempoChanged deck load bpm \<Rightarrow> (on deck load)\<lparr>re_bpm_milli := Some bpm\<rparr>
      | DeckObservation.PlaybackStateChanged deck load playing \<Rightarrow> (on deck load)\<lparr>re_playing := Some playing\<rparr>
      | DeckObservation.TrackUnloaded deck load \<Rightarrow> on deck load
      | DeckObservation.LeaderChanged deck load \<Rightarrow> on deck load
      | DeckObservation.PhraseChanged deck load idx \<Rightarrow> (on deck load)\<lparr>re_phrase_index := Some idx\<rparr>)"

text \<open>\<open>to_string\<close> is the JSON text of a recorded event, if it can be written; the lines are joined and end with a line feed.\<close>

fun record_events :: "(RecordedEvent \<Rightarrow> string option) \<Rightarrow> DomainEvent list \<Rightarrow> SimulatorError + string list" where
  "record_events to_string [] = Inr []"
| "record_events to_string (DomainEvent.Observation e # evs) =
     and_then (ok_or (to_string (record_event e)) SmTranscriptEncoding) (\<lambda>line. and_then (record_events to_string evs) (\<lambda>rest. Inr (line # rest)))"
| "record_events to_string (_ # evs) = record_events to_string evs"

fun join_lines :: "string list \<Rightarrow> string" where
  "join_lines [] = []"
| "join_lines [l] = l"
| "join_lines (l # ls) = l @ [char_of (10 :: nat)] @ join_lines ls"

definition canonical_transcript :: "(RecordedEvent \<Rightarrow> string option) \<Rightarrow> DomainEvent list \<Rightarrow> SimulatorError + string" where
  "canonical_transcript to_string events =
     and_then (record_events to_string events) (\<lambda>lines. Inr (join_lines lines @ [char_of (10 :: nat)]))"


section \<open>The beats follow the clock\<close>

text \<open>What does not change when observations are made.\<close>

definition steady :: "SimulatorDeckSourceProvider \<Rightarrow> SimulatorDeckSourceProvider \<Rightarrow> bool" where
  "steady p q \<longleftrightarrow> sm_clock q = sm_clock p \<and> sm_leader_deck_id q = sm_leader_deck_id p \<and> sm_beat_remainder q = sm_beat_remainder p
     \<and> sm_speed q = sm_speed p \<and> sm_last_clock q = sm_last_clock p"

lemma sim_emit_fields [simp]:
  "sm_decks (fst (sim_emit t obs s)) = sm_decks s" "sm_paused (fst (sim_emit t obs s)) = sm_paused s"
  "sm_leader_deck_id (fst (sim_emit t obs s)) = sm_leader_deck_id s" "sm_clock (fst (sim_emit t obs s)) = sm_clock s"
  "sm_beat_remainder (fst (sim_emit t obs s)) = sm_beat_remainder s" "sm_speed (fst (sim_emit t obs s)) = sm_speed s"
  "sm_last_clock (fst (sim_emit t obs s)) = sm_last_clock s"
  "sm_initial_leader_deck_id (fst (sim_emit t obs s)) = sm_initial_leader_deck_id s"
  by (simp_all add: sim_emit_def split: option.split)

definition stepped :: "SimulatorDeckSourceProvider \<Rightarrow> (DeckId \<times> SimulatedDeck) list \<Rightarrow> SimulatorDeckSourceProvider \<Rightarrow> bool" where
  "stepped p decks q \<longleftrightarrow> steady p q \<and> sm_paused q = sm_paused p \<and> sm_decks q = decks"

lemma stepped_emit [simp]: "stepped p decks (fst (sim_emit t obs s)) = stepped p decks s"
  by (simp add: stepped_def steady_def)

lemma beat_step:
  assumes "advance_one_beat now p = (q, Inr going)" "map_of (sm_decks p) (sm_leader_deck_id p) = Some d"
  shows "if track_duration_beats (sd_metadata d) \<le> sd_beat d then q = p \<and> \<not> going
    else going \<and> steady p q \<and> sm_paused q = sm_paused p
      \<and> (\<exists>i. map_of (sm_decks q) (sm_leader_deck_id p) = Some (d\<lparr>sd_beat := sd_beat d + 1, sd_phrase_index := i\<rparr>))"
proof (cases "track_duration_beats (sd_metadata d) \<le> sd_beat d")
  case True
  with assms show ?thesis by (simp add: advance_one_beat_def)
next
  case False
  obtain change where change:
    "map_option phrase_index (find (\<lambda>x. phrase_start_beat x = sd_beat d + 1) (track_phrases (sd_metadata d))) = change" by blast
  let ?decks = "btree_adjust (sm_leader_deck_id p) (\<lambda>e. e\<lparr>sd_beat := sd_beat d + 1,
    sd_phrase_index := (case change of None \<Rightarrow> sd_phrase_index e | Some i \<Rightarrow> i)\<rparr>) (sm_decks p)"
  have start: "stepped p ?decks (p\<lparr>sm_decks := ?decks\<rparr>)" by (simp add: stepped_def steady_def)
  have "stepped p ?decks (fst (advance_one_beat now p))"
    using False start unfolding advance_one_beat_def Let_def assms(2) option.case change
    by (auto intro!: state_then_keeps [where P = "stepped p ?decks"] split: option.split)
  then have "stepped p ?decks q" using assms(1) by simp
  moreover have going using assms False unfolding advance_one_beat_def Let_def
    by (auto simp: state_then_def split: prod.splits sum.splits)
  ultimately show ?thesis using False assms(2) by (auto simp: stepped_def btree_lookup)
qed

lemma playing_step:
  assumes "set_leader_playing on p = (q, r)" "map_of (sm_decks p) (sm_leader_deck_id p) = Some d"
  shows "steady p q \<and> sm_paused q = sm_paused p \<and> map_of (sm_decks q) (sm_leader_deck_id p) = Some (d\<lparr>sd_playing := on\<rparr>)"
proof -
  have "stepped p (btree_adjust (sm_leader_deck_id p) (\<lambda>d. d\<lparr>sd_playing := on\<rparr>) (sm_decks p)) q \<or> sd_playing d = on \<and> q = p"
    using assms stepped_emit [of p _ "sm_clock p"]
    by (auto simp: set_leader_playing_def stepped_def steady_def split: if_splits dest!: arg_cong [of _ _ fst])
  then show ?thesis using assms(2) by (cases d) (auto simp: stepped_def steady_def btree_lookup)
qed

text \<open>The leader after a number of beats: it stops at the end of its track, where the source pauses.\<close>

lemma beats_advance:
  "advance_beats now n p = (q, Inr ()) \<Longrightarrow> map_of (sm_decks p) (sm_leader_deck_id p) = Some d \<Longrightarrow>
   sd_beat d \<le> track_duration_beats (sd_metadata d) \<Longrightarrow>
   steady p q \<and> sm_paused q = (sm_paused p \<or> unat (track_duration_beats (sd_metadata d)) < unat (sd_beat d) + n)
   \<and> (\<exists>e. map_of (sm_decks q) (sm_leader_deck_id p) = Some e \<and> sd_metadata e = sd_metadata d \<and> sd_track_load_id e = sd_track_load_id d \<and> (sd_playing e \<longrightarrow> sd_playing d)
        \<and> unat (sd_beat e) = min (unat (sd_beat d) + n) (unat (track_duration_beats (sd_metadata d))))"
proof (induction now n p arbitrary: d rule: advance_beats.induct)
  case (1 now p)
  then show ?case by (auto simp: steady_def word_le_nat_alt)
next
  case (2 now n p)
  let ?D = "track_duration_beats (sd_metadata d)"
  from 2(2) obtain r going where one: "advance_one_beat now p = (r, Inr going)"
    and rest: "(if going then advance_beats now n r else set_leader_playing False (r\<lparr>sm_paused := True\<rparr>)) = (q, Inr ())"
    by (auto dest!: state_then_Inr)
  note step = beat_step [OF one 2(3)]
  show ?case
  proof (cases "?D \<le> sd_beat d")
    case True
    with step 2(4) have "r = p" "\<not> going" "sd_beat d = ?D" by auto
    then show ?thesis using playing_step [of False "p\<lparr>sm_paused := True\<rparr>" q "Inr ()" d] rest 2(3)
      by (auto simp: steady_def)
  next
    case False
    with step obtain i where r: "steady p r" "sm_paused r = sm_paused p" "going"
      and m: "map_of (sm_decks r) (sm_leader_deck_id p) = Some (d\<lparr>sd_beat := sd_beat d + 1, sd_phrase_index := i\<rparr>)" by auto
    have lt: "unat (sd_beat d) < unat ?D" using False by (simp add: word_le_nat_alt)
    have succ: "unat (sd_beat d + 1) = unat (sd_beat d) + 1"
      using lt unsigned_less [of ?D, where ?'a = nat] by (simp add: unat_add_exact)
    have lead: "sm_leader_deck_id r = sm_leader_deck_id p" using r(1) by (simp add: steady_def)
    let ?e = "d\<lparr>sd_beat := sd_beat d + 1, sd_phrase_index := i\<rparr>"
    have le: "sd_beat ?e \<le> track_duration_beats (sd_metadata ?e)" using lt succ by (simp add: word_le_nat_alt)
    from 2(1) [OF r(3), of r ?e] rest r m lead le succ
    show ?thesis by (auto simp: steady_def)
  qed
qed


lemma unat_widen [simp]:
  "unat (ucast (x :: u64) :: u128) = unat x" "unat (ucast (y :: u32) :: u128) = unat y"
  by (simp_all add: unsigned_ucast_eq take_bit_nat_eq_self order.strict_trans [OF unsigned_less])

lemma checked_mul_SomeD: "checked_mul a b = Some c \<Longrightarrow> unat c = unat a * unat b"
  by (auto simp: checked_mul_def unat_mult_lem split: if_splits)

lemma increment_exact: "beat_increment e b speed = Some x \<Longrightarrow> unat x = unat e * unat b * unat (multiplier speed)"
  by (auto simp: beat_increment_def bind_eq_Some_conv dest!: checked_mul_SomeD)

lemma denominator: "unat BEAT_DENOMINATOR = 60000000"
  by (simp add: BEAT_DENOMINATOR_def)

text \<open>The beats that the elapsed time and the remainder before it are worth.\<close>

definition accumulated :: "SimulatorDeckSourceProvider \<Rightarrow> SimulatedDeck \<Rightarrow> nat \<Rightarrow> nat" where
  "accumulated p d elapsed =
     unat (sm_beat_remainder p) + elapsed * unat (track_bpm_milli (sd_metadata d)) * unat (multiplier (sm_speed p))"

definition leads :: "SimulatorDeckSourceProvider \<Rightarrow> SimulatedDeck \<Rightarrow> bool" where
  "leads p d \<longleftrightarrow> map_of (sm_decks p) (sm_leader_deck_id p) = Some d \<and> sd_beat d \<le> track_duration_beats (sd_metadata d)
     \<and> unat (sm_beat_remainder p) < 60000000"

lemma update_exact:
  assumes "update_to_clock p = (q, Inr ())" "leads p d" "\<not> sm_paused p"
  shows "sm_last_clock p \<le> sm_clock p \<and> sm_last_clock q = sm_clock p \<and> sm_clock q = sm_clock p \<and> sm_speed q = sm_speed p
    \<and> sm_leader_deck_id q = sm_leader_deck_id p
    \<and> (let total = accumulated p d (unat (sm_clock p) - unat (sm_last_clock p)); beat = unat (sd_beat d) + total div 60000000 in
       unat (sm_beat_remainder q) = total mod 60000000
       \<and> sm_paused q = (unat (track_duration_beats (sd_metadata d)) < beat)
       \<and> (\<exists>e. leads q e \<and> sd_metadata e = sd_metadata d \<and> sd_track_load_id e = sd_track_load_id d \<and> (sd_playing e \<longrightarrow> sd_playing d)
            \<and> unat (sd_beat e) = min beat (unat (track_duration_beats (sd_metadata d)))))"
proof -
  let ?elapsed = "sm_clock p - sm_last_clock p" let ?D = "track_duration_beats (sd_metadata d)"
  have clock: "sm_last_clock p \<le> sm_clock p" using assms(1) by (auto simp: update_to_clock_def Let_def not_less split: if_splits)
  then have el: "unat ?elapsed = unat (sm_clock p) - unat (sm_last_clock p)" by (rule unat_sub)
  have lead: "map_of (sm_decks p) (sm_leader_deck_id p) = Some d" "unat (sd_beat d) \<le> unat ?D" "unat (sm_beat_remainder p) < 60000000"
    using assms(2) by (simp_all add: leads_def word_le_nat_alt)
  show ?thesis
  proof (cases "?elapsed = 0")
    case True
    then have "sm_clock p = sm_last_clock p" by simp
    moreover have "q = p\<lparr>sm_last_clock := sm_clock p\<rparr>"
      using assms(1) True clock by (simp add: update_to_clock_def Let_def split: if_splits)
    ultimately show ?thesis using lead assms(2,3) by (auto simp: accumulated_def leads_def Let_def)
  next
    case False
    let ?p = "p\<lparr>sm_last_clock := sm_clock p\<rparr>"
    from assms(1,3) False clock lead(1) obtain x y where
      x: "beat_increment ?elapsed (track_bpm_milli (sd_metadata d)) (sm_speed p) = Some x"
      and y: "checked_add (sm_beat_remainder p) x = Some y"
      and run: "advance_beats (sm_clock p) (unat (y div BEAT_DENOMINATOR)) (?p\<lparr>sm_beat_remainder := y mod BEAT_DENOMINATOR\<rparr>) = (q, Inr ())"
      by (auto simp: update_to_clock_def Let_def not_less state_then_def ok_or_def split: if_splits option.splits)
    have total: "unat y = accumulated p d (unat (sm_clock p) - unat (sm_last_clock p))"
      using checked_add_SomeD [OF y] increment_exact [OF x] el by (simp add: accumulated_def)
    have parts: "unat (y div BEAT_DENOMINATOR) = unat y div 60000000" "unat (y mod BEAT_DENOMINATOR) = unat y mod 60000000"
      by (simp_all add: unat_div_distrib unat_mod_distrib denominator)
    have "sd_beat d \<le> ?D" using lead(2) by (simp add: word_le_nat_alt)
    from beats_advance [OF run _ this] lead(1) obtain e where
      st: "steady (?p\<lparr>sm_beat_remainder := y mod BEAT_DENOMINATOR\<rparr>) q"
      and pa: "sm_paused q = (unat ?D < unat (sd_beat d) + unat y div 60000000)"
      and e: "map_of (sm_decks q) (sm_leader_deck_id p) = Some e" "sd_metadata e = sd_metadata d" "sd_track_load_id e = sd_track_load_id d" "sd_playing e \<longrightarrow> sd_playing d"
        "unat (sd_beat e) = min (unat (sd_beat d) + unat y div 60000000) (unat ?D)"
      using assms(3) parts by auto
    have same: "sm_last_clock q = sm_clock p" "sm_clock q = sm_clock p" "sm_speed q = sm_speed p" "sm_leader_deck_id q = sm_leader_deck_id p"
      "unat (sm_beat_remainder q) = unat y mod 60000000"
      using st parts(2) by (simp_all add: steady_def)
    have "leads q e" using e same by (simp add: leads_def word_le_nat_alt)
    then show ?thesis unfolding total [symmetric] Let_def using clock same pa e by blast
  qed
qed


text \<open>The source is updated each time the clock shows one of the readings.\<close>

fun sim_updates :: "MonotonicTime list \<Rightarrow> SimulatorDeckSourceProvider \<Rightarrow> unit sim_result" where
  "sim_updates [] p = (p, Inr ())"
| "sim_updates (t # ts) p = state_then (update_to_clock (p\<lparr>sm_clock := clock_set t (sm_clock p)\<rparr>)) (\<lambda>p _. sim_updates ts p)"

lemma updates_paused:
  "sim_updates ts p = (q, Inr ()) \<Longrightarrow> sm_paused p \<Longrightarrow>
   sm_paused q \<and> sm_decks q = sm_decks p \<and> sm_leader_deck_id q = sm_leader_deck_id p \<and> sm_beat_remainder q = sm_beat_remainder p
   \<and> sm_last_clock p \<le> sm_last_clock q"
proof (induction ts arbitrary: p)
  case (Cons t ts)
  from Cons.prems(1) obtain r where r: "update_to_clock (p\<lparr>sm_clock := t\<rparr>) = (r, Inr ())" "sim_updates ts r = (q, Inr ())"
    by (auto simp: clock_set_def dest!: state_then_Inr)
  then have "r = p\<lparr>sm_clock := t, sm_last_clock := t\<rparr>" "sm_last_clock p \<le> t"
    using Cons.prems(2) by (auto simp: update_to_clock_def Let_def not_less split: if_splits)
  with Cons.IH [OF r(2)] Cons.prems(2) show ?case by auto
qed simp

lemma carry_beats:
  assumes "0 < (n :: nat)"
  shows "b + a div n + (a mod n + x) div n = b + (a + x) div n" "(a mod n + x) mod n = (a + x) mod n"
proof -
  have "a + x = (a mod n + x) + (a div n) * n" using mod_div_mult_eq [of a n] by simp
  then have "(a + x) div n = a div n + (a mod n + x) div n" using assms by (metis div_mult_self1 not_gr0)
  then show "b + a div n + (a mod n + x) div n = b + (a + x) div n" by simp
  show "(a mod n + x) mod n = (a + x) mod n" by (rule mod_add_left_eq)
qed

lemma updates_exact:
  "sim_updates ts p = (q, Inr ()) \<Longrightarrow> leads p d \<Longrightarrow> \<not> sm_paused p \<Longrightarrow>
   sm_last_clock p \<le> sm_last_clock q
   \<and> (let total = accumulated p d (unat (sm_last_clock q) - unat (sm_last_clock p)); beat = unat (sd_beat d) + total div 60000000 in
      (sm_paused q \<longleftrightarrow> unat (track_duration_beats (sd_metadata d)) < beat)
      \<and> (\<not> sm_paused q \<longrightarrow> unat (sm_beat_remainder q) = total mod 60000000)
      \<and> (\<exists>e. leads q e \<and> sd_metadata e = sd_metadata d \<and> sd_track_load_id e = sd_track_load_id d \<and> (sd_playing e \<longrightarrow> sd_playing d)
           \<and> unat (sd_beat e) = min beat (unat (track_duration_beats (sd_metadata d)))))"
proof (induction ts arbitrary: p d)
  case Nil
  then show ?case by (auto simp: accumulated_def leads_def Let_def word_le_nat_alt)
next
  case (Cons t ts)
  let ?D = "unat (track_duration_beats (sd_metadata d))" let ?k = "unat (track_bpm_milli (sd_metadata d)) * unat (multiplier (sm_speed p))"
  let ?p = "p\<lparr>sm_clock := t\<rparr>"
  from Cons.prems(1) obtain r where r: "update_to_clock ?p = (r, Inr ())" "sim_updates ts r = (q, Inr ())"
    by (auto simp: clock_set_def dest!: state_then_Inr)
  let ?a = "accumulated p d (unat t - unat (sm_last_clock p))"
  have lead: "leads ?p d" "\<not> sm_paused ?p" using Cons.prems by (simp_all add: leads_def)
  from update_exact [OF r(1) lead] obtain e where
    step: "sm_last_clock p \<le> t" "sm_last_clock r = t" "sm_speed r = sm_speed p" "unat (sm_beat_remainder r) = ?a mod 60000000"
      "sm_paused r = (?D < unat (sd_beat d) + ?a div 60000000)"
    and e: "leads r e" "sd_metadata e = sd_metadata d" "sd_track_load_id e = sd_track_load_id d" "sd_playing e \<longrightarrow> sd_playing d"
      "unat (sd_beat e) = min (unat (sd_beat d) + ?a div 60000000) ?D"
    by (auto simp: Let_def accumulated_def)
  let ?x = "(unat (sm_last_clock q) - unat t) * ?k" let ?total = "accumulated p d (unat (sm_last_clock q) - unat (sm_last_clock p))"
  have later: "?total = ?a + ?x" "unat (sm_last_clock p) \<le> unat (sm_last_clock q)" if "t \<le> sm_last_clock q"
  proof -
    have le: "unat (sm_last_clock p) \<le> unat t" "unat t \<le> unat (sm_last_clock q)" using that step(1) by (simp_all add: word_le_nat_alt)
    then have "unat (sm_last_clock q) - unat (sm_last_clock p) = (unat t - unat (sm_last_clock p)) + (unat (sm_last_clock q) - unat t)" by simp
    then show "?total = ?a + ?x" by (simp add: accumulated_def add_mult_distrib mult.assoc)
    show "unat (sm_last_clock p) \<le> unat (sm_last_clock q)" using le by simp
  qed
  show ?case
  proof (cases "sm_paused r")
    case True
    note stays = updates_paused [OF r(2) True]
    have t: "t \<le> sm_last_clock q" using stays step(2) by simp
    have "?a div 60000000 \<le> ?total div 60000000" using later(1) [OF t] by (simp add: div_le_mono)
    then show ?thesis using stays step(5) True e later(2) [OF t]
      by (intro conjI) (auto simp: Let_def leads_def word_le_nat_alt)
  next
    case False
    from Cons.IH [OF r(2) e(1) False] have rest: "t \<le> sm_last_clock q"
      and beats: "sm_paused q \<longleftrightarrow> ?D < unat (sd_beat e) + (?a mod 60000000 + ?x) div 60000000"
        "\<not> sm_paused q \<longrightarrow> unat (sm_beat_remainder q) = (?a mod 60000000 + ?x) mod 60000000"
        "\<exists>f. leads q f \<and> sd_metadata f = sd_metadata d \<and> sd_track_load_id f = sd_track_load_id d \<and> (sd_playing f \<longrightarrow> sd_playing d)
           \<and> unat (sd_beat f) = min (unat (sd_beat e) + (?a mod 60000000 + ?x) div 60000000) ?D"
      using step(2,3,4) e(2,3,4) by (auto simp: accumulated_def Let_def mult.assoc)
    have "unat (sd_beat e) = unat (sd_beat d) + ?a div 60000000" using e(5) step(5) False by simp
    with beats carry_beats(1) [of 60000000 "unat (sd_beat d)" ?a ?x] carry_beats(2) [of 60000000 ?a ?x] later [OF rest] show ?thesis
      by (simp add: Let_def word_le_nat_alt)
  qed
qed


section \<open>The decks stay within their tracks\<close>

text \<open>One beat on, the phrase is the one that starts there, or else the one before.\<close>

lemma phrase_unique:
  assumes "track_analyzed m" "x \<in> set (track_phrases m)" "y \<in> set (track_phrases m)"
    and "phrase_start_beat x \<le> b" "b < phrase_end_beat x" "phrase_start_beat y \<le> b" "b < phrase_end_beat y"
  shows "x = y"
proof -
  obtain i j where ij: "i < length (track_phrases m)" "x = track_phrases m ! i" "j < length (track_phrases m)" "y = track_phrases m ! j"
    using assms(2,3) by (auto simp: in_set_conv_nth)
  with tiles_unique [of phrase_start_beat phrase_end_beat 0 "track_phrases m" i j b] assms have "i = j"
    by (simp add: track_analyzed_def)
  with ij show ?thesis by simp
qed

lemma phrase_holds:
  assumes "track_analyzed m" "x \<in> set (track_phrases m)" "phrase_start_beat x \<le> b" "b < phrase_end_beat x"
  shows "phrase_of_beat m b = phrase_index x"
proof -
  have "find (\<lambda>p. phrase_start_beat p \<le> b \<and> b < phrase_end_beat p) (track_phrases m) \<noteq> None"
    using assms by (auto simp: find_None_iff)
  then obtain y where y: "find (\<lambda>p. phrase_start_beat p \<le> b \<and> b < phrase_end_beat p) (track_phrases m) = Some y" by blast
  then have "y \<in> set (track_phrases m)" "phrase_start_beat y \<le> b" "b < phrase_end_beat y"
    by (auto simp: find_Some_iff)
  with phrase_unique [OF assms(1)] assms have "y = x" by blast
  with y show ?thesis by (simp add: phrase_of_beat_def)
qed

lemma phrase_step:
  assumes "track_ok m" "b < track_duration_beats m"
  shows "phrase_of_beat m (b + 1) =
    (case map_option phrase_index (find (\<lambda>x. phrase_start_beat x = b + 1) (track_phrases m)) of None \<Rightarrow> phrase_of_beat m b | Some i \<Rightarrow> i)"
proof (cases "track_phrases m = []")
  case True
  then show ?thesis by (simp add: phrase_of_beat_def)
next
  case False
  then have m: "track_analyzed m" using assms(1) by (auto simp: track_ok_def)
  have one: "unat (b + 1) = unat b + 1"
    using assms(2) unsigned_less [of "track_duration_beats m", where ?'a = nat] by (simp add: unat_add_exact word_less_nat_alt)
  show ?thesis
  proof (cases "find (\<lambda>x. phrase_start_beat x = b + 1) (track_phrases m)")
    case (Some x)
    then have x: "x \<in> set (track_phrases m)" "phrase_start_beat x = b + 1" by (auto simp: find_Some_iff)
    with track_parts.part_item_bounds [OF m x(1)] phrase_holds [OF m x(1), of "b + 1"] Some show ?thesis by simp
  next
    case None
    then have none: "phrase_start_beat x \<noteq> b + 1" if "x \<in> set (track_phrases m)" for x using that by (auto simp: find_None_iff)
    have "phrase_of_beat m (b + 1) = phrase_of_beat m b"
    proof (cases "b + 1 < track_duration_beats m")
      case True
      with track_parts.part_covers [OF m, of "b + 1"] obtain x where x: "x \<in> set (track_phrases m)"
        "phrase_start_beat x \<le> b + 1" "b + 1 < phrase_end_beat x" by (auto simp: in_set_conv_nth)
      then have "phrase_start_beat x \<le> b" "b < phrase_end_beat x"
        using none [OF x(1)] one by (auto simp: word_le_nat_alt word_less_nat_alt word_eq_iff_unsigned [where ?'a = nat])
      then show ?thesis using phrase_holds [OF m x(1)] x(2,3) by simp
    next
      case False
      then have full: "b + 1 = track_duration_beats m"
        using assms(2) one by (auto simp: word_le_nat_alt word_less_nat_alt word_eq_iff_unsigned [where ?'a = nat])
      let ?l = "last (track_phrases m)"
      have l: "?l \<in> set (track_phrases m)" "phrase_end_beat ?l = track_duration_beats m"
        using \<open>track_phrases m \<noteq> []\<close> m by (auto simp: track_analyzed_def tiles_end_last)
      then have "phrase_start_beat ?l \<le> b" "b < phrase_end_beat ?l"
        using track_parts.part_item_bounds [OF m l(1)] full one assms(2) by (auto simp: word_le_nat_alt word_less_nat_alt)
      then have "phrase_of_beat m b = phrase_index ?l" using phrase_holds [OF m l(1)] by simp
      moreover have "find (\<lambda>p. phrase_start_beat p \<le> b + 1 \<and> b + 1 < phrase_end_beat p) (track_phrases m) = None"
        using track_parts.part_item_bounds [OF m] full by (auto simp: find_None_iff leD)
      ultimately show ?thesis using \<open>track_phrases m \<noteq> []\<close> by (simp add: phrase_of_beat_def)
    qed
    then show ?thesis using None by simp
  qed
qed


definition simulated_ok :: "SimulatedDeck \<Rightarrow> bool" where
  "simulated_ok d \<longleftrightarrow> track_ok (sd_metadata d) \<and> sd_beat d \<le> track_duration_beats (sd_metadata d)
     \<and> sd_phrase_index d = phrase_of_beat (sd_metadata d) (sd_beat d)"

definition sim_ok :: "SimulatorDeckSourceProvider \<Rightarrow> bool" where
  "sim_ok p \<longleftrightarrow> ordered (sm_decks p) \<and> list_all (\<lambda>(deck, d). simulated_ok d) (sm_decks p)
     \<and> map_of (sm_decks p) (sm_leader_deck_id p) \<noteq> None \<and> map_of (sm_decks p) (sm_initial_leader_deck_id p) \<noteq> None
     \<and> unat (sm_beat_remainder p) < 60000000"

lemma sim_ok_fields [simp]:
  "sim_ok (p\<lparr>sm_sequence := a\<rparr>) = sim_ok p" "sim_ok (p\<lparr>sm_pending_events := b\<rparr>) = sim_ok p"
  "sim_ok (p\<lparr>sm_clock := c\<rparr>) = sim_ok p" "sim_ok (p\<lparr>sm_last_clock := c\<rparr>) = sim_ok p"
  "sim_ok (p\<lparr>sm_speed := e\<rparr>) = sim_ok p" "sim_ok (p\<lparr>sm_paused := f\<rparr>) = sim_ok p"
  by (simp_all add: sim_ok_def)

lemma sim_emit_ok [simp]: "sim_ok (fst (sim_emit t obs p)) = sim_ok p"
  by (simp add: sim_emit_def split: option.split)

lemmas sim_thens = state_then_keeps [where P = sim_ok]

lemma adjust_ok:
  assumes "sim_ok p" "\<And>d. map_of (sm_decks p) k = Some d \<Longrightarrow> simulated_ok d \<Longrightarrow> simulated_ok (f d)"
  shows "sim_ok (p\<lparr>sm_decks := btree_adjust k f (sm_decks p)\<rparr>)"
  using assms all_adjust_at [of "sm_decks p" "\<lambda>_. simulated_ok" k f] by (auto simp: sim_ok_def btree_lookup)

lemma leader_found: "sim_ok p \<Longrightarrow> \<exists>d. map_of (sm_decks p) (sm_leader_deck_id p) = Some d \<and> simulated_ok d"
  using all_lookup [of "\<lambda>_. simulated_ok"] by (fastforce simp: sim_ok_def)

lemma set_playing_ok: "sim_ok p \<Longrightarrow> sim_ok (fst (set_leader_playing on p))"
  by (auto simp: set_leader_playing_def simulated_ok_def intro!: adjust_ok split: option.split)

lemma beat_ok:
  assumes "sim_ok p"
  shows "sim_ok (fst (advance_one_beat now p))"
proof -
  obtain d where d: "map_of (sm_decks p) (sm_leader_deck_id p) = Some d" "simulated_ok d" using leader_found [OF assms] by blast
  show ?thesis
  proof (cases "track_duration_beats (sd_metadata d) \<le> sd_beat d")
    case False
    obtain change where change:
      "map_option phrase_index (find (\<lambda>x. phrase_start_beat x = sd_beat d + 1) (track_phrases (sd_metadata d))) = change" by blast
    have "phrase_of_beat (sd_metadata d) (sd_beat d + 1) = (case change of None \<Rightarrow> sd_phrase_index d | Some i \<Rightarrow> i)"
      using phrase_step [of "sd_metadata d" "sd_beat d"] d(2) False change by (simp add: simulated_ok_def not_le split: option.split)
    then have ok: "sim_ok (p\<lparr>sm_decks := btree_adjust (sm_leader_deck_id p) (\<lambda>e. e\<lparr>sd_beat := sd_beat d + 1,
        sd_phrase_index := (case change of None \<Rightarrow> sd_phrase_index e | Some i \<Rightarrow> i)\<rparr>) (sm_decks p)\<rparr>)"
      using d False inc_le [of "sd_beat d" "track_duration_beats (sd_metadata d)"]
      by (intro adjust_ok [OF assms]) (auto simp: simulated_ok_def not_le)
    show ?thesis
      using False ok unfolding advance_one_beat_def Let_def d(1) option.case change
      by (auto intro!: sim_thens split: option.split)
  qed (simp add: advance_one_beat_def d assms)
qed

lemma beats_ok: "sim_ok p \<Longrightarrow> sim_ok (fst (advance_beats now n p))"
  by (induction now n p rule: advance_beats.induct) (auto intro!: sim_thens beat_ok set_playing_ok)

lemma remainder_ok: "sim_ok p \<Longrightarrow> sim_ok (p\<lparr>sm_last_clock := t, sm_beat_remainder := x mod BEAT_DENOMINATOR\<rparr>)"
  by (simp add: sim_ok_def unat_mod_distrib denominator)

lemma update_ok:
  assumes "sim_ok p"
  shows "sim_ok (fst (update_to_clock p))"
  using assms remainder_ok [OF assms] unfolding update_to_clock_def Let_def
  by (auto simp: state_then_def [of "(_, _)"] ok_or_def intro!: beats_ok split: option.split)

lemma loads_ok: "sim_ok p \<Longrightarrow> sim_ok (fst (emit_loads now ds p))"
  by (induction now ds p rule: emit_loads.induct) (auto intro!: sim_thens)

lemma initial_ok: "sim_ok p \<Longrightarrow> sim_ok (fst (queue_initial_events p))"
  by (auto simp: queue_initial_events_def Let_def intro!: sim_thens loads_ok)

definition reset_state :: "SimulatorDeckSourceProvider \<Rightarrow> SimulatorDeckSourceProvider" where
  "reset_state p =
     p\<lparr>sm_pending_events := [], sm_leader_deck_id := sm_initial_leader_deck_id p, sm_speed := SpeedOne, sm_beat_remainder := 0,
       sm_last_clock := sm_clock p,
       sm_decks := btree_adjust (sm_initial_leader_deck_id p) (\<lambda>d. d\<lparr>sd_playing := True\<rparr>)
         (btree_values (\<lambda>d. d\<lparr>sd_beat := 0, sd_phrase_index := 0, sd_playing := False\<rparr>) (sm_decks p)),
       sm_paused := False\<rparr>"

lemma reset_eq: "sim_reset p = queue_initial_events (reset_state p)"
  by (simp add: sim_reset_def reset_state_def)

lemma reset_state_ok:
  assumes "sim_ok p"
  shows "sim_ok (reset_state p)"
proof -
  let ?d = "btree_values (\<lambda>d. d\<lparr>sd_beat := 0, sd_phrase_index := 0, sd_playing := False\<rparr>) (sm_decks p)"
  have "simulated_ok (d\<lparr>sd_beat := 0, sd_phrase_index := 0, sd_playing := False\<rparr>)" if "simulated_ok d" for d
    using that by (simp add: simulated_ok_def phrase_of_start)
  then have "list_all (\<lambda>(k, d). simulated_ok d) ?d"
    using assms by (intro all_values [where P = "\<lambda>_. simulated_ok"]) (auto simp: sim_ok_def)
  then have "list_all (\<lambda>(k, d). simulated_ok d) (btree_adjust (sm_initial_leader_deck_id p) (\<lambda>d. d\<lparr>sd_playing := True\<rparr>) ?d)"
    by (intro all_adjust [where P = "\<lambda>_. simulated_ok"]) (auto simp: simulated_ok_def)
  then show ?thesis using assms by (auto simp: reset_state_def sim_ok_def btree_lookup)
qed

lemma switch_ok:
  "sim_ok s \<Longrightarrow> find (\<lambda>deck. deck \<noteq> sm_leader_deck_id s) (map fst (sm_decks s)) = Some k \<Longrightarrow>
   sim_ok (s\<lparr>sm_leader_deck_id := k, sm_beat_remainder := 0\<rparr>)"
  by (auto simp: sim_ok_def find_Some_iff map_of_eq_None_iff)

lemma leader_advance_ok:
  assumes "sim_ok p"
  shows "sim_ok (fst (sim_advance_leader p))"
  unfolding sim_advance_leader_def Let_def
  by (rule sim_thens [OF set_playing_ok [OF assms]])
       (auto intro!: sim_thens set_playing_ok switch_ok split: option.split)

lemma control_ok: "sim_ok p \<Longrightarrow> sim_ok (fst (apply_control c p))"
  by (cases c) (auto simp: reset_eq intro!: sim_thens update_ok set_playing_ok initial_ok reset_state_ok leader_advance_ok)

lemma sim_load_ok:
  assumes "sim_ok p" "track_ok metadata"
  shows "sim_ok (fst (sim_load_track deck metadata p))"
proof -
  have fresh: "simulated_ok (fresh_simulated metadata load)" for load
    using assms(2) by (simp add: simulated_ok_def fresh_simulated_def phrase_of_start)
  have put: "sim_ok (s\<lparr>sm_decks := btree_insert k (fresh_simulated metadata load) (sm_decks s)\<rparr>)"
    "sim_ok (s\<lparr>sm_decks := btree_insert k (fresh_simulated metadata load) (sm_decks s), sm_beat_remainder := 0\<rparr>)"
    if "sim_ok s" for s load k
    using that all_insert [of "\<lambda>_. simulated_ok" "sm_decks s" k "fresh_simulated metadata load"] fresh
    by (auto simp: sim_ok_def btree_lookup)
  show ?thesis unfolding sim_load_track_def Let_def
    by (rule sim_thens [OF update_ok [OF assms(1)]])
       (auto simp: state_then_def [of "(_, _)"] ok_or_def put intro!: sim_thens split: option.split)
qed


section \<open>The leader is never missing\<close>

definition found :: "'a sim_result \<Rightarrow> bool" where
  "found r \<longleftrightarrow> snd r \<noteq> Inl SmLeaderDeckMissing"

lemma found_then:
  "sim_ok (fst x) \<Longrightarrow> found x \<Longrightarrow> (\<And>s a. sim_ok s \<Longrightarrow> found (f s a)) \<Longrightarrow> found (state_then x f)"
  by (cases x) (auto simp: state_then_def found_def split: sum.splits)

lemma found_emit [simp]: "found (sim_emit t obs p)"
  by (simp add: sim_emit_def found_def split: option.split)

lemma found_emit_then: "(\<And>s. found (f s ())) \<Longrightarrow> found (state_then (sim_emit t obs p) f)"
  by (auto simp: state_then_def found_def sim_emit_def split: option.split)

lemma found_return [simp]: "found (p, Inr a)" "e \<noteq> SmLeaderDeckMissing \<Longrightarrow> found (p, Inl e)"
  by (simp_all add: found_def)

lemma found_ok_or: "sim_ok p \<Longrightarrow> found (p, ok_or x e) \<longleftrightarrow> x \<noteq> None \<or> e \<noteq> SmLeaderDeckMissing"
  by (auto simp: ok_or_def found_def split: option.split)

lemma playing_found: "sim_ok p \<Longrightarrow> found (set_leader_playing on p)"
  using leader_found [of p] by (auto simp: set_leader_playing_def)

lemma snapshot_found: "sim_ok p \<Longrightarrow> found (p, leader_snapshot p)"
  using leader_found [of p] by (auto simp: leader_snapshot_def found_ok_or)

lemma sim_emit_keeps: "sim_ok p \<Longrightarrow> sim_ok (fst (sim_emit t obs p))"
  by simp

lemma beat_found:
  assumes "sim_ok p"
  shows "found (advance_one_beat now p)"
proof -
  obtain d where d: "map_of (sm_decks p) (sm_leader_deck_id p) = Some d" using leader_found [OF assms] by blast
  show ?thesis unfolding advance_one_beat_def Let_def d option.case
    by (auto simp: found_def state_then_def sim_emit_def split: option.split prod.splits sum.splits if_splits)
qed

lemma beats_found: "sim_ok p \<Longrightarrow> found (advance_beats now n p)"
  by (induction now n p rule: advance_beats.induct) (auto intro!: found_then beat_ok beat_found playing_found)

lemma update_found:
  assumes "sim_ok p"
  shows "found (update_to_clock p)"
  using leader_found [OF assms] remainder_ok [OF assms] unfolding update_to_clock_def Let_def
  by (auto simp: state_then_def [of "(_, _)"] ok_or_def intro!: beats_found split: option.split)

lemma loads_found: "found (emit_loads now ds p)"
  by (induction now ds p rule: emit_loads.induct) (auto simp: state_then_def found_def sim_emit_def split: option.splits)

lemma initial_found: "sim_ok p \<Longrightarrow> found (queue_initial_events p)"
  unfolding queue_initial_events_def Let_def
  by (intro found_then sim_emit_keeps loads_ok loads_found snapshot_found) simp_all

lemma advance_found:
  assumes "sim_ok p"
  shows "found (sim_advance_leader p)"
  unfolding sim_advance_leader_def Let_def
  by (rule found_then [OF set_playing_ok [OF assms] playing_found [OF assms]])
       (auto intro!: found_then playing_found set_playing_ok snapshot_found switch_ok split: option.split)


lemma control_found: "sim_ok p \<Longrightarrow> found (apply_control c p)"
  by (cases c) (auto simp: reset_eq intro!: found_then update_ok update_found playing_found set_playing_ok initial_found
      reset_state_ok advance_found)

lemma load_found: "sim_ok p \<Longrightarrow> found (sim_load_track deck metadata p)"
  unfolding sim_load_track_def Let_def
  by (auto simp: state_then_def [of "(_, _)"] ok_or_def intro!: found_then [OF update_ok update_found] found_emit_then
      split: option.split)

section \<open>Runs\<close>

datatype sim_call =
    SimClockSet u64
  | SimClockAdvance u64
  | SimUpdate
  | SimControl SimulationControl
  | SimLoad DeckId TrackMetadata
  | SimDrain

definition discard :: "'a sim_result \<Rightarrow> unit sim_result" where
  "discard r = (fst r, map_sum (\<lambda>e. e) (\<lambda>_. ()) (snd r))"

fun sim_step :: "sim_call \<Rightarrow> SimulatorDeckSourceProvider \<Rightarrow> unit sim_result" where
  "sim_step (SimClockSet t) p = (p\<lparr>sm_clock := clock_set t (sm_clock p)\<rparr>, Inr ())"
| "sim_step (SimClockAdvance n) p = (p\<lparr>sm_clock := fst (clock_advance n (sm_clock p))\<rparr>, Inr ())"
| "sim_step SimUpdate p = update_to_clock p"
| "sim_step (SimControl c) p = apply_control c p"
| "sim_step (SimLoad deck metadata) p = discard (sim_load_track deck metadata p)"
| "sim_step SimDrain p = (fst (sim_drain_events p), Inr ())"

fun sim_call_ok :: "sim_call \<Rightarrow> bool" where
  "sim_call_ok (SimLoad deck metadata) = track_ok metadata"
| "sim_call_ok _ = True"

text \<open>The state after the calls, with their results.\<close>

fun sim_run :: "SimulatorDeckSourceProvider \<Rightarrow> sim_call list \<Rightarrow> SimulatorDeckSourceProvider \<times> (SimulatorError + unit) list" where
  "sim_run p [] = (p, [])"
| "sim_run p (c # cs) = (case sim_step c p of (q, r) \<Rightarrow> case sim_run q cs of (t, rs) \<Rightarrow> (t, r # rs))"

lemma sim_step_ok: "sim_ok p \<Longrightarrow> sim_call_ok c \<Longrightarrow> sim_ok (fst (sim_step c p)) \<and> found (sim_step c p)"
  using load_found [of p] update_found [of p] control_found [of p]
  by (cases c) (auto simp: update_ok update_found control_ok control_found sim_load_ok discard_def sim_drain_events_def found_def
      map_sum_def split: sum.splits)

lemma sim_run_ok:
  "sim_ok p \<Longrightarrow> list_all sim_call_ok cs \<Longrightarrow> sim_ok (fst (sim_run p cs)) \<and> Inl SmLeaderDeckMissing \<notin> set (snd (sim_run p cs))"
proof (induction p cs rule: sim_run.induct)
  case (2 p c cs)
  obtain q r where step: "sim_step c p = (q, r)" by fastforce
  with sim_step_ok [of p c] 2 show ?case by (auto simp: found_def split: prod.split)
qed simp

text \<open>The start.\<close>

lemma parse_track_ok: "parse_track t = Inr m \<Longrightarrow> track_ok m"
  by (auto simp: parse_track_def result_simps track_ok_def try_new_with_color_ok split: if_splits)

lemma parse_decks_ok: "parse_decks ds = Inr xs \<Longrightarrow> list_all (\<lambda>x. track_ok (pd_metadata x)) xs"
  by (induction ds arbitrary: xs) (auto simp: result_simps dest: parse_track_ok)

lemma fold_insert_ok:
  "list_all (\<lambda>x. track_ok (pd_metadata x)) xs \<Longrightarrow> ordered m \<Longrightarrow> list_all (\<lambda>(k, d). simulated_ok d) m \<Longrightarrow>
   let n = fold (\<lambda>d. btree_insert (pd_deck_id d) (fresh_simulated (pd_metadata d) (pd_track_load_id d))) xs m in
   ordered n \<and> list_all (\<lambda>(k, d). simulated_ok d) n \<and> dom (map_of n) = pd_deck_id ` set xs \<union> dom (map_of m)"
proof (induction xs arbitrary: m)
  case (Cons x xs)
  let ?m = "btree_insert (pd_deck_id x) (fresh_simulated (pd_metadata x) (pd_track_load_id x)) m"
  have "simulated_ok (fresh_simulated (pd_metadata x) (pd_track_load_id x))"
    using Cons.prems(1) by (simp add: simulated_ok_def fresh_simulated_def phrase_of_start)
  then have "list_all (\<lambda>(k, d). simulated_ok d) ?m" using Cons.prems(3) all_insert [of "\<lambda>_. simulated_ok"] by blast
  with Cons.IH [of ?m] Cons.prems show ?case by (auto simp: Let_def btree_lookup)
qed simp

lemma start_ok:
  assumes "from_fixture_json json clock = Inr p"
  shows "sim_ok p"
proof -
  from assms obtain x where x: "parse_fixture json = Inr x" and q: "queue_initial_events
      \<lparr>sm_clock = clock, sm_source_id = px_source_id x, sm_initial_leader_deck_id = px_initial_leader_deck_id x,
       sm_leader_deck_id = px_initial_leader_deck_id x, sm_decks = fixture_decks x, sm_sequence = 0,
       sm_last_clock = clock, sm_beat_remainder = 0, sm_speed = SpeedOne, sm_paused = False, sm_pending_events = []\<rparr> = (p, Inr ())"
    by (auto simp: from_fixture_json_def result_simps Let_def prod_eq_iff)
  from x have decks: "list_all (\<lambda>d. track_ok (pd_metadata d)) (px_decks x)" "px_initial_leader_deck_id x \<in> pd_deck_id ` set (px_decks x)"
    by (auto simp: parse_fixture_def result_simps list_ex_iff rev_image_eqI split: option.splits if_splits dest: parse_decks_ok)
  let ?n = "fold (\<lambda>d. btree_insert (pd_deck_id d) (fresh_simulated (pd_metadata d) (pd_track_load_id d))) (px_decks x) []"
  have n: "ordered ?n" "list_all (\<lambda>(k, d). simulated_ok d) ?n" "dom (map_of ?n) = pd_deck_id ` set (px_decks x)"
    using fold_insert_ok [OF decks(1), of "[]"] by (auto simp: Let_def)
  have "list_all (\<lambda>(k, d). simulated_ok d) (fixture_decks x)"
    unfolding fixture_decks_def using n(2) by (intro all_adjust [where P = "\<lambda>_. simulated_ok"]) (auto simp: simulated_ok_def)
  then have "sim_ok (fst (p, Inr () :: SimulatorError + unit))"
    unfolding q [symmetric] using n decks(2)
    by (intro initial_ok) (auto simp: sim_ok_def fixture_decks_def btree_lookup domIff dest: equalityD2 [THEN subsetD])
  then show ?thesis by simp
qed


section \<open>Numbers\<close>

interpretation sim_log: numbered_source sm_sequence sm_pending_events sm_source_id sim_emit
  by unfold_locales (simp_all add: sim_emit_def)

lemma sim_grows_fields [simp]:
  "sim_log.grows p (s\<lparr>sm_decks := a\<rparr>) = sim_log.grows p s" "sim_log.grows p (s\<lparr>sm_paused := b\<rparr>) = sim_log.grows p s"
  "sim_log.grows p (s\<lparr>sm_last_clock := c\<rparr>) = sim_log.grows p s" "sim_log.grows p (s\<lparr>sm_beat_remainder := d\<rparr>) = sim_log.grows p s"
  "sim_log.grows p (s\<lparr>sm_speed := e\<rparr>) = sim_log.grows p s" "sim_log.grows p (s\<lparr>sm_leader_deck_id := f\<rparr>) = sim_log.grows p s"
  "sim_log.grows p (s\<lparr>sm_clock := g\<rparr>) = sim_log.grows p s"
  by (simp_all add: sim_log.grows_def)

lemmas sim_grows = state_then_keeps [where P = "sim_log.grows _"] sim_log.grows_emission sim_log.grows_refl

lemma playing_grows: "sim_log.grows p s \<Longrightarrow> sim_log.grows p (fst (set_leader_playing on s))"
  by (auto simp: set_leader_playing_def intro!: sim_grows split: option.split)

lemma beat_grows: "sim_log.grows p s \<Longrightarrow> sim_log.grows p (fst (advance_one_beat now s))"
  by (auto simp: advance_one_beat_def Let_def intro!: sim_grows split: option.split)

lemma beats_grow: "sim_log.grows p s \<Longrightarrow> sim_log.grows p (fst (advance_beats now n s))"
  by (induction now n s rule: advance_beats.induct) (auto intro!: sim_grows beat_grows playing_grows)

lemma update_grows: "sim_log.grows p s \<Longrightarrow> sim_log.grows p (fst (update_to_clock s))"
  by (auto simp: update_to_clock_def Let_def state_then_def [of "(_, _)"] ok_or_def intro!: beats_grow split: option.split)

lemma sim_loads_grow: "sim_log.grows p s \<Longrightarrow> sim_log.grows p (fst (emit_loads now ds s))"
  by (induction now ds s rule: emit_loads.induct) (auto intro!: sim_grows)

lemma initial_grows: "sim_log.grows p s \<Longrightarrow> sim_log.grows p (fst (queue_initial_events s))"
  by (auto simp: queue_initial_events_def Let_def intro!: sim_grows sim_loads_grow)

lemma advance_grows: "sim_log.grows p s \<Longrightarrow> sim_log.grows p (fst (sim_advance_leader s))"
  by (auto simp: sim_advance_leader_def Let_def intro!: sim_grows playing_grows split: option.split)

lemma sim_load_grows: "sim_log.grows p (fst (sim_load_track deck metadata p))"
  by (auto simp: sim_load_track_def Let_def intro!: sim_grows update_grows split: option.split)

text \<open>A reset throws away what waits, so numbers may be missing, but they ascend.\<close>

definition ascending :: "DomainEvent list \<Rightarrow> SimulatorDeckSourceProvider \<Rightarrow> bool" where
  "ascending handed p \<longleftrightarrow> sorted_wrt (<) (sequences (handed @ sm_pending_events p))
     \<and> list_all (\<lambda>n. n \<le> unat (sm_sequence p)) (sequences (handed @ sm_pending_events p))"

lemma ascending_grows:
  assumes "ascending handed p" "sim_log.grows p q"
  shows "ascending handed q"
proof -
  obtain new where new: "sm_pending_events q = sm_pending_events p @ new"
    "sequences new = [Suc (unat (sm_sequence p))..<Suc (unat (sm_sequence q))]" "unat (sm_sequence p) \<le> unat (sm_sequence q)"
    using assms(2) by (auto simp: sim_log.grows_def)
  let ?old = "sequences (handed @ sm_pending_events p)"
  have "sequences (handed @ sm_pending_events q) = ?old @ sequences new" using new(1) by simp
  moreover have "\<forall>n \<in> set ?old. n \<le> unat (sm_sequence p)" using assms(1) by (simp add: ascending_def list_all_iff)
  ultimately show ?thesis using assms(1) new(2,3)
    by (auto simp: ascending_def sorted_wrt_append list_all_iff simp del: upt_Suc sequences_append)
qed

lemma ascending_reset: "ascending handed p \<Longrightarrow> ascending handed (reset_state p)"
  by (auto simp: ascending_def reset_state_def sorted_wrt_append)

fun sim_out :: "sim_call \<Rightarrow> SimulatorDeckSourceProvider \<Rightarrow> DomainEvent list" where
  "sim_out SimDrain p = snd (sim_drain_events p)"
| "sim_out _ p = []"

lemma ascending_step:
  assumes "ascending handed p"
  shows "ascending (handed @ sim_out c p) (fst (sim_step c p))"
proof (cases c)
  case (SimControl x)
  show ?thesis
  proof (cases "x = SimReset")
    case True
    with assms SimControl ascending_grows [OF ascending_reset initial_grows [OF sim_log.grows_refl]] show ?thesis by (simp add: reset_eq)
  next
    case False
    then have "sim_log.grows p (fst (apply_control x p))"
      by (cases x) (auto intro!: sim_grows update_grows playing_grows advance_grows)
    with assms SimControl show ?thesis by (simp add: ascending_grows)
  qed
next
  case (SimLoad deck metadata)
  with ascending_grows [OF assms sim_load_grows] show ?thesis by (simp add: discard_def)
next
  case SimUpdate
  with ascending_grows [OF assms update_grows [OF sim_log.grows_refl]] show ?thesis by simp
qed (use assms in \<open>auto simp: ascending_def sim_drain_events_def\<close>)


section \<open>Loading the leader\<close>

definition on_leader :: "SimulatorDeckSourceProvider \<Rightarrow> (DeckId \<times> SimulatedDeck) list \<Rightarrow> u128 \<Rightarrow> SimulatorDeckSourceProvider \<Rightarrow> bool" where
  "on_leader p decks remainder s \<longleftrightarrow> sm_leader_deck_id s = sm_leader_deck_id p \<and> sm_decks s = decks \<and> sm_beat_remainder s = remainder"

lemma on_leader_emit [simp]: "on_leader p decks x (fst (sim_emit t obs s)) = on_leader p decks x s"
  by (simp add: on_leader_def)

definition same_leader_deck :: "SimulatorDeckSourceProvider \<Rightarrow> SimulatorDeckSourceProvider \<Rightarrow> bool" where
  "same_leader_deck p s \<longleftrightarrow> sm_leader_deck_id s = sm_leader_deck_id p"

lemma same_leader_fields [simp]:
  "same_leader_deck p (fst (sim_emit t obs s)) = same_leader_deck p s" "same_leader_deck p (s\<lparr>sm_decks := a\<rparr>) = same_leader_deck p s"
  "same_leader_deck p (s\<lparr>sm_paused := b\<rparr>) = same_leader_deck p s" "same_leader_deck p (s\<lparr>sm_last_clock := c\<rparr>) = same_leader_deck p s"
  "same_leader_deck p (s\<lparr>sm_beat_remainder := d\<rparr>) = same_leader_deck p s" "same_leader_deck p p"
  "same_leader_deck p (s\<lparr>sm_clock := e\<rparr>) = same_leader_deck p s"
  by (simp_all add: same_leader_deck_def)

lemmas same_leader_thens = state_then_keeps [where P = "same_leader_deck _"]

lemma playing_leader: "same_leader_deck p s \<Longrightarrow> same_leader_deck p (fst (set_leader_playing on s))"
  by (auto simp: set_leader_playing_def split: option.split)

lemma beat_leader: "same_leader_deck p s \<Longrightarrow> same_leader_deck p (fst (advance_one_beat now s))"
  by (auto simp: advance_one_beat_def Let_def intro!: same_leader_thens split: option.split)

lemma beats_leader: "same_leader_deck p s \<Longrightarrow> same_leader_deck p (fst (advance_beats now n s))"
  by (induction now n s rule: advance_beats.induct) (auto intro!: same_leader_thens beat_leader playing_leader)

lemma update_leader: "same_leader_deck p s \<Longrightarrow> same_leader_deck p (fst (update_to_clock s))"
  by (auto simp: update_to_clock_def Let_def state_then_def [of "(_, _)"] ok_or_def intro!: beats_leader split: option.split)

lemma updates_leader: "sim_updates ts p = (q, r) \<Longrightarrow> sm_leader_deck_id q = sm_leader_deck_id p"
proof (induction ts arbitrary: p)
  case (Cons t ts)
  let ?u = "update_to_clock (p\<lparr>sm_clock := clock_set t (sm_clock p)\<rparr>)"
  have "sm_leader_deck_id (fst ?u) = sm_leader_deck_id p"
    using update_leader [of p "p\<lparr>sm_clock := clock_set t (sm_clock p)\<rparr>"] by (simp add: same_leader_deck_def)
  with Cons show ?case by (auto simp: state_then_def split: prod.splits sum.splits)
qed simp

lemma loaded_leader:
  assumes "sim_load_track (sm_leader_deck_id p) metadata p = (q, Inr load)"
  shows "sm_leader_deck_id q = sm_leader_deck_id p" "sm_beat_remainder q = 0"
    "map_of (sm_decks q) (sm_leader_deck_id p) = Some (fresh_simulated metadata load)"
proof -
  let ?k = "sm_leader_deck_id p"
  obtain u where u: "update_to_clock p = (u, Inr ())"
    using assms unfolding sim_load_track_def by (auto dest!: state_then_Inr)
  have lead: "sm_leader_deck_id u = ?k" using update_leader [of p p] u by (simp add: same_leader_deck_def)
  define D where "D = btree_insert ?k (fresh_simulated metadata load) (sm_decks u)"
  let ?s = "u\<lparr>sm_decks := D, sm_beat_remainder := 0\<rparr>"
  have run: "(q, Inr load) = state_then (sim_emit (sm_clock u) (DeckObservation.TrackLoaded ?k metadata load) ?s) (\<lambda>p _.
      if ?k = sm_leader_deck_id p
      then state_then (sim_emit (sm_clock u) (DeckObservation.PlaybackPosition ?k load 0) p) (\<lambda>p _.
           state_then (sim_emit (sm_clock u) (DeckObservation.PhraseChanged ?k load 0) p) (\<lambda>p _. (p, Inr load)))
      else (p, Inr load))"
    using assms u lead unfolding sim_load_track_def Let_def D_def
    by (auto simp: state_then_def [of "(_, _)"] ok_or_def split: option.splits if_splits dest!: state_then_Inr)
  have start: "on_leader p D 0 ?s" using lead by (simp add: on_leader_def)
  have inner: "on_leader p D 0 (fst (state_then (sim_emit a x s) (\<lambda>p _. state_then (sim_emit a y p) (\<lambda>p _. (p, Inr load)))))"
    if "on_leader p D 0 s" for a x y s
    using that by (intro state_then_keeps [where P = "on_leader p D 0"]) simp_all
  have "on_leader p D 0 (fst (q, Inr load :: SimulatorError + TrackLoadId))"
    unfolding run
    by (rule state_then_keeps [where P = "on_leader p D 0"]) (use start in \<open>auto intro: inner\<close>)
  then show "sm_leader_deck_id q = ?k" "sm_beat_remainder q = 0"
    "map_of (sm_decks q) ?k = Some (fresh_simulated metadata load)" by (auto simp: on_leader_def D_def btree_lookup)
qed

section \<open>Properties\<close>

text \<open>
  C37. From any fixture and after any calls that leave the simulator running: when it is updated at any readings of the
  clock, the leading deck stands where the time since the last update puts it, to the beat, at the speed that is
  set, and at the end of its track from there on. How the time is cut into updates makes no difference.
\<close>

theorem simulator_follows_clock:
  assumes "from_fixture_json json clock = Inr p0" "list_all sim_call_ok cs" "sim_run p0 cs = (p, rs)" "\<not> sm_paused p"
    and "map_of (sm_decks p) (sm_leader_deck_id p) = Some d" "sim_updates ts p = (q, Inr ())"
  shows "let total = unat (sm_beat_remainder p) + (unat (sm_last_clock q) - unat (sm_last_clock p))
           * unat (track_bpm_milli (sd_metadata d)) * unat (multiplier (sm_speed p));
         beat = unat (sd_beat d) + total div 60000000; duration = unat (track_duration_beats (sd_metadata d)) in
     (\<exists>e. map_of (sm_decks q) (sm_leader_deck_id q) = Some e \<and> sd_track_load_id e = sd_track_load_id d
        \<and> unat (sd_beat e) = min beat duration)
     \<and> (sm_paused q \<longleftrightarrow> duration < beat) \<and> sm_last_clock p \<le> sm_last_clock q"
proof -
  have "sim_ok p" using sim_run_ok [OF start_ok [OF assms(1)] assms(2)] assms(3) by simp
  then have "leads p d" using assms(5) leader_found [of p] by (auto simp: leads_def sim_ok_def simulated_ok_def)
  from updates_exact [OF assms(6) this assms(4)] show ?thesis by (auto simp: accumulated_def leads_def Let_def)
qed

text \<open>
  Whatever is called, and wherever a call fails, the decks stay within their tracks at the phrase of their beat, the
  leader is one of them, and no call fails because it is missing.
\<close>

theorem simulator_invariant:
  assumes "from_fixture_json json clock = Inr p" "list_all sim_call_ok cs" "sim_run p cs = (q, rs)"
  shows "list_all (\<lambda>(deck, d). sd_beat d \<le> track_duration_beats (sd_metadata d)
       \<and> sd_phrase_index d = phrase_of_beat (sd_metadata d) (sd_beat d)) (sm_decks q)
     \<and> map_of (sm_decks q) (sm_leader_deck_id q) \<noteq> None \<and> Inl SmLeaderDeckMissing \<notin> set rs"
  using sim_run_ok [OF start_ok [OF assms(1)] assms(2)] assms(3)
  by (auto simp: sim_ok_def simulated_ok_def list_all_iff)

text \<open>
  A track loaded on the leading deck of a running simulator moves although it does not play: the deck reports no
  playback, and each update still carries it forward by the time that went by.
\<close>

theorem loaded_leader_moves_unplayed:
  assumes "from_fixture_json json clock = Inr p0" "list_all sim_call_ok cs" "sim_run p0 cs = (p, rs)"
    and load: "sim_load_track (sm_leader_deck_id p) metadata p = (q, Inr load)" "track_ok metadata" "\<not> sm_paused q"
    and "sim_updates ts q = (r, Inr ())"
  shows "\<exists>e. map_of (sm_decks r) (sm_leader_deck_id p) = Some e \<and> sd_track_load_id e = load \<and> \<not> sd_playing e
     \<and> unat (sd_beat e) = min ((unat (sm_last_clock r) - unat (sm_last_clock q)) * unat (track_bpm_milli metadata)
          * unat (multiplier (sm_speed q)) div 60000000) (unat (track_duration_beats metadata))"
proof -
  have ok: "sim_ok p" using sim_run_ok [OF start_ok [OF assms(1)] assms(2)] assms(3) by simp
  have q: "sm_leader_deck_id q = sm_leader_deck_id p" "sm_beat_remainder q = 0"
    "map_of (sm_decks q) (sm_leader_deck_id p) = Some (fresh_simulated metadata load)"
    using loaded_leader [OF load(1)] by auto
  then have "leads q (fresh_simulated metadata load)" by (simp add: leads_def fresh_simulated_def)
  from updates_exact [OF assms(7) this load(3)] updates_leader [OF assms(7)] show ?thesis
    by (auto simp: accumulated_def leads_def Let_def fresh_simulated_def q)
qed


text \<open>The observations that a run of calls hands out, followed by those that wait, carry strictly ascending numbers.\<close>

fun sim_handed :: "SimulatorDeckSourceProvider \<Rightarrow> sim_call list \<Rightarrow> DomainEvent list" where
  "sim_handed p [] = []"
| "sim_handed p (c # cs) = sim_out c p @ sim_handed (fst (sim_step c p)) cs"

lemma ascending_run: "ascending handed p \<Longrightarrow> ascending (handed @ sim_handed p cs) (fst (sim_run p cs))"
proof (induction p cs arbitrary: handed rule: sim_run.induct)
  case (2 p c cs)
  obtain q r where step: "sim_step c p = (q, r)" by fastforce
  have "ascending (handed @ sim_out c p) q" using ascending_step [OF 2(2), of c] step by simp
  from 2(1) [OF step [symmetric] this] show ?case by (auto simp: step split: prod.split)
qed simp

theorem simulator_numbers_ascend:
  assumes "from_fixture_json json clock = Inr p" "sim_run p cs = (q, rs)"
  shows "sorted_wrt (<) (sequences (sim_handed p cs @ sm_pending_events q))"
proof -
  obtain x where "sim_log.grows x p" "sm_pending_events x = []" "sm_sequence x = 0"
    using assms(1) by (fastforce simp: from_fixture_json_def result_simps Let_def intro: initial_grows [OF sim_log.grows_refl])
  then have "ascending [] p" using ascending_grows [of "[]" x p] by (simp add: ascending_def)
  from ascending_run [OF this, of cs] assms(2) show ?thesis by (simp add: ascending_def)
qed

section \<open>Transcript and fixture\<close>

text \<open>A recorded track, written as the track of a fixture.\<close>

definition as_fixture :: "RecordedTrack \<Rightarrow> u32 \<Rightarrow> TrackFixture" where
  "as_fixture r color = \<lparr>tf_id = rt_id r, tf_title = rt_title r, tf_artist = rt_artist r, tf_bpm_milli = rt_bpm_milli r,
     tf_key = \<lparr>kf_pitch_class = rt_pitch_class r, kf_mode = rt_key_mode r\<rparr>, tf_color_rgb = color,
     tf_duration_beats = rt_duration_beats r,
     tf_phrases = map (\<lambda>x. \<lparr>pf_index = rp_index x, pf_start_beat = rp_start_beat x, pf_end_beat = rp_end_beat x, pf_kind = rp_kind x\<rparr>)
       (rt_phrases r)\<rparr>"

lemma names_read_back:
  "fixture_pitch_class (pitch_class_name c) = Inr c" "fixture_key_mode (key_mode_name k) = Inr k"
  "fixture_phrase_kind (phrase_kind_name x) = Inr x"
proof -
  show "fixture_pitch_class (pitch_class_name c) = Inr c" by (cases c) (simp_all add: fixture_pitch_class_def)
  show "fixture_key_mode (key_mode_name k) = Inr k" by (cases k) (simp_all add: fixture_key_mode_def)
  show "fixture_phrase_kind (phrase_kind_name x) = Inr x" by (cases x) (simp_all add: fixture_phrase_kind_def)
qed

lemma phrases_read_back:
  "parse_phrases (map (\<lambda>x. \<lparr>pf_index = phrase_index x, pf_start_beat = phrase_start_beat x, pf_end_beat = phrase_end_beat x,
     pf_kind = phrase_kind_name (phrase_kind x)\<rparr>) xs) = Inr xs"
  by (induction xs) (simp_all add: names_read_back)

lemma color_small: "rgb_u32 c \<le> 0xFFFFFF"
proof -
  have "rgb_u32 c AND 0xFFFFFF = rgb_u32 c" using rgb_roundtrip [of c "rgb_u32 c"] by metis
  then show ?thesis by (metis word_and_le1)
qed

text \<open>
  A track that a transcript records with its colour can be put into a fixture: the simulator reads back the same track.
\<close>

theorem transcript_track_roundtrip:
  assumes "track_facts_ok m" "track_analyzed m" "track_color m = Some c" "track_identity_facts m = None"
  shows "rt_color_rgb (record_track m) = Some (rgb_u32 c) \<and> parse_track (as_fixture (record_track m) (rgb_u32 c)) = Inr m"
proof -
  have phrases: "parse_phrases (tf_phrases (as_fixture (record_track m) (rgb_u32 c))) = Inr (track_phrases m)"
    by (simp add: as_fixture_def record_track_def phrases_read_back comp_def)
  have "try_new_with_color (track_id m) (track_title m) (track_artist m) (track_bpm_milli m)
      \<lparr>key_pitch_class = key_pitch_class (track_musical_key m), key_mode = key_mode (track_musical_key m)\<rparr> (Some c)
      (track_duration_beats m) (track_phrases m) = Inr m"
    unfolding try_new_with_color_ok using assms by (cases m) simp
  then show ?thesis
    using phrases assms(3) color_small [of c] rgb_roundtrip [of c 0]
    by (simp add: parse_track_def names_read_back leD) (simp add: as_fixture_def record_track_def names_read_back leD)
qed

section \<open>Witnesses\<close>

text \<open>A fixture with the same track on both decks; the clock shows 500 and then 1000 ticks.\<close>

definition demo_colored :: TrackMetadata where
  "demo_colored = demo_track\<lparr>track_color := Some \<lparr>color_red = 1, color_green = 2, color_blue = 3\<rparr>\<rparr>"

definition demo_fixture :: DemoFixture where
  "demo_fixture = \<lparr>fx_schema_version = 1, fx_source_id = 7, fx_initial_leader_deck_id = 1,
     fx_decks = [\<lparr>df_deck_id = 1, df_track_load_id = 1, df_track = as_fixture (record_track demo_colored) 0x10203\<rparr>,
                 \<lparr>df_deck_id = 2, df_track_load_id = 2, df_track = as_fixture (record_track demo_colored) 0x10203\<rparr>]\<rparr>"

definition demo_decks :: "(DeckId \<times> SimulatedDeck) list" where
  "demo_decks = [(1, (fresh_simulated demo_colored 1)\<lparr>sd_playing := True\<rparr>), (2, fresh_simulated demo_colored 2)]"

lemma demo_colored_ok: "track_facts_ok demo_colored" "track_analyzed demo_colored"
  using demo_track_ok by (auto simp: demo_colored_def track_ok_def track_facts_ok_def track_analyzed_def demo_track_def)

lemma demo_parse: "parse_track (as_fixture (record_track demo_colored) 0x10203) = Inr demo_colored"
proof -
  have "rgb_u32 \<lparr>color_red = 1, color_green = 2, color_blue = 3\<rparr> = 0x10203" by (simp add: rgb_u32_def)
  then show ?thesis
    using transcript_track_roundtrip [OF demo_colored_ok, of "\<lparr>color_red = 1, color_green = 2, color_blue = 3\<rparr>"]
    by (simp add: demo_colored_def demo_track_def)
qed

definition demo_sim :: "MonotonicTime \<Rightarrow> u32 \<Rightarrow> u128 \<Rightarrow> u64 \<Rightarrow> DomainEvent list \<Rightarrow> SimulatorDeckSourceProvider" where
  "demo_sim now beat remainder n events = \<lparr>sm_clock = now, sm_source_id = 7, sm_initial_leader_deck_id = 1, sm_leader_deck_id = 1,
     sm_decks = [(1, (fresh_simulated demo_colored 1)\<lparr>sd_playing := True, sd_beat := beat\<rparr>), (2, fresh_simulated demo_colored 2)],
     sm_sequence = n, sm_last_clock = now, sm_beat_remainder = remainder, sm_speed = SpeedOne, sm_paused = False,
     sm_pending_events = events\<rparr>"

lemma demo_start: "\<exists>events. from_fixture_json (Some demo_fixture) 0 = Inr (demo_sim 0 0 0 7 events)"
  by (simp add: from_fixture_json_def demo_fixture_def parse_fixture_def demo_parse fixture_decks_def demo_sim_def
      queue_initial_events_def sim_emit_def checked_add_def state_then_def leader_snapshot_def ok_or_def btree_adjust_def
      fresh_simulated_def Let_def)

lemma demo_increment: "beat_increment 500 128000 SpeedOne = Some 64000000"
  by (simp add: beat_increment_def checked_mul_def)

lemma demo_beat_step:
  assumes "beat = 0 \<or> beat = 1" "n = 7 \<or> n = 8"
  shows "\<exists>more. advance_one_beat t (demo_sim t beat r n events) = (demo_sim t (beat + 1) r (n + 1) more, Inr True)"
  using assms by (auto simp: advance_one_beat_def demo_sim_def fresh_simulated_def demo_colored_def demo_track_def sim_emit_def
      checked_add_def state_then_def btree_adjust_def word_le_nat_alt Let_def)

lemma demo_update:
  assumes "beat = 0 \<and> r = 0 \<and> n = 7 \<and> t = 0 \<or> beat = 1 \<and> r = 4000000 \<and> n = 8 \<and> t = 500"
  shows "\<exists>more. update_to_clock ((demo_sim t beat r n events)\<lparr>sm_clock := t + 500\<rparr>)
    = (demo_sim (t + 500) (beat + 1) (r + 4000000) (n + 1) more, Inr ())"
proof -
  have step: "(demo_sim t beat r n events)\<lparr>sm_clock := t + 500, sm_last_clock := t + 500, sm_beat_remainder := r + 4000000\<rparr>
    = demo_sim (t + 500) beat (r + 4000000) n events" by (simp add: demo_sim_def)
  obtain more where more: "advance_one_beat (t + 500) (demo_sim (t + 500) beat (r + 4000000) n events) =
      (demo_sim (t + 500) (beat + 1) (r + 4000000) (n + 1) more, Inr True)"
    using demo_beat_step [of beat n "t + 500" "r + 4000000" events] assms by auto
  have fields: "sm_last_clock (demo_sim t beat r n events) = t" "sm_paused (demo_sim t beat r n events) = False"
    "map_of (sm_decks (demo_sim t beat r n events)) (sm_leader_deck_id (demo_sim t beat r n events)) =
       Some ((fresh_simulated demo_colored 1)\<lparr>sd_playing := True, sd_beat := beat\<rparr>)"
    "sm_speed (demo_sim t beat r n events) = SpeedOne" "sm_beat_remainder (demo_sim t beat r n events) = r"
    by (simp_all add: demo_sim_def)
  have bpm: "track_bpm_milli (sd_metadata (fresh_simulated demo_colored 1)) = 128000"
    by (simp add: fresh_simulated_def demo_colored_def demo_track_def)
  have add: "checked_add r 64000000 = Some (r + 64000000)" "(r + 64000000) div BEAT_DENOMINATOR = 1"
    "(r + 64000000) mod BEAT_DENOMINATOR = r + 4000000"
    using assms by (auto simp: checked_add_def BEAT_DENOMINATOR_def)
  have time: "\<not> t + 500 < t" using assms by (auto simp: word_less_nat_alt)
  have "update_to_clock ((demo_sim t beat r n events)\<lparr>sm_clock := t + 500\<rparr>) =
      advance_beats (t + 500) 1 (demo_sim (t + 500) beat (r + 4000000) n events)"
    by (simp add: update_to_clock_def Let_def fields bpm time demo_increment ok_or_def state_then_def add step del: advance_beats.simps)
  then show ?thesis using more by (intro exI [of _ more]) (simp add: state_then_def)
qed

lemma demo_updates: "\<exists>more. sim_updates [500, 1000] (demo_sim 0 0 0 7 events) = (demo_sim 1000 2 8000000 9 more, Inr ())"
proof -
  obtain m1 where one: "update_to_clock ((demo_sim 0 0 0 7 events)\<lparr>sm_clock := 500\<rparr>) = (demo_sim 500 1 4000000 8 m1, Inr ())"
    using demo_update [of 0 0 7 0 events] by auto
  obtain m2 where two: "update_to_clock ((demo_sim 500 1 4000000 8 m1)\<lparr>sm_clock := 1000\<rparr>) = (demo_sim 1000 2 8000000 9 m2, Inr ())"
    using demo_update [of 1 4000000 8 500 m1] by auto
  show ?thesis by (rule exI [of _ m2]) (simp add: clock_set_def state_then_def one two)
qed

theorem simulator_follows_clock_witness:
  "\<exists>p q e. from_fixture_json (Some demo_fixture) 0 = Inr p \<and> sim_updates [500, 1000] p = (q, Inr ())
     \<and> map_of (sm_decks q) (sm_leader_deck_id q) = Some e \<and> unat (sd_beat e) = 2"
proof -
  obtain events where p: "from_fixture_json (Some demo_fixture) 0 = Inr (demo_sim 0 0 0 7 events)" (is "_ = Inr ?p") using demo_start by blast
  obtain rest where q: "sim_updates [500, 1000] ?p = (demo_sim 1000 2 8000000 9 rest, Inr ())" using demo_updates by blast
  have "map_of (sm_decks ?p) (sm_leader_deck_id ?p) = Some ((fresh_simulated demo_colored 1)\<lparr>sd_playing := True, sd_beat := 0\<rparr>)" "\<not> sm_paused ?p"
    by (simp_all add: demo_sim_def)
  from simulator_follows_clock [OF p _ _ this(2,1) q, of "[]" "[]"]
  have "\<exists>e. map_of (sm_decks (demo_sim 1000 2 8000000 9 rest)) (sm_leader_deck_id (demo_sim 1000 2 8000000 9 rest)) = Some e \<and> unat (sd_beat e) = 2"
    by (auto simp: Let_def demo_sim_def fresh_simulated_def demo_colored_def demo_track_def)
  with p q show ?thesis by blast
qed

end
