(* ===== verification/Bounded_Lines.thy ===== *)
theory Bounded_Lines
  imports Lumi_Prelude
begin

text \<open>
  The framing of all local and network streams (\<open>lumi-stream/src/lib.rs\<close>): a reader of lines
  with a limit. The input is the list of the buffers that \<open>fill_buf\<close> gives; an empty buffer, or none, is the end of
  the stream. A call that is cancelled stops between two buffers and keeps the bytes it
  consumed. Facts: the lines do not depend on how the stream is cut into buffers, and
  no more than the limit is ever held.
\<close>

definition newline :: char where
  "newline = CHR 0x0A"

record BoundedLineReader =
  lr_pending :: string
  lr_failed :: bool

datatype LineError = ReaderClosed | TruncatedFrame | FrameExceedsLimit

definition reader_new :: BoundedLineReader where
  "reader_new = \<lparr>lr_pending = [], lr_failed = False\<rparr>"

text \<open>The loop of \<open>next_line\<close>: the reader, the buffers that are left, and the result.\<close>

fun line_loop :: "nat \<Rightarrow> BoundedLineReader \<Rightarrow> string list \<Rightarrow> BoundedLineReader \<times> string list \<times> (LineError + string option)" where
  "line_loop maximum r chunks =
     (if chunks = [] \<or> hd chunks = [] then
        (if lr_pending r = [] then (r, chunks, Inr None)
         else (r\<lparr>lr_failed := True\<rparr>, chunks, Inl TruncatedFrame))
      else
        let available = hd chunks;
            found = position (\<lambda>byte. byte = newline) available;
            len = (case found of None \<Rightarrow> length available | Some i \<Rightarrow> i) in
        if length (lr_pending r) + len > maximum then (r\<lparr>lr_failed := True\<rparr>, chunks, Inl FrameExceedsLimit)
        else
          let pending = lr_pending r @ take len available;
              rest = drop (len + (if found = None then 0 else 1)) available;
              chunks' = (if rest = [] then tl chunks else rest # tl chunks) in
          if found \<noteq> None then (r\<lparr>lr_pending := []\<rparr>, chunks', Inr (Some pending))
          else line_loop maximum (r\<lparr>lr_pending := pending\<rparr>) (tl chunks))"

declare line_loop.simps [simp del]

definition next_line :: "nat \<Rightarrow> BoundedLineReader \<Rightarrow> string list \<Rightarrow> BoundedLineReader \<times> string list \<times> (LineError + string option)" where
  "next_line maximum r chunks = (if lr_failed r then (r, chunks, Inl ReaderClosed) else line_loop maximum r chunks)"

section \<open>Lines of the stream\<close>

text \<open>The reference: the first line of the bytes that are left.\<close>

definition first_line :: "string \<Rightarrow> string" where
  "first_line s = takeWhile (\<lambda>byte. byte \<noteq> newline) s"

definition after_line :: "string \<Rightarrow> string" where
  "after_line s = tl (dropWhile (\<lambda>byte. byte \<noteq> newline) s)"

definition line_result :: "nat \<Rightarrow> string \<Rightarrow> LineError + string option" where
  "line_result maximum s =
     (if length (first_line s) > maximum then Inl FrameExceedsLimit
      else if newline \<in> set s then Inr (Some (first_line s))
      else if s = [] then Inr None
      else Inl TruncatedFrame)"

lemma position_newline:
  "position (\<lambda>byte. byte = newline) s = (if newline \<in> set s then Some (length (first_line s)) else None)"
  by (induction s) (auto simp: first_line_def)

lemma first_line_none: "newline \<notin> set s \<Longrightarrow> first_line s = s"
  by (auto simp: first_line_def takeWhile_eq_all_conv)

lemma first_line_append: "newline \<notin> set a \<Longrightarrow> first_line (a @ b) = a @ first_line b"
  by (induction a) (auto simp: first_line_def)

lemma first_line_within: "newline \<in> set a \<Longrightarrow> first_line (a @ b) = first_line a"
  by (induction a) (auto simp: first_line_def)

lemma after_line_append: "newline \<notin> set a \<Longrightarrow> newline \<in> set b \<Longrightarrow> after_line (a @ b @ c) = after_line b @ c"
proof -
  assume a: "newline \<notin> set a" and b: "newline \<in> set b"
  then have "dropWhile (\<lambda>byte. byte \<noteq> newline) (a @ b @ c) = dropWhile (\<lambda>byte. byte \<noteq> newline) b @ c"
    by (induction a) (auto simp: dropWhile_append1)
  moreover have "dropWhile (\<lambda>byte. byte \<noteq> newline) b \<noteq> []" using b by (auto simp: dropWhile_eq_Nil_conv)
  ultimately show ?thesis by (simp add: after_line_def)
qed

lemma take_first_line: "take (length (first_line s)) s = first_line s"
  unfolding first_line_def by (metis append_eq_conv_conj takeWhile_dropWhile_id)

lemma drop_first_line: "drop (Suc (length (first_line s))) s = after_line s"
  unfolding first_line_def after_line_def by (metis drop_Suc dropWhile_eq_drop drop_tl)

lemmas loop_simps = line_loop.simps [of maximum r "[]" for maximum r] line_loop.simps [of maximum r "c # rest" for maximum r c rest]

text \<open>Reading a line from the buffers is reading it from the bytes in them.\<close>

lemma line_loop_correct:
  assumes "newline \<notin> set (lr_pending r)" "length (lr_pending r) \<le> maximum" "[] \<notin> set chunks" "line_loop maximum r chunks = (r', chunks', result)"
  shows "result = line_result maximum (lr_pending r @ concat chunks)
    \<and> (\<forall>line. result = Inr (Some line) \<longrightarrow> lr_pending r' = [] \<and> lr_failed r' = lr_failed r
         \<and> concat chunks' = after_line (lr_pending r @ concat chunks) \<and> [] \<notin> set chunks')
    \<and> length (lr_pending r') \<le> maximum \<and> (is_ok result \<or> lr_failed r')"
  using assms
proof (induction chunks arbitrary: r)
  case Nil
  then show ?case by (auto simp: loop_simps line_result_def first_line_none split: if_splits)
next
  case (Cons c rest)
  then have c: "c \<noteq> []" by auto
  show ?case
  proof (cases "newline \<in> set c")
    case True
    have line: "first_line (lr_pending r @ c @ concat rest) = lr_pending r @ first_line c"
      using Cons.prems(1) first_line_within [OF True] by (simp add: first_line_append)
    show ?thesis
      using Cons.prems True c line after_line_append [OF Cons.prems(1) True, of "concat rest"]
      by (auto simp: loop_simps position_newline Let_def line_result_def take_first_line drop_first_line split: if_splits)
  next
    case False
    let ?r = "r\<lparr>lr_pending := lr_pending r @ c\<rparr>"
    show ?thesis
    proof (cases "length (lr_pending r) + length c > maximum")
      case True
      have "length (first_line (lr_pending r @ c @ concat rest)) > maximum"
        using True Cons.prems(1) False by (simp add: first_line_append)
      with True False c Cons.prems show ?thesis
        by (auto simp: loop_simps position_newline Let_def line_result_def)
    next
      case small: False
      have "line_loop maximum r (c # rest) = line_loop maximum ?r rest"
        using False c small by (simp add: loop_simps position_newline Let_def)
      with Cons.prems(4) have step: "line_loop maximum ?r rest = (r', chunks', result)" by simp
      have pending: "newline \<notin> set (lr_pending ?r)" "length (lr_pending ?r) \<le> maximum" "[] \<notin> set rest"
        using Cons.prems False small by simp_all
      from Cons.IH [OF pending step] show ?thesis by auto
    qed
  qed
qed

text \<open>
  C27. The next line is the one that the bytes of the stream determine, however they arrive in
  buffers and however many of them an earlier, cancelled call had consumed: a line within the limit is returned whole
  and the stream stands after it; a longer one, or one cut off by the end of the stream, closes the reader; and never
  more bytes are held than the limit.
\<close>

theorem next_line_correct:
  assumes "\<not> lr_failed r" "newline \<notin> set (lr_pending r)" "length (lr_pending r) \<le> maximum" "[] \<notin> set chunks"
    "next_line maximum r chunks = (r', chunks', result)"
  shows "result = line_result maximum (lr_pending r @ concat chunks)
    \<and> (\<forall>line. result = Inr (Some line) \<longrightarrow> lr_pending r' = [] \<and> \<not> lr_failed r'
         \<and> concat chunks' = after_line (lr_pending r @ concat chunks) \<and> [] \<notin> set chunks')
    \<and> length (lr_pending r') \<le> maximum \<and> (is_ok result \<or> lr_failed r')"
  using line_loop_correct [OF assms(2-4)] assms(1,5) by (auto simp: next_line_def)

theorem next_line_correct_witness:
  "\<exists>r' chunks'. next_line 8 reader_new [''ab'', ''c'' @ [newline] @ ''d''] = (r', chunks', Inr (Some ''abc''))
     \<and> concat chunks' = ''d''"
proof -
  obtain r' chunks' result where eq: "next_line 8 reader_new [''ab'', ''c'' @ [newline] @ ''d''] = (r', chunks', result)"
    by (metis prod_cases3)
  from next_line_correct [OF _ _ _ _ eq] have "result = line_result 8 (''abc'' @ [newline] @ ''d'')"
    "result = Inr (Some ''abc'') \<longrightarrow> concat chunks' = after_line (''abc'' @ [newline] @ ''d'')"
    by (simp_all add: reader_new_def)
  moreover have "line_result 8 (''abc'' @ [newline] @ ''d'') = Inr (Some ''abc'')" "after_line (''abc'' @ [newline] @ ''d'') = ''d''"
    by (simp_all add: line_result_def first_line_def after_line_def newline_def)
  ultimately show ?thesis using eq by auto
qed

end
