(* ===== verification/Remote_Protocol.thy ===== *)
theory Remote_Protocol
  imports Rust_Text
begin

text \<open>
  The contract between the gateway and its remote clients (\<open>lumi-remote-protocol\<close>): frames
  (\<open>frame.rs\<close>), the greeting that authenticates or pairs a device (\<open>auth.rs\<close>) and commands with
  their results (\<open>command.rs\<close>). JSON is a parameter: the record \<open>FrameJson\<close> holds the two
  functions of \<open>serde_json\<close> that a frame uses, and \<open>'v\<close> is \<open>serde_json::Value\<close>.
\<close>

section \<open>Text\<close>

text \<open>The check that all identifiers share: not empty, bounded, no control characters.\<close>

definition plain_text :: "nat \<Rightarrow> string \<Rightarrow> bool" where
  "plain_text maximum value \<longleftrightarrow> \<not> (value = [] \<or> length value > maximum \<or> has_control value)"

section \<open>Frames\<close>

definition REMOTE_PROTOCOL_VERSION :: u16 where
  "REMOTE_PROTOCOL_VERSION = 1"

definition MAX_REMOTE_FRAME_BYTES :: nat where
  "MAX_REMOTE_FRAME_BYTES = 512 * 1024"

datatype RemoteFrameKind =
    FrameHello | FrameSnapshot | FrameProjection | FrameTransportAnchor | FrameCommand | FrameCommandResult | FrameError

record 'v RemoteFrame =
  rf_protocol_version :: u16
  rf_frame_kind :: RemoteFrameKind
  rf_sequence :: u64
  rf_correlation_id :: "string option"
  rf_payload :: 'v

datatype RemoteFrameError =
    FrameOversized
  | FrameInvalidJson string
  | FrameUnsupportedProtocol u16
  | FrameInvalidCorrelationId
  | FrameInvalidSequence

record 'v FrameJson =
  json_from_slice :: "string \<Rightarrow> string + 'v RemoteFrame"
  json_to_vec :: "'v RemoteFrame \<Rightarrow> string + string"

definition correlation_ok :: "string option \<Rightarrow> bool" where
  "correlation_ok correlation \<longleftrightarrow>
     (case correlation of None \<Rightarrow> True | Some value \<Rightarrow> \<not> (length value > 128 \<or> has_control value))"

definition frame_decode :: "'v FrameJson \<Rightarrow> string \<Rightarrow> RemoteFrameError + 'v RemoteFrame" where
  "frame_decode js bytes =
     (if length bytes > MAX_REMOTE_FRAME_BYTES then Inl FrameOversized
      else and_then (map_err FrameInvalidJson (json_from_slice js bytes)) (\<lambda>frame.
        if rf_protocol_version frame \<noteq> REMOTE_PROTOCOL_VERSION
        then Inl (FrameUnsupportedProtocol (rf_protocol_version frame))
        else if rf_sequence frame = 0 then Inl FrameInvalidSequence
        else if \<not> correlation_ok (rf_correlation_id frame) then Inl FrameInvalidCorrelationId
        else Inr frame))"

definition frame_encode :: "'v FrameJson \<Rightarrow> 'v RemoteFrame \<Rightarrow> RemoteFrameError + string" where
  "frame_encode js frame =
     (if rf_protocol_version frame \<noteq> REMOTE_PROTOCOL_VERSION
      then Inl (FrameUnsupportedProtocol (rf_protocol_version frame))
      else if rf_sequence frame = 0 then Inl FrameInvalidSequence
      else and_then (map_err FrameInvalidJson (json_to_vec js frame)) (\<lambda>bytes.
        if length bytes > MAX_REMOTE_FRAME_BYTES then Inl FrameOversized else Inr bytes))"

section \<open>Greeting\<close>

datatype RemoteClientHello =
    HelloAuthenticate string string "string option"
  | HelloPair string string string string string "string option"

datatype RemoteServerHello =
    HelloAuthenticated string "string option" "string option"
  | HelloPaired string "string option" "string option"

datatype RemoteAuthenticationError = AuthInvalidIdentifier | AuthInvalidSecret

definition auth_validate_identifier :: "string \<Rightarrow> nat \<Rightarrow> RemoteAuthenticationError + unit" where
  "auth_validate_identifier value maximum =
     (if value = [] \<or> length value > maximum \<or> has_control value then Inl AuthInvalidIdentifier else Inr ())"

definition validate_version :: "string option \<Rightarrow> RemoteAuthenticationError + unit" where
  "validate_version value = (case value of None \<Rightarrow> Inr () | Some v \<Rightarrow> auth_validate_identifier v 64)"

definition validate_secret :: "string \<Rightarrow> RemoteAuthenticationError + unit" where
  "validate_secret value =
     (if \<not> (32 \<le> length value \<and> length value \<le> 512) \<or> has_control value then Inl AuthInvalidSecret else Inr ())"

fun hello_validate :: "RemoteClientHello \<Rightarrow> RemoteAuthenticationError + unit" where
  "hello_validate (HelloAuthenticate device credential version) =
     and_then (auth_validate_identifier device 128) (\<lambda>_.
     and_then (validate_secret credential) (\<lambda>_.
     validate_version version))"
| "hello_validate (HelloPair invitation secret device name credential version) =
     and_then (auth_validate_identifier invitation 128) (\<lambda>_.
     and_then (validate_secret secret) (\<lambda>_.
     and_then (auth_validate_identifier device 128) (\<lambda>_.
     and_then (auth_validate_identifier name 128) (\<lambda>_.
     and_then (validate_secret credential) (\<lambda>_.
     validate_version version)))))"

section \<open>Commands\<close>

datatype OperationTarget = TargetOff | TargetArmed | TargetLive | TargetPaused

datatype RemoteLaunchPolicy = LaunchImmediate | LaunchOnPhraseStart

type_synonym i16 = int

datatype RemoteCommandKind =
    SetOperationState OperationTarget u64
  | SetAbletonLinkEnabled bool u64
  | SetOutputTimingOffset i16 u64 "i16 option"
  | SetLaunchPolicy RemoteLaunchPolicy RemoteLaunchPolicy
  | SelectThemeFromPhrase string u64 u64 u16 u64
  | SelectAutoloopForPhrase string u64 u64 u16 u8
  | ChangePhraseRole string u64 u64 u16 string
  | RemoteSetCueLock string u64 u64 u16 bool
  | RequestSnapshot

record RemoteCommand =
  rc_command_id :: string
  rc_controller_lease_id :: string
  rc_issued_at_unix_millis :: u64
  rc_command :: RemoteCommandKind

datatype RemoteCommandError =
    CommandInvalidIdentifier string
  | TimingOffsetOutOfRange
  | AutoloopOutOfRange

definition validate_identifier :: "string \<Rightarrow> string \<Rightarrow> nat \<Rightarrow> RemoteCommandError + unit" where
  "validate_identifier field value maximum =
     (if value = [] \<or> length value > maximum \<or> has_control value then Inl (CommandInvalidIdentifier field) else Inr ())"

definition offset_in_range :: "i16 \<Rightarrow> bool" where
  "offset_in_range millis \<longleftrightarrow> - 250 \<le> millis \<and> millis \<le> 250"

fun kind_validate :: "RemoteCommandKind \<Rightarrow> RemoteCommandError + unit" where
  "kind_validate (SetOutputTimingOffset millis revision expected) =
     (if \<not> offset_in_range millis \<or> (case expected of None \<Rightarrow> False | Some value \<Rightarrow> \<not> offset_in_range value)
      then Inl TimingOffsetOutOfRange else Inr ())"
| "kind_validate (SelectAutoloopForPhrase plan load revision phrase number) =
     and_then (validate_identifier ''planId'' plan 128) (\<lambda>_.
       if \<not> (1 \<le> number \<and> number \<le> 32) then Inl AutoloopOutOfRange else Inr ())"
| "kind_validate (SelectThemeFromPhrase plan load revision phrase theme) = validate_identifier ''planId'' plan 128"
| "kind_validate (RemoteSetCueLock plan load revision phrase locked) = validate_identifier ''planId'' plan 128"
| "kind_validate (ChangePhraseRole plan load revision phrase role) =
     and_then (validate_identifier ''planId'' plan 128) (\<lambda>_. validate_identifier ''roleId'' role 128)"
| "kind_validate _ = Inr ()"

definition command_validate :: "RemoteCommand \<Rightarrow> RemoteCommandError + unit" where
  "command_validate c =
     and_then (validate_identifier ''commandId'' (rc_command_id c) 128) (\<lambda>_.
     and_then (validate_identifier ''controllerLeaseId'' (rc_controller_lease_id c) 128) (\<lambda>_.
     kind_validate (rc_command c)))"

definition is_mutating :: "RemoteCommand \<Rightarrow> bool" where
  "is_mutating c \<longleftrightarrow> rc_command c \<noteq> RequestSnapshot"

datatype RemoteCommandResultStatus = ResultAccepted | ResultDuplicate | ResultConflict | ResultRejected

record RemoteCommandResult =
  rr_command_id :: string
  rr_status :: RemoteCommandResultStatus
  rr_state_revision :: "u64 option"
  rr_plan_revision :: "u64 option"
  rr_reason_code :: "string option"

definition result_validate :: "RemoteCommandResult \<Rightarrow> RemoteCommandError + unit" where
  "result_validate r =
     and_then (validate_identifier ''commandId'' (rr_command_id r) 128) (\<lambda>_.
       case rr_reason_code r of None \<Rightarrow> Inr () | Some reason \<Rightarrow> validate_identifier ''reasonCode'' reason 64)"

section \<open>What the validators accept\<close>

named_theorems accepted_iff \<open>what a validator accepts\<close>

lemma auth_identifier_accepted [accepted_iff]: "auth_validate_identifier value maximum = Inr () \<longleftrightarrow> plain_text maximum value"
  by (simp add: auth_validate_identifier_def plain_text_def)

lemma identifier_accepted [accepted_iff]: "validate_identifier field value maximum = Inr () \<longleftrightarrow> plain_text maximum value"
  by (simp add: validate_identifier_def plain_text_def)

lemma secret_accepted [accepted_iff]:
  "validate_secret value = Inr () \<longleftrightarrow> 32 \<le> length value \<and> length value \<le> 512 \<and> \<not> has_control value"
  by (auto simp: validate_secret_def)

lemma version_accepted [accepted_iff]:
  "validate_version value = Inr () \<longleftrightarrow> (case value of None \<Rightarrow> True | Some v \<Rightarrow> plain_text 64 v)"
  by (simp add: validate_version_def accepted_iff split: option.split)

lemma command_accepted:
  "command_validate c = Inr () \<longleftrightarrow> plain_text 128 (rc_command_id c) \<and> plain_text 128 (rc_controller_lease_id c)
     \<and> kind_validate (rc_command c) = Inr ()"
  by (simp add: command_validate_def and_then_eq_Inr accepted_iff)

section \<open>Frames on the wire\<close>

text \<open>
  A JSON library that reads back what it wrote, as \<open>serde_json\<close> documents for the derived
  serialisation of a struct.
\<close>

definition reads_back :: "'v FrameJson \<Rightarrow> bool" where
  "reads_back js \<longleftrightarrow> (\<forall>frame bytes. json_to_vec js frame = Inr bytes \<longrightarrow> json_from_slice js bytes = Inr frame)"

text \<open>
  A frame that was encoded is decoded to itself, unless its correlation identifier is too
  long or has control characters: encoding does not check this, decoding refuses it.
\<close>

theorem frame_roundtrip:
  assumes "reads_back js" "frame_encode js frame = Inr bytes"
  shows "frame_decode js bytes =
    (if correlation_ok (rf_correlation_id frame) then Inr frame else Inl FrameInvalidCorrelationId)"
  using assms by (auto simp: frame_encode_def frame_decode_def reads_back_def result_simps split: if_splits)

text \<open>A codec of frames without payload: kind, then sequence, then correlation.\<close>

definition demo_frame :: "string option \<Rightarrow> unit RemoteFrame" where
  "demo_frame correlation = \<lparr>rf_protocol_version = 1, rf_frame_kind = FrameHello, rf_sequence = 1,
     rf_correlation_id = correlation, rf_payload = ()\<rparr>"

definition demo_json :: "unit FrameJson" where
  "demo_json = \<lparr>json_from_slice = (\<lambda>bytes. case bytes of [] \<Rightarrow> Inr (demo_frame None) | _ # ident \<Rightarrow> Inr (demo_frame (Some ident))),
     json_to_vec = (\<lambda>frame. if frame = demo_frame None then Inr []
        else case rf_correlation_id frame of
          None \<Rightarrow> Inl ''unsupported''
        | Some ident \<Rightarrow> if frame = demo_frame (Some ident) then Inr (CHR ''c'' # ident) else Inl ''unsupported'')\<rparr>"

lemma demo_reads_back: "reads_back demo_json"
  by (auto simp: reads_back_def demo_json_def split: option.splits if_splits)

theorem frame_roundtrip_witness:
  "frame_decode demo_json ''cid'' = Inr (demo_frame (Some ''id''))"
proof -
  have "frame_encode demo_json (demo_frame (Some ''id'')) = Inr ''cid''"
    by (simp add: frame_encode_def demo_json_def demo_frame_def REMOTE_PROTOCOL_VERSION_def MAX_REMOTE_FRAME_BYTES_def)
  from frame_roundtrip [OF demo_reads_back this] show ?thesis
    by (simp add: demo_frame_def correlation_ok_def has_control_def is_continuation_def code_of_def)
qed

end
