(* ===== verification/Remote_Projection.thy ===== *)
theory Remote_Projection
  imports Remote_Protocol
begin

text \<open>
  What a remote client sees of the engine (\<open>lumi-remote-protocol/src/projection.rs\<close>): the
  projection, its validation, and its construction from the snapshot of the engine. The snapshot
  arrives as JSON; its typed form \<open>EngineSnapshotWire\<close>, which \<open>serde_json\<close> produces, is the
  argument here. Loops over a \<open>Vec\<close> are \<open>try_map\<close> or structural recursions.
\<close>

section \<open>Data\<close>

definition MAX_REMOTE_PLAYERS :: nat where
  "MAX_REMOTE_PLAYERS = 2"

definition MAX_REMOTE_PHRASES :: nat where
  "MAX_REMOTE_PHRASES = 256"

definition MAX_REMOTE_HOT_CUES :: nat where
  "MAX_REMOTE_HOT_CUES = 16"

definition MAX_REMOTE_WAVEFORM_POINTS :: nat where
  "MAX_REMOTE_WAVEFORM_POINTS = 16384"

definition MAX_REMOTE_BEATS :: nat where
  "MAX_REMOTE_BEATS = 16384"

datatype RemoteOperationState = RemoteOff | RemoteArmed | RemoteLive | RemotePaused

datatype IntegrationHealth = HealthUnavailable | HealthStarting | HealthReady | HealthDegraded

record RemoteInitialLaunch =
  ril_version :: u8
  ril_policy :: RemoteLaunchPolicy
  ril_status :: string
  ril_target_phrase_index :: "u16 option"
  ril_target_beat :: "u32 option"
  ril_target_player :: "u8 option"
  ril_remaining_beats :: "u32 option"
  ril_save_pending :: bool
  ril_save_error :: "string option"

record RemoteIntegrationStatus =
  ris_pro_dj_link :: IntegrationHealth
  ris_light_output :: IntegrationHealth
  ris_ableton_link :: IntegrationHealth
  ris_ableton_link_enabled :: bool
  ris_ableton_link_bpm_milli :: "u64 option"
  ris_timing_offset_millis :: i16
  ris_pending_timing_offset_millis :: "i16 option"
  ris_launch :: "RemoteInitialLaunch option"

record RemotePlayerUSB =
  rpu_player_number :: u8
  rpu_state :: string
  rpu_source_name :: "string option"
  rpu_color_id :: "u8 option"

record RemoteTrackSource =
  rts_player_number :: "u8 option"
  rts_slot :: string
  rts_state :: string
  rts_source_name :: "string option"
  rts_color_id :: "u8 option"

record RemoteTransportAnchor =
  rta_track_load_id :: u64
  rta_beat :: u64
  rta_position_millis :: "u64 option"
  rta_effective_bpm_milli :: u64
  rta_playing :: bool
  rta_discontinuity_revision :: u64
  rta_observed_at_unix_millis :: u64
  rta_published_at_unix_millis :: "u64 option"

record RemoteBeatGrid =
  rbg_beats_per_bar :: u8
  rbg_duration_millis :: u64
  rbg_times_millis :: "u64 list"

record RemoteWaveformPoint =
  rwp_low :: u8
  rwp_mid :: u8
  rwp_high :: u8

record RemoteHotCue =
  rhc_index :: u8
  rhc_time_millis :: u64
  rhc_loop_end_millis :: "u64 option"
  rhc_color_rgb :: u32

record RemotePhrase =
  rph_index :: u16
  rph_start_beat :: u64
  rph_end_beat :: u64
  rph_kind :: string
  rph_role_id :: "string option"
  rph_role_name :: "string option"
  rph_color_rgb :: "u32 option"

record RemoteTrack =
  rtk_track_id :: "u64 option"
  rtk_title :: string
  rtk_artist :: string
  rtk_original_bpm_milli :: u64
  rtk_color_rgb :: "u32 option"
  rtk_key :: string
  rtk_duration_beats :: u64
  rtk_beat_grid :: "RemoteBeatGrid option"
  rtk_waveform :: "RemoteWaveformPoint list"
  rtk_hot_cues :: "RemoteHotCue list"
  rtk_phrases :: "RemotePhrase list"

record RemotePlayer =
  rpl_player_number :: u8
  rpl_hardware_model :: "string option"
  rpl_track_load_id :: u64
  rpl_transport :: RemoteTransportAnchor
  rpl_track :: RemoteTrack
  rpl_track_source :: "RemoteTrackSource option"

record RemoteAutoloopChoice =
  rac_number :: u8
  rac_name :: string
  rac_bank_number :: u8

record RemotePlanCue =
  rpc_phrase_index :: u16
  rpc_start_beat :: u64
  rpc_end_beat :: u64
  rpc_locked :: bool
  rpc_theme_id :: "u64 option"
  rpc_theme_name :: "string option"
  rpc_autoloop_number :: "u8 option"
  rpc_autoloop_name :: "string option"
  rpc_static_look_name :: "string option"
  rpc_available_autoloops :: "RemoteAutoloopChoice list"

record RemoteLightPlan =
  rlp_plan_id :: string
  rlp_player_number :: u8
  rlp_track_load_id :: u64
  rlp_revision :: u64
  rlp_theme_id :: "u64 option"
  rlp_theme_name :: "string option"
  rlp_cues :: "RemotePlanCue list"

record RemoteThemeOption =
  rto_id :: u64
  rto_name :: string

record RemotePhraseRoleOption =
  rro_id :: string
  rro_name :: string
  rro_color_rgb :: u32

record RemoteLiveProjection =
  prj_projection_revision :: u64
  prj_state_revision :: u64
  prj_engine_version :: string
  prj_operation_state :: RemoteOperationState
  prj_leader_player_number :: "u8 option"
  prj_integrations :: RemoteIntegrationStatus
  prj_players :: "RemotePlayer list"
  prj_player_usbs :: "RemotePlayerUSB list"
  prj_live_plan :: "RemoteLightPlan option"
  prj_next_plan :: "RemoteLightPlan option"
  prj_theme_options :: "RemoteThemeOption list"
  prj_phrase_role_options :: "RemotePhraseRoleOption list"

datatype ProjectionError =
    TooManyPlayers
  | InvalidTimingOffset
  | UnknownLeader
  | InvalidPlayerIdentity
  | InvalidTransportAnchor
  | WaveformOversized
  | BeatGridOversized
  | InvalidBeatGrid
  | TooManyHotCues
  | TooManyPhrases
  | InvalidPhraseRange
  | PlanPlayerMismatch
  | TooManyPlanCues
  | InvalidPlanCue
  | InvalidText string
  | NotConnectedDecks
  | InvalidOperationState
  | InvalidWaveformStyle
  | InvalidEngineSnapshot string

section \<open>Waveform points\<close>

text \<open>\<open>format!("{:02x}")\<close> of a byte, and reading six hexadecimal characters back.\<close>

definition hex_digit :: "nat \<Rightarrow> char" where
  "hex_digit d = char_of (if d < 10 then 48 + d else 87 + d)"

definition hex_byte :: "u8 \<Rightarrow> string" where
  "hex_byte b = [hex_digit (unat b div 16), hex_digit (unat b mod 16)]"

definition serialize_point :: "RemoteWaveformPoint \<Rightarrow> string" where
  "serialize_point p = hex_byte (rwp_low p) @ hex_byte (rwp_mid p) @ hex_byte (rwp_high p)"

definition hex_nibble :: "char \<Rightarrow> u8 option" where
  "hex_nibble byte =
     (let c = code_of byte in
      if 48 \<le> c \<and> c \<le> 57 then Some (of_nat (c - 48))
      else if 97 \<le> c \<and> c \<le> 102 then Some (of_nat (c - 97 + 10))
      else if 65 \<le> c \<and> c \<le> 70 then Some (of_nat (c - 65 + 10))
      else None)"

definition decode_pair :: "char \<Rightarrow> char \<Rightarrow> u8 option" where
  "decode_pair a b =
     Option.bind (hex_nibble a) (\<lambda>high. Option.bind (hex_nibble b) (\<lambda>low. Some (or (push_bit 4 high) low)))"

text \<open>The packed form of a point; \<open>None\<close> is a custom error of the deserialiser.\<close>

fun deserialize_point :: "string \<Rightarrow> RemoteWaveformPoint option" where
  "deserialize_point [a, b, c, d, e, f] =
     Option.bind (decode_pair a b) (\<lambda>low. Option.bind (decode_pair c d) (\<lambda>mid. Option.bind (decode_pair e f) (\<lambda>high.
       Some \<lparr>rwp_low = low, rwp_mid = mid, rwp_high = high\<rparr>)))"
| "deserialize_point _ = None"

section \<open>Validation\<close>

definition validate_text :: "string \<Rightarrow> string \<Rightarrow> nat \<Rightarrow> bool \<Rightarrow> ProjectionError + unit" where
  "validate_text field value maximum may_be_empty =
     (if (\<not> may_be_empty \<and> value = []) \<or> length value > maximum \<or> has_control value
      then Inl (InvalidText field) else Inr ())"

definition validate_text_opt :: "string \<Rightarrow> string option \<Rightarrow> nat \<Rightarrow> bool \<Rightarrow> ProjectionError + unit" where
  "validate_text_opt field value maximum may_be_empty =
     (case value of None \<Rightarrow> Inr () | Some v \<Rightarrow> validate_text field v maximum may_be_empty)"

text \<open>\<open>for x in xs { check(x)?; }\<close>\<close>

fun try_for :: "('a \<Rightarrow> 'e + unit) \<Rightarrow> 'a list \<Rightarrow> 'e + unit" where
  "try_for check [] = Inr ()"
| "try_for check (x # xs) = and_then (check x) (\<lambda>_. try_for check xs)"

definition usb_states :: "string list" where
  "usb_states = [''trusted'', ''unknown'', ''conflict'', ''unavailable'', ''resolving'', ''empty'', ''unloading'']"

definition source_states :: "string list" where
  "source_states = [''trusted'', ''unknown'', ''conflict'', ''unavailable'', ''resolving'']"

definition is_player :: "u8 \<Rightarrow> bool" where
  "is_player n \<longleftrightarrow> 1 \<le> n \<and> n \<le> 6"

fun validate_usbs :: "u8 set \<Rightarrow> RemotePlayerUSB list \<Rightarrow> ProjectionError + unit" where
  "validate_usbs seen [] = Inr ()"
| "validate_usbs seen (usb # usbs) =
     (if \<not> is_player (rpu_player_number usb) \<or> rpu_player_number usb \<in> seen
         \<or> rpu_state usb \<notin> set usb_states
         \<or> (case rpu_color_id usb of None \<Rightarrow> False | Some i \<Rightarrow> i > 8)
         \<or> (rpu_state usb \<noteq> ''trusted'' \<and> (rpu_source_name usb \<noteq> None \<or> rpu_color_id usb \<noteq> None))
      then Inl InvalidPlayerIdentity
      else and_then (validate_text_opt ''usbSourceName'' (rpu_source_name usb) 128 False) (\<lambda>_.
        validate_usbs (insert (rpu_player_number usb) seen) usbs))"

definition grid_invalid :: "RemoteBeatGrid \<Rightarrow> bool" where
  "grid_invalid grid \<longleftrightarrow>
     \<not> (1 \<le> rbg_beats_per_bar grid \<and> rbg_beats_per_bar grid \<le> 16) \<or> rbg_duration_millis grid = 0
   \<or> list_ex (\<lambda>(a, b). a \<ge> b) (zip (rbg_times_millis grid) (tl (rbg_times_millis grid)))
   \<or> (rbg_times_millis grid \<noteq> [] \<and> last (rbg_times_millis grid) > rbg_duration_millis grid)"

definition validate_grid :: "RemoteBeatGrid option \<Rightarrow> ProjectionError + unit" where
  "validate_grid grid =
     (case grid of
        None \<Rightarrow> Inr ()
      | Some g \<Rightarrow>
          if length (rbg_times_millis g) > MAX_REMOTE_BEATS then Inl BeatGridOversized
          else if grid_invalid g then Inl InvalidBeatGrid else Inr ())"

fun validate_phrases :: "u64 \<Rightarrow> RemotePhrase list \<Rightarrow> ProjectionError + unit" where
  "validate_phrases prior_end [] = Inr ()"
| "validate_phrases prior_end (p # ps) =
     and_then (validate_text ''phraseKind'' (rph_kind p) 64 True) (\<lambda>_.
     and_then (validate_text_opt ''phraseRoleId'' (rph_role_id p) 128 True) (\<lambda>_.
     and_then (validate_text_opt ''phraseRoleName'' (rph_role_name p) 128 True) (\<lambda>_.
     if rph_start_beat p < prior_end \<or> rph_end_beat p \<le> rph_start_beat p then Inl InvalidPhraseRange
     else validate_phrases (rph_end_beat p) ps)))"

definition validate_track :: "RemoteTrack \<Rightarrow> ProjectionError + unit" where
  "validate_track t =
     and_then (validate_text ''title'' (rtk_title t) 512 True) (\<lambda>_.
     and_then (validate_text ''artist'' (rtk_artist t) 512 True) (\<lambda>_.
     and_then (validate_text ''key'' (rtk_key t) 32 True) (\<lambda>_.
     if length (rtk_waveform t) > MAX_REMOTE_WAVEFORM_POINTS then Inl WaveformOversized
     else if length (rtk_hot_cues t) > MAX_REMOTE_HOT_CUES then Inl TooManyHotCues
     else if length (rtk_phrases t) > MAX_REMOTE_PHRASES then Inl TooManyPhrases
     else and_then (validate_grid (rtk_beat_grid t)) (\<lambda>_. validate_phrases 0 (rtk_phrases t)))))"

definition validate_track_source :: "RemoteTrackSource \<Rightarrow> ProjectionError + unit" where
  "validate_track_source source =
     (if (case rts_player_number source of None \<Rightarrow> False | Some n \<Rightarrow> \<not> is_player n)
         \<or> rts_state source \<notin> set source_states
         \<or> (case rts_color_id source of None \<Rightarrow> False | Some i \<Rightarrow> i > 8)
         \<or> (rts_state source \<noteq> ''trusted'' \<and> (rts_source_name source \<noteq> None \<or> rts_color_id source \<noteq> None))
      then Inl InvalidPlayerIdentity
      else and_then (validate_text ''trackSourceSlot'' (rts_slot source) 32 False) (\<lambda>_.
        validate_text_opt ''trackSourceName'' (rts_source_name source) 128 False))"

definition validate_player :: "RemotePlayer \<Rightarrow> ProjectionError + unit" where
  "validate_player p =
     (if \<not> is_player (rpl_player_number p) \<or> rpl_track_load_id p = 0
         \<or> rta_track_load_id (rpl_transport p) \<noteq> rpl_track_load_id p
      then Inl InvalidPlayerIdentity
      else if (case rta_published_at_unix_millis (rpl_transport p) of
                 None \<Rightarrow> False | Some published \<Rightarrow> published < rta_observed_at_unix_millis (rpl_transport p))
      then Inl InvalidTransportAnchor
      else and_then (validate_text_opt ''hardwareModel'' (rpl_hardware_model p) 96 True) (\<lambda>_.
      and_then (case rpl_track_source p of None \<Rightarrow> Inr () | Some source \<Rightarrow> validate_track_source source) (\<lambda>_.
      validate_track (rpl_track p))))"

definition validate_choice :: "RemoteAutoloopChoice \<Rightarrow> ProjectionError + unit" where
  "validate_choice choice =
     (if \<not> (1 \<le> rac_number choice \<and> rac_number choice \<le> 32)
         \<or> \<not> (1 \<le> rac_bank_number choice \<and> rac_bank_number choice \<le> 4)
      then Inl InvalidPlanCue
      else validate_text ''autoloopChoiceName'' (rac_name choice) 256 False)"

fun validate_cues :: "nat \<Rightarrow> RemotePlanCue list \<Rightarrow> ProjectionError + unit" where
  "validate_cues index [] = Inr ()"
| "validate_cues index (cue # cues) =
     (if unat (rpc_phrase_index cue) \<noteq> index \<or> rpc_end_beat cue \<le> rpc_start_beat cue then Inl InvalidPlanCue
      else if (case rpc_autoloop_number cue of None \<Rightarrow> False | Some n \<Rightarrow> \<not> (1 \<le> n \<and> n \<le> 32)) then Inl InvalidPlanCue
      else and_then (validate_text_opt ''themeName'' (rpc_theme_name cue) 256 True) (\<lambda>_.
      and_then (validate_text_opt ''autoloopName'' (rpc_autoloop_name cue) 256 True) (\<lambda>_.
      and_then (validate_text_opt ''staticLookName'' (rpc_static_look_name cue) 256 True) (\<lambda>_.
      and_then (try_for validate_choice (rpc_available_autoloops cue)) (\<lambda>_.
      validate_cues (Suc index) cues)))))"

definition validate_light_plan :: "RemotePlayer list \<Rightarrow> RemoteLightPlan \<Rightarrow> ProjectionError + unit" where
  "validate_light_plan players plan =
     and_then (validate_text ''planId'' (rlp_plan_id plan) 128 False) (\<lambda>_.
     if \<not> list_ex (\<lambda>p. rpl_player_number p = rlp_player_number plan \<and> rpl_track_load_id p = rlp_track_load_id plan) players
     then Inl PlanPlayerMismatch
     else if length (rlp_cues plan) > MAX_REMOTE_PHRASES then Inl TooManyPlanCues
     else validate_cues 0 (rlp_cues plan))"

definition validate_role_option :: "RemotePhraseRoleOption \<Rightarrow> ProjectionError + unit" where
  "validate_role_option role =
     and_then (validate_text ''phraseRoleOptionId'' (rro_id role) 128 False) (\<lambda>_.
     validate_text ''phraseRoleOptionName'' (rro_name role) 128 False)"

text \<open>\<open>[&a, &b].into_iter().flatten()\<close>\<close>

definition plans_of :: "RemoteLiveProjection \<Rightarrow> RemoteLightPlan list" where
  "plans_of p = (case prj_live_plan p of None \<Rightarrow> [] | Some a \<Rightarrow> [a]) @ (case prj_next_plan p of None \<Rightarrow> [] | Some b \<Rightarrow> [b])"

definition projection_validate :: "RemoteLiveProjection \<Rightarrow> ProjectionError + unit" where
  "projection_validate p =
     and_then (validate_text ''engineVersion'' (prj_engine_version p) 64 False) (\<lambda>_.
     if length (prj_players p) > MAX_REMOTE_PLAYERS then Inl TooManyPlayers
     else if length (prj_player_usbs p) > 6 then Inl TooManyPlayers
     else and_then (validate_usbs {} (prj_player_usbs p)) (\<lambda>_.
     if \<bar>ris_timing_offset_millis (prj_integrations p)\<bar> > 250
        \<or> (case ris_pending_timing_offset_millis (prj_integrations p) of None \<Rightarrow> False | Some v \<Rightarrow> \<bar>v\<bar> > 250)
     then Inl InvalidTimingOffset
     else if (case prj_leader_player_number p of
                None \<Rightarrow> False | Some leader \<Rightarrow> \<not> list_ex (\<lambda>x. rpl_player_number x = leader) (prj_players p))
     then Inl UnknownLeader
     else and_then (try_for validate_player (prj_players p)) (\<lambda>_.
     and_then (try_for (validate_light_plan (prj_players p)) (plans_of p)) (\<lambda>_.
     and_then (try_for (\<lambda>theme. validate_text ''themeOptionName'' (rto_name theme) 128 False) (prj_theme_options p)) (\<lambda>_.
     try_for validate_role_option (prj_phrase_role_options p))))))"

section \<open>Display text\<close>

fun push_chars :: "nat \<Rightarrow> string \<Rightarrow> string list \<Rightarrow> string" where
  "push_chars maximum text [] = text"
| "push_chars maximum text (c # cs) =
     (if length text + length c > maximum then text else push_chars maximum (text @ c) cs)"

definition display_text :: "nat \<Rightarrow> string \<Rightarrow> string" where
  "display_text maximum value = push_chars maximum [] (filter (\<lambda>c. \<not> is_control c) (chars value))"

definition normalize_usb :: "RemotePlayerUSB \<Rightarrow> RemotePlayerUSB" where
  "normalize_usb usb = usb\<lparr>rpu_source_name := map_option (display_text 128) (rpu_source_name usb)\<rparr>"

definition normalize_phrase :: "RemotePhrase \<Rightarrow> RemotePhrase" where
  "normalize_phrase p = p\<lparr>rph_role_name := map_option (display_text 128) (rph_role_name p)\<rparr>"

definition normalize_track :: "RemoteTrack \<Rightarrow> RemoteTrack" where
  "normalize_track t = t\<lparr>rtk_title := display_text 512 (rtk_title t), rtk_artist := display_text 512 (rtk_artist t),
     rtk_phrases := map normalize_phrase (rtk_phrases t)\<rparr>"

definition normalize_player :: "RemotePlayer \<Rightarrow> RemotePlayer" where
  "normalize_player p = p\<lparr>
     rpl_track_source := map_option (\<lambda>s. s\<lparr>rts_source_name := map_option (display_text 128) (rts_source_name s)\<rparr>) (rpl_track_source p),
     rpl_hardware_model := map_option (display_text 96) (rpl_hardware_model p),
     rpl_track := normalize_track (rpl_track p)\<rparr>"

definition normalize_cue :: "RemotePlanCue \<Rightarrow> RemotePlanCue" where
  "normalize_cue c = c\<lparr>rpc_theme_name := map_option (display_text 256) (rpc_theme_name c),
     rpc_autoloop_name := map_option (display_text 256) (rpc_autoloop_name c),
     rpc_static_look_name := map_option (display_text 256) (rpc_static_look_name c),
     rpc_available_autoloops := map (\<lambda>a. a\<lparr>rac_name := display_text 256 (rac_name a)\<rparr>) (rpc_available_autoloops c)\<rparr>"

definition normalize_plan :: "RemoteLightPlan \<Rightarrow> RemoteLightPlan" where
  "normalize_plan p = p\<lparr>rlp_cues := map normalize_cue (rlp_cues p)\<rparr>"

definition normalize_display_text :: "RemoteLiveProjection \<Rightarrow> RemoteLiveProjection" where
  "normalize_display_text p = p\<lparr>
     prj_player_usbs := map normalize_usb (prj_player_usbs p),
     prj_players := map normalize_player (prj_players p),
     prj_theme_options := map (\<lambda>t. t\<lparr>rto_name := display_text 128 (rto_name t)\<rparr>) (prj_theme_options p),
     prj_phrase_role_options := map (\<lambda>r. r\<lparr>rro_name := display_text 128 (rro_name r)\<rparr>) (prj_phrase_role_options p),
     prj_live_plan := map_option normalize_plan (prj_live_plan p),
     prj_next_plan := map_option normalize_plan (prj_next_plan p)\<rparr>"

section \<open>The snapshot of the engine\<close>

record EngineUSBMediaWire =
  eum_state :: string
  eum_source_name :: "string option"
  eum_color_id :: "u8 option"

record EngineDiscoveredPlayerWire =
  edp_player_number :: u8
  edp_usb_media :: "EngineUSBMediaWire option"

record EngineDeckSourceWire =
  eds_mode :: string
  eds_status :: string

record EngineMidiStatusWire =
  ems_state :: string
  ems_timing_offset_millis :: i16
  ems_pending_timing_offset_millis :: "i16 option"
  ems_launch :: "RemoteInitialLaunch option"

record EngineLinkStatusWire =
  els_enabled :: bool
  els_state :: string
  els_bpm_milli :: "u64 option"

record EngineKeyWire =
  ekw_pitch_class :: string
  ekw_mode :: string
  ekw_known :: bool

record EngineWaveformWire =
  eww_style :: string
  eww_points :: "RemoteWaveformPoint list"

record EnginePhraseRoleWire =
  epr_role_id :: string
  epr_role_name :: string
  epr_color_rgb :: "u32 option"

record EnginePhraseWire =
  epw_index :: u64
  epw_start_beat :: u64
  epw_end_beat :: u64
  epw_kind :: string
  epw_role :: "EnginePhraseRoleWire option"

record EngineTrackWire =
  etw_id :: "u64 option"
  etw_title :: string
  etw_artist :: string
  etw_bpm_milli :: u64
  etw_color_rgb :: "u32 option"
  etw_key :: EngineKeyWire
  etw_duration_beats :: u64
  etw_beat_grid :: "RemoteBeatGrid option"
  etw_waveform_preview :: "EngineWaveformWire option"
  etw_hot_cues :: "RemoteHotCue list"
  etw_phrases :: "EnginePhraseWire list"

record EngineDeckWire =
  edw_deck_id :: u64
  edw_hardware_model :: "string option"
  edw_track_load_id :: u64
  edw_beat :: u64
  edw_effective_bpm_milli :: u64
  edw_playing :: bool
  edw_playback_position_millis :: "u64 option"
  edw_playback_position_observed_at_unix_millis :: "u64 option"
  edw_transport_revision :: "u64 option"
  edw_track :: EngineTrackWire
  edw_track_source :: "RemoteTrackSource option"

record EngineAutoloopChoiceWire =
  eac_id :: u64
  eac_name :: string
  eac_bank_number :: u64

record EngineModifierChoiceWire =
  emc_name :: string
  emc_kind :: string

record EngineLibraryResolutionWire =
  elr_autoloop_number :: "u8 option"
  elr_dry_run_entry :: "string option"
  elr_choices :: "EngineAutoloopChoiceWire list"
  elr_modifier_choices :: "EngineModifierChoiceWire list"

record EnginePlanActionWire =
  epa_theme_id :: "u64 option"
  epa_theme_name :: "string option"

record EnginePlanCueWire =
  epc_phrase_index :: u64
  epc_start_beat :: u64
  epc_end_beat :: u64
  epc_locked :: bool
  epc_action :: EnginePlanActionWire
  epc_library_resolution :: "EngineLibraryResolutionWire option"

record EngineThemeDecisionWire =
  etd_theme_id :: u64
  etd_theme_name :: string

record EnginePlanWire =
  epl_plan_id :: string
  epl_deck_id :: u64
  epl_track_load_id :: u64
  epl_revision :: u64
  epl_theme_decision :: "EngineThemeDecisionWire option"
  epl_cues :: "EnginePlanCueWire list"

record EngineThemeWire =
  eth_id :: u64
  eth_name :: string

record EnginePhraseRoleOptionWire =
  ero_id :: string
  ero_name :: string
  ero_color_rgb :: u32

record EnginePlanningOptionsWire =
  epo_themes :: "EngineThemeWire list"
  epo_phrase_roles :: "EnginePhraseRoleOptionWire list"

record EngineSnapshotWire =
  esw_kind :: string
  esw_state_revision :: u64
  esw_operation_state :: string
  esw_engine_version :: string
  esw_leader_deck_id :: "u64 option"
  esw_deck_source :: EngineDeckSourceWire
  esw_deck_input_integration :: "EngineDiscoveredPlayerWire list option"
  esw_midi_integration :: "EngineMidiStatusWire option"
  esw_ableton_link_integration :: "EngineLinkStatusWire option"
  esw_decks :: "EngineDeckWire list"
  esw_live_plan :: "EnginePlanWire option"
  esw_next_plan :: "EnginePlanWire option"
  esw_planning_options :: EnginePlanningOptionsWire

text \<open>\<open>u8::try_from\<close> and \<open>u16::try_from\<close> of a \<open>u64\<close>.\<close>

definition try_u8 :: "u64 \<Rightarrow> u8 option" where
  "try_u8 n = (if unat n < 2 ^ 8 then Some (ucast n) else None)"

definition try_u16 :: "u64 \<Rightarrow> u16 option" where
  "try_u16 n = (if unat n < 2 ^ 16 then Some (ucast n) else None)"

definition operation_state :: "string \<Rightarrow> ProjectionError + RemoteOperationState" where
  "operation_state value =
     (if value = ''off'' then Inr RemoteOff
      else if value = ''armed'' then Inr RemoteArmed
      else if value = ''live'' then Inr RemoteLive
      else if value = ''paused'' then Inr RemotePaused
      else Inl InvalidOperationState)"

definition integration_health :: "string \<Rightarrow> IntegrationHealth" where
  "integration_health value =
     (if value = ''ready'' \<or> value = ''running'' then HealthReady
      else if value = ''starting'' then HealthStarting
      else if value = ''degraded'' \<or> value = ''error'' \<or> value = ''failed'' then HealthDegraded
      else HealthUnavailable)"

definition phrase_into_remote :: "EnginePhraseWire \<Rightarrow> ProjectionError + RemotePhrase" where
  "phrase_into_remote w =
     and_then (ok_or (try_u16 (epw_index w)) TooManyPhrases) (\<lambda>i.
       Inr \<lparr>rph_index = i, rph_start_beat = epw_start_beat w, rph_end_beat = epw_end_beat w, rph_kind = epw_kind w,
            rph_role_id = map_option epr_role_id (epw_role w), rph_role_name = map_option epr_role_name (epw_role w),
            rph_color_rgb = Option.bind (epw_role w) epr_color_rgb\<rparr>)"

definition track_into_remote :: "EngineTrackWire \<Rightarrow> ProjectionError + RemoteTrack" where
  "track_into_remote w =
     (if (case etw_waveform_preview w of None \<Rightarrow> False | Some waveform \<Rightarrow> eww_style waveform \<noteq> ''rgb'')
      then Inl InvalidWaveformStyle
      else and_then (try_map phrase_into_remote (etw_phrases w)) (\<lambda>phrases.
        Inr \<lparr>rtk_track_id = etw_id w, rtk_title = etw_title w, rtk_artist = etw_artist w,
             rtk_original_bpm_milli = etw_bpm_milli w, rtk_color_rgb = etw_color_rgb w,
             rtk_key = (if ekw_known (etw_key w) then ekw_pitch_class (etw_key w) @ '' '' @ ekw_mode (etw_key w) else []),
             rtk_duration_beats = etw_duration_beats w, rtk_beat_grid = etw_beat_grid w,
             rtk_waveform = (case etw_waveform_preview w of None \<Rightarrow> [] | Some waveform \<Rightarrow> eww_points waveform),
             rtk_hot_cues = etw_hot_cues w, rtk_phrases = phrases\<rparr>))"

definition deck_into_remote :: "u64 \<Rightarrow> EngineDeckWire \<Rightarrow> ProjectionError + RemotePlayer" where
  "deck_into_remote observed w =
     and_then (ok_or (try_u8 (edw_deck_id w)) InvalidPlayerIdentity) (\<lambda>n.
     and_then (track_into_remote (edw_track w)) (\<lambda>track.
       Inr \<lparr>rpl_player_number = n, rpl_hardware_model = edw_hardware_model w, rpl_track_load_id = edw_track_load_id w,
            rpl_transport = \<lparr>rta_track_load_id = edw_track_load_id w, rta_beat = edw_beat w,
              rta_position_millis = edw_playback_position_millis w, rta_effective_bpm_milli = edw_effective_bpm_milli w,
              rta_playing = edw_playing w,
              rta_discontinuity_revision = (case edw_transport_revision w of None \<Rightarrow> 0 | Some r \<Rightarrow> r),
              rta_observed_at_unix_millis =
                (case edw_playback_position_observed_at_unix_millis w of None \<Rightarrow> observed | Some t \<Rightarrow> t),
              rta_published_at_unix_millis = Some observed\<rparr>,
            rpl_track = track, rpl_track_source = edw_track_source w\<rparr>))"

definition choice_into_remote :: "EngineAutoloopChoiceWire \<Rightarrow> RemoteAutoloopChoice option" where
  "choice_into_remote w =
     Option.bind (try_u8 (eac_id w)) (\<lambda>number.
     Option.bind (try_u8 (eac_bank_number w)) (\<lambda>bank.
       Some \<lparr>rac_number = number, rac_name = eac_name w, rac_bank_number = bank\<rparr>))"

definition cue_into_remote :: "EnginePlanCueWire \<Rightarrow> ProjectionError + RemotePlanCue" where
  "cue_into_remote w =
     and_then (ok_or (try_u16 (epc_phrase_index w)) TooManyPlanCues) (\<lambda>i.
       let resolution = epc_library_resolution w in
       Inr \<lparr>rpc_phrase_index = i, rpc_start_beat = epc_start_beat w, rpc_end_beat = epc_end_beat w,
            rpc_locked = epc_locked w, rpc_theme_id = epa_theme_id (epc_action w),
            rpc_theme_name = epa_theme_name (epc_action w),
            rpc_autoloop_number = Option.bind resolution elr_autoloop_number,
            rpc_autoloop_name = Option.bind resolution elr_dry_run_entry,
            rpc_static_look_name = map_option emc_name
              (Option.bind resolution (\<lambda>r. find (\<lambda>m. emc_kind m = ''staticLook'') (elr_modifier_choices r))),
            rpc_available_autoloops =
              (case resolution of None \<Rightarrow> [] | Some r \<Rightarrow> List.map_filter choice_into_remote (elr_choices r))\<rparr>)"

definition plan_into_remote :: "EnginePlanWire \<Rightarrow> ProjectionError + RemoteLightPlan" where
  "plan_into_remote w =
     and_then (ok_or (try_u8 (epl_deck_id w)) InvalidPlayerIdentity) (\<lambda>n.
     and_then (try_map cue_into_remote (epl_cues w)) (\<lambda>cues.
       Inr \<lparr>rlp_plan_id = epl_plan_id w, rlp_player_number = n, rlp_track_load_id = epl_track_load_id w,
            rlp_revision = epl_revision w, rlp_theme_id = map_option etd_theme_id (epl_theme_decision w),
            rlp_theme_name = map_option etd_theme_name (epl_theme_decision w), rlp_cues = cues\<rparr>))"

text \<open>\<open>option.map(f).transpose()?\<close>\<close>

definition transpose_opt :: "('a \<Rightarrow> 'e + 'b) \<Rightarrow> 'a option \<Rightarrow> 'e + 'b option" where
  "transpose_opt f x = (case x of None \<Rightarrow> Inr None | Some a \<Rightarrow> and_then (f a) (\<lambda>b. Inr (Some b)))"

text \<open>The players a remote shows: the leader, the players of the plans, then the others in order.\<close>

fun select_decks :: "u64 set \<Rightarrow> u64 list \<Rightarrow> u64 list \<Rightarrow> u64 list" where
  "select_decks loaded selected [] = selected"
| "select_decks loaded selected (c # cs) =
     (if length selected < MAX_REMOTE_PLAYERS \<and> c \<notin> set selected \<and> c \<in> loaded
      then select_decks loaded (selected @ [c]) cs
      else select_decks loaded selected cs)"

definition deck_candidates :: "EngineSnapshotWire \<Rightarrow> u64 list" where
  "deck_candidates w =
     (case esw_leader_deck_id w of None \<Rightarrow> [] | Some d \<Rightarrow> [d])
     @ (case esw_live_plan w of None \<Rightarrow> [] | Some plan \<Rightarrow> [epl_deck_id plan])
     @ (case esw_next_plan w of None \<Rightarrow> [] | Some plan \<Rightarrow> [epl_deck_id plan])
     @ sort (map edw_deck_id (esw_decks w))"

definition selected_decks :: "EngineSnapshotWire \<Rightarrow> u64 list" where
  "selected_decks w = select_decks (set (map edw_deck_id (esw_decks w))) [] (deck_candidates w)"

definition keep_if :: "('a \<Rightarrow> bool) \<Rightarrow> 'a option \<Rightarrow> 'a option" where
  "keep_if P x = (case x of None \<Rightarrow> None | Some a \<Rightarrow> if P a then Some a else None)"

definition restrict_wire :: "EngineSnapshotWire \<Rightarrow> EngineSnapshotWire" where
  "restrict_wire w =
     (let selected = selected_decks w in
      w\<lparr>esw_decks := filter (\<lambda>d. edw_deck_id d \<in> set selected) (esw_decks w),
        esw_leader_deck_id := keep_if (\<lambda>d. d \<in> set selected) (esw_leader_deck_id w),
        esw_live_plan := keep_if (\<lambda>p. epl_deck_id p \<in> set selected) (esw_live_plan w),
        esw_next_plan := keep_if (\<lambda>p. epl_deck_id p \<in> set selected) (esw_next_plan w)\<rparr>)"

definition usb_into_remote :: "EngineDiscoveredPlayerWire \<Rightarrow> RemotePlayerUSB option" where
  "usb_into_remote player =
     (if \<not> is_player (edp_player_number player) then None
      else map_option (\<lambda>media.
        let trusted = (eum_state media = ''trusted'') in
        \<lparr>rpu_player_number = edp_player_number player, rpu_state = eum_state media,
         rpu_source_name = keep_if (\<lambda>_. trusted) (eum_source_name media),
         rpu_color_id = keep_if (\<lambda>_. trusted) (eum_color_id media)\<rparr>) (edp_usb_media player))"

definition integrations_of :: "EngineSnapshotWire \<Rightarrow> RemoteIntegrationStatus" where
  "integrations_of w =
     \<lparr>ris_pro_dj_link = integration_health (eds_status (esw_deck_source w)),
      ris_light_output = (case esw_midi_integration w of None \<Rightarrow> HealthUnavailable | Some s \<Rightarrow> integration_health (ems_state s)),
      ris_ableton_link = (case esw_ableton_link_integration w of None \<Rightarrow> HealthUnavailable | Some s \<Rightarrow> integration_health (els_state s)),
      ris_ableton_link_enabled = (case esw_ableton_link_integration w of None \<Rightarrow> False | Some s \<Rightarrow> els_enabled s),
      ris_ableton_link_bpm_milli = Option.bind (esw_ableton_link_integration w) els_bpm_milli,
      ris_timing_offset_millis = (case esw_midi_integration w of None \<Rightarrow> 0 | Some s \<Rightarrow> ems_timing_offset_millis s),
      ris_pending_timing_offset_millis = Option.bind (esw_midi_integration w) ems_pending_timing_offset_millis,
      ris_launch = Option.bind (esw_midi_integration w) ems_launch\<rparr>"

definition assemble :: "u64 \<Rightarrow> u64 \<Rightarrow> EngineSnapshotWire \<Rightarrow> ProjectionError + RemoteLiveProjection" where
  "assemble revision observed w =
     and_then (try_map (deck_into_remote observed) (esw_decks w)) (\<lambda>players.
     and_then (operation_state (esw_operation_state w)) (\<lambda>operation.
     and_then (transpose_opt (\<lambda>d. ok_or (try_u8 d) InvalidPlayerIdentity) (esw_leader_deck_id w)) (\<lambda>leader.
     and_then (transpose_opt plan_into_remote (esw_live_plan w)) (\<lambda>live.
     and_then (transpose_opt plan_into_remote (esw_next_plan w)) (\<lambda>next.
       Inr \<lparr>prj_projection_revision = revision, prj_state_revision = esw_state_revision w,
            prj_engine_version = esw_engine_version w, prj_operation_state = operation,
            prj_leader_player_number = leader, prj_integrations = integrations_of w, prj_players = players,
            prj_player_usbs = (case esw_deck_input_integration w of
               None \<Rightarrow> [] | Some players \<Rightarrow> List.map_filter usb_into_remote players),
            prj_live_plan = live, prj_next_plan = next,
            prj_theme_options = map (\<lambda>t. \<lparr>rto_id = eth_id t, rto_name = eth_name t\<rparr>) (epo_themes (esw_planning_options w)),
            prj_phrase_role_options = map (\<lambda>r. \<lparr>rro_id = ero_id r, rro_name = ero_name r, rro_color_rgb = ero_color_rgb r\<rparr>)
              (epo_phrase_roles (esw_planning_options w))\<rparr>)))))"

definition from_engine_snapshot :: "EngineSnapshotWire \<Rightarrow> u64 \<Rightarrow> u64 \<Rightarrow> ProjectionError + RemoteLiveProjection" where
  "from_engine_snapshot w revision observed =
     (if esw_kind w \<noteq> ''stateSnapshot'' \<or> eds_mode (esw_deck_source w) \<noteq> ''connectedDecks'' then Inl NotConnectedDecks
      else and_then (assemble revision observed (restrict_wire w)) (\<lambda>p.
        let projection = normalize_display_text p in
        and_then (projection_validate projection) (\<lambda>_. Inr projection)))"

text \<open>The whole conversion; \<open>from_value\<close> is the derived deserialisation of the snapshot.\<close>

definition from_engine_snapshot_payload ::
  "('p \<Rightarrow> string + EngineSnapshotWire) \<Rightarrow> 'p \<Rightarrow> u64 \<Rightarrow> u64 \<Rightarrow> ProjectionError + RemoteLiveProjection" where
  "from_engine_snapshot_payload from_value payload revision observed =
     and_then (map_err InvalidEngineSnapshot (from_value payload)) (\<lambda>w. from_engine_snapshot w revision observed)"

section \<open>Properties of waveform points\<close>

lemma code_of_hex_digit: "d < 16 \<Longrightarrow> code_of (hex_digit d) = (if d < 10 then 48 + d else 87 + d)"
  by (simp add: hex_digit_def code_of_def)

lemma hex_nibble_digit: "d < 16 \<Longrightarrow> hex_nibble (hex_digit d) = Some (of_nat d)"
  by (auto simp: hex_nibble_def code_of_hex_digit)

lemma or_nibbles: "or (push_bit 4 (of_nat (unat b div 16))) (of_nat (unat b mod 16)) = (b :: u8)"
proof -
  have high: "of_nat (unat b div 16) = drop_bit 4 b"
    using word_arith_nat_div [of b 16] by (simp add: drop_bit_eq_div)
  have low: "of_nat (unat b mod 16) = take_bit 4 b"
    using word_arith_nat_mod [of b 16] by (simp add: take_bit_eq_mod)
  show ?thesis
    unfolding high low
    by (rule bit_word_eqI) (auto simp: bit_or_iff bit_push_bit_iff bit_drop_bit_eq bit_take_bit_iff)
qed

lemma decode_hex_byte: "decode_pair (hex_digit (unat b div 16)) (hex_digit (unat b mod 16)) = Some (b :: u8)"
proof -
  have "unat b < 256" using unsigned_less [of b, where ?'a = nat] by simp
  then have "unat b div 16 < 16" by simp
  then show ?thesis by (simp add: decode_pair_def hex_nibble_digit or_nibbles)
qed

text \<open>A waveform point survives the six hexadecimal characters it travels as.\<close>

theorem waveform_point_roundtrip: "deserialize_point (serialize_point p) = Some p"
  by (cases p) (simp add: serialize_point_def hex_byte_def decode_hex_byte)

section \<open>Properties of display text\<close>

lemma push_chars_take:
  "\<exists>n. push_chars maximum acc cs = acc @ concat (take n cs)"
proof (induction cs arbitrary: acc)
  case (Cons c cs)
  show ?case
  proof (cases "length acc + length c > maximum")
    case True
    then show ?thesis by (intro exI [of _ 0]) simp
  next
    case False
    from Cons [of "acc @ c"] obtain n where "push_chars maximum (acc @ c) cs = (acc @ c) @ concat (take n cs)" ..
    with False show ?thesis by (intro exI [of _ "Suc n"]) simp
  qed
qed simp

lemma push_chars_bounded: "length acc \<le> maximum \<Longrightarrow> length (push_chars maximum acc cs) \<le> maximum"
  by (induction cs arbitrary: acc) auto

lemma push_chars_all: "length acc + length (concat cs) \<le> maximum \<Longrightarrow> push_chars maximum acc cs = acc @ concat cs"
  by (induction cs arbitrary: acc) auto

lemma display_text_bounded: "length (display_text maximum v) \<le> maximum"
  by (simp add: display_text_def push_chars_bounded)

lemma display_text_no_control: "\<not> has_control (display_text maximum v)"
proof -
  let ?kept = "filter (\<lambda>c. \<not> is_control c) (chars v)"
  obtain n where n: "display_text maximum v = concat (take n ?kept)"
    using push_chars_take [of maximum "[]" ?kept] by (auto simp: display_text_def)
  have "char_groups (take n ?kept)" by (intro char_groups_take char_groups_filter char_groups_chars)
  then have "chars (display_text maximum v) = take n ?kept" by (simp add: n chars_concat)
  then show ?thesis by (auto simp: has_control_def list_ex_iff dest: in_set_takeD)
qed

lemma display_text_plain: "length v \<le> maximum \<Longrightarrow> \<not> has_control v \<Longrightarrow> display_text maximum v = v"
proof -
  assume short: "length v \<le> maximum" and "\<not> has_control v"
  then have "filter (\<lambda>c. \<not> is_control c) (chars v) = chars v"
    by (auto simp: has_control_def list_ex_iff filter_id_conv)
  with short push_chars_all [of "[]" "chars v" maximum] show ?thesis by (simp add: display_text_def)
qed

lemma validate_text_iff [accepted_iff]:
  "validate_text field v maximum may_be_empty = Inr ()
     \<longleftrightarrow> (may_be_empty \<or> v \<noteq> []) \<and> length v \<le> maximum \<and> \<not> has_control v"
  by (auto simp: validate_text_def)

lemma validate_display_text: "validate_text field (display_text maximum v) maximum True = Inr ()"
  by (simp add: accepted_iff display_text_bounded display_text_no_control)

text \<open>
  Display text fits its bound and has no control characters, and it is the given text itself
  exactly when that already was so.
\<close>

theorem display_text_correct:
  "validate_text field (display_text maximum v) maximum True = Inr ()
   \<and> (display_text maximum v = v \<longleftrightarrow> validate_text field v maximum True = Inr ())"
  using display_text_bounded [of maximum v] display_text_no_control [of maximum v]
  by (auto simp: accepted_iff intro: display_text_plain)

section \<open>The projection of a snapshot\<close>

lemma try_for_accepted [accepted_iff]: "try_for check xs = Inr () \<longleftrightarrow> (\<forall>x \<in> set xs. check x = Inr ())"
  by (induction xs) (auto simp: result_simps)

lemma try_for_not_error: "(\<And>x. check x \<noteq> Inl e) \<Longrightarrow> try_for check xs \<noteq> Inl e"
  by (induction xs) (auto simp: result_simps)

lemma list_all2_member: "list_all2 P xs ys \<Longrightarrow> x \<in> set xs \<Longrightarrow> \<exists>y \<in> set ys. P x y"
  by (induction rule: list_all2_induct) auto

lemma validate_usbs_accepted:
  "validate_usbs seen usbs = Inr () \<Longrightarrow>
     distinct (map rpu_player_number usbs) \<and> rpu_player_number ` set usbs \<inter> seen = {}
     \<and> (\<forall>usb \<in> set usbs. is_player (rpu_player_number usb)
          \<and> (rpu_state usb \<noteq> ''trusted'' \<longrightarrow> rpu_source_name usb = None \<and> rpu_color_id usb = None))"
proof (induction usbs arbitrary: seen)
  case (Cons usb usbs)
  let ?n = "rpu_player_number usb"
  from Cons.prems have here: "is_player ?n" "?n \<notin> seen"
    "rpu_state usb \<noteq> ''trusted'' \<longrightarrow> rpu_source_name usb = None \<and> rpu_color_id usb = None"
    and rest: "validate_usbs (insert ?n seen) usbs = Inr ()"
    by (simp_all add: result_simps split: if_split_asm) blast
  have IH: "distinct (map rpu_player_number usbs) \<and> rpu_player_number ` set usbs \<inter> insert ?n seen = {}
     \<and> (\<forall>usb \<in> set usbs. is_player (rpu_player_number usb)
          \<and> (rpu_state usb \<noteq> ''trusted'' \<longrightarrow> rpu_source_name usb = None \<and> rpu_color_id usb = None))"
    by (rule Cons.IH [OF rest])
  then have "?n \<notin> set (map rpu_player_number usbs)" by auto
  with IH here show ?case by simp
qed simp

lemma validate_phrases_accepted:
  "validate_phrases prior ps = Inr () \<Longrightarrow>
     list_all (\<lambda>p. prior \<le> rph_start_beat p \<and> rph_start_beat p < rph_end_beat p) ps
     \<and> sorted_wrt (\<lambda>p q. rph_end_beat p \<le> rph_start_beat q) ps"
proof (induction prior ps rule: validate_phrases.induct)
  case (2 prior p ps)
  then have "prior \<le> rph_start_beat p" "rph_start_beat p < rph_end_beat p" "validate_phrases (rph_end_beat p) ps = Inr ()"
    by (auto simp: result_simps split: if_splits)
  moreover from this 2 have "list_all (\<lambda>q. rph_end_beat p \<le> rph_start_beat q \<and> rph_start_beat q < rph_end_beat q) ps
     \<and> sorted_wrt (\<lambda>p q. rph_end_beat p \<le> rph_start_beat q) ps"
    by (auto simp: result_simps split: if_splits)
  ultimately show ?case by (auto simp: list_all_iff)
qed simp

text \<open>What the snapshot's projection is once it was accepted.\<close>

lemma from_engine_snapshot_accepted:
  assumes "from_engine_snapshot w revision observed = Inr p"
  obtains q where "assemble revision observed (restrict_wire w) = Inr q" "p = normalize_display_text q"
    "projection_validate p = Inr ()" "eds_mode (esw_deck_source w) = ''connectedDecks''"
  using assms by (auto simp: from_engine_snapshot_def Let_def result_simps split: if_splits)

definition player_sound :: "RemotePlayer \<Rightarrow> bool" where
  "player_sound p \<longleftrightarrow> is_player (rpl_player_number p) \<and> rta_track_load_id (rpl_transport p) = rpl_track_load_id p
     \<and> sorted_wrt (\<lambda>p q. rph_end_beat p \<le> rph_start_beat q) (rtk_phrases (rpl_track p))
     \<and> (case rpl_track_source p of None \<Rightarrow> True
        | Some s \<Rightarrow> rts_state s = ''trusted'' \<or> rts_source_name s = None \<and> rts_color_id s = None)"

definition projection_sound :: "RemoteLiveProjection \<Rightarrow> bool" where
  "projection_sound p \<longleftrightarrow> length (prj_players p) \<le> MAX_REMOTE_PLAYERS
     \<and> list_all player_sound (prj_players p)
     \<and> (case prj_leader_player_number p of None \<Rightarrow> True | Some n \<Rightarrow> n \<in> rpl_player_number ` set (prj_players p))
     \<and> distinct (map rpu_player_number (prj_player_usbs p))
     \<and> list_all (\<lambda>u. rpu_state u = ''trusted'' \<or> rpu_source_name u = None \<and> rpu_color_id u = None) (prj_player_usbs p)
     \<and> list_all (\<lambda>plan. (rlp_player_number plan, rlp_track_load_id plan)
            \<in> (\<lambda>x. (rpl_player_number x, rpl_track_load_id x)) ` set (prj_players p)) (plans_of p)"

lemma validate_player_sound: "validate_player p = Inr () \<Longrightarrow> player_sound p"
  by (auto simp: validate_player_def player_sound_def validate_track_def validate_track_source_def result_simps
      split: if_splits option.splits dest!: validate_phrases_accepted)

lemma validate_light_plan_sound:
  "validate_light_plan players plan = Inr () \<Longrightarrow>
     (rlp_player_number plan, rlp_track_load_id plan) \<in> (\<lambda>x. (rpl_player_number x, rpl_track_load_id x)) ` set players"
  by (force simp: validate_light_plan_def list_ex_iff result_simps split: if_splits)

lemma projection_validate_sound: "projection_validate p = Inr () \<Longrightarrow> projection_sound p"
proof -
  assume ok: "projection_validate p = Inr ()"
  then have usbs: "validate_usbs {} (prj_player_usbs p) = Inr ()"
    and players: "\<forall>x \<in> set (prj_players p). validate_player x = Inr ()"
    and plans: "\<forall>x \<in> set (plans_of p). validate_light_plan (prj_players p) x = Inr ()"
    and few: "length (prj_players p) \<le> MAX_REMOTE_PLAYERS"
    by (auto simp: projection_validate_def accepted_iff result_simps split: if_splits)
  from ok have "case prj_leader_player_number p of None \<Rightarrow> True | Some n \<Rightarrow> n \<in> rpl_player_number ` set (prj_players p)"
    by (auto simp: projection_validate_def result_simps list_ex_iff split: if_splits option.splits)
  with few players plans validate_usbs_accepted [OF usbs] show ?thesis
    by (auto simp: projection_sound_def list_all_iff intro: validate_player_sound validate_light_plan_sound)
qed

text \<open>A snapshot with three decks of which the second leads, and a medium that is not trusted.\<close>

definition demo_deck_wire :: "u64 \<Rightarrow> u64 \<Rightarrow> EngineDeckWire" where
  "demo_deck_wire n load = \<lparr>edw_deck_id = n, edw_hardware_model = None, edw_track_load_id = load, edw_beat = 1,
     edw_effective_bpm_milli = 128000, edw_playing = True, edw_playback_position_millis = None,
     edw_playback_position_observed_at_unix_millis = None, edw_transport_revision = None,
     edw_track = \<lparr>etw_id = Some n, etw_title = ''T'', etw_artist = ''A'', etw_bpm_milli = 128000, etw_color_rgb = None,
       etw_key = \<lparr>ekw_pitch_class = [], ekw_mode = [], ekw_known = False\<rparr>, etw_duration_beats = 64,
       etw_beat_grid = None, etw_waveform_preview = None, etw_hot_cues = [],
       etw_phrases = [\<lparr>epw_index = 0, epw_start_beat = 1, epw_end_beat = 33, epw_kind = ''intro'', epw_role = None\<rparr>]\<rparr>,
     edw_track_source = None\<rparr>"

definition demo_wire :: EngineSnapshotWire where
  "demo_wire = \<lparr>esw_kind = ''stateSnapshot'', esw_state_revision = 7, esw_operation_state = ''live'',
     esw_engine_version = ''1'', esw_leader_deck_id = Some 2,
     esw_deck_source = \<lparr>eds_mode = ''connectedDecks'', eds_status = ''ready''\<rparr>,
     esw_deck_input_integration = Some [\<lparr>edp_player_number = 2,
       edp_usb_media = Some \<lparr>eum_state = ''unknown'', eum_source_name = Some ''USB'', eum_color_id = Some 3\<rparr>\<rparr>],
     esw_midi_integration = None, esw_ableton_link_integration = None,
     esw_decks = [demo_deck_wire 3 5, demo_deck_wire 1 6, demo_deck_wire 2 7],
     esw_live_plan = None, esw_next_plan = None,
     esw_planning_options = \<lparr>epo_themes = [], epo_phrase_roles = []\<rparr>\<rparr>"

lemmas demo_projection_simps = from_engine_snapshot_def demo_wire_def demo_deck_wire_def restrict_wire_def selected_decks_def
  deck_candidates_def keep_if_def assemble_def deck_into_remote_def track_into_remote_def phrase_into_remote_def
  try_u8_def try_u16_def operation_state_def transpose_opt_def usb_into_remote_def is_player_def map_filter_simps
  normalize_display_text_def normalize_player_def normalize_track_def normalize_phrase_def normalize_usb_def
  projection_validate_def validate_text_def validate_text_opt_def validate_player_def validate_track_def
  validate_grid_def plans_of_def integrations_of_def has_control_def is_continuation_def code_of_def display_text_def
  usb_states_def MAX_REMOTE_PLAYERS_def MAX_REMOTE_WAVEFORM_POINTS_def MAX_REMOTE_HOT_CUES_def MAX_REMOTE_PHRASES_def
  word_le_nat_alt word_less_nat_alt Let_def

lemma demo_projection:
  "\<exists>p. from_engine_snapshot demo_wire 1 1000 = Inr p \<and> prj_leader_player_number p = Some 2
     \<and> map rpu_source_name (prj_player_usbs p) = [None] \<and> map (rtk_track_id \<circ> rpl_track) (prj_players p) = [Some 1, Some 2]"
  by (simp add: demo_projection_simps)

subsection \<open>The selection of players\<close>

lemma select_decks_prefix: "\<exists>more. select_decks loaded selected cs = selected @ more"
proof (induction loaded selected cs rule: select_decks.induct)
  case (2 loaded selected c cs)
  then show ?case by (cases "length selected < MAX_REMOTE_PLAYERS \<and> c \<notin> set selected \<and> c \<in> loaded") auto
qed simp

lemma select_decks_sound:
  "distinct selected \<Longrightarrow> set selected \<subseteq> loaded \<Longrightarrow> length selected \<le> MAX_REMOTE_PLAYERS \<Longrightarrow>
   distinct (select_decks loaded selected cs) \<and> set (select_decks loaded selected cs) \<subseteq> loaded
   \<and> length (select_decks loaded selected cs) \<le> MAX_REMOTE_PLAYERS"
  by (induction loaded selected cs rule: select_decks.induct) auto

lemma select_decks_first:
  "c \<in> loaded \<Longrightarrow> c \<in> set (select_decks loaded [] (c # cs))"
  using select_decks_prefix [of loaded "[c]" cs] by (auto simp: MAX_REMOTE_PLAYERS_def)

lemma select_decks_fills:
  "card (set (select_decks loaded selected cs)) \<ge> min MAX_REMOTE_PLAYERS (card (set selected \<union> (set cs \<inter> loaded)))"
  if "distinct selected" "length selected \<le> MAX_REMOTE_PLAYERS"
  using that
proof (induction loaded selected cs rule: select_decks.induct)
  case (1 loaded selected)
  then show ?case by (simp add: distinct_card)
next
  case (2 loaded selected c cs)
  show ?case
  proof (cases "length selected < MAX_REMOTE_PLAYERS \<and> c \<notin> set selected \<and> c \<in> loaded")
    case True
    with 2 show ?thesis by (simp add: Un_Int_distrib2 Int_insert_left)
  next
    case False
    then consider "length selected = MAX_REMOTE_PLAYERS" | "c \<in> set selected" | "c \<notin> loaded"
      using 2 by linarith
    then show ?thesis
    proof cases
      case 1
      obtain more where "select_decks loaded selected (c # cs) = selected @ more" using select_decks_prefix by blast
      then have "card (set selected) \<le> card (set (select_decks loaded selected (c # cs)))" by (simp add: card_mono)
      with 1 2 show ?thesis by (simp add: distinct_card)
    next
      case selected: 2
      then have "set selected \<union> (set (c # cs) \<inter> loaded) = set selected \<union> (set cs \<inter> loaded)" by auto
      with False 2 selected show ?thesis by simp
    next
      case 3
      with 2 show ?thesis by (simp add: Int_insert_left)
    qed
  qed
qed

lemma selected_decks_sound:
  "distinct (selected_decks w)" "set (selected_decks w) \<subseteq> edw_deck_id ` set (esw_decks w)"
  "length (selected_decks w) \<le> MAX_REMOTE_PLAYERS"
  using select_decks_sound [of "[]" "set (map edw_deck_id (esw_decks w))" "deck_candidates w"]
  by (simp_all add: selected_decks_def)

text \<open>
  The remote's players are distinct decks that have a track, as many as there are up to two,
  and the deck that leads is one of them whenever it has a track.
\<close>

theorem remote_players_selected:
  "distinct (selected_decks w) \<and> set (selected_decks w) \<subseteq> edw_deck_id ` set (esw_decks w)
   \<and> length (selected_decks w) = min MAX_REMOTE_PLAYERS (card (edw_deck_id ` set (esw_decks w)))
   \<and> (case esw_leader_deck_id w of None \<Rightarrow> True
      | Some d \<Rightarrow> (d \<in> set (selected_decks w)) = (d \<in> edw_deck_id ` set (esw_decks w)))"
proof -
  let ?loaded = "edw_deck_id ` set (esw_decks w)"
  have "set (deck_candidates w) \<inter> ?loaded = ?loaded" by (auto simp: deck_candidates_def)
  then have "min MAX_REMOTE_PLAYERS (card ?loaded) \<le> length (selected_decks w)"
    using select_decks_fills [where loaded = ?loaded and selected = "[]" and cs = "deck_candidates w"]
      distinct_card [OF selected_decks_sound(1), of w] by (simp add: selected_decks_def)
  moreover have "length (selected_decks w) \<le> card ?loaded"
    using card_mono [OF _ selected_decks_sound(2)] distinct_card [OF selected_decks_sound(1)] by simp
  moreover have "d \<in> set (selected_decks w)" if "esw_leader_deck_id w = Some d" "d \<in> ?loaded" for d
    using select_decks_first [of d ?loaded] that by (simp add: selected_decks_def deck_candidates_def del: select_decks.simps)
  ultimately show ?thesis
    using selected_decks_sound [of w] by (auto split: option.split)
qed

text \<open>Where the error \<open>UnknownLeader\<close> can come from.\<close>

lemma validate_text_errors: "validate_text field v maximum e \<noteq> Inl UnknownLeader" "validate_text_opt field o' maximum e \<noteq> Inl UnknownLeader"
  by (auto simp: validate_text_opt_def validate_text_def split: option.split)

lemma validate_usbs_errors: "validate_usbs seen usbs \<noteq> Inl UnknownLeader"
proof (induction usbs arbitrary: seen)
  case (Cons usb usbs)
  then show ?case by (simp add: result_simps validate_text_errors)
qed simp

lemma validate_phrases_errors: "validate_phrases prior ps \<noteq> Inl UnknownLeader"
  by (induction ps arbitrary: prior) (simp_all add: result_simps validate_text_errors)

lemma validate_player_errors: "validate_player p \<noteq> Inl UnknownLeader"
  by (simp add: validate_player_def validate_track_def validate_track_source_def validate_grid_def result_simps
      validate_text_errors validate_phrases_errors split: option.split)

lemma validate_choice_errors: "validate_choice c \<noteq> Inl UnknownLeader"
  by (simp add: validate_choice_def validate_text_errors)

lemma validate_cues_errors: "validate_cues i cues \<noteq> Inl UnknownLeader"
proof (induction cues arbitrary: i)
  case (Cons cue cues)
  have "try_for validate_choice (rpc_available_autoloops cue) \<noteq> Inl UnknownLeader"
    by (rule try_for_not_error) (rule validate_choice_errors)
  with Cons show ?case by (simp add: result_simps validate_text_errors)
qed simp

lemma validate_light_plan_errors: "validate_light_plan players plan \<noteq> Inl UnknownLeader"
  by (simp add: validate_light_plan_def result_simps validate_text_errors validate_cues_errors)

lemma projection_validate_leader:
  assumes "projection_validate p = Inl UnknownLeader"
  shows "\<exists>n. prj_leader_player_number p = Some n \<and> n \<notin> rpl_player_number ` set (prj_players p)"
proof -
  have "try_for validate_player (prj_players p) \<noteq> Inl UnknownLeader"
    "try_for (validate_light_plan (prj_players p)) (plans_of p) \<noteq> Inl UnknownLeader"
    "try_for (\<lambda>theme. validate_text ''themeOptionName'' (rto_name theme) 128 False) (prj_theme_options p) \<noteq> Inl UnknownLeader"
    "try_for validate_role_option (prj_phrase_role_options p) \<noteq> Inl UnknownLeader"
    by (rule try_for_not_error, simp_all add: validate_player_errors validate_light_plan_errors validate_text_errors
        validate_role_option_def result_simps)+
  with assms have "case prj_leader_player_number p of None \<Rightarrow> False
      | Some n \<Rightarrow> \<not> list_ex (\<lambda>x. rpl_player_number x = n) (prj_players p)"
    by (simp add: projection_validate_def result_simps validate_text_errors validate_usbs_errors split: if_split_asm)
  then show ?thesis by (auto simp: list_ex_iff split: option.splits)
qed

lemma assemble_not_UnknownLeader: "assemble revision observed w \<noteq> Inl UnknownLeader"
  by (auto simp: assemble_def result_simps deck_into_remote_def track_into_remote_def phrase_into_remote_def
      operation_state_def transpose_opt_def plan_into_remote_def cue_into_remote_def Let_def
      split: option.splits if_splits dest!: try_map_eq_Inl)

lemma assemble_leader:
  assumes "assemble revision observed (restrict_wire w) = Inr q" "prj_leader_player_number q = Some n"
  shows "n \<in> rpl_player_number ` set (prj_players q)"
proof -
  from assms obtain d where d: "esw_leader_deck_id (restrict_wire w) = Some d" "try_u8 d = Some n"
    and players: "list_all2 (\<lambda>x y. deck_into_remote observed x = Inr y) (esw_decks (restrict_wire w)) (prj_players q)"
    by (auto simp: assemble_def result_simps transpose_opt_def split: option.splits)
  from d(1) have "d \<in> set (selected_decks w)"
    by (auto simp: restrict_wire_def keep_if_def Let_def split: option.splits if_splits)
  then obtain deck where "deck \<in> set (esw_decks (restrict_wire w))" "edw_deck_id deck = d"
    using selected_decks_sound(2) [of w] by (auto simp: restrict_wire_def Let_def)
  with players obtain player where "player \<in> set (prj_players q)" "deck_into_remote observed deck = Inr player"
    by (auto dest: list_all2_member)
  with d(2) \<open>edw_deck_id deck = d\<close> have "rpl_player_number player = n"
    by (auto simp: deck_into_remote_def result_simps)
  with \<open>player \<in> _\<close> show ?thesis by blast
qed

text \<open>
  A snapshot is never refused for its leader: a leader whose deck has no track is left out of the
  projection, and one that has a track is shown.
\<close>

theorem remote_leader_known:
  "from_engine_snapshot w revision observed \<noteq> Inl UnknownLeader"
proof
  assume "from_engine_snapshot w revision observed = Inl UnknownLeader"
  then obtain q where q: "assemble revision observed (restrict_wire w) = Inr q"
    and refused: "projection_validate (normalize_display_text q) = Inl UnknownLeader"
    by (auto simp: from_engine_snapshot_def Let_def result_simps assemble_not_UnknownLeader split: if_splits)
  from projection_validate_leader [OF refused] obtain n where
    n: "prj_leader_player_number q = Some n" "n \<notin> rpl_player_number ` set (prj_players q)"
    by (auto simp: normalize_display_text_def normalize_player_def image_image)
  from assemble_leader [OF q n(1)] n(2) show False by simp
qed

subsection \<open>What a remote shows\<close>

text \<open>
  The content of a projection, stated without the functions that build it. Displayed text is the
  text without its control characters, cut after the last character that fits.
\<close>

definition displays :: "nat \<Rightarrow> string \<Rightarrow> string \<Rightarrow> bool" where
  "displays maximum v s \<longleftrightarrow>
     (let kept = filter (\<lambda>c. \<not> is_control c) (chars v) in
      \<exists>n \<le> length kept. s = concat (take n kept) \<and> length s \<le> maximum
        \<and> (n < length kept \<longrightarrow> maximum < length s + length (kept ! n)))"

definition shows_phrase :: "EnginePhraseWire \<Rightarrow> RemotePhrase \<Rightarrow> bool" where
  "shows_phrase w p \<longleftrightarrow> unat (rph_index p) = unat (epw_index w)
     \<and> rph_start_beat p = epw_start_beat w \<and> rph_end_beat p = epw_end_beat w \<and> rph_kind p = epw_kind w
     \<and> (case epw_role w of
          None \<Rightarrow> rph_role_id p = None \<and> rph_role_name p = None \<and> rph_color_rgb p = None
        | Some role \<Rightarrow> rph_role_id p = Some (epr_role_id role) \<and> rph_color_rgb p = epr_color_rgb role
            \<and> (\<exists>name. rph_role_name p = Some name \<and> displays 128 (epr_role_name role) name))"

definition shows_track :: "EngineTrackWire \<Rightarrow> RemoteTrack \<Rightarrow> bool" where
  "shows_track w t \<longleftrightarrow> rtk_track_id t = etw_id w \<and> displays 512 (etw_title w) (rtk_title t)
     \<and> displays 512 (etw_artist w) (rtk_artist t) \<and> rtk_original_bpm_milli t = etw_bpm_milli w
     \<and> rtk_color_rgb t = etw_color_rgb w \<and> rtk_duration_beats t = etw_duration_beats w
     \<and> rtk_key t = (if ekw_known (etw_key w) then concat [ekw_pitch_class (etw_key w), '' '', ekw_mode (etw_key w)] else [])
     \<and> rtk_beat_grid t = etw_beat_grid w \<and> rtk_hot_cues t = etw_hot_cues w
     \<and> (case etw_waveform_preview w of None \<Rightarrow> rtk_waveform t = []
        | Some wave \<Rightarrow> eww_style wave = ''rgb'' \<and> rtk_waveform t = eww_points wave)
     \<and> list_all2 shows_phrase (etw_phrases w) (rtk_phrases t)"

definition shows_source :: "RemoteTrackSource \<Rightarrow> RemoteTrackSource \<Rightarrow> bool" where
  "shows_source w s \<longleftrightarrow> rts_player_number s = rts_player_number w \<and> rts_slot s = rts_slot w \<and> rts_state s = rts_state w
     \<and> rts_color_id s = rts_color_id w \<and> rel_option (displays 128) (rts_source_name w) (rts_source_name s)"

text \<open>A player shows one deck: its number, model, load, transport, track and the source of the track.\<close>

definition shows_player :: "u64 \<Rightarrow> EngineDeckWire \<Rightarrow> RemotePlayer \<Rightarrow> bool" where
  "shows_player observed w p \<longleftrightarrow> unat (rpl_player_number p) = unat (edw_deck_id w)
     \<and> rel_option (displays 96) (edw_hardware_model w) (rpl_hardware_model p)
     \<and> rpl_track_load_id p = edw_track_load_id w
     \<and> rta_track_load_id (rpl_transport p) = edw_track_load_id w
     \<and> rta_beat (rpl_transport p) = edw_beat w
     \<and> rta_position_millis (rpl_transport p) = edw_playback_position_millis w
     \<and> rta_effective_bpm_milli (rpl_transport p) = edw_effective_bpm_milli w
     \<and> rta_playing (rpl_transport p) = edw_playing w
     \<and> rta_discontinuity_revision (rpl_transport p)
         = (if edw_transport_revision w = None then 0 else the (edw_transport_revision w))
     \<and> rta_observed_at_unix_millis (rpl_transport p)
         = (if edw_playback_position_observed_at_unix_millis w = None then observed
            else the (edw_playback_position_observed_at_unix_millis w))
     \<and> rta_published_at_unix_millis (rpl_transport p) = Some observed
     \<and> shows_track (edw_track w) (rpl_track p)
     \<and> rel_option shows_source (edw_track_source w) (rpl_track_source p)"

definition shows_choice :: "EngineAutoloopChoiceWire \<Rightarrow> RemoteAutoloopChoice \<Rightarrow> bool" where
  "shows_choice w c \<longleftrightarrow> unat (rac_number c) = unat (eac_id w) \<and> unat (rac_bank_number c) = unat (eac_bank_number w)
     \<and> displays 256 (eac_name w) (rac_name c)"

text \<open>Only autoloops whose number and bank fit a byte can be chosen; the static look is the first of the modifiers.\<close>

definition shows_resolution :: "EngineLibraryResolutionWire \<Rightarrow> RemotePlanCue \<Rightarrow> bool" where
  "shows_resolution r c \<longleftrightarrow> rpc_autoloop_number c = elr_autoloop_number r
     \<and> rel_option (displays 256) (elr_dry_run_entry r) (rpc_autoloop_name c)
     \<and> (case filter (\<lambda>m. emc_kind m = ''staticLook'') (elr_modifier_choices r) of
          [] \<Rightarrow> rpc_static_look_name c = None
        | m # _ \<Rightarrow> (\<exists>name. rpc_static_look_name c = Some name \<and> displays 256 (emc_name m) name))
     \<and> list_all2 shows_choice (filter (\<lambda>a. unat (eac_id a) < 256 \<and> unat (eac_bank_number a) < 256) (elr_choices r))
         (rpc_available_autoloops c)"

definition shows_cue :: "EnginePlanCueWire \<Rightarrow> RemotePlanCue \<Rightarrow> bool" where
  "shows_cue w c \<longleftrightarrow> unat (rpc_phrase_index c) = unat (epc_phrase_index w)
     \<and> rpc_start_beat c = epc_start_beat w \<and> rpc_end_beat c = epc_end_beat w \<and> rpc_locked c = epc_locked w
     \<and> rpc_theme_id c = epa_theme_id (epc_action w)
     \<and> rel_option (displays 256) (epa_theme_name (epc_action w)) (rpc_theme_name c)
     \<and> (case epc_library_resolution w of
          None \<Rightarrow> rpc_autoloop_number c = None \<and> rpc_autoloop_name c = None \<and> rpc_static_look_name c = None
            \<and> rpc_available_autoloops c = []
        | Some r \<Rightarrow> shows_resolution r c)"

definition shows_plan :: "EnginePlanWire \<Rightarrow> RemoteLightPlan \<Rightarrow> bool" where
  "shows_plan w p \<longleftrightarrow> rlp_plan_id p = epl_plan_id w \<and> unat (rlp_player_number p) = unat (epl_deck_id w)
     \<and> rlp_track_load_id p = epl_track_load_id w \<and> rlp_revision p = epl_revision w
     \<and> (case epl_theme_decision w of
          None \<Rightarrow> rlp_theme_id p = None \<and> rlp_theme_name p = None
        | Some d \<Rightarrow> rlp_theme_id p = Some (etd_theme_id d) \<and> rlp_theme_name p = Some (etd_theme_name d))
     \<and> list_all2 shows_cue (epl_cues w) (rlp_cues p)"

text \<open>A medium shows its name and its colour only when it is trusted.\<close>

definition shows_usb :: "EngineDiscoveredPlayerWire \<Rightarrow> RemotePlayerUSB \<Rightarrow> bool" where
  "shows_usb w u \<longleftrightarrow> (\<exists>media. edp_usb_media w = Some media \<and> rpu_player_number u = edp_player_number w
     \<and> rpu_state u = eum_state media
     \<and> (if eum_state media = ''trusted''
        then rel_option (displays 128) (eum_source_name media) (rpu_source_name u) \<and> rpu_color_id u = eum_color_id media
        else rpu_source_name u = None \<and> rpu_color_id u = None))"

text \<open>
  The decks a remote shows, by their identities: as many as have a track up to two, the leading
  deck and the deck of the live plan first, then the deck of the next plan, then the lowest ones.
\<close>

definition shown_decks :: "EngineSnapshotWire \<Rightarrow> u64 set \<Rightarrow> bool" where
  "shown_decks w S \<longleftrightarrow>
     (let loaded = edw_deck_id ` set (esw_decks w); leading = set_option (esw_leader_deck_id w);
          live = epl_deck_id ` set_option (esw_live_plan w); prepared = epl_deck_id ` set_option (esw_next_plan w) in
      S \<subseteq> loaded \<and> card S = min 2 (card loaded) \<and> (leading \<union> live) \<inter> loaded \<subseteq> S
      \<and> (prepared \<inter> loaded \<subseteq> S \<or> S \<subseteq> leading \<union> live)
      \<and> (\<forall>d \<in> S - (leading \<union> live \<union> prepared). \<forall>e \<in> loaded - S. d < e))"

definition shows_health :: "string \<Rightarrow> IntegrationHealth \<Rightarrow> bool" where
  "shows_health s h \<longleftrightarrow> (h = HealthReady \<longleftrightarrow> s \<in> {''ready'', ''running''}) \<and> (h = HealthStarting \<longleftrightarrow> s = ''starting'')
     \<and> (h = HealthDegraded \<longleftrightarrow> s \<in> {''degraded'', ''error'', ''failed''})"

definition shows_integrations :: "EngineSnapshotWire \<Rightarrow> RemoteIntegrationStatus \<Rightarrow> bool" where
  "shows_integrations w i \<longleftrightarrow> shows_health (eds_status (esw_deck_source w)) (ris_pro_dj_link i)
     \<and> (case esw_midi_integration w of
          None \<Rightarrow> ris_light_output i = HealthUnavailable \<and> ris_timing_offset_millis i = 0
            \<and> ris_pending_timing_offset_millis i = None \<and> ris_launch i = None
        | Some m \<Rightarrow> shows_health (ems_state m) (ris_light_output i) \<and> ris_timing_offset_millis i = ems_timing_offset_millis m
            \<and> ris_pending_timing_offset_millis i = ems_pending_timing_offset_millis m \<and> ris_launch i = ems_launch m)
     \<and> (case esw_ableton_link_integration w of
          None \<Rightarrow> ris_ableton_link i = HealthUnavailable \<and> \<not> ris_ableton_link_enabled i \<and> ris_ableton_link_bpm_milli i = None
        | Some l \<Rightarrow> shows_health (els_state l) (ris_ableton_link i) \<and> ris_ableton_link_enabled i = els_enabled l
            \<and> ris_ableton_link_bpm_milli i = els_bpm_milli l)"

definition shows_operation :: "string \<Rightarrow> RemoteOperationState \<Rightarrow> bool" where
  "shows_operation s st \<longleftrightarrow> (s, st) \<in> {(''off'', RemoteOff), (''armed'', RemoteArmed), (''live'', RemoteLive), (''paused'', RemotePaused)}"

text \<open>A plan is shown when the deck it is for is.\<close>

definition shows_plan_of :: "u64 set \<Rightarrow> EnginePlanWire option \<Rightarrow> RemoteLightPlan option \<Rightarrow> bool" where
  "shows_plan_of S w p \<longleftrightarrow>
     (case w of None \<Rightarrow> p = None
      | Some plan \<Rightarrow> if epl_deck_id plan \<in> S then \<exists>q. p = Some q \<and> shows_plan plan q else p = None)"

definition shows_snapshot :: "EngineSnapshotWire \<Rightarrow> u64 \<Rightarrow> u64 \<Rightarrow> u64 set \<Rightarrow> RemoteLiveProjection \<Rightarrow> bool" where
  "shows_snapshot w revision observed S p \<longleftrightarrow>
     prj_projection_revision p = revision \<and> prj_state_revision p = esw_state_revision w
     \<and> prj_engine_version p = esw_engine_version w \<and> shows_operation (esw_operation_state w) (prj_operation_state p)
     \<and> shows_integrations w (prj_integrations p)
     \<and> list_all2 (shows_player observed) (filter (\<lambda>d. edw_deck_id d \<in> S) (esw_decks w)) (prj_players p)
     \<and> map_option unat (prj_leader_player_number p)
         = (case esw_leader_deck_id w of None \<Rightarrow> None | Some d \<Rightarrow> if d \<in> S then Some (unat d) else None)
     \<and> list_all2 shows_usb
         (filter (\<lambda>d. edp_player_number d \<in> {1..6} \<and> edp_usb_media d \<noteq> None)
            (case esw_deck_input_integration w of None \<Rightarrow> [] | Some ds \<Rightarrow> ds)) (prj_player_usbs p)
     \<and> shows_plan_of S (esw_live_plan w) (prj_live_plan p) \<and> shows_plan_of S (esw_next_plan w) (prj_next_plan p)
     \<and> list_all2 (\<lambda>t r. rto_id r = eth_id t \<and> displays 128 (eth_name t) (rto_name r))
         (epo_themes (esw_planning_options w)) (prj_theme_options p)
     \<and> list_all2 (\<lambda>t r. rro_id r = ero_id t \<and> displays 128 (ero_name t) (rro_name r) \<and> rro_color_rgb r = ero_color_rgb t)
         (epo_phrase_roles (esw_planning_options w)) (prj_phrase_role_options p)"

text \<open>Each conversion followed by the normalisation of its text shows what it converts.\<close>

lemma push_chars_displays:
  "\<exists>n \<le> length cs. push_chars maximum acc cs = acc @ concat (take n cs)
     \<and> (n < length cs \<longrightarrow> maximum < length (acc @ concat (take n cs)) + length (cs ! n))"
proof (induction cs arbitrary: acc)
  case (Cons c cs)
  show ?case
  proof (cases "length acc + length c > maximum")
    case True
    then show ?thesis by (intro exI [of _ 0]) simp
  next
    case False
    from Cons [of "acc @ c"] obtain n where "n \<le> length cs" "push_chars maximum (acc @ c) cs = (acc @ c) @ concat (take n cs)"
      "n < length cs \<longrightarrow> maximum < length ((acc @ c) @ concat (take n cs)) + length (cs ! n)" by blast
    with False show ?thesis by (intro exI [of _ "Suc n"]) simp
  qed
qed simp

lemma display_text_displays [simp]: "displays maximum v (display_text maximum v)"
  using push_chars_displays [of "filter (\<lambda>c. \<not> is_control c) (chars v)" maximum "[]"] display_text_bounded [of maximum v]
  by (auto simp: displays_def display_text_def Let_def)

lemma rel_option_displays [simp]: "rel_option (displays maximum) v (map_option (display_text maximum) v)"
  by (cases v) simp_all

lemma try_u8_eq_Some: "try_u8 n = Some m \<longleftrightarrow> unat m = unat n"
  using unsigned_less [of m, where ?'a = nat]
  by (auto simp: try_u8_def word_unat_eq_iff unsigned_ucast_eq take_bit_nat_eq_self)

lemma try_u16_eq_Some: "try_u16 n = Some m \<longleftrightarrow> unat m = unat n"
  using unsigned_less [of m, where ?'a = nat]
  by (auto simp: try_u16_def word_unat_eq_iff unsigned_ucast_eq take_bit_nat_eq_self)

lemma list_all2_map_normalised:
  "list_all2 (\<lambda>x y. f x = Inr y) xs ys \<Longrightarrow> (\<And>x y. f x = Inr y \<Longrightarrow> R x (g y)) \<Longrightarrow> list_all2 R xs (map g ys)"
  by (auto simp: list.rel_map intro: list.rel_mono_strong)

lemma shows_phrase_into_remote: "phrase_into_remote w = Inr p \<Longrightarrow> shows_phrase w (normalize_phrase p)"
  by (auto simp: phrase_into_remote_def shows_phrase_def normalize_phrase_def result_simps try_u16_eq_Some split: option.splits)

lemma shows_track_into_remote: "track_into_remote w = Inr t \<Longrightarrow> shows_track w (normalize_track t)"
  by (auto simp: track_into_remote_def shows_track_def normalize_track_def result_simps split: if_splits option.splits
      intro: list_all2_map_normalised shows_phrase_into_remote)

lemma shows_source_normalised:
  "rel_option shows_source source (map_option (\<lambda>s. s\<lparr>rts_source_name := map_option (display_text 128) (rts_source_name s)\<rparr>) source)"
  by (cases source) (simp_all add: shows_source_def)

lemma shows_deck_into_remote: "deck_into_remote observed w = Inr p \<Longrightarrow> shows_player observed w (normalize_player p)"
  by (auto simp: deck_into_remote_def shows_player_def normalize_player_def result_simps try_u8_eq_Some
      intro: shows_track_into_remote shows_source_normalised split: option.splits)

lemma choice_into_remote_eq_None:
  "choice_into_remote w = None \<longleftrightarrow> \<not> (unat (eac_id w) < 256 \<and> unat (eac_bank_number w) < 256)"
  by (auto simp: choice_into_remote_def try_u8_def)

lemma shows_choice_into_remote:
  "choice_into_remote w = Some c \<Longrightarrow> shows_choice w (c\<lparr>rac_name := display_text 256 (rac_name c)\<rparr>)"
  by (auto simp: choice_into_remote_def shows_choice_def try_u8_eq_Some bind_eq_Some_conv)

lemma shows_choices:
  "list_all2 shows_choice (filter (\<lambda>a. unat (eac_id a) < 256 \<and> unat (eac_bank_number a) < 256) ws)
     (map (\<lambda>a. a\<lparr>rac_name := display_text 256 (rac_name a)\<rparr>) (List.map_filter choice_into_remote ws))"
proof (induction ws)
  case (Cons w ws)
  then show ?case
    using choice_into_remote_eq_None [of w] shows_choice_into_remote [of w]
    by (cases "choice_into_remote w") (auto simp: map_filter_simps)
qed (simp add: map_filter_simps)

lemma find_filter: "find P xs = (case filter P xs of [] \<Rightarrow> None | x # _ \<Rightarrow> Some x)"
  by (induction xs) auto

lemma shows_cue_into_remote: "cue_into_remote w = Inr c \<Longrightarrow> shows_cue w (normalize_cue c)"
  by (auto simp: cue_into_remote_def shows_cue_def shows_resolution_def normalize_cue_def result_simps try_u16_eq_Some Let_def
      shows_choices find_filter split: option.splits list.splits)

lemma shows_plan_into_remote: "plan_into_remote w = Inr p \<Longrightarrow> shows_plan w (normalize_plan p)"
  by (auto simp: plan_into_remote_def shows_plan_def normalize_plan_def result_simps try_u8_eq_Some
      intro: list_all2_map_normalised shows_cue_into_remote split: option.splits)

lemma usb_into_remote_eq_None:
  "usb_into_remote d = None \<longleftrightarrow> \<not> (edp_player_number d \<in> {1..6} \<and> edp_usb_media d \<noteq> None)"
  by (auto simp: usb_into_remote_def is_player_def)

lemma shows_usb_into_remote: "usb_into_remote d = Some u \<Longrightarrow> shows_usb d (normalize_usb u)"
proof -
  assume "usb_into_remote d = Some u"
  then obtain media where media: "edp_usb_media d = Some media"
    and u: "u = \<lparr>rpu_player_number = edp_player_number d, rpu_state = eum_state media,
      rpu_source_name = keep_if (\<lambda>_. eum_state media = ''trusted'') (eum_source_name media),
      rpu_color_id = keep_if (\<lambda>_. eum_state media = ''trusted'') (eum_color_id media)\<rparr>"
    by (auto simp: usb_into_remote_def Let_def simp del: One_nat_def split: if_splits)
  show ?thesis
    by (cases "eum_state media = ''trusted''"; cases "eum_source_name media"; cases "eum_color_id media")
      (simp_all add: shows_usb_def normalize_usb_def u media keep_if_def)
qed

lemma shows_usbs:
  "list_all2 shows_usb (filter (\<lambda>d. edp_player_number d \<in> {1..6} \<and> edp_usb_media d \<noteq> None) ds)
     (map normalize_usb (List.map_filter usb_into_remote ds))"
proof (induction ds)
  case (Cons d ds)
  then show ?case
    using usb_into_remote_eq_None [of d] shows_usb_into_remote [of d]
    by (cases "usb_into_remote d") (auto simp: map_filter_simps)
qed (simp add: map_filter_simps)

lemma shows_integrations_of: "shows_integrations w (integrations_of w)"
  by (auto simp: shows_integrations_def integrations_of_def shows_health_def integration_health_def split: option.split)

lemma shows_plan_kept:
  "transpose_opt plan_into_remote (keep_if (\<lambda>p. epl_deck_id p \<in> S) w) = Inr p \<Longrightarrow> shows_plan_of S w (map_option normalize_plan p)"
  by (auto simp: transpose_opt_def keep_if_def shows_plan_of_def result_simps shows_plan_into_remote split: option.splits if_splits)

text \<open>The decks are chosen by the priority of the candidates: one that is left out found both places taken by earlier ones.\<close>

lemma select_decks_append:
  "select_decks loaded selected (xs @ ys) = select_decks loaded (select_decks loaded selected xs) ys"
  by (induction loaded selected xs rule: select_decks.induct) simp_all

lemma select_decks_subset: "set (select_decks loaded selected cs) \<subseteq> set selected \<union> set cs"
  by (induction loaded selected cs rule: select_decks.induct) auto

lemma select_decks_full: "length selected = MAX_REMOTE_PLAYERS \<Longrightarrow> select_decks loaded selected cs = selected"
  by (induction loaded selected cs rule: select_decks.induct) auto

lemma select_decks_priority:
  assumes "c \<in> loaded" "c \<notin> set (select_decks loaded [] (xs @ c # ys))"
  shows "set (select_decks loaded [] (xs @ c # ys)) \<subseteq> set xs"
    and "length (select_decks loaded [] (xs @ c # ys)) = MAX_REMOTE_PLAYERS"
proof -
  define r where "r = select_decks loaded [] xs"
  have r: "set r \<subseteq> set xs" "length r \<le> MAX_REMOTE_PLAYERS"
    using select_decks_subset [of loaded "[]" xs] select_decks_sound [of "[]" loaded xs] by (simp_all add: r_def)
  have "c \<notin> set r" "c \<notin> set (r @ [c]) \<or> \<not> length r < MAX_REMOTE_PLAYERS"
    using assms select_decks_prefix [of loaded r "c # ys"] select_decks_prefix [of loaded "r @ [c]" ys]
    by (auto simp: select_decks_append r_def [symmetric] split: if_splits)
  with r have "length r = MAX_REMOTE_PLAYERS" by simp
  then have "select_decks loaded [] (xs @ c # ys) = r"
    by (simp add: select_decks_append r_def [symmetric] select_decks_full del: select_decks.simps)
  with r \<open>length r = _\<close> show "set (select_decks loaded [] (xs @ c # ys)) \<subseteq> set xs"
    "length (select_decks loaded [] (xs @ c # ys)) = MAX_REMOTE_PLAYERS" by simp_all
qed

lemma selected_left_out:
  assumes "deck_candidates w = xs @ c # ys" "c \<in> edw_deck_id ` set (esw_decks w)" "c \<notin> set (selected_decks w)"
  shows "set (selected_decks w) \<subseteq> set xs" "card (set (selected_decks w)) = 2"
  using select_decks_priority [of c "edw_deck_id ` set (esw_decks w)" xs ys] assms selected_decks_sound(1) [of w]
  by (simp_all add: selected_decks_def MAX_REMOTE_PLAYERS_def distinct_card)

lemma selected_decks_shown: "shown_decks w (set (selected_decks w))"
proof -
  let ?S = "set (selected_decks w)" and ?loaded = "edw_deck_id ` set (esw_decks w)"
  define leading where "leading = (case esw_leader_deck_id w of None \<Rightarrow> [] | Some d \<Rightarrow> [d])"
  define live where "live = (case esw_live_plan w of None \<Rightarrow> [] | Some plan \<Rightarrow> [epl_deck_id plan])"
  define prepared where "prepared = (case esw_next_plan w of None \<Rightarrow> [] | Some plan \<Rightarrow> [epl_deck_id plan])"
  define rest where "rest = sort (map edw_deck_id (esw_decks w))"
  have sets: "set leading = set_option (esw_leader_deck_id w)" "set live = epl_deck_id ` set_option (esw_live_plan w)"
    "set prepared = epl_deck_id ` set_option (esw_next_plan w)" "set rest = ?loaded" "sorted rest"
    by (auto simp: leading_def live_def prepared_def rest_def split: option.splits)
  have short: "length leading \<le> 1" "length live \<le> 1" by (auto simp: leading_def live_def split: option.splits)
  have cands: "deck_candidates w = leading @ live @ prepared @ rest"
    by (simp add: deck_candidates_def leading_def live_def prepared_def rest_def)
  have out: "?S \<subseteq> set xs \<and> card ?S = 2" if "leading @ live @ prepared @ rest = xs @ c # ys" "c \<in> ?loaded" "c \<notin> ?S" for xs c ys
    using selected_left_out [of w xs c ys] that cands by simp
  have small: False if "?S \<subseteq> set xs" "card ?S = 2" "length xs \<le> 1" for xs
    using card_mono [OF _ that(1)] card_length [of xs] that by simp
  have "c \<in> ?S" if "c \<in> set leading" "c \<in> ?loaded" for c
    using that split_list [OF that(1)] out [of _ c] small short by fastforce
  moreover have "c \<in> ?S" if "c \<in> set live" "c \<in> ?loaded" for c
    using that split_list [OF that(1)] out [of "leading @ _" c] small [of leading] short by (cases live) fastforce+
  moreover have "set prepared \<inter> ?loaded \<subseteq> ?S \<or> ?S \<subseteq> set leading \<union> set live"
  proof -
    have "?S \<subseteq> set leading \<union> set live" if "c \<in> set prepared" "c \<in> ?loaded" "c \<notin> ?S" for c
    proof -
      have "prepared = [c]" using that(1) by (cases "esw_next_plan w") (auto simp: prepared_def)
      then show ?thesis using out [of "leading @ live" c rest] that by simp
    qed
    then show ?thesis by blast
  qed
  moreover have "d < e" if d: "d \<in> ?S" "d \<notin> set leading \<union> set live \<union> set prepared" and e: "e \<in> ?loaded" "e \<notin> ?S" for d e
  proof -
    obtain ys zs where rest: "rest = ys @ e # zs" using e(1) sets(4) split_list [of e rest] by auto
    then have "d \<in> set ys" using out [of "leading @ live @ prepared @ ys" e zs] d e by auto
    then have "d \<le> e" using sets(5) rest by (auto simp: sorted_append)
    with d e show ?thesis by (auto simp: order_le_less)
  qed
  moreover have "?S \<subseteq> ?loaded" "card ?S = min 2 (card ?loaded)"
    using remote_players_selected [of w] distinct_card [OF selected_decks_sound(1), of w]
    by (simp_all add: MAX_REMOTE_PLAYERS_def)
  ultimately show ?thesis unfolding shown_decks_def Let_def sets(1-3) [symmetric] by blast
qed

lemma restrict_wire_fields:
  "esw_decks (restrict_wire w) = filter (\<lambda>d. edw_deck_id d \<in> set (selected_decks w)) (esw_decks w)"
  "esw_leader_deck_id (restrict_wire w) = keep_if (\<lambda>d. d \<in> set (selected_decks w)) (esw_leader_deck_id w)"
  "esw_live_plan (restrict_wire w) = keep_if (\<lambda>p. epl_deck_id p \<in> set (selected_decks w)) (esw_live_plan w)"
  "esw_next_plan (restrict_wire w) = keep_if (\<lambda>p. epl_deck_id p \<in> set (selected_decks w)) (esw_next_plan w)"
  "esw_state_revision (restrict_wire w) = esw_state_revision w" "esw_engine_version (restrict_wire w) = esw_engine_version w"
  "esw_operation_state (restrict_wire w) = esw_operation_state w" "integrations_of (restrict_wire w) = integrations_of w"
  "esw_deck_input_integration (restrict_wire w) = esw_deck_input_integration w"
  "esw_planning_options (restrict_wire w) = esw_planning_options w"
  by (simp_all add: restrict_wire_def Let_def integrations_of_def)

lemma assemble_shows:
  assumes "assemble revision observed (restrict_wire w) = Inr q"
  shows "shows_snapshot w revision observed (set (selected_decks w)) (normalize_display_text q)"
proof -
  let ?S = "set (selected_decks w)"
  from assms obtain players operation leader live plan where
    players: "list_all2 (\<lambda>x y. deck_into_remote observed x = Inr y) (filter (\<lambda>d. edw_deck_id d \<in> ?S) (esw_decks w)) players"
    and operation: "operation_state (esw_operation_state w) = Inr operation"
    and leader: "transpose_opt (\<lambda>d. ok_or (try_u8 d) InvalidPlayerIdentity) (keep_if (\<lambda>d. d \<in> ?S) (esw_leader_deck_id w)) = Inr leader"
    and live: "transpose_opt plan_into_remote (keep_if (\<lambda>p. epl_deck_id p \<in> ?S) (esw_live_plan w)) = Inr live"
    and plan: "transpose_opt plan_into_remote (keep_if (\<lambda>p. epl_deck_id p \<in> ?S) (esw_next_plan w)) = Inr plan"
    and q: "q = \<lparr>prj_projection_revision = revision, prj_state_revision = esw_state_revision w,
            prj_engine_version = esw_engine_version w, prj_operation_state = operation,
            prj_leader_player_number = leader, prj_integrations = integrations_of w, prj_players = players,
            prj_player_usbs = (case esw_deck_input_integration w of
               None \<Rightarrow> [] | Some players \<Rightarrow> List.map_filter usb_into_remote players),
            prj_live_plan = live, prj_next_plan = plan,
            prj_theme_options = map (\<lambda>t. \<lparr>rto_id = eth_id t, rto_name = eth_name t\<rparr>) (epo_themes (esw_planning_options w)),
            prj_phrase_role_options = map (\<lambda>r. \<lparr>rro_id = ero_id r, rro_name = ero_name r, rro_color_rgb = ero_color_rgb r\<rparr>)
              (epo_phrase_roles (esw_planning_options w))\<rparr>"
    by (auto simp: assemble_def result_simps restrict_wire_fields)
  have "list_all2 (shows_player observed) (filter (\<lambda>d. edw_deck_id d \<in> ?S) (esw_decks w)) (map normalize_player players)"
    using players by (rule list_all2_map_normalised) (rule shows_deck_into_remote)
  moreover have "shows_operation (esw_operation_state w) operation"
    using operation by (auto simp: operation_state_def shows_operation_def split: if_splits)
  moreover have "map_option unat leader
      = (case esw_leader_deck_id w of None \<Rightarrow> None | Some d \<Rightarrow> if d \<in> ?S then Some (unat d) else None)"
    using leader by (auto simp: transpose_opt_def keep_if_def result_simps try_u8_eq_Some split: option.splits if_splits)
  moreover have "list_all2 shows_usb
      (filter (\<lambda>d. edp_player_number d \<in> {1..6} \<and> edp_usb_media d \<noteq> None)
         (case esw_deck_input_integration w of None \<Rightarrow> [] | Some ds \<Rightarrow> ds))
      (map normalize_usb (case esw_deck_input_integration w of
         None \<Rightarrow> [] | Some players \<Rightarrow> List.map_filter usb_into_remote players))"
    using shows_usbs by (cases "esw_deck_input_integration w") simp_all
  ultimately show ?thesis
    using shows_plan_kept [OF live] shows_plan_kept [OF plan] shows_integrations_of [of w]
    by (simp add: shows_snapshot_def q normalize_display_text_def list.rel_map list_all2_same)
qed



end
