(* ===== verification/Remote_Gateway.thy ===== *)
theory Remote_Gateway
  imports Remote_Projection Ordered_Map "HOL-Library.Char_ord" "HOL-Library.List_Lexorder"
begin

text \<open>
  The gateway between remote clients and the engine (\<open>lumi-remote-gateway/src/lib.rs\<close>, first
  part): its configuration, the hub that buffers projections for each client, and the guard that
  admits commands. Two parameters stand for library code: \<open>to_value\<close> for \<open>serde_json::to_value\<close> on
  a projection, and \<open>digest\<close> for the hexadecimal SHA-256 of a byte string. A method that fails
  returns the state it leaves behind beside the error.
\<close>

section \<open>Configuration\<close>

definition MAX_REMOTE_CLIENTS :: nat where
  "MAX_REMOTE_CLIENTS = 8"

datatype ReleaseChannel = ChannelDev | ChannelRc | ChannelProduction

fun bonjour_service_type :: "ReleaseChannel \<Rightarrow> string" where
  "bonjour_service_type ChannelDev = ''_lumi-remote-dev._tcp''"
| "bonjour_service_type ChannelRc = ''_lumi-remote-rc._tcp''"
| "bonjour_service_type ChannelProduction = ''_lumi-remote._tcp''"

fun channel_as_str :: "ReleaseChannel \<Rightarrow> string" where
  "channel_as_str ChannelDev = ''dev''"
| "channel_as_str ChannelRc = ''rc''"
| "channel_as_str ChannelProduction = ''production''"

datatype GatewayConfigError =
    EngineMustRemainLoopback
  | InvalidClientLimit
  | InvalidCriticalQueueCapacity
  | InvalidInstallationIdentity

text \<open>\<open>BTreeMap::from\<close> an array of pairs.\<close>

definition discovery_metadata :: "ReleaseChannel \<Rightarrow> string \<Rightarrow> u16 \<Rightarrow> GatewayConfigError + (string \<times> string) list" where
  "discovery_metadata channel installation_id port =
     (if installation_id = [] \<or> length installation_id > 128 \<or> has_control installation_id
      then Inl InvalidInstallationIdentity
      else Inr (fold (\<lambda>(k, v). btree_insert k v)
        [(''id'', installation_id), (''pv'', show_nat (unat REMOTE_PROTOCOL_VERSION)),
         (''channel'', channel_as_str channel), (''port'', show_nat (unat port))] []))"

text \<open>\<open>IpAddr\<close>: the four octets of an IPv4 address, or the 128 bits of an IPv6 address.\<close>

datatype GatewayIpAddr = V4 u8 u8 u8 u8 | V6 "128 word"

fun is_loopback :: "GatewayIpAddr \<Rightarrow> bool" where
  "is_loopback (V4 a b c d) \<longleftrightarrow> a = 127"
| "is_loopback (V6 bits) \<longleftrightarrow> bits = 1"

record GatewayConfig =
  gc_release_channel :: ReleaseChannel
  gc_engine_host :: GatewayIpAddr
  gc_maximum_clients :: nat
  gc_critical_queue_capacity :: nat

definition config_validate :: "GatewayConfig \<Rightarrow> GatewayConfigError + unit" where
  "config_validate c =
     (if \<not> is_loopback (gc_engine_host c) then Inl EngineMustRemainLoopback
      else if \<not> (1 \<le> gc_maximum_clients c \<and> gc_maximum_clients c \<le> MAX_REMOTE_CLIENTS) then Inl InvalidClientLimit
      else if \<not> (8 \<le> gc_critical_queue_capacity c \<and> gc_critical_queue_capacity c \<le> 256)
      then Inl InvalidCriticalQueueCapacity
      else Inr ())"

section \<open>The buffer of a client\<close>

datatype HubError =
    ClientLimitReached
  | UnknownClient
  | CriticalQueueSaturated
  | HubInvalidTransportAnchor
  | NonIncreasingProjectionRevision
  | InvalidProjection ProjectionError
  | SerializeProjection string

record 'v ClientBuffer =
  cb_critical :: "'v RemoteFrame list"
  cb_latest_anchors :: "(u8 \<times> 'v RemoteFrame) list"
  cb_critical_capacity :: nat
  cb_coalesced_anchor_count :: u64
  cb_next_delivery_sequence :: u64

record ClientBufferMetrics =
  cm_critical_depth :: nat
  cm_latest_anchor_count :: nat
  cm_coalesced_anchor_count :: u64

definition buffer_new :: "nat \<Rightarrow> 'v ClientBuffer" where
  "buffer_new capacity = \<lparr>cb_critical = [], cb_latest_anchors = [], cb_critical_capacity = capacity,
     cb_coalesced_anchor_count = 0, cb_next_delivery_sequence = 1\<rparr>"

definition enqueue_critical :: "'v ClientBuffer \<Rightarrow> 'v RemoteFrame \<Rightarrow> HubError + 'v ClientBuffer" where
  "enqueue_critical b frame =
     (if length (cb_critical b) \<ge> cb_critical_capacity b then Inl CriticalQueueSaturated
      else Inr (b\<lparr>cb_critical := cb_critical b @ [frame]\<rparr>))"

definition projection_frame :: "RemoteFrameKind \<Rightarrow> 'v \<Rightarrow> 'v RemoteFrame" where
  "projection_frame kind payload = \<lparr>rf_protocol_version = REMOTE_PROTOCOL_VERSION, rf_frame_kind = kind,
     rf_sequence = 0, rf_correlation_id = None, rf_payload = payload\<rparr>"

definition enqueue_projection_kind ::
  "(RemoteLiveProjection \<Rightarrow> string + 'v) \<Rightarrow> 'v ClientBuffer \<Rightarrow> RemoteLiveProjection \<Rightarrow> RemoteFrameKind \<Rightarrow> HubError + 'v ClientBuffer" where
  "enqueue_projection_kind to_value b projection kind =
     and_then (map_err SerializeProjection (to_value projection)) (\<lambda>payload.
       enqueue_critical b (projection_frame kind payload))"

definition enqueue_snapshot ::
  "(RemoteLiveProjection \<Rightarrow> string + 'v) \<Rightarrow> 'v ClientBuffer \<Rightarrow> RemoteLiveProjection \<Rightarrow> HubError + 'v ClientBuffer" where
  "enqueue_snapshot to_value b projection = enqueue_projection_kind to_value b projection FrameSnapshot"

definition enqueue_projection ::
  "(RemoteLiveProjection \<Rightarrow> string + 'v) \<Rightarrow> 'v ClientBuffer \<Rightarrow> RemoteLiveProjection \<Rightarrow> HubError + 'v ClientBuffer" where
  "enqueue_projection to_value b projection = enqueue_projection_kind to_value b projection FrameProjection"

definition enqueue_transport_anchor :: "u8 \<Rightarrow> 'v RemoteFrame \<Rightarrow> 'v ClientBuffer \<Rightarrow> 'v ClientBuffer" where
  "enqueue_transport_anchor player frame b =
     b\<lparr>cb_latest_anchors := btree_insert player frame (cb_latest_anchors b),
       cb_coalesced_anchor_count :=
         (if map_of (cb_latest_anchors b) player \<noteq> None then saturating_add (cb_coalesced_anchor_count b) 1
          else cb_coalesced_anchor_count b)\<rparr>"

text \<open>The frame to deliver next, before it is numbered, and the buffer without it.\<close>

definition pop_frame :: "'v ClientBuffer \<Rightarrow> ('v RemoteFrame \<times> 'v ClientBuffer) option" where
  "pop_frame b =
     (case cb_critical b of
        frame # rest \<Rightarrow> Some (frame, b\<lparr>cb_critical := rest\<rparr>)
      | [] \<Rightarrow>
          (case cb_latest_anchors b of
             [] \<Rightarrow> None
           | (player, frame) # _ \<Rightarrow> Some (frame, b\<lparr>cb_latest_anchors := btree_remove player (cb_latest_anchors b)\<rparr>)))"

definition buffer_next_frame :: "'v ClientBuffer \<Rightarrow> 'v ClientBuffer \<times> 'v RemoteFrame option" where
  "buffer_next_frame b =
     (case pop_frame b of
        None \<Rightarrow> (b, None)
      | Some (frame, b') \<Rightarrow>
          (b'\<lparr>cb_next_delivery_sequence := saturating_add (cb_next_delivery_sequence b') 1\<rparr>,
           Some (frame\<lparr>rf_sequence := cb_next_delivery_sequence b'\<rparr>)))"

definition buffer_metrics :: "'v ClientBuffer \<Rightarrow> ClientBufferMetrics" where
  "buffer_metrics b = \<lparr>cm_critical_depth = length (cb_critical b), cm_latest_anchor_count = length (cb_latest_anchors b),
     cm_coalesced_anchor_count = cb_coalesced_anchor_count b\<rparr>"

section \<open>The hub\<close>

record 'v ProjectionHub =
  hub_latest_projection :: "RemoteLiveProjection option"
  hub_clients :: "(u64 \<times> 'v ClientBuffer) list"
  hub_next_client_id :: u64
  hub_maximum_clients :: nat
  hub_critical_queue_capacity :: nat

definition hub_new :: "nat \<Rightarrow> nat \<Rightarrow> GatewayConfigError + 'v ProjectionHub" where
  "hub_new maximum capacity =
     and_then (config_validate \<lparr>gc_release_channel = ChannelDev, gc_engine_host = V4 127 0 0 1,
       gc_maximum_clients = maximum, gc_critical_queue_capacity = capacity\<rparr>) (\<lambda>_.
     Inr \<lparr>hub_latest_projection = None, hub_clients = [], hub_next_client_id = 1,
       hub_maximum_clients = maximum, hub_critical_queue_capacity = capacity\<rparr>)"

definition hub_connect ::
  "(RemoteLiveProjection \<Rightarrow> string + 'v) \<Rightarrow> 'v ProjectionHub \<Rightarrow> 'v ProjectionHub \<times> (HubError + u64)" where
  "hub_connect to_value h =
     (if length (hub_clients h) \<ge> hub_maximum_clients h then (h, Inl ClientLimitReached)
      else
        let client_id = hub_next_client_id h;
            h' = h\<lparr>hub_next_client_id := saturating_add client_id 1\<rparr>;
            client = buffer_new (hub_critical_queue_capacity h) in
        case (case hub_latest_projection h of None \<Rightarrow> Inr client | Some p \<Rightarrow> enqueue_snapshot to_value client p) of
          Inl e \<Rightarrow> (h', Inl e)
        | Inr client' \<Rightarrow> (h'\<lparr>hub_clients := btree_insert client_id client' (hub_clients h')\<rparr>, Inr client_id))"

definition hub_disconnect :: "u64 \<Rightarrow> 'v ProjectionHub \<Rightarrow> 'v ProjectionHub" where
  "hub_disconnect client h = h\<lparr>hub_clients := btree_remove client (hub_clients h)\<rparr>"

text \<open>
  The loop that offers a projection to every client: the clients with the accepted ones updated, and
  the identifiers of the others.
\<close>

fun offer_all ::
  "(RemoteLiveProjection \<Rightarrow> string + 'v) \<Rightarrow> RemoteLiveProjection \<Rightarrow> (u64 \<times> 'v ClientBuffer) list
     \<Rightarrow> (u64 \<times> 'v ClientBuffer) list \<times> u64 list" where
  "offer_all to_value p [] = ([], [])"
| "offer_all to_value p ((i, b) # rest) =
     (let (clients, saturated) = offer_all to_value p rest in
      case enqueue_projection to_value b p of
        Inl _ \<Rightarrow> ((i, b) # clients, i # saturated)
      | Inr b' \<Rightarrow> ((i, b') # clients, saturated))"

definition hub_publish_projection ::
  "(RemoteLiveProjection \<Rightarrow> string + 'v) \<Rightarrow> RemoteLiveProjection \<Rightarrow> 'v ProjectionHub \<Rightarrow> 'v ProjectionHub \<times> (HubError + u64 list)" where
  "hub_publish_projection to_value p h =
     (case projection_validate p of
        Inl e \<Rightarrow> (h, Inl (InvalidProjection e))
      | Inr _ \<Rightarrow>
          if (case hub_latest_projection h of None \<Rightarrow> False
              | Some latest \<Rightarrow> prj_projection_revision p \<le> prj_projection_revision latest)
          then (h, Inl NonIncreasingProjectionRevision)
          else
            let (clients, saturated) = offer_all to_value p (hub_clients h) in
            (h\<lparr>hub_latest_projection := Some p, hub_clients := fold btree_remove saturated clients\<rparr>, Inr saturated))"

definition hub_publish_transport_anchor ::
  "u8 \<Rightarrow> 'v RemoteFrame \<Rightarrow> 'v ProjectionHub \<Rightarrow> 'v ProjectionHub \<times> (HubError + unit)" where
  "hub_publish_transport_anchor player frame h =
     (if rf_frame_kind frame \<noteq> FrameTransportAnchor \<or> \<not> (1 \<le> player \<and> player \<le> 6)
      then (h, Inl HubInvalidTransportAnchor)
      else (h\<lparr>hub_clients := btree_values (enqueue_transport_anchor player frame) (hub_clients h)\<rparr>, Inr ()))"

definition hub_next_frame :: "u64 \<Rightarrow> 'v ProjectionHub \<Rightarrow> 'v ProjectionHub \<times> (HubError + 'v RemoteFrame option)" where
  "hub_next_frame client h =
     (case map_of (hub_clients h) client of
        None \<Rightarrow> (h, Inl UnknownClient)
      | Some b \<Rightarrow>
          (h\<lparr>hub_clients := btree_adjust client (\<lambda>_. fst (buffer_next_frame b)) (hub_clients h)\<rparr>,
           Inr (snd (buffer_next_frame b))))"

definition hub_metrics :: "'v ProjectionHub \<Rightarrow> u64 \<Rightarrow> ClientBufferMetrics option" where
  "hub_metrics h client = map_option buffer_metrics (map_of (hub_clients h) client)"

section \<open>Admission of commands\<close>

record ControllerLease =
  cl_device_id :: string
  cl_lease_id :: string

record GatewayCommandPolicy =
  gp_controller :: "ControllerLease option"

datatype CommandAuthorizationError =
    InvalidCommand RemoteCommandError
  | NoControllerLease
  | ControllerLeaseMismatch

definition policy_transfer_control :: "string \<Rightarrow> string \<Rightarrow> GatewayCommandPolicy \<Rightarrow> GatewayCommandPolicy" where
  "policy_transfer_control device lease p = p\<lparr>gp_controller := Some \<lparr>cl_device_id = device, cl_lease_id = lease\<rparr>\<rparr>"

definition policy_revoke_control :: "GatewayCommandPolicy \<Rightarrow> GatewayCommandPolicy" where
  "policy_revoke_control p = p\<lparr>gp_controller := None\<rparr>"

definition authorize :: "GatewayCommandPolicy \<Rightarrow> string \<Rightarrow> RemoteCommand \<Rightarrow> CommandAuthorizationError + unit" where
  "authorize p device command =
     and_then (map_err InvalidCommand (command_validate command)) (\<lambda>_.
       if \<not> is_mutating command then Inr ()
       else case gp_controller p of
         None \<Rightarrow> Inl NoControllerLease
       | Some controller \<Rightarrow>
           if cl_device_id controller \<noteq> device \<or> cl_lease_id controller \<noteq> rc_controller_lease_id command
           then Inl ControllerLeaseMismatch else Inr ())"

datatype CommandAdmission = AdmissionAccepted | AdmissionPending | AdmissionCompleted RemoteCommandResult

type_synonym CommandKey = "string \<times> string \<times> string"

record CommandOutcome =
  co_command :: RemoteCommand
  co_result :: "RemoteCommandResult option"

record GatewayCommandGuard =
  gg_policy :: GatewayCommandPolicy
  gg_accepted :: "CommandKey \<rightharpoonup> CommandOutcome"
  gg_forwarded :: "string \<rightharpoonup> CommandKey"
  gg_insertion_order :: "CommandKey list"
  gg_capacity :: nat

datatype CommandGuardError =
    GuardInvalidCapacity
  | CommandIdReused
  | LedgerFull
  | UnknownCommand
  | Unauthorized CommandAuthorizationError

definition guard_new :: "nat \<Rightarrow> CommandGuardError + GatewayCommandGuard" where
  "guard_new capacity =
     (if \<not> (64 \<le> capacity \<and> capacity \<le> 8192) then Inl GuardInvalidCapacity
      else Inr \<lparr>gg_policy = \<lparr>gp_controller = None\<rparr>, gg_accepted = Map.empty, gg_forwarded = Map.empty,
        gg_insertion_order = [], gg_capacity = capacity\<rparr>)"

definition guard_transfer_control :: "string \<Rightarrow> string \<Rightarrow> GatewayCommandGuard \<Rightarrow> GatewayCommandGuard" where
  "guard_transfer_control device lease g = g\<lparr>gg_policy := policy_transfer_control device lease (gg_policy g)\<rparr>"

definition guard_revoke_control :: "GatewayCommandGuard \<Rightarrow> GatewayCommandGuard" where
  "guard_revoke_control g = g\<lparr>gg_policy := policy_revoke_control (gg_policy g)\<rparr>"

definition controller_lease_for :: "GatewayCommandGuard \<Rightarrow> string \<Rightarrow> string option" where
  "controller_lease_for g device =
     (case gp_controller (gg_policy g) of
        None \<Rightarrow> None
      | Some controller \<Rightarrow> if cl_device_id controller = device then Some (cl_lease_id controller) else None)"

text \<open>\<open>usize::to_be_bytes\<close> on a 64-bit machine, and the bytes a key is hashed as.\<close>

definition be_bytes :: "nat \<Rightarrow> string" where
  "be_bytes n = map (\<lambda>i. char_of (n div 256 ^ (7 - i))) [0..<8]"

definition length_prefixed :: "string \<Rightarrow> string" where
  "length_prefixed s = be_bytes (length s) @ s"

definition key_bytes :: "CommandKey \<Rightarrow> string" where
  "key_bytes key = (case key of (device, lease, command) \<Rightarrow>
     length_prefixed device @ length_prefixed lease @ length_prefixed command)"

definition forwarded_command_id :: "(string \<Rightarrow> string) \<Rightarrow> CommandKey \<Rightarrow> string" where
  "forwarded_command_id digest key = digest (key_bytes key)"

definition command_key :: "string \<Rightarrow> RemoteCommand \<Rightarrow> CommandKey" where
  "command_key device command = (device, rc_controller_lease_id command, rc_command_id command)"

definition resolved :: "GatewayCommandGuard \<Rightarrow> CommandKey \<Rightarrow> bool" where
  "resolved g key = (case gg_accepted g key of None \<Rightarrow> False | Some entry \<Rightarrow> co_result entry \<noteq> None)"

text \<open>Room for one more command: a full ledger forgets its oldest resolved one.\<close>

definition make_room :: "(string \<Rightarrow> string) \<Rightarrow> GatewayCommandGuard \<Rightarrow> CommandGuardError + GatewayCommandGuard" where
  "make_room digest g =
     (if length (gg_insertion_order g) = gg_capacity g then
        and_then (ok_or (position (resolved g) (gg_insertion_order g)) LedgerFull) (\<lambda>index.
          let oldest = gg_insertion_order g ! index in
          Inr (g\<lparr>gg_insertion_order := take index (gg_insertion_order g) @ drop (Suc index) (gg_insertion_order g),
            gg_forwarded := (gg_forwarded g)(forwarded_command_id digest oldest := None),
            gg_accepted := (gg_accepted g)(oldest := None)\<rparr>))
      else Inr g)"

definition insert_command :: "(string \<Rightarrow> string) \<Rightarrow> CommandKey \<Rightarrow> RemoteCommand \<Rightarrow> GatewayCommandGuard \<Rightarrow> GatewayCommandGuard" where
  "insert_command digest key command g =
     g\<lparr>gg_forwarded := (gg_forwarded g)(forwarded_command_id digest key \<mapsto> key),
       gg_accepted := (gg_accepted g)(key \<mapsto> \<lparr>co_command = command, co_result = None\<rparr>),
       gg_insertion_order := gg_insertion_order g @ [key]\<rparr>"

definition admit ::
  "(string \<Rightarrow> string) \<Rightarrow> string \<Rightarrow> RemoteCommand \<Rightarrow> GatewayCommandGuard \<Rightarrow> GatewayCommandGuard \<times> (CommandGuardError + CommandAdmission)" where
  "admit digest device command g =
     (case authorize (gg_policy g) device command of
        Inl e \<Rightarrow> (g, Inl (Unauthorized e))
      | Inr _ \<Rightarrow>
          if \<not> is_mutating command then (g, Inr AdmissionAccepted)
          else
            let key = command_key device command in
            case gg_accepted g key of
              Some outcome \<Rightarrow>
                if co_command outcome \<noteq> command then (g, Inl CommandIdReused)
                else (g, Inr (case co_result outcome of Some result \<Rightarrow> AdmissionCompleted result | None \<Rightarrow> AdmissionPending))
            | None \<Rightarrow>
                (case make_room digest g of
                   Inl e \<Rightarrow> (g, Inl e)
                 | Inr g' \<Rightarrow> (insert_command digest key command g', Inr AdmissionAccepted)))"

definition forwarded_command :: "(string \<Rightarrow> string) \<Rightarrow> string \<Rightarrow> RemoteCommand \<Rightarrow> RemoteCommand" where
  "forwarded_command digest device command =
     command\<lparr>rc_command_id := forwarded_command_id digest (command_key device command)\<rparr>"

definition record_result :: "RemoteCommandResult \<Rightarrow> GatewayCommandGuard \<Rightarrow> GatewayCommandGuard" where
  "record_result result g =
     (case gg_forwarded g (rr_command_id result) of
        None \<Rightarrow> g
      | Some key \<Rightarrow>
          (case gg_accepted g key of
             None \<Rightarrow> g
           | Some outcome \<Rightarrow>
               if co_result outcome = None
               then g\<lparr>gg_accepted := (gg_accepted g)(key \<mapsto> outcome\<lparr>co_result :=
                      Some (result\<lparr>rr_command_id := snd (snd key)\<rparr>)\<rparr>)\<rparr>
               else g))"

definition result_for_device :: "GatewayCommandGuard \<Rightarrow> string \<Rightarrow> string \<Rightarrow> RemoteCommandResult option" where
  "result_for_device g device forwarded_id =
     Option.bind (gg_forwarded g forwarded_id) (\<lambda>key.
       if fst key \<noteq> device then None else Option.bind (gg_accepted g key) co_result)"

definition authorize_forwarded :: "GatewayCommandGuard \<Rightarrow> RemoteCommand \<Rightarrow> CommandGuardError + unit" where
  "authorize_forwarded g command =
     and_then (ok_or (gg_forwarded g (rc_command_id command)) UnknownCommand) (\<lambda>key.
     and_then (ok_or (gg_accepted g key) UnknownCommand) (\<lambda>outcome.
       map_err Unauthorized (authorize (gg_policy g) (fst key) (co_command outcome))))"

section \<open>The stream of a client\<close>

text \<open>What happens to the buffer of one client: an offered projection, an anchor, a delivery.\<close>

datatype 'v buffer_op = OfferFrame "'v RemoteFrame" | AnchorUpdate u8 "'v RemoteFrame" | TakeFrame

text \<open>The buffer afterwards, the frames it accepted as critical, and the frames it delivered.\<close>

fun buffer_run :: "'v buffer_op list \<Rightarrow> 'v ClientBuffer \<Rightarrow> 'v ClientBuffer \<times> 'v RemoteFrame list \<times> 'v RemoteFrame list" where
  "buffer_run [] b = (b, [], [])"
| "buffer_run (OfferFrame frame # ops) b =
     (case enqueue_critical b frame of
        Inl _ \<Rightarrow> buffer_run ops b
      | Inr b' \<Rightarrow> (let (c, accepted, delivered) = buffer_run ops b' in (c, frame # accepted, delivered)))"
| "buffer_run (AnchorUpdate player frame # ops) b = buffer_run ops (enqueue_transport_anchor player frame b)"
| "buffer_run (TakeFrame # ops) b =
     (let (c, accepted, delivered) = buffer_run ops (fst (buffer_next_frame b)) in
      (c, accepted, (case snd (buffer_next_frame b) of None \<Rightarrow> [] | Some frame \<Rightarrow> [frame]) @ delivered))"

definition is_anchor :: "'v RemoteFrame \<Rightarrow> bool" where
  "is_anchor frame \<longleftrightarrow> rf_frame_kind frame = FrameTransportAnchor"

definition unnumbered :: "'v RemoteFrame \<Rightarrow> 'v RemoteFrame" where
  "unnumbered frame = frame\<lparr>rf_sequence := 0\<rparr>"

fun op_ok :: "'v buffer_op \<Rightarrow> bool" where
  "op_ok (OfferFrame frame) \<longleftrightarrow> \<not> is_anchor frame \<and> rf_sequence frame = 0"
| "op_ok (AnchorUpdate player frame) \<longleftrightarrow> is_anchor frame \<and> 1 \<le> player \<and> player \<le> 6"
| "op_ok TakeFrame \<longleftrightarrow> True"

definition buffer_ok :: "nat \<Rightarrow> 'v ClientBuffer \<Rightarrow> bool" where
  "buffer_ok capacity b \<longleftrightarrow> cb_critical_capacity b = capacity \<and> length (cb_critical b) \<le> capacity
     \<and> list_all (\<lambda>frame. \<not> is_anchor frame \<and> rf_sequence frame = 0) (cb_critical b)
     \<and> ordered (cb_latest_anchors b)
     \<and> list_all (\<lambda>(player, frame). 1 \<le> player \<and> player \<le> 6 \<and> is_anchor frame) (cb_latest_anchors b)"

lemma buffer_ok_new: "buffer_ok capacity (buffer_new capacity)"
  by (simp add: buffer_ok_def buffer_new_def)

lemma buffer_ok_enqueue:
  "buffer_ok capacity b \<Longrightarrow> \<not> is_anchor frame \<Longrightarrow> rf_sequence frame = 0 \<Longrightarrow> enqueue_critical b frame = Inr b'
     \<Longrightarrow> buffer_ok capacity b'"
  by (auto simp: buffer_ok_def enqueue_critical_def split: if_splits)

lemma buffer_ok_anchor:
  "buffer_ok capacity b \<Longrightarrow> is_anchor frame \<Longrightarrow> 1 \<le> player \<Longrightarrow> player \<le> 6
     \<Longrightarrow> buffer_ok capacity (enqueue_transport_anchor player frame b)"
  by (auto simp: buffer_ok_def enqueue_transport_anchor_def list_all_iff btree_insert_set)

lemma buffer_ok_next: "buffer_ok capacity b \<Longrightarrow> buffer_ok capacity (fst (buffer_next_frame b))"
  using ordered_remove [of "cb_latest_anchors b"]
  by (auto simp: buffer_ok_def buffer_next_frame_def pop_frame_def btree_remove_set list_all_iff split: list.splits)

lemma buffer_ok_memory:
  assumes "buffer_ok capacity b"
  shows "length (cb_critical b) \<le> capacity" "length (cb_latest_anchors b) \<le> 6"
proof -
  show "length (cb_critical b) \<le> capacity" using assms by (simp add: buffer_ok_def)
  have "fst ` set (cb_latest_anchors b) \<subseteq> {1, 2, 3, 4, 5, 6}"
  proof
    fix n assume "n \<in> fst ` set (cb_latest_anchors b)"
    then have n: "1 \<le> n" "n \<le> 6" using assms by (auto simp: buffer_ok_def list_all_iff)
    then have "1 \<le> unat n" "unat n \<le> 6" by (simp_all add: word_le_nat_alt)
    then have "unat n \<in> {1, 2, 3, 4, 5, 6}" by auto
    then show "n \<in> {1, 2, 3, 4, 5, 6}" by (auto simp: word_unat_eq_iff)
  qed
  then have "card (fst ` set (cb_latest_anchors b)) \<le> card {1 :: u8, 2, 3, 4, 5, 6}" by (intro card_mono) auto
  also have "\<dots> = 6" by simp
  finally show "length (cb_latest_anchors b) \<le> 6"
    using assms ordered_distinct [of "cb_latest_anchors b"]
    by (metis buffer_ok_def distinct_card length_map set_map)
qed

lemma buffer_run_ok: "buffer_ok capacity b \<Longrightarrow> list_all op_ok ops \<Longrightarrow> buffer_ok capacity (fst (buffer_run ops b))"
  by (induction ops b rule: buffer_run.induct)
    (auto simp: buffer_ok_enqueue buffer_ok_anchor buffer_ok_next Let_def split: sum.splits prod.splits)

lemma next_critical:
  assumes "buffer_ok capacity b"
  shows "map unnumbered (filter (\<lambda>frame. \<not> is_anchor frame) (case snd (buffer_next_frame b) of None \<Rightarrow> [] | Some frame \<Rightarrow> [frame]))
    @ cb_critical (fst (buffer_next_frame b)) = cb_critical b"
  using assms by (auto simp: buffer_next_frame_def pop_frame_def buffer_ok_def is_anchor_def unnumbered_def split: list.splits)

lemma buffer_run_critical:
  "buffer_ok capacity b \<Longrightarrow> list_all op_ok ops \<Longrightarrow> buffer_run ops b = (c, accepted, delivered) \<Longrightarrow>
   map unnumbered (filter (\<lambda>frame. \<not> is_anchor frame) delivered) @ cb_critical c = cb_critical b @ accepted"
proof (induction ops b arbitrary: c accepted delivered rule: buffer_run.induct)
  case (2 frame ops b)
  show ?case
  proof (cases "enqueue_critical b frame")
    case (Inl e)
    with 2 show ?thesis by simp
  next
    case (Inr b')
    obtain c' acc del where r: "buffer_run ops b' = (c', acc, del)" by (metis prod_cases3)
    have "map unnumbered (filter (\<lambda>frame. \<not> is_anchor frame) del) @ cb_critical c' = cb_critical b' @ acc"
      using 2(2) [OF Inr _ _ r] 2(3,4) Inr buffer_ok_enqueue by auto
    moreover have "cb_critical b' = cb_critical b @ [frame]" using Inr by (auto simp: enqueue_critical_def split: if_splits)
    ultimately show ?thesis using 2(5) Inr r by auto
  qed
next
  case (3 player frame ops b)
  then show ?case using buffer_ok_anchor [of capacity b frame player] by (auto simp: enqueue_transport_anchor_def)
next
  case (4 ops b)
  obtain c' acc del where r: "buffer_run ops (fst (buffer_next_frame b)) = (c', acc, del)" by (metis prod_cases3)
  with 4 buffer_ok_next have "map unnumbered (filter (\<lambda>frame. \<not> is_anchor frame) del) @ cb_critical c'
      = cb_critical (fst (buffer_next_frame b)) @ acc" by auto
  with next_critical [OF 4(2)] r 4(4) show ?case by auto
qed simp

lemma next_numbered:
  "snd (buffer_next_frame b) = Some frame \<Longrightarrow>
     rf_sequence frame = cb_next_delivery_sequence b
     \<and> cb_next_delivery_sequence (fst (buffer_next_frame b)) = saturating_add (cb_next_delivery_sequence b) 1"
  "snd (buffer_next_frame b) = None \<Longrightarrow> fst (buffer_next_frame b) = b"
  by (auto simp: buffer_next_frame_def pop_frame_def split: list.splits prod.splits option.splits)

lemma buffer_run_numbered:
  "buffer_run ops b = (c, accepted, delivered) \<Longrightarrow>
   unat (cb_next_delivery_sequence b) + length delivered < 2 ^ 64 \<Longrightarrow>
   map (\<lambda>frame. unat (rf_sequence frame)) delivered
     = [unat (cb_next_delivery_sequence b) ..< unat (cb_next_delivery_sequence b) + length delivered]"
proof (induction ops b arbitrary: c accepted delivered rule: buffer_run.induct)
  case (2 frame ops b)
  then show ?case
    by (cases "enqueue_critical b frame") (auto simp: enqueue_critical_def split: if_splits prod.splits)
next
  case (3 player frame ops b)
  then show ?case by (simp add: enqueue_transport_anchor_def)
next
  case (4 ops b)
  let ?n = "cb_next_delivery_sequence b"
  obtain c' acc del where r: "buffer_run ops (fst (buffer_next_frame b)) = (c', acc, del)" by (metis prod_cases3)
  show ?case
  proof (cases "snd (buffer_next_frame b)")
    case None
    with 4 r next_numbered(2) [OF None] show ?thesis by simp
  next
    case (Some frame)
    with 4(2) r have d: "delivered = frame # del" by simp
    with 4(3) have "unat (saturating_add ?n 1) = Suc (unat ?n)" by (simp add: unat_saturating_add)
    with 4(1) [OF r] 4(3) next_numbered(1) [OF Some] d show ?thesis by (simp add: upt_conv_Cons del: upt_Suc)
  qed
qed simp

text \<open>
  C24. A client receives its frames numbered one after the other from one, and of its projections
  exactly those that were accepted, in that order and unchanged, with the rest still waiting. Its buffer stays
  within its capacity, with an anchor at most for each of six players.
\<close>

theorem client_stream:
  assumes "list_all op_ok ops" "buffer_run ops (buffer_new capacity) = (b, accepted, delivered)" "length delivered < 2 ^ 64 - 1"
  shows "map (\<lambda>frame. unat (rf_sequence frame)) delivered = [1 ..< Suc (length delivered)]
    \<and> map unnumbered (filter (\<lambda>frame. \<not> is_anchor frame) delivered) @ cb_critical b = accepted
    \<and> length (cb_critical b) \<le> capacity \<and> length (cb_latest_anchors b) \<le> 6"
proof -
  have "unat (cb_next_delivery_sequence (buffer_new capacity :: 'a ClientBuffer)) = 1" by (simp add: buffer_new_def)
  with buffer_run_numbered [OF assms(2)] assms(3)
  have "map (\<lambda>frame. unat (rf_sequence frame)) delivered = [1 ..< Suc (length delivered)]" by simp
  moreover have "cb_critical (buffer_new capacity) = []" by (simp add: buffer_new_def)
  ultimately show ?thesis
    using buffer_run_critical [OF buffer_ok_new assms(1,2)] buffer_ok_memory [OF buffer_run_ok [OF buffer_ok_new assms(1)], of capacity]
      assms(2) by simp
qed

definition demo_offer :: "string \<Rightarrow> string RemoteFrame" where
  "demo_offer payload = projection_frame FrameProjection payload"

definition demo_anchor :: "string \<Rightarrow> string RemoteFrame" where
  "demo_anchor payload = projection_frame FrameTransportAnchor payload"

text \<open>A buffer of one critical frame: the second projection is refused, the older anchor replaced.\<close>

lemma demo_buffer_run:
  "buffer_run [OfferFrame (demo_offer ''a''), OfferFrame (demo_offer ''b''), AnchorUpdate 2 (demo_anchor ''x''),
     AnchorUpdate 2 (demo_anchor ''y''), TakeFrame, TakeFrame, TakeFrame] (buffer_new 1)
   = (\<lparr>cb_critical = [], cb_latest_anchors = [], cb_critical_capacity = 1, cb_coalesced_anchor_count = 1,
       cb_next_delivery_sequence = 3\<rparr>, [demo_offer ''a''],
      [(demo_offer ''a'')\<lparr>rf_sequence := 1\<rparr>, (demo_anchor ''y'')\<lparr>rf_sequence := 2\<rparr>])"
  by (simp add: buffer_new_def enqueue_critical_def enqueue_transport_anchor_def buffer_next_frame_def pop_frame_def
      btree_remove_def demo_offer_def demo_anchor_def projection_frame_def saturating_add_def)

theorem client_stream_witness:
  "map (\<lambda>frame. unat (rf_sequence frame)) [(demo_offer ''a'')\<lparr>rf_sequence := 1\<rparr>, (demo_anchor ''y'')\<lparr>rf_sequence := 2\<rparr>]
     = [1 ..< Suc (Suc (Suc 0))]"
  using client_stream [OF _ demo_buffer_run]
  by (simp add: demo_offer_def demo_anchor_def projection_frame_def is_anchor_def word_le_nat_alt)

section \<open>The invariant of the hub\<close>

definition hub_ok :: "'v ProjectionHub \<Rightarrow> bool" where
  "hub_ok h \<longleftrightarrow> 1 \<le> hub_maximum_clients h \<and> hub_maximum_clients h \<le> MAX_REMOTE_CLIENTS
     \<and> 8 \<le> hub_critical_queue_capacity h \<and> hub_critical_queue_capacity h \<le> 256
     \<and> ordered (hub_clients h) \<and> length (hub_clients h) \<le> hub_maximum_clients h
     \<and> list_all (\<lambda>(i, b). buffer_ok (hub_critical_queue_capacity h) b) (hub_clients h)
     \<and> (case hub_latest_projection h of None \<Rightarrow> True | Some p \<Rightarrow> projection_validate p = Inr ())"

lemma hub_ok_new: "hub_new maximum capacity = Inr h \<Longrightarrow> hub_ok h"
  by (auto simp: hub_new_def config_validate_def hub_ok_def split: if_splits)

lemma enqueue_projection_kind_ok:
  assumes "buffer_ok capacity b" "kind \<noteq> FrameTransportAnchor" "enqueue_projection_kind to_value b p kind = Inr b'"
  shows "buffer_ok capacity b'"
proof -
  from assms(3) obtain payload where "enqueue_critical b (projection_frame kind payload) = Inr b'"
    by (auto simp: enqueue_projection_kind_def result_simps)
  then show ?thesis
    by (rule buffer_ok_enqueue [OF assms(1), rotated 2]) (simp_all add: assms(2) projection_frame_def is_anchor_def)
qed

lemma hub_ok_connect: "hub_ok h \<Longrightarrow> hub_ok (fst (hub_connect to_value h))"
proof -
  assume ok: "hub_ok h"
  let ?cap = "hub_critical_queue_capacity h"
  let ?client = "case hub_latest_projection h of None \<Rightarrow> Inr (buffer_new ?cap) | Some p \<Rightarrow> enqueue_snapshot to_value (buffer_new ?cap) p"
  have "buffer_ok ?cap b" if "?client = Inr b" for b
    using that buffer_ok_new [of ?cap] enqueue_projection_kind_ok [of ?cap "buffer_new ?cap" FrameSnapshot]
    by (auto simp: enqueue_snapshot_def split: option.splits)
  with ok show ?thesis
    by (auto simp: hub_connect_def hub_ok_def Let_def btree_insert_set btree_insert_length list_all_iff split: sum.splits)
qed

lemma hub_ok_disconnect: "hub_ok h \<Longrightarrow> hub_ok (hub_disconnect client h)"
  using btree_remove_length [of client "hub_clients h"]
  by (auto simp: hub_ok_def hub_disconnect_def btree_remove_set list_all_iff intro: le_trans)

text \<open>What the loop over the clients leaves of each of them.\<close>

definition offered :: "(RemoteLiveProjection \<Rightarrow> string + 'v) \<Rightarrow> RemoteLiveProjection \<Rightarrow> 'v ClientBuffer \<Rightarrow> 'v ClientBuffer" where
  "offered to_value p b = (case enqueue_projection to_value b p of Inl _ \<Rightarrow> b | Inr b' \<Rightarrow> b')"

lemma offer_all_eq:
  "offer_all to_value p clients =
     (btree_values (offered to_value p) clients,
      map fst (filter (\<lambda>(i, b). \<not> is_ok (enqueue_projection to_value b p)) clients))"
  by (induction to_value p clients rule: offer_all.induct)
    (auto simp: offered_def btree_values_def split: sum.splits)

lemma fold_remove: "fold btree_remove ks m = filter (\<lambda>(k, v). k \<notin> set ks) m"
  by (induction ks arbitrary: m) (auto simp: btree_remove_def intro: filter_cong)

lemma publish_clients:
  assumes "ordered (hub_clients h)" "hub_publish_projection to_value p h = (h', Inr saturated)"
  shows "hub_clients h' = btree_values (offered to_value p)
      (filter (\<lambda>(i, b). is_ok (enqueue_projection to_value b p)) (hub_clients h))"
    and "saturated = map fst (filter (\<lambda>(i, b). \<not> is_ok (enqueue_projection to_value b p)) (hub_clients h))"
proof -
  from assms(2) have h': "hub_clients h' = fold btree_remove saturated (btree_values (offered to_value p) (hub_clients h))"
    and sat: "saturated = map fst (filter (\<lambda>(i, b). \<not> is_ok (enqueue_projection to_value b p)) (hub_clients h))"
    by (auto simp: hub_publish_projection_def offer_all_eq split: sum.splits if_splits)
  have "i \<in> set saturated \<longleftrightarrow> \<not> is_ok (enqueue_projection to_value b p)" if "(i, b) \<in> set (hub_clients h)" for i b
  proof -
    have unique: "b' = b" if "(i, b') \<in> set (hub_clients h)" for b'
      using that \<open>(i, b) \<in> _\<close> map_of_in_set [OF assms(1), of i] by (metis option.inject)
    have "i \<in> set saturated \<longleftrightarrow> (\<exists>b'. (i, b') \<in> set (hub_clients h) \<and> \<not> is_ok (enqueue_projection to_value b' p))"
      by (auto simp: sat image_iff)
    with that unique show ?thesis by blast
  qed
  then have "filter (\<lambda>(i, b). i \<notin> set saturated) (hub_clients h)
      = filter (\<lambda>(i, b). is_ok (enqueue_projection to_value b p)) (hub_clients h)"
    by (intro filter_cong) auto
  then show "hub_clients h' = btree_values (offered to_value p)
      (filter (\<lambda>(i, b). is_ok (enqueue_projection to_value b p)) (hub_clients h))"
    by (simp add: h' fold_remove btree_values_def filter_map comp_def case_prod_unfold)
  show "saturated = map fst (filter (\<lambda>(i, b). \<not> is_ok (enqueue_projection to_value b p)) (hub_clients h))" by (rule sat)
qed

lemma offered_ok: "buffer_ok capacity b \<Longrightarrow> buffer_ok capacity (offered to_value p b)"
  by (auto simp: offered_def enqueue_projection_def intro: enqueue_projection_kind_ok split: sum.split)

lemma hub_ok_publish: "hub_ok h \<Longrightarrow> hub_ok (fst (hub_publish_projection to_value p h))"
proof -
  assume ok: "hub_ok h"
  obtain h' r where r: "hub_publish_projection to_value p h = (h', r)" by (cases "hub_publish_projection to_value p h")
  show ?thesis
  proof (cases r)
    case (Inl e)
    with r ok show ?thesis by (auto simp: hub_publish_projection_def Let_def split: sum.splits if_splits prod.splits)
  next
    case (Inr saturated)
    let ?kept = "filter (\<lambda>(i, b). is_ok (enqueue_projection to_value b p)) (hub_clients h)"
    have clients: "hub_clients h' = btree_values (offered to_value p) ?kept"
      using publish_clients(1) [of h to_value p h' saturated] r Inr ok by (simp add: hub_ok_def)
    have "length ?kept \<le> length (hub_clients h)" by (rule length_filter_le)
    with ok have "length (hub_clients h') \<le> hub_maximum_clients h" unfolding clients hub_ok_def length_values by linarith
    moreover have "hub_maximum_clients h' = hub_maximum_clients h" "hub_critical_queue_capacity h' = hub_critical_queue_capacity h"
      "hub_latest_projection h' = Some p" "projection_validate p = Inr ()"
      using r Inr by (auto simp: hub_publish_projection_def Let_def split: sum.splits if_splits prod.splits)
    moreover have "list_all (\<lambda>(i, b). buffer_ok (hub_critical_queue_capacity h) b) (hub_clients h')"
      using ok by (auto simp: clients btree_values_def list_all_iff hub_ok_def intro: offered_ok)
    moreover have "ordered (hub_clients h')" using ok by (auto simp: clients hub_ok_def)
    ultimately show ?thesis using ok r by (simp add: hub_ok_def)
  qed
qed

lemma hub_ok_anchor: "hub_ok h \<Longrightarrow> hub_ok (fst (hub_publish_transport_anchor player frame h))"
proof -
  assume ok: "hub_ok h"
  have "list_all (\<lambda>(i, b). buffer_ok (hub_critical_queue_capacity h) b)
      (btree_values (enqueue_transport_anchor player frame) (hub_clients h))"
    if "rf_frame_kind frame = FrameTransportAnchor" "1 \<le> player" "player \<le> 6"
    using ok that by (auto simp: btree_values_def list_all_iff hub_ok_def is_anchor_def intro: buffer_ok_anchor)
  with ok show ?thesis by (simp add: hub_publish_transport_anchor_def hub_ok_def)
qed

lemma hub_ok_next: "hub_ok h \<Longrightarrow> hub_ok (fst (hub_next_frame client h))"
proof (cases "map_of (hub_clients h) client")
  case (Some b)
  assume ok: "hub_ok h"
  then have "buffer_ok (hub_critical_queue_capacity h) (fst (buffer_next_frame b))"
    using map_of_SomeD [OF Some] by (intro buffer_ok_next) (auto simp: hub_ok_def list_all_iff)
  with ok Some have "list_all (\<lambda>(i, b). buffer_ok (hub_critical_queue_capacity h) b)
      (btree_adjust client (\<lambda>_. fst (buffer_next_frame b)) (hub_clients h))"
    by (auto simp: btree_adjust_def list_all_iff hub_ok_def)
  with ok Some show ?thesis by (simp add: hub_next_frame_def hub_ok_def)
qed (simp add: hub_next_frame_def)

datatype 'v hub_op = HubConnect | HubDisconnect u64 | HubPublish RemoteLiveProjection | HubAnchor u8 "'v RemoteFrame" | HubNext u64

fun hub_step :: "(RemoteLiveProjection \<Rightarrow> string + 'v) \<Rightarrow> 'v ProjectionHub \<Rightarrow> 'v hub_op \<Rightarrow> 'v ProjectionHub" where
  "hub_step to_value h HubConnect = fst (hub_connect to_value h)"
| "hub_step to_value h (HubDisconnect client) = hub_disconnect client h"
| "hub_step to_value h (HubPublish p) = fst (hub_publish_projection to_value p h)"
| "hub_step to_value h (HubAnchor player frame) = fst (hub_publish_transport_anchor player frame h)"
| "hub_step to_value h (HubNext client) = fst (hub_next_frame client h)"

lemma hub_ok_run: "hub_ok h \<Longrightarrow> hub_ok (foldl (hub_step to_value) h ops)"
proof (induction ops arbitrary: h)
  case (Cons op ops)
  then show ?case
    by (cases op) (simp_all add: hub_ok_connect hub_ok_disconnect hub_ok_publish hub_ok_anchor hub_ok_next)
qed simp

text \<open>
  However clients come, go, read and stall, the hub keeps at most eight of them, each
  with at most 256 critical frames and six anchors, and its latest projection is a valid one.
\<close>

theorem hub_bounded:
  assumes "hub_new maximum capacity = Inr h"
  shows "hub_ok (foldl (hub_step to_value) h ops)"
  using hub_ok_run [OF hub_ok_new [OF assms]] .

theorem hub_bounded_witness:
  "\<exists>h. hub_new 2 8 = Inr h \<and> hub_ok (foldl (hub_step (\<lambda>p. Inr (prj_engine_version p))) h [HubConnect, HubConnect, HubConnect])"
proof -
  obtain h :: "string ProjectionHub" where "hub_new 2 8 = Inr h"
    by (simp add: hub_new_def config_validate_def MAX_REMOTE_CLIENTS_def)
  with hub_bounded [OF this] show ?thesis by blast
qed

text \<open>
  A published projection reaches the end of the queue of every client that has room, and exactly the
  clients without room are reported and disconnected.
\<close>

theorem publish_reaches_clients:
  assumes "hub_ok h" "to_value p = Inr payload" "hub_publish_projection to_value p h = (h', Inr saturated)"
  shows "map_of (hub_clients h') i = (case map_of (hub_clients h) i of
           None \<Rightarrow> None
         | Some b \<Rightarrow> if length (cb_critical b) < hub_critical_queue_capacity h
             then Some (b\<lparr>cb_critical := cb_critical b @ [projection_frame FrameProjection payload]\<rparr>) else None)
    \<and> (i \<in> set saturated) = (case map_of (hub_clients h) i of None \<Rightarrow> False
         | Some b \<Rightarrow> length (cb_critical b) = hub_critical_queue_capacity h)"
proof -
  have ord: "ordered (hub_clients h)" using assms(1) by (simp add: hub_ok_def)
  have enq: "enqueue_projection to_value b p =
      (if length (cb_critical b) \<ge> cb_critical_capacity b then Inl CriticalQueueSaturated
       else Inr (b\<lparr>cb_critical := cb_critical b @ [projection_frame FrameProjection payload]\<rparr>))" for b
    by (simp add: enqueue_projection_def enqueue_projection_kind_def enqueue_critical_def assms(2))
  have cap: "cb_critical_capacity b = hub_critical_queue_capacity h \<and> length (cb_critical b) \<le> hub_critical_queue_capacity h"
    if "map_of (hub_clients h) i = Some b" for b
    using assms(1) map_of_SomeD [OF that] by (auto simp: hub_ok_def buffer_ok_def list_all_iff)
  have "map_of (hub_clients h') i = (case map_of (hub_clients h) i of None \<Rightarrow> None
      | Some b \<Rightarrow> if is_ok (enqueue_projection to_value b p) then Some (offered to_value p b) else None)"
    using publish_clients(1) [OF ord assms(3)]
    by (auto simp: btree_values_lookup btree_filter_lookup [OF ordered_distinct [OF ord]] split: option.split)
  moreover have "i \<in> set saturated \<longleftrightarrow> (\<exists>b. map_of (hub_clients h) i = Some b \<and> \<not> is_ok (enqueue_projection to_value b p))"
    using publish_clients(2) [OF ord assms(3)] map_of_in_set [OF ord] by force
  ultimately show ?thesis
    using cap by (auto simp: enq offered_def split: option.split)
qed

definition demo_hub :: "string ProjectionHub" where
  "demo_hub = \<lparr>hub_latest_projection = None, hub_clients = [(1, buffer_new 8)], hub_next_client_id = 2,
     hub_maximum_clients = 2, hub_critical_queue_capacity = 8\<rparr>"

theorem publish_reaches_clients_witness:
  "\<exists>p h'. hub_publish_projection (\<lambda>p. Inr ''v'') p demo_hub = (h', Inr [])
     \<and> map_of (hub_clients h') 1 = Some ((buffer_new 8)\<lparr>cb_critical := [projection_frame FrameProjection ''v'']\<rparr>)"
proof -
  from demo_projection obtain p where p: "projection_validate p = Inr ()"
    by (auto elim!: from_engine_snapshot_accepted)
  have ok: "hub_ok demo_hub"
    by (simp add: demo_hub_def hub_ok_def MAX_REMOTE_CLIENTS_def ordered_def buffer_ok_new)
  obtain h' where h': "hub_publish_projection (\<lambda>p. Inr ''v'') p demo_hub = (h', Inr [])"
    by (simp add: hub_publish_projection_def p demo_hub_def enqueue_projection_def enqueue_projection_kind_def
        enqueue_critical_def buffer_new_def)
  from publish_reaches_clients [OF ok _ h', of "''v''" 1]
  have "map_of (hub_clients h') 1 = Some ((buffer_new 8)\<lparr>cb_critical := [projection_frame FrameProjection ''v'']\<rparr>)"
    by (simp add: demo_hub_def buffer_new_def)
  with h' show ?thesis by blast
qed

section \<open>Identities of forwarded commands\<close>

lemma be_bytes_length [simp]: "length (be_bytes n) = 8"
  by (simp add: be_bytes_def)

lemma digits_value:
  "foldl (\<lambda>acc c. acc * 256 + code_of c) 0 (map (\<lambda>i. char_of (n div 256 ^ (k - Suc i))) [0..<k]) = n mod 256 ^ k"
proof (induction k arbitrary: n)
  case (Suc k)
  have "map (\<lambda>i. char_of (n div 256 ^ (Suc k - Suc i))) [0..<k] = map (\<lambda>i. char_of (n div 256 div 256 ^ (k - Suc i))) [0..<k]"
    by (auto simp: div_mult2_eq [symmetric] Suc_diff_Suc simp flip: power_Suc)
  then have digits: "map (\<lambda>i. char_of (n div 256 ^ (Suc k - Suc i))) [0..<Suc k]
      = map (\<lambda>i. char_of (n div 256 div 256 ^ (k - Suc i))) [0..<k] @ [char_of n]"
    by (simp only: upt_Suc_append [OF le0] map_append) simp
  show ?case unfolding digits using Suc [of "n div 256"] by (simp add: code_of_def mod_mult2_eq)
qed simp

lemma be_bytes_value: "n < 2 ^ 64 \<Longrightarrow> foldl (\<lambda>acc c. acc * 256 + code_of c) 0 (be_bytes n) = n"
  using digits_value [of n 8] by (simp add: be_bytes_def del: upt_Suc)

lemma be_bytes_inject: "m < 2 ^ 64 \<Longrightarrow> n < 2 ^ 64 \<Longrightarrow> be_bytes m = be_bytes n \<longleftrightarrow> m = n"
  using be_bytes_value by metis

lemma length_prefixed_inject:
  assumes "length a < 2 ^ 64" "length b < 2 ^ 64" "length_prefixed a @ x = length_prefixed b @ y"
  shows "a = b \<and> x = y"
proof -
  from assms(3) have "be_bytes (length a) = be_bytes (length b)" "a @ x = b @ y"
    by (auto simp: length_prefixed_def)
  with be_bytes_inject [OF assms(1,2)] show ?thesis by simp
qed

definition usize_key :: "CommandKey \<Rightarrow> bool" where
  "usize_key key = (case key of (a, b, c) \<Rightarrow> length a < 2 ^ 64 \<and> length b < 2 ^ 64 \<and> length c < 2 ^ 64)"

text \<open>The bytes that are hashed determine the key: no two keys run together.\<close>

lemma key_bytes_inject: "usize_key k \<Longrightarrow> usize_key l \<Longrightarrow> key_bytes k = key_bytes l \<Longrightarrow> k = l"
proof -
  assume "usize_key k" "usize_key l" "key_bytes k = key_bytes l"
  moreover obtain a b c where k: "k = (a, b, c)" by (cases k)
  moreover obtain d e f where l: "l = (d, e, f)" by (cases l)
  ultimately have bounds: "length a < 2 ^ 64" "length d < 2 ^ 64" "length b < 2 ^ 64" "length e < 2 ^ 64"
    "length c < 2 ^ 64" "length f < 2 ^ 64"
    and eq: "length_prefixed a @ length_prefixed b @ length_prefixed c = length_prefixed d @ length_prefixed e @ length_prefixed f"
    by (simp_all add: usize_key_def key_bytes_def)
  from length_prefixed_inject [OF bounds(1,2) eq] have ad: "a = d"
    and eq2: "length_prefixed b @ length_prefixed c = length_prefixed e @ length_prefixed f" by simp_all
  from length_prefixed_inject [OF bounds(3,4) eq2] have be: "b = e"
    and eq3: "length_prefixed c @ [] = length_prefixed f @ []" by simp_all
  from length_prefixed_inject [OF bounds(5,6) eq3] ad be k l show "k = l" by simp
qed

text \<open>
  No collision of the digest on the keys in use, as SHA-256 is designed for.
\<close>

definition collision_free :: "(string \<Rightarrow> string) \<Rightarrow> CommandKey set \<Rightarrow> bool" where
  "collision_free digest keys \<longleftrightarrow> (\<forall>k \<in> keys. usize_key k) \<and> inj_on digest (key_bytes ` keys)"

lemma forwarded_inj:
  assumes "collision_free digest keys" "k \<in> keys" "l \<in> keys"
  shows "forwarded_command_id digest k = forwarded_command_id digest l \<longleftrightarrow> k = l"
proof
  assume "forwarded_command_id digest k = forwarded_command_id digest l"
  then have eq: "digest (key_bytes k) = digest (key_bytes l)" by (simp only: forwarded_command_id_def)
  have inj: "inj_on digest (key_bytes ` keys)" and usize: "usize_key k" "usize_key l"
    using assms unfolding collision_free_def by blast+
  from inj_onD [OF inj eq] assms(2,3) have "key_bytes k = key_bytes l" by blast
  with usize show "k = l" by (rule key_bytes_inject)
qed simp

section \<open>The ledger of commands\<close>

text \<open>A command of the ledger: under its own key, valid, mutating, its result under its own identifier.\<close>

definition entry_ok :: "CommandKey \<Rightarrow> CommandOutcome \<Rightarrow> bool" where
  "entry_ok key outcome \<longleftrightarrow> command_key (fst key) (co_command outcome) = key
     \<and> command_validate (co_command outcome) = Inr () \<and> is_mutating (co_command outcome)
     \<and> (case co_result outcome of None \<Rightarrow> True | Some r \<Rightarrow> rr_command_id r = snd (snd key))"

definition guard_ok :: "(string \<Rightarrow> string) \<Rightarrow> CommandKey set \<Rightarrow> GatewayCommandGuard \<Rightarrow> bool" where
  "guard_ok digest keys g \<longleftrightarrow> dom (gg_accepted g) = set (gg_insertion_order g) \<and> distinct (gg_insertion_order g)
     \<and> set (gg_insertion_order g) \<subseteq> keys \<and> length (gg_insertion_order g) \<le> gg_capacity g \<and> 64 \<le> gg_capacity g
     \<and> (\<forall>name key. gg_forwarded g name = Some key \<longleftrightarrow> key \<in> set (gg_insertion_order g) \<and> name = forwarded_command_id digest key)
     \<and> (\<forall>key outcome. gg_accepted g key = Some outcome \<longrightarrow> entry_ok key outcome)"

datatype guard_op =
    GuardTransfer string string
  | GuardRevoke
  | GuardAdmit string RemoteCommand
  | GuardRecord RemoteCommandResult

fun guard_step :: "(string \<Rightarrow> string) \<Rightarrow> GatewayCommandGuard \<Rightarrow> guard_op \<Rightarrow> GatewayCommandGuard" where
  "guard_step digest g (GuardTransfer device lease) = guard_transfer_control device lease g"
| "guard_step digest g GuardRevoke = guard_revoke_control g"
| "guard_step digest g (GuardAdmit device command) = fst (admit digest device command g)"
| "guard_step digest g (GuardRecord result) = record_result result g"

fun op_keys :: "guard_op \<Rightarrow> CommandKey set" where
  "op_keys (GuardAdmit device command) = {command_key device command}"
| "op_keys _ = {}"

lemma guard_okD:
  assumes "guard_ok digest keys g"
  shows "gg_forwarded g name = Some key \<longleftrightarrow> key \<in> set (gg_insertion_order g) \<and> name = forwarded_command_id digest key"
    and "gg_accepted g key = Some outcome \<Longrightarrow> entry_ok key outcome"
    and "dom (gg_accepted g) = set (gg_insertion_order g)"
  using assms unfolding guard_ok_def by blast+

lemma guard_ok_new: "guard_new capacity = Inr g \<Longrightarrow> guard_ok digest keys g"
  by (auto simp: guard_new_def guard_ok_def split: if_splits)

lemma guard_ok_control:
  "guard_ok digest keys (guard_transfer_control device lease g) = guard_ok digest keys g"
  "guard_ok digest keys (guard_revoke_control g) = guard_ok digest keys g"
  by (simp_all add: guard_ok_def guard_transfer_control_def guard_revoke_control_def)

lemma remove_nth:
  assumes "distinct xs" "i < length xs"
  shows "set (take i xs @ drop (Suc i) xs) = set xs - {xs ! i}" "distinct (take i xs @ drop (Suc i) xs)"
proof -
  from id_take_nth_drop [OF assms(2)] obtain a b where a: "take i xs = a" "drop (Suc i) xs = b" and xs: "xs = a @ xs ! i # b" by simp
  have "distinct (a @ xs ! i # b)" using assms(1) xs by simp
  then have "set (a @ b) = set (a @ xs ! i # b) - {xs ! i} \<and> distinct (a @ b)" by auto
  then show "set (take i xs @ drop (Suc i) xs) = set xs - {xs ! i}" "distinct (take i xs @ drop (Suc i) xs)"
    using xs a by auto
qed

text \<open>Room is made by forgetting one resolved command, and there is room afterwards.\<close>

lemma make_room_ok:
  assumes free: "collision_free digest keys" and ok: "guard_ok digest keys g" and room: "make_room digest g = Inr g'"
  shows "guard_ok digest keys g'" "length (gg_insertion_order g') < gg_capacity g'"
    and "gg_accepted g key = Some outcome \<Longrightarrow> co_result outcome = None \<Longrightarrow> gg_accepted g' key = Some outcome"
    and "gg_accepted g key = None \<Longrightarrow> gg_accepted g' key = None"
proof -
  have "guard_ok digest keys g' \<and> length (gg_insertion_order g') < gg_capacity g'
    \<and> (gg_accepted g key = Some outcome \<longrightarrow> co_result outcome = None \<longrightarrow> gg_accepted g' key = Some outcome)
    \<and> (gg_accepted g key = None \<longrightarrow> gg_accepted g' key = None)"
  proof (cases "length (gg_insertion_order g) = gg_capacity g")
    case False
    then have "g' = g" using room by (simp add: make_room_def)
    moreover have "length (gg_insertion_order g) \<le> gg_capacity g" using ok by (simp add: guard_ok_def)
    ultimately show ?thesis using ok False by simp
  next
    case True
    let ?order = "gg_insertion_order g"
    from True room obtain i where i: "position (resolved g) ?order = Some i" and
      g': "g' = g\<lparr>gg_insertion_order := take i ?order @ drop (Suc i) ?order,
        gg_forwarded := (gg_forwarded g)(forwarded_command_id digest (?order ! i) := None),
        gg_accepted := (gg_accepted g)(?order ! i := None)\<rparr>"
      by (auto simp: make_room_def result_simps Let_def)
    from position_SomeD [OF i] have bound: "i < length ?order" and res: "resolved g (?order ! i)" by simp_all
    have dist: "distinct ?order" using ok by (simp add: guard_ok_def)
    note rest = remove_nth [OF dist bound]
    have less: "length (take i ?order @ drop (Suc i) ?order) < length ?order" using bound by simp
    have keys: "set ?order \<subseteq> keys" "?order ! i \<in> keys" using ok bound by (auto simp: guard_ok_def)
    have "guard_ok digest keys g'"
    proof -
      have "k = ?order ! i" if "k \<in> set ?order" "forwarded_command_id digest k = forwarded_command_id digest (?order ! i)" for k
        using that keys forwarded_inj [OF free, of k "?order ! i"] by blast
      with ok True less rest show ?thesis unfolding guard_ok_def g' by (auto split: if_splits)
    qed
    moreover have "gg_accepted g key = Some outcome \<longrightarrow> co_result outcome = None \<longrightarrow> gg_accepted g' key = Some outcome"
      using res by (auto simp: g' resolved_def)
    ultimately show ?thesis using less True by (simp add: g')
  qed
  then show "guard_ok digest keys g'" "length (gg_insertion_order g') < gg_capacity g'"
    and "gg_accepted g key = Some outcome \<Longrightarrow> co_result outcome = None \<Longrightarrow> gg_accepted g' key = Some outcome"
    and "gg_accepted g key = None \<Longrightarrow> gg_accepted g' key = None" by simp_all
qed

lemma insert_command_ok:
  assumes "collision_free digest keys" "guard_ok digest keys g" "length (gg_insertion_order g) < gg_capacity g"
    "gg_accepted g key = None" "key \<in> keys" "entry_ok key \<lparr>co_command = command, co_result = None\<rparr>"
  shows "guard_ok digest keys (insert_command digest key command g)"
proof -
  have new: "key \<notin> set (gg_insertion_order g)" using assms(2,4) by (metis guard_ok_def domIff)
  have other: "forwarded_command_id digest k \<noteq> forwarded_command_id digest key" if "k \<in> set (gg_insertion_order g)" for k
    using that assms(2,5) new forwarded_inj [OF assms(1), of k key] by (metis guard_ok_def subsetD)
  have "((gg_forwarded g)(forwarded_command_id digest key \<mapsto> key)) name = Some k
      \<longleftrightarrow> k \<in> set (gg_insertion_order g @ [key]) \<and> name = forwarded_command_id digest k" for name k
    using other [of k] by (cases "name = forwarded_command_id digest key"; cases "k = key") (simp_all add: guard_okD(1) [OF assms(2)], metis+)
  moreover have "entry_ok k outcome" if "((gg_accepted g)(key \<mapsto> \<lparr>co_command = command, co_result = None\<rparr>)) k = Some outcome" for k outcome
    using that guard_okD(2) [OF assms(2)] assms(6) by (cases "k = key") auto
  ultimately show ?thesis using assms new by (simp add: guard_ok_def insert_command_def)
qed

lemma authorize_mutating:
  "is_mutating command \<Longrightarrow> authorize p device command = Inr () \<longleftrightarrow>
     command_validate command = Inr ()
     \<and> gp_controller p = Some \<lparr>cl_device_id = device, cl_lease_id = rc_controller_lease_id command\<rparr>"
  by (auto simp: authorize_def result_simps split: option.splits if_splits)

lemma guard_ok_admit:
  assumes "collision_free digest keys" "guard_ok digest keys g" "command_key device command \<in> keys"
  shows "guard_ok digest keys (fst (admit digest device command g))"
proof -
  have "guard_ok digest keys (insert_command digest (command_key device command) command g')"
    if "make_room digest g = Inr g'" "gg_accepted g (command_key device command) = None"
      "is_mutating command" "command_validate command = Inr ()" for g'
    using make_room_ok [OF assms(1,2) that(1)] that assms
    by (intro insert_command_ok) (auto simp: entry_ok_def command_key_def)
  with assms(2) show ?thesis
    by (auto simp: admit_def Let_def authorize_mutating split: sum.splits option.splits)
qed

lemma guard_ok_record: "guard_ok digest keys g \<Longrightarrow> guard_ok digest keys (record_result result g)"
  by (auto simp: record_result_def guard_ok_def entry_ok_def dom_def split: option.splits)

lemma guard_ok_step:
  "collision_free digest keys \<Longrightarrow> guard_ok digest keys g \<Longrightarrow> op_keys op \<subseteq> keys \<Longrightarrow> guard_ok digest keys (guard_step digest g op)"
  by (cases op) (simp_all add: guard_ok_control guard_ok_admit guard_ok_record)

lemma guard_ok_run:
  "collision_free digest keys \<Longrightarrow> guard_ok digest keys g \<Longrightarrow> (\<Union>op \<in> set ops. op_keys op) \<subseteq> keys
     \<Longrightarrow> guard_ok digest keys (foldl (guard_step digest) g ops)"
  by (induction ops arbitrary: g) (simp_all add: guard_ok_step)

section \<open>At most one execution\<close>

definition pending :: "GatewayCommandGuard \<Rightarrow> CommandKey \<Rightarrow> RemoteCommand \<Rightarrow> bool" where
  "pending g key command \<longleftrightarrow> gg_accepted g key = Some \<lparr>co_command = command, co_result = None\<rparr>"

fun resolves :: "(string \<Rightarrow> string) \<Rightarrow> CommandKey \<Rightarrow> guard_op \<Rightarrow> bool" where
  "resolves digest key (GuardRecord result) \<longleftrightarrow> rr_command_id result = forwarded_command_id digest key"
| "resolves digest key _ \<longleftrightarrow> False"

lemma admit_keeps_pending:
  assumes "collision_free digest keys" "guard_ok digest keys g" "pending g key command"
  shows "pending (fst (admit digest device other g)) key command"
proof -
  have "pending (insert_command digest (command_key device other) other g') key command"
    if "make_room digest g = Inr g'" "gg_accepted g (command_key device other) = None" for g'
  proof -
    have "gg_accepted g' key = Some \<lparr>co_command = command, co_result = None\<rparr>"
      using make_room_ok(3) [OF assms(1,2) that(1)] assms(3) by (simp add: pending_def)
    moreover have "key \<noteq> command_key device other" using that(2) assms(3) by (auto simp: pending_def)
    ultimately show ?thesis by (simp add: pending_def insert_command_def)
  qed
  with assms(3) show ?thesis by (auto simp: admit_def Let_def split: sum.splits option.splits)
qed

lemma record_keeps_pending:
  assumes "guard_ok digest keys g" "pending g key command" "rr_command_id result \<noteq> forwarded_command_id digest key"
  shows "pending (record_result result g) key command"
proof -
  have "k \<noteq> key" if "gg_forwarded g (rr_command_id result) = Some k" for k
    using that assms(3) guard_okD(1) [OF assms(1)] by blast
  with assms(2) show ?thesis by (auto simp: record_result_def pending_def split: option.splits)
qed

lemma pending_kept:
  assumes free: "collision_free digest keys"
  shows "guard_ok digest keys g \<Longrightarrow> pending g key command \<Longrightarrow> (\<Union>op \<in> set ops. op_keys op) \<subseteq> keys
    \<Longrightarrow> \<not> list_ex (resolves digest key) ops
    \<Longrightarrow> guard_ok digest keys (foldl (guard_step digest) g ops) \<and> pending (foldl (guard_step digest) g ops) key command"
proof (induction ops arbitrary: g)
  case (Cons op ops)
  have "pending (guard_step digest g op) key command"
    using Cons.prems admit_keeps_pending [OF free] record_keeps_pending
    by (cases op) (simp_all add: pending_def guard_transfer_control_def guard_revoke_control_def)
  with Cons guard_ok_step [OF free] show ?case by simp
qed simp

lemma admit_pending:
  "pending g (command_key device command) original \<Longrightarrow> is_mutating command \<Longrightarrow>
     snd (admit digest device command g) =
       (case authorize (gg_policy g) device command of
          Inl e \<Rightarrow> Inl (Unauthorized e)
        | Inr _ \<Rightarrow> if original = command then Inr AdmissionPending else Inl CommandIdReused)"
  by (auto simp: admit_def pending_def Let_def split: sum.split)

lemma admit_accepted:
  assumes "collision_free digest keys" "guard_ok digest keys g" "is_mutating command"
    "admit digest device command g = (g', Inr AdmissionAccepted)"
  shows "pending g' (command_key device command) command"
    "gp_controller (gg_policy g) = Some \<lparr>cl_device_id = device, cl_lease_id = rc_controller_lease_id command\<rparr>"
  using assms authorize_mutating [OF assms(3), of "gg_policy g" device]
  by (auto simp: admit_def pending_def Let_def insert_command_def split: sum.splits option.splits if_splits)

text \<open>
  C12. A mutating command is admitted for execution only for the holder of the controller lease, and at most
  once while its outcome is unknown: whatever the guard does until the result of the command is
  recorded, the same command is answered as pending or refused, and another command under
  its identity is refused.
\<close>

theorem command_executed_once:
  assumes "guard_new capacity = Inr start" "g = foldl (guard_step digest) start before"
    "admit digest device command g = (g', Inr AdmissionAccepted)" "is_mutating command"
    "collision_free digest (\<Union>op \<in> set (before @ GuardAdmit device command # after). op_keys op)"
    "\<not> list_ex (resolves digest (command_key device command)) after"
    "is_mutating again" "command_key device again = command_key device command"
  shows "gp_controller (gg_policy g) = Some \<lparr>cl_device_id = device, cl_lease_id = rc_controller_lease_id command\<rparr>
    \<and> snd (admit digest device again (foldl (guard_step digest) g' after)) =
      (case authorize (gg_policy (foldl (guard_step digest) g' after)) device again of
         Inl e \<Rightarrow> Inl (Unauthorized e)
       | Inr _ \<Rightarrow> if command = again then Inr AdmissionPending else Inl CommandIdReused)"
proof -
  let ?keys = "\<Union>op \<in> set (before @ GuardAdmit device command # after). op_keys op"
  have ok: "guard_ok digest ?keys g"
    unfolding assms(2) by (rule guard_ok_run [OF assms(5) guard_ok_new [OF assms(1)]]) auto
  have "guard_ok digest ?keys g'"
    using guard_ok_admit [OF assms(5) ok, of device command] assms(3) by simp
  then have "pending (foldl (guard_step digest) g' after) (command_key device command) command"
    using pending_kept [OF assms(5) _ admit_accepted(1) [OF assms(5) ok assms(4,3)]] assms(6) by auto
  then show ?thesis
    using admit_accepted(2) [OF assms(5) ok assms(4,3)] admit_pending [of _ device again command] assms(7,8) by simp
qed

definition demo_command :: RemoteCommand where
  "demo_command = \<lparr>rc_command_id = ''c'', rc_controller_lease_id = ''l'', rc_issued_at_unix_millis = 5,
     rc_command = SetAbletonLinkEnabled True 3\<rparr>"

definition demo_guard :: GatewayCommandGuard where
  "demo_guard = \<lparr>gg_policy = \<lparr>gp_controller = None\<rparr>, gg_accepted = Map.empty, gg_forwarded = Map.empty,
     gg_insertion_order = [], gg_capacity = 64\<rparr>"

lemma demo_guard_new: "guard_new 64 = Inr demo_guard"
  by (simp add: guard_new_def demo_guard_def)

lemma demo_command_valid: "command_validate demo_command = Inr ()" "is_mutating demo_command"
  by (simp_all add: demo_command_def command_validate_def validate_identifier_def has_control_def is_continuation_def
      code_of_def is_mutating_def)

lemma demo_admitted:
  "admit (\<lambda>s. s) ''d'' demo_command (foldl (guard_step (\<lambda>s. s)) demo_guard [GuardTransfer ''d'' ''l''])
   = (insert_command (\<lambda>s. s) (command_key ''d'' demo_command) demo_command (guard_transfer_control ''d'' ''l'' demo_guard),
      Inr AdmissionAccepted)"
  using demo_command_valid
  by (simp add: admit_def authorize_def guard_transfer_control_def policy_transfer_control_def demo_guard_def make_room_def Let_def)
     (simp add: demo_command_def)

theorem command_executed_once_witness:
  "snd (admit (\<lambda>s. s) ''d'' demo_command
     (insert_command (\<lambda>s. s) (command_key ''d'' demo_command) demo_command (guard_transfer_control ''d'' ''l'' demo_guard)))
   = Inr AdmissionPending"
proof -
  have "collision_free (\<lambda>s. s) (\<Union>op \<in> set ([GuardTransfer ''d'' ''l''] @ GuardAdmit ''d'' demo_command # []). op_keys op)"
    by (simp add: collision_free_def usize_key_def command_key_def demo_command_def)
  from command_executed_once [OF demo_guard_new refl demo_admitted demo_command_valid(2) this _ demo_command_valid(2) refl]
  show ?thesis using demo_command_valid
    by (simp add: authorize_def insert_command_def guard_transfer_control_def policy_transfer_control_def demo_command_def)
qed

text \<open>
  A command that was admitted may be executed exactly as long as the device it came from
  still holds the lease it was issued under.
\<close>

theorem forwarded_only_with_lease:
  assumes "guard_ok digest keys g" "gg_accepted g key = Some outcome"
  shows "authorize_forwarded g (forwarded_command digest (fst key) (co_command outcome)) = Inr ()
    \<longleftrightarrow> gp_controller (gg_policy g) = Some \<lparr>cl_device_id = fst key, cl_lease_id = fst (snd key)\<rparr>"
proof -
  have key: "command_key (fst key) (co_command outcome) = key" and "command_validate (co_command outcome) = Inr ()"
    and "is_mutating (co_command outcome)"
    using guard_okD(2) [OF assms] by (auto simp: entry_ok_def)
  moreover have "gg_forwarded g (forwarded_command_id digest key) = Some key"
    using guard_okD(1,3) [OF assms(1)] assms(2) by blast
  moreover have "rc_controller_lease_id (co_command outcome) = fst (snd key)" using key by (metis command_key_def fst_conv snd_conv)
  ultimately show ?thesis
    by (simp add: authorize_forwarded_def forwarded_command_def assms(2) map_err_eq authorize_mutating)
qed

theorem forwarded_only_with_lease_witness:
  "authorize_forwarded (guard_revoke_control (fst (admit (\<lambda>s. s) ''d'' demo_command (guard_transfer_control ''d'' ''l'' demo_guard))))
     (forwarded_command (\<lambda>s. s) ''d'' demo_command) \<noteq> Inr ()"
proof -
  let ?keys = "{command_key ''d'' demo_command}" and ?g = "guard_transfer_control ''d'' ''l'' demo_guard"
  let ?after = "fst (admit (\<lambda>s. s) ''d'' demo_command ?g)"
  have "collision_free (\<lambda>s. s) ?keys"
    by (simp add: collision_free_def usize_key_def command_key_def demo_command_def)
  then have ok: "guard_ok (\<lambda>s. s) ?keys (guard_revoke_control ?after)"
    by (simp add: guard_ok_control guard_ok_admit guard_ok_new [OF demo_guard_new])
  have "gg_accepted (guard_revoke_control ?after) (command_key ''d'' demo_command) = Some \<lparr>co_command = demo_command, co_result = None\<rparr>"
    using demo_admitted by (simp add: guard_revoke_control_def insert_command_def)
  from forwarded_only_with_lease [OF ok this] show ?thesis
    by (simp add: command_key_def guard_revoke_control_def policy_revoke_control_def)
qed

end
