(* ===== verification/Remote_Pairing.thy ===== *)
theory Remote_Pairing
  imports Rust_Text Ordered_Map "HOL-Library.Char_ord" "HOL-Library.List_Lexorder"
begin

text \<open>
  Trust of remote devices (\<open>lumi-remote-gateway/src/lib.rs\<close>, second part): the limiter of
  attempts and the registry of invitations and paired devices. The parameter \<open>hash\<close> stands for the
  SHA-256 of a secret; \<open>ct_eq\<close> is equality. A \<open>BTreeMap\<close> is an ordered association list.
\<close>

section \<open>Rate limits\<close>

record AttemptRateLimiter =
  rl_maximum_attempts :: nat
  rl_window_millis :: u64
  rl_attempts :: "(string \<times> u64 list) list"

datatype RateLimitError = InvalidConfiguration | InvalidKey | Limited

definition limiter_new :: "nat \<Rightarrow> u64 \<Rightarrow> RateLimitError + AttemptRateLimiter" where
  "limiter_new maximum window =
     (if maximum = 0 \<or> maximum > 100 \<or> window = 0 then Inl InvalidConfiguration
      else Inr \<lparr>rl_maximum_attempts = maximum, rl_window_millis = window, rl_attempts = []\<rparr>)"

definition expired :: "u64 \<Rightarrow> u64 \<Rightarrow> u64 \<Rightarrow> bool" where
  "expired window now v \<longleftrightarrow> saturating_sub now v \<ge> window"

text \<open>\<open>retain\<close> with the loop that drops expired attempts from the front.\<close>

definition prune :: "u64 \<Rightarrow> u64 \<Rightarrow> (string \<times> u64 list) list \<Rightarrow> (string \<times> u64 list) list" where
  "prune window now attempts =
     filter (\<lambda>(key, ts). ts \<noteq> []) (btree_values (dropWhile (expired window now)) attempts)"

definition limiter_check :: "string \<Rightarrow> u64 \<Rightarrow> AttemptRateLimiter \<Rightarrow> AttemptRateLimiter \<times> (RateLimitError + unit)" where
  "limiter_check key now l =
     (if key = [] \<or> length key > 256 \<or> has_control key then (l, Inl InvalidKey)
      else
        let l' = l\<lparr>rl_attempts := prune (rl_window_millis l) now (rl_attempts l)\<rparr> in
        if (case map_of (rl_attempts l') key of None \<Rightarrow> False | Some ts \<Rightarrow> length ts \<ge> rl_maximum_attempts l)
           \<or> (map_of (rl_attempts l') key = None \<and> length (rl_attempts l') \<ge> 1024)
        then (l', Inl Limited) else (l', Inr ()))"

definition limiter_record :: "string \<Rightarrow> u64 \<Rightarrow> AttemptRateLimiter \<Rightarrow> AttemptRateLimiter \<times> (RateLimitError + unit)" where
  "limiter_record key now l =
     state_then (limiter_check key now l) (\<lambda>l' _.
       (l'\<lparr>rl_attempts := btree_insert key
            ((case map_of (rl_attempts l') key of None \<Rightarrow> [] | Some ts \<Rightarrow> ts) @ [now]) (rl_attempts l')\<rparr>, Inr ()))"

section \<open>Pairing\<close>

definition MAX_PAIRED_DEVICES :: nat where
  "MAX_PAIRED_DEVICES = 8"

definition MAX_INVITATION_LIFETIME_MILLIS :: u64 where
  "MAX_INVITATION_LIFETIME_MILLIS = 300000"

record PairingInvitationRequest =
  pr_invitation_id :: string
  pr_invitation_secret :: string
  pr_short_code :: string
  pr_certificate_fingerprint_sha256 :: string
  pr_created_at_unix_millis :: u64
  pr_expires_at_unix_millis :: u64

record PendingInvitation =
  pi_invitation_id :: string
  pi_secret_sha256 :: string
  pi_short_code :: string
  pi_certificate_fingerprint_sha256 :: string
  pi_expires_at_unix_millis :: u64
  pi_approved :: bool

record PairingInvitationDetails =
  pd_invitation_id :: string
  pd_short_code :: string
  pd_certificate_fingerprint_sha256 :: string
  pd_expires_at_unix_millis :: u64
  pd_approved :: bool

record PairedDevice =
  dv_device_id :: string
  dv_display_name :: string
  dv_credential_sha256 :: string
  dv_paired_at_unix_millis :: u64
  dv_last_seen_unix_millis :: u64
  dv_controller :: bool
  dv_client_version :: "string option"

record ControllerChange =
  cc_at_unix_millis :: u64
  cc_reason :: string
  cc_previous_device_id :: "string option"
  cc_device_id :: "string option"

record PairingRegistrySnapshot =
  ps_devices :: "PairedDevice list"
  ps_controller_selection_initialized :: bool
  ps_controller_changes :: "ControllerChange list"

record PairingRegistry =
  pg_pending :: "(string \<times> PendingInvitation) list"
  pg_devices :: "(string \<times> PairedDevice) list"
  pg_controller_selection_initialized :: bool
  pg_controller_changes :: "ControllerChange list"

datatype PairingError =
    InvalidInvitation
  | InvitationUnknown
  | InvitationExpired
  | ApprovalRequired
  | ShortCodeMismatch
  | InvitationSecretMismatch
  | PairingInvalidIdentifier
  | InvalidCredential
  | InvalidPersistedDevice
  | DeviceLimitReached
  | DeviceUnknown
  | CredentialMismatch

definition registry_default :: PairingRegistry where
  "registry_default = \<lparr>pg_pending = [], pg_devices = [], pg_controller_selection_initialized = False, pg_controller_changes = []\<rparr>"

definition public_identifier :: "nat \<Rightarrow> string \<Rightarrow> bool" where
  "public_identifier maximum v \<longleftrightarrow> \<not> (v = [] \<or> length v > maximum \<or> has_control v)"

definition validate_public_identifier :: "string \<Rightarrow> nat \<Rightarrow> PairingError + unit" where
  "validate_public_identifier v maximum = (if public_identifier maximum v then Inr () else Inl PairingInvalidIdentifier)"

definition ascii_hexdigit :: "char \<Rightarrow> bool" where
  "ascii_hexdigit c \<longleftrightarrow> is_ascii_digit c \<or> (65 \<le> code_of c \<and> code_of c \<le> 70) \<or> (97 \<le> code_of c \<and> code_of c \<le> 102)"

definition valid_sha256_fingerprint :: "string \<Rightarrow> bool" where
  "valid_sha256_fingerprint v \<longleftrightarrow> length v = 64 \<and> list_all ascii_hexdigit v"

subsection \<open>The snapshot\<close>

definition validate_change :: "ControllerChange \<Rightarrow> PairingError + unit" where
  "validate_change c =
     and_then (validate_public_identifier (cc_reason c) 64) (\<lambda>_.
     and_then (case cc_device_id c of None \<Rightarrow> Inr () | Some v \<Rightarrow> validate_public_identifier v 128) (\<lambda>_.
     (case cc_previous_device_id c of None \<Rightarrow> Inr () | Some v \<Rightarrow> validate_public_identifier v 128)))"

fun validate_changes :: "ControllerChange list \<Rightarrow> PairingError + unit" where
  "validate_changes [] = Inr ()"
| "validate_changes (c # cs) = and_then (validate_change c) (\<lambda>_. validate_changes cs)"

text \<open>The loop that collects the devices and counts the controllers.\<close>

fun restore_devices ::
  "PairedDevice list \<Rightarrow> (string \<times> PairedDevice) list \<Rightarrow> nat \<Rightarrow> PairingError + (string \<times> PairedDevice) list \<times> nat" where
  "restore_devices [] devices count' = Inr (devices, count')"
| "restore_devices (d # ds) devices count' =
     and_then (validate_public_identifier (dv_device_id d) 128) (\<lambda>_.
     and_then (validate_public_identifier (dv_display_name d) 128) (\<lambda>_.
     and_then (case dv_client_version d of None \<Rightarrow> Inr () | Some v \<Rightarrow> validate_public_identifier v 64) (\<lambda>_.
     if dv_paired_at_unix_millis d = 0 \<or> dv_last_seen_unix_millis d < dv_paired_at_unix_millis d
        \<or> map_of devices (dv_device_id d) \<noteq> None
     then Inl InvalidPersistedDevice
     else restore_devices ds (btree_insert (dv_device_id d) d devices) (if dv_controller d then Suc count' else count'))))"

definition from_snapshot :: "PairingRegistrySnapshot \<Rightarrow> PairingError + PairingRegistry" where
  "from_snapshot s =
     (if length (ps_devices s) > MAX_PAIRED_DEVICES then Inl DeviceLimitReached
      else if length (ps_controller_changes s) > 32 then Inl InvalidPersistedDevice
      else and_then (validate_changes (ps_controller_changes s)) (\<lambda>_.
        let initialized = ps_controller_selection_initialized s \<or> ps_devices s \<noteq> [] in
        and_then (restore_devices (ps_devices s) [] 0) (\<lambda>(devices, controller_count).
          if controller_count > 1 then Inl InvalidPersistedDevice
          else Inr \<lparr>pg_pending = [], pg_devices = devices, pg_controller_selection_initialized = initialized,
                 pg_controller_changes = ps_controller_changes s\<rparr>)))"

definition registry_snapshot :: "PairingRegistry \<Rightarrow> PairingRegistrySnapshot" where
  "registry_snapshot r = \<lparr>ps_devices = map snd (pg_devices r),
     ps_controller_selection_initialized = pg_controller_selection_initialized r,
     ps_controller_changes = pg_controller_changes r\<rparr>"

subsection \<open>Invitations\<close>

definition create_invitation ::
  "(string \<Rightarrow> string) \<Rightarrow> PairingInvitationRequest \<Rightarrow> PairingRegistry \<Rightarrow> PairingError + PairingRegistry" where
  "create_invitation hash q r =
     and_then (validate_public_identifier (pr_invitation_id q) 128) (\<lambda>_.
       if length (pr_invitation_secret q) < 32 \<or> length (pr_invitation_secret q) > 256
          \<or> length (pr_short_code q) \<noteq> 6 \<or> \<not> list_all is_ascii_digit (pr_short_code q)
          \<or> \<not> valid_sha256_fingerprint (pr_certificate_fingerprint_sha256 q)
       then Inl InvalidInvitation
       else and_then (ok_or (checked_sub (pr_expires_at_unix_millis q) (pr_created_at_unix_millis q)) InvalidInvitation) (\<lambda>lifetime.
         if lifetime = 0 \<or> lifetime > MAX_INVITATION_LIFETIME_MILLIS then Inl InvalidInvitation
         else Inr (r\<lparr>pg_pending := btree_insert (pr_invitation_id q)
           \<lparr>pi_invitation_id = pr_invitation_id q, pi_secret_sha256 = hash (pr_invitation_secret q),
            pi_short_code = pr_short_code q, pi_certificate_fingerprint_sha256 = pr_certificate_fingerprint_sha256 q,
            pi_expires_at_unix_millis = pr_expires_at_unix_millis q, pi_approved = False\<rparr> []\<rparr>)))"

definition approve :: "string \<Rightarrow> string \<Rightarrow> PairingRegistry \<Rightarrow> PairingError + PairingRegistry" where
  "approve invitation_id short_code r =
     and_then (ok_or (map_of (pg_pending r) invitation_id) InvitationUnknown) (\<lambda>invitation.
       if pi_short_code invitation \<noteq> short_code then Inl ShortCodeMismatch
       else Inr (r\<lparr>pg_pending := btree_adjust invitation_id (\<lambda>i. i\<lparr>pi_approved := True\<rparr>) (pg_pending r)\<rparr>))"

definition invitation_details :: "PairingRegistry \<Rightarrow> string \<Rightarrow> PairingInvitationDetails option" where
  "invitation_details r invitation_id =
     map_option (\<lambda>i. \<lparr>pd_invitation_id = pi_invitation_id i, pd_short_code = pi_short_code i,
       pd_certificate_fingerprint_sha256 = pi_certificate_fingerprint_sha256 i,
       pd_expires_at_unix_millis = pi_expires_at_unix_millis i, pd_approved = pi_approved i\<rparr>) (map_of (pg_pending r) invitation_id)"

definition controller_device_id :: "PairingRegistry \<Rightarrow> string option" where
  "controller_device_id r = map_option dv_device_id (find dv_controller (map snd (pg_devices r)))"

definition record_controller_change :: "string option \<Rightarrow> string \<Rightarrow> u64 \<Rightarrow> PairingRegistry \<Rightarrow> PairingRegistry" where
  "record_controller_change previous reason when r =
     r\<lparr>pg_controller_changes := (if length (pg_controller_changes r) = 32 then tl (pg_controller_changes r) else pg_controller_changes r)
         @ [\<lparr>cc_at_unix_millis = when, cc_reason = reason, cc_previous_device_id = previous, cc_device_id = controller_device_id r\<rparr>]\<rparr>"

definition exchange ::
  "(string \<Rightarrow> string) \<Rightarrow> string \<Rightarrow> string \<Rightarrow> string \<Rightarrow> string \<Rightarrow> string \<Rightarrow> u64 \<Rightarrow> PairingRegistry
     \<Rightarrow> PairingError + PairingRegistry \<times> PairedDevice" where
  "exchange hash invitation_id secret device_id display_name credential now r =
     and_then (ok_or (map_of (pg_pending r) invitation_id) InvitationUnknown) (\<lambda>invitation.
     if now > pi_expires_at_unix_millis invitation then Inl InvitationExpired
     else if \<not> pi_approved invitation then Inl ApprovalRequired
     else if pi_secret_sha256 invitation \<noteq> hash secret then Inl InvitationSecretMismatch
     else and_then (validate_public_identifier device_id 128) (\<lambda>_.
     and_then (validate_public_identifier display_name 128) (\<lambda>_.
     if length credential < 32 \<or> length credential > 256 then Inl InvalidCredential
     else if map_of (pg_devices r) device_id = None \<and> length (pg_devices r) \<ge> MAX_PAIRED_DEVICES then Inl DeviceLimitReached
     else
       let initial = (\<not> pg_controller_selection_initialized r);
           existing = map_of (pg_devices r) device_id;
           device = \<lparr>dv_device_id = device_id, dv_display_name = display_name, dv_credential_sha256 = hash credential,
             dv_paired_at_unix_millis = now, dv_last_seen_unix_millis = now,
             dv_controller = (initial \<or> (case existing of None \<Rightarrow> False | Some d \<Rightarrow> dv_controller d)),
             dv_client_version = Option.bind existing dv_client_version\<rparr>;
           r' = r\<lparr>pg_pending := btree_remove invitation_id (pg_pending r), pg_controller_selection_initialized := True,
                  pg_devices := btree_insert device_id device (pg_devices r)\<rparr> in
       Inr (if initial then record_controller_change None ''firstPairing'' now r' else r', device))))"

subsection \<open>Devices\<close>

definition registry_authenticate ::
  "(string \<Rightarrow> string) \<Rightarrow> string \<Rightarrow> string \<Rightarrow> u64 \<Rightarrow> PairingRegistry \<Rightarrow> PairingError + PairingRegistry" where
  "registry_authenticate hash device_id credential now r =
     and_then (ok_or (map_of (pg_devices r) device_id) DeviceUnknown) (\<lambda>device.
       if dv_credential_sha256 device \<noteq> hash credential then Inl CredentialMismatch
       else Inr (r\<lparr>pg_devices := btree_adjust device_id (\<lambda>d. d\<lparr>dv_last_seen_unix_millis := now\<rparr>) (pg_devices r)\<rparr>))"

definition revoke :: "string \<Rightarrow> PairingRegistry \<Rightarrow> PairingRegistry \<times> bool" where
  "revoke device_id r = (r\<lparr>pg_devices := btree_remove device_id (pg_devices r)\<rparr>, map_of (pg_devices r) device_id \<noteq> None)"

definition contains_device :: "PairingRegistry \<Rightarrow> string \<Rightarrow> bool" where
  "contains_device r device_id \<longleftrightarrow> map_of (pg_devices r) device_id \<noteq> None"

definition set_controller :: "string \<Rightarrow> PairingRegistry \<Rightarrow> PairingError + PairingRegistry" where
  "set_controller device_id r =
     (if \<not> contains_device r device_id then Inl DeviceUnknown
      else Inr (r\<lparr>pg_devices := btree_values (\<lambda>d. d\<lparr>dv_controller := (dv_device_id d = device_id)\<rparr>) (pg_devices r)\<rparr>))"

definition set_client_version :: "string \<Rightarrow> string option \<Rightarrow> PairingRegistry \<Rightarrow> PairingRegistry" where
  "set_client_version device_id version r =
     (case version of
        None \<Rightarrow> r
      | Some v \<Rightarrow> r\<lparr>pg_devices := btree_adjust device_id (\<lambda>d. d\<lparr>dv_client_version := Some v\<rparr>) (pg_devices r)\<rparr>)"

section \<open>The rate of attempts\<close>

definition attempts_of :: "AttemptRateLimiter \<Rightarrow> string \<Rightarrow> u64 list" where
  "attempts_of l key = (case map_of (rl_attempts l) key of None \<Rightarrow> [] | Some ts \<Rightarrow> ts)"

definition limiter_ok :: "AttemptRateLimiter \<Rightarrow> bool" where
  "limiter_ok l \<longleftrightarrow> ordered (rl_attempts l) \<and> length (rl_attempts l) \<le> 1024
     \<and> list_all (\<lambda>(key, ts). ts \<noteq> [] \<and> length ts \<le> rl_maximum_attempts l) (rl_attempts l)
     \<and> 0 < rl_maximum_attempts l"

lemma prune_ordered: "ordered attempts \<Longrightarrow> ordered (prune window now attempts)"
  by (simp add: prune_def ordered_filter)

lemma prune_lookup:
  "ordered attempts \<Longrightarrow> map_of (prune window now attempts) key =
     (case map_of attempts key of None \<Rightarrow> None
      | Some ts \<Rightarrow> if dropWhile (expired window now) ts = [] then None else Some (dropWhile (expired window now) ts))"
  unfolding prune_def
  by (subst btree_filter_lookup) (auto simp: ordered_distinct btree_values_lookup split: option.split)

lemma prune_length: "length (prune window now attempts) \<le> length attempts"
  unfolding prune_def by (metis length_filter_le length_values)

lemma prune_bounded:
  assumes "list_all (\<lambda>(key, ts). ts \<noteq> [] \<and> length ts \<le> m) attempts"
  shows "list_all (\<lambda>(key, ts). ts \<noteq> [] \<and> length ts \<le> m) (prune window now attempts)"
  unfolding list_all_iff
proof safe
  fix key ts assume "(key, ts) \<in> set (prune window now attempts)"
  then obtain us where us: "(key, us) \<in> set attempts" "ts = dropWhile (expired window now) us" "ts \<noteq> []"
    by (auto simp: prune_def btree_values_def simp del: dropWhile_eq_Nil_conv)
  have "length us \<le> m" using assms us(1) by (auto simp: list_all_iff)
  with us length_dropWhile_le [of "expired window now" us] show "length ts \<le> m" by simp
qed (simp_all add: prune_def)

lemma limiter_check_fields:
  "rl_maximum_attempts (fst (limiter_check key now l)) = rl_maximum_attempts l"
  "rl_window_millis (fst (limiter_check key now l)) = rl_window_millis l"
  by (simp_all add: limiter_check_def Let_def)

lemma limiter_check_ok: "limiter_ok l \<Longrightarrow> limiter_ok (fst (limiter_check key now l))"
  using prune_length [of "rl_window_millis l" now "rl_attempts l"]
  by (auto simp: limiter_ok_def limiter_check_def Let_def prune_ordered intro: prune_bounded)

lemma prune_attempts:
  "ordered (rl_attempts l) \<Longrightarrow>
   attempts_of (l\<lparr>rl_attempts := prune window now (rl_attempts l)\<rparr>) k = dropWhile (expired window now) (attempts_of l k)"
  by (simp add: attempts_of_def prune_lookup del: dropWhile_eq_Nil_conv split: option.split)

lemma limiter_check_attempts:
  assumes "limiter_ok l"
  shows "attempts_of (fst (limiter_check key now l)) k = attempts_of l k
    \<or> attempts_of (fst (limiter_check key now l)) k = dropWhile (expired (rl_window_millis l) now) (attempts_of l k)"
proof -
  have "fst (limiter_check key now l) = l
      \<or> fst (limiter_check key now l) = l\<lparr>rl_attempts := prune (rl_window_millis l) now (rl_attempts l)\<rparr>"
    by (simp add: limiter_check_def Let_def)
  with assms prune_attempts [of l "rl_window_millis l" now k] show ?thesis by (auto simp: limiter_ok_def)
qed

lemma limiter_check_accepts:
  assumes "limiter_ok l" "snd (limiter_check key now l) = Inr ()"
  shows "length (attempts_of (fst (limiter_check key now l)) key) < rl_maximum_attempts l"
    "map_of (rl_attempts (fst (limiter_check key now l))) key = None \<Longrightarrow> length (rl_attempts (fst (limiter_check key now l))) < 1024"
  using assms by (auto simp: limiter_check_def attempts_of_def limiter_ok_def Let_def split: if_splits option.splits)

lemma limiter_record_eq:
  "limiter_record key now l =
     (case limiter_check key now l of
        (l', Inl e) \<Rightarrow> (l', Inl e)
      | (l', Inr _) \<Rightarrow> (l'\<lparr>rl_attempts := btree_insert key (attempts_of l' key @ [now]) (rl_attempts l')\<rparr>, Inr ()))"
  by (simp add: limiter_record_def state_then_def attempts_of_def split: prod.split sum.split)

lemma limiter_record_ok: "limiter_ok l \<Longrightarrow> limiter_ok (fst (limiter_record key now l))"
proof -
  assume ok: "limiter_ok l"
  obtain l' r where c: "limiter_check key now l = (l', r)" by (cases "limiter_check key now l")
  have ok': "limiter_ok l'" using limiter_check_ok [OF ok, of key now] c by simp
  show ?thesis
  proof (cases r)
    case (Inl e)
    with c ok' show ?thesis by (simp add: limiter_record_eq)
  next
    case (Inr u)
    have max: "rl_maximum_attempts l' = rl_maximum_attempts l" using limiter_check_fields(1) [of key now l] c by simp
    have few: "length (attempts_of l' key) < rl_maximum_attempts l'"
      and room: "map_of (rl_attempts l') key = None \<Longrightarrow> length (rl_attempts l') < 1024"
      using limiter_check_accepts [OF ok, of key now] c Inr max by simp_all
    have "length (btree_insert key (attempts_of l' key @ [now]) (rl_attempts l')) \<le> 1024"
      using ok' room by (auto simp: btree_insert_length limiter_ok_def map_of_eq_None_iff)
    with c Inr ok' few show ?thesis
      by (auto simp: limiter_record_eq limiter_ok_def btree_insert_set list_all_iff)
  qed
qed

text \<open>The limiter under a sequence of attempts, and the instants of a key it let through.\<close>

fun limiter_run :: "(string \<times> u64) list \<Rightarrow> AttemptRateLimiter \<Rightarrow> AttemptRateLimiter \<times> (string \<times> u64) list" where
  "limiter_run [] l = (l, [])"
| "limiter_run ((key, now) # rest) l =
     (let (l', r) = limiter_record key now l; (l'', passed) = limiter_run rest l' in
      (l'', (if is_ok r then [(key, now)] else []) @ passed))"

definition passed_by :: "string \<Rightarrow> (string \<times> u64) list \<Rightarrow> u64 list" where
  "passed_by key passed = map snd (filter (\<lambda>(k, t). k = key) passed)"

text \<open>
  The attempts the limiter remembers are the last ones it let through, and those before them have left the window.
\<close>

definition remembers :: "AttemptRateLimiter \<Rightarrow> u64 \<Rightarrow> (string \<Rightarrow> u64 list) \<Rightarrow> bool" where
  "remembers l now history \<longleftrightarrow> (\<forall>key. \<exists>old. history key = old @ attempts_of l key \<and> (\<forall>t \<in> set old. expired (rl_window_millis l) now t))"

lemma expired_later: "expired window now t \<Longrightarrow> now \<le> later \<Longrightarrow> expired window later t"
proof -
  assume "expired window now t" "now \<le> later"
  moreover have "saturating_sub now t \<le> saturating_sub later t"
    using \<open>now \<le> later\<close> by (auto simp: saturating_sub_def word_le_nat_alt unat_sub_if_size word_size)
  ultimately show ?thesis unfolding expired_def by (meson order_trans)
qed

lemma remembers_check:
  assumes ok: "limiter_ok l" and rem: "remembers l now history" and later: "now \<le> later"
  shows "remembers (fst (limiter_check key later l)) later history"
  unfolding remembers_def limiter_check_fields
proof
  fix k
  let ?w = "rl_window_millis l" and ?a = "attempts_of l k"
  from rem obtain old where old: "history k = old @ ?a" "\<forall>t \<in> set old. expired ?w now t" by (auto simp: remembers_def)
  have exp: "\<forall>t \<in> set old. expired ?w later t" using old(2) expired_later [OF _ later] by blast
  have "\<forall>t \<in> set (takeWhile (expired ?w later) ?a). expired ?w later t" by (auto dest: set_takeWhileD)
  moreover have "history k = (old @ takeWhile (expired ?w later) ?a) @ dropWhile (expired ?w later) ?a" using old(1) by simp
  ultimately show "\<exists>old. history k = old @ attempts_of (fst (limiter_check key later l)) k \<and> (\<forall>t \<in> set old. expired ?w later t)"
    using limiter_check_attempts [OF ok, of key later k] old(1) exp
    by (metis (no_types, lifting) Un_iff set_append)
qed

lemma remembers_record:
  assumes ok: "limiter_ok l" and rem: "remembers l now history" and later: "now \<le> later"
  shows "remembers (fst (limiter_record key later l)) later
    (if is_ok (snd (limiter_record key later l)) then history(key := history key @ [later]) else history)"
proof -
  obtain l' r where c: "limiter_check key later l = (l', r)" by (cases "limiter_check key later l")
  have rem': "remembers l' later history" using remembers_check [OF assms, of key] c by simp
  show ?thesis
  proof (cases r)
    case (Inl e)
    with c rem' show ?thesis by (simp add: limiter_record_eq)
  next
    case (Inr u)
    let ?l = "l'\<lparr>rl_attempts := btree_insert key (attempts_of l' key @ [later]) (rl_attempts l')\<rparr>"
    have "attempts_of ?l k = (if k = key then attempts_of l' key @ [later] else attempts_of l' k)" for k
      by (simp add: attempts_of_def btree_insert_lookup)
    then have "remembers ?l later (history(key := history key @ [later]))"
      using rem' by (auto simp: remembers_def)
    with c Inr show ?thesis by (simp add: limiter_record_eq)
  qed
qed

lemma remembered_rate:
  assumes "limiter_ok l" "remembers l now history"
  shows "length (filter (\<lambda>t. \<not> expired (rl_window_millis l) now t) (history key)) \<le> rl_maximum_attempts l"
proof -
  from assms(2) obtain old where old: "history key = old @ attempts_of l key"
    "\<forall>t \<in> set old. expired (rl_window_millis l) now t" by (auto simp: remembers_def)
  then have "filter (\<lambda>t. \<not> expired (rl_window_millis l) now t) (history key)
      = filter (\<lambda>t. \<not> expired (rl_window_millis l) now t) (attempts_of l key)"
    by (auto simp: filter_empty_conv)
  moreover have "length (attempts_of l key) \<le> rl_maximum_attempts l"
    using assms(1) by (auto simp: attempts_of_def limiter_ok_def list_all_iff split: option.split dest!: map_of_SomeD)
  ultimately show ?thesis by (metis length_filter_le order_trans)
qed

lemma limiter_run_remembers:
  "limiter_ok l \<Longrightarrow> remembers l now history \<Longrightarrow> sorted (now # map snd attempts) \<Longrightarrow> limiter_run attempts l = (l', passed) \<Longrightarrow>
   limiter_ok l' \<and> rl_window_millis l' = rl_window_millis l \<and> rl_maximum_attempts l' = rl_maximum_attempts l
   \<and> remembers l' (last (now # map snd attempts)) (\<lambda>key. history key @ passed_by key passed)"
proof (induction attempts l arbitrary: now history l' passed rule: limiter_run.induct)
  case (1 l)
  then show ?case by (simp add: passed_by_def)
next
  case (2 key t rest l)
  obtain m r where r: "limiter_record key t l = (m, r)" by (cases "limiter_record key t l")
  obtain n ps where n: "limiter_run rest m = (n, ps)" by (cases "limiter_run rest m")
  let ?h = "if is_ok r then history(key := history key @ [t]) else history"
  have "remembers m t ?h" using remembers_record [OF 2(2,3), of t key] 2(4) r by simp
  moreover have "limiter_ok m" using limiter_record_ok [OF 2(2), of key t] r by simp
  moreover have fields: "rl_window_millis m = rl_window_millis l" "rl_maximum_attempts m = rl_maximum_attempts l"
    using r limiter_check_fields [of key t l] by (auto simp: limiter_record_eq split: prod.splits sum.splits)
  moreover have "sorted (t # map snd rest)" using 2(4) by simp
  ultimately have IH: "limiter_ok n \<and> rl_window_millis n = rl_window_millis m \<and> rl_maximum_attempts n = rl_maximum_attempts m
      \<and> remembers n (last (t # map snd rest)) (\<lambda>k. ?h k @ passed_by k ps)"
    using 2(1) [OF r [symmetric] refl _ _ _ n] by blast
  have l': "l' = n" "passed = (if is_ok r then [(key, t)] else []) @ ps" using 2(5) r n by simp_all
  have "(\<lambda>k. ?h k @ passed_by k ps) = (\<lambda>k. history k @ passed_by k passed)"
    by (auto simp: l'(2) passed_by_def)
  with IH l'(1) fields show ?case by simp
qed

text \<open>
  C26. Of the attempts of one key that the limiter let through, at most the configured number lies within the window
  before the latest instant, for a clock that does not go back; the limiter remembers at
  most 1024 keys and for each no more attempts than that number.
\<close>

theorem attempts_limited:
  assumes "limiter_new maximum window = Inr l" "sorted (map snd attempts)" "limiter_run attempts l = (l', passed)"
  shows "length (filter (\<lambda>t. \<not> expired window (last (0 # map snd attempts)) t) (passed_by key passed)) \<le> maximum \<and> limiter_ok l'"
proof -
  have l: "l = \<lparr>rl_maximum_attempts = maximum, rl_window_millis = window, rl_attempts = []\<rparr>" and ok: "limiter_ok l"
    using assms(1) by (auto simp: limiter_new_def limiter_ok_def split: if_splits)
  have "remembers l 0 (\<lambda>_. [])" by (simp add: remembers_def attempts_of_def l)
  moreover have "sorted (0 # map snd attempts)" using assms(2) by simp
  ultimately have run: "limiter_ok l' \<and> rl_window_millis l' = rl_window_millis l \<and> rl_maximum_attempts l' = rl_maximum_attempts l
      \<and> remembers l' (last (0 # map snd attempts)) (\<lambda>key. [] @ passed_by key passed)"
    using limiter_run_remembers [OF ok _ _ assms(3)] by blast
  then show ?thesis
    using remembered_rate [of l' "last (0 # map snd attempts)" "\<lambda>key. [] @ passed_by key passed" key] by (simp add: l)
qed

theorem attempts_limited_witness:
  "\<exists>l l' passed. limiter_new 2 1000 = Inr l
     \<and> limiter_run [(''a'', 10), (''a'', 20), (''a'', 30), (''b'', 40)] l = (l', passed)
     \<and> length (filter (\<lambda>t. \<not> expired 1000 40 t) (passed_by ''a'' passed)) \<le> 2"
proof -
  obtain l where l: "limiter_new 2 1000 = Inr l" by (simp add: limiter_new_def)
  obtain l' passed where run: "limiter_run [(''a'', 10), (''a'', 20), (''a'', 30), (''b'', 40)] l = (l', passed)"
    by (metis surj_pair)
  have "sorted (map snd [(''a'', 10 :: u64), (''a'', 20), (''a'', 30), (''b'', 40)])" by (simp add: word_le_nat_alt)
  from attempts_limited [OF l this run, of "''a''"] l run show ?thesis by auto
qed

section \<open>The invariant of the registry\<close>

definition device_ok :: "string \<Rightarrow> PairedDevice \<Rightarrow> bool" where
  "device_ok key d \<longleftrightarrow> dv_device_id d = key \<and> public_identifier 128 key \<and> public_identifier 128 (dv_display_name d)
     \<and> (case dv_client_version d of None \<Rightarrow> True | Some v \<Rightarrow> public_identifier 64 v)"

definition change_ok :: "ControllerChange \<Rightarrow> bool" where
  "change_ok c \<longleftrightarrow> public_identifier 64 (cc_reason c)
     \<and> (case cc_device_id c of None \<Rightarrow> True | Some v \<Rightarrow> public_identifier 128 v)
     \<and> (case cc_previous_device_id c of None \<Rightarrow> True | Some v \<Rightarrow> public_identifier 128 v)"

definition controllers :: "(string \<times> PairedDevice) list \<Rightarrow> nat" where
  "controllers devices = length (filter (\<lambda>(k, d). dv_controller d) devices)"

definition registry_ok :: "PairingRegistry \<Rightarrow> bool" where
  "registry_ok r \<longleftrightarrow> ordered (pg_devices r) \<and> list_all (\<lambda>(k, d). device_ok k d) (pg_devices r)
     \<and> length (pg_devices r) \<le> MAX_PAIRED_DEVICES \<and> controllers (pg_devices r) \<le> 1
     \<and> (pg_controller_selection_initialized r \<or> pg_devices r = [])
     \<and> length (pg_controller_changes r) \<le> 32 \<and> list_all change_ok (pg_controller_changes r)
     \<and> length (pg_pending r) \<le> 1"

lemma registry_ok_default: "registry_ok registry_default"
  by (simp add: registry_ok_def registry_default_def controllers_def)

lemma public_identifier_accepted: "validate_public_identifier v maximum = Inr () \<longleftrightarrow> public_identifier maximum v"
  by (simp add: validate_public_identifier_def)

lemma validate_change_accepted: "validate_change c = Inr () \<longleftrightarrow> change_ok c"
  by (auto simp: validate_change_def change_ok_def result_simps public_identifier_accepted split: option.splits)

lemma validate_changes_accepted: "validate_changes cs = Inr () \<longleftrightarrow> list_all change_ok cs"
  by (induction cs) (auto simp: result_simps validate_change_accepted)

lemma controllers_insert_le:
  "ordered m \<Longrightarrow> controllers (btree_insert k d m) \<le> controllers m + (if dv_controller d then 1 else 0)"
  by (induction k d m rule: btree_insert.induct) (auto simp: controllers_def ordered_def)

text \<open>Replacing a device by one with the same role keeps the number of controllers.\<close>

lemma controllers_replace:
  "ordered m \<Longrightarrow> map_of m k = Some e \<Longrightarrow> dv_controller d = dv_controller e \<Longrightarrow> controllers (btree_insert k d m) = controllers m"
proof (induction k d m rule: btree_insert.induct)
  case (2 k d l w rest)
  from 2(2) have below: "map_of rest k = None" if "k < l"
    using that by (auto simp: ordered_def map_of_eq_None_iff dest: order.asym)
  have "ordered rest" using 2(2) by (simp add: ordered_def)
  with 2 below show ?case by (cases "k < l"; cases "k = l") (auto simp: controllers_def)
qed simp

lemma controllers_adjust: "(\<And>d. dv_controller (f d) = dv_controller d) \<Longrightarrow> controllers (btree_adjust k f m) = controllers m"
  by (induction m) (simp_all add: controllers_def btree_adjust_def case_prod_unfold)

lemma controllers_remove: "controllers (btree_remove k m) \<le> controllers m"
  by (induction m) (auto simp: controllers_def btree_remove_def)

lemma controllers_select:
  assumes "ordered m" "list_all (\<lambda>(k, d). device_ok k d) m"
  shows "controllers (btree_values (\<lambda>d. d\<lparr>dv_controller := (dv_device_id d = device)\<rparr>) m) \<le> 1"
proof -
  have "filter (\<lambda>(k, d). dv_controller d) (btree_values (\<lambda>d. d\<lparr>dv_controller := (dv_device_id d = device)\<rparr>) m)
      = map (\<lambda>(k, d). (k, d\<lparr>dv_controller := (dv_device_id d = device)\<rparr>)) (filter (\<lambda>(k, d). k = device) m)"
    using assms(2) by (induction m) (auto simp: btree_values_def device_ok_def)
  moreover have "length (filter (\<lambda>(k, d). k = device) m) \<le> 1"
    using assms(1) by (induction m) (auto simp: ordered_def filter_empty_conv)
  ultimately show ?thesis by (simp add: controllers_def)
qed

lemma find_controller_ok:
  assumes "list_all (\<lambda>(k, d). device_ok k d) (pg_devices r)" "controller_device_id r = Some v"
  shows "public_identifier 128 v"
proof -
  from assms(2) obtain d where "find dv_controller (map snd (pg_devices r)) = Some d" "v = dv_device_id d"
    by (auto simp: controller_device_id_def)
  then obtain k where "(k, d) \<in> set (pg_devices r)" by (auto dest!: find_SomeD)
  with assms(1) \<open>v = _\<close> show ?thesis by (auto simp: list_all_iff device_ok_def)
qed

lemma registry_ok_change:
  assumes "registry_ok r" "public_identifier 64 reason" "case previous of None \<Rightarrow> True | Some v \<Rightarrow> public_identifier 128 v"
  shows "registry_ok (record_controller_change previous reason when r)"
proof -
  have "case controller_device_id r of None \<Rightarrow> True | Some v \<Rightarrow> public_identifier 128 v"
    using assms(1) find_controller_ok by (auto simp: registry_ok_def split: option.split)
  moreover have "list_all change_ok (tl (pg_controller_changes r))"
    using assms(1) by (cases "pg_controller_changes r") (auto simp: registry_ok_def)
  ultimately show ?thesis
    using assms by (auto simp: registry_ok_def record_controller_change_def change_ok_def)
qed

lemma registry_ok_invitation: "create_invitation hash q r = Inr r' \<Longrightarrow> registry_ok r \<Longrightarrow> registry_ok r'"
  by (auto simp: create_invitation_def registry_ok_def result_simps split: if_splits)

lemma registry_ok_approve: "approve i c r = Inr r' \<Longrightarrow> registry_ok r \<Longrightarrow> registry_ok r'"
  by (auto simp: approve_def registry_ok_def result_simps split: if_splits)

lemma registry_ok_adjust:
  assumes "registry_ok r" "\<And>d. dv_controller (f d) = dv_controller d" "\<And>d. device_ok k d \<Longrightarrow> device_ok k (f d)"
  shows "registry_ok (r\<lparr>pg_devices := btree_adjust k f (pg_devices r)\<rparr>)"
proof -
  have "btree_adjust k f (pg_devices r) = [] \<longleftrightarrow> pg_devices r = []" by (simp add: btree_adjust_def)
  with assms(1) all_adjust [of device_ok "pg_devices r" k f] assms(3) controllers_adjust [of f, OF assms(2)] show ?thesis
    by (simp add: registry_ok_def)
qed

lemma registry_ok_authenticate: "registry_authenticate hash d c now r = Inr r' \<Longrightarrow> registry_ok r \<Longrightarrow> registry_ok r'"
  by (auto simp: registry_authenticate_def result_simps device_ok_def split: if_splits intro!: registry_ok_adjust)

lemma registry_ok_version:
  "registry_ok r \<Longrightarrow> (case version of None \<Rightarrow> True | Some v \<Rightarrow> public_identifier 64 v) \<Longrightarrow> registry_ok (set_client_version d version r)"
  by (auto simp: set_client_version_def device_ok_def split: option.splits intro!: registry_ok_adjust)

lemma registry_ok_revoke: "registry_ok r \<Longrightarrow> registry_ok (fst (revoke d r))"
  using controllers_remove [of d "pg_devices r"] btree_remove_length [of d "pg_devices r"] all_remove [of device_ok "pg_devices r" d]
  by (auto simp: registry_ok_def revoke_def)

lemma registry_ok_controller: "set_controller d r = Inr r' \<Longrightarrow> registry_ok r \<Longrightarrow> registry_ok r'"
proof -
  assume "set_controller d r = Inr r'" and ok: "registry_ok r"
  then have r': "r' = r\<lparr>pg_devices := btree_values (\<lambda>x. x\<lparr>dv_controller := (dv_device_id x = d)\<rparr>) (pg_devices r)\<rparr>"
    by (auto simp: set_controller_def split: if_splits)
  have "btree_values (\<lambda>x. x\<lparr>dv_controller := (dv_device_id x = d)\<rparr>) (pg_devices r) = [] \<longleftrightarrow> pg_devices r = []"
    by (simp add: btree_values_def)
  moreover have "list_all (\<lambda>(k, d). device_ok k d) (btree_values (\<lambda>x. x\<lparr>dv_controller := (dv_device_id x = d)\<rparr>) (pg_devices r))"
    using ok by (intro all_values) (auto simp: registry_ok_def device_ok_def)
  ultimately show ?thesis using ok controllers_select [of "pg_devices r" d] by (simp add: r' registry_ok_def)
qed

text \<open>What an exchange that succeeds has checked and done.\<close>

lemma exchange_accepted:
  assumes "exchange hash i secret device name credential now r = Inr (r', d)"
  obtains invitation where "map_of (pg_pending r) i = Some invitation" "now \<le> pi_expires_at_unix_millis invitation"
    "pi_approved invitation" "pi_secret_sha256 invitation = hash secret" "public_identifier 128 device" "public_identifier 128 name"
    "map_of (pg_devices r) device \<noteq> None \<or> length (pg_devices r) < MAX_PAIRED_DEVICES"
    "dv_device_id d = device" "dv_display_name d = name" "dv_credential_sha256 d = hash credential"
    "dv_controller d \<longleftrightarrow> \<not> pg_controller_selection_initialized r \<or> (\<exists>e. map_of (pg_devices r) device = Some e \<and> dv_controller e)"
    "dv_client_version d = Option.bind (map_of (pg_devices r) device) dv_client_version"
    "pg_pending r' = btree_remove i (pg_pending r)" "pg_devices r' = btree_insert device d (pg_devices r)"
    "pg_controller_selection_initialized r'"
    "r' = (if pg_controller_selection_initialized r then r\<lparr>pg_pending := btree_remove i (pg_pending r),
         pg_controller_selection_initialized := True, pg_devices := btree_insert device d (pg_devices r)\<rparr>
       else record_controller_change None ''firstPairing'' now (r\<lparr>pg_pending := btree_remove i (pg_pending r),
         pg_controller_selection_initialized := True, pg_devices := btree_insert device d (pg_devices r)\<rparr>))"
proof -
  from assms obtain invitation where inv: "map_of (pg_pending r) i = Some invitation"
    by (auto simp: exchange_def result_simps)
  show thesis
    using assms inv
    by (intro that [OF inv])
       (auto simp: exchange_def result_simps Let_def public_identifier_accepted record_controller_change_def split: if_splits option.splits)
qed

lemma registry_ok_exchange:
  assumes "exchange hash i secret device name credential now r = Inr (r', d)" and ok: "registry_ok r"
  shows "registry_ok r'"
  using assms(1)
proof (rule exchange_accepted)
  fix invitation
  let ?m = "r\<lparr>pg_pending := btree_remove i (pg_pending r), pg_controller_selection_initialized := True,
    pg_devices := btree_insert device d (pg_devices r)\<rparr>"
  assume ids: "public_identifier 128 device" "public_identifier 128 name" "dv_device_id d = device" "dv_display_name d = name"
    and version: "dv_client_version d = Option.bind (map_of (pg_devices r) device) dv_client_version"
    and ctrl: "dv_controller d \<longleftrightarrow> \<not> pg_controller_selection_initialized r \<or> (\<exists>e. map_of (pg_devices r) device = Some e \<and> dv_controller e)"
    and room: "map_of (pg_devices r) device \<noteq> None \<or> length (pg_devices r) < MAX_PAIRED_DEVICES"
    and r': "r' = (if pg_controller_selection_initialized r then ?m else record_controller_change None ''firstPairing'' now ?m)"
  have ord: "ordered (pg_devices r)" and all: "list_all (\<lambda>(k, d). device_ok k d) (pg_devices r)" using ok by (auto simp: registry_ok_def)
  have "device_ok device d"
    using ids version all_lookup [OF all, of device]
    by (cases "map_of (pg_devices r) device") (auto simp: device_ok_def)
  then have "list_all (\<lambda>(k, d). device_ok k d) (btree_insert device d (pg_devices r))" by (rule all_insert [OF all])
  moreover have "length (btree_insert device d (pg_devices r)) \<le> MAX_PAIRED_DEVICES"
    using ok room ord by (auto simp: btree_insert_length registry_ok_def map_of_eq_None_iff)
  moreover have "controllers (btree_insert device d (pg_devices r)) \<le> 1"
  proof (cases "map_of (pg_devices r) device")
    case None
    show ?thesis
    proof (cases "pg_controller_selection_initialized r")
      case True
      with None ctrl controllers_insert_le [OF ord, of device d] ok show ?thesis by (auto simp: registry_ok_def)
    next
      case False
      with ok have "pg_devices r = []" by (simp add: registry_ok_def)
      then show ?thesis by (simp add: controllers_def)
    qed
  next
    case (Some e)
    with ok have "pg_controller_selection_initialized r" by (auto simp: registry_ok_def)
    with Some ctrl have "dv_controller d = dv_controller e" by auto
    with controllers_replace [OF ord Some] ok show ?thesis by (simp add: registry_ok_def)
  qed
  moreover have "length (btree_remove i (pg_pending r)) \<le> 1"
    using ok btree_remove_length [of i "pg_pending r"] by (simp add: registry_ok_def)
  ultimately have "registry_ok ?m" using ok by (simp add: registry_ok_def)
  moreover have "public_identifier 64 ''firstPairing''"
    by (simp add: public_identifier_def has_control_def is_continuation_def code_of_def)
  ultimately show ?thesis by (simp add: r' registry_ok_change)
qed

section \<open>Runs of the registry\<close>

datatype registry_op =
    RegCreate PairingInvitationRequest
  | RegApprove string string
  | RegExchange string string string string string u64
  | RegAuthenticate string string u64
  | RegRevoke string
  | RegSetController string
  | RegSetVersion string "string option"

text \<open>An operation that fails leaves the registry as it was.\<close>

definition or_else :: "'e + 'a \<Rightarrow> 'a \<Rightarrow> 'a" where
  "or_else r a = (case r of Inl _ \<Rightarrow> a | Inr b \<Rightarrow> b)"

fun registry_step :: "(string \<Rightarrow> string) \<Rightarrow> PairingRegistry \<Rightarrow> registry_op \<Rightarrow> PairingRegistry" where
  "registry_step hash r (RegCreate q) = or_else (create_invitation hash q r) r"
| "registry_step hash r (RegApprove i code) = or_else (approve i code r) r"
| "registry_step hash r (RegExchange i secret device name credential now) =
     (case exchange hash i secret device name credential now r of Inl _ \<Rightarrow> r | Inr (r', d) \<Rightarrow> r')"
| "registry_step hash r (RegAuthenticate device credential now) = or_else (registry_authenticate hash device credential now r) r"
| "registry_step hash r (RegRevoke device) = fst (revoke device r)"
| "registry_step hash r (RegSetController device) = or_else (set_controller device r) r"
| "registry_step hash r (RegSetVersion device version) = set_client_version device version r"

text \<open>A version reaches the registry only after the greeting was validated.\<close>

fun reg_op_ok :: "registry_op \<Rightarrow> bool" where
  "reg_op_ok (RegSetVersion device version) \<longleftrightarrow> (case version of None \<Rightarrow> True | Some v \<Rightarrow> public_identifier 64 v)"
| "reg_op_ok _ \<longleftrightarrow> True"

lemma registry_ok_step: "registry_ok r \<Longrightarrow> reg_op_ok op \<Longrightarrow> registry_ok (registry_step hash r op)"
  by (cases op) (auto simp: or_else_def registry_ok_version registry_ok_revoke split: sum.splits
      intro: registry_ok_invitation registry_ok_approve registry_ok_authenticate registry_ok_controller registry_ok_exchange)

text \<open>
  The registry never holds more than eight devices, more than one controller, more than one open
  invitation or more than 32 changes of control, and every device is stored under its own valid identifier.
\<close>

theorem registry_invariant:
  assumes "list_all reg_op_ok ops"
  shows "registry_ok (foldl (registry_step hash) registry_default ops)"
proof -
  have "registry_ok r \<Longrightarrow> list_all reg_op_ok ops \<Longrightarrow> registry_ok (foldl (registry_step hash) r ops)" for r
    by (induction ops arbitrary: r) (simp_all add: registry_ok_step)
  with assms registry_ok_default show ?thesis by blast
qed

text \<open>An example: an invitation, its approval and a first device.\<close>

definition demo_secret :: string where
  "demo_secret = replicate 32 CHR ''s''"

definition demo_request :: PairingInvitationRequest where
  "demo_request = \<lparr>pr_invitation_id = ''i'', pr_invitation_secret = demo_secret, pr_short_code = ''123456'',
     pr_certificate_fingerprint_sha256 = replicate 64 CHR ''a'', pr_created_at_unix_millis = 100, pr_expires_at_unix_millis = 200\<rparr>"

definition demo_pairing :: "registry_op list" where
  "demo_pairing = [RegCreate demo_request, RegApprove ''i'' ''123456'', RegExchange ''i'' demo_secret ''d'' ''n'' demo_secret 150]"

definition demo_device :: PairedDevice where
  "demo_device = \<lparr>dv_device_id = ''d'', dv_display_name = ''n'', dv_credential_sha256 = demo_secret,
     dv_paired_at_unix_millis = 150, dv_last_seen_unix_millis = 150, dv_controller = True, dv_client_version = None\<rparr>"

definition demo_paired :: PairingRegistry where
  "demo_paired = \<lparr>pg_pending = [], pg_devices = [(''d'', demo_device)], pg_controller_selection_initialized = True,
     pg_controller_changes = [\<lparr>cc_at_unix_millis = 150, cc_reason = ''firstPairing'', cc_previous_device_id = None, cc_device_id = Some ''d''\<rparr>]\<rparr>"

lemmas demo_pairing_simps = demo_pairing_def demo_request_def demo_secret_def demo_device_def demo_paired_def registry_default_def
  create_invitation_def validate_public_identifier_def public_identifier_def has_control_def is_continuation_def code_of_def
  valid_sha256_fingerprint_def ascii_hexdigit_def is_ascii_digit_def checked_sub_def MAX_INVITATION_LIFETIME_MILLIS_def
  approve_def btree_adjust_def btree_remove_def or_else_def exchange_def MAX_PAIRED_DEVICES_def record_controller_change_def
  controller_device_id_def Let_def word_le_nat_alt word_less_nat_alt

lemma demo_pairing_run: "foldl (registry_step (\<lambda>s. s)) registry_default demo_pairing = demo_paired"
  by (simp add: demo_pairing_simps list_all_iff)

lemma registry_invariant_ok_demo: "registry_ok demo_paired"
  by (simp add: demo_pairing_simps registry_ok_def device_ok_def change_ok_def controllers_def ordered_def)

theorem registry_invariant_witness: "registry_ok (foldl (registry_step (\<lambda>s. s)) registry_default demo_pairing)"
  by (rule registry_invariant) (simp add: demo_pairing_def)

section \<open>Invitations\<close>

text \<open>The invitation that is open comes from a request, and its approval from the code of that request.\<close>

definition invited :: "(string \<Rightarrow> string) \<Rightarrow> registry_op list \<Rightarrow> string \<Rightarrow> PendingInvitation \<Rightarrow> bool" where
  "invited hash ops i invitation \<longleftrightarrow> (\<exists>before q after. ops = before @ RegCreate q # after \<and> pr_invitation_id q = i
     \<and> pi_secret_sha256 invitation = hash (pr_invitation_secret q) \<and> pi_short_code invitation = pr_short_code q
     \<and> pi_expires_at_unix_millis invitation = pr_expires_at_unix_millis q
     \<and> (pi_approved invitation \<longrightarrow> RegApprove i (pr_short_code q) \<in> set after))"

lemma invited_later:
  assumes "invited hash ops i invitation"
  shows "invited hash (ops @ [op]) i invitation"
proof -
  from assms obtain before q after where "ops = before @ RegCreate q # after" "pr_invitation_id q = i"
     "pi_secret_sha256 invitation = hash (pr_invitation_secret q)" "pi_short_code invitation = pr_short_code q"
     "pi_expires_at_unix_millis invitation = pr_expires_at_unix_millis q"
     "pi_approved invitation \<longrightarrow> RegApprove i (pr_short_code q) \<in> set after" by (auto simp: invited_def)
  then show ?thesis unfolding invited_def by (intro exI [of _ before] exI [of _ q] exI [of _ "after @ [op]"]) simp
qed

lemma invited_approved:
  assumes "invited hash ops i invitation" "pi_short_code invitation = code"
  shows "invited hash (ops @ [RegApprove i code]) i (invitation\<lparr>pi_approved := True\<rparr>)"
proof -
  from assms obtain before q after where "ops = before @ RegCreate q # after" "pr_invitation_id q = i"
     "pi_secret_sha256 invitation = hash (pr_invitation_secret q)" "pi_short_code invitation = pr_short_code q"
     "pi_expires_at_unix_millis invitation = pr_expires_at_unix_millis q" by (auto simp: invited_def)
  then show ?thesis unfolding invited_def
    by (intro exI [of _ before] exI [of _ q] exI [of _ "after @ [RegApprove i code]"]) (simp add: assms(2) [symmetric])
qed

lemma create_pending:
  "create_invitation hash q r = Inr r' \<Longrightarrow> pg_pending r' = [(pr_invitation_id q,
     \<lparr>pi_invitation_id = pr_invitation_id q, pi_secret_sha256 = hash (pr_invitation_secret q),
      pi_short_code = pr_short_code q, pi_certificate_fingerprint_sha256 = pr_certificate_fingerprint_sha256 q,
      pi_expires_at_unix_millis = pr_expires_at_unix_millis q, pi_approved = False\<rparr>)]"
  by (auto simp: create_invitation_def result_simps split: if_splits)

lemma approve_pending:
  assumes "approve i code r = Inr r'"
  shows "\<exists>old. map_of (pg_pending r) i = Some old \<and> pi_short_code old = code
    \<and> map_of (pg_pending r') = (map_of (pg_pending r))(i \<mapsto> old\<lparr>pi_approved := True\<rparr>)"
  using assms by (auto simp: approve_def result_simps btree_adjust_lookup split: if_splits)

lemma same_pending:
  "registry_authenticate hash d c t r = Inr r' \<Longrightarrow> pg_pending r' = pg_pending r"
  "set_controller d r = Inr r' \<Longrightarrow> pg_pending r' = pg_pending r"
  "pg_pending (fst (revoke d r)) = pg_pending r"
  "pg_pending (set_client_version d v r) = pg_pending r"
  by (auto simp: registry_authenticate_def set_controller_def revoke_def set_client_version_def result_simps
      split: if_splits option.splits)

lemma pending_step:
  assumes IH: "\<And>i invitation. map_of (pg_pending r) i = Some invitation \<Longrightarrow> invited hash ops i invitation"
    and now: "map_of (pg_pending (registry_step hash r op)) i = Some invitation"
  shows "invited hash (ops @ [op]) i invitation"
proof (cases "map_of (pg_pending r) i = Some invitation")
  case True
  then show ?thesis by (intro invited_later IH)
next
  case changed: False
  show ?thesis
  proof (cases op)
    case (RegCreate q)
    with now changed obtain r' where "create_invitation hash q r = Inr r'" "map_of (pg_pending r') i = Some invitation"
      by (cases "create_invitation hash q r") (simp_all add: or_else_def)
    then have "pr_invitation_id q = i" "pi_secret_sha256 invitation = hash (pr_invitation_secret q)"
      "pi_short_code invitation = pr_short_code q" "pi_expires_at_unix_millis invitation = pr_expires_at_unix_millis q"
      "\<not> pi_approved invitation"
      using create_pending [of hash q r] by (auto split: if_splits)
    then show ?thesis unfolding invited_def RegCreate by (intro exI [of _ ops] exI [of _ q] exI [of _ "[]"]) simp
  next
    case (RegApprove j code)
    with now changed obtain r' where r': "approve j code r = Inr r'" "map_of (pg_pending r') i = Some invitation"
      by (cases "approve j code r") (simp_all add: or_else_def)
    from approve_pending [OF r'(1)] obtain old where old: "map_of (pg_pending r) j = Some old" "pi_short_code old = code"
      and upd: "map_of (pg_pending r') = (map_of (pg_pending r))(j \<mapsto> old\<lparr>pi_approved := True\<rparr>)" by blast
    have "j = i" using r'(2) changed unfolding upd by (metis fun_upd_other)
    moreover have "invitation = old\<lparr>pi_approved := True\<rparr>" using r'(2) unfolding upd \<open>j = i\<close> by simp
    ultimately show ?thesis using invited_approved [OF IH [OF old(1)] old(2)] by (simp only: RegApprove)
  next
    case (RegExchange j secret device name credential t)
    with now changed obtain r' d where r': "exchange hash j secret device name credential t r = Inr (r', d)"
      "map_of (pg_pending r') i = Some invitation"
      by (cases "exchange hash j secret device name credential t r") auto
    from r'(1) have "pg_pending r' = btree_remove j (pg_pending r)" by (rule exchange_accepted)
    with r'(2) changed show ?thesis by (simp add: btree_remove_lookup split: if_splits)
  next
    case (RegAuthenticate device credential t)
    with now changed same_pending(1) show ?thesis
      by (cases "registry_authenticate hash device credential t r") (auto simp: or_else_def)
  next
    case (RegSetController device)
    with now changed same_pending(2) show ?thesis by (cases "set_controller device r") (auto simp: or_else_def)
  qed (use now changed same_pending in auto)
qed

lemma pending_invited:
  "map_of (pg_pending (foldl (registry_step hash) registry_default ops)) i = Some invitation \<Longrightarrow> invited hash ops i invitation"
proof (induction ops arbitrary: i invitation rule: rev_induct)
  case Nil
  then show ?case by (simp add: registry_default_def)
next
  case (snoc op ops)
  then show ?case using pending_step [of "foldl (registry_step hash) registry_default ops"] by simp
qed

text \<open>
  C13. A device is paired only with the secret of an invitation that was created and afterwards
  approved with its own short code, before it expires; and the invitation is gone afterwards.
\<close>

theorem pairing_needs_approval:
  assumes "exchange hash i secret device name credential now (foldl (registry_step hash) registry_default ops) = Inr (r', d)"
  shows "(\<exists>before q after. ops = before @ RegCreate q # after \<and> pr_invitation_id q = i \<and> hash (pr_invitation_secret q) = hash secret
      \<and> now \<le> pr_expires_at_unix_millis q \<and> RegApprove i (pr_short_code q) \<in> set after)
    \<and> exchange hash i secret' device' name' credential' now' r' = Inl InvitationUnknown"
  using assms
proof (rule exchange_accepted)
  fix invitation
  let ?r = "foldl (registry_step hash) registry_default ops"
  assume "map_of (pg_pending ?r) i = Some invitation" "now \<le> pi_expires_at_unix_millis invitation"
    "pi_approved invitation" "pi_secret_sha256 invitation = hash secret" and gone: "pg_pending r' = btree_remove i (pg_pending ?r)"
  then have "\<exists>before q after. ops = before @ RegCreate q # after \<and> pr_invitation_id q = i \<and> hash (pr_invitation_secret q) = hash secret
      \<and> now \<le> pr_expires_at_unix_millis q \<and> RegApprove i (pr_short_code q) \<in> set after"
    using pending_invited [of hash ops i invitation] unfolding invited_def by metis
  moreover have "exchange hash i secret' device' name' credential' now' r' = Inl InvitationUnknown"
    by (simp add: exchange_def gone btree_remove_lookup)
  ultimately show ?thesis ..
qed

theorem pairing_needs_approval_witness:
  "\<exists>r' d. exchange (\<lambda>s. s) ''i'' demo_secret ''d'' ''n'' demo_secret 150
       (foldl (registry_step (\<lambda>s. s)) registry_default [RegCreate demo_request, RegApprove ''i'' ''123456'']) = Inr (r', d)
     \<and> exchange (\<lambda>s. s) ''i'' demo_secret ''e'' ''m'' demo_secret 160 r' = Inl InvitationUnknown"
proof -
  have "exchange (\<lambda>s. s) ''i'' demo_secret ''d'' ''n'' demo_secret 150
       (foldl (registry_step (\<lambda>s. s)) registry_default [RegCreate demo_request, RegApprove ''i'' ''123456'']) = Inr (demo_paired, demo_device)"
    by (simp add: demo_pairing_simps list_all_iff)
  from this pairing_needs_approval [OF this] show ?thesis by blast
qed

section \<open>Persistence\<close>

lemma restore_devices_all:
  "list_all (\<lambda>(k, d). device_ok k d) ds \<Longrightarrow> ordered (acc @ ds) \<Longrightarrow>
   list_all (\<lambda>(k, d). dv_paired_at_unix_millis d \<noteq> 0 \<and> dv_paired_at_unix_millis d \<le> dv_last_seen_unix_millis d) ds \<Longrightarrow>
   restore_devices (map snd ds) acc n = Inr (acc @ ds, n + controllers ds)"
proof (induction ds arbitrary: acc n)
  case (Cons e ds)
  obtain k d where e: "e = (k, d)" by (cases e)
  with Cons.prems have ok: "device_ok k d" and times: "dv_paired_at_unix_millis d \<noteq> 0" "dv_paired_at_unix_millis d \<le> dv_last_seen_unix_millis d"
    by simp_all
  have "ordered (acc @ [(k, d)])" and new: "map_of acc k = None"
    using Cons.prems(2) by (auto simp: e ordered_def sorted_wrt_append map_of_eq_None_iff dest: bspec)
  then have "btree_insert k d acc = acc @ [(k, d)]" by (intro btree_insert_greatest)
  moreover have "restore_devices (map snd ds) (acc @ [(k, d)]) n' = Inr ((acc @ [(k, d)]) @ ds, n' + controllers ds)" for n'
    using Cons.prems by (intro Cons.IH) (simp_all add: e)
  ultimately show ?case
    using ok times new by (auto simp: e device_ok_def public_identifier_accepted controllers_def validate_public_identifier_def split: option.splits)
qed (simp add: controllers_def)

lemma restore_devices_clock:
  assumes "\<not> list_all (\<lambda>(k, d). dv_paired_at_unix_millis d \<noteq> 0 \<and> dv_paired_at_unix_millis d \<le> dv_last_seen_unix_millis d) ds"
    "list_all (\<lambda>(k, d). device_ok k d) ds"
  shows "restore_devices (map snd ds) acc n = Inl InvalidPersistedDevice"
  using assms
proof (induction ds arbitrary: acc n)
  case (Cons e ds)
  obtain k d where e: "e = (k, d)" by (cases e)
  with Cons.prems have ok: "device_ok k d" by simp
  then have ids: "validate_public_identifier (dv_device_id d) 128 = Inr ()" "validate_public_identifier (dv_display_name d) 128 = Inr ()"
    "(case dv_client_version d of None \<Rightarrow> Inr () | Some v \<Rightarrow> validate_public_identifier v 64) = Inr ()"
    by (auto simp: device_ok_def public_identifier_accepted split: option.splits)
  show ?case
  proof (cases "dv_paired_at_unix_millis d \<noteq> 0 \<and> dv_paired_at_unix_millis d \<le> dv_last_seen_unix_millis d")
    case True
    with Cons.prems have "\<not> list_all (\<lambda>(k, d). dv_paired_at_unix_millis d \<noteq> 0 \<and> dv_paired_at_unix_millis d \<le> dv_last_seen_unix_millis d) ds"
      by (simp add: e)
    with Cons.IH Cons.prems(2) ids show ?thesis by (simp add: e)
  next
    case False
    with ids show ?thesis by (auto simp: e not_le)
  qed
qed simp

text \<open>What is restored from a snapshot of a registry.\<close>

lemma snapshot_restored:
  assumes "registry_ok r"
  shows "from_snapshot (registry_snapshot r) =
    (if list_all (\<lambda>(k, d). dv_paired_at_unix_millis d \<noteq> 0 \<and> dv_paired_at_unix_millis d \<le> dv_last_seen_unix_millis d) (pg_devices r)
     then Inr (r\<lparr>pg_pending := []\<rparr>) else Inl InvalidPersistedDevice)"
proof -
  have changes: "validate_changes (pg_controller_changes r) = Inr ()"
    using assms by (simp add: validate_changes_accepted registry_ok_def)
  have "pg_controller_selection_initialized r \<or> pg_devices r \<noteq> [] \<longleftrightarrow> pg_controller_selection_initialized r"
    using assms by (auto simp: registry_ok_def)
  with assms restore_devices_all [of "pg_devices r" "[]" 0] restore_devices_clock [of "pg_devices r" "[]" 0] show ?thesis
    by (simp add: from_snapshot_def registry_snapshot_def registry_ok_def changes)
qed

end
