(* ===== verification/Remote_Session.thy ===== *)
theory Remote_Session
  imports Remote_Gateway Remote_Pairing
begin

text \<open>
  The state that the connections of the gateway share (\<open>network.rs\<close>, \<open>trust_store.rs\<close>, \<open>admin.rs\<close> of
  \<open>lumi-remote-gateway\<close>): the trust store, commits of the registry, greetings of devices, requests of
  the local administration, and the two sides of the relay between a client and the engine. What the
  operating system answers, random identifiers and JSON are arguments: \<open>SaveEnvironment\<close> says which file
  operation fails, a lease is the result of \<open>random_hex\<close>, and \<open>SessionJson\<close> holds the conversions
  of payloads.
\<close>

section \<open>The trust store\<close>

definition TRUST_STORE_VERSION :: u16 where
  "TRUST_STORE_VERSION = 1"

definition MAXIMUM_TRUST_STORE_BYTES :: nat where
  "MAXIMUM_TRUST_STORE_BYTES = 65536"

datatype TrustStoreError =
    UntrustedPath
  | UnsupportedVersion u16
  | TrustOversized
  | TrustIo string
  | TrustJson string
  | InvalidRegistry PairingError

record FileMetadata =
  fm_is_file :: bool
  fm_is_dir :: bool
  fm_is_symlink :: bool
  fm_mode :: u32
  fm_len :: nat

text \<open>\<open>mode & 0o077\<close>: someone else may read or write.\<close>

definition exposed :: "FileMetadata \<Rightarrow> bool" where
  "exposed m \<longleftrightarrow> and (fm_mode m) 63 \<noteq> 0"

type_synonym TrustStoreFile = "u16 \<times> PairingRegistrySnapshot"

definition trust_load ::
  "bool \<Rightarrow> string + FileMetadata \<Rightarrow> string + string \<Rightarrow> (string \<Rightarrow> string + TrustStoreFile) \<Rightarrow> TrustStoreError + PairingRegistry" where
  "trust_load exists metadata contents from_slice =
     (if \<not> exists then Inr registry_default
      else and_then (map_err TrustIo metadata) (\<lambda>m.
        if \<not> fm_is_file m \<or> fm_is_symlink m \<or> exposed m \<or> fm_len m > MAXIMUM_TRUST_STORE_BYTES then Inl UntrustedPath
        else and_then (map_err TrustIo contents) (\<lambda>bytes.
        and_then (map_err TrustJson (from_slice bytes)) (\<lambda>(version, registry).
        if version \<noteq> TRUST_STORE_VERSION then Inl (UnsupportedVersion version)
        else map_err InvalidRegistry (from_snapshot registry)))))"

datatype SaveStep =
    CreateParent | ProtectParent | InspectParent | RandomName | OpenTemporary | WriteTemporary | SyncTemporary | RenameTemporary

record SaveEnvironment =
  se_has_parent :: bool
  se_has_file_name :: bool
  se_parent :: FileMetadata
  se_failure :: "SaveStep \<Rightarrow> string option"
  se_to_vec :: "TrustStoreFile \<Rightarrow> string + string"

definition save_step :: "SaveEnvironment \<Rightarrow> SaveStep \<Rightarrow> TrustStoreError + unit" where
  "save_step env step = (case se_failure env step of None \<Rightarrow> Inr () | Some e \<Rightarrow> Inl (TrustIo e))"

text \<open>The bytes that replace the file. The rename is the last step, so an error leaves the file as it was.\<close>

definition trust_save :: "SaveEnvironment \<Rightarrow> PairingRegistry \<Rightarrow> TrustStoreError + string" where
  "trust_save env registry =
     (if \<not> se_has_parent env then Inl UntrustedPath
      else and_then (save_step env CreateParent) (\<lambda>_.
      and_then (save_step env ProtectParent) (\<lambda>_.
      and_then (save_step env InspectParent) (\<lambda>_.
      if \<not> fm_is_dir (se_parent env) \<or> fm_is_symlink (se_parent env) \<or> exposed (se_parent env) then Inl UntrustedPath
      else and_then (map_err TrustJson (se_to_vec env (TRUST_STORE_VERSION, registry_snapshot registry))) (\<lambda>bytes.
      if length bytes > MAXIMUM_TRUST_STORE_BYTES then Inl TrustOversized
      else if \<not> se_has_file_name env then Inl UntrustedPath
      else and_then (save_step env RandomName) (\<lambda>_.
      and_then (save_step env OpenTemporary) (\<lambda>_.
      and_then (save_step env WriteTemporary) (\<lambda>_.
      and_then (save_step env SyncTemporary) (\<lambda>_.
      and_then (save_step env RenameTemporary) (\<lambda>_.
      Inr bytes))))))))))"

section \<open>Shared state\<close>

datatype GatewayNetworkError =
    NetInvalidClientLimit
  | NetHandshakeTimeout
  | NetAuthenticationTimeout
  | NetAuthenticationEnded
  | NetUnexpectedFrame
  | NetOversizedFrame
  | NetSlowClient
  | NetEngineUnavailable
  | NetIo string
  | NetTls string
  | NetJson string
  | NetFrame RemoteFrameError
  | NetAuthentication RemoteAuthenticationError
  | NetPairing PairingError
  | NetCommand CommandGuardError
  | NetRateLimit RateLimitError
  | NetConfiguration GatewayConfigError
  | NetIdentity string
  | NetTrustStore TrustStoreError
  | NetBonjour string

definition DEFAULT_COMMAND_LEDGER_CAPACITY :: nat where
  "DEFAULT_COMMAND_LEDGER_CAPACITY = 1024"

text \<open>\<open>sg_store\<close> is the file of the trust store, where it exists.\<close>

record SharedGatewayState =
  sg_registry :: PairingRegistry
  sg_command_guard :: GatewayCommandGuard
  sg_store :: "string option"
  sg_installation_id :: string
  sg_certificate_fingerprint_sha256 :: string
  sg_trust_revision :: u64
  sg_command_limiter :: AttemptRateLimiter

definition shared_load ::
  "string \<Rightarrow> string \<Rightarrow> string option \<Rightarrow> TrustStoreError + PairingRegistry \<Rightarrow> string + string \<Rightarrow> GatewayNetworkError + SharedGatewayState" where
  "shared_load installation fingerprint store loaded lease =
     and_then (map_err NetTrustStore loaded) (\<lambda>registry.
     and_then (map_err NetCommand (guard_new DEFAULT_COMMAND_LEDGER_CAPACITY)) (\<lambda>guard.
     and_then (case controller_device_id registry of
         None \<Rightarrow> Inr guard
       | Some device \<Rightarrow> and_then (map_err NetIdentity lease) (\<lambda>l. Inr (guard_transfer_control device l guard))) (\<lambda>guard'.
     and_then (map_err NetRateLimit (limiter_new 32 1000)) (\<lambda>limiter.
     Inr \<lparr>sg_registry = registry, sg_command_guard = guard', sg_store = store, sg_installation_id = installation,
          sg_certificate_fingerprint_sha256 = fingerprint, sg_trust_revision = 0, sg_command_limiter = limiter\<rparr>))))"

definition notify_trust_changed :: "SharedGatewayState \<Rightarrow> SharedGatewayState" where
  "notify_trust_changed st = st\<lparr>sg_trust_revision := saturating_add (sg_trust_revision st) 1\<rparr>"

definition guard_owner :: "GatewayCommandGuard \<Rightarrow> string option" where
  "guard_owner g = map_option cl_device_id (gp_controller (gg_policy g))"

definition commit_registry ::
  "SaveEnvironment \<Rightarrow> string + string \<Rightarrow> PairingRegistry \<Rightarrow> bool \<Rightarrow> SharedGatewayState \<Rightarrow> GatewayNetworkError + SharedGatewayState" where
  "commit_registry env random candidate rotate_lease st =
     (let guard = sg_command_guard st;
          owner = controller_device_id candidate;
          ownership_changed = (guard_owner guard \<noteq> owner) in
      and_then (if (ownership_changed \<or> rotate_lease) \<and> owner \<noteq> None
                then map_err NetIdentity (and_then random (\<lambda>l. Inr (Some l))) else Inr None) (\<lambda>lease.
      and_then (map_err NetTrustStore (trust_save env candidate)) (\<lambda>bytes.
        let guard' =
          (if ownership_changed \<or> rotate_lease then
             (case (owner, lease) of
                (Some o', Some l) \<Rightarrow> guard_transfer_control o' l guard
              | _ \<Rightarrow> guard_revoke_control guard)
           else guard) in
        Inr (st\<lparr>sg_registry := candidate, sg_command_guard := guard', sg_store := Some bytes\<rparr>))))"

section \<open>Greetings\<close>

text \<open>The candidate registry of a greeting, the device, and whether it was paired.\<close>

fun greet_candidate ::
  "(string \<Rightarrow> string) \<Rightarrow> RemoteClientHello \<Rightarrow> u64 \<Rightarrow> PairingRegistry \<Rightarrow> PairingError + PairingRegistry \<times> string \<times> bool" where
  "greet_candidate hash (HelloAuthenticate device credential version) now r =
     and_then (registry_authenticate hash device credential now r) (\<lambda>c.
       Inr (set_client_version device version c, device, False))"
| "greet_candidate hash (HelloPair invitation secret device name credential version) now r =
     and_then (exchange hash invitation secret device name credential now r) (\<lambda>(c, _).
       Inr (set_client_version device version c, device, True))"

definition shared_authenticate ::
  "(string \<Rightarrow> string) \<Rightarrow> SaveEnvironment \<Rightarrow> string + string \<Rightarrow> RemoteClientHello \<Rightarrow> u64 \<Rightarrow> SharedGatewayState
     \<Rightarrow> GatewayNetworkError + SharedGatewayState \<times> string \<times> RemoteServerHello" where
  "shared_authenticate hash env random hello now st =
     and_then (map_err NetAuthentication (hello_validate hello)) (\<lambda>_.
     and_then (map_err NetPairing (greet_candidate hash hello now (sg_registry st))) (\<lambda>(candidate, device, paired).
     and_then (commit_registry env random candidate False st) (\<lambda>st'.
       let lease = controller_lease_for (sg_command_guard st') device;
           name = map_option dv_display_name (find dv_controller (map snd (pg_devices (sg_registry st')))) in
       Inr (st', device, if paired then HelloPaired (sg_installation_id st') lease name
                         else HelloAuthenticated (sg_installation_id st') lease name))))"

definition network_error_code :: "GatewayNetworkError \<Rightarrow> string" where
  "network_error_code e =
     (if e = NetPairing ApprovalRequired then ''approvalRequired''
      else if e = NetPairing InvitationExpired then ''invitationExpired''
      else if e = NetPairing InvitationUnknown then ''invitationUnknown''
      else if e = NetPairing DeviceUnknown then ''deviceRevoked''
      else if e = NetPairing CredentialMismatch then ''credentialMismatch''
      else ''authenticationRejected'')"

definition should_rate_limit_authentication_failure :: "GatewayNetworkError \<Rightarrow> bool" where
  "should_rate_limit_authentication_failure e \<longleftrightarrow> e \<noteq> NetPairing ApprovalRequired"

text \<open>
  The greeting of a connection: the limiter of its address is asked first, and a failure
  is recorded there. The result is the code of the error frame with the error, or the greeted device.
\<close>

definition serve_hello ::
  "(string \<Rightarrow> string) \<Rightarrow> SaveEnvironment \<Rightarrow> string + string \<Rightarrow> string \<Rightarrow> u64 \<Rightarrow> u64 \<Rightarrow> RemoteClientHello
     \<Rightarrow> AttemptRateLimiter \<Rightarrow> SharedGatewayState
     \<Rightarrow> AttemptRateLimiter \<times> SharedGatewayState \<times> (string \<times> GatewayNetworkError + string \<times> RemoteServerHello)" where
  "serve_hello hash env random peer rate_now now hello limiter st =
     (case limiter_check peer rate_now limiter of
        (limiter1, Inl _) \<Rightarrow> (limiter1, st, Inl (''rateLimited'', NetRateLimit Limited))
      | (limiter1, Inr _) \<Rightarrow>
          (case shared_authenticate hash env random hello now st of
             Inr (st', device, response) \<Rightarrow> (limiter1, st', Inr (device, response))
           | Inl e \<Rightarrow>
               if should_rate_limit_authentication_failure e then
                 (case limiter_record peer rate_now limiter1 of
                    (limiter2, Inl _) \<Rightarrow> (limiter2, st, Inl (''rateLimited'', NetRateLimit Limited))
                  | (limiter2, Inr _) \<Rightarrow> (limiter2, st, Inl (network_error_code e, e)))
               else (limiter1, st, Inl (network_error_code e, e))))"

section \<open>Administration\<close>

datatype GatewayAdminRequest =
    AdminStatus
  | AdminCreateInvitation
  | AdminApproveInvitation string string
  | AdminRevokeDevice string
  | AdminTransferControl string

record GatewayPairingInvitation =
  gi_installation_id :: string
  gi_invitation_id :: string
  gi_invitation_secret :: string
  gi_short_code :: string
  gi_certificate_fingerprint_sha256 :: string
  gi_expires_at_unix_millis :: u64
  gi_approved :: bool

record GatewayPairedDeviceStatus =
  gd_device_id :: string
  gd_display_name :: string
  gd_paired_at_unix_millis :: u64
  gd_last_seen_unix_millis :: u64
  gd_controller :: bool
  gd_client_version :: "string option"

record GatewayAdminStatus =
  ga_engine_connected :: bool
  ga_installation_id :: string
  ga_certificate_fingerprint_sha256 :: string
  ga_lan_port :: u16
  ga_paired_devices :: "GatewayPairedDeviceStatus list"
  ga_controller_device_id :: "string option"
  ga_controller_changes :: "ControllerChange list"

record GatewayAdminResponse =
  gr_ok :: bool
  gr_status :: GatewayAdminStatus
  gr_invitation :: "GatewayPairingInvitation option"
  gr_error_code :: "string option"

definition admin_status :: "bool \<Rightarrow> u16 \<Rightarrow> SharedGatewayState \<Rightarrow> GatewayAdminStatus" where
  "admin_status connected lan_port st =
     (let registry = sg_registry st; controller = controller_device_id registry in
      \<lparr>ga_engine_connected = connected, ga_installation_id = sg_installation_id st,
       ga_certificate_fingerprint_sha256 = sg_certificate_fingerprint_sha256 st, ga_lan_port = lan_port,
       ga_paired_devices = map (\<lambda>d. \<lparr>gd_device_id = dv_device_id d, gd_display_name = dv_display_name d,
         gd_paired_at_unix_millis = dv_paired_at_unix_millis d, gd_last_seen_unix_millis = dv_last_seen_unix_millis d,
         gd_controller = (controller = Some (dv_device_id d)), gd_client_version = dv_client_version d\<rparr>) (map snd (pg_devices registry)),
       ga_controller_device_id = controller, ga_controller_changes = pg_controller_changes registry\<rparr>)"

text \<open>\<open>u64::from_str_radix(text, 16)\<close> and \<open>format!("{:06}", n)\<close>.\<close>

fun parse_hex :: "nat \<Rightarrow> string \<Rightarrow> nat option" where
  "parse_hex acc [] = Some acc"
| "parse_hex acc (c # s) =
     (case hex_nibble c of
        None \<Rightarrow> None
      | Some d \<Rightarrow> if acc * 16 + unat d < 2 ^ 64 then parse_hex (acc * 16 + unat d) s else None)"

definition from_str_radix16 :: "string \<Rightarrow> nat option" where
  "from_str_radix16 s =
     (case s of
        [] \<Rightarrow> None
      | c # rest \<Rightarrow> if c = CHR ''+'' then (if rest = [] then None else parse_hex 0 rest) else parse_hex 0 s)"

definition six_digits :: "nat \<Rightarrow> string" where
  "six_digits n = replicate (6 - length (show_nat n)) CHR ''0'' @ show_nat n"

definition admin_create_invitation ::
  "(string \<Rightarrow> string) \<Rightarrow> string + string \<Rightarrow> string + string \<Rightarrow> string + string \<Rightarrow> u64 \<Rightarrow> SharedGatewayState
     \<Rightarrow> PairingError + SharedGatewayState \<times> GatewayPairingInvitation" where
  "admin_create_invitation hash random_id random_secret random_code now st =
     and_then (map_err (\<lambda>_. InvalidInvitation) random_id) (\<lambda>invitation_id.
     and_then (map_err (\<lambda>_. InvalidInvitation) random_secret) (\<lambda>secret.
     and_then (map_err (\<lambda>_. InvalidInvitation) random_code) (\<lambda>code.
     and_then (ok_or (from_str_radix16 code) InvalidInvitation) (\<lambda>seed.
       let short_code = six_digits (seed mod 1000000);
           expires = saturating_add now MAX_INVITATION_LIFETIME_MILLIS in
       and_then (create_invitation hash \<lparr>pr_invitation_id = invitation_id, pr_invitation_secret = secret, pr_short_code = short_code,
           pr_certificate_fingerprint_sha256 = sg_certificate_fingerprint_sha256 st, pr_created_at_unix_millis = now,
           pr_expires_at_unix_millis = expires\<rparr> (sg_registry st)) (\<lambda>registry.
         Inr (st\<lparr>sg_registry := registry\<rparr>, \<lparr>gi_installation_id = sg_installation_id st, gi_invitation_id = invitation_id,
           gi_invitation_secret = secret, gi_short_code = short_code,
           gi_certificate_fingerprint_sha256 = sg_certificate_fingerprint_sha256 st,
           gi_expires_at_unix_millis = expires, gi_approved = False\<rparr>))))))"

definition admin_revoke ::
  "SaveEnvironment \<Rightarrow> string + string \<Rightarrow> u64 \<Rightarrow> string \<Rightarrow> SharedGatewayState \<Rightarrow> PairingError + SharedGatewayState" where
  "admin_revoke env random now device st =
     (let registry = sg_registry st;
          previous = controller_device_id registry;
          (candidate, found) = revoke device registry in
      if found then
        let candidate' = (if previous = Some device then record_controller_change previous ''controllerRevoked'' now candidate
                          else candidate) in
        (case commit_registry env random candidate' False st of
           Inl _ \<Rightarrow> Inl InvalidPersistedDevice
         | Inr st' \<Rightarrow> Inr (notify_trust_changed st'))
      else Inl DeviceUnknown)"

definition admin_transfer ::
  "SaveEnvironment \<Rightarrow> string + string \<Rightarrow> u64 \<Rightarrow> string \<Rightarrow> SharedGatewayState \<Rightarrow> PairingError + SharedGatewayState" where
  "admin_transfer env random now device st =
     (let registry = sg_registry st; previous = controller_device_id registry in
      case set_controller device registry of
        Inl _ \<Rightarrow> Inl DeviceUnknown
      | Inr candidate \<Rightarrow>
          (case commit_registry env random (record_controller_change previous ''macTransfer'' now candidate) True st of
             Inl _ \<Rightarrow> Inl InvalidPersistedDevice
           | Inr st' \<Rightarrow> Inr (notify_trust_changed st')))"

definition pairing_error_code :: "PairingError \<Rightarrow> string" where
  "pairing_error_code e =
     (case e of
        InvalidInvitation \<Rightarrow> ''invalidInvitation''
      | InvitationUnknown \<Rightarrow> ''invitationUnknown''
      | InvitationExpired \<Rightarrow> ''invitationExpired''
      | ApprovalRequired \<Rightarrow> ''approvalRequired''
      | ShortCodeMismatch \<Rightarrow> ''shortCodeMismatch''
      | DeviceUnknown \<Rightarrow> ''deviceUnknown''
      | DeviceLimitReached \<Rightarrow> ''deviceLimitReached''
      | _ \<Rightarrow> ''pairingRejected'')"

text \<open>The random strings a request may draw: a lease, or the parts of an invitation.\<close>

record AdminRandom =
  ar_lease :: "string + string"
  ar_id :: "string + string"
  ar_secret :: "string + string"
  ar_code :: "string + string"

fun admin_outcome ::
  "(string \<Rightarrow> string) \<Rightarrow> SaveEnvironment \<Rightarrow> AdminRandom \<Rightarrow> u64 \<Rightarrow> GatewayAdminRequest \<Rightarrow> SharedGatewayState
     \<Rightarrow> PairingError + SharedGatewayState \<times> GatewayPairingInvitation option" where
  "admin_outcome hash env random now AdminStatus st = Inr (st, None)"
| "admin_outcome hash env random now AdminCreateInvitation st =
     and_then (admin_create_invitation hash (ar_id random) (ar_secret random) (ar_code random) now st) (\<lambda>(st', i). Inr (st', Some i))"
| "admin_outcome hash env random now (AdminApproveInvitation invitation code) st =
     and_then (approve invitation code (sg_registry st)) (\<lambda>registry. Inr (st\<lparr>sg_registry := registry\<rparr>, None))"
| "admin_outcome hash env random now (AdminRevokeDevice device) st =
     and_then (admin_revoke env (ar_lease random) now device st) (\<lambda>st'. Inr (st', None))"
| "admin_outcome hash env random now (AdminTransferControl device) st =
     and_then (admin_transfer env (ar_lease random) now device st) (\<lambda>st'. Inr (st', None))"

definition apply_request ::
  "(string \<Rightarrow> string) \<Rightarrow> SaveEnvironment \<Rightarrow> AdminRandom \<Rightarrow> u64 \<Rightarrow> bool \<Rightarrow> u16 \<Rightarrow> GatewayAdminRequest \<Rightarrow> SharedGatewayState
     \<Rightarrow> SharedGatewayState \<times> GatewayAdminResponse" where
  "apply_request hash env random now connected lan_port request st =
     (case admin_outcome hash env random now request st of
        Inr (st', invitation) \<Rightarrow>
          (st', \<lparr>gr_ok = True, gr_status = admin_status connected lan_port st', gr_invitation = invitation, gr_error_code = None\<rparr>)
      | Inl e \<Rightarrow>
          (st, \<lparr>gr_ok = False, gr_status = admin_status connected lan_port st, gr_invitation = None,
                gr_error_code = Some (pairing_error_code e)\<rparr>))"

definition tokens_match :: "string \<Rightarrow> string \<Rightarrow> bool" where
  "tokens_match expected received \<longleftrightarrow> length expected = length received \<and> expected = received"

section \<open>The connection of a client\<close>

record 'v SessionJson =
  sj_result_from :: "'v \<Rightarrow> string + RemoteCommandResult"
  sj_result_to :: "RemoteCommandResult \<Rightarrow> string + 'v"
  sj_projection_from :: "'v \<Rightarrow> string + RemoteLiveProjection"
  sj_projection_to :: "RemoteLiveProjection \<Rightarrow> string + 'v"
  sj_command_from :: "'v \<Rightarrow> string + RemoteCommand"
  sj_command_to :: "RemoteCommand \<Rightarrow> string + 'v"
  sj_hello_to :: "RemoteServerHello \<Rightarrow> string + 'v"
  sj_error :: "string \<Rightarrow> 'v"

record ClientSession =
  cs_device_id :: string
  cs_delivery_sequence :: u64
  cs_last_projection_revision :: u64

text \<open>
  A step of a connection: the session, the frames that were written, and whether it goes on. Writing a
  frame encodes it and sends it within a time limit; \<open>write\<close> says whether that works. A
  frame that was written takes the next sequence number.
\<close>

type_synonym 'v session_step = "ClientSession \<times> 'v RemoteFrame list \<times> (GatewayNetworkError + unit)"

definition deliver ::
  "('v RemoteFrame \<Rightarrow> GatewayNetworkError + unit) \<Rightarrow> (string + 'v) \<Rightarrow> RemoteFrameKind \<Rightarrow> string option \<Rightarrow> ClientSession \<Rightarrow> 'v session_step" where
  "deliver write payload kind correlation cs =
     (case payload of
        Inl e \<Rightarrow> (cs, [], Inl (NetJson e))
      | Inr v \<Rightarrow>
          let frame = \<lparr>rf_protocol_version = REMOTE_PROTOCOL_VERSION, rf_frame_kind = kind,
                rf_sequence = cs_delivery_sequence cs, rf_correlation_id = correlation, rf_payload = v\<rparr> in
          (case write frame of
             Inl e \<Rightarrow> (cs, [], Inl e)
           | Inr _ \<Rightarrow> (cs\<lparr>cs_delivery_sequence := saturating_add (cs_delivery_sequence cs) 1\<rparr>, [frame], Inr ())))"

definition write_projection ::
  "('v RemoteFrame \<Rightarrow> GatewayNetworkError + unit) \<Rightarrow> 'v SessionJson \<Rightarrow> RemoteLiveProjection \<Rightarrow> ClientSession \<Rightarrow> 'v session_step" where
  "write_projection write js projection cs = deliver write (sj_projection_to js projection) FrameSnapshot None cs"

definition write_error ::
  "('v RemoteFrame \<Rightarrow> GatewayNetworkError + unit) \<Rightarrow> 'v SessionJson \<Rightarrow> string \<Rightarrow> ClientSession \<Rightarrow> 'v session_step" where
  "write_error write js reason cs = deliver write (Inr (sj_error js reason)) FrameError None cs"

definition write_command_result ::
  "('v RemoteFrame \<Rightarrow> GatewayNetworkError + unit) \<Rightarrow> 'v SessionJson \<Rightarrow> RemoteCommandResult \<Rightarrow> ClientSession \<Rightarrow> 'v session_step" where
  "write_command_result write js result cs =
     deliver write (sj_result_to js result) FrameCommandResult (Some (rr_command_id result)) cs"

definition rejected_result :: "string \<Rightarrow> string \<Rightarrow> RemoteCommandResult" where
  "rejected_result command_id reason = \<lparr>rr_command_id = command_id, rr_status = ResultRejected, rr_state_revision = None,
     rr_plan_revision = None, rr_reason_code = Some reason\<rparr>"

text \<open>After the greeting: the answer, and the latest projection or an error.\<close>

definition session_start ::
  "('v RemoteFrame \<Rightarrow> GatewayNetworkError + unit) \<Rightarrow> 'v SessionJson \<Rightarrow> string \<Rightarrow> RemoteServerHello \<Rightarrow> RemoteLiveProjection option
     \<Rightarrow> 'v session_step" where
  "session_start write js device hello latest =
     (let cs = \<lparr>cs_device_id = device, cs_delivery_sequence = 1, cs_last_projection_revision = 0\<rparr> in
      case deliver write (sj_hello_to js hello) FrameHello None cs of
        (cs1, out1, Inl e) \<Rightarrow> (cs1, out1, Inl e)
      | (cs1, out1, Inr _) \<Rightarrow>
          let (cs2, out2, r) =
            (case latest of
               Some snapshot \<Rightarrow> write_projection write js snapshot
                 (cs1\<lparr>cs_last_projection_revision := prj_projection_revision snapshot\<rparr>)
             | None \<Rightarrow> write_error write js ''engineUnavailable'' cs1) in
          (cs2, out1 @ out2, r))"

text \<open>A frame of the engine for this client.\<close>

definition session_update ::
  "('v RemoteFrame \<Rightarrow> GatewayNetworkError + unit) \<Rightarrow> 'v SessionJson \<Rightarrow> GatewayCommandGuard \<Rightarrow> 'v RemoteFrame \<Rightarrow> ClientSession \<Rightarrow> 'v session_step" where
  "session_update write js guard frame cs =
     (let personal =
        (if rf_frame_kind frame = FrameCommandResult then
           (case sj_result_from js (rf_payload frame) of
              Inl e \<Rightarrow> Inl (NetJson e)
            | Inr result \<Rightarrow>
                (case result_for_device guard (cs_device_id cs) (rr_command_id result) of
                   None \<Rightarrow> Inr None
                 | Some own \<Rightarrow>
                     (case sj_result_to js own of
                        Inl e \<Rightarrow> Inl (NetJson e)
                      | Inr v \<Rightarrow> Inr (Some (frame\<lparr>rf_correlation_id := Some (rr_command_id own), rf_payload := v\<rparr>)))))
         else Inr (Some frame)) in
      case personal of
        Inl e \<Rightarrow> (cs, [], Inl e)
      | Inr None \<Rightarrow> (cs, [], Inr ())
      | Inr (Some frame') \<Rightarrow>
          (let fresh =
             (if rf_frame_kind frame' = FrameSnapshot \<or> rf_frame_kind frame' = FrameProjection then
                (case sj_projection_from js (rf_payload frame') of
                   Inl e \<Rightarrow> Inl (NetJson e)
                 | Inr p \<Rightarrow>
                     if prj_projection_revision p \<le> cs_last_projection_revision cs then Inr None
                     else Inr (Some (cs\<lparr>cs_last_projection_revision := prj_projection_revision p\<rparr>)))
              else Inr (Some cs)) in
           case fresh of
             Inl e \<Rightarrow> (cs, [], Inl e)
           | Inr None \<Rightarrow> (cs, [], Inr ())
           | Inr (Some cs1) \<Rightarrow>
               (let numbered = frame'\<lparr>rf_sequence := cs_delivery_sequence cs1\<rparr> in
                case write numbered of
                  Inl e \<Rightarrow> (cs1, [], Inl e)
                | Inr _ \<Rightarrow> (cs1\<lparr>cs_delivery_sequence := saturating_add (cs_delivery_sequence cs1) 1\<rparr>, [numbered], Inr ()))))"

text \<open>
  A frame of the client. \<open>submitted\<close> is what the relay answers to a command that is forwarded; the last
  component is the command that was forwarded, if any.
\<close>

definition session_command ::
  "(string \<Rightarrow> string) \<Rightarrow> ('v RemoteFrame \<Rightarrow> GatewayNetworkError + unit) \<Rightarrow> 'v SessionJson \<Rightarrow> RemoteLiveProjection option
     \<Rightarrow> (RemoteCommand \<Rightarrow> GatewayNetworkError + unit) \<Rightarrow> u64 \<Rightarrow> 'v RemoteFrame \<Rightarrow> SharedGatewayState \<Rightarrow> ClientSession
     \<Rightarrow> SharedGatewayState \<times> 'v session_step \<times> RemoteCommand option" where
  "session_command digest write js latest submitted rate_now frame st cs =
     (if rf_frame_kind frame \<noteq> FrameCommand then (st, (cs, [], Inl NetUnexpectedFrame), None)
      else case sj_command_from js (rf_payload frame) of
        Inl e \<Rightarrow> (st, (cs, [], Inl (NetJson e)), None)
      | Inr command \<Rightarrow>
          (case command_validate command of
             Inl e \<Rightarrow> (st, (cs, [], Inl (NetCommand (Unauthorized (InvalidCommand e)))), None)
           | Inr _ \<Rightarrow>
               (case limiter_record (cs_device_id cs) rate_now (sg_command_limiter st) of
                  (limiter, Inl _) \<Rightarrow>
                    (st\<lparr>sg_command_limiter := limiter\<rparr>,
                     write_command_result write js (rejected_result (rc_command_id command) ''rateLimited'') cs, None)
                | (limiter, Inr _) \<Rightarrow>
                    let st1 = st\<lparr>sg_command_limiter := limiter\<rparr>;
                        (guard, admission) = admit digest (cs_device_id cs) command (sg_command_guard st1);
                        st2 = st1\<lparr>sg_command_guard := guard\<rparr> in
                    (case admission of
                       Inl e \<Rightarrow> (st2, (cs, [], Inl (NetCommand e)), None)
                     | Inr (AdmissionCompleted result) \<Rightarrow> (st2, write_command_result write js result cs, None)
                     | Inr AdmissionPending \<Rightarrow>
                         (st2, write_command_result write js (rejected_result (rc_command_id command) ''commandOutcomePending'') cs, None)
                     | Inr AdmissionAccepted \<Rightarrow>
                         if rc_command command = RequestSnapshot then
                           (case latest of
                              None \<Rightarrow> (st2, (cs, [], Inr ()), None)
                            | Some snapshot \<Rightarrow>
                                (st2, write_projection write js snapshot
                                   (cs\<lparr>cs_last_projection_revision := prj_projection_revision snapshot\<rparr>), None))
                         else
                           let forwarded = forwarded_command digest (cs_device_id cs) command in
                           (case submitted forwarded of
                              Inr _ \<Rightarrow> (st2, (cs, [], Inr ()), Some forwarded)
                            | Inl e \<Rightarrow>
                                let (cs', out, r) =
                                  write_command_result write js (rejected_result (rc_command_id command) ''commandOutcomeUnknown'') cs in
                                (st2, (cs', out, case r of Inl f \<Rightarrow> Inl f
                                   | Inr _ \<Rightarrow> if e = NetEngineUnavailable then Inr () else Inl e), Some forwarded))))))"

section \<open>The relay to the engine\<close>

text \<open>The projection the relay shows, and the guard it shares with the connections.\<close>

record RelayState =
  ry_latest :: "RemoteLiveProjection option"
  ry_guard :: GatewayCommandGuard
  ry_connected :: bool

text \<open>
  A frame of the engine: the state, the frame to publish, and whether the relay reconnects.
\<close>

definition relay_frame :: "'v SessionJson \<Rightarrow> 'v RemoteFrame \<Rightarrow> RelayState \<Rightarrow> RelayState \<times> 'v RemoteFrame option \<times> bool" where
  "relay_frame js frame rs =
     (let recorded =
        (if rf_frame_kind frame = FrameCommandResult then
           (case sj_result_from js (rf_payload frame) of
              Inl _ \<Rightarrow> None
            | Inr result \<Rightarrow> Some (rs\<lparr>ry_guard := record_result result (ry_guard rs)\<rparr>))
         else Some rs) in
      case recorded of
        None \<Rightarrow> (rs, None, True)
      | Some rs1 \<Rightarrow>
          if rf_frame_kind frame = FrameSnapshot \<or> rf_frame_kind frame = FrameProjection then
            (case sj_projection_from js (rf_payload frame) of
               Inl _ \<Rightarrow> (rs1, None, True)
             | Inr p \<Rightarrow>
                 (case projection_validate p of
                    Inl _ \<Rightarrow> (rs1, None, True)
                  | Inr _ \<Rightarrow> (rs1\<lparr>ry_latest := Some p\<rparr>, Some frame, False)))
          else if rf_frame_kind frame = FrameError then (rs1\<lparr>ry_latest := None\<rparr>, Some frame, False)
          else (rs1, Some frame, False))"

text \<open>
  A command to send: nothing when nobody waits for it any more; refused, with that outcome recorded, when it
  expired or its device lost control; otherwise \<open>send\<close> says whether the engine got it. The second component is
  the answer, the third whether the command was sent, the fourth whether the relay reconnects.
\<close>

definition relay_request ::
  "bool \<Rightarrow> bool \<Rightarrow> (RemoteCommand \<Rightarrow> bool) \<Rightarrow> RemoteCommand \<Rightarrow> RelayState
     \<Rightarrow> RelayState \<times> (GatewayNetworkError + unit) option \<times> bool \<times> bool" where
  "relay_request closed late send command rs =
     (if closed then (rs, None, False, False)
      else if late \<or> \<not> is_ok (authorize_forwarded (ry_guard rs) command) then
        (rs\<lparr>ry_guard := record_result (rejected_result (rc_command_id command) ''commandExpiredOrControlRevoked'') (ry_guard rs)\<rparr>,
         Some (Inl NetEngineUnavailable), False, False)
      else if send command then (rs, Some (Inr ()), True, False)
      else (rs, Some (Inl NetEngineUnavailable), True, True))"

text \<open>The end of a connection to the engine, and the frame that tells the clients.\<close>

definition relay_disconnect :: "'v SessionJson \<Rightarrow> RelayState \<Rightarrow> RelayState \<times> 'v RemoteFrame" where
  "relay_disconnect js rs = (rs\<lparr>ry_connected := False, ry_latest := None\<rparr>,
     \<lparr>rf_protocol_version = REMOTE_PROTOCOL_VERSION, rf_frame_kind = FrameError, rf_sequence = 1,
      rf_correlation_id = None, rf_payload = sj_error js ''engineUnavailable''\<rparr>)"

section \<open>The connection to the engine\<close>

record EngineRemoteEndpoint =
  ep_host :: string
  ep_port :: u16
  ep_protocol_version :: u16

record EngineRemoteServiceRecord =
  er_remote_gateway_endpoint :: EngineRemoteEndpoint
  er_remote_gateway_token :: string
  er_process_id :: u32
  er_product_version :: string

datatype EngineClientError =
    UntrustedServiceRecord
  | EngineClientMustRemainLoopback
  | InvalidServiceRecord
  | EngineOversizedFrame
  | EngineIo string
  | EngineJson string
  | EngineFrame RemoteFrameError
  | EngineCommand RemoteCommandError

text \<open>\<open>parse_ip\<close> stands for \<open>str::parse::<IpAddr>\<close>.\<close>

definition service_record_validate :: "(string \<Rightarrow> GatewayIpAddr option) \<Rightarrow> EngineRemoteServiceRecord \<Rightarrow> EngineClientError + unit" where
  "service_record_validate parse_ip record =
     (case parse_ip (ep_host (er_remote_gateway_endpoint record)) of
        None \<Rightarrow> Inl EngineClientMustRemainLoopback
      | Some host \<Rightarrow>
          if \<not> is_loopback host then Inl EngineClientMustRemainLoopback
          else if ep_port (er_remote_gateway_endpoint record) = 0
            \<or> ep_protocol_version (er_remote_gateway_endpoint record) \<noteq> REMOTE_PROTOCOL_VERSION
            \<or> \<not> (32 \<le> length (er_remote_gateway_token record) \<and> length (er_remote_gateway_token record) \<le> 256)
            \<or> er_process_id record \<le> 1 \<or> er_product_version record = []
          then Inl InvalidServiceRecord else Inr ())"

definition service_record_read ::
  "(string \<Rightarrow> GatewayIpAddr option) \<Rightarrow> string + FileMetadata \<Rightarrow> string + string \<Rightarrow> (string \<Rightarrow> string + EngineRemoteServiceRecord)
     \<Rightarrow> EngineClientError + EngineRemoteServiceRecord" where
  "service_record_read parse_ip metadata contents from_slice =
     and_then (map_err EngineIo metadata) (\<lambda>m.
       if \<not> fm_is_file m \<or> fm_is_symlink m then Inl UntrustedServiceRecord
       else if fm_len m > 16384 \<or> exposed m then Inl UntrustedServiceRecord
       else and_then (map_err EngineIo contents) (\<lambda>bytes.
       and_then (map_err EngineJson (from_slice bytes)) (\<lambda>record.
       and_then (service_record_validate parse_ip record) (\<lambda>_. Inr record))))"

text \<open>\<open>send_command\<close>: the next sequence number, and the bytes to write.\<close>

definition engine_send_command ::
  "'v FrameJson \<Rightarrow> 'v SessionJson \<Rightarrow> RemoteCommand \<Rightarrow> u64 \<Rightarrow> u64 \<times> (EngineClientError + string)" where
  "engine_send_command fj js command sequence =
     (case command_validate command of
        Inl e \<Rightarrow> (sequence, Inl (EngineCommand e))
      | Inr _ \<Rightarrow>
          (case sj_command_to js command of
             Inl e \<Rightarrow> (sequence, Inl (EngineJson e))
           | Inr v \<Rightarrow>
               (saturating_add sequence 1,
                and_then (map_err EngineFrame (frame_encode fj \<lparr>rf_protocol_version = REMOTE_PROTOCOL_VERSION,
                  rf_frame_kind = FrameCommand, rf_sequence = sequence, rf_correlation_id = Some (rc_command_id command),
                  rf_payload = v\<rparr>)) (\<lambda>bytes. Inr (bytes @ [char_of (10 :: nat)])))))"

section \<open>Control follows the registry\<close>

definition shared_ok :: "SharedGatewayState \<Rightarrow> bool" where
  "shared_ok st \<longleftrightarrow> registry_ok (sg_registry st) \<and> guard_owner (sg_command_guard st) = controller_device_id (sg_registry st)"

lemma guard_owner_control [simp]:
  "guard_owner (guard_transfer_control device lease g) = Some device"
  "guard_owner (guard_revoke_control g) = None"
  by (simp_all add: guard_owner_def guard_transfer_control_def policy_transfer_control_def guard_revoke_control_def policy_revoke_control_def)

lemma record_result_policy [simp]: "gg_policy (record_result result g) = gg_policy g"
  by (simp add: record_result_def split: option.split)

lemma admit_policy [simp]: "gg_policy (fst (admit digest device command g)) = gg_policy g"
  by (auto simp: admit_def Let_def make_room_def insert_command_def result_simps split: sum.splits option.splits if_splits)

text \<open>A commit installs its candidate with the control that belongs to it, or leaves everything as it was.\<close>

lemma commit_registry_ok:
  assumes "commit_registry env random candidate renew st = Inr st'"
  shows "sg_registry st' = candidate" "guard_owner (sg_command_guard st') = controller_device_id candidate"
    "trust_save env candidate = Inr (the (sg_store st'))" "sg_installation_id st' = sg_installation_id st"
    "sg_certificate_fingerprint_sha256 st' = sg_certificate_fingerprint_sha256 st"
proof -
  from assms obtain lease bytes where
    lease: "(if (guard_owner (sg_command_guard st) \<noteq> controller_device_id candidate \<or> renew) \<and> controller_device_id candidate \<noteq> None
        then map_err NetIdentity (and_then random (\<lambda>l. Inr (Some l))) else Inr None) = Inr lease"
    and save: "trust_save env candidate = Inr bytes"
    and st': "st' = st\<lparr>sg_registry := candidate,
      sg_command_guard := (if guard_owner (sg_command_guard st) \<noteq> controller_device_id candidate \<or> renew then
         (case (controller_device_id candidate, lease) of
            (Some o', Some l) \<Rightarrow> guard_transfer_control o' l (sg_command_guard st)
          | _ \<Rightarrow> guard_revoke_control (sg_command_guard st))
       else sg_command_guard st), sg_store := Some bytes\<rparr>"
    unfolding commit_registry_def Let_def and_then_eq_Inr map_err_eq by fastforce
  show "sg_registry st' = candidate" "trust_save env candidate = Inr (the (sg_store st'))"
    "sg_installation_id st' = sg_installation_id st" "sg_certificate_fingerprint_sha256 st' = sg_certificate_fingerprint_sha256 st"
    using save by (simp_all add: st')
  show "guard_owner (sg_command_guard st') = controller_device_id candidate"
    using lease by (auto simp: st' result_simps split: option.splits if_splits)
qed

lemma commit_shared_ok:
  "commit_registry env random candidate renew st = Inr st' \<Longrightarrow> registry_ok candidate \<Longrightarrow> shared_ok st'"
  by (simp add: shared_ok_def commit_registry_ok(1,2))

lemma version_public: "validate_version version = Inr () \<Longrightarrow> (case version of None \<Rightarrow> True | Some v \<Rightarrow> public_identifier 64 v)"
  by (auto simp: validate_version_def auth_validate_identifier_def public_identifier_def split: option.splits if_splits)

lemma greet_candidate_ok:
  assumes "hello_validate hello = Inr ()" "greet_candidate hash hello now r = Inr (c, device, paired)" "registry_ok r"
  shows "registry_ok c"
proof (cases hello)
  case (HelloAuthenticate d credential version)
  with assms(1,2) obtain r1 where "registry_authenticate hash d credential now r = Inr r1" "c = set_client_version d version r1"
    and version: "validate_version version = Inr ()"
    by (auto simp: result_simps)
  with assms(3) registry_ok_authenticate version_public [OF version] show ?thesis by (auto simp: registry_ok_version)
next
  case (HelloPair i secret d name credential version)
  with assms(1,2) obtain r1 p where "exchange hash i secret d name credential now r = Inr (r1, p)" "c = set_client_version d version r1"
    and version: "validate_version version = Inr ()"
    by (auto simp: result_simps)
  with assms(3) registry_ok_exchange version_public [OF version] show ?thesis by (metis registry_ok_version)
qed

lemma shared_authenticate_ok:
  "shared_authenticate hash env random hello now st = Inr (st', device, response) \<Longrightarrow> shared_ok st \<Longrightarrow> shared_ok st'"
  by (auto simp: shared_authenticate_def result_simps Let_def shared_ok_def [of st]
      intro: commit_shared_ok greet_candidate_ok)

lemma notify_ok [simp]: "shared_ok (notify_trust_changed st) = shared_ok st"
  by (simp add: shared_ok_def notify_trust_changed_def)

lemma previous_ok: "registry_ok r \<Longrightarrow> (case controller_device_id r of None \<Rightarrow> True | Some v \<Rightarrow> public_identifier 128 v)"
  using find_controller_ok by (auto simp: registry_ok_def split: option.split)

lemma reasons_ok: "public_identifier 64 ''controllerRevoked''" "public_identifier 64 ''macTransfer''"
  by (simp_all add: public_identifier_def has_control_def is_continuation_def code_of_def)

lemma admin_revoke_ok: "admin_revoke env random now device st = Inr st' \<Longrightarrow> shared_ok st \<Longrightarrow> shared_ok st'"
proof -
  assume *: "admin_revoke env random now device st = Inr st'" and ok: "shared_ok st"
  let ?r = "sg_registry st"
  let ?c = "if controller_device_id ?r = Some device
    then record_controller_change (controller_device_id ?r) ''controllerRevoked'' now (fst (revoke device ?r)) else fst (revoke device ?r)"
  have "registry_ok ?r" using ok by (simp add: shared_ok_def)
  then have c: "registry_ok ?c"
    using registry_ok_revoke [of ?r device] previous_ok [of ?r] by (auto simp: registry_ok_change reasons_ok)
  from * obtain st1 where "commit_registry env random ?c False st = Inr st1" "st' = notify_trust_changed st1"
    by (auto simp: admin_revoke_def Let_def split: prod.splits if_splits sum.splits)
  with commit_shared_ok [OF _ c] show ?thesis by simp
qed

lemma admin_transfer_ok: "admin_transfer env random now device st = Inr st' \<Longrightarrow> shared_ok st \<Longrightarrow> shared_ok st'"
proof -
  assume *: "admin_transfer env random now device st = Inr st'" and ok: "shared_ok st"
  let ?r = "sg_registry st"
  from * obtain c st1 where c: "set_controller device ?r = Inr c"
    and st1: "commit_registry env random (record_controller_change (controller_device_id ?r) ''macTransfer'' now c) True st = Inr st1"
    "st' = notify_trust_changed st1"
    by (auto simp: admin_transfer_def Let_def split: sum.splits)
  have "registry_ok (record_controller_change (controller_device_id ?r) ''macTransfer'' now c)"
    using ok c registry_ok_controller previous_ok [of ?r] by (intro registry_ok_change) (auto simp: shared_ok_def reasons_ok)
  with commit_shared_ok [OF st1(1)] st1(2) show ?thesis by simp
qed

lemma controller_pending [simp]: "controller_device_id (r\<lparr>pg_pending := p\<rparr>) = controller_device_id r"
  by (simp add: controller_device_id_def)

lemma admin_outcome_ok: "admin_outcome hash env random now request st = Inr (st', i) \<Longrightarrow> shared_ok st \<Longrightarrow> shared_ok st'"
proof (cases request)
  case AdminCreateInvitation
  assume *: "admin_outcome hash env random now request st = Inr (st', i)" and ok: "shared_ok st"
  from * AdminCreateInvitation obtain q r where r: "create_invitation hash q (sg_registry st) = Inr r" and st': "st' = st\<lparr>sg_registry := r\<rparr>"
    by (auto simp: admin_create_invitation_def result_simps Let_def)
  from r have "controller_device_id r = controller_device_id (sg_registry st)"
    by (auto simp: create_invitation_def result_simps split: if_splits)
  with ok r st' registry_ok_invitation show ?thesis by (auto simp: shared_ok_def)
next
  case (AdminApproveInvitation invitation code)
  assume *: "admin_outcome hash env random now request st = Inr (st', i)" and ok: "shared_ok st"
  from * AdminApproveInvitation obtain r where r: "approve invitation code (sg_registry st) = Inr r" and st': "st' = st\<lparr>sg_registry := r\<rparr>"
    by (auto simp: result_simps)
  from r have "controller_device_id r = controller_device_id (sg_registry st)" by (auto simp: approve_def result_simps split: if_splits)
  with ok r st' registry_ok_approve show ?thesis by (auto simp: shared_ok_def)
qed (auto simp: result_simps intro: admin_revoke_ok admin_transfer_ok)

text \<open>
  What one connection, the administration or the relay may do to the shared state; payloads are JSON text here.
\<close>

inductive gateway_step :: "(string \<Rightarrow> string) \<Rightarrow> (string \<Rightarrow> string) \<Rightarrow> SharedGatewayState \<Rightarrow> SharedGatewayState \<Rightarrow> bool"
  for hash digest where
  greeted: "shared_authenticate hash env random hello now st = Inr (st', device, response) \<Longrightarrow> gateway_step hash digest st st'"
| administered: "admin_outcome hash env random now request st = Inr (st', i) \<Longrightarrow> gateway_step hash digest st st'"
| commanded: "session_command digest write (js :: string SessionJson) latest submitted now frame st cs = (st', step, forwarded) \<Longrightarrow> gateway_step hash digest st st'"
| answered: "gateway_step hash digest st (st\<lparr>sg_command_guard := record_result result (sg_command_guard st)\<rparr>)"

inductive gateway_reachable :: "(string \<Rightarrow> string) \<Rightarrow> (string \<Rightarrow> string) \<Rightarrow> SharedGatewayState \<Rightarrow> bool"
  for hash digest where
  loaded: "shared_load installation fingerprint store (Inr r) lease = Inr st \<Longrightarrow> registry_ok r \<Longrightarrow> gateway_reachable hash digest st"
| stepped: "gateway_reachable hash digest st \<Longrightarrow> gateway_step hash digest st st' \<Longrightarrow> gateway_reachable hash digest st'"

lemma admit_policyD: "admit digest device command g = (g', a) \<Longrightarrow> gg_policy g' = gg_policy g"
  using admit_policy [of digest device command g] by simp

lemma session_command_shared:
  assumes "session_command digest write js latest submitted now frame st cs = (st', step, forwarded)"
  shows "sg_registry st' = sg_registry st" "gg_policy (sg_command_guard st') = gg_policy (sg_command_guard st)"
  using assms
  by (auto simp: session_command_def Let_def dest!: admit_policyD
      split: if_splits sum.splits prod.splits CommandAdmission.splits option.splits)

lemma shared_load_ok: "shared_load installation fingerprint store (Inr r) lease = Inr st \<Longrightarrow> registry_ok r \<Longrightarrow> shared_ok st"
proof -
  assume *: "shared_load installation fingerprint store (Inr r) lease = Inr st" and ok: "registry_ok r"
  then obtain g where g: "guard_new DEFAULT_COMMAND_LEDGER_CAPACITY = Inr g" and st: "sg_registry st = r"
    "case controller_device_id r of None \<Rightarrow> sg_command_guard st = g | Some d \<Rightarrow> \<exists>l. sg_command_guard st = guard_transfer_control d l g"
    by (cases "controller_device_id r") (fastforce simp: shared_load_def result_simps)+
  from g have "guard_owner g = None" by (auto simp: guard_new_def guard_owner_def split: if_splits)
  with st ok show ?thesis by (auto simp: shared_ok_def split: option.splits)
qed

lemma gateway_reachable_ok: "gateway_reachable hash digest st \<Longrightarrow> shared_ok st"
proof (induction rule: gateway_reachable.induct)
  case (loaded installation fingerprint store r lease st)
  then show ?case by (rule shared_load_ok)
next
  case (stepped st st')
  from stepped(2) show ?case
  proof (cases rule: gateway_step.cases)
    case greeted
    with stepped(3) show ?thesis by (blast intro: shared_authenticate_ok)
  next
    case administered
    with stepped(3) show ?thesis by (blast intro: admin_outcome_ok)
  next
    case commanded
    with session_command_shared [OF commanded] stepped(3) show ?thesis by (simp add: shared_ok_def guard_owner_def)
  next
    case answered
    with stepped(3) show ?thesis by (simp add: shared_ok_def guard_owner_def)
  qed
qed

text \<open>A command is forwarded only when it was admitted, and it mutates.\<close>

lemma forwarded_admitted:
  assumes "session_command digest write js latest submitted now frame st cs = (st', step, Some forwarded)"
  obtains command g where "sj_command_from js (rf_payload frame) = Inr command" "is_mutating command"
    "admit digest (cs_device_id cs) command (sg_command_guard st) = (g, Inr AdmissionAccepted)"
    "forwarded = forwarded_command digest (cs_device_id cs) command"
  using assms
  by (auto simp: session_command_def Let_def is_mutating_def split: if_splits sum.splits prod.splits CommandAdmission.splits option.splits)

lemma admitted_controller:
  "admit digest device command g = (g', Inr AdmissionAccepted) \<Longrightarrow> is_mutating command \<Longrightarrow> guard_owner g = Some device"
  using authorize_mutating [of command "gg_policy g" device]
  by (auto simp: admit_def guard_owner_def split: sum.splits)

lemma controller_contained:
  assumes "registry_ok r" "controller_device_id r = Some device"
  shows "contains_device r device"
proof -
  from assms(2) obtain d where "find dv_controller (map snd (pg_devices r)) = Some d" "device = dv_device_id d"
    by (auto simp: controller_device_id_def)
  then obtain k where "(k, d) \<in> set (pg_devices r)" by (auto dest!: find_SomeD)
  moreover from this assms(1) \<open>device = _\<close> have "k = device" by (auto simp: registry_ok_def list_all_iff device_ok_def)
  ultimately show ?thesis by (auto simp: contains_device_def map_of_eq_None_iff rev_image_eqI)
qed

text \<open>
  C11. Whatever devices greet, pair and command, and whatever the administration revokes and transfers, with
  or without failures of the disk: a connection forwards a command to the engine only for a device that
  the registry holds as paired and names as the controller.
\<close>

theorem commands_only_from_controller:
  assumes "gateway_reachable hash digest st"
    "session_command digest write js latest submitted now frame st cs = (st', step, Some forwarded)"
  shows "controller_device_id (sg_registry st) = Some (cs_device_id cs) \<and> contains_device (sg_registry st) (cs_device_id cs)"
proof -
  have ok: "registry_ok (sg_registry st)" "guard_owner (sg_command_guard st) = controller_device_id (sg_registry st)"
    using gateway_reachable_ok [OF assms(1)] by (simp_all add: shared_ok_def)
  from assms(2) have "guard_owner (sg_command_guard st) = Some (cs_device_id cs)"
    by (rule forwarded_admitted) (rule admitted_controller)
  with ok controller_contained [OF ok(1)] show ?thesis by simp
qed

definition demo_session_json :: "string SessionJson" where
  "demo_session_json = \<lparr>sj_result_from = (\<lambda>_. Inl ''unused''), sj_result_to = (\<lambda>_. Inr ''r''),
     sj_projection_from = (\<lambda>_. Inl ''unused''), sj_projection_to = (\<lambda>_. Inr ''p''),
     sj_command_from = (\<lambda>_. Inr demo_command), sj_command_to = (\<lambda>_. Inr ''c''), sj_hello_to = (\<lambda>_. Inr ''h''), sj_error = (\<lambda>r. r)\<rparr>"

definition demo_command_frame :: "string RemoteFrame" where
  "demo_command_frame = \<lparr>rf_protocol_version = 1, rf_frame_kind = FrameCommand, rf_sequence = 1, rf_correlation_id = None, rf_payload = ''c''\<rparr>"

definition demo_session :: ClientSession where
  "demo_session = \<lparr>cs_device_id = ''d'', cs_delivery_sequence = 3, cs_last_projection_revision = 0\<rparr>"

definition demo_shared :: SharedGatewayState where
  "demo_shared = \<lparr>sg_registry = demo_paired, sg_command_guard = guard_transfer_control ''d'' ''l'' (demo_guard\<lparr>gg_capacity := 1024\<rparr>),
     sg_store = None, sg_installation_id = ''m'', sg_certificate_fingerprint_sha256 = ''f'', sg_trust_revision = 0,
     sg_command_limiter = \<lparr>rl_maximum_attempts = 32, rl_window_millis = 1000, rl_attempts = []\<rparr>\<rparr>"

lemma demo_shared_loaded: "shared_load ''m'' ''f'' None (Inr demo_paired) (Inr ''l'') = Inr demo_shared"
  by (simp add: shared_load_def guard_new_def DEFAULT_COMMAND_LEDGER_CAPACITY_def demo_shared_def demo_guard_def limiter_new_def
      controller_device_id_def demo_paired_def demo_device_def)

lemma demo_forwarded:
  "\<exists>st' step. session_command (\<lambda>s. s) (\<lambda>_. Inr ()) demo_session_json None (\<lambda>_. Inr ()) 5 demo_command_frame demo_shared demo_session
     = (st', step, Some (forwarded_command (\<lambda>s. s) ''d'' demo_command))"
proof -
  have "limiter_record ''d'' 5 (sg_command_limiter demo_shared)
      = (\<lparr>rl_maximum_attempts = 32, rl_window_millis = 1000, rl_attempts = [(''d'', [5])]\<rparr>, Inr ())"
    by (simp add: demo_shared_def limiter_record_def limiter_check_def state_then_def prune_def btree_values_def
        has_control_def is_continuation_def code_of_def)
  moreover obtain g where "admit (\<lambda>s. s) ''d'' demo_command (sg_command_guard demo_shared) = (g, Inr AdmissionAccepted)"
  proof -
    let ?g = "sg_command_guard demo_shared"
    have "authorize (gg_policy ?g) ''d'' demo_command = Inr ()"
      using authorize_mutating [OF demo_command_valid(2)] demo_command_valid(1)
      by (simp add: demo_shared_def guard_transfer_control_def policy_transfer_control_def demo_command_def)
    moreover have "gg_accepted ?g = Map.empty" "make_room (\<lambda>s. s) ?g = Inr ?g"
      by (simp_all add: demo_shared_def guard_transfer_control_def demo_guard_def make_room_def)
    ultimately have "snd (admit (\<lambda>s. s) ''d'' demo_command ?g) = Inr AdmissionAccepted"
      using demo_command_valid(2) by (simp add: admit_def)
    with that show thesis by (metis prod.collapse)
  qed
  ultimately show ?thesis using demo_command_valid
    by (simp add: session_command_def demo_command_frame_def demo_session_json_def demo_session_def Let_def is_mutating_def)
qed

theorem commands_only_from_controller_witness: "controller_device_id (sg_registry demo_shared) = Some ''d''"
proof -
  have "gateway_reachable (\<lambda>s. s) (\<lambda>s. s) demo_shared"
    by (rule gateway_reachable.loaded [OF demo_shared_loaded registry_invariant_ok_demo])
  moreover obtain st' step where "session_command (\<lambda>s. s) (\<lambda>_. Inr ()) demo_session_json None (\<lambda>_. Inr ()) 5 demo_command_frame
      demo_shared demo_session = (st', step, Some (forwarded_command (\<lambda>s. s) ''d'' demo_command))"
    using demo_forwarded by blast
  ultimately have "controller_device_id (sg_registry demo_shared) = Some (cs_device_id demo_session)
      \<and> contains_device (sg_registry demo_shared) (cs_device_id demo_session)"
    by (rule commands_only_from_controller)
  then show ?thesis by (simp add: demo_session_def)
qed

section \<open>The trust store keeps the registry\<close>

text \<open>JSON that was written reads back, as \<open>serde_json\<close> documents for derived serialisation.\<close>

definition store_reads_back :: "SaveEnvironment \<Rightarrow> (string \<Rightarrow> string + TrustStoreFile) \<Rightarrow> bool" where
  "store_reads_back env from_slice \<longleftrightarrow> (\<forall>file bytes. se_to_vec env file = Inr bytes \<longrightarrow> from_slice bytes = Inr file)"

lemma trust_save_bytes:
  assumes "trust_save env r = Inr bytes"
  shows "se_to_vec env (TRUST_STORE_VERSION, registry_snapshot r) = Inr bytes" "length bytes \<le> MAXIMUM_TRUST_STORE_BYTES"
  using assms by (auto simp: trust_save_def result_simps split: if_splits)

text \<open>
  C25. A trust store that was saved from a registry is loaded as that registry without its open
  invitation, when every device has a pairing time that is not zero and was last seen no earlier than
  it was paired; otherwise loading refuses it, although saving it succeeded.
\<close>

theorem trust_store_roundtrip:
  assumes "registry_ok r" "trust_save env r = Inr bytes" "store_reads_back env from_slice"
    "fm_is_file m" "\<not> fm_is_symlink m" "\<not> exposed m" "fm_len m = length bytes"
  shows "trust_load True (Inr m) (Inr bytes) from_slice =
    (if list_all (\<lambda>(k, d). dv_paired_at_unix_millis d \<noteq> 0 \<and> dv_paired_at_unix_millis d \<le> dv_last_seen_unix_millis d) (pg_devices r)
     then Inr (r\<lparr>pg_pending := []\<rparr>) else Inl (InvalidRegistry InvalidPersistedDevice))"
proof -
  have "from_slice bytes = Inr (TRUST_STORE_VERSION, registry_snapshot r)"
    using assms(3) trust_save_bytes(1) [OF assms(2)] by (auto simp: store_reads_back_def)
  with assms trust_save_bytes(2) [OF assms(2)] snapshot_restored [OF assms(1)] show ?thesis by (simp add: trust_load_def)
qed

text \<open>The clock goes back between pairing and the next greeting.\<close>

definition demo_environment :: SaveEnvironment where
  "demo_environment = \<lparr>se_has_parent = True, se_has_file_name = True,
     se_parent = \<lparr>fm_is_file = False, fm_is_dir = True, fm_is_symlink = False, fm_mode = 448, fm_len = 0\<rparr>,
     se_failure = (\<lambda>_. None),
     se_to_vec = (\<lambda>file. if file = (1, registry_snapshot (demo_paired\<lparr>pg_devices := [(''d'', demo_device\<lparr>dv_last_seen_unix_millis := 149\<rparr>)]\<rparr>))
       then Inr ''j'' else Inl ''unsupported'')\<rparr>"

theorem trust_store_roundtrip_witness:
  "\<exists>r. registry_authenticate (\<lambda>s. s) ''d'' demo_secret 149 demo_paired = Inr r
     \<and> trust_save demo_environment r = Inr ''j''
     \<and> trust_load True (Inr \<lparr>fm_is_file = True, fm_is_dir = False, fm_is_symlink = False, fm_mode = 384, fm_len = 1\<rparr>) (Inr ''j'')
         (\<lambda>_. Inr (1, registry_snapshot r)) = Inl (InvalidRegistry InvalidPersistedDevice)"
proof -
  define r where "r = demo_paired\<lparr>pg_devices := [(''d'', demo_device\<lparr>dv_last_seen_unix_millis := 149\<rparr>)]\<rparr>"
  have auth: "registry_authenticate (\<lambda>s. s) ''d'' demo_secret 149 demo_paired = Inr r"
    by (simp add: registry_authenticate_def demo_paired_def demo_device_def r_def btree_adjust_def)
  have save: "trust_save demo_environment r = Inr ''j''"
    by (simp add: trust_save_def demo_environment_def save_step_def exposed_def MAXIMUM_TRUST_STORE_BYTES_def TRUST_STORE_VERSION_def r_def)
  have reads: "store_reads_back demo_environment (\<lambda>_. Inr (1, registry_snapshot r))"
    by (auto simp: store_reads_back_def demo_environment_def r_def split: if_splits)
  have "registry_ok r" using registry_ok_authenticate [OF auth registry_invariant_ok_demo] .
  from trust_store_roundtrip [OF this save reads, of "\<lparr>fm_is_file = True, fm_is_dir = False, fm_is_symlink = False, fm_mode = 384, fm_len = 1\<rparr>"]
  have "trust_load True (Inr \<lparr>fm_is_file = True, fm_is_dir = False, fm_is_symlink = False, fm_mode = 384, fm_len = 1\<rparr>) (Inr ''j'')
      (\<lambda>_. Inr (1, registry_snapshot r)) = Inl (InvalidRegistry InvalidPersistedDevice)"
    by (simp add: exposed_def r_def demo_paired_def demo_device_def word_le_nat_alt)
  with auth save show ?thesis by blast
qed

section \<open>What a client is sent\<close>

text \<open>A step writes nothing, or one frame with the next number.\<close>

definition numbered_step :: "ClientSession \<Rightarrow> 'v session_step \<Rightarrow> bool" where
  "numbered_step cs step = (case step of (cs', out, r) \<Rightarrow>
     cs_device_id cs' = cs_device_id cs
     \<and> (out = [] \<and> cs_delivery_sequence cs' = cs_delivery_sequence cs
        \<or> (\<exists>frame. out = [frame] \<and> rf_sequence frame = cs_delivery_sequence cs
             \<and> cs_delivery_sequence cs' = saturating_add (cs_delivery_sequence cs) 1)))"

lemma deliver_numbered: "numbered_step cs (deliver write payload kind correlation cs)"
  by (simp add: numbered_step_def deliver_def Let_def split: sum.split)

lemma numbered_revision [simp]: "numbered_step (cs\<lparr>cs_last_projection_revision := n\<rparr>) step = numbered_step cs step"
  by (simp add: numbered_step_def)

lemma write_numbered:
  "numbered_step cs (write_projection write js p cs)" "numbered_step cs (write_error write js reason cs)"
  "numbered_step cs (write_command_result write js result cs)"
  by (simp_all add: write_projection_def write_error_def write_command_result_def deliver_numbered)

lemma write_projection_numbered: "numbered_step cs (write_projection write js p (cs\<lparr>cs_last_projection_revision := n\<rparr>))"
  using write_numbered(1) [of "cs\<lparr>cs_last_projection_revision := n\<rparr>"] by simp

lemma quiet_numbered [simp]: "numbered_step cs (cs, [], r)"
  by (simp add: numbered_step_def)

lemma session_update_numbered: "numbered_step cs (session_update write js guard frame cs)"
  by (auto simp: session_update_def Let_def numbered_step_def split: sum.splits option.splits if_splits)

lemma numbered_result: "numbered_step cs (cs', out, r) \<Longrightarrow> numbered_step cs (cs', out, r')"
  by (simp add: numbered_step_def)

lemma result_written: "write_command_result write js result cs = (cs', out, r) \<Longrightarrow> numbered_step cs (cs', out, r')"
  using write_numbered(3) numbered_result by metis

lemma session_command_numbered:
  "numbered_step cs (fst (snd (session_command digest write js latest submitted now frame st cs)))"
  using write_numbered(3) [of cs "write" js]
  by (auto simp: session_command_def Let_def write_projection_numbered
      split: sum.split prod.split CommandAdmission.split option.split intro: result_written)

text \<open>Steps of one connection while it goes on: frames of the engine, and frames of the client.\<close>

datatype 'v session_event = EngineSent GatewayCommandGuard "'v RemoteFrame"
  | ClientSent "RemoteLiveProjection option" "RemoteCommand \<Rightarrow> GatewayNetworkError + unit" u64 "'v RemoteFrame" SharedGatewayState

fun session_event_step ::
  "(string \<Rightarrow> string) \<Rightarrow> ('v RemoteFrame \<Rightarrow> GatewayNetworkError + unit) \<Rightarrow> 'v SessionJson \<Rightarrow> 'v session_event \<Rightarrow> ClientSession \<Rightarrow> 'v session_step" where
  "session_event_step digest write js (EngineSent guard frame) cs = session_update write js guard frame cs"
| "session_event_step digest write js (ClientSent latest submitted now frame st) cs =
     fst (snd (session_command digest write js latest submitted now frame st cs))"

fun session_run ::
  "(string \<Rightarrow> string) \<Rightarrow> ('v RemoteFrame \<Rightarrow> GatewayNetworkError + unit) \<Rightarrow> 'v SessionJson \<Rightarrow> 'v session_event list \<Rightarrow> ClientSession
     \<Rightarrow> 'v RemoteFrame list" where
  "session_run digest write js [] cs = []"
| "session_run digest write js (e # es) cs =
     (case session_event_step digest write js e cs of
        (cs', out, Inl _) \<Rightarrow> out
      | (cs', out, Inr _) \<Rightarrow> out @ session_run digest write js es cs')"

lemma session_event_numbered: "numbered_step cs (session_event_step digest write js e cs)"
  by (cases e) (simp_all add: session_update_numbered session_command_numbered)

lemma session_run_numbered:
  "unat (cs_delivery_sequence cs) + length (session_run digest write js es cs) < 2 ^ 64 \<Longrightarrow>
   map (\<lambda>frame. unat (rf_sequence frame)) (session_run digest write js es cs)
     = [unat (cs_delivery_sequence cs) ..< unat (cs_delivery_sequence cs) + length (session_run digest write js es cs)]"
proof (induction es arbitrary: cs)
  case (Cons e es)
  obtain cs' out r where step: "session_event_step digest write js e cs = (cs', out, r)" by (metis prod_cases3)
  have num: "numbered_step cs (cs', out, r)" using session_event_numbered [of cs digest "write" js e] step by simp
  define rest where "rest = (if is_ok r then session_run digest write js es cs' else [])"
  have run: "session_run digest write js (e # es) cs = out @ rest"
    by (cases r) (simp_all add: step rest_def)
  have IH: "map (\<lambda>frame. unat (rf_sequence frame)) rest
      = [unat (cs_delivery_sequence cs') ..< unat (cs_delivery_sequence cs') + length rest]"
    if "unat (cs_delivery_sequence cs') + length rest < 2 ^ 64"
    using Cons.IH [of cs'] that by (auto simp: rest_def)
  from num consider "out = []" "cs_delivery_sequence cs' = cs_delivery_sequence cs"
    | frame where "out = [frame]" "rf_sequence frame = cs_delivery_sequence cs"
        "cs_delivery_sequence cs' = saturating_add (cs_delivery_sequence cs) 1"
    by (auto simp: numbered_step_def)
  then show ?case
  proof cases
    case 1
    with IH Cons.prems run show ?thesis by simp
  next
    case 2
    with Cons.prems run have bound: "unat (cs_delivery_sequence cs) + Suc (length rest) < 2 ^ 64" by simp
    then have "unat (cs_delivery_sequence cs') = Suc (unat (cs_delivery_sequence cs))"
      using 2(3) by (simp add: unat_saturating_add)
    with IH bound run 2 show ?thesis by (simp add: upt_conv_Cons del: upt_Suc)
  qed
qed simp

text \<open>
  A client is told the result of a command only under the name it gave the command itself, and only
  when the command was its own: a result frame reaches a device only if the command with that
  forwarded identifier came from this device, and it carries the recorded outcome.
\<close>

theorem results_only_to_sender:
  assumes "guard_ok digest keys guard" "session_update write js guard frame cs = (cs', out, r)"
    "rf_frame_kind frame = FrameCommandResult" "sent \<in> set out"
  shows "\<exists>key outcome own. gg_accepted guard key = Some outcome \<and> co_result outcome = Some own
    \<and> fst key = cs_device_id cs \<and> rr_command_id own = rc_command_id (co_command outcome)
    \<and> rf_correlation_id sent = Some (rc_command_id (co_command outcome)) \<and> sj_result_to js own = Inr (rf_payload sent)"
proof -
  from assms(2-4) obtain result where result: "sj_result_from js (rf_payload frame) = Inr result"
    by (cases "sj_result_from js (rf_payload frame)") (simp_all add: session_update_def)
  with assms(2-4) obtain own where own: "result_for_device guard (cs_device_id cs) (rr_command_id result) = Some own"
    by (cases "result_for_device guard (cs_device_id cs) (rr_command_id result)") (simp_all add: session_update_def)
  with result assms(2-4) obtain v where v: "sj_result_to js own = Inr v"
    by (cases "sj_result_to js own") (simp_all add: session_update_def)
  with own result assms(2-4) have sent: "rf_correlation_id sent = Some (rr_command_id own)" "sj_result_to js own = Inr (rf_payload sent)"
    by (auto simp: session_update_def Let_def split: sum.splits)
  from own obtain key outcome where key: "gg_accepted guard key = Some outcome" "co_result outcome = Some own" "fst key = cs_device_id cs"
    by (auto simp: result_for_device_def bind_eq_Some_conv split: if_splits)
  from guard_okD(2) [OF assms(1) key(1)] key(2) have "rr_command_id own = rc_command_id (co_command outcome)"
    by (auto simp: entry_ok_def command_key_def) (metis snd_conv)
  with key sent show ?thesis by (intro exI [of _ key] exI [of _ outcome] exI [of _ own]) simp
qed

end
