(* ===== verification/Spec2Isabelle.thy ===== *)
theory Spec2Isabelle
  imports Serialized_Runtime Reducer_Recovery Planner_Edits Timeline_Edits Launch_Gate Command_Cache
    Cue_Executor Track_Workflow Reconciliation Autoloop_Catalog Light_Plans
    Midi_Lane Midi_Clock Live_Observations Simulator Bounded_Lines Remote_Session
begin

text \<open>
  Lumi turns what DJ decks report into light. Deck sources (a network link to players, local
  playback, a simulator) observe tracks, beats and phrases; the engine reduces these events
  into one runtime state, a planner makes a lighting plan for every loaded track, and when the
  show is live the cue of the phrase that the leading deck plays is sent to an output. The
  track library keeps the phrases of a track as an editable, revisioned timeline. The Rust
  crates under \<open>src/engine/crates\<close> hold this logic; applications in Swift and a bridge in
  Java are clients of the engine.

  \<^bold>\<open>What is modelled.\<close> Each theory models the file it names, in the order of its code; a
  struct is a record, an enum a datatype, an unsigned integer a word of its width, a
  \<open>Result\<close> a sum with the error on the left, a map a partial function, a \<open>Vec\<close> a list, a
  \<open>String\<close> its UTF-8 bytes. A method that mutates \<open>self\<close> returns the changed record.

    \<^item> \<open>Lumi_Prelude\<close>: results, checked and saturating arithmetic, blank strings, vectors; the
      interfaces \<open>bounded_history\<close> (a history that drops its oldest entry), \<open>beat_partition\<close>
      (a container that divides the beats of a track) and \<open>invariant_machine\<close> with its
      extension \<open>event_machine\<close> (a fallible step function and its invariant).
    \<^item> \<open>Track\<close>, \<open>Plan\<close>, \<open>Events\<close>, \<open>Runtime_State\<close>, \<open>Reducer\<close>: the crate \<open>lumi-domain\<close>
      (\<open>identifiers.rs\<close>, \<open>time.rs\<close>, \<open>track.rs\<close>, \<open>plan.rs\<close>, \<open>event.rs\<close>, \<open>output.rs\<close>,
      \<open>timeline.rs\<close>, \<open>state.rs\<close>, \<open>reducer.rs\<close>). \<open>reduce\<close> is the reducer; every arm of the
      code is a definition.
    \<^item> \<open>Event_Queue\<close> and \<open>Serialized_Runtime\<close>: \<open>queue.rs\<close> and \<open>runtime.rs\<close> of the same crate,
      the bounded ingress queue behind the interface \<open>ingress_queue\<close>, and the runtime that
      submits and processes one event at a time, as a step relation.
    \<^item> \<open>Planner\<close> and \<open>Planner_Edits\<close>: \<open>planner.rs\<close> of \<open>lumi-planner\<close>: configurations, the
      stable hash and choice, Theme selection, generation, and the edits of a plan. The trait
      \<open>ChoiceSource\<close> is the interface \<open>choice_source\<close>; every edit is an instance of
      \<open>plan_edit\<close>.
    \<^item> \<open>Phrase_Timeline\<close>, \<open>Library_Baseline\<close>, \<open>Reconciliation\<close>, \<open>Phrase_Roles\<close>,
      \<open>Autoloop_Catalog\<close>, \<open>Track_Workflow\<close>: the crate \<open>lumi-library\<close> (\<open>timeline.rs\<close>, \<open>baseline.rs\<close>
      with parts of \<open>repository.rs\<close> and \<open>identifiers.rs\<close>, \<open>reconciliation.rs\<close>, \<open>phrase_roles.rs\<close>,
      \<open>autoloop_catalog.rs\<close>, \<open>workflow.rs\<close>). \<open>Rust_Text\<close> models the string functions they call and
      \<open>Catalogue_Base\<close> the interface \<open>revisioned\<close> of values that edits replace by their next revision.
    \<^item> \<open>Light_Plans\<close>: \<open>lumi-light-plans\<close>, the compiler of light plans and its history.
    \<^item> \<open>Cue_Executor\<close>: \<open>autoloop_executor.rs\<close> of \<open>lumi-engine\<close> and the part of the output worker in
      \<open>session.rs\<close> that drives it.
    \<^item> \<open>Launch_Gate\<close>: \<open>launch_policy.rs\<close> of \<open>lumi-engine\<close>. \<open>Command_Cache\<close>: \<open>idempotency.rs\<close>
      of \<open>lumi-protocol\<close>. The planning request of \<open>session.rs\<close> is in this theory.
    \<^item> \<open>Midi_Output\<close>, \<open>Midi_Lane\<close>, \<open>Midi_Clock\<close>: \<open>lib.rs\<close> of \<open>lumi-midi-output\<close>: addresses, messages and the
      controller of a source; the realtime worker with its bounded command queue, deadlines and
      generations; the clock worker with its transport. A worker is a step function over the
      calls of its clients, the commands it receives and the timeouts of its channel.
    \<^item> \<open>Prolink_Bridge\<close>, \<open>Prolink_Ingress\<close>, \<open>Prolink_Provider\<close>: \<open>lib.rs\<close>, \<open>supervisor.rs\<close> and \<open>provider.rs\<close> of
      \<open>lumi-prolink-input\<close>: the messages of the bridge to the players and their decoder, the
      coalescing queue between the bridge and the engine, and the deck source that turns
      messages into observations and timing observations. \<open>Rust_Float\<close> models \<open>f64\<close> by rationals with
      the rounding of IEEE 754 to nearest, ties to even.
    \<^item> \<open>Local_Playback\<close>: \<open>lumi-local-playback\<close>, the deck source of the tracks the application plays. \<open>Simulator\<close>: \<open>provider.rs\<close>,
      \<open>clock.rs\<close>, \<open>fixture.rs\<close> and \<open>transcript.rs\<close> of \<open>lumi-simulator\<close>; its clock is a field of its state. \<open>Observation_Log\<close>
      holds what all sources share, with the interface \<open>numbered_source\<close> of their method \<open>emit\<close>; \<open>Deck_View\<close> is an
      abstract specification of the decks, the replay of the observations.
    \<^item> \<open>Bounded_Lines\<close>: \<open>lumi-stream\<close>, the reader of lines with a limit. \<open>Remote_Protocol\<close> and
      \<open>Remote_Projection\<close>: \<open>lumi-remote-protocol\<close>, the frames, greetings and commands of remote controls and
      the projection of the engine they see. \<open>Remote_Gateway\<close> and \<open>Remote_Pairing\<close>: \<open>lib.rs\<close> of
      \<open>lumi-remote-gateway\<close>, the hub that buffers for each client, the guard that admits commands, the rate
      limiter and the registry of paired devices. \<open>Remote_Session\<close>: \<open>network.rs\<close>, \<open>admin.rs\<close>, \<open>trust_store.rs\<close> and
      \<open>engine_client.rs\<close> of the same crate, the state its connections share as a step relation.
      \<open>Ordered_Map\<close> models a \<open>BTreeMap\<close> that is iterated.

  \<^bold>\<open>What is shown.\<close>

    \<^item> \<open>Reducer_Invariants\<close> and \<open>Reducer_Safety\<close>: the invariant \<open>runtime_ok\<close> and its
      preservation by every event; a cue is only sent when the show is live, from the plan of
      the playing leader at its current phrase; no cue repeats without a seek; command numbers
      are consecutive; duplicates are ignored; stale commands are refused; the output gate.
      \<open>Reducer_Recovery\<close>: what a Start restores after a pause, and that it restores nothing
      after an overload; what a late hydration changes.
    \<^item> \<open>Event_Queue\<close> and \<open>Serialized_Runtime\<close>: critical events are neither lost nor reordered,
      the queue is bounded, an overload closes the output next, processing drains the queue.
    \<^item> \<open>Plan\<close>: the constructor accepts exactly the well-formed plans, and these have one cue at
      every beat.
    \<^item> \<open>Planner_Themes\<close> and \<open>Planner_Generation\<close>: the order and the fairness of the Theme
      policy, which configurations are sound, that a generated plan matches the analysis
      phrase by phrase, and the only ways in which generation fails. \<open>Planner_Edits\<close>: edits
      keep a plan well formed and number its revisions; the exact effect of each edit.
    \<^item> \<open>Timeline_Edits\<close>: a timeline is seen as a painting of the beats, and each editing command
      refines the painting of one range; undo gives the phrases back. \<open>Reconciliation\<close>: rebasing onto a
      new beat grid never fails and is exact when the preview shows no ambiguity; merging takes
      the chosen sides.
    \<^item> \<open>Phrase_Roles\<close> and \<open>Autoloop_Catalog\<close>: every sequence of edits keeps the catalogues well formed; the
      source mappings refine a finite map; resolution meets its specification and succeeds on
      complete catalogues. \<open>Library_Baseline\<close> and \<open>Track_Workflow\<close>: what the constructors accept.
    \<^item> \<open>Light_Plans\<close>: what a compiled plan may contain, its protection against repeats, its errors, when
      compilation returns and when it does not. \<open>Cue_Executor\<close>: no phrase is completed twice in
      an epoch that keeps to one deck, load and plan, and a cue that was not sent can be requested again.
    \<^item> \<open>Midi_Lane\<close>: no pulse is dispatched twice or after its cancellation, deadlines are kept, queue
      and schedule are bounded, and the source fails closed. \<open>Midi_Clock\<close>: the clock never hangs, the deadlines
      of a run lie on the grid of its last start and of the tempos since, and what it sends follows the transport protocol.
      \<open>Midi_Output\<close>: the addresses are distinct, song positions can be read back.
    \<^item> \<open>Prolink_Bridge\<close> and \<open>Prolink_Ingress\<close>: the accepted stream is gapless, critical messages are neither
      lost nor doubled, the queue is bounded. \<open>Prolink_Safety\<close>: observations are numbered without gaps, a
      playing deck is only moved back by an announced seek, precise positions need
      confirmation, beats are aligned within the bar. \<open>Live_Observations\<close>: the reducer never takes an
      observation of the players for an old one. \<open>Deck_View\<close>: the decks of the runtime are the replay of the
      observations. \<open>Local_Playback\<close>: they are the decks of the local source; the leader is lost when its deck is
      loaded again. \<open>Simulator\<close>: the beats follow the clock without drift, the decks stay within their tracks, a
      recorded track can be read as a fixture.
    \<^item> \<open>Bounded_Lines\<close>: lines do not depend on how the stream arrives. \<open>Remote_Protocol\<close>, \<open>Remote_Projection\<close>: what
      validation accepts, frames and waveform points read back, display text is bounded, a
      projection shows the content of its snapshot: at most two decks, each as one player with its own track, the
      leader among them, and nothing of untrusted media.
      \<open>Remote_Gateway\<close>: a client's frames are numbered and none of its projections is lost silently, buffers
      and ledger are bounded, a command is executed at most once and only with the lease.
      \<open>Remote_Pairing\<close>: the rate of attempts is limited, pairing needs a secret and an approval, at most
      one device controls. \<open>Remote_Session\<close>: control follows the registry through every failure, the trust
      store reads back, results reach only the device that asked.
    \<^item> This theory: generated and edited plans are what the reducer accepts.

  \<open>Scenario\<close> and the last sections of the theories evaluate the definitions on small concrete
  shows, plans and timelines.

  \<^bold>\<open>Bounds.\<close> There is no fuel. Every function is total, by structural recursion or a measure,
  except \<open>compile_light_plan\<close>: the compiler of light plans calls itself without a bound, so it is a
  partial function and \<open>None\<close> means that it does not return; \<open>compile_returns_spec\<close> says when it returns; and the loop
  \<open>skip_missed\<close> of the clock, which \<open>clock_never_stuck\<close> shows to return. An \<open>Instant\<close> and a \<open>Duration\<close> are natural numbers of nanoseconds. A \<open>usize\<close>
  is a natural number; where the code checks its bound (the sum of weights) the bound is
  written out, and \<open>catalog_bounded\<close> states that the lists of a configuration fit a \<open>Vec\<close>.
  Indexing out of range, which panics, is an error value of its own in the planner; it is
  proved not to occur with a lawful choice source. In the same way \<open>RebasePanic\<close> stands for a panic of
  \<open>rebase_phrases\<close>.

  \<^bold>\<open>Parameters.\<close> \<open>lower\<close> in \<open>Phrase_Roles\<close> is \<open>str::to_lowercase\<close>, whose Unicode tables are not
  modelled; no law of it is used. The answers of the output lane are an argument of \<open>drive_cue\<close>. The
  MIDI source of the operating system is the record \<open>MidiSourceProvider\<close> of its calls; the parser of
  JSON is the record \<open>Serde\<close>, and for the simulator its result \<open>json\<close> and the function \<open>to_string\<close>; no law of either is used. For the remote control JSON is \<open>FrameJson\<close>, \<open>SessionJson\<close> and \<open>se_to_vec\<close>; where a round trip is
  claimed, that it reads back what it wrote is a named hypothesis (\<open>reads_back\<close>, \<open>store_reads_back\<close>). \<open>digest\<close> and
  \<open>hash\<close> are SHA-256, of which only the absence of collisions on the keys in use (\<open>collision_free\<close>) is assumed, and
  only where it is stated. Random identifiers, failures of file operations and of writing to a
  client are arguments. What \<open>Instant::now\<close> reads is an argument of each step, the same for
  the whole step: \<open>update_to_clock\<close> of the simulator, which reads its clock again to set the leader playing, uses one reading.
  \<open>session_command\<close> is one step although the gateway takes its locks one after the other; the relay checks the lease again,
  and so does the model. An I/O error of the stream under \<open>next_line\<close>, which the code passes on, is not modelled.

  \<^bold>\<open>What is not modelled.\<close> The texts of errors, serialisation, logging and persistence; the
  session loop and commands of \<open>lumi-engine\<close>; \<open>mirror.rs\<close> of \<open>lumi-library\<close>; sockets, TLS and service discovery of the gateway;
  the timing outputs; SQL storage and the readers of foreign formats; starting and
  stopping the process of the bridge.
\<close>

section \<open>Plans meet the runtime\<close>

text \<open>The planning request the session of the engine builds for a deck of the runtime state.\<close>

definition planner_track :: "TrackMetadata \<Rightarrow> PlannerTrack" where
  "planner_track metadata =
     (if track_phrases metadata = [] then without_analysis (track_id metadata) (track_duration_beats metadata)
      else analyzed metadata)"

definition deck_input :: "DeckId \<Rightarrow> DeckState \<Rightarrow> PlanningInput" where
  "deck_input deck d = \<lparr>input_deck_id = deck, input_track_load_id = deck_track_load_id d,
     input_track = planner_track (deck_metadata d)\<rparr>"

lemma deck_input_complete:
  "track_analyzed (deck_metadata d) \<Longrightarrow>
   complete_phrases (input_track (deck_input deck d)) = Some (track_phrases (deck_metadata d))"
  by (simp add: deck_input_def planner_track_def complete_phrases_def analyzed_def analysis_is_complete_iff
      track_analyzed_def)

lemma deck_input_header [simp]:
  "input_deck_id (deck_input deck d) = deck"
  "input_track_load_id (deck_input deck d) = deck_track_load_id d"
  "ptrack_id (input_track (deck_input deck d)) = deck_track_id d"
  by (simp_all add: deck_input_def planner_track_def without_analysis_def analyzed_def deck_track_id_def)

lemma next_revision_exists:
  assumes "r \<noteq> 0" "r \<noteq> (- 1 :: PlanRevision)"
  shows "\<exists>q. plan_revision_checked_next r = Some q \<and> 1 < q"
proof -
  have "unat r \<noteq> unat (- 1 :: u64)" using assms(2) unsigned_word_eqI by blast
  then have "unat r \<noteq> 2 ^ 64 - 1" by (simp add: unsigned_minus_1_eq_mask mask_eq_exp_minus_1)
  moreover have "unat r < 2 ^ 64" using unsigned_less [of r, where ?'a = nat] by simp
  ultimately have small: "unat r + 1 < 2 ^ 64" by linarith
  then have "plan_revision_checked_next r = Some (r + 1)"
    by (simp add: plan_revision_checked_next_def checked_add_def)
  moreover have "1 < r + 1"
    using small assms(1) unat_add_exact [of r 1] by (simp add: word_less_nat_alt unat_gt_0)
  ultimately show ?thesis by blast
qed

lemma cue_for_phrase_indexed:
  assumes "plan_ok p" "unat idx < length (plan_cues p)"
  shows "cue_for_phrase p idx = Some (plan_cues p ! unat idx)"
proof -
  have "unat (cue_phrase_index (plan_cues p ! unat idx)) = unat idx"
    using plan_parts.part_indexed [OF assms(1)] assms(2) by (simp add: indexed_def)
  then have "cue_phrase_index (plan_cues p ! unat idx) = idx" by (simp add: unsigned_word_eqI)
  then show ?thesis using assms(2) by (simp add: cue_for_phrase_def get_nth_def)
qed

text \<open>
  C7. From analysis to light: a plan generated for an analysed deck that has no plan yet
  is accepted by the reducer, becomes the active plan when the deck leads, and has a cue
  for every phrase the deck can report, over exactly the beats of that phrase and of its
  category.
\<close>

theorem generated_plan_is_adopted:
  assumes gen: "generate_with_context pl (deck_input deck d) context = Inr p"
    and deck: "st_decks s deck = Some d" "st_plans s deck = None"
    and analysed: "track_analyzed (deck_metadata d)"
  shows "reduce_plan_generated s p =
      Inr (s\<lparr>st_plans := (st_plans s)(deck \<mapsto> p),
             st_active_plan := (if st_leader_deck s = Some deck then Some p else st_active_plan s)\<rparr>,
           PlanAccepted, [], True)
    \<and> (\<forall>idx ph. track_phrase (deck_metadata d) idx = Some ph \<longrightarrow>
         (\<exists>c. cue_for_phrase p idx = Some c \<and> fresh_cue ph c))"
proof
  from generate_Inr [OF gen] have ok: "plan_ok p"
    and head: "plan_header pl (deck_input deck d) p"
    and body: "plan_body pl (deck_input deck d) context p" by simp_all
  show "reduce_plan_generated s p =
      Inr (s\<lparr>st_plans := (st_plans s)(deck \<mapsto> p),
             st_active_plan := (if st_leader_deck s = Some deck then Some p else st_active_plan s)\<rparr>,
           PlanAccepted, [], True)"
    using head deck
    by (simp add: reduce_plan_generated_def plan_header_def)
  have cues: "list_all2 fresh_cue (track_phrases (deck_metadata d)) (plan_cues p)"
    using body deck_input_complete [OF analysed, of deck] cue_of_phrase_fresh
    by (auto simp: plan_body_def elim: list_all2_mono)
  show "\<forall>idx ph. track_phrase (deck_metadata d) idx = Some ph \<longrightarrow>
      (\<exists>c. cue_for_phrase p idx = Some c \<and> fresh_cue ph c)"
    using cue_for_phrase_indexed [OF ok] list_all2_nthD [OF cues] list_all2_lengthD [OF cues]
    by (auto simp: track_phrase_def get_nth_eq)
qed

text \<open>
  C9. Editing and reducing agree on revisions: the result of an accepted edit of the
  deck's current plan is always the revision the reducer expects, so it is accepted, and
  is neither stale nor a gap.
\<close>

theorem edited_plan_is_adopted:
  assumes edit: "apply_edit pl p e = Inr q"
    and deck: "st_decks s (plan_deck_id p) = Some d" "st_plans s (plan_deck_id p) = Some p"
    and load: "deck_track_load_id d = plan_track_load_id p" "deck_track_id d = plan_track_id p"
  shows "reduce_plan_generated s q =
      Inr (s\<lparr>st_plans := (st_plans s)(plan_deck_id p \<mapsto> q),
             st_active_plan :=
               (if st_leader_deck s = Some (plan_deck_id p) then Some q else st_active_plan s)\<rparr>,
           PlanAccepted, [], True)"
  using apply_edit_next [OF edit] deck load
  by (simp add: reduce_plan_generated_def next_revision_def same_header_def)

text \<open>
  Planning a load once is enough: while a deck has a well-formed plan for its load, a
  plan generated from scratch for the same deck carries the first revision and is ignored
  as stale; the plan the user may have edited stays, whatever the new one decided.
\<close>

theorem replanning_is_stale:
  assumes gen: "generate_with_context pl (deck_input deck d) context = Inr p"
    and deck: "st_decks s deck = Some d" "st_plans s deck = Some current"
    and room: "plan_ok current" "plan_revision current \<noteq> - 1"
  shows "reduce_plan_generated s p = Inr (s, StalePlanIgnored, [], False)"
proof -
  have head: "plan_header pl (deck_input deck d) p" using generate_Inr [OF gen] by simp
  obtain r where r: "plan_revision_checked_next (plan_revision current) = Some r" "1 < r"
    using next_revision_exists room by (auto simp: plan_ok_def)
  then show ?thesis
    using head deck by (simp add: reduce_plan_generated_def plan_header_def plan_revision_initial_def)
qed

section \<open>Witnesses\<close>

definition planned_deck :: DeckState where
  "planned_deck = demo_deck\<lparr>deck_metadata := demo_track\<lparr>track_id := 7\<rparr>, deck_track_load_id := 11\<rparr>"

definition planned_state :: RuntimeState where
  "planned_state = live_state\<lparr>st_decks := [1 \<mapsto> planned_deck], st_plans := Map.empty\<rparr>"

lemma planned_deck_input: "deck_input 1 planned_deck = demo_input"
  by (simp add: deck_input_def planner_track_def planned_deck_def demo_deck_def demo_track_def analyzed_def demo_input_def
      with_analysis_def demo_phrases_def)

theorem generated_plan_is_adopted_witness:
  "generate_with_context epic_one (deck_input 1 planned_deck) default_selection_context = Inr demo_generated
   \<and> (\<exists>s'. reduce_plan_generated planned_state demo_generated = Inr (s', PlanAccepted, [], True)
        \<and> st_active_plan s' = Some demo_generated)"
proof -
  have gen: "generate_with_context epic_one (deck_input 1 planned_deck) default_selection_context
      = Inr demo_generated"
    unfolding planned_deck_input by (rule demo_generate)
  have "track_analyzed (deck_metadata planned_deck)"
    by (simp add: planned_deck_def demo_deck_def demo_track_def track_analyzed_def indexed_def less_Suc_eq)
  with generated_plan_is_adopted [OF gen, of planned_state] gen show ?thesis
    by (simp add: planned_state_def live_state_def)
qed

theorem edited_plan_is_adopted_witness:
  "\<exists>s'. reduce_plan_generated (planned_state\<lparr>st_plans := [1 \<mapsto> demo_rotated]\<rparr>) demo_locked
      = Inr (s', PlanAccepted, [], True)"
proof -
  have "apply_edit epic_one demo_rotated (SetCueLock 0 True) = Inr demo_locked"
    using demo_lock by simp
  from edited_plan_is_adopted [OF this, of "planned_state\<lparr>st_plans := [1 \<mapsto> demo_rotated]\<rparr>" planned_deck]
  show ?thesis
    by (simp add: planned_state_def live_state_def demo_rotated_def demo_generated_def planned_deck_def
        demo_deck_def demo_track_def deck_track_id_def)
qed

theorem replanning_is_stale_witness:
  "generate_with_context epic_one (deck_input 1 planned_deck) default_selection_context = Inr demo_generated
   \<and> reduce_plan_generated (planned_state\<lparr>st_plans := [1 \<mapsto> demo_rotated]\<rparr>) demo_generated
       = Inr (planned_state\<lparr>st_plans := [1 \<mapsto> demo_rotated]\<rparr>, StalePlanIgnored, [], False)"
proof -
  have gen: "generate_with_context epic_one (deck_input 1 planned_deck) default_selection_context
      = Inr demo_generated"
    unfolding planned_deck_input by (rule demo_generate)
  have ok: "plan_ok demo_rotated" using generate_Inr [OF demo_generate_rotated] by simp
  have "plan_revision demo_rotated \<noteq> - 1" by (simp add: demo_rotated_def demo_generated_def)
  with replanning_is_stale [OF gen _ _ ok, of "planned_state\<lparr>st_plans := [1 \<mapsto> demo_rotated]\<rparr>"] gen
  show ?thesis by (simp add: planned_state_def live_state_def)
qed

end
